(* ===== verification/Prelude.thy ===== *)
theory Prelude
  imports Complex_Main "HOL-Library.Word" "HOL-Library.Multiset" "HOL-Library.Monad_Syntax"
begin

text \<open>
  The shared vocabulary of the development: names for the machine types of the two source
  languages, the collections of simplification rules the components extend, and the generic
  facts on words, lists and powers of two that more than one component uses.
\<close>

unbundle bit_operations_syntax

type_synonym u8 = "8 word"
type_synonym u16 = "16 word"
type_synonym u32 = "32 word"
type_synonym u64 = "64 word"

named_theorems driver_defs \<open>definitions of the table-driven test programs\<close>
named_theorems fp_defs \<open>definitions of the floating-point operations\<close>

lemma of_nat_word_eq_0:
  "n < 2 ^ LENGTH('a) \<Longrightarrow> (of_nat n :: 'a::len word) = 0 \<longleftrightarrow> n = 0"
  using nat_dvd_not_less[of n "2 ^ LENGTH('a)"] by (auto simp: word_of_nat_eq_0_iff)

lemma and_power2_nat: "a AND 2 ^ n = of_bool (bit a n) * 2 ^ n" for a :: nat
  by (rule bit_eqI) (auto simp: bit_and_iff bit_exp_iff)

lemma unset_bit_nat: "unset_bit n a + of_bool (bit a n) * 2 ^ n = a" for a :: nat
proof -
  have "int (unset_bit n a) = int a - of_bool (bit a n) * 2 ^ n"
    using unset_bit_eq[of n "int a"] by (simp add: of_nat_unset_bit_eq bit_of_nat_iff_bit)
  then have "int (unset_bit n a + of_bool (bit a n) * 2 ^ n) = int a" by simp
  then show ?thesis by (simp only: of_nat_eq_iff)
qed

lemma next_multiple_le:
  fixes d a y :: nat
  assumes "d dvd y" "\<not> d dvd a" "a \<le> y"
  shows "a div d * d + d \<le> y"
proof -
  obtain k where k: "y = k * d" using assms(1) by (metis dvd_def mult.commute)
  then have "a div d < k" using assms(2,3) by (cases "a = y") (auto intro: less_mult_imp_div_less)
  then have "(a div d + 1) * d \<le> k * d" by (intro mult_right_mono) auto
  then show ?thesis using k by simp
qed

end
