(* ===== verification/C_Float.thy ===== *)
theory C_Float
  imports Prelude
begin

text \<open>
  The binary floating-point values and operations of the C language as the test harness uses
  them: finite numbers are \<open>m * 2 ^ e\<close> with a sign, every operation computes the exact
  result and rounds it once to the format of its type in the current rounding mode
  (IEEE 754 binary32, binary64, the x87 extended format and binary128).
  The quiet NaNs are one value: the harness never looks at a payload or at the sign of a NaN.
\<close>

section \<open>Formats, rounding modes and values\<close>

datatype rmode = To_Nearest | Toward_Zero | Downward | Upward

record fmt =
  prec :: nat
  emin :: int
  emax :: int

definition flt32 :: fmt where
  "flt32 = \<lparr>prec = 24, emin = -149, emax = 104\<rparr>"

definition dbl64 :: fmt where
  "dbl64 = \<lparr>prec = 53, emin = -1074, emax = 971\<rparr>"

definition ldbl80 :: fmt where
  "ldbl80 = \<lparr>prec = 64, emin = -16445, emax = 16320\<rparr>"

definition ldbl128 :: fmt where
  "ldbl128 = \<lparr>prec = 113, emin = -16494, emax = 16271\<rparr>"

lemma fmt_sel [simp]:
  "prec flt32 = 24" "emin flt32 = -149" "emax flt32 = 104"
  "prec dbl64 = 53" "emin dbl64 = -1074" "emax dbl64 = 971"
  "prec ldbl80 = 64" "emin ldbl80 = -16445" "emax ldbl80 = 16320"
  "prec ldbl128 = 113" "emin ldbl128 = -16494" "emax ldbl128 = 16271"
  by (simp_all add: flt32_def dbl64_def ldbl80_def ldbl128_def)

datatype fp = NaN | Inf bool | Fin bool int int

text \<open>The number of binary digits of a positive integer.\<close>

function nbits :: "int \<Rightarrow> nat" where
  "nbits m = (if m \<le> 0 then 0 else Suc (nbits (m div 2)))"
  by pat_completeness auto
termination
  by (relation "measure nat") auto

declare nbits.simps [simp del]

section \<open>Rounding\<close>

definition round_up :: "rmode \<Rightarrow> bool \<Rightarrow> int \<Rightarrow> int \<Rightarrow> int \<Rightarrow> bool" where
  "round_up md s q rest w \<longleftrightarrow> rest \<noteq> 0 \<and>
     (case md of
        To_Nearest \<Rightarrow> 2 * rest > w \<or> (2 * rest = w \<and> odd q)
      | Toward_Zero \<Rightarrow> False
      | Downward \<Rightarrow> s
      | Upward \<Rightarrow> \<not> s)"

definition fp_overflow :: "fmt \<Rightarrow> rmode \<Rightarrow> bool \<Rightarrow> fp" where
  "fp_overflow f md s =
     (if md = To_Nearest \<or> (md = Downward \<and> s) \<or> (md = Upward \<and> \<not> s)
      then Inf s else Fin s (2 ^ prec f - 1) (emax f))"

definition quotient :: "rmode \<Rightarrow> bool \<Rightarrow> int \<Rightarrow> int \<Rightarrow> int \<Rightarrow> int" where
  "quotient md s m e e' =
     (if e' \<le> e then m * 2 ^ nat (e - e')
      else (let w = 2 ^ nat (e' - e); q = m div w
            in if round_up md s q (m mod w) w then q + 1 else q))"

text \<open>\<open>fp_round f md s m e\<close> rounds the magnitude \<open>m * 2 ^ e\<close> with sign \<open>s\<close> to format \<open>f\<close>.\<close>

definition fp_round :: "fmt \<Rightarrow> rmode \<Rightarrow> bool \<Rightarrow> int \<Rightarrow> int \<Rightarrow> fp" where
  "fp_round f md s m e =
     (if m = 0 then Fin s 0 (emin f)
      else (let e' = max (e + int (nbits m) - int (prec f)) (emin f);
                q = quotient md s m e e'
            in if q = 2 ^ prec f
               then (if e' + 1 > emax f then fp_overflow f md s
                     else Fin s (2 ^ (prec f - 1)) (e' + 1))
               else if e' > emax f then fp_overflow f md s
               else Fin s q e'))"

section \<open>Operations\<close>

definition isnan :: "fp \<Rightarrow> bool" where
  "isnan x \<longleftrightarrow> x = NaN"

fun isinf :: "fp \<Rightarrow> bool" where
  "isinf (Inf s) = True"
| "isinf _ = False"

fun isfinite :: "fp \<Rightarrow> bool" where
  "isfinite (Fin s m e) = True"
| "isfinite _ = False"

fun signbit :: "fp \<Rightarrow> bool" where
  "signbit NaN = False"
| "signbit (Inf s) = s"
| "signbit (Fin s m e) = s"

fun fabs :: "fp \<Rightarrow> fp" where
  "fabs NaN = NaN"
| "fabs (Inf s) = Inf False"
| "fabs (Fin s m e) = Fin False m e"

fun fp_neg :: "fp \<Rightarrow> fp" where
  "fp_neg NaN = NaN"
| "fp_neg (Inf s) = Inf (\<not> s)"
| "fp_neg (Fin s m e) = Fin (\<not> s) m e"

definition copysign :: "fp \<Rightarrow> fp \<Rightarrow> fp" where
  "copysign x y = (if signbit x = signbit y then x else fp_neg x)"

text \<open>The integer a finite number is at the scale \<open>2 ^ k\<close>, for \<open>k\<close> at most its exponent.\<close>

definition scaled :: "bool \<Rightarrow> int \<Rightarrow> int \<Rightarrow> int \<Rightarrow> int" where
  "scaled s m e k = (if s then - 1 else 1) * (m * 2 ^ nat (e - k))"

fun fp_add :: "fmt \<Rightarrow> rmode \<Rightarrow> fp \<Rightarrow> fp \<Rightarrow> fp" where
  "fp_add f md NaN y = NaN"
| "fp_add f md (Inf s) NaN = NaN"
| "fp_add f md (Inf s) (Inf s') = (if s = s' then Inf s else NaN)"
| "fp_add f md (Inf s) (Fin _ _ _) = Inf s"
| "fp_add f md (Fin _ _ _) NaN = NaN"
| "fp_add f md (Fin _ _ _) (Inf s) = Inf s"
| "fp_add f md (Fin s m e) (Fin s' m' e') =
     (let k = min e e'; v = scaled s m e k + scaled s' m' e' k
      in if v = 0 then Fin (if s = s' then s else md = Downward) 0 (emin f)
         else fp_round f md (v < 0) \<bar>v\<bar> k)"

definition fp_sub :: "fmt \<Rightarrow> rmode \<Rightarrow> fp \<Rightarrow> fp \<Rightarrow> fp" where
  "fp_sub f md x y = fp_add f md x (fp_neg y)"

fun fp_mul :: "fmt \<Rightarrow> rmode \<Rightarrow> fp \<Rightarrow> fp \<Rightarrow> fp" where
  "fp_mul f md NaN y = NaN"
| "fp_mul f md (Inf s) NaN = NaN"
| "fp_mul f md (Inf s) (Inf s') = Inf (s \<noteq> s')"
| "fp_mul f md (Inf s) (Fin s' m e) = (if m = 0 then NaN else Inf (s \<noteq> s'))"
| "fp_mul f md (Fin _ _ _) NaN = NaN"
| "fp_mul f md (Fin s' m e) (Inf s) = (if m = 0 then NaN else Inf (s \<noteq> s'))"
| "fp_mul f md (Fin s m e) (Fin s' m' e') = fp_round f md (s \<noteq> s') (m * m') (e + e')"

fun fp_convert :: "fmt \<Rightarrow> rmode \<Rightarrow> fp \<Rightarrow> fp" where
  "fp_convert f md (Fin s m e) = fp_round f md s m e"
| "fp_convert f md x = x"

fun scalbn :: "fmt \<Rightarrow> rmode \<Rightarrow> fp \<Rightarrow> int \<Rightarrow> fp" where
  "scalbn f md (Fin s m e) n = fp_round f md s m (e + n)"
| "scalbn f md x n = x"

fun fp_lt :: "fp \<Rightarrow> fp \<Rightarrow> bool" where
  "fp_lt NaN y = False"
| "fp_lt x NaN = False"
| "fp_lt (Inf s) (Inf s') = (s \<and> \<not> s')"
| "fp_lt (Inf s) (Fin _ _ _) = s"
| "fp_lt (Fin _ _ _) (Inf s) = (\<not> s)"
| "fp_lt (Fin s m e) (Fin s' m' e') =
     (let k = min e e' in scaled s m e k < scaled s' m' e' k)"

fun fp_eq :: "fp \<Rightarrow> fp \<Rightarrow> bool" where
  "fp_eq NaN y = False"
| "fp_eq x NaN = False"
| "fp_eq (Inf s) (Inf s') = (s = s')"
| "fp_eq (Inf s) (Fin _ _ _) = False"
| "fp_eq (Fin _ _ _) (Inf s) = False"
| "fp_eq (Fin s m e) (Fin s' m' e') =
     (let k = min e e' in scaled s m e k = scaled s' m' e' k)"

definition fp_le :: "fp \<Rightarrow> fp \<Rightarrow> bool" where
  "fp_le x y \<longleftrightarrow> fp_lt x y \<or> fp_eq x y"

section \<open>Canonical values\<close>

text \<open>
  The invariant of a value of type \<open>float\<close>, \<open>double\<close> or \<open>long double\<close>: the significand fits
  the precision and is normalised unless the exponent is the least one.
\<close>

fun fp_ok :: "fmt \<Rightarrow> fp \<Rightarrow> bool" where
  "fp_ok f (Fin s m e) \<longleftrightarrow>
     0 \<le> m \<and> m < 2 ^ prec f \<and> emin f \<le> e \<and> e \<le> emax f \<and>
     (2 ^ (prec f - 1) \<le> m \<or> e = emin f)"
| "fp_ok f _ \<longleftrightarrow> True"

definition fmt_ok :: "fmt \<Rightarrow> bool" where
  "fmt_ok f \<longleftrightarrow> 1 < prec f \<and> emin f < emax f"

section \<open>Magnitudes and the lower bounds rounding keeps\<close>

lemma nbits_0 [simp]: "nbits 0 = 0"
  by (subst nbits.simps) simp

lemma nbits_pos: "0 < m \<Longrightarrow> nbits m = Suc (nbits (m div 2))"
  by (subst nbits.simps) simp

lemma nbits_bounds: "0 < m \<Longrightarrow> 2 ^ (nbits m - 1) \<le> m \<and> m < 2 ^ nbits m"
proof (induction m rule: nbits.induct)
  case (1 m)
  show ?case
  proof (cases "m = 1")
    case True
    then show ?thesis by (simp add: nbits_pos)
  next
    case False
    with "1.prems" have h: "0 < m div 2" by simp
    with "1.IH" "1.prems" have IH: "2 ^ (nbits (m div 2) - 1) \<le> m div 2" "m div 2 < 2 ^ nbits (m div 2)"
      by auto
    have n: "nbits (m div 2) = Suc (nbits (m div 2) - 1)" using h by (simp add: nbits_pos)
    have "2 * 2 ^ (nbits (m div 2) - 1) \<le> m" using IH(1) by linarith
    moreover have "m < 2 * 2 ^ nbits (m div 2)" using IH(2) by linarith
    ultimately show ?thesis
      using "1.prems" n by (metis nbits_pos diff_Suc_1 power_Suc)
  qed
qed

definition mag :: "int \<Rightarrow> int \<Rightarrow> real" where
  "mag m e = real_of_int m * 2 powi e"

lemma mag_shift: "k \<le> e \<Longrightarrow> mag m e = mag (m * 2 ^ nat (e - k)) k"
proof -
  assume "k \<le> e"
  then have "(2::real) powi (e - k) = 2 ^ nat (e - k)" by (simp add: power_int_def)
  moreover have "2 powi e = (2::real) powi (e - k) * 2 powi k" by (simp flip: power_int_add)
  ultimately show ?thesis by (simp add: mag_def)
qed

lemma mag_le_iff [simp]: "mag a e \<le> mag b e \<longleftrightarrow> a \<le> b"
  by (simp add: mag_def)

lemma mag_less_iff [simp]: "mag a e < mag b e \<longleftrightarrow> a < b"
  by (simp add: mag_def)

lemma mag_pow2: "mag (2 ^ n) e = 2 powi (int n + e)"
  by (simp add: mag_def power_int_add)

lemma nbits_gt_0: "0 < m \<Longrightarrow> 0 < nbits m"
  by (simp add: nbits_pos)

lemma quotient_ge:
  assumes "0 < m" and "mag k e' \<le> mag m e"
  shows "k \<le> quotient md s m e e'"
proof (cases "e' \<le> e")
  case True
  then show ?thesis using assms mag_shift[OF True, of m] by (simp add: quotient_def)
next
  case False
  then have "mag k e' = mag (k * 2 ^ nat (e' - e)) e" by (intro mag_shift) simp
  then have "k * 2 ^ nat (e' - e) \<le> m" using assms by simp
  then have "k \<le> m div 2 ^ nat (e' - e)"
    by (metis zdiv_mono1 nonzero_mult_div_cancel_right power_not_zero zero_less_numeral zero_less_power
        zero_neq_numeral)
  then show ?thesis using False by (simp add: quotient_def Let_def)
qed

text \<open>A value with sign \<open>s\<close> and a magnitude of at least \<open>v\<close>.\<close>

definition at_least :: "bool \<Rightarrow> real \<Rightarrow> fp \<Rightarrow> bool" where
  "at_least s v x \<longleftrightarrow> x = Inf s \<or> (\<exists>q e. x = Fin s q e \<and> 0 \<le> q \<and> v \<le> mag q e)"

lemma at_least_overflow:
  assumes "fmt_ok f" "0 < k" "k < 2 ^ prec f" "j \<le> emax f"
  shows "at_least s (mag k j) (fp_overflow f md s)"
proof -
  have "mag k j \<le> mag (2 ^ prec f - 1) j" using assms by simp
  also have "\<dots> \<le> mag (2 ^ prec f - 1) (emax f)"
    using assms by (auto simp: mag_def intro!: mult_left_mono power_int_increasing)
  finally show ?thesis using assms by (auto simp: at_least_def fp_overflow_def)
qed

lemma fp_round_ge:
  assumes f: "fmt_ok f" and m: "0 < m" and k: "0 < k" "k < 2 ^ prec f"
    and j: "emin f \<le> j" "j \<le> emax f" and le: "mag k j \<le> mag m e"
  shows "at_least s (mag k j) (fp_round f md s m e)"
proof -
  define e' where "e' = max (e + int (nbits m) - int (prec f)) (emin f)"
  define q where "q = quotient md s m e e'"
  have p: "1 < prec f" using f by (simp add: fmt_ok_def)
  have kq: "mag k j \<le> mag q e'"
  proof (cases "e' \<le> j")
    case True
    then show ?thesis using quotient_ge[OF m, of "k * 2 ^ nat (j - e')"] le mag_shift[OF True, of k]
      by (simp add: q_def)
  next
    case False
    with j have e': "e' = e + int (nbits m) - int (prec f)" by (simp add: e'_def)
    have "mag (2 ^ (prec f - 1)) e' = mag (2 ^ (nbits m - 1)) e"
      using p nbits_gt_0[OF m] by (simp add: mag_pow2 e' of_nat_diff algebra_simps)
    also have "\<dots> \<le> mag m e" using nbits_bounds[OF m] by simp
    finally have "2 ^ (prec f - 1) \<le> q" unfolding q_def by (rule quotient_ge[OF m])
    moreover have "mag k j \<le> mag (2 ^ (prec f - 1)) e'"
    proof -
      have "mag k j \<le> mag (2 ^ prec f) j" using k by simp
      also have "\<dots> \<le> mag (2 ^ (prec f - 1)) e'"
        using False p by (simp add: mag_pow2 of_nat_diff power_int_increasing)
      finally show ?thesis .
    qed
    ultimately show ?thesis by (meson mag_le_iff order_trans)
  qed
  have "0 \<le> q" using quotient_ge[OF m, of 0 e' e] m by (simp add: q_def mag_def)
  moreover have "mag (2 ^ prec f) e' = mag (2 ^ (prec f - 1)) (e' + 1)"
    using p by (simp add: mag_pow2 of_nat_diff)
  ultimately show ?thesis
    using kq m at_least_overflow[OF f k j(2)]
    by (auto simp: fp_round_def Let_def at_least_def simp flip: e'_def q_def)
qed

section \<open>Values\<close>

primrec val :: "fp \<Rightarrow> real" where
  "val NaN = 0"
| "val (Inf s) = 0"
| "val (Fin s m e) = (if s then - 1 else 1) * mag m e"

lemma val_neg [simp]: "val (fp_neg x) = - val x"
  by (cases x) auto

lemma scaled_mag: "k \<le> e \<Longrightarrow> mag (scaled s m e k) k = val (Fin s m e)"
  using mag_shift[of k e m] by (auto simp: scaled_def mag_def)

lemma mag_abs: "mag \<bar>v\<bar> k = \<bar>mag v k\<bar>"
  by (simp add: mag_def abs_mult)

lemma mag_add: "mag (a + b) k = mag a k + mag b k"
  by (simp add: mag_def algebra_simps)

lemma mag_0 [simp]: "mag 0 k = 0"
  by (simp add: mag_def)

lemma mag_pos_iff [simp]: "0 < mag v k \<longleftrightarrow> 0 < v"
  by (metis mag_0 mag_less_iff)

lemma mag_neg_iff [simp]: "mag v k < 0 \<longleftrightarrow> v < 0"
  by (metis mag_0 mag_less_iff)

lemma fp_add_ge:
  assumes f: "fmt_ok f" and fin: "isfinite x" "isfinite y"
    and k: "0 < k" "k < 2 ^ prec f" and j: "emin f \<le> j" "j \<le> emax f"
    and le: "mag k j \<le> \<bar>val x + val y\<bar>"
  shows "at_least (val x + val y < 0) (mag k j) (fp_add f md x y)"
proof -
  obtain s m e s' m' e' where xy: "x = Fin s m e" "y = Fin s' m' e'"
    using fin by (cases x; cases y) auto
  define i where "i = min e e'"
  define v where "v = scaled s m e i + scaled s' m' e' i"
  have v: "mag v i = val x + val y"
    using scaled_mag[of i e s m] scaled_mag[of i e' s' m'] by (simp add: v_def xy i_def mag_add)
  have "0 < mag k j" using k by simp
  with le v have "v \<noteq> 0" by (auto simp: mag_def)
  moreover have "at_least (v < 0) (mag k j) (fp_round f md (v < 0) \<bar>v\<bar> i)"
    using le v \<open>v \<noteq> 0\<close> by (intro fp_round_ge[OF f _ k j]) (auto simp: mag_abs)
  moreover have "(v < 0) = (val x + val y < 0)" using v by (metis mag_neg_iff)
  ultimately show ?thesis by (simp add: xy Let_def flip: i_def v_def)
qed

lemma at_least_round:
  assumes f: "fmt_ok f" and k: "0 < k" "k < 2 ^ prec f"
    and j: "emin f \<le> j" "j \<le> emax f" and x: "at_least s v x" and v: "0 < v"
  shows "mag k j \<le> v \<Longrightarrow> at_least s (mag k j) (fp_convert f md x)"
    and "mag k (j - n) \<le> v \<Longrightarrow> at_least s (mag k j) (scalbn f md x n)"
proof -
  assume le: "mag k j \<le> v"
  show "at_least s (mag k j) (fp_convert f md x)"
  proof (cases "x = Inf s")
    case False
    then obtain q e where q: "x = Fin s q e" "0 \<le> q" "v \<le> mag q e"
      using x by (auto simp: at_least_def)
    with v have "0 < q" by (metis less_le_trans mag_pos_iff)
    then show ?thesis using q le by (auto intro: fp_round_ge[OF f _ k j])
  qed (simp add: at_least_def)
next
  assume le: "mag k (j - n) \<le> v"
  show "at_least s (mag k j) (scalbn f md x n)"
  proof (cases "x = Inf s")
    case False
    then obtain q e where q: "x = Fin s q e" "0 \<le> q" "v \<le> mag q e"
      using x by (auto simp: at_least_def)
    with v have "0 < q" by (metis less_le_trans mag_pos_iff)
    moreover have "mag k j \<le> mag q (e + n)"
    proof -
      have "mag k (j - n) * 2 powi n \<le> mag q e * 2 powi n" using le q by (simp add: mult_right_mono)
      then show ?thesis by (simp add: mag_def power_int_add power_int_diff)
    qed
    ultimately show ?thesis using q by (auto intro: fp_round_ge[OF f _ k j])
  qed (simp add: at_least_def)
qed


lemma scaled_eq_val:
  "scaled s m e (min e e') = scaled s' m' e' (min e e') \<Longrightarrow> val (Fin s m e) = val (Fin s' m' e')"
  by (metis min.cobounded1 min.cobounded2 scaled_mag)

lemma fp_eq_val: "fp_eq x y \<Longrightarrow> isfinite x \<Longrightarrow> isfinite y \<Longrightarrow> val x = val y"
  by (cases x; cases y) (auto simp: Let_def simp del: val.simps dest: scaled_eq_val)

lemma fmt_ok_formats [simp]:
  "fmt_ok flt32" "fmt_ok dbl64" "fmt_ok ldbl80" "fmt_ok ldbl128"
  by (simp_all add: fmt_ok_def flt32_def dbl64_def ldbl80_def ldbl128_def)

lemma fp_add_Inf: "isfinite y \<Longrightarrow> fp_add f md (Inf s) y = Inf s"
  by (cases y) auto

text \<open>The value computed for the error is at least the threshold when the operands are far apart.\<close>

lemma ulp_chain_ge:
  assumes f: "fmt_ok f" "fmt_ok g" and fin: "isfinite x" "isfinite y" "isfinite dw"
    and b: "0 < b" "b < 2 ^ prec f" "b < 2 ^ prec g" "emin f \<le> E" "E \<le> emax f" "emin g \<le> 0" "0 \<le> emax g"
    and t: "0 < t" "t < 2 ^ prec g" "t < 2 ^ 24" "emin g \<le> j" "j \<le> emax g" "- 149 \<le> j" "j \<le> 104"
    and far: "mag b E \<le> \<bar>val x - val y\<bar>"
    and dw: "\<bar>val dw\<bar> \<le> mag b 0 - mag t j"
  shows "\<exists>s. at_least s (mag t j) (fp_convert flt32 md
           (fp_add g md (scalbn g md (fp_sub f md x y) (- E)) dw))"
proof -
  define s where "s = (val x + val (fp_neg y) < 0)"
  have "isfinite (fp_neg y)" using fin by (cases y) auto
  then have "at_least s (mag b E) (fp_sub f md x y)"
    unfolding s_def fp_sub_def using f fin b far by (intro fp_add_ge) auto
  then have d2: "at_least s (mag b 0) (scalbn g md (fp_sub f md x y) (- E))"
    using f b by (intro at_least_round) auto
  let ?d2 = "scalbn g md (fp_sub f md x y) (- E)"
  have "at_least s (mag t j) (fp_add g md ?d2 dw)"
  proof (cases "?d2 = Inf s")
    case True
    then show ?thesis using fin by (simp add: fp_add_Inf at_least_def)
  next
    case False
    then obtain q e where q: "?d2 = Fin s q e" "mag b 0 \<le> mag q e"
      using d2 by (auto simp: at_least_def)
    have pos: "0 < mag t j" using t by simp
    have "mag t j \<le> \<bar>val ?d2 + val dw\<bar>" using q dw by (cases s) auto
    moreover have "\<bar>val dw\<bar> < mag q e" using q dw pos by linarith
    then have "(val ?d2 + val dw < 0) = s" using q by (cases s) auto
    ultimately show ?thesis using fp_add_ge[of g ?d2 dw t j md] f fin t q by simp
  qed
  then have "at_least s (mag t j) (fp_convert flt32 md (fp_add g md ?d2 dw))"
    using t by (intro at_least_round) auto
  then show ?thesis ..
qed

lemma at_least_not_lt:
  "at_least s (mag t j) d \<Longrightarrow> \<not> fp_lt (fabs d) (Fin False t j)"
  using scaled_mag[where s = False]
  apply (auto simp: at_least_def Let_def)
  by (metis (no_types, opaque_lifting) linorder_not_less mag_less_iff min.cobounded1 min.cobounded2 mult_1 val.simps(3))

lemma fp_NaN_propagates [simp]:
  "fp_add f md x NaN = NaN" "fp_mul f md x NaN = NaN" "\<not> fp_eq x NaN" "\<not> fp_lt x NaN"
  by (cases x; simp)+

end
