(* ===== verification/Mtest.thy ===== *)
theory Mtest
  imports C_Float
begin

text \<open>
  \<^verbatim>\<open>libc-test/src/common/mtest.h\<close> and \<^verbatim>\<open>mtest.c\<close>: the support code of the table-driven tests of
  the mathematical library.  The feature macros the header tests with \<^verbatim>\<open>#ifdef\<close> are the fields
  of a configuration record, so the definitions below are those of every target at once.
\<close>

section \<open>Configuration and header macros\<close>

record fe_cfg =
  FE_TONEAREST :: "int option"
  FE_TOWARDZERO :: "int option"
  FE_DOWNWARD :: "int option"
  FE_UPWARD :: "int option"
  FE_INEXACT :: "int option"
  FE_INVALID :: "int option"
  FE_DIVBYZERO :: "int option"
  FE_UNDERFLOW :: "int option"
  FE_OVERFLOW :: "int option"
  LDBL_MANT_DIG :: nat
  CHECK_INEXACT :: bool
  CHECK_INEXACT_OMISSION :: bool

definition ifdef :: "int option \<Rightarrow> int \<Rightarrow> int" where
  "ifdef m d = (case m of Some v \<Rightarrow> v | None \<Rightarrow> d)"

definition RN :: "fe_cfg \<Rightarrow> int" where "RN c = ifdef (FE_TONEAREST c) 0"
definition RZ :: "fe_cfg \<Rightarrow> int" where "RZ c = ifdef (FE_TOWARDZERO c) (-1)"
definition RD :: "fe_cfg \<Rightarrow> int" where "RD c = ifdef (FE_DOWNWARD c) (-1)"
definition RU :: "fe_cfg \<Rightarrow> int" where "RU c = ifdef (FE_UPWARD c) (-1)"

definition INEXACT :: "fe_cfg \<Rightarrow> int" where "INEXACT c = ifdef (FE_INEXACT c) 0"
definition INVALID :: "fe_cfg \<Rightarrow> int" where "INVALID c = ifdef (FE_INVALID c) 0"
definition DIVBYZERO :: "fe_cfg \<Rightarrow> int" where "DIVBYZERO c = ifdef (FE_DIVBYZERO c) 0"
definition UNDERFLOW :: "fe_cfg \<Rightarrow> int" where "UNDERFLOW c = ifdef (FE_UNDERFLOW c) 0"
definition OVERFLOW :: "fe_cfg \<Rightarrow> int" where "OVERFLOW c = ifdef (FE_OVERFLOW c) 0"

text \<open>The values of musl's \<^verbatim>\<open>fenv.h\<close> on riscv64, the target of the Makefile.\<close>

definition riscv64 :: fe_cfg where
  "riscv64 = \<lparr>FE_TONEAREST = Some 0, FE_TOWARDZERO = Some 1, FE_DOWNWARD = Some 2,
     FE_UPWARD = Some 3, FE_INEXACT = Some 1, FE_INVALID = Some 16, FE_DIVBYZERO = Some 8,
     FE_UNDERFLOW = Some 2, FE_OVERFLOW = Some 4, LDBL_MANT_DIG = 113,
     CHECK_INEXACT = False, CHECK_INEXACT_OMISSION = False\<rparr>"

definition ldbl :: "fe_cfg \<Rightarrow> fmt" where
  "ldbl c = (if LDBL_MANT_DIG c = 53 then dbl64
             else if LDBL_MANT_DIG c = 64 then ldbl80 else ldbl128)"

section \<open>The floating-point environment\<close>

text \<open>
  The rounding direction as \<^verbatim>\<open>fegetround\<close> reports it and the raised exception flags as
  \<^verbatim>\<open>fetestexcept(FE_ALL_EXCEPT)\<close> reports them.  \<^verbatim>\<open>fesetround\<close> with an argument that is not a
  supported direction changes nothing; its result is never read by the tests.
\<close>

record fenv =
  rounding :: int
  flags :: int

definition fe_modes :: "fe_cfg \<Rightarrow> int list" where
  "fe_modes c = List.map_filter id [FE_TONEAREST c, FE_TOWARDZERO c, FE_DOWNWARD c, FE_UPWARD c]"

definition fesetround :: "fe_cfg \<Rightarrow> int \<Rightarrow> fenv \<Rightarrow> fenv" where
  "fesetround c r env = (if r \<in> set (fe_modes c) then env\<lparr>rounding := r\<rparr> else env)"

definition feclearexcept_all :: "fenv \<Rightarrow> fenv" where
  "feclearexcept_all env = env\<lparr>flags := 0\<rparr>"

definition fetestexcept :: "int \<Rightarrow> fenv \<Rightarrow> int" where
  "fetestexcept excepts env = flags env AND excepts"

definition all5 :: "fe_cfg \<Rightarrow> int" where
  "all5 c = INEXACT c OR INVALID c OR DIVBYZERO c OR UNDERFLOW c OR OVERFLOW c"

definition rmode_of :: "fe_cfg \<Rightarrow> fenv \<Rightarrow> rmode" where
  "rmode_of c env =
     (if FE_TOWARDZERO c = Some (rounding env) then Toward_Zero
      else if FE_DOWNWARD c = Some (rounding env) then Downward
      else if FE_UPWARD c = Some (rounding env) then Upward
      else To_Nearest)"

section \<open>Row types\<close>

text \<open>
  The row structs of the header.  A struct for \<open>float\<close> or \<open>long double\<close> rows has the fields of
  the struct for \<open>double\<close> rows, with values of another format, so each shape is one record.
\<close>

record d_d = p_file :: string p_line :: int p_r :: int p_x :: fp p_y :: fp p_dy :: fp p_e :: int
record dd_d = p_file :: string p_line :: int p_r :: int p_x :: fp p_x2 :: fp p_y :: fp p_dy :: fp p_e :: int
record d_di = p_file :: string p_line :: int p_r :: int p_x :: fp p_y :: fp p_dy :: fp p_i :: int p_e :: int
record di_d = p_file :: string p_line :: int p_r :: int p_x :: fp p_i :: int p_y :: fp p_dy :: fp p_e :: int
record d_i = p_file :: string p_line :: int p_r :: int p_x :: fp p_i :: int p_e :: int
record d_dd = p_file :: string p_line :: int p_r :: int p_x :: fp p_y :: fp p_dy :: fp p_y2 :: fp p_dy2 :: fp p_e :: int
record dd_di = p_file :: string p_line :: int p_r :: int p_x :: fp p_x2 :: fp p_y :: fp p_dy :: fp p_i :: int p_e :: int
record ddd_d = p_file :: string p_line :: int p_r :: int p_x :: fp p_x2 :: fp p_x3 :: fp p_y :: fp p_dy :: fp p_e :: int

type_synonym f_f = d_d
type_synonym l_l = d_d
type_synonym ff_f = dd_d
type_synonym ll_l = dd_d
type_synonym f_fi = d_di
type_synonym l_li = d_di
type_synonym fi_f = di_d
type_synonym li_l = di_d
type_synonym f_i = d_i
type_synonym l_i = d_i
type_synonym f_ff = d_dd
type_synonym l_ll = d_dd
type_synonym ff_fi = dd_di
type_synonym ll_li = dd_di
type_synonym fff_f = ddd_d
type_synonym lll_l = ddd_d

section \<open>Verdicts on one result\<close>

definition checkexcept :: "fe_cfg \<Rightarrow> int \<Rightarrow> int \<Rightarrow> int \<Rightarrow> bool" where
  "checkexcept c got want r =
     (if r = RN c then
        (if CHECK_INEXACT c then got = want
         else if CHECK_INEXACT_OMISSION c then got = want \<or> got = (want OR INEXACT c)
         else (got OR INEXACT c) = (want OR INEXACT c))
      else (got OR INEXACT c OR UNDERFLOW c) = (want OR INEXACT c OR UNDERFLOW c))"

definition checkexceptall :: "int \<Rightarrow> int \<Rightarrow> int \<Rightarrow> bool" where
  "checkexceptall got want r \<longleftrightarrow> got = want"

definition checkulp :: "fe_cfg \<Rightarrow> fp \<Rightarrow> int \<Rightarrow> bool" where
  "checkulp c d r =
     (if r = RN c then fp_lt (fabs d) (Fin False 3 (-1))
      else fp_lt (fabs d) (Fin False 3 0))"

definition checkcr :: "fp \<Rightarrow> fp \<Rightarrow> int \<Rightarrow> bool" where
  "checkcr y ywant r =
     (if isnan ywant then isnan y
      else fp_eq y ywant \<and> signbit y = signbit ywant)"

section \<open>Bit patterns and the exponent of the last place\<close>

text \<open>The exponent field of a canonical value of format \<open>f\<close>.\<close>

definition biased :: "fmt \<Rightarrow> int \<Rightarrow> int \<Rightarrow> int" where
  "biased f m e = (if m < 2 ^ (prec f - 1) then 0 else e - emin f + 1)"

fun asuint32 :: "fp \<Rightarrow> u32" where
  "asuint32 NaN = 0x7fc00000"
| "asuint32 (Inf s) = word_of_int ((if s then 2 ^ 31 else 0) + 0xff * 2 ^ 23)"
| "asuint32 (Fin s m e) =
     word_of_int ((if s then 2 ^ 31 else 0) + biased flt32 m e * 2 ^ 23 + m mod 2 ^ 23)"

fun asuint64 :: "fp \<Rightarrow> u64" where
  "asuint64 NaN = 0x7ff8000000000000"
| "asuint64 (Inf s) = word_of_int ((if s then 2 ^ 63 else 0) + 0x7ff * 2 ^ 52)"
| "asuint64 (Fin s m e) =
     word_of_int ((if s then 2 ^ 63 else 0) + biased dbl64 m e * 2 ^ 52 + m mod 2 ^ 52)"

text \<open>The 16-bit sign and exponent half of the x87 format.\<close>

fun asuint80_e :: "fp \<Rightarrow> u16" where
  "asuint80_e NaN = 0x7fff"
| "asuint80_e (Inf s) = word_of_int ((if s then 2 ^ 15 else 0) + 0x7fff)"
| "asuint80_e (Fin s m e) = word_of_int ((if s then 2 ^ 15 else 0) + biased ldbl80 m e)"

definition eulpf :: "fp \<Rightarrow> int" where
  "eulpf x = (let e = uint (drop_bit 23 (asuint32 x) AND 0xff);
                  e = (if e = 0 then e + 1 else e)
              in e - 0x7f - 23)"

definition eulp :: "fp \<Rightarrow> int" where
  "eulp x = (let e = uint (drop_bit 52 (asuint64 x) AND 0x7ff);
                 e = (if e = 0 then e + 1 else e)
             in e - 0x3ff - 52)"

definition eulpl :: "fe_cfg \<Rightarrow> fp \<Rightarrow> int" where
  "eulpl c x =
     (if LDBL_MANT_DIG c = 53 then eulp x
      else if LDBL_MANT_DIG c = 64 then
        (let e = uint (asuint80_e x AND 0x7fff);
             e = (if e = 0 then e + 1 else e)
         in e - 0x3fff - 63)
      else 0)"

section \<open>Errors in units in the last place\<close>

text \<open>
  The arithmetic runs in the rounding mode the row has selected, with each operation rounded to
  the format of its C type (\<^verbatim>\<open>FLT_EVAL_METHOD\<close> 0).
\<close>

definition ulperrf :: "rmode \<Rightarrow> fp \<Rightarrow> fp \<Rightarrow> fp \<Rightarrow> fp" where
  "ulperrf md got want dwant =
     (if isnan got \<and> isnan want then Fin False 0 (emin flt32)
      else if fp_eq got want then
        (if signbit got = signbit want then dwant else Inf False)
      else (let (got, want) =
                  (if isinf got
                   then (copysign (Fin False 1 127) got,
                         fp_convert flt32 md (fp_mul dbl64 md want (Fin False 1 (-1))))
                   else (got, want))
            in fp_convert flt32 md
                 (fp_add dbl64 md
                    (scalbn dbl64 md (fp_sub flt32 md got want) (- eulpf want)) dwant)))"

definition ulperr :: "rmode \<Rightarrow> fp \<Rightarrow> fp \<Rightarrow> fp \<Rightarrow> fp" where
  "ulperr md got want dwant =
     (if isnan got \<and> isnan want then Fin False 0 (emin flt32)
      else if fp_eq got want then
        (if signbit got = signbit want then dwant else Inf False)
      else (let (got, want) =
                  (if isinf got
                   then (copysign (Fin False 1 1023) got, fp_mul dbl64 md want (Fin False 1 (-1)))
                   else (got, want))
            in fp_convert flt32 md
                 (fp_add dbl64 md
                    (scalbn dbl64 md (fp_sub dbl64 md got want) (- eulp want)) dwant)))"

definition ulperrl :: "fe_cfg \<Rightarrow> rmode \<Rightarrow> fp \<Rightarrow> fp \<Rightarrow> fp \<Rightarrow> fp" where
  "ulperrl c md got want dwant =
     (if LDBL_MANT_DIG c = 53 then ulperr md got want dwant
      else if LDBL_MANT_DIG c = 64 then
        (if isnan got \<and> isnan want then Fin False 0 (emin flt32)
         else if fp_eq got want then
           (if signbit got = signbit want then dwant else Inf False)
         else (let (got, want) =
                     (if isinf got
                      then (copysign (Fin False 1 16383) got,
                            fp_mul ldbl80 md want (Fin False 1 (-1)))
                      else (got, want))
               in fp_convert flt32 md
                    (fp_add ldbl80 md
                       (scalbn ldbl80 md (fp_sub ldbl80 md got want) (- eulpl c want)) dwant)))
      else Inf False)"

section \<open>Printing flags and rounding modes\<close>

fun dec_nat :: "nat \<Rightarrow> string" where
  "dec_nat n = (if n < 10 then [char_of (48 + n)] else dec_nat (n div 10) @ [char_of (48 + n mod 10)])"

declare dec_nat.simps [simp del]

definition dec_int :: "int \<Rightarrow> string" where
  "dec_int i = (if i < 0 then ''-'' @ dec_nat (nat (- i)) else dec_nat (nat i))"

definition eflags :: "fe_cfg \<Rightarrow> (int \<times> string) list" where
  "eflags c = [(INEXACT c, ''INEXACT''), (INVALID c, ''INVALID''), (DIVBYZERO c, ''DIVBYZERO''),
     (UNDERFLOW c, ''UNDERFLOW''), (OVERFLOW c, ''OVERFLOW'')]"

fun estr_loop :: "int \<Rightarrow> (int \<times> string) list \<Rightarrow> string \<Rightarrow> int \<Rightarrow> string \<times> int" where
  "estr_loop f [] buf al = (buf, al)"
| "estr_loop f ((flag, s) # fs) buf al =
     (if f AND flag \<noteq> 0
      then estr_loop f fs (buf @ (if al \<noteq> 0 then ''|'' else '''') @ s) (al OR flag)
      else estr_loop f fs buf al)"

definition estr :: "fe_cfg \<Rightarrow> int \<Rightarrow> string" where
  "estr c f =
     (let (buf, al) = estr_loop f (eflags c) [] 0;
          (buf, al) = (if al \<noteq> f
                       then (buf @ (if al \<noteq> 0 then ''|'' else '''') @ dec_int (f AND NOT al), f)
                       else (buf, al))
      in buf @ (if al \<noteq> 0 then '''' else ''0''))"

definition rstr :: "fe_cfg \<Rightarrow> int \<Rightarrow> string" where
  "rstr c r =
     (if r = RN c then ''RN''
      else if FE_TOWARDZERO c = Some r then ''RZ''
      else if FE_UPWARD c = Some r then ''RU''
      else if FE_DOWNWARD c = Some r then ''RD''
      else ''R?'')"

end
