(* ===== verification/Mtest_Accuracy.thy ===== *)
theory Mtest_Accuracy
  imports Mtest
begin

text \<open>
  What the verdict of \<open>checkulp\<close> on \<open>ulperr\<close> means for the tested result: the four roundings
  between the exact difference and the number that is compared with the threshold never hide an
  error of two units in the last place (four in the directed rounding modes).
\<close>

section \<open>The exponent of the last place\<close>

text \<open>On canonical numbers \<open>eulp\<close> is the exponent of the last place.\<close>

lemma biased_bounds:
  assumes "fp_ok f (Fin s m e)" "emax f - emin f + 2 < 2 ^ w"
  shows "0 \<le> biased f m e \<and> biased f m e < 2 ^ w"
  using assms by (auto simp: biased_def)

lemma field_of_word:
  fixes n b q t :: int
  assumes n: "n = (t * 2 ^ w + b) * 2 ^ k + q"
    and "0 \<le> b" "b < 2 ^ w" "0 \<le> q" "q < 2 ^ k" "k + w < LENGTH('a::len)"
  shows "uint (drop_bit k (word_of_int n :: 'a word) AND mask w) = b"
proof -
  have "uint (drop_bit k (word_of_int n :: 'a word) AND mask w)
      = take_bit w (drop_bit k (take_bit LENGTH('a) n))"
    by (simp add: unsigned_drop_bit_eq unsigned_take_bit_eq uint_word_of_int_eq
        flip: take_bit_eq_mask)
  also have "\<dots> = take_bit w (drop_bit k n)"
    using assms(6) by (auto simp: drop_bit_take_bit min_def)
  also have "drop_bit k n = t * 2 ^ w + b" using assms by (simp add: drop_bit_eq_div)
  also have "take_bit w (t * 2 ^ w + b) = b" using assms by (simp add: take_bit_eq_mod)
  finally show ?thesis .
qed

lemma mask8: "(0xff :: u32) = mask 8" and mask11: "(0x7ff :: u64) = mask 11"
  by (simp_all add: mask_eq_decr_exp)

lemma eulp_canonical:
  assumes "fp_ok dbl64 (Fin s m e)"
  shows "eulp (Fin s m e) = e"
proof -
  define n where "n = (if s then 2 ^ 63 else 0) + biased dbl64 m e * 2 ^ 52 + m mod 2 ^ 52"
  have b: "0 \<le> biased dbl64 m e" "biased dbl64 m e < 2 ^ 11"
    using biased_bounds[OF assms, of 11] by (auto simp: dbl64_def)
  have "n = ((if s then 1 else 0) * 2 ^ 11 + biased dbl64 m e) * 2 ^ 52 + m mod 2 ^ 52"
    by (simp add: n_def)
  then have "uint (drop_bit 52 (word_of_int n :: u64) AND mask 11) = biased dbl64 m e"
    using b by (rule field_of_word) auto
  then have "uint (drop_bit 52 (asuint64 (Fin s m e)) AND 0x7ff) = biased dbl64 m e"
    by (simp only: asuint64.simps n_def mask11)
  then show ?thesis using assms by (auto simp: eulp_def Let_def biased_def dbl64_def)
qed

lemma eulpf_canonical:
  assumes "fp_ok flt32 (Fin s m e)"
  shows "eulpf (Fin s m e) = e"
proof -
  define n where "n = (if s then 2 ^ 31 else 0) + biased flt32 m e * 2 ^ 23 + m mod 2 ^ 23"
  have b: "0 \<le> biased flt32 m e" "biased flt32 m e < 2 ^ 8"
    using biased_bounds[OF assms, of 8] by (auto simp: flt32_def)
  have "n = ((if s then 1 else 0) * 2 ^ 8 + biased flt32 m e) * 2 ^ 23 + m mod 2 ^ 23"
    by (simp add: n_def)
  then have "uint (drop_bit 23 (word_of_int n :: u32) AND mask 8) = biased flt32 m e"
    using b by (rule field_of_word) auto
  then have "uint (drop_bit 23 (asuint32 (Fin s m e)) AND 0xff) = biased flt32 m e"
    by (simp only: asuint32.simps n_def mask8)
  then show ?thesis using assms by (auto simp: eulpf_def Let_def biased_def flt32_def)
qed

section \<open>What an accepted error says about the result\<close>

text \<open>A half unit, and one unit, as the distance the exact result may have from the wanted one.\<close>

lemma ulperr_far:
  assumes got: "fp_ok dbl64 got" "isfinite got" and want: "fp_ok dbl64 (Fin s m e)"
    and dw: "isfinite dwant" "\<bar>val dwant\<bar> \<le> mag b 0 - mag t j"
    and bt: "0 < b" "b < 8" "0 < t" "t < 8" "- 149 \<le> j" "j \<le> 104"
    and far: "mag b e \<le> \<bar>val got - val (Fin s m e)\<bar>"
  shows "\<not> fp_lt (fabs (ulperr md got (Fin s m e) dwant)) (Fin False t j)"
proof -
  have "0 < mag b e" using bt by simp
  with far have "val got \<noteq> val (Fin s m e)" by linarith
  then have ne: "\<not> fp_eq got (Fin s m e)"
    using got fp_eq_val[of got "Fin s m e"] by (auto simp del: val.simps)
  have "\<exists>s'. at_least s' (mag t j) (fp_convert flt32 md (fp_add dbl64 md
      (scalbn dbl64 md (fp_sub dbl64 md got (Fin s m e)) (- e)) dwant))"
    using got want dw bt far by (intro ulp_chain_ge[where b = b]) auto
  then show ?thesis
    using ne got want at_least_not_lt
    by (cases got) (auto simp: ulperr_def isnan_def eulp_canonical)
qed

lemma ulperrf_far:
  assumes got: "fp_ok flt32 got" "isfinite got" and want: "fp_ok flt32 (Fin s m e)"
    and dw: "isfinite dwant" "\<bar>val dwant\<bar> \<le> mag b 0 - mag t j"
    and bt: "0 < b" "b < 8" "0 < t" "t < 8" "- 149 \<le> j" "j \<le> 104"
    and far: "mag b e \<le> \<bar>val got - val (Fin s m e)\<bar>"
  shows "\<not> fp_lt (fabs (ulperrf md got (Fin s m e) dwant)) (Fin False t j)"
proof -
  have "0 < mag b e" using bt by simp
  with far have "val got \<noteq> val (Fin s m e)" by linarith
  then have ne: "\<not> fp_eq got (Fin s m e)"
    using got fp_eq_val[of got "Fin s m e"] by (auto simp del: val.simps)
  have "\<exists>s'. at_least s' (mag t j) (fp_convert flt32 md (fp_add dbl64 md
      (scalbn dbl64 md (fp_sub flt32 md got (Fin s m e)) (- e)) dwant))"
    using got want dw bt far by (intro ulp_chain_ge[where b = b]) auto
  then show ?thesis
    using ne got want at_least_not_lt
    by (cases got) (auto simp: ulperrf_def isnan_def eulpf_canonical)
qed

text \<open>The threshold of \<open>checkulp\<close> and the distance it guarantees, in units in the last place.\<close>

definition ulp_bound :: "fe_cfg \<Rightarrow> int \<Rightarrow> int" where
  "ulp_bound c r = (if r = RN c then 2 else 4)"

lemma checkulp_accuracy:
  assumes got: "fp_ok dbl64 got" "isfinite got" and want: "fp_ok dbl64 (Fin s m e)"
    and dw: "isfinite dwant" "\<bar>val dwant\<bar> \<le> (if r = RN c then 1 / 2 else 1)"
    and pass: "checkulp c (ulperr md got (Fin s m e) dwant) r"
  shows "\<bar>val got - val (Fin s m e)\<bar> < mag (ulp_bound c r) e"
  using pass dw ulperr_far[OF got want dw(1), of 2 3 "- 1" md] ulperr_far[OF got want dw(1), of 4 3 0 md]
  by (fastforce simp: checkulp_def ulp_bound_def mag_def power_int_minus split: if_splits simp del: val.simps)

lemma checkulpf_accuracy:
  assumes got: "fp_ok flt32 got" "isfinite got" and want: "fp_ok flt32 (Fin s m e)"
    and dw: "isfinite dwant" "\<bar>val dwant\<bar> \<le> (if r = RN c then 1 / 2 else 1)"
    and pass: "checkulp c (ulperrf md got (Fin s m e) dwant) r"
  shows "\<bar>val got - val (Fin s m e)\<bar> < mag (ulp_bound c r) e"
  using pass dw ulperrf_far[OF got want dw(1), of 2 3 "- 1" md] ulperrf_far[OF got want dw(1), of 4 3 0 md]
  by (fastforce simp: checkulp_def ulp_bound_def mag_def power_int_minus split: if_splits simp del: val.simps)

text \<open>A NaN is accepted exactly where a NaN is wanted.\<close>

lemma checkulp_NaN:
  "checkulp c (ulperr md NaN want dwant) r \<longleftrightarrow> want = NaN"
  "checkulp c (ulperr md got NaN dwant) r \<longleftrightarrow> got = NaN"
  by (auto simp: checkulp_def ulperr_def isnan_def fp_sub_def scaled_def Let_def)

end
