(* ===== verification/Math_Harness.thy ===== *)
theory Math_Harness
  imports Mtest_Accuracy
begin

text \<open>
  The program every \<^verbatim>\<open>libc-test/src/math/*.c\<close> test is an instance of: a loop over the rows of
  the table, which skips the rows whose rounding direction the target lacks, prepares the
  floating-point environment, calls the function under test and counts the failed checks.
  The locale states the contract of the loop body, and the verdict of the whole program and its
  independence of the order of the rows are proved once from that contract.
\<close>

section \<open>State and output\<close>

text \<open>
  The arguments of a call of \<^verbatim>\<open>printf\<close>, with its format kept as written.  A format that ends in
  a newline is \<open>Printfln\<close> of the format before it.
\<close>

datatype carg = AStr string | AInt int | AFp fp

datatype cout = Printf string "carg list" | Printfln string "carg list"

text \<open>The environment, the counter \<^verbatim>\<open>int err\<close> and what has been printed so far.\<close>

record mst =
  m_fe :: fenv
  m_err :: u32
  m_out :: "cout list"

definition c_printf :: "string \<Rightarrow> carg list \<Rightarrow> mst \<Rightarrow> mst" where
  "c_printf f args s = s\<lparr>m_out := m_out s @ [Printf f args]\<rparr>"

definition c_printfln :: "string \<Rightarrow> carg list \<Rightarrow> mst \<Rightarrow> mst" where
  "c_printfln f args s = s\<lparr>m_out := m_out s @ [Printfln f args]\<rparr>"

definition err_inc :: "mst \<Rightarrow> mst" where
  "err_inc s = s\<lparr>m_err := m_err s + 1\<rparr>"

text \<open>A call of the function under test: it may change the environment.\<close>

type_synonym 'y call = "fenv \<Rightarrow> 'y \<times> fenv"

definition libcall :: "'y call \<Rightarrow> mst \<Rightarrow> 'y \<times> mst" where
  "libcall g s = (case g (m_fe s) of (y, env) \<Rightarrow> (y, s\<lparr>m_fe := env\<rparr>))"

definition except :: "fe_cfg \<Rightarrow> mst \<Rightarrow> int" where
  "except c s = fetestexcept (all5 c) (m_fe s)"

definition rm :: "fe_cfg \<Rightarrow> mst \<Rightarrow> rmode" where
  "rm c s = rmode_of c (m_fe s)"

text \<open>Conversions of C at a call: \<^verbatim>\<open>long long\<close> to \<^verbatim>\<open>int\<close>, and between floating types.\<close>

definition c_int :: "int \<Rightarrow> int" where
  "c_int i = signed_take_bit 31 i"

definition to_dbl :: "rmode \<Rightarrow> fp \<Rightarrow> fp" where
  "to_dbl md x = fp_convert dbl64 md x"

definition to_flt :: "rmode \<Rightarrow> fp \<Rightarrow> fp" where
  "to_flt md x = fp_convert flt32 md x"

text \<open>The exception check of the \<^verbatim>\<open>fma\<close> tests, whose form depends on two macros.\<close>

definition checkexcept_fma :: "fe_cfg \<Rightarrow> int \<Rightarrow> int \<Rightarrow> int \<Rightarrow> bool" where
  "checkexcept_fma c e want r =
     (if CHECK_INEXACT c \<or> CHECK_INEXACT_OMISSION c then checkexceptall e want r
      else checkexceptall (e OR INEXACT c) (want OR INEXACT c) r)"

text \<open>The rows a \<^verbatim>\<open>long double\<close> test includes: one set per supported width, none otherwise.\<close>

definition ldbl_table :: "fe_cfg \<Rightarrow> 'p list \<Rightarrow> 'p list \<Rightarrow> 'p list" where
  "ldbl_table c t53 t64 =
     (if LDBL_MANT_DIG c = 53 then t53 else if LDBL_MANT_DIG c = 64 then t64 else [])"

section \<open>The loop\<close>

definition fe_setup :: "fe_cfg \<Rightarrow> int \<Rightarrow> fenv \<Rightarrow> fenv" where
  "fe_setup c r env = feclearexcept_all (fesetround c r env)"

primrec mtest_rows ::
    "fe_cfg \<Rightarrow> ('p \<Rightarrow> int) \<Rightarrow> ('p \<Rightarrow> mst \<Rightarrow> mst) \<Rightarrow> 'p list \<Rightarrow> mst \<Rightarrow> mst" where
  "mtest_rows c rnd body [] s = s"
| "mtest_rows c rnd body (p # ps) s =
     mtest_rows c rnd body ps
       (if rnd p < 0 then s else body p (s\<lparr>m_fe := fe_setup c (rnd p) (m_fe s)\<rparr>))"

definition mtest_main ::
    "fe_cfg \<Rightarrow> ('p \<Rightarrow> int) \<Rightarrow> ('p \<Rightarrow> mst \<Rightarrow> mst) \<Rightarrow> 'p list \<Rightarrow> fenv \<Rightarrow> int \<times> cout list" where
  "mtest_main c rnd body t env =
     (let s = mtest_rows c rnd body t \<lparr>m_fe = env, m_err = 0, m_out = []\<rparr>
      in (if m_err s \<noteq> 0 then 1 else 0, m_out s))"

section \<open>Contract of the loop body\<close>

text \<open>The failures a row adds to the counter when its function is called in \<open>env\<close>.\<close>

definition row_fails :: "('p \<Rightarrow> mst \<Rightarrow> mst) \<Rightarrow> 'p \<Rightarrow> fenv \<Rightarrow> nat" where
  "row_fails body p env = unat (m_err (body p \<lparr>m_fe = env, m_err = 0, m_out = []\<rparr>))"

lemmas step_defs = c_printf_def c_printfln_def err_inc_def libcall_def except_def rm_def

text \<open>
  What the statements of a body do to the counter and the environment.  The congruence rules keep
  the simplifier out of the text that is printed.
\<close>

lemma state_simps:
  "m_err (c_printf f a s) = m_err s" "m_err (c_printfln f a s) = m_err s"
  "m_err (err_inc s) = m_err s + 1"
  "m_fe (c_printf f a s) = m_fe s" "m_fe (c_printfln f a s) = m_fe s" "m_fe (err_inc s) = m_fe s"
  "m_err (if b then s else t) = (if b then m_err s else m_err t)"
  "m_fe (if b then s else t) = (if b then m_fe s else m_fe t)"
  by (simp_all add: c_printf_def c_printfln_def err_inc_def)

lemma printf_cong:
  "s = s' \<Longrightarrow> c_printf f a s = c_printf f a s'"
  "s = s' \<Longrightarrow> c_printfln f a s = c_printfln f a s'"
  by simp_all

lemmas row_simps = state_simps libcall_def except_def rm_def Let_def case_prod_beta

text \<open>
  \<open>fails p env\<close> is the number of checks row \<open>p\<close> fails when its function is called in
  environment \<open>env\<close>.
\<close>

locale row_test =
  fixes body :: "'p \<Rightarrow> mst \<Rightarrow> mst" and fails :: "'p \<Rightarrow> fenv \<Rightarrow> nat"
  assumes body_err: "m_err (body p s) = m_err s + of_nat (fails p (m_fe s))"
    and fails_le: "fails p env \<le> 2"
begin

text \<open>The environment of the call is determined by the row alone.\<close>

lemma fe_setup_supported:
  "r \<in> set (fe_modes c) \<Longrightarrow> fe_setup c r env = \<lparr>rounding = r, flags = 0\<rparr>"
  by (simp add: fe_setup_def fesetround_def feclearexcept_all_def)

lemma rows_err:
  assumes "\<forall>p \<in> set t. rnd p < 0 \<or> rnd p \<in> set (fe_modes c)"
  shows "m_err (mtest_rows c rnd body t s) =
    m_err s + of_nat (\<Sum>p\<leftarrow>filter (\<lambda>p. \<not> rnd p < 0) t. fails p \<lparr>rounding = rnd p, flags = 0\<rparr>)"
  using assms
  by (induction t arbitrary: s) (auto simp: body_err fe_setup_supported)

lemma sum_fails_le:
  "(\<Sum>p\<leftarrow>filter P t. fails p (env p)) \<le> 2 * length t"
proof (induction t)
  case (Cons p t)
  then show ?case using fails_le[of p "env p"] by auto
qed simp

lemma status:
  assumes sup: "\<forall>p \<in> set t. rnd p < 0 \<or> rnd p \<in> set (fe_modes c)"
    and len: "2 * length t < 2 ^ 31"
  shows "fst (mtest_main c rnd body t env) = 0 \<longleftrightarrow>
    (\<forall>p \<in> set t. \<not> rnd p < 0 \<longrightarrow> fails p \<lparr>rounding = rnd p, flags = 0\<rparr> = 0)"
proof -
  let ?n = "\<Sum>p\<leftarrow>filter (\<lambda>p. \<not> rnd p < 0) t. fails p \<lparr>rounding = rnd p, flags = 0\<rparr>"
  have "?n < 2 ^ 32"
    using sum_fails_le[where P = "\<lambda>p. \<not> rnd p < 0" and t = t
        and env = "\<lambda>p. \<lparr>rounding = rnd p, flags = 0\<rparr>"] len by simp
  then have "(of_nat ?n :: u32) = 0 \<longleftrightarrow> ?n = 0"
    by (simp add: of_nat_word_eq_0)
  moreover have "fst (mtest_main c rnd body t env) = 0 \<longleftrightarrow> (of_nat ?n :: u32) = 0"
    by (simp add: mtest_main_def Let_def rows_err[OF sup])
  ultimately show ?thesis by (auto simp: sum_list_eq_0_iff)
qed

lemma status_01: "fst (mtest_main c rnd body t env) \<in> {0, 1}"
  by (simp add: mtest_main_def Let_def)

lemma status_permutation:
  assumes "\<forall>p \<in> set t. rnd p < 0 \<or> rnd p \<in> set (fe_modes c)"
    and "2 * length t < 2 ^ 31" and "mset t = mset t'"
  shows "fst (mtest_main c rnd body t env) = fst (mtest_main c rnd body t' env')"
proof -
  have "set t' = set t" and "length t' = length t"
    using assms(3) mset_eq_setD mset_eq_length by metis+
  then have "fst (mtest_main c rnd body t env) = 0 \<longleftrightarrow> fst (mtest_main c rnd body t' env') = 0"
    using status[OF assms(1,2)] status[of t' rnd c env'] assms(1,2) by simp
  then show ?thesis using status_01[of c rnd t env] status_01[of c rnd t' env'] by auto
qed

end

section \<open>Establishing the contract\<close>

text \<open>
  Two runs of a loop body in step: the same environment, counters that differ by \<open>d\<close>, and at
  most \<open>k\<close> failures counted by the first.  The rules follow the statements a body is made of.
\<close>

definition in_step :: "nat \<Rightarrow> u32 \<Rightarrow> mst \<Rightarrow> mst \<Rightarrow> bool" where
  "in_step k d s s' \<longleftrightarrow> m_fe s' = m_fe s \<and> unat (m_err s) \<le> k \<and> m_err s' = m_err s + d"

lemma unat_inc_le: "unat w \<le> k \<Longrightarrow> unat (w + 1) \<le> Suc k" for w :: u32
  using unat_word_ariths(1)[of w 1] by (simp add: le_trans[OF mod_less_eq_dividend])

lemma in_step_inc: "in_step k d s s' \<Longrightarrow> in_step (Suc k) d (err_inc s) (err_inc s')"
  by (simp add: in_step_def err_inc_def unat_inc_le)

lemma in_step_printf:
  "in_step k d s s' \<Longrightarrow> in_step k d (c_printf f a s) (c_printf f a' s')"
  "in_step k d s s' \<Longrightarrow> in_step k d (c_printfln f a s) (c_printfln f a' s')"
  by (simp_all add: in_step_def step_defs)

lemma in_step_if:
  "in_step k d s s' \<Longrightarrow> in_step k' d t t' \<Longrightarrow>
   in_step (max k k') d (if b then s else t) (if b then s' else t')"
  by (auto simp: in_step_def)

lemma in_step_let:
  "in_step k d a a' \<Longrightarrow> (\<And>x x'. in_step k d x x' \<Longrightarrow> in_step k' d (F x) (F' x')) \<Longrightarrow>
   in_step k' d (Let a F) (Let a' F')"
  by simp

lemma in_step_let_value:
  "a' = a \<Longrightarrow> (\<And>v. in_step k d (F v) (F' v)) \<Longrightarrow> in_step k d (Let a F) (Let a' F')"
  by simp

lemma in_step_call:
  "in_step k d s s' \<Longrightarrow>
   \<exists>y x x'. libcall g s = (y, x) \<and> libcall g s' = (y, x') \<and> in_step k d x x'"
  by (cases "g (m_fe s)") (simp add: in_step_def libcall_def)

lemma in_step_libcall:
  "in_step k d s s' \<Longrightarrow> (\<And>y x x'. in_step k d x x' \<Longrightarrow> in_step k' d (G y x) (G' y x')) \<Longrightarrow>
   in_step k' d (Let (libcall g s) (case_prod G)) (Let (libcall g s') (case_prod G'))"
  using in_step_call[of k d s s' g] by fastforce

lemma in_step_libcall2:
  "in_step k d s s' \<Longrightarrow> (\<And>y z x x'. in_step k d x x' \<Longrightarrow> in_step k' d (G y z x) (G' y z x')) \<Longrightarrow>
   in_step k' d (Let (libcall g s) (case_prod (case_prod G)))
     (Let (libcall g s') (case_prod (case_prod G')))"
  using in_step_call[of k d s s' g] by (fastforce split: prod.split)

lemma in_step_values:
  "in_step k d s s' \<Longrightarrow> rm c s' = rm c s" "in_step k d s s' \<Longrightarrow> except c s' = except c s"
  by (simp_all add: in_step_def step_defs)

lemmas in_step_rules = in_step_libcall2 in_step_libcall in_step_let in_step_if in_step_inc
  in_step_printf

lemma row_testI:
  assumes step: "\<And>p s s' d. in_step 0 d s s' \<Longrightarrow> in_step k d (body p s) (body p s')"
    and le: "k \<le> 2"
  shows "row_test body (row_fails body)"
proof
  fix p s
  have "in_step 0 (m_err s) \<lparr>m_fe = m_fe s, m_err = 0, m_out = []\<rparr> s" by (simp add: in_step_def)
  from step[OF this, of p] show "m_err (body p s) = m_err s + of_nat (row_fails body p (m_fe s))"
    by (simp add: in_step_def row_fails_def add.commute)
next
  fix p env
  have "in_step 0 0 \<lparr>m_fe = env, m_err = 0, m_out = []\<rparr> \<lparr>m_fe = env, m_err = 0, m_out = []\<rparr>"
    by (simp add: in_step_def)
  from step[OF this, of p] le show "row_fails body p env \<le> 2"
    by (simp add: in_step_def row_fails_def)
qed

section \<open>What the large families of tests check\<close>

text \<open>
  The failures of a row written out for the families whose loop bodies agree but for the text they
  print.  \<open>exc\<close> and \<open>ulp\<close> are the exception check and the error measure of the family.
\<close>

definition ulp_fails ::
    "(rmode \<Rightarrow> fp \<Rightarrow> fp \<Rightarrow> fp \<Rightarrow> fp) \<Rightarrow> fe_cfg \<Rightarrow> (fp \<Rightarrow> fp call) \<Rightarrow> d_d \<Rightarrow> fenv \<Rightarrow> nat" where
  "ulp_fails ulp c fn p env =
     (case fn (d_d.p_x p) env of (y, env) \<Rightarrow>
        of_bool (\<not> checkexcept c (fetestexcept (all5 c) env) (d_d.p_e p) (d_d.p_r p)) +
        of_bool (\<not> checkulp c (ulp (rmode_of c env) y (d_d.p_y p) (d_d.p_dy p)) (d_d.p_r p)))"

definition exact_fails ::
    "(int \<Rightarrow> int \<Rightarrow> int \<Rightarrow> bool) \<Rightarrow> fe_cfg \<Rightarrow> (fp \<Rightarrow> fp call) \<Rightarrow> d_d \<Rightarrow> fenv \<Rightarrow> nat" where
  "exact_fails exc c fn p env =
     (case fn (d_d.p_x p) env of (y, env) \<Rightarrow>
        of_bool (\<not> exc (fetestexcept (all5 c) env) (d_d.p_e p) (d_d.p_r p)) +
        of_bool (\<not> checkcr y (d_d.p_y p) (d_d.p_r p)))"

definition exact2_fails ::
    "(int \<Rightarrow> int \<Rightarrow> int \<Rightarrow> bool) \<Rightarrow> fe_cfg \<Rightarrow> (fp \<Rightarrow> fp \<Rightarrow> fp call) \<Rightarrow> dd_d \<Rightarrow> fenv \<Rightarrow> nat" where
  "exact2_fails exc c fn p env =
     (case fn (dd_d.p_x p) (dd_d.p_x2 p) env of (y, env) \<Rightarrow>
        of_bool (\<not> exc (fetestexcept (all5 c) env) (dd_d.p_e p) (dd_d.p_r p)) +
        of_bool (\<not> checkcr y (dd_d.p_y p) (dd_d.p_r p)))"

definition int_fails ::
    "(int \<Rightarrow> int \<Rightarrow> int \<Rightarrow> bool) \<Rightarrow> fe_cfg \<Rightarrow> (fp \<Rightarrow> int call) \<Rightarrow> d_i \<Rightarrow> fenv \<Rightarrow> nat" where
  "int_fails exc c fn p env =
     (case fn (d_i.p_x p) env of (yi, env) \<Rightarrow>
        of_bool (\<not> exc (fetestexcept (all5 c) env) (d_i.p_e p) (d_i.p_r p)) +
        of_bool (\<not> (d_i.p_e p AND INVALID c \<noteq> 0) \<and> yi \<noteq> d_i.p_i p))"

text \<open>
  The exception check of the functions that round to an integer: as \<open>exc\<close> says, or all wanted exceptions but the
  inexact flag.  So a missing inexact flag passes, and one that is raised and not wanted does not.
\<close>

definition exc_inexact :: "fe_cfg \<Rightarrow> (int \<Rightarrow> int \<Rightarrow> int \<Rightarrow> bool) \<Rightarrow> int \<Rightarrow> int \<Rightarrow> int \<Rightarrow> bool" where
  "exc_inexact c exc e want r \<longleftrightarrow> exc e want r \<or> (e OR INEXACT c) = want"

lemmas fails_defs = ulp_fails_def exact_fails_def exact2_fails_def int_fails_def exc_inexact_def

end
