(* ===== verification/Math_Double.thy ===== *)
theory Math_Double
  imports Math_Harness
begin

text \<open>
  The \<open>double\<close> tests of \<^verbatim>\<open>libc-test/src/math\<close>.  For each file, \<open>X_row\<close> is the body of the loop of
  \<^verbatim>\<open>main\<close> after the environment has been prepared, and \<open>X_main\<close> the program: the function
  under test, which is library code, and the table, which is data, are arguments.
  The interpretations discharge the contract of the loop body, with the count of failed checks
  written out where the test belongs to one of the large families.
\<close>

unbundle bit_operations_syntax

section \<open>Programs\<close>

definition acos_row ::
    "fe_cfg \<Rightarrow> (fp \<Rightarrow> fp call) \<Rightarrow> d_d \<Rightarrow> mst \<Rightarrow> mst" where
  "acos_row c fn p s =
    (let (y, s) = libcall (fn (d_d.p_x p)) s;
         e = except c s;
         s = (if \<not> checkexcept c e (d_d.p_e p) (d_d.p_r p)
           then (let s = c_printf ''%s:%d: bad fp exception: %s acos(%a)=%a, want %s''
                      [AStr (d_d.p_file p), AInt (d_d.p_line p), AStr (rstr c (d_d.p_r p)),
                       AFp (d_d.p_x p), AFp (d_d.p_y p), AStr (estr c (d_d.p_e p))] s;
                     s = c_printfln '' got %s'' [AStr (estr c e)] s
                 in err_inc s)
           else s);
         d = ulperr (rm c s) y (d_d.p_y p) (d_d.p_dy p)
     in (if \<not> checkulp c d (d_d.p_r p)
          then (let s = c_printfln ''%s:%d: %s acos(%a) want %a got %a ulperr %.3f = %a + %a''
                     [AStr (d_d.p_file p), AInt (d_d.p_line p), AStr (rstr c (d_d.p_r p)),
                      AFp (d_d.p_x p), AFp (d_d.p_y p), AFp y, AFp d,
                      AFp (fp_sub flt32 (rm c s) d (d_d.p_dy p)), AFp (d_d.p_dy p)] s
                in err_inc s)
          else s))"

definition acos_main ::
    "fe_cfg \<Rightarrow> (fp \<Rightarrow> fp call) \<Rightarrow> d_d list \<Rightarrow> fenv \<Rightarrow> int \<times> cout list" where
  "acos_main c fn t env = mtest_main c d_d.p_r (acos_row c fn) t env"

definition acosh_row ::
    "fe_cfg \<Rightarrow> (fp \<Rightarrow> fp call) \<Rightarrow> d_d \<Rightarrow> mst \<Rightarrow> mst" where
  "acosh_row c fn p s =
    (let (y, s) = libcall (fn (d_d.p_x p)) s;
         e = except c s;
         s = (if \<not> checkexcept c e (d_d.p_e p) (d_d.p_r p)
           then (let s = c_printf ''%s:%d: bad fp exception: %s acosh(%a)=%a, want %s''
                      [AStr (d_d.p_file p), AInt (d_d.p_line p), AStr (rstr c (d_d.p_r p)),
                       AFp (d_d.p_x p), AFp (d_d.p_y p), AStr (estr c (d_d.p_e p))] s;
                     s = c_printfln '' got %s'' [AStr (estr c e)] s
                 in err_inc s)
           else s);
         d = ulperr (rm c s) y (d_d.p_y p) (d_d.p_dy p)
     in (if \<not> checkulp c d (d_d.p_r p)
          then (let s = (if fp_lt (fabs d) (Fin False 2 0)
                    then c_printf ''X '' [] s
                    else err_inc s)
                in c_printfln ''%s:%d: %s acosh(%a) want %a got %a ulperr %.3f = %a + %a''
                     [AStr (d_d.p_file p), AInt (d_d.p_line p), AStr (rstr c (d_d.p_r p)),
                      AFp (d_d.p_x p), AFp (d_d.p_y p), AFp y, AFp d,
                      AFp (fp_sub flt32 (rm c s) d (d_d.p_dy p)), AFp (d_d.p_dy p)] s)
          else s))"

definition acosh_main ::
    "fe_cfg \<Rightarrow> (fp \<Rightarrow> fp call) \<Rightarrow> d_d list \<Rightarrow> fenv \<Rightarrow> int \<times> cout list" where
  "acosh_main c fn t env = mtest_main c d_d.p_r (acosh_row c fn) t env"

definition asin_row ::
    "fe_cfg \<Rightarrow> (fp \<Rightarrow> fp call) \<Rightarrow> d_d \<Rightarrow> mst \<Rightarrow> mst" where
  "asin_row c fn p s =
    (let (y, s) = libcall (fn (d_d.p_x p)) s;
         e = except c s;
         s = (if \<not> checkexcept c e (d_d.p_e p) (d_d.p_r p)
           then (let s = c_printf ''%s:%d: bad fp exception: %s asin(%a)=%a, want %s''
                      [AStr (d_d.p_file p), AInt (d_d.p_line p), AStr (rstr c (d_d.p_r p)),
                       AFp (d_d.p_x p), AFp (d_d.p_y p), AStr (estr c (d_d.p_e p))] s;
                     s = c_printfln '' got %s'' [AStr (estr c e)] s
                 in err_inc s)
           else s);
         d = ulperr (rm c s) y (d_d.p_y p) (d_d.p_dy p)
     in (if \<not> checkulp c d (d_d.p_r p)
          then (let s = c_printfln ''%s:%d: %s asin(%a) want %a got %a ulperr %.3f = %a + %a''
                     [AStr (d_d.p_file p), AInt (d_d.p_line p), AStr (rstr c (d_d.p_r p)),
                      AFp (d_d.p_x p), AFp (d_d.p_y p), AFp y, AFp d,
                      AFp (fp_sub flt32 (rm c s) d (d_d.p_dy p)), AFp (d_d.p_dy p)] s
                in err_inc s)
          else s))"

definition asin_main ::
    "fe_cfg \<Rightarrow> (fp \<Rightarrow> fp call) \<Rightarrow> d_d list \<Rightarrow> fenv \<Rightarrow> int \<times> cout list" where
  "asin_main c fn t env = mtest_main c d_d.p_r (asin_row c fn) t env"

definition asinh_row ::
    "fe_cfg \<Rightarrow> (fp \<Rightarrow> fp call) \<Rightarrow> d_d \<Rightarrow> mst \<Rightarrow> mst" where
  "asinh_row c fn p s =
    (let (y, s) = libcall (fn (d_d.p_x p)) s;
         e = except c s;
         s = (if \<not> checkexcept c e (d_d.p_e p) (d_d.p_r p)
           then (let s = c_printf ''%s:%d: bad fp exception: %s asinh(%a)=%a, want %s''
                      [AStr (d_d.p_file p), AInt (d_d.p_line p), AStr (rstr c (d_d.p_r p)),
                       AFp (d_d.p_x p), AFp (d_d.p_y p), AStr (estr c (d_d.p_e p))] s;
                     s = c_printfln '' got %s'' [AStr (estr c e)] s
                 in err_inc s)
           else s);
         d = ulperr (rm c s) y (d_d.p_y p) (d_d.p_dy p)
     in (if \<not> checkulp c d (d_d.p_r p)
          then (let s = (if fp_lt (fabs d) (Fin False 2 0)
                    then c_printf ''X '' [] s
                    else err_inc s)
                in c_printfln ''%s:%d: %s asinh(%a) want %a got %a ulperr %.3f = %a + %a''
                     [AStr (d_d.p_file p), AInt (d_d.p_line p), AStr (rstr c (d_d.p_r p)),
                      AFp (d_d.p_x p), AFp (d_d.p_y p), AFp y, AFp d,
                      AFp (fp_sub flt32 (rm c s) d (d_d.p_dy p)), AFp (d_d.p_dy p)] s)
          else s))"

definition asinh_main ::
    "fe_cfg \<Rightarrow> (fp \<Rightarrow> fp call) \<Rightarrow> d_d list \<Rightarrow> fenv \<Rightarrow> int \<times> cout list" where
  "asinh_main c fn t env = mtest_main c d_d.p_r (asinh_row c fn) t env"

definition atan_row ::
    "fe_cfg \<Rightarrow> (fp \<Rightarrow> fp call) \<Rightarrow> d_d \<Rightarrow> mst \<Rightarrow> mst" where
  "atan_row c fn p s =
    (let (y, s) = libcall (fn (d_d.p_x p)) s;
         e = except c s;
         s = (if \<not> checkexcept c e (d_d.p_e p) (d_d.p_r p)
           then (let s = c_printf ''%s:%d: bad fp exception: %s atan(%a)=%a, want %s''
                      [AStr (d_d.p_file p), AInt (d_d.p_line p), AStr (rstr c (d_d.p_r p)),
                       AFp (d_d.p_x p), AFp (d_d.p_y p), AStr (estr c (d_d.p_e p))] s;
                     s = c_printfln '' got %s'' [AStr (estr c e)] s
                 in err_inc s)
           else s);
         d = ulperr (rm c s) y (d_d.p_y p) (d_d.p_dy p)
     in (if \<not> checkulp c d (d_d.p_r p)
          then (let s = c_printfln ''%s:%d: %s atan(%a) want %a got %a ulperr %.3f = %a + %a''
                     [AStr (d_d.p_file p), AInt (d_d.p_line p), AStr (rstr c (d_d.p_r p)),
                      AFp (d_d.p_x p), AFp (d_d.p_y p), AFp y, AFp d,
                      AFp (fp_sub flt32 (rm c s) d (d_d.p_dy p)), AFp (d_d.p_dy p)] s
                in err_inc s)
          else s))"

definition atan_main ::
    "fe_cfg \<Rightarrow> (fp \<Rightarrow> fp call) \<Rightarrow> d_d list \<Rightarrow> fenv \<Rightarrow> int \<times> cout list" where
  "atan_main c fn t env = mtest_main c d_d.p_r (atan_row c fn) t env"

definition atan2_row ::
    "fe_cfg \<Rightarrow> (fp \<Rightarrow> fp \<Rightarrow> fp call) \<Rightarrow> dd_d \<Rightarrow> mst \<Rightarrow> mst" where
  "atan2_row c fn p s =
    (let (y, s) = libcall (fn (dd_d.p_x p) (dd_d.p_x2 p)) s;
         e = except c s;
         s = (if \<not> checkexcept c e (dd_d.p_e p) (dd_d.p_r p)
           then (let s = c_printf ''%s:%d: bad fp exception: %s atan2(%a,%a)=%a, want %s''
                      [AStr (dd_d.p_file p), AInt (dd_d.p_line p), AStr (rstr c (dd_d.p_r p)),
                       AFp (dd_d.p_x p), AFp (dd_d.p_x2 p), AFp (dd_d.p_y p),
                       AStr (estr c (dd_d.p_e p))] s;
                     s = c_printfln '' got %s'' [AStr (estr c e)] s
                 in err_inc s)
           else s);
         d = ulperr (rm c s) y (dd_d.p_y p) (dd_d.p_dy p)
     in (if \<not> checkulp c d (dd_d.p_r p)
          then (let s = c_printfln ''%s:%d: %s atan2(%a,%a) want %a got %a ulperr %.3f = %a + %a''
                     [AStr (dd_d.p_file p), AInt (dd_d.p_line p), AStr (rstr c (dd_d.p_r p)),
                      AFp (dd_d.p_x p), AFp (dd_d.p_x2 p), AFp (dd_d.p_y p), AFp y, AFp d,
                      AFp (fp_sub flt32 (rm c s) d (dd_d.p_dy p)), AFp (dd_d.p_dy p)] s
                in err_inc s)
          else s))"

definition atan2_main ::
    "fe_cfg \<Rightarrow> (fp \<Rightarrow> fp \<Rightarrow> fp call) \<Rightarrow> dd_d list \<Rightarrow> fenv \<Rightarrow> int \<times> cout list" where
  "atan2_main c fn t env = mtest_main c dd_d.p_r (atan2_row c fn) t env"

definition atanh_row ::
    "fe_cfg \<Rightarrow> (fp \<Rightarrow> fp call) \<Rightarrow> d_d \<Rightarrow> mst \<Rightarrow> mst" where
  "atanh_row c fn p s =
    (let (y, s) = libcall (fn (d_d.p_x p)) s;
         e = except c s;
         s = (if \<not> checkexcept c e (d_d.p_e p) (d_d.p_r p)
           then (let s = c_printf ''%s:%d: bad fp exception: %s atanh(%a)=%a, want %s''
                      [AStr (d_d.p_file p), AInt (d_d.p_line p), AStr (rstr c (d_d.p_r p)),
                       AFp (d_d.p_x p), AFp (d_d.p_y p), AStr (estr c (d_d.p_e p))] s;
                     s = c_printfln '' got %s'' [AStr (estr c e)] s
                 in err_inc s)
           else s);
         d = ulperr (rm c s) y (d_d.p_y p) (d_d.p_dy p)
     in (if \<not> checkulp c d (d_d.p_r p)
          then (let s = c_printfln ''%s:%d: %s atanh(%a) want %a got %a ulperr %.3f = %a + %a''
                     [AStr (d_d.p_file p), AInt (d_d.p_line p), AStr (rstr c (d_d.p_r p)),
                      AFp (d_d.p_x p), AFp (d_d.p_y p), AFp y, AFp d,
                      AFp (fp_sub flt32 (rm c s) d (d_d.p_dy p)), AFp (d_d.p_dy p)] s
                in err_inc s)
          else s))"

definition atanh_main ::
    "fe_cfg \<Rightarrow> (fp \<Rightarrow> fp call) \<Rightarrow> d_d list \<Rightarrow> fenv \<Rightarrow> int \<times> cout list" where
  "atanh_main c fn t env = mtest_main c d_d.p_r (atanh_row c fn) t env"

definition cbrt_row ::
    "fe_cfg \<Rightarrow> (fp \<Rightarrow> fp call) \<Rightarrow> d_d \<Rightarrow> mst \<Rightarrow> mst" where
  "cbrt_row c fn p s =
    (let (y, s) = libcall (fn (d_d.p_x p)) s;
         e = except c s;
         s = (if \<not> checkexcept c e (d_d.p_e p) (d_d.p_r p)
           then (let s = c_printf ''%s:%d: bad fp exception: %s cbrt(%a)=%a, want %s''
                      [AStr (d_d.p_file p), AInt (d_d.p_line p), AStr (rstr c (d_d.p_r p)),
                       AFp (d_d.p_x p), AFp (d_d.p_y p), AStr (estr c (d_d.p_e p))] s;
                     s = c_printfln '' got %s'' [AStr (estr c e)] s
                 in err_inc s)
           else s);
         d = ulperr (rm c s) y (d_d.p_y p) (d_d.p_dy p)
     in (if \<not> checkulp c d (d_d.p_r p)
          then (let s = c_printfln ''%s:%d: %s cbrt(%a) want %a got %a ulperr %.3f = %a + %a''
                     [AStr (d_d.p_file p), AInt (d_d.p_line p), AStr (rstr c (d_d.p_r p)),
                      AFp (d_d.p_x p), AFp (d_d.p_y p), AFp y, AFp d,
                      AFp (fp_sub flt32 (rm c s) d (d_d.p_dy p)), AFp (d_d.p_dy p)] s
                in err_inc s)
          else s))"

definition cbrt_main ::
    "fe_cfg \<Rightarrow> (fp \<Rightarrow> fp call) \<Rightarrow> d_d list \<Rightarrow> fenv \<Rightarrow> int \<times> cout list" where
  "cbrt_main c fn t env = mtest_main c d_d.p_r (cbrt_row c fn) t env"

definition ceil_row ::
    "fe_cfg \<Rightarrow> (fp \<Rightarrow> fp call) \<Rightarrow> d_d \<Rightarrow> mst \<Rightarrow> mst" where
  "ceil_row c fn p s =
    (let (y, s) = libcall (fn (d_d.p_x p)) s;
         e = except c s;
         s = (if \<not> checkexceptall e (d_d.p_e p) (d_d.p_r p)
              \<and> (e OR INEXACT c) \<noteq> d_d.p_e p
           then (let s = c_printf ''%s:%d: bad fp exception: %s ceil(%a)=%a, want %s''
                      [AStr (d_d.p_file p), AInt (d_d.p_line p), AStr (rstr c (d_d.p_r p)),
                       AFp (d_d.p_x p), AFp (d_d.p_y p), AStr (estr c (d_d.p_e p))] s;
                     s = c_printfln '' got %s'' [AStr (estr c e)] s
                 in err_inc s)
           else s);
         d = ulperr (rm c s) y (d_d.p_y p) (d_d.p_dy p)
     in (if \<not> checkcr y (d_d.p_y p) (d_d.p_r p)
          then (let s = c_printfln ''%s:%d: %s ceil(%a) want %a got %a ulperr %.3f = %a + %a''
                     [AStr (d_d.p_file p), AInt (d_d.p_line p), AStr (rstr c (d_d.p_r p)),
                      AFp (d_d.p_x p), AFp (d_d.p_y p), AFp y, AFp d,
                      AFp (fp_sub flt32 (rm c s) d (d_d.p_dy p)), AFp (d_d.p_dy p)] s
                in err_inc s)
          else s))"

definition ceil_main ::
    "fe_cfg \<Rightarrow> (fp \<Rightarrow> fp call) \<Rightarrow> d_d list \<Rightarrow> fenv \<Rightarrow> int \<times> cout list" where
  "ceil_main c fn t env = mtest_main c d_d.p_r (ceil_row c fn) t env"

definition copysign_row ::
    "fe_cfg \<Rightarrow> (fp \<Rightarrow> fp \<Rightarrow> fp call) \<Rightarrow> dd_d \<Rightarrow> mst \<Rightarrow> mst" where
  "copysign_row c fn p s =
    (let (y, s) = libcall (fn (dd_d.p_x p) (dd_d.p_x2 p)) s;
         e = except c s;
         s = (if \<not> checkexceptall e (dd_d.p_e p) (dd_d.p_r p)
           then (let s = c_printf ''%s:%d: bad fp exception: %s copysign(%a,%a)=%a, want %s''
                      [AStr (dd_d.p_file p), AInt (dd_d.p_line p), AStr (rstr c (dd_d.p_r p)),
                       AFp (dd_d.p_x p), AFp (dd_d.p_x2 p), AFp (dd_d.p_y p),
                       AStr (estr c (dd_d.p_e p))] s;
                     s = c_printfln '' got %s'' [AStr (estr c e)] s
                 in err_inc s)
           else s);
         d = ulperr (rm c s) y (dd_d.p_y p) (dd_d.p_dy p)
     in (if \<not> checkcr y (dd_d.p_y p) (dd_d.p_r p)
          then (let s = c_printfln ''%s:%d: %s copysign(%a,%a) want %a got %a ulperr %.3f = %a + %a''
                     [AStr (dd_d.p_file p), AInt (dd_d.p_line p), AStr (rstr c (dd_d.p_r p)),
                      AFp (dd_d.p_x p), AFp (dd_d.p_x2 p), AFp (dd_d.p_y p), AFp y, AFp d,
                      AFp (fp_sub flt32 (rm c s) d (dd_d.p_dy p)), AFp (dd_d.p_dy p)] s
                in err_inc s)
          else s))"

definition copysign_main ::
    "fe_cfg \<Rightarrow> (fp \<Rightarrow> fp \<Rightarrow> fp call) \<Rightarrow> dd_d list \<Rightarrow> fenv \<Rightarrow> int \<times> cout list" where
  "copysign_main c fn t env = mtest_main c dd_d.p_r (copysign_row c fn) t env"

definition cos_row ::
    "fe_cfg \<Rightarrow> (fp \<Rightarrow> fp call) \<Rightarrow> d_d \<Rightarrow> mst \<Rightarrow> mst" where
  "cos_row c fn p s =
    (let (y, s) = libcall (fn (d_d.p_x p)) s;
         e = except c s;
         s = (if \<not> checkexcept c e (d_d.p_e p) (d_d.p_r p)
           then (let s = c_printf ''%s:%d: bad fp exception: %s cos(%a)=%a, want %s''
                      [AStr (d_d.p_file p), AInt (d_d.p_line p), AStr (rstr c (d_d.p_r p)),
                       AFp (d_d.p_x p), AFp (d_d.p_y p), AStr (estr c (d_d.p_e p))] s;
                     s = c_printfln '' got %s'' [AStr (estr c e)] s
                 in err_inc s)
           else s);
         d = ulperr (rm c s) y (d_d.p_y p) (d_d.p_dy p)
     in (if \<not> checkulp c d (d_d.p_r p)
          then (let s = (if d_d.p_r p \<noteq> RN c
                    then c_printf ''X '' [] s
                    else err_inc s)
                in c_printfln ''%s:%d: %s cos(%a) want %a got %a ulperr %.3f = %a + %a''
                     [AStr (d_d.p_file p), AInt (d_d.p_line p), AStr (rstr c (d_d.p_r p)),
                      AFp (d_d.p_x p), AFp (d_d.p_y p), AFp y, AFp d,
                      AFp (fp_sub flt32 (rm c s) d (d_d.p_dy p)), AFp (d_d.p_dy p)] s)
          else s))"

definition cos_main ::
    "fe_cfg \<Rightarrow> (fp \<Rightarrow> fp call) \<Rightarrow> d_d list \<Rightarrow> fenv \<Rightarrow> int \<times> cout list" where
  "cos_main c fn t env = mtest_main c d_d.p_r (cos_row c fn) t env"

definition cosh_row ::
    "fe_cfg \<Rightarrow> (fp \<Rightarrow> fp call) \<Rightarrow> d_d \<Rightarrow> mst \<Rightarrow> mst" where
  "cosh_row c fn p s =
    (let (y, s) = libcall (fn (d_d.p_x p)) s;
         e = except c s;
         s = (if \<not> checkexcept c e (d_d.p_e p) (d_d.p_r p)
           then (let s = c_printf ''%s:%d: bad fp exception: %s cosh(%a)=%a, want %s''
                      [AStr (d_d.p_file p), AInt (d_d.p_line p), AStr (rstr c (d_d.p_r p)),
                       AFp (d_d.p_x p), AFp (d_d.p_y p), AStr (estr c (d_d.p_e p))] s;
                     s = c_printfln '' got %s'' [AStr (estr c e)] s
                 in err_inc s)
           else s);
         d = ulperr (rm c s) y (d_d.p_y p) (d_d.p_dy p)
     in (if \<not> checkulp c d (d_d.p_r p)
          then (let s = c_printfln ''%s:%d: %s cosh(%a) want %a got %a ulperr %.3f = %a + %a''
                     [AStr (d_d.p_file p), AInt (d_d.p_line p), AStr (rstr c (d_d.p_r p)),
                      AFp (d_d.p_x p), AFp (d_d.p_y p), AFp y, AFp d,
                      AFp (fp_sub flt32 (rm c s) d (d_d.p_dy p)), AFp (d_d.p_dy p)] s
                in err_inc s)
          else s))"

definition cosh_main ::
    "fe_cfg \<Rightarrow> (fp \<Rightarrow> fp call) \<Rightarrow> d_d list \<Rightarrow> fenv \<Rightarrow> int \<times> cout list" where
  "cosh_main c fn t env = mtest_main c d_d.p_r (cosh_row c fn) t env"

definition drem_row ::
    "fe_cfg \<Rightarrow> (fp \<Rightarrow> fp \<Rightarrow> fp call) \<Rightarrow> dd_d \<Rightarrow> mst \<Rightarrow> mst" where
  "drem_row c fn p s =
    (let (y, s) = libcall (fn (dd_d.p_x p) (dd_d.p_x2 p)) s;
         e = except c s;
         s = (if \<not> checkexcept c e (dd_d.p_e p) (dd_d.p_r p)
           then (let s = c_printf ''%s:%d: bad fp exception: %s drem(%a,%a)=%a, want %s''
                      [AStr (dd_d.p_file p), AInt (dd_d.p_line p), AStr (rstr c (dd_d.p_r p)),
                       AFp (dd_d.p_x p), AFp (dd_d.p_x2 p), AFp (dd_d.p_y p),
                       AStr (estr c (dd_d.p_e p))] s;
                     s = c_printfln '' got %s'' [AStr (estr c e)] s
                 in err_inc s)
           else s);
         d = ulperr (rm c s) y (dd_d.p_y p) (dd_d.p_dy p)
     in (if \<not> checkcr y (dd_d.p_y p) (dd_d.p_r p)
          then (let s = c_printfln ''%s:%d: %s drem(%a,%a) want %a got %a ulperr %.3f = %a + %a''
                     [AStr (dd_d.p_file p), AInt (dd_d.p_line p), AStr (rstr c (dd_d.p_r p)),
                      AFp (dd_d.p_x p), AFp (dd_d.p_x2 p), AFp (dd_d.p_y p), AFp y, AFp d,
                      AFp (fp_sub flt32 (rm c s) d (dd_d.p_dy p)), AFp (dd_d.p_dy p)] s
                in err_inc s)
          else s))"

definition drem_main ::
    "fe_cfg \<Rightarrow> (fp \<Rightarrow> fp \<Rightarrow> fp call) \<Rightarrow> dd_d list \<Rightarrow> fenv \<Rightarrow> int \<times> cout list" where
  "drem_main c fn t env = mtest_main c dd_d.p_r (drem_row c fn) t env"

definition erf_row ::
    "fe_cfg \<Rightarrow> (fp \<Rightarrow> fp call) \<Rightarrow> d_d \<Rightarrow> mst \<Rightarrow> mst" where
  "erf_row c fn p s =
    (let (y, s) = libcall (fn (d_d.p_x p)) s;
         e = except c s;
         s = (if \<not> checkexcept c e (d_d.p_e p) (d_d.p_r p)
           then (let s = c_printf ''%s:%d: bad fp exception: %s erf(%a)=%a, want %s''
                      [AStr (d_d.p_file p), AInt (d_d.p_line p), AStr (rstr c (d_d.p_r p)),
                       AFp (d_d.p_x p), AFp (d_d.p_y p), AStr (estr c (d_d.p_e p))] s;
                     s = c_printfln '' got %s'' [AStr (estr c e)] s
                 in err_inc s)
           else s);
         d = ulperr (rm c s) y (d_d.p_y p) (d_d.p_dy p)
     in (if \<not> checkulp c d (d_d.p_r p)
          then (let s = (if fp_lt (fabs d) (Fin False 4 0)
                    then c_printf ''X '' [] s
                    else err_inc s)
                in c_printfln ''%s:%d: %s erf(%a) want %a got %a ulperr %.3f = %a + %a''
                     [AStr (d_d.p_file p), AInt (d_d.p_line p), AStr (rstr c (d_d.p_r p)),
                      AFp (d_d.p_x p), AFp (d_d.p_y p), AFp y, AFp d,
                      AFp (fp_sub flt32 (rm c s) d (d_d.p_dy p)), AFp (d_d.p_dy p)] s)
          else s))"

definition erf_main ::
    "fe_cfg \<Rightarrow> (fp \<Rightarrow> fp call) \<Rightarrow> d_d list \<Rightarrow> fenv \<Rightarrow> int \<times> cout list" where
  "erf_main c fn t env = mtest_main c d_d.p_r (erf_row c fn) t env"

definition erfc_row ::
    "fe_cfg \<Rightarrow> (fp \<Rightarrow> fp call) \<Rightarrow> d_d \<Rightarrow> mst \<Rightarrow> mst" where
  "erfc_row c fn p s =
    (let (y, s) = libcall (fn (d_d.p_x p)) s;
         e = except c s;
         s = (if \<not> checkexcept c e (d_d.p_e p) (d_d.p_r p)
           then (let s = c_printf ''%s:%d: bad fp exception: %s erfc(%a)=%a, want %s''
                      [AStr (d_d.p_file p), AInt (d_d.p_line p), AStr (rstr c (d_d.p_r p)),
                       AFp (d_d.p_x p), AFp (d_d.p_y p), AStr (estr c (d_d.p_e p))] s;
                     s = c_printfln '' got %s'' [AStr (estr c e)] s
                 in err_inc s)
           else s);
         d = ulperr (rm c s) y (d_d.p_y p) (d_d.p_dy p)
     in (if \<not> checkulp c d (d_d.p_r p)
          then (let s = (if fp_lt (fabs d) (Fin False 4 0)
                    then c_printf ''X '' [] s
                    else err_inc s)
                in c_printfln ''%s:%d: %s erfc(%a) want %a got %a ulperr %.3f = %a + %a''
                     [AStr (d_d.p_file p), AInt (d_d.p_line p), AStr (rstr c (d_d.p_r p)),
                      AFp (d_d.p_x p), AFp (d_d.p_y p), AFp y, AFp d,
                      AFp (fp_sub flt32 (rm c s) d (d_d.p_dy p)), AFp (d_d.p_dy p)] s)
          else s))"

definition erfc_main ::
    "fe_cfg \<Rightarrow> (fp \<Rightarrow> fp call) \<Rightarrow> d_d list \<Rightarrow> fenv \<Rightarrow> int \<times> cout list" where
  "erfc_main c fn t env = mtest_main c d_d.p_r (erfc_row c fn) t env"

definition exp_row ::
    "fe_cfg \<Rightarrow> (fp \<Rightarrow> fp call) \<Rightarrow> d_d \<Rightarrow> mst \<Rightarrow> mst" where
  "exp_row c fn p s =
    (let (y, s) = libcall (fn (d_d.p_x p)) s;
         e = except c s;
         s = (if \<not> checkexcept c e (d_d.p_e p) (d_d.p_r p)
           then (let s = c_printf ''%s:%d: bad fp exception: %s exp(%a)=%a, want %s''
                      [AStr (d_d.p_file p), AInt (d_d.p_line p), AStr (rstr c (d_d.p_r p)),
                       AFp (d_d.p_x p), AFp (d_d.p_y p), AStr (estr c (d_d.p_e p))] s;
                     s = c_printfln '' got %s'' [AStr (estr c e)] s
                 in err_inc s)
           else s);
         d = ulperr (rm c s) y (d_d.p_y p) (d_d.p_dy p)
     in (if \<not> checkulp c d (d_d.p_r p)
          then (let s = c_printfln ''%s:%d: %s exp(%a) want %a got %a ulperr %.3f = %a + %a''
                     [AStr (d_d.p_file p), AInt (d_d.p_line p), AStr (rstr c (d_d.p_r p)),
                      AFp (d_d.p_x p), AFp (d_d.p_y p), AFp y, AFp d,
                      AFp (fp_sub flt32 (rm c s) d (d_d.p_dy p)), AFp (d_d.p_dy p)] s
                in err_inc s)
          else s))"

definition exp_main ::
    "fe_cfg \<Rightarrow> (fp \<Rightarrow> fp call) \<Rightarrow> d_d list \<Rightarrow> fenv \<Rightarrow> int \<times> cout list" where
  "exp_main c fn t env = mtest_main c d_d.p_r (exp_row c fn) t env"

definition exp10_row ::
    "fe_cfg \<Rightarrow> (fp \<Rightarrow> fp call) \<Rightarrow> d_d \<Rightarrow> mst \<Rightarrow> mst" where
  "exp10_row c fn p s =
    (let (y, s) = libcall (fn (d_d.p_x p)) s;
         e = except c s;
         s = (if \<not> checkexcept c e (d_d.p_e p) (d_d.p_r p)
           then (let s = c_printf ''%s:%d: bad fp exception: %s exp10(%a)=%a, want %s''
                      [AStr (d_d.p_file p), AInt (d_d.p_line p), AStr (rstr c (d_d.p_r p)),
                       AFp (d_d.p_x p), AFp (d_d.p_y p), AStr (estr c (d_d.p_e p))] s;
                     s = c_printfln '' got %s'' [AStr (estr c e)] s
                 in err_inc s)
           else s);
         d = ulperr (rm c s) y (d_d.p_y p) (d_d.p_dy p)
     in (if \<not> checkulp c d (d_d.p_r p)
          then (let s = c_printfln ''%s:%d: %s exp10(%a) want %a got %a ulperr %.3f = %a + %a''
                     [AStr (d_d.p_file p), AInt (d_d.p_line p), AStr (rstr c (d_d.p_r p)),
                      AFp (d_d.p_x p), AFp (d_d.p_y p), AFp y, AFp d,
                      AFp (fp_sub flt32 (rm c s) d (d_d.p_dy p)), AFp (d_d.p_dy p)] s
                in err_inc s)
          else s))"

definition exp10_main ::
    "fe_cfg \<Rightarrow> (fp \<Rightarrow> fp call) \<Rightarrow> d_d list \<Rightarrow> fenv \<Rightarrow> int \<times> cout list" where
  "exp10_main c fn t env = mtest_main c d_d.p_r (exp10_row c fn) t env"

definition exp2_row ::
    "fe_cfg \<Rightarrow> (fp \<Rightarrow> fp call) \<Rightarrow> d_d \<Rightarrow> mst \<Rightarrow> mst" where
  "exp2_row c fn p s =
    (let (y, s) = libcall (fn (d_d.p_x p)) s;
         e = except c s;
         s = (if \<not> checkexcept c e (d_d.p_e p) (d_d.p_r p)
           then (let s = (if fp_lt (fabs y) (Fin False 1 (-1022))
                          \<and> (e OR INEXACT c) = (INEXACT c OR UNDERFLOW c)
                     then c_printf ''X '' [] s
                     else err_inc s);
                     s = c_printf ''%s:%d: bad fp exception: %s exp2(%a)=%a, want %s''
                      [AStr (d_d.p_file p), AInt (d_d.p_line p), AStr (rstr c (d_d.p_r p)),
                       AFp (d_d.p_x p), AFp (d_d.p_y p), AStr (estr c (d_d.p_e p))] s
                 in c_printfln '' got %s'' [AStr (estr c e)] s)
           else s);
         d = ulperr (rm c s) y (d_d.p_y p) (d_d.p_dy p)
     in (if \<not> checkulp c d (d_d.p_r p)
          then (let s = c_printfln ''%s:%d: %s exp2(%a) want %a got %a ulperr %.3f = %a + %a''
                     [AStr (d_d.p_file p), AInt (d_d.p_line p), AStr (rstr c (d_d.p_r p)),
                      AFp (d_d.p_x p), AFp (d_d.p_y p), AFp y, AFp d,
                      AFp (fp_sub flt32 (rm c s) d (d_d.p_dy p)), AFp (d_d.p_dy p)] s
                in err_inc s)
          else s))"

definition exp2_main ::
    "fe_cfg \<Rightarrow> (fp \<Rightarrow> fp call) \<Rightarrow> d_d list \<Rightarrow> fenv \<Rightarrow> int \<times> cout list" where
  "exp2_main c fn t env = mtest_main c d_d.p_r (exp2_row c fn) t env"

definition expm1_row ::
    "fe_cfg \<Rightarrow> (fp \<Rightarrow> fp call) \<Rightarrow> d_d \<Rightarrow> mst \<Rightarrow> mst" where
  "expm1_row c fn p s =
    (let (y, s) = libcall (fn (d_d.p_x p)) s;
         e = except c s;
         s = (if \<not> checkexcept c e (d_d.p_e p) (d_d.p_r p)
           then (let s = c_printf ''%s:%d: bad fp exception: %s expm1(%a)=%a, want %s''
                      [AStr (d_d.p_file p), AInt (d_d.p_line p), AStr (rstr c (d_d.p_r p)),
                       AFp (d_d.p_x p), AFp (d_d.p_y p), AStr (estr c (d_d.p_e p))] s;
                     s = c_printfln '' got %s'' [AStr (estr c e)] s
                 in err_inc s)
           else s);
         d = ulperr (rm c s) y (d_d.p_y p) (d_d.p_dy p)
     in (if \<not> checkulp c d (d_d.p_r p)
          then (let s = c_printfln ''%s:%d: %s expm1(%a) want %a got %a ulperr %.3f = %a + %a''
                     [AStr (d_d.p_file p), AInt (d_d.p_line p), AStr (rstr c (d_d.p_r p)),
                      AFp (d_d.p_x p), AFp (d_d.p_y p), AFp y, AFp d,
                      AFp (fp_sub flt32 (rm c s) d (d_d.p_dy p)), AFp (d_d.p_dy p)] s
                in err_inc s)
          else s))"

definition expm1_main ::
    "fe_cfg \<Rightarrow> (fp \<Rightarrow> fp call) \<Rightarrow> d_d list \<Rightarrow> fenv \<Rightarrow> int \<times> cout list" where
  "expm1_main c fn t env = mtest_main c d_d.p_r (expm1_row c fn) t env"

definition fabs_row ::
    "fe_cfg \<Rightarrow> (fp \<Rightarrow> fp call) \<Rightarrow> d_d \<Rightarrow> mst \<Rightarrow> mst" where
  "fabs_row c fn p s =
    (let (y, s) = libcall (fn (d_d.p_x p)) s;
         e = except c s;
         s = (if \<not> checkexceptall e (d_d.p_e p) (d_d.p_r p)
           then (let s = c_printf ''%s:%d: bad fp exception: %s fabs(%a)=%a, want %s''
                      [AStr (d_d.p_file p), AInt (d_d.p_line p), AStr (rstr c (d_d.p_r p)),
                       AFp (d_d.p_x p), AFp (d_d.p_y p), AStr (estr c (d_d.p_e p))] s;
                     s = c_printfln '' got %s'' [AStr (estr c e)] s
                 in err_inc s)
           else s);
         d = ulperr (rm c s) y (d_d.p_y p) (d_d.p_dy p)
     in (if \<not> checkcr y (d_d.p_y p) (d_d.p_r p)
          then (let s = c_printfln ''%s:%d: %s fabs(%a) want %a got %a ulperr %.3f = %a + %a''
                     [AStr (d_d.p_file p), AInt (d_d.p_line p), AStr (rstr c (d_d.p_r p)),
                      AFp (d_d.p_x p), AFp (d_d.p_y p), AFp y, AFp d,
                      AFp (fp_sub flt32 (rm c s) d (d_d.p_dy p)), AFp (d_d.p_dy p)] s
                in err_inc s)
          else s))"

definition fabs_main ::
    "fe_cfg \<Rightarrow> (fp \<Rightarrow> fp call) \<Rightarrow> d_d list \<Rightarrow> fenv \<Rightarrow> int \<times> cout list" where
  "fabs_main c fn t env = mtest_main c d_d.p_r (fabs_row c fn) t env"

definition fdim_row ::
    "fe_cfg \<Rightarrow> (fp \<Rightarrow> fp \<Rightarrow> fp call) \<Rightarrow> dd_d \<Rightarrow> mst \<Rightarrow> mst" where
  "fdim_row c fn p s =
    (let (y, s) = libcall (fn (dd_d.p_x p) (dd_d.p_x2 p)) s;
         e = except c s;
         s = (if \<not> checkexceptall e (dd_d.p_e p) (dd_d.p_r p)
           then (let s = c_printf ''%s:%d: bad fp exception: %s fdim(%a,%a)=%a, want %s''
                      [AStr (dd_d.p_file p), AInt (dd_d.p_line p), AStr (rstr c (dd_d.p_r p)),
                       AFp (dd_d.p_x p), AFp (dd_d.p_x2 p), AFp (dd_d.p_y p),
                       AStr (estr c (dd_d.p_e p))] s;
                     s = c_printfln '' got %s'' [AStr (estr c e)] s
                 in err_inc s)
           else s);
         d = ulperr (rm c s) y (dd_d.p_y p) (dd_d.p_dy p)
     in (if \<not> checkcr y (dd_d.p_y p) (dd_d.p_r p)
          then (let s = c_printfln ''%s:%d: %s fdim(%a,%a) want %a got %a ulperr %.3f = %a + %a''
                     [AStr (dd_d.p_file p), AInt (dd_d.p_line p), AStr (rstr c (dd_d.p_r p)),
                      AFp (dd_d.p_x p), AFp (dd_d.p_x2 p), AFp (dd_d.p_y p), AFp y, AFp d,
                      AFp (fp_sub flt32 (rm c s) d (dd_d.p_dy p)), AFp (dd_d.p_dy p)] s
                in err_inc s)
          else s))"

definition fdim_main ::
    "fe_cfg \<Rightarrow> (fp \<Rightarrow> fp \<Rightarrow> fp call) \<Rightarrow> dd_d list \<Rightarrow> fenv \<Rightarrow> int \<times> cout list" where
  "fdim_main c fn t env = mtest_main c dd_d.p_r (fdim_row c fn) t env"

definition floor_row ::
    "fe_cfg \<Rightarrow> (fp \<Rightarrow> fp call) \<Rightarrow> d_d \<Rightarrow> mst \<Rightarrow> mst" where
  "floor_row c fn p s =
    (let (y, s) = libcall (fn (d_d.p_x p)) s;
         e = except c s;
         s = (if \<not> checkexceptall e (d_d.p_e p) (d_d.p_r p)
              \<and> (e OR INEXACT c) \<noteq> d_d.p_e p
           then (let s = c_printf ''%s:%d: bad fp exception: %s floor(%a)=%a, want %s''
                      [AStr (d_d.p_file p), AInt (d_d.p_line p), AStr (rstr c (d_d.p_r p)),
                       AFp (d_d.p_x p), AFp (d_d.p_y p), AStr (estr c (d_d.p_e p))] s;
                     s = c_printfln '' got %s'' [AStr (estr c e)] s
                 in err_inc s)
           else s);
         d = ulperr (rm c s) y (d_d.p_y p) (d_d.p_dy p)
     in (if \<not> checkcr y (d_d.p_y p) (d_d.p_r p)
          then (let s = c_printfln ''%s:%d: %s floor(%a) want %a got %a ulperr %.3f = %a + %a''
                     [AStr (d_d.p_file p), AInt (d_d.p_line p), AStr (rstr c (d_d.p_r p)),
                      AFp (d_d.p_x p), AFp (d_d.p_y p), AFp y, AFp d,
                      AFp (fp_sub flt32 (rm c s) d (d_d.p_dy p)), AFp (d_d.p_dy p)] s
                in err_inc s)
          else s))"

definition floor_main ::
    "fe_cfg \<Rightarrow> (fp \<Rightarrow> fp call) \<Rightarrow> d_d list \<Rightarrow> fenv \<Rightarrow> int \<times> cout list" where
  "floor_main c fn t env = mtest_main c d_d.p_r (floor_row c fn) t env"

definition fma_row ::
    "fe_cfg \<Rightarrow> (fp \<Rightarrow> fp \<Rightarrow> fp \<Rightarrow> fp call) \<Rightarrow> ddd_d \<Rightarrow> mst \<Rightarrow> mst" where
  "fma_row c fn p s =
    (let (y, s) = libcall (fn (ddd_d.p_x p) (ddd_d.p_x2 p) (ddd_d.p_x3 p)) s;
         e = except c s;
         s = (if \<not> checkexcept_fma c e (ddd_d.p_e p) (ddd_d.p_r p)
           then (let s = c_printf ''%s:%d: bad fp exception: %s fma(%a,%a,%a)=%a, want %s''
                      [AStr (ddd_d.p_file p), AInt (ddd_d.p_line p), AStr (rstr c (ddd_d.p_r p)),
                       AFp (ddd_d.p_x p), AFp (ddd_d.p_x2 p), AFp (ddd_d.p_x3 p),
                       AFp (ddd_d.p_y p), AStr (estr c (ddd_d.p_e p))] s;
                     s = c_printfln '' got %s'' [AStr (estr c e)] s
                 in err_inc s)
           else s);
         d = ulperr (rm c s) y (ddd_d.p_y p) (ddd_d.p_dy p)
     in (if \<not> checkcr y (ddd_d.p_y p) (ddd_d.p_r p)
          then (let s = c_printfln ''%s:%d: %s fma(%a,%a,%a) want %a got %a ulperr %.3f = %a + %a''
                     [AStr (ddd_d.p_file p), AInt (ddd_d.p_line p), AStr (rstr c (ddd_d.p_r p)),
                      AFp (ddd_d.p_x p), AFp (ddd_d.p_x2 p), AFp (ddd_d.p_x3 p),
                      AFp (ddd_d.p_y p), AFp y, AFp d,
                      AFp (fp_sub flt32 (rm c s) d (ddd_d.p_dy p)), AFp (ddd_d.p_dy p)] s
                in err_inc s)
          else s))"

definition fma_main ::
    "fe_cfg \<Rightarrow> (fp \<Rightarrow> fp \<Rightarrow> fp \<Rightarrow> fp call) \<Rightarrow> ddd_d list \<Rightarrow> fenv \<Rightarrow> int \<times> cout list" where
  "fma_main c fn t env = mtest_main c ddd_d.p_r (fma_row c fn) t env"

definition fmax_row ::
    "fe_cfg \<Rightarrow> (fp \<Rightarrow> fp \<Rightarrow> fp call) \<Rightarrow> dd_d \<Rightarrow> mst \<Rightarrow> mst" where
  "fmax_row c fn p s =
    (let (y, s) = libcall (fn (dd_d.p_x p) (dd_d.p_x2 p)) s;
         e = except c s;
         s = (if \<not> checkexceptall e (dd_d.p_e p) (dd_d.p_r p)
           then (let s = c_printf ''%s:%d: bad fp exception: %s fmax(%a,%a)=%a, want %s''
                      [AStr (dd_d.p_file p), AInt (dd_d.p_line p), AStr (rstr c (dd_d.p_r p)),
                       AFp (dd_d.p_x p), AFp (dd_d.p_x2 p), AFp (dd_d.p_y p),
                       AStr (estr c (dd_d.p_e p))] s;
                     s = c_printfln '' got %s'' [AStr (estr c e)] s
                 in err_inc s)
           else s);
         d = ulperr (rm c s) y (dd_d.p_y p) (dd_d.p_dy p)
     in (if \<not> checkcr y (dd_d.p_y p) (dd_d.p_r p)
          then (let s = c_printfln ''%s:%d: %s fmax(%a,%a) want %a got %a ulperr %.3f = %a + %a''
                     [AStr (dd_d.p_file p), AInt (dd_d.p_line p), AStr (rstr c (dd_d.p_r p)),
                      AFp (dd_d.p_x p), AFp (dd_d.p_x2 p), AFp (dd_d.p_y p), AFp y, AFp d,
                      AFp (fp_sub flt32 (rm c s) d (dd_d.p_dy p)), AFp (dd_d.p_dy p)] s
                in err_inc s)
          else s))"

definition fmax_main ::
    "fe_cfg \<Rightarrow> (fp \<Rightarrow> fp \<Rightarrow> fp call) \<Rightarrow> dd_d list \<Rightarrow> fenv \<Rightarrow> int \<times> cout list" where
  "fmax_main c fn t env = mtest_main c dd_d.p_r (fmax_row c fn) t env"

definition fmin_row ::
    "fe_cfg \<Rightarrow> (fp \<Rightarrow> fp \<Rightarrow> fp call) \<Rightarrow> dd_d \<Rightarrow> mst \<Rightarrow> mst" where
  "fmin_row c fn p s =
    (let (y, s) = libcall (fn (dd_d.p_x p) (dd_d.p_x2 p)) s;
         e = except c s;
         s = (if \<not> checkexceptall e (dd_d.p_e p) (dd_d.p_r p)
           then (let s = c_printf ''%s:%d: bad fp exception: %s fmin(%a,%a)=%a, want %s''
                      [AStr (dd_d.p_file p), AInt (dd_d.p_line p), AStr (rstr c (dd_d.p_r p)),
                       AFp (dd_d.p_x p), AFp (dd_d.p_x2 p), AFp (dd_d.p_y p),
                       AStr (estr c (dd_d.p_e p))] s;
                     s = c_printfln '' got %s'' [AStr (estr c e)] s
                 in err_inc s)
           else s);
         d = ulperr (rm c s) y (dd_d.p_y p) (dd_d.p_dy p)
     in (if \<not> checkcr y (dd_d.p_y p) (dd_d.p_r p)
          then (let s = c_printfln ''%s:%d: %s fmin(%a,%a) want %a got %a ulperr %.3f = %a + %a''
                     [AStr (dd_d.p_file p), AInt (dd_d.p_line p), AStr (rstr c (dd_d.p_r p)),
                      AFp (dd_d.p_x p), AFp (dd_d.p_x2 p), AFp (dd_d.p_y p), AFp y, AFp d,
                      AFp (fp_sub flt32 (rm c s) d (dd_d.p_dy p)), AFp (dd_d.p_dy p)] s
                in err_inc s)
          else s))"

definition fmin_main ::
    "fe_cfg \<Rightarrow> (fp \<Rightarrow> fp \<Rightarrow> fp call) \<Rightarrow> dd_d list \<Rightarrow> fenv \<Rightarrow> int \<times> cout list" where
  "fmin_main c fn t env = mtest_main c dd_d.p_r (fmin_row c fn) t env"

definition fmod_row ::
    "fe_cfg \<Rightarrow> (fp \<Rightarrow> fp \<Rightarrow> fp call) \<Rightarrow> dd_d \<Rightarrow> mst \<Rightarrow> mst" where
  "fmod_row c fn p s =
    (let (y, s) = libcall (fn (dd_d.p_x p) (dd_d.p_x2 p)) s;
         e = except c s;
         s = (if \<not> checkexcept c e (dd_d.p_e p) (dd_d.p_r p)
           then (let s = c_printf ''%s:%d: bad fp exception: %s fmod(%a,%a)=%a, want %s''
                      [AStr (dd_d.p_file p), AInt (dd_d.p_line p), AStr (rstr c (dd_d.p_r p)),
                       AFp (dd_d.p_x p), AFp (dd_d.p_x2 p), AFp (dd_d.p_y p),
                       AStr (estr c (dd_d.p_e p))] s;
                     s = c_printfln '' got %s'' [AStr (estr c e)] s
                 in err_inc s)
           else s);
         d = ulperr (rm c s) y (dd_d.p_y p) (dd_d.p_dy p)
     in (if \<not> checkcr y (dd_d.p_y p) (dd_d.p_r p)
          then (let s = c_printfln ''%s:%d: %s fmod(%a,%a) want %a got %a ulperr %.3f = %a + %a''
                     [AStr (dd_d.p_file p), AInt (dd_d.p_line p), AStr (rstr c (dd_d.p_r p)),
                      AFp (dd_d.p_x p), AFp (dd_d.p_x2 p), AFp (dd_d.p_y p), AFp y, AFp d,
                      AFp (fp_sub flt32 (rm c s) d (dd_d.p_dy p)), AFp (dd_d.p_dy p)] s
                in err_inc s)
          else s))"

definition fmod_main ::
    "fe_cfg \<Rightarrow> (fp \<Rightarrow> fp \<Rightarrow> fp call) \<Rightarrow> dd_d list \<Rightarrow> fenv \<Rightarrow> int \<times> cout list" where
  "fmod_main c fn t env = mtest_main c dd_d.p_r (fmod_row c fn) t env"

definition frexp_row ::
    "fe_cfg \<Rightarrow> (fp \<Rightarrow> (fp \<times> int) call) \<Rightarrow> d_di \<Rightarrow> mst \<Rightarrow> mst" where
  "frexp_row c fn p s =
    (let ((y, yi), s) = libcall (fn (d_di.p_x p)) s;
         e = except c s;
         s = (if \<not> checkexceptall e (d_di.p_e p) (d_di.p_r p)
           then (let s = c_printf ''%s:%d: bad fp exception: %s frexp(%a)=%a,%lld, want %s''
                      [AStr (d_di.p_file p), AInt (d_di.p_line p), AStr (rstr c (d_di.p_r p)),
                       AFp (d_di.p_x p), AFp (d_di.p_y p), AInt (d_di.p_i p),
                       AStr (estr c (d_di.p_e p))] s;
                     s = c_printfln '' got %s'' [AStr (estr c e)] s
                 in err_inc s)
           else s);
         d = ulperr (rm c s) y (d_di.p_y p) (d_di.p_dy p)
     in (if \<not> checkcr y (d_di.p_y p) (d_di.p_r p) \<or> isfinite (d_di.p_x p)
            \<and> yi \<noteq> d_di.p_i p
          then (let s = c_printfln ''%s:%d: %s frexp(%a) want %a,%lld got %a,%d ulperr %.3f = %a + %a''
                     [AStr (d_di.p_file p), AInt (d_di.p_line p), AStr (rstr c (d_di.p_r p)),
                      AFp (d_di.p_x p), AFp (d_di.p_y p), AInt (d_di.p_i p), AFp y, AInt yi,
                      AFp d, AFp (fp_sub flt32 (rm c s) d (d_di.p_dy p)), AFp (d_di.p_dy p)] s
                in err_inc s)
          else s))"

definition frexp_main ::
    "fe_cfg \<Rightarrow> (fp \<Rightarrow> (fp \<times> int) call) \<Rightarrow> d_di list \<Rightarrow> fenv \<Rightarrow> int \<times> cout list" where
  "frexp_main c fn t env = mtest_main c d_di.p_r (frexp_row c fn) t env"

definition hypot_row ::
    "fe_cfg \<Rightarrow> (fp \<Rightarrow> fp \<Rightarrow> fp call) \<Rightarrow> dd_d \<Rightarrow> mst \<Rightarrow> mst" where
  "hypot_row c fn p s =
    (let (y, s) = libcall (fn (dd_d.p_x p) (dd_d.p_x2 p)) s;
         e = except c s;
         s = (if \<not> checkexcept c e (dd_d.p_e p) (dd_d.p_r p)
           then (let s = c_printf ''%s:%d: bad fp exception: %s hypot(%a,%a)=%a, want %s''
                      [AStr (dd_d.p_file p), AInt (dd_d.p_line p), AStr (rstr c (dd_d.p_r p)),
                       AFp (dd_d.p_x p), AFp (dd_d.p_x2 p), AFp (dd_d.p_y p),
                       AStr (estr c (dd_d.p_e p))] s;
                     s = c_printfln '' got %s'' [AStr (estr c e)] s
                 in err_inc s)
           else s);
         d = ulperr (rm c s) y (dd_d.p_y p) (dd_d.p_dy p)
     in (if \<not> checkulp c d (dd_d.p_r p) \<or> dd_d.p_r p = RN c
            \<and> fp_le (Fin False 1 0) (fabs d)
          then (let s = c_printfln ''%s:%d: %s hypot(%a,%a) want %a got %a ulperr %.3f = %a + %a''
                     [AStr (dd_d.p_file p), AInt (dd_d.p_line p), AStr (rstr c (dd_d.p_r p)),
                      AFp (dd_d.p_x p), AFp (dd_d.p_x2 p), AFp (dd_d.p_y p), AFp y, AFp d,
                      AFp (fp_sub flt32 (rm c s) d (dd_d.p_dy p)), AFp (dd_d.p_dy p)] s
                in err_inc s)
          else s))"

definition hypot_main ::
    "fe_cfg \<Rightarrow> (fp \<Rightarrow> fp \<Rightarrow> fp call) \<Rightarrow> dd_d list \<Rightarrow> fenv \<Rightarrow> int \<times> cout list" where
  "hypot_main c fn t env = mtest_main c dd_d.p_r (hypot_row c fn) t env"

definition ilogb_row ::
    "fe_cfg \<Rightarrow> (fp \<Rightarrow> int call) \<Rightarrow> d_i \<Rightarrow> mst \<Rightarrow> mst" where
  "ilogb_row c fn p s =
    (let (yi, s) = libcall (fn (d_i.p_x p)) s;
         e = except c s;
         s = (if \<not> checkexcept c e (d_i.p_e p) (d_i.p_r p)
           then (let s = c_printf ''%s:%d: bad fp exception: %s ilogb(%a)=%lld, want %s''
                      [AStr (d_i.p_file p), AInt (d_i.p_line p), AStr (rstr c (d_i.p_r p)),
                       AFp (d_i.p_x p), AInt (d_i.p_i p), AStr (estr c (d_i.p_e p))] s;
                     s = c_printfln '' got %s'' [AStr (estr c e)] s
                 in err_inc s)
           else s)
     in (if yi \<noteq> d_i.p_i p
          then (let s = c_printfln ''%s:%d: %s ilogb(%a) want %lld got %lld''
                     [AStr (d_i.p_file p), AInt (d_i.p_line p), AStr (rstr c (d_i.p_r p)),
                      AFp (d_i.p_x p), AInt (d_i.p_i p), AInt yi] s
                in err_inc s)
          else s))"

definition ilogb_main ::
    "fe_cfg \<Rightarrow> (fp \<Rightarrow> int call) \<Rightarrow> d_i list \<Rightarrow> fenv \<Rightarrow> int \<times> cout list" where
  "ilogb_main c fn t env = mtest_main c d_i.p_r (ilogb_row c fn) t env"

definition j0_row ::
    "fe_cfg \<Rightarrow> (fp \<Rightarrow> fp call) \<Rightarrow> d_d \<Rightarrow> mst \<Rightarrow> mst" where
  "j0_row c fn p s =
    (let (y, s) = libcall (fn (d_d.p_x p)) s;
         e = except c s;
         s = (if \<not> checkexcept c e (d_d.p_e p) (d_d.p_r p)
           then (let s = c_printf ''%s:%d: bad fp exception: %s j0(%a)=%a, want %s''
                      [AStr (d_d.p_file p), AInt (d_d.p_line p), AStr (rstr c (d_d.p_r p)),
                       AFp (d_d.p_x p), AFp (d_d.p_y p), AStr (estr c (d_d.p_e p))] s;
                     s = c_printfln '' got %s'' [AStr (estr c e)] s
                 in err_inc s)
           else s);
         d = ulperr (rm c s) y (d_d.p_y p) (d_d.p_dy p)
     in (if \<not> checkulp c d (d_d.p_r p)
          then (let s = (if fp_lt (fabs d) (Fin False 1 52)
                    then c_printf ''X '' [] s
                    else err_inc s)
                in c_printfln ''%s:%d: %s j0(%a) want %a got %a ulperr %.3f = %a + %a''
                     [AStr (d_d.p_file p), AInt (d_d.p_line p), AStr (rstr c (d_d.p_r p)),
                      AFp (d_d.p_x p), AFp (d_d.p_y p), AFp y, AFp d,
                      AFp (fp_sub flt32 (rm c s) d (d_d.p_dy p)), AFp (d_d.p_dy p)] s)
          else s))"

definition j0_main ::
    "fe_cfg \<Rightarrow> (fp \<Rightarrow> fp call) \<Rightarrow> d_d list \<Rightarrow> fenv \<Rightarrow> int \<times> cout list" where
  "j0_main c fn t env = mtest_main c d_d.p_r (j0_row c fn) t env"

definition j1_row ::
    "fe_cfg \<Rightarrow> (fp \<Rightarrow> fp call) \<Rightarrow> d_d \<Rightarrow> mst \<Rightarrow> mst" where
  "j1_row c fn p s =
    (let (y, s) = libcall (fn (d_d.p_x p)) s;
         e = except c s;
         s = (if \<not> checkexcept c e (d_d.p_e p) (d_d.p_r p)
           then (let s = c_printf ''%s:%d: bad fp exception: %s j1(%a)=%a, want %s''
                      [AStr (d_d.p_file p), AInt (d_d.p_line p), AStr (rstr c (d_d.p_r p)),
                       AFp (d_d.p_x p), AFp (d_d.p_y p), AStr (estr c (d_d.p_e p))] s;
                     s = c_printfln '' got %s'' [AStr (estr c e)] s
                 in err_inc s)
           else s);
         d = ulperr (rm c s) y (d_d.p_y p) (d_d.p_dy p)
     in (if \<not> checkulp c d (d_d.p_r p)
          then (let s = c_printfln ''%s:%d: %s j1(%a) want %a got %a ulperr %.3f = %a + %a''
                     [AStr (d_d.p_file p), AInt (d_d.p_line p), AStr (rstr c (d_d.p_r p)),
                      AFp (d_d.p_x p), AFp (d_d.p_y p), AFp y, AFp d,
                      AFp (fp_sub flt32 (rm c s) d (d_d.p_dy p)), AFp (d_d.p_dy p)] s
                in err_inc s)
          else s))"

definition j1_main ::
    "fe_cfg \<Rightarrow> (fp \<Rightarrow> fp call) \<Rightarrow> d_d list \<Rightarrow> fenv \<Rightarrow> int \<times> cout list" where
  "j1_main c fn t env = mtest_main c d_d.p_r (j1_row c fn) t env"

definition jn_row ::
    "fe_cfg \<Rightarrow> (int \<Rightarrow> fp \<Rightarrow> fp call) \<Rightarrow> di_d \<Rightarrow> mst \<Rightarrow> mst" where
  "jn_row c fn p s =
    (let (y, s) = libcall (fn (c_int (di_d.p_i p)) (di_d.p_x p)) s;
         e = except c s;
         s = (if \<not> checkexcept c e (di_d.p_e p) (di_d.p_r p)
           then (let s = c_printf ''%s:%d: bad fp exception: %s jn(%lld, %a)=%a, want %s''
                      [AStr (di_d.p_file p), AInt (di_d.p_line p), AStr (rstr c (di_d.p_r p)),
                       AInt (di_d.p_i p), AFp (di_d.p_x p), AFp (di_d.p_y p),
                       AStr (estr c (di_d.p_e p))] s;
                     s = c_printfln '' got %s'' [AStr (estr c e)] s
                 in err_inc s)
           else s);
         d = ulperr (rm c s) y (di_d.p_y p) (di_d.p_dy p)
     in (if \<not> checkulp c d (di_d.p_r p)
          then (let s = (if fp_lt (fabs d) (Fin False 3 0)
                    then c_printf ''X '' [] s
                    else err_inc s)
                in c_printfln ''%s:%d: %s jn(%lld, %a) want %a got %a, ulperr %.3f = %a + %a''
                     [AStr (di_d.p_file p), AInt (di_d.p_line p), AStr (rstr c (di_d.p_r p)),
                      AInt (di_d.p_i p), AFp (di_d.p_x p), AFp (di_d.p_y p), AFp y, AFp d,
                      AFp (fp_sub flt32 (rm c s) d (di_d.p_dy p)), AFp (di_d.p_dy p)] s)
          else s))"

definition jn_main ::
    "fe_cfg \<Rightarrow> (int \<Rightarrow> fp \<Rightarrow> fp call) \<Rightarrow> di_d list \<Rightarrow> fenv \<Rightarrow> int \<times> cout list" where
  "jn_main c fn t env = mtest_main c di_d.p_r (jn_row c fn) t env"

definition ldexp_row ::
    "fe_cfg \<Rightarrow> (fp \<Rightarrow> int \<Rightarrow> fp call) \<Rightarrow> di_d \<Rightarrow> mst \<Rightarrow> mst" where
  "ldexp_row c fn p s =
    (let (y, s) = libcall (fn (di_d.p_x p) (c_int (di_d.p_i p))) s;
         e = except c s;
         s = (if \<not> checkexceptall e (di_d.p_e p) (di_d.p_r p)
           then (let s = c_printf ''%s:%d: bad fp exception: %s ldexp(%a, %lld)=%a, want %s''
                      [AStr (di_d.p_file p), AInt (di_d.p_line p), AStr (rstr c (di_d.p_r p)),
                       AFp (di_d.p_x p), AInt (di_d.p_i p), AFp (di_d.p_y p),
                       AStr (estr c (di_d.p_e p))] s;
                     s = c_printfln '' got %s'' [AStr (estr c e)] s
                 in err_inc s)
           else s);
         d = ulperr (rm c s) y (di_d.p_y p) (di_d.p_dy p)
     in (if \<not> checkcr y (di_d.p_y p) (di_d.p_r p)
          then (let s = c_printfln ''%s:%d: %s ldexp(%a, %lld) want %a got %a, ulperr %.3f = %a + %a''
                     [AStr (di_d.p_file p), AInt (di_d.p_line p), AStr (rstr c (di_d.p_r p)),
                      AFp (di_d.p_x p), AInt (di_d.p_i p), AFp (di_d.p_y p), AFp y, AFp d,
                      AFp (fp_sub flt32 (rm c s) d (di_d.p_dy p)), AFp (di_d.p_dy p)] s
                in err_inc s)
          else s))"

definition ldexp_main ::
    "fe_cfg \<Rightarrow> (fp \<Rightarrow> int \<Rightarrow> fp call) \<Rightarrow> di_d list \<Rightarrow> fenv \<Rightarrow> int \<times> cout list" where
  "ldexp_main c fn t env = mtest_main c di_d.p_r (ldexp_row c fn) t env"

definition lgamma_row ::
    "fe_cfg \<Rightarrow> (fp \<Rightarrow> (fp \<times> int) call) \<Rightarrow> d_di \<Rightarrow> mst \<Rightarrow> mst" where
  "lgamma_row c fn p s =
    (let ((y, yi), s) = libcall (fn (d_di.p_x p)) s;
         e = except c s;
         s = (if \<not> checkexcept c e (d_di.p_e p) (d_di.p_r p)
           then (let s = c_printf ''%s:%d: bad fp exception: %s lgamma(%a)=%a,%lld, want %s''
                      [AStr (d_di.p_file p), AInt (d_di.p_line p), AStr (rstr c (d_di.p_r p)),
                       AFp (d_di.p_x p), AFp (d_di.p_y p), AInt (d_di.p_i p),
                       AStr (estr c (d_di.p_e p))] s;
                     s = c_printfln '' got %s'' [AStr (estr c e)] s
                 in err_inc s)
           else s);
         d = ulperr (rm c s) y (d_di.p_y p) (d_di.p_dy p);
         bad = (\<not> isnan (d_di.p_x p) \<and> \<not> fp_eq (d_di.p_x p) (Inf True)
                \<and> \<not> ((d_di.p_e p AND DIVBYZERO c) \<noteq> 0)
                \<and> yi \<noteq> d_di.p_i p)
     in (if bad \<or> \<not> checkulp c d (d_di.p_r p)
          then (let s = (if \<not> bad \<and> fp_lt (fabs d) (Fin False 11 0)
                    then c_printf ''X '' [] s
                    else err_inc s)
                in c_printfln ''%s:%d: %s lgamma(%a) want %a,%lld got %a,%d ulperr %.3f = %a + %a''
                     [AStr (d_di.p_file p), AInt (d_di.p_line p), AStr (rstr c (d_di.p_r p)),
                      AFp (d_di.p_x p), AFp (d_di.p_y p), AInt (d_di.p_i p), AFp y, AInt yi,
                      AFp d, AFp (fp_sub flt32 (rm c s) d (d_di.p_dy p)), AFp (d_di.p_dy p)] s)
          else s))"

definition lgamma_main ::
    "fe_cfg \<Rightarrow> (fp \<Rightarrow> (fp \<times> int) call) \<Rightarrow> d_di list \<Rightarrow> fenv \<Rightarrow> int \<times> cout list" where
  "lgamma_main c fn t env = mtest_main c d_di.p_r (lgamma_row c fn) t env"

definition lgamma_r_row ::
    "fe_cfg \<Rightarrow> (fp \<Rightarrow> (fp \<times> int) call) \<Rightarrow> d_di \<Rightarrow> mst \<Rightarrow> mst" where
  "lgamma_r_row c fn p s =
    (let ((y, yi), s) = libcall (fn (d_di.p_x p)) s;
         e = except c s;
         s = (if \<not> checkexcept c e (d_di.p_e p) (d_di.p_r p)
           then (let s = c_printf ''%s:%d: bad fp exception: %s lgamma_r(%a)=%a,%lld, want %s''
                      [AStr (d_di.p_file p), AInt (d_di.p_line p), AStr (rstr c (d_di.p_r p)),
                       AFp (d_di.p_x p), AFp (d_di.p_y p), AInt (d_di.p_i p),
                       AStr (estr c (d_di.p_e p))] s;
                     s = c_printfln '' got %s'' [AStr (estr c e)] s
                 in err_inc s)
           else s);
         d = ulperr (rm c s) y (d_di.p_y p) (d_di.p_dy p);
         bad = (\<not> isnan (d_di.p_x p) \<and> \<not> fp_eq (d_di.p_x p) (Inf True)
                \<and> \<not> ((d_di.p_e p AND DIVBYZERO c) \<noteq> 0)
                \<and> yi \<noteq> d_di.p_i p)
     in (if bad \<or> \<not> checkulp c d (d_di.p_r p)
          then (let s = (if \<not> bad \<and> fp_lt (fabs d) (Fin False 11 0)
                    then c_printf ''X '' [] s
                    else err_inc s)
                in c_printfln ''%s:%d: %s lgamma_r(%a) want %a,%lld got %a,%d ulperr %.3f = %a + %a''
                     [AStr (d_di.p_file p), AInt (d_di.p_line p), AStr (rstr c (d_di.p_r p)),
                      AFp (d_di.p_x p), AFp (d_di.p_y p), AInt (d_di.p_i p), AFp y, AInt yi,
                      AFp d, AFp (fp_sub flt32 (rm c s) d (d_di.p_dy p)), AFp (d_di.p_dy p)] s)
          else s))"

definition lgamma_r_main ::
    "fe_cfg \<Rightarrow> (fp \<Rightarrow> (fp \<times> int) call) \<Rightarrow> d_di list \<Rightarrow> fenv \<Rightarrow> int \<times> cout list" where
  "lgamma_r_main c fn t env = mtest_main c d_di.p_r (lgamma_r_row c fn) t env"

definition llrint_row ::
    "fe_cfg \<Rightarrow> (fp \<Rightarrow> int call) \<Rightarrow> d_i \<Rightarrow> mst \<Rightarrow> mst" where
  "llrint_row c fn p s =
    (let (yi, s) = libcall (fn (d_i.p_x p)) s;
         e = except c s;
         s = (if \<not> checkexcept c e (d_i.p_e p) (d_i.p_r p)
           then (let s = c_printf ''%s:%d: bad fp exception: %s llrint(%a)=%lld, want %s''
                      [AStr (d_i.p_file p), AInt (d_i.p_line p), AStr (rstr c (d_i.p_r p)),
                       AFp (d_i.p_x p), AInt (d_i.p_i p), AStr (estr c (d_i.p_e p))] s;
                     s = c_printfln '' got %s'' [AStr (estr c e)] s
                 in err_inc s)
           else s)
     in (if \<not> ((d_i.p_e p AND INVALID c) \<noteq> 0) \<and> yi \<noteq> d_i.p_i p
          then (let s = c_printfln ''%s:%d: %s llrint(%a) want %lld got %lld''
                     [AStr (d_i.p_file p), AInt (d_i.p_line p), AStr (rstr c (d_i.p_r p)),
                      AFp (d_i.p_x p), AInt (d_i.p_i p), AInt yi] s
                in err_inc s)
          else s))"

definition llrint_main ::
    "fe_cfg \<Rightarrow> (fp \<Rightarrow> int call) \<Rightarrow> d_i list \<Rightarrow> fenv \<Rightarrow> int \<times> cout list" where
  "llrint_main c fn t env = mtest_main c d_i.p_r (llrint_row c fn) t env"

definition llround_row ::
    "fe_cfg \<Rightarrow> (fp \<Rightarrow> int call) \<Rightarrow> d_i \<Rightarrow> mst \<Rightarrow> mst" where
  "llround_row c fn p s =
    (let (yi, s) = libcall (fn (d_i.p_x p)) s;
         e = except c s;
         s = (if \<not> checkexcept c e (d_i.p_e p) (d_i.p_r p)
              \<and> (e OR INEXACT c) \<noteq> d_i.p_e p
           then (let s = c_printf ''%s:%d: bad fp exception: %s llround(%a)=%lld, want %s''
                      [AStr (d_i.p_file p), AInt (d_i.p_line p), AStr (rstr c (d_i.p_r p)),
                       AFp (d_i.p_x p), AInt (d_i.p_i p), AStr (estr c (d_i.p_e p))] s;
                     s = c_printfln '' got %s'' [AStr (estr c e)] s
                 in err_inc s)
           else s)
     in (if \<not> ((d_i.p_e p AND INVALID c) \<noteq> 0) \<and> yi \<noteq> d_i.p_i p
          then (let s = c_printfln ''%s:%d: %s llround(%a) want %lld got %lld''
                     [AStr (d_i.p_file p), AInt (d_i.p_line p), AStr (rstr c (d_i.p_r p)),
                      AFp (d_i.p_x p), AInt (d_i.p_i p), AInt yi] s
                in err_inc s)
          else s))"

definition llround_main ::
    "fe_cfg \<Rightarrow> (fp \<Rightarrow> int call) \<Rightarrow> d_i list \<Rightarrow> fenv \<Rightarrow> int \<times> cout list" where
  "llround_main c fn t env = mtest_main c d_i.p_r (llround_row c fn) t env"

definition log_row ::
    "fe_cfg \<Rightarrow> (fp \<Rightarrow> fp call) \<Rightarrow> d_d \<Rightarrow> mst \<Rightarrow> mst" where
  "log_row c fn p s =
    (let (y, s) = libcall (fn (d_d.p_x p)) s;
         e = except c s;
         s = (if \<not> checkexcept c e (d_d.p_e p) (d_d.p_r p)
           then (let s = c_printf ''%s:%d: bad fp exception: %s log(%a)=%a, want %s''
                      [AStr (d_d.p_file p), AInt (d_d.p_line p), AStr (rstr c (d_d.p_r p)),
                       AFp (d_d.p_x p), AFp (d_d.p_y p), AStr (estr c (d_d.p_e p))] s;
                     s = c_printfln '' got %s'' [AStr (estr c e)] s
                 in err_inc s)
           else s);
         d = ulperr (rm c s) y (d_d.p_y p) (d_d.p_dy p)
     in (if \<not> checkulp c d (d_d.p_r p)
          then (let s = c_printfln ''%s:%d: %s log(%a) want %a got %a ulperr %.3f = %a + %a''
                     [AStr (d_d.p_file p), AInt (d_d.p_line p), AStr (rstr c (d_d.p_r p)),
                      AFp (d_d.p_x p), AFp (d_d.p_y p), AFp y, AFp d,
                      AFp (fp_sub flt32 (rm c s) d (d_d.p_dy p)), AFp (d_d.p_dy p)] s
                in err_inc s)
          else s))"

definition log_main ::
    "fe_cfg \<Rightarrow> (fp \<Rightarrow> fp call) \<Rightarrow> d_d list \<Rightarrow> fenv \<Rightarrow> int \<times> cout list" where
  "log_main c fn t env = mtest_main c d_d.p_r (log_row c fn) t env"

definition log10_row ::
    "fe_cfg \<Rightarrow> (fp \<Rightarrow> fp call) \<Rightarrow> d_d \<Rightarrow> mst \<Rightarrow> mst" where
  "log10_row c fn p s =
    (let (y, s) = libcall (fn (d_d.p_x p)) s;
         e = except c s;
         s = (if \<not> checkexcept c e (d_d.p_e p) (d_d.p_r p)
           then (let s = c_printf ''%s:%d: bad fp exception: %s log10(%a)=%a, want %s''
                      [AStr (d_d.p_file p), AInt (d_d.p_line p), AStr (rstr c (d_d.p_r p)),
                       AFp (d_d.p_x p), AFp (d_d.p_y p), AStr (estr c (d_d.p_e p))] s;
                     s = c_printfln '' got %s'' [AStr (estr c e)] s
                 in err_inc s)
           else s);
         d = ulperr (rm c s) y (d_d.p_y p) (d_d.p_dy p)
     in (if \<not> checkulp c d (d_d.p_r p)
          then (let s = c_printfln ''%s:%d: %s log10(%a) want %a got %a ulperr %.3f = %a + %a''
                     [AStr (d_d.p_file p), AInt (d_d.p_line p), AStr (rstr c (d_d.p_r p)),
                      AFp (d_d.p_x p), AFp (d_d.p_y p), AFp y, AFp d,
                      AFp (fp_sub flt32 (rm c s) d (d_d.p_dy p)), AFp (d_d.p_dy p)] s
                in err_inc s)
          else s))"

definition log10_main ::
    "fe_cfg \<Rightarrow> (fp \<Rightarrow> fp call) \<Rightarrow> d_d list \<Rightarrow> fenv \<Rightarrow> int \<times> cout list" where
  "log10_main c fn t env = mtest_main c d_d.p_r (log10_row c fn) t env"

definition log1p_row ::
    "fe_cfg \<Rightarrow> (fp \<Rightarrow> fp call) \<Rightarrow> d_d \<Rightarrow> mst \<Rightarrow> mst" where
  "log1p_row c fn p s =
    (let (y, s) = libcall (fn (d_d.p_x p)) s;
         e = except c s;
         s = (if \<not> checkexcept c e (d_d.p_e p) (d_d.p_r p)
           then (let s = c_printf ''%s:%d: bad fp exception: %s log1p(%a)=%a, want %s''
                      [AStr (d_d.p_file p), AInt (d_d.p_line p), AStr (rstr c (d_d.p_r p)),
                       AFp (d_d.p_x p), AFp (d_d.p_y p), AStr (estr c (d_d.p_e p))] s;
                     s = c_printfln '' got %s'' [AStr (estr c e)] s
                 in err_inc s)
           else s);
         d = ulperr (rm c s) y (d_d.p_y p) (d_d.p_dy p)
     in (if \<not> checkulp c d (d_d.p_r p)
          then (let s = c_printfln ''%s:%d: %s log1p(%a) want %a got %a ulperr %.3f = %a + %a''
                     [AStr (d_d.p_file p), AInt (d_d.p_line p), AStr (rstr c (d_d.p_r p)),
                      AFp (d_d.p_x p), AFp (d_d.p_y p), AFp y, AFp d,
                      AFp (fp_sub flt32 (rm c s) d (d_d.p_dy p)), AFp (d_d.p_dy p)] s
                in err_inc s)
          else s))"

definition log1p_main ::
    "fe_cfg \<Rightarrow> (fp \<Rightarrow> fp call) \<Rightarrow> d_d list \<Rightarrow> fenv \<Rightarrow> int \<times> cout list" where
  "log1p_main c fn t env = mtest_main c d_d.p_r (log1p_row c fn) t env"

definition log2_row ::
    "fe_cfg \<Rightarrow> (fp \<Rightarrow> fp call) \<Rightarrow> d_d \<Rightarrow> mst \<Rightarrow> mst" where
  "log2_row c fn p s =
    (let (y, s) = libcall (fn (d_d.p_x p)) s;
         e = except c s;
         s = (if \<not> checkexcept c e (d_d.p_e p) (d_d.p_r p)
           then (let s = c_printf ''%s:%d: bad fp exception: %s log2(%a)=%a, want %s''
                      [AStr (d_d.p_file p), AInt (d_d.p_line p), AStr (rstr c (d_d.p_r p)),
                       AFp (d_d.p_x p), AFp (d_d.p_y p), AStr (estr c (d_d.p_e p))] s;
                     s = c_printfln '' got %s'' [AStr (estr c e)] s
                 in err_inc s)
           else s);
         d = ulperr (rm c s) y (d_d.p_y p) (d_d.p_dy p)
     in (if \<not> checkulp c d (d_d.p_r p)
          then (let s = c_printfln ''%s:%d: %s log2(%a) want %a got %a ulperr %.3f = %a + %a''
                     [AStr (d_d.p_file p), AInt (d_d.p_line p), AStr (rstr c (d_d.p_r p)),
                      AFp (d_d.p_x p), AFp (d_d.p_y p), AFp y, AFp d,
                      AFp (fp_sub flt32 (rm c s) d (d_d.p_dy p)), AFp (d_d.p_dy p)] s
                in err_inc s)
          else s))"

definition log2_main ::
    "fe_cfg \<Rightarrow> (fp \<Rightarrow> fp call) \<Rightarrow> d_d list \<Rightarrow> fenv \<Rightarrow> int \<times> cout list" where
  "log2_main c fn t env = mtest_main c d_d.p_r (log2_row c fn) t env"

definition logb_row ::
    "fe_cfg \<Rightarrow> (fp \<Rightarrow> fp call) \<Rightarrow> d_d \<Rightarrow> mst \<Rightarrow> mst" where
  "logb_row c fn p s =
    (let (y, s) = libcall (fn (d_d.p_x p)) s;
         e = except c s;
         s = (if \<not> checkexceptall e (d_d.p_e p) (d_d.p_r p)
           then (let s = c_printf ''%s:%d: bad fp exception: %s logb(%a)=%a, want %s''
                      [AStr (d_d.p_file p), AInt (d_d.p_line p), AStr (rstr c (d_d.p_r p)),
                       AFp (d_d.p_x p), AFp (d_d.p_y p), AStr (estr c (d_d.p_e p))] s;
                     s = c_printfln '' got %s'' [AStr (estr c e)] s
                 in err_inc s)
           else s);
         d = ulperr (rm c s) y (d_d.p_y p) (d_d.p_dy p)
     in (if \<not> checkcr y (d_d.p_y p) (d_d.p_r p)
          then (let s = c_printfln ''%s:%d: %s logb(%a) want %a got %a ulperr %.3f = %a + %a''
                     [AStr (d_d.p_file p), AInt (d_d.p_line p), AStr (rstr c (d_d.p_r p)),
                      AFp (d_d.p_x p), AFp (d_d.p_y p), AFp y, AFp d,
                      AFp (fp_sub flt32 (rm c s) d (d_d.p_dy p)), AFp (d_d.p_dy p)] s
                in err_inc s)
          else s))"

definition logb_main ::
    "fe_cfg \<Rightarrow> (fp \<Rightarrow> fp call) \<Rightarrow> d_d list \<Rightarrow> fenv \<Rightarrow> int \<times> cout list" where
  "logb_main c fn t env = mtest_main c d_d.p_r (logb_row c fn) t env"

definition lrint_row ::
    "fe_cfg \<Rightarrow> (fp \<Rightarrow> int call) \<Rightarrow> d_i \<Rightarrow> mst \<Rightarrow> mst" where
  "lrint_row c fn p s =
    (let (yi, s) = libcall (fn (d_i.p_x p)) s;
         e = except c s;
         s = (if \<not> checkexcept c e (d_i.p_e p) (d_i.p_r p)
           then (let s = c_printf ''%s:%d: bad fp exception: %s lrint(%a)=%lld, want %s''
                      [AStr (d_i.p_file p), AInt (d_i.p_line p), AStr (rstr c (d_i.p_r p)),
                       AFp (d_i.p_x p), AInt (d_i.p_i p), AStr (estr c (d_i.p_e p))] s;
                     s = c_printfln '' got %s'' [AStr (estr c e)] s
                 in err_inc s)
           else s)
     in (if \<not> ((d_i.p_e p AND INVALID c) \<noteq> 0) \<and> yi \<noteq> d_i.p_i p
          then (let s = c_printfln ''%s:%d: %s lrint(%a) want %lld got %lld''
                     [AStr (d_i.p_file p), AInt (d_i.p_line p), AStr (rstr c (d_i.p_r p)),
                      AFp (d_i.p_x p), AInt (d_i.p_i p), AInt yi] s
                in err_inc s)
          else s))"

definition lrint_main ::
    "fe_cfg \<Rightarrow> (fp \<Rightarrow> int call) \<Rightarrow> d_i list \<Rightarrow> fenv \<Rightarrow> int \<times> cout list" where
  "lrint_main c fn t env = mtest_main c d_i.p_r (lrint_row c fn) t env"

definition lround_row ::
    "fe_cfg \<Rightarrow> (fp \<Rightarrow> int call) \<Rightarrow> d_i \<Rightarrow> mst \<Rightarrow> mst" where
  "lround_row c fn p s =
    (let (yi, s) = libcall (fn (d_i.p_x p)) s;
         e = except c s;
         s = (if \<not> checkexcept c e (d_i.p_e p) (d_i.p_r p)
              \<and> (e OR INEXACT c) \<noteq> d_i.p_e p
           then (let s = c_printf ''%s:%d: bad fp exception: %s lround(%a)=%lld, want %s''
                      [AStr (d_i.p_file p), AInt (d_i.p_line p), AStr (rstr c (d_i.p_r p)),
                       AFp (d_i.p_x p), AInt (d_i.p_i p), AStr (estr c (d_i.p_e p))] s;
                     s = c_printfln '' got %s'' [AStr (estr c e)] s
                 in err_inc s)
           else s)
     in (if \<not> ((d_i.p_e p AND INVALID c) \<noteq> 0) \<and> yi \<noteq> d_i.p_i p
          then (let s = c_printfln ''%s:%d: %s lround(%a) want %lld got %lld''
                     [AStr (d_i.p_file p), AInt (d_i.p_line p), AStr (rstr c (d_i.p_r p)),
                      AFp (d_i.p_x p), AInt (d_i.p_i p), AInt yi] s
                in err_inc s)
          else s))"

definition lround_main ::
    "fe_cfg \<Rightarrow> (fp \<Rightarrow> int call) \<Rightarrow> d_i list \<Rightarrow> fenv \<Rightarrow> int \<times> cout list" where
  "lround_main c fn t env = mtest_main c d_i.p_r (lround_row c fn) t env"

definition modf_row ::
    "fe_cfg \<Rightarrow> (fp \<Rightarrow> (fp \<times> fp) call) \<Rightarrow> d_dd \<Rightarrow> mst \<Rightarrow> mst" where
  "modf_row c fn p s =
    (let ((y, yi), s) = libcall (fn (d_dd.p_x p)) s;
         e = except c s;
         s = (if \<not> checkexceptall (e OR INEXACT c) (d_dd.p_e p OR INEXACT c) (d_dd.p_r p)
           then (let s = c_printf ''%s:%d: bad fp exception: %s modf(%a)=%a,%a, want %s''
                      [AStr (d_dd.p_file p), AInt (d_dd.p_line p), AStr (rstr c (d_dd.p_r p)),
                       AFp (d_dd.p_x p), AFp (d_dd.p_y p), AFp (d_dd.p_y2 p),
                       AStr (estr c (d_dd.p_e p))] s;
                     s = c_printfln '' got %s'' [AStr (estr c e)] s
                 in err_inc s)
           else s);
         d = ulperr (rm c s) y (d_dd.p_y p) (d_dd.p_dy p);
         di = ulperr (rm c s) yi (d_dd.p_y2 p) (d_dd.p_dy2 p)
     in (if \<not> checkcr y (d_dd.p_y p) (d_dd.p_r p)
            \<or> \<not> checkcr yi (d_dd.p_y2 p) (d_dd.p_r p)
          then (let s = c_printfln ''%s:%d: %s modf(%a) want %a,%a got %a,%a, ulperr %.3f = %a + %a, %.3f = %a + %a''
                     [AStr (d_dd.p_file p), AInt (d_dd.p_line p), AStr (rstr c (d_dd.p_r p)),
                      AFp (d_dd.p_x p), AFp (d_dd.p_y p), AFp (d_dd.p_y2 p), AFp y, AFp yi, AFp d,
                      AFp (fp_sub flt32 (rm c s) d (d_dd.p_dy p)), AFp (d_dd.p_dy p), AFp di,
                      AFp (fp_sub flt32 (rm c s) di (d_dd.p_dy2 p)), AFp (d_dd.p_dy2 p)] s
                in err_inc s)
          else s))"

definition modf_main ::
    "fe_cfg \<Rightarrow> (fp \<Rightarrow> (fp \<times> fp) call) \<Rightarrow> d_dd list \<Rightarrow> fenv \<Rightarrow> int \<times> cout list" where
  "modf_main c fn t env = mtest_main c d_dd.p_r (modf_row c fn) t env"

definition nearbyint_row ::
    "fe_cfg \<Rightarrow> (fp \<Rightarrow> fp call) \<Rightarrow> d_d \<Rightarrow> mst \<Rightarrow> mst" where
  "nearbyint_row c fn p s =
    (let (y, s) = libcall (fn (d_d.p_x p)) s;
         e = except c s;
         s = (if \<not> checkexceptall e (d_d.p_e p) (d_d.p_r p)
           then (let s = c_printf ''%s:%d: bad fp exception: %s nearbyint(%a)=%a, want %s''
                      [AStr (d_d.p_file p), AInt (d_d.p_line p), AStr (rstr c (d_d.p_r p)),
                       AFp (d_d.p_x p), AFp (d_d.p_y p), AStr (estr c (d_d.p_e p))] s;
                     s = c_printfln '' got %s'' [AStr (estr c e)] s
                 in err_inc s)
           else s);
         d = ulperr (rm c s) y (d_d.p_y p) (d_d.p_dy p)
     in (if \<not> checkcr y (d_d.p_y p) (d_d.p_r p)
          then (let s = c_printfln ''%s:%d: %s nearbyint(%a) want %a got %a ulperr %.3f = %a + %a''
                     [AStr (d_d.p_file p), AInt (d_d.p_line p), AStr (rstr c (d_d.p_r p)),
                      AFp (d_d.p_x p), AFp (d_d.p_y p), AFp y, AFp d,
                      AFp (fp_sub flt32 (rm c s) d (d_d.p_dy p)), AFp (d_d.p_dy p)] s
                in err_inc s)
          else s))"

definition nearbyint_main ::
    "fe_cfg \<Rightarrow> (fp \<Rightarrow> fp call) \<Rightarrow> d_d list \<Rightarrow> fenv \<Rightarrow> int \<times> cout list" where
  "nearbyint_main c fn t env = mtest_main c d_d.p_r (nearbyint_row c fn) t env"

definition nextafter_row ::
    "fe_cfg \<Rightarrow> (fp \<Rightarrow> fp \<Rightarrow> fp call) \<Rightarrow> dd_d \<Rightarrow> mst \<Rightarrow> mst" where
  "nextafter_row c fn p s =
    (let (y, s) = libcall (fn (dd_d.p_x p) (dd_d.p_x2 p)) s;
         e = except c s;
         s = (if \<not> checkexceptall e (dd_d.p_e p) (dd_d.p_r p)
           then (let s = c_printf ''%s:%d: bad fp exception: %s nextafter(%a,%a)=%a, want %s''
                      [AStr (dd_d.p_file p), AInt (dd_d.p_line p), AStr (rstr c (dd_d.p_r p)),
                       AFp (dd_d.p_x p), AFp (dd_d.p_x2 p), AFp (dd_d.p_y p),
                       AStr (estr c (dd_d.p_e p))] s;
                     s = c_printfln '' got %s'' [AStr (estr c e)] s
                 in err_inc s)
           else s);
         d = ulperr (rm c s) y (dd_d.p_y p) (dd_d.p_dy p)
     in (if \<not> checkcr y (dd_d.p_y p) (dd_d.p_r p)
          then (let s = c_printfln ''%s:%d: %s nextafter(%a,%a) want %a got %a ulperr %.3f = %a + %a''
                     [AStr (dd_d.p_file p), AInt (dd_d.p_line p), AStr (rstr c (dd_d.p_r p)),
                      AFp (dd_d.p_x p), AFp (dd_d.p_x2 p), AFp (dd_d.p_y p), AFp y, AFp d,
                      AFp (fp_sub flt32 (rm c s) d (dd_d.p_dy p)), AFp (dd_d.p_dy p)] s
                in err_inc s)
          else s))"

definition nextafter_main ::
    "fe_cfg \<Rightarrow> (fp \<Rightarrow> fp \<Rightarrow> fp call) \<Rightarrow> dd_d list \<Rightarrow> fenv \<Rightarrow> int \<times> cout list" where
  "nextafter_main c fn t env = mtest_main c dd_d.p_r (nextafter_row c fn) t env"

definition pow_row ::
    "fe_cfg \<Rightarrow> (fp \<Rightarrow> fp \<Rightarrow> fp call) \<Rightarrow> dd_d \<Rightarrow> mst \<Rightarrow> mst" where
  "pow_row c fn p s =
    (let (y, s) = libcall (fn (dd_d.p_x p) (dd_d.p_x2 p)) s;
         e = except c s;
         s = (if \<not> checkexcept c e (dd_d.p_e p) (dd_d.p_r p)
           then (let s = (if fp_lt (fabs y) (Fin False 1 (-1022))
                          \<and> (e OR INEXACT c) = (INEXACT c OR UNDERFLOW c)
                     then c_printf ''X '' [] s
                     else err_inc s);
                     s = c_printf ''%s:%d: bad fp exception: %s pow(%a,%a)=%a, want %s''
                      [AStr (dd_d.p_file p), AInt (dd_d.p_line p), AStr (rstr c (dd_d.p_r p)),
                       AFp (dd_d.p_x p), AFp (dd_d.p_x2 p), AFp (dd_d.p_y p),
                       AStr (estr c (dd_d.p_e p))] s
                 in c_printfln '' got %s'' [AStr (estr c e)] s)
           else s);
         d = ulperr (rm c s) y (dd_d.p_y p) (dd_d.p_dy p)
     in (if \<not> checkulp c d (dd_d.p_r p)
          then (let s = c_printfln ''%s:%d: %s pow(%a,%a) want %a got %a ulperr %.3f = %a + %a''
                     [AStr (dd_d.p_file p), AInt (dd_d.p_line p), AStr (rstr c (dd_d.p_r p)),
                      AFp (dd_d.p_x p), AFp (dd_d.p_x2 p), AFp (dd_d.p_y p), AFp y, AFp d,
                      AFp (fp_sub flt32 (rm c s) d (dd_d.p_dy p)), AFp (dd_d.p_dy p)] s
                in err_inc s)
          else s))"

definition pow_main ::
    "fe_cfg \<Rightarrow> (fp \<Rightarrow> fp \<Rightarrow> fp call) \<Rightarrow> dd_d list \<Rightarrow> fenv \<Rightarrow> int \<times> cout list" where
  "pow_main c fn t env = mtest_main c dd_d.p_r (pow_row c fn) t env"

definition pow10_row ::
    "fe_cfg \<Rightarrow> (fp \<Rightarrow> fp call) \<Rightarrow> d_d \<Rightarrow> mst \<Rightarrow> mst" where
  "pow10_row c fn p s =
    (let (y, s) = libcall (fn (d_d.p_x p)) s;
         e = except c s;
         s = (if \<not> checkexcept c e (d_d.p_e p) (d_d.p_r p)
           then (let s = c_printf ''%s:%d: bad fp exception: %s pow10(%a)=%a, want %s''
                      [AStr (d_d.p_file p), AInt (d_d.p_line p), AStr (rstr c (d_d.p_r p)),
                       AFp (d_d.p_x p), AFp (d_d.p_y p), AStr (estr c (d_d.p_e p))] s;
                     s = c_printfln '' got %s'' [AStr (estr c e)] s
                 in err_inc s)
           else s);
         d = ulperr (rm c s) y (d_d.p_y p) (d_d.p_dy p)
     in (if \<not> checkulp c d (d_d.p_r p)
          then (let s = c_printfln ''%s:%d: %s pow10(%a) want %a got %a ulperr %.3f = %a + %a''
                     [AStr (d_d.p_file p), AInt (d_d.p_line p), AStr (rstr c (d_d.p_r p)),
                      AFp (d_d.p_x p), AFp (d_d.p_y p), AFp y, AFp d,
                      AFp (fp_sub flt32 (rm c s) d (d_d.p_dy p)), AFp (d_d.p_dy p)] s
                in err_inc s)
          else s))"

definition pow10_main ::
    "fe_cfg \<Rightarrow> (fp \<Rightarrow> fp call) \<Rightarrow> d_d list \<Rightarrow> fenv \<Rightarrow> int \<times> cout list" where
  "pow10_main c fn t env = mtest_main c d_d.p_r (pow10_row c fn) t env"

definition remainder_row ::
    "fe_cfg \<Rightarrow> (fp \<Rightarrow> fp \<Rightarrow> fp call) \<Rightarrow> dd_d \<Rightarrow> mst \<Rightarrow> mst" where
  "remainder_row c fn p s =
    (let (y, s) = libcall (fn (dd_d.p_x p) (dd_d.p_x2 p)) s;
         e = except c s;
         s = (if \<not> checkexcept c e (dd_d.p_e p) (dd_d.p_r p)
           then (let s = c_printf ''%s:%d: bad fp exception: %s remainder(%a,%a)=%a, want %s''
                      [AStr (dd_d.p_file p), AInt (dd_d.p_line p), AStr (rstr c (dd_d.p_r p)),
                       AFp (dd_d.p_x p), AFp (dd_d.p_x2 p), AFp (dd_d.p_y p),
                       AStr (estr c (dd_d.p_e p))] s;
                     s = c_printfln '' got %s'' [AStr (estr c e)] s
                 in err_inc s)
           else s);
         d = ulperr (rm c s) y (dd_d.p_y p) (dd_d.p_dy p)
     in (if \<not> checkcr y (dd_d.p_y p) (dd_d.p_r p)
          then (let s = c_printfln ''%s:%d: %s remainder(%a,%a) want %a got %a ulperr %.3f = %a + %a''
                     [AStr (dd_d.p_file p), AInt (dd_d.p_line p), AStr (rstr c (dd_d.p_r p)),
                      AFp (dd_d.p_x p), AFp (dd_d.p_x2 p), AFp (dd_d.p_y p), AFp y, AFp d,
                      AFp (fp_sub flt32 (rm c s) d (dd_d.p_dy p)), AFp (dd_d.p_dy p)] s
                in err_inc s)
          else s))"

definition remainder_main ::
    "fe_cfg \<Rightarrow> (fp \<Rightarrow> fp \<Rightarrow> fp call) \<Rightarrow> dd_d list \<Rightarrow> fenv \<Rightarrow> int \<times> cout list" where
  "remainder_main c fn t env = mtest_main c dd_d.p_r (remainder_row c fn) t env"

definition remquo_row ::
    "fe_cfg \<Rightarrow> (fp \<Rightarrow> fp \<Rightarrow> (fp \<times> int) call) \<Rightarrow> dd_di \<Rightarrow> mst \<Rightarrow> mst" where
  "remquo_row c fn p s =
    (let ((y, yi), s) = libcall (fn (dd_di.p_x p) (dd_di.p_x2 p)) s;
         e = except c s;
         s = (if \<not> checkexcept c e (dd_di.p_e p) (dd_di.p_r p)
           then (let s = c_printf ''%s:%d: bad fp exception: %s remquo(%a,%a)=%a,%lld, want %s''
                      [AStr (dd_di.p_file p), AInt (dd_di.p_line p), AStr (rstr c (dd_di.p_r p)),
                       AFp (dd_di.p_x p), AFp (dd_di.p_x2 p), AFp (dd_di.p_y p),
                       AInt (dd_di.p_i p), AStr (estr c (dd_di.p_e p))] s;
                     s = c_printfln '' got %s'' [AStr (estr c e)] s
                 in err_inc s)
           else s);
         d = ulperr (rm c s) y (dd_di.p_y p) (dd_di.p_dy p)
     in (if \<not> checkcr y (dd_di.p_y p) (dd_di.p_r p) \<or> \<not> isnan (dd_di.p_y p)
            \<and> (yi AND 7) \<noteq> (dd_di.p_i p AND 7) \<or> \<not> isnan (dd_di.p_y p)
            \<and> (yi < 0) \<noteq> (dd_di.p_i p < 0)
          then (let s = c_printfln ''%s:%d: %s remquo(%a,%a) want %a,%lld got %a,%d ulperr %.3f = %a + %a''
                     [AStr (dd_di.p_file p), AInt (dd_di.p_line p), AStr (rstr c (dd_di.p_r p)),
                      AFp (dd_di.p_x p), AFp (dd_di.p_x2 p), AFp (dd_di.p_y p),
                      AInt (dd_di.p_i p), AFp y, AInt yi, AFp d,
                      AFp (fp_sub flt32 (rm c s) d (dd_di.p_dy p)), AFp (dd_di.p_dy p)] s
                in err_inc s)
          else s))"

definition remquo_main ::
    "fe_cfg \<Rightarrow> (fp \<Rightarrow> fp \<Rightarrow> (fp \<times> int) call) \<Rightarrow> dd_di list \<Rightarrow> fenv \<Rightarrow> int \<times> cout list" where
  "remquo_main c fn t env = mtest_main c dd_di.p_r (remquo_row c fn) t env"

definition rint_row ::
    "fe_cfg \<Rightarrow> (fp \<Rightarrow> fp call) \<Rightarrow> d_d \<Rightarrow> mst \<Rightarrow> mst" where
  "rint_row c fn p s =
    (let (y, s) = libcall (fn (d_d.p_x p)) s;
         e = except c s;
         s = (if \<not> checkexceptall e (d_d.p_e p) (d_d.p_r p)
           then (let s = c_printf ''%s:%d: bad fp exception: %s rint(%a)=%a, want %s''
                      [AStr (d_d.p_file p), AInt (d_d.p_line p), AStr (rstr c (d_d.p_r p)),
                       AFp (d_d.p_x p), AFp (d_d.p_y p), AStr (estr c (d_d.p_e p))] s;
                     s = c_printfln '' got %s'' [AStr (estr c e)] s
                 in err_inc s)
           else s);
         d = ulperr (rm c s) y (d_d.p_y p) (d_d.p_dy p)
     in (if \<not> checkcr y (d_d.p_y p) (d_d.p_r p)
          then (let s = c_printfln ''%s:%d: %s rint(%a) want %a got %a ulperr %.3f = %a + %a''
                     [AStr (d_d.p_file p), AInt (d_d.p_line p), AStr (rstr c (d_d.p_r p)),
                      AFp (d_d.p_x p), AFp (d_d.p_y p), AFp y, AFp d,
                      AFp (fp_sub flt32 (rm c s) d (d_d.p_dy p)), AFp (d_d.p_dy p)] s
                in err_inc s)
          else s))"

definition rint_main ::
    "fe_cfg \<Rightarrow> (fp \<Rightarrow> fp call) \<Rightarrow> d_d list \<Rightarrow> fenv \<Rightarrow> int \<times> cout list" where
  "rint_main c fn t env = mtest_main c d_d.p_r (rint_row c fn) t env"

definition round_row ::
    "fe_cfg \<Rightarrow> (fp \<Rightarrow> fp call) \<Rightarrow> d_d \<Rightarrow> mst \<Rightarrow> mst" where
  "round_row c fn p s =
    (let (y, s) = libcall (fn (d_d.p_x p)) s;
         e = except c s;
         s = (if \<not> checkexceptall e (d_d.p_e p) (d_d.p_r p)
              \<and> (e OR INEXACT c) \<noteq> d_d.p_e p
           then (let s = c_printf ''%s:%d: bad fp exception: %s round(%a)=%a, want %s''
                      [AStr (d_d.p_file p), AInt (d_d.p_line p), AStr (rstr c (d_d.p_r p)),
                       AFp (d_d.p_x p), AFp (d_d.p_y p), AStr (estr c (d_d.p_e p))] s;
                     s = c_printfln '' got %s'' [AStr (estr c e)] s
                 in err_inc s)
           else s);
         d = ulperr (rm c s) y (d_d.p_y p) (d_d.p_dy p)
     in (if \<not> checkcr y (d_d.p_y p) (d_d.p_r p)
          then (let s = c_printfln ''%s:%d: %s round(%a) want %a got %a ulperr %.3f = %a + %a''
                     [AStr (d_d.p_file p), AInt (d_d.p_line p), AStr (rstr c (d_d.p_r p)),
                      AFp (d_d.p_x p), AFp (d_d.p_y p), AFp y, AFp d,
                      AFp (fp_sub flt32 (rm c s) d (d_d.p_dy p)), AFp (d_d.p_dy p)] s
                in err_inc s)
          else s))"

definition round_main ::
    "fe_cfg \<Rightarrow> (fp \<Rightarrow> fp call) \<Rightarrow> d_d list \<Rightarrow> fenv \<Rightarrow> int \<times> cout list" where
  "round_main c fn t env = mtest_main c d_d.p_r (round_row c fn) t env"

definition scalb_row ::
    "fe_cfg \<Rightarrow> (fp \<Rightarrow> fp \<Rightarrow> fp call) \<Rightarrow> dd_d \<Rightarrow> mst \<Rightarrow> mst" where
  "scalb_row c fn p s =
    (let (y, s) = libcall (fn (dd_d.p_x p) (dd_d.p_x2 p)) s;
         e = except c s;
         s = (if \<not> checkexceptall e (dd_d.p_e p) (dd_d.p_r p)
           then (let s = c_printf ''%s:%d: bad fp exception: %s scalb(%a,%a)=%a, want %s''
                      [AStr (dd_d.p_file p), AInt (dd_d.p_line p), AStr (rstr c (dd_d.p_r p)),
                       AFp (dd_d.p_x p), AFp (dd_d.p_x2 p), AFp (dd_d.p_y p),
                       AStr (estr c (dd_d.p_e p))] s;
                     s = c_printfln '' got %s'' [AStr (estr c e)] s
                 in err_inc s)
           else s);
         d = ulperr (rm c s) y (dd_d.p_y p) (dd_d.p_dy p)
     in (if \<not> checkcr y (dd_d.p_y p) (dd_d.p_r p)
          then (let s = c_printfln ''%s:%d: %s scalb(%a,%a) want %a got %a ulperr %.3f = %a + %a''
                     [AStr (dd_d.p_file p), AInt (dd_d.p_line p), AStr (rstr c (dd_d.p_r p)),
                      AFp (dd_d.p_x p), AFp (dd_d.p_x2 p), AFp (dd_d.p_y p), AFp y, AFp d,
                      AFp (fp_sub flt32 (rm c s) d (dd_d.p_dy p)), AFp (dd_d.p_dy p)] s
                in err_inc s)
          else s))"

definition scalb_main ::
    "fe_cfg \<Rightarrow> (fp \<Rightarrow> fp \<Rightarrow> fp call) \<Rightarrow> dd_d list \<Rightarrow> fenv \<Rightarrow> int \<times> cout list" where
  "scalb_main c fn t env = mtest_main c dd_d.p_r (scalb_row c fn) t env"

definition scalbln_row ::
    "fe_cfg \<Rightarrow> (fp \<Rightarrow> int \<Rightarrow> fp call) \<Rightarrow> di_d \<Rightarrow> mst \<Rightarrow> mst" where
  "scalbln_row c fn p s =
    (let (y, s) = libcall (fn (di_d.p_x p) (di_d.p_i p)) s;
         e = except c s;
         s = (if \<not> checkexceptall e (di_d.p_e p) (di_d.p_r p)
           then (let s = c_printf ''%s:%d: bad fp exception: %s scalbln(%a, %lld)=%a, want %s''
                      [AStr (di_d.p_file p), AInt (di_d.p_line p), AStr (rstr c (di_d.p_r p)),
                       AFp (di_d.p_x p), AInt (di_d.p_i p), AFp (di_d.p_y p),
                       AStr (estr c (di_d.p_e p))] s;
                     s = c_printfln '' got %s'' [AStr (estr c e)] s
                 in err_inc s)
           else s);
         d = ulperr (rm c s) y (di_d.p_y p) (di_d.p_dy p)
     in (if \<not> checkcr y (di_d.p_y p) (di_d.p_r p)
          then (let s = c_printfln ''%s:%d: %s scalbln(%a, %lld) want %a got %a, ulperr %.3f = %a + %a''
                     [AStr (di_d.p_file p), AInt (di_d.p_line p), AStr (rstr c (di_d.p_r p)),
                      AFp (di_d.p_x p), AInt (di_d.p_i p), AFp (di_d.p_y p), AFp y, AFp d,
                      AFp (fp_sub flt32 (rm c s) d (di_d.p_dy p)), AFp (di_d.p_dy p)] s
                in err_inc s)
          else s))"

definition scalbln_main ::
    "fe_cfg \<Rightarrow> (fp \<Rightarrow> int \<Rightarrow> fp call) \<Rightarrow> di_d list \<Rightarrow> fenv \<Rightarrow> int \<times> cout list" where
  "scalbln_main c fn t env = mtest_main c di_d.p_r (scalbln_row c fn) t env"

definition scalbn_row ::
    "fe_cfg \<Rightarrow> (fp \<Rightarrow> int \<Rightarrow> fp call) \<Rightarrow> di_d \<Rightarrow> mst \<Rightarrow> mst" where
  "scalbn_row c fn p s =
    (let (y, s) = libcall (fn (di_d.p_x p) (c_int (di_d.p_i p))) s;
         e = except c s;
         s = (if \<not> checkexceptall e (di_d.p_e p) (di_d.p_r p)
           then (let s = c_printf ''%s:%d: bad fp exception: %s scalbn(%a, %lld)=%a, want %s''
                      [AStr (di_d.p_file p), AInt (di_d.p_line p), AStr (rstr c (di_d.p_r p)),
                       AFp (di_d.p_x p), AInt (di_d.p_i p), AFp (di_d.p_y p),
                       AStr (estr c (di_d.p_e p))] s;
                     s = c_printfln '' got %s'' [AStr (estr c e)] s
                 in err_inc s)
           else s);
         d = ulperr (rm c s) y (di_d.p_y p) (di_d.p_dy p)
     in (if \<not> checkcr y (di_d.p_y p) (di_d.p_r p)
          then (let s = c_printfln ''%s:%d: %s scalbn(%a, %lld) want %a got %a, ulperr %.3f = %a + %a''
                     [AStr (di_d.p_file p), AInt (di_d.p_line p), AStr (rstr c (di_d.p_r p)),
                      AFp (di_d.p_x p), AInt (di_d.p_i p), AFp (di_d.p_y p), AFp y, AFp d,
                      AFp (fp_sub flt32 (rm c s) d (di_d.p_dy p)), AFp (di_d.p_dy p)] s
                in err_inc s)
          else s))"

definition scalbn_main ::
    "fe_cfg \<Rightarrow> (fp \<Rightarrow> int \<Rightarrow> fp call) \<Rightarrow> di_d list \<Rightarrow> fenv \<Rightarrow> int \<times> cout list" where
  "scalbn_main c fn t env = mtest_main c di_d.p_r (scalbn_row c fn) t env"

definition sin_row ::
    "fe_cfg \<Rightarrow> (fp \<Rightarrow> fp call) \<Rightarrow> d_d \<Rightarrow> mst \<Rightarrow> mst" where
  "sin_row c fn p s =
    (let (y, s) = libcall (fn (d_d.p_x p)) s;
         e = except c s;
         s = (if \<not> checkexcept c e (d_d.p_e p) (d_d.p_r p)
           then (let s = c_printf ''%s:%d: bad fp exception: %s sin(%a)=%a, want %s''
                      [AStr (d_d.p_file p), AInt (d_d.p_line p), AStr (rstr c (d_d.p_r p)),
                       AFp (d_d.p_x p), AFp (d_d.p_y p), AStr (estr c (d_d.p_e p))] s;
                     s = c_printfln '' got %s'' [AStr (estr c e)] s
                 in err_inc s)
           else s);
         d = ulperr (rm c s) y (d_d.p_y p) (d_d.p_dy p)
     in (if \<not> checkulp c d (d_d.p_r p)
          then (let s = (if d_d.p_r p \<noteq> RN c
                    then c_printf ''X '' [] s
                    else err_inc s)
                in c_printfln ''%s:%d: %s sin(%a) want %a got %a ulperr %.3f = %a + %a''
                     [AStr (d_d.p_file p), AInt (d_d.p_line p), AStr (rstr c (d_d.p_r p)),
                      AFp (d_d.p_x p), AFp (d_d.p_y p), AFp y, AFp d,
                      AFp (fp_sub flt32 (rm c s) d (d_d.p_dy p)), AFp (d_d.p_dy p)] s)
          else s))"

definition sin_main ::
    "fe_cfg \<Rightarrow> (fp \<Rightarrow> fp call) \<Rightarrow> d_d list \<Rightarrow> fenv \<Rightarrow> int \<times> cout list" where
  "sin_main c fn t env = mtest_main c d_d.p_r (sin_row c fn) t env"

definition sincos_row ::
    "fe_cfg \<Rightarrow> (fp \<Rightarrow> (fp \<times> fp) call) \<Rightarrow> d_dd \<Rightarrow> mst \<Rightarrow> mst" where
  "sincos_row c fn p s =
    (let ((ysin, ycos), s) = libcall (fn (d_dd.p_x p)) s;
         e = except c s;
         s = (if \<not> checkexcept c e (d_dd.p_e p) (d_dd.p_r p)
           then (let s = c_printf ''%s:%d: bad fp exception: %s sincos(%a)=%a,%a, want %s''
                      [AStr (d_dd.p_file p), AInt (d_dd.p_line p), AStr (rstr c (d_dd.p_r p)),
                       AFp (d_dd.p_x p), AFp (d_dd.p_y p), AFp (d_dd.p_y2 p),
                       AStr (estr c (d_dd.p_e p))] s;
                     s = c_printfln '' got %s'' [AStr (estr c e)] s
                 in err_inc s)
           else s);
         dsin = ulperr (rm c s) ysin (d_dd.p_y p) (d_dd.p_dy p);
         dcos = ulperr (rm c s) ycos (d_dd.p_y2 p) (d_dd.p_dy2 p)
     in (if \<not> checkulp c dsin (d_dd.p_r p) \<or> \<not> checkulp c dcos (d_dd.p_r p)
          then (let s = c_printfln ''%s:%d: %s sincos(%a) want %a,%a got %a,%a, ulperr %.3f = %a + %a, %.3f = %a + %a''
                     [AStr (d_dd.p_file p), AInt (d_dd.p_line p), AStr (rstr c (d_dd.p_r p)),
                      AFp (d_dd.p_x p), AFp (d_dd.p_y p), AFp (d_dd.p_y2 p), AFp ysin, AFp ycos,
                      AFp dsin, AFp (fp_sub flt32 (rm c s) dsin (d_dd.p_dy p)), AFp (d_dd.p_dy p),
                      AFp dcos, AFp (fp_sub flt32 (rm c s) dcos (d_dd.p_dy2 p)),
                      AFp (d_dd.p_dy2 p)] s
                in err_inc s)
          else s))"

definition sincos_main ::
    "fe_cfg \<Rightarrow> (fp \<Rightarrow> (fp \<times> fp) call) \<Rightarrow> d_dd list \<Rightarrow> fenv \<Rightarrow> int \<times> cout list" where
  "sincos_main c fn t env = mtest_main c d_dd.p_r (sincos_row c fn) t env"

definition sinh_row ::
    "fe_cfg \<Rightarrow> (fp \<Rightarrow> fp call) \<Rightarrow> d_d \<Rightarrow> mst \<Rightarrow> mst" where
  "sinh_row c fn p s =
    (let (y, s) = libcall (fn (d_d.p_x p)) s;
         e = except c s;
         s = (if \<not> checkexcept c e (d_d.p_e p) (d_d.p_r p)
           then (let s = c_printf ''%s:%d: bad fp exception: %s sinh(%a)=%a, want %s''
                      [AStr (d_d.p_file p), AInt (d_d.p_line p), AStr (rstr c (d_d.p_r p)),
                       AFp (d_d.p_x p), AFp (d_d.p_y p), AStr (estr c (d_d.p_e p))] s;
                     s = c_printfln '' got %s'' [AStr (estr c e)] s
                 in err_inc s)
           else s);
         d = ulperr (rm c s) y (d_d.p_y p) (d_d.p_dy p)
     in (if \<not> checkulp c d (d_d.p_r p)
          then (let s = (if fp_lt (fabs d) (Fin False 2 0) \<or> d_d.p_r p \<noteq> RN c
                    then c_printf ''X '' [] s
                    else err_inc s)
                in c_printfln ''%s:%d: %s sinh(%a) want %a got %a ulperr %.3f = %a + %a''
                     [AStr (d_d.p_file p), AInt (d_d.p_line p), AStr (rstr c (d_d.p_r p)),
                      AFp (d_d.p_x p), AFp (d_d.p_y p), AFp y, AFp d,
                      AFp (fp_sub flt32 (rm c s) d (d_d.p_dy p)), AFp (d_d.p_dy p)] s)
          else s))"

definition sinh_main ::
    "fe_cfg \<Rightarrow> (fp \<Rightarrow> fp call) \<Rightarrow> d_d list \<Rightarrow> fenv \<Rightarrow> int \<times> cout list" where
  "sinh_main c fn t env = mtest_main c d_d.p_r (sinh_row c fn) t env"

definition sqrt_row ::
    "fe_cfg \<Rightarrow> (fp \<Rightarrow> fp call) \<Rightarrow> d_d \<Rightarrow> mst \<Rightarrow> mst" where
  "sqrt_row c fn p s =
    (let (y, s) = libcall (fn (d_d.p_x p)) s;
         e = except c s;
         s = (if \<not> checkexceptall e (d_d.p_e p) (d_d.p_r p)
           then (let s = c_printf ''%s:%d: bad fp exception: %s sqrt(%a)=%a, want %s''
                      [AStr (d_d.p_file p), AInt (d_d.p_line p), AStr (rstr c (d_d.p_r p)),
                       AFp (d_d.p_x p), AFp (d_d.p_y p), AStr (estr c (d_d.p_e p))] s;
                     s = c_printfln '' got %s'' [AStr (estr c e)] s
                 in err_inc s)
           else s);
         d = ulperr (rm c s) y (d_d.p_y p) (d_d.p_dy p)
     in (if \<not> checkcr y (d_d.p_y p) (d_d.p_r p)
          then (let s = c_printfln ''%s:%d: %s sqrt(%a) want %a got %a ulperr %.3f = %a + %a''
                     [AStr (d_d.p_file p), AInt (d_d.p_line p), AStr (rstr c (d_d.p_r p)),
                      AFp (d_d.p_x p), AFp (d_d.p_y p), AFp y, AFp d,
                      AFp (fp_sub flt32 (rm c s) d (d_d.p_dy p)), AFp (d_d.p_dy p)] s
                in err_inc s)
          else s))"

definition sqrt_main ::
    "fe_cfg \<Rightarrow> (fp \<Rightarrow> fp call) \<Rightarrow> d_d list \<Rightarrow> fenv \<Rightarrow> int \<times> cout list" where
  "sqrt_main c fn t env = mtest_main c d_d.p_r (sqrt_row c fn) t env"

definition tan_row ::
    "fe_cfg \<Rightarrow> (fp \<Rightarrow> fp call) \<Rightarrow> d_d \<Rightarrow> mst \<Rightarrow> mst" where
  "tan_row c fn p s =
    (let (y, s) = libcall (fn (d_d.p_x p)) s;
         e = except c s;
         s = (if \<not> checkexcept c e (d_d.p_e p) (d_d.p_r p)
           then (let s = c_printf ''%s:%d: bad fp exception: %s tan(%a)=%a, want %s''
                      [AStr (d_d.p_file p), AInt (d_d.p_line p), AStr (rstr c (d_d.p_r p)),
                       AFp (d_d.p_x p), AFp (d_d.p_y p), AStr (estr c (d_d.p_e p))] s;
                     s = c_printfln '' got %s'' [AStr (estr c e)] s
                 in err_inc s)
           else s);
         d = ulperr (rm c s) y (d_d.p_y p) (d_d.p_dy p)
     in (if \<not> checkulp c d (d_d.p_r p)
          then (let s = (if d_d.p_r p \<noteq> RN c
                    then c_printf ''X '' [] s
                    else err_inc s)
                in c_printfln ''%s:%d: %s tan(%a) want %a got %a ulperr %.3f = %a + %a''
                     [AStr (d_d.p_file p), AInt (d_d.p_line p), AStr (rstr c (d_d.p_r p)),
                      AFp (d_d.p_x p), AFp (d_d.p_y p), AFp y, AFp d,
                      AFp (fp_sub flt32 (rm c s) d (d_d.p_dy p)), AFp (d_d.p_dy p)] s)
          else s))"

definition tan_main ::
    "fe_cfg \<Rightarrow> (fp \<Rightarrow> fp call) \<Rightarrow> d_d list \<Rightarrow> fenv \<Rightarrow> int \<times> cout list" where
  "tan_main c fn t env = mtest_main c d_d.p_r (tan_row c fn) t env"

definition tanh_row ::
    "fe_cfg \<Rightarrow> (fp \<Rightarrow> fp call) \<Rightarrow> d_d \<Rightarrow> mst \<Rightarrow> mst" where
  "tanh_row c fn p s =
    (let (y, s) = libcall (fn (d_d.p_x p)) s;
         e = except c s;
         s = (if \<not> checkexcept c e (d_d.p_e p) (d_d.p_r p)
           then (let s = c_printf ''%s:%d: bad fp exception: %s tanh(%a)=%a, want %s''
                      [AStr (d_d.p_file p), AInt (d_d.p_line p), AStr (rstr c (d_d.p_r p)),
                       AFp (d_d.p_x p), AFp (d_d.p_y p), AStr (estr c (d_d.p_e p))] s;
                     s = c_printfln '' got %s'' [AStr (estr c e)] s
                 in err_inc s)
           else s);
         d = ulperr (rm c s) y (d_d.p_y p) (d_d.p_dy p)
     in (if \<not> checkulp c d (d_d.p_r p)
          then (let s = c_printfln ''%s:%d: %s tanh(%a) want %a got %a ulperr %.3f = %a + %a''
                     [AStr (d_d.p_file p), AInt (d_d.p_line p), AStr (rstr c (d_d.p_r p)),
                      AFp (d_d.p_x p), AFp (d_d.p_y p), AFp y, AFp d,
                      AFp (fp_sub flt32 (rm c s) d (d_d.p_dy p)), AFp (d_d.p_dy p)] s
                in err_inc s)
          else s))"

definition tanh_main ::
    "fe_cfg \<Rightarrow> (fp \<Rightarrow> fp call) \<Rightarrow> d_d list \<Rightarrow> fenv \<Rightarrow> int \<times> cout list" where
  "tanh_main c fn t env = mtest_main c d_d.p_r (tanh_row c fn) t env"

definition tgamma_row ::
    "fe_cfg \<Rightarrow> (fp \<Rightarrow> fp call) \<Rightarrow> d_d \<Rightarrow> mst \<Rightarrow> mst" where
  "tgamma_row c fn p s =
    (let (y, s) = libcall (fn (d_d.p_x p)) s;
         e = except c s;
         s = (if \<not> checkexcept c e (d_d.p_e p) (d_d.p_r p)
           then (let s = c_printf ''%s:%d: bad fp exception: %s tgamma(%a)=%a, want %s''
                      [AStr (d_d.p_file p), AInt (d_d.p_line p), AStr (rstr c (d_d.p_r p)),
                       AFp (d_d.p_x p), AFp (d_d.p_y p), AStr (estr c (d_d.p_e p))] s;
                     s = c_printfln '' got %s'' [AStr (estr c e)] s
                 in err_inc s)
           else s);
         d = ulperr (rm c s) y (d_d.p_y p) (d_d.p_dy p)
     in (if \<not> checkulp c d (d_d.p_r p)
          then (let s = (if fp_lt (fabs d) (Fin False 11 (-1))
                    then c_printf ''X '' [] s
                    else err_inc s)
                in c_printfln ''%s:%d: %s tgamma(%a) want %a got %a ulperr %.3f = %a + %a''
                     [AStr (d_d.p_file p), AInt (d_d.p_line p), AStr (rstr c (d_d.p_r p)),
                      AFp (d_d.p_x p), AFp (d_d.p_y p), AFp y, AFp d,
                      AFp (fp_sub flt32 (rm c s) d (d_d.p_dy p)), AFp (d_d.p_dy p)] s)
          else s))"

definition tgamma_main ::
    "fe_cfg \<Rightarrow> (fp \<Rightarrow> fp call) \<Rightarrow> d_d list \<Rightarrow> fenv \<Rightarrow> int \<times> cout list" where
  "tgamma_main c fn t env = mtest_main c d_d.p_r (tgamma_row c fn) t env"

definition trunc_row ::
    "fe_cfg \<Rightarrow> (fp \<Rightarrow> fp call) \<Rightarrow> d_d \<Rightarrow> mst \<Rightarrow> mst" where
  "trunc_row c fn p s =
    (let (y, s) = libcall (fn (d_d.p_x p)) s;
         e = except c s;
         s = (if \<not> checkexceptall e (d_d.p_e p) (d_d.p_r p)
              \<and> (e OR INEXACT c) \<noteq> d_d.p_e p
           then (let s = c_printf ''%s:%d: bad fp exception: %s trunc(%a)=%a, want %s''
                      [AStr (d_d.p_file p), AInt (d_d.p_line p), AStr (rstr c (d_d.p_r p)),
                       AFp (d_d.p_x p), AFp (d_d.p_y p), AStr (estr c (d_d.p_e p))] s;
                     s = c_printfln '' got %s'' [AStr (estr c e)] s
                 in err_inc s)
           else s);
         d = ulperr (rm c s) y (d_d.p_y p) (d_d.p_dy p)
     in (if \<not> checkcr y (d_d.p_y p) (d_d.p_r p)
          then (let s = c_printfln ''%s:%d: %s trunc(%a) want %a got %a ulperr %.3f = %a + %a''
                     [AStr (d_d.p_file p), AInt (d_d.p_line p), AStr (rstr c (d_d.p_r p)),
                      AFp (d_d.p_x p), AFp (d_d.p_y p), AFp y, AFp d,
                      AFp (fp_sub flt32 (rm c s) d (d_d.p_dy p)), AFp (d_d.p_dy p)] s
                in err_inc s)
          else s))"

definition trunc_main ::
    "fe_cfg \<Rightarrow> (fp \<Rightarrow> fp call) \<Rightarrow> d_d list \<Rightarrow> fenv \<Rightarrow> int \<times> cout list" where
  "trunc_main c fn t env = mtest_main c d_d.p_r (trunc_row c fn) t env"

definition y0_row ::
    "fe_cfg \<Rightarrow> (fp \<Rightarrow> fp call) \<Rightarrow> d_d \<Rightarrow> mst \<Rightarrow> mst" where
  "y0_row c fn p s =
    (let (y, s) = libcall (fn (d_d.p_x p)) s;
         e = except c s;
         s = (if \<not> checkexcept c e (d_d.p_e p) (d_d.p_r p)
           then (let s = c_printf ''%s:%d: bad fp exception: %s y0(%a)=%a, want %s''
                      [AStr (d_d.p_file p), AInt (d_d.p_line p), AStr (rstr c (d_d.p_r p)),
                       AFp (d_d.p_x p), AFp (d_d.p_y p), AStr (estr c (d_d.p_e p))] s;
                     s = c_printfln '' got %s'' [AStr (estr c e)] s
                 in err_inc s)
           else s);
         d = ulperr (rm c s) y (d_d.p_y p) (d_d.p_dy p);
         bad = (fp_lt (d_d.p_x p) (Fin False 0 0) \<and> \<not> isnan y
                \<and> \<not> fp_eq y (Inf True))
     in (if bad \<or> \<not> fp_lt (d_d.p_x p) (Fin False 0 0)
            \<and> \<not> checkulp c d (d_d.p_r p)
          then (let s = (if \<not> bad \<and> fp_lt (fabs d) (Fin False 1 52)
                    then c_printf ''X '' [] s
                    else err_inc s)
                in c_printfln ''%s:%d: %s y0(%a) want %a got %a ulperr %.3f = %a + %a''
                     [AStr (d_d.p_file p), AInt (d_d.p_line p), AStr (rstr c (d_d.p_r p)),
                      AFp (d_d.p_x p), AFp (d_d.p_y p), AFp y, AFp d,
                      AFp (fp_sub flt32 (rm c s) d (d_d.p_dy p)), AFp (d_d.p_dy p)] s)
          else s))"

definition y0_main ::
    "fe_cfg \<Rightarrow> (fp \<Rightarrow> fp call) \<Rightarrow> d_d list \<Rightarrow> fenv \<Rightarrow> int \<times> cout list" where
  "y0_main c fn t env = mtest_main c d_d.p_r (y0_row c fn) t env"

definition y1_row ::
    "fe_cfg \<Rightarrow> (fp \<Rightarrow> fp call) \<Rightarrow> d_d \<Rightarrow> mst \<Rightarrow> mst" where
  "y1_row c fn p s =
    (let (y, s) = libcall (fn (d_d.p_x p)) s;
         e = except c s;
         s = (if \<not> checkexcept c e (d_d.p_e p) (d_d.p_r p)
           then (let s = c_printf ''%s:%d: bad fp exception: %s y1(%a)=%a, want %s''
                      [AStr (d_d.p_file p), AInt (d_d.p_line p), AStr (rstr c (d_d.p_r p)),
                       AFp (d_d.p_x p), AFp (d_d.p_y p), AStr (estr c (d_d.p_e p))] s;
                     s = c_printfln '' got %s'' [AStr (estr c e)] s
                 in err_inc s)
           else s);
         d = ulperr (rm c s) y (d_d.p_y p) (d_d.p_dy p)
     in (if \<not> fp_lt (d_d.p_x p) (Fin False 0 0) \<and> \<not> checkulp c d (d_d.p_r p)
            \<or> fp_lt (d_d.p_x p) (Fin False 0 0) \<and> \<not> isnan y
            \<and> \<not> fp_eq y (Inf True)
          then (let s = c_printfln ''%s:%d: %s y1(%a) want %a got %a ulperr %.3f = %a + %a''
                     [AStr (d_d.p_file p), AInt (d_d.p_line p), AStr (rstr c (d_d.p_r p)),
                      AFp (d_d.p_x p), AFp (d_d.p_y p), AFp y, AFp d,
                      AFp (fp_sub flt32 (rm c s) d (d_d.p_dy p)), AFp (d_d.p_dy p)] s
                in err_inc s)
          else s))"

definition y1_main ::
    "fe_cfg \<Rightarrow> (fp \<Rightarrow> fp call) \<Rightarrow> d_d list \<Rightarrow> fenv \<Rightarrow> int \<times> cout list" where
  "y1_main c fn t env = mtest_main c d_d.p_r (y1_row c fn) t env"

definition yn_row ::
    "fe_cfg \<Rightarrow> (int \<Rightarrow> fp \<Rightarrow> fp call) \<Rightarrow> di_d \<Rightarrow> mst \<Rightarrow> mst" where
  "yn_row c fn p s =
    (let (y, s) = libcall (fn (c_int (di_d.p_i p)) (di_d.p_x p)) s;
         e = except c s;
         s = (if \<not> checkexcept c e (di_d.p_e p) (di_d.p_r p)
           then (let s = c_printf ''%s:%d: bad fp exception: %s yn(%lld, %a)=%a, want %s''
                      [AStr (di_d.p_file p), AInt (di_d.p_line p), AStr (rstr c (di_d.p_r p)),
                       AInt (di_d.p_i p), AFp (di_d.p_x p), AFp (di_d.p_y p),
                       AStr (estr c (di_d.p_e p))] s;
                     s = c_printfln '' got %s'' [AStr (estr c e)] s
                 in err_inc s)
           else s);
         d = ulperr (rm c s) y (di_d.p_y p) (di_d.p_dy p)
     in (if \<not> fp_lt (di_d.p_x p) (Fin False 0 0) \<and> \<not> checkulp c d (di_d.p_r p)
            \<or> fp_lt (di_d.p_x p) (Fin False 0 0) \<and> \<not> isnan y
            \<and> \<not> fp_eq y (Inf True)
          then (let s = c_printfln ''%s:%d: %s yn(%lld, %a) want %a got %a, ulperr %.3f = %a + %a''
                     [AStr (di_d.p_file p), AInt (di_d.p_line p), AStr (rstr c (di_d.p_r p)),
                      AInt (di_d.p_i p), AFp (di_d.p_x p), AFp (di_d.p_y p), AFp y, AFp d,
                      AFp (fp_sub flt32 (rm c s) d (di_d.p_dy p)), AFp (di_d.p_dy p)] s
                in err_inc s)
          else s))"

definition yn_main ::
    "fe_cfg \<Rightarrow> (int \<Rightarrow> fp \<Rightarrow> fp call) \<Rightarrow> di_d list \<Rightarrow> fenv \<Rightarrow> int \<times> cout list" where
  "yn_main c fn t env = mtest_main c di_d.p_r (yn_row c fn) t env"

section \<open>Contracts\<close>

interpretation acos_test: row_test "acos_row c fn" "ulp_fails ulperr c fn" for c fn
  by unfold_locales
    (simp_all add: acos_row_def fails_defs row_simps cong: printf_cong)

interpretation acosh_test: row_test "acosh_row c fn" "row_fails (acosh_row c fn)" for c fn
  by (rule row_testI, unfold acosh_row_def)
    ((rule in_step_rules | assumption | (rule in_step_let_value, (simp only: in_step_values)?))+, simp)

interpretation asin_test: row_test "asin_row c fn" "ulp_fails ulperr c fn" for c fn
  by unfold_locales
    (simp_all add: asin_row_def fails_defs row_simps cong: printf_cong)

interpretation asinh_test: row_test "asinh_row c fn" "row_fails (asinh_row c fn)" for c fn
  by (rule row_testI, unfold asinh_row_def)
    ((rule in_step_rules | assumption | (rule in_step_let_value, (simp only: in_step_values)?))+, simp)

interpretation atan_test: row_test "atan_row c fn" "ulp_fails ulperr c fn" for c fn
  by unfold_locales
    (simp_all add: atan_row_def fails_defs row_simps cong: printf_cong)

interpretation atan2_test: row_test "atan2_row c fn" "row_fails (atan2_row c fn)" for c fn
  by (rule row_testI, unfold atan2_row_def)
    ((rule in_step_rules | assumption | (rule in_step_let_value, (simp only: in_step_values)?))+, simp)

interpretation atanh_test: row_test "atanh_row c fn" "ulp_fails ulperr c fn" for c fn
  by unfold_locales
    (simp_all add: atanh_row_def fails_defs row_simps cong: printf_cong)

interpretation cbrt_test: row_test "cbrt_row c fn" "ulp_fails ulperr c fn" for c fn
  by unfold_locales
    (simp_all add: cbrt_row_def fails_defs row_simps cong: printf_cong)

interpretation ceil_test: row_test "ceil_row c fn" "exact_fails (exc_inexact c checkexceptall) c fn" for c fn
  by unfold_locales
    (simp_all add: ceil_row_def fails_defs row_simps cong: printf_cong)

interpretation copysign_test: row_test "copysign_row c fn" "exact2_fails checkexceptall c fn" for c fn
  by unfold_locales
    (simp_all add: copysign_row_def fails_defs row_simps cong: printf_cong)

interpretation cos_test: row_test "cos_row c fn" "row_fails (cos_row c fn)" for c fn
  by (rule row_testI, unfold cos_row_def)
    ((rule in_step_rules | assumption | (rule in_step_let_value, (simp only: in_step_values)?))+, simp)

interpretation cosh_test: row_test "cosh_row c fn" "ulp_fails ulperr c fn" for c fn
  by unfold_locales
    (simp_all add: cosh_row_def fails_defs row_simps cong: printf_cong)

interpretation drem_test: row_test "drem_row c fn" "exact2_fails (checkexcept c) c fn" for c fn
  by unfold_locales
    (simp_all add: drem_row_def fails_defs row_simps cong: printf_cong)

interpretation erf_test: row_test "erf_row c fn" "row_fails (erf_row c fn)" for c fn
  by (rule row_testI, unfold erf_row_def)
    ((rule in_step_rules | assumption | (rule in_step_let_value, (simp only: in_step_values)?))+, simp)

interpretation erfc_test: row_test "erfc_row c fn" "row_fails (erfc_row c fn)" for c fn
  by (rule row_testI, unfold erfc_row_def)
    ((rule in_step_rules | assumption | (rule in_step_let_value, (simp only: in_step_values)?))+, simp)

interpretation exp_test: row_test "exp_row c fn" "ulp_fails ulperr c fn" for c fn
  by unfold_locales
    (simp_all add: exp_row_def fails_defs row_simps cong: printf_cong)

interpretation exp10_test: row_test "exp10_row c fn" "ulp_fails ulperr c fn" for c fn
  by unfold_locales
    (simp_all add: exp10_row_def fails_defs row_simps cong: printf_cong)

interpretation exp2_test: row_test "exp2_row c fn" "row_fails (exp2_row c fn)" for c fn
  by (rule row_testI, unfold exp2_row_def)
    ((rule in_step_rules | assumption | (rule in_step_let_value, (simp only: in_step_values)?))+, simp)

interpretation expm1_test: row_test "expm1_row c fn" "ulp_fails ulperr c fn" for c fn
  by unfold_locales
    (simp_all add: expm1_row_def fails_defs row_simps cong: printf_cong)

interpretation fabs_test: row_test "fabs_row c fn" "exact_fails checkexceptall c fn" for c fn
  by unfold_locales
    (simp_all add: fabs_row_def fails_defs row_simps cong: printf_cong)

interpretation fdim_test: row_test "fdim_row c fn" "exact2_fails checkexceptall c fn" for c fn
  by unfold_locales
    (simp_all add: fdim_row_def fails_defs row_simps cong: printf_cong)

interpretation floor_test: row_test "floor_row c fn" "exact_fails (exc_inexact c checkexceptall) c fn" for c fn
  by unfold_locales
    (simp_all add: floor_row_def fails_defs row_simps cong: printf_cong)

interpretation fma_test: row_test "fma_row c fn" "row_fails (fma_row c fn)" for c fn
  by (rule row_testI, unfold fma_row_def)
    ((rule in_step_rules | assumption | (rule in_step_let_value, (simp only: in_step_values)?))+, simp)

interpretation fmax_test: row_test "fmax_row c fn" "exact2_fails checkexceptall c fn" for c fn
  by unfold_locales
    (simp_all add: fmax_row_def fails_defs row_simps cong: printf_cong)

interpretation fmin_test: row_test "fmin_row c fn" "exact2_fails checkexceptall c fn" for c fn
  by unfold_locales
    (simp_all add: fmin_row_def fails_defs row_simps cong: printf_cong)

interpretation fmod_test: row_test "fmod_row c fn" "exact2_fails (checkexcept c) c fn" for c fn
  by unfold_locales
    (simp_all add: fmod_row_def fails_defs row_simps cong: printf_cong)

interpretation frexp_test: row_test "frexp_row c fn" "row_fails (frexp_row c fn)" for c fn
  by (rule row_testI, unfold frexp_row_def)
    ((rule in_step_rules | assumption | (rule in_step_let_value, (simp only: in_step_values)?))+, simp)

interpretation hypot_test: row_test "hypot_row c fn" "row_fails (hypot_row c fn)" for c fn
  by (rule row_testI, unfold hypot_row_def)
    ((rule in_step_rules | assumption | (rule in_step_let_value, (simp only: in_step_values)?))+, simp)

interpretation ilogb_test: row_test "ilogb_row c fn" "row_fails (ilogb_row c fn)" for c fn
  by (rule row_testI, unfold ilogb_row_def)
    ((rule in_step_rules | assumption | (rule in_step_let_value, (simp only: in_step_values)?))+, simp)

interpretation j0_test: row_test "j0_row c fn" "row_fails (j0_row c fn)" for c fn
  by (rule row_testI, unfold j0_row_def)
    ((rule in_step_rules | assumption | (rule in_step_let_value, (simp only: in_step_values)?))+, simp)

interpretation j1_test: row_test "j1_row c fn" "ulp_fails ulperr c fn" for c fn
  by unfold_locales
    (simp_all add: j1_row_def fails_defs row_simps cong: printf_cong)

interpretation jn_test: row_test "jn_row c fn" "row_fails (jn_row c fn)" for c fn
  by (rule row_testI, unfold jn_row_def)
    ((rule in_step_rules | assumption | (rule in_step_let_value, (simp only: in_step_values)?))+, simp)

interpretation ldexp_test: row_test "ldexp_row c fn" "row_fails (ldexp_row c fn)" for c fn
  by (rule row_testI, unfold ldexp_row_def)
    ((rule in_step_rules | assumption | (rule in_step_let_value, (simp only: in_step_values)?))+, simp)

interpretation lgamma_test: row_test "lgamma_row c fn" "row_fails (lgamma_row c fn)" for c fn
  by (rule row_testI, unfold lgamma_row_def)
    ((rule in_step_rules | assumption | (rule in_step_let_value, (simp only: in_step_values)?))+, simp)

interpretation lgamma_r_test: row_test "lgamma_r_row c fn" "row_fails (lgamma_r_row c fn)" for c fn
  by (rule row_testI, unfold lgamma_r_row_def)
    ((rule in_step_rules | assumption | (rule in_step_let_value, (simp only: in_step_values)?))+, simp)

interpretation llrint_test: row_test "llrint_row c fn" "int_fails (checkexcept c) c fn" for c fn
  by unfold_locales
    (simp_all add: llrint_row_def fails_defs row_simps cong: printf_cong)

interpretation llround_test: row_test "llround_row c fn" "int_fails (exc_inexact c (checkexcept c)) c fn" for c fn
  by unfold_locales
    (simp_all add: llround_row_def fails_defs row_simps cong: printf_cong)

interpretation log_test: row_test "log_row c fn" "ulp_fails ulperr c fn" for c fn
  by unfold_locales
    (simp_all add: log_row_def fails_defs row_simps cong: printf_cong)

interpretation log10_test: row_test "log10_row c fn" "ulp_fails ulperr c fn" for c fn
  by unfold_locales
    (simp_all add: log10_row_def fails_defs row_simps cong: printf_cong)

interpretation log1p_test: row_test "log1p_row c fn" "ulp_fails ulperr c fn" for c fn
  by unfold_locales
    (simp_all add: log1p_row_def fails_defs row_simps cong: printf_cong)

interpretation log2_test: row_test "log2_row c fn" "ulp_fails ulperr c fn" for c fn
  by unfold_locales
    (simp_all add: log2_row_def fails_defs row_simps cong: printf_cong)

interpretation logb_test: row_test "logb_row c fn" "exact_fails checkexceptall c fn" for c fn
  by unfold_locales
    (simp_all add: logb_row_def fails_defs row_simps cong: printf_cong)

interpretation lrint_test: row_test "lrint_row c fn" "int_fails (checkexcept c) c fn" for c fn
  by unfold_locales
    (simp_all add: lrint_row_def fails_defs row_simps cong: printf_cong)

interpretation lround_test: row_test "lround_row c fn" "int_fails (exc_inexact c (checkexcept c)) c fn" for c fn
  by unfold_locales
    (simp_all add: lround_row_def fails_defs row_simps cong: printf_cong)

interpretation modf_test: row_test "modf_row c fn" "row_fails (modf_row c fn)" for c fn
  by (rule row_testI, unfold modf_row_def)
    ((rule in_step_rules | assumption | (rule in_step_let_value, (simp only: in_step_values)?))+, simp)

interpretation nearbyint_test: row_test "nearbyint_row c fn" "exact_fails checkexceptall c fn" for c fn
  by unfold_locales
    (simp_all add: nearbyint_row_def fails_defs row_simps cong: printf_cong)

interpretation nextafter_test: row_test "nextafter_row c fn" "exact2_fails checkexceptall c fn" for c fn
  by unfold_locales
    (simp_all add: nextafter_row_def fails_defs row_simps cong: printf_cong)

interpretation pow_test: row_test "pow_row c fn" "row_fails (pow_row c fn)" for c fn
  by (rule row_testI, unfold pow_row_def)
    ((rule in_step_rules | assumption | (rule in_step_let_value, (simp only: in_step_values)?))+, simp)

interpretation pow10_test: row_test "pow10_row c fn" "ulp_fails ulperr c fn" for c fn
  by unfold_locales
    (simp_all add: pow10_row_def fails_defs row_simps cong: printf_cong)

interpretation remainder_test: row_test "remainder_row c fn" "exact2_fails (checkexcept c) c fn" for c fn
  by unfold_locales
    (simp_all add: remainder_row_def fails_defs row_simps cong: printf_cong)

interpretation remquo_test: row_test "remquo_row c fn" "row_fails (remquo_row c fn)" for c fn
  by (rule row_testI, unfold remquo_row_def)
    ((rule in_step_rules | assumption | (rule in_step_let_value, (simp only: in_step_values)?))+, simp)

interpretation rint_test: row_test "rint_row c fn" "exact_fails checkexceptall c fn" for c fn
  by unfold_locales
    (simp_all add: rint_row_def fails_defs row_simps cong: printf_cong)

interpretation round_test: row_test "round_row c fn" "exact_fails (exc_inexact c checkexceptall) c fn" for c fn
  by unfold_locales
    (simp_all add: round_row_def fails_defs row_simps cong: printf_cong)

interpretation scalb_test: row_test "scalb_row c fn" "exact2_fails checkexceptall c fn" for c fn
  by unfold_locales
    (simp_all add: scalb_row_def fails_defs row_simps cong: printf_cong)

interpretation scalbln_test: row_test "scalbln_row c fn" "row_fails (scalbln_row c fn)" for c fn
  by (rule row_testI, unfold scalbln_row_def)
    ((rule in_step_rules | assumption | (rule in_step_let_value, (simp only: in_step_values)?))+, simp)

interpretation scalbn_test: row_test "scalbn_row c fn" "row_fails (scalbn_row c fn)" for c fn
  by (rule row_testI, unfold scalbn_row_def)
    ((rule in_step_rules | assumption | (rule in_step_let_value, (simp only: in_step_values)?))+, simp)

interpretation sin_test: row_test "sin_row c fn" "row_fails (sin_row c fn)" for c fn
  by (rule row_testI, unfold sin_row_def)
    ((rule in_step_rules | assumption | (rule in_step_let_value, (simp only: in_step_values)?))+, simp)

interpretation sincos_test: row_test "sincos_row c fn" "row_fails (sincos_row c fn)" for c fn
  by (rule row_testI, unfold sincos_row_def)
    ((rule in_step_rules | assumption | (rule in_step_let_value, (simp only: in_step_values)?))+, simp)

interpretation sinh_test: row_test "sinh_row c fn" "row_fails (sinh_row c fn)" for c fn
  by (rule row_testI, unfold sinh_row_def)
    ((rule in_step_rules | assumption | (rule in_step_let_value, (simp only: in_step_values)?))+, simp)

interpretation sqrt_test: row_test "sqrt_row c fn" "exact_fails checkexceptall c fn" for c fn
  by unfold_locales
    (simp_all add: sqrt_row_def fails_defs row_simps cong: printf_cong)

interpretation tan_test: row_test "tan_row c fn" "row_fails (tan_row c fn)" for c fn
  by (rule row_testI, unfold tan_row_def)
    ((rule in_step_rules | assumption | (rule in_step_let_value, (simp only: in_step_values)?))+, simp)

interpretation tanh_test: row_test "tanh_row c fn" "ulp_fails ulperr c fn" for c fn
  by unfold_locales
    (simp_all add: tanh_row_def fails_defs row_simps cong: printf_cong)

interpretation tgamma_test: row_test "tgamma_row c fn" "row_fails (tgamma_row c fn)" for c fn
  by (rule row_testI, unfold tgamma_row_def)
    ((rule in_step_rules | assumption | (rule in_step_let_value, (simp only: in_step_values)?))+, simp)

interpretation trunc_test: row_test "trunc_row c fn" "exact_fails (exc_inexact c checkexceptall) c fn" for c fn
  by unfold_locales
    (simp_all add: trunc_row_def fails_defs row_simps cong: printf_cong)

interpretation y0_test: row_test "y0_row c fn" "row_fails (y0_row c fn)" for c fn
  by (rule row_testI, unfold y0_row_def)
    ((rule in_step_rules | assumption | (rule in_step_let_value, (simp only: in_step_values)?))+, simp)

interpretation y1_test: row_test "y1_row c fn" "row_fails (y1_row c fn)" for c fn
  by (rule row_testI, unfold y1_row_def)
    ((rule in_step_rules | assumption | (rule in_step_let_value, (simp only: in_step_values)?))+, simp)

interpretation yn_test: row_test "yn_row c fn" "row_fails (yn_row c fn)" for c fn
  by (rule row_testI, unfold yn_row_def)
    ((rule in_step_rules | assumption | (rule in_step_let_value, (simp only: in_step_values)?))+, simp)

lemmas double_mains = acos_main_def
  acosh_main_def
  asin_main_def
  asinh_main_def
  atan_main_def
  atan2_main_def
  atanh_main_def
  cbrt_main_def
  ceil_main_def
  copysign_main_def
  cos_main_def
  cosh_main_def
  drem_main_def
  erf_main_def
  erfc_main_def
  exp_main_def
  exp10_main_def
  exp2_main_def
  expm1_main_def
  fabs_main_def
  fdim_main_def
  floor_main_def
  fma_main_def
  fmax_main_def
  fmin_main_def
  fmod_main_def
  frexp_main_def
  hypot_main_def
  ilogb_main_def
  j0_main_def
  j1_main_def
  jn_main_def
  ldexp_main_def
  lgamma_main_def
  lgamma_r_main_def
  llrint_main_def
  llround_main_def
  log_main_def
  log10_main_def
  log1p_main_def
  log2_main_def
  logb_main_def
  lrint_main_def
  lround_main_def
  modf_main_def
  nearbyint_main_def
  nextafter_main_def
  pow_main_def
  pow10_main_def
  remainder_main_def
  remquo_main_def
  rint_main_def
  round_main_def
  scalb_main_def
  scalbln_main_def
  scalbn_main_def
  sin_main_def
  sincos_main_def
  sinh_main_def
  sqrt_main_def
  tan_main_def
  tanh_main_def
  tgamma_main_def
  trunc_main_def
  y0_main_def
  y1_main_def
  yn_main_def

end
