(* ===== verification/Math_Float.thy ===== *)
theory Math_Float
  imports Math_Harness
begin

text \<open>
  The \<open>float\<close> tests of \<^verbatim>\<open>libc-test/src/math\<close>.  For each file, \<open>X_row\<close> is the body of the loop of
  \<^verbatim>\<open>main\<close> after the environment has been prepared, and \<open>X_main\<close> the program: the function
  under test, which is library code, and the table, which is data, are arguments.
  The interpretations discharge the contract of the loop body, with the count of failed checks
  written out where the test belongs to one of the large families.
\<close>

unbundle bit_operations_syntax

section \<open>Programs\<close>

definition acosf_row ::
    "fe_cfg \<Rightarrow> (fp \<Rightarrow> fp call) \<Rightarrow> f_f \<Rightarrow> mst \<Rightarrow> mst" where
  "acosf_row c fn p s =
    (let (y, s) = libcall (fn (d_d.p_x p)) s;
         e = except c s;
         s = (if \<not> checkexcept c e (d_d.p_e p) (d_d.p_r p)
           then (let s = c_printf ''%s:%d: bad fp exception: %s acosf(%a)=%a, want %s''
                      [AStr (d_d.p_file p), AInt (d_d.p_line p), AStr (rstr c (d_d.p_r p)),
                       AFp (d_d.p_x p), AFp (d_d.p_y p), AStr (estr c (d_d.p_e p))] s;
                     s = c_printfln '' got %s'' [AStr (estr c e)] s
                 in err_inc s)
           else s);
         d = ulperrf (rm c s) y (d_d.p_y p) (d_d.p_dy p)
     in (if \<not> checkulp c d (d_d.p_r p)
          then (let s = c_printfln ''%s:%d: %s acosf(%a) want %a got %a ulperr %.3f = %a + %a''
                     [AStr (d_d.p_file p), AInt (d_d.p_line p), AStr (rstr c (d_d.p_r p)),
                      AFp (d_d.p_x p), AFp (d_d.p_y p), AFp y, AFp d,
                      AFp (fp_sub flt32 (rm c s) d (d_d.p_dy p)), AFp (d_d.p_dy p)] s
                in err_inc s)
          else s))"

definition acosf_main ::
    "fe_cfg \<Rightarrow> (fp \<Rightarrow> fp call) \<Rightarrow> f_f list \<Rightarrow> fenv \<Rightarrow> int \<times> cout list" where
  "acosf_main c fn t env = mtest_main c d_d.p_r (acosf_row c fn) t env"

definition acoshf_row ::
    "fe_cfg \<Rightarrow> (fp \<Rightarrow> fp call) \<Rightarrow> f_f \<Rightarrow> mst \<Rightarrow> mst" where
  "acoshf_row c fn p s =
    (let (y, s) = libcall (fn (d_d.p_x p)) s;
         e = except c s;
         s = (if \<not> checkexcept c e (d_d.p_e p) (d_d.p_r p)
           then (let s = c_printf ''%s:%d: bad fp exception: %s acoshf(%a)=%a, want %s''
                      [AStr (d_d.p_file p), AInt (d_d.p_line p), AStr (rstr c (d_d.p_r p)),
                       AFp (d_d.p_x p), AFp (d_d.p_y p), AStr (estr c (d_d.p_e p))] s;
                     s = c_printfln '' got %s'' [AStr (estr c e)] s
                 in err_inc s)
           else s);
         d = ulperrf (rm c s) y (d_d.p_y p) (d_d.p_dy p)
     in (if \<not> checkulp c d (d_d.p_r p)
          then (let s = c_printfln ''%s:%d: %s acoshf(%a) want %a got %a ulperr %.3f = %a + %a''
                     [AStr (d_d.p_file p), AInt (d_d.p_line p), AStr (rstr c (d_d.p_r p)),
                      AFp (d_d.p_x p), AFp (d_d.p_y p), AFp y, AFp d,
                      AFp (fp_sub flt32 (rm c s) d (d_d.p_dy p)), AFp (d_d.p_dy p)] s
                in err_inc s)
          else s))"

definition acoshf_main ::
    "fe_cfg \<Rightarrow> (fp \<Rightarrow> fp call) \<Rightarrow> f_f list \<Rightarrow> fenv \<Rightarrow> int \<times> cout list" where
  "acoshf_main c fn t env = mtest_main c d_d.p_r (acoshf_row c fn) t env"

definition asinf_row ::
    "fe_cfg \<Rightarrow> (fp \<Rightarrow> fp call) \<Rightarrow> f_f \<Rightarrow> mst \<Rightarrow> mst" where
  "asinf_row c fn p s =
    (let (y, s) = libcall (fn (d_d.p_x p)) s;
         e = except c s;
         s = (if \<not> checkexcept c e (d_d.p_e p) (d_d.p_r p)
           then (let s = c_printf ''%s:%d: bad fp exception: %s asinf(%a)=%a, want %s''
                      [AStr (d_d.p_file p), AInt (d_d.p_line p), AStr (rstr c (d_d.p_r p)),
                       AFp (d_d.p_x p), AFp (d_d.p_y p), AStr (estr c (d_d.p_e p))] s;
                     s = c_printfln '' got %s'' [AStr (estr c e)] s
                 in err_inc s)
           else s);
         d = ulperrf (rm c s) y (d_d.p_y p) (d_d.p_dy p)
     in (if \<not> checkulp c d (d_d.p_r p)
          then (let s = c_printfln ''%s:%d: %s asinf(%a) want %a got %a ulperr %.3f = %a + %a''
                     [AStr (d_d.p_file p), AInt (d_d.p_line p), AStr (rstr c (d_d.p_r p)),
                      AFp (d_d.p_x p), AFp (d_d.p_y p), AFp y, AFp d,
                      AFp (fp_sub flt32 (rm c s) d (d_d.p_dy p)), AFp (d_d.p_dy p)] s
                in err_inc s)
          else s))"

definition asinf_main ::
    "fe_cfg \<Rightarrow> (fp \<Rightarrow> fp call) \<Rightarrow> f_f list \<Rightarrow> fenv \<Rightarrow> int \<times> cout list" where
  "asinf_main c fn t env = mtest_main c d_d.p_r (asinf_row c fn) t env"

definition asinhf_row ::
    "fe_cfg \<Rightarrow> (fp \<Rightarrow> fp call) \<Rightarrow> f_f \<Rightarrow> mst \<Rightarrow> mst" where
  "asinhf_row c fn p s =
    (let (y, s) = libcall (fn (d_d.p_x p)) s;
         e = except c s;
         s = (if \<not> checkexcept c e (d_d.p_e p) (d_d.p_r p)
           then (let s = c_printf ''%s:%d: bad fp exception: %s asinhf(%a)=%a, want %s''
                      [AStr (d_d.p_file p), AInt (d_d.p_line p), AStr (rstr c (d_d.p_r p)),
                       AFp (d_d.p_x p), AFp (d_d.p_y p), AStr (estr c (d_d.p_e p))] s;
                     s = c_printfln '' got %s'' [AStr (estr c e)] s
                 in err_inc s)
           else s);
         d = ulperrf (rm c s) y (d_d.p_y p) (d_d.p_dy p)
     in (if \<not> checkulp c d (d_d.p_r p)
          then (let s = c_printfln ''%s:%d: %s asinhf(%a) want %a got %a ulperr %.3f = %a + %a''
                     [AStr (d_d.p_file p), AInt (d_d.p_line p), AStr (rstr c (d_d.p_r p)),
                      AFp (d_d.p_x p), AFp (d_d.p_y p), AFp y, AFp d,
                      AFp (fp_sub flt32 (rm c s) d (d_d.p_dy p)), AFp (d_d.p_dy p)] s
                in err_inc s)
          else s))"

definition asinhf_main ::
    "fe_cfg \<Rightarrow> (fp \<Rightarrow> fp call) \<Rightarrow> f_f list \<Rightarrow> fenv \<Rightarrow> int \<times> cout list" where
  "asinhf_main c fn t env = mtest_main c d_d.p_r (asinhf_row c fn) t env"

definition atan2f_row ::
    "fe_cfg \<Rightarrow> (fp \<Rightarrow> fp \<Rightarrow> fp call) \<Rightarrow> ff_f \<Rightarrow> mst \<Rightarrow> mst" where
  "atan2f_row c fn p s =
    (let (y, s) = libcall (fn (dd_d.p_x p) (dd_d.p_x2 p)) s;
         e = except c s;
         s = (if \<not> checkexcept c e (dd_d.p_e p) (dd_d.p_r p)
           then (let s = c_printf ''%s:%d: bad fp exception: %s atan2f(%a,%a)=%a, want %s''
                      [AStr (dd_d.p_file p), AInt (dd_d.p_line p), AStr (rstr c (dd_d.p_r p)),
                       AFp (dd_d.p_x p), AFp (dd_d.p_x2 p), AFp (dd_d.p_y p),
                       AStr (estr c (dd_d.p_e p))] s;
                     s = c_printfln '' got %s'' [AStr (estr c e)] s
                 in err_inc s)
           else s);
         d = ulperrf (rm c s) y (dd_d.p_y p) (dd_d.p_dy p)
     in (if \<not> checkulp c d (dd_d.p_r p)
          then (let s = c_printfln ''%s:%d: %s atan2f(%a,%a) want %a got %a ulperr %.3f = %a + %a''
                     [AStr (dd_d.p_file p), AInt (dd_d.p_line p), AStr (rstr c (dd_d.p_r p)),
                      AFp (dd_d.p_x p), AFp (dd_d.p_x2 p), AFp (dd_d.p_y p), AFp y, AFp d,
                      AFp (fp_sub flt32 (rm c s) d (dd_d.p_dy p)), AFp (dd_d.p_dy p)] s
                in err_inc s)
          else s))"

definition atan2f_main ::
    "fe_cfg \<Rightarrow> (fp \<Rightarrow> fp \<Rightarrow> fp call) \<Rightarrow> ff_f list \<Rightarrow> fenv \<Rightarrow> int \<times> cout list" where
  "atan2f_main c fn t env = mtest_main c dd_d.p_r (atan2f_row c fn) t env"

definition atanf_row ::
    "fe_cfg \<Rightarrow> (fp \<Rightarrow> fp call) \<Rightarrow> f_f \<Rightarrow> mst \<Rightarrow> mst" where
  "atanf_row c fn p s =
    (let (y, s) = libcall (fn (d_d.p_x p)) s;
         e = except c s;
         s = (if \<not> checkexcept c e (d_d.p_e p) (d_d.p_r p)
           then (let s = c_printf ''%s:%d: bad fp exception: %s atanf(%a)=%a, want %s''
                      [AStr (d_d.p_file p), AInt (d_d.p_line p), AStr (rstr c (d_d.p_r p)),
                       AFp (d_d.p_x p), AFp (d_d.p_y p), AStr (estr c (d_d.p_e p))] s;
                     s = c_printfln '' got %s'' [AStr (estr c e)] s
                 in err_inc s)
           else s);
         d = ulperrf (rm c s) y (d_d.p_y p) (d_d.p_dy p)
     in (if \<not> checkulp c d (d_d.p_r p)
          then (let s = c_printfln ''%s:%d: %s atanf(%a) want %a got %a ulperr %.3f = %a + %a''
                     [AStr (d_d.p_file p), AInt (d_d.p_line p), AStr (rstr c (d_d.p_r p)),
                      AFp (d_d.p_x p), AFp (d_d.p_y p), AFp y, AFp d,
                      AFp (fp_sub flt32 (rm c s) d (d_d.p_dy p)), AFp (d_d.p_dy p)] s
                in err_inc s)
          else s))"

definition atanf_main ::
    "fe_cfg \<Rightarrow> (fp \<Rightarrow> fp call) \<Rightarrow> f_f list \<Rightarrow> fenv \<Rightarrow> int \<times> cout list" where
  "atanf_main c fn t env = mtest_main c d_d.p_r (atanf_row c fn) t env"

definition atanhf_row ::
    "fe_cfg \<Rightarrow> (fp \<Rightarrow> fp call) \<Rightarrow> f_f \<Rightarrow> mst \<Rightarrow> mst" where
  "atanhf_row c fn p s =
    (let (y, s) = libcall (fn (d_d.p_x p)) s;
         e = except c s;
         s = (if \<not> checkexcept c e (d_d.p_e p) (d_d.p_r p)
           then (let s = c_printf ''%s:%d: bad fp exception: %s atanhf(%a)=%a, want %s''
                      [AStr (d_d.p_file p), AInt (d_d.p_line p), AStr (rstr c (d_d.p_r p)),
                       AFp (d_d.p_x p), AFp (d_d.p_y p), AStr (estr c (d_d.p_e p))] s;
                     s = c_printfln '' got %s'' [AStr (estr c e)] s
                 in err_inc s)
           else s);
         d = ulperrf (rm c s) y (d_d.p_y p) (d_d.p_dy p)
     in (if \<not> checkulp c d (d_d.p_r p)
          then (let s = c_printfln ''%s:%d: %s atanhf(%a) want %a got %a ulperr %.3f = %a + %a''
                     [AStr (d_d.p_file p), AInt (d_d.p_line p), AStr (rstr c (d_d.p_r p)),
                      AFp (d_d.p_x p), AFp (d_d.p_y p), AFp y, AFp d,
                      AFp (fp_sub flt32 (rm c s) d (d_d.p_dy p)), AFp (d_d.p_dy p)] s
                in err_inc s)
          else s))"

definition atanhf_main ::
    "fe_cfg \<Rightarrow> (fp \<Rightarrow> fp call) \<Rightarrow> f_f list \<Rightarrow> fenv \<Rightarrow> int \<times> cout list" where
  "atanhf_main c fn t env = mtest_main c d_d.p_r (atanhf_row c fn) t env"

definition cbrtf_row ::
    "fe_cfg \<Rightarrow> (fp \<Rightarrow> fp call) \<Rightarrow> f_f \<Rightarrow> mst \<Rightarrow> mst" where
  "cbrtf_row c fn p s =
    (let (y, s) = libcall (fn (d_d.p_x p)) s;
         e = except c s;
         s = (if \<not> checkexcept c e (d_d.p_e p) (d_d.p_r p)
           then (let s = c_printf ''%s:%d: bad fp exception: %s cbrtf(%a)=%a, want %s''
                      [AStr (d_d.p_file p), AInt (d_d.p_line p), AStr (rstr c (d_d.p_r p)),
                       AFp (d_d.p_x p), AFp (d_d.p_y p), AStr (estr c (d_d.p_e p))] s;
                     s = c_printfln '' got %s'' [AStr (estr c e)] s
                 in err_inc s)
           else s);
         d = ulperrf (rm c s) y (d_d.p_y p) (d_d.p_dy p)
     in (if \<not> checkulp c d (d_d.p_r p)
          then (let s = c_printfln ''%s:%d: %s cbrtf(%a) want %a got %a ulperr %.3f = %a + %a''
                     [AStr (d_d.p_file p), AInt (d_d.p_line p), AStr (rstr c (d_d.p_r p)),
                      AFp (d_d.p_x p), AFp (d_d.p_y p), AFp y, AFp d,
                      AFp (fp_sub flt32 (rm c s) d (d_d.p_dy p)), AFp (d_d.p_dy p)] s
                in err_inc s)
          else s))"

definition cbrtf_main ::
    "fe_cfg \<Rightarrow> (fp \<Rightarrow> fp call) \<Rightarrow> f_f list \<Rightarrow> fenv \<Rightarrow> int \<times> cout list" where
  "cbrtf_main c fn t env = mtest_main c d_d.p_r (cbrtf_row c fn) t env"

definition ceilf_row ::
    "fe_cfg \<Rightarrow> (fp \<Rightarrow> fp call) \<Rightarrow> f_f \<Rightarrow> mst \<Rightarrow> mst" where
  "ceilf_row c fn p s =
    (let (y, s) = libcall (fn (d_d.p_x p)) s;
         e = except c s;
         s = (if \<not> checkexceptall e (d_d.p_e p) (d_d.p_r p)
              \<and> (e OR INEXACT c) \<noteq> d_d.p_e p
           then (let s = c_printf ''%s:%d: bad fp exception: %s ceilf(%a)=%a, want %s''
                      [AStr (d_d.p_file p), AInt (d_d.p_line p), AStr (rstr c (d_d.p_r p)),
                       AFp (d_d.p_x p), AFp (d_d.p_y p), AStr (estr c (d_d.p_e p))] s;
                     s = c_printfln '' got %s'' [AStr (estr c e)] s
                 in err_inc s)
           else s);
         d = ulperrf (rm c s) y (d_d.p_y p) (d_d.p_dy p)
     in (if \<not> checkcr y (d_d.p_y p) (d_d.p_r p)
          then (let s = c_printfln ''%s:%d: %s ceilf(%a) want %a got %a ulperr %.3f = %a + %a''
                     [AStr (d_d.p_file p), AInt (d_d.p_line p), AStr (rstr c (d_d.p_r p)),
                      AFp (d_d.p_x p), AFp (d_d.p_y p), AFp y, AFp d,
                      AFp (fp_sub flt32 (rm c s) d (d_d.p_dy p)), AFp (d_d.p_dy p)] s
                in err_inc s)
          else s))"

definition ceilf_main ::
    "fe_cfg \<Rightarrow> (fp \<Rightarrow> fp call) \<Rightarrow> f_f list \<Rightarrow> fenv \<Rightarrow> int \<times> cout list" where
  "ceilf_main c fn t env = mtest_main c d_d.p_r (ceilf_row c fn) t env"

definition copysignf_row ::
    "fe_cfg \<Rightarrow> (fp \<Rightarrow> fp \<Rightarrow> fp call) \<Rightarrow> ff_f \<Rightarrow> mst \<Rightarrow> mst" where
  "copysignf_row c fn p s =
    (let (y, s) = libcall (fn (dd_d.p_x p) (dd_d.p_x2 p)) s;
         e = except c s;
         s = (if \<not> checkexceptall e (dd_d.p_e p) (dd_d.p_r p)
           then (let s = c_printf ''%s:%d: bad fp exception: %s copysignf(%a,%a)=%a, want %s''
                      [AStr (dd_d.p_file p), AInt (dd_d.p_line p), AStr (rstr c (dd_d.p_r p)),
                       AFp (dd_d.p_x p), AFp (dd_d.p_x2 p), AFp (dd_d.p_y p),
                       AStr (estr c (dd_d.p_e p))] s;
                     s = c_printfln '' got %s'' [AStr (estr c e)] s
                 in err_inc s)
           else s);
         d = ulperrf (rm c s) y (dd_d.p_y p) (dd_d.p_dy p)
     in (if \<not> checkcr y (dd_d.p_y p) (dd_d.p_r p)
          then (let s = c_printfln ''%s:%d: %s copysignf(%a,%a) want %a got %a ulperr %.3f = %a + %a''
                     [AStr (dd_d.p_file p), AInt (dd_d.p_line p), AStr (rstr c (dd_d.p_r p)),
                      AFp (dd_d.p_x p), AFp (dd_d.p_x2 p), AFp (dd_d.p_y p), AFp y, AFp d,
                      AFp (fp_sub flt32 (rm c s) d (dd_d.p_dy p)), AFp (dd_d.p_dy p)] s
                in err_inc s)
          else s))"

definition copysignf_main ::
    "fe_cfg \<Rightarrow> (fp \<Rightarrow> fp \<Rightarrow> fp call) \<Rightarrow> ff_f list \<Rightarrow> fenv \<Rightarrow> int \<times> cout list" where
  "copysignf_main c fn t env = mtest_main c dd_d.p_r (copysignf_row c fn) t env"

definition cosf_row ::
    "fe_cfg \<Rightarrow> (fp \<Rightarrow> fp call) \<Rightarrow> f_f \<Rightarrow> mst \<Rightarrow> mst" where
  "cosf_row c fn p s =
    (let (y, s) = libcall (fn (d_d.p_x p)) s;
         e = except c s;
         s = (if \<not> checkexcept c e (d_d.p_e p) (d_d.p_r p)
           then (let s = c_printf ''%s:%d: bad fp exception: %s cosf(%a)=%a, want %s''
                      [AStr (d_d.p_file p), AInt (d_d.p_line p), AStr (rstr c (d_d.p_r p)),
                       AFp (d_d.p_x p), AFp (d_d.p_y p), AStr (estr c (d_d.p_e p))] s;
                     s = c_printfln '' got %s'' [AStr (estr c e)] s
                 in err_inc s)
           else s);
         d = ulperrf (rm c s) y (d_d.p_y p) (d_d.p_dy p)
     in (if \<not> checkulp c d (d_d.p_r p)
          then (let s = c_printfln ''%s:%d: %s cosf(%a) want %a got %a ulperr %.3f = %a + %a''
                     [AStr (d_d.p_file p), AInt (d_d.p_line p), AStr (rstr c (d_d.p_r p)),
                      AFp (d_d.p_x p), AFp (d_d.p_y p), AFp y, AFp d,
                      AFp (fp_sub flt32 (rm c s) d (d_d.p_dy p)), AFp (d_d.p_dy p)] s
                in err_inc s)
          else s))"

definition cosf_main ::
    "fe_cfg \<Rightarrow> (fp \<Rightarrow> fp call) \<Rightarrow> f_f list \<Rightarrow> fenv \<Rightarrow> int \<times> cout list" where
  "cosf_main c fn t env = mtest_main c d_d.p_r (cosf_row c fn) t env"

definition coshf_row ::
    "fe_cfg \<Rightarrow> (fp \<Rightarrow> fp call) \<Rightarrow> f_f \<Rightarrow> mst \<Rightarrow> mst" where
  "coshf_row c fn p s =
    (let (y, s) = libcall (fn (d_d.p_x p)) s;
         e = except c s;
         s = (if \<not> checkexcept c e (d_d.p_e p) (d_d.p_r p)
           then (let s = c_printf ''%s:%d: bad fp exception: %s coshf(%a)=%a, want %s''
                      [AStr (d_d.p_file p), AInt (d_d.p_line p), AStr (rstr c (d_d.p_r p)),
                       AFp (d_d.p_x p), AFp (d_d.p_y p), AStr (estr c (d_d.p_e p))] s;
                     s = c_printfln '' got %s'' [AStr (estr c e)] s
                 in err_inc s)
           else s);
         d = ulperrf (rm c s) y (d_d.p_y p) (d_d.p_dy p)
     in (if \<not> checkulp c d (d_d.p_r p)
          then (let s = c_printfln ''%s:%d: %s coshf(%a) want %a got %a ulperr %.3f = %a + %a''
                     [AStr (d_d.p_file p), AInt (d_d.p_line p), AStr (rstr c (d_d.p_r p)),
                      AFp (d_d.p_x p), AFp (d_d.p_y p), AFp y, AFp d,
                      AFp (fp_sub flt32 (rm c s) d (d_d.p_dy p)), AFp (d_d.p_dy p)] s
                in err_inc s)
          else s))"

definition coshf_main ::
    "fe_cfg \<Rightarrow> (fp \<Rightarrow> fp call) \<Rightarrow> f_f list \<Rightarrow> fenv \<Rightarrow> int \<times> cout list" where
  "coshf_main c fn t env = mtest_main c d_d.p_r (coshf_row c fn) t env"

definition dremf_row ::
    "fe_cfg \<Rightarrow> (fp \<Rightarrow> fp \<Rightarrow> fp call) \<Rightarrow> ff_f \<Rightarrow> mst \<Rightarrow> mst" where
  "dremf_row c fn p s =
    (let (y, s) = libcall (fn (dd_d.p_x p) (dd_d.p_x2 p)) s;
         e = except c s;
         s = (if \<not> checkexcept c e (dd_d.p_e p) (dd_d.p_r p)
           then (let s = c_printf ''%s:%d: bad fp exception: %s dremf(%a,%a)=%a, want %s''
                      [AStr (dd_d.p_file p), AInt (dd_d.p_line p), AStr (rstr c (dd_d.p_r p)),
                       AFp (dd_d.p_x p), AFp (dd_d.p_x2 p), AFp (dd_d.p_y p),
                       AStr (estr c (dd_d.p_e p))] s;
                     s = c_printfln '' got %s'' [AStr (estr c e)] s
                 in err_inc s)
           else s);
         d = ulperrf (rm c s) y (dd_d.p_y p) (dd_d.p_dy p)
     in (if \<not> checkcr y (dd_d.p_y p) (dd_d.p_r p)
          then (let s = c_printfln ''%s:%d: %s dremf(%a,%a) want %a got %a ulperr %.3f = %a + %a''
                     [AStr (dd_d.p_file p), AInt (dd_d.p_line p), AStr (rstr c (dd_d.p_r p)),
                      AFp (dd_d.p_x p), AFp (dd_d.p_x2 p), AFp (dd_d.p_y p), AFp y, AFp d,
                      AFp (fp_sub flt32 (rm c s) d (dd_d.p_dy p)), AFp (dd_d.p_dy p)] s
                in err_inc s)
          else s))"

definition dremf_main ::
    "fe_cfg \<Rightarrow> (fp \<Rightarrow> fp \<Rightarrow> fp call) \<Rightarrow> ff_f list \<Rightarrow> fenv \<Rightarrow> int \<times> cout list" where
  "dremf_main c fn t env = mtest_main c dd_d.p_r (dremf_row c fn) t env"

definition erfcf_row ::
    "fe_cfg \<Rightarrow> (fp \<Rightarrow> fp call) \<Rightarrow> f_f \<Rightarrow> mst \<Rightarrow> mst" where
  "erfcf_row c fn p s =
    (let (y, s) = libcall (fn (d_d.p_x p)) s;
         e = except c s;
         s = (if \<not> checkexcept c e (d_d.p_e p) (d_d.p_r p)
           then (let s = c_printf ''%s:%d: bad fp exception: %s erfcf(%a)=%a, want %s''
                      [AStr (d_d.p_file p), AInt (d_d.p_line p), AStr (rstr c (d_d.p_r p)),
                       AFp (d_d.p_x p), AFp (d_d.p_y p), AStr (estr c (d_d.p_e p))] s;
                     s = c_printfln '' got %s'' [AStr (estr c e)] s
                 in err_inc s)
           else s);
         d = ulperrf (rm c s) y (d_d.p_y p) (d_d.p_dy p)
     in (if \<not> checkulp c d (d_d.p_r p)
          then (let s = c_printfln ''%s:%d: %s erfcf(%a) want %a got %a ulperr %.3f = %a + %a''
                     [AStr (d_d.p_file p), AInt (d_d.p_line p), AStr (rstr c (d_d.p_r p)),
                      AFp (d_d.p_x p), AFp (d_d.p_y p), AFp y, AFp d,
                      AFp (fp_sub flt32 (rm c s) d (d_d.p_dy p)), AFp (d_d.p_dy p)] s
                in err_inc s)
          else s))"

definition erfcf_main ::
    "fe_cfg \<Rightarrow> (fp \<Rightarrow> fp call) \<Rightarrow> f_f list \<Rightarrow> fenv \<Rightarrow> int \<times> cout list" where
  "erfcf_main c fn t env = mtest_main c d_d.p_r (erfcf_row c fn) t env"

definition erff_row ::
    "fe_cfg \<Rightarrow> (fp \<Rightarrow> fp call) \<Rightarrow> f_f \<Rightarrow> mst \<Rightarrow> mst" where
  "erff_row c fn p s =
    (let (y, s) = libcall (fn (d_d.p_x p)) s;
         e = except c s;
         s = (if \<not> checkexcept c e (d_d.p_e p) (d_d.p_r p)
           then (let s = c_printf ''%s:%d: bad fp exception: %s erff(%a)=%a, want %s''
                      [AStr (d_d.p_file p), AInt (d_d.p_line p), AStr (rstr c (d_d.p_r p)),
                       AFp (d_d.p_x p), AFp (d_d.p_y p), AStr (estr c (d_d.p_e p))] s;
                     s = c_printfln '' got %s'' [AStr (estr c e)] s
                 in err_inc s)
           else s);
         d = ulperrf (rm c s) y (d_d.p_y p) (d_d.p_dy p)
     in (if \<not> checkulp c d (d_d.p_r p)
          then (let s = c_printfln ''%s:%d: %s erff(%a) want %a got %a ulperr %.3f = %a + %a''
                     [AStr (d_d.p_file p), AInt (d_d.p_line p), AStr (rstr c (d_d.p_r p)),
                      AFp (d_d.p_x p), AFp (d_d.p_y p), AFp y, AFp d,
                      AFp (fp_sub flt32 (rm c s) d (d_d.p_dy p)), AFp (d_d.p_dy p)] s
                in err_inc s)
          else s))"

definition erff_main ::
    "fe_cfg \<Rightarrow> (fp \<Rightarrow> fp call) \<Rightarrow> f_f list \<Rightarrow> fenv \<Rightarrow> int \<times> cout list" where
  "erff_main c fn t env = mtest_main c d_d.p_r (erff_row c fn) t env"

definition exp10f_row ::
    "fe_cfg \<Rightarrow> (fp \<Rightarrow> fp call) \<Rightarrow> f_f \<Rightarrow> mst \<Rightarrow> mst" where
  "exp10f_row c fn p s =
    (let (y, s) = libcall (fn (d_d.p_x p)) s;
         e = except c s;
         s = (if \<not> checkexcept c e (d_d.p_e p) (d_d.p_r p)
           then (let s = c_printf ''%s:%d: bad fp exception: %s exp10f(%a)=%a, want %s''
                      [AStr (d_d.p_file p), AInt (d_d.p_line p), AStr (rstr c (d_d.p_r p)),
                       AFp (d_d.p_x p), AFp (d_d.p_y p), AStr (estr c (d_d.p_e p))] s;
                     s = c_printfln '' got %s'' [AStr (estr c e)] s
                 in err_inc s)
           else s);
         d = ulperrf (rm c s) y (d_d.p_y p) (d_d.p_dy p)
     in (if \<not> checkulp c d (d_d.p_r p)
          then (let s = c_printfln ''%s:%d: %s exp10f(%a) want %a got %a ulperr %.3f = %a + %a''
                     [AStr (d_d.p_file p), AInt (d_d.p_line p), AStr (rstr c (d_d.p_r p)),
                      AFp (d_d.p_x p), AFp (d_d.p_y p), AFp y, AFp d,
                      AFp (fp_sub flt32 (rm c s) d (d_d.p_dy p)), AFp (d_d.p_dy p)] s
                in err_inc s)
          else s))"

definition exp10f_main ::
    "fe_cfg \<Rightarrow> (fp \<Rightarrow> fp call) \<Rightarrow> f_f list \<Rightarrow> fenv \<Rightarrow> int \<times> cout list" where
  "exp10f_main c fn t env = mtest_main c d_d.p_r (exp10f_row c fn) t env"

definition exp2f_row ::
    "fe_cfg \<Rightarrow> (fp \<Rightarrow> fp call) \<Rightarrow> f_f \<Rightarrow> mst \<Rightarrow> mst" where
  "exp2f_row c fn p s =
    (let (y, s) = libcall (fn (d_d.p_x p)) s;
         e = except c s;
         s = (if \<not> checkexcept c e (d_d.p_e p) (d_d.p_r p)
           then (let s = c_printf ''%s:%d: bad fp exception: %s exp2f(%a)=%a, want %s''
                      [AStr (d_d.p_file p), AInt (d_d.p_line p), AStr (rstr c (d_d.p_r p)),
                       AFp (d_d.p_x p), AFp (d_d.p_y p), AStr (estr c (d_d.p_e p))] s;
                     s = c_printfln '' got %s'' [AStr (estr c e)] s
                 in err_inc s)
           else s);
         d = ulperrf (rm c s) y (d_d.p_y p) (d_d.p_dy p)
     in (if \<not> checkulp c d (d_d.p_r p)
          then (let s = c_printfln ''%s:%d: %s exp2f(%a) want %a got %a ulperr %.3f = %a + %a''
                     [AStr (d_d.p_file p), AInt (d_d.p_line p), AStr (rstr c (d_d.p_r p)),
                      AFp (d_d.p_x p), AFp (d_d.p_y p), AFp y, AFp d,
                      AFp (fp_sub flt32 (rm c s) d (d_d.p_dy p)), AFp (d_d.p_dy p)] s
                in err_inc s)
          else s))"

definition exp2f_main ::
    "fe_cfg \<Rightarrow> (fp \<Rightarrow> fp call) \<Rightarrow> f_f list \<Rightarrow> fenv \<Rightarrow> int \<times> cout list" where
  "exp2f_main c fn t env = mtest_main c d_d.p_r (exp2f_row c fn) t env"

definition expf_row ::
    "fe_cfg \<Rightarrow> (fp \<Rightarrow> fp call) \<Rightarrow> f_f \<Rightarrow> mst \<Rightarrow> mst" where
  "expf_row c fn p s =
    (let (y, s) = libcall (fn (d_d.p_x p)) s;
         e = except c s;
         s = (if \<not> checkexcept c e (d_d.p_e p) (d_d.p_r p)
           then (let s = c_printf ''%s:%d: bad fp exception: %s expf(%a)=%a, want %s''
                      [AStr (d_d.p_file p), AInt (d_d.p_line p), AStr (rstr c (d_d.p_r p)),
                       AFp (d_d.p_x p), AFp (d_d.p_y p), AStr (estr c (d_d.p_e p))] s;
                     s = c_printfln '' got %s'' [AStr (estr c e)] s
                 in err_inc s)
           else s);
         d = ulperrf (rm c s) y (d_d.p_y p) (d_d.p_dy p)
     in (if \<not> checkulp c d (d_d.p_r p)
          then (let s = c_printfln ''%s:%d: %s expf(%a) want %a got %a ulperr %.3f = %a + %a''
                     [AStr (d_d.p_file p), AInt (d_d.p_line p), AStr (rstr c (d_d.p_r p)),
                      AFp (d_d.p_x p), AFp (d_d.p_y p), AFp y, AFp d,
                      AFp (fp_sub flt32 (rm c s) d (d_d.p_dy p)), AFp (d_d.p_dy p)] s
                in err_inc s)
          else s))"

definition expf_main ::
    "fe_cfg \<Rightarrow> (fp \<Rightarrow> fp call) \<Rightarrow> f_f list \<Rightarrow> fenv \<Rightarrow> int \<times> cout list" where
  "expf_main c fn t env = mtest_main c d_d.p_r (expf_row c fn) t env"

definition expm1f_row ::
    "fe_cfg \<Rightarrow> (fp \<Rightarrow> fp call) \<Rightarrow> f_f \<Rightarrow> mst \<Rightarrow> mst" where
  "expm1f_row c fn p s =
    (let (y, s) = libcall (fn (d_d.p_x p)) s;
         e = except c s;
         s = (if \<not> checkexcept c e (d_d.p_e p) (d_d.p_r p)
           then (let s = c_printf ''%s:%d: bad fp exception: %s expm1f(%a)=%a, want %s''
                      [AStr (d_d.p_file p), AInt (d_d.p_line p), AStr (rstr c (d_d.p_r p)),
                       AFp (d_d.p_x p), AFp (d_d.p_y p), AStr (estr c (d_d.p_e p))] s;
                     s = c_printfln '' got %s'' [AStr (estr c e)] s
                 in err_inc s)
           else s);
         d = ulperrf (rm c s) y (d_d.p_y p) (d_d.p_dy p)
     in (if \<not> checkulp c d (d_d.p_r p)
          then (let s = c_printfln ''%s:%d: %s expm1f(%a) want %a got %a ulperr %.3f = %a + %a''
                     [AStr (d_d.p_file p), AInt (d_d.p_line p), AStr (rstr c (d_d.p_r p)),
                      AFp (d_d.p_x p), AFp (d_d.p_y p), AFp y, AFp d,
                      AFp (fp_sub flt32 (rm c s) d (d_d.p_dy p)), AFp (d_d.p_dy p)] s
                in err_inc s)
          else s))"

definition expm1f_main ::
    "fe_cfg \<Rightarrow> (fp \<Rightarrow> fp call) \<Rightarrow> f_f list \<Rightarrow> fenv \<Rightarrow> int \<times> cout list" where
  "expm1f_main c fn t env = mtest_main c d_d.p_r (expm1f_row c fn) t env"

definition fabsf_row ::
    "fe_cfg \<Rightarrow> (fp \<Rightarrow> fp call) \<Rightarrow> f_f \<Rightarrow> mst \<Rightarrow> mst" where
  "fabsf_row c fn p s =
    (let (y, s) = libcall (fn (d_d.p_x p)) s;
         e = except c s;
         s = (if \<not> checkexceptall e (d_d.p_e p) (d_d.p_r p)
           then (let s = c_printf ''%s:%d: bad fp exception: %s fabsf(%a)=%a, want %s''
                      [AStr (d_d.p_file p), AInt (d_d.p_line p), AStr (rstr c (d_d.p_r p)),
                       AFp (d_d.p_x p), AFp (d_d.p_y p), AStr (estr c (d_d.p_e p))] s;
                     s = c_printfln '' got %s'' [AStr (estr c e)] s
                 in err_inc s)
           else s);
         d = ulperrf (rm c s) y (d_d.p_y p) (d_d.p_dy p)
     in (if \<not> checkcr y (d_d.p_y p) (d_d.p_r p)
          then (let s = c_printfln ''%s:%d: %s fabsf(%a) want %a got %a ulperr %.3f = %a + %a''
                     [AStr (d_d.p_file p), AInt (d_d.p_line p), AStr (rstr c (d_d.p_r p)),
                      AFp (d_d.p_x p), AFp (d_d.p_y p), AFp y, AFp d,
                      AFp (fp_sub flt32 (rm c s) d (d_d.p_dy p)), AFp (d_d.p_dy p)] s
                in err_inc s)
          else s))"

definition fabsf_main ::
    "fe_cfg \<Rightarrow> (fp \<Rightarrow> fp call) \<Rightarrow> f_f list \<Rightarrow> fenv \<Rightarrow> int \<times> cout list" where
  "fabsf_main c fn t env = mtest_main c d_d.p_r (fabsf_row c fn) t env"

definition fdimf_row ::
    "fe_cfg \<Rightarrow> (fp \<Rightarrow> fp \<Rightarrow> fp call) \<Rightarrow> ff_f \<Rightarrow> mst \<Rightarrow> mst" where
  "fdimf_row c fn p s =
    (let (y, s) = libcall (fn (dd_d.p_x p) (dd_d.p_x2 p)) s;
         e = except c s;
         s = (if \<not> checkexceptall e (dd_d.p_e p) (dd_d.p_r p)
           then (let s = c_printf ''%s:%d: bad fp exception: %s fdimf(%a,%a)=%a, want %s''
                      [AStr (dd_d.p_file p), AInt (dd_d.p_line p), AStr (rstr c (dd_d.p_r p)),
                       AFp (dd_d.p_x p), AFp (dd_d.p_x2 p), AFp (dd_d.p_y p),
                       AStr (estr c (dd_d.p_e p))] s;
                     s = c_printfln '' got %s'' [AStr (estr c e)] s
                 in err_inc s)
           else s);
         d = ulperrf (rm c s) y (dd_d.p_y p) (dd_d.p_dy p)
     in (if \<not> checkcr y (dd_d.p_y p) (dd_d.p_r p)
          then (let s = c_printfln ''%s:%d: %s fdimf(%a,%a) want %a got %a ulperr %.3f = %a + %a''
                     [AStr (dd_d.p_file p), AInt (dd_d.p_line p), AStr (rstr c (dd_d.p_r p)),
                      AFp (dd_d.p_x p), AFp (dd_d.p_x2 p), AFp (dd_d.p_y p), AFp y, AFp d,
                      AFp (fp_sub flt32 (rm c s) d (dd_d.p_dy p)), AFp (dd_d.p_dy p)] s
                in err_inc s)
          else s))"

definition fdimf_main ::
    "fe_cfg \<Rightarrow> (fp \<Rightarrow> fp \<Rightarrow> fp call) \<Rightarrow> ff_f list \<Rightarrow> fenv \<Rightarrow> int \<times> cout list" where
  "fdimf_main c fn t env = mtest_main c dd_d.p_r (fdimf_row c fn) t env"

definition floorf_row ::
    "fe_cfg \<Rightarrow> (fp \<Rightarrow> fp call) \<Rightarrow> f_f \<Rightarrow> mst \<Rightarrow> mst" where
  "floorf_row c fn p s =
    (let (y, s) = libcall (fn (d_d.p_x p)) s;
         e = except c s;
         s = (if \<not> checkexceptall e (d_d.p_e p) (d_d.p_r p)
              \<and> (e OR INEXACT c) \<noteq> d_d.p_e p
           then (let s = c_printf ''%s:%d: bad fp exception: %s floorf(%a)=%a, want %s''
                      [AStr (d_d.p_file p), AInt (d_d.p_line p), AStr (rstr c (d_d.p_r p)),
                       AFp (d_d.p_x p), AFp (d_d.p_y p), AStr (estr c (d_d.p_e p))] s;
                     s = c_printfln '' got %s'' [AStr (estr c e)] s
                 in err_inc s)
           else s);
         d = ulperrf (rm c s) y (d_d.p_y p) (d_d.p_dy p)
     in (if \<not> checkcr y (d_d.p_y p) (d_d.p_r p)
          then (let s = c_printfln ''%s:%d: %s floorf(%a) want %a got %a ulperr %.3f = %a + %a''
                     [AStr (d_d.p_file p), AInt (d_d.p_line p), AStr (rstr c (d_d.p_r p)),
                      AFp (d_d.p_x p), AFp (d_d.p_y p), AFp y, AFp d,
                      AFp (fp_sub flt32 (rm c s) d (d_d.p_dy p)), AFp (d_d.p_dy p)] s
                in err_inc s)
          else s))"

definition floorf_main ::
    "fe_cfg \<Rightarrow> (fp \<Rightarrow> fp call) \<Rightarrow> f_f list \<Rightarrow> fenv \<Rightarrow> int \<times> cout list" where
  "floorf_main c fn t env = mtest_main c d_d.p_r (floorf_row c fn) t env"

definition fmaf_row ::
    "fe_cfg \<Rightarrow> (fp \<Rightarrow> fp \<Rightarrow> fp \<Rightarrow> fp call) \<Rightarrow> fff_f \<Rightarrow> mst \<Rightarrow> mst" where
  "fmaf_row c fn p s =
    (let (y, s) = libcall (fn (ddd_d.p_x p) (ddd_d.p_x2 p) (ddd_d.p_x3 p)) s;
         e = except c s;
         s = (if \<not> checkexcept_fma c e (ddd_d.p_e p) (ddd_d.p_r p)
           then (let s = c_printf ''%s:%d: bad fp exception: %s fmaf(%a,%a,%a)=%a, want %s''
                      [AStr (ddd_d.p_file p), AInt (ddd_d.p_line p), AStr (rstr c (ddd_d.p_r p)),
                       AFp (ddd_d.p_x p), AFp (ddd_d.p_x2 p), AFp (ddd_d.p_x3 p),
                       AFp (ddd_d.p_y p), AStr (estr c (ddd_d.p_e p))] s;
                     s = c_printfln '' got %s'' [AStr (estr c e)] s
                 in err_inc s)
           else s);
         d = ulperrf (rm c s) y (ddd_d.p_y p) (ddd_d.p_dy p)
     in (if \<not> checkcr y (ddd_d.p_y p) (ddd_d.p_r p)
          then (let s = c_printfln ''%s:%d: %s fmaf(%a,%a,%a) want %a got %a ulperr %.3f = %a + %a''
                     [AStr (ddd_d.p_file p), AInt (ddd_d.p_line p), AStr (rstr c (ddd_d.p_r p)),
                      AFp (ddd_d.p_x p), AFp (ddd_d.p_x2 p), AFp (ddd_d.p_x3 p),
                      AFp (ddd_d.p_y p), AFp y, AFp d,
                      AFp (fp_sub flt32 (rm c s) d (ddd_d.p_dy p)), AFp (ddd_d.p_dy p)] s
                in err_inc s)
          else s))"

definition fmaf_main ::
    "fe_cfg \<Rightarrow> (fp \<Rightarrow> fp \<Rightarrow> fp \<Rightarrow> fp call) \<Rightarrow> fff_f list \<Rightarrow> fenv \<Rightarrow> int \<times> cout list" where
  "fmaf_main c fn t env = mtest_main c ddd_d.p_r (fmaf_row c fn) t env"

definition fmaxf_row ::
    "fe_cfg \<Rightarrow> (fp \<Rightarrow> fp \<Rightarrow> fp call) \<Rightarrow> ff_f \<Rightarrow> mst \<Rightarrow> mst" where
  "fmaxf_row c fn p s =
    (let (y, s) = libcall (fn (dd_d.p_x p) (dd_d.p_x2 p)) s;
         e = except c s;
         s = (if \<not> checkexceptall e (dd_d.p_e p) (dd_d.p_r p)
           then (let s = c_printf ''%s:%d: bad fp exception: %s fmaxf(%a,%a)=%a, want %s''
                      [AStr (dd_d.p_file p), AInt (dd_d.p_line p), AStr (rstr c (dd_d.p_r p)),
                       AFp (dd_d.p_x p), AFp (dd_d.p_x2 p), AFp (dd_d.p_y p),
                       AStr (estr c (dd_d.p_e p))] s;
                     s = c_printfln '' got %s'' [AStr (estr c e)] s
                 in err_inc s)
           else s);
         d = ulperrf (rm c s) y (dd_d.p_y p) (dd_d.p_dy p)
     in (if \<not> checkcr y (dd_d.p_y p) (dd_d.p_r p)
          then (let s = c_printfln ''%s:%d: %s fmaxf(%a,%a) want %a got %a ulperr %.3f = %a + %a''
                     [AStr (dd_d.p_file p), AInt (dd_d.p_line p), AStr (rstr c (dd_d.p_r p)),
                      AFp (dd_d.p_x p), AFp (dd_d.p_x2 p), AFp (dd_d.p_y p), AFp y, AFp d,
                      AFp (fp_sub flt32 (rm c s) d (dd_d.p_dy p)), AFp (dd_d.p_dy p)] s
                in err_inc s)
          else s))"

definition fmaxf_main ::
    "fe_cfg \<Rightarrow> (fp \<Rightarrow> fp \<Rightarrow> fp call) \<Rightarrow> ff_f list \<Rightarrow> fenv \<Rightarrow> int \<times> cout list" where
  "fmaxf_main c fn t env = mtest_main c dd_d.p_r (fmaxf_row c fn) t env"

definition fminf_row ::
    "fe_cfg \<Rightarrow> (fp \<Rightarrow> fp \<Rightarrow> fp call) \<Rightarrow> ff_f \<Rightarrow> mst \<Rightarrow> mst" where
  "fminf_row c fn p s =
    (let (y, s) = libcall (fn (dd_d.p_x p) (dd_d.p_x2 p)) s;
         e = except c s;
         s = (if \<not> checkexceptall e (dd_d.p_e p) (dd_d.p_r p)
           then (let s = c_printf ''%s:%d: bad fp exception: %s fminf(%a,%a)=%a, want %s''
                      [AStr (dd_d.p_file p), AInt (dd_d.p_line p), AStr (rstr c (dd_d.p_r p)),
                       AFp (dd_d.p_x p), AFp (dd_d.p_x2 p), AFp (dd_d.p_y p),
                       AStr (estr c (dd_d.p_e p))] s;
                     s = c_printfln '' got %s'' [AStr (estr c e)] s
                 in err_inc s)
           else s);
         d = ulperrf (rm c s) y (dd_d.p_y p) (dd_d.p_dy p)
     in (if \<not> checkcr y (dd_d.p_y p) (dd_d.p_r p)
          then (let s = c_printfln ''%s:%d: %s fminf(%a,%a) want %a got %a ulperr %.3f = %a + %a''
                     [AStr (dd_d.p_file p), AInt (dd_d.p_line p), AStr (rstr c (dd_d.p_r p)),
                      AFp (dd_d.p_x p), AFp (dd_d.p_x2 p), AFp (dd_d.p_y p), AFp y, AFp d,
                      AFp (fp_sub flt32 (rm c s) d (dd_d.p_dy p)), AFp (dd_d.p_dy p)] s
                in err_inc s)
          else s))"

definition fminf_main ::
    "fe_cfg \<Rightarrow> (fp \<Rightarrow> fp \<Rightarrow> fp call) \<Rightarrow> ff_f list \<Rightarrow> fenv \<Rightarrow> int \<times> cout list" where
  "fminf_main c fn t env = mtest_main c dd_d.p_r (fminf_row c fn) t env"

definition fmodf_row ::
    "fe_cfg \<Rightarrow> (fp \<Rightarrow> fp \<Rightarrow> fp call) \<Rightarrow> ff_f \<Rightarrow> mst \<Rightarrow> mst" where
  "fmodf_row c fn p s =
    (let (y, s) = libcall (fn (dd_d.p_x p) (dd_d.p_x2 p)) s;
         e = except c s;
         s = (if \<not> checkexcept c e (dd_d.p_e p) (dd_d.p_r p)
           then (let s = c_printf ''%s:%d: bad fp exception: %s fmodf(%a,%a)=%a, want %s''
                      [AStr (dd_d.p_file p), AInt (dd_d.p_line p), AStr (rstr c (dd_d.p_r p)),
                       AFp (dd_d.p_x p), AFp (dd_d.p_x2 p), AFp (dd_d.p_y p),
                       AStr (estr c (dd_d.p_e p))] s;
                     s = c_printfln '' got %s'' [AStr (estr c e)] s
                 in err_inc s)
           else s);
         d = ulperrf (rm c s) y (dd_d.p_y p) (dd_d.p_dy p)
     in (if \<not> checkcr y (dd_d.p_y p) (dd_d.p_r p)
          then (let s = c_printfln ''%s:%d: %s fmodf(%a,%a) want %a got %a ulperr %.3f = %a + %a''
                     [AStr (dd_d.p_file p), AInt (dd_d.p_line p), AStr (rstr c (dd_d.p_r p)),
                      AFp (dd_d.p_x p), AFp (dd_d.p_x2 p), AFp (dd_d.p_y p), AFp y, AFp d,
                      AFp (fp_sub flt32 (rm c s) d (dd_d.p_dy p)), AFp (dd_d.p_dy p)] s
                in err_inc s)
          else s))"

definition fmodf_main ::
    "fe_cfg \<Rightarrow> (fp \<Rightarrow> fp \<Rightarrow> fp call) \<Rightarrow> ff_f list \<Rightarrow> fenv \<Rightarrow> int \<times> cout list" where
  "fmodf_main c fn t env = mtest_main c dd_d.p_r (fmodf_row c fn) t env"

definition frexpf_row ::
    "fe_cfg \<Rightarrow> (fp \<Rightarrow> (fp \<times> int) call) \<Rightarrow> f_fi \<Rightarrow> mst \<Rightarrow> mst" where
  "frexpf_row c fn p s =
    (let ((y, yi), s) = libcall (fn (d_di.p_x p)) s;
         e = except c s;
         s = (if \<not> checkexceptall e (d_di.p_e p) (d_di.p_r p)
           then (let s = c_printf ''%s:%d: bad fp exception: %s frexpf(%a)=%a,%lld, want %s''
                      [AStr (d_di.p_file p), AInt (d_di.p_line p), AStr (rstr c (d_di.p_r p)),
                       AFp (d_di.p_x p), AFp (d_di.p_y p), AInt (d_di.p_i p),
                       AStr (estr c (d_di.p_e p))] s;
                     s = c_printfln '' got %s'' [AStr (estr c e)] s
                 in err_inc s)
           else s);
         d = ulperrf (rm c s) (to_flt (rm c s) y) (d_di.p_y p) (d_di.p_dy p)
     in (if \<not> checkcr y (d_di.p_y p) (d_di.p_r p) \<or> isfinite (d_di.p_x p)
            \<and> yi \<noteq> d_di.p_i p
          then (let s = c_printfln ''%s:%d: %s frexpf(%a) want %a,%lld got %a,%d ulperr %.3f = %a + %a''
                     [AStr (d_di.p_file p), AInt (d_di.p_line p), AStr (rstr c (d_di.p_r p)),
                      AFp (d_di.p_x p), AFp (d_di.p_y p), AInt (d_di.p_i p), AFp y, AInt yi,
                      AFp d, AFp (fp_sub flt32 (rm c s) d (d_di.p_dy p)), AFp (d_di.p_dy p)] s
                in err_inc s)
          else s))"

definition frexpf_main ::
    "fe_cfg \<Rightarrow> (fp \<Rightarrow> (fp \<times> int) call) \<Rightarrow> f_fi list \<Rightarrow> fenv \<Rightarrow> int \<times> cout list" where
  "frexpf_main c fn t env = mtest_main c d_di.p_r (frexpf_row c fn) t env"

definition hypotf_row ::
    "fe_cfg \<Rightarrow> (fp \<Rightarrow> fp \<Rightarrow> fp call) \<Rightarrow> ff_f \<Rightarrow> mst \<Rightarrow> mst" where
  "hypotf_row c fn p s =
    (let (y, s) = libcall (fn (dd_d.p_x p) (dd_d.p_x2 p)) s;
         e = except c s;
         s = (if \<not> checkexcept c e (dd_d.p_e p) (dd_d.p_r p)
           then (let s = c_printf ''%s:%d: bad fp exception: %s hypotf(%a,%a)=%a, want %s''
                      [AStr (dd_d.p_file p), AInt (dd_d.p_line p), AStr (rstr c (dd_d.p_r p)),
                       AFp (dd_d.p_x p), AFp (dd_d.p_x2 p), AFp (dd_d.p_y p),
                       AStr (estr c (dd_d.p_e p))] s;
                     s = c_printfln '' got %s'' [AStr (estr c e)] s
                 in err_inc s)
           else s);
         d = ulperrf (rm c s) y (dd_d.p_y p) (dd_d.p_dy p)
     in (if \<not> checkulp c d (dd_d.p_r p) \<or> dd_d.p_r p = RN c
            \<and> fp_le (Fin False 1 0) (fabs d)
          then (let s = c_printfln ''%s:%d: %s hypotf(%a,%a) want %a got %a ulperr %.3f = %a + %a''
                     [AStr (dd_d.p_file p), AInt (dd_d.p_line p), AStr (rstr c (dd_d.p_r p)),
                      AFp (dd_d.p_x p), AFp (dd_d.p_x2 p), AFp (dd_d.p_y p), AFp y, AFp d,
                      AFp (fp_sub flt32 (rm c s) d (dd_d.p_dy p)), AFp (dd_d.p_dy p)] s
                in err_inc s)
          else s))"

definition hypotf_main ::
    "fe_cfg \<Rightarrow> (fp \<Rightarrow> fp \<Rightarrow> fp call) \<Rightarrow> ff_f list \<Rightarrow> fenv \<Rightarrow> int \<times> cout list" where
  "hypotf_main c fn t env = mtest_main c dd_d.p_r (hypotf_row c fn) t env"

definition ilogbf_row ::
    "fe_cfg \<Rightarrow> (fp \<Rightarrow> int call) \<Rightarrow> f_i \<Rightarrow> mst \<Rightarrow> mst" where
  "ilogbf_row c fn p s =
    (let (yi, s) = libcall (fn (d_i.p_x p)) s;
         e = except c s;
         s = (if \<not> checkexcept c e (d_i.p_e p) (d_i.p_r p)
           then (let s = c_printf ''%s:%d: bad fp exception: %s ilogbf(%a)=%lld, want %s''
                      [AStr (d_i.p_file p), AInt (d_i.p_line p), AStr (rstr c (d_i.p_r p)),
                       AFp (d_i.p_x p), AInt (d_i.p_i p), AStr (estr c (d_i.p_e p))] s;
                     s = c_printfln '' got %s'' [AStr (estr c e)] s
                 in err_inc s)
           else s)
     in (if yi \<noteq> d_i.p_i p
          then (let s = c_printfln ''%s:%d: %s ilogbf(%a) want %lld got %lld''
                     [AStr (d_i.p_file p), AInt (d_i.p_line p), AStr (rstr c (d_i.p_r p)),
                      AFp (d_i.p_x p), AInt (d_i.p_i p), AInt yi] s
                in err_inc s)
          else s))"

definition ilogbf_main ::
    "fe_cfg \<Rightarrow> (fp \<Rightarrow> int call) \<Rightarrow> f_i list \<Rightarrow> fenv \<Rightarrow> int \<times> cout list" where
  "ilogbf_main c fn t env = mtest_main c d_i.p_r (ilogbf_row c fn) t env"

definition j0f_row ::
    "fe_cfg \<Rightarrow> (fp \<Rightarrow> fp call) \<Rightarrow> f_f \<Rightarrow> mst \<Rightarrow> mst" where
  "j0f_row c fn p s =
    (let (y, s) = libcall (fn (d_d.p_x p)) s;
         e = except c s;
         s = (if \<not> checkexcept c e (d_d.p_e p) (d_d.p_r p)
           then (let s = c_printf ''%s:%d: bad fp exception: %s j0f(%a)=%a, want %s''
                      [AStr (d_d.p_file p), AInt (d_d.p_line p), AStr (rstr c (d_d.p_r p)),
                       AFp (d_d.p_x p), AFp (d_d.p_y p), AStr (estr c (d_d.p_e p))] s;
                     s = c_printfln '' got %s'' [AStr (estr c e)] s
                 in err_inc s)
           else s);
         d = ulperrf (rm c s) y (d_d.p_y p) (d_d.p_dy p)
     in (if \<not> checkulp c d (d_d.p_r p)
          then (let s = (if fp_lt (fabs d) (Fin False 1 23)
                    then c_printf ''X '' [] s
                    else err_inc s)
                in c_printfln ''%s:%d: %s j0f(%a) want %a got %a ulperr %.3f = %a + %a''
                     [AStr (d_d.p_file p), AInt (d_d.p_line p), AStr (rstr c (d_d.p_r p)),
                      AFp (d_d.p_x p), AFp (d_d.p_y p), AFp y, AFp d,
                      AFp (fp_sub flt32 (rm c s) d (d_d.p_dy p)), AFp (d_d.p_dy p)] s)
          else s))"

definition j0f_main ::
    "fe_cfg \<Rightarrow> (fp \<Rightarrow> fp call) \<Rightarrow> f_f list \<Rightarrow> fenv \<Rightarrow> int \<times> cout list" where
  "j0f_main c fn t env = mtest_main c d_d.p_r (j0f_row c fn) t env"

definition j1f_row ::
    "fe_cfg \<Rightarrow> (fp \<Rightarrow> fp call) \<Rightarrow> f_f \<Rightarrow> mst \<Rightarrow> mst" where
  "j1f_row c fn p s =
    (let (y, s) = libcall (fn (d_d.p_x p)) s;
         e = except c s;
         s = (if \<not> checkexcept c e (d_d.p_e p) (d_d.p_r p)
           then (let s = c_printf ''%s:%d: bad fp exception: %s j1f(%a)=%a, want %s''
                      [AStr (d_d.p_file p), AInt (d_d.p_line p), AStr (rstr c (d_d.p_r p)),
                       AFp (d_d.p_x p), AFp (d_d.p_y p), AStr (estr c (d_d.p_e p))] s;
                     s = c_printfln '' got %s'' [AStr (estr c e)] s
                 in err_inc s)
           else s);
         d = ulperrf (rm c s) y (d_d.p_y p) (d_d.p_dy p)
     in (if \<not> checkulp c d (d_d.p_r p)
          then (let s = c_printfln ''%s:%d: %s j1f(%a) want %a got %a ulperr %.3f = %a + %a''
                     [AStr (d_d.p_file p), AInt (d_d.p_line p), AStr (rstr c (d_d.p_r p)),
                      AFp (d_d.p_x p), AFp (d_d.p_y p), AFp y, AFp d,
                      AFp (fp_sub flt32 (rm c s) d (d_d.p_dy p)), AFp (d_d.p_dy p)] s
                in err_inc s)
          else s))"

definition j1f_main ::
    "fe_cfg \<Rightarrow> (fp \<Rightarrow> fp call) \<Rightarrow> f_f list \<Rightarrow> fenv \<Rightarrow> int \<times> cout list" where
  "j1f_main c fn t env = mtest_main c d_d.p_r (j1f_row c fn) t env"

definition jnf_row ::
    "fe_cfg \<Rightarrow> (int \<Rightarrow> fp \<Rightarrow> fp call) \<Rightarrow> fi_f \<Rightarrow> mst \<Rightarrow> mst" where
  "jnf_row c fn p s =
    (let (y, s) = libcall (fn (c_int (di_d.p_i p)) (di_d.p_x p)) s;
         e = except c s;
         s = (if \<not> checkexcept c e (di_d.p_e p) (di_d.p_r p)
           then (let s = c_printf ''%s:%d: bad fp exception: %s jnf(%lld, %a)=%a, want %s''
                      [AStr (di_d.p_file p), AInt (di_d.p_line p), AStr (rstr c (di_d.p_r p)),
                       AInt (di_d.p_i p), AFp (di_d.p_x p), AFp (di_d.p_y p),
                       AStr (estr c (di_d.p_e p))] s;
                     s = c_printfln '' got %s'' [AStr (estr c e)] s
                 in err_inc s)
           else s);
         d = ulperrf (rm c s) (to_flt (rm c s) y) (di_d.p_y p) (di_d.p_dy p)
     in (if \<not> checkulp c d (di_d.p_r p)
          then (let s = (if fp_lt (fabs d) (Fin False 3 0)
                    then c_printf ''X '' [] s
                    else err_inc s)
                in c_printfln ''%s:%d: %s jnf(%lld, %a) want %a got %a, ulperr %.3f = %a + %a''
                     [AStr (di_d.p_file p), AInt (di_d.p_line p), AStr (rstr c (di_d.p_r p)),
                      AInt (di_d.p_i p), AFp (di_d.p_x p), AFp (di_d.p_y p), AFp y, AFp d,
                      AFp (fp_sub flt32 (rm c s) d (di_d.p_dy p)), AFp (di_d.p_dy p)] s)
          else s))"

definition jnf_main ::
    "fe_cfg \<Rightarrow> (int \<Rightarrow> fp \<Rightarrow> fp call) \<Rightarrow> fi_f list \<Rightarrow> fenv \<Rightarrow> int \<times> cout list" where
  "jnf_main c fn t env = mtest_main c di_d.p_r (jnf_row c fn) t env"

definition ldexpf_row ::
    "fe_cfg \<Rightarrow> (fp \<Rightarrow> int \<Rightarrow> fp call) \<Rightarrow> fi_f \<Rightarrow> mst \<Rightarrow> mst" where
  "ldexpf_row c fn p s =
    (let (y, s) = libcall (fn (di_d.p_x p) (c_int (di_d.p_i p))) s;
         e = except c s;
         s = (if \<not> checkexceptall e (di_d.p_e p) (di_d.p_r p)
           then (let s = c_printf ''%s:%d: bad fp exception: %s ldexpf(%a, %lld)=%a, want %s''
                      [AStr (di_d.p_file p), AInt (di_d.p_line p), AStr (rstr c (di_d.p_r p)),
                       AFp (di_d.p_x p), AInt (di_d.p_i p), AFp (di_d.p_y p),
                       AStr (estr c (di_d.p_e p))] s;
                     s = c_printfln '' got %s'' [AStr (estr c e)] s
                 in err_inc s)
           else s);
         d = ulperrf (rm c s) y (di_d.p_y p) (di_d.p_dy p)
     in (if \<not> checkcr y (di_d.p_y p) (di_d.p_r p)
          then (let s = c_printfln ''%s:%d: %s ldexpf(%a, %lld) want %a got %a, ulperr %.3f = %a + %a''
                     [AStr (di_d.p_file p), AInt (di_d.p_line p), AStr (rstr c (di_d.p_r p)),
                      AFp (di_d.p_x p), AInt (di_d.p_i p), AFp (di_d.p_y p), AFp y, AFp d,
                      AFp (fp_sub flt32 (rm c s) d (di_d.p_dy p)), AFp (di_d.p_dy p)] s
                in err_inc s)
          else s))"

definition ldexpf_main ::
    "fe_cfg \<Rightarrow> (fp \<Rightarrow> int \<Rightarrow> fp call) \<Rightarrow> fi_f list \<Rightarrow> fenv \<Rightarrow> int \<times> cout list" where
  "ldexpf_main c fn t env = mtest_main c di_d.p_r (ldexpf_row c fn) t env"

definition lgammaf_row ::
    "fe_cfg \<Rightarrow> (fp \<Rightarrow> (fp \<times> int) call) \<Rightarrow> f_fi \<Rightarrow> mst \<Rightarrow> mst" where
  "lgammaf_row c fn p s =
    (let ((y, yi), s) = libcall (fn (d_di.p_x p)) s;
         e = except c s;
         s = (if \<not> checkexcept c e (d_di.p_e p) (d_di.p_r p)
           then (let s = c_printf ''%s:%d: bad fp exception: %s lgammaf(%a)=%a,%lld, want %s''
                      [AStr (d_di.p_file p), AInt (d_di.p_line p), AStr (rstr c (d_di.p_r p)),
                       AFp (d_di.p_x p), AFp (d_di.p_y p), AInt (d_di.p_i p),
                       AStr (estr c (d_di.p_e p))] s;
                     s = c_printfln '' got %s'' [AStr (estr c e)] s
                 in err_inc s)
           else s);
         d = ulperrf (rm c s) (to_flt (rm c s) y) (d_di.p_y p) (d_di.p_dy p);
         bad = (\<not> isnan (d_di.p_x p) \<and> \<not> fp_eq (d_di.p_x p) (Inf True)
                \<and> \<not> ((d_di.p_e p AND DIVBYZERO c) \<noteq> 0)
                \<and> yi \<noteq> d_di.p_i p)
     in (if bad \<or> \<not> checkulp c d (d_di.p_r p)
          then (let s = (if \<not> bad \<and> fp_lt (fabs d) (Fin False 2 0)
                    then c_printf ''X '' [] s
                    else err_inc s)
                in c_printfln ''%s:%d: %s lgammaf(%a) want %a,%lld got %a,%d ulperr %.3f = %a + %a''
                     [AStr (d_di.p_file p), AInt (d_di.p_line p), AStr (rstr c (d_di.p_r p)),
                      AFp (d_di.p_x p), AFp (d_di.p_y p), AInt (d_di.p_i p), AFp y, AInt yi,
                      AFp d, AFp (fp_sub flt32 (rm c s) d (d_di.p_dy p)), AFp (d_di.p_dy p)] s)
          else s))"

definition lgammaf_main ::
    "fe_cfg \<Rightarrow> (fp \<Rightarrow> (fp \<times> int) call) \<Rightarrow> f_fi list \<Rightarrow> fenv \<Rightarrow> int \<times> cout list" where
  "lgammaf_main c fn t env = mtest_main c d_di.p_r (lgammaf_row c fn) t env"

definition lgammaf_r_row ::
    "fe_cfg \<Rightarrow> (fp \<Rightarrow> (fp \<times> int) call) \<Rightarrow> f_fi \<Rightarrow> mst \<Rightarrow> mst" where
  "lgammaf_r_row c fn p s =
    (let ((y, yi), s) = libcall (fn (d_di.p_x p)) s;
         e = except c s;
         s = (if \<not> checkexcept c e (d_di.p_e p) (d_di.p_r p)
           then (let s = c_printf ''%s:%d: bad fp exception: %s lgammaf_r(%a)=%a,%lld, want %s''
                      [AStr (d_di.p_file p), AInt (d_di.p_line p), AStr (rstr c (d_di.p_r p)),
                       AFp (d_di.p_x p), AFp (d_di.p_y p), AInt (d_di.p_i p),
                       AStr (estr c (d_di.p_e p))] s;
                     s = c_printfln '' got %s'' [AStr (estr c e)] s
                 in err_inc s)
           else s);
         d = ulperrf (rm c s) (to_flt (rm c s) y) (d_di.p_y p) (d_di.p_dy p);
         bad = (\<not> isnan (d_di.p_x p) \<and> \<not> fp_eq (d_di.p_x p) (Inf True)
                \<and> \<not> ((d_di.p_e p AND DIVBYZERO c) \<noteq> 0)
                \<and> yi \<noteq> d_di.p_i p)
     in (if bad \<or> \<not> checkulp c d (d_di.p_r p)
          then (let s = (if \<not> bad \<and> fp_lt (fabs d) (Fin False 2 0)
                    then c_printf ''X '' [] s
                    else err_inc s)
                in c_printfln ''%s:%d: %s lgammaf_r(%a) want %a,%lld got %a,%d ulperr %.3f = %a + %a''
                     [AStr (d_di.p_file p), AInt (d_di.p_line p), AStr (rstr c (d_di.p_r p)),
                      AFp (d_di.p_x p), AFp (d_di.p_y p), AInt (d_di.p_i p), AFp y, AInt yi,
                      AFp d, AFp (fp_sub flt32 (rm c s) d (d_di.p_dy p)), AFp (d_di.p_dy p)] s)
          else s))"

definition lgammaf_r_main ::
    "fe_cfg \<Rightarrow> (fp \<Rightarrow> (fp \<times> int) call) \<Rightarrow> f_fi list \<Rightarrow> fenv \<Rightarrow> int \<times> cout list" where
  "lgammaf_r_main c fn t env = mtest_main c d_di.p_r (lgammaf_r_row c fn) t env"

definition llrintf_row ::
    "fe_cfg \<Rightarrow> (fp \<Rightarrow> int call) \<Rightarrow> f_i \<Rightarrow> mst \<Rightarrow> mst" where
  "llrintf_row c fn p s =
    (let (yi, s) = libcall (fn (d_i.p_x p)) s;
         e = except c s;
         s = (if \<not> checkexcept c e (d_i.p_e p) (d_i.p_r p)
           then (let s = c_printf ''%s:%d: bad fp exception: %s llrintf(%a)=%lld, want %s''
                      [AStr (d_i.p_file p), AInt (d_i.p_line p), AStr (rstr c (d_i.p_r p)),
                       AFp (d_i.p_x p), AInt (d_i.p_i p), AStr (estr c (d_i.p_e p))] s;
                     s = c_printfln '' got %s'' [AStr (estr c e)] s
                 in err_inc s)
           else s)
     in (if \<not> ((d_i.p_e p AND INVALID c) \<noteq> 0) \<and> yi \<noteq> d_i.p_i p
          then (let s = c_printfln ''%s:%d: %s llrintf(%a) want %lld got %lld''
                     [AStr (d_i.p_file p), AInt (d_i.p_line p), AStr (rstr c (d_i.p_r p)),
                      AFp (d_i.p_x p), AInt (d_i.p_i p), AInt yi] s
                in err_inc s)
          else s))"

definition llrintf_main ::
    "fe_cfg \<Rightarrow> (fp \<Rightarrow> int call) \<Rightarrow> f_i list \<Rightarrow> fenv \<Rightarrow> int \<times> cout list" where
  "llrintf_main c fn t env = mtest_main c d_i.p_r (llrintf_row c fn) t env"

definition llroundf_row ::
    "fe_cfg \<Rightarrow> (fp \<Rightarrow> int call) \<Rightarrow> f_i \<Rightarrow> mst \<Rightarrow> mst" where
  "llroundf_row c fn p s =
    (let (yi, s) = libcall (fn (d_i.p_x p)) s;
         e = except c s;
         s = (if \<not> checkexcept c e (d_i.p_e p) (d_i.p_r p)
              \<and> (e OR INEXACT c) \<noteq> d_i.p_e p
           then (let s = c_printf ''%s:%d: bad fp exception: %s llroundf(%a)=%lld, want %s''
                      [AStr (d_i.p_file p), AInt (d_i.p_line p), AStr (rstr c (d_i.p_r p)),
                       AFp (d_i.p_x p), AInt (d_i.p_i p), AStr (estr c (d_i.p_e p))] s;
                     s = c_printfln '' got %s'' [AStr (estr c e)] s
                 in err_inc s)
           else s)
     in (if \<not> ((d_i.p_e p AND INVALID c) \<noteq> 0) \<and> yi \<noteq> d_i.p_i p
          then (let s = c_printfln ''%s:%d: %s llroundf(%a) want %lld got %lld''
                     [AStr (d_i.p_file p), AInt (d_i.p_line p), AStr (rstr c (d_i.p_r p)),
                      AFp (d_i.p_x p), AInt (d_i.p_i p), AInt yi] s
                in err_inc s)
          else s))"

definition llroundf_main ::
    "fe_cfg \<Rightarrow> (fp \<Rightarrow> int call) \<Rightarrow> f_i list \<Rightarrow> fenv \<Rightarrow> int \<times> cout list" where
  "llroundf_main c fn t env = mtest_main c d_i.p_r (llroundf_row c fn) t env"

definition log10f_row ::
    "fe_cfg \<Rightarrow> (fp \<Rightarrow> fp call) \<Rightarrow> f_f \<Rightarrow> mst \<Rightarrow> mst" where
  "log10f_row c fn p s =
    (let (y, s) = libcall (fn (d_d.p_x p)) s;
         e = except c s;
         s = (if \<not> checkexcept c e (d_d.p_e p) (d_d.p_r p)
           then (let s = c_printf ''%s:%d: bad fp exception: %s log10f(%a)=%a, want %s''
                      [AStr (d_d.p_file p), AInt (d_d.p_line p), AStr (rstr c (d_d.p_r p)),
                       AFp (d_d.p_x p), AFp (d_d.p_y p), AStr (estr c (d_d.p_e p))] s;
                     s = c_printfln '' got %s'' [AStr (estr c e)] s
                 in err_inc s)
           else s);
         d = ulperrf (rm c s) y (d_d.p_y p) (d_d.p_dy p)
     in (if \<not> checkulp c d (d_d.p_r p)
          then (let s = c_printfln ''%s:%d: %s log10f(%a) want %a got %a ulperr %.3f = %a + %a''
                     [AStr (d_d.p_file p), AInt (d_d.p_line p), AStr (rstr c (d_d.p_r p)),
                      AFp (d_d.p_x p), AFp (d_d.p_y p), AFp y, AFp d,
                      AFp (fp_sub flt32 (rm c s) d (d_d.p_dy p)), AFp (d_d.p_dy p)] s
                in err_inc s)
          else s))"

definition log10f_main ::
    "fe_cfg \<Rightarrow> (fp \<Rightarrow> fp call) \<Rightarrow> f_f list \<Rightarrow> fenv \<Rightarrow> int \<times> cout list" where
  "log10f_main c fn t env = mtest_main c d_d.p_r (log10f_row c fn) t env"

definition log1pf_row ::
    "fe_cfg \<Rightarrow> (fp \<Rightarrow> fp call) \<Rightarrow> f_f \<Rightarrow> mst \<Rightarrow> mst" where
  "log1pf_row c fn p s =
    (let (y, s) = libcall (fn (d_d.p_x p)) s;
         e = except c s;
         s = (if \<not> checkexcept c e (d_d.p_e p) (d_d.p_r p)
           then (let s = c_printf ''%s:%d: bad fp exception: %s log1pf(%a)=%a, want %s''
                      [AStr (d_d.p_file p), AInt (d_d.p_line p), AStr (rstr c (d_d.p_r p)),
                       AFp (d_d.p_x p), AFp (d_d.p_y p), AStr (estr c (d_d.p_e p))] s;
                     s = c_printfln '' got %s'' [AStr (estr c e)] s
                 in err_inc s)
           else s);
         d = ulperrf (rm c s) y (d_d.p_y p) (d_d.p_dy p)
     in (if \<not> checkulp c d (d_d.p_r p)
          then (let s = c_printfln ''%s:%d: %s log1pf(%a) want %a got %a ulperr %.3f = %a + %a''
                     [AStr (d_d.p_file p), AInt (d_d.p_line p), AStr (rstr c (d_d.p_r p)),
                      AFp (d_d.p_x p), AFp (d_d.p_y p), AFp y, AFp d,
                      AFp (fp_sub flt32 (rm c s) d (d_d.p_dy p)), AFp (d_d.p_dy p)] s
                in err_inc s)
          else s))"

definition log1pf_main ::
    "fe_cfg \<Rightarrow> (fp \<Rightarrow> fp call) \<Rightarrow> f_f list \<Rightarrow> fenv \<Rightarrow> int \<times> cout list" where
  "log1pf_main c fn t env = mtest_main c d_d.p_r (log1pf_row c fn) t env"

definition log2f_row ::
    "fe_cfg \<Rightarrow> (fp \<Rightarrow> fp call) \<Rightarrow> f_f \<Rightarrow> mst \<Rightarrow> mst" where
  "log2f_row c fn p s =
    (let (y, s) = libcall (fn (d_d.p_x p)) s;
         e = except c s;
         s = (if \<not> checkexcept c e (d_d.p_e p) (d_d.p_r p)
           then (let s = c_printf ''%s:%d: bad fp exception: %s log2f(%a)=%a, want %s''
                      [AStr (d_d.p_file p), AInt (d_d.p_line p), AStr (rstr c (d_d.p_r p)),
                       AFp (d_d.p_x p), AFp (d_d.p_y p), AStr (estr c (d_d.p_e p))] s;
                     s = c_printfln '' got %s'' [AStr (estr c e)] s
                 in err_inc s)
           else s);
         d = ulperrf (rm c s) y (d_d.p_y p) (d_d.p_dy p)
     in (if \<not> checkulp c d (d_d.p_r p)
          then (let s = c_printfln ''%s:%d: %s log2f(%a) want %a got %a ulperr %.3f = %a + %a''
                     [AStr (d_d.p_file p), AInt (d_d.p_line p), AStr (rstr c (d_d.p_r p)),
                      AFp (d_d.p_x p), AFp (d_d.p_y p), AFp y, AFp d,
                      AFp (fp_sub flt32 (rm c s) d (d_d.p_dy p)), AFp (d_d.p_dy p)] s
                in err_inc s)
          else s))"

definition log2f_main ::
    "fe_cfg \<Rightarrow> (fp \<Rightarrow> fp call) \<Rightarrow> f_f list \<Rightarrow> fenv \<Rightarrow> int \<times> cout list" where
  "log2f_main c fn t env = mtest_main c d_d.p_r (log2f_row c fn) t env"

definition logbf_row ::
    "fe_cfg \<Rightarrow> (fp \<Rightarrow> fp call) \<Rightarrow> f_f \<Rightarrow> mst \<Rightarrow> mst" where
  "logbf_row c fn p s =
    (let (y, s) = libcall (fn (d_d.p_x p)) s;
         e = except c s;
         s = (if \<not> checkexceptall e (d_d.p_e p) (d_d.p_r p)
           then (let s = c_printf ''%s:%d: bad fp exception: %s logbf(%a)=%a, want %s''
                      [AStr (d_d.p_file p), AInt (d_d.p_line p), AStr (rstr c (d_d.p_r p)),
                       AFp (d_d.p_x p), AFp (d_d.p_y p), AStr (estr c (d_d.p_e p))] s;
                     s = c_printfln '' got %s'' [AStr (estr c e)] s
                 in err_inc s)
           else s);
         d = ulperrf (rm c s) y (d_d.p_y p) (d_d.p_dy p)
     in (if \<not> checkcr y (d_d.p_y p) (d_d.p_r p)
          then (let s = c_printfln ''%s:%d: %s logbf(%a) want %a got %a ulperr %.3f = %a + %a''
                     [AStr (d_d.p_file p), AInt (d_d.p_line p), AStr (rstr c (d_d.p_r p)),
                      AFp (d_d.p_x p), AFp (d_d.p_y p), AFp y, AFp d,
                      AFp (fp_sub flt32 (rm c s) d (d_d.p_dy p)), AFp (d_d.p_dy p)] s
                in err_inc s)
          else s))"

definition logbf_main ::
    "fe_cfg \<Rightarrow> (fp \<Rightarrow> fp call) \<Rightarrow> f_f list \<Rightarrow> fenv \<Rightarrow> int \<times> cout list" where
  "logbf_main c fn t env = mtest_main c d_d.p_r (logbf_row c fn) t env"

definition logf_row ::
    "fe_cfg \<Rightarrow> (fp \<Rightarrow> fp call) \<Rightarrow> f_f \<Rightarrow> mst \<Rightarrow> mst" where
  "logf_row c fn p s =
    (let (y, s) = libcall (fn (d_d.p_x p)) s;
         e = except c s;
         s = (if \<not> checkexcept c e (d_d.p_e p) (d_d.p_r p)
           then (let s = c_printf ''%s:%d: bad fp exception: %s logf(%a)=%a, want %s''
                      [AStr (d_d.p_file p), AInt (d_d.p_line p), AStr (rstr c (d_d.p_r p)),
                       AFp (d_d.p_x p), AFp (d_d.p_y p), AStr (estr c (d_d.p_e p))] s;
                     s = c_printfln '' got %s'' [AStr (estr c e)] s
                 in err_inc s)
           else s);
         d = ulperrf (rm c s) y (d_d.p_y p) (d_d.p_dy p)
     in (if \<not> checkulp c d (d_d.p_r p)
          then (let s = c_printfln ''%s:%d: %s logf(%a) want %a got %a ulperr %.3f = %a + %a''
                     [AStr (d_d.p_file p), AInt (d_d.p_line p), AStr (rstr c (d_d.p_r p)),
                      AFp (d_d.p_x p), AFp (d_d.p_y p), AFp y, AFp d,
                      AFp (fp_sub flt32 (rm c s) d (d_d.p_dy p)), AFp (d_d.p_dy p)] s
                in err_inc s)
          else s))"

definition logf_main ::
    "fe_cfg \<Rightarrow> (fp \<Rightarrow> fp call) \<Rightarrow> f_f list \<Rightarrow> fenv \<Rightarrow> int \<times> cout list" where
  "logf_main c fn t env = mtest_main c d_d.p_r (logf_row c fn) t env"

definition lrintf_row ::
    "fe_cfg \<Rightarrow> (fp \<Rightarrow> int call) \<Rightarrow> f_i \<Rightarrow> mst \<Rightarrow> mst" where
  "lrintf_row c fn p s =
    (let (yi, s) = libcall (fn (d_i.p_x p)) s;
         e = except c s;
         s = (if \<not> checkexcept c e (d_i.p_e p) (d_i.p_r p)
           then (let s = c_printf ''%s:%d: bad fp exception: %s lrintf(%a)=%lld, want %s''
                      [AStr (d_i.p_file p), AInt (d_i.p_line p), AStr (rstr c (d_i.p_r p)),
                       AFp (d_i.p_x p), AInt (d_i.p_i p), AStr (estr c (d_i.p_e p))] s;
                     s = c_printfln '' got %s'' [AStr (estr c e)] s
                 in err_inc s)
           else s)
     in (if \<not> ((d_i.p_e p AND INVALID c) \<noteq> 0) \<and> yi \<noteq> d_i.p_i p
          then (let s = c_printfln ''%s:%d: %s lrintf(%a) want %lld got %lld''
                     [AStr (d_i.p_file p), AInt (d_i.p_line p), AStr (rstr c (d_i.p_r p)),
                      AFp (d_i.p_x p), AInt (d_i.p_i p), AInt yi] s
                in err_inc s)
          else s))"

definition lrintf_main ::
    "fe_cfg \<Rightarrow> (fp \<Rightarrow> int call) \<Rightarrow> f_i list \<Rightarrow> fenv \<Rightarrow> int \<times> cout list" where
  "lrintf_main c fn t env = mtest_main c d_i.p_r (lrintf_row c fn) t env"

definition lroundf_row ::
    "fe_cfg \<Rightarrow> (fp \<Rightarrow> int call) \<Rightarrow> f_i \<Rightarrow> mst \<Rightarrow> mst" where
  "lroundf_row c fn p s =
    (let (yi, s) = libcall (fn (d_i.p_x p)) s;
         e = except c s;
         s = (if \<not> checkexcept c e (d_i.p_e p) (d_i.p_r p)
              \<and> (e OR INEXACT c) \<noteq> d_i.p_e p
           then (let s = c_printf ''%s:%d: bad fp exception: %s lroundf(%a)=%lld, want %s''
                      [AStr (d_i.p_file p), AInt (d_i.p_line p), AStr (rstr c (d_i.p_r p)),
                       AFp (d_i.p_x p), AInt (d_i.p_i p), AStr (estr c (d_i.p_e p))] s;
                     s = c_printfln '' got %s'' [AStr (estr c e)] s
                 in err_inc s)
           else s)
     in (if \<not> ((d_i.p_e p AND INVALID c) \<noteq> 0) \<and> yi \<noteq> d_i.p_i p
          then (let s = c_printfln ''%s:%d: %s lroundf(%a) want %lld got %lld''
                     [AStr (d_i.p_file p), AInt (d_i.p_line p), AStr (rstr c (d_i.p_r p)),
                      AFp (d_i.p_x p), AInt (d_i.p_i p), AInt yi] s
                in err_inc s)
          else s))"

definition lroundf_main ::
    "fe_cfg \<Rightarrow> (fp \<Rightarrow> int call) \<Rightarrow> f_i list \<Rightarrow> fenv \<Rightarrow> int \<times> cout list" where
  "lroundf_main c fn t env = mtest_main c d_i.p_r (lroundf_row c fn) t env"

definition modff_row ::
    "fe_cfg \<Rightarrow> (fp \<Rightarrow> (fp \<times> fp) call) \<Rightarrow> f_ff \<Rightarrow> mst \<Rightarrow> mst" where
  "modff_row c fn p s =
    (let ((y, yi), s) = libcall (fn (d_dd.p_x p)) s;
         e = except c s;
         s = (if \<not> checkexceptall (e OR INEXACT c) (d_dd.p_e p OR INEXACT c) (d_dd.p_r p)
           then (let s = c_printf ''%s:%d: bad fp exception: %s modff(%a)=%a,%a, want %s''
                      [AStr (d_dd.p_file p), AInt (d_dd.p_line p), AStr (rstr c (d_dd.p_r p)),
                       AFp (d_dd.p_x p), AFp (d_dd.p_y p), AFp (d_dd.p_y2 p),
                       AStr (estr c (d_dd.p_e p))] s;
                     s = c_printfln '' got %s'' [AStr (estr c e)] s
                 in err_inc s)
           else s);
         d = ulperr (rm c s) (to_dbl (rm c s) y) (to_dbl (rm c s) (d_dd.p_y p)) (d_dd.p_dy p);
         di = ulperr (rm c s) (to_dbl (rm c s) yi) (to_dbl (rm c s) (d_dd.p_y2 p)) (d_dd.p_dy2 p)
     in (if \<not> checkcr y (d_dd.p_y p) (d_dd.p_r p)
            \<or> \<not> checkcr yi (d_dd.p_y2 p) (d_dd.p_r p)
          then (let s = c_printfln ''%s:%d: %s modff(%a) want %a,%a got %a,%a, ulperr %.3f = %a + %a, %.3f = %a + %a''
                     [AStr (d_dd.p_file p), AInt (d_dd.p_line p), AStr (rstr c (d_dd.p_r p)),
                      AFp (d_dd.p_x p), AFp (d_dd.p_y p), AFp (d_dd.p_y2 p), AFp y, AFp yi, AFp d,
                      AFp (fp_sub flt32 (rm c s) d (d_dd.p_dy p)), AFp (d_dd.p_dy p), AFp di,
                      AFp (fp_sub flt32 (rm c s) di (d_dd.p_dy2 p)), AFp (d_dd.p_dy2 p)] s
                in err_inc s)
          else s))"

definition modff_main ::
    "fe_cfg \<Rightarrow> (fp \<Rightarrow> (fp \<times> fp) call) \<Rightarrow> f_ff list \<Rightarrow> fenv \<Rightarrow> int \<times> cout list" where
  "modff_main c fn t env = mtest_main c d_dd.p_r (modff_row c fn) t env"

definition nearbyintf_row ::
    "fe_cfg \<Rightarrow> (fp \<Rightarrow> fp call) \<Rightarrow> f_f \<Rightarrow> mst \<Rightarrow> mst" where
  "nearbyintf_row c fn p s =
    (let (y, s) = libcall (fn (d_d.p_x p)) s;
         e = except c s;
         s = (if \<not> checkexceptall e (d_d.p_e p) (d_d.p_r p)
           then (let s = c_printf ''%s:%d: bad fp exception: %s nearbyintf(%a)=%a, want %s''
                      [AStr (d_d.p_file p), AInt (d_d.p_line p), AStr (rstr c (d_d.p_r p)),
                       AFp (d_d.p_x p), AFp (d_d.p_y p), AStr (estr c (d_d.p_e p))] s;
                     s = c_printfln '' got %s'' [AStr (estr c e)] s
                 in err_inc s)
           else s);
         d = ulperrf (rm c s) y (d_d.p_y p) (d_d.p_dy p)
     in (if \<not> checkcr y (d_d.p_y p) (d_d.p_r p)
          then (let s = c_printfln ''%s:%d: %s nearbyintf(%a) want %a got %a ulperr %.3f = %a + %a''
                     [AStr (d_d.p_file p), AInt (d_d.p_line p), AStr (rstr c (d_d.p_r p)),
                      AFp (d_d.p_x p), AFp (d_d.p_y p), AFp y, AFp d,
                      AFp (fp_sub flt32 (rm c s) d (d_d.p_dy p)), AFp (d_d.p_dy p)] s
                in err_inc s)
          else s))"

definition nearbyintf_main ::
    "fe_cfg \<Rightarrow> (fp \<Rightarrow> fp call) \<Rightarrow> f_f list \<Rightarrow> fenv \<Rightarrow> int \<times> cout list" where
  "nearbyintf_main c fn t env = mtest_main c d_d.p_r (nearbyintf_row c fn) t env"

definition nextafterf_row ::
    "fe_cfg \<Rightarrow> (fp \<Rightarrow> fp \<Rightarrow> fp call) \<Rightarrow> ff_f \<Rightarrow> mst \<Rightarrow> mst" where
  "nextafterf_row c fn p s =
    (let (y, s) = libcall (fn (dd_d.p_x p) (dd_d.p_x2 p)) s;
         e = except c s;
         s = (if \<not> checkexceptall e (dd_d.p_e p) (dd_d.p_r p)
           then (let s = c_printf ''%s:%d: bad fp exception: %s nextafterf(%a,%a)=%a, want %s''
                      [AStr (dd_d.p_file p), AInt (dd_d.p_line p), AStr (rstr c (dd_d.p_r p)),
                       AFp (dd_d.p_x p), AFp (dd_d.p_x2 p), AFp (dd_d.p_y p),
                       AStr (estr c (dd_d.p_e p))] s;
                     s = c_printfln '' got %s'' [AStr (estr c e)] s
                 in err_inc s)
           else s);
         d = ulperrf (rm c s) y (dd_d.p_y p) (dd_d.p_dy p)
     in (if \<not> checkcr y (dd_d.p_y p) (dd_d.p_r p)
          then (let s = c_printfln ''%s:%d: %s nextafterf(%a,%a) want %a got %a ulperr %.3f = %a + %a''
                     [AStr (dd_d.p_file p), AInt (dd_d.p_line p), AStr (rstr c (dd_d.p_r p)),
                      AFp (dd_d.p_x p), AFp (dd_d.p_x2 p), AFp (dd_d.p_y p), AFp y, AFp d,
                      AFp (fp_sub flt32 (rm c s) d (dd_d.p_dy p)), AFp (dd_d.p_dy p)] s
                in err_inc s)
          else s))"

definition nextafterf_main ::
    "fe_cfg \<Rightarrow> (fp \<Rightarrow> fp \<Rightarrow> fp call) \<Rightarrow> ff_f list \<Rightarrow> fenv \<Rightarrow> int \<times> cout list" where
  "nextafterf_main c fn t env = mtest_main c dd_d.p_r (nextafterf_row c fn) t env"

definition pow10f_row ::
    "fe_cfg \<Rightarrow> (fp \<Rightarrow> fp call) \<Rightarrow> f_f \<Rightarrow> mst \<Rightarrow> mst" where
  "pow10f_row c fn p s =
    (let (y, s) = libcall (fn (d_d.p_x p)) s;
         e = except c s;
         s = (if \<not> checkexcept c e (d_d.p_e p) (d_d.p_r p)
           then (let s = c_printf ''%s:%d: bad fp exception: %s pow10f(%a)=%a, want %s''
                      [AStr (d_d.p_file p), AInt (d_d.p_line p), AStr (rstr c (d_d.p_r p)),
                       AFp (d_d.p_x p), AFp (d_d.p_y p), AStr (estr c (d_d.p_e p))] s;
                     s = c_printfln '' got %s'' [AStr (estr c e)] s
                 in err_inc s)
           else s);
         d = ulperrf (rm c s) y (d_d.p_y p) (d_d.p_dy p)
     in (if \<not> checkulp c d (d_d.p_r p)
          then (let s = c_printfln ''%s:%d: %s pow10f(%a) want %a got %a ulperr %.3f = %a + %a''
                     [AStr (d_d.p_file p), AInt (d_d.p_line p), AStr (rstr c (d_d.p_r p)),
                      AFp (d_d.p_x p), AFp (d_d.p_y p), AFp y, AFp d,
                      AFp (fp_sub flt32 (rm c s) d (d_d.p_dy p)), AFp (d_d.p_dy p)] s
                in err_inc s)
          else s))"

definition pow10f_main ::
    "fe_cfg \<Rightarrow> (fp \<Rightarrow> fp call) \<Rightarrow> f_f list \<Rightarrow> fenv \<Rightarrow> int \<times> cout list" where
  "pow10f_main c fn t env = mtest_main c d_d.p_r (pow10f_row c fn) t env"

definition powf_row ::
    "fe_cfg \<Rightarrow> (fp \<Rightarrow> fp \<Rightarrow> fp call) \<Rightarrow> ff_f \<Rightarrow> mst \<Rightarrow> mst" where
  "powf_row c fn p s =
    (let (y, s) = libcall (fn (dd_d.p_x p) (dd_d.p_x2 p)) s;
         e = except c s;
         s = (if \<not> checkexcept c e (dd_d.p_e p) (dd_d.p_r p)
           then (let s = (if fp_lt (fabs y) (Fin False 1 (-126))
                          \<and> (e OR INEXACT c) = (INEXACT c OR UNDERFLOW c)
                     then c_printf ''X '' [] s
                     else err_inc s);
                     s = c_printf ''%s:%d: bad fp exception: %s powf(%a,%a)=%a, want %s''
                      [AStr (dd_d.p_file p), AInt (dd_d.p_line p), AStr (rstr c (dd_d.p_r p)),
                       AFp (dd_d.p_x p), AFp (dd_d.p_x2 p), AFp (dd_d.p_y p),
                       AStr (estr c (dd_d.p_e p))] s
                 in c_printfln '' got %s'' [AStr (estr c e)] s)
           else s);
         d = ulperrf (rm c s) y (dd_d.p_y p) (dd_d.p_dy p)
     in (if \<not> checkulp c d (dd_d.p_r p)
          then (let s = c_printfln ''%s:%d: %s powf(%a,%a) want %a got %a ulperr %.3f = %a + %a''
                     [AStr (dd_d.p_file p), AInt (dd_d.p_line p), AStr (rstr c (dd_d.p_r p)),
                      AFp (dd_d.p_x p), AFp (dd_d.p_x2 p), AFp (dd_d.p_y p), AFp y, AFp d,
                      AFp (fp_sub flt32 (rm c s) d (dd_d.p_dy p)), AFp (dd_d.p_dy p)] s
                in err_inc s)
          else s))"

definition powf_main ::
    "fe_cfg \<Rightarrow> (fp \<Rightarrow> fp \<Rightarrow> fp call) \<Rightarrow> ff_f list \<Rightarrow> fenv \<Rightarrow> int \<times> cout list" where
  "powf_main c fn t env = mtest_main c dd_d.p_r (powf_row c fn) t env"

definition remainderf_row ::
    "fe_cfg \<Rightarrow> (fp \<Rightarrow> fp \<Rightarrow> fp call) \<Rightarrow> ff_f \<Rightarrow> mst \<Rightarrow> mst" where
  "remainderf_row c fn p s =
    (let (y, s) = libcall (fn (dd_d.p_x p) (dd_d.p_x2 p)) s;
         e = except c s;
         s = (if \<not> checkexcept c e (dd_d.p_e p) (dd_d.p_r p)
           then (let s = c_printf ''%s:%d: bad fp exception: %s remainderf(%a,%a)=%a, want %s''
                      [AStr (dd_d.p_file p), AInt (dd_d.p_line p), AStr (rstr c (dd_d.p_r p)),
                       AFp (dd_d.p_x p), AFp (dd_d.p_x2 p), AFp (dd_d.p_y p),
                       AStr (estr c (dd_d.p_e p))] s;
                     s = c_printfln '' got %s'' [AStr (estr c e)] s
                 in err_inc s)
           else s);
         d = ulperrf (rm c s) y (dd_d.p_y p) (dd_d.p_dy p)
     in (if \<not> checkcr y (dd_d.p_y p) (dd_d.p_r p)
          then (let s = c_printfln ''%s:%d: %s remainderf(%a,%a) want %a got %a ulperr %.3f = %a + %a''
                     [AStr (dd_d.p_file p), AInt (dd_d.p_line p), AStr (rstr c (dd_d.p_r p)),
                      AFp (dd_d.p_x p), AFp (dd_d.p_x2 p), AFp (dd_d.p_y p), AFp y, AFp d,
                      AFp (fp_sub flt32 (rm c s) d (dd_d.p_dy p)), AFp (dd_d.p_dy p)] s
                in err_inc s)
          else s))"

definition remainderf_main ::
    "fe_cfg \<Rightarrow> (fp \<Rightarrow> fp \<Rightarrow> fp call) \<Rightarrow> ff_f list \<Rightarrow> fenv \<Rightarrow> int \<times> cout list" where
  "remainderf_main c fn t env = mtest_main c dd_d.p_r (remainderf_row c fn) t env"

definition remquof_row ::
    "fe_cfg \<Rightarrow> (fp \<Rightarrow> fp \<Rightarrow> (fp \<times> int) call) \<Rightarrow> ff_fi \<Rightarrow> mst \<Rightarrow> mst" where
  "remquof_row c fn p s =
    (let ((y, yi), s) = libcall (fn (dd_di.p_x p) (dd_di.p_x2 p)) s;
         e = except c s;
         s = (if \<not> checkexcept c e (dd_di.p_e p) (dd_di.p_r p)
           then (let s = c_printf ''%s:%d: bad fp exception: %s remquof(%a,%a)=%a,%lld, want %s''
                      [AStr (dd_di.p_file p), AInt (dd_di.p_line p), AStr (rstr c (dd_di.p_r p)),
                       AFp (dd_di.p_x p), AFp (dd_di.p_x2 p), AFp (dd_di.p_y p),
                       AInt (dd_di.p_i p), AStr (estr c (dd_di.p_e p))] s;
                     s = c_printfln '' got %s'' [AStr (estr c e)] s
                 in err_inc s)
           else s);
         d = ulperr (rm c s) (to_dbl (rm c s) y) (to_dbl (rm c s) (dd_di.p_y p)) (dd_di.p_dy p)
     in (if \<not> checkcr y (dd_di.p_y p) (dd_di.p_r p) \<or> \<not> isnan (dd_di.p_y p)
            \<and> (yi AND 7) \<noteq> (dd_di.p_i p AND 7) \<or> \<not> isnan (dd_di.p_y p)
            \<and> (yi < 0) \<noteq> (dd_di.p_i p < 0)
          then (let s = c_printfln ''%s:%d: %s remquof(%a,%a) want %a,%lld got %a,%d ulperr %.3f = %a + %a''
                     [AStr (dd_di.p_file p), AInt (dd_di.p_line p), AStr (rstr c (dd_di.p_r p)),
                      AFp (dd_di.p_x p), AFp (dd_di.p_x2 p), AFp (dd_di.p_y p),
                      AInt (dd_di.p_i p), AFp y, AInt yi, AFp d,
                      AFp (fp_sub flt32 (rm c s) d (dd_di.p_dy p)), AFp (dd_di.p_dy p)] s
                in err_inc s)
          else s))"

definition remquof_main ::
    "fe_cfg \<Rightarrow> (fp \<Rightarrow> fp \<Rightarrow> (fp \<times> int) call) \<Rightarrow> ff_fi list \<Rightarrow> fenv \<Rightarrow> int \<times> cout list" where
  "remquof_main c fn t env = mtest_main c dd_di.p_r (remquof_row c fn) t env"

definition rintf_row ::
    "fe_cfg \<Rightarrow> (fp \<Rightarrow> fp call) \<Rightarrow> f_f \<Rightarrow> mst \<Rightarrow> mst" where
  "rintf_row c fn p s =
    (let (y, s) = libcall (fn (d_d.p_x p)) s;
         e = except c s;
         s = (if \<not> checkexceptall e (d_d.p_e p) (d_d.p_r p)
           then (let s = c_printf ''%s:%d: bad fp exception: %s rintf(%a)=%a, want %s''
                      [AStr (d_d.p_file p), AInt (d_d.p_line p), AStr (rstr c (d_d.p_r p)),
                       AFp (d_d.p_x p), AFp (d_d.p_y p), AStr (estr c (d_d.p_e p))] s;
                     s = c_printfln '' got %s'' [AStr (estr c e)] s
                 in err_inc s)
           else s);
         d = ulperrf (rm c s) y (d_d.p_y p) (d_d.p_dy p)
     in (if \<not> checkcr y (d_d.p_y p) (d_d.p_r p)
          then (let s = c_printfln ''%s:%d: %s rintf(%a) want %a got %a ulperr %.3f = %a + %a''
                     [AStr (d_d.p_file p), AInt (d_d.p_line p), AStr (rstr c (d_d.p_r p)),
                      AFp (d_d.p_x p), AFp (d_d.p_y p), AFp y, AFp d,
                      AFp (fp_sub flt32 (rm c s) d (d_d.p_dy p)), AFp (d_d.p_dy p)] s
                in err_inc s)
          else s))"

definition rintf_main ::
    "fe_cfg \<Rightarrow> (fp \<Rightarrow> fp call) \<Rightarrow> f_f list \<Rightarrow> fenv \<Rightarrow> int \<times> cout list" where
  "rintf_main c fn t env = mtest_main c d_d.p_r (rintf_row c fn) t env"

definition roundf_row ::
    "fe_cfg \<Rightarrow> (fp \<Rightarrow> fp call) \<Rightarrow> f_f \<Rightarrow> mst \<Rightarrow> mst" where
  "roundf_row c fn p s =
    (let (y, s) = libcall (fn (d_d.p_x p)) s;
         e = except c s;
         s = (if \<not> checkexceptall e (d_d.p_e p) (d_d.p_r p)
              \<and> (e OR INEXACT c) \<noteq> d_d.p_e p
           then (let s = c_printf ''%s:%d: bad fp exception: %s roundf(%a)=%a, want %s''
                      [AStr (d_d.p_file p), AInt (d_d.p_line p), AStr (rstr c (d_d.p_r p)),
                       AFp (d_d.p_x p), AFp (d_d.p_y p), AStr (estr c (d_d.p_e p))] s;
                     s = c_printfln '' got %s'' [AStr (estr c e)] s
                 in err_inc s)
           else s);
         d = ulperrf (rm c s) y (d_d.p_y p) (d_d.p_dy p)
     in (if \<not> checkcr y (d_d.p_y p) (d_d.p_r p)
          then (let s = c_printfln ''%s:%d: %s roundf(%a) want %a got %a ulperr %.3f = %a + %a''
                     [AStr (d_d.p_file p), AInt (d_d.p_line p), AStr (rstr c (d_d.p_r p)),
                      AFp (d_d.p_x p), AFp (d_d.p_y p), AFp y, AFp d,
                      AFp (fp_sub flt32 (rm c s) d (d_d.p_dy p)), AFp (d_d.p_dy p)] s
                in err_inc s)
          else s))"

definition roundf_main ::
    "fe_cfg \<Rightarrow> (fp \<Rightarrow> fp call) \<Rightarrow> f_f list \<Rightarrow> fenv \<Rightarrow> int \<times> cout list" where
  "roundf_main c fn t env = mtest_main c d_d.p_r (roundf_row c fn) t env"

definition scalbf_row ::
    "fe_cfg \<Rightarrow> (fp \<Rightarrow> fp \<Rightarrow> fp call) \<Rightarrow> ff_f \<Rightarrow> mst \<Rightarrow> mst" where
  "scalbf_row c fn p s =
    (let (y, s) = libcall (fn (dd_d.p_x p) (dd_d.p_x2 p)) s;
         e = except c s;
         s = (if \<not> checkexceptall e (dd_d.p_e p) (dd_d.p_r p)
           then (let s = c_printf ''%s:%d: bad fp exception: %s scalbf(%a,%a)=%a, want %s''
                      [AStr (dd_d.p_file p), AInt (dd_d.p_line p), AStr (rstr c (dd_d.p_r p)),
                       AFp (dd_d.p_x p), AFp (dd_d.p_x2 p), AFp (dd_d.p_y p),
                       AStr (estr c (dd_d.p_e p))] s;
                     s = c_printfln '' got %s'' [AStr (estr c e)] s
                 in err_inc s)
           else s);
         d = ulperrf (rm c s) y (dd_d.p_y p) (dd_d.p_dy p)
     in (if \<not> checkcr y (dd_d.p_y p) (dd_d.p_r p)
          then (let s = c_printfln ''%s:%d: %s scalbf(%a,%a) want %a got %a ulperr %.3f = %a + %a''
                     [AStr (dd_d.p_file p), AInt (dd_d.p_line p), AStr (rstr c (dd_d.p_r p)),
                      AFp (dd_d.p_x p), AFp (dd_d.p_x2 p), AFp (dd_d.p_y p), AFp y, AFp d,
                      AFp (fp_sub flt32 (rm c s) d (dd_d.p_dy p)), AFp (dd_d.p_dy p)] s
                in err_inc s)
          else s))"

definition scalbf_main ::
    "fe_cfg \<Rightarrow> (fp \<Rightarrow> fp \<Rightarrow> fp call) \<Rightarrow> ff_f list \<Rightarrow> fenv \<Rightarrow> int \<times> cout list" where
  "scalbf_main c fn t env = mtest_main c dd_d.p_r (scalbf_row c fn) t env"

definition scalblnf_row ::
    "fe_cfg \<Rightarrow> (fp \<Rightarrow> int \<Rightarrow> fp call) \<Rightarrow> fi_f \<Rightarrow> mst \<Rightarrow> mst" where
  "scalblnf_row c fn p s =
    (let (y, s) = libcall (fn (di_d.p_x p) (di_d.p_i p)) s;
         e = except c s;
         s = (if \<not> checkexceptall e (di_d.p_e p) (di_d.p_r p)
           then (let s = c_printf ''%s:%d: bad fp exception: %s scalblnf(%a, %lld)=%a, want %s''
                      [AStr (di_d.p_file p), AInt (di_d.p_line p), AStr (rstr c (di_d.p_r p)),
                       AFp (di_d.p_x p), AInt (di_d.p_i p), AFp (di_d.p_y p),
                       AStr (estr c (di_d.p_e p))] s;
                     s = c_printfln '' got %s'' [AStr (estr c e)] s
                 in err_inc s)
           else s);
         d = ulperrf (rm c s) (to_flt (rm c s) y) (di_d.p_y p) (di_d.p_dy p)
     in (if \<not> checkcr y (di_d.p_y p) (di_d.p_r p)
          then (let s = c_printfln ''%s:%d: %s scalblnf(%a, %lld) want %a got %a, ulperr %.3f = %a + %a''
                     [AStr (di_d.p_file p), AInt (di_d.p_line p), AStr (rstr c (di_d.p_r p)),
                      AFp (di_d.p_x p), AInt (di_d.p_i p), AFp (di_d.p_y p), AFp y, AFp d,
                      AFp (fp_sub flt32 (rm c s) d (di_d.p_dy p)), AFp (di_d.p_dy p)] s
                in err_inc s)
          else s))"

definition scalblnf_main ::
    "fe_cfg \<Rightarrow> (fp \<Rightarrow> int \<Rightarrow> fp call) \<Rightarrow> fi_f list \<Rightarrow> fenv \<Rightarrow> int \<times> cout list" where
  "scalblnf_main c fn t env = mtest_main c di_d.p_r (scalblnf_row c fn) t env"

definition scalbnf_row ::
    "fe_cfg \<Rightarrow> (fp \<Rightarrow> int \<Rightarrow> fp call) \<Rightarrow> fi_f \<Rightarrow> mst \<Rightarrow> mst" where
  "scalbnf_row c fn p s =
    (let (y, s) = libcall (fn (di_d.p_x p) (c_int (di_d.p_i p))) s;
         e = except c s;
         s = (if \<not> checkexceptall e (di_d.p_e p) (di_d.p_r p)
           then (let s = c_printf ''%s:%d: bad fp exception: %s scalbnf(%a, %lld)=%a, want %s''
                      [AStr (di_d.p_file p), AInt (di_d.p_line p), AStr (rstr c (di_d.p_r p)),
                       AFp (di_d.p_x p), AInt (di_d.p_i p), AFp (di_d.p_y p),
                       AStr (estr c (di_d.p_e p))] s;
                     s = c_printfln '' got %s'' [AStr (estr c e)] s
                 in err_inc s)
           else s);
         d = ulperrf (rm c s) (to_flt (rm c s) y) (di_d.p_y p) (di_d.p_dy p)
     in (if \<not> checkcr y (di_d.p_y p) (di_d.p_r p)
          then (let s = c_printfln ''%s:%d: %s scalbnf(%a, %lld) want %a got %a, ulperr %.3f = %a + %a''
                     [AStr (di_d.p_file p), AInt (di_d.p_line p), AStr (rstr c (di_d.p_r p)),
                      AFp (di_d.p_x p), AInt (di_d.p_i p), AFp (di_d.p_y p), AFp y, AFp d,
                      AFp (fp_sub flt32 (rm c s) d (di_d.p_dy p)), AFp (di_d.p_dy p)] s
                in err_inc s)
          else s))"

definition scalbnf_main ::
    "fe_cfg \<Rightarrow> (fp \<Rightarrow> int \<Rightarrow> fp call) \<Rightarrow> fi_f list \<Rightarrow> fenv \<Rightarrow> int \<times> cout list" where
  "scalbnf_main c fn t env = mtest_main c di_d.p_r (scalbnf_row c fn) t env"

definition sincosf_row ::
    "fe_cfg \<Rightarrow> (fp \<Rightarrow> (fp \<times> fp) call) \<Rightarrow> f_ff \<Rightarrow> mst \<Rightarrow> mst" where
  "sincosf_row c fn p s =
    (let ((ysin, ycos), s) = libcall (fn (d_dd.p_x p)) s;
         e = except c s;
         s = (if \<not> checkexcept c e (d_dd.p_e p) (d_dd.p_r p)
           then (let s = c_printf ''%s:%d: bad fp exception: %s sincosf(%a)=%a,%a, want %s''
                      [AStr (d_dd.p_file p), AInt (d_dd.p_line p), AStr (rstr c (d_dd.p_r p)),
                       AFp (d_dd.p_x p), AFp (d_dd.p_y p), AFp (d_dd.p_y2 p),
                       AStr (estr c (d_dd.p_e p))] s;
                     s = c_printfln '' got %s'' [AStr (estr c e)] s
                 in err_inc s)
           else s);
         dsin = ulperrf (rm c s) ysin (d_dd.p_y p) (d_dd.p_dy p);
         dcos = ulperrf (rm c s) ycos (d_dd.p_y2 p) (d_dd.p_dy2 p)
     in (if \<not> checkulp c dsin (d_dd.p_r p) \<or> \<not> checkulp c dcos (d_dd.p_r p)
          then (let s = c_printfln ''%s:%d: %s sincosf(%a) want %a,%a got %a,%a, ulperr %.3f = %a + %a, %.3f = %a + %a''
                     [AStr (d_dd.p_file p), AInt (d_dd.p_line p), AStr (rstr c (d_dd.p_r p)),
                      AFp (d_dd.p_x p), AFp (d_dd.p_y p), AFp (d_dd.p_y2 p), AFp ysin, AFp ycos,
                      AFp dsin, AFp (fp_sub flt32 (rm c s) dsin (d_dd.p_dy p)), AFp (d_dd.p_dy p),
                      AFp dcos, AFp (fp_sub flt32 (rm c s) dcos (d_dd.p_dy2 p)),
                      AFp (d_dd.p_dy2 p)] s
                in err_inc s)
          else s))"

definition sincosf_main ::
    "fe_cfg \<Rightarrow> (fp \<Rightarrow> (fp \<times> fp) call) \<Rightarrow> f_ff list \<Rightarrow> fenv \<Rightarrow> int \<times> cout list" where
  "sincosf_main c fn t env = mtest_main c d_dd.p_r (sincosf_row c fn) t env"

definition sinf_row ::
    "fe_cfg \<Rightarrow> (fp \<Rightarrow> fp call) \<Rightarrow> f_f \<Rightarrow> mst \<Rightarrow> mst" where
  "sinf_row c fn p s =
    (let (y, s) = libcall (fn (d_d.p_x p)) s;
         e = except c s;
         s = (if \<not> checkexcept c e (d_d.p_e p) (d_d.p_r p)
           then (let s = c_printf ''%s:%d: bad fp exception: %s sinf(%a)=%a, want %s''
                      [AStr (d_d.p_file p), AInt (d_d.p_line p), AStr (rstr c (d_d.p_r p)),
                       AFp (d_d.p_x p), AFp (d_d.p_y p), AStr (estr c (d_d.p_e p))] s;
                     s = c_printfln '' got %s'' [AStr (estr c e)] s
                 in err_inc s)
           else s);
         d = ulperrf (rm c s) y (d_d.p_y p) (d_d.p_dy p)
     in (if \<not> checkulp c d (d_d.p_r p)
          then (let s = c_printfln ''%s:%d: %s sinf(%a) want %a got %a ulperr %.3f = %a + %a''
                     [AStr (d_d.p_file p), AInt (d_d.p_line p), AStr (rstr c (d_d.p_r p)),
                      AFp (d_d.p_x p), AFp (d_d.p_y p), AFp y, AFp d,
                      AFp (fp_sub flt32 (rm c s) d (d_d.p_dy p)), AFp (d_d.p_dy p)] s
                in err_inc s)
          else s))"

definition sinf_main ::
    "fe_cfg \<Rightarrow> (fp \<Rightarrow> fp call) \<Rightarrow> f_f list \<Rightarrow> fenv \<Rightarrow> int \<times> cout list" where
  "sinf_main c fn t env = mtest_main c d_d.p_r (sinf_row c fn) t env"

definition sinhf_row ::
    "fe_cfg \<Rightarrow> (fp \<Rightarrow> fp call) \<Rightarrow> f_f \<Rightarrow> mst \<Rightarrow> mst" where
  "sinhf_row c fn p s =
    (let (y, s) = libcall (fn (d_d.p_x p)) s;
         e = except c s;
         s = (if \<not> checkexcept c e (d_d.p_e p) (d_d.p_r p)
           then (let s = c_printf ''%s:%d: bad fp exception: %s sinhf(%a)=%a, want %s''
                      [AStr (d_d.p_file p), AInt (d_d.p_line p), AStr (rstr c (d_d.p_r p)),
                       AFp (d_d.p_x p), AFp (d_d.p_y p), AStr (estr c (d_d.p_e p))] s;
                     s = c_printfln '' got %s'' [AStr (estr c e)] s
                 in err_inc s)
           else s);
         d = ulperrf (rm c s) y (d_d.p_y p) (d_d.p_dy p)
     in (if \<not> checkulp c d (d_d.p_r p)
          then (let s = (if d_d.p_r p \<noteq> RN c
                    then c_printf ''X '' [] s
                    else err_inc s)
                in c_printfln ''%s:%d: %s sinhf(%a) want %a got %a ulperr %.3f = %a + %a''
                     [AStr (d_d.p_file p), AInt (d_d.p_line p), AStr (rstr c (d_d.p_r p)),
                      AFp (d_d.p_x p), AFp (d_d.p_y p), AFp y, AFp d,
                      AFp (fp_sub flt32 (rm c s) d (d_d.p_dy p)), AFp (d_d.p_dy p)] s)
          else s))"

definition sinhf_main ::
    "fe_cfg \<Rightarrow> (fp \<Rightarrow> fp call) \<Rightarrow> f_f list \<Rightarrow> fenv \<Rightarrow> int \<times> cout list" where
  "sinhf_main c fn t env = mtest_main c d_d.p_r (sinhf_row c fn) t env"

definition sqrtf_row ::
    "fe_cfg \<Rightarrow> (fp \<Rightarrow> fp call) \<Rightarrow> f_f \<Rightarrow> mst \<Rightarrow> mst" where
  "sqrtf_row c fn p s =
    (let (y, s) = libcall (fn (d_d.p_x p)) s;
         e = except c s;
         s = (if \<not> checkexceptall e (d_d.p_e p) (d_d.p_r p)
           then (let s = c_printf ''%s:%d: bad fp exception: %s sqrtf(%a)=%a, want %s''
                      [AStr (d_d.p_file p), AInt (d_d.p_line p), AStr (rstr c (d_d.p_r p)),
                       AFp (d_d.p_x p), AFp (d_d.p_y p), AStr (estr c (d_d.p_e p))] s;
                     s = c_printfln '' got %s'' [AStr (estr c e)] s
                 in err_inc s)
           else s);
         d = ulperrf (rm c s) y (d_d.p_y p) (d_d.p_dy p)
     in (if \<not> checkcr y (d_d.p_y p) (d_d.p_r p)
          then (let s = c_printfln ''%s:%d: %s sqrtf(%a) want %a got %a ulperr %.3f = %a + %a''
                     [AStr (d_d.p_file p), AInt (d_d.p_line p), AStr (rstr c (d_d.p_r p)),
                      AFp (d_d.p_x p), AFp (d_d.p_y p), AFp y, AFp d,
                      AFp (fp_sub flt32 (rm c s) d (d_d.p_dy p)), AFp (d_d.p_dy p)] s
                in err_inc s)
          else s))"

definition sqrtf_main ::
    "fe_cfg \<Rightarrow> (fp \<Rightarrow> fp call) \<Rightarrow> f_f list \<Rightarrow> fenv \<Rightarrow> int \<times> cout list" where
  "sqrtf_main c fn t env = mtest_main c d_d.p_r (sqrtf_row c fn) t env"

definition tanf_row ::
    "fe_cfg \<Rightarrow> (fp \<Rightarrow> fp call) \<Rightarrow> f_f \<Rightarrow> mst \<Rightarrow> mst" where
  "tanf_row c fn p s =
    (let (y, s) = libcall (fn (d_d.p_x p)) s;
         e = except c s;
         s = (if \<not> checkexcept c e (d_d.p_e p) (d_d.p_r p)
           then (let s = c_printf ''%s:%d: bad fp exception: %s tanf(%a)=%a, want %s''
                      [AStr (d_d.p_file p), AInt (d_d.p_line p), AStr (rstr c (d_d.p_r p)),
                       AFp (d_d.p_x p), AFp (d_d.p_y p), AStr (estr c (d_d.p_e p))] s;
                     s = c_printfln '' got %s'' [AStr (estr c e)] s
                 in err_inc s)
           else s);
         d = ulperrf (rm c s) y (d_d.p_y p) (d_d.p_dy p)
     in (if \<not> checkulp c d (d_d.p_r p)
          then (let s = c_printfln ''%s:%d: %s tanf(%a) want %a got %a ulperr %.3f = %a + %a''
                     [AStr (d_d.p_file p), AInt (d_d.p_line p), AStr (rstr c (d_d.p_r p)),
                      AFp (d_d.p_x p), AFp (d_d.p_y p), AFp y, AFp d,
                      AFp (fp_sub flt32 (rm c s) d (d_d.p_dy p)), AFp (d_d.p_dy p)] s
                in err_inc s)
          else s))"

definition tanf_main ::
    "fe_cfg \<Rightarrow> (fp \<Rightarrow> fp call) \<Rightarrow> f_f list \<Rightarrow> fenv \<Rightarrow> int \<times> cout list" where
  "tanf_main c fn t env = mtest_main c d_d.p_r (tanf_row c fn) t env"

definition tanhf_row ::
    "fe_cfg \<Rightarrow> (fp \<Rightarrow> fp call) \<Rightarrow> f_f \<Rightarrow> mst \<Rightarrow> mst" where
  "tanhf_row c fn p s =
    (let (y, s) = libcall (fn (d_d.p_x p)) s;
         e = except c s;
         s = (if \<not> checkexcept c e (d_d.p_e p) (d_d.p_r p)
           then (let s = c_printf ''%s:%d: bad fp exception: %s tanhf(%a)=%a, want %s''
                      [AStr (d_d.p_file p), AInt (d_d.p_line p), AStr (rstr c (d_d.p_r p)),
                       AFp (d_d.p_x p), AFp (d_d.p_y p), AStr (estr c (d_d.p_e p))] s;
                     s = c_printfln '' got %s'' [AStr (estr c e)] s
                 in err_inc s)
           else s);
         d = ulperrf (rm c s) y (d_d.p_y p) (d_d.p_dy p)
     in (if \<not> checkulp c d (d_d.p_r p)
          then (let s = c_printfln ''%s:%d: %s tanhf(%a) want %a got %a ulperr %.3f = %a + %a''
                     [AStr (d_d.p_file p), AInt (d_d.p_line p), AStr (rstr c (d_d.p_r p)),
                      AFp (d_d.p_x p), AFp (d_d.p_y p), AFp y, AFp d,
                      AFp (fp_sub flt32 (rm c s) d (d_d.p_dy p)), AFp (d_d.p_dy p)] s
                in err_inc s)
          else s))"

definition tanhf_main ::
    "fe_cfg \<Rightarrow> (fp \<Rightarrow> fp call) \<Rightarrow> f_f list \<Rightarrow> fenv \<Rightarrow> int \<times> cout list" where
  "tanhf_main c fn t env = mtest_main c d_d.p_r (tanhf_row c fn) t env"

definition tgammaf_row ::
    "fe_cfg \<Rightarrow> (fp \<Rightarrow> fp call) \<Rightarrow> f_f \<Rightarrow> mst \<Rightarrow> mst" where
  "tgammaf_row c fn p s =
    (let (y, s) = libcall (fn (d_d.p_x p)) s;
         e = except c s;
         s = (if \<not> checkexcept c e (d_d.p_e p) (d_d.p_r p)
           then (let s = c_printf ''%s:%d: bad fp exception: %s tgammaf(%a)=%a, want %s''
                      [AStr (d_d.p_file p), AInt (d_d.p_line p), AStr (rstr c (d_d.p_r p)),
                       AFp (d_d.p_x p), AFp (d_d.p_y p), AStr (estr c (d_d.p_e p))] s;
                     s = c_printfln '' got %s'' [AStr (estr c e)] s
                 in err_inc s)
           else s);
         d = ulperrf (rm c s) y (d_d.p_y p) (d_d.p_dy p)
     in (if \<not> checkulp c d (d_d.p_r p)
          then (let s = c_printfln ''%s:%d: %s tgammaf(%a) want %a got %a ulperr %.3f = %a + %a''
                     [AStr (d_d.p_file p), AInt (d_d.p_line p), AStr (rstr c (d_d.p_r p)),
                      AFp (d_d.p_x p), AFp (d_d.p_y p), AFp y, AFp d,
                      AFp (fp_sub flt32 (rm c s) d (d_d.p_dy p)), AFp (d_d.p_dy p)] s
                in err_inc s)
          else s))"

definition tgammaf_main ::
    "fe_cfg \<Rightarrow> (fp \<Rightarrow> fp call) \<Rightarrow> f_f list \<Rightarrow> fenv \<Rightarrow> int \<times> cout list" where
  "tgammaf_main c fn t env = mtest_main c d_d.p_r (tgammaf_row c fn) t env"

definition truncf_row ::
    "fe_cfg \<Rightarrow> (fp \<Rightarrow> fp call) \<Rightarrow> f_f \<Rightarrow> mst \<Rightarrow> mst" where
  "truncf_row c fn p s =
    (let (y, s) = libcall (fn (d_d.p_x p)) s;
         e = except c s;
         s = (if \<not> checkexceptall e (d_d.p_e p) (d_d.p_r p)
              \<and> (e OR INEXACT c) \<noteq> d_d.p_e p
           then (let s = c_printf ''%s:%d: bad fp exception: %s truncf(%a)=%a, want %s''
                      [AStr (d_d.p_file p), AInt (d_d.p_line p), AStr (rstr c (d_d.p_r p)),
                       AFp (d_d.p_x p), AFp (d_d.p_y p), AStr (estr c (d_d.p_e p))] s;
                     s = c_printfln '' got %s'' [AStr (estr c e)] s
                 in err_inc s)
           else s);
         d = ulperrf (rm c s) y (d_d.p_y p) (d_d.p_dy p)
     in (if \<not> checkcr y (d_d.p_y p) (d_d.p_r p)
          then (let s = c_printfln ''%s:%d: %s truncf(%a) want %a got %a ulperr %.3f = %a + %a''
                     [AStr (d_d.p_file p), AInt (d_d.p_line p), AStr (rstr c (d_d.p_r p)),
                      AFp (d_d.p_x p), AFp (d_d.p_y p), AFp y, AFp d,
                      AFp (fp_sub flt32 (rm c s) d (d_d.p_dy p)), AFp (d_d.p_dy p)] s
                in err_inc s)
          else s))"

definition truncf_main ::
    "fe_cfg \<Rightarrow> (fp \<Rightarrow> fp call) \<Rightarrow> f_f list \<Rightarrow> fenv \<Rightarrow> int \<times> cout list" where
  "truncf_main c fn t env = mtest_main c d_d.p_r (truncf_row c fn) t env"

definition y0f_row ::
    "fe_cfg \<Rightarrow> (fp \<Rightarrow> fp call) \<Rightarrow> f_f \<Rightarrow> mst \<Rightarrow> mst" where
  "y0f_row c fn p s =
    (let (y, s) = libcall (fn (d_d.p_x p)) s;
         e = except c s;
         s = (if \<not> checkexcept c e (d_d.p_e p) (d_d.p_r p)
           then (let s = c_printf ''%s:%d: bad fp exception: %s y0f(%a)=%a, want %s''
                      [AStr (d_d.p_file p), AInt (d_d.p_line p), AStr (rstr c (d_d.p_r p)),
                       AFp (d_d.p_x p), AFp (d_d.p_y p), AStr (estr c (d_d.p_e p))] s;
                     s = c_printfln '' got %s'' [AStr (estr c e)] s
                 in err_inc s)
           else s);
         d = ulperrf (rm c s) y (d_d.p_y p) (d_d.p_dy p);
         bad = (fp_lt (d_d.p_x p) (Fin False 0 0) \<and> \<not> isnan y
                \<and> \<not> fp_eq y (Inf True))
     in (if bad \<or> \<not> fp_lt (d_d.p_x p) (Fin False 0 0)
            \<and> \<not> checkulp c d (d_d.p_r p)
          then (let s = (if \<not> bad \<and> fp_lt (fabs d) (Fin False 1 23)
                    then c_printf ''X '' [] s
                    else err_inc s)
                in c_printfln ''%s:%d: %s y0f(%a) want %a got %a ulperr %.3f = %a + %a''
                     [AStr (d_d.p_file p), AInt (d_d.p_line p), AStr (rstr c (d_d.p_r p)),
                      AFp (d_d.p_x p), AFp (d_d.p_y p), AFp y, AFp d,
                      AFp (fp_sub flt32 (rm c s) d (d_d.p_dy p)), AFp (d_d.p_dy p)] s)
          else s))"

definition y0f_main ::
    "fe_cfg \<Rightarrow> (fp \<Rightarrow> fp call) \<Rightarrow> f_f list \<Rightarrow> fenv \<Rightarrow> int \<times> cout list" where
  "y0f_main c fn t env = mtest_main c d_d.p_r (y0f_row c fn) t env"

definition y1f_row ::
    "fe_cfg \<Rightarrow> (fp \<Rightarrow> fp call) \<Rightarrow> f_f \<Rightarrow> mst \<Rightarrow> mst" where
  "y1f_row c fn p s =
    (let (y, s) = libcall (fn (d_d.p_x p)) s;
         e = except c s;
         s = (if \<not> checkexcept c e (d_d.p_e p) (d_d.p_r p)
           then (let s = c_printf ''%s:%d: bad fp exception: %s y1f(%a)=%a, want %s''
                      [AStr (d_d.p_file p), AInt (d_d.p_line p), AStr (rstr c (d_d.p_r p)),
                       AFp (d_d.p_x p), AFp (d_d.p_y p), AStr (estr c (d_d.p_e p))] s;
                     s = c_printfln '' got %s'' [AStr (estr c e)] s
                 in err_inc s)
           else s);
         d = ulperrf (rm c s) y (d_d.p_y p) (d_d.p_dy p)
     in (if \<not> fp_lt (d_d.p_x p) (Fin False 0 0) \<and> \<not> checkulp c d (d_d.p_r p)
            \<or> fp_lt (d_d.p_x p) (Fin False 0 0) \<and> \<not> isnan y
            \<and> \<not> fp_eq y (Inf True)
          then (let s = c_printfln ''%s:%d: %s y1f(%a) want %a got %a ulperr %.3f = %a + %a''
                     [AStr (d_d.p_file p), AInt (d_d.p_line p), AStr (rstr c (d_d.p_r p)),
                      AFp (d_d.p_x p), AFp (d_d.p_y p), AFp y, AFp d,
                      AFp (fp_sub flt32 (rm c s) d (d_d.p_dy p)), AFp (d_d.p_dy p)] s
                in err_inc s)
          else s))"

definition y1f_main ::
    "fe_cfg \<Rightarrow> (fp \<Rightarrow> fp call) \<Rightarrow> f_f list \<Rightarrow> fenv \<Rightarrow> int \<times> cout list" where
  "y1f_main c fn t env = mtest_main c d_d.p_r (y1f_row c fn) t env"

definition ynf_row ::
    "fe_cfg \<Rightarrow> (int \<Rightarrow> fp \<Rightarrow> fp call) \<Rightarrow> fi_f \<Rightarrow> mst \<Rightarrow> mst" where
  "ynf_row c fn p s =
    (let (y, s) = libcall (fn (c_int (di_d.p_i p)) (di_d.p_x p)) s;
         e = except c s;
         s = (if \<not> checkexcept c e (di_d.p_e p) (di_d.p_r p)
           then (let s = c_printf ''%s:%d: bad fp exception: %s ynf(%lld, %a)=%a, want %s''
                      [AStr (di_d.p_file p), AInt (di_d.p_line p), AStr (rstr c (di_d.p_r p)),
                       AInt (di_d.p_i p), AFp (di_d.p_x p), AFp (di_d.p_y p),
                       AStr (estr c (di_d.p_e p))] s;
                     s = c_printfln '' got %s'' [AStr (estr c e)] s
                 in err_inc s)
           else s);
         d = ulperrf (rm c s) (to_flt (rm c s) y) (di_d.p_y p) (di_d.p_dy p);
         bad = (fp_lt (di_d.p_x p) (Fin False 0 0) \<and> \<not> isnan y
                \<and> \<not> fp_eq y (Inf True))
     in (if bad \<or> \<not> fp_lt (di_d.p_x p) (Fin False 0 0)
            \<and> \<not> checkulp c d (di_d.p_r p)
          then (let s = (if \<not> bad \<and> fp_lt (fabs d) (Fin False 5 (-1))
                    then c_printf ''X '' [] s
                    else err_inc s)
                in c_printfln ''%s:%d: %s ynf(%lld, %a) want %a got %a, ulperr %.3f = %a + %a''
                     [AStr (di_d.p_file p), AInt (di_d.p_line p), AStr (rstr c (di_d.p_r p)),
                      AInt (di_d.p_i p), AFp (di_d.p_x p), AFp (di_d.p_y p), AFp y, AFp d,
                      AFp (fp_sub flt32 (rm c s) d (di_d.p_dy p)), AFp (di_d.p_dy p)] s)
          else s))"

definition ynf_main ::
    "fe_cfg \<Rightarrow> (int \<Rightarrow> fp \<Rightarrow> fp call) \<Rightarrow> fi_f list \<Rightarrow> fenv \<Rightarrow> int \<times> cout list" where
  "ynf_main c fn t env = mtest_main c di_d.p_r (ynf_row c fn) t env"

section \<open>Contracts\<close>

interpretation acosf_test: row_test "acosf_row c fn" "ulp_fails ulperrf c fn" for c fn
  by unfold_locales
    (simp_all add: acosf_row_def fails_defs row_simps cong: printf_cong)

interpretation acoshf_test: row_test "acoshf_row c fn" "ulp_fails ulperrf c fn" for c fn
  by unfold_locales
    (simp_all add: acoshf_row_def fails_defs row_simps cong: printf_cong)

interpretation asinf_test: row_test "asinf_row c fn" "ulp_fails ulperrf c fn" for c fn
  by unfold_locales
    (simp_all add: asinf_row_def fails_defs row_simps cong: printf_cong)

interpretation asinhf_test: row_test "asinhf_row c fn" "ulp_fails ulperrf c fn" for c fn
  by unfold_locales
    (simp_all add: asinhf_row_def fails_defs row_simps cong: printf_cong)

interpretation atan2f_test: row_test "atan2f_row c fn" "row_fails (atan2f_row c fn)" for c fn
  by (rule row_testI, unfold atan2f_row_def)
    ((rule in_step_rules | assumption | (rule in_step_let_value, (simp only: in_step_values)?))+, simp)

interpretation atanf_test: row_test "atanf_row c fn" "ulp_fails ulperrf c fn" for c fn
  by unfold_locales
    (simp_all add: atanf_row_def fails_defs row_simps cong: printf_cong)

interpretation atanhf_test: row_test "atanhf_row c fn" "ulp_fails ulperrf c fn" for c fn
  by unfold_locales
    (simp_all add: atanhf_row_def fails_defs row_simps cong: printf_cong)

interpretation cbrtf_test: row_test "cbrtf_row c fn" "ulp_fails ulperrf c fn" for c fn
  by unfold_locales
    (simp_all add: cbrtf_row_def fails_defs row_simps cong: printf_cong)

interpretation ceilf_test: row_test "ceilf_row c fn" "exact_fails (exc_inexact c checkexceptall) c fn" for c fn
  by unfold_locales
    (simp_all add: ceilf_row_def fails_defs row_simps cong: printf_cong)

interpretation copysignf_test: row_test "copysignf_row c fn" "exact2_fails checkexceptall c fn" for c fn
  by unfold_locales
    (simp_all add: copysignf_row_def fails_defs row_simps cong: printf_cong)

interpretation cosf_test: row_test "cosf_row c fn" "ulp_fails ulperrf c fn" for c fn
  by unfold_locales
    (simp_all add: cosf_row_def fails_defs row_simps cong: printf_cong)

interpretation coshf_test: row_test "coshf_row c fn" "ulp_fails ulperrf c fn" for c fn
  by unfold_locales
    (simp_all add: coshf_row_def fails_defs row_simps cong: printf_cong)

interpretation dremf_test: row_test "dremf_row c fn" "exact2_fails (checkexcept c) c fn" for c fn
  by unfold_locales
    (simp_all add: dremf_row_def fails_defs row_simps cong: printf_cong)

interpretation erfcf_test: row_test "erfcf_row c fn" "ulp_fails ulperrf c fn" for c fn
  by unfold_locales
    (simp_all add: erfcf_row_def fails_defs row_simps cong: printf_cong)

interpretation erff_test: row_test "erff_row c fn" "ulp_fails ulperrf c fn" for c fn
  by unfold_locales
    (simp_all add: erff_row_def fails_defs row_simps cong: printf_cong)

interpretation exp10f_test: row_test "exp10f_row c fn" "ulp_fails ulperrf c fn" for c fn
  by unfold_locales
    (simp_all add: exp10f_row_def fails_defs row_simps cong: printf_cong)

interpretation exp2f_test: row_test "exp2f_row c fn" "ulp_fails ulperrf c fn" for c fn
  by unfold_locales
    (simp_all add: exp2f_row_def fails_defs row_simps cong: printf_cong)

interpretation expf_test: row_test "expf_row c fn" "ulp_fails ulperrf c fn" for c fn
  by unfold_locales
    (simp_all add: expf_row_def fails_defs row_simps cong: printf_cong)

interpretation expm1f_test: row_test "expm1f_row c fn" "ulp_fails ulperrf c fn" for c fn
  by unfold_locales
    (simp_all add: expm1f_row_def fails_defs row_simps cong: printf_cong)

interpretation fabsf_test: row_test "fabsf_row c fn" "exact_fails checkexceptall c fn" for c fn
  by unfold_locales
    (simp_all add: fabsf_row_def fails_defs row_simps cong: printf_cong)

interpretation fdimf_test: row_test "fdimf_row c fn" "exact2_fails checkexceptall c fn" for c fn
  by unfold_locales
    (simp_all add: fdimf_row_def fails_defs row_simps cong: printf_cong)

interpretation floorf_test: row_test "floorf_row c fn" "exact_fails (exc_inexact c checkexceptall) c fn" for c fn
  by unfold_locales
    (simp_all add: floorf_row_def fails_defs row_simps cong: printf_cong)

interpretation fmaf_test: row_test "fmaf_row c fn" "row_fails (fmaf_row c fn)" for c fn
  by (rule row_testI, unfold fmaf_row_def)
    ((rule in_step_rules | assumption | (rule in_step_let_value, (simp only: in_step_values)?))+, simp)

interpretation fmaxf_test: row_test "fmaxf_row c fn" "exact2_fails checkexceptall c fn" for c fn
  by unfold_locales
    (simp_all add: fmaxf_row_def fails_defs row_simps cong: printf_cong)

interpretation fminf_test: row_test "fminf_row c fn" "exact2_fails checkexceptall c fn" for c fn
  by unfold_locales
    (simp_all add: fminf_row_def fails_defs row_simps cong: printf_cong)

interpretation fmodf_test: row_test "fmodf_row c fn" "exact2_fails (checkexcept c) c fn" for c fn
  by unfold_locales
    (simp_all add: fmodf_row_def fails_defs row_simps cong: printf_cong)

interpretation frexpf_test: row_test "frexpf_row c fn" "row_fails (frexpf_row c fn)" for c fn
  by (rule row_testI, unfold frexpf_row_def)
    ((rule in_step_rules | assumption | (rule in_step_let_value, (simp only: in_step_values)?))+, simp)

interpretation hypotf_test: row_test "hypotf_row c fn" "row_fails (hypotf_row c fn)" for c fn
  by (rule row_testI, unfold hypotf_row_def)
    ((rule in_step_rules | assumption | (rule in_step_let_value, (simp only: in_step_values)?))+, simp)

interpretation ilogbf_test: row_test "ilogbf_row c fn" "row_fails (ilogbf_row c fn)" for c fn
  by (rule row_testI, unfold ilogbf_row_def)
    ((rule in_step_rules | assumption | (rule in_step_let_value, (simp only: in_step_values)?))+, simp)

interpretation j0f_test: row_test "j0f_row c fn" "row_fails (j0f_row c fn)" for c fn
  by (rule row_testI, unfold j0f_row_def)
    ((rule in_step_rules | assumption | (rule in_step_let_value, (simp only: in_step_values)?))+, simp)

interpretation j1f_test: row_test "j1f_row c fn" "ulp_fails ulperrf c fn" for c fn
  by unfold_locales
    (simp_all add: j1f_row_def fails_defs row_simps cong: printf_cong)

interpretation jnf_test: row_test "jnf_row c fn" "row_fails (jnf_row c fn)" for c fn
  by (rule row_testI, unfold jnf_row_def)
    ((rule in_step_rules | assumption | (rule in_step_let_value, (simp only: in_step_values)?))+, simp)

interpretation ldexpf_test: row_test "ldexpf_row c fn" "row_fails (ldexpf_row c fn)" for c fn
  by (rule row_testI, unfold ldexpf_row_def)
    ((rule in_step_rules | assumption | (rule in_step_let_value, (simp only: in_step_values)?))+, simp)

interpretation lgammaf_test: row_test "lgammaf_row c fn" "row_fails (lgammaf_row c fn)" for c fn
  by (rule row_testI, unfold lgammaf_row_def)
    ((rule in_step_rules | assumption | (rule in_step_let_value, (simp only: in_step_values)?))+, simp)

interpretation lgammaf_r_test: row_test "lgammaf_r_row c fn" "row_fails (lgammaf_r_row c fn)" for c fn
  by (rule row_testI, unfold lgammaf_r_row_def)
    ((rule in_step_rules | assumption | (rule in_step_let_value, (simp only: in_step_values)?))+, simp)

interpretation llrintf_test: row_test "llrintf_row c fn" "int_fails (checkexcept c) c fn" for c fn
  by unfold_locales
    (simp_all add: llrintf_row_def fails_defs row_simps cong: printf_cong)

interpretation llroundf_test: row_test "llroundf_row c fn" "int_fails (exc_inexact c (checkexcept c)) c fn" for c fn
  by unfold_locales
    (simp_all add: llroundf_row_def fails_defs row_simps cong: printf_cong)

interpretation log10f_test: row_test "log10f_row c fn" "ulp_fails ulperrf c fn" for c fn
  by unfold_locales
    (simp_all add: log10f_row_def fails_defs row_simps cong: printf_cong)

interpretation log1pf_test: row_test "log1pf_row c fn" "ulp_fails ulperrf c fn" for c fn
  by unfold_locales
    (simp_all add: log1pf_row_def fails_defs row_simps cong: printf_cong)

interpretation log2f_test: row_test "log2f_row c fn" "ulp_fails ulperrf c fn" for c fn
  by unfold_locales
    (simp_all add: log2f_row_def fails_defs row_simps cong: printf_cong)

interpretation logbf_test: row_test "logbf_row c fn" "exact_fails checkexceptall c fn" for c fn
  by unfold_locales
    (simp_all add: logbf_row_def fails_defs row_simps cong: printf_cong)

interpretation logf_test: row_test "logf_row c fn" "ulp_fails ulperrf c fn" for c fn
  by unfold_locales
    (simp_all add: logf_row_def fails_defs row_simps cong: printf_cong)

interpretation lrintf_test: row_test "lrintf_row c fn" "int_fails (checkexcept c) c fn" for c fn
  by unfold_locales
    (simp_all add: lrintf_row_def fails_defs row_simps cong: printf_cong)

interpretation lroundf_test: row_test "lroundf_row c fn" "int_fails (exc_inexact c (checkexcept c)) c fn" for c fn
  by unfold_locales
    (simp_all add: lroundf_row_def fails_defs row_simps cong: printf_cong)

interpretation modff_test: row_test "modff_row c fn" "row_fails (modff_row c fn)" for c fn
  by (rule row_testI, unfold modff_row_def)
    ((rule in_step_rules | assumption | (rule in_step_let_value, (simp only: in_step_values)?))+, simp)

interpretation nearbyintf_test: row_test "nearbyintf_row c fn" "exact_fails checkexceptall c fn" for c fn
  by unfold_locales
    (simp_all add: nearbyintf_row_def fails_defs row_simps cong: printf_cong)

interpretation nextafterf_test: row_test "nextafterf_row c fn" "exact2_fails checkexceptall c fn" for c fn
  by unfold_locales
    (simp_all add: nextafterf_row_def fails_defs row_simps cong: printf_cong)

interpretation pow10f_test: row_test "pow10f_row c fn" "ulp_fails ulperrf c fn" for c fn
  by unfold_locales
    (simp_all add: pow10f_row_def fails_defs row_simps cong: printf_cong)

interpretation powf_test: row_test "powf_row c fn" "row_fails (powf_row c fn)" for c fn
  by (rule row_testI, unfold powf_row_def)
    ((rule in_step_rules | assumption | (rule in_step_let_value, (simp only: in_step_values)?))+, simp)

interpretation remainderf_test: row_test "remainderf_row c fn" "exact2_fails (checkexcept c) c fn" for c fn
  by unfold_locales
    (simp_all add: remainderf_row_def fails_defs row_simps cong: printf_cong)

interpretation remquof_test: row_test "remquof_row c fn" "row_fails (remquof_row c fn)" for c fn
  by (rule row_testI, unfold remquof_row_def)
    ((rule in_step_rules | assumption | (rule in_step_let_value, (simp only: in_step_values)?))+, simp)

interpretation rintf_test: row_test "rintf_row c fn" "exact_fails checkexceptall c fn" for c fn
  by unfold_locales
    (simp_all add: rintf_row_def fails_defs row_simps cong: printf_cong)

interpretation roundf_test: row_test "roundf_row c fn" "exact_fails (exc_inexact c checkexceptall) c fn" for c fn
  by unfold_locales
    (simp_all add: roundf_row_def fails_defs row_simps cong: printf_cong)

interpretation scalbf_test: row_test "scalbf_row c fn" "exact2_fails checkexceptall c fn" for c fn
  by unfold_locales
    (simp_all add: scalbf_row_def fails_defs row_simps cong: printf_cong)

interpretation scalblnf_test: row_test "scalblnf_row c fn" "row_fails (scalblnf_row c fn)" for c fn
  by (rule row_testI, unfold scalblnf_row_def)
    ((rule in_step_rules | assumption | (rule in_step_let_value, (simp only: in_step_values)?))+, simp)

interpretation scalbnf_test: row_test "scalbnf_row c fn" "row_fails (scalbnf_row c fn)" for c fn
  by (rule row_testI, unfold scalbnf_row_def)
    ((rule in_step_rules | assumption | (rule in_step_let_value, (simp only: in_step_values)?))+, simp)

interpretation sincosf_test: row_test "sincosf_row c fn" "row_fails (sincosf_row c fn)" for c fn
  by (rule row_testI, unfold sincosf_row_def)
    ((rule in_step_rules | assumption | (rule in_step_let_value, (simp only: in_step_values)?))+, simp)

interpretation sinf_test: row_test "sinf_row c fn" "ulp_fails ulperrf c fn" for c fn
  by unfold_locales
    (simp_all add: sinf_row_def fails_defs row_simps cong: printf_cong)

interpretation sinhf_test: row_test "sinhf_row c fn" "row_fails (sinhf_row c fn)" for c fn
  by (rule row_testI, unfold sinhf_row_def)
    ((rule in_step_rules | assumption | (rule in_step_let_value, (simp only: in_step_values)?))+, simp)

interpretation sqrtf_test: row_test "sqrtf_row c fn" "exact_fails checkexceptall c fn" for c fn
  by unfold_locales
    (simp_all add: sqrtf_row_def fails_defs row_simps cong: printf_cong)

interpretation tanf_test: row_test "tanf_row c fn" "ulp_fails ulperrf c fn" for c fn
  by unfold_locales
    (simp_all add: tanf_row_def fails_defs row_simps cong: printf_cong)

interpretation tanhf_test: row_test "tanhf_row c fn" "ulp_fails ulperrf c fn" for c fn
  by unfold_locales
    (simp_all add: tanhf_row_def fails_defs row_simps cong: printf_cong)

interpretation tgammaf_test: row_test "tgammaf_row c fn" "ulp_fails ulperrf c fn" for c fn
  by unfold_locales
    (simp_all add: tgammaf_row_def fails_defs row_simps cong: printf_cong)

interpretation truncf_test: row_test "truncf_row c fn" "exact_fails (exc_inexact c checkexceptall) c fn" for c fn
  by unfold_locales
    (simp_all add: truncf_row_def fails_defs row_simps cong: printf_cong)

interpretation y0f_test: row_test "y0f_row c fn" "row_fails (y0f_row c fn)" for c fn
  by (rule row_testI, unfold y0f_row_def)
    ((rule in_step_rules | assumption | (rule in_step_let_value, (simp only: in_step_values)?))+, simp)

interpretation y1f_test: row_test "y1f_row c fn" "row_fails (y1f_row c fn)" for c fn
  by (rule row_testI, unfold y1f_row_def)
    ((rule in_step_rules | assumption | (rule in_step_let_value, (simp only: in_step_values)?))+, simp)

interpretation ynf_test: row_test "ynf_row c fn" "row_fails (ynf_row c fn)" for c fn
  by (rule row_testI, unfold ynf_row_def)
    ((rule in_step_rules | assumption | (rule in_step_let_value, (simp only: in_step_values)?))+, simp)

lemmas float_mains = acosf_main_def
  acoshf_main_def
  asinf_main_def
  asinhf_main_def
  atan2f_main_def
  atanf_main_def
  atanhf_main_def
  cbrtf_main_def
  ceilf_main_def
  copysignf_main_def
  cosf_main_def
  coshf_main_def
  dremf_main_def
  erfcf_main_def
  erff_main_def
  exp10f_main_def
  exp2f_main_def
  expf_main_def
  expm1f_main_def
  fabsf_main_def
  fdimf_main_def
  floorf_main_def
  fmaf_main_def
  fmaxf_main_def
  fminf_main_def
  fmodf_main_def
  frexpf_main_def
  hypotf_main_def
  ilogbf_main_def
  j0f_main_def
  j1f_main_def
  jnf_main_def
  ldexpf_main_def
  lgammaf_main_def
  lgammaf_r_main_def
  llrintf_main_def
  llroundf_main_def
  log10f_main_def
  log1pf_main_def
  log2f_main_def
  logbf_main_def
  logf_main_def
  lrintf_main_def
  lroundf_main_def
  modff_main_def
  nearbyintf_main_def
  nextafterf_main_def
  pow10f_main_def
  powf_main_def
  remainderf_main_def
  remquof_main_def
  rintf_main_def
  roundf_main_def
  scalbf_main_def
  scalblnf_main_def
  scalbnf_main_def
  sincosf_main_def
  sinf_main_def
  sinhf_main_def
  sqrtf_main_def
  tanf_main_def
  tanhf_main_def
  tgammaf_main_def
  truncf_main_def
  y0f_main_def
  y1f_main_def
  ynf_main_def

end
