(* ===== verification/Math_Ldouble.thy ===== *)
theory Math_Ldouble
  imports Math_Harness
begin

text \<open>
  The \<open>long double\<close> tests of \<^verbatim>\<open>libc-test/src/math\<close>.  For each file, \<open>X_row\<close> is the body of the loop of
  \<^verbatim>\<open>main\<close> after the environment has been prepared, and \<open>X_main\<close> the program: the function
  under test, which is library code, and the table, which is data, are arguments.
  A \<open>long double\<close> program has one table for each of the two formats its rows exist for.
  The interpretations discharge the contract of the loop body, with the count of failed checks
  written out where the test belongs to one of the large families.
\<close>

unbundle bit_operations_syntax

section \<open>Programs\<close>

definition acoshl_row ::
    "fe_cfg \<Rightarrow> (fp \<Rightarrow> fp call) \<Rightarrow> l_l \<Rightarrow> mst \<Rightarrow> mst" where
  "acoshl_row c fn p s =
    (let (y, s) = libcall (fn (d_d.p_x p)) s;
         e = except c s;
         s = (if \<not> checkexcept c e (d_d.p_e p) (d_d.p_r p)
           then (let s = c_printf ''%s:%d: bad fp exception: %s acoshl(%La)=%La, want %s''
                      [AStr (d_d.p_file p), AInt (d_d.p_line p), AStr (rstr c (d_d.p_r p)),
                       AFp (d_d.p_x p), AFp (d_d.p_y p), AStr (estr c (d_d.p_e p))] s;
                     s = c_printfln '' got %s'' [AStr (estr c e)] s
                 in err_inc s)
           else s);
         d = ulperrl c (rm c s) y (d_d.p_y p) (d_d.p_dy p)
     in (if \<not> checkulp c d (d_d.p_r p)
          then (let s = c_printfln ''%s:%d: %s acoshl(%La) want %La got %La ulperr %.3f = %a + %a''
                     [AStr (d_d.p_file p), AInt (d_d.p_line p), AStr (rstr c (d_d.p_r p)),
                      AFp (d_d.p_x p), AFp (d_d.p_y p), AFp y, AFp d,
                      AFp (fp_sub flt32 (rm c s) d (d_d.p_dy p)), AFp (d_d.p_dy p)] s
                in err_inc s)
          else s))"

definition acoshl_main ::
    "fe_cfg \<Rightarrow> (fp \<Rightarrow> fp call) \<Rightarrow> l_l list \<Rightarrow> l_l list \<Rightarrow> fenv \<Rightarrow> int \<times> cout list" where
  "acoshl_main c fn t53 t64 env =
     mtest_main c d_d.p_r (acoshl_row c fn) (ldbl_table c t53 t64) env"

definition acosl_row ::
    "fe_cfg \<Rightarrow> (fp \<Rightarrow> fp call) \<Rightarrow> l_l \<Rightarrow> mst \<Rightarrow> mst" where
  "acosl_row c fn p s =
    (let (y, s) = libcall (fn (d_d.p_x p)) s;
         e = except c s;
         s = (if \<not> checkexcept c e (d_d.p_e p) (d_d.p_r p)
           then (let s = c_printf ''%s:%d: bad fp exception: %s acosl(%La)=%La, want %s''
                      [AStr (d_d.p_file p), AInt (d_d.p_line p), AStr (rstr c (d_d.p_r p)),
                       AFp (d_d.p_x p), AFp (d_d.p_y p), AStr (estr c (d_d.p_e p))] s;
                     s = c_printfln '' got %s'' [AStr (estr c e)] s
                 in err_inc s)
           else s);
         d = ulperrl c (rm c s) y (d_d.p_y p) (d_d.p_dy p)
     in (if \<not> checkulp c d (d_d.p_r p)
          then (let s = c_printfln ''%s:%d: %s acosl(%La) want %La got %La ulperr %.3f = %a + %a''
                     [AStr (d_d.p_file p), AInt (d_d.p_line p), AStr (rstr c (d_d.p_r p)),
                      AFp (d_d.p_x p), AFp (d_d.p_y p), AFp y, AFp d,
                      AFp (fp_sub flt32 (rm c s) d (d_d.p_dy p)), AFp (d_d.p_dy p)] s
                in err_inc s)
          else s))"

definition acosl_main ::
    "fe_cfg \<Rightarrow> (fp \<Rightarrow> fp call) \<Rightarrow> l_l list \<Rightarrow> l_l list \<Rightarrow> fenv \<Rightarrow> int \<times> cout list" where
  "acosl_main c fn t53 t64 env =
     mtest_main c d_d.p_r (acosl_row c fn) (ldbl_table c t53 t64) env"

definition asinhl_row ::
    "fe_cfg \<Rightarrow> (fp \<Rightarrow> fp call) \<Rightarrow> l_l \<Rightarrow> mst \<Rightarrow> mst" where
  "asinhl_row c fn p s =
    (let (y, s) = libcall (fn (d_d.p_x p)) s;
         e = except c s;
         s = (if \<not> checkexcept c e (d_d.p_e p) (d_d.p_r p)
           then (let s = c_printf ''%s:%d: bad fp exception: %s asinhl(%La)=%La, want %s''
                      [AStr (d_d.p_file p), AInt (d_d.p_line p), AStr (rstr c (d_d.p_r p)),
                       AFp (d_d.p_x p), AFp (d_d.p_y p), AStr (estr c (d_d.p_e p))] s;
                     s = c_printfln '' got %s'' [AStr (estr c e)] s
                 in err_inc s)
           else s);
         d = ulperrl c (rm c s) y (d_d.p_y p) (d_d.p_dy p)
     in (if \<not> checkulp c d (d_d.p_r p)
          then (let s = c_printfln ''%s:%d: %s asinhl(%La) want %La got %La ulperr %.3f = %a + %a''
                     [AStr (d_d.p_file p), AInt (d_d.p_line p), AStr (rstr c (d_d.p_r p)),
                      AFp (d_d.p_x p), AFp (d_d.p_y p), AFp y, AFp d,
                      AFp (fp_sub flt32 (rm c s) d (d_d.p_dy p)), AFp (d_d.p_dy p)] s
                in err_inc s)
          else s))"

definition asinhl_main ::
    "fe_cfg \<Rightarrow> (fp \<Rightarrow> fp call) \<Rightarrow> l_l list \<Rightarrow> l_l list \<Rightarrow> fenv \<Rightarrow> int \<times> cout list" where
  "asinhl_main c fn t53 t64 env =
     mtest_main c d_d.p_r (asinhl_row c fn) (ldbl_table c t53 t64) env"

definition asinl_row ::
    "fe_cfg \<Rightarrow> (fp \<Rightarrow> fp call) \<Rightarrow> l_l \<Rightarrow> mst \<Rightarrow> mst" where
  "asinl_row c fn p s =
    (let (y, s) = libcall (fn (d_d.p_x p)) s;
         e = except c s;
         s = (if \<not> checkexcept c e (d_d.p_e p) (d_d.p_r p)
           then (let s = c_printf ''%s:%d: bad fp exception: %s asinl(%La)=%La, want %s''
                      [AStr (d_d.p_file p), AInt (d_d.p_line p), AStr (rstr c (d_d.p_r p)),
                       AFp (d_d.p_x p), AFp (d_d.p_y p), AStr (estr c (d_d.p_e p))] s;
                     s = c_printfln '' got %s'' [AStr (estr c e)] s
                 in err_inc s)
           else s);
         d = ulperrl c (rm c s) y (d_d.p_y p) (d_d.p_dy p)
     in (if \<not> checkulp c d (d_d.p_r p)
          then (let s = c_printfln ''%s:%d: %s asinl(%La) want %La got %La ulperr %.3f = %a + %a''
                     [AStr (d_d.p_file p), AInt (d_d.p_line p), AStr (rstr c (d_d.p_r p)),
                      AFp (d_d.p_x p), AFp (d_d.p_y p), AFp y, AFp d,
                      AFp (fp_sub flt32 (rm c s) d (d_d.p_dy p)), AFp (d_d.p_dy p)] s
                in err_inc s)
          else s))"

definition asinl_main ::
    "fe_cfg \<Rightarrow> (fp \<Rightarrow> fp call) \<Rightarrow> l_l list \<Rightarrow> l_l list \<Rightarrow> fenv \<Rightarrow> int \<times> cout list" where
  "asinl_main c fn t53 t64 env =
     mtest_main c d_d.p_r (asinl_row c fn) (ldbl_table c t53 t64) env"

definition atan2l_row ::
    "fe_cfg \<Rightarrow> (fp \<Rightarrow> fp \<Rightarrow> fp call) \<Rightarrow> ll_l \<Rightarrow> mst \<Rightarrow> mst" where
  "atan2l_row c fn p s =
    (let (y, s) = libcall (fn (dd_d.p_x p) (dd_d.p_x2 p)) s;
         e = except c s;
         s = (if \<not> checkexcept c e (dd_d.p_e p) (dd_d.p_r p)
           then (let s = c_printf ''%s:%d: bad fp exception: %s atan2l(%La,%La)=%La, want %s''
                      [AStr (dd_d.p_file p), AInt (dd_d.p_line p), AStr (rstr c (dd_d.p_r p)),
                       AFp (dd_d.p_x p), AFp (dd_d.p_x2 p), AFp (dd_d.p_y p),
                       AStr (estr c (dd_d.p_e p))] s;
                     s = c_printfln '' got %s'' [AStr (estr c e)] s
                 in err_inc s)
           else s);
         d = ulperrl c (rm c s) y (dd_d.p_y p) (dd_d.p_dy p)
     in (if \<not> checkulp c d (dd_d.p_r p)
          then (let s = c_printfln ''%s:%d: %s atan2l(%La,%La) want %La got %La ulperr %.3f = %a + %a''
                     [AStr (dd_d.p_file p), AInt (dd_d.p_line p), AStr (rstr c (dd_d.p_r p)),
                      AFp (dd_d.p_x p), AFp (dd_d.p_x2 p), AFp (dd_d.p_y p), AFp y, AFp d,
                      AFp (fp_sub flt32 (rm c s) d (dd_d.p_dy p)), AFp (dd_d.p_dy p)] s
                in err_inc s)
          else s))"

definition atan2l_main ::
    "fe_cfg \<Rightarrow> (fp \<Rightarrow> fp \<Rightarrow> fp call) \<Rightarrow> ll_l list \<Rightarrow> ll_l list \<Rightarrow> fenv \<Rightarrow> int \<times> cout list" where
  "atan2l_main c fn t53 t64 env =
     mtest_main c dd_d.p_r (atan2l_row c fn) (ldbl_table c t53 t64) env"

definition atanhl_row ::
    "fe_cfg \<Rightarrow> (fp \<Rightarrow> fp call) \<Rightarrow> l_l \<Rightarrow> mst \<Rightarrow> mst" where
  "atanhl_row c fn p s =
    (let (y, s) = libcall (fn (d_d.p_x p)) s;
         e = except c s;
         s = (if \<not> checkexcept c e (d_d.p_e p) (d_d.p_r p)
           then (let s = c_printf ''%s:%d: bad fp exception: %s atanhl(%La)=%La, want %s''
                      [AStr (d_d.p_file p), AInt (d_d.p_line p), AStr (rstr c (d_d.p_r p)),
                       AFp (d_d.p_x p), AFp (d_d.p_y p), AStr (estr c (d_d.p_e p))] s;
                     s = c_printfln '' got %s'' [AStr (estr c e)] s
                 in err_inc s)
           else s);
         d = ulperrl c (rm c s) y (d_d.p_y p) (d_d.p_dy p)
     in (if \<not> checkulp c d (d_d.p_r p)
          then (let s = c_printfln ''%s:%d: %s atanhl(%La) want %La got %La ulperr %.3f = %a + %a''
                     [AStr (d_d.p_file p), AInt (d_d.p_line p), AStr (rstr c (d_d.p_r p)),
                      AFp (d_d.p_x p), AFp (d_d.p_y p), AFp y, AFp d,
                      AFp (fp_sub flt32 (rm c s) d (d_d.p_dy p)), AFp (d_d.p_dy p)] s
                in err_inc s)
          else s))"

definition atanhl_main ::
    "fe_cfg \<Rightarrow> (fp \<Rightarrow> fp call) \<Rightarrow> l_l list \<Rightarrow> l_l list \<Rightarrow> fenv \<Rightarrow> int \<times> cout list" where
  "atanhl_main c fn t53 t64 env =
     mtest_main c d_d.p_r (atanhl_row c fn) (ldbl_table c t53 t64) env"

definition atanl_row ::
    "fe_cfg \<Rightarrow> (fp \<Rightarrow> fp call) \<Rightarrow> l_l \<Rightarrow> mst \<Rightarrow> mst" where
  "atanl_row c fn p s =
    (let (y, s) = libcall (fn (d_d.p_x p)) s;
         e = except c s;
         s = (if \<not> checkexcept c e (d_d.p_e p) (d_d.p_r p)
           then (let s = c_printf ''%s:%d: bad fp exception: %s atanl(%La)=%La, want %s''
                      [AStr (d_d.p_file p), AInt (d_d.p_line p), AStr (rstr c (d_d.p_r p)),
                       AFp (d_d.p_x p), AFp (d_d.p_y p), AStr (estr c (d_d.p_e p))] s;
                     s = c_printfln '' got %s'' [AStr (estr c e)] s
                 in err_inc s)
           else s);
         d = ulperrl c (rm c s) y (d_d.p_y p) (d_d.p_dy p)
     in (if \<not> checkulp c d (d_d.p_r p)
          then (let s = c_printfln ''%s:%d: %s atanl(%La) want %La got %La ulperr %.3f = %a + %a''
                     [AStr (d_d.p_file p), AInt (d_d.p_line p), AStr (rstr c (d_d.p_r p)),
                      AFp (d_d.p_x p), AFp (d_d.p_y p), AFp y, AFp d,
                      AFp (fp_sub flt32 (rm c s) d (d_d.p_dy p)), AFp (d_d.p_dy p)] s
                in err_inc s)
          else s))"

definition atanl_main ::
    "fe_cfg \<Rightarrow> (fp \<Rightarrow> fp call) \<Rightarrow> l_l list \<Rightarrow> l_l list \<Rightarrow> fenv \<Rightarrow> int \<times> cout list" where
  "atanl_main c fn t53 t64 env =
     mtest_main c d_d.p_r (atanl_row c fn) (ldbl_table c t53 t64) env"

definition cbrtl_row ::
    "fe_cfg \<Rightarrow> (fp \<Rightarrow> fp call) \<Rightarrow> l_l \<Rightarrow> mst \<Rightarrow> mst" where
  "cbrtl_row c fn p s =
    (let (y, s) = libcall (fn (d_d.p_x p)) s;
         e = except c s;
         s = (if \<not> checkexcept c e (d_d.p_e p) (d_d.p_r p)
           then (let s = c_printf ''%s:%d: bad fp exception: %s cbrtl(%La)=%La, want %s''
                      [AStr (d_d.p_file p), AInt (d_d.p_line p), AStr (rstr c (d_d.p_r p)),
                       AFp (d_d.p_x p), AFp (d_d.p_y p), AStr (estr c (d_d.p_e p))] s;
                     s = c_printfln '' got %s'' [AStr (estr c e)] s
                 in err_inc s)
           else s);
         d = ulperrl c (rm c s) y (d_d.p_y p) (d_d.p_dy p)
     in (if \<not> checkulp c d (d_d.p_r p)
          then (let s = c_printfln ''%s:%d: %s cbrtl(%La) want %La got %La ulperr %.3f = %a + %a''
                     [AStr (d_d.p_file p), AInt (d_d.p_line p), AStr (rstr c (d_d.p_r p)),
                      AFp (d_d.p_x p), AFp (d_d.p_y p), AFp y, AFp d,
                      AFp (fp_sub flt32 (rm c s) d (d_d.p_dy p)), AFp (d_d.p_dy p)] s
                in err_inc s)
          else s))"

definition cbrtl_main ::
    "fe_cfg \<Rightarrow> (fp \<Rightarrow> fp call) \<Rightarrow> l_l list \<Rightarrow> l_l list \<Rightarrow> fenv \<Rightarrow> int \<times> cout list" where
  "cbrtl_main c fn t53 t64 env =
     mtest_main c d_d.p_r (cbrtl_row c fn) (ldbl_table c t53 t64) env"

definition ceill_row ::
    "fe_cfg \<Rightarrow> (fp \<Rightarrow> fp call) \<Rightarrow> l_l \<Rightarrow> mst \<Rightarrow> mst" where
  "ceill_row c fn p s =
    (let (y, s) = libcall (fn (d_d.p_x p)) s;
         e = except c s;
         s = (if \<not> checkexceptall e (d_d.p_e p) (d_d.p_r p)
              \<and> (e OR INEXACT c) \<noteq> d_d.p_e p
           then (let s = c_printf ''%s:%d: bad fp exception: %s ceill(%La)=%La, want %s''
                      [AStr (d_d.p_file p), AInt (d_d.p_line p), AStr (rstr c (d_d.p_r p)),
                       AFp (d_d.p_x p), AFp (d_d.p_y p), AStr (estr c (d_d.p_e p))] s;
                     s = c_printfln '' got %s'' [AStr (estr c e)] s
                 in err_inc s)
           else s);
         d = ulperrl c (rm c s) y (d_d.p_y p) (d_d.p_dy p)
     in (if \<not> checkcr y (d_d.p_y p) (d_d.p_r p)
          then (let s = c_printfln ''%s:%d: %s ceill(%La) want %La got %La ulperr %.3f = %a + %a''
                     [AStr (d_d.p_file p), AInt (d_d.p_line p), AStr (rstr c (d_d.p_r p)),
                      AFp (d_d.p_x p), AFp (d_d.p_y p), AFp y, AFp d,
                      AFp (fp_sub flt32 (rm c s) d (d_d.p_dy p)), AFp (d_d.p_dy p)] s
                in err_inc s)
          else s))"

definition ceill_main ::
    "fe_cfg \<Rightarrow> (fp \<Rightarrow> fp call) \<Rightarrow> l_l list \<Rightarrow> l_l list \<Rightarrow> fenv \<Rightarrow> int \<times> cout list" where
  "ceill_main c fn t53 t64 env =
     mtest_main c d_d.p_r (ceill_row c fn) (ldbl_table c t53 t64) env"

definition copysignl_row ::
    "fe_cfg \<Rightarrow> (fp \<Rightarrow> fp \<Rightarrow> fp call) \<Rightarrow> ll_l \<Rightarrow> mst \<Rightarrow> mst" where
  "copysignl_row c fn p s =
    (let (y, s) = libcall (fn (dd_d.p_x p) (dd_d.p_x2 p)) s;
         e = except c s;
         s = (if \<not> checkexceptall e (dd_d.p_e p) (dd_d.p_r p)
           then (let s = c_printf ''%s:%d: bad fp exception: %s copysignl(%La,%La)=%La, want %s''
                      [AStr (dd_d.p_file p), AInt (dd_d.p_line p), AStr (rstr c (dd_d.p_r p)),
                       AFp (dd_d.p_x p), AFp (dd_d.p_x2 p), AFp (dd_d.p_y p),
                       AStr (estr c (dd_d.p_e p))] s;
                     s = c_printfln '' got %s'' [AStr (estr c e)] s
                 in err_inc s)
           else s);
         d = ulperrl c (rm c s) y (dd_d.p_y p) (dd_d.p_dy p)
     in (if \<not> checkcr y (dd_d.p_y p) (dd_d.p_r p)
          then (let s = c_printfln ''%s:%d: %s copysignl(%La,%La) want %La got %La ulperr %.3f = %a + %a''
                     [AStr (dd_d.p_file p), AInt (dd_d.p_line p), AStr (rstr c (dd_d.p_r p)),
                      AFp (dd_d.p_x p), AFp (dd_d.p_x2 p), AFp (dd_d.p_y p), AFp y, AFp d,
                      AFp (fp_sub flt32 (rm c s) d (dd_d.p_dy p)), AFp (dd_d.p_dy p)] s
                in err_inc s)
          else s))"

definition copysignl_main ::
    "fe_cfg \<Rightarrow> (fp \<Rightarrow> fp \<Rightarrow> fp call) \<Rightarrow> ll_l list \<Rightarrow> ll_l list \<Rightarrow> fenv \<Rightarrow> int \<times> cout list" where
  "copysignl_main c fn t53 t64 env =
     mtest_main c dd_d.p_r (copysignl_row c fn) (ldbl_table c t53 t64) env"

definition coshl_row ::
    "fe_cfg \<Rightarrow> (fp \<Rightarrow> fp call) \<Rightarrow> l_l \<Rightarrow> mst \<Rightarrow> mst" where
  "coshl_row c fn p s =
    (let (y, s) = libcall (fn (d_d.p_x p)) s;
         e = except c s;
         s = (if \<not> checkexcept c e (d_d.p_e p) (d_d.p_r p)
           then (let s = c_printf ''%s:%d: bad fp exception: %s coshl(%La)=%La, want %s''
                      [AStr (d_d.p_file p), AInt (d_d.p_line p), AStr (rstr c (d_d.p_r p)),
                       AFp (d_d.p_x p), AFp (d_d.p_y p), AStr (estr c (d_d.p_e p))] s;
                     s = c_printfln '' got %s'' [AStr (estr c e)] s
                 in err_inc s)
           else s);
         d = ulperrl c (rm c s) y (d_d.p_y p) (d_d.p_dy p)
     in (if \<not> checkulp c d (d_d.p_r p)
          then (let s = c_printfln ''%s:%d: %s coshl(%La) want %La got %La ulperr %.3f = %a + %a''
                     [AStr (d_d.p_file p), AInt (d_d.p_line p), AStr (rstr c (d_d.p_r p)),
                      AFp (d_d.p_x p), AFp (d_d.p_y p), AFp y, AFp d,
                      AFp (fp_sub flt32 (rm c s) d (d_d.p_dy p)), AFp (d_d.p_dy p)] s
                in err_inc s)
          else s))"

definition coshl_main ::
    "fe_cfg \<Rightarrow> (fp \<Rightarrow> fp call) \<Rightarrow> l_l list \<Rightarrow> l_l list \<Rightarrow> fenv \<Rightarrow> int \<times> cout list" where
  "coshl_main c fn t53 t64 env =
     mtest_main c d_d.p_r (coshl_row c fn) (ldbl_table c t53 t64) env"

definition cosl_row ::
    "fe_cfg \<Rightarrow> (fp \<Rightarrow> fp call) \<Rightarrow> l_l \<Rightarrow> mst \<Rightarrow> mst" where
  "cosl_row c fn p s =
    (let (y, s) = libcall (fn (d_d.p_x p)) s;
         e = except c s;
         s = (if \<not> checkexcept c e (d_d.p_e p) (d_d.p_r p)
           then (let s = c_printf ''%s:%d: bad fp exception: %s cosl(%La)=%La, want %s''
                      [AStr (d_d.p_file p), AInt (d_d.p_line p), AStr (rstr c (d_d.p_r p)),
                       AFp (d_d.p_x p), AFp (d_d.p_y p), AStr (estr c (d_d.p_e p))] s;
                     s = c_printfln '' got %s'' [AStr (estr c e)] s
                 in err_inc s)
           else s);
         d = ulperrl c (rm c s) y (d_d.p_y p) (d_d.p_dy p)
     in (if \<not> checkulp c d (d_d.p_r p)
          then (let s = c_printfln ''%s:%d: %s cosl(%La) want %La got %La ulperr %.3f = %a + %a''
                     [AStr (d_d.p_file p), AInt (d_d.p_line p), AStr (rstr c (d_d.p_r p)),
                      AFp (d_d.p_x p), AFp (d_d.p_y p), AFp y, AFp d,
                      AFp (fp_sub flt32 (rm c s) d (d_d.p_dy p)), AFp (d_d.p_dy p)] s
                in err_inc s)
          else s))"

definition cosl_main ::
    "fe_cfg \<Rightarrow> (fp \<Rightarrow> fp call) \<Rightarrow> l_l list \<Rightarrow> l_l list \<Rightarrow> fenv \<Rightarrow> int \<times> cout list" where
  "cosl_main c fn t53 t64 env =
     mtest_main c d_d.p_r (cosl_row c fn) (ldbl_table c t53 t64) env"

definition erfcl_row ::
    "fe_cfg \<Rightarrow> (fp \<Rightarrow> fp call) \<Rightarrow> l_l \<Rightarrow> mst \<Rightarrow> mst" where
  "erfcl_row c fn p s =
    (let (y, s) = libcall (fn (d_d.p_x p)) s;
         e = except c s;
         s = (if \<not> checkexcept c e (d_d.p_e p) (d_d.p_r p)
           then (let s = c_printf ''%s:%d: bad fp exception: %s erfcl(%La)=%La, want %s''
                      [AStr (d_d.p_file p), AInt (d_d.p_line p), AStr (rstr c (d_d.p_r p)),
                       AFp (d_d.p_x p), AFp (d_d.p_y p), AStr (estr c (d_d.p_e p))] s;
                     s = c_printfln '' got %s'' [AStr (estr c e)] s
                 in err_inc s)
           else s);
         d = ulperrl c (rm c s) y (d_d.p_y p) (d_d.p_dy p)
     in (if \<not> checkulp c d (d_d.p_r p)
          then (let s = c_printfln ''%s:%d: %s erfcl(%La) want %La got %La ulperr %.3f = %a + %a''
                     [AStr (d_d.p_file p), AInt (d_d.p_line p), AStr (rstr c (d_d.p_r p)),
                      AFp (d_d.p_x p), AFp (d_d.p_y p), AFp y, AFp d,
                      AFp (fp_sub flt32 (rm c s) d (d_d.p_dy p)), AFp (d_d.p_dy p)] s
                in err_inc s)
          else s))"

definition erfcl_main ::
    "fe_cfg \<Rightarrow> (fp \<Rightarrow> fp call) \<Rightarrow> l_l list \<Rightarrow> l_l list \<Rightarrow> fenv \<Rightarrow> int \<times> cout list" where
  "erfcl_main c fn t53 t64 env =
     mtest_main c d_d.p_r (erfcl_row c fn) (ldbl_table c t53 t64) env"

definition erfl_row ::
    "fe_cfg \<Rightarrow> (fp \<Rightarrow> fp call) \<Rightarrow> l_l \<Rightarrow> mst \<Rightarrow> mst" where
  "erfl_row c fn p s =
    (let (y, s) = libcall (fn (d_d.p_x p)) s;
         e = except c s;
         s = (if \<not> checkexcept c e (d_d.p_e p) (d_d.p_r p)
           then (let s = c_printf ''%s:%d: bad fp exception: %s erfl(%La)=%La, want %s''
                      [AStr (d_d.p_file p), AInt (d_d.p_line p), AStr (rstr c (d_d.p_r p)),
                       AFp (d_d.p_x p), AFp (d_d.p_y p), AStr (estr c (d_d.p_e p))] s;
                     s = c_printfln '' got %s'' [AStr (estr c e)] s
                 in err_inc s)
           else s);
         d = ulperrl c (rm c s) y (d_d.p_y p) (d_d.p_dy p)
     in (if \<not> checkulp c d (d_d.p_r p)
          then (let s = c_printfln ''%s:%d: %s erfl(%La) want %La got %La ulperr %.3f = %a + %a''
                     [AStr (d_d.p_file p), AInt (d_d.p_line p), AStr (rstr c (d_d.p_r p)),
                      AFp (d_d.p_x p), AFp (d_d.p_y p), AFp y, AFp d,
                      AFp (fp_sub flt32 (rm c s) d (d_d.p_dy p)), AFp (d_d.p_dy p)] s
                in err_inc s)
          else s))"

definition erfl_main ::
    "fe_cfg \<Rightarrow> (fp \<Rightarrow> fp call) \<Rightarrow> l_l list \<Rightarrow> l_l list \<Rightarrow> fenv \<Rightarrow> int \<times> cout list" where
  "erfl_main c fn t53 t64 env =
     mtest_main c d_d.p_r (erfl_row c fn) (ldbl_table c t53 t64) env"

definition exp10l_row ::
    "fe_cfg \<Rightarrow> (fp \<Rightarrow> fp call) \<Rightarrow> l_l \<Rightarrow> mst \<Rightarrow> mst" where
  "exp10l_row c fn p s =
    (let (y, s) = libcall (fn (d_d.p_x p)) s;
         e = except c s;
         s = (if \<not> checkexcept c e (d_d.p_e p) (d_d.p_r p)
           then (let s = c_printf ''%s:%d: bad fp exception: %s exp10l(%La)=%La, want %s''
                      [AStr (d_d.p_file p), AInt (d_d.p_line p), AStr (rstr c (d_d.p_r p)),
                       AFp (d_d.p_x p), AFp (d_d.p_y p), AStr (estr c (d_d.p_e p))] s;
                     s = c_printfln '' got %s'' [AStr (estr c e)] s
                 in err_inc s)
           else s);
         d = ulperrl c (rm c s) y (d_d.p_y p) (d_d.p_dy p)
     in (if \<not> checkulp c d (d_d.p_r p)
          then (let s = c_printfln ''%s:%d: %s exp10l(%La) want %La got %La ulperr %.3f = %a + %a''
                     [AStr (d_d.p_file p), AInt (d_d.p_line p), AStr (rstr c (d_d.p_r p)),
                      AFp (d_d.p_x p), AFp (d_d.p_y p), AFp y, AFp d,
                      AFp (fp_sub flt32 (rm c s) d (d_d.p_dy p)), AFp (d_d.p_dy p)] s
                in err_inc s)
          else s))"

definition exp10l_main ::
    "fe_cfg \<Rightarrow> (fp \<Rightarrow> fp call) \<Rightarrow> l_l list \<Rightarrow> l_l list \<Rightarrow> fenv \<Rightarrow> int \<times> cout list" where
  "exp10l_main c fn t53 t64 env =
     mtest_main c d_d.p_r (exp10l_row c fn) (ldbl_table c t53 t64) env"

definition exp2l_row ::
    "fe_cfg \<Rightarrow> (fp \<Rightarrow> fp call) \<Rightarrow> l_l \<Rightarrow> mst \<Rightarrow> mst" where
  "exp2l_row c fn p s =
    (let (y, s) = libcall (fn (d_d.p_x p)) s;
         e = except c s;
         s = (if \<not> checkexcept c e (d_d.p_e p) (d_d.p_r p)
           then (let s = c_printf ''%s:%d: bad fp exception: %s exp2l(%La)=%La, want %s''
                      [AStr (d_d.p_file p), AInt (d_d.p_line p), AStr (rstr c (d_d.p_r p)),
                       AFp (d_d.p_x p), AFp (d_d.p_y p), AStr (estr c (d_d.p_e p))] s;
                     s = c_printfln '' got %s'' [AStr (estr c e)] s
                 in err_inc s)
           else s);
         d = ulperrl c (rm c s) y (d_d.p_y p) (d_d.p_dy p)
     in (if \<not> checkulp c d (d_d.p_r p)
          then (let s = c_printfln ''%s:%d: %s exp2l(%La) want %La got %La ulperr %.3f = %a + %a''
                     [AStr (d_d.p_file p), AInt (d_d.p_line p), AStr (rstr c (d_d.p_r p)),
                      AFp (d_d.p_x p), AFp (d_d.p_y p), AFp y, AFp d,
                      AFp (fp_sub flt32 (rm c s) d (d_d.p_dy p)), AFp (d_d.p_dy p)] s
                in err_inc s)
          else s))"

definition exp2l_main ::
    "fe_cfg \<Rightarrow> (fp \<Rightarrow> fp call) \<Rightarrow> l_l list \<Rightarrow> l_l list \<Rightarrow> fenv \<Rightarrow> int \<times> cout list" where
  "exp2l_main c fn t53 t64 env =
     mtest_main c d_d.p_r (exp2l_row c fn) (ldbl_table c t53 t64) env"

definition expl_row ::
    "fe_cfg \<Rightarrow> (fp \<Rightarrow> fp call) \<Rightarrow> l_l \<Rightarrow> mst \<Rightarrow> mst" where
  "expl_row c fn p s =
    (let (y, s) = libcall (fn (d_d.p_x p)) s;
         e = except c s;
         s = (if \<not> checkexcept c e (d_d.p_e p) (d_d.p_r p)
           then (let s = c_printf ''%s:%d: bad fp exception: %s expl(%La)=%La, want %s''
                      [AStr (d_d.p_file p), AInt (d_d.p_line p), AStr (rstr c (d_d.p_r p)),
                       AFp (d_d.p_x p), AFp (d_d.p_y p), AStr (estr c (d_d.p_e p))] s;
                     s = c_printfln '' got %s'' [AStr (estr c e)] s
                 in err_inc s)
           else s);
         d = ulperrl c (rm c s) y (d_d.p_y p) (d_d.p_dy p)
     in (if \<not> checkulp c d (d_d.p_r p)
          then (let s = c_printfln ''%s:%d: %s expl(%La) want %La got %La ulperr %.3f = %a + %a''
                     [AStr (d_d.p_file p), AInt (d_d.p_line p), AStr (rstr c (d_d.p_r p)),
                      AFp (d_d.p_x p), AFp (d_d.p_y p), AFp y, AFp d,
                      AFp (fp_sub flt32 (rm c s) d (d_d.p_dy p)), AFp (d_d.p_dy p)] s
                in err_inc s)
          else s))"

definition expl_main ::
    "fe_cfg \<Rightarrow> (fp \<Rightarrow> fp call) \<Rightarrow> l_l list \<Rightarrow> l_l list \<Rightarrow> fenv \<Rightarrow> int \<times> cout list" where
  "expl_main c fn t53 t64 env =
     mtest_main c d_d.p_r (expl_row c fn) (ldbl_table c t53 t64) env"

definition expm1l_row ::
    "fe_cfg \<Rightarrow> (fp \<Rightarrow> fp call) \<Rightarrow> l_l \<Rightarrow> mst \<Rightarrow> mst" where
  "expm1l_row c fn p s =
    (let (y, s) = libcall (fn (d_d.p_x p)) s;
         e = except c s;
         s = (if \<not> checkexcept c e (d_d.p_e p) (d_d.p_r p)
           then (let s = c_printf ''%s:%d: bad fp exception: %s expm1l(%La)=%La, want %s''
                      [AStr (d_d.p_file p), AInt (d_d.p_line p), AStr (rstr c (d_d.p_r p)),
                       AFp (d_d.p_x p), AFp (d_d.p_y p), AStr (estr c (d_d.p_e p))] s;
                     s = c_printfln '' got %s'' [AStr (estr c e)] s
                 in err_inc s)
           else s);
         d = ulperrl c (rm c s) y (d_d.p_y p) (d_d.p_dy p)
     in (if \<not> checkulp c d (d_d.p_r p)
          then (let s = (if fp_lt (fabs d) (Fin False 5 (-1))
                    then c_printf ''X '' [] s
                    else err_inc s)
                in c_printfln ''%s:%d: %s expm1l(%La) want %La got %La ulperr %.3f = %a + %a''
                     [AStr (d_d.p_file p), AInt (d_d.p_line p), AStr (rstr c (d_d.p_r p)),
                      AFp (d_d.p_x p), AFp (d_d.p_y p), AFp y, AFp d,
                      AFp (fp_sub flt32 (rm c s) d (d_d.p_dy p)), AFp (d_d.p_dy p)] s)
          else s))"

definition expm1l_main ::
    "fe_cfg \<Rightarrow> (fp \<Rightarrow> fp call) \<Rightarrow> l_l list \<Rightarrow> l_l list \<Rightarrow> fenv \<Rightarrow> int \<times> cout list" where
  "expm1l_main c fn t53 t64 env =
     mtest_main c d_d.p_r (expm1l_row c fn) (ldbl_table c t53 t64) env"

definition fabsl_row ::
    "fe_cfg \<Rightarrow> (fp \<Rightarrow> fp call) \<Rightarrow> l_l \<Rightarrow> mst \<Rightarrow> mst" where
  "fabsl_row c fn p s =
    (let (y, s) = libcall (fn (d_d.p_x p)) s;
         e = except c s;
         s = (if \<not> checkexceptall e (d_d.p_e p) (d_d.p_r p)
           then (let s = c_printf ''%s:%d: bad fp exception: %s fabsl(%La)=%La, want %s''
                      [AStr (d_d.p_file p), AInt (d_d.p_line p), AStr (rstr c (d_d.p_r p)),
                       AFp (d_d.p_x p), AFp (d_d.p_y p), AStr (estr c (d_d.p_e p))] s;
                     s = c_printfln '' got %s'' [AStr (estr c e)] s
                 in err_inc s)
           else s);
         d = ulperrl c (rm c s) y (d_d.p_y p) (d_d.p_dy p)
     in (if \<not> checkcr y (d_d.p_y p) (d_d.p_r p)
          then (let s = c_printfln ''%s:%d: %s fabsl(%La) want %La got %La ulperr %.3f = %a + %a''
                     [AStr (d_d.p_file p), AInt (d_d.p_line p), AStr (rstr c (d_d.p_r p)),
                      AFp (d_d.p_x p), AFp (d_d.p_y p), AFp y, AFp d,
                      AFp (fp_sub flt32 (rm c s) d (d_d.p_dy p)), AFp (d_d.p_dy p)] s
                in err_inc s)
          else s))"

definition fabsl_main ::
    "fe_cfg \<Rightarrow> (fp \<Rightarrow> fp call) \<Rightarrow> l_l list \<Rightarrow> l_l list \<Rightarrow> fenv \<Rightarrow> int \<times> cout list" where
  "fabsl_main c fn t53 t64 env =
     mtest_main c d_d.p_r (fabsl_row c fn) (ldbl_table c t53 t64) env"

definition fdiml_row ::
    "fe_cfg \<Rightarrow> (fp \<Rightarrow> fp \<Rightarrow> fp call) \<Rightarrow> ll_l \<Rightarrow> mst \<Rightarrow> mst" where
  "fdiml_row c fn p s =
    (let (y, s) = libcall (fn (dd_d.p_x p) (dd_d.p_x2 p)) s;
         e = except c s;
         s = (if \<not> checkexceptall e (dd_d.p_e p) (dd_d.p_r p)
           then (let s = c_printf ''%s:%d: bad fp exception: %s fdiml(%La,%La)=%La, want %s''
                      [AStr (dd_d.p_file p), AInt (dd_d.p_line p), AStr (rstr c (dd_d.p_r p)),
                       AFp (dd_d.p_x p), AFp (dd_d.p_x2 p), AFp (dd_d.p_y p),
                       AStr (estr c (dd_d.p_e p))] s;
                     s = c_printfln '' got %s'' [AStr (estr c e)] s
                 in err_inc s)
           else s);
         d = ulperrl c (rm c s) y (dd_d.p_y p) (dd_d.p_dy p)
     in (if \<not> checkcr y (dd_d.p_y p) (dd_d.p_r p)
          then (let s = c_printfln ''%s:%d: %s fdiml(%La,%La) want %La got %La ulperr %.3f = %a + %a''
                     [AStr (dd_d.p_file p), AInt (dd_d.p_line p), AStr (rstr c (dd_d.p_r p)),
                      AFp (dd_d.p_x p), AFp (dd_d.p_x2 p), AFp (dd_d.p_y p), AFp y, AFp d,
                      AFp (fp_sub flt32 (rm c s) d (dd_d.p_dy p)), AFp (dd_d.p_dy p)] s
                in err_inc s)
          else s))"

definition fdiml_main ::
    "fe_cfg \<Rightarrow> (fp \<Rightarrow> fp \<Rightarrow> fp call) \<Rightarrow> ll_l list \<Rightarrow> ll_l list \<Rightarrow> fenv \<Rightarrow> int \<times> cout list" where
  "fdiml_main c fn t53 t64 env =
     mtest_main c dd_d.p_r (fdiml_row c fn) (ldbl_table c t53 t64) env"

definition floorl_row ::
    "fe_cfg \<Rightarrow> (fp \<Rightarrow> fp call) \<Rightarrow> l_l \<Rightarrow> mst \<Rightarrow> mst" where
  "floorl_row c fn p s =
    (let (y, s) = libcall (fn (d_d.p_x p)) s;
         e = except c s;
         s = (if \<not> checkexceptall e (d_d.p_e p) (d_d.p_r p)
              \<and> (e OR INEXACT c) \<noteq> d_d.p_e p
           then (let s = c_printf ''%s:%d: bad fp exception: %s floorl(%La)=%La, want %s''
                      [AStr (d_d.p_file p), AInt (d_d.p_line p), AStr (rstr c (d_d.p_r p)),
                       AFp (d_d.p_x p), AFp (d_d.p_y p), AStr (estr c (d_d.p_e p))] s;
                     s = c_printfln '' got %s'' [AStr (estr c e)] s
                 in err_inc s)
           else s);
         d = ulperrl c (rm c s) y (d_d.p_y p) (d_d.p_dy p)
     in (if \<not> checkcr y (d_d.p_y p) (d_d.p_r p)
          then (let s = c_printfln ''%s:%d: %s floorl(%La) want %La got %La ulperr %.3f = %a + %a''
                     [AStr (d_d.p_file p), AInt (d_d.p_line p), AStr (rstr c (d_d.p_r p)),
                      AFp (d_d.p_x p), AFp (d_d.p_y p), AFp y, AFp d,
                      AFp (fp_sub flt32 (rm c s) d (d_d.p_dy p)), AFp (d_d.p_dy p)] s
                in err_inc s)
          else s))"

definition floorl_main ::
    "fe_cfg \<Rightarrow> (fp \<Rightarrow> fp call) \<Rightarrow> l_l list \<Rightarrow> l_l list \<Rightarrow> fenv \<Rightarrow> int \<times> cout list" where
  "floorl_main c fn t53 t64 env =
     mtest_main c d_d.p_r (floorl_row c fn) (ldbl_table c t53 t64) env"

definition fmal_row ::
    "fe_cfg \<Rightarrow> (fp \<Rightarrow> fp \<Rightarrow> fp \<Rightarrow> fp call) \<Rightarrow> lll_l \<Rightarrow> mst \<Rightarrow> mst" where
  "fmal_row c fn p s =
    (let (y, s) = libcall (fn (ddd_d.p_x p) (ddd_d.p_x2 p) (ddd_d.p_x3 p)) s;
         e = except c s;
         s = (if \<not> checkexcept_fma c e (ddd_d.p_e p) (ddd_d.p_r p)
           then (let s = c_printf ''%s:%d: bad fp exception: %s fmal(%La,%La,%La)=%La, want %s''
                      [AStr (ddd_d.p_file p), AInt (ddd_d.p_line p), AStr (rstr c (ddd_d.p_r p)),
                       AFp (ddd_d.p_x p), AFp (ddd_d.p_x2 p), AFp (ddd_d.p_x3 p),
                       AFp (ddd_d.p_y p), AStr (estr c (ddd_d.p_e p))] s;
                     s = c_printfln '' got %s'' [AStr (estr c e)] s
                 in err_inc s)
           else s);
         d = ulperrl c (rm c s) y (ddd_d.p_y p) (ddd_d.p_dy p)
     in (if \<not> checkcr y (ddd_d.p_y p) (ddd_d.p_r p)
          then (let s = c_printfln ''%s:%d: %s fmal(%La,%La,%La) want %La got %La ulperr %.3f = %a + %a''
                     [AStr (ddd_d.p_file p), AInt (ddd_d.p_line p), AStr (rstr c (ddd_d.p_r p)),
                      AFp (ddd_d.p_x p), AFp (ddd_d.p_x2 p), AFp (ddd_d.p_x3 p),
                      AFp (ddd_d.p_y p), AFp y, AFp d,
                      AFp (fp_sub flt32 (rm c s) d (ddd_d.p_dy p)), AFp (ddd_d.p_dy p)] s
                in err_inc s)
          else s))"

definition fmal_main ::
    "fe_cfg \<Rightarrow> (fp \<Rightarrow> fp \<Rightarrow> fp \<Rightarrow> fp call) \<Rightarrow> lll_l list \<Rightarrow> lll_l list \<Rightarrow> fenv \<Rightarrow> int \<times> cout list" where
  "fmal_main c fn t53 t64 env =
     mtest_main c ddd_d.p_r (fmal_row c fn) (ldbl_table c t53 t64) env"

definition fmaxl_row ::
    "fe_cfg \<Rightarrow> (fp \<Rightarrow> fp \<Rightarrow> fp call) \<Rightarrow> ll_l \<Rightarrow> mst \<Rightarrow> mst" where
  "fmaxl_row c fn p s =
    (let (y, s) = libcall (fn (dd_d.p_x p) (dd_d.p_x2 p)) s;
         e = except c s;
         s = (if \<not> checkexceptall e (dd_d.p_e p) (dd_d.p_r p)
           then (let s = c_printf ''%s:%d: bad fp exception: %s fmaxl(%La,%La)=%La, want %s''
                      [AStr (dd_d.p_file p), AInt (dd_d.p_line p), AStr (rstr c (dd_d.p_r p)),
                       AFp (dd_d.p_x p), AFp (dd_d.p_x2 p), AFp (dd_d.p_y p),
                       AStr (estr c (dd_d.p_e p))] s;
                     s = c_printfln '' got %s'' [AStr (estr c e)] s
                 in err_inc s)
           else s);
         d = ulperrl c (rm c s) y (dd_d.p_y p) (dd_d.p_dy p)
     in (if \<not> checkcr y (dd_d.p_y p) (dd_d.p_r p)
          then (let s = c_printfln ''%s:%d: %s fmaxl(%La,%La) want %La got %La ulperr %.3f = %a + %a''
                     [AStr (dd_d.p_file p), AInt (dd_d.p_line p), AStr (rstr c (dd_d.p_r p)),
                      AFp (dd_d.p_x p), AFp (dd_d.p_x2 p), AFp (dd_d.p_y p), AFp y, AFp d,
                      AFp (fp_sub flt32 (rm c s) d (dd_d.p_dy p)), AFp (dd_d.p_dy p)] s
                in err_inc s)
          else s))"

definition fmaxl_main ::
    "fe_cfg \<Rightarrow> (fp \<Rightarrow> fp \<Rightarrow> fp call) \<Rightarrow> ll_l list \<Rightarrow> ll_l list \<Rightarrow> fenv \<Rightarrow> int \<times> cout list" where
  "fmaxl_main c fn t53 t64 env =
     mtest_main c dd_d.p_r (fmaxl_row c fn) (ldbl_table c t53 t64) env"

definition fminl_row ::
    "fe_cfg \<Rightarrow> (fp \<Rightarrow> fp \<Rightarrow> fp call) \<Rightarrow> ll_l \<Rightarrow> mst \<Rightarrow> mst" where
  "fminl_row c fn p s =
    (let (y, s) = libcall (fn (dd_d.p_x p) (dd_d.p_x2 p)) s;
         e = except c s;
         s = (if \<not> checkexceptall e (dd_d.p_e p) (dd_d.p_r p)
           then (let s = c_printf ''%s:%d: bad fp exception: %s fminl(%La,%La)=%La, want %s''
                      [AStr (dd_d.p_file p), AInt (dd_d.p_line p), AStr (rstr c (dd_d.p_r p)),
                       AFp (dd_d.p_x p), AFp (dd_d.p_x2 p), AFp (dd_d.p_y p),
                       AStr (estr c (dd_d.p_e p))] s;
                     s = c_printfln '' got %s'' [AStr (estr c e)] s
                 in err_inc s)
           else s);
         d = ulperrl c (rm c s) y (dd_d.p_y p) (dd_d.p_dy p)
     in (if \<not> checkcr y (dd_d.p_y p) (dd_d.p_r p)
          then (let s = c_printfln ''%s:%d: %s fminl(%La,%La) want %La got %La ulperr %.3f = %a + %a''
                     [AStr (dd_d.p_file p), AInt (dd_d.p_line p), AStr (rstr c (dd_d.p_r p)),
                      AFp (dd_d.p_x p), AFp (dd_d.p_x2 p), AFp (dd_d.p_y p), AFp y, AFp d,
                      AFp (fp_sub flt32 (rm c s) d (dd_d.p_dy p)), AFp (dd_d.p_dy p)] s
                in err_inc s)
          else s))"

definition fminl_main ::
    "fe_cfg \<Rightarrow> (fp \<Rightarrow> fp \<Rightarrow> fp call) \<Rightarrow> ll_l list \<Rightarrow> ll_l list \<Rightarrow> fenv \<Rightarrow> int \<times> cout list" where
  "fminl_main c fn t53 t64 env =
     mtest_main c dd_d.p_r (fminl_row c fn) (ldbl_table c t53 t64) env"

definition fmodl_row ::
    "fe_cfg \<Rightarrow> (fp \<Rightarrow> fp \<Rightarrow> fp call) \<Rightarrow> ll_l \<Rightarrow> mst \<Rightarrow> mst" where
  "fmodl_row c fn p s =
    (let (y, s) = libcall (fn (dd_d.p_x p) (dd_d.p_x2 p)) s;
         e = except c s;
         s = (if \<not> checkexcept c e (dd_d.p_e p) (dd_d.p_r p)
           then (let s = c_printf ''%s:%d: bad fp exception: %s fmodl(%La,%La)=%La, want %s''
                      [AStr (dd_d.p_file p), AInt (dd_d.p_line p), AStr (rstr c (dd_d.p_r p)),
                       AFp (dd_d.p_x p), AFp (dd_d.p_x2 p), AFp (dd_d.p_y p),
                       AStr (estr c (dd_d.p_e p))] s;
                     s = c_printfln '' got %s'' [AStr (estr c e)] s
                 in err_inc s)
           else s);
         d = ulperrl c (rm c s) y (dd_d.p_y p) (dd_d.p_dy p)
     in (if \<not> checkcr y (dd_d.p_y p) (dd_d.p_r p)
          then (let s = c_printfln ''%s:%d: %s fmodl(%La,%La) want %La got %La ulperr %.3f = %a + %a''
                     [AStr (dd_d.p_file p), AInt (dd_d.p_line p), AStr (rstr c (dd_d.p_r p)),
                      AFp (dd_d.p_x p), AFp (dd_d.p_x2 p), AFp (dd_d.p_y p), AFp y, AFp d,
                      AFp (fp_sub flt32 (rm c s) d (dd_d.p_dy p)), AFp (dd_d.p_dy p)] s
                in err_inc s)
          else s))"

definition fmodl_main ::
    "fe_cfg \<Rightarrow> (fp \<Rightarrow> fp \<Rightarrow> fp call) \<Rightarrow> ll_l list \<Rightarrow> ll_l list \<Rightarrow> fenv \<Rightarrow> int \<times> cout list" where
  "fmodl_main c fn t53 t64 env =
     mtest_main c dd_d.p_r (fmodl_row c fn) (ldbl_table c t53 t64) env"

definition frexpl_row ::
    "fe_cfg \<Rightarrow> (fp \<Rightarrow> (fp \<times> int) call) \<Rightarrow> l_li \<Rightarrow> mst \<Rightarrow> mst" where
  "frexpl_row c fn p s =
    (let ((y, yi), s) = libcall (fn (d_di.p_x p)) s;
         e = except c s;
         s = (if \<not> checkexceptall e (d_di.p_e p) (d_di.p_r p)
           then (let s = c_printf ''%s:%d: bad fp exception: %s frexpl(%La)=%La,%lld, want %s''
                      [AStr (d_di.p_file p), AInt (d_di.p_line p), AStr (rstr c (d_di.p_r p)),
                       AFp (d_di.p_x p), AFp (d_di.p_y p), AInt (d_di.p_i p),
                       AStr (estr c (d_di.p_e p))] s;
                     s = c_printfln '' got %s'' [AStr (estr c e)] s
                 in err_inc s)
           else s);
         d = ulperrl c (rm c s) y (d_di.p_y p) (d_di.p_dy p)
     in (if \<not> checkcr y (d_di.p_y p) (d_di.p_r p) \<or> isfinite (d_di.p_x p)
            \<and> yi \<noteq> d_di.p_i p
          then (let s = c_printfln ''%s:%d: %s frexpl(%La) want %La,%lld got %La,%d ulperr %.3f = %a + %a''
                     [AStr (d_di.p_file p), AInt (d_di.p_line p), AStr (rstr c (d_di.p_r p)),
                      AFp (d_di.p_x p), AFp (d_di.p_y p), AInt (d_di.p_i p), AFp y, AInt yi,
                      AFp d, AFp (fp_sub flt32 (rm c s) d (d_di.p_dy p)), AFp (d_di.p_dy p)] s
                in err_inc s)
          else s))"

definition frexpl_main ::
    "fe_cfg \<Rightarrow> (fp \<Rightarrow> (fp \<times> int) call) \<Rightarrow> l_li list \<Rightarrow> l_li list \<Rightarrow> fenv \<Rightarrow> int \<times> cout list" where
  "frexpl_main c fn t53 t64 env =
     mtest_main c d_di.p_r (frexpl_row c fn) (ldbl_table c t53 t64) env"

definition hypotl_row ::
    "fe_cfg \<Rightarrow> (fp \<Rightarrow> fp \<Rightarrow> fp call) \<Rightarrow> ll_l \<Rightarrow> mst \<Rightarrow> mst" where
  "hypotl_row c fn p s =
    (let (y, s) = libcall (fn (dd_d.p_x p) (dd_d.p_x2 p)) s;
         e = except c s;
         s = (if \<not> checkexcept c e (dd_d.p_e p) (dd_d.p_r p)
           then (let s = c_printf ''%s:%d: bad fp exception: %s hypotl(%La,%La)=%La, want %s''
                      [AStr (dd_d.p_file p), AInt (dd_d.p_line p), AStr (rstr c (dd_d.p_r p)),
                       AFp (dd_d.p_x p), AFp (dd_d.p_x2 p), AFp (dd_d.p_y p),
                       AStr (estr c (dd_d.p_e p))] s;
                     s = c_printfln '' got %s'' [AStr (estr c e)] s
                 in err_inc s)
           else s);
         d = ulperrl c (rm c s) y (dd_d.p_y p) (dd_d.p_dy p)
     in (if \<not> checkulp c d (dd_d.p_r p) \<or> dd_d.p_r p = RN c
            \<and> fp_le (Fin False 1 0) (fabs d)
          then (let s = c_printfln ''%s:%d: %s hypotl(%La,%La) want %La got %La ulperr %.3f = %a + %a''
                     [AStr (dd_d.p_file p), AInt (dd_d.p_line p), AStr (rstr c (dd_d.p_r p)),
                      AFp (dd_d.p_x p), AFp (dd_d.p_x2 p), AFp (dd_d.p_y p), AFp y, AFp d,
                      AFp (fp_sub flt32 (rm c s) d (dd_d.p_dy p)), AFp (dd_d.p_dy p)] s
                in err_inc s)
          else s))"

definition hypotl_main ::
    "fe_cfg \<Rightarrow> (fp \<Rightarrow> fp \<Rightarrow> fp call) \<Rightarrow> ll_l list \<Rightarrow> ll_l list \<Rightarrow> fenv \<Rightarrow> int \<times> cout list" where
  "hypotl_main c fn t53 t64 env =
     mtest_main c dd_d.p_r (hypotl_row c fn) (ldbl_table c t53 t64) env"

definition ilogbl_row ::
    "fe_cfg \<Rightarrow> (fp \<Rightarrow> int call) \<Rightarrow> l_i \<Rightarrow> mst \<Rightarrow> mst" where
  "ilogbl_row c fn p s =
    (let (yi, s) = libcall (fn (d_i.p_x p)) s;
         e = except c s;
         s = (if \<not> checkexcept c e (d_i.p_e p) (d_i.p_r p)
           then (let s = c_printf ''%s:%d: bad fp exception: %s ilogbl(%La)=%lld, want %s''
                      [AStr (d_i.p_file p), AInt (d_i.p_line p), AStr (rstr c (d_i.p_r p)),
                       AFp (d_i.p_x p), AInt (d_i.p_i p), AStr (estr c (d_i.p_e p))] s;
                     s = c_printfln '' got %s'' [AStr (estr c e)] s
                 in err_inc s)
           else s)
     in (if yi \<noteq> d_i.p_i p
          then (let s = c_printfln ''%s:%d: %s ilogbl(%La) want %lld got %lld''
                     [AStr (d_i.p_file p), AInt (d_i.p_line p), AStr (rstr c (d_i.p_r p)),
                      AFp (d_i.p_x p), AInt (d_i.p_i p), AInt yi] s
                in err_inc s)
          else s))"

definition ilogbl_main ::
    "fe_cfg \<Rightarrow> (fp \<Rightarrow> int call) \<Rightarrow> l_i list \<Rightarrow> l_i list \<Rightarrow> fenv \<Rightarrow> int \<times> cout list" where
  "ilogbl_main c fn t53 t64 env =
     mtest_main c d_i.p_r (ilogbl_row c fn) (ldbl_table c t53 t64) env"

definition ldexpl_row ::
    "fe_cfg \<Rightarrow> (fp \<Rightarrow> int \<Rightarrow> fp call) \<Rightarrow> li_l \<Rightarrow> mst \<Rightarrow> mst" where
  "ldexpl_row c fn p s =
    (let (y, s) = libcall (fn (di_d.p_x p) (c_int (di_d.p_i p))) s;
         e = except c s;
         s = (if \<not> checkexceptall e (di_d.p_e p) (di_d.p_r p)
           then (let s = c_printf ''%s:%d: bad fp exception: %s ldexpl(%La, %lld)=%La, want %s''
                      [AStr (di_d.p_file p), AInt (di_d.p_line p), AStr (rstr c (di_d.p_r p)),
                       AFp (di_d.p_x p), AInt (di_d.p_i p), AFp (di_d.p_y p),
                       AStr (estr c (di_d.p_e p))] s;
                     s = c_printfln '' got %s'' [AStr (estr c e)] s
                 in err_inc s)
           else s);
         d = ulperrl c (rm c s) y (di_d.p_y p) (di_d.p_dy p)
     in (if \<not> checkcr y (di_d.p_y p) (di_d.p_r p)
          then (let s = c_printfln ''%s:%d: %s ldexpl(%La, %lld) want %La got %La ulperr %.3f = %a + %a''
                     [AStr (di_d.p_file p), AInt (di_d.p_line p), AStr (rstr c (di_d.p_r p)),
                      AFp (di_d.p_x p), AInt (di_d.p_i p), AFp (di_d.p_y p), AFp y, AFp d,
                      AFp (fp_sub flt32 (rm c s) d (di_d.p_dy p)), AFp (di_d.p_dy p)] s
                in err_inc s)
          else s))"

definition ldexpl_main ::
    "fe_cfg \<Rightarrow> (fp \<Rightarrow> int \<Rightarrow> fp call) \<Rightarrow> li_l list \<Rightarrow> li_l list \<Rightarrow> fenv \<Rightarrow> int \<times> cout list" where
  "ldexpl_main c fn t53 t64 env =
     mtest_main c di_d.p_r (ldexpl_row c fn) (ldbl_table c t53 t64) env"

definition lgammal_row ::
    "fe_cfg \<Rightarrow> (fp \<Rightarrow> (fp \<times> int) call) \<Rightarrow> l_li \<Rightarrow> mst \<Rightarrow> mst" where
  "lgammal_row c fn p s =
    (let ((y, yi), s) = libcall (fn (d_di.p_x p)) s;
         e = except c s;
         s = (if \<not> checkexcept c e (d_di.p_e p) (d_di.p_r p)
           then (let s = c_printf ''%s:%d: bad fp exception: %s lgammal(%La)=%La,%lld, want %s''
                      [AStr (d_di.p_file p), AInt (d_di.p_line p), AStr (rstr c (d_di.p_r p)),
                       AFp (d_di.p_x p), AFp (d_di.p_y p), AInt (d_di.p_i p),
                       AStr (estr c (d_di.p_e p))] s;
                     s = c_printfln '' got %s'' [AStr (estr c e)] s
                 in err_inc s)
           else s);
         d = ulperrl c (rm c s) y (d_di.p_y p) (d_di.p_dy p)
     in (if d_di.p_r p = RN c \<and> fp_lt (Fin False 2 0) (fabs d)
            \<or> \<not> isnan (d_di.p_x p) \<and> \<not> fp_eq (d_di.p_x p) (Inf True)
            \<and> \<not> ((d_di.p_e p AND DIVBYZERO c) \<noteq> 0)
            \<and> yi \<noteq> d_di.p_i p
          then (let s = c_printfln ''%s:%d: %s lgammal(%La) want %La,%lld got %La,%d ulperr %.3f = %a + %a''
                     [AStr (d_di.p_file p), AInt (d_di.p_line p), AStr (rstr c (d_di.p_r p)),
                      AFp (d_di.p_x p), AFp (d_di.p_y p), AInt (d_di.p_i p), AFp y, AInt yi,
                      AFp d, AFp (fp_sub flt32 (rm c s) d (d_di.p_dy p)), AFp (d_di.p_dy p)] s
                in err_inc s)
          else s))"

definition lgammal_main ::
    "fe_cfg \<Rightarrow> (fp \<Rightarrow> (fp \<times> int) call) \<Rightarrow> l_li list \<Rightarrow> l_li list \<Rightarrow> fenv \<Rightarrow> int \<times> cout list" where
  "lgammal_main c fn t53 t64 env =
     mtest_main c d_di.p_r (lgammal_row c fn) (ldbl_table c t53 t64) env"

definition lgammal_r_row ::
    "fe_cfg \<Rightarrow> (fp \<Rightarrow> (fp \<times> int) call) \<Rightarrow> l_li \<Rightarrow> mst \<Rightarrow> mst" where
  "lgammal_r_row c fn p s =
    (let ((y, yi), s) = libcall (fn (d_di.p_x p)) s;
         e = except c s;
         s = (if \<not> checkexcept c e (d_di.p_e p) (d_di.p_r p)
           then (let s = c_printf ''%s:%d: bad fp exception: %s lgammal_r(%La)=%La,%lld, want %s''
                      [AStr (d_di.p_file p), AInt (d_di.p_line p), AStr (rstr c (d_di.p_r p)),
                       AFp (d_di.p_x p), AFp (d_di.p_y p), AInt (d_di.p_i p),
                       AStr (estr c (d_di.p_e p))] s;
                     s = c_printfln '' got %s'' [AStr (estr c e)] s
                 in err_inc s)
           else s);
         d = ulperrl c (rm c s) y (d_di.p_y p) (d_di.p_dy p)
     in (if d_di.p_r p = RN c \<and> fp_lt (Fin False 2 0) (fabs d)
            \<or> \<not> isnan (d_di.p_x p) \<and> \<not> fp_eq (d_di.p_x p) (Inf True)
            \<and> \<not> ((d_di.p_e p AND DIVBYZERO c) \<noteq> 0)
            \<and> yi \<noteq> d_di.p_i p
          then (let s = c_printfln ''%s:%d: %s lgammal_r(%La) want %La,%lld got %La,%d ulperr %.3f = %a + %a''
                     [AStr (d_di.p_file p), AInt (d_di.p_line p), AStr (rstr c (d_di.p_r p)),
                      AFp (d_di.p_x p), AFp (d_di.p_y p), AInt (d_di.p_i p), AFp y, AInt yi,
                      AFp d, AFp (fp_sub flt32 (rm c s) d (d_di.p_dy p)), AFp (d_di.p_dy p)] s
                in err_inc s)
          else s))"

definition lgammal_r_main ::
    "fe_cfg \<Rightarrow> (fp \<Rightarrow> (fp \<times> int) call) \<Rightarrow> l_li list \<Rightarrow> l_li list \<Rightarrow> fenv \<Rightarrow> int \<times> cout list" where
  "lgammal_r_main c fn t53 t64 env =
     mtest_main c d_di.p_r (lgammal_r_row c fn) (ldbl_table c t53 t64) env"

definition llrintl_row ::
    "fe_cfg \<Rightarrow> (fp \<Rightarrow> int call) \<Rightarrow> l_i \<Rightarrow> mst \<Rightarrow> mst" where
  "llrintl_row c fn p s =
    (let (yi, s) = libcall (fn (d_i.p_x p)) s;
         e = except c s;
         s = (if \<not> checkexcept c e (d_i.p_e p) (d_i.p_r p)
           then (let s = c_printf ''%s:%d: bad fp exception: %s llrintl(%La)=%lld, want %s''
                      [AStr (d_i.p_file p), AInt (d_i.p_line p), AStr (rstr c (d_i.p_r p)),
                       AFp (d_i.p_x p), AInt (d_i.p_i p), AStr (estr c (d_i.p_e p))] s;
                     s = c_printfln '' got %s'' [AStr (estr c e)] s
                 in err_inc s)
           else s)
     in (if \<not> ((d_i.p_e p AND INVALID c) \<noteq> 0) \<and> yi \<noteq> d_i.p_i p
          then (let s = c_printfln ''%s:%d: %s llrintl(%La) want %lld got %lld''
                     [AStr (d_i.p_file p), AInt (d_i.p_line p), AStr (rstr c (d_i.p_r p)),
                      AFp (d_i.p_x p), AInt (d_i.p_i p), AInt yi] s
                in err_inc s)
          else s))"

definition llrintl_main ::
    "fe_cfg \<Rightarrow> (fp \<Rightarrow> int call) \<Rightarrow> l_i list \<Rightarrow> l_i list \<Rightarrow> fenv \<Rightarrow> int \<times> cout list" where
  "llrintl_main c fn t53 t64 env =
     mtest_main c d_i.p_r (llrintl_row c fn) (ldbl_table c t53 t64) env"

definition llroundl_row ::
    "fe_cfg \<Rightarrow> (fp \<Rightarrow> int call) \<Rightarrow> l_i \<Rightarrow> mst \<Rightarrow> mst" where
  "llroundl_row c fn p s =
    (let (yi, s) = libcall (fn (d_i.p_x p)) s;
         e = except c s;
         s = (if \<not> checkexcept c e (d_i.p_e p) (d_i.p_r p)
              \<and> (e OR INEXACT c) \<noteq> d_i.p_e p
           then (let s = c_printf ''%s:%d: bad fp exception: %s llroundl(%La)=%lld, want %s''
                      [AStr (d_i.p_file p), AInt (d_i.p_line p), AStr (rstr c (d_i.p_r p)),
                       AFp (d_i.p_x p), AInt (d_i.p_i p), AStr (estr c (d_i.p_e p))] s;
                     s = c_printfln '' got %s'' [AStr (estr c e)] s
                 in err_inc s)
           else s)
     in (if \<not> ((d_i.p_e p AND INVALID c) \<noteq> 0) \<and> yi \<noteq> d_i.p_i p
          then (let s = c_printfln ''%s:%d: %s llroundl(%La) want %lld got %lld''
                     [AStr (d_i.p_file p), AInt (d_i.p_line p), AStr (rstr c (d_i.p_r p)),
                      AFp (d_i.p_x p), AInt (d_i.p_i p), AInt yi] s
                in err_inc s)
          else s))"

definition llroundl_main ::
    "fe_cfg \<Rightarrow> (fp \<Rightarrow> int call) \<Rightarrow> l_i list \<Rightarrow> l_i list \<Rightarrow> fenv \<Rightarrow> int \<times> cout list" where
  "llroundl_main c fn t53 t64 env =
     mtest_main c d_i.p_r (llroundl_row c fn) (ldbl_table c t53 t64) env"

definition log10l_row ::
    "fe_cfg \<Rightarrow> (fp \<Rightarrow> fp call) \<Rightarrow> l_l \<Rightarrow> mst \<Rightarrow> mst" where
  "log10l_row c fn p s =
    (let (y, s) = libcall (fn (d_d.p_x p)) s;
         e = except c s;
         s = (if \<not> checkexcept c e (d_d.p_e p) (d_d.p_r p)
           then (let s = c_printf ''%s:%d: bad fp exception: %s log10l(%La)=%La, want %s''
                      [AStr (d_d.p_file p), AInt (d_d.p_line p), AStr (rstr c (d_d.p_r p)),
                       AFp (d_d.p_x p), AFp (d_d.p_y p), AStr (estr c (d_d.p_e p))] s;
                     s = c_printfln '' got %s'' [AStr (estr c e)] s
                 in err_inc s)
           else s);
         d = ulperrl c (rm c s) y (d_d.p_y p) (d_d.p_dy p)
     in (if \<not> checkulp c d (d_d.p_r p)
          then (let s = c_printfln ''%s:%d: %s log10l(%La) want %La got %La ulperr %.3f = %a + %a''
                     [AStr (d_d.p_file p), AInt (d_d.p_line p), AStr (rstr c (d_d.p_r p)),
                      AFp (d_d.p_x p), AFp (d_d.p_y p), AFp y, AFp d,
                      AFp (fp_sub flt32 (rm c s) d (d_d.p_dy p)), AFp (d_d.p_dy p)] s
                in err_inc s)
          else s))"

definition log10l_main ::
    "fe_cfg \<Rightarrow> (fp \<Rightarrow> fp call) \<Rightarrow> l_l list \<Rightarrow> l_l list \<Rightarrow> fenv \<Rightarrow> int \<times> cout list" where
  "log10l_main c fn t53 t64 env =
     mtest_main c d_d.p_r (log10l_row c fn) (ldbl_table c t53 t64) env"

definition log1pl_row ::
    "fe_cfg \<Rightarrow> (fp \<Rightarrow> fp call) \<Rightarrow> l_l \<Rightarrow> mst \<Rightarrow> mst" where
  "log1pl_row c fn p s =
    (let (y, s) = libcall (fn (d_d.p_x p)) s;
         e = except c s;
         s = (if \<not> checkexcept c e (d_d.p_e p) (d_d.p_r p)
           then (let s = c_printf ''%s:%d: bad fp exception: %s log1pl(%La)=%La, want %s''
                      [AStr (d_d.p_file p), AInt (d_d.p_line p), AStr (rstr c (d_d.p_r p)),
                       AFp (d_d.p_x p), AFp (d_d.p_y p), AStr (estr c (d_d.p_e p))] s;
                     s = c_printfln '' got %s'' [AStr (estr c e)] s
                 in err_inc s)
           else s);
         d = ulperrl c (rm c s) y (d_d.p_y p) (d_d.p_dy p)
     in (if \<not> checkulp c d (d_d.p_r p)
          then (let s = c_printfln ''%s:%d: %s log1pl(%La) want %La got %La ulperr %.3f = %a + %a''
                     [AStr (d_d.p_file p), AInt (d_d.p_line p), AStr (rstr c (d_d.p_r p)),
                      AFp (d_d.p_x p), AFp (d_d.p_y p), AFp y, AFp d,
                      AFp (fp_sub flt32 (rm c s) d (d_d.p_dy p)), AFp (d_d.p_dy p)] s
                in err_inc s)
          else s))"

definition log1pl_main ::
    "fe_cfg \<Rightarrow> (fp \<Rightarrow> fp call) \<Rightarrow> l_l list \<Rightarrow> l_l list \<Rightarrow> fenv \<Rightarrow> int \<times> cout list" where
  "log1pl_main c fn t53 t64 env =
     mtest_main c d_d.p_r (log1pl_row c fn) (ldbl_table c t53 t64) env"

definition log2l_row ::
    "fe_cfg \<Rightarrow> (fp \<Rightarrow> fp call) \<Rightarrow> l_l \<Rightarrow> mst \<Rightarrow> mst" where
  "log2l_row c fn p s =
    (let (y, s) = libcall (fn (d_d.p_x p)) s;
         e = except c s;
         s = (if \<not> checkexcept c e (d_d.p_e p) (d_d.p_r p)
           then (let s = c_printf ''%s:%d: bad fp exception: %s log2l(%La)=%La, want %s''
                      [AStr (d_d.p_file p), AInt (d_d.p_line p), AStr (rstr c (d_d.p_r p)),
                       AFp (d_d.p_x p), AFp (d_d.p_y p), AStr (estr c (d_d.p_e p))] s;
                     s = c_printfln '' got %s'' [AStr (estr c e)] s
                 in err_inc s)
           else s);
         d = ulperrl c (rm c s) y (d_d.p_y p) (d_d.p_dy p)
     in (if \<not> checkulp c d (d_d.p_r p)
          then (let s = c_printfln ''%s:%d: %s log2l(%La) want %La got %La ulperr %.3f = %a + %a''
                     [AStr (d_d.p_file p), AInt (d_d.p_line p), AStr (rstr c (d_d.p_r p)),
                      AFp (d_d.p_x p), AFp (d_d.p_y p), AFp y, AFp d,
                      AFp (fp_sub flt32 (rm c s) d (d_d.p_dy p)), AFp (d_d.p_dy p)] s
                in err_inc s)
          else s))"

definition log2l_main ::
    "fe_cfg \<Rightarrow> (fp \<Rightarrow> fp call) \<Rightarrow> l_l list \<Rightarrow> l_l list \<Rightarrow> fenv \<Rightarrow> int \<times> cout list" where
  "log2l_main c fn t53 t64 env =
     mtest_main c d_d.p_r (log2l_row c fn) (ldbl_table c t53 t64) env"

definition logbl_row ::
    "fe_cfg \<Rightarrow> (fp \<Rightarrow> fp call) \<Rightarrow> l_l \<Rightarrow> mst \<Rightarrow> mst" where
  "logbl_row c fn p s =
    (let (y, s) = libcall (fn (d_d.p_x p)) s;
         e = except c s;
         s = (if \<not> checkexceptall e (d_d.p_e p) (d_d.p_r p)
           then (let s = c_printf ''%s:%d: bad fp exception: %s logbl(%La)=%La, want %s''
                      [AStr (d_d.p_file p), AInt (d_d.p_line p), AStr (rstr c (d_d.p_r p)),
                       AFp (d_d.p_x p), AFp (d_d.p_y p), AStr (estr c (d_d.p_e p))] s;
                     s = c_printfln '' got %s'' [AStr (estr c e)] s
                 in err_inc s)
           else s);
         d = ulperrl c (rm c s) y (d_d.p_y p) (d_d.p_dy p)
     in (if \<not> checkcr y (d_d.p_y p) (d_d.p_r p)
          then (let s = c_printfln ''%s:%d: %s logbl(%La) want %La got %La ulperr %.3f = %a + %a''
                     [AStr (d_d.p_file p), AInt (d_d.p_line p), AStr (rstr c (d_d.p_r p)),
                      AFp (d_d.p_x p), AFp (d_d.p_y p), AFp y, AFp d,
                      AFp (fp_sub flt32 (rm c s) d (d_d.p_dy p)), AFp (d_d.p_dy p)] s
                in err_inc s)
          else s))"

definition logbl_main ::
    "fe_cfg \<Rightarrow> (fp \<Rightarrow> fp call) \<Rightarrow> l_l list \<Rightarrow> l_l list \<Rightarrow> fenv \<Rightarrow> int \<times> cout list" where
  "logbl_main c fn t53 t64 env =
     mtest_main c d_d.p_r (logbl_row c fn) (ldbl_table c t53 t64) env"

definition logl_row ::
    "fe_cfg \<Rightarrow> (fp \<Rightarrow> fp call) \<Rightarrow> l_l \<Rightarrow> mst \<Rightarrow> mst" where
  "logl_row c fn p s =
    (let (y, s) = libcall (fn (d_d.p_x p)) s;
         e = except c s;
         s = (if \<not> checkexcept c e (d_d.p_e p) (d_d.p_r p)
           then (let s = c_printf ''%s:%d: bad fp exception: %s logl(%La)=%La, want %s''
                      [AStr (d_d.p_file p), AInt (d_d.p_line p), AStr (rstr c (d_d.p_r p)),
                       AFp (d_d.p_x p), AFp (d_d.p_y p), AStr (estr c (d_d.p_e p))] s;
                     s = c_printfln '' got %s'' [AStr (estr c e)] s
                 in err_inc s)
           else s);
         d = ulperrl c (rm c s) y (d_d.p_y p) (d_d.p_dy p)
     in (if \<not> checkulp c d (d_d.p_r p)
          then (let s = c_printfln ''%s:%d: %s logl(%La) want %La got %La ulperr %.3f = %a + %a''
                     [AStr (d_d.p_file p), AInt (d_d.p_line p), AStr (rstr c (d_d.p_r p)),
                      AFp (d_d.p_x p), AFp (d_d.p_y p), AFp y, AFp d,
                      AFp (fp_sub flt32 (rm c s) d (d_d.p_dy p)), AFp (d_d.p_dy p)] s
                in err_inc s)
          else s))"

definition logl_main ::
    "fe_cfg \<Rightarrow> (fp \<Rightarrow> fp call) \<Rightarrow> l_l list \<Rightarrow> l_l list \<Rightarrow> fenv \<Rightarrow> int \<times> cout list" where
  "logl_main c fn t53 t64 env =
     mtest_main c d_d.p_r (logl_row c fn) (ldbl_table c t53 t64) env"

definition lrintl_row ::
    "fe_cfg \<Rightarrow> (fp \<Rightarrow> int call) \<Rightarrow> l_i \<Rightarrow> mst \<Rightarrow> mst" where
  "lrintl_row c fn p s =
    (let (yi, s) = libcall (fn (d_i.p_x p)) s;
         e = except c s;
         s = (if \<not> checkexcept c e (d_i.p_e p) (d_i.p_r p)
           then (let s = c_printf ''%s:%d: bad fp exception: %s lrintl(%La)=%lld, want %s''
                      [AStr (d_i.p_file p), AInt (d_i.p_line p), AStr (rstr c (d_i.p_r p)),
                       AFp (d_i.p_x p), AInt (d_i.p_i p), AStr (estr c (d_i.p_e p))] s;
                     s = c_printfln '' got %s'' [AStr (estr c e)] s
                 in err_inc s)
           else s)
     in (if \<not> ((d_i.p_e p AND INVALID c) \<noteq> 0) \<and> yi \<noteq> d_i.p_i p
          then (let s = c_printfln ''%s:%d: %s lrintl(%La) want %lld got %lld''
                     [AStr (d_i.p_file p), AInt (d_i.p_line p), AStr (rstr c (d_i.p_r p)),
                      AFp (d_i.p_x p), AInt (d_i.p_i p), AInt yi] s
                in err_inc s)
          else s))"

definition lrintl_main ::
    "fe_cfg \<Rightarrow> (fp \<Rightarrow> int call) \<Rightarrow> l_i list \<Rightarrow> l_i list \<Rightarrow> fenv \<Rightarrow> int \<times> cout list" where
  "lrintl_main c fn t53 t64 env =
     mtest_main c d_i.p_r (lrintl_row c fn) (ldbl_table c t53 t64) env"

definition lroundl_row ::
    "fe_cfg \<Rightarrow> (fp \<Rightarrow> int call) \<Rightarrow> l_i \<Rightarrow> mst \<Rightarrow> mst" where
  "lroundl_row c fn p s =
    (let (yi, s) = libcall (fn (d_i.p_x p)) s;
         e = except c s;
         s = (if \<not> checkexcept c e (d_i.p_e p) (d_i.p_r p)
              \<and> (e OR INEXACT c) \<noteq> d_i.p_e p
           then (let s = c_printf ''%s:%d: bad fp exception: %s lroundl(%La)=%lld, want %s''
                      [AStr (d_i.p_file p), AInt (d_i.p_line p), AStr (rstr c (d_i.p_r p)),
                       AFp (d_i.p_x p), AInt (d_i.p_i p), AStr (estr c (d_i.p_e p))] s;
                     s = c_printfln '' got %s'' [AStr (estr c e)] s
                 in err_inc s)
           else s)
     in (if \<not> ((d_i.p_e p AND INVALID c) \<noteq> 0) \<and> yi \<noteq> d_i.p_i p
          then (let s = c_printfln ''%s:%d: %s lroundl(%La) want %lld got %lld''
                     [AStr (d_i.p_file p), AInt (d_i.p_line p), AStr (rstr c (d_i.p_r p)),
                      AFp (d_i.p_x p), AInt (d_i.p_i p), AInt yi] s
                in err_inc s)
          else s))"

definition lroundl_main ::
    "fe_cfg \<Rightarrow> (fp \<Rightarrow> int call) \<Rightarrow> l_i list \<Rightarrow> l_i list \<Rightarrow> fenv \<Rightarrow> int \<times> cout list" where
  "lroundl_main c fn t53 t64 env =
     mtest_main c d_i.p_r (lroundl_row c fn) (ldbl_table c t53 t64) env"

definition modfl_row ::
    "fe_cfg \<Rightarrow> (fp \<Rightarrow> (fp \<times> fp) call) \<Rightarrow> l_ll \<Rightarrow> mst \<Rightarrow> mst" where
  "modfl_row c fn p s =
    (let ((y, yi), s) = libcall (fn (d_dd.p_x p)) s;
         e = except c s;
         s = (if \<not> checkexceptall (e OR INEXACT c) (d_dd.p_e p OR INEXACT c) (d_dd.p_r p)
           then (let s = c_printf ''%s:%d: bad fp exception: %s modf(%La)=%La,%La, want %s''
                      [AStr (d_dd.p_file p), AInt (d_dd.p_line p), AStr (rstr c (d_dd.p_r p)),
                       AFp (d_dd.p_x p), AFp (d_dd.p_y p), AFp (d_dd.p_y2 p),
                       AStr (estr c (d_dd.p_e p))] s;
                     s = c_printfln '' got %s'' [AStr (estr c e)] s
                 in err_inc s)
           else s);
         d = ulperr (rm c s) (to_dbl (rm c s) y) (to_dbl (rm c s) (d_dd.p_y p)) (d_dd.p_dy p);
         di = ulperr (rm c s) (to_dbl (rm c s) yi) (to_dbl (rm c s) (d_dd.p_y2 p)) (d_dd.p_dy2 p)
     in (if \<not> checkcr y (d_dd.p_y p) (d_dd.p_r p)
            \<or> \<not> checkcr yi (d_dd.p_y2 p) (d_dd.p_r p)
          then (let s = c_printfln ''%s:%d: %s modf(%La) want %La,%La got %La,%La, ulperr %.3f = %a + %a, %.3f = %a + %a''
                     [AStr (d_dd.p_file p), AInt (d_dd.p_line p), AStr (rstr c (d_dd.p_r p)),
                      AFp (d_dd.p_x p), AFp (d_dd.p_y p), AFp (d_dd.p_y2 p), AFp y, AFp yi, AFp d,
                      AFp (fp_sub flt32 (rm c s) d (d_dd.p_dy p)), AFp (d_dd.p_dy p), AFp di,
                      AFp (fp_sub flt32 (rm c s) di (d_dd.p_dy2 p)), AFp (d_dd.p_dy2 p)] s
                in err_inc s)
          else s))"

definition modfl_main ::
    "fe_cfg \<Rightarrow> (fp \<Rightarrow> (fp \<times> fp) call) \<Rightarrow> l_ll list \<Rightarrow> l_ll list \<Rightarrow> fenv \<Rightarrow> int \<times> cout list" where
  "modfl_main c fn t53 t64 env =
     mtest_main c d_dd.p_r (modfl_row c fn) (ldbl_table c t53 t64) env"

definition nearbyintl_row ::
    "fe_cfg \<Rightarrow> (fp \<Rightarrow> fp call) \<Rightarrow> l_l \<Rightarrow> mst \<Rightarrow> mst" where
  "nearbyintl_row c fn p s =
    (let (y, s) = libcall (fn (d_d.p_x p)) s;
         e = except c s;
         s = (if \<not> checkexceptall e (d_d.p_e p) (d_d.p_r p)
           then (let s = c_printf ''%s:%d: bad fp exception: %s nearbyintl(%La)=%La, want %s''
                      [AStr (d_d.p_file p), AInt (d_d.p_line p), AStr (rstr c (d_d.p_r p)),
                       AFp (d_d.p_x p), AFp (d_d.p_y p), AStr (estr c (d_d.p_e p))] s;
                     s = c_printfln '' got %s'' [AStr (estr c e)] s
                 in err_inc s)
           else s);
         d = ulperrl c (rm c s) y (d_d.p_y p) (d_d.p_dy p)
     in (if \<not> checkcr y (d_d.p_y p) (d_d.p_r p)
          then (let s = c_printfln ''%s:%d: %s nearbyintl(%La) want %La got %La ulperr %.3f = %a + %a''
                     [AStr (d_d.p_file p), AInt (d_d.p_line p), AStr (rstr c (d_d.p_r p)),
                      AFp (d_d.p_x p), AFp (d_d.p_y p), AFp y, AFp d,
                      AFp (fp_sub flt32 (rm c s) d (d_d.p_dy p)), AFp (d_d.p_dy p)] s
                in err_inc s)
          else s))"

definition nearbyintl_main ::
    "fe_cfg \<Rightarrow> (fp \<Rightarrow> fp call) \<Rightarrow> l_l list \<Rightarrow> l_l list \<Rightarrow> fenv \<Rightarrow> int \<times> cout list" where
  "nearbyintl_main c fn t53 t64 env =
     mtest_main c d_d.p_r (nearbyintl_row c fn) (ldbl_table c t53 t64) env"

definition nextafterl_row ::
    "fe_cfg \<Rightarrow> (fp \<Rightarrow> fp \<Rightarrow> fp call) \<Rightarrow> ll_l \<Rightarrow> mst \<Rightarrow> mst" where
  "nextafterl_row c fn p s =
    (let (y, s) = libcall (fn (dd_d.p_x p) (dd_d.p_x2 p)) s;
         e = except c s;
         s = (if \<not> checkexceptall e (dd_d.p_e p) (dd_d.p_r p)
           then (let s = c_printf ''%s:%d: bad fp exception: %s nextafterl(%La,%La)=%La, want %s''
                      [AStr (dd_d.p_file p), AInt (dd_d.p_line p), AStr (rstr c (dd_d.p_r p)),
                       AFp (dd_d.p_x p), AFp (dd_d.p_x2 p), AFp (dd_d.p_y p),
                       AStr (estr c (dd_d.p_e p))] s;
                     s = c_printfln '' got %s'' [AStr (estr c e)] s
                 in err_inc s)
           else s);
         d = ulperrl c (rm c s) y (dd_d.p_y p) (dd_d.p_dy p)
     in (if \<not> checkcr y (dd_d.p_y p) (dd_d.p_r p)
          then (let s = c_printfln ''%s:%d: %s nextafterl(%La,%La) want %La got %La ulperr %.3f = %a + %a''
                     [AStr (dd_d.p_file p), AInt (dd_d.p_line p), AStr (rstr c (dd_d.p_r p)),
                      AFp (dd_d.p_x p), AFp (dd_d.p_x2 p), AFp (dd_d.p_y p), AFp y, AFp d,
                      AFp (fp_sub flt32 (rm c s) d (dd_d.p_dy p)), AFp (dd_d.p_dy p)] s
                in err_inc s)
          else s))"

definition nextafterl_main ::
    "fe_cfg \<Rightarrow> (fp \<Rightarrow> fp \<Rightarrow> fp call) \<Rightarrow> ll_l list \<Rightarrow> ll_l list \<Rightarrow> fenv \<Rightarrow> int \<times> cout list" where
  "nextafterl_main c fn t53 t64 env =
     mtest_main c dd_d.p_r (nextafterl_row c fn) (ldbl_table c t53 t64) env"

definition nexttowardl_row ::
    "fe_cfg \<Rightarrow> (fp \<Rightarrow> fp \<Rightarrow> fp call) \<Rightarrow> ll_l \<Rightarrow> mst \<Rightarrow> mst" where
  "nexttowardl_row c fn p s =
    (let (y, s) = libcall (fn (dd_d.p_x p) (dd_d.p_x2 p)) s;
         e = except c s;
         s = (if \<not> checkexceptall e (dd_d.p_e p) (dd_d.p_r p)
           then (let s = c_printf ''%s:%d: bad fp exception: %s nexttowardl(%La,%La)=%La, want %s''
                      [AStr (dd_d.p_file p), AInt (dd_d.p_line p), AStr (rstr c (dd_d.p_r p)),
                       AFp (dd_d.p_x p), AFp (dd_d.p_x2 p), AFp (dd_d.p_y p),
                       AStr (estr c (dd_d.p_e p))] s;
                     s = c_printfln '' got %s'' [AStr (estr c e)] s
                 in err_inc s)
           else s);
         d = ulperrl c (rm c s) y (dd_d.p_y p) (dd_d.p_dy p)
     in (if \<not> checkcr y (dd_d.p_y p) (dd_d.p_r p)
          then (let s = c_printfln ''%s:%d: %s nexttowardl(%La,%La) want %La got %La ulperr %.3f = %a + %a''
                     [AStr (dd_d.p_file p), AInt (dd_d.p_line p), AStr (rstr c (dd_d.p_r p)),
                      AFp (dd_d.p_x p), AFp (dd_d.p_x2 p), AFp (dd_d.p_y p), AFp y, AFp d,
                      AFp (fp_sub flt32 (rm c s) d (dd_d.p_dy p)), AFp (dd_d.p_dy p)] s
                in err_inc s)
          else s))"

definition nexttowardl_main ::
    "fe_cfg \<Rightarrow> (fp \<Rightarrow> fp \<Rightarrow> fp call) \<Rightarrow> ll_l list \<Rightarrow> ll_l list \<Rightarrow> fenv \<Rightarrow> int \<times> cout list" where
  "nexttowardl_main c fn t53 t64 env =
     mtest_main c dd_d.p_r (nexttowardl_row c fn) (ldbl_table c t53 t64) env"

definition pow10l_row ::
    "fe_cfg \<Rightarrow> (fp \<Rightarrow> fp call) \<Rightarrow> l_l \<Rightarrow> mst \<Rightarrow> mst" where
  "pow10l_row c fn p s =
    (let (y, s) = libcall (fn (d_d.p_x p)) s;
         e = except c s;
         s = (if \<not> checkexcept c e (d_d.p_e p) (d_d.p_r p)
           then (let s = c_printf ''%s:%d: bad fp exception: %s pow10l(%La)=%La, want %s''
                      [AStr (d_d.p_file p), AInt (d_d.p_line p), AStr (rstr c (d_d.p_r p)),
                       AFp (d_d.p_x p), AFp (d_d.p_y p), AStr (estr c (d_d.p_e p))] s;
                     s = c_printfln '' got %s'' [AStr (estr c e)] s
                 in err_inc s)
           else s);
         d = ulperrl c (rm c s) y (d_d.p_y p) (d_d.p_dy p)
     in (if \<not> checkulp c d (d_d.p_r p)
          then (let s = c_printfln ''%s:%d: %s pow10l(%La) want %La got %La ulperr %.3f = %a + %a''
                     [AStr (d_d.p_file p), AInt (d_d.p_line p), AStr (rstr c (d_d.p_r p)),
                      AFp (d_d.p_x p), AFp (d_d.p_y p), AFp y, AFp d,
                      AFp (fp_sub flt32 (rm c s) d (d_d.p_dy p)), AFp (d_d.p_dy p)] s
                in err_inc s)
          else s))"

definition pow10l_main ::
    "fe_cfg \<Rightarrow> (fp \<Rightarrow> fp call) \<Rightarrow> l_l list \<Rightarrow> l_l list \<Rightarrow> fenv \<Rightarrow> int \<times> cout list" where
  "pow10l_main c fn t53 t64 env =
     mtest_main c d_d.p_r (pow10l_row c fn) (ldbl_table c t53 t64) env"

definition powl_row ::
    "fe_cfg \<Rightarrow> (fp \<Rightarrow> fp \<Rightarrow> fp call) \<Rightarrow> ll_l \<Rightarrow> mst \<Rightarrow> mst" where
  "powl_row c fn p s =
    (let (y, s) = libcall (fn (dd_d.p_x p) (dd_d.p_x2 p)) s;
         e = except c s;
         s = (if \<not> checkexcept c e (dd_d.p_e p) (dd_d.p_r p)
           then (let s = c_printf ''%s:%d: bad fp exception: %s powl(%La,%La)=%La, want %s''
                      [AStr (dd_d.p_file p), AInt (dd_d.p_line p), AStr (rstr c (dd_d.p_r p)),
                       AFp (dd_d.p_x p), AFp (dd_d.p_x2 p), AFp (dd_d.p_y p),
                       AStr (estr c (dd_d.p_e p))] s;
                     s = c_printfln '' got %s'' [AStr (estr c e)] s
                 in err_inc s)
           else s);
         d = ulperrl c (rm c s) y (dd_d.p_y p) (dd_d.p_dy p)
     in (if \<not> checkulp c d (dd_d.p_r p)
          then (let s = c_printfln ''%s:%d: %s powl(%La,%La) want %La got %La ulperr %.3f = %a + %a''
                     [AStr (dd_d.p_file p), AInt (dd_d.p_line p), AStr (rstr c (dd_d.p_r p)),
                      AFp (dd_d.p_x p), AFp (dd_d.p_x2 p), AFp (dd_d.p_y p), AFp y, AFp d,
                      AFp (fp_sub flt32 (rm c s) d (dd_d.p_dy p)), AFp (dd_d.p_dy p)] s
                in err_inc s)
          else s))"

definition powl_main ::
    "fe_cfg \<Rightarrow> (fp \<Rightarrow> fp \<Rightarrow> fp call) \<Rightarrow> ll_l list \<Rightarrow> ll_l list \<Rightarrow> fenv \<Rightarrow> int \<times> cout list" where
  "powl_main c fn t53 t64 env =
     mtest_main c dd_d.p_r (powl_row c fn) (ldbl_table c t53 t64) env"

definition remainderl_row ::
    "fe_cfg \<Rightarrow> (fp \<Rightarrow> fp \<Rightarrow> fp call) \<Rightarrow> ll_l \<Rightarrow> mst \<Rightarrow> mst" where
  "remainderl_row c fn p s =
    (let (y, s) = libcall (fn (dd_d.p_x p) (dd_d.p_x2 p)) s;
         e = except c s;
         s = (if \<not> checkexcept c e (dd_d.p_e p) (dd_d.p_r p)
           then (let s = c_printf ''%s:%d: bad fp exception: %s remainderl(%La,%La)=%La, want %s''
                      [AStr (dd_d.p_file p), AInt (dd_d.p_line p), AStr (rstr c (dd_d.p_r p)),
                       AFp (dd_d.p_x p), AFp (dd_d.p_x2 p), AFp (dd_d.p_y p),
                       AStr (estr c (dd_d.p_e p))] s;
                     s = c_printfln '' got %s'' [AStr (estr c e)] s
                 in err_inc s)
           else s);
         d = ulperrl c (rm c s) y (dd_d.p_y p) (dd_d.p_dy p)
     in (if \<not> checkcr y (dd_d.p_y p) (dd_d.p_r p)
          then (let s = c_printfln ''%s:%d: %s remainderl(%La,%La) want %La got %La ulperr %.3f = %a + %a''
                     [AStr (dd_d.p_file p), AInt (dd_d.p_line p), AStr (rstr c (dd_d.p_r p)),
                      AFp (dd_d.p_x p), AFp (dd_d.p_x2 p), AFp (dd_d.p_y p), AFp y, AFp d,
                      AFp (fp_sub flt32 (rm c s) d (dd_d.p_dy p)), AFp (dd_d.p_dy p)] s
                in err_inc s)
          else s))"

definition remainderl_main ::
    "fe_cfg \<Rightarrow> (fp \<Rightarrow> fp \<Rightarrow> fp call) \<Rightarrow> ll_l list \<Rightarrow> ll_l list \<Rightarrow> fenv \<Rightarrow> int \<times> cout list" where
  "remainderl_main c fn t53 t64 env =
     mtest_main c dd_d.p_r (remainderl_row c fn) (ldbl_table c t53 t64) env"

definition remquol_row ::
    "fe_cfg \<Rightarrow> (fp \<Rightarrow> fp \<Rightarrow> (fp \<times> int) call) \<Rightarrow> ll_li \<Rightarrow> mst \<Rightarrow> mst" where
  "remquol_row c fn p s =
    (let ((y, yi), s) = libcall (fn (dd_di.p_x p) (dd_di.p_x2 p)) s;
         e = except c s;
         s = (if \<not> checkexcept c e (dd_di.p_e p) (dd_di.p_r p)
           then (let s = c_printf ''%s:%d: bad fp exception: %s remquol(%La,%La)=%La,%lld, want %s''
                      [AStr (dd_di.p_file p), AInt (dd_di.p_line p), AStr (rstr c (dd_di.p_r p)),
                       AFp (dd_di.p_x p), AFp (dd_di.p_x2 p), AFp (dd_di.p_y p),
                       AInt (dd_di.p_i p), AStr (estr c (dd_di.p_e p))] s;
                     s = c_printfln '' got %s'' [AStr (estr c e)] s
                 in err_inc s)
           else s);
         d = ulperr (rm c s) (to_dbl (rm c s) y) (to_dbl (rm c s) (dd_di.p_y p)) (dd_di.p_dy p)
     in (if \<not> checkcr y (dd_di.p_y p) (dd_di.p_r p) \<or> \<not> isnan (dd_di.p_y p)
            \<and> (yi AND 7) \<noteq> (dd_di.p_i p AND 7) \<or> \<not> isnan (dd_di.p_y p)
            \<and> (yi < 0) \<noteq> (dd_di.p_i p < 0)
          then (let s = c_printfln ''%s:%d: %s remquol(%La,%La) want %La,%lld got %La,%d ulperr %.3f = %a + %a''
                     [AStr (dd_di.p_file p), AInt (dd_di.p_line p), AStr (rstr c (dd_di.p_r p)),
                      AFp (dd_di.p_x p), AFp (dd_di.p_x2 p), AFp (dd_di.p_y p),
                      AInt (dd_di.p_i p), AFp y, AInt yi, AFp d,
                      AFp (fp_sub flt32 (rm c s) d (dd_di.p_dy p)), AFp (dd_di.p_dy p)] s
                in err_inc s)
          else s))"

definition remquol_main ::
    "fe_cfg \<Rightarrow> (fp \<Rightarrow> fp \<Rightarrow> (fp \<times> int) call) \<Rightarrow> ll_li list \<Rightarrow> ll_li list \<Rightarrow> fenv \<Rightarrow> int \<times> cout list" where
  "remquol_main c fn t53 t64 env =
     mtest_main c dd_di.p_r (remquol_row c fn) (ldbl_table c t53 t64) env"

definition rintl_row ::
    "fe_cfg \<Rightarrow> (fp \<Rightarrow> fp call) \<Rightarrow> l_l \<Rightarrow> mst \<Rightarrow> mst" where
  "rintl_row c fn p s =
    (let (y, s) = libcall (fn (d_d.p_x p)) s;
         e = except c s;
         s = (if \<not> checkexceptall e (d_d.p_e p) (d_d.p_r p)
           then (let s = c_printf ''%s:%d: bad fp exception: %s rintl(%La)=%La, want %s''
                      [AStr (d_d.p_file p), AInt (d_d.p_line p), AStr (rstr c (d_d.p_r p)),
                       AFp (d_d.p_x p), AFp (d_d.p_y p), AStr (estr c (d_d.p_e p))] s;
                     s = c_printfln '' got %s'' [AStr (estr c e)] s
                 in err_inc s)
           else s);
         d = ulperrl c (rm c s) y (d_d.p_y p) (d_d.p_dy p)
     in (if \<not> checkcr y (d_d.p_y p) (d_d.p_r p)
          then (let s = c_printfln ''%s:%d: %s rintl(%La) want %La got %La ulperr %.3f = %a + %a''
                     [AStr (d_d.p_file p), AInt (d_d.p_line p), AStr (rstr c (d_d.p_r p)),
                      AFp (d_d.p_x p), AFp (d_d.p_y p), AFp y, AFp d,
                      AFp (fp_sub flt32 (rm c s) d (d_d.p_dy p)), AFp (d_d.p_dy p)] s
                in err_inc s)
          else s))"

definition rintl_main ::
    "fe_cfg \<Rightarrow> (fp \<Rightarrow> fp call) \<Rightarrow> l_l list \<Rightarrow> l_l list \<Rightarrow> fenv \<Rightarrow> int \<times> cout list" where
  "rintl_main c fn t53 t64 env =
     mtest_main c d_d.p_r (rintl_row c fn) (ldbl_table c t53 t64) env"

definition roundl_row ::
    "fe_cfg \<Rightarrow> (fp \<Rightarrow> fp call) \<Rightarrow> l_l \<Rightarrow> mst \<Rightarrow> mst" where
  "roundl_row c fn p s =
    (let (y, s) = libcall (fn (d_d.p_x p)) s;
         e = except c s;
         s = (if \<not> checkexceptall e (d_d.p_e p) (d_d.p_r p)
              \<and> (e OR INEXACT c) \<noteq> d_d.p_e p
           then (let s = c_printf ''%s:%d: bad fp exception: %s roundl(%La)=%La, want %s''
                      [AStr (d_d.p_file p), AInt (d_d.p_line p), AStr (rstr c (d_d.p_r p)),
                       AFp (d_d.p_x p), AFp (d_d.p_y p), AStr (estr c (d_d.p_e p))] s;
                     s = c_printfln '' got %s'' [AStr (estr c e)] s
                 in err_inc s)
           else s);
         d = ulperrl c (rm c s) y (d_d.p_y p) (d_d.p_dy p)
     in (if \<not> checkcr y (d_d.p_y p) (d_d.p_r p)
          then (let s = c_printfln ''%s:%d: %s roundl(%La) want %La got %La ulperr %.3f = %a + %a''
                     [AStr (d_d.p_file p), AInt (d_d.p_line p), AStr (rstr c (d_d.p_r p)),
                      AFp (d_d.p_x p), AFp (d_d.p_y p), AFp y, AFp d,
                      AFp (fp_sub flt32 (rm c s) d (d_d.p_dy p)), AFp (d_d.p_dy p)] s
                in err_inc s)
          else s))"

definition roundl_main ::
    "fe_cfg \<Rightarrow> (fp \<Rightarrow> fp call) \<Rightarrow> l_l list \<Rightarrow> l_l list \<Rightarrow> fenv \<Rightarrow> int \<times> cout list" where
  "roundl_main c fn t53 t64 env =
     mtest_main c d_d.p_r (roundl_row c fn) (ldbl_table c t53 t64) env"

definition scalblnl_row ::
    "fe_cfg \<Rightarrow> (fp \<Rightarrow> int \<Rightarrow> fp call) \<Rightarrow> li_l \<Rightarrow> mst \<Rightarrow> mst" where
  "scalblnl_row c fn p s =
    (let (y, s) = libcall (fn (di_d.p_x p) (di_d.p_i p)) s;
         e = except c s;
         s = (if \<not> checkexceptall e (di_d.p_e p) (di_d.p_r p)
           then (let s = c_printf ''%s:%d: bad fp exception: %s scalblnl(%La, %lld)=%La, want %s''
                      [AStr (di_d.p_file p), AInt (di_d.p_line p), AStr (rstr c (di_d.p_r p)),
                       AFp (di_d.p_x p), AInt (di_d.p_i p), AFp (di_d.p_y p),
                       AStr (estr c (di_d.p_e p))] s;
                     s = c_printfln '' got %s'' [AStr (estr c e)] s
                 in err_inc s)
           else s);
         d = ulperrl c (rm c s) y (di_d.p_y p) (di_d.p_dy p)
     in (if \<not> checkcr y (di_d.p_y p) (di_d.p_r p)
          then (let s = c_printfln ''%s:%d: %s scalblnl(%La, %lld) want %La got %La ulperr %.3f = %a + %a''
                     [AStr (di_d.p_file p), AInt (di_d.p_line p), AStr (rstr c (di_d.p_r p)),
                      AFp (di_d.p_x p), AInt (di_d.p_i p), AFp (di_d.p_y p), AFp y, AFp d,
                      AFp (fp_sub flt32 (rm c s) d (di_d.p_dy p)), AFp (di_d.p_dy p)] s
                in err_inc s)
          else s))"

definition scalblnl_main ::
    "fe_cfg \<Rightarrow> (fp \<Rightarrow> int \<Rightarrow> fp call) \<Rightarrow> li_l list \<Rightarrow> li_l list \<Rightarrow> fenv \<Rightarrow> int \<times> cout list" where
  "scalblnl_main c fn t53 t64 env =
     mtest_main c di_d.p_r (scalblnl_row c fn) (ldbl_table c t53 t64) env"

definition scalbnl_row ::
    "fe_cfg \<Rightarrow> (fp \<Rightarrow> int \<Rightarrow> fp call) \<Rightarrow> li_l \<Rightarrow> mst \<Rightarrow> mst" where
  "scalbnl_row c fn p s =
    (let (y, s) = libcall (fn (di_d.p_x p) (c_int (di_d.p_i p))) s;
         e = except c s;
         s = (if \<not> checkexceptall e (di_d.p_e p) (di_d.p_r p)
           then (let s = c_printf ''%s:%d: bad fp exception: %s scalbnl(%La, %lld)=%La, want %s''
                      [AStr (di_d.p_file p), AInt (di_d.p_line p), AStr (rstr c (di_d.p_r p)),
                       AFp (di_d.p_x p), AInt (di_d.p_i p), AFp (di_d.p_y p),
                       AStr (estr c (di_d.p_e p))] s;
                     s = c_printfln '' got %s'' [AStr (estr c e)] s
                 in err_inc s)
           else s);
         d = ulperrl c (rm c s) y (di_d.p_y p) (di_d.p_dy p)
     in (if \<not> checkcr y (di_d.p_y p) (di_d.p_r p)
          then (let s = c_printfln ''%s:%d: %s scalbnl(%La, %lld) want %La got %La ulperr %.3f = %a + %a''
                     [AStr (di_d.p_file p), AInt (di_d.p_line p), AStr (rstr c (di_d.p_r p)),
                      AFp (di_d.p_x p), AInt (di_d.p_i p), AFp (di_d.p_y p), AFp y, AFp d,
                      AFp (fp_sub flt32 (rm c s) d (di_d.p_dy p)), AFp (di_d.p_dy p)] s
                in err_inc s)
          else s))"

definition scalbnl_main ::
    "fe_cfg \<Rightarrow> (fp \<Rightarrow> int \<Rightarrow> fp call) \<Rightarrow> li_l list \<Rightarrow> li_l list \<Rightarrow> fenv \<Rightarrow> int \<times> cout list" where
  "scalbnl_main c fn t53 t64 env =
     mtest_main c di_d.p_r (scalbnl_row c fn) (ldbl_table c t53 t64) env"

definition sincosl_row ::
    "fe_cfg \<Rightarrow> (fp \<Rightarrow> (fp \<times> fp) call) \<Rightarrow> l_ll \<Rightarrow> mst \<Rightarrow> mst" where
  "sincosl_row c fn p s =
    (let ((ysin, ycos), s) = libcall (fn (d_dd.p_x p)) s;
         e = except c s;
         s = (if \<not> checkexcept c e (d_dd.p_e p) (d_dd.p_r p)
           then (let s = c_printf ''%s:%d: bad fp exception: %s sincosl(%La)=%La,%La, want %s''
                      [AStr (d_dd.p_file p), AInt (d_dd.p_line p), AStr (rstr c (d_dd.p_r p)),
                       AFp (d_dd.p_x p), AFp (d_dd.p_y p), AFp (d_dd.p_y2 p),
                       AStr (estr c (d_dd.p_e p))] s;
                     s = c_printfln '' got %s'' [AStr (estr c e)] s
                 in err_inc s)
           else s);
         dsin = ulperr (rm c s) (to_dbl (rm c s) ysin) (to_dbl (rm c s) (d_dd.p_y p)) (d_dd.p_dy p);
         dcos = ulperr (rm c s) (to_dbl (rm c s) ycos) (to_dbl (rm c s) (d_dd.p_y2 p)) (d_dd.p_dy2 p)
     in (if \<not> checkulp c dsin (d_dd.p_r p) \<or> \<not> checkulp c dcos (d_dd.p_r p)
          then (let s = c_printfln ''%s:%d: %s sincosl(%La) want %La,%La got %La,%La, ulperr %.3f = %a + %a, %.3f = %a + %a''
                     [AStr (d_dd.p_file p), AInt (d_dd.p_line p), AStr (rstr c (d_dd.p_r p)),
                      AFp (d_dd.p_x p), AFp (d_dd.p_y p), AFp (d_dd.p_y2 p), AFp ysin, AFp ycos,
                      AFp dsin, AFp (fp_sub flt32 (rm c s) dsin (d_dd.p_dy p)), AFp (d_dd.p_dy p),
                      AFp dcos, AFp (fp_sub flt32 (rm c s) dcos (d_dd.p_dy2 p)),
                      AFp (d_dd.p_dy2 p)] s
                in err_inc s)
          else s))"

definition sincosl_main ::
    "fe_cfg \<Rightarrow> (fp \<Rightarrow> (fp \<times> fp) call) \<Rightarrow> l_ll list \<Rightarrow> l_ll list \<Rightarrow> fenv \<Rightarrow> int \<times> cout list" where
  "sincosl_main c fn t53 t64 env =
     mtest_main c d_dd.p_r (sincosl_row c fn) (ldbl_table c t53 t64) env"

definition sinhl_row ::
    "fe_cfg \<Rightarrow> (fp \<Rightarrow> fp call) \<Rightarrow> l_l \<Rightarrow> mst \<Rightarrow> mst" where
  "sinhl_row c fn p s =
    (let (y, s) = libcall (fn (d_d.p_x p)) s;
         e = except c s;
         s = (if \<not> checkexcept c e (d_d.p_e p) (d_d.p_r p)
           then (let s = c_printf ''%s:%d: bad fp exception: %s sinhl(%La)=%La, want %s''
                      [AStr (d_d.p_file p), AInt (d_d.p_line p), AStr (rstr c (d_d.p_r p)),
                       AFp (d_d.p_x p), AFp (d_d.p_y p), AStr (estr c (d_d.p_e p))] s;
                     s = c_printfln '' got %s'' [AStr (estr c e)] s
                 in err_inc s)
           else s);
         d = ulperrl c (rm c s) y (d_d.p_y p) (d_d.p_dy p)
     in (if \<not> checkulp c d (d_d.p_r p)
          then (let s = (if fp_lt (fabs d) (Fin False 5 0) \<or> d_d.p_r p \<noteq> RN c
                    then c_printf ''X '' [] s
                    else err_inc s)
                in c_printfln ''%s:%d: %s sinhl(%La) want %La got %La ulperr %.3f = %a + %a''
                     [AStr (d_d.p_file p), AInt (d_d.p_line p), AStr (rstr c (d_d.p_r p)),
                      AFp (d_d.p_x p), AFp (d_d.p_y p), AFp y, AFp d,
                      AFp (fp_sub flt32 (rm c s) d (d_d.p_dy p)), AFp (d_d.p_dy p)] s)
          else s))"

definition sinhl_main ::
    "fe_cfg \<Rightarrow> (fp \<Rightarrow> fp call) \<Rightarrow> l_l list \<Rightarrow> l_l list \<Rightarrow> fenv \<Rightarrow> int \<times> cout list" where
  "sinhl_main c fn t53 t64 env =
     mtest_main c d_d.p_r (sinhl_row c fn) (ldbl_table c t53 t64) env"

definition sinl_row ::
    "fe_cfg \<Rightarrow> (fp \<Rightarrow> fp call) \<Rightarrow> l_l \<Rightarrow> mst \<Rightarrow> mst" where
  "sinl_row c fn p s =
    (let (y, s) = libcall (fn (d_d.p_x p)) s;
         e = except c s;
         s = (if \<not> checkexcept c e (d_d.p_e p) (d_d.p_r p)
           then (let s = c_printf ''%s:%d: bad fp exception: %s sinl(%La)=%La, want %s''
                      [AStr (d_d.p_file p), AInt (d_d.p_line p), AStr (rstr c (d_d.p_r p)),
                       AFp (d_d.p_x p), AFp (d_d.p_y p), AStr (estr c (d_d.p_e p))] s;
                     s = c_printfln '' got %s'' [AStr (estr c e)] s
                 in err_inc s)
           else s);
         d = ulperrl c (rm c s) y (d_d.p_y p) (d_d.p_dy p)
     in (if \<not> checkulp c d (d_d.p_r p)
          then (let s = c_printfln ''%s:%d: %s sinl(%La) want %La got %La ulperr %.3f = %a + %a''
                     [AStr (d_d.p_file p), AInt (d_d.p_line p), AStr (rstr c (d_d.p_r p)),
                      AFp (d_d.p_x p), AFp (d_d.p_y p), AFp y, AFp d,
                      AFp (fp_sub flt32 (rm c s) d (d_d.p_dy p)), AFp (d_d.p_dy p)] s
                in err_inc s)
          else s))"

definition sinl_main ::
    "fe_cfg \<Rightarrow> (fp \<Rightarrow> fp call) \<Rightarrow> l_l list \<Rightarrow> l_l list \<Rightarrow> fenv \<Rightarrow> int \<times> cout list" where
  "sinl_main c fn t53 t64 env =
     mtest_main c d_d.p_r (sinl_row c fn) (ldbl_table c t53 t64) env"

definition sqrtl_row ::
    "fe_cfg \<Rightarrow> (fp \<Rightarrow> fp call) \<Rightarrow> l_l \<Rightarrow> mst \<Rightarrow> mst" where
  "sqrtl_row c fn p s =
    (let (y, s) = libcall (fn (d_d.p_x p)) s;
         e = except c s;
         s = (if \<not> checkexceptall e (d_d.p_e p) (d_d.p_r p)
           then (let s = c_printf ''%s:%d: bad fp exception: %s sqrtl(%La)=%La, want %s''
                      [AStr (d_d.p_file p), AInt (d_d.p_line p), AStr (rstr c (d_d.p_r p)),
                       AFp (d_d.p_x p), AFp (d_d.p_y p), AStr (estr c (d_d.p_e p))] s;
                     s = c_printfln '' got %s'' [AStr (estr c e)] s
                 in err_inc s)
           else s);
         d = ulperrl c (rm c s) y (d_d.p_y p) (d_d.p_dy p)
     in (if \<not> checkcr y (d_d.p_y p) (d_d.p_r p)
          then (let s = c_printfln ''%s:%d: %s sqrtl(%La) want %La got %La ulperr %.3f = %a + %a''
                     [AStr (d_d.p_file p), AInt (d_d.p_line p), AStr (rstr c (d_d.p_r p)),
                      AFp (d_d.p_x p), AFp (d_d.p_y p), AFp y, AFp d,
                      AFp (fp_sub flt32 (rm c s) d (d_d.p_dy p)), AFp (d_d.p_dy p)] s
                in err_inc s)
          else s))"

definition sqrtl_main ::
    "fe_cfg \<Rightarrow> (fp \<Rightarrow> fp call) \<Rightarrow> l_l list \<Rightarrow> l_l list \<Rightarrow> fenv \<Rightarrow> int \<times> cout list" where
  "sqrtl_main c fn t53 t64 env =
     mtest_main c d_d.p_r (sqrtl_row c fn) (ldbl_table c t53 t64) env"

definition tanhl_row ::
    "fe_cfg \<Rightarrow> (fp \<Rightarrow> fp call) \<Rightarrow> l_l \<Rightarrow> mst \<Rightarrow> mst" where
  "tanhl_row c fn p s =
    (let (y, s) = libcall (fn (d_d.p_x p)) s;
         e = except c s;
         s = (if \<not> checkexcept c e (d_d.p_e p) (d_d.p_r p)
           then (let s = c_printf ''%s:%d: bad fp exception: %s tanhl(%La)=%La, want %s''
                      [AStr (d_d.p_file p), AInt (d_d.p_line p), AStr (rstr c (d_d.p_r p)),
                       AFp (d_d.p_x p), AFp (d_d.p_y p), AStr (estr c (d_d.p_e p))] s;
                     s = c_printfln '' got %s'' [AStr (estr c e)] s
                 in err_inc s)
           else s);
         d = ulperrl c (rm c s) y (d_d.p_y p) (d_d.p_dy p)
     in (if \<not> checkulp c d (d_d.p_r p)
          then (let s = c_printfln ''%s:%d: %s tanhl(%La) want %La got %La ulperr %.3f = %a + %a''
                     [AStr (d_d.p_file p), AInt (d_d.p_line p), AStr (rstr c (d_d.p_r p)),
                      AFp (d_d.p_x p), AFp (d_d.p_y p), AFp y, AFp d,
                      AFp (fp_sub flt32 (rm c s) d (d_d.p_dy p)), AFp (d_d.p_dy p)] s
                in err_inc s)
          else s))"

definition tanhl_main ::
    "fe_cfg \<Rightarrow> (fp \<Rightarrow> fp call) \<Rightarrow> l_l list \<Rightarrow> l_l list \<Rightarrow> fenv \<Rightarrow> int \<times> cout list" where
  "tanhl_main c fn t53 t64 env =
     mtest_main c d_d.p_r (tanhl_row c fn) (ldbl_table c t53 t64) env"

definition tanl_row ::
    "fe_cfg \<Rightarrow> (fp \<Rightarrow> fp call) \<Rightarrow> l_l \<Rightarrow> mst \<Rightarrow> mst" where
  "tanl_row c fn p s =
    (let (y, s) = libcall (fn (d_d.p_x p)) s;
         e = except c s;
         s = (if \<not> checkexcept c e (d_d.p_e p) (d_d.p_r p)
           then (let s = c_printf ''%s:%d: bad fp exception: %s tanl(%La)=%La, want %s''
                      [AStr (d_d.p_file p), AInt (d_d.p_line p), AStr (rstr c (d_d.p_r p)),
                       AFp (d_d.p_x p), AFp (d_d.p_y p), AStr (estr c (d_d.p_e p))] s;
                     s = c_printfln '' got %s'' [AStr (estr c e)] s
                 in err_inc s)
           else s);
         d = ulperrl c (rm c s) y (d_d.p_y p) (d_d.p_dy p)
     in (if \<not> checkulp c d (d_d.p_r p)
          then (let s = c_printfln ''%s:%d: %s tanl(%La) want %La got %La ulperr %.3f = %a + %a''
                     [AStr (d_d.p_file p), AInt (d_d.p_line p), AStr (rstr c (d_d.p_r p)),
                      AFp (d_d.p_x p), AFp (d_d.p_y p), AFp y, AFp d,
                      AFp (fp_sub flt32 (rm c s) d (d_d.p_dy p)), AFp (d_d.p_dy p)] s
                in err_inc s)
          else s))"

definition tanl_main ::
    "fe_cfg \<Rightarrow> (fp \<Rightarrow> fp call) \<Rightarrow> l_l list \<Rightarrow> l_l list \<Rightarrow> fenv \<Rightarrow> int \<times> cout list" where
  "tanl_main c fn t53 t64 env =
     mtest_main c d_d.p_r (tanl_row c fn) (ldbl_table c t53 t64) env"

definition tgammal_row ::
    "fe_cfg \<Rightarrow> (fp \<Rightarrow> fp call) \<Rightarrow> l_l \<Rightarrow> mst \<Rightarrow> mst" where
  "tgammal_row c fn p s =
    (let (y, s) = libcall (fn (d_d.p_x p)) s;
         e = except c s;
         s = (if \<not> checkexcept c e (d_d.p_e p) (d_d.p_r p)
           then (let s = c_printf ''%s:%d: bad fp exception: %s tgammal(%La)=%La, want %s''
                      [AStr (d_d.p_file p), AInt (d_d.p_line p), AStr (rstr c (d_d.p_r p)),
                       AFp (d_d.p_x p), AFp (d_d.p_y p), AStr (estr c (d_d.p_e p))] s;
                     s = c_printfln '' got %s'' [AStr (estr c e)] s
                 in err_inc s)
           else s);
         d = ulperrl c (rm c s) y (d_d.p_y p) (d_d.p_dy p)
     in (if d_d.p_r p = RN c \<and> fp_lt (Fin False 2 0) (fabs d)
          then (let s = c_printfln ''%s:%d: %s tgammal(%La) want %La got %La ulperr %.3f = %a + %a''
                     [AStr (d_d.p_file p), AInt (d_d.p_line p), AStr (rstr c (d_d.p_r p)),
                      AFp (d_d.p_x p), AFp (d_d.p_y p), AFp y, AFp d,
                      AFp (fp_sub flt32 (rm c s) d (d_d.p_dy p)), AFp (d_d.p_dy p)] s
                in err_inc s)
          else s))"

definition tgammal_main ::
    "fe_cfg \<Rightarrow> (fp \<Rightarrow> fp call) \<Rightarrow> l_l list \<Rightarrow> l_l list \<Rightarrow> fenv \<Rightarrow> int \<times> cout list" where
  "tgammal_main c fn t53 t64 env =
     mtest_main c d_d.p_r (tgammal_row c fn) (ldbl_table c t53 t64) env"

definition truncl_row ::
    "fe_cfg \<Rightarrow> (fp \<Rightarrow> fp call) \<Rightarrow> l_l \<Rightarrow> mst \<Rightarrow> mst" where
  "truncl_row c fn p s =
    (let (y, s) = libcall (fn (d_d.p_x p)) s;
         e = except c s;
         s = (if \<not> checkexceptall e (d_d.p_e p) (d_d.p_r p)
              \<and> (e OR INEXACT c) \<noteq> d_d.p_e p
           then (let s = c_printf ''%s:%d: bad fp exception: %s truncl(%La)=%La, want %s''
                      [AStr (d_d.p_file p), AInt (d_d.p_line p), AStr (rstr c (d_d.p_r p)),
                       AFp (d_d.p_x p), AFp (d_d.p_y p), AStr (estr c (d_d.p_e p))] s;
                     s = c_printfln '' got %s'' [AStr (estr c e)] s
                 in err_inc s)
           else s);
         d = ulperrl c (rm c s) y (d_d.p_y p) (d_d.p_dy p)
     in (if \<not> checkcr y (d_d.p_y p) (d_d.p_r p)
          then (let s = c_printfln ''%s:%d: %s truncl(%La) want %La got %La ulperr %.3f = %a + %a''
                     [AStr (d_d.p_file p), AInt (d_d.p_line p), AStr (rstr c (d_d.p_r p)),
                      AFp (d_d.p_x p), AFp (d_d.p_y p), AFp y, AFp d,
                      AFp (fp_sub flt32 (rm c s) d (d_d.p_dy p)), AFp (d_d.p_dy p)] s
                in err_inc s)
          else s))"

definition truncl_main ::
    "fe_cfg \<Rightarrow> (fp \<Rightarrow> fp call) \<Rightarrow> l_l list \<Rightarrow> l_l list \<Rightarrow> fenv \<Rightarrow> int \<times> cout list" where
  "truncl_main c fn t53 t64 env =
     mtest_main c d_d.p_r (truncl_row c fn) (ldbl_table c t53 t64) env"

section \<open>Contracts\<close>

interpretation acoshl_test: row_test "acoshl_row c fn" "ulp_fails (ulperrl c) c fn" for c fn
  by unfold_locales
    (simp_all add: acoshl_row_def fails_defs row_simps cong: printf_cong)

interpretation acosl_test: row_test "acosl_row c fn" "ulp_fails (ulperrl c) c fn" for c fn
  by unfold_locales
    (simp_all add: acosl_row_def fails_defs row_simps cong: printf_cong)

interpretation asinhl_test: row_test "asinhl_row c fn" "ulp_fails (ulperrl c) c fn" for c fn
  by unfold_locales
    (simp_all add: asinhl_row_def fails_defs row_simps cong: printf_cong)

interpretation asinl_test: row_test "asinl_row c fn" "ulp_fails (ulperrl c) c fn" for c fn
  by unfold_locales
    (simp_all add: asinl_row_def fails_defs row_simps cong: printf_cong)

interpretation atan2l_test: row_test "atan2l_row c fn" "row_fails (atan2l_row c fn)" for c fn
  by (rule row_testI, unfold atan2l_row_def)
    ((rule in_step_rules | assumption | (rule in_step_let_value, (simp only: in_step_values)?))+, simp)

interpretation atanhl_test: row_test "atanhl_row c fn" "ulp_fails (ulperrl c) c fn" for c fn
  by unfold_locales
    (simp_all add: atanhl_row_def fails_defs row_simps cong: printf_cong)

interpretation atanl_test: row_test "atanl_row c fn" "ulp_fails (ulperrl c) c fn" for c fn
  by unfold_locales
    (simp_all add: atanl_row_def fails_defs row_simps cong: printf_cong)

interpretation cbrtl_test: row_test "cbrtl_row c fn" "ulp_fails (ulperrl c) c fn" for c fn
  by unfold_locales
    (simp_all add: cbrtl_row_def fails_defs row_simps cong: printf_cong)

interpretation ceill_test: row_test "ceill_row c fn" "exact_fails (exc_inexact c checkexceptall) c fn" for c fn
  by unfold_locales
    (simp_all add: ceill_row_def fails_defs row_simps cong: printf_cong)

interpretation copysignl_test: row_test "copysignl_row c fn" "exact2_fails checkexceptall c fn" for c fn
  by unfold_locales
    (simp_all add: copysignl_row_def fails_defs row_simps cong: printf_cong)

interpretation coshl_test: row_test "coshl_row c fn" "ulp_fails (ulperrl c) c fn" for c fn
  by unfold_locales
    (simp_all add: coshl_row_def fails_defs row_simps cong: printf_cong)

interpretation cosl_test: row_test "cosl_row c fn" "ulp_fails (ulperrl c) c fn" for c fn
  by unfold_locales
    (simp_all add: cosl_row_def fails_defs row_simps cong: printf_cong)

interpretation erfcl_test: row_test "erfcl_row c fn" "ulp_fails (ulperrl c) c fn" for c fn
  by unfold_locales
    (simp_all add: erfcl_row_def fails_defs row_simps cong: printf_cong)

interpretation erfl_test: row_test "erfl_row c fn" "ulp_fails (ulperrl c) c fn" for c fn
  by unfold_locales
    (simp_all add: erfl_row_def fails_defs row_simps cong: printf_cong)

interpretation exp10l_test: row_test "exp10l_row c fn" "ulp_fails (ulperrl c) c fn" for c fn
  by unfold_locales
    (simp_all add: exp10l_row_def fails_defs row_simps cong: printf_cong)

interpretation exp2l_test: row_test "exp2l_row c fn" "ulp_fails (ulperrl c) c fn" for c fn
  by unfold_locales
    (simp_all add: exp2l_row_def fails_defs row_simps cong: printf_cong)

interpretation expl_test: row_test "expl_row c fn" "ulp_fails (ulperrl c) c fn" for c fn
  by unfold_locales
    (simp_all add: expl_row_def fails_defs row_simps cong: printf_cong)

interpretation expm1l_test: row_test "expm1l_row c fn" "row_fails (expm1l_row c fn)" for c fn
  by (rule row_testI, unfold expm1l_row_def)
    ((rule in_step_rules | assumption | (rule in_step_let_value, (simp only: in_step_values)?))+, simp)

interpretation fabsl_test: row_test "fabsl_row c fn" "exact_fails checkexceptall c fn" for c fn
  by unfold_locales
    (simp_all add: fabsl_row_def fails_defs row_simps cong: printf_cong)

interpretation fdiml_test: row_test "fdiml_row c fn" "exact2_fails checkexceptall c fn" for c fn
  by unfold_locales
    (simp_all add: fdiml_row_def fails_defs row_simps cong: printf_cong)

interpretation floorl_test: row_test "floorl_row c fn" "exact_fails (exc_inexact c checkexceptall) c fn" for c fn
  by unfold_locales
    (simp_all add: floorl_row_def fails_defs row_simps cong: printf_cong)

interpretation fmal_test: row_test "fmal_row c fn" "row_fails (fmal_row c fn)" for c fn
  by (rule row_testI, unfold fmal_row_def)
    ((rule in_step_rules | assumption | (rule in_step_let_value, (simp only: in_step_values)?))+, simp)

interpretation fmaxl_test: row_test "fmaxl_row c fn" "exact2_fails checkexceptall c fn" for c fn
  by unfold_locales
    (simp_all add: fmaxl_row_def fails_defs row_simps cong: printf_cong)

interpretation fminl_test: row_test "fminl_row c fn" "exact2_fails checkexceptall c fn" for c fn
  by unfold_locales
    (simp_all add: fminl_row_def fails_defs row_simps cong: printf_cong)

interpretation fmodl_test: row_test "fmodl_row c fn" "exact2_fails (checkexcept c) c fn" for c fn
  by unfold_locales
    (simp_all add: fmodl_row_def fails_defs row_simps cong: printf_cong)

interpretation frexpl_test: row_test "frexpl_row c fn" "row_fails (frexpl_row c fn)" for c fn
  by (rule row_testI, unfold frexpl_row_def)
    ((rule in_step_rules | assumption | (rule in_step_let_value, (simp only: in_step_values)?))+, simp)

interpretation hypotl_test: row_test "hypotl_row c fn" "row_fails (hypotl_row c fn)" for c fn
  by (rule row_testI, unfold hypotl_row_def)
    ((rule in_step_rules | assumption | (rule in_step_let_value, (simp only: in_step_values)?))+, simp)

interpretation ilogbl_test: row_test "ilogbl_row c fn" "row_fails (ilogbl_row c fn)" for c fn
  by (rule row_testI, unfold ilogbl_row_def)
    ((rule in_step_rules | assumption | (rule in_step_let_value, (simp only: in_step_values)?))+, simp)

interpretation ldexpl_test: row_test "ldexpl_row c fn" "row_fails (ldexpl_row c fn)" for c fn
  by (rule row_testI, unfold ldexpl_row_def)
    ((rule in_step_rules | assumption | (rule in_step_let_value, (simp only: in_step_values)?))+, simp)

interpretation lgammal_test: row_test "lgammal_row c fn" "row_fails (lgammal_row c fn)" for c fn
  by (rule row_testI, unfold lgammal_row_def)
    ((rule in_step_rules | assumption | (rule in_step_let_value, (simp only: in_step_values)?))+, simp)

interpretation lgammal_r_test: row_test "lgammal_r_row c fn" "row_fails (lgammal_r_row c fn)" for c fn
  by (rule row_testI, unfold lgammal_r_row_def)
    ((rule in_step_rules | assumption | (rule in_step_let_value, (simp only: in_step_values)?))+, simp)

interpretation llrintl_test: row_test "llrintl_row c fn" "int_fails (checkexcept c) c fn" for c fn
  by unfold_locales
    (simp_all add: llrintl_row_def fails_defs row_simps cong: printf_cong)

interpretation llroundl_test: row_test "llroundl_row c fn" "int_fails (exc_inexact c (checkexcept c)) c fn" for c fn
  by unfold_locales
    (simp_all add: llroundl_row_def fails_defs row_simps cong: printf_cong)

interpretation log10l_test: row_test "log10l_row c fn" "ulp_fails (ulperrl c) c fn" for c fn
  by unfold_locales
    (simp_all add: log10l_row_def fails_defs row_simps cong: printf_cong)

interpretation log1pl_test: row_test "log1pl_row c fn" "ulp_fails (ulperrl c) c fn" for c fn
  by unfold_locales
    (simp_all add: log1pl_row_def fails_defs row_simps cong: printf_cong)

interpretation log2l_test: row_test "log2l_row c fn" "ulp_fails (ulperrl c) c fn" for c fn
  by unfold_locales
    (simp_all add: log2l_row_def fails_defs row_simps cong: printf_cong)

interpretation logbl_test: row_test "logbl_row c fn" "exact_fails checkexceptall c fn" for c fn
  by unfold_locales
    (simp_all add: logbl_row_def fails_defs row_simps cong: printf_cong)

interpretation logl_test: row_test "logl_row c fn" "ulp_fails (ulperrl c) c fn" for c fn
  by unfold_locales
    (simp_all add: logl_row_def fails_defs row_simps cong: printf_cong)

interpretation lrintl_test: row_test "lrintl_row c fn" "int_fails (checkexcept c) c fn" for c fn
  by unfold_locales
    (simp_all add: lrintl_row_def fails_defs row_simps cong: printf_cong)

interpretation lroundl_test: row_test "lroundl_row c fn" "int_fails (exc_inexact c (checkexcept c)) c fn" for c fn
  by unfold_locales
    (simp_all add: lroundl_row_def fails_defs row_simps cong: printf_cong)

interpretation modfl_test: row_test "modfl_row c fn" "row_fails (modfl_row c fn)" for c fn
  by (rule row_testI, unfold modfl_row_def)
    ((rule in_step_rules | assumption | (rule in_step_let_value, (simp only: in_step_values)?))+, simp)

interpretation nearbyintl_test: row_test "nearbyintl_row c fn" "exact_fails checkexceptall c fn" for c fn
  by unfold_locales
    (simp_all add: nearbyintl_row_def fails_defs row_simps cong: printf_cong)

interpretation nextafterl_test: row_test "nextafterl_row c fn" "exact2_fails checkexceptall c fn" for c fn
  by unfold_locales
    (simp_all add: nextafterl_row_def fails_defs row_simps cong: printf_cong)

interpretation nexttowardl_test: row_test "nexttowardl_row c fn" "exact2_fails checkexceptall c fn" for c fn
  by unfold_locales
    (simp_all add: nexttowardl_row_def fails_defs row_simps cong: printf_cong)

interpretation pow10l_test: row_test "pow10l_row c fn" "ulp_fails (ulperrl c) c fn" for c fn
  by unfold_locales
    (simp_all add: pow10l_row_def fails_defs row_simps cong: printf_cong)

interpretation powl_test: row_test "powl_row c fn" "row_fails (powl_row c fn)" for c fn
  by (rule row_testI, unfold powl_row_def)
    ((rule in_step_rules | assumption | (rule in_step_let_value, (simp only: in_step_values)?))+, simp)

interpretation remainderl_test: row_test "remainderl_row c fn" "exact2_fails (checkexcept c) c fn" for c fn
  by unfold_locales
    (simp_all add: remainderl_row_def fails_defs row_simps cong: printf_cong)

interpretation remquol_test: row_test "remquol_row c fn" "row_fails (remquol_row c fn)" for c fn
  by (rule row_testI, unfold remquol_row_def)
    ((rule in_step_rules | assumption | (rule in_step_let_value, (simp only: in_step_values)?))+, simp)

interpretation rintl_test: row_test "rintl_row c fn" "exact_fails checkexceptall c fn" for c fn
  by unfold_locales
    (simp_all add: rintl_row_def fails_defs row_simps cong: printf_cong)

interpretation roundl_test: row_test "roundl_row c fn" "exact_fails (exc_inexact c checkexceptall) c fn" for c fn
  by unfold_locales
    (simp_all add: roundl_row_def fails_defs row_simps cong: printf_cong)

interpretation scalblnl_test: row_test "scalblnl_row c fn" "row_fails (scalblnl_row c fn)" for c fn
  by (rule row_testI, unfold scalblnl_row_def)
    ((rule in_step_rules | assumption | (rule in_step_let_value, (simp only: in_step_values)?))+, simp)

interpretation scalbnl_test: row_test "scalbnl_row c fn" "row_fails (scalbnl_row c fn)" for c fn
  by (rule row_testI, unfold scalbnl_row_def)
    ((rule in_step_rules | assumption | (rule in_step_let_value, (simp only: in_step_values)?))+, simp)

interpretation sincosl_test: row_test "sincosl_row c fn" "row_fails (sincosl_row c fn)" for c fn
  by (rule row_testI, unfold sincosl_row_def)
    ((rule in_step_rules | assumption | (rule in_step_let_value, (simp only: in_step_values)?))+, simp)

interpretation sinhl_test: row_test "sinhl_row c fn" "row_fails (sinhl_row c fn)" for c fn
  by (rule row_testI, unfold sinhl_row_def)
    ((rule in_step_rules | assumption | (rule in_step_let_value, (simp only: in_step_values)?))+, simp)

interpretation sinl_test: row_test "sinl_row c fn" "ulp_fails (ulperrl c) c fn" for c fn
  by unfold_locales
    (simp_all add: sinl_row_def fails_defs row_simps cong: printf_cong)

interpretation sqrtl_test: row_test "sqrtl_row c fn" "exact_fails checkexceptall c fn" for c fn
  by unfold_locales
    (simp_all add: sqrtl_row_def fails_defs row_simps cong: printf_cong)

interpretation tanhl_test: row_test "tanhl_row c fn" "ulp_fails (ulperrl c) c fn" for c fn
  by unfold_locales
    (simp_all add: tanhl_row_def fails_defs row_simps cong: printf_cong)

interpretation tanl_test: row_test "tanl_row c fn" "ulp_fails (ulperrl c) c fn" for c fn
  by unfold_locales
    (simp_all add: tanl_row_def fails_defs row_simps cong: printf_cong)

interpretation tgammal_test: row_test "tgammal_row c fn" "row_fails (tgammal_row c fn)" for c fn
  by (rule row_testI, unfold tgammal_row_def)
    ((rule in_step_rules | assumption | (rule in_step_let_value, (simp only: in_step_values)?))+, simp)

interpretation truncl_test: row_test "truncl_row c fn" "exact_fails (exc_inexact c checkexceptall) c fn" for c fn
  by unfold_locales
    (simp_all add: truncl_row_def fails_defs row_simps cong: printf_cong)

lemmas ldouble_mains = acoshl_main_def
  acosl_main_def
  asinhl_main_def
  asinl_main_def
  atan2l_main_def
  atanhl_main_def
  atanl_main_def
  cbrtl_main_def
  ceill_main_def
  copysignl_main_def
  coshl_main_def
  cosl_main_def
  erfcl_main_def
  erfl_main_def
  exp10l_main_def
  exp2l_main_def
  expl_main_def
  expm1l_main_def
  fabsl_main_def
  fdiml_main_def
  floorl_main_def
  fmal_main_def
  fmaxl_main_def
  fminl_main_def
  fmodl_main_def
  frexpl_main_def
  hypotl_main_def
  ilogbl_main_def
  ldexpl_main_def
  lgammal_main_def
  lgammal_r_main_def
  llrintl_main_def
  llroundl_main_def
  log10l_main_def
  log1pl_main_def
  log2l_main_def
  logbl_main_def
  logl_main_def
  lrintl_main_def
  lroundl_main_def
  modfl_main_def
  nearbyintl_main_def
  nextafterl_main_def
  nexttowardl_main_def
  pow10l_main_def
  powl_main_def
  remainderl_main_def
  remquol_main_def
  rintl_main_def
  roundl_main_def
  scalblnl_main_def
  scalbnl_main_def
  sincosl_main_def
  sinhl_main_def
  sinl_main_def
  sqrtl_main_def
  tanhl_main_def
  tanl_main_def
  tgammal_main_def
  truncl_main_def

end
