(* ===== verification/Math_Verdicts.thy ===== *)
theory Math_Verdicts
  imports Math_Double Math_Float Math_Ldouble
begin

text \<open>
  What the exit status of the mathematical tests says about the library: the programs of a family
  return 0 exactly when every active row passes its checks, the status does not depend on the
  order of the rows or on the environment a program is started in, and a 0 bounds the error of the
  results.
\<close>

unbundle bit_operations_syntax

text \<open>
  Rows of the tables under \<^verbatim>\<open>libc-test/src/math\<close>, and a library function that returns one
  value and raises one set of exceptions, for the concrete instances below.
\<close>

definition acos_0 :: d_d where
  "acos_0 = d_d.make ''src/math/special/acos.h'' 1 0 (Fin False 0 (-1074))
     (Fin False 0x1921fb54442d18 (-52)) (Fin True 0x8d3132 (-25)) 1"

definition acosf_0 :: f_f where
  "acosf_0 = d_d.make ''src/math/special/acosf.h'' 1 0 (Fin False 0 (-149))
     (Fin False 0xc90fdb (-23)) (Fin False 0xbbbd2e (-25)) 1"

definition fabs_2 :: d_d where
  "fabs_2 = d_d.make ''src/math/sanity/fabs.h'' 2 0 (Fin False 0x1161868e18bc67 (-50))
     (Fin False 0x1161868e18bc67 (-50)) (Fin False 0 (-149)) 0"

definition fmod_2 :: dd_d where
  "fmod_2 = dd_d.make ''src/math/sanity/fmod.h'' 2 0 (Fin False 0x1161868e18bc67 (-50))
     (Fin True 0x11c6a6cdce75e8 (-49)) (Fin False 0x1161868e18bc67 (-50)) (Fin False 0 (-149)) 0"

definition fmod_1 :: dd_d where
  "fmod_1 = dd_d.make ''src/math/sanity/fmod.h'' 1 0 (Fin True 0x102239f3c6a8f1 (-49))
     (Fin False 0x122484b9ef31f0 (-50)) (Fin True 0x1c3fde5b3c3fe4 (-51)) (Fin False 0 (-149)) 0"

definition lrint_2 :: d_i where
  "lrint_2 = d_i.make ''src/math/sanity/lrint.h'' 2 0 (Fin False 0x1161868e18bc67 (-50)) 4 1"

definition tgammal_2 :: l_l where
  "tgammal_2 = d_d.make ''src/math/sanity/tgammal.h'' 2 0 (Fin False 0x8b0c3470c5e33bc1 (-61))
     (Fin False 0x9690ddcf72564340 (-60)) (Fin True 0xc7db3c (-26)) 1"

definition ret :: "'y \<Rightarrow> int \<Rightarrow> 'y call" where
  "ret y exc env = (y, env\<lparr>flags := exc\<rparr>)"

definition ret1 :: "'y \<Rightarrow> int \<Rightarrow> fp \<Rightarrow> 'y call" where
  "ret1 y exc x = ret y exc"

definition ret2 :: "'y \<Rightarrow> int \<Rightarrow> fp \<Rightarrow> fp \<Rightarrow> 'y call" where
  "ret2 y exc x x2 = ret y exc"

definition env_RU :: fenv where
  "env_RU = \<lparr>rounding = 3, flags = 1\<rparr>"

lemmas sample_defs = acos_0_def acosf_0_def fabs_2_def fmod_2_def fmod_1_def lrint_2_def tgammal_2_def
  ret_def ret1_def ret2_def env_RU_def d_d.defs dd_d.defs d_i.defs

lemmas ulp_status = acos_test.status asin_test.status atan_test.status atanh_test.status cbrt_test.status
  cosh_test.status exp_test.status exp10_test.status expm1_test.status j1_test.status
  log_test.status log10_test.status log1p_test.status log2_test.status pow10_test.status
  tanh_test.status acosf_test.status acoshf_test.status asinf_test.status asinhf_test.status
  atanf_test.status atanhf_test.status cbrtf_test.status cosf_test.status coshf_test.status
  erfcf_test.status erff_test.status exp10f_test.status exp2f_test.status expf_test.status
  expm1f_test.status j1f_test.status log10f_test.status log1pf_test.status log2f_test.status
  logf_test.status pow10f_test.status sinf_test.status tanf_test.status tanhf_test.status
  tgammaf_test.status

lemmas exact_status = ceil_test.status fabs_test.status floor_test.status logb_test.status nearbyint_test.status
  rint_test.status round_test.status sqrt_test.status trunc_test.status ceilf_test.status
  fabsf_test.status floorf_test.status logbf_test.status nearbyintf_test.status
  rintf_test.status roundf_test.status sqrtf_test.status truncf_test.status
  copysign_test.status drem_test.status fdim_test.status fmax_test.status fmin_test.status
  fmod_test.status nextafter_test.status remainder_test.status scalb_test.status
  copysignf_test.status dremf_test.status fdimf_test.status fmaxf_test.status
  fminf_test.status fmodf_test.status nextafterf_test.status remainderf_test.status
  scalbf_test.status llrint_test.status llround_test.status lrint_test.status
  lround_test.status llrintf_test.status llroundf_test.status lrintf_test.status
  lroundf_test.status

text \<open>
  C38: the tests of the functions held to a bound in units in the last place return 0 exactly when
  every row whose rounding direction the target has passes: called in that direction with the
  exception flags clear, the function raises the exceptions of the row and its error is in bounds.
  The rows select directions the target supports, and there are few enough of
  them for the failure counter, an int, not to overflow.
\<close>

theorem ulp_tests_status:
  assumes "\<forall>p \<in> set t. d_d.p_r p < 0 \<or> d_d.p_r p \<in> set (fe_modes c)"
    and "2 * length t < 2 ^ 31"
  shows "\<forall>(main, ulp) \<in> set
     [(acos_main, ulperr), (asin_main, ulperr), (atan_main, ulperr), (atanh_main, ulperr),
      (cbrt_main, ulperr), (cosh_main, ulperr), (exp_main, ulperr), (exp10_main, ulperr),
      (expm1_main, ulperr), (j1_main, ulperr), (log_main, ulperr), (log10_main, ulperr),
      (log1p_main, ulperr), (log2_main, ulperr), (pow10_main, ulperr), (tanh_main, ulperr),
      (acosf_main, ulperrf), (acoshf_main, ulperrf), (asinf_main, ulperrf),
      (asinhf_main, ulperrf), (atanf_main, ulperrf), (atanhf_main, ulperrf),
      (cbrtf_main, ulperrf), (cosf_main, ulperrf), (coshf_main, ulperrf), (erfcf_main, ulperrf),
      (erff_main, ulperrf), (exp10f_main, ulperrf), (exp2f_main, ulperrf), (expf_main, ulperrf),
      (expm1f_main, ulperrf), (j1f_main, ulperrf), (log10f_main, ulperrf),
      (log1pf_main, ulperrf), (log2f_main, ulperrf), (logf_main, ulperrf),
      (pow10f_main, ulperrf), (sinf_main, ulperrf), (tanf_main, ulperrf), (tanhf_main, ulperrf),
      (tgammaf_main, ulperrf)].
     fst (main c fn t env) = 0 \<longleftrightarrow>
       (\<forall>p \<in> set t. \<not> d_d.p_r p < 0 \<longrightarrow>
         (case fn (d_d.p_x p) \<lparr>rounding = d_d.p_r p, flags = 0\<rparr> of (y, env') \<Rightarrow>
            checkexcept c (fetestexcept (all5 c) env') (d_d.p_e p) (d_d.p_r p) \<and>
            checkulp c (ulp (rmode_of c env') y (d_d.p_y p) (d_d.p_dy p)) (d_d.p_r p)))"
  using assms by (simp add: double_mains float_mains ulp_status fails_defs case_prod_beta)

theorem ulp_tests_status_witness:
  "fst (acos_main riscv64 (ret1 (Fin False 0x1921fb54442d19 (-52)) 1) [acos_0] env_RU) = 0"
proof -
  have "\<forall>p \<in> set [acos_0]. d_d.p_r p < 0 \<or> d_d.p_r p \<in> set (fe_modes riscv64)" by code_simp
  from ulp_tests_status[OF this, of "ret1 (Fin False 0x1921fb54442d19 (-52)) 1" env_RU] show ?thesis
    by (simp del: list.set) code_simp
qed

text \<open>\<^verbatim>\<open>checkcr\<close> on values: the same class, the same sign, and the same real number.\<close>

lemma mag_inject: "mag v k = mag w k \<longleftrightarrow> v = w"
  by (simp add: mag_def)

lemma fp_eq_finite: "fp_eq (Fin s m e) (Fin s' m' e') \<longleftrightarrow> val (Fin s m e) = val (Fin s' m' e')"
  using scaled_mag[of "min e e'" e s m] scaled_mag[of "min e e'" e' s' m'] mag_inject[of "scaled s m e (min e e')" "min e e'"]
  by (simp add: Let_def del: val.simps) metis

lemma checkcr_value:
  "checkcr y w r \<longleftrightarrow>
     (case w of NaN \<Rightarrow> y = NaN | Inf s \<Rightarrow> y = Inf s | Fin s m e \<Rightarrow> isfinite y \<and> signbit y = s \<and> val y = val w)"
  unfolding checkcr_def by (cases w; cases y) (auto simp: isnan_def fp_eq_finite simp del: val.simps fp_eq.simps(7))

text \<open>
  C40: the tests of the functions of one argument that must be correctly rounded return 0 exactly
  when every active row has the wanted value (a NaN for a NaN, the same infinity, or a finite result that is the same
  real number with the same sign, so that the two zeros differ) and exactly the wanted exceptions; for the functions
  that round to an integer, and only for them, the inexact flag may also be missing where it is wanted, but not raised
  where it is not.
\<close>

theorem exact_tests_status:
  assumes "\<forall>p \<in> set t. d_d.p_r p < 0 \<or> d_d.p_r p \<in> set (fe_modes c)"
    and "2 * length t < 2 ^ 31"
  shows "\<forall>(main, may_omit_inexact) \<in> set
     [(ceil_main, True), (fabs_main, False), (floor_main, True), (logb_main, False), (nearbyint_main, False),
      (rint_main, False), (round_main, True), (sqrt_main, False), (trunc_main, True), (ceilf_main, True),
      (fabsf_main, False), (floorf_main, True), (logbf_main, False), (nearbyintf_main, False),
      (rintf_main, False), (roundf_main, True), (sqrtf_main, False), (truncf_main, True)].
     fst (main c fn t env) = 0 \<longleftrightarrow>
       (\<forall>p \<in> set t. \<not> d_d.p_r p < 0 \<longrightarrow>
         (case fn (d_d.p_x p) \<lparr>rounding = d_d.p_r p, flags = 0\<rparr> of (y, env') \<Rightarrow>
            (fetestexcept (all5 c) env' = d_d.p_e p \<or>
              may_omit_inexact \<and> (fetestexcept (all5 c) env' OR INEXACT c) = d_d.p_e p) \<and>
            (case d_d.p_y p of
               NaN \<Rightarrow> y = NaN
             | Inf s \<Rightarrow> y = Inf s
             | Fin s m e \<Rightarrow> isfinite y \<and> signbit y = s \<and> val y = val (d_d.p_y p))))"
  using assms
  by (simp add: double_mains float_mains exact_status fails_defs case_prod_beta checkexceptall_def checkcr_value)

theorem exact_tests_status_witness:
  "fst (fabs_main riscv64 (ret1 (Fin False 0x1161868e18bc67 (-50)) 0) [fabs_2] env_RU) = 0"
proof -
  have "\<forall>p \<in> set [fabs_2]. d_d.p_r p < 0 \<or> d_d.p_r p \<in> set (fe_modes riscv64)" by code_simp
  from exact_tests_status[OF this, of "ret1 (Fin False 0x1161868e18bc67 (-50)) 0" env_RU]
  have "fst (fabs_main riscv64 (ret1 (Fin False 0x1161868e18bc67 (-50)) 0) [fabs_2] env_RU) = 0 \<longleftrightarrow>
      fetestexcept (all5 riscv64) \<lparr>rounding = 0, flags = 0\<rparr> = 0"
    by (simp add: sample_defs)
  then show ?thesis by (simp only:) code_simp
qed

text \<open>
  The tests of the functions of two arguments that must be correctly rounded return 0 exactly
  when every active row has the wanted value and exceptions.
\<close>

theorem exact2_tests_status:
  assumes "\<forall>p \<in> set t. dd_d.p_r p < 0 \<or> dd_d.p_r p \<in> set (fe_modes c)"
    and "2 * length t < 2 ^ 31"
  shows "\<forall>(main, exc) \<in> set
     [(copysign_main, checkexceptall), (drem_main, checkexcept c), (fdim_main, checkexceptall),
      (fmax_main, checkexceptall), (fmin_main, checkexceptall), (fmod_main, checkexcept c),
      (nextafter_main, checkexceptall), (remainder_main, checkexcept c),
      (scalb_main, checkexceptall), (copysignf_main, checkexceptall),
      (dremf_main, checkexcept c), (fdimf_main, checkexceptall), (fmaxf_main, checkexceptall),
      (fminf_main, checkexceptall), (fmodf_main, checkexcept c),
      (nextafterf_main, checkexceptall), (remainderf_main, checkexcept c),
      (scalbf_main, checkexceptall)].
     fst (main c fn t env) = 0 \<longleftrightarrow>
       (\<forall>p \<in> set t. \<not> dd_d.p_r p < 0 \<longrightarrow>
         (case fn (dd_d.p_x p) (dd_d.p_x2 p) \<lparr>rounding = dd_d.p_r p, flags = 0\<rparr> of (y, env') \<Rightarrow>
            exc (fetestexcept (all5 c) env') (dd_d.p_e p) (dd_d.p_r p) \<and> checkcr y (dd_d.p_y p) (dd_d.p_r p)))"
  using assms by (simp add: double_mains float_mains exact_status fails_defs case_prod_beta)

theorem exact2_tests_status_witness:
  "fst (fmod_main riscv64 (ret2 (Fin False 0x1161868e18bc67 (-50)) 0) [fmod_2] env_RU) = 0"
proof -
  have "\<forall>p \<in> set [fmod_2]. dd_d.p_r p < 0 \<or> dd_d.p_r p \<in> set (fe_modes riscv64)" by code_simp
  from exact2_tests_status[OF this, of "ret2 (Fin False 0x1161868e18bc67 (-50)) 0" env_RU] show ?thesis
    by (simp del: list.set) code_simp
qed

text \<open>
  The tests of the conversions to integers return 0 exactly when every active row has the
  wanted exceptions and, unless the row wants an invalid operation, the wanted integer.
\<close>

theorem int_tests_status:
  assumes "\<forall>p \<in> set t. d_i.p_r p < 0 \<or> d_i.p_r p \<in> set (fe_modes c)"
    and "2 * length t < 2 ^ 31"
  shows "\<forall>(main, exc) \<in> set
     [(llrint_main, checkexcept c), (llround_main, exc_inexact c (checkexcept c)),
      (lrint_main, checkexcept c), (lround_main, exc_inexact c (checkexcept c)),
      (llrintf_main, checkexcept c), (llroundf_main, exc_inexact c (checkexcept c)),
      (lrintf_main, checkexcept c), (lroundf_main, exc_inexact c (checkexcept c))].
     fst (main c fn t env) = 0 \<longleftrightarrow>
       (\<forall>p \<in> set t. \<not> d_i.p_r p < 0 \<longrightarrow>
         (case fn (d_i.p_x p) \<lparr>rounding = d_i.p_r p, flags = 0\<rparr> of (y, env') \<Rightarrow>
            exc (fetestexcept (all5 c) env') (d_i.p_e p) (d_i.p_r p) \<and> (d_i.p_e p AND INVALID c \<noteq> 0 \<or> y = d_i.p_i p)))"
  using assms by (simp add: double_mains float_mains exact_status fails_defs case_prod_beta disj_commute)

theorem int_tests_status_witness:
  "fst (lrint_main riscv64 (ret1 4 1) [lrint_2] env_RU) = 0"
proof -
  have "\<forall>p \<in> set [lrint_2]. d_i.p_r p < 0 \<or> d_i.p_r p \<in> set (fe_modes riscv64)" by code_simp
  from int_tests_status[OF this, of "ret1 4 1" env_RU] show ?thesis
    by (simp del: list.set) code_simp
qed

text \<open>
  C39: a test of the family that returns 0 bounds the error of the library on its rows: every finite
  result the function returns on an active row lies within 2 units in the last place of the wanted
  value in the default rounding direction, and within 4 in the others.  The row gives the wanted
  value as a double and the distance of the exact value from it, at most half a unit in the
  default direction and at most one in the others.
\<close>

theorem double_tests_accuracy:
  assumes "\<forall>p \<in> set t. d_d.p_r p < 0 \<or> d_d.p_r p \<in> set (fe_modes c)"
    and "2 * length t < 2 ^ 31"
    and p: "p \<in> set t" "\<not> d_d.p_r p < 0"
    and call: "fn (d_d.p_x p) \<lparr>rounding = d_d.p_r p, flags = 0\<rparr> = (y, env')"
    and y: "fp_ok dbl64 y" "isfinite y"
    and want: "d_d.p_y p = Fin s m e" "fp_ok dbl64 (Fin s m e)"
    and dy: "isfinite (d_d.p_dy p)"
      "\<bar>val (d_d.p_dy p)\<bar> \<le> (if d_d.p_r p = RN c then 1 / 2 else 1)"
  shows "\<forall>main \<in> set
     [acos_main, asin_main, atan_main, atanh_main, cbrt_main, cosh_main, exp_main, exp10_main,
      expm1_main, j1_main, log_main, log10_main, log1p_main, log2_main, pow10_main, tanh_main].
     fst (main c fn t env) = 0 \<longrightarrow>
       \<bar>val y - val (Fin s m e)\<bar> < mag (ulp_bound c (d_d.p_r p)) e"
proof -
  let ?r = "\<lparr>rounding = d_d.p_r p, flags = 0\<rparr>"
  have "ulp_fails ulperr c fn p ?r = 0 \<Longrightarrow> \<bar>val y - val (Fin s m e)\<bar> < mag (ulp_bound c (d_d.p_r p)) e"
    using checkulp_accuracy[OF y want(2) dy, where md = "rmode_of c env'"] call want(1) by (simp add: ulp_fails_def del: val.simps)
  then show ?thesis using p assms(1,2) by (simp add: double_mains ulp_status)
qed

theorem double_tests_accuracy_witness:
  "fst (acos_main riscv64 (ret1 (Fin False 0x1921fb54442d19 (-52)) 1) [acos_0] env_RU) = 0 \<and>
   \<bar>val (Fin False 0x1921fb54442d19 (-52)) - val (Fin False 0x1921fb54442d18 (-52))\<bar> < mag 2 (-52)"
proof -
  note acc = double_tests_accuracy[where t = "[acos_0]" and c = riscv64 and p = acos_0
      and fn = "ret1 (Fin False 0x1921fb54442d19 (-52)) 1" and y = "Fin False 0x1921fb54442d19 (-52)"
      and env' = "\<lparr>rounding = 0, flags = 1\<rparr>" and env = env_RU
      and s = False and m = "0x1921fb54442d18" and e = "-52"]
  have dy: "\<bar>val (Fin True 0x8d3132 (-25))\<bar> \<le> 1 / 2" by (simp add: mag_def power_int_minus)
  have "\<forall>p \<in> set [acos_0]. d_d.p_r p < 0 \<or> d_d.p_r p \<in> set (fe_modes riscv64)"
    "fp_ok dbl64 (Fin False 0x1921fb54442d19 (-52))" "fp_ok dbl64 (Fin False 0x1921fb54442d18 (-52))"
    "fst (acos_main riscv64 (ret1 (Fin False 0x1921fb54442d19 (-52)) 1) [acos_0] env_RU) = 0"
    "RN riscv64 = 0"
    by code_simp+
  with acc dy show ?thesis by (simp add: sample_defs ulp_bound_def del: val.simps)
qed

text \<open>
  The same bound for the tests of the functions on float, whose error is measured in float and
  double arithmetic.
\<close>

theorem float_tests_accuracy:
  assumes "\<forall>p \<in> set t. d_d.p_r p < 0 \<or> d_d.p_r p \<in> set (fe_modes c)"
    and "2 * length t < 2 ^ 31"
    and p: "p \<in> set t" "\<not> d_d.p_r p < 0"
    and call: "fn (d_d.p_x p) \<lparr>rounding = d_d.p_r p, flags = 0\<rparr> = (y, env')"
    and y: "fp_ok flt32 y" "isfinite y"
    and want: "d_d.p_y p = Fin s m e" "fp_ok flt32 (Fin s m e)"
    and dy: "isfinite (d_d.p_dy p)"
      "\<bar>val (d_d.p_dy p)\<bar> \<le> (if d_d.p_r p = RN c then 1 / 2 else 1)"
  shows "\<forall>main \<in> set
     [acosf_main, acoshf_main, asinf_main, asinhf_main, atanf_main, atanhf_main, cbrtf_main,
      cosf_main, coshf_main, erfcf_main, erff_main, exp10f_main, exp2f_main, expf_main,
      expm1f_main, j1f_main, log10f_main, log1pf_main, log2f_main, logf_main, pow10f_main,
      sinf_main, tanf_main, tanhf_main, tgammaf_main].
     fst (main c fn t env) = 0 \<longrightarrow>
       \<bar>val y - val (Fin s m e)\<bar> < mag (ulp_bound c (d_d.p_r p)) e"
proof -
  let ?r = "\<lparr>rounding = d_d.p_r p, flags = 0\<rparr>"
  have "ulp_fails ulperrf c fn p ?r = 0 \<Longrightarrow> \<bar>val y - val (Fin s m e)\<bar> < mag (ulp_bound c (d_d.p_r p)) e"
    using checkulpf_accuracy[OF y want(2) dy, where md = "rmode_of c env'"] call want(1) by (simp add: ulp_fails_def del: val.simps)
  then show ?thesis using p assms(1,2) by (simp add: float_mains ulp_status)
qed

lemmas unary_permutation =
  acos_test.status_permutation acosf_test.status_permutation acosh_test.status_permutation
  acoshf_test.status_permutation asin_test.status_permutation asinf_test.status_permutation
  asinh_test.status_permutation asinhf_test.status_permutation atan_test.status_permutation
  atanf_test.status_permutation atanh_test.status_permutation atanhf_test.status_permutation
  cbrt_test.status_permutation cbrtf_test.status_permutation ceil_test.status_permutation
  ceilf_test.status_permutation cos_test.status_permutation cosf_test.status_permutation
  cosh_test.status_permutation coshf_test.status_permutation erf_test.status_permutation
  erfc_test.status_permutation erfcf_test.status_permutation erff_test.status_permutation
  exp_test.status_permutation exp10_test.status_permutation exp10f_test.status_permutation
  exp2_test.status_permutation exp2f_test.status_permutation expf_test.status_permutation
  expm1_test.status_permutation expm1f_test.status_permutation fabs_test.status_permutation
  fabsf_test.status_permutation floor_test.status_permutation floorf_test.status_permutation
  j0_test.status_permutation j0f_test.status_permutation j1_test.status_permutation
  j1f_test.status_permutation log_test.status_permutation log10_test.status_permutation
  log10f_test.status_permutation log1p_test.status_permutation log1pf_test.status_permutation
  log2_test.status_permutation log2f_test.status_permutation logb_test.status_permutation
  logbf_test.status_permutation logf_test.status_permutation nearbyint_test.status_permutation
  nearbyintf_test.status_permutation pow10_test.status_permutation pow10f_test.status_permutation
  rint_test.status_permutation rintf_test.status_permutation round_test.status_permutation
  roundf_test.status_permutation sin_test.status_permutation sinf_test.status_permutation
  sinh_test.status_permutation sinhf_test.status_permutation sqrt_test.status_permutation
  sqrtf_test.status_permutation tan_test.status_permutation tanf_test.status_permutation
  tanh_test.status_permutation tanhf_test.status_permutation tgamma_test.status_permutation
  tgammaf_test.status_permutation trunc_test.status_permutation truncf_test.status_permutation
  y0_test.status_permutation y0f_test.status_permutation y1_test.status_permutation
  y1f_test.status_permutation

lemmas binary_permutation =
  atan2_test.status_permutation atan2f_test.status_permutation copysign_test.status_permutation
  copysignf_test.status_permutation drem_test.status_permutation dremf_test.status_permutation
  fdim_test.status_permutation fdimf_test.status_permutation fmax_test.status_permutation
  fmaxf_test.status_permutation fmin_test.status_permutation fminf_test.status_permutation
  fmod_test.status_permutation fmodf_test.status_permutation hypot_test.status_permutation
  hypotf_test.status_permutation nextafter_test.status_permutation
  nextafterf_test.status_permutation pow_test.status_permutation powf_test.status_permutation
  remainder_test.status_permutation remainderf_test.status_permutation
  scalb_test.status_permutation scalbf_test.status_permutation

theorem float_tests_accuracy_witness:
  "fst (acosf_main riscv64 (ret1 (Fin False 0xc90fda (-23)) 1) [acosf_0] env_RU) = 0 \<and>
   \<bar>val (Fin False 0xc90fda (-23)) - val (Fin False 0xc90fdb (-23))\<bar> < mag 2 (-23)"
proof -
  note acc = float_tests_accuracy[where t = "[acosf_0]" and c = riscv64 and p = acosf_0
      and fn = "ret1 (Fin False 0xc90fda (-23)) 1" and y = "Fin False 0xc90fda (-23)"
      and env' = "\<lparr>rounding = 0, flags = 1\<rparr>" and env = env_RU
      and s = False and m = "0xc90fdb" and e = "-23"]
  have dy: "\<bar>val (Fin False 0xbbbd2e (-25))\<bar> \<le> 1 / 2" by (simp add: mag_def power_int_minus)
  have "\<forall>p \<in> set [acosf_0]. d_d.p_r p < 0 \<or> d_d.p_r p \<in> set (fe_modes riscv64)"
    "fp_ok flt32 (Fin False 0xc90fda (-23))" "fp_ok flt32 (Fin False 0xc90fdb (-23))"
    "fst (acosf_main riscv64 (ret1 (Fin False 0xc90fda (-23)) 1) [acosf_0] env_RU) = 0"
    "RN riscv64 = 0"
    by code_simp+
  with acc dy show ?thesis by (simp add: sample_defs ulp_bound_def del: val.simps)
qed

text \<open>
  The exit status of the tests of the functions from a number to a number, the tolerant ones included, depends
  on nothing but the rows as a multiset: not on their order, so not on what the rows before left in
  the floating-point environment, and not on the environment the program is started in.
\<close>

theorem unary_tests_order:
  assumes "\<forall>p \<in> set t. d_d.p_r p < 0 \<or> d_d.p_r p \<in> set (fe_modes c)"
    and "2 * length t < 2 ^ 31" and "mset t = mset t'"
  shows "\<forall>main \<in> set
     [acos_main, acosf_main, acosh_main, acoshf_main, asin_main, asinf_main, asinh_main,
      asinhf_main, atan_main, atanf_main, atanh_main, atanhf_main, cbrt_main, cbrtf_main,
      ceil_main, ceilf_main, cos_main, cosf_main, cosh_main, coshf_main, erf_main, erfc_main,
      erfcf_main, erff_main, exp_main, exp10_main, exp10f_main, exp2_main, exp2f_main, expf_main,
      expm1_main, expm1f_main, fabs_main, fabsf_main, floor_main, floorf_main, j0_main, j0f_main,
      j1_main, j1f_main, log_main, log10_main, log10f_main, log1p_main, log1pf_main, log2_main,
      log2f_main, logb_main, logbf_main, logf_main, nearbyint_main, nearbyintf_main, pow10_main,
      pow10f_main, rint_main, rintf_main, round_main, roundf_main, sin_main, sinf_main,
      sinh_main, sinhf_main, sqrt_main, sqrtf_main, tan_main, tanf_main, tanh_main, tanhf_main,
      tgamma_main, tgammaf_main, trunc_main, truncf_main, y0_main, y0f_main, y1_main, y1f_main].
     fst (main c fn t env) = fst (main c fn t' env')"
  by (simp add: double_mains float_mains) (intro conjI unary_permutation assms)

theorem unary_tests_order_witness:
  "fst (cos_main riscv64 (ret1 (Fin False 0x1921fb54442d19 (-52)) 1) [acos_0, fabs_2] env_RU) =
   fst (cos_main riscv64 (ret1 (Fin False 0x1921fb54442d19 (-52)) 1) [fabs_2, acos_0] \<lparr>rounding = 0, flags = 0\<rparr>)"
proof -
  have "\<forall>p \<in> set [acos_0, fabs_2]. d_d.p_r p < 0 \<or> d_d.p_r p \<in> set (fe_modes riscv64)" by code_simp
  from unary_tests_order[OF this, of "[fabs_2, acos_0]" "ret1 (Fin False 0x1921fb54442d19 (-52)) 1" env_RU "\<lparr>rounding = 0, flags = 0\<rparr>"]
  show ?thesis by (simp add: add_mset_commute)
qed

text \<open>
  The exit status of the tests of the functions of two numbers, the tolerant ones included, depends
  on nothing but the rows as a multiset: not on their order, so not on what the rows before left in
  the floating-point environment, and not on the environment the program is started in.
\<close>

theorem binary_tests_order:
  assumes "\<forall>p \<in> set t. dd_d.p_r p < 0 \<or> dd_d.p_r p \<in> set (fe_modes c)"
    and "2 * length t < 2 ^ 31" and "mset t = mset t'"
  shows "\<forall>main \<in> set
     [atan2_main, atan2f_main, copysign_main, copysignf_main, drem_main, dremf_main, fdim_main,
      fdimf_main, fmax_main, fmaxf_main, fmin_main, fminf_main, fmod_main, fmodf_main,
      hypot_main, hypotf_main, nextafter_main, nextafterf_main, pow_main, powf_main,
      remainder_main, remainderf_main, scalb_main, scalbf_main].
     fst (main c fn t env) = fst (main c fn t' env')"
  by (simp add: double_mains float_mains) (intro conjI binary_permutation assms)

theorem binary_tests_order_witness:
  "fst (fmod_main riscv64 (ret2 (Fin False 0x1161868e18bc67 (-50)) 0) [fmod_1, fmod_2] env_RU) =
   fst (fmod_main riscv64 (ret2 (Fin False 0x1161868e18bc67 (-50)) 0) [fmod_2, fmod_1] \<lparr>rounding = 0, flags = 0\<rparr>)"
proof -
  have "\<forall>p \<in> set [fmod_1, fmod_2]. dd_d.p_r p < 0 \<or> dd_d.p_r p \<in> set (fe_modes riscv64)" by code_simp
  from binary_tests_order[OF this, of "[fmod_2, fmod_1]" "ret2 (Fin False 0x1161868e18bc67 (-50)) 0" env_RU "\<lparr>rounding = 0, flags = 0\<rparr>"]
  show ?thesis by (simp add: add_mset_commute)
qed

text \<open>
  On riscv64, whose \<^verbatim>\<open>long double\<close> has 113 bits, no row of the tables is compiled in, so that
  every \<^verbatim>\<open>long double\<close> test returns 0 and prints nothing, whatever the library computes and
  whatever the files of rows hold.
\<close>

theorem ldouble_tests_empty:
  "(\<lambda>main. main riscv64 f1 t1 t1' env) ` set
     [acoshl_main, acosl_main, asinhl_main, asinl_main, atanhl_main, atanl_main, cbrtl_main,
      ceill_main, coshl_main, cosl_main, erfcl_main, erfl_main, exp10l_main, exp2l_main,
      expl_main, expm1l_main, fabsl_main, floorl_main, log10l_main, log1pl_main, log2l_main,
      logbl_main, logl_main, nearbyintl_main, pow10l_main, rintl_main, roundl_main, sinhl_main,
      sinl_main, sqrtl_main, tanhl_main, tanl_main, tgammal_main, truncl_main] = {(0, [])} \<and>
   (\<lambda>main. main riscv64 f2 t2 t2' env) ` set
     [atan2l_main, copysignl_main, fdiml_main, fmaxl_main, fminl_main, fmodl_main, hypotl_main,
      nextafterl_main, nexttowardl_main, powl_main, remainderl_main] = {(0, [])} \<and>
   (\<lambda>main. main riscv64 f3 t3 t3' env) ` set
     [fmal_main] = {(0, [])} \<and>
   (\<lambda>main. main riscv64 f4 t4 t4' env) ` set
     [frexpl_main, lgammal_main, lgammal_r_main] = {(0, [])} \<and>
   (\<lambda>main. main riscv64 f5 t5 t5' env) ` set
     [ilogbl_main, llrintl_main, llroundl_main, lrintl_main, lroundl_main] = {(0, [])} \<and>
   (\<lambda>main. main riscv64 f6 t6 t6' env) ` set
     [ldexpl_main, scalblnl_main, scalbnl_main] = {(0, [])} \<and>
   (\<lambda>main. main riscv64 f7 t7 t7' env) ` set
     [modfl_main, sincosl_main] = {(0, [])} \<and>
   (\<lambda>main. main riscv64 f8 t8 t8' env) ` set
     [remquol_main] = {(0, [])}"
  by (simp add: ldouble_mains mtest_main_def ldbl_table_def riscv64_def)

lemma ulperrl_NaN_not_gt:
  "LDBL_MANT_DIG c = 64 \<Longrightarrow> \<not> fp_lt (Fin False 2 0) (fabs (ulperrl c md NaN want dwant))"
  by (auto simp: ulperrl_def isnan_def fp_sub_def scaled_def Let_def)

text \<open>
  The test of \<^verbatim>\<open>tgammal\<close> compares the error with \<^verbatim>\<open>fabs(d) > 2\<close>, which a NaN does not
  satisfy: a library whose \<^verbatim>\<open>tgammal\<close> returns NaN for every argument, raising the exceptions of
  the rows, passes on the targets with the 64-bit format, also where the rows want numbers.
\<close>

theorem tgammal_NaN_accepted:
  assumes "LDBL_MANT_DIG c = 64"
    and sup: "\<forall>p \<in> set t. d_d.p_r p < 0 \<or> d_d.p_r p \<in> set (fe_modes c)" "2 * length t < 2 ^ 31"
    and nan: "\<forall>x env. fst (fn x env) = NaN"
    and exc: "\<forall>p \<in> set t. checkexcept c
      (fetestexcept (all5 c) (snd (fn (d_d.p_x p) \<lparr>rounding = d_d.p_r p, flags = 0\<rparr>)))
      (d_d.p_e p) (d_d.p_r p)"
  shows "fst (tgammal_main c fn t53 t env) = 0"
proof -
  have "row_fails (tgammal_row c fn) p \<lparr>rounding = d_d.p_r p, flags = 0\<rparr> = 0" if "p \<in> set t" for p
    using that assms(1) nan exc
    by (simp add: row_fails_def tgammal_row_def row_simps ulperrl_NaN_not_gt cong: printf_cong)
  then show ?thesis using assms(1) tgammal_test.status[OF sup]
    by (simp add: tgammal_main_def ldbl_table_def)
qed

theorem tgammal_NaN_accepted_witness:
  "fst (tgammal_main (riscv64\<lparr>LDBL_MANT_DIG := 64\<rparr>) (ret1 NaN 1) [] [tgammal_2] env_RU) = 0"
proof -
  let ?c = "riscv64\<lparr>LDBL_MANT_DIG := 64\<rparr>"
  have sup: "\<forall>p \<in> set [tgammal_2]. d_d.p_r p < 0 \<or> d_d.p_r p \<in> set (fe_modes ?c)" by code_simp
  have exc: "\<forall>p \<in> set [tgammal_2]. checkexcept ?c
      (fetestexcept (all5 ?c) (snd (ret1 NaN 1 (d_d.p_x p) \<lparr>rounding = d_d.p_r p, flags = 0\<rparr>)))
      (d_d.p_e p) (d_d.p_r p)" by code_simp
  show ?thesis by (rule tgammal_NaN_accepted[OF _ sup _ _ exc]) (simp_all add: ret1_def ret_def)
qed

end
