(* ===== verification/K_Rust.thy ===== *)
theory K_Rust
  imports Prelude
begin

text \<open>
  What the kernel's Rust code uses of its language.  The build scripts of the repository build the
  kernel in debug mode, so an arithmetic overflow, an index out of range, a failed assertion and an
  \<^verbatim>\<open>unwrap\<close> of nothing stop the kernel.  A computation that can stop is a value of type
  \<open>'a run\<close>: \<open>Some\<close> of what it returns, \<open>None\<close> when it panics or does not return.  A \<^verbatim>\<open>usize\<close> is a
  natural number below 2 to the 64 wherever it is counted with, and a word where its bits are used.
\<close>

type_synonym usize = nat
type_synonym 'a run = "'a option"

named_theorems rust_ops \<open>rules that carry out the operations below when they do not panic\<close>

definition uadd :: "usize \<Rightarrow> usize \<Rightarrow> usize run" where
  "uadd x y = (if x + y < 2 ^ 64 then Some (x + y) else None)"

definition usub :: "usize \<Rightarrow> usize \<Rightarrow> usize run" where
  "usub x y = (if y \<le> x then Some (x - y) else None)"

definition umul :: "usize \<Rightarrow> usize \<Rightarrow> usize run" where
  "umul x y = (if x * y < 2 ^ 64 then Some (x * y) else None)"

definition udiv :: "usize \<Rightarrow> usize \<Rightarrow> usize run" where
  "udiv x y = (if y = 0 then None else Some (x div y))"

definition umod :: "usize \<Rightarrow> usize \<Rightarrow> usize run" where
  "umod x y = (if y = 0 then None else Some (x mod y))"

definition rassert :: "bool \<Rightarrow> unit run" where
  "rassert b = (if b then Some () else None)"

definition vec_get :: "'a list \<Rightarrow> usize \<Rightarrow> 'a run" where
  "vec_get xs i = (if i < length xs then Some (xs ! i) else None)"

definition vec_set :: "'a list \<Rightarrow> usize \<Rightarrow> 'a \<Rightarrow> 'a list run" where
  "vec_set xs i v = (if i < length xs then Some (xs[i := v]) else None)"

text \<open>\<^verbatim>\<open>Vec::resize_with\<close>.\<close>

definition vec_resize :: "'a list \<Rightarrow> usize \<Rightarrow> 'a \<Rightarrow> 'a list" where
  "vec_resize xs n v = take n xs @ replicate (n - length xs) v"

lemma uadd_ok [rust_ops]: "x + y < 2 ^ 64 \<Longrightarrow> uadd x y = Some (x + y)"
  and usub_ok [rust_ops]: "y \<le> x \<Longrightarrow> usub x y = Some (x - y)"
  and umul_ok [rust_ops]: "x * y < 2 ^ 64 \<Longrightarrow> umul x y = Some (x * y)"
  and udiv_ok [rust_ops]: "0 < y \<Longrightarrow> udiv x y = Some (x div y)"
  and umod_ok [rust_ops]: "0 < y \<Longrightarrow> umod x y = Some (x mod y)"
  and rassert_ok [rust_ops]: "b \<Longrightarrow> rassert b = Some ()"
  by (auto simp: uadd_def usub_def umul_def udiv_def umod_def rassert_def)

lemma vec_get_ok [rust_ops]: "i < length xs \<Longrightarrow> vec_get xs i = Some (xs ! i)"
  and vec_set_ok [rust_ops]: "i < length xs \<Longrightarrow> vec_set xs i v = Some (xs[i := v])"
  by (simp_all add: vec_get_def vec_set_def)

lemma length_vec_resize [simp]: "length (vec_resize xs n v) = n"
  by (simp add: vec_resize_def)

lemma nth_vec_resize:
  "i < n \<Longrightarrow> vec_resize xs n v ! i = (if i < length xs then xs ! i else v)"
  by (simp add: vec_resize_def nth_append)

text \<open>Constants of \<^verbatim>\<open>consts.rs\<close>.\<close>

definition PAGE_SIZE :: usize where "PAGE_SIZE = 4096"
definition PAGE_OFFSET :: usize where "PAGE_OFFSET = 12"
definition MAX_ORDER :: usize where "MAX_ORDER = 11"
definition PHY_MEM_OFFSET :: usize where "PHY_MEM_OFFSET = 0xFFFFFFD800000000"
definition DIRECT_MAP_START :: usize where "DIRECT_MAP_START = 0xffffffd800000000"
definition USER_SPACE_START :: usize where "USER_SPACE_START = 0"
definition USER_SPACE_END :: usize where "USER_SPACE_END = 0x10000000"
definition USER_STACK_MAX_ADDR :: usize where "USER_STACK_MAX_ADDR = 0x10000000"
definition MMAP_TOP :: usize where "MMAP_TOP = 0x8000000"

end
