(* ===== verification/K_Addr.thy ===== *)
theory K_Addr
  imports K_Rust
begin

text \<open>
  \<^verbatim>\<open>kernel/src/mm/addr.rs\<close> and the arithmetic of \<^verbatim>\<open>kernel/src/utils.rs\<close>.  The source has the same
  text for physical and for virtual addresses; both are \<^verbatim>\<open>usize\<close> values here, and the operations are
  those of \<^verbatim>\<open>Vaddr\<close>.
\<close>

unbundle bit_operations_syntax

type_synonym vaddr = usize
type_synonym paddr = usize

section \<open>Alignment\<close>

definition is_align :: "vaddr \<Rightarrow> bool" where
  "is_align a \<longleftrightarrow> a mod PAGE_SIZE = 0"

definition is_align_n :: "vaddr \<Rightarrow> usize \<Rightarrow> bool run" where
  "is_align_n a n = do { r \<leftarrow> umod a n; Some (r = 0) }"

text \<open>\<open>floor\<close> adds the page size first and does not use the sum; the addition can overflow.\<close>

definition addr_floor :: "vaddr \<Rightarrow> vaddr run" where
  "addr_floor a = do { _ \<leftarrow> uadd a PAGE_SIZE; q \<leftarrow> udiv a PAGE_SIZE; umul q PAGE_SIZE }"

definition addr_ceil :: "vaddr \<Rightarrow> vaddr run" where
  "addr_ceil a =
     (if is_align a then addr_floor a
      else do { f \<leftarrow> addr_floor a; uadd f PAGE_SIZE })"

definition steps_between :: "vaddr \<Rightarrow> vaddr \<Rightarrow> usize option" where
  "steps_between start stop = (if start \<le> stop then Some (stop - start) else None)"

definition forward_checked :: "vaddr \<Rightarrow> usize \<Rightarrow> vaddr option" where
  "forward_checked start n = (if start + n < 2 ^ 64 then Some (start + n) else None)"

definition backward_checked :: "vaddr \<Rightarrow> usize \<Rightarrow> vaddr option" where
  "backward_checked start n = (if n \<le> start then Some (start - n) else None)"

definition paddr_into_vaddr :: "paddr \<Rightarrow> vaddr run" where
  "paddr_into_vaddr p = uadd p PHY_MEM_OFFSET"

definition vaddr_into_paddr :: "vaddr \<Rightarrow> paddr run" where
  "vaddr_into_paddr v = usub v PHY_MEM_OFFSET"

section \<open>Iteration over addresses\<close>

record AddrIterator =
  it_step :: usize
  it_cur :: vaddr
  it_end :: vaddr

definition AddrIterator_next :: "AddrIterator \<Rightarrow> (vaddr option \<times> AddrIterator) run" where
  "AddrIterator_next it =
     (if it_cur it < it_end it
      then do {
        c \<leftarrow> uadd (it_cur it) (it_step it);
        Some (Some (it_cur it), it\<lparr>it_cur := c\<rparr>)
      }
      else Some (None, it))"

definition addr_iter :: "vaddr \<Rightarrow> usize \<Rightarrow> usize \<Rightarrow> AddrIterator run" where
  "addr_iter a len step = do { e \<leftarrow> uadd a len; Some \<lparr>it_step = step, it_cur = a, it_end = e\<rparr> }"

definition page_addr_iter :: "vaddr \<Rightarrow> usize \<Rightarrow> AddrIterator run" where
  "page_addr_iter a len = addr_iter a len PAGE_SIZE"

text \<open>A \<^verbatim>\<open>for\<close> loop over an iterator, as the list of the addresses its body sees.\<close>

partial_function (option) addr_collect :: "AddrIterator \<Rightarrow> vaddr list run" where
  "addr_collect it = do {
     r \<leftarrow> AddrIterator_next it;
     (case fst r of
        None \<Rightarrow> Some []
      | Some a \<Rightarrow> do { as \<leftarrow> addr_collect (snd r); Some (a # as) })
   }"

declare addr_collect.simps [code]

section \<open>Page counts and orders\<close>

definition order2pages :: "usize \<Rightarrow> usize" where
  "order2pages order = (if order < MAX_ORDER then 2 ^ order else 0)"

fun pages2order_loop :: "usize \<Rightarrow> usize list \<Rightarrow> usize" where
  "pages2order_loop pages [] = MAX_ORDER"
| "pages2order_loop pages (i # is) =
     (if order2pages i \<ge> pages then i else pages2order_loop pages is)"

definition pages2order :: "usize \<Rightarrow> usize" where
  "pages2order pages = pages2order_loop pages [0..<MAX_ORDER]"

definition addr_page_align_lower :: "usize \<Rightarrow> usize run" where
  "addr_page_align_lower addr = usub addr (addr AND PAGE_SIZE)"

definition addr_page_align_upper :: "usize \<Rightarrow> usize run" where
  "addr_page_align_upper addr = do {
     ret \<leftarrow> usub addr (addr AND PAGE_SIZE);
     if ret AND PAGE_SIZE \<noteq> 0 then uadd ret PAGE_SIZE else Some ret
   }"

definition addr_get_ppn0 :: "usize \<Rightarrow> usize" where "addr_get_ppn0 v = (drop_bit 12 v) AND 0x1FF"
definition addr_get_ppn1 :: "usize \<Rightarrow> usize" where "addr_get_ppn1 v = (drop_bit 21 v) AND 0x1FF"
definition addr_get_ppn2 :: "usize \<Rightarrow> usize" where "addr_get_ppn2 v = (drop_bit 30 v) AND 0x1FF"

section \<open>Facts the allocators use\<close>

lemma floor_eq: "a + PAGE_SIZE < 2 ^ 64 \<Longrightarrow> addr_floor a = Some (a div PAGE_SIZE * PAGE_SIZE)"
  by (simp add: addr_floor_def PAGE_SIZE_def uadd_def udiv_def umul_def)

lemma ceil_eq:
  "a + PAGE_SIZE < 2 ^ 64 \<Longrightarrow>
   addr_ceil a = Some (if is_align a then a else a div PAGE_SIZE * PAGE_SIZE + PAGE_SIZE)"
  by (auto simp: addr_ceil_def floor_eq is_align_def PAGE_SIZE_def uadd_def)

lemma collect_next:
  "addr_collect it =
     (if it_cur it < it_end it
      then do { c \<leftarrow> uadd (it_cur it) (it_step it);
                as \<leftarrow> addr_collect (it\<lparr>it_cur := c\<rparr>);
                Some (it_cur it # as) }
      else Some [])"
  by (subst addr_collect.simps) (simp add: AddrIterator_next_def split: bind_split)

text \<open>The loop sees the addresses in steps from the start, up to but excluding the end.\<close>

lemma collect_eq:
  assumes "stop \<le> cur + n * step" and "n = 0 \<or> cur + (n - 1) * step < stop"
    and "cur + n * step < 2 ^ 64"
  shows "addr_collect \<lparr>it_step = step, it_cur = cur, it_end = stop\<rparr> =
    Some (map (\<lambda>k. cur + k * step) [0..<n])"
  using assms
proof (induction n arbitrary: cur)
  case 0
  then show ?case by (simp add: collect_next)
next
  case (Suc n)
  have le: "cur \<le> cur + n * step" and n: "n = 0 \<or> cur + step + (n - 1) * step = cur + n * step"
    by (cases n; simp)+
  have "addr_collect \<lparr>it_step = step, it_cur = cur + step, it_end = stop\<rparr> =
      Some (map (\<lambda>k. cur + step + k * step) [0..<n])"
    using Suc.prems n by (intro Suc.IH) (auto simp: algebra_simps)
  moreover have "cur < stop" using Suc.prems(2) le by simp
  moreover have "map (\<lambda>k. cur + k * step) [0..<Suc n] = cur # map (\<lambda>k. cur + step + k * step) [0..<n]"
    by (simp add: upt_conv_Cons map_Suc_upt[symmetric] algebra_simps del: upt_Suc map_Suc_upt)
  ultimately show ?case
    using Suc.prems(3) by (simp add: collect_next uadd_def)
qed

lemma order2pages_pos: "i < MAX_ORDER \<Longrightarrow> order2pages i = 2 ^ i"
  by (simp add: order2pages_def)

lemma pages2order_loop_least:
  "pages2order_loop pages is =
     (case filter (\<lambda>i. pages \<le> order2pages i) is of [] \<Rightarrow> MAX_ORDER | i # _ \<Rightarrow> i)"
  by (induction "is") auto

section \<open>Properties\<close>

text \<open>
  Rounding an address to its page.  Unless the address is within one page of the end of the
  address space, where both stop the kernel, \<^verbatim>\<open>floor\<close> gives the largest multiple of the page
  size that is not above the address and \<^verbatim>\<open>ceil\<close> the smallest that is not below it.
\<close>

theorem floor_ceil_page:
  "if a + PAGE_SIZE < 2 ^ 64
   then addr_floor a = Some (Max {x. is_align x \<and> x \<le> a}) \<and>
        addr_ceil a = Some (LEAST x. is_align x \<and> a \<le> x)
   else addr_floor a = None \<and> addr_ceil a = None"
proof -
  have "Max {x. is_align x \<and> x \<le> a} = a div PAGE_SIZE * PAGE_SIZE"
    by (rule Max_eqI) (auto simp: is_align_def PAGE_SIZE_def)
  moreover have "(LEAST x. is_align x \<and> a \<le> x) =
      (if is_align a then a else a div PAGE_SIZE * PAGE_SIZE + PAGE_SIZE)"
    by (rule Least_equality) (auto simp: is_align_def next_multiple_le dvd_eq_mod_eq_0 PAGE_SIZE_def)
  ultimately show ?thesis
    by (auto simp: floor_eq ceil_eq) (auto simp: addr_floor_def addr_ceil_def uadd_def)
qed

lemma and_page: "a AND PAGE_SIZE = of_bool (bit a 12) * 2 ^ 12"
  using and_power2_nat[of a 12] by (simp add: PAGE_SIZE_def)

text \<open>
  The functions of \<^verbatim>\<open>utils.rs\<close> that are named for aligning an address to a page clear bit 12
  and no other: both return the address unchanged when that bit is 0, so an address inside a page is
  not aligned by either.
\<close>

theorem addr_page_align_clears_bit_12:
  "addr_page_align_lower a = Some (unset_bit 12 a) \<and>
   addr_page_align_upper a = Some (unset_bit 12 a)"
proof -
  have "usub a (a AND PAGE_SIZE) = Some (unset_bit 12 a)"
    using unset_bit_nat[of 12 a] by (auto simp: usub_def and_page)
  moreover have "unset_bit 12 a AND PAGE_SIZE = 0"
    by (simp add: and_page bit_unset_bit_iff)
  ultimately show ?thesis by (simp add: addr_page_align_lower_def addr_page_align_upper_def)
qed

end
