(* ===== verification/K_Bitmap.thy ===== *)
theory K_Bitmap
  imports K_Rust
begin

text \<open>
  \<^verbatim>\<open>kernel/src/mm/bitmap.rs\<close>: a growing bitmap over a vector of 64-bit words.  The locale states
  what its client, the buddy allocator, relies on; the interpretation proves it of the code, and
  the bitmap is shown to behave as a set of numbers under every sequence of operations.
\<close>

unbundle bit_operations_syntax

section \<open>Operations\<close>

record Bitmap =
  bm_inner :: "u64 list"
  bm_len :: usize

definition Bitmap_default :: Bitmap where
  "Bitmap_default = \<lparr>bm_inner = [], bm_len = 0\<rparr>"

definition Bitmap_init :: "Bitmap \<Rightarrow> usize \<Rightarrow> Bitmap run" where
  "Bitmap_init b len = do {
     cnt \<leftarrow> (if len mod 64 \<noteq> 0 then uadd (len div 64) 1 else Some (len div 64));
     Some (b\<lparr>bm_inner := vec_resize (bm_inner b) cnt 0, bm_len := len\<rparr>)
   }"

definition Bitmap_new :: "usize \<Rightarrow> Bitmap run" where
  "Bitmap_new len = Bitmap_init Bitmap_default len"

definition expand_cap_to_bytes :: "Bitmap \<Rightarrow> usize \<Rightarrow> Bitmap" where
  "expand_cap_to_bytes b n = b\<lparr>bm_inner := vec_resize (bm_inner b) n 0\<rparr>"

definition expand_cap_double :: "Bitmap \<Rightarrow> Bitmap run" where
  "expand_cap_double b = do {
     new_len \<leftarrow> umul (length (bm_inner b)) 2;
     Some (expand_cap_to_bytes b new_len)
   }"

definition bm_cap :: "Bitmap \<Rightarrow> usize run" where
  "bm_cap b = umul (length (bm_inner b)) 64"

partial_function (option) expand_cap_for :: "Bitmap \<Rightarrow> usize \<Rightarrow> Bitmap run" where
  "expand_cap_for b target_pos = do {
     c \<leftarrow> bm_cap b;
     if target_pos \<ge> c then do { b \<leftarrow> expand_cap_double b; expand_cap_for b target_pos }
     else Some b
   }"

declare expand_cap_for.simps [code]

definition auto_expand_cap :: "Bitmap \<Rightarrow> usize \<Rightarrow> Bitmap run" where
  "auto_expand_cap b pos = do {
     c \<leftarrow> bm_cap b;
     if pos \<ge> c then expand_cap_for b pos else Some b
   }"

definition adjust_len :: "Bitmap \<Rightarrow> usize \<Rightarrow> Bitmap" where
  "adjust_len b pos = (if pos > bm_len b then b\<lparr>bm_len := pos\<rparr> else b)"

definition bm_set :: "Bitmap \<Rightarrow> usize \<Rightarrow> Bitmap run" where
  "bm_set b pos = do {
     b \<leftarrow> auto_expand_cap b pos;
     bits \<leftarrow> vec_get (bm_inner b) (pos div 64);
     let mask = push_bit (pos mod 64) 1;
     b \<leftarrow> (if bits AND mask = 0
       then do {
         inner \<leftarrow> vec_set (bm_inner b) (pos div 64) (bits + mask);
         Some (b\<lparr>bm_inner := inner\<rparr>)
       }
       else Some b);
     Some (adjust_len b pos)
   }"

definition bm_clear :: "Bitmap \<Rightarrow> usize \<Rightarrow> Bitmap run" where
  "bm_clear b pos = do {
     let b = adjust_len b pos;
     c \<leftarrow> bm_cap b;
     if pos \<ge> c then expand_cap_for b pos
     else do {
       bits \<leftarrow> vec_get (bm_inner b) (pos div 64);
       let mask = NOT (push_bit (pos mod 64) 1);
       inner \<leftarrow> vec_set (bm_inner b) (pos div 64) (bits AND mask);
       Some (b\<lparr>bm_inner := inner\<rparr>)
     }
   }"

definition bm_get :: "Bitmap \<Rightarrow> usize \<Rightarrow> (bool \<times> Bitmap) run" where
  "bm_get b pos = do {
     let b = adjust_len b pos;
     c \<leftarrow> bm_cap b;
     if pos < c
     then do {
       bits \<leftarrow> vec_get (bm_inner b) (pos div 64);
       let mask = push_bit (pos mod 64) 1;
       Some (if bits AND mask \<noteq> 0 then True else False, b)
     }
     else do { b \<leftarrow> expand_cap_for b pos; Some (False, b) }
   }"

definition turn_over :: "Bitmap \<Rightarrow> usize \<Rightarrow> Bitmap run" where
  "turn_over b pos = do {
     (v, b) \<leftarrow> bm_get (adjust_len b pos) pos;
     if v then bm_clear b pos else bm_set b pos
   }"

section \<open>Contract\<close>

text \<open>
  A structure that keeps one bit for each position below \<open>lim\<close>: \<open>bits\<close> is what it stands for.
\<close>

locale bit_array =
  fixes ok :: "'b \<Rightarrow> bool" and bits :: "'b \<Rightarrow> nat \<Rightarrow> bool" and lim :: nat
    and rd :: "'b \<Rightarrow> nat \<Rightarrow> (bool \<times> 'b) run" and st :: "'b \<Rightarrow> nat \<Rightarrow> 'b run"
    and cl :: "'b \<Rightarrow> nat \<Rightarrow> 'b run" and fl :: "'b \<Rightarrow> nat \<Rightarrow> 'b run"
  assumes rd: "ok b \<Longrightarrow> p < lim \<Longrightarrow> \<exists>b'. rd b p = Some (bits b p, b') \<and> ok b' \<and> bits b' = bits b"
    and st: "ok b \<Longrightarrow> p < lim \<Longrightarrow> \<exists>b'. st b p = Some b' \<and> ok b' \<and> bits b' = (bits b)(p := True)"
    and cl: "ok b \<Longrightarrow> p < lim \<Longrightarrow> \<exists>b'. cl b p = Some b' \<and> ok b' \<and> bits b' = (bits b)(p := False)"
    and fl: "ok b \<Longrightarrow> p < lim \<Longrightarrow> \<exists>b'. fl b p = Some b' \<and> ok b' \<and> bits b' = (bits b)(p := \<not> bits b p)"
begin

text \<open>Setting a bit and reading it, and two flips.\<close>

lemma st_rd:
  "ok b \<Longrightarrow> p < lim \<Longrightarrow> q < lim \<Longrightarrow>
   map_option fst (st b p \<bind> (\<lambda>b. rd b q)) = Some (q = p \<or> bits b q)"
  using st[of b p] rd[of _ q] by fastforce

lemma fl_fl:
  "ok b \<Longrightarrow> p < lim \<Longrightarrow> map_option bits (fl b p \<bind> (\<lambda>b. fl b p)) = Some (bits b)"
  using fl[of b p] fl[of _ p] by fastforce

end

section \<open>The code meets the contract\<close>

definition bm_ok :: "Bitmap \<Rightarrow> bool" where
  "bm_ok b \<longleftrightarrow> bm_inner b \<noteq> [] \<and> length (bm_inner b) < 2 ^ 57"

definition bm_bits :: "Bitmap \<Rightarrow> usize \<Rightarrow> bool" where
  "bm_bits b k \<longleftrightarrow> k div 64 < length (bm_inner b) \<and> bit (bm_inner b ! (k div 64)) (k mod 64)"

lemma adjust_len_simps [simp]:
  "bm_inner (adjust_len b p) = bm_inner b" "bm_ok (adjust_len b p) = bm_ok b"
  "bm_bits (adjust_len b p) = bm_bits b" "adjust_len (adjust_len b p) p = adjust_len b p"
  by (auto simp: adjust_len_def bm_ok_def bm_bits_def fun_eq_iff)

lemma cap_eq: "bm_ok b \<Longrightarrow> bm_cap b = Some (length (bm_inner b) * 64)"
  by (simp add: bm_cap_def bm_ok_def umul_def)

lemma div64_less: "k < n * 64 \<longleftrightarrow> k div 64 < n" "n * 64 \<le> k \<longleftrightarrow> n \<le> k div 64" for k n :: nat
  by (simp_all add: div_less_iff_less_mult less_eq_div_iff_mult_less_eq)

lemma bits_resize:
  "length (bm_inner b) \<le> n \<Longrightarrow> bm_bits (expand_cap_to_bytes b n) = bm_bits b"
  by (auto simp: bm_bits_def expand_cap_to_bytes_def fun_eq_iff nth_vec_resize split: if_splits)

lemma expand_ok:
  assumes "bm_ok b" "p < 2 ^ 62"
  shows "\<exists>b'. expand_cap_for b p = Some b' \<and> bm_ok b' \<and> bm_bits b' = bm_bits b \<and>
    p div 64 < length (bm_inner b')"
  using assms
proof (induction "Suc p - length (bm_inner b)" arbitrary: b rule: less_induct)
  case less
  show ?case
  proof (cases "p < length (bm_inner b) * 64")
    case True
    with less.prems show ?thesis
      by (subst expand_cap_for.simps) (auto simp: cap_eq simp flip: div64_less(1))
  next
    case False
    let ?n = "length (bm_inner b) * 2"
    let ?b = "expand_cap_to_bytes b ?n"
    have n: "length (bm_inner b) < ?n" "?n < 2 ^ 57" using less.prems False by (auto simp: bm_ok_def)
    then have ok: "bm_ok ?b" and len: "length (bm_inner ?b) = ?n"
      by (auto simp: bm_ok_def expand_cap_to_bytes_def vec_resize_def)
    have "Suc p - length (bm_inner ?b) < Suc p - length (bm_inner b)" 
      using n len False by linarith
    from less.hyps[OF this ok less.prems(2)] obtain b' where
      b': "expand_cap_for ?b p = Some b'" "bm_ok b'" "bm_bits b' = bm_bits b"
        "p div 64 < length (bm_inner b')"
      using bits_resize[of b ?n] n by auto
    have "expand_cap_for b p = expand_cap_for ?b p"
      using False n by (subst expand_cap_for.simps)
        (simp add: cap_eq[OF less.prems(1)] expand_cap_double_def umul_def)
    with b' show ?thesis by simp
  qed
qed

text \<open>Updating one word updates one bit.\<close>

lemma bits_update:
  assumes "p div 64 < length (bm_inner b)"
    and "\<And>n. n < 64 \<Longrightarrow> bit w n = (if n = p mod 64 then v else bit (bm_inner b ! (p div 64)) n)"
  shows "bm_bits (b\<lparr>bm_inner := (bm_inner b)[p div 64 := w]\<rparr>) = (bm_bits b)(p := v)"
proof -
  have "k = p \<longleftrightarrow> k div 64 = p div 64 \<and> k mod 64 = p mod 64" for k
    by (metis div_mult_mod_eq)
  then show ?thesis using assms by (auto simp: bm_bits_def fun_eq_iff nth_list_update)
qed

lemma ok_update [simp]: "bm_ok (b\<lparr>bm_inner := (bm_inner b)[i := w]\<rparr>) = bm_ok b"
  by (simp add: bm_ok_def)

lemma word_mask:
  fixes w :: u64
  assumes "i < 64"
  shows "n < 64 \<Longrightarrow> bit (w AND NOT (2 ^ i)) n = (if n = i then False else bit w n)"
    and "w AND 2 ^ i = 0 \<Longrightarrow> n < 64 \<Longrightarrow> bit (w + 2 ^ i) n = (if n = i then True else bit w n)"
  using assms by (auto simp: disjunctive_add_eq_or bit_or_iff bit_and_iff bit_not_iff bit_exp_iff)

lemma get_ok:
  assumes "bm_ok b" "p < 2 ^ 62"
  shows "\<exists>b'. bm_get b p = Some (bm_bits b p, b') \<and> bm_ok b' \<and> bm_bits b' = bm_bits b"
proof (cases "p < length (bm_inner b) * 64")
  case True
  then show ?thesis using assms
    by (auto simp: bm_get_def cap_eq div64_less rust_ops bm_bits_def[of b] and_exp_eq_0_iff_not_bit)
next
  case False
  then have "\<not> bm_bits b p" by (simp add: bm_bits_def div64_less)
  with False show ?thesis using assms expand_ok[of "adjust_len b p" p]
    by (auto simp: bm_get_def cap_eq)
qed

lemma set_ok:
  assumes "bm_ok b" "p < 2 ^ 62"
  shows "\<exists>b'. bm_set b p = Some b' \<and> bm_ok b' \<and> bm_bits b' = (bm_bits b)(p := True)"
proof -
  obtain b' where b': "auto_expand_cap b p = Some b'" "bm_ok b'" "bm_bits b' = bm_bits b"
    "p div 64 < length (bm_inner b')"
    using expand_ok[OF assms] assms by (cases "p < length (bm_inner b) * 64")
      (auto simp: auto_expand_cap_def cap_eq div64_less)
  show ?thesis
  proof (cases "bm_inner b' ! (p div 64) AND push_bit (p mod 64) 1 = 0")
    case True
    have "bm_bits (b'\<lparr>bm_inner := (bm_inner b')[p div 64 :=
        bm_inner b' ! (p div 64) + push_bit (p mod 64) 1]\<rparr>) = (bm_bits b')(p := True)"
      using True by (intro bits_update[OF b'(4)]) (simp add: word_mask(2))
    then show ?thesis using b' True by (simp add: bm_set_def rust_ops)
  next
    case False
    then have "bm_bits b' p" using b'(4) by (simp add: bm_bits_def and_exp_eq_0_iff_not_bit)
    then show ?thesis using b' False by (auto simp: bm_set_def rust_ops fun_upd_idem)
  qed
qed

lemma clear_ok:
  assumes "bm_ok b" "p < 2 ^ 62"
  shows "\<exists>b'. bm_clear b p = Some b' \<and> bm_ok b' \<and> bm_bits b' = (bm_bits b)(p := False)"
proof (cases "p < length (bm_inner b) * 64")
  case True
  let ?b = "adjust_len b p"
  have "bm_bits (?b\<lparr>bm_inner := (bm_inner ?b)[p div 64 :=
      bm_inner ?b ! (p div 64) AND NOT (push_bit (p mod 64) 1)]\<rparr>) = (bm_bits ?b)(p := False)"
    using True by (intro bits_update) (simp_all add: div64_less word_mask(1))
  then show ?thesis using True assms ok_update[of ?b]
    by (simp add: bm_clear_def cap_eq div64_less rust_ops)
next
  case False
  then have "(bm_bits b)(p := False) = bm_bits b" by (auto simp: bm_bits_def div64_less fun_eq_iff)
  with False show ?thesis using assms expand_ok[of "adjust_len b p" p]
    by (auto simp: bm_clear_def cap_eq)
qed

lemma turn_over_ok:
  assumes "bm_ok b" "p < 2 ^ 62"
  shows "\<exists>b'. turn_over b p = Some b' \<and> bm_ok b' \<and> bm_bits b' = (bm_bits b)(p := \<not> bm_bits b p)"
proof -
  obtain b' where b': "bm_get (adjust_len b p) p = Some (bm_bits b p, b')" "bm_ok b'"
    "bm_bits b' = bm_bits b"
    using get_ok[of "adjust_len b p" p] assms by auto
  then show ?thesis using clear_ok[OF b'(2) assms(2)] set_ok[OF b'(2) assms(2)]
    by (auto simp: turn_over_def)
qed

interpretation bm: bit_array bm_ok bm_bits "2 ^ 62" bm_get bm_set bm_clear turn_over
  by unfold_locales (fact get_ok set_ok clear_ok turn_over_ok)+

section \<open>The bitmap as a set of numbers\<close>

datatype bm_op = Op_get usize | Op_set usize | Op_clear usize | Op_turn_over usize

primrec op_pos :: "bm_op \<Rightarrow> usize" where
  "op_pos (Op_get p) = p"
| "op_pos (Op_set p) = p"
| "op_pos (Op_clear p) = p"
| "op_pos (Op_turn_over p) = p"

text \<open>A sequence of calls with the results of the reads, on the code and on a set.\<close>

fun bm_run :: "bm_op list \<Rightarrow> Bitmap \<Rightarrow> (bool list \<times> Bitmap) run" where
  "bm_run [] b = Some ([], b)"
| "bm_run (Op_get p # ops) b =
     do { (v, b) \<leftarrow> bm_get b p; (vs, b) \<leftarrow> bm_run ops b; Some (v # vs, b) }"
| "bm_run (Op_set p # ops) b = do { b \<leftarrow> bm_set b p; bm_run ops b }"
| "bm_run (Op_clear p # ops) b = do { b \<leftarrow> bm_clear b p; bm_run ops b }"
| "bm_run (Op_turn_over p # ops) b = do { b \<leftarrow> turn_over b p; bm_run ops b }"

fun set_run :: "bm_op list \<Rightarrow> usize set \<Rightarrow> bool list \<times> usize set" where
  "set_run [] S = ([], S)"
| "set_run (Op_get p # ops) S = (let (vs, S') = set_run ops S in ((p \<in> S) # vs, S'))"
| "set_run (Op_set p # ops) S = set_run ops (insert p S)"
| "set_run (Op_clear p # ops) S = set_run ops (S - {p})"
| "set_run (Op_turn_over p # ops) S = set_run ops (if p \<in> S then S - {p} else insert p S)"

definition bm_set_of :: "Bitmap \<Rightarrow> usize set" where
  "bm_set_of b = {k. bm_bits b k}"

lemma set_of_upd:
  "bm_bits b' = (bm_bits b)(p := v) \<Longrightarrow>
   bm_set_of b' = (if v then insert p (bm_set_of b) else bm_set_of b - {p})"
  by (auto simp: bm_set_of_def)

lemma run_refines:
  assumes "bm_ok b" "\<forall>op \<in> set ops. op_pos op < 2 ^ 62"
  shows "\<exists>b'. bm_run ops b = Some (fst (set_run ops (bm_set_of b)), b') \<and> bm_ok b' \<and>
    bm_set_of b' = snd (set_run ops (bm_set_of b))"
  using assms
proof (induction ops arbitrary: b)
  case (Cons op ops)
  from Cons.prems have p: "op_pos op < 2 ^ 62" and ops: "\<forall>op \<in> set ops. op_pos op < 2 ^ 62" by auto
  note IH = Cons.IH[OF _ ops]
  show ?case
  proof (cases op)
    case (Op_get q)
    then obtain b1 where b1: "bm_get b q = Some (bm_bits b q, b1)" "bm_ok b1" "bm_bits b1 = bm_bits b"
      using bm.rd[OF Cons.prems(1), of q] p by auto
    then show ?thesis using IH[OF b1(2)] Op_get by (auto simp: bm_set_of_def split: prod.split)
  next
    case (Op_set q)
    then obtain b1 where b1: "bm_set b q = Some b1" "bm_ok b1" "bm_bits b1 = (bm_bits b)(q := True)"
      using bm.st[OF Cons.prems(1), of q] p by auto
    then show ?thesis using IH[OF b1(2)] Op_set set_of_upd[OF b1(3)] by simp
  next
    case (Op_clear q)
    then obtain b1 where b1: "bm_clear b q = Some b1" "bm_ok b1" "bm_bits b1 = (bm_bits b)(q := False)"
      using bm.cl[OF Cons.prems(1), of q] p by auto
    then show ?thesis using IH[OF b1(2)] Op_clear set_of_upd[OF b1(3)] by simp
  next
    case (Op_turn_over q)
    then obtain b1 where b1: "turn_over b q = Some b1" "bm_ok b1"
      "bm_bits b1 = (bm_bits b)(q := \<not> bm_bits b q)"
      using bm.fl[OF Cons.prems(1), of q] p by auto
    then show ?thesis using IH[OF b1(2)] Op_turn_over set_of_upd[OF b1(3)]
      by (auto simp: bm_set_of_def)
  qed
qed simp

lemma new_ok:
  assumes "0 < len" "len < 2 ^ 62"
  shows "\<exists>b. Bitmap_new len = Some b \<and> bm_ok b \<and> (\<forall>k. \<not> bm_bits b k) \<and> len \<le> length (bm_inner b) * 64"
proof -
  define c where "c = len div 64 + of_bool (len mod 64 \<noteq> 0)"
  have "len = len div 64 * 64 + len mod 64" "len mod 64 < 64" by simp_all
  then have c: "len \<le> c * 64" and "0 < c" "c < 2 ^ 57" using assms by (auto simp: c_def)
  moreover have "Bitmap_new len = Some \<lparr>bm_inner = replicate c 0, bm_len = len\<rparr>"
    using \<open>c < 2 ^ 57\<close> by (auto simp: Bitmap_new_def Bitmap_init_def Bitmap_default_def vec_resize_def
        c_def uadd_def)
  ultimately show ?thesis by (simp add: bm_ok_def bm_bits_def)
qed

text \<open>
  C32: a new bitmap of at least one bit behaves as a set of numbers that starts empty, under every
  sequence of reads, sets, clears and flips at positions below 2 to the 62, inside or beyond its
  capacity: no call panics or hangs, every read returns membership, and the final bits are the
  final set.
\<close>

theorem bitmap_refines_set:
  assumes "0 < len" "len < 2 ^ 62" "\<forall>op \<in> set ops. op_pos op < 2 ^ 62"
  shows "\<exists>b. Bitmap_new len \<bind> bm_run ops = Some (fst (set_run ops {}), b) \<and>
    bm_set_of b = snd (set_run ops {})"
proof -
  obtain b where b: "Bitmap_new len = Some b" "bm_ok b" "bm_set_of b = {}"
    using new_ok[OF assms(1,2)] by (auto simp: bm_set_of_def)
  then show ?thesis using run_refines[OF b(2) assms(3)] by auto
qed

theorem bitmap_refines_set_witness:
  "\<exists>b. Bitmap_new 256 \<bind> bm_run [Op_get 1, Op_set 1, Op_get 1, Op_turn_over 700, Op_get 700] =
     Some ([False, True, True], b) \<and> bm_set_of b = {700, 1}"
  using bitmap_refines_set[of 256 "[Op_get 1, Op_set 1, Op_get 1, Op_turn_over 700, Op_get 700]"]
  by simp

lemma expand_empty:
  assumes "bm_inner b = []"
  shows "expand_cap_for b p = None"
proof -
  have "expand_cap_for b p = Some b' \<Longrightarrow> bm_inner b \<noteq> []" for b'
    by (rule expand_cap_for.raw_induct[where P = "\<lambda>b p b'. bm_inner b \<noteq> []"])
      (fastforce simp: bm_cap_def umul_def expand_cap_double_def expand_cap_to_bytes_def vec_resize_def
        split: if_splits bind_splits)
  then show ?thesis using assms by (cases "expand_cap_for b p") auto
qed

text \<open>
  A bitmap of length 0, which \<^verbatim>\<open>Bitmap::default\<close> and \<^verbatim>\<open>Bitmap::new(0)\<close> give, never grows:
  doubling a capacity of 0 leaves it 0, and every access to it runs for ever.
\<close>

theorem empty_bitmap_hangs:
  "Bitmap_new 0 = Some Bitmap_default \<and> bm_get Bitmap_default p = None \<and>
   bm_set Bitmap_default p = None \<and> bm_clear Bitmap_default p = None \<and>
   turn_over Bitmap_default p = None"
proof -
  have c: "bm_cap b = Some 0" if "bm_inner b = []" for b
    using that by (simp add: bm_cap_def umul_def)
  have e: "bm_inner Bitmap_default = []" by (simp add: Bitmap_default_def)
  have "bm_get b p = None" "bm_set b p = None" "bm_clear b p = None" if "bm_inner b = []" for b
    using that by (simp_all add: bm_get_def bm_set_def bm_clear_def auto_expand_cap_def c expand_empty)
  then show ?thesis using e
    by (simp add: turn_over_def Bitmap_new_def Bitmap_init_def vec_resize_def)
      (simp add: Bitmap_default_def)
qed

end
