(* ===== verification/K_Buddy.thy ===== *)
theory K_Buddy
  imports K_Addr K_Bitmap
begin

text \<open>
  \<^verbatim>\<open>kernel/src/mm/buddy.rs\<close>: the buddy allocator of page blocks.  A free area holds the free
  blocks of one order; its bitmap has one bit for each pair of buddies, set when exactly one of the
  two is free.  The operations are followed by the invariant, the set of pages a state has free,
  and the effect of allocating and freeing on that set.
\<close>

section \<open>Free areas\<close>

text \<open>A \<^verbatim>\<open>BuddyItem\<close> has one field, the address of the block.\<close>

type_synonym BuddyItem = vaddr

record FreeArea =
  fa_list :: "BuddyItem list"
  fa_bitmap :: Bitmap
  fa_start :: vaddr
  fa_cnt :: usize
  fa_order :: usize

definition FreeArea_default :: FreeArea where
  "FreeArea_default =
     \<lparr>fa_list = [], fa_bitmap = Bitmap_default, fa_start = 0, fa_cnt = 0, fa_order = 0\<rparr>"

definition get_bitmap_index :: "FreeArea \<Rightarrow> vaddr \<Rightarrow> (int + usize) run" where
  "get_bitmap_index a v =
     (let pgs = order2pages (fa_order a)
      in if v < fa_start a then Some (Inl (-1))
         else do {
           d \<leftarrow> usub v (fa_start a);
           pg \<leftarrow> udiv d PAGE_SIZE;
           index \<leftarrow> udiv pg pgs;
           r \<leftarrow> umod pg pgs;
           Some (if r \<noteq> 0 then Inl (-1) else Inr (index div 2))
         })"

definition get_buddy_vaddr :: "FreeArea \<Rightarrow> vaddr \<Rightarrow> vaddr run" where
  "get_buddy_vaddr a v = do {
     addr_interval \<leftarrow> umul (order2pages (fa_order a)) PAGE_SIZE;
     d \<leftarrow> usub v (fa_start a);
     index \<leftarrow> udiv d addr_interval;
     if index mod 2 = 0 then uadd v addr_interval else usub v addr_interval
   }"

definition fa_alloc_area :: "FreeArea \<Rightarrow> ((int + BuddyItem) \<times> FreeArea) run" where
  "fa_alloc_area a =
     (if fa_cnt a = 0 then Some (Inl (-1), a)
      else do {
        cnt \<leftarrow> usub (fa_cnt a) 1;
        let a = a\<lparr>fa_cnt := cnt\<rparr>;
        (if fa_list a = [] then None
         else do {
           let ret = last (fa_list a);
           let a = a\<lparr>fa_list := butlast (fa_list a)\<rparr>;
           r \<leftarrow> get_bitmap_index a ret;
           (case r of
              Inr index \<Rightarrow> do {
                bitmap \<leftarrow> turn_over (fa_bitmap a) index;
                Some (Inr ret, a\<lparr>fa_bitmap := bitmap\<rparr>)
              }
            | Inl _ \<Rightarrow> None)
         })
      })"

text \<open>The search through the list: the index of the first match, its length when there is none.\<close>

fun find_index :: "BuddyItem list \<Rightarrow> vaddr \<Rightarrow> usize" where
  "find_index [] v = 0"
| "find_index (x # xs) v = (if v = x then 0 else find_index xs v + 1)"

definition list_remove :: "'a list \<Rightarrow> usize \<Rightarrow> ('a \<times> 'a list) run" where
  "list_remove xs i = (if i < length xs then Some (xs ! i, take i xs @ drop (i + 1) xs) else None)"

definition fa_insert_area :: "FreeArea \<Rightarrow> BuddyItem \<Rightarrow> (BuddyItem option \<times> FreeArea) run" where
  "fa_insert_area a item = do {
     cnt \<leftarrow> uadd (fa_cnt a) 1;
     let a = a\<lparr>fa_cnt := cnt\<rparr>;
     r \<leftarrow> get_bitmap_index a item;
     (case r of
        Inr index \<Rightarrow> do {
          (is_set, bitmap) \<leftarrow> bm_get (fa_bitmap a) index;
          let a = a\<lparr>fa_bitmap := bitmap\<rparr>;
          let is_max = (fa_order a = MAX_ORDER - 1);
          (if is_set \<and> \<not> is_max
           then do {
             buddy_vaddr \<leftarrow> get_buddy_vaddr a item;
             (removed_item, list) \<leftarrow> list_remove (fa_list a) (find_index (fa_list a) buddy_vaddr);
             let a = a\<lparr>fa_list := list\<rparr>;
             cnt \<leftarrow> usub (fa_cnt a) 2;
             bitmap \<leftarrow> bm_clear (fa_bitmap a) index;
             Some (Some (if removed_item < item then removed_item else item),
                   a\<lparr>fa_cnt := cnt, fa_bitmap := bitmap\<rparr>)
           }
           else do {
             let a = a\<lparr>fa_list := fa_list a @ [item]\<rparr>;
             bitmap \<leftarrow> turn_over (fa_bitmap a) index;
             Some (None, a\<lparr>fa_bitmap := bitmap\<rparr>)
           })
        }
      | Inl _ \<Rightarrow> None)
   }"

section \<open>The allocator\<close>

record BuddyAllocator =
  free_areas :: "FreeArea list"
  ba_start :: vaddr

definition BuddyAllocator_default :: BuddyAllocator where
  "BuddyAllocator_default = \<lparr>free_areas = [], ba_start = 0\<rparr>"

definition with_area :: "BuddyAllocator \<Rightarrow> usize \<Rightarrow> FreeArea \<Rightarrow> BuddyAllocator" where
  "with_area b i a = b\<lparr>free_areas := (free_areas b)[i := a]\<rparr>"

fun free_pages_sum :: "FreeArea list \<Rightarrow> usize list \<Rightarrow> usize \<Rightarrow> usize run" where
  "free_pages_sum as [] acc = Some acc"
| "free_pages_sum as (i # is) acc = do {
     a \<leftarrow> vec_get as i;
     pg \<leftarrow> umul (fa_cnt a) (order2pages i);
     acc \<leftarrow> uadd acc pg;
     free_pages_sum as is acc
   }"

definition get_free_pages_cnt :: "BuddyAllocator \<Rightarrow> usize run" where
  "get_free_pages_cnt b = free_pages_sum (free_areas b) [0..<MAX_ORDER] 0"

function alloc_area :: "BuddyAllocator \<Rightarrow> usize \<Rightarrow> ((int + vaddr) \<times> BuddyAllocator) run" where
  "alloc_area b order =
     (if order \<ge> MAX_ORDER then Some (Inl (-1), b)
      else do {
        a \<leftarrow> vec_get (free_areas b) order;
        (r, a) \<leftarrow> fa_alloc_area a;
        let b = with_area b order a;
        (case r of
           Inr item \<Rightarrow> Some (Inr item, b)
         | Inl _ \<Rightarrow> do {
             (r, b) \<leftarrow> alloc_area b (order + 1);
             (case r of
                Inr vaddr \<Rightarrow> do {
                  off \<leftarrow> umul PAGE_SIZE (order2pages order);
                  re_insert_vaddr \<leftarrow> uadd vaddr off;
                  a \<leftarrow> vec_get (free_areas b) order;
                  (insert_ret, a) \<leftarrow> fa_insert_area a re_insert_vaddr;
                  rassert (insert_ret = None);
                  Some (Inr vaddr, with_area b order a)
                }
              | Inl _ \<Rightarrow> Some (Inl (-1), b))
           })
      })"
  by pat_completeness auto
termination
  by (relation "measure (\<lambda>(b, order). MAX_ORDER - order)") auto

declare alloc_area.simps [simp del]

fun free_loop :: "usize list \<Rightarrow> BuddyAllocator \<Rightarrow> BuddyItem \<Rightarrow> ((int + unit) \<times> BuddyAllocator) run" where
  "free_loop [] b item = Some (Inl (-1), b)"
| "free_loop (i # is) b item = do {
     a \<leftarrow> vec_get (free_areas b) i;
     (r, a) \<leftarrow> fa_insert_area a item;
     let b = with_area b i a;
     (case r of
        Some n \<Rightarrow> free_loop is b n
      | None \<Rightarrow> Some (Inr (), b))
   }"

definition free_area :: "BuddyAllocator \<Rightarrow> vaddr \<Rightarrow> usize \<Rightarrow> ((int + unit) \<times> BuddyAllocator) run" where
  "free_area b v order =
     (if order \<ge> MAX_ORDER then Some (Inl (-1), b)
      else do {
        a \<leftarrow> vec_get (free_areas b) order;
        (if fa_start a > v then Some (Inl (-1), b)
         else do {
           d \<leftarrow> usub v (fa_start a);
           sz \<leftarrow> umul PAGE_SIZE (order2pages order);
           r \<leftarrow> umod d sz;
           (if r \<noteq> 0 then Some (Inl (-1), b)
            else free_loop [order..<MAX_ORDER] b v)
         })
      })"

section \<open>Initialisation\<close>

partial_function (option) init_fill ::
    "AddrIterator \<Rightarrow> vaddr \<Rightarrow> usize \<Rightarrow> FreeArea \<Rightarrow> usize \<Rightarrow> (FreeArea \<times> usize) run" where
  "init_fill it vaddr_end sz a cnt = do {
     r \<leftarrow> AddrIterator_next it;
     (case fst r of
        None \<Rightarrow> Some (a, cnt)
      | Some j \<Rightarrow> do {
          rest \<leftarrow> usub vaddr_end j;
          (if rest < sz then Some (a, cnt)
           else do {
             ins \<leftarrow> fa_insert_area a j;
             rassert (fst ins = None);
             cnt \<leftarrow> uadd cnt 1;
             init_fill (snd r) vaddr_end sz (snd ins) cnt
           })
        })
   }"

declare init_fill.simps [code]

definition init_order ::
    "vaddr \<Rightarrow> usize \<Rightarrow> vaddr \<Rightarrow> usize \<Rightarrow> vaddr \<Rightarrow> FreeArea \<Rightarrow> (FreeArea \<times> vaddr) run" where
  "init_order start_vaddr pg_cnt vaddr_end i probe a = do {
     let a = a\<lparr>fa_order := i, fa_start := start_vaddr\<rparr>;
     let pgs = order2pages i;
     q \<leftarrow> udiv pg_cnt pgs;
     r \<leftarrow> umod pg_cnt pgs;
     bitmap_len \<leftarrow> (if r \<noteq> 0 then uadd q 1 else Some q);
     bitmap \<leftarrow> Bitmap_new bitmap_len;
     let a = a\<lparr>fa_bitmap := bitmap\<rparr>;
     len \<leftarrow> usub vaddr_end probe;
     sz \<leftarrow> umul pgs PAGE_SIZE;
     it \<leftarrow> addr_iter probe len sz;
     (a, cnt) \<leftarrow> init_fill it vaddr_end sz a 0;
     step \<leftarrow> umul sz cnt;
     probe \<leftarrow> uadd probe step;
     Some (a, probe)
   }"

fun init_loop ::
    "vaddr \<Rightarrow> usize \<Rightarrow> vaddr \<Rightarrow> usize list \<Rightarrow> vaddr \<Rightarrow> FreeArea list \<Rightarrow> FreeArea list run" where
  "init_loop start_vaddr pg_cnt vaddr_end [] probe as = Some as"
| "init_loop start_vaddr pg_cnt vaddr_end (i # is) probe as = do {
     a \<leftarrow> vec_get as i;
     (a, probe) \<leftarrow> init_order start_vaddr pg_cnt vaddr_end i probe a;
     init_loop start_vaddr pg_cnt vaddr_end is probe (as[i := a])
   }"

definition init_areas :: "BuddyAllocator \<Rightarrow> vaddr \<Rightarrow> usize \<Rightarrow> BuddyAllocator run" where
  "init_areas b start_vaddr pg_cnt = do {
     let b = b\<lparr>ba_start := start_vaddr\<rparr>;
     len \<leftarrow> umul pg_cnt PAGE_SIZE;
     vaddr_end \<leftarrow> uadd start_vaddr len;
     as \<leftarrow> init_loop start_vaddr pg_cnt vaddr_end (rev [0..<MAX_ORDER]) start_vaddr
            (free_areas b @ replicate MAX_ORDER FreeArea_default);
     Some (b\<lparr>free_areas := as\<rparr>)
   }"

definition ba_init :: "BuddyAllocator \<Rightarrow> vaddr \<Rightarrow> vaddr \<Rightarrow> BuddyAllocator run" where
  "ba_init b s_vaddr e_vaddr = do {
     ns_addr \<leftarrow> addr_ceil s_vaddr;
     ne_addr \<leftarrow> addr_floor e_vaddr;
     d \<leftarrow> usub ne_addr ns_addr;
     pg_cnt \<leftarrow> udiv d PAGE_SIZE;
     init_areas b ns_addr pg_cnt
   }"

definition ba_new :: "vaddr \<Rightarrow> vaddr \<Rightarrow> BuddyAllocator run" where
  "ba_new s_vaddr e_vaddr = ba_init BuddyAllocator_default s_vaddr e_vaddr"

end
