(* ===== verification/K_Buddy_Correct.thy ===== *)
theory K_Buddy_Correct
  imports K_Buddy
begin

text \<open>
  Correctness of the buddy allocator.  A block of order \<open>i\<close> is given by its index \<open>k\<close>: it starts at
  address \<open>blk s i k\<close> and consists of the pages \<open>k * 2 ^ i\<close> to \<open>(k + 1) * 2 ^ i - 1\<close>, counted from
  the start \<open>s\<close> of the memory the allocator manages, which has \<open>n\<close> pages.
\<close>

section \<open>Blocks and pairs of buddies\<close>

definition blk :: "vaddr \<Rightarrow> nat \<Rightarrow> nat \<Rightarrow> vaddr" where
  "blk s i k = s + PAGE_SIZE * 2 ^ i * k"

definition blk_pages :: "nat \<Rightarrow> nat \<Rightarrow> nat set" where
  "blk_pages i k = {k * 2 ^ i..<(k + 1) * 2 ^ i}"

definition buddy_of :: "nat \<Rightarrow> nat" where
  "buddy_of k = (if even k then k + 1 else k - 1)"

definition one_free :: "nat set \<Rightarrow> nat \<Rightarrow> bool" where
  "one_free K j \<longleftrightarrow> (2 * j \<in> K) \<noteq> (2 * j + 1 \<in> K)"

lemma inj_blk: "inj (blk s i)"
  by (rule injI) (simp add: blk_def PAGE_SIZE_def)

lemma blk_eq_iff [simp]: "blk s i k = blk s i k' \<longleftrightarrow> k = k'"
  using inj_blk by (auto dest: injD)

lemma blk_double: "blk s (Suc i) k = blk s i (2 * k)"
  by (simp add: blk_def)

lemma buddy_of_props:
  "buddy_of k div 2 = k div 2" "buddy_of k \<noteq> k" "buddy_of (buddy_of k) = k"
  "min k (buddy_of k) = 2 * (k div 2)" "{k, buddy_of k} = {2 * (k div 2), 2 * (k div 2) + 1}"
  by (cases "even k"; auto simp: buddy_of_def elim!: evenE oddE)+

lemma one_free_insert:
  "k \<notin> K \<Longrightarrow> one_free (insert k K) = (one_free K)(k div 2 := \<not> one_free K (k div 2))"
  by (cases "even k") (auto simp: one_free_def fun_eq_iff elim!: evenE oddE)

lemma one_free_remove:
  "k \<in> K \<Longrightarrow> one_free (K - {k}) = (one_free K)(k div 2 := \<not> one_free K (k div 2))"
  by (cases "even k") (auto simp: one_free_def fun_eq_iff elim!: evenE oddE)

lemma one_free_other: "k \<notin> K \<Longrightarrow> one_free K (k div 2) \<longleftrightarrow> buddy_of k \<in> K"
  by (cases "even k") (auto simp: one_free_def buddy_of_def elim!: evenE oddE)

lemma blk_pages_ne: "k * 2 ^ i \<in> blk_pages i k"
  by (simp add: blk_pages_def)

lemma blk_pages_iff: "pg \<in> blk_pages i k \<longleftrightarrow> pg div 2 ^ i = k"
proof
  assume "pg \<in> blk_pages i k"
  then show "pg div 2 ^ i = k" by (intro div_nat_eqI) (auto simp: blk_pages_def mult.commute)
next
  assume "pg div 2 ^ i = k"
  then have "k * 2 ^ i \<le> pg \<and> pg < 2 ^ i + k * 2 ^ i"
    using dividend_less_div_times[of "2 ^ i" pg] by auto
  then show "pg \<in> blk_pages i k" by (simp add: blk_pages_def)
qed

lemma div_pow_Suc: "pg div 2 ^ Suc i = pg div 2 ^ i div 2" for pg :: nat
  by (simp add: div_mult2_eq[symmetric] mult.commute)

lemma blk_pages_split: "blk_pages (Suc i) k = blk_pages i (2 * k) \<union> blk_pages i (2 * k + 1)"
proof -
  have "y div 2 = k \<longleftrightarrow> y = 2 * k \<or> y = 2 * k + 1" for y :: nat by presburger
  then show ?thesis by (auto simp: blk_pages_iff div_pow_Suc simp del: power_Suc)
qed

section \<open>Index computations\<close>

lemma order_bound:
  assumes "i < MAX_ORDER"
  shows "PAGE_SIZE * 2 ^ i \<le> PAGE_SIZE * 1024"
proof -
  have "2 ^ i \<le> (2 ^ 10 :: nat)" using assms by (intro power_increasing) (auto simp: MAX_ORDER_def)
  then show ?thesis by (intro mult_le_mono2) simp
qed

lemma order_pos: "0 < PAGE_SIZE * 2 ^ i"
  by (simp add: PAGE_SIZE_def)

lemma order_size:
  assumes "i < MAX_ORDER"
  shows "umul PAGE_SIZE (order2pages i) = Some (PAGE_SIZE * 2 ^ i)"
    and "umul (order2pages i) PAGE_SIZE = Some (PAGE_SIZE * 2 ^ i)"
proof -
  have "PAGE_SIZE * 2 ^ i < 2 ^ 64"
    using order_bound[OF assms] by (rule le_less_trans) (simp add: PAGE_SIZE_def)
  then show "umul PAGE_SIZE (order2pages i) = Some (PAGE_SIZE * 2 ^ i)"
    "umul (order2pages i) PAGE_SIZE = Some (PAGE_SIZE * 2 ^ i)"
    using assms by (simp_all add: umul_def order2pages_def mult.commute)
qed

lemma bitmap_index_eq:
  "fa_order a < MAX_ORDER \<Longrightarrow>
   get_bitmap_index a (blk (fa_start a) (fa_order a) k) = Some (Inr (k div 2))"
  by (simp add: get_bitmap_index_def blk_def order2pages_def usub_def udiv_def umod_def PAGE_SIZE_def
      mult.assoc)

lemma buddy_vaddr_eq:
  assumes "fa_order a < MAX_ORDER" "blk (fa_start a) (fa_order a) (buddy_of k) < 2 ^ 64"
  shows "get_buddy_vaddr a (blk (fa_start a) (fa_order a) k) =
    Some (blk (fa_start a) (fa_order a) (buddy_of k))"
proof -
  define m where "m = PAGE_SIZE * 2 ^ fa_order a"
  have m: "0 < m" "umul (order2pages (fa_order a)) PAGE_SIZE = Some m"
    using order_size(2)[OF assms(1)] by (auto simp: m_def PAGE_SIZE_def)
  have blk: "blk (fa_start a) (fa_order a) j = fa_start a + m * j" for j
    by (simp add: blk_def m_def)
  show ?thesis
  proof (cases "even k")
    case True
    then show ?thesis using assms(2) m
      by (auto simp: get_buddy_vaddr_def blk buddy_of_def usub_def udiv_def uadd_def algebra_simps)
  next
    case False
    then obtain j where "k = 2 * j + 1" by (elim oddE)
    then show ?thesis using m
      by (auto simp: get_buddy_vaddr_def blk buddy_of_def usub_def udiv_def uadd_def algebra_simps) presburger
  qed
qed

lemma find_index_in: "v \<in> set xs \<Longrightarrow> find_index xs v < length xs \<and> xs ! find_index xs v = v"
  by (induction xs) auto

lemma find_index_remove:
  "v \<in> set xs \<Longrightarrow> take (find_index xs v) xs @ drop (find_index xs v + 1) xs = remove1 v xs"
  by (induction xs) auto

lemma list_remove_find:
  "v \<in> set xs \<Longrightarrow> list_remove xs (find_index xs v) = Some (v, remove1 v xs)"
  using find_index_in[of v xs] find_index_remove[of v xs] by (simp add: list_remove_def)

section \<open>Invariant of a free area\<close>

definition fa_ks :: "FreeArea \<Rightarrow> nat set" where
  "fa_ks a = {k. blk (fa_start a) (fa_order a) k \<in> set (fa_list a)}"

definition fa_inv :: "vaddr \<Rightarrow> nat \<Rightarrow> nat \<Rightarrow> FreeArea \<Rightarrow> bool" where
  "fa_inv s n i a \<longleftrightarrow>
     fa_order a = i \<and> fa_start a = s \<and> fa_cnt a = length (fa_list a) \<and> distinct (fa_list a) \<and>
     set (fa_list a) \<subseteq> blk s i ` {k. (k + 1) * 2 ^ i \<le> n} \<and>
     bm_ok (fa_bitmap a) \<and> bm_bits (fa_bitmap a) = one_free (fa_ks a) \<and>
     (i < MAX_ORDER - 1 \<longrightarrow> (\<forall>k \<in> fa_ks a. buddy_of k \<notin> fa_ks a))"

text \<open>The memory the allocator manages fits below the end of the address space.\<close>

definition mem_ok :: "vaddr \<Rightarrow> nat \<Rightarrow> bool" where
  "mem_ok s n \<longleftrightarrow> s + PAGE_SIZE * n < 2 ^ 64"

lemma fa_set: "fa_inv s n i a \<Longrightarrow> set (fa_list a) = blk s i ` fa_ks a"
  by (auto simp: fa_inv_def fa_ks_def)

lemma fa_ks_bound: "fa_inv s n i a \<Longrightarrow> k \<in> fa_ks a \<Longrightarrow> (k + 1) * 2 ^ i \<le> n"
  by (fastforce simp: fa_inv_def fa_ks_def)

lemma le_mult_pow: "m \<le> m * 2 ^ i" for m :: nat
  by simp

lemma mem_index_small:
  assumes "mem_ok s n" "(k + 1) * 2 ^ i \<le> n"
  shows "k < 2 ^ 52" "blk s i k < 2 ^ 64" "blk s i (k + 1) < 2 ^ 64"
proof -
  have "PAGE_SIZE * ((k + 1) * 2 ^ i) \<le> PAGE_SIZE * n" using assms(2) by (rule mult_le_mono2)
  then show "blk s i (k + 1) < 2 ^ 64"
    using assms(1) by (simp add: mem_ok_def blk_def algebra_simps)
  then show "blk s i k < 2 ^ 64" by (simp add: blk_def)
  from assms le_mult_pow[of "k + 1" i] show "k < 2 ^ 52" by (simp add: mem_ok_def PAGE_SIZE_def)
qed

lemma fa_length_le:
  assumes "fa_inv s n i a" "mem_ok s n"
  shows "length (fa_list a) < 2 ^ 52"
proof -
  have "k < n" if "(k + 1) * 2 ^ i \<le> n" for k
    using that le_mult_pow[of "k + 1" i] by linarith
  then have sub: "set (fa_list a) \<subseteq> blk s i ` {..<n}" using assms(1) by (fastforce simp: fa_inv_def)
  have "length (fa_list a) = card (set (fa_list a))"
    using assms(1) by (simp add: fa_inv_def distinct_card)
  also have "\<dots> \<le> card (blk s i ` {..<n})" by (rule card_mono[OF _ sub]) simp
  also have "\<dots> \<le> n" using card_image_le[of "{..<n}" "blk s i"] by simp
  also have "n < 2 ^ 52" using assms(2) by (simp add: mem_ok_def PAGE_SIZE_def)
  finally show ?thesis .
qed

lemma fa_alloc_ok:
  assumes inv: "fa_inv s n i a" and mem: "mem_ok s n" and i: "i < MAX_ORDER" and ne: "fa_ks a \<noteq> {}"
  shows "\<exists>k a'. k \<in> fa_ks a \<and> fa_alloc_area a = Some (Inr (blk s i k), a') \<and> fa_inv s n i a' \<and>
    fa_ks a' = fa_ks a - {k}"
proof -
  note inv' = inv[unfolded fa_inv_def]
  have ne': "fa_list a \<noteq> []" using fa_set[OF inv] ne by auto
  have "last (fa_list a) \<in> blk s i ` fa_ks a" using fa_set[OF inv] ne' last_in_set by metis
  then obtain k where k: "k \<in> fa_ks a" "last (fa_list a) = blk s i k" by blast
  have "k div 2 < 2 ^ 62"
    using mem_index_small(1)[OF mem fa_ks_bound[OF inv k(1)]] by simp
  then obtain bmp where bmp: "turn_over (fa_bitmap a) (k div 2) = Some bmp" "bm_ok bmp"
      "bm_bits bmp = (bm_bits (fa_bitmap a))(k div 2 := \<not> bm_bits (fa_bitmap a) (k div 2))"
    using bm.fl[of "fa_bitmap a" "k div 2"] inv' by auto
  define a' where "a' = a\<lparr>fa_list := butlast (fa_list a), fa_bitmap := bmp, fa_cnt := fa_cnt a - 1\<rparr>"
  have "distinct (butlast (fa_list a) @ [last (fa_list a)])" using ne' inv' by simp
  moreover have "set (fa_list a) = insert (last (fa_list a)) (set (butlast (fa_list a)))"
    using ne' by (metis append_butlast_last_id list.simps(15) rotate1.simps(2) set_rotate1)
  ultimately have "set (butlast (fa_list a)) = set (fa_list a) - {blk s i k}" using k(2) by auto
  then have ks: "fa_ks a' = fa_ks a - {k}"
    using inv' by (auto simp: fa_ks_def a'_def)
  moreover have "fa_inv s n i a'"
    using inv' ne' bmp ks one_free_remove[OF k(1)]
    by (auto simp: fa_inv_def a'_def distinct_butlast dest: in_set_butlastD)
  moreover have "get_bitmap_index (a\<lparr>fa_cnt := c, fa_list := l\<rparr>) (blk s i k) = Some (Inr (k div 2))" for c l
    using bitmap_index_eq[of "a\<lparr>fa_cnt := c, fa_list := l\<rparr>" k] inv' i by simp
  then have "fa_alloc_area a = Some (Inr (blk s i k), a')"
    using inv' ne' k(2) bmp(1) by (simp add: fa_alloc_area_def usub_def Let_def a'_def Suc_le_eq)
  ultimately show ?thesis using k(1) by blast
qed

lemma fa_alloc_none:
  "fa_inv s n i a \<Longrightarrow> fa_ks a = {} \<Longrightarrow> fa_alloc_area a = Some (Inl (-1), a)"
  using fa_set[of s n i a] by (simp add: fa_alloc_area_def fa_inv_def)

text \<open>Inserting a block whose buddy is free takes the buddy out and hands back the joined block.\<close>

lemma fa_insert_merge:
  assumes inv: "fa_inv s n i a" and mem: "mem_ok s n" and i: "i < MAX_ORDER - 1"
    and k: "k \<notin> fa_ks a" "(k + 1) * 2 ^ i \<le> n" and bud: "buddy_of k \<in> fa_ks a"
  shows "\<exists>a'. fa_insert_area a (blk s i k) = Some (Some (blk s (Suc i) (k div 2)), a') \<and>
    fa_inv s n i a' \<and> fa_ks a' = fa_ks a - {buddy_of k}"
proof -
  note inv' = inv[unfolded fa_inv_def]
  let ?v = "blk s i (buddy_of k)"
  have "k div 2 < 2 ^ 62" using mem_index_small(1)[OF mem k(2)] by simp
  moreover have "bm_bits (fa_bitmap a) (k div 2)" using inv' one_free_other[OF k(1)] bud by simp
  ultimately obtain b1 where b1: "bm_get (fa_bitmap a) (k div 2) = Some (True, b1)" "bm_ok b1"
      "bm_bits b1 = bm_bits (fa_bitmap a)"
    using bm.rd[of "fa_bitmap a" "k div 2"] inv' by auto
  obtain b2 where b2: "bm_clear b1 (k div 2) = Some b2" "bm_ok b2"
      "bm_bits b2 = (bm_bits (fa_bitmap a))(k div 2 := False)"
    using bm.cl[OF b1(2), of "k div 2"] b1(3) \<open>k div 2 < 2 ^ 62\<close> by auto
  define a' where "a' = a\<lparr>fa_list := remove1 ?v (fa_list a), fa_cnt := fa_cnt a - 1, fa_bitmap := b2\<rparr>"
  have v: "?v \<in> set (fa_list a)" using bud inv' by (simp add: fa_ks_def)
  have ks: "fa_ks a' = fa_ks a - {buddy_of k}"
    using inv' by (auto simp: fa_ks_def a'_def)
  moreover have "fa_inv s n i a'"
    using inv' b2 ks v one_free_remove[OF bud] one_free_other[OF k(1)] bud
    by (auto simp: fa_inv_def a'_def buddy_of_props length_remove1 dest: notin_set_remove1)
  moreover have "get_buddy_vaddr (a\<lparr>fa_cnt := c, fa_bitmap := b1\<rparr>) (blk s i k) = Some ?v" for c
    using buddy_vaddr_eq[of "a\<lparr>fa_cnt := c, fa_bitmap := b1\<rparr>" k] inv' i
      mem_index_small(2)[OF mem fa_ks_bound[OF inv bud]] by simp
  moreover have "get_bitmap_index (a\<lparr>fa_cnt := c\<rparr>) (blk s i k) = Some (Inr (k div 2))" for c
    using bitmap_index_eq[of "a\<lparr>fa_cnt := c\<rparr>" k] inv' i by simp
  moreover have "(if ?v < blk s i k then ?v else blk s i k) = blk s (Suc i) (k div 2)"
    using buddy_of_props(4)[of k] by (auto simp: blk_double blk_def PAGE_SIZE_def min_def split: if_splits)
  ultimately show ?thesis
    using inv' i v b1(1) b2(1) fa_length_le[OF inv mem] list_remove_find[OF v] length_pos_if_in_set[OF v]
    by (auto simp: fa_insert_area_def uadd_def usub_def Let_def a'_def Suc_le_eq)
qed

lemma fa_insert_push:
  assumes inv: "fa_inv s n i a" and mem: "mem_ok s n" and i: "i < MAX_ORDER"
    and k: "k \<notin> fa_ks a" "(k + 1) * 2 ^ i \<le> n"
    and bud: "i < MAX_ORDER - 1 \<Longrightarrow> buddy_of k \<notin> fa_ks a"
  shows "\<exists>a'. fa_insert_area a (blk s i k) = Some (None, a') \<and>
    fa_inv s n i a' \<and> fa_ks a' = insert k (fa_ks a)"
proof -
  note inv' = inv[unfolded fa_inv_def]
  have small: "k div 2 < 2 ^ 62" using mem_index_small(1)[OF mem k(2)] by simp
  obtain b1 where b1: "bm_get (fa_bitmap a) (k div 2) = Some (bm_bits (fa_bitmap a) (k div 2), b1)"
      "bm_ok b1" "bm_bits b1 = bm_bits (fa_bitmap a)"
    using bm.rd[of "fa_bitmap a" "k div 2"] small inv' by auto
  obtain b2 where b2: "turn_over b1 (k div 2) = Some b2" "bm_ok b2"
      "bm_bits b2 = (bm_bits (fa_bitmap a))(k div 2 := \<not> bm_bits (fa_bitmap a) (k div 2))"
    using bm.fl[OF b1(2) small] b1(3) by auto
  define a' where "a' = a\<lparr>fa_cnt := fa_cnt a + 1, fa_list := fa_list a @ [blk s i k], fa_bitmap := b2\<rparr>"
  have ks: "fa_ks a' = insert k (fa_ks a)"
    using inv' by (auto simp: fa_ks_def a'_def)
  moreover have "fa_inv s n i a'"
    using inv' b2 ks k bud one_free_insert[OF k(1)] buddy_of_props(2,3)
    by (auto simp: fa_inv_def a'_def) (auto simp: fa_ks_def)
  moreover have "get_bitmap_index (a\<lparr>fa_cnt := c\<rparr>) (blk s i k) = Some (Inr (k div 2))" for c
    using bitmap_index_eq[of "a\<lparr>fa_cnt := c\<rparr>" k] inv' i by simp
  moreover have "\<not> (bm_bits (fa_bitmap a) (k div 2) \<and> i \<noteq> MAX_ORDER - 1)"
    using one_free_other[OF k(1)] bud inv' i by (cases "i < MAX_ORDER - 1") auto
  ultimately show ?thesis
    using inv' b1(1) b2(1) fa_length_le[OF inv mem]
    by (auto simp: fa_insert_area_def uadd_def Let_def a'_def)
qed

section \<open>Invariant of the allocator\<close>

definition free_set :: "BuddyAllocator \<Rightarrow> nat set" where
  "free_set b = {pg. \<exists>i < MAX_ORDER. pg div 2 ^ i \<in> fa_ks (free_areas b ! i)}"

text \<open>Every page is in at most one free block.\<close>

definition ba_inv :: "vaddr \<Rightarrow> nat \<Rightarrow> BuddyAllocator \<Rightarrow> bool" where
  "ba_inv s n b \<longleftrightarrow>
     length (free_areas b) = MAX_ORDER \<and> ba_start b = s \<and>
     (\<forall>i < MAX_ORDER. fa_inv s n i (free_areas b ! i)) \<and>
     (\<forall>pg. \<forall>i < MAX_ORDER. \<forall>j < MAX_ORDER. pg div 2 ^ i \<in> fa_ks (free_areas b ! i) \<longrightarrow>
        pg div 2 ^ j \<in> fa_ks (free_areas b ! j) \<longrightarrow> i = j)"

lemma ba_inv_area: "ba_inv s n b \<Longrightarrow> i < MAX_ORDER \<Longrightarrow> fa_inv s n i (free_areas b ! i)"
  by (simp add: ba_inv_def)

lemma ba_inv_get: "ba_inv s n b \<Longrightarrow> i < MAX_ORDER \<Longrightarrow> vec_get (free_areas b) i = Some (free_areas b ! i)"
  by (simp add: ba_inv_def vec_get_def)

lemma with_area_same [simp]: "with_area b i (free_areas b ! i) = b"
  by (simp add: with_area_def)

lemma area_with_area:
  "ba_inv s n b \<Longrightarrow> i < MAX_ORDER \<Longrightarrow>
   free_areas (with_area b i a) ! j = (if j = i then a else free_areas b ! j)"
  by (simp add: with_area_def ba_inv_def)

lemma blk_pages_free:
  "k \<in> fa_ks (free_areas b ! i) \<Longrightarrow> i < MAX_ORDER \<Longrightarrow> blk_pages i k \<subseteq> free_set b"
  by (auto simp: free_set_def blk_pages_iff)

lemma ba_inv_uniq:
  "ba_inv s n b \<Longrightarrow> i < MAX_ORDER \<Longrightarrow> j < MAX_ORDER \<Longrightarrow> pg div 2 ^ i \<in> fa_ks (free_areas b ! i) \<Longrightarrow>
   pg div 2 ^ j \<in> fa_ks (free_areas b ! j) \<Longrightarrow> i = j"
  unfolding ba_inv_def by blast

lemma ba_inv_with_area:
  assumes inv: "ba_inv s n b" and i: "i < MAX_ORDER" and a: "fa_inv s n i a"
    and new: "\<And>pg j. j < MAX_ORDER \<Longrightarrow> j \<noteq> i \<Longrightarrow> pg div 2 ^ i \<in> fa_ks a \<Longrightarrow>
      pg div 2 ^ j \<notin> fa_ks (free_areas b ! j)"
  shows "ba_inv s n (with_area b i a)"
proof -
  note area = area_with_area[OF inv i]
  have "i1 = i2" if "i1 < MAX_ORDER" "i2 < MAX_ORDER"
      "pg div 2 ^ i1 \<in> fa_ks (free_areas (with_area b i a) ! i1)"
      "pg div 2 ^ i2 \<in> fa_ks (free_areas (with_area b i a) ! i2)" for pg i1 i2
    using that new ba_inv_uniq[OF inv, of i1 i2] by (auto simp: area split: if_splits)
  moreover have "fa_inv s n j (free_areas (with_area b i a) ! j)" if "j < MAX_ORDER" for j
    using inv that a by (simp add: area ba_inv_def)
  moreover have "length (free_areas (with_area b i a)) = MAX_ORDER" "ba_start (with_area b i a) = s"
    using inv by (simp_all add: ba_inv_def with_area_def)
  ultimately show ?thesis by (simp add: ba_inv_def)
qed

lemma free_set_other:
  "i < MAX_ORDER \<Longrightarrow> free_set b = {pg. pg div 2 ^ i \<in> fa_ks (free_areas b ! i)} \<union>
     {pg. \<exists>j < MAX_ORDER. j \<noteq> i \<and> pg div 2 ^ j \<in> fa_ks (free_areas b ! j)}"
  by (auto simp: free_set_def)

lemma ba_remove:
  assumes inv: "ba_inv s n b" and i: "i < MAX_ORDER" and k: "k \<in> fa_ks (free_areas b ! i)"
    and a: "fa_inv s n i a" "fa_ks a = fa_ks (free_areas b ! i) - {k}"
  shows "ba_inv s n (with_area b i a)" "free_set (with_area b i a) = free_set b - blk_pages i k"
proof -
  note area = area_with_area[OF inv i]
  note uniq = ba_inv_uniq[OF inv i]
  show "ba_inv s n (with_area b i a)"
    using uniq a(2) by (intro ba_inv_with_area[OF inv i a(1)]) auto
  have "j = i" if "pg \<in> blk_pages i k" "pg div 2 ^ j \<in> fa_ks (free_areas b ! j)" "j < MAX_ORDER" for pg j
    using that k ba_inv_uniq[OF inv i that(3)] by (auto simp: blk_pages_iff)
  then show "free_set (with_area b i a) = free_set b - blk_pages i k"
    using a(2) by (auto simp: free_set_other[OF i, of b] free_set_other[OF i, of "with_area b i a"]
        area blk_pages_iff)
qed

lemma ba_insert:
  assumes inv: "ba_inv s n b" and i: "i < MAX_ORDER" and dis: "blk_pages i k \<inter> free_set b = {}"
    and a: "fa_inv s n i a" "fa_ks a = insert k (fa_ks (free_areas b ! i))"
  shows "ba_inv s n (with_area b i a)" "free_set (with_area b i a) = free_set b \<union> blk_pages i k"
proof -
  note area = area_with_area[OF inv i]
  have "pg div 2 ^ j \<notin> fa_ks (free_areas b ! j)" if "pg div 2 ^ i = k" "j < MAX_ORDER" for pg j
    using dis that by (auto simp: free_set_def blk_pages_iff)
  then show "ba_inv s n (with_area b i a)"
    using ba_inv_uniq[OF inv i] a(2) by (intro ba_inv_with_area[OF inv i a(1)]) auto
  show "free_set (with_area b i a) = free_set b \<union> blk_pages i k"
    using a(2) i by (auto simp: free_set_def blk_pages_iff area split: if_splits)
qed

section \<open>Allocation\<close>

text \<open>
  Every free aligned block lies in one block of an area of its order or above, because buddies
  that are both free have been joined.
\<close>

lemma free_block_covered:
  assumes inv: "ba_inv s n b" and o: "ord < MAX_ORDER" and sub: "blk_pages ord k \<subseteq> free_set b"
  shows "\<exists>i. ord \<le> i \<and> i < MAX_ORDER \<and> (k * 2 ^ ord) div 2 ^ i \<in> fa_ks (free_areas b ! i)"
  using o sub
proof (induction ord arbitrary: k)
  case 0
  then show ?case by (auto simp: free_set_def blk_pages_def)
next
  case (Suc ord)
  have halves: "blk_pages ord (2 * k) \<subseteq> free_set b" "blk_pages ord (2 * k + 1) \<subseteq> free_set b"
    using Suc.prems(2) by (auto simp: blk_pages_split)
  from Suc.IH[OF _ halves(1)] Suc.IH[OF _ halves(2)] Suc.prems(1) obtain i j where
    i: "ord \<le> i" "i < MAX_ORDER" "(2 * k * 2 ^ ord) div 2 ^ i \<in> fa_ks (free_areas b ! i)" and
    j: "ord \<le> j" "j < MAX_ORDER" "((2 * k + 1) * 2 ^ ord) div 2 ^ j \<in> fa_ks (free_areas b ! j)"
    by auto
  have same: "((2 * k + 1) * 2 ^ ord) div 2 ^ j = (k * 2 ^ Suc ord) div 2 ^ j" if "Suc ord \<le> j"
  proof -
    have "x div 2 ^ j = x div 2 ^ Suc ord div 2 ^ (j - Suc ord)" for x :: nat
      using that by (metis div_exp_eq le_add_diff_inverse)
    moreover have "((2 * k + 1) * 2 ^ ord) div 2 ^ Suc ord = (k * 2 ^ Suc ord) div 2 ^ Suc ord"
      by (simp add: div_pow_Suc del: power_Suc) simp
    ultimately show ?thesis by metis
  qed
  show ?case
  proof (cases "Suc ord \<le> i \<or> Suc ord \<le> j")
    case True
    moreover have "(k * 2 ^ Suc ord) div 2 ^ i \<in> fa_ks (free_areas b ! i)"
      using i(3) by (simp add: mult.assoc mult.left_commute)
    ultimately show ?thesis using i(2) j(2,3) same by metis
  next
    case False
    then have "i = ord" "j = ord" using i j by auto
    then have "2 * k \<in> fa_ks (free_areas b ! ord)" "2 * k + 1 \<in> fa_ks (free_areas b ! ord)"
      using i j by simp_all
    moreover have "buddy_of (2 * k) = 2 * k + 1" by (simp add: buddy_of_def)
    ultimately show ?thesis
      using ba_inv_area[OF inv, of ord] Suc.prems(1) by (auto simp: fa_inv_def)
  qed
qed

lemma alloc_area_none:
  assumes "ba_inv s n b" "\<forall>i. ord \<le> i \<and> i < MAX_ORDER \<longrightarrow> fa_ks (free_areas b ! i) = {}"
  shows "alloc_area b ord = Some (Inl (-1), b)"
  using assms(2)
proof (induction "MAX_ORDER - ord" arbitrary: ord)
  case 0
  then show ?case by (simp add: alloc_area.simps)
next
  case (Suc d)
  then have ord: "ord < MAX_ORDER" and rec: "alloc_area b (ord + 1) = Some (Inl (-1), b)" by auto
  have "fa_alloc_area (free_areas b ! ord) = Some (Inl (-1), free_areas b ! ord)"
    using fa_alloc_none[OF ba_inv_area[OF assms(1) ord]] Suc.prems ord by auto
  then show ?case using ord rec ba_inv_get[OF assms(1) ord]
    by (subst alloc_area.simps) (simp add: Let_def)
qed

lemma alloc_area_some:
  assumes mem: "mem_ok s n" and inv: "ba_inv s n b"
    and "ord \<le> i" "i < MAX_ORDER" "fa_ks (free_areas b ! i) \<noteq> {}"
  shows "\<exists>k b'. alloc_area b ord = Some (Inr (blk s ord k), b') \<and> ba_inv s n b' \<and>
    (k + 1) * 2 ^ ord \<le> n \<and> blk_pages ord k \<subseteq> free_set b \<and> free_set b' = free_set b - blk_pages ord k"
  using assms(3-)
proof (induction "i - ord" arbitrary: ord rule: less_induct)
  case less
  have ord: "ord < MAX_ORDER" using less.prems by simp
  let ?a = "free_areas b ! ord"
  show ?case
  proof (cases "fa_ks ?a = {}")
    case False
    then obtain k a where k: "k \<in> fa_ks ?a" "fa_alloc_area ?a = Some (Inr (blk s ord k), a)"
      "fa_inv s n ord a" "fa_ks a = fa_ks ?a - {k}"
      using fa_alloc_ok[OF ba_inv_area[OF inv ord] mem ord] by blast
    have "alloc_area b ord = Some (Inr (blk s ord k), with_area b ord a)"
      using ord k(2) ba_inv_get[OF inv ord] by (subst alloc_area.simps) (simp add: Let_def)
    then show ?thesis
      using k ba_remove[OF inv ord k(1,3,4)] blk_pages_free[OF k(1) ord]
        fa_ks_bound[OF ba_inv_area[OF inv ord] k(1)] by blast
  next
    case True
    then have "ord < i" using less.prems by (cases "ord = i") auto
    then have "i - (ord + 1) < i - ord" "ord + 1 \<le> i" by auto
    from less.hyps[OF this less.prems(2,3)]
    obtain k b1 where b1: "alloc_area b (ord + 1) = Some (Inr (blk s (ord + 1) k), b1)"
      "ba_inv s n b1" "(k + 1) * 2 ^ (ord + 1) \<le> n" "blk_pages (ord + 1) k \<subseteq> free_set b"
      "free_set b1 = free_set b - blk_pages (ord + 1) k"
      by blast
    have halves: "blk_pages (ord + 1) k = blk_pages ord (2 * k) \<union> blk_pages ord (2 * k + 1)"
      by (simp add: blk_pages_split)
    let ?a1 = "free_areas b1 ! ord"
    have gone: "2 * k \<notin> fa_ks ?a1" "2 * k + 1 \<notin> fa_ks ?a1"
      using b1(5) halves blk_pages_free[of _ b1 ord] ord blk_pages_ne by blast+
    have fits: "(2 * k + 1 + 1) * 2 ^ ord \<le> n" "(2 * k + 1) * 2 ^ ord \<le> n"
      using b1(3) by (simp_all add: algebra_simps)
    obtain a where a: "fa_insert_area ?a1 (blk s ord (2 * k + 1)) = Some (None, a)"
      "fa_inv s n ord a" "fa_ks a = insert (2 * k + 1) (fa_ks ?a1)"
      using fa_insert_push[OF ba_inv_area[OF b1(2) ord] mem ord gone(2) fits(1)] gone(1)
      by (auto simp: buddy_of_def)
    have "blk_pages ord (2 * k + 1) \<inter> free_set b1 = {}" using b1(5) halves by auto
    from ba_insert[OF b1(2) ord this a(2,3)]
    have b2: "ba_inv s n (with_area b1 ord a)"
      "free_set (with_area b1 ord a) = free_set b1 \<union> blk_pages ord (2 * k + 1)" by auto
    have "uadd (blk s (ord + 1) k) (PAGE_SIZE * 2 ^ ord) = Some (blk s ord (2 * k + 1))"
      using mem_index_small(2)[OF mem fits(1)] by (simp add: uadd_def blk_def algebra_simps)
    then have "alloc_area b ord = Some (Inr (blk s ord (2 * k)), with_area b1 ord a)"
      using ord a(1) b1(1) ba_inv_get[OF inv ord] ba_inv_get[OF b1(2) ord] order_size(1)[OF ord]
        fa_alloc_none[OF ba_inv_area[OF inv ord] True]
      by (subst alloc_area.simps) (simp add: Let_def rassert_def blk_double)
    moreover have "blk_pages ord (2 * k) \<inter> blk_pages ord (2 * k + 1) = {}"
      by (auto simp: blk_pages_iff)
    then have "free_set (with_area b1 ord a) = free_set b - blk_pages ord (2 * k)"
      using b1(4,5) b2(2) halves by auto
    ultimately show ?thesis using b2(1) b1(4) halves fits(2) by blast
  qed
qed

section \<open>Freeing\<close>

lemma free_loop_ok:
  assumes mem: "mem_ok s n"
  shows "ba_inv s n b \<Longrightarrow> i < MAX_ORDER \<Longrightarrow> (k + 1) * 2 ^ i \<le> n \<Longrightarrow> blk_pages i k \<inter> free_set b = {} \<Longrightarrow>
    \<exists>b'. free_loop [i..<MAX_ORDER] b (blk s i k) = Some (Inr (), b') \<and> ba_inv s n b' \<and>
      free_set b' = free_set b \<union> blk_pages i k"
proof (induction "MAX_ORDER - i" arbitrary: i k b)
  case (Suc d)
  note inv = Suc.prems(1) and i = Suc.prems(2) and fits = Suc.prems(3) and dis = Suc.prems(4)
  let ?a = "free_areas b ! i"
  note area = ba_inv_area[OF inv i]
  have k: "k \<notin> fa_ks ?a" using blk_pages_free[of k b i] i dis blk_pages_ne[of k i] by blast
  have step: "[i..<MAX_ORDER] = i # [i + 1..<MAX_ORDER]" using i by (simp add: upt_conv_Cons)
  show ?case
  proof (cases "i < MAX_ORDER - 1 \<and> buddy_of k \<in> fa_ks ?a")
    case False
    then obtain a where a: "fa_insert_area ?a (blk s i k) = Some (None, a)" "fa_inv s n i a"
      "fa_ks a = insert k (fa_ks ?a)"
      using fa_insert_push[OF area mem i k fits] by auto
    then show ?thesis using ba_insert[OF inv i dis a(2,3)] ba_inv_get[OF inv i]
      by (simp add: step Let_def)
  next
    case True
    then obtain a where a: "fa_insert_area ?a (blk s i k) = Some (Some (blk s (Suc i) (k div 2)), a)"
      "fa_inv s n i a" "fa_ks a = fa_ks ?a - {buddy_of k}"
      using fa_insert_merge[OF area mem _ k fits] by auto
    let ?b = "with_area b i a"
    have b: "ba_inv s n ?b" "free_set ?b = free_set b - blk_pages i (buddy_of k)"
      using ba_remove[OF inv i _ a(2,3)] True by auto
    have "blk_pages (Suc i) (k div 2) = blk_pages i k \<union> blk_pages i (buddy_of k)"
    proof -
      have "blk_pages (Suc i) (k div 2) = \<Union> (blk_pages i ` {k, buddy_of k})"
        by (simp add: buddy_of_props(5) blk_pages_split)
      then show ?thesis by simp
    qed
    moreover have "blk_pages i (buddy_of k) \<subseteq> free_set b" using blk_pages_free True i by blast
    ultimately have joined: "blk_pages (Suc i) (k div 2) \<inter> free_set ?b = {}"
      "free_set ?b \<union> blk_pages (Suc i) (k div 2) = free_set b \<union> blk_pages i k"
      using b(2) dis by auto
    have "max k (buddy_of k) + 1 = 2 * (k div 2 + 1)"
      using buddy_of_props(5)[of k] by (auto simp: doubleton_eq_iff)
    moreover have "(max k (buddy_of k) + 1) * 2 ^ i \<le> n"
      using fits fa_ks_bound[OF area] True by (auto simp: max_def)
    ultimately have "(k div 2 + 1) * 2 ^ Suc i \<le> n" by (simp add: algebra_simps)
    then have "\<exists>b'. free_loop [Suc i..<MAX_ORDER] ?b (blk s (Suc i) (k div 2)) = Some (Inr (), b') \<and>
        ba_inv s n b' \<and> free_set b' = free_set ?b \<union> blk_pages (Suc i) (k div 2)"
      using Suc.hyps(2) True by (intro Suc.hyps(1)[OF _ b(1)]) (auto simp: joined)
    then show ?thesis using a(1) ba_inv_get[OF inv i] joined(2) by (simp add: step Let_def)
  qed
qed simp

lemma free_area_ok:
  assumes "mem_ok s n" "ba_inv s n b" "ord < MAX_ORDER" "(k + 1) * 2 ^ ord \<le> n"
    "blk_pages ord k \<inter> free_set b = {}"
  shows "\<exists>b'. free_area b (blk s ord k) ord = Some (Inr (), b') \<and> ba_inv s n b' \<and>
    free_set b' = free_set b \<union> blk_pages ord k"
proof -
  have "fa_start (free_areas b ! ord) = s"
    using ba_inv_area[OF assms(2,3)] by (simp add: fa_inv_def)
  then show ?thesis using free_loop_ok[OF assms] assms(3) ba_inv_get[OF assms(2,3)] order_size(1)[OF assms(3)]
    by (simp add: free_area_def usub_def umod_def blk_def PAGE_SIZE_def)
qed

section \<open>Initialisation\<close>

text \<open>
  The blocks of order \<open>i\<close> that initialisation inserts: all that fit for the largest order, and the
  one that is left over from the orders above for the others.
\<close>

definition first_k :: "nat \<Rightarrow> nat \<Rightarrow> nat" where
  "first_k n i = (if i = MAX_ORDER - 1 then 0 else 2 * (n div 2 ^ Suc i))"

definition init_ks :: "nat \<Rightarrow> nat \<Rightarrow> nat set" where
  "init_ks n i = {first_k n i..<n div 2 ^ i}"

lemma first_k_le: "first_k n i \<le> n div 2 ^ i"
  by (simp add: first_k_def div_pow_Suc del: power_Suc)

lemma div_le_iff_blk: "(k + 1) * 2 ^ i \<le> n \<longleftrightarrow> k < n div 2 ^ i" for n :: nat
  by (metis Suc_eq_plus1 Suc_le_eq less_eq_div_iff_mult_less_eq zero_less_numeral zero_less_power)

lemma init_fill_stop:
  assumes "mem_ok s (n + 1024)" "i < MAX_ORDER"
  shows "init_fill \<lparr>it_step = PAGE_SIZE * 2 ^ i, it_cur = blk s i (n div 2 ^ i), it_end = s + PAGE_SIZE * n\<rparr>
    (s + PAGE_SIZE * n) (PAGE_SIZE * 2 ^ i) a c = Some (a, c)"
proof -
  have n: "PAGE_SIZE * (n mod 2 ^ i) < PAGE_SIZE * 2 ^ i" by (simp add: PAGE_SIZE_def)
  have b: "blk s i (n div 2 ^ i) + PAGE_SIZE * (n mod 2 ^ i) = s + PAGE_SIZE * n"
  proof -
    have "PAGE_SIZE * (n div 2 ^ i * 2 ^ i + n mod 2 ^ i) = PAGE_SIZE * n"
      by (simp only: div_mult_mod_eq)
    then show ?thesis by (simp only: blk_def distrib_left mult_ac)
  qed
  have "s + PAGE_SIZE * n + PAGE_SIZE * 1024 < 2 ^ 64"
    using assms(1) by (simp add: mem_ok_def distrib_left)
  then have "blk s i (n div 2 ^ i) + PAGE_SIZE * 2 ^ i < 2 ^ 64"
    using b order_bound[OF assms(2)] by linarith
  moreover have "s + PAGE_SIZE * n - blk s i (n div 2 ^ i) < PAGE_SIZE * 2 ^ i"
    using n b by linarith
  ultimately show ?thesis
    using b by (subst init_fill.simps) (simp add: AddrIterator_next_def uadd_def usub_def)
qed

lemma init_fill_step:
  assumes "cur < stop" "cur + step < 2 ^ 64" "sz \<le> stop - cur" "c + 1 < 2 ^ 64"
    and "fa_insert_area a cur = Some (None, a1)"
  shows "init_fill \<lparr>it_step = step, it_cur = cur, it_end = stop\<rparr> stop sz a c =
    init_fill \<lparr>it_step = step, it_cur = cur + step, it_end = stop\<rparr> stop sz a1 (c + 1)"
  using assms
  by (subst init_fill.simps) (simp add: AddrIterator_next_def uadd_def usub_def rassert_def)

lemma init_fill_ok:
  assumes mem: "mem_ok s (n + 1024)" and i: "i < MAX_ORDER"
  shows "fa_inv s n i a \<Longrightarrow> k \<le> n div 2 ^ i \<Longrightarrow> fa_ks a \<inter> {k..} = {} \<Longrightarrow> c \<le> k \<Longrightarrow>
    (i < MAX_ORDER - 1 \<Longrightarrow> k < n div 2 ^ i \<Longrightarrow> n div 2 ^ i = k + 1 \<and> buddy_of k \<notin> fa_ks a) \<Longrightarrow>
    \<exists>a'. init_fill \<lparr>it_step = PAGE_SIZE * 2 ^ i, it_cur = blk s i k, it_end = s + PAGE_SIZE * n\<rparr>
        (s + PAGE_SIZE * n) (PAGE_SIZE * 2 ^ i) a c = Some (a', c + (n div 2 ^ i - k)) \<and>
      fa_inv s n i a' \<and> fa_ks a' = fa_ks a \<union> {k..<n div 2 ^ i}"
proof (induction "n div 2 ^ i - k" arbitrary: k a c)
  case 0
  then have "k = n div 2 ^ i" by simp
  then show ?case using init_fill_stop[OF mem i] 0 by simp
next
  case (Suc d)
  then have k: "k < n div 2 ^ i" by simp
  then have fits: "(k + 1) * 2 ^ i \<le> n" by (simp only: div_le_iff_blk)
  have mem': "mem_ok s n" using mem by (simp add: mem_ok_def PAGE_SIZE_def)
  have "k \<notin> fa_ks a" using Suc.prems(3) by auto
  then obtain a1 where a1: "fa_insert_area a (blk s i k) = Some (None, a1)" "fa_inv s n i a1"
    "fa_ks a1 = insert k (fa_ks a)"
    using fa_insert_push[OF Suc.prems(1) mem' i _ fits] Suc.prems(5) k by blast
  have nxt: "blk s i (k + 1) = blk s i k + PAGE_SIZE * 2 ^ i" by (simp add: blk_def algebra_simps)
  have room: "blk s i (k + 1) \<le> s + PAGE_SIZE * n"
    using mult_le_mono2[OF fits, of PAGE_SIZE] by (simp add: blk_def algebra_simps)
  have c: "c + 1 < 2 ^ 64" using Suc.prems(4) mem_index_small(1)[OF mem' fits] by simp
  have "\<exists>a'. init_fill \<lparr>it_step = PAGE_SIZE * 2 ^ i, it_cur = blk s i (k + 1), it_end = s + PAGE_SIZE * n\<rparr>
        (s + PAGE_SIZE * n) (PAGE_SIZE * 2 ^ i) a1 (c + 1) = Some (a', c + 1 + (n div 2 ^ i - (k + 1))) \<and>
      fa_inv s n i a' \<and> fa_ks a' = fa_ks a1 \<union> {k + 1..<n div 2 ^ i}"
  proof (rule Suc.hyps(1)[OF _ a1(2)])
    show "d = n div 2 ^ i - (k + 1)" "k + 1 \<le> n div 2 ^ i" "c + 1 \<le> k + 1"
      using Suc.hyps(2) Suc.prems(4) k by auto
    show "fa_ks a1 \<inter> {k + 1..} = {}" using Suc.prems(3) a1(3) by auto
    show "n div 2 ^ i = k + 1 + 1 \<and> buddy_of (k + 1) \<notin> fa_ks a1"
      if "i < MAX_ORDER - 1" "k + 1 < n div 2 ^ i" using Suc.prems(5) k that by simp
  qed
  moreover have "insert k A \<union> {k + 1..<N} = A \<union> {k..<N}" if "k < N" for A N using that by auto
  then have "fa_ks a1 \<union> {k + 1..<n div 2 ^ i} = fa_ks a \<union> {k..<n div 2 ^ i}" using a1(3) k by metis
  moreover have "c + 1 + (n div 2 ^ i - (k + 1)) = c + (n div 2 ^ i - k)" using k by simp
  moreover have "blk s i k < s + PAGE_SIZE * n" "PAGE_SIZE * 2 ^ i \<le> s + PAGE_SIZE * n - blk s i k"
    using room order_pos[of i] unfolding nxt by linarith+
  then have "init_fill \<lparr>it_step = PAGE_SIZE * 2 ^ i, it_cur = blk s i k, it_end = s + PAGE_SIZE * n\<rparr>
      (s + PAGE_SIZE * n) (PAGE_SIZE * 2 ^ i) a c =
    init_fill \<lparr>it_step = PAGE_SIZE * 2 ^ i, it_cur = blk s i (k + 1), it_end = s + PAGE_SIZE * n\<rparr>
      (s + PAGE_SIZE * n) (PAGE_SIZE * 2 ^ i) a1 (c + 1)"
    using mem_index_small(3)[OF mem' fits] unfolding nxt by (intro init_fill_step a1(1) c) auto
  ultimately show ?case by metis
qed

lemma init_order_ok:
  assumes mem: "mem_ok s (n + 1024)" and n: "0 < n" and i: "i < MAX_ORDER"
  shows "\<exists>a. init_order s n (s + PAGE_SIZE * n) i (blk s i (first_k n i)) FreeArea_default =
      Some (a, blk s i (n div 2 ^ i)) \<and> fa_inv s n i a \<and> fa_ks a = init_ks n i"
proof -
  let ?len = "n div 2 ^ i + of_bool (n mod 2 ^ i \<noteq> 0)"
  have "n < 2 ^ 52" using mem by (simp add: mem_ok_def PAGE_SIZE_def)
  then have "n div 2 ^ i < 2 ^ 52" by (rule le_less_trans[OF div_le_dividend])
  moreover have "0 < ?len" using n by (cases "n mod 2 ^ i = 0") auto
  ultimately have len: "0 < ?len" "?len < 2 ^ 62" by auto
  from new_ok[OF len] obtain bmp where
    bmp: "Bitmap_new ?len = Some bmp" "bm_ok bmp" "\<forall>k. \<not> bm_bits bmp k" by auto
  define a0 where "a0 = FreeArea_default\<lparr>fa_order := i, fa_start := s, fa_bitmap := bmp\<rparr>"
  have ks: "fa_ks a0 = {}" by (simp add: fa_ks_def a0_def FreeArea_default_def)
  have inv: "fa_inv s n i a0"
    using bmp ks by (auto simp: fa_inv_def a0_def FreeArea_default_def one_free_def fun_eq_iff)
  have one: "n div 2 ^ i = first_k n i + 1" if "i < MAX_ORDER - 1" "first_k n i < n div 2 ^ i"
    using that by (auto simp: first_k_def div_pow_Suc simp del: power_Suc)
  obtain a where a: "init_fill \<lparr>it_step = PAGE_SIZE * 2 ^ i, it_cur = blk s i (first_k n i),
        it_end = s + PAGE_SIZE * n\<rparr> (s + PAGE_SIZE * n) (PAGE_SIZE * 2 ^ i) a0 0 =
      Some (a, n div 2 ^ i - first_k n i)" "fa_inv s n i a" "fa_ks a = init_ks n i"
    using init_fill_ok[OF mem i inv first_k_le, of 0] one ks by (auto simp: init_ks_def)
  have start: "blk s i (first_k n i) \<le> s + PAGE_SIZE * n"
    and stop: "blk s i (n div 2 ^ i) \<le> s + PAGE_SIZE * n"
  proof -
    have "k * 2 ^ i \<le> n" if "k \<le> n div 2 ^ i" for k
      using that by (metis div_times_less_eq_dividend le_trans mult_le_mono1)
    then have "PAGE_SIZE * (k * 2 ^ i) \<le> PAGE_SIZE * n" if "k \<le> n div 2 ^ i" for k
      using that by (intro mult_le_mono2) simp
    then show "blk s i (first_k n i) \<le> s + PAGE_SIZE * n" "blk s i (n div 2 ^ i) \<le> s + PAGE_SIZE * n"
      using first_k_le[of n i] by (auto simp: blk_def mult_ac)
  qed
  have "blk s i (first_k n i) + PAGE_SIZE * 2 ^ i * (n div 2 ^ i - first_k n i) = blk s i (n div 2 ^ i)"
    using first_k_le[of n i] by (simp add: blk_def diff_mult_distrib2)
  moreover have "s + PAGE_SIZE * n < 2 ^ 64" using mem by (simp add: mem_ok_def PAGE_SIZE_def)
  moreover have "umul (2 ^ i) PAGE_SIZE = Some (PAGE_SIZE * 2 ^ i)"
    using order_size(2)[OF i] i by (simp add: order2pages_def)
  moreover have "(if n mod 2 ^ i \<noteq> 0 then uadd (n div 2 ^ i) 1 else Some (n div 2 ^ i)) = Some ?len"
    using len by (simp add: uadd_def)
  ultimately show ?thesis
    using a bmp(1) start stop i unfolding init_order_def a0_def
    by (simp add: order2pages_def udiv_def umod_def usub_def uadd_def umul_def addr_iter_def Let_def)
qed

lemma init_loop_ok:
  assumes mem: "mem_ok s (n + 1024)" and n: "0 < n"
  shows "m \<le> MAX_ORDER \<Longrightarrow> length as = MAX_ORDER \<Longrightarrow> \<forall>i < m. as ! i = FreeArea_default \<Longrightarrow>
    m = 0 \<or> probe = blk s (m - 1) (first_k n (m - 1)) \<Longrightarrow>
    \<exists>as'. init_loop s n (s + PAGE_SIZE * n) (rev [0..<m]) probe as = Some as' \<and> length as' = MAX_ORDER \<and>
      (\<forall>i < m. fa_inv s n i (as' ! i) \<and> fa_ks (as' ! i) = init_ks n i) \<and>
      (\<forall>i < MAX_ORDER. m \<le> i \<longrightarrow> as' ! i = as ! i)"
proof (induction m arbitrary: probe as)
  case (Suc m)
  have m: "m < MAX_ORDER" using Suc.prems(1) by simp
  obtain a where a: "init_order s n (s + PAGE_SIZE * n) m probe FreeArea_default =
      Some (a, blk s m (n div 2 ^ m))" "fa_inv s n m a" "fa_ks a = init_ks n m"
    using init_order_ok[OF mem n m] Suc.prems(4) by auto
  have "m = 0 \<or> blk s m (n div 2 ^ m) = blk s (m - 1) (first_k n (m - 1))"
    using Suc.prems(1) by (cases m) (auto simp: blk_double first_k_def)
  then obtain as' where as': "init_loop s n (s + PAGE_SIZE * n) (rev [0..<m]) (blk s m (n div 2 ^ m)) (as[m := a]) =
      Some as'" "length as' = MAX_ORDER" "\<forall>i < m. fa_inv s n i (as' ! i) \<and> fa_ks (as' ! i) = init_ks n i"
      "\<forall>i < MAX_ORDER. m \<le> i \<longrightarrow> as' ! i = as[m := a] ! i"
    using Suc.IH[of "as[m := a]" "blk s m (n div 2 ^ m)"] Suc.prems m by auto
  have "as' ! m = a" using as'(4) m Suc.prems(2) by simp
  then have "\<forall>i < Suc m. fa_inv s n i (as' ! i) \<and> fa_ks (as' ! i) = init_ks n i"
    using as'(3) a(2,3) by (simp add: less_Suc_eq)
  moreover have "\<forall>i < MAX_ORDER. Suc m \<le> i \<longrightarrow> as' ! i = as ! i" using as'(4) by auto
  moreover have "init_loop s n (s + PAGE_SIZE * n) (rev [0..<Suc m]) probe as = Some as'"
    using as'(1) a(1) m Suc.prems(2,3) by (simp add: vec_get_def)
  ultimately show ?case using as'(2) by blast
qed simp

text \<open>The blocks of initialisation cover every page exactly once.\<close>

lemma init_ks_mono:
  fixes pg n :: nat
  assumes "n div 2 ^ i \<le> pg div 2 ^ i" "i \<le> j"
  shows "n div 2 ^ j \<le> pg div 2 ^ j"
proof -
  have "x div 2 ^ j = x div 2 ^ i div 2 ^ (j - i)" for x :: nat
    using assms(2) by (metis div_exp_eq le_add_diff_inverse)
  then show ?thesis using assms(1) by (simp add: div_le_mono)
qed

lemma init_ks_above:
  fixes pg n :: nat
  shows "2 * (n div 2 ^ Suc i) \<le> pg div 2 ^ i \<longleftrightarrow> n div 2 ^ Suc i \<le> pg div 2 ^ Suc i"
  by (simp add: div_pow_Suc[of pg] less_eq_div_iff_mult_less_eq mult.commute del: power_Suc)

lemma init_ks_cases:
  "pg div 2 ^ i \<in> init_ks n i \<longleftrightarrow>
     pg div 2 ^ i < n div 2 ^ i \<and> (i \<noteq> MAX_ORDER - 1 \<longrightarrow> n div 2 ^ Suc i \<le> pg div 2 ^ Suc i)"
  using init_ks_above[of n i pg] by (auto simp: init_ks_def first_k_def simp del: power_Suc)

lemma init_ks_uniq:
  assumes "pg div 2 ^ i \<in> init_ks n i" "pg div 2 ^ j \<in> init_ks n j" "i < j" "j < MAX_ORDER"
  shows False
  using assms init_ks_mono[of n "Suc i" pg j] by (auto simp: init_ks_cases simp del: power_Suc)

lemma init_ks_cover: "(\<exists>i < MAX_ORDER. pg div 2 ^ i \<in> init_ks n i) \<longleftrightarrow> pg < n"
proof
  assume "\<exists>i < MAX_ORDER. pg div 2 ^ i \<in> init_ks n i"
  then obtain i where "pg div 2 ^ i < n div 2 ^ i" by (auto simp: init_ks_cases)
  then show "pg < n" using div_le_mono[of n pg "2 ^ i"] by linarith
next
  assume pg: "pg < n"
  let ?P = "\<lambda>i. n div 2 ^ i \<le> pg div 2 ^ i"
  show "\<exists>i < MAX_ORDER. pg div 2 ^ i \<in> init_ks n i"
  proof (cases "?P (MAX_ORDER - 1)")
    case True
    then obtain i where "i < MAX_ORDER - 1" "\<not> ?P i" "?P (Suc i)"
      using ex_least_nat_less[of ?P "MAX_ORDER - 1"] pg by auto
    then show ?thesis
      by (intro exI[of _ i]) (auto simp: init_ks_cases simp del: power_Suc)
  next
    case False
    have "MAX_ORDER - 1 < MAX_ORDER" by (simp add: MAX_ORDER_def)
    with False show ?thesis by (intro exI[of _ "MAX_ORDER - 1"]) (simp add: init_ks_cases)
  qed
qed

lemma init_areas_ok:
  assumes mem: "mem_ok s (n + 1024)" and n: "0 < n"
  shows "\<exists>b. init_areas BuddyAllocator_default s n = Some b \<and> ba_inv s n b \<and> free_set b = {..<n}"
proof -
  obtain as where as: "init_loop s n (s + PAGE_SIZE * n) (rev [0..<MAX_ORDER]) s
      (replicate MAX_ORDER FreeArea_default) = Some as" "length as = MAX_ORDER"
      "\<forall>i < MAX_ORDER. fa_inv s n i (as ! i) \<and> fa_ks (as ! i) = init_ks n i"
    using init_loop_ok[OF mem n, of MAX_ORDER "replicate MAX_ORDER FreeArea_default" s]
    by (auto simp: blk_def first_k_def)
  have "s + PAGE_SIZE * n < 2 ^ 64" using mem by (simp add: mem_ok_def PAGE_SIZE_def)
  then have "init_areas BuddyAllocator_default s n = Some \<lparr>free_areas = as, ba_start = s\<rparr>"
    using as(1) by (simp add: init_areas_def BuddyAllocator_default_def uadd_def umul_def mult.commute)
  moreover have "ba_inv s n \<lparr>free_areas = as, ba_start = s\<rparr>"
    using as init_ks_uniq by (auto simp: ba_inv_def) (metis linorder_less_linear)
  moreover have "free_set \<lparr>free_areas = as, ba_start = s\<rparr> = {..<n}"
  proof -
    have "(\<exists>i < MAX_ORDER. pg div 2 ^ i \<in> fa_ks (as ! i)) \<longleftrightarrow> pg < n" for pg
      using as(3) init_ks_cover[of pg n] by metis
    then show ?thesis by (simp add: free_set_def lessThan_def)
  qed
  ultimately show ?thesis by blast
qed

lemma align_multiple: "addr_ceil a = Some x \<Longrightarrow> PAGE_SIZE dvd x" "addr_floor a = Some x \<Longrightarrow> PAGE_SIZE dvd x"
  by (auto simp: addr_ceil_def addr_floor_def is_align_def uadd_def udiv_def umul_def
      split: if_splits bind_splits)

lemma ba_new_ok:
  assumes "addr_ceil sv = Some s" "addr_floor ev = Some e" "s < e" "e + PAGE_SIZE * 1024 < 2 ^ 64"
  shows "\<exists>b. ba_new sv ev = Some b \<and> ba_inv s ((e - s) div PAGE_SIZE) b \<and>
    free_set b = {..<(e - s) div PAGE_SIZE}"
proof -
  let ?n = "(e - s) div PAGE_SIZE"
  have "PAGE_SIZE dvd e - s" using align_multiple assms(1,2) by simp
  then have n: "PAGE_SIZE * ?n = e - s" by simp
  then have "0 < ?n" using assms(3) by (cases "?n = 0") auto
  moreover have "mem_ok s (?n + 1024)" using n assms(3,4) by (simp add: mem_ok_def distrib_left)
  ultimately show ?thesis
    using init_areas_ok[of s ?n] assms by (auto simp: ba_new_def ba_init_def usub_def udiv_def PAGE_SIZE_def)
qed

end
