(* ===== verification/K_Buddy_Client.thy ===== *)
theory K_Buddy_Client
  imports K_Buddy_Correct
begin

text \<open>
  What the users of the buddy allocator rely on.  The locale states the contract of an allocator of
  page blocks and proves that blocks in use never overlap; the interpretation discharges it for the
  allocator of \<^verbatim>\<open>kernel/src/mm/buddy.rs\<close>, and the properties follow for every sequence of calls.
\<close>

section \<open>Contract\<close>

locale page_blocks =
  fixes inv :: "'st \<Rightarrow> bool" and free :: "'st \<Rightarrow> nat set"
    and valid :: "vaddr \<Rightarrow> usize \<Rightarrow> bool" and pages :: "vaddr \<Rightarrow> usize \<Rightarrow> nat set"
    and take :: "'st \<Rightarrow> usize \<Rightarrow> ((int + vaddr) \<times> 'st) run"
    and put :: "'st \<Rightarrow> vaddr \<Rightarrow> usize \<Rightarrow> ((int + unit) \<times> 'st) run"
  assumes take_ok: "inv st \<Longrightarrow> \<exists>r st'. take st ord = Some (r, st') \<and> inv st' \<and>
      (case r of Inl e \<Rightarrow> st' = st
       | Inr v \<Rightarrow> valid v ord \<and> pages v ord \<subseteq> free st \<and> free st' = free st - pages v ord)"
    and put_ok: "inv st \<Longrightarrow> valid v ord \<Longrightarrow> pages v ord \<inter> free st = {} \<Longrightarrow>
      \<exists>st'. put st v ord = Some (Inr (), st') \<and> inv st' \<and> free st' = free st \<union> pages v ord"
    and pages_ne: "valid v ord \<Longrightarrow> pages v ord \<noteq> {}"
begin

text \<open>
  The blocks in use do not overlap each other or the free pages, and together with the free pages
  they are all of the memory.
\<close>

definition owned_ok :: "nat set \<Rightarrow> 'st \<Rightarrow> (vaddr \<times> usize) set \<Rightarrow> bool" where
  "owned_ok mem st B \<longleftrightarrow> inv st \<and> (\<forall>b \<in> B. case_prod valid b) \<and>
     (\<forall>b \<in> B. \<forall>b' \<in> B. b \<noteq> b' \<longrightarrow> case_prod pages b \<inter> case_prod pages b' = {}) \<and>
     (\<forall>b \<in> B. case_prod pages b \<inter> free st = {}) \<and>
     free st \<union> (\<Union>b \<in> B. case_prod pages b) = mem"

lemma ownedD:
  assumes "owned_ok mem st B"
  shows "inv st" "b \<in> B \<Longrightarrow> case_prod valid b"
    "b \<in> B \<Longrightarrow> b' \<in> B \<Longrightarrow> b \<noteq> b' \<Longrightarrow> case_prod pages b \<inter> case_prod pages b' = {}"
    "b \<in> B \<Longrightarrow> case_prod pages b \<inter> free st = {}"
    "free st \<union> (\<Union>b \<in> B. case_prod pages b) = mem"
  using assms unfolding owned_ok_def by blast+

lemma take_owned:
  assumes own: "owned_ok mem st B" and take: "take st ord = Some (Inr v, st')"
  shows "owned_ok mem st' (insert (v, ord) B)" "(v, ord) \<notin> B"
proof -
  note D = ownedD[OF own]
  from take_ok[OF D(1), of ord] take
  have new: "inv st'" "valid v ord" "pages v ord \<subseteq> free st" "free st' = free st - pages v ord" by auto
  have dis: "case_prod pages b \<inter> pages v ord = {}" if "b \<in> B" for b
    using D(4)[OF that] new(3) by blast
  then show "(v, ord) \<notin> B" using pages_ne[OF new(2)] by fastforce
  have "free st' \<union> (\<Union>b \<in> insert (v, ord) B. case_prod pages b) = mem"
    using new(3,4) D(5) by auto
  moreover have "\<forall>b \<in> insert (v, ord) B. case_prod pages b \<inter> free st' = {}"
    using new(4) D(4) by auto
  moreover have "\<forall>b \<in> insert (v, ord) B. \<forall>b' \<in> insert (v, ord) B. b \<noteq> b' \<longrightarrow>
      case_prod pages b \<inter> case_prod pages b' = {}"
    using dis D(3) by (simp add: Int_commute)
  ultimately show "owned_ok mem st' (insert (v, ord) B)"
    using new(1,2) D(2) unfolding owned_ok_def by simp
qed

lemma take_fails_owned:
  "owned_ok mem st B \<Longrightarrow> take st ord = Some (Inl e, st') \<Longrightarrow> st' = st"
  using take_ok[OF ownedD(1), of mem st B ord] by auto

lemma put_owned:
  assumes own: "owned_ok mem st B" and b: "(v, ord) \<in> B"
  shows "\<exists>st'. put st v ord = Some (Inr (), st') \<and> owned_ok mem st' (B - {(v, ord)})"
proof -
  note D = ownedD[OF own]
  obtain st' where st': "put st v ord = Some (Inr (), st')" "inv st'"
    "free st' = free st \<union> pages v ord"
    using put_ok[OF D(1), of v ord] D(2)[OF b] D(4)[OF b] by auto
  have "\<forall>c \<in> B - {(v, ord)}. case_prod pages c \<inter> free st' = {}"
    using D(3)[OF _ b] D(4) st'(3) by (simp add: Int_Un_distrib)
  moreover have "(\<Union>c \<in> B. case_prod pages c) = pages v ord \<union> (\<Union>c \<in> B - {(v, ord)}. case_prod pages c)"
    by (subst insert_Diff[OF b, symmetric], subst UN_insert) simp
  then have "free st' \<union> (\<Union>c \<in> B - {(v, ord)}. case_prod pages c) = mem"
    unfolding st'(3) D(5)[symmetric] by (simp add: Un_assoc)
  ultimately have "owned_ok mem st' (B - {(v, ord)})"
    using st'(2) D(2,3) unfolding owned_ok_def by simp
  with st'(1) show ?thesis by blast
qed

end

section \<open>The buddy allocator meets the contract\<close>

definition blk_of :: "vaddr \<Rightarrow> vaddr \<Rightarrow> usize \<Rightarrow> nat" where
  "blk_of s v ord = (v - s) div (PAGE_SIZE * 2 ^ ord)"

definition blk_valid :: "vaddr \<Rightarrow> nat \<Rightarrow> vaddr \<Rightarrow> usize \<Rightarrow> bool" where
  "blk_valid s n v ord \<longleftrightarrow> ord < MAX_ORDER \<and> v = blk s ord (blk_of s v ord) \<and>
     (blk_of s v ord + 1) * 2 ^ ord \<le> n"

definition pages_of :: "vaddr \<Rightarrow> vaddr \<Rightarrow> usize \<Rightarrow> nat set" where
  "pages_of s v ord = blk_pages ord (blk_of s v ord)"

lemma blk_of_blk [simp]: "blk_of s (blk s ord k) ord = k"
  by (simp add: blk_of_def blk_def PAGE_SIZE_def)

lemma alloc_take_ok:
  assumes "mem_ok s n" "ba_inv s n b"
  shows "\<exists>r b'. alloc_area b ord = Some (r, b') \<and> ba_inv s n b' \<and>
    (case r of Inl e \<Rightarrow> b' = b
     | Inr v \<Rightarrow> blk_valid s n v ord \<and> pages_of s v ord \<subseteq> free_set b \<and>
         free_set b' = free_set b - pages_of s v ord)"
proof (cases "\<exists>i. ord \<le> i \<and> i < MAX_ORDER \<and> fa_ks (free_areas b ! i) \<noteq> {}")
  case True
  then obtain i where i: "ord \<le> i" "i < MAX_ORDER" "fa_ks (free_areas b ! i) \<noteq> {}" by blast
  from alloc_area_some[OF assms i] i show ?thesis
    by (force simp: blk_valid_def pages_of_def)
next
  case False
  then show ?thesis using alloc_area_none[OF assms(2)] assms(2) by auto
qed

lemma free_put_ok:
  assumes "mem_ok s n" "ba_inv s n b" "blk_valid s n v ord" "pages_of s v ord \<inter> free_set b = {}"
  shows "\<exists>b'. free_area b v ord = Some (Inr (), b') \<and> ba_inv s n b' \<and>
    free_set b' = free_set b \<union> pages_of s v ord"
  using free_area_ok[OF assms(1,2), of ord "blk_of s v ord"] assms(3,4)
  by (simp add: blk_valid_def pages_of_def)

text \<open>The memory is a parameter of the interface, so the interpretation is for each memory that fits.\<close>

interpretation buddy: page_blocks "\<lambda>b. mem_ok s n \<and> ba_inv s n b" free_set "blk_valid s n"
    "pages_of s" alloc_area free_area for s n
proof unfold_locales
  fix b ord assume "mem_ok s n \<and> ba_inv s n b"
  then show "\<exists>r b'. alloc_area b ord = Some (r, b') \<and> (mem_ok s n \<and> ba_inv s n b') \<and>
      (case r of Inl e \<Rightarrow> b' = b
       | Inr v \<Rightarrow> blk_valid s n v ord \<and> pages_of s v ord \<subseteq> free_set b \<and>
           free_set b' = free_set b - pages_of s v ord)"
    using alloc_take_ok[of s n b ord] by auto
next
  fix b v ord assume "mem_ok s n \<and> ba_inv s n b" "blk_valid s n v ord" "pages_of s v ord \<inter> free_set b = {}"
  then show "\<exists>b'. free_area b v ord = Some (Inr (), b') \<and> (mem_ok s n \<and> ba_inv s n b') \<and>
      free_set b' = free_set b \<union> pages_of s v ord"
    using free_put_ok by auto
next
  fix v ord assume "blk_valid s n v ord"
  then show "pages_of s v ord \<noteq> {}" using blk_pages_ne by (auto simp: pages_of_def)
qed

section \<open>Properties\<close>

text \<open>
  C6: creating the allocator.  The memory between two addresses is rounded inwards to pages; if at
  least one page is left and a block of the largest order past its end is still addressable, the
  allocator is created, with every page of the memory free and in exactly one free block.
\<close>

theorem buddy_new_correct:
  assumes "addr_ceil sv = Some s" "addr_floor ev = Some e" "s < e" "e + PAGE_SIZE * 1024 < 2 ^ 64"
  shows "\<exists>b. ba_new sv ev = Some b \<and> ba_inv s ((e - s) div PAGE_SIZE) b \<and>
    free_set b = {..<(e - s) div PAGE_SIZE}"
  by (rule ba_new_ok[OF assms])

lemma sample_memory:
  "addr_ceil 0x80001234 = Some 0x80002000" "addr_floor 0x80800010 = Some 0x80800000"
  by (simp_all add: ceil_eq floor_eq is_align_def PAGE_SIZE_def)

theorem buddy_new_correct_witness:
  "\<exists>b. ba_new 0x80001234 0x80800010 = Some b \<and> ba_inv 0x80002000 2046 b \<and> free_set b = {..<2046}"
  using buddy_new_correct[OF sample_memory] by (simp add: PAGE_SIZE_def)

text \<open>
  C4: allocating a block of an order.  Exactly when some aligned block of that order is free, the
  call returns such a block, and its pages are the only ones that stop being free; otherwise it
  returns the error and changes nothing.  Larger blocks that are split are put back so that the
  invariant holds again.
\<close>

theorem alloc_area_correct:
  assumes "mem_ok s n" "ba_inv s n b" "ord < MAX_ORDER"
  shows "if \<exists>k. blk_pages ord k \<subseteq> free_set b
    then \<exists>k b'. alloc_area b ord = Some (Inr (blk s ord k), b') \<and> ba_inv s n b' \<and>
           blk_pages ord k \<subseteq> free_set b \<and> free_set b' = free_set b - blk_pages ord k
    else alloc_area b ord = Some (Inl (-1), b)"
proof (cases "\<exists>i. ord \<le> i \<and> i < MAX_ORDER \<and> fa_ks (free_areas b ! i) \<noteq> {}")
  case True
  then obtain i where "ord \<le> i" "i < MAX_ORDER" "fa_ks (free_areas b ! i) \<noteq> {}" by blast
  from alloc_area_some[OF assms(1,2) this] show ?thesis by (auto 0 3)
next
  case False
  then have "\<not> blk_pages ord k \<subseteq> free_set b" for k
    using free_block_covered[OF assms(2,3), of k] by blast
  then show ?thesis using alloc_area_none[OF assms(2)] False by auto
qed

text \<open>A new allocator on the sample memory, and one on which a block has been allocated.\<close>

lemma sample_new:
  obtains b where "ba_new 0x80001234 0x80800010 = Some b" "ba_inv 0x80002000 2046 b"
    "free_set b = {..<2046}"
  using ba_new_ok[OF sample_memory] by (auto simp: PAGE_SIZE_def)

lemma sample_mem_ok: "mem_ok 0x80002000 2046"
  by (simp add: mem_ok_def PAGE_SIZE_def)

lemma sample_free_block: "blk_pages 3 0 \<subseteq> {..<2046}"
  by (auto simp: blk_pages_def)

theorem alloc_area_correct_witness:
  "\<exists>b k b'. ba_new 0x80001234 0x80800010 = Some b \<and>
     alloc_area b 3 = Some (Inr (blk 0x80002000 3 k), b') \<and> free_set b' = {..<2046} - blk_pages 3 k"
proof -
  obtain b where b: "ba_new 0x80001234 0x80800010 = Some b" "ba_inv 0x80002000 2046 b"
    "free_set b = {..<2046}" by (rule sample_new)
  from alloc_area_correct[OF sample_mem_ok b(2), of 3] sample_free_block b show ?thesis
    by (auto simp: MAX_ORDER_def split: if_splits)
qed

text \<open>
  C5: freeing a block.  A block of the memory none of whose pages is free is taken back: the call
  returns without error, its pages become free and no others change, and buddies that are both free
  have been joined, up to the largest order.
\<close>

theorem free_area_correct:
  assumes "mem_ok s n" "ba_inv s n b" "ord < MAX_ORDER" "(k + 1) * 2 ^ ord \<le> n"
    "blk_pages ord k \<inter> free_set b = {}"
  shows "\<exists>b'. free_area b (blk s ord k) ord = Some (Inr (), b') \<and> ba_inv s n b' \<and>
    free_set b' = free_set b \<union> blk_pages ord k \<and>
    (\<forall>i < MAX_ORDER - 1. \<forall>j \<in> fa_ks (free_areas b' ! i). buddy_of j \<notin> fa_ks (free_areas b' ! i))"
proof -
  obtain b' where b': "free_area b (blk s ord k) ord = Some (Inr (), b')" "ba_inv s n b'"
    "free_set b' = free_set b \<union> blk_pages ord k"
    using free_area_ok[OF assms] by blast
  have "\<forall>i < MAX_ORDER - 1. \<forall>j \<in> fa_ks (free_areas b' ! i). buddy_of j \<notin> fa_ks (free_areas b' ! i)"
    using b'(2) by (auto simp: ba_inv_def fa_inv_def)
  with b' show ?thesis by blast
qed

theorem free_area_correct_witness:
  "\<exists>b k b' b''. ba_new 0x80001234 0x80800010 = Some b \<and>
     alloc_area b 3 = Some (Inr (blk 0x80002000 3 k), b') \<and>
     free_area b' (blk 0x80002000 3 k) 3 = Some (Inr (), b'') \<and> free_set b'' = {..<2046}"
proof -
  obtain b where b: "ba_new 0x80001234 0x80800010 = Some b" "ba_inv 0x80002000 2046 b"
    "free_set b = {..<2046}" by (rule sample_new)
  have "fa_ks (free_areas b ! i) = {}" if "3 \<le> i" "i < MAX_ORDER"
    "alloc_area b 3 = Some (Inl (-1), b)" for i
    using alloc_area_some[OF sample_mem_ok b(2) that(1,2)] that(3) by auto
  then obtain i where "3 \<le> i" "i < MAX_ORDER" "fa_ks (free_areas b ! i) \<noteq> {}"
    using free_block_covered[OF b(2), of 3 0] sample_free_block b(3) by (auto simp: MAX_ORDER_def)
  from alloc_area_some[OF sample_mem_ok b(2) this] obtain k b' where
    k: "alloc_area b 3 = Some (Inr (blk 0x80002000 3 k), b')" "ba_inv 0x80002000 2046 b'"
      "(k + 1) * 2 ^ 3 \<le> 2046" "blk_pages 3 k \<subseteq> free_set b" "free_set b' = free_set b - blk_pages 3 k"
    by blast
  have "blk_pages 3 k \<inter> free_set b' = {}" "free_set b' \<union> blk_pages 3 k = {..<2046}"
    using k(4,5) b(3) by auto
  with free_area_correct[OF sample_mem_ok k(2) _ k(3)] show ?thesis
    using b(1) k(1) by (auto simp: MAX_ORDER_def)
qed

text \<open>
  \<^verbatim>\<open>free_area\<close> refuses an order that is too large, an address below the memory and an address
  that is not aligned to a block of the order; the allocator is then unchanged.
\<close>

theorem free_area_rejects:
  assumes "ba_inv s n b"
    and "MAX_ORDER \<le> ord \<or> v < s \<or> \<not> (PAGE_SIZE * 2 ^ ord) dvd (v - s)"
  shows "free_area b v ord = Some (Inl (-1), b)"
proof (cases "MAX_ORDER \<le> ord")
  case False
  then have "ord < MAX_ORDER" by simp
  moreover from this have "fa_start (free_areas b ! ord) = s"
    using ba_inv_area[OF assms(1)] by (simp add: fa_inv_def)
  ultimately show ?thesis
    using assms(2) ba_inv_get[OF assms(1)] order_size(1)[of ord] order_pos[of ord]
    by (auto simp: free_area_def usub_def umod_def dvd_eq_mod_eq_0)
qed (simp add: free_area_def)

theorem free_area_rejects_witness:
  "\<exists>b. ba_new 0x80001234 0x80800010 = Some b \<and> free_area b 0x80003000 1 = Some (Inl (-1), b)"
proof -
  obtain b where b: "ba_new 0x80001234 0x80800010 = Some b" "ba_inv 0x80002000 2046 b"
    by (rule sample_new)
  have "\<not> 8192 dvd (4096 :: nat)" by presburger
  with free_area_rejects[OF b(2), where ord = 1 and v = "0x80003000"] b(1) show ?thesis by (simp add: PAGE_SIZE_def)
qed

section \<open>Counting the free pages\<close>

lemma free_pages_sum_eq:
  "\<forall>i \<in> set is. i < length as \<and> i < MAX_ORDER \<Longrightarrow>
   acc + (\<Sum>i\<leftarrow>is. fa_cnt (as ! i) * 2 ^ i) < 2 ^ 64 \<Longrightarrow>
   free_pages_sum as is acc = Some (acc + (\<Sum>i\<leftarrow>is. fa_cnt (as ! i) * 2 ^ i))"
  by (induction "is" arbitrary: acc)
    (simp_all add: vec_get_def umul_def uadd_def order2pages_def add.assoc)

lemma card_blocks:
  fixes i :: nat and K :: "nat set"
  assumes "finite K"
  shows "finite {pg. pg div 2 ^ i \<in> K}" "card {pg. pg div 2 ^ i \<in> K} = card K * 2 ^ i"
proof -
  have eq: "{pg. pg div 2 ^ i \<in> K} = (\<Union>k \<in> K. blk_pages i k)" by (auto simp: blk_pages_iff)
  show "finite {pg. pg div 2 ^ i \<in> K}" using assms by (simp add: eq blk_pages_def)
  have "card (\<Union>k \<in> K. blk_pages i k) = (\<Sum>k \<in> K. card (blk_pages i k))"
    using assms by (intro card_UN_disjoint) (auto simp: blk_pages_iff, simp add: blk_pages_def)
  also have "\<dots> = card K * 2 ^ i" by (simp add: blk_pages_def)
  finally show "card {pg. pg div 2 ^ i \<in> K} = card K * 2 ^ i" by (simp add: eq)
qed

lemma fa_ks_card:
  assumes "fa_inv s n i a"
  shows "finite (fa_ks a)" "card (fa_ks a) = fa_cnt a"
proof -
  have img: "blk s i ` fa_ks a = set (fa_list a)" using fa_set[OF assms] by simp
  have inj: "inj_on (blk s i) (fa_ks a)" using inj_blk by (rule inj_on_subset) simp
  show "finite (fa_ks a)" using finite_imageD[OF _ inj] img by simp
  show "card (fa_ks a) = fa_cnt a"
    using card_image[OF inj] img assms by (simp add: fa_inv_def distinct_card)
qed

lemma card_free_upto:
  assumes inv: "ba_inv s n b"
  shows "m \<le> MAX_ORDER \<Longrightarrow> finite {pg. \<exists>i < m. pg div 2 ^ i \<in> fa_ks (free_areas b ! i)} \<and>
    card {pg. \<exists>i < m. pg div 2 ^ i \<in> fa_ks (free_areas b ! i)} =
      (\<Sum>i\<leftarrow>[0..<m]. fa_cnt (free_areas b ! i) * 2 ^ i)"
proof (induction m)
  case (Suc m)
  let ?S = "\<lambda>m. {pg. \<exists>i < m. pg div 2 ^ i \<in> fa_ks (free_areas b ! i)}"
  let ?T = "{pg. pg div 2 ^ m \<in> fa_ks (free_areas b ! m)}"
  have m: "m < MAX_ORDER" using Suc.prems by simp
  note ks = fa_ks_card[OF ba_inv_area[OF inv m]]
  have "?S m \<inter> ?T = {}"
  proof (intro equals0I)
    fix pg assume "pg \<in> ?S m \<inter> ?T"
    then obtain i where "i < m" "pg div 2 ^ i \<in> fa_ks (free_areas b ! i)"
      "pg div 2 ^ m \<in> fa_ks (free_areas b ! m)" by blast
    then show False using ba_inv_uniq[OF inv, of i m pg] m by simp
  qed
  moreover have "?S (Suc m) = ?S m \<union> ?T" by (auto simp: less_Suc_eq)
  ultimately show ?case
    using Suc card_blocks[OF ks(1), of m] ks(2) by (simp add: card_Un_disjoint)
qed simp

lemma free_set_bound: "ba_inv s n b \<Longrightarrow> free_set b \<subseteq> {..<n}"
proof
  fix pg assume inv: "ba_inv s n b" and "pg \<in> free_set b"
  then obtain i where "i < MAX_ORDER" "pg div 2 ^ i \<in> fa_ks (free_areas b ! i)"
    by (auto simp: free_set_def)
  then have "(pg div 2 ^ i + 1) * 2 ^ i \<le> n" using fa_ks_bound[OF ba_inv_area[OF inv]] by blast
  moreover have "pg < (pg div 2 ^ i + 1) * 2 ^ i" using blk_pages_iff[of pg i "pg div 2 ^ i"]
    by (simp add: blk_pages_def)
  ultimately show "pg \<in> {..<n}" by simp
qed

text \<open>
  \<^verbatim>\<open>get_free_pages_cnt\<close> returns the number of pages that are free.
\<close>

theorem free_pages_cnt_correct:
  assumes "mem_ok s n" "ba_inv s n b"
  shows "get_free_pages_cnt b = Some (card (free_set b))"
proof -
  have c: "card (free_set b) = (\<Sum>i\<leftarrow>[0..<MAX_ORDER]. fa_cnt (free_areas b ! i) * 2 ^ i)"
    using card_free_upto[OF assms(2), of MAX_ORDER] by (simp add: free_set_def)
  have "card (free_set b) \<le> n" using card_mono[OF _ free_set_bound[OF assms(2)]] by simp
  also have "n < 2 ^ 64" using assms(1) by (simp add: mem_ok_def PAGE_SIZE_def)
  finally show ?thesis
    using free_pages_sum_eq[of "[0..<MAX_ORDER]" "free_areas b" 0] assms(2) c
    by (simp add: get_free_pages_cnt_def ba_inv_def)
qed

theorem free_pages_cnt_correct_witness:
  "\<exists>b. ba_new 0x80001234 0x80800010 = Some b \<and> get_free_pages_cnt b = Some 2046"
proof -
  obtain b where "ba_new 0x80001234 0x80800010 = Some b" "ba_inv 0x80002000 2046 b"
    "free_set b = {..<2046}" by (rule sample_new)
  with free_pages_cnt_correct[OF sample_mem_ok this(2)] show ?thesis by simp
qed

section \<open>Sequences of calls\<close>

text \<open>
  The allocator together with the blocks its users hold.  A user gets a block from a successful
  allocation and gives back a block it holds.
\<close>

inductive buddy_step ::
    "BuddyAllocator \<times> (vaddr \<times> usize) set \<Rightarrow> BuddyAllocator \<times> (vaddr \<times> usize) set \<Rightarrow> bool" where
  step_alloc: "alloc_area b ord = Some (Inr v, b') \<Longrightarrow> buddy_step (b, B) (b', insert (v, ord) B)"
| step_alloc_fails: "alloc_area b ord = Some (Inl e, b') \<Longrightarrow> buddy_step (b, B) (b', B)"
| step_free: "(v, ord) \<in> B \<Longrightarrow> free_area b v ord = Some (r, b') \<Longrightarrow>
    buddy_step (b, B) (b', B - {(v, ord)})"

inductive_cases buddy_stepE: "buddy_step (b, B) (b', B')"

lemma buddy_step_owned:
  assumes "buddy.owned_ok s n mem b B" "buddy_step (b, B) (b', B')"
  shows "buddy.owned_ok s n mem b' B'"
  using assms(2)
  by (rule buddy_stepE)
    (use buddy.take_owned(1)[OF assms(1)] buddy.take_fails_owned[OF assms(1)] assms(1)
      buddy.put_owned[OF assms(1)] in fastforce)+

text \<open>Two blocks without a common page have no common address.\<close>

lemma blk_addr_page:
  assumes "x \<in> {blk s ord k..<blk s ord k + PAGE_SIZE * 2 ^ ord}"
  shows "(x - s) div PAGE_SIZE \<in> blk_pages ord k"
proof -
  have "k * 2 ^ ord * PAGE_SIZE \<le> x - s" "x - s < (k + 1) * 2 ^ ord * PAGE_SIZE"
    using assms by (auto simp: blk_def algebra_simps)
  then show ?thesis
    by (simp add: blk_pages_def less_eq_div_iff_mult_less_eq div_less_iff_less_mult PAGE_SIZE_def)
qed

lemma valid_disjoint:
  assumes "blk_valid s n v ord" "blk_valid s n v' ord'" "pages_of s v ord \<inter> pages_of s v' ord' = {}"
  shows "{v..<v + PAGE_SIZE * 2 ^ ord} \<inter> {v'..<v' + PAGE_SIZE * 2 ^ ord'} = {}"
proof -
  have "(x - s) div PAGE_SIZE \<in> pages_of s v ord"
    if "blk_valid s n v ord" "x \<in> {v..<v + PAGE_SIZE * 2 ^ ord}" for v x ord
    using that blk_addr_page[of x s ord "blk_of s v ord"] by (simp add: blk_valid_def pages_of_def)
  with assms show ?thesis by blast
qed

lemma buddy_reach_owned:
  assumes "buddy_step\<^sup>*\<^sup>* (b, B) (b', B')" "buddy.owned_ok s n mem b B"
  shows "buddy.owned_ok s n mem b' B'"
  using assms
proof (induction "(b', B')" arbitrary: b' B' rule: rtranclp_induct)
  case (step c)
  then show ?case using buddy_step_owned by (cases c) auto
qed simp

text \<open>
  C1: no block is handed out twice.  From a new allocator, after any sequence of allocations and
  frees of held blocks, the held blocks are disjoint from each other and from the free pages, no page
  is lost, and no further call can panic: an allocation of any order returns, and freeing any held
  block succeeds.
\<close>

theorem buddy_no_overlap:
  assumes "addr_ceil sv = Some s" "addr_floor ev = Some e" "s < e" "e + PAGE_SIZE * 1024 < 2 ^ 64"
    and "ba_new sv ev = Some b0" and reach: "buddy_step\<^sup>*\<^sup>* (b0, {}) (b, B)"
  shows "(\<forall>(v, ord) \<in> B. \<forall>(v', ord') \<in> B. (v, ord) \<noteq> (v', ord') \<longrightarrow>
        {v..<v + PAGE_SIZE * 2 ^ ord} \<inter> {v'..<v' + PAGE_SIZE * 2 ^ ord'} = {}) \<and>
     (\<forall>(v, ord) \<in> B. pages_of s v ord \<inter> free_set b = {}) \<and>
     free_set b \<union> (\<Union>(v, ord) \<in> B. pages_of s v ord) = {..<(e - s) div PAGE_SIZE} \<and>
     (\<forall>ord. alloc_area b ord \<noteq> None) \<and>
     (\<forall>(v, ord) \<in> B. \<exists>b'. free_area b v ord = Some (Inr (), b'))"
proof -
  let ?n = "(e - s) div PAGE_SIZE"
  have b0: "ba_inv s ?n b0" "free_set b0 = {..<?n}"
    using ba_new_ok[OF assms(1-4)] assms(5) by auto
  have "PAGE_SIZE * ?n \<le> e - s" by simp
  then have mem: "mem_ok s ?n" unfolding mem_ok_def using assms(3,4) by linarith
  have "buddy.owned_ok s ?n {..<?n} b0 {}" 
    unfolding buddy.owned_ok_def using b0 mem by simp
  then have own: "buddy.owned_ok s ?n {..<?n} b B" by (rule buddy_reach_owned[OF reach])
  note D = buddy.ownedD[OF own]
  have al: "alloc_area b ord \<noteq> None" for ord using buddy.take_ok[OF D(1), of ord] by auto
  have fr: "\<exists>b'. free_area b v ord = Some (Inr (), b')" if "(v, ord) \<in> B" for v ord
    using buddy.put_owned[OF own that] by blast
  have dj: "{v..<v + PAGE_SIZE * 2 ^ ord} \<inter> {v'..<v' + PAGE_SIZE * 2 ^ ord'} = {}"
    if "(v, ord) \<in> B" "(v', ord') \<in> B" "(v, ord) \<noteq> (v', ord')" for v ord v' ord'
    using D(2)[OF that(1)] D(2)[OF that(2)] D(3)[OF that] by (intro valid_disjoint) auto
  have pf: "pages_of s v ord \<inter> free_set b = {}" if "(v, ord) \<in> B" for v ord
    using D(4)[OF that] by simp
  show ?thesis
  proof (intro conjI)
    show "\<forall>(v, ord) \<in> B. \<forall>(v', ord') \<in> B. (v, ord) \<noteq> (v', ord') \<longrightarrow>
        {v..<v + PAGE_SIZE * 2 ^ ord} \<inter> {v'..<v' + PAGE_SIZE * 2 ^ ord'} = {}"
      by (intro ballI, simp only: split_paired_all case_prod_conv)+ (intro impI dj)
    show "\<forall>(v, ord) \<in> B. pages_of s v ord \<inter> free_set b = {}"
      by (intro ballI, simp only: split_paired_all case_prod_conv) (rule pf)
    show "\<forall>(v, ord) \<in> B. \<exists>b'. free_area b v ord = Some (Inr (), b')"
      by (intro ballI, simp only: split_paired_all case_prod_conv) (rule fr)
  qed (use al D(5) in blast)+
qed

theorem buddy_no_overlap_witness:
  "\<exists>b r b'. ba_new 0x80001234 0x80800010 = Some b \<and> alloc_area b 3 = Some (r, b') \<and>
     alloc_area b' 0 \<noteq> None"
proof -
  obtain b where b: "ba_new 0x80001234 0x80800010 = Some b" "ba_inv 0x80002000 2046 b"
    by (rule sample_new)
  have s: "(0x80002000 :: nat) < 0x80800000" "0x80800000 + PAGE_SIZE * 1024 < 2 ^ 64"
    by (simp_all add: PAGE_SIZE_def)
  note safe = buddy_no_overlap[OF sample_memory s b(1)]
  have "alloc_area b 3 \<noteq> None" using safe[of b "{}"] by simp
  then obtain r b' where r: "alloc_area b 3 = Some (r, b')" by auto
  then have "\<exists>B. buddy_step (b, {}) (b', B)"
    by (cases r) (auto intro: step_alloc step_alloc_fails)
  then obtain B where "buddy_step\<^sup>*\<^sup>* (b, {}) (b', B)" by blast
  from safe[OF this] have "alloc_area b' 0 \<noteq> None" by blast
  with b(1) r show ?thesis by blast
qed

end
