(* ===== verification/K_Page.thy ===== *)
theory K_Page
  imports K_Buddy_Client
begin

text \<open>
  \<^verbatim>\<open>kernel/src/mm/page.rs\<close> and the page functions of \<^verbatim>\<open>kernel/src/mm/mod.rs\<close>.  A \<^verbatim>\<open>Page\<close> is an object
  on the kernel's heap that stands for one page of memory and is shared by reference counts; there is
  at most one for each page, so an \<^verbatim>\<open>Arc\<close> or a \<^verbatim>\<open>Weak\<close> pointer to one is the address of its page, and
  the objects that are alive are a map from these addresses.  Upgrading a \<^verbatim>\<open>Weak\<close> pointer looks it up
  in that map.  The memory is a function from addresses to 64-bit words, read and written at multiples
  of 8.  The locks of the globals do nothing here: each operation below is one critical section.
\<close>

record Page =
  pg_vaddr :: vaddr
  default_flag :: bool
  is_leader_flag :: bool
  friends :: "vaddr list"
  leader :: "vaddr option"
  pg_order :: usize
  pg_pos :: usize

record PagesManager =
  start_vaddr :: vaddr
  pages :: "vaddr option list"

record Kern =
  mem :: "usize \<Rightarrow> u64"
  buddy_allocator :: BuddyAllocator
  pages_manager :: PagesManager
  heap :: "vaddr \<Rightarrow> Page option"

section \<open>The table of pages\<close>

definition PagesManager_default :: PagesManager where
  "PagesManager_default = \<lparr>start_vaddr = 0, pages = []\<rparr>"

definition pm_init :: "PagesManager \<Rightarrow> vaddr \<Rightarrow> vaddr \<Rightarrow> PagesManager run" where
  "pm_init pm start_addr end_addr = do {
     ns \<leftarrow> addr_ceil start_addr;
     ne \<leftarrow> addr_floor end_addr;
     d \<leftarrow> usub ne ns;
     pgs \<leftarrow> udiv d PAGE_SIZE;
     Some (pm\<lparr>pages := vec_resize (pages pm) pgs None, start_vaddr := ns\<rparr>)
   }"

definition pm_new :: "vaddr \<Rightarrow> vaddr \<Rightarrow> PagesManager run" where
  "pm_new start_addr end_addr = pm_init PagesManager_default start_addr end_addr"

definition pm_cap :: "PagesManager \<Rightarrow> usize" where
  "pm_cap pm = length (pages pm)"

definition get_index_no_check :: "PagesManager \<Rightarrow> vaddr \<Rightarrow> usize run" where
  "get_index_no_check pm v = do { d \<leftarrow> usub v (start_vaddr pm); udiv d PAGE_SIZE }"

definition get_index_check :: "PagesManager \<Rightarrow> vaddr \<Rightarrow> usize option run" where
  "get_index_check pm v =
     (if \<not> is_align v then Some None
      else if v < start_vaddr pm then Some None
      else do {
        d \<leftarrow> usub v (start_vaddr pm);
        q \<leftarrow> udiv d PAGE_SIZE;
        if q \<ge> pm_cap pm then Some None
        else do { i \<leftarrow> get_index_no_check pm v; Some (Some i) }
      })"

text \<open>\<^verbatim>\<open>Weak::upgrade\<close> of what a slot of the table holds.\<close>

definition upgrade :: "(vaddr \<Rightarrow> Page option) \<Rightarrow> vaddr option \<Rightarrow> Page option" where
  "upgrade h slot = Option.bind slot h"

fun in_memory_cnt :: "(vaddr \<Rightarrow> Page option) \<Rightarrow> vaddr option list \<Rightarrow> usize \<Rightarrow> usize run" where
  "in_memory_cnt h [] cnt = Some cnt"
| "in_memory_cnt h (i # is) cnt =
     (case upgrade h i of
        None \<Rightarrow> in_memory_cnt h is cnt
      | Some _ \<Rightarrow> do { c \<leftarrow> uadd cnt 1; in_memory_cnt h is c })"

definition get_in_memory_page_cnt :: "Kern \<Rightarrow> usize run" where
  "get_in_memory_page_cnt k = in_memory_cnt (heap k) (pages (pages_manager k)) 0"

definition get_in_memory_page :: "Kern \<Rightarrow> vaddr \<Rightarrow> Page option run" where
  "get_in_memory_page k v = do {
     r \<leftarrow> get_index_check (pages_manager k) v;
     (case r of
        None \<Rightarrow> Some None
      | Some index \<Rightarrow> do {
          slot \<leftarrow> vec_get (pages (pages_manager k)) index;
          Some (upgrade (heap k) slot)
        })
   }"

section \<open>Pages\<close>

definition Page_new :: "vaddr \<Rightarrow> bool \<Rightarrow> Page" where
  "Page_new v is_leader =
     \<lparr>pg_vaddr = v, default_flag = False, is_leader_flag = is_leader, friends = [],
      leader = Some v, pg_order = 0, pg_pos = 0\<rparr>"

text \<open>
  \<^verbatim>\<open>add_friend\<close> on the page at \<open>ret\<close>.  \<open>get_leader\<close> panics when the leader is gone.
\<close>

definition get_leader :: "(vaddr \<Rightarrow> Page option) \<Rightarrow> Page \<Rightarrow> vaddr run" where
  "get_leader h p = do { l \<leftarrow> leader p; _ \<leftarrow> h l; Some l }"

definition add_friend :: "(vaddr \<Rightarrow> Page option) \<Rightarrow> vaddr \<Rightarrow> vaddr \<Rightarrow> (vaddr \<Rightarrow> Page option) run" where
  "add_friend h ret pg = do {
     p \<leftarrow> h ret;
     l \<leftarrow> get_leader h p;
     f \<leftarrow> h pg;
     Some (h(pg \<mapsto> f\<lparr>leader := Some l\<rparr>, ret \<mapsto> p\<lparr>friends := friends p @ [pg]\<rparr>))
   }"

definition get_block_page_cnt :: "Page \<Rightarrow> usize run" where
  "get_block_page_cnt p = do {
     ret \<leftarrow> uadd (length (friends p)) 1;
     _ \<leftarrow> rassert (if \<not> is_leader_flag p then ret = 1 else True);
     Some ret
   }"

fun new_pages_loop ::
    "usize \<Rightarrow> usize \<Rightarrow> usize list \<Rightarrow> vaddr \<Rightarrow> vaddr \<Rightarrow> PagesManager \<Rightarrow> (vaddr \<Rightarrow> Page option) \<Rightarrow>
     (vaddr \<times> PagesManager \<times> (vaddr \<Rightarrow> Page option)) run" where
  "new_pages_loop index order [] ret vaddr_probe pm h = Some (ret, pm, h)"
| "new_pages_loop index order (i # is) ret vaddr_probe pm h = do {
     slot \<leftarrow> vec_get (pages pm) i;
     (case upgrade h slot of
        Some must_none_pg \<Rightarrow> None
      | None \<Rightarrow> do {
          let new_pg = Page_new vaddr_probe (i = index);
          (ret', h') \<leftarrow>
            (if i = index then Some (vaddr_probe, h(vaddr_probe \<mapsto> new_pg\<lparr>pg_order := order\<rparr>))
             else do { h' \<leftarrow> add_friend (h(vaddr_probe \<mapsto> new_pg)) ret vaddr_probe; Some (ret, h') });
          ps \<leftarrow> vec_set (pages pm) i (Some vaddr_probe);
          next_probe \<leftarrow> uadd vaddr_probe PAGE_SIZE;
          new_pages_loop index order is ret' next_probe (pm\<lparr>pages := ps\<rparr>) h'
        })
   }"

text \<open>The result is the default page at address 0 when the order is too large; no caller does that.\<close>

definition new_pages_block_in_memory :: "Kern \<Rightarrow> vaddr \<Rightarrow> usize \<Rightarrow> (vaddr \<times> Kern) run" where
  "new_pages_block_in_memory k v order = do {
     index \<leftarrow> get_index_no_check (pages_manager k) v;
     let pgs = order2pages order;
     stop \<leftarrow> uadd index pgs;
     (ret, pm, h) \<leftarrow> new_pages_loop index order [index..<stop] 0 v (pages_manager k) (heap k);
     Some (ret, k\<lparr>pages_manager := pm, heap := h\<rparr>)
   }"

definition clear_words :: "usize list \<Rightarrow> (usize \<Rightarrow> u64) \<Rightarrow> usize \<Rightarrow> u64" where
  "clear_words = fold (\<lambda>a m. m(a := 0))"

definition clear_one_page :: "(usize \<Rightarrow> u64) \<Rightarrow> vaddr \<Rightarrow> (usize \<Rightarrow> u64) run" where
  "clear_one_page m s = do {
     e \<leftarrow> uadd s PAGE_SIZE;
     Some (clear_words (filter (\<lambda>x. x mod 8 = 0) [s..<e]) m)
   }"

fun clear_friends :: "vaddr list \<Rightarrow> (usize \<Rightarrow> u64) \<Rightarrow> (usize \<Rightarrow> u64) run" where
  "clear_friends [] m = Some m"
| "clear_friends (v # vs) m = do { m' \<leftarrow> clear_one_page m v; clear_friends vs m' }"

definition clear_pages_block :: "Kern \<Rightarrow> vaddr \<Rightarrow> Kern run" where
  "clear_pages_block k pg = do {
     p \<leftarrow> heap k pg;
     m \<leftarrow> clear_one_page (mem k) (pg_vaddr p);
     m' \<leftarrow> clear_friends (friends p) m;
     Some (k\<lparr>mem := m'\<rparr>)
   }"

section \<open>Allocating and dropping pages\<close>

definition alloc_pages :: "Kern \<Rightarrow> usize \<Rightarrow> (vaddr option \<times> Kern) run" where
  "alloc_pages k order =
     (if order \<ge> MAX_ORDER then Some (None, k)
      else do {
        (area, b) \<leftarrow> alloc_area (buddy_allocator k) order;
        let k = k\<lparr>buddy_allocator := b\<rparr>;
        (case area of
           Inr v \<Rightarrow> do {
             (pgs, k) \<leftarrow> new_pages_block_in_memory k v order;
             k \<leftarrow> clear_pages_block k pgs;
             Some (Some pgs, k)
           }
         | Inl e \<Rightarrow> Some (None, k))
      })"

definition insert_area_for_page_drop :: "Kern \<Rightarrow> vaddr \<Rightarrow> usize \<Rightarrow> ((int + unit) \<times> Kern) run" where
  "insert_area_for_page_drop k v order = do {
     (r, b) \<leftarrow> free_area (buddy_allocator k) v order;
     Some (r, k\<lparr>buddy_allocator := b\<rparr>)
   }"

text \<open>
  The end of the last reference to a page that is not another page's friend: \<^verbatim>\<open>drop\<close> gives the block
  back, and then the page's own references to its friends end.  The friends in \<open>held\<close> have another
  reference somewhere and stay alive.
\<close>

definition page_drop :: "Kern \<Rightarrow> vaddr \<Rightarrow> vaddr set \<Rightarrow> Kern run" where
  "page_drop k pg held = do {
     p \<leftarrow> heap k pg;
     let k = k\<lparr>heap := (heap k)(pg := None)\<rparr>;
     k \<leftarrow> (if \<not> default_flag p \<and> is_leader_flag p
           then do {
             (r, k) \<leftarrow> insert_area_for_page_drop k (pg_vaddr p) (pg_order p);
             (case r of Inr _ \<Rightarrow> Some k | Inl _ \<Rightarrow> None)
           }
           else Some k);
     Some (k\<lparr>heap := (heap k) |` (- (set (friends p) - held))\<rparr>)
   }"

text \<open>
  The part of \<^verbatim>\<open>mm_init\<close> that sets up the two globals, for a kernel that ends at \<open>new_ek\<close> and a memory
  that ends at \<open>emem\<close>.
\<close>

definition mm_init_pages :: "(usize \<Rightarrow> u64) \<Rightarrow> vaddr \<Rightarrow> vaddr \<Rightarrow> Kern run" where
  "mm_init_pages m new_ek emem = do {
     s_addr \<leftarrow> addr_ceil new_ek;
     e_addr \<leftarrow> addr_floor emem;
     b \<leftarrow> ba_init BuddyAllocator_default s_addr e_addr;
     pm \<leftarrow> pm_init PagesManager_default s_addr e_addr;
     Some \<lparr>mem = m, buddy_allocator = b, pages_manager = pm, heap = Map.empty\<rparr>
   }"

section \<open>Seeking in a block\<close>

datatype SeekFrom = Start u64 | End int | Current int

definition checked_add_signed :: "usize \<Rightarrow> int \<Rightarrow> usize option" where
  "checked_add_signed a v =
     (if 0 \<le> int a + v \<and> int a + v < 2 ^ 64 then Some (nat (int a + v)) else None)"

definition page_seek :: "Page \<Rightarrow> SeekFrom \<Rightarrow> ((unit + usize) \<times> Page) run" where
  "page_seek p pos = do {
     c \<leftarrow> uadd (length (friends p)) 1;
     max_pos \<leftarrow> umul c PAGE_SIZE;
     Some (case pos of
        Start v \<Rightarrow> if v \<le> of_nat max_pos then (Inr (unat v), p\<lparr>pg_pos := unat v\<rparr>) else (Inl (), p)
      | End v \<Rightarrow>
          (case checked_add_signed max_pos v of
             None \<Rightarrow> (Inl (), p)
           | Some s \<Rightarrow> if s > max_pos \<or> s < 0 then (Inl (), p) else (Inr s, p\<lparr>pg_pos := s\<rparr>))
      | Current v \<Rightarrow>
          (case checked_add_signed (pg_pos p) v of
             None \<Rightarrow> (Inl (), p)
           | Some s \<Rightarrow> if s > max_pos then (Inl (), p) else (Inr s, p\<lparr>pg_pos := s\<rparr>)))
   }"

end
