(* ===== verification/K_Page_Correct.thy ===== *)
theory K_Page_Correct
  imports K_Page
begin

text \<open>
  Correctness of page allocation: the blocks that pages stand for are exactly the blocks the buddy
  allocator has handed out, so a new block is never found to be in use already, and it is empty.
\<close>

section \<open>Making the page objects of a block\<close>

definition friend_addrs :: "vaddr \<Rightarrow> nat \<Rightarrow> vaddr list" where
  "friend_addrs v j = map (\<lambda>m. v + PAGE_SIZE * m) [1..<j]"

text \<open>The heap and the table after the objects of the first \<open>j\<close> pages of a block have been made.\<close>

definition heap_upd :: "(vaddr \<Rightarrow> Page option) \<Rightarrow> vaddr \<Rightarrow> usize \<Rightarrow> nat \<Rightarrow> vaddr \<Rightarrow> Page option" where
  "heap_upd h v ord j a =
     (if j = 0 then h a
      else if a = v then Some (Page_new v True\<lparr>pg_order := ord, friends := friend_addrs v j\<rparr>)
      else if a \<in> set (friend_addrs v j) then Some (Page_new a False\<lparr>leader := Some v\<rparr>)
      else h a)"

definition slots_upd :: "vaddr option list \<Rightarrow> nat \<Rightarrow> vaddr \<Rightarrow> nat \<Rightarrow> vaddr option list" where
  "slots_upd ps index v j =
     map (\<lambda>i. if index \<le> i \<and> i < index + j then Some (v + PAGE_SIZE * (i - index)) else ps ! i)
       [0..<length ps]"

lemma friend_addrs_Suc [simp]:
  "friend_addrs v 0 = []" "friend_addrs v (Suc 0) = []"
  "0 < j \<Longrightarrow> friend_addrs v (Suc j) = friend_addrs v j @ [v + PAGE_SIZE * j]"
  by (simp_all add: friend_addrs_def)

lemma friend_addrs_set: "set (friend_addrs v j) = {v + PAGE_SIZE * m | m. 1 \<le> m \<and> m < j}"
  by (auto simp: friend_addrs_def)

lemma length_slots_upd [simp]: "length (slots_upd ps index v j) = length ps"
  by (simp add: slots_upd_def)

lemma nth_slots_upd:
  "i < length ps \<Longrightarrow> slots_upd ps index v j ! i =
     (if index \<le> i \<and> i < index + j then Some (v + PAGE_SIZE * (i - index)) else ps ! i)"
  by (simp add: slots_upd_def)

lemma slots_upd_0 [simp]: "slots_upd ps index v 0 = ps"
  by (rule nth_equalityI) (auto simp: nth_slots_upd)

lemma slots_upd_Suc:
  "index + j < length ps \<Longrightarrow>
   (slots_upd ps index v j)[index + j := Some (v + PAGE_SIZE * j)] = slots_upd ps index v (Suc j)"
  by (rule nth_equalityI) (auto simp: nth_slots_upd nth_list_update)

lemma heap_upd_first: "(heap_upd h v ord 0)(v \<mapsto> Page_new v True\<lparr>pg_order := ord\<rparr>) = heap_upd h v ord (Suc 0)"
  by (rule ext) (simp add: heap_upd_def Page_new_def)

lemma heap_upd_next:
  assumes "0 < j"
  shows "add_friend ((heap_upd h v ord j)(v + PAGE_SIZE * j \<mapsto> Page_new (v + PAGE_SIZE * j) False)) v (v + PAGE_SIZE * j)
    = Some (heap_upd h v ord (Suc j))"
proof -
  have ne: "v + PAGE_SIZE * j \<noteq> v" using assms by (simp add: PAGE_SIZE_def)
  show ?thesis
    using assms ne
    by (auto simp: add_friend_def get_leader_def heap_upd_def Page_new_def fun_eq_iff)
qed

lemma new_pages_loop_ok:
  assumes free: "\<And>m. m < c \<Longrightarrow> h (v + PAGE_SIZE * m) = None"
    and slots: "\<And>m. m < c \<Longrightarrow> pages pm ! (index + m) \<in> {None, Some (v + PAGE_SIZE * m)}"
    and bound: "index + c \<le> length (pages pm)" "v + PAGE_SIZE * c < 2 ^ 64"
  shows "j \<le> c \<Longrightarrow> 
    new_pages_loop index ord [index + j..<index + c] (if j = 0 then r else v) (v + PAGE_SIZE * j)
       (pm\<lparr>pages := slots_upd (pages pm) index v j\<rparr>) (heap_upd h v ord j) =
    Some (if c = 0 then r else v, pm\<lparr>pages := slots_upd (pages pm) index v c\<rparr>, heap_upd h v ord c)"
proof (induction "c - j" arbitrary: j)
  case 0
  then show ?case by simp
next
  case (Suc d)
  then have j: "j < c" by simp
  have up: "[index + j..<index + c] = (index + j) # [index + Suc j..<index + c]"
    using j by (simp add: upt_conv_Cons)
  have fresh: "heap_upd h v ord j (v + PAGE_SIZE * j) = None"
    using free[OF j] by (auto simp: heap_upd_def friend_addrs_set PAGE_SIZE_def)
  have "slots_upd (pages pm) index v j ! (index + j) = pages pm ! (index + j)"
    using bound j by (simp add: nth_slots_upd)
  then have none: "upgrade (heap_upd h v ord j) (slots_upd (pages pm) index v j ! (index + j)) = None"
    using slots[OF j] fresh by (auto simp: upgrade_def)
  have get: "index + j < length (pages pm)" using bound j by simp
  have "PAGE_SIZE * j + PAGE_SIZE \<le> PAGE_SIZE * c" using j by (metis Suc_leI mult_Suc_right add.commute mult_le_mono2)
  then have probe: "uadd (v + PAGE_SIZE * j) PAGE_SIZE = Some (v + PAGE_SIZE * Suc j)"
    using bound(2) by (simp add: uadd_def)
  have IH: "new_pages_loop index ord [index + Suc j..<index + c] v (v + PAGE_SIZE * Suc j)
       (pm\<lparr>pages := slots_upd (pages pm) index v (Suc j)\<rparr>) (heap_upd h v ord (Suc j)) =
    Some (if c = 0 then r else v, pm\<lparr>pages := slots_upd (pages pm) index v c\<rparr>, heap_upd h v ord c)"
    using Suc.hyps(1)[of "Suc j"] Suc.hyps(2) j by simp
  show ?case
  proof (cases "j = 0")
    case True
    then show ?thesis
      using none get probe IH j up heap_upd_first[of h v ord] slots_upd_Suc[of index 0 "pages pm" v]
      by (simp add: rust_ops)
  next
    case False
    then show ?thesis
      using none get probe IH heap_upd_next[of j h v ord] slots_upd_Suc[of index j "pages pm" v]
      by (simp add: up rust_ops)
  qed
qed

section \<open>Clearing pages\<close>

lemma clear_words_eq: "clear_words as m a = (if a \<in> set as then 0 else m a)"
  by (induction "as" arbitrary: m) (auto simp: clear_words_def)

lemma clear_one_page_eq:
  assumes "s + PAGE_SIZE < 2 ^ 64"
  shows "clear_one_page m s =
    Some (\<lambda>a. if s \<le> a \<and> a < s + PAGE_SIZE \<and> a mod 8 = 0 then 0 else m a)"
  using assms by (auto simp: clear_one_page_def uadd_def clear_words_eq fun_eq_iff)

lemma clear_friends_eq:
  assumes "\<And>v. v \<in> set vs \<Longrightarrow> v + PAGE_SIZE < 2 ^ 64"
  shows "clear_friends vs m =
    Some (\<lambda>a. if (\<exists>v \<in> set vs. v \<le> a \<and> a < v + PAGE_SIZE) \<and> a mod 8 = 0 then 0 else m a)"
  using assms
  by (induction vs arbitrary: m) (auto simp: clear_one_page_eq fun_eq_iff)

lemma block_addrs:
  assumes "0 < c"
  shows "(v \<le> a \<and> a < v + PAGE_SIZE \<or> (\<exists>w \<in> set (friend_addrs v c). w \<le> a \<and> a < w + PAGE_SIZE)) \<longleftrightarrow>
    v \<le> a \<and> a < v + PAGE_SIZE * c"
proof -
  have "v \<le> a \<and> a < v + PAGE_SIZE * c \<longleftrightarrow> (\<exists>m < c. v + PAGE_SIZE * m \<le> a \<and> a < v + PAGE_SIZE * m + PAGE_SIZE)"
    (is "?L \<longleftrightarrow> ?R")
  proof
    assume L: ?L
    let ?m = "(a - v) div PAGE_SIZE"
    have "?m < c" using L by (simp add: PAGE_SIZE_def div_less_iff_less_mult) linarith
    moreover have "v + PAGE_SIZE * ?m \<le> a \<and> a < v + PAGE_SIZE * ?m + PAGE_SIZE"
      using L by (simp add: PAGE_SIZE_def) linarith
    ultimately show ?R by blast
  next
    assume ?R
    then obtain m where m: "m < c" "v + PAGE_SIZE * m \<le> a" "a < v + PAGE_SIZE * m + PAGE_SIZE" by blast
    have "PAGE_SIZE * m + PAGE_SIZE \<le> PAGE_SIZE * c"
      using m(1) by (metis Suc_leI mult_Suc_right add.commute mult_le_mono2)
    with m show ?L by linarith
  qed
  moreover have "(\<exists>m < c. P m) \<longleftrightarrow> P 0 \<or> (\<exists>m. 1 \<le> m \<and> m < c \<and> P m)" for P
    using assms by (metis One_nat_def Suc_leI gr0I)
  ultimately show ?thesis by (auto simp: friend_addrs_set)
qed

section \<open>Invariant of the page system\<close>

definition blocks :: "Kern \<Rightarrow> (vaddr \<times> usize) set" where
  "blocks k = {(v, pg_order p) | v p. heap k v = Some p \<and> is_leader_flag p}"

definition page_ok :: "(vaddr \<times> usize) set \<Rightarrow> vaddr \<Rightarrow> Page \<Rightarrow> bool" where
  "page_ok B v p \<longleftrightarrow> pg_vaddr p = v \<and> \<not> default_flag p \<and>
     (if is_leader_flag p then friends p = friend_addrs v (2 ^ pg_order p)
      else friends p = [] \<and> (\<exists>(w, ord) \<in> B. v \<in> set (friend_addrs w (2 ^ ord))))"

text \<open>
  The blocks of the leading pages that are alive are those the buddy allocator has handed out, every
  page alive is in one of them, and the table has for each page nothing or a pointer to that page.
\<close>

definition kern_inv :: "vaddr \<Rightarrow> nat \<Rightarrow> Kern \<Rightarrow> bool" where
  "kern_inv s n k \<longleftrightarrow>
     buddy.owned_ok s n {..<n} (buddy_allocator k) (blocks k) \<and>
     start_vaddr (pages_manager k) = s \<and> length (pages (pages_manager k)) = n \<and>
     (\<forall>i < n. pages (pages_manager k) ! i \<in> {None, Some (s + PAGE_SIZE * i)}) \<and>
     (\<forall>v p. heap k v = Some p \<longrightarrow> page_ok (blocks k) v p) \<and>
     (\<forall>(w, ord) \<in> blocks k. \<forall>v \<in> set (friend_addrs w (2 ^ ord)). heap k v \<noteq> None)"

lemma kern_invD:
  assumes "kern_inv s n k"
  shows "buddy.owned_ok s n {..<n} (buddy_allocator k) (blocks k)"
    "start_vaddr (pages_manager k) = s" "length (pages (pages_manager k)) = n"
    "i < n \<Longrightarrow> pages (pages_manager k) ! i \<in> {None, Some (s + PAGE_SIZE * i)}"
    "heap k v = Some p \<Longrightarrow> page_ok (blocks k) v p"
    "(w, ord) \<in> blocks k \<Longrightarrow> v \<in> set (friend_addrs w (2 ^ ord)) \<Longrightarrow> heap k v \<noteq> None"
  using assms unfolding kern_inv_def by (blast | auto)+

lemma blk_valid_page:
  assumes "blk_valid s n v ord" "m < 2 ^ ord"
  shows "blk_of s v ord * 2 ^ ord + m \<in> pages_of s v ord"
    and "v + PAGE_SIZE * m = s + PAGE_SIZE * (blk_of s v ord * 2 ^ ord + m)"
proof -
  show "blk_of s v ord * 2 ^ ord + m \<in> pages_of s v ord"
    using assms(2) by (simp add: pages_of_def blk_pages_iff)
  have "v = s + PAGE_SIZE * (blk_of s v ord * 2 ^ ord)"
    using assms(1) unfolding blk_valid_def by (simp add: blk_def algebra_simps)
  then show "v + PAGE_SIZE * m = s + PAGE_SIZE * (blk_of s v ord * 2 ^ ord + m)"
    by (simp add: algebra_simps)
qed

lemma live_page:
  assumes "kern_inv s n k" "heap k v = Some p"
  obtains w ord i where "(w, ord) \<in> blocks k" "i \<in> pages_of s w ord" "v = s + PAGE_SIZE * i"
proof -
  obtain w ord m where w: "(w, ord) \<in> blocks k" "m < 2 ^ ord" "v = w + PAGE_SIZE * m"
  proof (cases "is_leader_flag p")
    case True
    then have "(v, pg_order p) \<in> blocks k" using assms(2) by (auto simp: blocks_def)
    then show ?thesis by (intro that[of v "pg_order p" 0]) auto
  next
    case False
    then obtain w ord where "(w, ord) \<in> blocks k" "v \<in> set (friend_addrs w (2 ^ ord))"
      using kern_invD(5)[OF assms] by (auto simp: page_ok_def)
    then show ?thesis using that by (auto simp: friend_addrs_set)
  qed
  have "blk_valid s n w ord" using buddy.ownedD(2)[OF kern_invD(1)[OF assms(1)] w(1)] by simp
  from blk_valid_page[OF this w(2)] w show ?thesis by (intro that) auto
qed

lemma free_not_live:
  assumes "kern_inv s n k" "i \<in> free_set (buddy_allocator k)"
  shows "heap k (s + PAGE_SIZE * i) = None"
proof (rule ccontr)
  assume "heap k (s + PAGE_SIZE * i) \<noteq> None"
  then obtain p where "heap k (s + PAGE_SIZE * i) = Some p" by auto
  then obtain w ord j where w: "(w, ord) \<in> blocks k" "j \<in> pages_of s w ord"
    "s + PAGE_SIZE * i = s + PAGE_SIZE * j" by (rule live_page[OF assms(1)])
  then have "j = i" by (simp add: PAGE_SIZE_def)
  then show False
    using buddy.ownedD(4)[OF kern_invD(1)[OF assms(1)] w(1)] w(2) assms(2) by auto
qed

lemma new_pages_block_ok:
  assumes inv: "kern_inv s n k" and v: "blk_valid s n v ord"
    and free: "pages_of s v ord \<subseteq> free_set (buddy_allocator k)"
  shows "new_pages_block_in_memory (k\<lparr>buddy_allocator := b\<rparr>) v ord =
    Some (v, k\<lparr>buddy_allocator := b,
      pages_manager := (pages_manager k)\<lparr>pages :=
        slots_upd (pages (pages_manager k)) (blk_of s v ord * 2 ^ ord) v (2 ^ ord)\<rparr>,
      heap := heap_upd (heap k) v ord (2 ^ ord)\<rparr>)"
proof -
  define i where "i = blk_of s v ord * 2 ^ ord"
  let ?c = "2 ^ ord :: nat"
  note D = kern_invD[OF inv] and B = blk_valid_page[OF v, folded i_def]
  have ord: "ord < MAX_ORDER" and le: "i + ?c \<le> n"
    using v by (auto simp: blk_valid_def i_def algebra_simps)
  have mem: "s + PAGE_SIZE * n < 2 ^ 64" using buddy.ownedD(1)[OF D(1)] by (simp add: mem_ok_def)
  have v0: "v = s + PAGE_SIZE * i" using B(2)[of 0] by simp
  have "n \<le> PAGE_SIZE * n" by (simp add: PAGE_SIZE_def)
  then have n64: "i + ?c < 2 ^ 64" using le mem by linarith
  have "PAGE_SIZE * (i + ?c) \<le> PAGE_SIZE * n" using le by (rule mult_le_mono2)
  then have vb: "v + PAGE_SIZE * ?c < 2 ^ 64" using mem v0 by (simp add: distrib_left)
  have fr: "heap k (v + PAGE_SIZE * m) = None" if "m < ?c" for m
    using free_not_live[OF inv, of "i + m"] B[OF that] free by auto
  have sl: "pages (pages_manager k) ! (i + m) \<in> {None, Some (v + PAGE_SIZE * m)}" if "m < ?c" for m
    using D(4)[of "i + m"] le that B(2)[OF that] by simp
  have "get_index_no_check (pages_manager k) v = Some i"
    using D(2) v0 by (simp add: get_index_no_check_def usub_def udiv_def PAGE_SIZE_def)
  moreover have "order2pages ord = ?c" using ord by (simp add: order2pages_pos)
  moreover have "uadd i ?c = Some (i + ?c)" using n64 by (rule uadd_ok)
  moreover have "new_pages_loop i ord [i..<i + ?c] 0 v (pages_manager k) (heap k) =
      Some (v, (pages_manager k)\<lparr>pages := slots_upd (pages (pages_manager k)) i v ?c\<rparr>,
        heap_upd (heap k) v ord ?c)"
    using new_pages_loop_ok[where h = "heap k" and pm = "pages_manager k" and index = "i" and
        c = "?c" and v = v and j = 0 and r = 0 and ord = ord, OF fr sl] le vb D(3)
    by (simp add: heap_upd_def[of _ _ _ 0, abs_def])
  ultimately show ?thesis unfolding i_def[symmetric] by (simp add: new_pages_block_in_memory_def)
qed

lemma blocks_heap_upd:
  assumes "\<And>m. m < c \<Longrightarrow> h (v + PAGE_SIZE * m) = None" "0 < c"
    and k: "heap k = h" "heap k' = heap_upd h v ord c"
  shows "blocks k' = insert (v, ord) (blocks k)"
proof -
  have "h v = None" using assms(1)[of 0] assms(2) by simp
  moreover have "h a = None" if "a \<in> set (friend_addrs v c)" for a
    using that assms(1) by (auto simp: friend_addrs_set)
  ultimately show ?thesis
    using assms(2) unfolding blocks_def k by (auto simp: heap_upd_def Page_new_def split: if_splits)
qed

definition block_words :: "vaddr \<Rightarrow> usize \<Rightarrow> usize set" where
  "block_words v ord = {a. v \<le> a \<and> a < v + PAGE_SIZE * 2 ^ ord \<and> a mod 8 = 0}"

lemma clear_block_ok:
  assumes "heap k v = Some p" "pg_vaddr p = v" "friends p = friend_addrs v (2 ^ ord)"
    and "v + PAGE_SIZE * 2 ^ ord < 2 ^ 64"
  shows "clear_pages_block k v = Some (k\<lparr>mem := \<lambda>a. if a \<in> block_words v ord then 0 else mem k a\<rparr>)"
proof -
  let ?c = "2 ^ ord :: nat"
  have b: "v + PAGE_SIZE * m + PAGE_SIZE < 2 ^ 64" if "m < ?c" for m
  proof -
    have "PAGE_SIZE * m + PAGE_SIZE \<le> PAGE_SIZE * ?c"
      using that by (metis Suc_leI mult_Suc_right add.commute mult_le_mono2)
    then show ?thesis using assms(4) by linarith
  qed
  have "clear_one_page (mem k) v =
      Some (\<lambda>a. if v \<le> a \<and> a < v + PAGE_SIZE \<and> a mod 8 = 0 then 0 else mem k a)"
    using b[of 0] by (intro clear_one_page_eq) simp
  moreover have "w + PAGE_SIZE < 2 ^ 64" if "w \<in> set (friend_addrs v ?c)" for w
    using that b by (auto simp: friend_addrs_set)
  note clear_friends_eq[OF this]
  moreover have "(if (\<exists>w \<in> set (friend_addrs v ?c). w \<le> a \<and> a < w + PAGE_SIZE) \<and> a mod 8 = 0 then 0
      else if v \<le> a \<and> a < v + PAGE_SIZE \<and> a mod 8 = 0 then 0 else mem k a) =
      (if a \<in> block_words v ord then 0 else mem k a)" for a
    using block_addrs[of ?c v a] by (auto simp: block_words_def)
  ultimately show ?thesis
    using assms(1-3) by (simp add: clear_pages_block_def)
qed

text \<open>What a successful allocation does to the kernel's state.\<close>

lemma alloc_pages_some:
  assumes inv: "kern_inv s n k" and al: "alloc_area (buddy_allocator k) ord = Some (Inr v, b)"
    and ord: "ord < MAX_ORDER"
  shows "\<exists>k'. alloc_pages k ord = Some (Some v, k') \<and> kern_inv s n k' \<and> buddy_allocator k' = b \<and>
    blocks k' = insert (v, ord) (blocks k) \<and> (v, ord) \<notin> blocks k \<and>
    mem k' = (\<lambda>a. if a \<in> block_words v ord then 0 else mem k a)"
proof -
  let ?c = "2 ^ ord :: nat"
  note D = kern_invD[OF inv]
  from buddy.take_ok[OF buddy.ownedD(1)[OF D(1)], of ord] al
  have v: "blk_valid s n v ord" "pages_of s v ord \<subseteq> free_set (buddy_allocator k)" by auto
  have own: "buddy.owned_ok s n {..<n} b (insert (v, ord) (blocks k))" "(v, ord) \<notin> blocks k"
    using buddy.take_owned[OF D(1) al] by auto
  let ?pm = "(pages_manager k)\<lparr>pages := slots_upd (pages (pages_manager k)) (blk_of s v ord * 2 ^ ord) v ?c\<rparr>"
  let ?m = "\<lambda>a. if a \<in> block_words v ord then 0 else mem k a"
  let ?k1 = "k\<lparr>buddy_allocator := b, pages_manager := ?pm, heap := heap_upd (heap k) v ord ?c\<rparr>"
  let ?k' = "?k1\<lparr>mem := ?m\<rparr>"
  have new: "new_pages_block_in_memory (k\<lparr>buddy_allocator := b\<rparr>) v ord = Some (v, ?k1)"
    using new_pages_block_ok[OF inv v] by simp
  have none: "heap k (v + PAGE_SIZE * m) = None" if "m < ?c" for m
    using free_not_live[OF inv] blk_valid_page[OF v(1) that] v(2) by (metis subsetD)
  have bl: "blocks ?k' = insert (v, ord) (blocks k)"
    by (rule blocks_heap_upd[where h = "heap k" and v = v and c = ?c]) (auto intro: none)
  have mem: "s + PAGE_SIZE * n < 2 ^ 64" using buddy.ownedD(1)[OF D(1)] by (simp add: mem_ok_def)
  have le: "blk_of s v ord * ?c + ?c \<le> n" using v(1) by (simp add: blk_valid_def algebra_simps)
  have "v + PAGE_SIZE * ?c \<le> s + PAGE_SIZE * n"
  proof -
    have "PAGE_SIZE * (blk_of s v ord * ?c + ?c) \<le> PAGE_SIZE * n" using le by (rule mult_le_mono2)
    then show ?thesis using blk_valid_page(2)[OF v(1), of 0] by (simp add: distrib_left)
  qed
  then have "clear_pages_block ?k1 v = Some ?k'"
    using mem by (subst clear_block_ok) (auto simp: heap_upd_def Page_new_def cong: if_cong)
  then have run: "alloc_pages k ord = Some (Some v, ?k')"
    using ord al new by (simp add: alloc_pages_def)
  have "kern_inv s n ?k'"
    unfolding kern_inv_def
  proof (intro conjI allI impI)
    show "buddy.owned_ok s n {..<n} (buddy_allocator ?k') (blocks ?k')"
      using own(1) unfolding bl by simp
    show "pages (pages_manager ?k') ! i \<in> {None, Some (s + PAGE_SIZE * i)}" if "i < n" for i
      using D(3) D(4)[OF that] that blk_valid_page(2)[OF v(1), of "i - blk_of s v ord * ?c"]
      by (auto simp: nth_slots_upd)
    show "page_ok (blocks ?k') a p" if "heap ?k' a = Some p" for a p
      using that D(5)[of a p] unfolding bl
      by (auto simp: page_ok_def heap_upd_def Page_new_def split: if_splits)
    show "\<forall>(w, ord') \<in> blocks ?k'. \<forall>a \<in> set (friend_addrs w (2 ^ ord')). heap ?k' a \<noteq> None"
      using D(6) unfolding bl by (auto simp: heap_upd_def split: if_splits)
  qed (use D(2,3) in simp_all)
  with run bl own(2) show ?thesis by auto
qed

lemma alloc_pages_none:
  assumes "kern_inv s n k" "ord < MAX_ORDER \<Longrightarrow> alloc_area (buddy_allocator k) ord = Some (Inl e, b)"
  shows "alloc_pages k ord = Some (None, k)"
  using assms buddy.take_fails_owned[OF kern_invD(1)[OF assms(1)], of ord e b]
  by (auto simp: alloc_pages_def)

section \<open>Dropping a block\<close>

lemma blocks_disjoint:
  assumes inv: "kern_inv s n k" and w: "(w, ord) \<in> blocks k" "m < 2 ^ ord"
    and w': "(w', ord') \<in> blocks k" "m' < 2 ^ ord'" and eq: "w + PAGE_SIZE * m = w' + PAGE_SIZE * m'"
  shows "(w, ord) = (w', ord')"
proof (rule ccontr)
  assume ne: "(w, ord) \<noteq> (w', ord')"
  note O = buddy.ownedD[OF kern_invD(1)[OF inv]]
  have "blk_valid s n w ord" "blk_valid s n w' ord'" using O(2) w(1) w'(1) by auto
  note a = blk_valid_page[OF this(1) w(2)] and b = blk_valid_page[OF this(2) w'(2)]
  have "blk_of s w ord * 2 ^ ord + m = blk_of s w' ord' * 2 ^ ord' + m'"
    using eq a(2) b(2) by (simp add: PAGE_SIZE_def)
  then show False using O(3)[OF w(1) w'(1) ne] a(1) b(1) by auto
qed

lemma blocks_disjoint_friend:
  assumes "kern_inv s n k" "(w, ord) \<in> blocks k" "(w', ord') \<in> blocks k"
    and "a = w \<or> a \<in> set (friend_addrs w (2 ^ ord))" "a = w' \<or> a \<in> set (friend_addrs w' (2 ^ ord'))"
  shows "w = w' \<and> ord = ord'"
proof -
  have "\<exists>m < 2 ^ ord. a = w + PAGE_SIZE * m" if "a = w \<or> a \<in> set (friend_addrs w (2 ^ ord))" for w ord
    using that by (auto simp: friend_addrs_set intro: exI[of _ 0])
  from this[OF assms(4)] this[OF assms(5)] blocks_disjoint[OF assms(1,2) _ assms(3)] show ?thesis
    by auto
qed

lemma page_drop_ok:
  assumes inv: "kern_inv s n k" and v: "(v, ord) \<in> blocks k"
  shows "\<exists>k'. page_drop k v {} = Some k' \<and> kern_inv s n k' \<and> mem k' = mem k \<and>
    blocks k' = blocks k - {(v, ord)} \<and>
    free_area (buddy_allocator k) v ord = Some (Inr (), buddy_allocator k')"
proof -
  note D = kern_invD[OF inv] and dj = blocks_disjoint_friend[OF inv]
  obtain p where p: "heap k v = Some p" "is_leader_flag p" "pg_order p = ord"
    using v by (auto simp: blocks_def)
  have ok: "pg_vaddr p = v" "\<not> default_flag p" "friends p = friend_addrs v (2 ^ ord)"
    using D(5)[OF p(1)] p by (auto simp: page_ok_def)
  obtain b where b: "free_area (buddy_allocator k) v ord = Some (Inr (), b)"
    "buddy.owned_ok s n {..<n} b (blocks k - {(v, ord)})"
    using buddy.put_owned[OF D(1) v] by blast
  let ?F = "set (friend_addrs v (2 ^ ord))"
  define k' where "k' = k\<lparr>heap := ((heap k)(v := None)) |` (- ?F), buddy_allocator := b\<rparr>"
  have run: "page_drop k v {} = Some k'"
    using p ok b(1) by (simp add: page_drop_def insert_area_for_page_drop_def k'_def)
  have hp: "heap k' a = Some q \<longleftrightarrow> heap k a = Some q \<and> a \<noteq> v \<and> a \<notin> ?F" for a q
    by (auto simp: k'_def restrict_map_def)
  have "(a, pg_order q) = (v, ord)" if "heap k a = Some q" "is_leader_flag q" "a = v \<or> a \<in> ?F" for a q
    using dj[OF v, of a "pg_order q" a] that by (auto simp: blocks_def)
  then have bl: "blocks k' = blocks k - {(v, ord)}"
    unfolding blocks_def hp using p by auto
  have "kern_inv s n k'"
    unfolding kern_inv_def
  proof (intro conjI allI impI)
    show "buddy.owned_ok s n {..<n} (buddy_allocator k') (blocks k')"
      using b(2) unfolding bl by (simp add: k'_def)
    show "page_ok (blocks k') a q" if "heap k' a = Some q" for a q
      using D(5)[of a q] that unfolding hp bl by (auto simp: page_ok_def split: if_splits)
    have "heap k' a \<noteq> None" if "(w, ord') \<in> blocks k'" "a \<in> set (friend_addrs w (2 ^ ord'))" for w ord' a
    proof -
      have w: "(w, ord') \<in> blocks k" "(w, ord') \<noteq> (v, ord)" using that(1) bl by auto
      then have "\<not> (a = v \<or> a \<in> ?F)" using dj[OF v w(1), of a] that(2) by auto
      with D(6)[OF w(1) that(2)] show ?thesis by (auto simp: k'_def restrict_map_def)
    qed
    then show "\<forall>(w, ord') \<in> blocks k'. \<forall>a \<in> set (friend_addrs w (2 ^ ord')). heap k' a \<noteq> None" by blast
  qed (use D(2-4) in \<open>simp_all add: k'_def\<close>)
  with run bl b(1) show ?thesis by (auto simp: k'_def)
qed

section \<open>Initialisation and sequences of calls\<close>

lemma aligned_rounding:
  assumes "PAGE_SIZE dvd a" "a + PAGE_SIZE < 2 ^ 64"
  shows "addr_ceil a = Some a" "addr_floor a = Some a"
  using assms by (auto simp: ceil_eq floor_eq is_align_def)

lemma mm_init_pages_ok:
  assumes ceil: "addr_ceil sv = Some s" and flr: "addr_floor ev = Some e" and "s < e"
    and e: "e + PAGE_SIZE * 1024 < 2 ^ 64"
  shows "\<exists>k. mm_init_pages m sv ev = Some k \<and> kern_inv s ((e - s) div PAGE_SIZE) k \<and>
    blocks k = {} \<and> mem k = m"
proof -
  let ?n = "(e - s) div PAGE_SIZE"
  have r: "addr_ceil s = Some s" "addr_floor e = Some e"
    using align_multiple(1)[OF ceil] align_multiple(2)[OF flr] assms(3) e
    by (auto intro!: aligned_rounding simp: PAGE_SIZE_def)
  obtain b where b: "ba_new s e = Some b" "ba_inv s ?n b" "free_set b = {..<?n}"
    using ba_new_ok[OF r assms(3,4)] by blast
  have pm: "pm_init PagesManager_default s e =
      Some \<lparr>start_vaddr = s, pages = replicate ?n None\<rparr>"
    using r assms(3) by (simp add: pm_init_def PagesManager_default_def usub_def udiv_def
        PAGE_SIZE_def vec_resize_def)
  let ?k = "\<lparr>mem = m, buddy_allocator = b,
    pages_manager = \<lparr>start_vaddr = s, pages = replicate ?n None\<rparr>, heap = Map.empty\<rparr>"
  have run: "mm_init_pages m sv ev = Some ?k"
    using ceil flr b(1) pm by (simp add: mm_init_pages_def ba_new_def)
  have bl: "blocks ?k = {}" by (simp add: blocks_def)
  have "PAGE_SIZE * ?n \<le> e - s" by simp
  then have "mem_ok s ?n" unfolding mem_ok_def using assms(3) e by linarith
  then have "kern_inv s ?n ?k" unfolding kern_inv_def bl buddy.owned_ok_def using b by simp
  with run bl show ?thesis by auto
qed

inductive page_step :: "Kern \<Rightarrow> Kern \<Rightarrow> bool" where
  step_alloc_pages: "alloc_pages k ord = Some (r, k') \<Longrightarrow> page_step k k'"
| step_page_drop: "(v, ord) \<in> blocks k \<Longrightarrow> page_drop k v {} = Some k' \<Longrightarrow> page_step k k'"
| step_memory: "page_step k (k\<lparr>mem := m\<rparr>)"

inductive_cases page_stepE: "page_step k k'"

lemma alloc_pages_cases:
  assumes "kern_inv s n k"
  obtains "alloc_pages k ord = Some (None, k)"
  | v k' where "alloc_pages k ord = Some (Some v, k')" "ord < MAX_ORDER" "kern_inv s n k'"
      "blocks k' = insert (v, ord) (blocks k)" "(v, ord) \<notin> blocks k"
      "mem k' = (\<lambda>a. if a \<in> block_words v ord then 0 else mem k a)"
      "alloc_area (buddy_allocator k) ord = Some (Inr v, buddy_allocator k')"
proof (cases "ord < MAX_ORDER")
  case False
  then show ?thesis using that(1) by (simp add: alloc_pages_def)
next
  case True
  obtain r b where al: "alloc_area (buddy_allocator k) ord = Some (r, b)"
    using buddy.take_ok[OF buddy.ownedD(1)[OF kern_invD(1)[OF assms]], of ord] by blast
  show ?thesis
  proof (cases r)
    case (Inl e)
    then show ?thesis using that(1) alloc_pages_none[OF assms, of ord e b] al by simp
  next
    case (Inr v)
    with alloc_pages_some[OF assms _ True, of v b] al that(2) True show ?thesis by blast
  qed
qed

lemma kern_inv_mem [simp]: "kern_inv s n (k\<lparr>mem := m\<rparr>) = kern_inv s n k"
  by (simp add: kern_inv_def blocks_def)

lemma page_step_inv:
  assumes "page_step k k'" "kern_inv s n k"
  shows "kern_inv s n k'"
  using assms(1)
proof (rule page_stepE)
  fix ord r assume "alloc_pages k ord = Some (r, k')"
  then show ?thesis using alloc_pages_cases[OF assms(2), of ord] assms(2) by auto
next
  fix v ord assume "(v, ord) \<in> blocks k" "page_drop k v {} = Some k'"
  then show ?thesis using page_drop_ok[OF assms(2)] by fastforce
qed (use assms(2) in simp)

lemma page_reach_inv: "page_step\<^sup>*\<^sup>* k k' \<Longrightarrow> kern_inv s n k \<Longrightarrow> kern_inv s n k'"
  by (induction rule: rtranclp_induct) (auto intro: page_step_inv)

section \<open>Properties\<close>

text \<open>
  C7: page allocation.  From the state \<^verbatim>\<open>mm_init\<close> sets up, after any sequence of allocations,
  drops of blocks and stores to memory, allocating pages never panics (in particular a new block is
  never found in memory already); a block that is returned overlaps no block in use, is filled with
  zeros, and leaves the rest of the memory and the other blocks alone; and dropping any block in use
  returns it without panic.
\<close>

theorem page_allocation_safe:
  assumes "addr_ceil sv = Some s" "addr_floor ev = Some e" "s < e" "e + PAGE_SIZE * 1024 < 2 ^ 64"
    and "mm_init_pages m sv ev = Some k0" and reach: "page_step\<^sup>*\<^sup>* k0 k"
  shows "(case alloc_pages k ord of
        None \<Rightarrow> False
      | Some (None, k') \<Rightarrow> k' = k
      | Some (Some v, k') \<Rightarrow> blocks k' = insert (v, ord) (blocks k) \<and>
          (\<forall>(w, ord') \<in> blocks k. block_words v ord \<inter> block_words w ord' = {}) \<and>
          mem k' = (\<lambda>a. if a \<in> block_words v ord then 0 else mem k a)) \<and>
    (\<forall>(v, ord) \<in> blocks k. \<exists>k'. page_drop k v {} = Some k' \<and> mem k' = mem k \<and>
        blocks k' = blocks k - {(v, ord)})"
proof -
  have inv: "kern_inv s ((e - s) div PAGE_SIZE) k"
    using mm_init_pages_ok[OF assms(1-4), of m] assms(5) page_reach_inv[OF reach] by auto
  have "case alloc_pages k ord of
        None \<Rightarrow> False
      | Some (None, k') \<Rightarrow> k' = k
      | Some (Some v, k') \<Rightarrow> blocks k' = insert (v, ord) (blocks k) \<and>
          (\<forall>(w, ord') \<in> blocks k. block_words v ord \<inter> block_words w ord' = {}) \<and>
          mem k' = (\<lambda>a. if a \<in> block_words v ord then 0 else mem k a)"
  proof (rule alloc_pages_cases[OF inv, of ord])
    fix v k' assume v: "alloc_pages k ord = Some (Some v, k')"
      "kern_inv s ((e - s) div PAGE_SIZE) k'"
      "blocks k' = insert (v, ord) (blocks k)" "(v, ord) \<notin> blocks k"
      "mem k' = (\<lambda>a. if a \<in> block_words v ord then 0 else mem k a)"
    have "block_words v ord \<inter> block_words w ord' = {}" if w: "(w, ord') \<in> blocks k" for w ord'
    proof -
      note O = buddy.ownedD[OF kern_invD(1)[OF v(2)]]
      have "(v, ord) \<in> blocks k'" "(w, ord') \<in> blocks k'" "(v, ord) \<noteq> (w, ord')" using v(3,4) w by auto
      then have "{v..<v + PAGE_SIZE * 2 ^ ord} \<inter> {w..<w + PAGE_SIZE * 2 ^ ord'} = {}"
        using O(2)[of "(v, ord)"] O(2)[of "(w, ord')"] O(3)[of "(v, ord)" "(w, ord')"]
        by (intro valid_disjoint) auto
      moreover have "block_words a i \<subseteq> {a..<a + PAGE_SIZE * 2 ^ i}" for a i
        by (auto simp: block_words_def)
      ultimately show ?thesis by blast
    qed
    then show ?thesis using v(1,3,5) by auto
  qed simp
  moreover have "\<exists>k'. page_drop k v {} = Some k' \<and> mem k' = mem k \<and> blocks k' = blocks k - {(v, ord)}"
    if "(v, ord) \<in> blocks k" for v ord using page_drop_ok[OF inv that] by blast
  ultimately show ?thesis by blast
qed

theorem page_allocation_safe_witness:
  "\<exists>k0 r k. mm_init_pages (\<lambda>_. 7) 0x80001234 0x80800010 = Some k0 \<and> alloc_pages k0 3 = Some (r, k) \<and>
     alloc_pages k 0 \<noteq> None"
proof -
  have s: "(0x80002000 :: nat) < 0x80800000" "0x80800000 + PAGE_SIZE * 1024 < 2 ^ 64"
    by (simp_all add: PAGE_SIZE_def)
  obtain k0 where k0: "mm_init_pages (\<lambda>_. 7) 0x80001234 0x80800010 = Some k0"
    using mm_init_pages_ok[OF sample_memory s] by blast
  note safe = page_allocation_safe[OF sample_memory s k0]
  have "alloc_pages k0 3 \<noteq> None" using safe[of k0 3] by (auto split: option.splits)
  then obtain r k where k: "alloc_pages k0 3 = Some (r, k)" by auto
  then have "page_step\<^sup>*\<^sup>* k0 k" by (blast intro: step_alloc_pages)
  from safe[OF this, of 0] have "alloc_pages k 0 \<noteq> None" by (auto split: option.splits)
  with k0 k show ?thesis by blast
qed

end
