(* ===== verification/K_PageTable.thy ===== *)
theory K_PageTable
  imports K_Page_Correct
begin

text \<open>
  \<^verbatim>\<open>kernel/src/mm/pagetable.rs\<close>: Sv39 page tables of three levels.  A page table holds the pages it
  owns, of which the first is the root; the entries are words of the kernel's memory, at the addresses
  at which the kernel sees its tables.  Every operation takes and returns the table and the kernel's
  state, because a walk may allocate tables.  Flushing the translation buffer has no effect here.
\<close>

unbundle bit_operations_syntax

section \<open>Entries\<close>

record PTE =
  pte_flags :: u8
  pnn0 :: u16
  pnn1 :: u16
  pnn2 :: u16

definition PTE_V :: u8 where "PTE_V = push_bit 0 1"
definition PTE_R :: u8 where "PTE_R = push_bit 1 1"
definition PTE_W :: u8 where "PTE_W = push_bit 2 1"
definition PTE_X :: u8 where "PTE_X = push_bit 3 1"
definition PTE_U :: u8 where "PTE_U = push_bit 4 1"

definition pte_into :: "PTE \<Rightarrow> u64" where
  "pte_into p = 0 OR ucast (pte_flags p) OR push_bit 10 (ucast (pnn0 p)) OR push_bit 19 (ucast (pnn1 p))
     OR push_bit 28 (ucast (pnn2 p))"

definition pte_from :: "u64 \<Rightarrow> PTE" where
  "pte_from v =
     \<lparr>pte_flags = ucast v,
      pnn0 = ucast (drop_bit 10 v AND 0x1FF),
      pnn1 = ucast (drop_bit 19 v AND 0x1FF),
      pnn2 = ucast (drop_bit 28 v AND 0x1FF)\<rparr>"

definition PTE_default :: PTE where
  "PTE_default = \<lparr>pte_flags = 0, pnn0 = 0, pnn1 = 0, pnn2 = 0\<rparr>"

definition set_flags :: "PTE \<Rightarrow> u8 \<Rightarrow> PTE" where
  "set_flags p flag_mask = p\<lparr>pte_flags := pte_flags p OR flag_mask\<rparr>"

definition clear_flags :: "PTE \<Rightarrow> u8 \<Rightarrow> PTE" where
  "clear_flags p flag_mask = p\<lparr>pte_flags := pte_flags p AND (flag_mask XOR 0xFF)\<rparr>"

definition clear_all_flags :: "PTE \<Rightarrow> PTE" where
  "clear_all_flags p = p\<lparr>pte_flags := 0\<rparr>"

definition get_bits :: "PTE \<Rightarrow> u8 \<Rightarrow> bool" where
  "get_bits p flag_mask \<longleftrightarrow> pte_flags p AND flag_mask \<noteq> 0"

definition vaild :: "PTE \<Rightarrow> bool" where
  "vaild p \<longleftrightarrow> get_bits p PTE_V"

definition is_leaf :: "PTE \<Rightarrow> bool" where
  "is_leaf p \<longleftrightarrow> \<not> (get_bits p PTE_R = False \<and> get_bits p PTE_W = False \<and> get_bits p PTE_X = False)"

definition is_not_leaf :: "PTE \<Rightarrow> bool" where
  "is_not_leaf p \<longleftrightarrow> \<not> is_leaf p"

definition set_ppn_by_paddr :: "PTE \<Rightarrow> usize \<Rightarrow> PTE" where
  "set_ppn_by_paddr p paddr = (let np = drop_bit 12 (of_nat paddr :: u64) in
     p\<lparr>pnn0 := ucast (np AND 0x1FF),
       pnn1 := ucast (drop_bit 9 np AND 0x1FF),
       pnn2 := ucast (drop_bit 18 np AND 0x1FF)\<rparr>)"

definition get_point_paddr :: "PTE \<Rightarrow> usize" where
  "get_point_paddr p = unat (push_bit 12
     (ucast (pnn0 p) OR push_bit 9 (ucast (pnn1 p)) OR push_bit 18 (ucast (pnn2 p)) :: u64))"

section \<open>Walking\<close>

record PageTable =
  private_pgs :: "vaddr list"

record WalkRet =
  level :: usize
  pte_addr :: usize

definition WalkRetLevelRoot :: usize where "WalkRetLevelRoot = 0"
definition WalkRetLevelMiddle :: usize where "WalkRetLevelMiddle = 1"
definition WalkRetLevelLeaf :: usize where "WalkRetLevelLeaf = 2"

definition get_usize_by_addr :: "Kern \<Rightarrow> usize \<Rightarrow> u64" where
  "get_usize_by_addr k a = mem k a"

definition set_usize_by_addr :: "Kern \<Rightarrow> usize \<Rightarrow> u64 \<Rightarrow> Kern" where
  "set_usize_by_addr k a v = k\<lparr>mem := (mem k)(a := v)\<rparr>"

definition get_pte :: "Kern \<Rightarrow> WalkRet \<Rightarrow> PTE" where
  "get_pte k r = pte_from (get_usize_by_addr k (pte_addr r))"

definition get_root_page_vaddr :: "PageTable \<Rightarrow> vaddr run" where
  "get_root_page_vaddr pt = vec_get (private_pgs pt) 0"

definition push_page :: "PageTable \<Rightarrow> vaddr \<Rightarrow> PageTable" where
  "push_page pt v = pt\<lparr>private_pgs := private_pgs pt @ [v]\<rparr>"

text \<open>\<^verbatim>\<open>alloc_pages(0).unwrap()\<close>.\<close>

definition alloc_table :: "Kern \<Rightarrow> (vaddr \<times> Kern) run" where
  "alloc_table k = do { (pg, k) \<leftarrow> alloc_pages k 0; v \<leftarrow> pg; Some (v, k) }"

definition PageTable_default :: "Kern \<Rightarrow> (PageTable \<times> Kern) run" where
  "PageTable_default k = do { (v, k) \<leftarrow> alloc_table k; Some (\<lparr>private_pgs = [v]\<rparr>, k) }"

fun walk_loop :: "bool \<Rightarrow> (usize \<times> usize) list \<Rightarrow> vaddr \<Rightarrow> PageTable \<Rightarrow> Kern \<Rightarrow>
    (WalkRet option \<times> PageTable \<times> Kern) run" where
  "walk_loop alloc [] pgv pt k = Some (None, pt, k)"
| "walk_loop alloc ((i, index) # is) pgv pt k = do {
     off \<leftarrow> umul index 8;
     entry_addr \<leftarrow> uadd pgv off;
     let pte = pte_from (get_usize_by_addr k entry_addr);
     if is_leaf pte then Some (Some \<lparr>level = i, pte_addr = entry_addr\<rparr>, pt, k)
     else if i = 2 then Some (Some \<lparr>level = 2, pte_addr = entry_addr\<rparr>, pt, k)
     else if vaild pte then do {
       v \<leftarrow> paddr_into_vaddr (get_point_paddr pte);
       walk_loop alloc is v pt (set_usize_by_addr k entry_addr (pte_into pte))
     }
     else if alloc then do {
       (allocated_page_vaddr, k) \<leftarrow> alloc_table k;
       let pt = push_page pt allocated_page_vaddr;
       paddr \<leftarrow> usub allocated_page_vaddr PHY_MEM_OFFSET;
       let pte = set_ppn_by_paddr pte paddr;
       let pte = clear_all_flags pte;
       let pte = set_flags pte PTE_V;
       walk_loop alloc is allocated_page_vaddr pt (set_usize_by_addr k entry_addr (pte_into pte))
     }
     else Some (None, pt, k)
   }"

definition ppn_arr :: "usize \<Rightarrow> (usize \<times> usize) list" where
  "ppn_arr vaddr = [(0, addr_get_ppn2 vaddr), (1, addr_get_ppn1 vaddr), (2, addr_get_ppn0 vaddr)]"

definition walk_common :: "PageTable \<Rightarrow> Kern \<Rightarrow> usize \<Rightarrow> bool \<Rightarrow> (WalkRet option \<times> PageTable \<times> Kern) run" where
  "walk_common pt k vaddr alloc = do {
     pgv \<leftarrow> get_root_page_vaddr pt;
     walk_loop alloc (ppn_arr vaddr) pgv pt k
   }"

definition walk :: "PageTable \<Rightarrow> Kern \<Rightarrow> usize \<Rightarrow> (WalkRet option \<times> PageTable \<times> Kern) run" where
  "walk pt k vaddr = walk_common pt k vaddr False"

definition walk_alloc :: "PageTable \<Rightarrow> Kern \<Rightarrow> usize \<Rightarrow> (WalkRet \<times> PageTable \<times> Kern) run" where
  "walk_alloc pt k vaddr = do {
     (r, pt, k) \<leftarrow> walk_common pt k vaddr True;
     (case r of
        None \<Rightarrow> Some (\<lparr>level = 0, pte_addr = 0\<rparr>, pt, k)
      | Some ret \<Rightarrow> Some (ret, pt, k))
   }"

definition get_kvaddr_by_uvaddr :: "PageTable \<Rightarrow> Kern \<Rightarrow> vaddr \<Rightarrow> (vaddr option \<times> PageTable \<times> Kern) run" where
  "get_kvaddr_by_uvaddr pt k vaddr = do {
     off \<leftarrow> umod vaddr PAGE_SIZE;
     base \<leftarrow> addr_floor vaddr;
     (r, pt, k) \<leftarrow> walk pt k base;
     (case r of
        None \<Rightarrow> Some (None, pt, k)
      | Some x \<Rightarrow>
          if level x = WalkRetLevelLeaf then do {
            p \<leftarrow> uadd (get_point_paddr (get_pte k x)) off;
            v \<leftarrow> paddr_into_vaddr p;
            Some (Some v, pt, k)
          }
          else None)
   }"

section \<open>Mapping\<close>

definition is_not_mapped :: "PageTable \<Rightarrow> Kern \<Rightarrow> vaddr \<Rightarrow> (bool \<times> PageTable \<times> Kern) run" where
  "is_not_mapped pt k vaddr = do {
     (r, pt, k) \<leftarrow> walk_alloc pt k vaddr;
     if level r = WalkRetLevelLeaf
     then let pte = pte_from (get_usize_by_addr k (pte_addr r)) in
       Some (if vaild pte then False else True, pt, k)
     else None
   }"

fun not_mapped_loop :: "vaddr list \<Rightarrow> PageTable \<Rightarrow> Kern \<Rightarrow> (bool \<times> PageTable \<times> Kern) run" where
  "not_mapped_loop [] pt k = Some (True, pt, k)"
| "not_mapped_loop (i # is) pt k = do {
     (b, pt, k) \<leftarrow> is_not_mapped pt k i;
     if \<not> b then Some (False, pt, k) else not_mapped_loop is pt k
   }"

definition page_list :: "vaddr \<Rightarrow> usize \<Rightarrow> vaddr list run" where
  "page_list vaddr pgs = do {
     len \<leftarrow> umul pgs PAGE_SIZE;
     it \<leftarrow> page_addr_iter vaddr len;
     addr_collect it
   }"

definition is_not_mapped_order :: "PageTable \<Rightarrow> Kern \<Rightarrow> vaddr \<Rightarrow> usize \<Rightarrow> (bool \<times> PageTable \<times> Kern) run" where
  "is_not_mapped_order pt k vaddr order = do {
     as \<leftarrow> page_list vaddr (order2pages order);
     not_mapped_loop as pt k
   }"

definition map_one_page ::
    "PageTable \<Rightarrow> Kern \<Rightarrow> vaddr \<Rightarrow> paddr \<Rightarrow> u8 \<Rightarrow> ((int + unit) \<times> PageTable \<times> Kern) run" where
  "map_one_page pt k vaddr paddr flags = do {
     (r, pt, k) \<leftarrow> walk_alloc pt k vaddr;
     if level r = WalkRetLevelLeaf
     then let pte = pte_from (get_usize_by_addr k (pte_addr r)); new_pte = PTE_default in
       if vaild pte then Some (Inl (-1), pt, k)
       else let new_pte = set_flags (set_ppn_by_paddr new_pte paddr) flags in
         Some (Inr (), pt, set_usize_by_addr k (pte_addr r) (pte_into new_pte))
     else None
   }"

fun map_pages_loop ::
    "usize list \<Rightarrow> PageTable \<Rightarrow> Kern \<Rightarrow> vaddr \<Rightarrow> paddr \<Rightarrow> u8 \<Rightarrow> ((int + unit) \<times> PageTable \<times> Kern) run" where
  "map_pages_loop [] pt k vaddr paddr flags = Some (Inr (), pt, k)"
| "map_pages_loop (i # is) pt k vaddr paddr flags = do {
     off \<leftarrow> umul i PAGE_SIZE;
     v \<leftarrow> uadd vaddr off;
     p \<leftarrow> uadd paddr off;
     (r, pt, k) \<leftarrow> map_one_page pt k v p flags;
     (case r of
        Inl e \<Rightarrow> None
      | Inr _ \<Rightarrow> map_pages_loop is pt k vaddr paddr flags)
   }"

definition map_pages ::
    "PageTable \<Rightarrow> Kern \<Rightarrow> vaddr \<Rightarrow> paddr \<Rightarrow> usize \<Rightarrow> u8 \<Rightarrow> ((int + unit) \<times> PageTable \<times> Kern) run" where
  "map_pages pt k vaddr paddr order flags = do {
     let pgs = order2pages order;
     as \<leftarrow> page_list vaddr pgs;
     (b, pt, k) \<leftarrow> not_mapped_loop as pt k;
     if \<not> b then Some (Inl (-1), pt, k)
     else map_pages_loop [0..<pgs] pt k vaddr paddr flags
   }"

definition unmap_one_page :: "PageTable \<Rightarrow> Kern \<Rightarrow> vaddr \<Rightarrow> ((int + paddr) \<times> PageTable \<times> Kern) run" where
  "unmap_one_page pt k vaddr = do {
     (r, pt, k) \<leftarrow> walk_alloc pt k vaddr;
     if level r = WalkRetLevelLeaf
     then let pte = pte_from (get_usize_by_addr k (pte_addr r));
              ret = Inr (get_point_paddr pte);
              pte = set_ppn_by_paddr pte 0;
              pte = clear_flags pte PTE_V in
       Some (ret, pt, set_usize_by_addr k (pte_addr r) (pte_into pte))
     else None
   }"

fun unmap_pages_loop ::
    "nat \<Rightarrow> paddr option \<Rightarrow> vaddr \<Rightarrow> PageTable \<Rightarrow> Kern \<Rightarrow> ((int + paddr) \<times> PageTable \<times> Kern) run" where
  "unmap_pages_loop 0 ret_option vaddr_probe pt k = do { v \<leftarrow> ret_option; Some (Inr v, pt, k) }"
| "unmap_pages_loop (Suc n) ret_option vaddr_probe pt k = do {
     (r, pt, k) \<leftarrow> unmap_one_page pt k vaddr_probe;
     (case r of
        Inr v \<Rightarrow> do {
          let ret_option = (if ret_option = None then Some v else ret_option);
          vaddr_probe \<leftarrow> uadd vaddr_probe PAGE_SIZE;
          unmap_pages_loop n ret_option vaddr_probe pt k
        }
      | Inl e \<Rightarrow> Some (Inl e, pt, k))
   }"

definition unmap_pages :: "PageTable \<Rightarrow> Kern \<Rightarrow> vaddr \<Rightarrow> usize \<Rightarrow> ((int + paddr) \<times> PageTable \<times> Kern) run" where
  "unmap_pages pt k vaddr order = unmap_pages_loop (order2pages order) None vaddr pt k"

definition change_map_flags ::
    "PageTable \<Rightarrow> Kern \<Rightarrow> vaddr \<Rightarrow> u8 \<Rightarrow> ((unit + unit) \<times> PageTable \<times> Kern) run" where
  "change_map_flags pt k vaddr new_flags = do {
     (r, pt, k) \<leftarrow> walk pt k vaddr;
     (case r of
        None \<Rightarrow> Some (Inl (), pt, k)
      | Some r \<Rightarrow>
          if level r = WalkRetLevelLeaf
          then let pte = pte_from (get_usize_by_addr k (pte_addr r)) in
            if \<not> vaild pte then Some (Inl (), pt, k)
            else let pte = set_flags (clear_all_flags pte) new_flags in
              Some (Inr (), pt, set_usize_by_addr k (pte_addr r) (pte_into pte))
          else Some (Inl (), pt, k))
   }"

section \<open>Mapping without checks\<close>

fun force_map_loop :: "(usize \<times> usize) list \<Rightarrow> vaddr \<Rightarrow> paddr \<Rightarrow> u8 \<Rightarrow> PageTable \<Rightarrow> Kern \<Rightarrow>
    (PageTable \<times> Kern) run" where
  "force_map_loop [] pgv paddr map_flag pt k = Some (pt, k)"
| "force_map_loop ((i, index) # is) pgv paddr map_flag pt k = do {
     off \<leftarrow> umul index 8;
     entry_addr \<leftarrow> uadd pgv off;
     let pte = pte_from (get_usize_by_addr k entry_addr);
     if i = 2 then
       let empty_pte = set_ppn_by_paddr (set_flags (pte_from 0) map_flag) paddr in
       Some (pt, set_usize_by_addr k entry_addr (pte_into empty_pte))
     else if is_leaf pte \<or> \<not> vaild pte then do {
       (allocated_page_vaddr, k) \<leftarrow> alloc_table k;
       let pt = push_page pt allocated_page_vaddr;
       p \<leftarrow> usub allocated_page_vaddr PHY_MEM_OFFSET;
       let pte = set_ppn_by_paddr pte p;
       let pte = clear_flags pte (PTE_R OR PTE_W OR PTE_X);
       let pte = set_flags pte PTE_V;
       force_map_loop is allocated_page_vaddr paddr map_flag pt
         (set_usize_by_addr k entry_addr (pte_into pte))
     }
     else if vaild pte then do {
       v \<leftarrow> paddr_into_vaddr (get_point_paddr pte);
       force_map_loop is v paddr map_flag pt k
     }
     else force_map_loop is pgv paddr map_flag pt k
   }"

definition force_map_one :: "PageTable \<Rightarrow> Kern \<Rightarrow> usize \<Rightarrow> usize \<Rightarrow> u8 \<Rightarrow> (PageTable \<times> Kern) run" where
  "force_map_one pt k vaddr paddr map_flag = do {
     pgv \<leftarrow> get_root_page_vaddr pt;
     force_map_loop (ppn_arr vaddr) pgv paddr map_flag pt k
   }"

definition map_raw_no_check :: "PageTable \<Rightarrow> Kern \<Rightarrow> usize \<Rightarrow> usize \<Rightarrow> u8 \<Rightarrow> (PageTable \<times> Kern) run" where
  "map_raw_no_check pt k vaddr paddr map_flag = do {
     a \<leftarrow> umod vaddr PAGE_SIZE;
     _ \<leftarrow> rassert (a = 0);
     b \<leftarrow> umod paddr PAGE_SIZE;
     _ \<leftarrow> rassert (b = 0);
     (r, pt, k) \<leftarrow> walk_alloc pt k vaddr;
     if level r = WalkRetLevelLeaf
     then let pte = set_ppn_by_paddr (pte_from (get_usize_by_addr k (pte_addr r))) paddr in
       if vaild pte then None
       else Some (pt, set_usize_by_addr k (pte_addr r) (pte_into (set_flags pte map_flag)))
     else None
   }"

section \<open>The page table of a process\<close>

text \<open>
  The kernel's page table: the page of the image that has \<^verbatim>\<open>boot_pagetable\<close>, whose 512 words \<^verbatim>\<open>entry.asm\<close> gives.
\<close>

definition boot_pagetable :: "nat \<Rightarrow> u64" where
  "boot_pagetable i = (if i = 1 then 0x100000cf else if i = 2 \<or> i = 354 then 0x200000cf else 0)"

definition create_kernel_pagetable :: "vaddr \<Rightarrow> PageTable" where
  "create_kernel_pagetable kernel_pagetable_root = \<lparr>private_pgs = [kernel_pagetable_root]\<rparr>"

text \<open>
  With the default feature \<^verbatim>\<open>qemu\<close>: a new root with the entries of the kernel's root, except the first
  two, which cover the addresses below 2 to the 31.  The loop runs over the multiples of 8.
\<close>

definition copy_words :: "usize list \<Rightarrow> vaddr \<Rightarrow> vaddr \<Rightarrow> (usize \<Rightarrow> u64) \<Rightarrow> usize \<Rightarrow> u64" where
  "copy_words is src dest = fold (\<lambda>i m. m(dest + i := m (src + i))) is"

definition new_user :: "PageTable \<Rightarrow> Kern \<Rightarrow> (PageTable \<times> Kern) run" where
  "new_user kernel_pt k = do {
     (p, k) \<leftarrow> PageTable_default k;
     root_addr \<leftarrow> get_root_page_vaddr kernel_pt;
     dest \<leftarrow> get_root_page_vaddr p;
     _ \<leftarrow> uadd root_addr (PAGE_SIZE - 8);
     second \<leftarrow> uadd dest 8;
     _ \<leftarrow> uadd dest (PAGE_SIZE - 8);
     let m = copy_words (filter (\<lambda>x. x mod 8 = 0) [0..<PAGE_SIZE]) root_addr dest (mem k);
     _ \<leftarrow> rassert (dest mod 8 = 0);
     _ \<leftarrow> rassert (second mod 8 = 0);
     Some (p, k\<lparr>mem := m(dest := 0, second := 0)\<rparr>)
   }"

end
