(* ===== verification/K_BTree.thy ===== *)
theory K_BTree
  imports K_Rust
begin

text \<open>
  The ordered map of Rust's standard library (\<^verbatim>\<open>BTreeMap\<close>) as the memory management of the kernel uses
  it: the list of its entries in the order of their keys.  The locale states what the users of the map
  rely on, and the interpretation shows it for the list.
\<close>

type_synonym ('k, 'v) btree = "('k \<times> 'v) list"

section \<open>Operations\<close>

fun bt_insert :: "'k::linorder \<Rightarrow> 'v \<Rightarrow> ('k, 'v) btree \<Rightarrow> 'v option \<times> ('k, 'v) btree" where
  "bt_insert k v [] = (None, [(k, v)])"
| "bt_insert k v ((a, b) # t) =
     (if k < a then (None, (k, v) # (a, b) # t)
      else if k = a then (Some b, (k, v) # t)
      else let (old, t') = bt_insert k v t in (old, (a, b) # t'))"

fun bt_remove :: "'k::linorder \<Rightarrow> ('k, 'v) btree \<Rightarrow> 'v option \<times> ('k, 'v) btree" where
  "bt_remove k [] = (None, [])"
| "bt_remove k ((a, b) # t) =
     (if k = a then (Some b, t) else let (old, t') = bt_remove k t in (old, (a, b) # t'))"

definition bt_get :: "'k \<Rightarrow> ('k, 'v) btree \<Rightarrow> 'v option" where
  "bt_get k t = map_of t k"

definition bt_contains_key :: "'k \<Rightarrow> ('k, 'v) btree \<Rightarrow> bool" where
  "bt_contains_key k t \<longleftrightarrow> bt_get k t \<noteq> None"

text \<open>\<open>range(lo..hi)\<close> panics when the bounds are the wrong way round.\<close>

definition bt_range :: "'k::linorder \<Rightarrow> 'k \<Rightarrow> ('k, 'v) btree \<Rightarrow> ('k, 'v) btree run" where
  "bt_range lo hi t = (if lo \<le> hi then Some (filter (\<lambda>(k, v). lo \<le> k \<and> k < hi) t) else None)"

definition bt_split_off :: "'k::linorder \<Rightarrow> ('k, 'v) btree \<Rightarrow> ('k, 'v) btree \<times> ('k, 'v) btree" where
  "bt_split_off k t = (filter (\<lambda>(a, v). a < k) t, filter (\<lambda>(a, v). k \<le> a) t)"

section \<open>Contract\<close>

locale ordered_map =
  fixes inv :: "'m \<Rightarrow> bool" and entries :: "'m \<Rightarrow> ('k::linorder \<times> 'v) list"
    and get :: "'k \<Rightarrow> 'm \<Rightarrow> 'v option"
    and ins :: "'k \<Rightarrow> 'v \<Rightarrow> 'm \<Rightarrow> 'v option \<times> 'm"
    and rem :: "'k \<Rightarrow> 'm \<Rightarrow> 'v option \<times> 'm"
  assumes entries_sorted: "inv m \<Longrightarrow> sorted_wrt (<) (map fst (entries m))"
    and get_entries: "get k m = map_of (entries m) k"
    and ins_inv: "inv m \<Longrightarrow> inv (snd (ins k v m))"
    and ins_old: "inv m \<Longrightarrow> fst (ins k v m) = get k m"
    and ins_get: "inv m \<Longrightarrow> get a (snd (ins k v m)) = (if a = k then Some v else get a m)"
    and rem_inv: "inv m \<Longrightarrow> inv (snd (rem k m))"
    and rem_old: "inv m \<Longrightarrow> fst (rem k m) = get k m"
    and rem_get: "inv m \<Longrightarrow> get a (snd (rem k m)) = (if a = k then None else get a m)"
begin

lemma entries_distinct: "inv m \<Longrightarrow> distinct (map fst (entries m))"
  using entries_sorted strict_sorted_iff by blast

lemma in_entries: "inv m \<Longrightarrow> (k, v) \<in> set (entries m) \<longleftrightarrow> get k m = Some v"
  using entries_distinct get_entries by simp

lemma entries_ins:
  assumes "inv m"
  shows "set (entries (snd (ins k v m))) = insert (k, v) {(a, b) \<in> set (entries m). a \<noteq> k}"
  using assms ins_inv[OF assms, of k v] by (auto simp: in_entries ins_get split: if_splits)

lemma entries_rem:
  assumes "inv m"
  shows "set (entries (snd (rem k m))) = {(a, b) \<in> set (entries m). a \<noteq> k}"
  using assms rem_inv[OF assms, of k] by (auto simp: in_entries rem_get split: if_splits)

end

definition bt_inv :: "('k::linorder, 'v) btree \<Rightarrow> bool" where
  "bt_inv t \<longleftrightarrow> sorted_wrt (<) (map fst t)"

lemma bt_inv_Cons: "bt_inv ((a, b) # t) \<longleftrightarrow> bt_inv t \<and> (\<forall>x \<in> set t. a < fst x)"
  by (auto simp: bt_inv_def)

lemma bt_insert_keys: "x \<in> set (snd (bt_insert k v t)) \<Longrightarrow> x = (k, v) \<or> x \<in> set t"
  by (induction k v t rule: bt_insert.induct) (auto split: prod.splits if_splits)

lemma bt_insert_inv: "bt_inv t \<Longrightarrow> bt_inv (snd (bt_insert k v t))"
proof (induction k v t rule: bt_insert.induct)
  case (2 k v a b t)
  then show ?case
    using bt_insert_keys[of _ k v t] by (fastforce simp: bt_inv_Cons split: prod.splits)
qed (simp add: bt_inv_def)

lemma bt_remove_keys: "x \<in> set (snd (bt_remove k t)) \<Longrightarrow> x \<in> set t"
  by (induction k t rule: bt_remove.induct) (auto split: prod.splits if_splits)

lemma bt_remove_inv: "bt_inv t \<Longrightarrow> bt_inv (snd (bt_remove k t))"
proof (induction k t rule: bt_remove.induct)
  case (2 k a b t)
  then show ?case
    using bt_remove_keys[of _ k t] by (auto simp: bt_inv_Cons split: prod.splits)
qed (simp add: bt_inv_def)

lemma bt_get_small: "bt_inv ((a, b) # t) \<Longrightarrow> k \<le> a \<Longrightarrow> map_of t k = None"
  by (fastforce simp: bt_inv_Cons map_of_eq_None_iff)

lemma bt_insert_get:
  "bt_inv t \<Longrightarrow> fst (bt_insert k v t) = map_of t k \<and>
     map_of (snd (bt_insert k v t)) a = (if a = k then Some v else map_of t a)"
proof (induction k v t rule: bt_insert.induct)
  case (2 k v x b t)
  then show ?case
    using bt_get_small[OF 2(2), of k] by (auto simp: bt_inv_Cons split: prod.splits)
qed simp

lemma bt_remove_get:
  "bt_inv t \<Longrightarrow> fst (bt_remove k t) = map_of t k \<and>
     map_of (snd (bt_remove k t)) a = (if a = k then None else map_of t a)"
proof (induction k t rule: bt_remove.induct)
  case (2 k x b t)
  then show ?case
    using bt_get_small[OF 2(2), of k] by (auto simp: bt_inv_Cons split: prod.splits)
qed simp

interpretation bt: ordered_map bt_inv "\<lambda>t. t" bt_get bt_insert bt_remove
  by unfold_locales
    (simp_all add: bt_inv_def[symmetric] bt_get_def bt_insert_inv bt_insert_get bt_remove_inv bt_remove_get)

lemma bt_range_inv: "bt_inv t \<Longrightarrow> bt_range lo hi t = Some r \<Longrightarrow> bt_inv r"
  by (auto simp: bt_range_def bt_inv_def sorted_wrt_map sorted_wrt_filter split: if_splits)

lemma bt_range_set: "bt_range lo hi t = Some r \<Longrightarrow> set r = {(k, v) \<in> set t. lo \<le> k \<and> k < hi}"
  by (auto simp: bt_range_def split: if_splits)

end
