(* ===== verification/K_Vma.thy ===== *)
theory K_Vma
  imports K_PageTable K_BTree
begin

text \<open>
  \<^verbatim>\<open>kernel/src/mm/vma.rs\<close>: a region of an address space, its pages and how a page is filled when it is
  first used.  All regions of an address space share its page table, so a region only records whether
  it has one, and the operations take and return the table and the kernel's state.  The file system
  is a parameter: \<open>fread f off n\<close> is what seeking to \<open>off\<close> and reading into a buffer of \<open>n\<close> bytes gives,
  an error or the bytes.
\<close>

unbundle bit_operations_syntax

section \<open>Bytes of the memory\<close>

definition mem_get_byte :: "(usize \<Rightarrow> u64) \<Rightarrow> usize \<Rightarrow> u8" where
  "mem_get_byte m a = ucast (drop_bit (8 * (a mod 8)) (m (a - a mod 8)))"

definition mem_set_byte :: "(usize \<Rightarrow> u64) \<Rightarrow> usize \<Rightarrow> u8 \<Rightarrow> usize \<Rightarrow> u64" where
  "mem_set_byte m a b = m(a - a mod 8 :=
     (m (a - a mod 8) AND NOT (push_bit (8 * (a mod 8)) 0xFF)) OR push_bit (8 * (a mod 8)) (ucast b))"

fun mem_write :: "(usize \<Rightarrow> u64) \<Rightarrow> usize \<Rightarrow> u8 list \<Rightarrow> usize \<Rightarrow> u64" where
  "mem_write m a [] = m"
| "mem_write m a (b # bs) = mem_write (mem_set_byte m a b) (a + 1) bs"

section \<open>Reading from files\<close>

type_synonym 'f fread = "'f \<Rightarrow> usize \<Rightarrow> usize \<Rightarrow> unit + u8 list"

text \<open>
  \<^verbatim>\<open>Inode::read_off_exact\<close>: the bytes \<open>acc\<close> that are already in the buffer, and the result with the
  bytes in the buffer at the end.
\<close>

function read_off_exact :: "'f fread \<Rightarrow> 'f \<Rightarrow> usize \<Rightarrow> usize \<Rightarrow> u8 list \<Rightarrow> ((unit + usize) \<times> u8 list) run" where
  "read_off_exact fread f need_len off acc =
     (if length acc < need_len
      then do {
        pos \<leftarrow> uadd off (length acc);
        (case fread f pos (need_len - length acc) of
           Inr bs \<Rightarrow>
             if length bs = 0 then Some (Inr (length acc), acc)
             else read_off_exact fread f need_len off (acc @ bs)
         | Inl _ \<Rightarrow> Some (Inl (), acc))
      }
      else Some (Inr need_len, acc))"
  by pat_completeness auto
termination
  by (relation "measure (\<lambda>(fread, f, need_len, off, acc). need_len - length acc)")
    (auto intro!: diff_less_mono2)

declare read_off_exact.simps [simp del]

section \<open>Flags\<close>

definition VM_NONE :: u64 where "VM_NONE = 0"
definition VM_READ :: u64 where "VM_READ = push_bit 0 1"
definition VM_WRITE :: u64 where "VM_WRITE = push_bit 1 1"
definition VM_EXEC :: u64 where "VM_EXEC = push_bit 2 1"
definition VM_USER :: u64 where "VM_USER = push_bit 3 1"
definition VM_SHARD :: u64 where "VM_SHARD = push_bit 4 1"
definition VM_ANON :: u64 where "VM_ANON = push_bit 5 1"
definition VM_DIRTY :: u64 where "VM_DIRTY = push_bit 6 1"
definition MAP_ANONYMOUS :: u64 where "MAP_ANONYMOUS = 0x20"
definition PROT_READ :: u64 where "PROT_READ = 0x1"
definition PROT_WRITE :: u64 where "PROT_WRITE = 0x2"
definition PROT_EXEC :: u64 where "PROT_EXEC = 0x4"

text \<open>\<^verbatim>\<open>contains\<close> of \<^verbatim>\<open>bitflags\<close>.\<close>

definition flag_in :: "u64 \<Rightarrow> u64 \<Rightarrow> bool" where
  "flag_in flags f \<longleftrightarrow> flags AND f = f"

definition from_mmap :: "u64 \<Rightarrow> u64 \<Rightarrow> u64" where
  "from_mmap mmap_flags prot_flags = (let
     ret = VM_NONE;
     ret = (if flag_in prot_flags PROT_READ then ret OR VM_READ else ret);
     ret = (if flag_in prot_flags PROT_WRITE then ret OR VM_WRITE else ret);
     ret = (if flag_in prot_flags PROT_EXEC then ret OR VM_EXEC else ret);
     ret = (if flag_in mmap_flags MAP_ANONYMOUS then ret OR VM_ANON else ret)
     in ret OR VM_USER)"

definition vma_flags_2_pte_flags :: "u64 \<Rightarrow> u8" where
  "vma_flags_2_pte_flags f = ucast (push_bit 1 (f AND 0xF)) OR PTE_V"

section \<open>Regions\<close>

record 'f VMA =
  vma_start :: vaddr
  vma_end :: vaddr
  vm_flags :: u64
  pages_tree :: "(vaddr, vaddr) btree"
  has_pagetable :: bool
  vma_file :: "'f option"
  file_off :: usize
  file_in_vma_off :: usize
  file_len :: usize
  phy_pgs_cnt :: usize

definition VMA_empty :: "vaddr \<Rightarrow> vaddr \<Rightarrow> 'f VMA" where
  "VMA_empty sa ea =
     \<lparr>vma_start = sa, vma_end = ea, vm_flags = VM_NONE, pages_tree = [],
      has_pagetable = False, vma_file = None, file_off = 0, file_in_vma_off = 0, file_len = 0,
      phy_pgs_cnt = 0\<rparr>"

definition VMA_new ::
    "vaddr \<Rightarrow> vaddr \<Rightarrow> u64 \<Rightarrow> 'f option \<Rightarrow> usize \<Rightarrow> usize \<Rightarrow> usize \<Rightarrow> 'f VMA run" where
  "VMA_new sa ea flags f foff in_vma_off flen = do {
     _ \<leftarrow> (if \<not> flag_in flags VM_ANON then rassert (f \<noteq> None) else Some ());
     Some \<lparr>vma_start = sa, vma_end = ea, vm_flags = flags, pages_tree = [],
      has_pagetable = True, vma_file = f, file_off = 0, file_in_vma_off = in_vma_off,
      file_len = flen, phy_pgs_cnt = 0\<rparr>
   }"

definition VMA_new_anon :: "vaddr \<Rightarrow> vaddr \<Rightarrow> u64 \<Rightarrow> 'f VMA run" where
  "VMA_new_anon sa ea flags = VMA_new sa ea flags None 0 0 0"

definition VMA_new_file :: "vaddr \<Rightarrow> vaddr \<Rightarrow> u64 \<Rightarrow> 'f \<Rightarrow> usize \<Rightarrow> usize \<Rightarrow> usize \<Rightarrow> 'f VMA run" where
  "VMA_new_file sa ea flags f foff in_vma_off flen =
     VMA_new sa ea flags (Some f) 0 in_vma_off flen"

definition vma_writeable :: "'f VMA \<Rightarrow> bool" where
  "vma_writeable v \<longleftrightarrow> flag_in (vm_flags v) VM_WRITE"

definition is_anon :: "'f VMA \<Rightarrow> bool" where
  "is_anon v \<longleftrightarrow> flag_in (vm_flags v) VM_ANON"

definition set_dirty :: "'f VMA \<Rightarrow> 'f VMA" where
  "set_dirty v = v\<lparr>vm_flags := vm_flags v OR VM_DIRTY\<rparr>"

definition in_vma :: "'f VMA \<Rightarrow> vaddr \<Rightarrow> bool" where
  "in_vma v a \<longleftrightarrow> a \<ge> vma_start v \<and> a < vma_end v"

definition vaddr_have_map :: "'f VMA \<Rightarrow> vaddr \<Rightarrow> bool" where
  "vaddr_have_map v a \<longleftrightarrow> bt_contains_key a (pages_tree v)"

definition find_page :: "'f VMA \<Rightarrow> vaddr \<Rightarrow> vaddr option" where
  "find_page v a = bt_get a (pages_tree v)"

text \<open>\<^verbatim>\<open>Page::get_order\<close> and \<^verbatim>\<open>Page::get_paddr\<close> of the page at an address.\<close>

definition page_order :: "Kern \<Rightarrow> vaddr \<Rightarrow> usize run" where
  "page_order k pg = do { p \<leftarrow> heap k pg; Some (pg_order p) }"

definition page_paddr :: "Kern \<Rightarrow> vaddr \<Rightarrow> paddr run" where
  "page_paddr k pg = do { p \<leftarrow> heap k pg; vaddr_into_paddr (pg_vaddr p) }"

definition anon_map_one_page ::
    "'f VMA \<Rightarrow> PageTable \<Rightarrow> Kern \<Rightarrow> vaddr \<Rightarrow> vaddr \<Rightarrow> ((unit + unit) \<times> 'f VMA \<times> PageTable \<times> Kern) run" where
  "anon_map_one_page v pt k pg a = do {
     _ \<leftarrow> rassert (is_anon v);
     _ \<leftarrow> rassert (is_align a);
     _ \<leftarrow> rassert (in_vma v a);
     order \<leftarrow> page_order k pg;
     if order \<noteq> 0 then Some (Inl (), v, pt, k)
     else do {
       let pgs_cnt = order2pages order;
       room \<leftarrow> usub (vma_end v) a;
       need \<leftarrow> umul pgs_cnt PAGE_SIZE;
       if room < need then Some (Inl (), v, pt, k)
       else do {
         let flags = vma_flags_2_pte_flags (vm_flags v);
         if vaddr_have_map v a then Some (Inl (), v, pt, k)
         else do {
           _ \<leftarrow> rassert (has_pagetable v);
           p \<leftarrow> page_paddr k pg;
           (r, pt, k) \<leftarrow> map_pages pt k a p order flags;
           (case r of
              Inl _ \<Rightarrow> Some (Inl (), v, pt, k)
            | Inr _ \<Rightarrow> do {
                cnt \<leftarrow> uadd (phy_pgs_cnt v) pgs_cnt;
                let (old, t) = bt_insert a pg (pages_tree v);
                Some (if old \<noteq> None then Inl () else Inr (), v\<lparr>phy_pgs_cnt := cnt, pages_tree := t\<rparr>, pt, k)
              })
         }
       }
     }
   }"

text \<open>The unmapping is inside a \<^verbatim>\<open>debug_assert\<close> and therefore only happens in a debug build.\<close>

definition anon_unmap_pages ::
    "'f VMA \<Rightarrow> PageTable \<Rightarrow> Kern \<Rightarrow> vaddr \<Rightarrow> (vaddr option \<times> 'f VMA \<times> PageTable \<times> Kern) run" where
  "anon_unmap_pages v pt k a = do {
     _ \<leftarrow> rassert (is_anon v);
     _ \<leftarrow> rassert (is_align a);
     _ \<leftarrow> rassert (in_vma v a);
     let (old, t) = bt_remove a (pages_tree v);
     (case old of
        None \<Rightarrow> Some (None, v\<lparr>pages_tree := t\<rparr>, pt, k)
      | Some pg \<Rightarrow> do {
          order \<leftarrow> page_order k pg;
          _ \<leftarrow> rassert (has_pagetable v);
          (r, pt, k) \<leftarrow> unmap_pages pt k a order;
          _ \<leftarrow> rassert (\<exists>p. r = Inr p);
          Some (Some pg, v\<lparr>pages_tree := t\<rparr>, pt, k)
        })
   }"

definition vma_split :: "'f VMA \<Rightarrow> vaddr \<Rightarrow> ('f VMA option \<times> 'f VMA) run" where
  "vma_split v a =
     (if in_vma v a then Some (None, v)
      else do {
        let v = v\<lparr>vma_end := a\<rparr>;
        if is_anon v then do {
          let (low, high) = bt_split_off a (pages_tree v);
          let v = v\<lparr>pages_tree := low\<rparr>;
          _ \<leftarrow> rassert (has_pagetable v);
          n \<leftarrow> VMA_new_anon a (vma_end v) (vm_flags v);
          Some (Some (n\<lparr>pages_tree := high\<rparr>), v)
        }
        else None
      })"

definition fast_alloc_one_page :: "'f VMA \<Rightarrow> PageTable \<Rightarrow> Kern \<Rightarrow> vaddr \<Rightarrow> ('f VMA \<times> PageTable \<times> Kern) run" where
  "fast_alloc_one_page v pt k a = do {
     _ \<leftarrow> rassert (in_vma v a);
     _ \<leftarrow> rassert (is_align a);
     if \<not> bt_contains_key a (pages_tree v) then do {
       (pg, k) \<leftarrow> alloc_pages k 0;
       pg \<leftarrow> pg;
       p \<leftarrow> page_paddr k pg;
       _ \<leftarrow> rassert (has_pagetable v);
       (r, pt, k) \<leftarrow> map_one_page pt k a p (vma_flags_2_pte_flags (vm_flags v));
       (case r of
          Inl _ \<Rightarrow> None
        | Inr _ \<Rightarrow> Some (v\<lparr>pages_tree := snd (bt_insert a pg (pages_tree v))\<rparr>, pt, k))
     }
     else Some (v, pt, k)
   }"

text \<open>\<^verbatim>\<open>__fast_alloc_pages\<close>: a page for each address of a range.\<close>

fun fast_alloc_loop :: "vaddr list \<Rightarrow> 'f VMA \<Rightarrow> PageTable \<Rightarrow> Kern \<Rightarrow> ('f VMA \<times> PageTable \<times> Kern) run" where
  "fast_alloc_loop [] v pt k = Some (v, pt, k)"
| "fast_alloc_loop (i # is) v pt k = do {
     (v, pt, k) \<leftarrow> fast_alloc_one_page v pt k i;
     fast_alloc_loop is v pt k
   }"

definition fast_alloc_pages :: "'f VMA \<Rightarrow> PageTable \<Rightarrow> Kern \<Rightarrow> vaddr \<Rightarrow> usize \<Rightarrow> ('f VMA \<times> PageTable \<times> Kern) run" where
  "fast_alloc_pages v pt k a order = do {
     as \<leftarrow> page_list a (order2pages order);
     fast_alloc_loop as v pt k
   }"

definition fast_alloc_one_page_and_get ::
    "'f VMA \<Rightarrow> PageTable \<Rightarrow> Kern \<Rightarrow> vaddr \<Rightarrow> (vaddr \<times> 'f VMA \<times> PageTable \<times> Kern) run" where
  "fast_alloc_one_page_and_get v pt k a = do {
     _ \<leftarrow> rassert (in_vma v a);
     _ \<leftarrow> rassert (is_align a);
     if \<not> vaddr_have_map v a then do {
       (pg, k) \<leftarrow> alloc_pages k 0;
       pg \<leftarrow> pg;
       p \<leftarrow> page_paddr k pg;
       _ \<leftarrow> rassert (has_pagetable v);
       (r, pt, k) \<leftarrow> map_one_page pt k a p (vma_flags_2_pte_flags (vm_flags v));
       (case r of
          Inl _ \<Rightarrow> None
        | Inr _ \<Rightarrow> Some (pg, v\<lparr>pages_tree := snd (bt_insert a pg (pages_tree v))\<rparr>, pt, k))
     }
     else do { pg \<leftarrow> find_page v a; Some (pg, v, pt, k) }
   }"

text \<open>Copying the words of a page.\<close>

function copy_page_loop :: "usize \<Rightarrow> vaddr \<Rightarrow> vaddr \<Rightarrow> (usize \<Rightarrow> u64) \<Rightarrow> (usize \<Rightarrow> u64) run" where
  "copy_page_loop i src dest m =
     (if i < PAGE_SIZE
      then do {
        s \<leftarrow> uadd src i;
        _ \<leftarrow> rassert (s mod 8 = 0);
        d \<leftarrow> uadd dest i;
        _ \<leftarrow> rassert (d mod 8 = 0);
        copy_page_loop (i + 8) src dest (m(d := m s))
      }
      else Some m)"
  by pat_completeness auto
termination
  by (relation "measure (\<lambda>(i, src, dest, m). PAGE_SIZE - i)") auto

declare copy_page_loop.simps [simp del]

definition copy_one_page_data_from :: "Kern \<Rightarrow> vaddr \<Rightarrow> vaddr \<Rightarrow> Kern run" where
  "copy_one_page_data_from k dest src = do {
     m \<leftarrow> copy_page_loop 0 src dest (mem k);
     Some (k\<lparr>mem := m\<rparr>)
   }"

text \<open>
  The old page of the region is replaced in the tree, so the reference to it ends; \<open>held\<close> says whether
  there is another one.
\<close>

definition cow_remap_one_page ::
    "'f VMA \<Rightarrow> PageTable \<Rightarrow> Kern \<Rightarrow> vaddr \<Rightarrow> vaddr \<Rightarrow> bool \<Rightarrow> ((unit + unit) \<times> 'f VMA \<times> PageTable \<times> Kern) run" where
  "cow_remap_one_page v pt k a data_pg held = do {
     _ \<leftarrow> rassert (has_pagetable v);
     (_, pt, k) \<leftarrow> unmap_pages pt k a 0;
     (pg, k) \<leftarrow> alloc_pages k 0;
     new_pg \<leftarrow> pg;
     k \<leftarrow> copy_one_page_data_from k new_pg data_pg;
     p \<leftarrow> page_paddr k new_pg;
     (r, pt, k) \<leftarrow> map_one_page pt k a p (vma_flags_2_pte_flags (vm_flags v));
     _ \<leftarrow> rassert (r = Inr ());
     let (old, t) = bt_insert a new_pg (pages_tree v);
     k \<leftarrow> (case old of Some pg \<Rightarrow> if held then Some k else page_drop k pg {} | None \<Rightarrow> Some k);
     Some (Inr (), v\<lparr>pages_tree := t\<rparr>, pt, k)
   }"

text \<open>Reading a part of the file into the bytes \<open>left_off..right_off\<close> of a page.\<close>

definition fill_page ::
    "'f fread \<Rightarrow> 'f VMA \<Rightarrow> Kern \<Rightarrow> vaddr \<Rightarrow> usize \<Rightarrow> usize \<Rightarrow> usize \<Rightarrow> Kern run" where
  "fill_page fread v k pg left_off right_off in_file_off = do {
     need_read \<leftarrow> usub right_off left_off;
     f \<leftarrow> vma_file v;
     _ \<leftarrow> rassert (right_off \<le> PAGE_SIZE);
     (r, bs) \<leftarrow> read_off_exact fread f need_read in_file_off [];
     (case r of
        Inl _ \<Rightarrow> None
      | Inr real_read \<Rightarrow> do {
          _ \<leftarrow> rassert (real_read = need_read);
          Some (k\<lparr>mem := mem_write (mem k) (pg + left_off) bs\<rparr>)
        })
   }"

definition do_alloc_one_page ::
    "'f fread \<Rightarrow> 'f VMA \<Rightarrow> PageTable \<Rightarrow> Kern \<Rightarrow> vaddr \<Rightarrow> ((unit + vaddr) \<times> 'f VMA \<times> PageTable \<times> Kern) run" where
  "do_alloc_one_page fread v pt k a =
     (if \<not> is_align a \<or> \<not> in_vma v a then Some (Inl (), v, pt, k)
      else do {
        (pg, v, pt, k) \<leftarrow>
          (if is_anon v then fast_alloc_one_page_and_get v pt k a
           else do {
             file_map_start \<leftarrow> uadd (vma_start v) (file_in_vma_off v);
             file_map_end \<leftarrow> uadd file_map_start (file_len v);
             (if a < file_map_start then do {
                next_page \<leftarrow> uadd a PAGE_SIZE;
                if next_page > file_map_start then do {
                  (pg, v, pt, k) \<leftarrow> fast_alloc_one_page_and_get v pt k a;
                  left_off \<leftarrow> usub file_map_start a;
                  right_off \<leftarrow> (if next_page \<le> file_map_end then Some PAGE_SIZE else usub file_map_end a);
                  k \<leftarrow> fill_page fread v k pg left_off right_off (file_off v);
                  Some (pg, v, pt, k)
                }
                else fast_alloc_one_page_and_get v pt k a
              }
              else if a \<ge> file_map_end then fast_alloc_one_page_and_get v pt k a
              else do {
                next_page \<leftarrow> uadd a PAGE_SIZE;
                right_off \<leftarrow> (if next_page \<le> file_map_end then Some PAGE_SIZE else usub file_map_end a);
                d \<leftarrow> usub a file_map_start;
                real_in_file_off \<leftarrow> uadd d (file_off v);
                (pg, v, pt, k) \<leftarrow> fast_alloc_one_page_and_get v pt k a;
                k \<leftarrow> fill_page fread v k pg 0 right_off real_in_file_off;
                Some (pg, v, pt, k)
              })
           });
        let v = (if vma_writeable v then set_dirty v else v);
        Some (Inr pg, v, pt, k)
      })"

text \<open>The end of a region: its pages are unmapped, and then the references to them end.\<close>

fun vma_unmap_loop :: "(vaddr \<times> vaddr) list \<Rightarrow> 'f VMA \<Rightarrow> PageTable \<Rightarrow> Kern \<Rightarrow> (PageTable \<times> Kern) run" where
  "vma_unmap_loop [] v pt k = Some (pt, k)"
| "vma_unmap_loop ((a, pg) # t) v pt k = do {
     order \<leftarrow> page_order k pg;
     _ \<leftarrow> rassert (order = 0);
     _ \<leftarrow> rassert (has_pagetable v);
     (r, pt, k) \<leftarrow> unmap_one_page pt k a;
     vma_unmap_loop t v pt k
   }"

fun drop_pages :: "(vaddr \<times> vaddr) list \<Rightarrow> Kern \<Rightarrow> Kern run" where
  "drop_pages [] k = Some k"
| "drop_pages ((a, pg) # t) k = do { k \<leftarrow> page_drop k pg {}; drop_pages t k }"

definition vma_drop :: "'f VMA \<Rightarrow> PageTable \<Rightarrow> Kern \<Rightarrow> (PageTable \<times> Kern) run" where
  "vma_drop v pt k = do {
     (pt, k) \<leftarrow> vma_unmap_loop (pages_tree v) v pt k;
     k \<leftarrow> drop_pages (pages_tree v) k;
     Some (pt, k)
   }"

end
