(* ===== verification/K_Mm.thy ===== *)
theory K_Mm
  imports K_Vma
begin

text \<open>
  \<^verbatim>\<open>kernel/src/mm/mm.rs\<close>: address spaces, the search for room for a new region, the program break,
  \<^verbatim>\<open>fork\<close> without copy-on-write (the default feature set), loading a program, the system calls
  \<^verbatim>\<open>mmap\<close> and \<^verbatim>\<open>brk\<close> on the address space of the calling task, and the page fault handler.
\<close>

unbundle bit_operations_syntax

definition USER_HEAP_VMA_INIT_NR_PAGES :: usize where "USER_HEAP_VMA_INIT_NR_PAGES = 1"
definition USER_STACK_SIZE_NR_PAGES :: usize where "USER_STACK_SIZE_NR_PAGES = 16"
definition KMAP_START :: usize where "KMAP_START = 0xffffffc600000000"
definition KMAP_END :: usize where "KMAP_END = 0xffffffc700000000"

record 'f MmStruct =
  mm_is_kern :: bool
  mm_pagetable :: PageTable
  vmas :: "(vaddr, 'f VMA) btree"
  start_brk :: vaddr
  brk :: vaddr

definition new_kern_mm_by_pagetable :: "PageTable \<Rightarrow> 'f MmStruct" where
  "new_kern_mm_by_pagetable pt =
     \<lparr>mm_is_kern = True, mm_pagetable = pt, vmas = [], start_brk = 0, brk = 0\<rparr>"

definition new_empty_user_mm_by_pagetable :: "PageTable \<Rightarrow> 'f MmStruct" where
  "new_empty_user_mm_by_pagetable pt =
     \<lparr>mm_is_kern = False, mm_pagetable = pt, vmas = [], start_brk = 0, brk = 0\<rparr>"

definition new_empty_user_mm :: "PageTable \<Rightarrow> Kern \<Rightarrow> ('f MmStruct \<times> Kern) run" where
  "new_empty_user_mm kernel_pt k = do {
     (pt, k) \<leftarrow> new_user kernel_pt k;
     Some (new_empty_user_mm_by_pagetable pt, k)
   }"

section \<open>Finding regions\<close>

fun find_vma_loop :: "(vaddr \<times> 'f VMA) list \<Rightarrow> vaddr \<Rightarrow> (vaddr \<times> 'f VMA) option" where
  "find_vma_loop [] a = None"
| "find_vma_loop ((key, v) # t) a = (if in_vma v a then Some (key, v) else find_vma_loop t a)"

definition find_vma :: "'f MmStruct \<Rightarrow> vaddr \<Rightarrow> (vaddr \<times> 'f VMA) option" where
  "find_vma mm a = find_vma_loop (vmas mm) a"

definition find_vma_intersection :: "'f MmStruct \<Rightarrow> vaddr \<Rightarrow> vaddr \<Rightarrow> (vaddr \<times> 'f VMA) option" where
  "find_vma_intersection mm start_addr end_addr =
     (case find_vma mm end_addr of
        None \<Rightarrow> None
      | Some (key, v) \<Rightarrow> if vma_start v \<le> start_addr then Some (key, v) else None)"

text \<open>Writing back the region a mutable reference points to.\<close>

definition put_vma :: "'f MmStruct \<Rightarrow> vaddr \<Rightarrow> 'f VMA \<Rightarrow> 'f MmStruct" where
  "put_vma mm key v = mm\<lparr>vmas := snd (bt_insert key v (vmas mm))\<rparr>"

text \<open>A region that is replaced by the insertion is dropped.\<close>

definition insert_no_check :: "'f MmStruct \<Rightarrow> Kern \<Rightarrow> 'f VMA \<Rightarrow> ('f MmStruct \<times> Kern) run" where
  "insert_no_check mm k v = do {
     let (old, t) = bt_insert (vma_start v) v (vmas mm);
     let mm = mm\<lparr>vmas := t\<rparr>;
     (case old of
        None \<Rightarrow> Some (mm, k)
      | Some ov \<Rightarrow> do {
          (pt, k) \<leftarrow> vma_drop ov (mm_pagetable mm) k;
          Some (mm\<lparr>mm_pagetable := pt\<rparr>, k)
        })
   }"

definition drop_vma :: "'f MmStruct \<Rightarrow> vaddr \<Rightarrow> 'f VMA option \<times> 'f MmStruct" where
  "drop_vma mm a = (let (old, t) = bt_remove a (vmas mm) in (old, mm\<lparr>vmas := t\<rparr>))"

section \<open>Finding room\<close>

definition alloc_unmapped_fixed ::
    "'f MmStruct \<Rightarrow> vaddr \<Rightarrow> usize \<Rightarrow> vaddr \<Rightarrow> vaddr \<Rightarrow> 'f VMA option run" where
  "alloc_unmapped_fixed mm a len range_start range_end = do {
     r \<leftarrow> bt_range a range_end (vmas mm);
     (case r of
        (key, _) # _ \<Rightarrow> do {
          d \<leftarrow> usub key a;
          if d \<ge> len then do { e \<leftarrow> uadd a len; Some (Some (VMA_empty a e)) } else Some None
        }
      | [] \<Rightarrow> do { e \<leftarrow> uadd a len; Some (Some (VMA_empty a e)) })
   }"

fun search_high :: "(vaddr \<times> 'f VMA) list \<Rightarrow> usize \<Rightarrow> vaddr \<Rightarrow> vaddr \<Rightarrow> 'f VMA option run" where
  "search_high [] len range_end last_end = do {
     inv \<leftarrow> usub range_end last_end;
     if len \<le> inv then do { e \<leftarrow> uadd last_end len; Some (Some (VMA_empty last_end e)) }
     else Some None
   }"
| "search_high ((_, v) # t) len range_end last_end = do {
     inv \<leftarrow> usub (vma_start v) last_end;
     if len \<le> inv then do { e \<leftarrow> uadd last_end len; Some (Some (VMA_empty last_end e)) }
     else search_high t len range_end (vma_end v)
   }"

fun search_low :: "(vaddr \<times> 'f VMA) list \<Rightarrow> usize \<Rightarrow> vaddr \<Rightarrow> vaddr \<Rightarrow> 'f VMA option run" where
  "search_low [] len range_start last_start = do {
     inv \<leftarrow> usub last_start range_start;
     if len \<le> inv then do { s \<leftarrow> usub last_start len; Some (Some (VMA_empty s last_start)) }
     else Some None
   }"
| "search_low ((_, v) # t) len range_start last_start = do {
     inv \<leftarrow> usub last_start (vma_end v);
     if len \<le> inv then do { s \<leftarrow> usub last_start len; Some (Some (VMA_empty s last_start)) }
     else search_low t len range_start (vma_start v)
   }"

definition alloc_unmapped_core ::
    "'f MmStruct \<Rightarrow> vaddr option \<Rightarrow> usize \<Rightarrow> bool \<Rightarrow> vaddr \<Rightarrow> vaddr \<Rightarrow> 'f VMA option run" where
  "alloc_unmapped_core mm va len to_high range_start range_end = do {
     _ \<leftarrow> rassert (is_align len);
     _ \<leftarrow> rassert (is_align range_start);
     _ \<leftarrow> rassert (is_align range_end);
     _ \<leftarrow> rassert (range_start < range_end);
     size \<leftarrow> usub range_end range_start;
     if len \<ge> size then Some None
     else
       (case va of
          Some vi \<Rightarrow> do {
            e \<leftarrow> uadd vi len;
            if e > range_end then Some None
            else do {
              _ \<leftarrow> rassert (is_align vi);
              _ \<leftarrow> rassert (vi \<ge> range_start);
              _ \<leftarrow> rassert (vi < range_end);
              alloc_unmapped_fixed mm vi len range_start range_end
            }
          }
        | None \<Rightarrow> do {
            r \<leftarrow> bt_range range_start range_end (vmas mm);
            if to_high then search_high r len range_end range_start
            else search_low (rev r) len range_start range_end
          })
   }"

definition alloc_mmap_anon :: "'f MmStruct \<Rightarrow> vaddr option \<Rightarrow> usize \<Rightarrow> u64 \<Rightarrow> u64 \<Rightarrow> 'f VMA option run" where
  "alloc_mmap_anon mm va len map_flags prot_flags = do {
     r \<leftarrow> alloc_unmapped_core mm va len False USER_SPACE_START MMAP_TOP;
     Some (map_option (\<lambda>v. v\<lparr>has_pagetable := True, vm_flags := from_mmap map_flags prot_flags\<rparr>) r)
   }"

definition alloc_mmap_file ::
    "'f MmStruct \<Rightarrow> vaddr option \<Rightarrow> usize \<Rightarrow> 'f \<Rightarrow> usize \<Rightarrow> usize \<Rightarrow> u64 \<Rightarrow> u64 \<Rightarrow> 'f VMA option run" where
  "alloc_mmap_file mm va len f foff flen map_flags prot_flags = do {
     _ \<leftarrow> rassert (flen \<le> len);
     r \<leftarrow> alloc_unmapped_core mm va len False USER_SPACE_START MMAP_TOP;
     Some (map_option (\<lambda>v. v\<lparr>has_pagetable := True, file_off := foff, vma_file := Some f,
       vm_flags := from_mmap map_flags prot_flags, file_len := flen, file_in_vma_off := 0\<rparr>) r)
   }"

definition alloc_kmap_anon :: "'f MmStruct \<Rightarrow> usize \<Rightarrow> 'f VMA option run" where
  "alloc_kmap_anon mm len = do {
     r \<leftarrow> alloc_unmapped_core mm None len True KMAP_START KMAP_END;
     Some (map_option (\<lambda>v. v\<lparr>has_pagetable := True,
       vm_flags := VM_READ OR VM_WRITE OR VM_EXEC OR VM_ANON\<rparr>) r)
   }"

definition alloc_kmap_file :: "'f MmStruct \<Rightarrow> usize \<Rightarrow> 'f \<Rightarrow> usize \<Rightarrow> usize \<Rightarrow> 'f VMA option run" where
  "alloc_kmap_file mm len f foff flen = do {
     _ \<leftarrow> rassert (flen \<le> len);
     r \<leftarrow> alloc_unmapped_core mm None len True KMAP_START KMAP_END;
     Some (map_option (\<lambda>v. v\<lparr>has_pagetable := True, file_off := foff, vma_file := Some f,
       file_len := flen, file_in_vma_off := 0, vm_flags := VM_READ OR VM_WRITE OR VM_EXEC\<rparr>) r)
   }"

section \<open>The program break\<close>

definition expand_brk :: "'f MmStruct \<Rightarrow> vaddr \<Rightarrow> ((unit + unit) \<times> 'f MmStruct) run" where
  "expand_brk mm new_brk = do {
     r \<leftarrow> bt_range (start_brk mm) MMAP_TOP (vmas mm);
     if (case drop 1 r of
           [] \<Rightarrow> new_brk > MMAP_TOP
         | (start, _) # _ \<Rightarrow> start < new_brk)
     then Some (Inl (), mm)
     else do {
       (key, v) \<leftarrow> find_vma mm (start_brk mm);
       let mm = put_vma mm key (v\<lparr>vma_end := new_brk\<rparr>);
       Some (Inr (), mm\<lparr>brk := new_brk\<rparr>)
     }
   }"

text \<open>The part that is split off is dropped at once.\<close>

definition shrink_brk :: "'f MmStruct \<Rightarrow> Kern \<Rightarrow> vaddr \<Rightarrow> ((unit + unit) \<times> 'f MmStruct \<times> Kern) run" where
  "shrink_brk mm k new_brk = do {
     (key, v) \<leftarrow> find_vma mm (start_brk mm);
     (r, v) \<leftarrow> vma_split v new_brk;
     let mm = put_vma mm key v;
     (case r of
        None \<Rightarrow> Some (Inl (), mm, k)
      | Some n \<Rightarrow> do {
          (pt, k) \<leftarrow> vma_drop n (mm_pagetable mm) k;
          Some (Inr (), mm\<lparr>mm_pagetable := pt\<rparr>, k)
        })
   }"

text \<open>A system call returns a \<^verbatim>\<open>usize\<close> as an \<^verbatim>\<open>isize\<close>.\<close>

definition as_isize :: "usize \<Rightarrow> int" where
  "as_isize x = (if x < 2 ^ 63 then int x else int x - 2 ^ 64)"

definition sys_brk :: "'f MmStruct \<Rightarrow> Kern \<Rightarrow> usize \<Rightarrow> (int \<times> 'f MmStruct \<times> Kern) run" where
  "sys_brk mm k b =
     (if b = 0 then Some (as_isize (brk mm), mm, k)
      else let brk_now = brk mm in
        if b < start_brk mm then Some (-1, mm, k)
        else if brk_now = b then Some (as_isize b, mm, k)
        else if b < brk_now then do {
          (r, mm, k) \<leftarrow> shrink_brk mm k b;
          Some (case r of Inr _ \<Rightarrow> as_isize b | Inl _ \<Rightarrow> -1, mm, k)
        }
        else do {
          (r, mm) \<leftarrow> expand_brk mm b;
          Some (case r of Inr _ \<Rightarrow> as_isize b | Inl _ \<Rightarrow> -1, mm, k)
        })"

text \<open>
  \<open>fd_inode\<close> is the inode of the open file, if there is one, whether it is a directory, and the
  length of its directory entry.
\<close>

definition sys_mmap :: "'f MmStruct \<Rightarrow> Kern \<Rightarrow> usize \<Rightarrow> usize \<Rightarrow> u64 \<Rightarrow> u64 \<Rightarrow>
    ('f \<times> bool \<times> usize) option \<Rightarrow> usize \<Rightarrow> (int \<times> 'f MmStruct \<times> Kern) run" where
  "sys_mmap mm k va len prot flags fd_inode offset = do {
     let vaddr = (if va \<noteq> 0 then Some va else None);
     if flag_in flags MAP_ANONYMOUS then do {
       r \<leftarrow> alloc_mmap_anon mm vaddr len flags prot;
       (case r of
          None \<Rightarrow> Some (-1, mm, k)
        | Some v \<Rightarrow> do { (mm, k) \<leftarrow> insert_no_check mm k v; Some (as_isize (vma_start v), mm, k) })
     }
     else
       (case fd_inode of
          None \<Rightarrow> Some (-1, mm, k)
        | Some (inode, is_dir, dentry_len) \<Rightarrow>
            if is_dir then Some (-1, mm, k)
            else do {
              r \<leftarrow> alloc_mmap_file mm vaddr len inode offset (min len dentry_len) flags prot;
              (case r of
                 None \<Rightarrow> Some (-1, mm, k)
               | Some v \<Rightarrow> do { (mm, k) \<leftarrow> insert_no_check mm k v; Some (as_isize (vma_start v), mm, k) })
            })
   }"

section \<open>Fork\<close>

fun fork_pages :: "(vaddr \<times> vaddr) list \<Rightarrow> 'f VMA \<Rightarrow> PageTable \<Rightarrow> Kern \<Rightarrow> ('f VMA \<times> PageTable \<times> Kern) run" where
  "fork_pages [] new_vma pt k = Some (new_vma, pt, k)"
| "fork_pages ((vv, pg) # t) new_vma pt k = do {
     (new_pg, new_vma, pt, k) \<leftarrow> fast_alloc_one_page_and_get new_vma pt k vv;
     k \<leftarrow> copy_one_page_data_from k new_pg pg;
     fork_pages t new_vma pt k
   }"

fun fork_vmas :: "(vaddr \<times> 'f VMA) list \<Rightarrow> 'f MmStruct \<Rightarrow> Kern \<Rightarrow> ('f MmStruct \<times> Kern) run" where
  "fork_vmas [] new k = Some (new, k)"
| "fork_vmas ((a, v) # t) new k = do {
     let new_vma = v\<lparr>pages_tree := [], has_pagetable := True\<rparr>;
     _ \<leftarrow> rassert (has_pagetable v);
     (new_vma, pt, k) \<leftarrow> fork_pages (pages_tree v) new_vma (mm_pagetable new) k;
     let (old, vs) = bt_insert a new_vma (vmas new);
     _ \<leftarrow> rassert (old = None);
     fork_vmas t (new\<lparr>mm_pagetable := pt, vmas := vs\<rparr>) k
   }"

definition new_mm_by_old :: "PageTable \<Rightarrow> 'f MmStruct \<Rightarrow> Kern \<Rightarrow> ('f MmStruct \<times> Kern) run" where
  "new_mm_by_old kernel_pt old k = do {
     (pt, k) \<leftarrow> new_user kernel_pt k;
     let new = new_empty_user_mm_by_pagetable pt;
     let new = new\<lparr>brk := brk old, start_brk := start_brk old\<rparr>;
     r \<leftarrow> bt_range USER_SPACE_START USER_SPACE_END (vmas old);
     fork_vmas r new k
   }"

section \<open>Page faults\<close>

text \<open>
  The address space is the kernel's for a fault in kernel mode and the running task's otherwise; every
  failure panics.
\<close>

definition trap_page_fault_handler :: "'f fread \<Rightarrow> 'f MmStruct \<Rightarrow> Kern \<Rightarrow> vaddr \<Rightarrow> (bool \<times> 'f MmStruct \<times> Kern) run" where
  "trap_page_fault_handler fread mm k vaddr = do {
     a \<leftarrow> addr_floor vaddr;
     (key, v) \<leftarrow> find_vma mm a;
     if find_page v a \<noteq> None then None
     else do {
       (r, v, pt, k) \<leftarrow> do_alloc_one_page fread v (mm_pagetable mm) k a;
       (case r of
          Inl _ \<Rightarrow> None
        | Inr _ \<Rightarrow> Some (True, (put_vma mm key v)\<lparr>mm_pagetable := pt\<rparr>, k))
     }
   }"

section \<open>Loading a program\<close>

record Phdr =
  ph_load :: bool
  ph_vaddr :: usize
  ph_memsz :: usize
  ph_filesz :: usize
  ph_offset :: usize
  ph_r :: bool
  ph_w :: bool
  ph_x :: bool

fun load_phdrs :: "'f \<Rightarrow> Phdr list \<Rightarrow> 'f MmStruct \<Rightarrow> Kern \<Rightarrow> vaddr \<Rightarrow> ('f MmStruct \<times> Kern \<times> vaddr) run" where
  "load_phdrs f [] mm k load_end = Some (mm, k, load_end)"
| "load_phdrs f (ph # phs) mm k load_end =
     (if ph_load ph then do {
        s_addr \<leftarrow> addr_floor (ph_vaddr ph);
        offset \<leftarrow> usub (ph_vaddr ph) s_addr;
        sz \<leftarrow> uadd (ph_memsz ph) offset;
        size_aligned \<leftarrow> addr_ceil sz;
        let flags = VM_USER;
        let flags = (if ph_r ph then flags OR VM_READ else flags);
        let flags = (if ph_w ph then flags OR VM_WRITE else flags);
        let flags = (if ph_x ph then flags OR VM_EXEC else flags);
        r \<leftarrow> alloc_unmapped_core mm (Some s_addr) size_aligned True USER_SPACE_START USER_SPACE_END;
        v \<leftarrow> r;
        _ \<leftarrow> rassert (offset < PAGE_SIZE);
        let v = v\<lparr>file_in_vma_off := offset, vma_file := Some f, vm_flags := flags, has_pagetable := True,
          file_len := ph_filesz ph, file_off := ph_offset ph\<rparr>;
        let v_end = vma_end v;
        (mm, k) \<leftarrow> insert_no_check mm k v;
        load_phdrs f phs mm k (max load_end v_end)
      }
      else load_phdrs f phs mm k load_end)"

fun stack_pages :: "'f fread \<Rightarrow> usize list \<Rightarrow> vaddr \<Rightarrow> 'f VMA \<Rightarrow> PageTable \<Rightarrow> Kern \<Rightarrow> ('f VMA \<times> PageTable \<times> Kern) run" where
  "stack_pages fread [] stack_top v pt k = Some (v, pt, k)"
| "stack_pages fread (i # is) stack_top v pt k = do {
     off \<leftarrow> umul i PAGE_SIZE;
     a \<leftarrow> uadd stack_top off;
     (r, v, pt, k) \<leftarrow> do_alloc_one_page fread v pt k a;
     stack_pages fread is stack_top v pt k
   }"

text \<open>The auxiliary vector: pairs of a type and a value, with the type numbers of \<^verbatim>\<open>aux.rs\<close>.\<close>

definition elf_auxv :: "usize \<Rightarrow> usize \<Rightarrow> (usize \<times> usize) list" where
  "elf_auxv ph_entry_size entry =
     [(4, ph_entry_size), (5, 0), (6, PAGE_SIZE), (7, 0), (8, 0), (9, entry), (11, 0), (12, 0), (13, 0),
      (14, 0), (15, 0), (16, 0), (17, 100), (23, 0), (10, 0x112d), (0, 0)]"

text \<open>
  The ELF file is parsed by a library; what is used of it is the size of a program header, the entry
  point and the program headers.
\<close>

definition new_from_elf :: "'f fread \<Rightarrow> PageTable \<Rightarrow> usize \<Rightarrow> usize \<Rightarrow> Phdr list \<Rightarrow> 'f \<Rightarrow> Kern \<Rightarrow>
    ('f MmStruct \<times> (usize \<times> usize) list \<times> usize \<times> Kern) run" where
  "new_from_elf fread kernel_pt ph_entry_size entry phs file_inode k = do {
     (mm, k) \<leftarrow> new_empty_user_mm kernel_pt k;
     (mm, k, load_end) \<leftarrow> load_phdrs file_inode phs mm k 0;
     le \<leftarrow> addr_ceil load_end;
     heap_start \<leftarrow> uadd le PAGE_SIZE;
     heap_len \<leftarrow> umul USER_HEAP_VMA_INIT_NR_PAGES PAGE_SIZE;
     heap_end \<leftarrow> uadd heap_start heap_len;
     let mm = mm\<lparr>start_brk := heap_start, brk := heap_end\<rparr>;
     r \<leftarrow> alloc_unmapped_core mm (Some (start_brk mm)) heap_len True USER_SPACE_START USER_SPACE_END;
     v \<leftarrow> r;
     let v = v\<lparr>vm_flags := VM_READ OR VM_WRITE OR VM_EXEC OR VM_USER OR VM_ANON, has_pagetable := True\<rparr>;
     (mm, k) \<leftarrow> insert_no_check mm k v;
     stack_len \<leftarrow> umul USER_STACK_SIZE_NR_PAGES PAGE_SIZE;
     stack_top \<leftarrow> usub USER_STACK_MAX_ADDR stack_len;
     r \<leftarrow> alloc_unmapped_core mm (Some stack_top) stack_len True USER_SPACE_START USER_SPACE_END;
     v \<leftarrow> r;
     let v = v\<lparr>vm_flags := VM_READ OR VM_WRITE OR VM_EXEC OR VM_USER OR VM_ANON, has_pagetable := True\<rparr>;
     (v, pt, k) \<leftarrow> stack_pages fread [0..<USER_STACK_SIZE_NR_PAGES] stack_top v (mm_pagetable mm) k;
     (mm, k) \<leftarrow> insert_no_check (mm\<lparr>mm_pagetable := pt\<rparr>) k v;
     Some (mm, elf_auxv ph_entry_size entry, entry, k)
   }"

end
