(* ===== verification/K_Mm_Regions.thy ===== *)
theory K_Mm_Regions
  imports K_Mm
begin

text \<open>
  The regions of an address space: room for a new one, the program break, and the invariant that the
  regions are disjoint.
\<close>

section \<open>Disjoint regions\<close>

definition disjoint_regions :: "'f VMA \<Rightarrow> 'f VMA \<Rightarrow> bool" where
  "disjoint_regions v w \<longleftrightarrow> vma_end v \<le> vma_start w \<or> vma_end w \<le> vma_start v"

text \<open>The entries of the map, in order: each under its start, and each ends before the next starts.\<close>

fun regions :: "vaddr \<Rightarrow> (vaddr \<times> 'f VMA) list \<Rightarrow> vaddr \<Rightarrow> bool" where
  "regions lo [] hi \<longleftrightarrow> lo \<le> hi"
| "regions lo ((key, v) # t) hi \<longleftrightarrow>
     key = vma_start v \<and> lo \<le> vma_start v \<and> vma_start v < vma_end v \<and> regions (vma_end v) t hi"

text \<open>A place for \<open>len\<close> bytes at \<open>a\<close> that meets no region.\<close>

definition room :: "(vaddr \<times> 'f VMA) list \<Rightarrow> vaddr \<Rightarrow> usize \<Rightarrow> bool" where
  "room vs a len \<longleftrightarrow> (\<forall>(key, v) \<in> set vs. vma_end v \<le> a \<or> a + len \<le> vma_start v)"

lemma room_simps [simp]:
  "room [] a len" "room (x # t) a len \<longleftrightarrow> (vma_end (snd x) \<le> a \<or> a + len \<le> vma_start (snd x)) \<and> room t a len"
  "room (xs @ ys) a len \<longleftrightarrow> room xs a len \<and> room ys a len"
  by (auto simp: room_def)

lemma regions_bounds: "regions lo t hi \<Longrightarrow> lo \<le> hi"
  by (induction lo t hi rule: regions.induct) auto

lemma regions_le: "regions lo t hi \<Longrightarrow> lo' \<le> lo \<Longrightarrow> regions lo' t hi"
  by (cases t) auto

lemma regions_ge: "regions lo t hi \<Longrightarrow> hi \<le> hi' \<Longrightarrow> regions lo t hi'"
  by (induction lo t hi rule: regions.induct) auto

lemma regions_member:
  "regions lo t hi \<Longrightarrow> (key, v) \<in> set t \<Longrightarrow>
   key = vma_start v \<and> lo \<le> vma_start v \<and> vma_start v < vma_end v \<and> vma_end v \<le> hi"
proof (induction lo t hi rule: regions.induct)
  case (2 lo k w t hi)
  then show ?case using regions_bounds[of "vma_end w" t hi] by fastforce
qed simp

lemma regions_append:
  "regions lo (xs @ ys) hi \<longleftrightarrow> (\<exists>mid. regions lo xs mid \<and> regions mid ys hi)"
proof (induction lo xs hi arbitrary: ys rule: regions.induct)
  case (1 lo hi)
  then show ?case using regions_le by fastforce
qed auto

lemma regions_bt_inv: "regions lo t hi \<Longrightarrow> bt_inv t"
proof (induction lo t hi rule: regions.induct)
  case (2 lo k w t hi)
  then show ?case using regions_member[of "vma_end w" t hi] by (fastforce simp: bt_inv_Cons)
qed (simp add: bt_inv_def)

lemma regions_disjoint:
  "regions lo t hi \<Longrightarrow> sorted_wrt (\<lambda>x y. vma_end (snd x) \<le> vma_start (snd y)) t"
proof (induction lo t hi rule: regions.induct)
  case (2 lo k w t hi)
  then show ?case using regions_member[of "vma_end w" t hi] by fastforce
qed simp

lemma room_before: "regions mid t hi \<Longrightarrow> a + len \<le> mid \<Longrightarrow> room t a len"
  using regions_member[of mid t hi] by (fastforce simp: room_def)

lemma room_after: "regions lo t mid \<Longrightarrow> mid \<le> a \<Longrightarrow> room t a len"
  using regions_member[of lo t mid] by (fastforce simp: room_def)

section \<open>Finding room\<close>

definition fits :: "(vaddr \<times> 'f VMA) list \<Rightarrow> vaddr \<Rightarrow> vaddr \<Rightarrow> usize \<Rightarrow> vaddr \<Rightarrow> bool" where
  "fits vs lo hi len a \<longleftrightarrow> lo \<le> a \<and> a + len \<le> hi \<and> room vs a len"

text \<open>The result is a region at the lowest or the highest address that satisfies \<open>P\<close>, or there is none.\<close>

definition best_fit :: "(vaddr \<Rightarrow> bool) \<Rightarrow> usize \<Rightarrow> bool \<Rightarrow> 'f VMA option \<Rightarrow> bool" where
  "best_fit P len to_high r \<longleftrightarrow>
     (case r of
        None \<Rightarrow> \<forall>a. \<not> P a
      | Some v \<Rightarrow> \<exists>a. v = VMA_empty a (a + len) \<and> P a \<and> (\<forall>b. P b \<longrightarrow> (if to_high then a \<le> b else b \<le> a)))"

lemma search_high_ok:
  assumes "regions lo t hi" "hi < 2 ^ 64"
  shows "\<exists>r. search_high t len hi lo = Some r \<and> best_fit (fits t lo hi len) len True r"
  using assms
proof (induction lo t hi rule: regions.induct)
  case (1 lo hi)
  then show ?case by (auto simp: rust_ops best_fit_def fits_def)
next
  case (2 lo k v t hi)
  show ?case
  proof (cases "len \<le> vma_start v - lo")
    case True
    have "room t lo len" using 2(2) True by (intro room_before[of "vma_end v" t hi]) auto
    moreover have "lo + len \<le> hi" using 2(2) True regions_bounds[of "vma_end v" t hi] by auto
    ultimately show ?thesis using 2(2,3) True by (auto simp: rust_ops best_fit_def fits_def)
  next
    case False
    have "fits ((k, v) # t) lo hi len = fits t (vma_end v) hi len"
      using False 2(2) by (auto simp: fits_def fun_eq_iff)
    with 2 False show ?thesis by (auto simp: rust_ops)
  qed
qed

lemma search_low_ok:
  assumes "regions lo (rev t) hi" "hi < 2 ^ 64"
  shows "\<exists>r. search_low t len lo hi = Some r \<and> best_fit (fits t lo hi len) len False r"
  using assms
proof (induction t len lo hi rule: search_low.induct)
  case (1 len lo hi)
  then show ?case
    by (cases "len \<le> hi - lo") (auto simp: rust_ops best_fit_def fits_def intro!: exI[of _ "hi - len"])
next
  case (2 k v t len lo hi)
  have R: "k = vma_start v" "vma_start v < vma_end v" "vma_end v \<le> hi" "regions lo (rev t) (vma_start v)"
    "lo \<le> vma_start v"
    using 2(2) regions_bounds by (auto simp: regions_append intro: regions_ge dest: regions_bounds)
  show ?case
  proof (cases "len \<le> hi - vma_end v")
    case True
    have "room (rev t) (hi - len) len" using R True by (intro room_after[of lo "rev t" "vma_start v"]) auto
    then have "room t (hi - len) len" by (simp add: room_def)
    then show ?thesis
      using R 2(3) True by (auto simp: rust_ops best_fit_def fits_def intro!: exI[of _ "hi - len"])
  next
    case False
    have "fits ((k, v) # t) lo hi len = fits t lo (vma_start v) len"
      using False R by (auto simp: fits_def fun_eq_iff)
    with 2(1)[of "hi - vma_end v"] R 2(3) False show ?thesis by (auto simp: rust_ops)
  qed
qed

text \<open>No region crosses a bound of the range.\<close>

definition range_closed :: "(vaddr \<times> 'f VMA) list \<Rightarrow> vaddr \<Rightarrow> vaddr \<Rightarrow> bool" where
  "range_closed vs lo hi \<longleftrightarrow> (\<forall>(key, v) \<in> set vs.
     vma_end v \<le> lo \<or> lo \<le> vma_start v \<and> vma_end v \<le> hi \<or> hi \<le> vma_start v)"

lemma regions_filter:
  assumes "regions l vs h" "range_closed vs lo hi" "lo \<le> hi"
  shows "regions (max l lo) (filter (\<lambda>(key, v). lo \<le> key \<and> key < hi) vs) (max l hi)"
  using assms
proof (induction l vs h rule: regions.induct)
  case (2 l k v t h)
  then have IH: "regions (max (vma_end v) lo) (filter (\<lambda>(key, v). lo \<le> key \<and> key < hi) t) (max (vma_end v) hi)"
    by (auto simp: range_closed_def)
  show ?case
  proof (cases "lo \<le> k \<and> k < hi")
    case True
    then have "vma_end v \<le> hi" using 2(2,3) by (auto simp: range_closed_def)
    then show ?thesis using True IH 2(2) by (auto simp: max_def split: if_splits intro: regions_le)
  next
    case False
    show ?thesis
    proof (cases "hi \<le> k")
      case True
      have "filter (\<lambda>(key, v). lo \<le> key \<and> key < hi) t = []"
        using regions_member[of "vma_end v" t h] 2(2) True by (fastforce simp: filter_empty_conv)
      then show ?thesis using True 2(4) by simp
    next
      case False
      then have "vma_end v \<le> lo" using 2(2,3) \<open>\<not> (lo \<le> k \<and> k < hi)\<close> by (auto simp: range_closed_def)
      then show ?thesis using False IH 2(2,4) \<open>\<not> (lo \<le> k \<and> k < hi)\<close>
        by (auto simp: max_def split: if_splits)
    qed
  qed
qed auto

lemma fits_filter:
  assumes "regions l vs h" "range_closed vs lo hi"
  shows "fits (filter (\<lambda>(key, v). lo \<le> key \<and> key < hi) vs) lo hi len = fits vs lo hi len"
proof (rule ext)
  fix a
  have "vma_end v \<le> a \<or> a + len \<le> vma_start v"
    if "(key, v) \<in> set vs" "\<not> (lo \<le> key \<and> key < hi)" "lo \<le> a" "a + len \<le> hi" for key v
    using regions_member[OF assms(1) that(1)] assms(2) that by (fastforce simp: range_closed_def)
  then show "fits (filter (\<lambda>(key, v). lo \<le> key \<and> key < hi) vs) lo hi len a = fits vs lo hi len a"
    by (fastforce simp: fits_def room_def)
qed

text \<open>A request for the whole range or more is refused, also when all of it is free.\<close>

lemma alloc_unmapped_ok:
  assumes R: "regions l (vmas mm) h" and C: "range_closed (vmas mm) lo hi"
    and al: "is_align len" "is_align lo" "is_align hi" and b: "l \<le> lo" "lo < hi" "hi < 2 ^ 64"
  shows "\<exists>r. alloc_unmapped_core mm None len to_high lo hi = Some r \<and>
    (if hi - lo \<le> len then r = None else best_fit (fits (vmas mm) lo hi len) len to_high r)"
proof (cases "hi - lo \<le> len")
  case True
  then show ?thesis using al b by (auto simp: alloc_unmapped_core_def rust_ops)
next
  case False
  let ?f = "filter (\<lambda>(key, v). lo \<le> key \<and> key < hi) (vmas mm)"
  have F: "regions lo ?f hi" using regions_filter[OF R C] b by (simp add: max_def)
  have run: "alloc_unmapped_core mm None len to_high lo hi =
      (if to_high then search_high ?f len hi lo else search_low (rev ?f) len lo hi)"
    using False al b by (simp add: alloc_unmapped_core_def rust_ops bt_range_def)
  have rr: "fits (rev ?f) lo hi len = fits ?f lo hi len" by (simp add: fits_def room_def fun_eq_iff)
  show ?thesis
    using search_high_ok[OF F b(3), of len] search_low_ok[of lo "rev ?f" hi len] F b(3) False
    unfolding run rr fits_filter[OF R C] by (cases to_high) simp_all
qed

section \<open>Inserting and changing regions\<close>

lemma bt_insert_regions:
  assumes "regions lo vs hi" "room vs (vma_start v) (vma_end v - vma_start v)" "vma_start v < vma_end v"
    "lo \<le> vma_start v" "vma_end v \<le> hi"
  shows "fst (bt_insert (vma_start v) v vs) = None \<and> regions lo (snd (bt_insert (vma_start v) v vs)) hi"
  using assms
proof (induction lo vs hi rule: regions.induct)
  case (2 lo key w t hi)
  show ?case
  proof (cases "vma_start v < key")
    case True
    then show ?thesis using 2(2-6) by auto
  next
    case False
    then have "vma_end w \<le> vma_start v" using 2(2-4) by auto
    with False 2 show ?thesis by (auto split: prod.splits)
  qed
qed auto

lemma bt_insert_mid:
  "\<forall>x \<in> set xs. fst x < key \<Longrightarrow> bt_insert key v' (xs @ (key, v) # ys) = (Some v, xs @ (key, v') # ys)"
proof (induction xs)
  case (Cons x xs)
  then show ?case by (cases x) (auto dest: less_not_sym)
qed simp

lemma bt_insert_existing:
  assumes "bt_inv t" "bt_get key t = Some v"
  obtains xs ys where "t = xs @ (key, v) # ys" "\<And>x. x \<in> set xs \<Longrightarrow> fst x < key"
    "\<And>y. y \<in> set ys \<Longrightarrow> key < fst y" "\<And>v'. bt_insert key v' t = (Some v, xs @ (key, v') # ys)"
proof -
  have "(key, v) \<in> set t" using assms by (simp add: bt.in_entries)
  then obtain xs ys where t: "t = xs @ (key, v) # ys" by (meson split_list)
  have lt: "\<And>x. x \<in> set xs \<Longrightarrow> fst x < key" "\<And>y. y \<in> set ys \<Longrightarrow> key < fst y"
    using assms(1) unfolding t bt_inv_def by (auto simp: sorted_wrt_append)
  have "\<forall>x \<in> set xs. fst x < key" using lt(1) by blast
  from that[OF t lt] bt_insert_mid[OF this] show ?thesis unfolding t by blast
qed

lemma find_vma_loop_eq:
  "regions lo vs hi \<Longrightarrow> find_vma_loop vs a = Some (key, v) \<longleftrightarrow> (key, v) \<in> set vs \<and> in_vma v a"
proof (induction lo vs hi rule: regions.induct)
  case (2 lo k w t hi)
  have "\<not> in_vma v a" if "(key, v) \<in> set t" "in_vma w a"
    using regions_member[of "vma_end w" t hi key v] 2(2) that by (auto simp: in_vma_def)
  then show ?case using 2 by auto
qed simp

section \<open>Invariant of an address space\<close>

text \<open>
  The regions are disjoint and start at page boundaries, none crosses the end of the area for \<^verbatim>\<open>mmap\<close>, and the heap is the region at
  \<open>start_brk\<close> that ends at \<open>brk\<close>, within that area.
\<close>

definition mm_inv :: "'f MmStruct \<Rightarrow> bool" where
  "mm_inv mm \<longleftrightarrow> regions 0 (vmas mm) (2 ^ 39) \<and> range_closed (vmas mm) 0 MMAP_TOP \<and> start_brk mm < MMAP_TOP \<and>
     (\<forall>(key, v) \<in> set (vmas mm). is_align key) \<and>
     (\<exists>v. bt_get (start_brk mm) (vmas mm) = Some v \<and> vma_end v = brk mm)"

lemma mm_invD:
  assumes "mm_inv mm"
  shows "regions 0 (vmas mm) (2 ^ 39)" "range_closed (vmas mm) 0 MMAP_TOP" "start_brk mm < MMAP_TOP"
    "bt_inv (vmas mm)" "\<forall>(key, v) \<in> set (vmas mm). is_align key"
  using assms regions_bt_inv by (auto simp: mm_inv_def)

lemma heap_region:
  assumes "mm_inv mm"
  obtains v where "bt_get (start_brk mm) (vmas mm) = Some v" "(start_brk mm, v) \<in> set (vmas mm)"
    "vma_start v = start_brk mm" "vma_end v = brk mm" "start_brk mm < brk mm" "brk mm \<le> MMAP_TOP"
    "find_vma mm (start_brk mm) = Some (start_brk mm, v)"
proof -
  obtain v where v: "bt_get (start_brk mm) (vmas mm) = Some v" "vma_end v = brk mm"
    using assms by (auto simp: mm_inv_def)
  then have m: "(start_brk mm, v) \<in> set (vmas mm)" using bt.in_entries[OF mm_invD(4)[OF assms]] by simp
  note r = regions_member[OF mm_invD(1)[OF assms] m]
  moreover have "brk mm \<le> MMAP_TOP" using mm_invD(2,3)[OF assms] m r v(2) by (fastforce simp: range_closed_def)
  ultimately show ?thesis
    using that[OF v(1) m _ v(2)] find_vma_loop_eq[OF mm_invD(1)[OF assms]] m v(2)
    by (auto simp: find_vma_def in_vma_def)
qed

lemma MMAP_TOP_ok: "MMAP_TOP < 2 ^ 39" "is_align MMAP_TOP" "is_align USER_SPACE_START" "USER_SPACE_START = 0"
  by (simp_all add: MMAP_TOP_def USER_SPACE_START_def is_align_def PAGE_SIZE_def)

lemma as_isize_small: "x \<le> MMAP_TOP \<Longrightarrow> as_isize x = int x"
  by (simp add: as_isize_def MMAP_TOP_def)

text \<open>The highest place is just below a region or the end of the area, so it is aligned as well.\<close>

lemma highest_fit_align:
  assumes "mm_inv mm" "fits (vmas mm) 0 MMAP_TOP len a" "\<forall>b. fits (vmas mm) 0 MMAP_TOP len b \<longrightarrow> b \<le> a" "is_align len"
  shows "is_align a"
proof -
  have "\<not> fits (vmas mm) 0 MMAP_TOP len (a + 1)" using assms(3) by fastforce
  then have "a + len = MMAP_TOP \<or> (\<exists>(key, v) \<in> set (vmas mm). vma_start v = a + len)"
    using assms(2) by (fastforce simp: fits_def room_def)
  then have "is_align (a + len)"
    using mm_invD(5)[OF assms(1)] regions_member[OF mm_invD(1)[OF assms(1)]] MMAP_TOP_ok(2) by fastforce
  then show ?thesis using assms(4) by (simp add: is_align_def dvd_eq_mod_eq_0[symmetric] dvd_add_left_iff)
qed

lemma insert_region_inv:
  assumes inv: "mm_inv mm" and f: "fits (vmas mm) 0 MMAP_TOP (vma_end v - vma_start v) (vma_start v)"
    and len: "vma_start v < vma_end v" "is_align (vma_start v)"
  shows "\<exists>mm'. insert_no_check mm k v = Some (mm', k) \<and> mm_inv mm' \<and>
    bt_get (vma_start v) (vmas mm) = None \<and>
    mm' = mm\<lparr>vmas := vmas mm'\<rparr> \<and>
    (\<forall>a. bt_get a (vmas mm') = (if a = vma_start v then Some v else bt_get a (vmas mm)))"
proof -
  let ?t = "snd (bt_insert (vma_start v) v (vmas mm))"
  have R: "fst (bt_insert (vma_start v) v (vmas mm)) = None" "regions 0 ?t (2 ^ 39)"
    using bt_insert_regions[OF mm_invD(1)[OF inv], of v] f len MMAP_TOP_ok(1) by (auto simp: fits_def)
  have none: "bt_get (vma_start v) (vmas mm) = None" using R(1) bt.ins_old[OF mm_invD(4)[OF inv]] by metis
  note G = bt.ins_get[OF mm_invD(4)[OF inv], of _ "vma_start v" v]
  have "range_closed ?t 0 MMAP_TOP"
    using mm_invD(2)[OF inv] bt.entries_ins[OF mm_invD(4)[OF inv], of "vma_start v" v] f len
    by (auto simp: range_closed_def fits_def)
  moreover have "start_brk mm \<noteq> vma_start v" using none heap_region[OF inv] by (metis option.distinct(1))
  moreover have "\<forall>(key, v) \<in> set ?t. is_align key"
    using mm_invD(5)[OF inv] len(2) bt.entries_ins[OF mm_invD(4)[OF inv], of "vma_start v" v] by auto
  ultimately have "mm_inv (mm\<lparr>vmas := ?t\<rparr>)" using inv R(2) G by (auto simp: mm_inv_def)
  moreover have "insert_no_check mm k v = Some (mm\<lparr>vmas := ?t\<rparr>, k)"
    using R(1) by (cases "bt_insert (vma_start v) v (vmas mm)") (simp add: insert_no_check_def)
  ultimately show ?thesis using none G by (intro exI[of _ "mm\<lparr>vmas := ?t\<rparr>"]) auto
qed

section \<open>Growing the heap\<close>

lemma regions_grow:
  assumes "regions lo (xs @ (key, v) # ys) hi" "vma_end v \<le> b" "b \<le> hi"
    and "\<forall>(k, w) \<in> set ys. b \<le> vma_start w"
  shows "regions lo (xs @ (key, v\<lparr>vma_end := b\<rparr>) # ys) hi"
proof -
  obtain mid where m: "regions lo xs mid" "regions mid ((key, v) # ys) hi"
    using assms(1) by (auto simp: regions_append)
  have "regions b ys hi" using m(2) assms(3,4) by (cases ys) auto
  with m assms(2) show ?thesis by (auto simp: regions_append intro!: exI[of _ mid])
qed

text \<open>The part of the map from the heap on: the check looks at the region after the heap.\<close>

lemma expand_check:
  assumes R: "regions lo ys hi" and a: "a \<le> lo"
  shows "(case filter (\<lambda>(k, w). a \<le> k \<and> k < e) ys of [] \<Rightarrow> b > e | (start, _) # _ \<Rightarrow> start < b) \<longleftrightarrow>
    b > e \<or> (\<exists>(k, w) \<in> set ys. vma_start w < b)"
proof (cases ys)
  case (Cons y t)
  obtain k w where y: "y = (k, w)" by (cases y)
  have kw: "k = vma_start w" "a \<le> k" "regions (vma_end w) t hi" "vma_start w < vma_end w"
    using R a unfolding Cons y by auto
  have later: "k \<le> k'" "vma_start w' = k'" if "(k', w') \<in> set t" for k' w'
    using regions_member[OF kw(3) that] kw(1,4) by auto
  show ?thesis
  proof (cases "k < e")
    case True
    then show ?thesis using kw later unfolding Cons y by fastforce
  next
    case False
    then have "filter (\<lambda>(k, w). a \<le> k \<and> k < e) ys = []"
      using later unfolding Cons y by (fastforce simp: filter_empty_conv)
    then show ?thesis using False kw later unfolding Cons y by fastforce
  qed
qed simp

definition heap_can_grow :: "'f MmStruct \<Rightarrow> vaddr \<Rightarrow> bool" where
  "heap_can_grow mm b \<longleftrightarrow> b \<le> MMAP_TOP \<and>
     (\<forall>(key, v) \<in> set (vmas mm). vma_start v < b \<longrightarrow> vma_start v \<le> start_brk mm)"

lemma expand_brk_ok:
  assumes inv: "mm_inv mm" and b: "brk mm \<le> b"
  shows "\<exists>mm'. expand_brk mm b = Some (if heap_can_grow mm b then Inr () else Inl (), mm') \<and> mm_inv mm' \<and>
    (if heap_can_grow mm b
     then \<exists>xs v ys. vmas mm = xs @ (start_brk mm, v) # ys \<and>
       mm' = mm\<lparr>brk := b, vmas := xs @ (start_brk mm, v\<lparr>vma_end := b\<rparr>) # ys\<rparr>
     else mm' = mm)"
proof -
  obtain v where v: "bt_get (start_brk mm) (vmas mm) = Some v" "vma_start v = start_brk mm" "vma_end v = brk mm"
    "start_brk mm < brk mm" "find_vma mm (start_brk mm) = Some (start_brk mm, v)"
    by (rule heap_region[OF inv])
  obtain xs ys where vs: "vmas mm = xs @ (start_brk mm, v) # ys" "\<And>x. x \<in> set xs \<Longrightarrow> fst x < start_brk mm"
    "\<And>y. y \<in> set ys \<Longrightarrow> start_brk mm < fst y"
    "\<And>v'. bt_insert (start_brk mm) v' (vmas mm) = (Some v, xs @ (start_brk mm, v') # ys)"
    using bt_insert_existing[OF mm_invD(4)[OF inv] v(1)] by blast
  note R = mm_invD(1)[OF inv, unfolded vs(1)]
  then have ys: "regions (brk mm) ys (2 ^ 39)" using v(3) by (auto simp: regions_append)
  let ?f = "\<lambda>(k, w). start_brk mm \<le> k \<and> k < MMAP_TOP"
  have "filter ?f xs = []" using vs(2) by (fastforce simp: filter_empty_conv)
  then have r: "bt_range (start_brk mm) MMAP_TOP (vmas mm) = Some ((start_brk mm, v) # filter ?f ys)"
    using mm_invD(3)[OF inv] by (simp add: bt_range_def vs(1))
  have key: "key = vma_start w" if "(key, w) \<in> set (vmas mm)" for key w
    using regions_member[OF mm_invD(1)[OF inv] that] by simp
  have grow: "heap_can_grow mm b \<longleftrightarrow> \<not> (b > MMAP_TOP \<or> (\<exists>(k, w) \<in> set ys. vma_start w < b))"
    using key vs(2,3) v(2) unfolding heap_can_grow_def vs(1) by fastforce
  note C = expand_check[OF ys, of "start_brk mm" MMAP_TOP b, folded grow[unfolded not_not]]
  show ?thesis
  proof (cases "heap_can_grow mm b")
    case False
    then show ?thesis using r C v(4) inv grow by (auto simp: expand_brk_def)
  next
    case True
    let ?vs = "xs @ (start_brk mm, v\<lparr>vma_end := b\<rparr>) # ys"
    let ?mm = "mm\<lparr>brk := b, vmas := ?vs\<rparr>"
    have "regions 0 ?vs (2 ^ 39)"
      using True b v(3) MMAP_TOP_ok(1) by (intro regions_grow[OF R]) (auto simp: grow)
    moreover have "range_closed ?vs 0 MMAP_TOP"
      using True mm_invD(2)[OF inv] by (auto simp: range_closed_def vs(1) grow)
    moreover have "bt_get (start_brk mm) ?vs = Some (v\<lparr>vma_end := b\<rparr>)"
      using bt.in_entries[OF regions_bt_inv[OF calculation(1)]] by auto
    moreover have "\<forall>(key, v) \<in> set ?vs. is_align key" using mm_invD(5)[OF inv] by (simp add: vs(1))
    ultimately have "mm_inv ?mm" using mm_invD(3)[OF inv] by (simp add: mm_inv_def)
    moreover have "expand_brk mm b = Some (Inr (), ?mm)"
      using r C v(4,5) True grow vs(4) by (auto simp: expand_brk_def put_vma_def Let_def)
    ultimately show ?thesis using True vs(1) by (intro exI[of _ ?mm]) auto
  qed
qed

end
