(* ===== verification/K_Mm_Calls.thy ===== *)
theory K_Mm_Calls
  imports K_Mm_Regions
begin

text \<open>
  The system calls \<^verbatim>\<open>mmap\<close> and \<^verbatim>\<open>brk\<close> and the page fault handler on the regions of an address space.
\<close>

section \<open>The program break\<close>

lemma put_vma_same: "bt_inv (vmas mm) \<Longrightarrow> bt_get key (vmas mm) = Some v \<Longrightarrow> put_vma mm key v = mm"
  by (rule bt_insert_existing[of "vmas mm" key v]) (auto simp: put_vma_def)

lemma shrink_brk_refused:
  assumes inv: "mm_inv mm" and b: "start_brk mm \<le> b" "b < brk mm"
  shows "shrink_brk mm k b = Some (Inl (), mm, k)"
proof -
  obtain v where v: "bt_get (start_brk mm) (vmas mm) = Some v" "vma_start v = start_brk mm" "vma_end v = brk mm"
    "find_vma mm (start_brk mm) = Some (start_brk mm, v)"
    by (rule heap_region[OF inv])
  have "in_vma v b" using v(2,3) b by (simp add: in_vma_def)
  then show ?thesis
    using v(4) put_vma_same[OF mm_invD(4)[OF inv] v(1)] by (simp add: shrink_brk_def vma_split_def)
qed

text \<open>A small address space with a heap and a region near the end of the area for \<^verbatim>\<open>mmap\<close>.\<close>

definition sample_mm :: "unit MmStruct" where
  "sample_mm = \<lparr>mm_is_kern = False, mm_pagetable = \<lparr>private_pgs = [0xFFFFFFD880200000]\<rparr>,
     vmas = [(0x12000, (VMA_empty 0x12000 0x13000)\<lparr>has_pagetable := True\<rparr>),
       (0x7FF0000, (VMA_empty 0x7FF0000 0x7FF8000)\<lparr>has_pagetable := True\<rparr>)],
     start_brk = 0x12000, brk = 0x13000\<rparr>"

lemma sample_mm_inv: "mm_inv sample_mm"
  by (simp add: mm_inv_def sample_mm_def VMA_empty_def range_closed_def MMAP_TOP_def bt_get_def
      is_align_def PAGE_SIZE_def)

lemma sample_mm_fields:
  "brk sample_mm = 0x13000" "start_brk sample_mm = 0x12000"
  "heap_can_grow sample_mm 0x20000" "\<not> heap_can_grow sample_mm 0x7FF1000"
  by (simp_all add: sample_mm_def heap_can_grow_def VMA_empty_def MMAP_TOP_def)

lemma sample_mm_fits:
  "fits (vmas sample_mm) 0 MMAP_TOP 0x2000 a \<longleftrightarrow>
     a \<le> 0x10000 \<or> 0x13000 \<le> a \<and> a \<le> 0x7FEE000 \<or> 0x7FF8000 \<le> a \<and> a \<le> 0x7FFE000"
  by (auto simp: sample_mm_def fits_def VMA_empty_def MMAP_TOP_def)

lemma sys_brk_ok:
  assumes inv: "mm_inv mm"
  shows "\<exists>mm'. sys_brk mm k b =
      Some (if b = 0 then int (brk mm)
            else if b = brk mm \<or> brk mm < b \<and> heap_can_grow mm b then int b else -1, mm', k) \<and>
    mm_inv mm' \<and> brk mm' = (if brk mm < b \<and> heap_can_grow mm b then b else brk mm) \<and>
    start_brk mm' = start_brk mm \<and>
    (\<forall>a. a \<noteq> start_brk mm \<longrightarrow> bt_get a (vmas mm') = bt_get a (vmas mm)) \<and>
    (if brk mm < b \<and> heap_can_grow mm b
     then \<exists>xs v ys. vmas mm = xs @ (start_brk mm, v) # ys \<and>
       mm' = mm\<lparr>brk := b, vmas := xs @ (start_brk mm, v\<lparr>vma_end := b\<rparr>) # ys\<rparr>
     else mm' = mm)"
proof -
  have h: "start_brk mm < brk mm" "brk mm \<le> MMAP_TOP" by (rule heap_region[OF inv], simp)+
  consider "b \<le> brk mm" | "brk mm < b" by linarith
  then show ?thesis
  proof cases
    case 1
    then show ?thesis
      using shrink_brk_refused[OF inv, of b k] inv h as_isize_small[of b] as_isize_small[of "brk mm"]
      by (auto simp: sys_brk_def Let_def)
  next
    case 2
    obtain mm' where e: "expand_brk mm b = Some (if heap_can_grow mm b then Inr () else Inl (), mm')" "mm_inv mm'"
      "if heap_can_grow mm b
       then \<exists>xs v ys. vmas mm = xs @ (start_brk mm, v) # ys \<and>
         mm' = mm\<lparr>brk := b, vmas := xs @ (start_brk mm, v\<lparr>vma_end := b\<rparr>) # ys\<rparr>
       else mm' = mm"
      using expand_brk_ok[OF inv, of b] 2 by auto
    have "heap_can_grow mm b \<Longrightarrow> as_isize b = int b" by (rule as_isize_small) (simp add: heap_can_grow_def)
    moreover have "bt_get a (vmas mm') = bt_get a (vmas mm)" if "a \<noteq> start_brk mm" for a
      using e(3) that by (auto simp: bt_get_def map_add_def split: if_splits option.splits)
    moreover have "start_brk mm' = start_brk mm" "brk mm' = (if heap_can_grow mm b then b else brk mm)"
      using e(3) by (auto split: if_splits)
    ultimately show ?thesis using e 2 h by (intro exI[of _ mm']) (simp add: sys_brk_def Let_def)
  qed
qed

text \<open>
  C16: the program break.  \<^verbatim>\<open>brk(0)\<close> returns the break.  A break above the current one is accepted
  exactly if it is not above the area for \<^verbatim>\<open>mmap\<close> and no region lies in the way, and then the break and the
  end of the heap's region are set to it and nothing else of the address space changes: the other regions, the pages
  and flags of the heap, and the page table stay.  In every other case the address space stays
  as it is: a break that is refused and every attempt to lower the break return -1.  The kernel's memory
  never changes.
\<close>

theorem sys_brk_correct:
  assumes inv: "mm_inv mm"
  shows "\<exists>mm'. sys_brk mm k b =
      Some (if b = 0 then int (brk mm)
            else if b = brk mm \<or> brk mm < b \<and> heap_can_grow mm b then int b else -1, mm', k) \<and>
    mm_inv mm' \<and> brk mm' = (if brk mm < b \<and> heap_can_grow mm b then b else brk mm) \<and>
    start_brk mm' = start_brk mm \<and>
    (\<forall>a. a \<noteq> start_brk mm \<longrightarrow> bt_get a (vmas mm') = bt_get a (vmas mm)) \<and>
    (if brk mm < b \<and> heap_can_grow mm b
     then \<exists>xs v ys. vmas mm = xs @ (start_brk mm, v) # ys \<and>
       mm' = mm\<lparr>brk := b, vmas := xs @ (start_brk mm, v\<lparr>vma_end := b\<rparr>) # ys\<rparr>
     else mm' = mm)"
  by (rule sys_brk_ok[OF inv])

theorem sys_brk_correct_witness:
  "\<forall>k. (\<exists>mm'. sys_brk sample_mm k 0x20000 = Some (0x20000, mm', k) \<and> brk mm' = 0x20000) \<and>
   sys_brk sample_mm k 0x7FF1000 = Some (-1, sample_mm, k) \<and> sys_brk sample_mm k 0x12800 = Some (-1, sample_mm, k)"
proof (intro allI conjI)
  fix k
  show "\<exists>mm'. sys_brk sample_mm k 0x20000 = Some (0x20000, mm', k) \<and> brk mm' = 0x20000"
    using sys_brk_correct[OF sample_mm_inv, of k "0x20000"] by (auto simp: sample_mm_fields)
  show "sys_brk sample_mm k 0x7FF1000 = Some (-1, sample_mm, k)"
    using sys_brk_correct[OF sample_mm_inv, of k "0x7FF1000"] by (auto simp: sample_mm_fields)
  show "sys_brk sample_mm k 0x12800 = Some (-1, sample_mm, k)"
    using sys_brk_correct[OF sample_mm_inv, of k "0x12800"] by (auto simp: sample_mm_fields)
qed

section \<open>Mapping memory\<close>

lemma mmap_search:
  assumes inv: "mm_inv mm" and len: "is_align len"
  shows "\<exists>r. alloc_unmapped_core mm None len False USER_SPACE_START MMAP_TOP = Some r \<and>
    (if MMAP_TOP \<le> len then r = None else best_fit (fits (vmas mm) 0 MMAP_TOP len) len False r)"
  using alloc_unmapped_ok[of 0 mm "2 ^ 39" 0 MMAP_TOP len False] mm_invD[OF inv] len MMAP_TOP_ok
  by (auto simp: MMAP_TOP_def)

definition mmap_region :: "'f VMA \<Rightarrow> vaddr \<Rightarrow> usize \<Rightarrow> u64 \<Rightarrow> u64 \<Rightarrow> ('f \<times> bool \<times> usize) option \<Rightarrow> usize \<Rightarrow> bool" where
  "mmap_region v a len prot flags fd offset \<longleftrightarrow>
     vma_start v = a \<and> vma_end v = a + len \<and> vm_flags v = from_mmap flags prot \<and> pages_tree v = [] \<and>
     has_pagetable v \<and>
     (if flag_in flags MAP_ANONYMOUS then vma_file v = None
      else \<exists>inode flen. fd = Some (inode, False, flen) \<and> vma_file v = Some inode \<and> file_off v = offset \<and>
        file_in_vma_off v = 0 \<and> file_len v = min len flen)"

definition mmap_result ::
    "'f MmStruct \<Rightarrow> usize \<Rightarrow> u64 \<Rightarrow> u64 \<Rightarrow> ('f \<times> bool \<times> usize) option \<Rightarrow> usize \<Rightarrow> int \<Rightarrow> 'f MmStruct \<Rightarrow> bool" where
  "mmap_result mm len prot flags fd offset r mm' \<longleftrightarrow>
     (if MMAP_TOP \<le> len \<or> (\<forall>a. \<not> fits (vmas mm) 0 MMAP_TOP len a) \<or>
        \<not> flag_in flags MAP_ANONYMOUS \<and> (case fd of None \<Rightarrow> True | Some (inode, is_dir, flen) \<Rightarrow> is_dir)
      then r = -1 \<and> mm' = mm
      else \<exists>a v. r = int a \<and> fits (vmas mm) 0 MMAP_TOP len a \<and> (\<forall>b. fits (vmas mm) 0 MMAP_TOP len b \<longrightarrow> b \<le> a) \<and>
        mmap_region v a len prot flags fd offset \<and>
        (\<forall>x. bt_get x (vmas mm') = (if x = a then Some v else bt_get x (vmas mm))))"

lemma sys_mmap_ok:
  assumes inv: "mm_inv mm" and len: "is_align len" "0 < len"
  shows "\<exists>r mm'. sys_mmap mm k 0 len prot flags fd offset = Some (r, mm', k) \<and> mm_inv mm' \<and>
    mmap_result mm len prot flags fd offset r mm'"
proof -
  obtain r where r: "alloc_unmapped_core mm None len False USER_SPACE_START MMAP_TOP = Some r"
    "if MMAP_TOP \<le> len then r = None else best_fit (fits (vmas mm) 0 MMAP_TOP len) len False r"
    using mmap_search[OF inv len(1)] by blast
  have ins: "\<exists>mm'. insert_no_check mm k v = Some (mm', k) \<and> mm_inv mm' \<and> as_isize a = int a \<and>
      (\<forall>x. bt_get x (vmas mm') = (if x = a then Some v else bt_get x (vmas mm)))"
    if "fits (vmas mm) 0 MMAP_TOP len a" "\<forall>b. fits (vmas mm) 0 MMAP_TOP len b \<longrightarrow> b \<le> a"
      "vma_start v = a" "vma_end v = a + len" for v a
    using insert_region_inv[OF inv, of v k] highest_fit_align[OF inv that(1,2) len(1)] that(1,3,4) len(2)
      as_isize_small[of a] by (auto simp: fits_def)
  show ?thesis
  proof (cases r)
    case None
    then have "MMAP_TOP \<le> len \<or> (\<forall>a. \<not> fits (vmas mm) 0 MMAP_TOP len a)"
      using r(2) by (auto simp: best_fit_def split: if_splits)
    then show ?thesis
      using None r(1) inv by (auto simp: sys_mmap_def alloc_mmap_anon_def alloc_mmap_file_def mmap_result_def
        rust_ops split: option.splits)
  next
    case (Some v)
    then obtain a where a: "\<not> MMAP_TOP \<le> len" "v = VMA_empty a (a + len)" "fits (vmas mm) 0 MMAP_TOP len a"
      "\<forall>b. fits (vmas mm) 0 MMAP_TOP len b \<longrightarrow> b \<le> a"
      using r(2) by (auto simp: best_fit_def split: if_splits)
    show ?thesis
    proof (cases "flag_in flags MAP_ANONYMOUS")
      case True
      define w where "w = v\<lparr>has_pagetable := True, vm_flags := from_mmap flags prot\<rparr>"
      have w: "vma_start w = a" "vma_end w = a + len" by (simp_all add: w_def a(2) VMA_empty_def)
      have "mmap_region w a len prot flags fd offset"
        using True by (simp add: w_def mmap_region_def a(2) VMA_empty_def)
      moreover have "sys_mmap mm k 0 len prot flags fd offset =
          Option.bind (insert_no_check mm k w) (\<lambda>(mm, k). Some (as_isize a, mm, k))"
        using True Some r(1) w(1) by (simp add: sys_mmap_def alloc_mmap_anon_def w_def)
      ultimately show ?thesis
        using ins[OF a(3,4) w] True a by (fastforce simp: mmap_result_def)
    next
      case False
      show ?thesis
      proof (cases "case fd of None \<Rightarrow> True | Some (inode, is_dir, flen) \<Rightarrow> is_dir")
        case True
        then show ?thesis using False inv
          by (auto simp: sys_mmap_def mmap_result_def split: option.splits)
      next
        case nd: False
        then obtain inode flen where fd: "fd = Some (inode, False, flen)" by (auto split: option.splits)
        define w where "w = v\<lparr>has_pagetable := True, file_off := offset, vma_file := Some inode,
          vm_flags := from_mmap flags prot, file_len := min len flen, file_in_vma_off := 0\<rparr>"
        have w: "vma_start w = a" "vma_end w = a + len" by (simp_all add: w_def a(2) VMA_empty_def)
        have "mmap_region w a len prot flags fd offset"
          using False by (simp add: w_def mmap_region_def a(2) VMA_empty_def fd)
        moreover have "sys_mmap mm k 0 len prot flags fd offset =
            Option.bind (insert_no_check mm k w) (\<lambda>(mm, k). Some (as_isize a, mm, k))"
          using False Some r(1) w(1) by (simp add: sys_mmap_def alloc_mmap_file_def w_def fd rust_ops)
        ultimately show ?thesis
          using ins[OF a(3,4) w] False nd a by (fastforce simp: mmap_result_def)
      qed
    qed
  qed
qed

text \<open>
  C15: \<^verbatim>\<open>mmap\<close> without an address.  For a whole number of pages the call never panics.  It returns -1
  and changes nothing if no place below the end of the area is free, if the length is the whole area
  or more, or if a file mapping has no file or a directory; otherwise it returns the highest free
  place and adds there a region with the access rights and the part of the file asked for.  The
  regions stay disjoint.
\<close>

theorem sys_mmap_correct:
  assumes "mm_inv mm" "is_align len" "0 < len"
  shows "\<exists>r mm'. sys_mmap mm k 0 len prot flags fd offset = Some (r, mm', k) \<and> mm_inv mm' \<and>
    mmap_result mm len prot flags fd offset r mm'"
  by (rule sys_mmap_ok[OF assms])

theorem sys_mmap_correct_witness:
  "\<forall>k. \<exists>mm' v. sys_mmap sample_mm k 0 0x2000 PROT_READ MAP_ANONYMOUS None 0 = Some (0x7FFE000, mm', k) \<and>
     bt_get 0x7FFE000 (vmas mm') = Some v \<and> vma_end v = 0x8000000"
proof
  fix k
  have len: "is_align 0x2000" "0 < (0x2000 :: nat)" by (simp_all add: is_align_def PAGE_SIZE_def)
  obtain r mm' where r: "sys_mmap sample_mm k 0 0x2000 PROT_READ MAP_ANONYMOUS None 0 = Some (r, mm', k)"
    "mmap_result sample_mm 0x2000 PROT_READ MAP_ANONYMOUS None 0 r mm'"
    using sys_mmap_correct[OF sample_mm_inv len] by blast
  have an: "flag_in MAP_ANONYMOUS MAP_ANONYMOUS" by (simp add: flag_in_def)
  have "\<not> MMAP_TOP \<le> 0x2000" "fits (vmas sample_mm) 0 MMAP_TOP 0x2000 0x7FFE000"
    by (simp add: MMAP_TOP_def, simp add: sample_mm_fits)
  with r(2) an obtain a v where a: "r = int a" "fits (vmas sample_mm) 0 MMAP_TOP 0x2000 a"
    "\<forall>b. fits (vmas sample_mm) 0 MMAP_TOP 0x2000 b \<longrightarrow> b \<le> a"
    "mmap_region v a 0x2000 PROT_READ MAP_ANONYMOUS None 0" "bt_get a (vmas mm') = Some v"
    unfolding mmap_result_def by (auto split: if_splits)
  have "0x7FFE000 \<le> a" using a(3) \<open>fits (vmas sample_mm) 0 MMAP_TOP 0x2000 0x7FFE000\<close> by blast
  then have "a = 0x7FFE000" using a(2) unfolding sample_mm_fits by linarith
  with a r(1) show "\<exists>mm' v. sys_mmap sample_mm k 0 0x2000 PROT_READ MAP_ANONYMOUS None 0 = Some (0x7FFE000, mm', k) \<and>
     bt_get 0x7FFE000 (vmas mm') = Some v \<and> vma_end v = 0x8000000"
    by (auto simp: mmap_region_def)
qed

section \<open>A request for an address\<close>

text \<open>
  \<^verbatim>\<open>mmap\<close> at an address inside a region.  The check looks only at the regions that start at or above
  the address.  If a region starts below the address and contains it, the request is granted although
  the place is in use, and the address space then has two regions that contain the address.
\<close>

theorem mmap_fixed_overlap:
  assumes inv: "mm_inv mm" and v: "bt_get key (vmas mm) = Some v" "key < va" "in_vma v va"
    and al: "is_align va" "is_align len" and len: "0 < len" "va + len \<le> MMAP_TOP" "len < MMAP_TOP"
    and above: "\<forall>(b, w) \<in> set (vmas mm). b < va \<or> va + len \<le> b"
    and anon: "flag_in flags MAP_ANONYMOUS"
  shows "\<exists>mm' w. sys_mmap mm k va len prot flags fd offset = Some (int va, mm', k) \<and>
    bt_get key (vmas mm') = Some v \<and> bt_get va (vmas mm') = Some w \<and> key \<noteq> va \<and>
    in_vma v va \<and> in_vma w va \<and> \<not> mm_inv mm'"
proof -
  define w :: "'a VMA" where "w = (VMA_empty va (va + len))\<lparr>has_pagetable := True, vm_flags := from_mmap flags prot\<rparr>"
  have va: "va \<noteq> 0" "va < MMAP_TOP" using v(2) len by auto
  have R: "bt_range va MMAP_TOP (vmas mm) = Some (filter (\<lambda>(k, w). va \<le> k \<and> k < MMAP_TOP) (vmas mm))"
    using va by (simp add: bt_range_def)
  have "alloc_unmapped_fixed mm va len USER_SPACE_START MMAP_TOP = Some (Some (VMA_empty va (va + len)))"
  proof (cases "filter (\<lambda>(k, w). va \<le> k \<and> k < MMAP_TOP) (vmas mm)")
    case Nil
    then show ?thesis using R len MMAP_TOP_ok(1) by (simp add: alloc_unmapped_fixed_def rust_ops)
  next
    case (Cons x t)
    obtain b u where x: "x = (b, u)" by (cases x)
    have "x \<in> set (filter (\<lambda>(k, w). va \<le> k \<and> k < MMAP_TOP) (vmas mm))" using Cons by simp
    then have "va + len \<le> b" using above x by fastforce
    then show ?thesis using R Cons x len MMAP_TOP_ok(1) by (simp add: alloc_unmapped_fixed_def rust_ops)
  qed
  then have "alloc_unmapped_core mm (Some va) len False USER_SPACE_START MMAP_TOP = Some (Some (VMA_empty va (va + len)))"
    using va al len MMAP_TOP_ok by (simp add: alloc_unmapped_core_def rust_ops)
  then have run: "sys_mmap mm k va len prot flags fd offset =
      Option.bind (insert_no_check mm k w) (\<lambda>(mm, k). Some (as_isize va, mm, k))"
    using anon va(1) by (simp add: sys_mmap_def alloc_mmap_anon_def w_def VMA_empty_def)
  have "bt_get va (vmas mm) = None"
    using above len(1) bt.in_entries[OF mm_invD(4)[OF inv], of va] by (cases "bt_get va (vmas mm)") fastforce+
  then have "fst (bt_insert va w (vmas mm)) = None" using bt.ins_old[OF mm_invD(4)[OF inv]] by metis
  moreover define mm' where "mm' = mm\<lparr>vmas := snd (bt_insert va w (vmas mm))\<rparr>"
  ultimately have "insert_no_check mm k w = Some (mm', k)"
    by (cases "bt_insert va w (vmas mm)") (simp add: insert_no_check_def w_def VMA_empty_def)
  moreover have g: "bt_get key (vmas mm') = Some v" "bt_get va (vmas mm') = Some w"
    using bt.ins_get[OF mm_invD(4)[OF inv]] v(1,2) by (auto simp: mm'_def)
  moreover have w: "in_vma w va" using len(1) by (simp add: in_vma_def w_def VMA_empty_def)
  moreover have "\<not> mm_inv mm'"
  proof
    assume i: "mm_inv mm'"
    have "(key, v) \<in> set (vmas mm')" "(va, w) \<in> set (vmas mm')" using g bt.in_entries[OF mm_invD(4)[OF i]] by auto
    then have "find_vma_loop (vmas mm') va = Some (key, v)" "find_vma_loop (vmas mm') va = Some (va, w)"
      using find_vma_loop_eq[OF mm_invD(1)[OF i]] v(3) w by auto
    then show False using v(2) by simp
  qed
  ultimately show ?thesis using run v(2,3) as_isize_small[of va] va(2) by auto
qed

theorem mmap_fixed_overlap_witness:
  "\<forall>k. \<exists>mm' w. sys_mmap sample_mm k 0x7FF1000 0x1000 PROT_READ MAP_ANONYMOUS None 0 = Some (0x7FF1000, mm', k) \<and>
     bt_get 0x7FF1000 (vmas mm') = Some w \<and> \<not> mm_inv mm'"
proof
  fix k
  let ?v = "(VMA_empty 0x7FF0000 0x7FF8000)\<lparr>has_pagetable := True\<rparr>"
  have "bt_get 0x7FF0000 (vmas sample_mm) = Some ?v" "(0x7FF0000::nat) < 0x7FF1000" "in_vma ?v 0x7FF1000"
    "is_align 0x7FF1000" "is_align 0x1000" "0 < (0x1000::nat)" "0x7FF1000 + 0x1000 \<le> MMAP_TOP" "0x1000 < MMAP_TOP"
    "\<forall>(b, w) \<in> set (vmas sample_mm). b < 0x7FF1000 \<or> 0x7FF1000 + 0x1000 \<le> b" "flag_in MAP_ANONYMOUS MAP_ANONYMOUS"
    by (simp_all add: bt_get_def sample_mm_def VMA_empty_def in_vma_def is_align_def PAGE_SIZE_def MMAP_TOP_def
        flag_in_def)
  from mmap_fixed_overlap[OF sample_mm_inv this, of k PROT_READ None 0] show "\<exists>mm' w. sys_mmap sample_mm k 0x7FF1000 0x1000 PROT_READ
      MAP_ANONYMOUS None 0 = Some (0x7FF1000, mm', k) \<and> bt_get 0x7FF1000 (vmas mm') = Some w \<and> \<not> mm_inv mm'"
    by auto
qed

section \<open>Sequences of calls\<close>

lemma case_sum_if: "case_sum f g x = (if isl x then f (projl x) else g (projr x))"
  by (cases x) auto

lemma fast_alloc_shape:
  "fast_alloc_one_page_and_get v pt k a = Some (pg, v', pt', k') \<Longrightarrow>
   vma_start v' = vma_start v \<and> vma_end v' = vma_end v \<and> vma_file v' = vma_file v"
  unfolding fast_alloc_one_page_and_get_def
  by (auto simp: bind_eq_Some_conv case_sum_if split: if_splits)

text \<open>Every result of a run satisfies a predicate; the rules follow the structure of the run.\<close>

definition ends_in :: "'a run \<Rightarrow> ('a \<Rightarrow> bool) \<Rightarrow> bool" where
  "ends_in m P \<longleftrightarrow> (\<forall>x. m = Some x \<longrightarrow> P x)"

lemma ends_bind: "ends_in m Q \<Longrightarrow> (\<And>x. Q x \<Longrightarrow> ends_in (f x) P) \<Longrightarrow> ends_in (m \<bind> f) P"
  by (cases m) (auto simp: ends_in_def)

lemma ends_skip: "(\<And>x. ends_in (f x) P) \<Longrightarrow> ends_in (m \<bind> f) P"
  by (cases m) (auto simp: ends_in_def)

lemma ends_if: "(b \<Longrightarrow> ends_in m P) \<Longrightarrow> (\<not> b \<Longrightarrow> ends_in m' P) \<Longrightarrow> ends_in (if b then m else m') P"
  by simp

lemma ends_Some: "P x \<Longrightarrow> ends_in (Some x) P"
  by (simp add: ends_in_def)

definition same_bounds :: "'f VMA \<Rightarrow> 'f VMA \<Rightarrow> bool" where
  "same_bounds v w \<longleftrightarrow> vma_start w = vma_start v \<and> vma_end w = vma_end v"

lemma ends_fast: "ends_in (fast_alloc_one_page_and_get v pt k a) (\<lambda>(pg, w, pt, k). same_bounds v w)"
  using fast_alloc_shape[of v pt k a] by (auto simp: ends_in_def same_bounds_def)

lemma do_alloc_shape:
  assumes "do_alloc_one_page fread v pt k a = Some (r, v', pt', k')"
  shows "vma_start v' = vma_start v \<and> vma_end v' = vma_end v"
proof -
  let ?Q = "\<lambda>(pg, w, pt, k). same_bounds v w"
  have f: "ends_in (fast_alloc_one_page_and_get v pt k a \<bind> f) ?Q"
    if "\<And>pg w pt k. same_bounds v w \<Longrightarrow> ends_in (f (pg, w, pt, k)) ?Q"
    for f :: "vaddr \<times> 'a VMA \<times> PageTable \<times> Kern \<Rightarrow> (vaddr \<times> 'a VMA \<times> PageTable \<times> Kern) run"
    by (rule ends_bind[OF ends_fast]) (use that in auto)
  have "ends_in (do_alloc_one_page fread v pt k a) (\<lambda>(r, w, pt, k). same_bounds v w)"
    unfolding do_alloc_one_page_def
    apply (rule ends_if, rule ends_Some, simp add: same_bounds_def)
    apply (rule ends_bind[where Q = ?Q])
    subgoal by (intro ends_if f ends_fast ends_skip) (auto intro!: ends_skip ends_Some)
    subgoal by (auto simp: Let_def set_dirty_def same_bounds_def intro!: ends_Some)
    done
  then show ?thesis using assms by (auto simp: ends_in_def same_bounds_def)
qed

lemma same_bounds_regions:
  assumes "vma_start v' = vma_start v" "vma_end v' = vma_end v"
  shows "regions lo (xs @ (key, v') # ys) hi = regions lo (xs @ (key, v) # ys) hi"
    "range_closed (xs @ (key, v') # ys) lo hi = range_closed (xs @ (key, v) # ys) lo hi"
  using assms by (auto simp: regions_append range_closed_def)

lemma put_vma_inv:
  assumes inv: "mm_inv mm" and v: "(key, v) \<in> set (vmas mm)"
    and v': "vma_start v' = vma_start v" "vma_end v' = vma_end v"
  shows "mm_inv (put_vma mm key v')"
proof -
  have "bt_get key (vmas mm) = Some v" using v bt.in_entries[OF mm_invD(4)[OF inv]] by simp
  then obtain xs ys where vs: "vmas mm = xs @ (key, v) # ys"
    "bt_insert key v' (vmas mm) = (Some v, xs @ (key, v') # ys)"
    using bt_insert_existing[OF mm_invD(4)[OF inv]] by metis
  obtain h where h: "bt_get (start_brk mm) (vmas mm) = Some h" "vma_end h = brk mm" by (rule heap_region[OF inv])
  have "\<exists>h'. bt_get (start_brk mm) (snd (bt_insert key v' (vmas mm))) = Some h' \<and> vma_end h' = brk mm"
    using h v'(2) \<open>bt_get key (vmas mm) = Some v\<close> bt.ins_get[OF mm_invD(4)[OF inv]] by auto
  moreover have "\<forall>(key, v) \<in> set (xs @ (key, v') # ys). is_align key" using mm_invD(5)[OF inv] by (simp add: vs(1))
  ultimately show ?thesis
    using mm_invD(1-3)[OF inv] same_bounds_regions[OF v']
    by (simp add: mm_inv_def put_vma_def vs(2)) (simp add: vs(1))
qed

lemma fault_inv:
  assumes inv: "mm_inv mm" and f: "trap_page_fault_handler fread mm k va = Some (r, mm', k')"
  shows "mm_inv mm'"
proof -
  obtain a key v r' v' pt' where *: "find_vma mm a = Some (key, v)"
    "do_alloc_one_page fread v (mm_pagetable mm) k a = Some (r', v', pt', k')"
    "mm' = (put_vma mm key v')\<lparr>mm_pagetable := pt'\<rparr>"
    using f by (auto simp: trap_page_fault_handler_def bind_eq_Some_conv case_sum_if split: if_splits)
  have "(key, v) \<in> set (vmas mm)" using *(1) find_vma_loop_eq[OF mm_invD(1)[OF inv]] by (simp add: find_vma_def)
  from put_vma_inv[OF inv this] do_alloc_shape[OF *(2)] have "mm_inv (put_vma mm key v')" by simp
  then show ?thesis by (simp add: *(3) mm_inv_def)
qed

lemma mmap_step_inv:
  assumes inv: "mm_inv mm" and m: "sys_mmap mm k 0 len prot flags fd offset = Some (r, mm', k')" and len: "0 < len"
  shows "mm_inv mm'"
proof (cases "is_align len")
  case True
  with sys_mmap_ok[OF inv this len, of k prot flags fd offset] m show ?thesis by auto
next
  case False
  then have "mm' = mm"
    using m by (auto simp: sys_mmap_def alloc_mmap_anon_def alloc_mmap_file_def alloc_unmapped_core_def rassert_def
        split: if_splits option.splits)
  with inv show ?thesis by simp
qed

lemma brk_step_inv:
  assumes inv: "mm_inv mm" and b: "sys_brk mm k b = Some (r, mm', k')"
  shows "mm_inv mm'"
  using sys_brk_ok[OF inv, of k b] b by auto

text \<open>The calls that change an address space, with \<^verbatim>\<open>mmap\<close> called without an address.\<close>

inductive mm_step :: "'f fread \<Rightarrow> 'f MmStruct \<times> Kern \<Rightarrow> 'f MmStruct \<times> Kern \<Rightarrow> bool" for fread where
  mmap: "sys_mmap mm k 0 len prot flags fd offset = Some (r, mm', k') \<Longrightarrow> 0 < len \<Longrightarrow> mm_step fread (mm, k) (mm', k')"
| brk: "sys_brk mm k b = Some (r, mm', k') \<Longrightarrow> mm_step fread (mm, k) (mm', k')"
| fault: "trap_page_fault_handler fread mm k va = Some (r, mm', k') \<Longrightarrow> mm_step fread (mm, k) (mm', k')"

inductive_cases mm_stepE: "mm_step fread x y"

lemma mm_step_inv: "mm_step fread x y \<Longrightarrow> mm_inv (fst x) \<Longrightarrow> mm_inv (fst y)"
  by (erule mm_stepE)
    (use mmap_step_inv fault_inv brk_step_inv in \<open>fastforce+\<close>)

text \<open>
  C14: the regions of a process never overlap.  From an address space whose regions are disjoint,
  after any sequence of \<^verbatim>\<open>mmap\<close> without an address, \<^verbatim>\<open>brk\<close> and page faults, the regions are in order and
  each ends before the next begins, and the heap is the region between \<open>start_brk\<close> and \<open>brk\<close>.
\<close>

theorem regions_stay_disjoint:
  assumes inv: "mm_inv mm" and steps: "(mm_step fread)\<^sup>*\<^sup>* (mm, k) (mm', k')"
  shows "sorted_wrt (\<lambda>x y. vma_end (snd x) \<le> vma_start (snd y)) (vmas mm') \<and>
    (\<exists>v. bt_get (start_brk mm') (vmas mm') = Some v \<and> vma_end v = brk mm')"
proof -
  have "mm_inv (fst y)" if "(mm_step fread)\<^sup>*\<^sup>* x y" "mm_inv (fst x)" for x y
    using that by (induction rule: rtranclp_induct) (auto intro: mm_step_inv)
  from this[OF steps] inv have "mm_inv mm'" by simp
  then show ?thesis using regions_disjoint[OF mm_invD(1)] by (auto simp: mm_inv_def)
qed

theorem regions_stay_disjoint_witness:
  "\<forall>k. \<exists>mm' mm'' r. sys_brk sample_mm k 0x20000 = Some (0x20000, mm', k) \<and>
     sys_mmap mm' k 0 0x2000 PROT_READ MAP_ANONYMOUS None 0 = Some (r, mm'', k) \<and>
     sorted_wrt (\<lambda>x y. vma_end (snd x) \<le> vma_start (snd y)) (vmas mm'')"
proof
  fix k
  obtain mm' where b: "sys_brk sample_mm k 0x20000 = Some (0x20000, mm', k)" "mm_inv mm'"
    using sys_brk_ok[OF sample_mm_inv, of k "0x20000"] by (auto simp: sample_mm_fields)
  have len: "is_align 0x2000" "0 < (0x2000 :: nat)" by (simp_all add: is_align_def PAGE_SIZE_def)
  obtain r mm'' where m: "sys_mmap mm' k 0 0x2000 PROT_READ MAP_ANONYMOUS None 0 = Some (r, mm'', k)"
    using sys_mmap_ok[OF b(2) len] by blast
  have "(mm_step (\<lambda>_ _ _. Inl ()))\<^sup>*\<^sup>* (sample_mm, k) (mm'', k)"
    using mm_step.brk[OF b(1)] mm_step.mmap[OF m len(2)] by (meson converse_rtranclp_into_rtranclp r_into_rtranclp)
  from regions_stay_disjoint[OF sample_mm_inv this] b(1) m show "\<exists>mm' mm'' r. sys_brk sample_mm k 0x20000 =
      Some (0x20000, mm', k) \<and> sys_mmap mm' k 0 0x2000 PROT_READ MAP_ANONYMOUS None 0 = Some (r, mm'', k) \<and>
     sorted_wrt (\<lambda>x y. vma_end (snd x) \<le> vma_start (snd y)) (vmas mm'')"
    by blast
qed

end
