(* ===== verification/K_PageTable_Correct.thy ===== *)
theory K_PageTable_Correct
  imports K_PageTable
begin

text \<open>
  Correctness of the page tables: what a page table maps is defined by following its entries, and the
  operations change exactly the page they are called for.  The invariant says that the tables form a
  tree of pages that are in use.
\<close>

unbundle bit_operations_syntax

section \<open>Entries\<close>

text \<open>The three parts of the page number have nine bits each.\<close>

definition pte_ok :: "PTE \<Rightarrow> bool" where
  "pte_ok p \<longleftrightarrow> pnn0 p < 512 \<and> pnn1 p < 512 \<and> pnn2 p < 512"

lemma mask_512: "(0x1FF :: 'a::len word) = mask 9"
  by (simp add: mask_eq_exp_minus_1 numeral_eq_Suc)

lemma less_512_bit: "x < 512 \<Longrightarrow> bit x n \<Longrightarrow> n < 9" for x :: u16
proof -
  assume "x < 512"
  then have "unat (take_bit 9 x) = unat x"
    by (simp add: unsigned_take_bit_eq take_bit_nat_eq_self word_less_nat_alt)
  then have "take_bit 9 x = x" by (simp only: word_unat_eq_iff)
  then show "bit x n \<Longrightarrow> n < 9" by (metis bit_take_bit_iff)
qed

lemma and_mask_less_512: "x AND mask 9 < (512 :: u16)"
  using and_mask_less'[of 9 x] by simp

lemma ucast_9_less: "ucast (x AND 0x1FF) < (512 :: u16)" for x :: u64
proof -
  have "(ucast (x AND 0x1FF) :: u16) = ucast x AND mask 9"
    unfolding mask_512 by (rule bit_word_eqI) (auto simp: bit_simps)
  then show ?thesis using and_mask_less_512[of "ucast x"] by simp
qed

lemma pte_ok_from [simp]: "pte_ok (pte_from v)"
  by (simp add: pte_ok_def pte_from_def ucast_9_less)

lemma pte_ok_ops [simp]:
  "pte_ok PTE_default" "pte_ok (set_ppn_by_paddr p a)"
  "pte_ok (set_flags p f) = pte_ok p" "pte_ok (clear_flags p f) = pte_ok p" "pte_ok (clear_all_flags p) = pte_ok p"
  by (auto simp: pte_ok_def PTE_default_def set_ppn_by_paddr_def set_flags_def clear_flags_def
      clear_all_flags_def Let_def ucast_9_less)

lemma pte_into_bit:
  "bit (pte_into p) n \<longleftrightarrow> n < 64 \<and> (bit (pte_flags p) n \<or> 10 \<le> n \<and> bit (pnn0 p) (n - 10) \<or>
     19 \<le> n \<and> bit (pnn1 p) (n - 19) \<or> 28 \<le> n \<and> bit (pnn2 p) (n - 28))"
  by (auto simp: pte_into_def bit_simps)

lemma flag_bit: "bit (x :: u8) n \<Longrightarrow> n < 8" by (auto simp: bit_simps dest: bit_imp_le_length)

lemma pte_from_into: 
  assumes "pte_ok p" shows "pte_from (pte_into p) = p"
proof -
  have b: "bit (pnn0 p) n \<Longrightarrow> n < 9" "bit (pnn1 p) n \<Longrightarrow> n < 9" "bit (pnn2 p) n \<Longrightarrow> n < 9" for n
    using assms less_512_bit by (auto simp: pte_ok_def)
  have f: "ucast (pte_into p) = pte_flags p"
    by (rule bit_word_eqI) (auto simp: bit_simps pte_into_bit)
  have 0: "ucast (drop_bit 10 (pte_into p) AND 0x1FF) = pnn0 p"
    unfolding mask_512
    by (rule bit_word_eqI) (auto simp: bit_simps pte_into_bit dest: b flag_bit)
  have 1: "ucast (drop_bit 19 (pte_into p) AND 0x1FF) = pnn1 p"
    unfolding mask_512
    by (rule bit_word_eqI) (auto simp: bit_simps pte_into_bit dest: b flag_bit)
  have 2: "ucast (drop_bit 28 (pte_into p) AND 0x1FF) = pnn2 p"
    unfolding mask_512
    by (rule bit_word_eqI) (auto simp: bit_simps pte_into_bit dest: b flag_bit)
  show ?thesis by (simp add: pte_from_def f 0 1 2)
qed

lemma ucast_9: "(ucast (ucast (x AND 0x1FF) :: u16) :: u64) = take_bit 9 x" for x :: u64
  unfolding mask_512 by (rule bit_word_eqI) (auto simp: bit_simps)

lemma ppn_word:
  "(ucast (ucast (np AND 0x1FF) :: u16) OR push_bit 9 (ucast (ucast (drop_bit 9 np AND 0x1FF) :: u16))
      OR push_bit 18 (ucast (ucast (drop_bit 18 np AND 0x1FF) :: u16)) :: u64) = take_bit 27 np"
  (is "?L = _")
proof (rule bit_word_eqI)
  fix n :: nat
  consider "n < 9" | "9 \<le> n" "n < 18" | "18 \<le> n" "n < 27" | "27 \<le> n" by linarith
  then show "bit ?L n \<longleftrightarrow> bit (take_bit 27 np) n"
    unfolding ucast_9 by cases (auto simp: bit_simps)
qed

lemma set_ppn_fields:
  "pnn0 (set_ppn_by_paddr p a) = ucast (drop_bit 12 (of_nat a :: u64) AND 0x1FF)"
  "pnn1 (set_ppn_by_paddr p a) = ucast (drop_bit 9 (drop_bit 12 (of_nat a :: u64)) AND 0x1FF)"
  "pnn2 (set_ppn_by_paddr p a) = ucast (drop_bit 18 (drop_bit 12 (of_nat a :: u64)) AND 0x1FF)"
  "pte_flags (set_ppn_by_paddr p a) = pte_flags p"
  by (simp_all add: set_ppn_by_paddr_def Let_def)

lemma point_set_ppn_mod:
  "get_point_paddr (set_ppn_by_paddr p a) = a mod 2 ^ 39 div PAGE_SIZE * PAGE_SIZE"
proof -
  let ?x = "of_nat a :: u64"
  have ux: "unat ?x = a mod 2 ^ 64" by (simp add: unat_of_nat)
  have "get_point_paddr (set_ppn_by_paddr p a) = unat (push_bit 12 (take_bit 27 (drop_bit 12 ?x)))"
    by (simp only: get_point_paddr_def set_ppn_fields ppn_word)
  also have "\<dots> = push_bit 12 (take_bit 27 (drop_bit 12 (a mod 2 ^ 64)))"
  proof -
    have "take_bit 64 (push_bit 12 (take_bit 27 y)) = push_bit 12 (take_bit 27 y)" for y :: nat
      by (simp add: take_bit_push_bit)
    then show ?thesis by (simp add: unsigned_push_bit_eq unsigned_take_bit_eq unat_drop_bit_eq ux)
  qed
  also have "\<dots> = (a mod 2 ^ 64) div 4096 mod 2 ^ 27 * 4096"
    by (simp add: push_bit_eq_mult take_bit_eq_mod drop_bit_eq_div)
  also have "(a mod 2 ^ 64) div 4096 mod 2 ^ 27 = a mod 2 ^ 39 div 4096"
  proof -
    have "x div 4096 mod 2 ^ 27 = x mod (4096 * 2 ^ 27) div 4096" for x :: nat
      using mod_mult2_eq[of x 4096 "2 ^ 27"] by simp
    moreover have "a mod 2 ^ 64 mod (4096 * 2 ^ 27) = a mod (4096 * 2 ^ 27)"
      by (rule mod_mod_cancel) simp
    ultimately show ?thesis by simp
  qed
  finally show ?thesis by (simp add: PAGE_SIZE_def)
qed

lemma point_set_ppn:
  "a < 2 ^ 39 \<Longrightarrow> get_point_paddr (set_ppn_by_paddr p a) = a div PAGE_SIZE * PAGE_SIZE"
  by (simp add: point_set_ppn_mod)

lemma pte_flags_ops [simp]:
  "pte_flags (set_flags p f) = pte_flags p OR f" "pte_flags (clear_all_flags p) = 0"
  "pte_flags (set_ppn_by_paddr p a) = pte_flags p" "pte_flags PTE_default = 0"
  by (simp_all add: set_flags_def clear_all_flags_def set_ppn_fields PTE_default_def)

lemma point_ops [simp]:
  "get_point_paddr (set_flags p f) = get_point_paddr p"
  "get_point_paddr (clear_flags p f) = get_point_paddr p"
  "get_point_paddr (clear_all_flags p) = get_point_paddr p"
  by (simp_all add: get_point_paddr_def set_flags_def clear_flags_def clear_all_flags_def)

text \<open>An entry all of whose bits are flags or page number is left as it is when it is written back.\<close>

definition canonical :: "u64 \<Rightarrow> bool" where
  "canonical e \<longleftrightarrow> pte_into (pte_from e) = e"

lemma canonical_into [simp]: "pte_ok p \<Longrightarrow> canonical (pte_into p)"
  by (simp add: canonical_def pte_from_into)

lemma pte_zero: "pte_from 0 = PTE_default" "pte_into PTE_default = 0"
  by (simp_all add: pte_from_def PTE_default_def pte_into_def)

lemma canonical_0 [simp]: "canonical 0"
  by (simp add: canonical_def pte_zero)

section \<open>The tree of tables\<close>

definition entry :: "(usize \<Rightarrow> u64) \<Rightarrow> vaddr \<Rightarrow> nat \<Rightarrow> PTE" where
  "entry m t i = pte_from (m (t + i * 8))"

definition next_tbl :: "(usize \<Rightarrow> u64) \<Rightarrow> vaddr \<Rightarrow> nat \<Rightarrow> vaddr option" where
  "next_tbl m t i =
     (if \<not> is_leaf (entry m t i) \<and> vaild (entry m t i)
      then Some (get_point_paddr (entry m t i) + PHY_MEM_OFFSET) else None)"

fun tbl :: "(usize \<Rightarrow> u64) \<Rightarrow> vaddr \<Rightarrow> nat list \<Rightarrow> vaddr option" where
  "tbl m t [] = Some t"
| "tbl m t (i # is) = Option.bind (next_tbl m t i) (\<lambda>t'. tbl m t' is)"

definition idx :: "nat list \<Rightarrow> bool" where
  "idx p \<longleftrightarrow> length p \<le> 2 \<and> (\<forall>i \<in> set p. i < 512)"

definition tbl_ok :: "vaddr set \<Rightarrow> (usize \<Rightarrow> u64) \<Rightarrow> vaddr \<Rightarrow> bool" where
  "tbl_ok U m t \<longleftrightarrow> PAGE_SIZE dvd t \<and> t + PAGE_SIZE \<le> 2 ^ 64 \<and> t \<notin> U \<and> (\<forall>i < 512. canonical (m (t + i * 8)))"

definition tree_inv :: "vaddr set \<Rightarrow> (usize \<Rightarrow> u64) \<Rightarrow> vaddr \<Rightarrow> bool" where
  "tree_inv U m rt \<longleftrightarrow>
     (\<forall>p q t. idx p \<longrightarrow> idx q \<longrightarrow> tbl m rt p = Some t \<longrightarrow> tbl m rt q = Some t \<longrightarrow> p = q) \<and>
     (\<forall>p t. idx p \<longrightarrow> tbl m rt p = Some t \<longrightarrow> tbl_ok U m t)"

text \<open>
  What the tables map a virtual address to with a page of 4 KB, the only ones that \<^verbatim>\<open>map_one_page\<close> and the regions
  use, and whether a large page covers it; the kernel's own large pages are the subject of \<open>leaf_entry\<close>.
\<close>

definition mapping :: "(usize \<Rightarrow> u64) \<Rightarrow> vaddr \<Rightarrow> vaddr \<Rightarrow> (paddr \<times> u8) option" where
  "mapping m rt va =
     (case tbl m rt [addr_get_ppn2 va, addr_get_ppn1 va] of
        None \<Rightarrow> None
      | Some t \<Rightarrow> let e = entry m t (addr_get_ppn0 va) in
          if vaild e then Some (get_point_paddr e, pte_flags e) else None)"

definition big_page :: "(usize \<Rightarrow> u64) \<Rightarrow> vaddr \<Rightarrow> vaddr \<Rightarrow> bool" where
  "big_page m rt va \<longleftrightarrow> is_leaf (entry m rt (addr_get_ppn2 va)) \<or>
     (\<exists>t. tbl m rt [addr_get_ppn2 va] = Some t \<and> is_leaf (entry m t (addr_get_ppn1 va)))"

lemma ppn_less: "addr_get_ppn0 va < 512" "addr_get_ppn1 va < 512" "addr_get_ppn2 va < 512"
proof -
  have "(0x1FF :: nat) = mask 9" by (simp add: mask_eq_exp_minus_1)
  moreover have "x AND mask 9 < (512 :: nat)" for x
    using take_bit_nat_less_exp[of 9 x] by (simp add: take_bit_eq_mask)
  ultimately show "addr_get_ppn0 va < 512" "addr_get_ppn1 va < 512" "addr_get_ppn2 va < 512"
    by (simp_all add: addr_get_ppn0_def addr_get_ppn1_def addr_get_ppn2_def)
qed

lemma entry_addr_inj:
  assumes "PAGE_SIZE dvd t" "PAGE_SIZE dvd t'" "i < 512" "i' < 512" "t + i * 8 = t' + i' * 8"
  shows "t = t'" "i = i'"
proof -
  obtain a b where "t = PAGE_SIZE * a" "t' = PAGE_SIZE * b" using assms(1,2) by (auto simp: dvd_def)
  moreover from this have "(t + i * 8) div PAGE_SIZE = a" "(t' + i' * 8) div PAGE_SIZE = b"
    using assms(3,4) by (simp_all add: PAGE_SIZE_def)
  ultimately show "t = t'" using assms(5) by simp
  then show "i = i'" using assms(5) by simp
qed

lemma entry_not_in_page:
  assumes t: "PAGE_SIZE dvd t" "t \<noteq> N" and N: "PAGE_SIZE dvd N" and i: "i < 512"
  shows "t + i * 8 \<notin> block_words N 0"
proof
  assume "t + i * 8 \<in> block_words N 0"
  then have b: "N \<le> t + i * 8" "t + i * 8 < N + PAGE_SIZE" by (auto simp: block_words_def)
  obtain x y where xy: "t = PAGE_SIZE * x" "N = PAGE_SIZE * y" using t(1) N by (auto simp: dvd_def)
  have "(t + i * 8) div PAGE_SIZE = x" "(t + i * 8) div PAGE_SIZE = y"
    using b i unfolding xy by (auto intro!: div_nat_eqI simp: PAGE_SIZE_def)
  then show False using t(2) xy by simp
qed

lemma tbl_snoc: "tbl m t (p @ [i]) = Option.bind (tbl m t p) (\<lambda>t'. next_tbl m t' i)"
  by (induction p arbitrary: t) (auto split: bind_split)

lemma tbl_append: "tbl m t (p @ q) = Option.bind (tbl m t p) (\<lambda>t'. tbl m t' q)"
  by (induction p arbitrary: t) (auto split: bind_split)

lemma next_tbl_cong: "m' (t + i * 8) = m (t + i * 8) \<Longrightarrow> next_tbl m' t i = next_tbl m t i"
  by (simp add: next_tbl_def entry_def)

text \<open>Tables that are not below a changed entry stay where they are.\<close>

lemma tbl_frame:
  assumes "\<And>q t i. idx q \<Longrightarrow> tbl m rt q = Some t \<Longrightarrow> i < 512 \<Longrightarrow> (q, i) \<noteq> (pz, iz) \<Longrightarrow>
      m' (t + i * 8) = m (t + i * 8)"
    and "idx q" "\<And>r. q \<noteq> pz @ iz # r"
  shows "tbl m' rt q = tbl m rt q"
  using assms(2,3)
proof (induction q rule: rev_induct)
  case (snoc i q)
  have q: "idx q" "i < 512" using snoc.prems(1) by (auto simp: idx_def)
  have "q \<noteq> pz @ iz # r" for r using snoc.prems(2)[of "r @ [i]"] by auto
  then have IH: "tbl m' rt q = tbl m rt q" using snoc.IH q by blast
  show ?case
  proof (cases "tbl m rt q")
    case (Some t)
    have "(q, i) \<noteq> (pz, iz)" using snoc.prems(2)[of "[]"] by auto
    then have "m' (t + i * 8) = m (t + i * 8)" using assms(1)[OF q(1) Some q(2)] by blast
    then have "next_tbl m' t i = next_tbl m t i" by (rule next_tbl_cong)
    then show ?thesis using IH Some by (simp add: tbl_snoc)
  qed (simp add: tbl_snoc IH)
qed simp

lemma tree_invD:
  assumes "tree_inv U m rt"
  shows "idx p \<Longrightarrow> idx q \<Longrightarrow> tbl m rt p = Some t \<Longrightarrow> tbl m rt q = Some t \<Longrightarrow> p = q"
    "idx p \<Longrightarrow> tbl m rt p = Some t \<Longrightarrow> tbl_ok U m t"
  using assms unfolding tree_inv_def by blast+

lemma tree_invI:
  assumes "\<And>p q t. idx p \<Longrightarrow> idx q \<Longrightarrow> tbl m rt p = Some t \<Longrightarrow> tbl m rt q = Some t \<Longrightarrow> p = q"
    "\<And>p t. idx p \<Longrightarrow> tbl m rt p = Some t \<Longrightarrow> tbl_ok U m t"
  shows "tree_inv U m rt"
  using assms unfolding tree_inv_def by blast

lemma other_entry:
  assumes inv: "tree_inv U m rt" and p0: "idx p0" "tbl m rt p0 = Some t0" "i0 < 512"
    and q: "idx q" "tbl m rt q = Some t" "i < 512" "(q, i) \<noteq> (p0, i0)"
  shows "t + i * 8 \<noteq> t0 + i0 * 8"
proof
  assume eq: "t + i * 8 = t0 + i0 * 8"
  have "PAGE_SIZE dvd t" "PAGE_SIZE dvd t0"
    using tree_invD(2)[OF inv q(1,2)] tree_invD(2)[OF inv p0(1,2)] by (auto simp: tbl_ok_def)
  from entry_addr_inj[OF this q(3) p0(3) eq] tree_invD(1)[OF inv q(1) p0(1) q(2)] p0(2) q(4)
  show False by auto
qed

lemma idx_path: "idx [addr_get_ppn2 va, addr_get_ppn1 va]" "idx [addr_get_ppn2 va]" "idx []"
  by (simp_all add: idx_def ppn_less)

text \<open>Writing an entry of a table of the last level.\<close>

lemma leaf_write:
  assumes inv: "tree_inv U m rt" and p0: "idx p0" "tbl m rt p0 = Some t0" "i0 < 512"
    and len: "length p0 = 2" and e: "canonical e" and m': "m' = m(t0 + i0 * 8 := e)"
  shows "idx q \<Longrightarrow> tbl m' rt q = tbl m rt q" "tree_inv U m' rt"
    "big_page m' rt va = big_page m rt va"
    "mapping m' rt va = (if [addr_get_ppn2 va, addr_get_ppn1 va] = p0 \<and> addr_get_ppn0 va = i0
       then if vaild (pte_from e) then Some (get_point_paddr (pte_from e), pte_flags (pte_from e)) else None
       else mapping m rt va)"
proof -
  have m'a: "m' a = (if a = t0 + i0 * 8 then e else m a)" for a by (simp add: m')
  have same: "m' (t + i * 8) = m (t + i * 8)"
    if "idx q" "tbl m rt q = Some t" "i < 512" "(q, i) \<noteq> (p0, i0)" for q t i
    using other_entry[OF inv p0 that] by (simp add: m'a)
  show tb: "tbl m' rt q = tbl m rt q" if "idx q" for q
    by (rule tbl_frame[where m = m and pz = p0 and iz = i0]) (use same that len in \<open>auto simp: idx_def\<close>)
  show "tree_inv U m' rt"
  proof (rule tree_invI)
    show "tbl_ok U m' t" if "idx p" "tbl m' rt p = Some t" for p t
      using tree_invD(2)[OF inv that(1)] that e by (auto simp: tb tbl_ok_def m'a)
  qed (use tree_invD(1)[OF inv] tb in auto)
  have "m' (rt + addr_get_ppn2 va * 8) = m (rt + addr_get_ppn2 va * 8)"
    using len by (intro same[OF idx_path(3)]) (auto simp: ppn_less)
  moreover have "m' (t + addr_get_ppn1 va * 8) = m (t + addr_get_ppn1 va * 8)"
    if "tbl m rt [addr_get_ppn2 va] = Some t" for t
    using len by (intro same[OF idx_path(2) that]) (auto simp: ppn_less)
  ultimately show "big_page m' rt va = big_page m rt va"
    by (auto simp: big_page_def entry_def tb[OF idx_path(2)] simp del: tbl.simps(2))
  show "mapping m' rt va = (if [addr_get_ppn2 va, addr_get_ppn1 va] = p0 \<and> addr_get_ppn0 va = i0
       then if vaild (pte_from e) then Some (get_point_paddr (pte_from e), pte_flags (pte_from e)) else None
       else mapping m rt va)"
  proof (cases "[addr_get_ppn2 va, addr_get_ppn1 va] = p0 \<and> addr_get_ppn0 va = i0")
    case True
    then show ?thesis
      using p0(2) by (simp add: mapping_def tb[OF p0(1)] entry_def m'a Let_def del: tbl.simps(2))
  next
    case False
    then show ?thesis
      using same[OF idx_path(1), of va _ "addr_get_ppn0 va"]
      by (auto simp: mapping_def tb[OF idx_path(1)] entry_def ppn_less simp del: tbl.simps(2) split: option.splits)
  qed
qed

text \<open>Adding an empty table below an invalid entry.\<close>

lemma new_table:
  assumes inv: "tree_inv U m rt" and p0: "idx p0" "tbl m rt p0 = Some t0" "i0 < 512"
    and len: "length p0 < 2" and nx: "next_tbl m t0 i0 = None" "\<not> is_leaf (entry m t0 i0)"
    and N: "N \<in> U" "PAGE_SIZE dvd N" "N + PAGE_SIZE \<le> 2 ^ 64"
    and e: "canonical e" "\<not> is_leaf (pte_from e)" "vaild (pte_from e)"
      "get_point_paddr (pte_from e) + PHY_MEM_OFFSET = N"
    and m': "m' = (\<lambda>a. if a \<in> block_words N 0 then 0 else m a)(t0 + i0 * 8 := e)"
  shows "idx q \<Longrightarrow> tbl m' rt q = (if q = p0 @ [i0] then Some N else tbl m rt q)"
    "tree_inv (U - {N}) m' rt" "mapping m' rt va = mapping m rt va" "big_page m' rt va = big_page m rt va"
proof -
  have m'a: "m' a = (if a = t0 + i0 * 8 then e else if a \<in> block_words N 0 then 0 else m a)" for a
    by (simp add: m')
  have al: "PAGE_SIZE dvd t" "t \<noteq> N" if "idx q" "tbl m rt q = Some t" for q t
    using tree_invD(2)[OF inv that] N(1) by (auto simp: tbl_ok_def)
  have out: "t + i * 8 \<notin> block_words N 0" if "PAGE_SIZE dvd t" "t \<noteq> N" "i < 512" for t i
    using that by (intro entry_not_in_page[OF _ _ N(2)])
  have same: "m' (t + i * 8) = m (t + i * 8)"
    if "idx q" "tbl m rt q = Some t" "i < 512" "(q, i) \<noteq> (p0, i0)" for q t i
    using other_entry[OF inv p0 that] out[OF al[OF that(1,2)] that(3)] by (simp add: m'a)
  have "8 dvd N" using N(2) dvd_trans[of 8 PAGE_SIZE N] by (simp add: PAGE_SIZE_def)
  then have zero: "m' (N + i * 8) = 0" if "i < 512" for i
    using entry_addr_inj(1)[OF N(2) al(1)[OF p0(1,2)] that p0(3)] al(2)[OF p0(1,2)] that
    by (auto simp: m'a block_words_def PAGE_SIZE_def)
  then have nx0: "next_tbl m' N i = None" if "i < 512" for i
    using that by (simp add: next_tbl_def entry_def pte_zero vaild_def get_bits_def)
  have fr: "tbl m' rt q = tbl m rt q" if "idx q" "\<And>r. q \<noteq> p0 @ i0 # r" for q
    by (rule tbl_frame[where m = m and pz = p0 and iz = i0]) (use same that in auto)
  have it: "tbl m' rt p0 = tbl m rt p0" by (rule fr[OF p0(1)]) auto
  have N': "tbl m' rt (p0 @ [i0]) = Some N"
    using e by (simp add: tbl_snoc it p0(2) next_tbl_def entry_def m'a)
  have below: "tbl m rt (p0 @ i0 # r) = None" for r
    using p0(2) nx(1) by (simp add: tbl_append)
  have below': "tbl m' rt (p0 @ i0 # j # r) = None" if "j < 512" for r j
    using tbl_append[of m' rt "p0 @ [i0]" "j # r"] N' nx0[OF that] by simp
  show tb: "tbl m' rt q = (if q = p0 @ [i0] then Some N else tbl m rt q)" if q: "idx q" for q
  proof (cases "\<exists>r. q = p0 @ i0 # r")
    case True
    then obtain r where r: "q = p0 @ i0 # r" by blast
    show ?thesis
    proof (cases r)
      case Nil
      then show ?thesis using N' r by simp
    next
      case (Cons j r')
      then have "j < 512" "q \<noteq> p0 @ [i0]" using q r by (auto simp: idx_def)
      then show ?thesis using below'[of j r'] below[of r] r Cons by simp
    qed
  next
    case False
    then show ?thesis using fr[OF q] by auto
  qed
  show "tree_inv (U - {N}) m' rt"
  proof (rule tree_invI)
    show "p = q" if "idx p" "idx q" "tbl m' rt p = Some t" "tbl m' rt q = Some t" for p q t
      using that tree_invD(1)[OF inv that(1,2)] al(2)[OF that(1)] al(2)[OF that(2)]
      by (auto simp: tb split: if_splits)
    show "tbl_ok (U - {N}) m' t" if p: "idx p" "tbl m' rt p = Some t" for p t
    proof (cases "p = p0 @ [i0]")
      case True
      then show ?thesis using p N zero by (auto simp: tb tbl_ok_def)
    next
      case False
      then have "tbl m rt p = Some t" using p by (simp add: tb)
      with tree_invD(2)[OF inv p(1) this] out[OF al[OF p(1) this]] e(1) show ?thesis
        by (auto simp: tbl_ok_def m'a)
    qed
  qed
  have "m' (t + addr_get_ppn0 va * 8) = m (t + addr_get_ppn0 va * 8)"
    if "tbl m rt [addr_get_ppn2 va, addr_get_ppn1 va] = Some t" for t
    using len by (intro same[OF idx_path(1) that]) (auto simp: ppn_less)
  moreover have "\<not> vaild (entry m' N (addr_get_ppn0 va))"
    using zero[OF ppn_less(1)] by (simp add: entry_def pte_zero vaild_def get_bits_def)
  ultimately show "mapping m' rt va = mapping m rt va"
    using below[of "[]"]
    by (auto simp: mapping_def tb[OF idx_path(1)] entry_def Let_def simp del: tbl.simps(2) split: option.splits)
  have leaf: "is_leaf (entry m' t i) = is_leaf (entry m t i)"
    if "idx q" "tbl m rt q = Some t" "i < 512" for q t i
  proof (cases "(q, i) = (p0, i0)")
    case True
    then show ?thesis using that p0(2) nx(2) e(2) by (simp add: entry_def m'a)
  next
    case False
    then show ?thesis using same[OF that] by (simp add: entry_def)
  qed
  have "\<not> is_leaf (entry m' N i)" if "i < 512" for i
    using zero[OF that] by (simp add: entry_def pte_zero is_leaf_def get_bits_def)
  then show "big_page m' rt va = big_page m rt va"
    using leaf[OF idx_path(3), of rt "addr_get_ppn2 va"] leaf[OF idx_path(2), of va _ "addr_get_ppn1 va"]
      below[of "[]"]
    by (auto simp: big_page_def tb[OF idx_path(2)] ppn_less simp del: tbl.simps(2))
qed

section \<open>The page table and the kernel\<close>

definition free_at :: "vaddr \<Rightarrow> Kern \<Rightarrow> vaddr set" where
  "free_at s k = (\<lambda>i. s + PAGE_SIZE * i) ` free_set (buddy_allocator k)"

definition pt_root :: "PageTable \<Rightarrow> vaddr" where
  "pt_root pt = hd (private_pgs pt)"

definition pt_inv :: "vaddr \<Rightarrow> nat \<Rightarrow> PageTable \<Rightarrow> Kern \<Rightarrow> bool" where
  "pt_inv s n pt k \<longleftrightarrow> kern_inv s n k \<and> PAGE_SIZE dvd s \<and> PHY_MEM_OFFSET \<le> s \<and> private_pgs pt \<noteq> [] \<and>
     tree_inv (free_at s k) (mem k) (pt_root pt)"

text \<open>The words an operation on a page table may write: those of its tables and of the free pages.\<close>

definition table_words :: "(usize \<Rightarrow> u64) \<Rightarrow> vaddr \<Rightarrow> usize set" where
  "table_words m rt = {t + i * 8 | p t i. idx p \<and> tbl m rt p = Some t \<and> i < 512}"

definition footprint :: "vaddr \<Rightarrow> Kern \<Rightarrow> vaddr \<Rightarrow> usize set" where
  "footprint s k rt = table_words (mem k) rt \<union> (\<Union>v \<in> free_at s k. block_words v 0)"

text \<open>A step that uses at most \<open>d\<close> free pages, keeps the tables, and writes only there.\<close>

definition pt_frame :: "vaddr \<Rightarrow> nat \<Rightarrow> vaddr \<Rightarrow> Kern \<Rightarrow> Kern \<Rightarrow> bool" where
  "pt_frame s d rt k k' \<longleftrightarrow>
     (\<forall>va. big_page (mem k') rt va = big_page (mem k) rt va) \<and>
     card (free_set (buddy_allocator k)) \<le> card (free_set (buddy_allocator k')) + d \<and>
     footprint s k' rt \<subseteq> footprint s k rt \<and>
     (\<forall>a. a \<notin> footprint s k rt \<longrightarrow> mem k' a = mem k a) \<and>
     (\<forall>q t. idx q \<longrightarrow> tbl (mem k) rt q = Some t \<longrightarrow> tbl (mem k') rt q = Some t)"

text \<open>Moreover it changes no mapping.\<close>

definition pt_ext :: "vaddr \<Rightarrow> nat \<Rightarrow> vaddr \<Rightarrow> Kern \<Rightarrow> Kern \<Rightarrow> bool" where
  "pt_ext s d rt k k' \<longleftrightarrow> pt_frame s d rt k k' \<and> mapping (mem k') rt = mapping (mem k) rt"

lemmas pt_ext_defs = pt_ext_def pt_frame_def

lemma pt_frame_refl: "pt_frame s d rt k k"
  by (simp add: pt_frame_def)

lemma pt_frame_trans:
  assumes "pt_frame s d rt k k'" "pt_frame s d' rt k' k''"
  shows "pt_frame s (d + d') rt k k''"
proof -
  have "mem k'' a = mem k a" if "a \<notin> footprint s k rt" for a
    using that assms unfolding pt_frame_def by (metis subsetD)
  then show ?thesis using assms unfolding pt_frame_def by (auto dest: order_trans)
qed

lemma pt_ext_refl: "pt_ext s d rt k k"
  by (simp add: pt_ext_def pt_frame_refl)

lemma pt_ext_trans: "pt_ext s d rt k k' \<Longrightarrow> pt_ext s d' rt k' k'' \<Longrightarrow> pt_ext s (d + d') rt k k''"
  unfolding pt_ext_def using pt_frame_trans by auto

lemma pt_invD:
  assumes "pt_inv s n pt k"
  shows "kern_inv s n k" "PAGE_SIZE dvd s" "PHY_MEM_OFFSET \<le> s" "private_pgs pt \<noteq> []"
    "tree_inv (free_at s k) (mem k) (pt_root pt)"
  using assms by (auto simp: pt_inv_def)

lemma kern_inv_mem_ok: "kern_inv s n k \<Longrightarrow> s + PAGE_SIZE * n < 2 ^ 64"
  using buddy.ownedD(1)[OF kern_invD(1), of s n k] unfolding mem_ok_def by blast

lemma kern_inv_free: "kern_inv s n k \<Longrightarrow> free_set (buddy_allocator k) \<subseteq> {..<n}"
  using buddy.ownedD(1)[OF kern_invD(1)] free_set_bound by blast

lemma finite_free: "kern_inv s n k \<Longrightarrow> finite (free_set (buddy_allocator k))"
  by (rule finite_subset[OF kern_inv_free]) simp_all

lemma inj_page: "inj (\<lambda>i. s + PAGE_SIZE * i)"
  by (rule injI) (simp add: PAGE_SIZE_def)

lemma alloc_table_ok:
  assumes inv: "kern_inv s n k" and ne: "free_set (buddy_allocator k) \<noteq> {}"
  shows "\<exists>i k'. i \<in> free_set (buddy_allocator k) \<and> alloc_table k = Some (s + PAGE_SIZE * i, k') \<and>
    kern_inv s n k' \<and> free_set (buddy_allocator k') = free_set (buddy_allocator k) - {i} \<and>
    mem k' = (\<lambda>a. if a \<in> block_words (s + PAGE_SIZE * i) 0 then 0 else mem k a) \<and>
    blocks k' = insert (s + PAGE_SIZE * i, 0) (blocks k)"
proof -
  have b: "mem_ok s n" "ba_inv s n (buddy_allocator k)"
    using buddy.ownedD(1)[OF kern_invD(1)[OF inv]] by auto
  obtain pg i where "i < MAX_ORDER" "pg div 2 ^ i \<in> fa_ks (free_areas (buddy_allocator k) ! i)"
    using ne by (auto simp: free_set_def)
  then obtain j b' where j: "alloc_area (buddy_allocator k) 0 = Some (Inr (blk s 0 j), b')"
    "blk_pages 0 j \<subseteq> free_set (buddy_allocator k)"
    "free_set b' = free_set (buddy_allocator k) - blk_pages 0 j"
    using alloc_area_some[OF b, of 0 i] by auto
  moreover have "blk_pages 0 j = {j}" "blk s 0 j = s + PAGE_SIZE * j"
    by (auto simp: blk_pages_def blk_def)
  moreover obtain k' where "alloc_pages k 0 = Some (Some (blk s 0 j), k')" "kern_inv s n k'"
    "buddy_allocator k' = b'" "blocks k' = insert (blk s 0 j, 0) (blocks k)"
    "mem k' = (\<lambda>a. if a \<in> block_words (blk s 0 j) 0 then 0 else mem k a)"
    using alloc_pages_some[OF inv j(1)] by (auto simp: MAX_ORDER_def)
  ultimately show ?thesis by (auto simp: alloc_table_def)
qed

lemma new_entry:
  assumes "PHY_MEM_OFFSET \<le> N" "N < 2 ^ 64" "PAGE_SIZE dvd N"
    and e_def: "e = set_flags (clear_all_flags (set_ppn_by_paddr p (N - PHY_MEM_OFFSET))) PTE_V"
  shows "canonical (pte_into e)" "\<not> is_leaf (pte_from (pte_into e))" "vaild (pte_from (pte_into e))"
    "get_point_paddr (pte_from (pte_into e)) + PHY_MEM_OFFSET = N"
proof -
  have ok: "pte_ok e" by (simp add: e_def)
  show "canonical (pte_into e)" using ok by simp
  note f = pte_from_into[OF ok]
  have fl: "pte_flags e = PTE_V" by (simp add: e_def)
  show "\<not> is_leaf (pte_from (pte_into e))" "vaild (pte_from (pte_into e))"
    unfolding f is_leaf_def vaild_def get_bits_def fl
    by (simp_all add: PTE_V_def PTE_R_def PTE_W_def PTE_X_def)
  have "PAGE_SIZE dvd PHY_MEM_OFFSET" by (simp add: PAGE_SIZE_def PHY_MEM_OFFSET_def)
  then have "PAGE_SIZE dvd N - PHY_MEM_OFFSET" using assms(3) by simp
  moreover have "N - PHY_MEM_OFFSET < 2 ^ 39" using assms(2) by (simp add: PHY_MEM_OFFSET_def)
  ultimately show "get_point_paddr (pte_from (pte_into e)) + PHY_MEM_OFFSET = N"
    unfolding f using assms(1) by (simp add: e_def point_set_ppn)
qed

lemma entry_addr_ok:
  assumes "tbl_ok U m t" "j < 512"
  shows "umul j 8 = Some (j * 8)" "uadd t (j * 8) = Some (t + j * 8)"
proof -
  have "j * 8 < PAGE_SIZE" using assms(2) by (simp add: PAGE_SIZE_def)
  then have "t + j * 8 < 2 ^ 64" using assms(1) unfolding tbl_ok_def by linarith
  then show "uadd t (j * 8) = Some (t + j * 8)" by (rule uadd_ok)
  show "umul j 8 = Some (j * 8)" using assms(2) by (intro umul_ok) simp
qed

lemma write_back [simp]: "set_usize_by_addr k a (mem k a) = k"
  by (simp add: set_usize_by_addr_def)

text \<open>A level of a walk that finds a table below.\<close>

lemma walk_down:
  assumes inv: "pt_inv s n pt k" and p: "idx p" "length p < 2" "tbl (mem k) (pt_root pt) p = Some t"
    and j: "j < 512" "next_tbl (mem k) t j = Some t'"
  shows "walk_loop al ((length p, j) # is) t pt k = walk_loop al is t' pt k"
proof -
  note ok = tree_invD(2)[OF pt_invD(5)[OF inv]]
  have "idx (p @ [j])" using p j by (auto simp: idx_def)
  moreover have "tbl (mem k) (pt_root pt) (p @ [j]) = Some t'" using p(3) j by (simp add: tbl_snoc)
  ultimately have "tbl_ok (free_at s k) (mem k) t'" by (rule ok)
  then have "t' < 2 ^ 64" by (simp add: tbl_ok_def PAGE_SIZE_def)
  moreover have e: "\<not> is_leaf (entry (mem k) t j)" "vaild (entry (mem k) t j)"
    "t' = get_point_paddr (entry (mem k) t j) + PHY_MEM_OFFSET"
    using j(2) by (auto simp: next_tbl_def split: if_splits)
  ultimately have "paddr_into_vaddr (get_point_paddr (entry (mem k) t j)) = Some t'"
    by (simp add: paddr_into_vaddr_def uadd_def)
  moreover have t: "tbl_ok (free_at s k) (mem k) t" by (rule ok[OF p(1,3)])
  moreover have "pte_into (entry (mem k) t j) = mem k (t + j * 8)"
    using t j(1) by (simp add: tbl_ok_def canonical_def entry_def)
  ultimately show ?thesis
    using e(1,2) p(2) entry_addr_ok[OF t j(1)]
    by (simp add: get_usize_by_addr_def entry_def)
qed

text \<open>A level of a walk that adds a table.\<close>

lemma walk_grow:
  assumes inv: "pt_inv s n pt k" and p: "idx p" "length p < 2" "tbl (mem k) (pt_root pt) p = Some t"
    and j: "j < 512" "next_tbl (mem k) t j = None" "\<not> is_leaf (entry (mem k) t j)"
    and fr: "free_set (buddy_allocator k) \<noteq> {}"
  shows "\<exists>t' pt' k'. walk_loop True ((length p, j) # is) t pt k = walk_loop True is t' pt' k' \<and>
    pt_inv s n pt' k' \<and> pt_root pt' = pt_root pt \<and> tbl (mem k') (pt_root pt) (p @ [j]) = Some t' \<and>
    pt_ext s 1 (pt_root pt) k k'"
proof -
  note D = pt_invD[OF inv]
  let ?rt = "pt_root pt"
  obtain i k1 where i: "i \<in> free_set (buddy_allocator k)" and al: "alloc_table k = Some (s + PAGE_SIZE * i, k1)"
    and k1: "kern_inv s n k1" "free_set (buddy_allocator k1) = free_set (buddy_allocator k) - {i}"
      "mem k1 = (\<lambda>a. if a \<in> block_words (s + PAGE_SIZE * i) 0 then 0 else mem k a)"
    using alloc_table_ok[OF D(1) fr] by blast
  define N where "N = s + PAGE_SIZE * i"
  have "i < n" using i kern_inv_free[OF D(1)] by auto
  then have "PAGE_SIZE * Suc i \<le> PAGE_SIZE * n" by (intro mult_le_mono2) simp
  then have N64: "N + PAGE_SIZE < 2 ^ 64" using kern_inv_mem_ok[OF D(1)] by (simp add: N_def)
  have N: "N \<in> free_at s k" "PAGE_SIZE dvd N" "PHY_MEM_OFFSET \<le> N" "N < 2 ^ 64"
    using i D(2,3) N64 by (auto simp: N_def free_at_def)
  define e where "e = pte_into (set_flags (clear_all_flags
    (set_ppn_by_paddr (entry (mem k) t j) (N - PHY_MEM_OFFSET))) PTE_V)"
  note E = new_entry[OF N(3,4,2) refl, of "entry (mem k) t j", folded e_def]
  define k' where "k' = set_usize_by_addr k1 (t + j * 8) e"
  have m': "mem k' = (\<lambda>a. if a \<in> block_words N 0 then 0 else mem k a)(t + j * 8 := e)"
    using k1(3) by (simp add: k'_def set_usize_by_addr_def N_def)
  have U: "free_at s k' = free_at s k - {N}"
    using k1(2) by (simp add: free_at_def k'_def set_usize_by_addr_def N_def image_set_diff[OF inj_page])
  note T = new_table[OF D(5) p(1,3) j(1) p(2) j(2,3) N(1,2) less_imp_le[OF N64] E m']
  have inv': "pt_inv s n (push_page pt N) k'"
    using T(2) D k1(1) U by (simp add: pt_inv_def k'_def set_usize_by_addr_def push_page_def pt_root_def)
  have nv: "\<not> vaild (entry (mem k) t j)" using j(2,3) by (auto simp: next_tbl_def split: if_splits)
  have run: "walk_loop True ((length p, j) # is) t pt k = walk_loop True is N (push_page pt N) k'"
    using entry_addr_ok[OF tree_invD(2)[OF D(5) p(1,3)] j(1)] j(3) nv p(2) al N(3)
    by (simp add: get_usize_by_addr_def entry_def[symmetric] N_def[symmetric] usub_def k'_def e_def)
  have ix: "idx (p @ [j])" using p(1,2) j(1) by (auto simp: idx_def)
  have tw: "table_words (mem k') ?rt \<subseteq> table_words (mem k) ?rt \<union> block_words N 0"
  proof
    fix a assume "a \<in> table_words (mem k') ?rt"
    then obtain q u i where q: "a = u + i * 8" "idx q" "tbl (mem k') ?rt q = Some u" "i < 512"
      by (auto simp: table_words_def)
    have "8 dvd N" using N(2) dvd_trans[of 8 PAGE_SIZE N] by (simp add: PAGE_SIZE_def)
    then have "N + i * 8 \<in> block_words N 0" using q(4) by (auto simp: block_words_def PAGE_SIZE_def)
    then show "a \<in> table_words (mem k) ?rt \<union> block_words N 0"
      using q T(1)[OF q(2)] by (auto simp: table_words_def split: if_splits)
  qed
  have "t + j * 8 \<in> table_words (mem k) ?rt" using p(1,3) j(1) by (auto simp: table_words_def)
  then have frame: "mem k' a = mem k a" if "a \<notin> footprint s k ?rt" for a
    using that N(1) by (auto simp: footprint_def m')
  have "card (free_set (buddy_allocator k)) \<le> card (free_set (buddy_allocator k')) + 1"
    using k1(2) i finite_free[OF D(1)] by (simp add: k'_def set_usize_by_addr_def)
  moreover have "tbl (mem k) ?rt (p @ [j]) = None" using p(3) j(2) by (simp add: tbl_snoc)
  then have "tbl (mem k') ?rt q = Some u" if "idx q" "tbl (mem k) ?rt q = Some u" for q u
    using T(1)[OF that(1)] that(2) by auto
  moreover have "footprint s k' ?rt \<subseteq> footprint s k ?rt"
    using tw N(1) U unfolding footprint_def by blast
  moreover have "mapping (mem k') ?rt = mapping (mem k) ?rt" by (rule ext) (rule T(3))
  ultimately have "pt_ext s 1 ?rt k k'" using T(4) frame unfolding pt_ext_defs by blast
  with run inv' T(1)[OF ix] D(4) show ?thesis
    by (intro exI[of _ N] exI[of _ "push_page pt N"] exI[of _ k']) (simp add: push_page_def pt_root_def)
qed

lemma walk_level:
  assumes inv: "pt_inv s n pt k" and p: "idx p" "length p < 2" "tbl (mem k) (pt_root pt) p = Some t"
    and j: "j < 512" "\<not> is_leaf (entry (mem k) t j)" and fr: "free_set (buddy_allocator k) \<noteq> {}"
  shows "\<exists>t' pt' k'. walk_loop True ((length p, j) # is) t pt k = walk_loop True is t' pt' k' \<and>
    pt_inv s n pt' k' \<and> pt_root pt' = pt_root pt \<and> tbl (mem k') (pt_root pt) (p @ [j]) = Some t' \<and>
    pt_ext s 1 (pt_root pt) k k'"
proof (cases "next_tbl (mem k) t j")
  case None
  from walk_grow[OF inv p j(1) None j(2) fr] show ?thesis .
next
  case (Some t')
  with walk_down[OF inv p j(1) Some] inv p(3) pt_ext_refl show ?thesis
    by (intro exI[of _ t'] exI[of _ pt] exI[of _ k]) (simp add: tbl_snoc)
qed

section \<open>Walks\<close>

lemma root_run: "pt_inv s n pt k \<Longrightarrow> get_root_page_vaddr pt = Some (pt_root pt)"
  using pt_invD(4) by (cases "private_pgs pt") (auto simp: get_root_page_vaddr_def vec_get_def pt_root_def)

lemma walk_last:
  assumes "pt_inv s n pt k" "idx p" "tbl (mem k) (pt_root pt) p = Some t" "j < 512"
  shows "walk_loop al ((2, j) # is) t pt k = Some (Some \<lparr>level = 2, pte_addr = t + j * 8\<rparr>, pt, k)"
  using entry_addr_ok[OF tree_invD(2)[OF pt_invD(5)[OF assms(1)] assms(2,3)] assms(4)] by (simp add: Let_def)

lemma walk_stop:
  assumes "pt_inv s n pt k" "idx p" "tbl (mem k) (pt_root pt) p = Some t" "j < 512"
    "is_leaf (entry (mem k) t j)"
  shows "walk_loop al ((i, j) # is) t pt k = Some (Some \<lparr>level = i, pte_addr = t + j * 8\<rparr>, pt, k)"
  using entry_addr_ok[OF tree_invD(2)[OF pt_invD(5)[OF assms(1)] assms(2,3)] assms(4)] assms(5)
  by (simp add: get_usize_by_addr_def entry_def)

text \<open>A walk that meets a large page ends there and changes nothing.\<close>

lemma walk_big:
  assumes inv: "pt_inv s n pt k" and big: "big_page (mem k) (pt_root pt) va"
  shows "\<exists>r. walk_common pt k va al = Some (Some r, pt, k) \<and> level r < 2"
proof (cases "is_leaf (entry (mem k) (pt_root pt) (addr_get_ppn2 va))")
  case True
  then show ?thesis
    using walk_stop[OF inv idx_path(3), of "pt_root pt" "addr_get_ppn2 va"]
    by (simp add: walk_common_def root_run[OF inv] ppn_arr_def ppn_less del: walk_loop.simps)
next
  case False
  then obtain t where t: "tbl (mem k) (pt_root pt) [addr_get_ppn2 va] = Some t"
    "is_leaf (entry (mem k) t (addr_get_ppn1 va))" using big by (auto simp: big_page_def)
  have "next_tbl (mem k) (pt_root pt) (addr_get_ppn2 va) = Some t" using t(1) by simp
  note walk_down[OF inv idx_path(3) _ _ ppn_less(3) this]
    and walk_stop[OF inv idx_path(2) t(1) ppn_less(2) t(2)]
  then show ?thesis
    by (simp add: walk_common_def root_run[OF inv] ppn_arr_def del: walk_loop.simps)
qed

lemma walk_alloc_big:
  "pt_inv s n pt k \<Longrightarrow> big_page (mem k) (pt_root pt) va \<Longrightarrow>
   \<exists>r. walk_alloc pt k va = Some (r, pt, k) \<and> level r < 2"
  using walk_big[of s n pt k va True] by (auto simp: walk_alloc_def)

lemma walk_alloc_ok:
  assumes inv: "pt_inv s n pt k" and big: "\<not> big_page (mem k) (pt_root pt) va"
    and fr: "2 \<le> card (free_set (buddy_allocator k))"
  shows "\<exists>t pt' k'. walk_alloc pt k va = Some (\<lparr>level = 2, pte_addr = t + addr_get_ppn0 va * 8\<rparr>, pt', k') \<and>
    pt_inv s n pt' k' \<and> pt_root pt' = pt_root pt \<and>
    tbl (mem k') (pt_root pt) [addr_get_ppn2 va, addr_get_ppn1 va] = Some t \<and> pt_ext s 2 (pt_root pt) k k'"
proof -
  let ?rt = "pt_root pt"
  have "free_set (buddy_allocator k) \<noteq> {}" using fr by auto
  moreover have "\<not> is_leaf (entry (mem k) ?rt (addr_get_ppn2 va))" using big by (simp add: big_page_def)
  ultimately obtain t1 pt1 k1 where
    w1: "walk_loop True (ppn_arr va) ?rt pt k = walk_loop True (tl (ppn_arr va)) t1 pt1 k1"
    and i1: "pt_inv s n pt1 k1" "pt_root pt1 = ?rt" "tbl (mem k1) ?rt [addr_get_ppn2 va] = Some t1"
      "pt_ext s 1 ?rt k k1"
    using walk_level[OF inv idx_path(3), of ?rt "addr_get_ppn2 va"
        "[(1, addr_get_ppn1 va), (2, addr_get_ppn0 va)]"]
    by (auto simp: ppn_arr_def ppn_less simp del: walk_loop.simps tbl.simps(2))
  have "free_set (buddy_allocator k1) \<noteq> {}" using i1(4) fr by (auto simp: pt_ext_defs)
  moreover have "\<not> is_leaf (entry (mem k1) t1 (addr_get_ppn1 va))"
    using big i1(3,4) by (auto simp: pt_ext_defs big_page_def simp del: tbl.simps(2))
  ultimately obtain t2 pt2 k2 where
    w2: "walk_loop True (tl (ppn_arr va)) t1 pt1 k1 = walk_loop True [(2, addr_get_ppn0 va)] t2 pt2 k2"
    and i2: "pt_inv s n pt2 k2" "pt_root pt2 = ?rt"
      "tbl (mem k2) ?rt [addr_get_ppn2 va, addr_get_ppn1 va] = Some t2" "pt_ext s 1 ?rt k1 k2"
    using walk_level[OF i1(1) idx_path(2), of va t1 "addr_get_ppn1 va" "[(2, addr_get_ppn0 va)]"] i1(2,3)
    by (auto simp: ppn_arr_def ppn_less simp del: walk_loop.simps tbl.simps(2))
  have "walk_alloc pt k va = Some (\<lparr>level = 2, pte_addr = t2 + addr_get_ppn0 va * 8\<rparr>, pt2, k2)"
    using walk_last[OF i2(1) idx_path(1), of va t2 "addr_get_ppn0 va"] i2(2,3) w1 w2
    by (simp add: walk_alloc_def walk_common_def root_run[OF inv] ppn_less del: walk_loop.simps tbl.simps(2))
  with i2 pt_ext_trans[OF i1(4) i2(4)] show ?thesis by (auto simp: numeral_2_eq_2)
qed

text \<open>A walk without allocation only reads.\<close>

lemma walk_read:
  assumes inv: "pt_inv s n pt k" and big: "\<not> big_page (mem k) (pt_root pt) va"
  shows "walk pt k va = Some (case tbl (mem k) (pt_root pt) [addr_get_ppn2 va, addr_get_ppn1 va] of
      None \<Rightarrow> None | Some t \<Rightarrow> Some \<lparr>level = 2, pte_addr = t + addr_get_ppn0 va * 8\<rparr>, pt, k)"
proof -
  let ?rt = "pt_root pt"
  have none: "walk_loop False ((length p, j) # is) t pt k = Some (None, pt, k)"
    if "idx p" "tbl (mem k) ?rt p = Some t" "j < 512" "length p < 2" "\<not> is_leaf (entry (mem k) t j)"
      "next_tbl (mem k) t j = None" for p j "is" t
    using that entry_addr_ok[OF tree_invD(2)[OF pt_invD(5)[OF inv] that(1,2)] that(3)]
    by (simp add: get_usize_by_addr_def entry_def next_tbl_def split: if_splits)
  have l2: "\<not> is_leaf (entry (mem k) ?rt (addr_get_ppn2 va))" using big by (simp add: big_page_def)
  show ?thesis
  proof (cases "next_tbl (mem k) ?rt (addr_get_ppn2 va)")
    case None
    then show ?thesis
      using none[OF idx_path(3), of ?rt "addr_get_ppn2 va"] l2
      by (simp add: walk_def walk_common_def root_run[OF inv] ppn_arr_def ppn_less del: walk_loop.simps)
  next
    case (Some t1)
    note w1 = walk_down[OF inv idx_path(3) _ _ ppn_less(3) Some]
    have t1: "tbl (mem k) ?rt [addr_get_ppn2 va] = Some t1" using Some by simp
    then have l1: "\<not> is_leaf (entry (mem k) t1 (addr_get_ppn1 va))"
      using big by (auto simp: big_page_def simp del: tbl.simps(2))
    show ?thesis
    proof (cases "next_tbl (mem k) t1 (addr_get_ppn1 va)")
      case None
      then show ?thesis
        using none[OF idx_path(2) t1 ppn_less(2) _ l1 None] w1 Some
        by (simp add: walk_def walk_common_def root_run[OF inv] ppn_arr_def del: walk_loop.simps)
    next
      case n2: (Some t2)
      have t2: "tbl (mem k) ?rt [addr_get_ppn2 va, addr_get_ppn1 va] = Some t2" using Some n2 by simp
      show ?thesis
        using walk_down[OF inv idx_path(2) _ t1 ppn_less(2) n2] w1
          walk_last[OF inv idx_path(1) t2 ppn_less(1)] t2
        by (simp add: walk_def walk_common_def root_run[OF inv] ppn_arr_def del: walk_loop.simps tbl.simps(2))
    qed
  qed
qed

end
