(* ===== verification/K_PageTable_Ops.thy ===== *)
theory K_PageTable_Ops
  imports K_PageTable_Correct
begin

text \<open>
  What the operations on page tables do to the mapping, in terms of page numbers: single pages, ranges
  of pages, new tables and the translation of an address.
\<close>

unbundle bit_operations_syntax

section \<open>Page numbers\<close>

definition vpn :: "vaddr \<Rightarrow> nat" where
  "vpn va = va div PAGE_SIZE mod 2 ^ 27"

lemma ppn_eq:
  "addr_get_ppn0 va = va div PAGE_SIZE mod 512"
  "addr_get_ppn1 va = va div PAGE_SIZE div 512 mod 512"
  "addr_get_ppn2 va = va div PAGE_SIZE div 512 div 512 mod 512"
proof -
  have "x AND 0x1FF = x mod 512" for x :: nat
    using take_bit_eq_mask[of 9 x] take_bit_eq_mod[of 9 x] by (simp add: mask_eq_exp_minus_1)
  then show "addr_get_ppn0 va = va div PAGE_SIZE mod 512"
    "addr_get_ppn1 va = va div PAGE_SIZE div 512 mod 512"
    "addr_get_ppn2 va = va div PAGE_SIZE div 512 div 512 mod 512"
    by (simp_all add: addr_get_ppn0_def addr_get_ppn1_def addr_get_ppn2_def drop_bit_eq_div PAGE_SIZE_def
        div_mult2_eq[symmetric])
qed

lemma vpn_split:
  "vpn va = 512 * (512 * addr_get_ppn2 va + addr_get_ppn1 va) + addr_get_ppn0 va"
proof -
  let ?x = "va div PAGE_SIZE"
  have "?x mod (512 * (512 * 512)) = 512 * (?x div 512 mod (512 * 512)) + ?x mod 512"
    by (rule mod_mult2_eq)
  moreover have "?x div 512 mod (512 * 512) = 512 * (?x div 512 div 512 mod 512) + ?x div 512 mod 512"
    by (rule mod_mult2_eq)
  ultimately show ?thesis by (simp add: vpn_def ppn_eq)
qed

lemma vpn_eq_iff:
  "vpn va = vpn va' \<longleftrightarrow> [addr_get_ppn2 va, addr_get_ppn1 va] = [addr_get_ppn2 va', addr_get_ppn1 va'] \<and>
     addr_get_ppn0 va = addr_get_ppn0 va'"
proof
  assume eq: "vpn va = vpn va'"
  have "(512 * x + b) mod 512 = b" "(512 * x + b) div 512 = x" if "b < 512" for x b :: nat
    using that by simp_all
  then have "addr_get_ppn0 v = vpn v mod 512" "addr_get_ppn1 v = vpn v div 512 mod 512"
    "addr_get_ppn2 v = vpn v div 512 div 512" for v
    by (simp_all only: vpn_split ppn_less)
  with eq show "[addr_get_ppn2 va, addr_get_ppn1 va] = [addr_get_ppn2 va', addr_get_ppn1 va'] \<and>
     addr_get_ppn0 va = addr_get_ppn0 va'" by simp
qed (simp add: vpn_split)

lemma mapping_vpn: "vpn va = vpn va' \<Longrightarrow> mapping m rt va = mapping m rt va'"
  unfolding vpn_eq_iff mapping_def by (simp only: list.inject)

lemma vpn_add:
  assumes "i < 2 ^ 27" "j < 2 ^ 27"
  shows "vpn (va + i * PAGE_SIZE) = vpn (va + j * PAGE_SIZE) \<longleftrightarrow> i = j"
proof -
  have "(x + i) mod m = (x + j) mod m \<longleftrightarrow> i = j" if "i < m" "j < m" for x m :: nat
    using that mod_eq_dvd_iff_nat[of "x + i" "x + j" m] mod_eq_dvd_iff_nat[of "x + j" "x + i" m]
      nat_dvd_not_less[of "j - i" m] nat_dvd_not_less[of "i - j" m]
    by (cases i j rule: linorder_cases) auto
  from this[OF assms, of "va div PAGE_SIZE"] show ?thesis by (simp add: vpn_def PAGE_SIZE_def add.commute)
qed

lemma big_no_mapping: "big_page m rt va \<Longrightarrow> mapping m rt va = None"
  by (auto simp: big_page_def mapping_def next_tbl_def split: if_splits bind_splits)

section \<open>Storing an entry\<close>

definition entry_maps :: "PTE \<Rightarrow> (paddr \<times> u8) option" where
  "entry_maps e = (if vaild e then Some (get_point_paddr e, pte_flags e) else None)"

lemma mapping_entry:
  "tbl m rt [addr_get_ppn2 va, addr_get_ppn1 va] = Some t \<Longrightarrow>
   mapping m rt va = entry_maps (entry m t (addr_get_ppn0 va))"
  by (simp add: mapping_def entry_maps_def Let_def del: tbl.simps(2))

lemma leaf_store:
  assumes inv: "pt_inv s n pt k" and t: "tbl (mem k) (pt_root pt) [addr_get_ppn2 va, addr_get_ppn1 va] = Some t"
    and e: "pte_ok e" and k': "k' = set_usize_by_addr k (t + addr_get_ppn0 va * 8) (pte_into e)"
  shows "pt_inv s n pt k'" "pt_frame s 0 (pt_root pt) k k'"
    "mapping (mem k') (pt_root pt) =
       (\<lambda>va'. if vpn va' = vpn va then entry_maps e else mapping (mem k) (pt_root pt) va')"
proof -
  note D = pt_invD[OF inv]
  have m': "mem k' = (mem k)(t + addr_get_ppn0 va * 8 := pte_into e)"
    and same: "buddy_allocator k' = buddy_allocator k" "kern_inv s n k'" "free_at s k' = free_at s k"
    using D(1) by (simp_all add: k' set_usize_by_addr_def free_at_def)
  note L = leaf_write[OF D(5) idx_path(1) t ppn_less(1) _ canonical_into[OF e] m']
  show "pt_inv s n pt k'" using L(2) D same by (simp add: pt_inv_def)
  have "table_words (mem k') (pt_root pt) = table_words (mem k) (pt_root pt)"
    by (simp add: table_words_def L(1) cong: conj_cong)
  moreover have "t + addr_get_ppn0 va * 8 \<in> table_words (mem k) (pt_root pt)"
    using t idx_path(1) ppn_less(1) unfolding table_words_def by blast
  ultimately show "pt_frame s 0 (pt_root pt) k k'"
    using L(1,3) same by (auto simp: pt_frame_def footprint_def m')
  show "mapping (mem k') (pt_root pt) =
       (\<lambda>va'. if vpn va' = vpn va then entry_maps e else mapping (mem k) (pt_root pt) va')"
    using L(4) by (simp add: fun_eq_iff vpn_eq_iff entry_maps_def pte_from_into[OF e])
qed

section \<open>Single pages\<close>

lemma new_leaf_entry:
  assumes "pa < 2 ^ 39" "flags AND PTE_V \<noteq> 0"
  defines "e \<equiv> set_flags (set_ppn_by_paddr PTE_default pa) flags"
  shows "pte_ok e" "entry_maps e = Some (pa div PAGE_SIZE * PAGE_SIZE, flags)"
  using assms by (simp_all add: e_def entry_maps_def vaild_def get_bits_def point_set_ppn)

lemma map_one_ok:
  assumes inv: "pt_inv s n pt k" and big: "\<not> big_page (mem k) (pt_root pt) va"
    and fr: "2 \<le> card (free_set (buddy_allocator k))" and pa: "pa < 2 ^ 39" "flags AND PTE_V \<noteq> 0"
  shows "\<exists>pt' k'. map_one_page pt k va pa flags =
      Some (if mapping (mem k) (pt_root pt) va = None then Inr () else Inl (-1), pt', k') \<and>
    pt_inv s n pt' k' \<and> pt_root pt' = pt_root pt \<and> pt_frame s 2 (pt_root pt) k k' \<and>
    mapping (mem k') (pt_root pt) = (\<lambda>va'. if mapping (mem k) (pt_root pt) va = None \<and> vpn va' = vpn va
      then Some (pa div PAGE_SIZE * PAGE_SIZE, flags) else mapping (mem k) (pt_root pt) va')"
proof -
  let ?rt = "pt_root pt"
  obtain t pt1 k1 where w: "walk_alloc pt k va = Some (\<lparr>level = 2, pte_addr = t + addr_get_ppn0 va * 8\<rparr>, pt1, k1)"
    "pt_inv s n pt1 k1" "pt_root pt1 = ?rt"
    "tbl (mem k1) ?rt [addr_get_ppn2 va, addr_get_ppn1 va] = Some t" "pt_ext s 2 ?rt k k1"
    using walk_alloc_ok[OF inv big fr] by blast
  have m1: "mapping (mem k1) ?rt = mapping (mem k) ?rt" and f1: "pt_frame s 2 ?rt k k1"
    using w(5) by (auto simp: pt_ext_def)
  have old: "mapping (mem k) ?rt va = entry_maps (entry (mem k1) t (addr_get_ppn0 va))"
    using mapping_entry[OF w(4)] m1 by simp
  show ?thesis
  proof (cases "vaild (entry (mem k1) t (addr_get_ppn0 va))")
    case True
    then show ?thesis
      using w(1-3) f1 m1 old
      by (simp add: map_one_page_def WalkRetLevelLeaf_def get_usize_by_addr_def entry_def[symmetric]
          entry_maps_def Let_def)
  next
    case False
    let ?e = "set_flags (set_ppn_by_paddr PTE_default pa) flags"
    define k2 where "k2 = set_usize_by_addr k1 (t + addr_get_ppn0 va * 8) (pte_into ?e)"
    note e = new_leaf_entry[OF pa]
    note L = leaf_store[OF w(2) _ e(1) k2_def, unfolded w(3), OF w(4)]
    have "map_one_page pt k va pa flags = Some (Inr (), pt1, k2)"
      using w(1) False
      by (simp add: map_one_page_def WalkRetLevelLeaf_def get_usize_by_addr_def entry_def k2_def Let_def)
    moreover have "mapping (mem k) ?rt va = None" using False old by (simp add: entry_maps_def)
    moreover have "pt_frame s 2 ?rt k k2" using pt_frame_trans[OF f1 L(2)] by simp
    ultimately show ?thesis using L(1,3) w(3) m1 e(2) by (auto simp: fun_eq_iff)
  qed
qed

lemma cleared_entry: "entry_maps (clear_flags (set_ppn_by_paddr e 0) PTE_V) = None"
proof -
  have "pte_flags (clear_flags (set_ppn_by_paddr e 0) PTE_V) AND PTE_V = 0"
    by (simp add: clear_flags_def PTE_V_def set_ppn_fields and.assoc)
  then show ?thesis by (simp add: entry_maps_def vaild_def get_bits_def)
qed

lemma unmap_one_ok:
  assumes inv: "pt_inv s n pt k" and big: "\<not> big_page (mem k) (pt_root pt) va"
    and fr: "2 \<le> card (free_set (buddy_allocator k))"
  shows "\<exists>p pt' k'. unmap_one_page pt k va = Some (Inr p, pt', k') \<and>
    (\<forall>f p'. mapping (mem k) (pt_root pt) va = Some (p', f) \<longrightarrow> p = p') \<and>
    pt_inv s n pt' k' \<and> pt_root pt' = pt_root pt \<and> pt_frame s 2 (pt_root pt) k k' \<and>
    mapping (mem k') (pt_root pt) =
      (\<lambda>va'. if vpn va' = vpn va then None else mapping (mem k) (pt_root pt) va')"
proof -
  let ?rt = "pt_root pt"
  obtain t pt1 k1 where w: "walk_alloc pt k va = Some (\<lparr>level = 2, pte_addr = t + addr_get_ppn0 va * 8\<rparr>, pt1, k1)"
    "pt_inv s n pt1 k1" "pt_root pt1 = ?rt"
    "tbl (mem k1) ?rt [addr_get_ppn2 va, addr_get_ppn1 va] = Some t" "pt_ext s 2 ?rt k k1"
    using walk_alloc_ok[OF inv big fr] by blast
  have m1: "mapping (mem k1) ?rt = mapping (mem k) ?rt" and f1: "pt_frame s 2 ?rt k k1"
    using w(5) by (auto simp: pt_ext_def)
  let ?o = "entry (mem k1) t (addr_get_ppn0 va)"
  let ?e = "clear_flags (set_ppn_by_paddr ?o 0) PTE_V"
  define k2 where "k2 = set_usize_by_addr k1 (t + addr_get_ppn0 va * 8) (pte_into ?e)"
  have ok: "pte_ok ?e" by simp
  note L = leaf_store[OF w(2) _ ok k2_def, unfolded w(3), OF w(4)]
  note none = cleared_entry[of ?o]
  have "unmap_one_page pt k va = Some (Inr (get_point_paddr ?o), pt1, k2)"
    using w(1) by (simp add: unmap_one_page_def WalkRetLevelLeaf_def get_usize_by_addr_def entry_def k2_def Let_def)
  moreover have "\<forall>f p'. mapping (mem k) ?rt va = Some (p', f) \<longrightarrow> get_point_paddr ?o = p'"
    using mapping_entry[OF w(4)] m1 by (auto simp: entry_maps_def split: if_splits)
  moreover have "pt_frame s 2 ?rt k k2" using pt_frame_trans[OF f1 L(2)] by simp
  ultimately show ?thesis using L(1,3) w(3) m1 none by auto
qed

lemma change_flags_ok:
  assumes inv: "pt_inv s n pt k"
  shows "\<exists>k'. change_map_flags pt k va flags =
      Some (if mapping (mem k) (pt_root pt) va = None then Inl () else Inr (), pt, k') \<and>
    pt_inv s n pt k' \<and> pt_frame s 0 (pt_root pt) k k' \<and>
    mapping (mem k') (pt_root pt) = (\<lambda>va'. if vpn va' = vpn va
      then case mapping (mem k) (pt_root pt) va of None \<Rightarrow> None
        | Some (p, f) \<Rightarrow> if flags AND PTE_V \<noteq> 0 then Some (p, flags) else None
      else mapping (mem k) (pt_root pt) va')"
proof -
  let ?rt = "pt_root pt"
  have noop: "mapping (mem k) ?rt = (\<lambda>va'. if vpn va' = vpn va
      then case mapping (mem k) ?rt va of None \<Rightarrow> None
        | Some (p, f) \<Rightarrow> if flags AND PTE_V \<noteq> 0 then Some (p, flags) else None
      else mapping (mem k) ?rt va')" if "mapping (mem k) ?rt va = None"
  proof (rule ext)
    show "mapping (mem k) ?rt va' = (if vpn va' = vpn va
      then case mapping (mem k) ?rt va of None \<Rightarrow> None
        | Some (p, f) \<Rightarrow> if flags AND PTE_V \<noteq> 0 then Some (p, flags) else None
      else mapping (mem k) ?rt va')" for va'
      using that mapping_vpn[of va' va "mem k" ?rt] by simp
  qed
  show ?thesis
  proof (cases "big_page (mem k) ?rt va")
    case True
    have "mapping (mem k) ?rt va = None" by (rule big_no_mapping[OF True])
    then show ?thesis using walk_big[OF inv True, of False] inv pt_frame_refl noop
      by (auto simp: change_map_flags_def walk_def WalkRetLevelLeaf_def)
  next
    case False
    note w = walk_read[OF inv False]
    show ?thesis
    proof (cases "tbl (mem k) ?rt [addr_get_ppn2 va, addr_get_ppn1 va]")
      case None
      then have "mapping (mem k) ?rt va = None" by (simp add: mapping_def del: tbl.simps(2))
      then show ?thesis using w None inv pt_frame_refl noop
        by (auto simp: change_map_flags_def simp del: tbl.simps(2))
    next
      case (Some t)
      let ?o = "entry (mem k) t (addr_get_ppn0 va)"
      note old = mapping_entry[OF Some]
      show ?thesis
      proof (cases "vaild ?o")
        case False
        then have "mapping (mem k) ?rt va = None" using old by (simp add: entry_maps_def)
        then show ?thesis using w Some inv pt_frame_refl noop False
          by (auto simp: change_map_flags_def WalkRetLevelLeaf_def get_usize_by_addr_def entry_def Let_def
              simp del: tbl.simps(2))
      next
        case True
        let ?e = "set_flags (clear_all_flags ?o) flags"
        define k2 where "k2 = set_usize_by_addr k (t + addr_get_ppn0 va * 8) (pte_into ?e)"
        have ok: "pte_ok ?e" by (simp add: entry_def)
        note L = leaf_store[OF inv Some ok k2_def]
        have "change_map_flags pt k va flags = Some (Inr (), pt, k2)"
          using w Some True by (simp add: change_map_flags_def WalkRetLevelLeaf_def get_usize_by_addr_def
              entry_def k2_def Let_def del: tbl.simps(2))
        moreover have "entry_maps ?e = (if flags AND PTE_V \<noteq> 0 then Some (get_point_paddr ?o, flags) else None)"
          by (simp add: entry_maps_def vaild_def get_bits_def)
        ultimately show ?thesis
          using L old True \<open>\<not> big_page (mem k) ?rt va\<close> by (auto simp: entry_maps_def fun_eq_iff)
      qed
    qed
  qed
qed

section \<open>Ranges of pages\<close>

definition has_leaf_table :: "Kern \<Rightarrow> vaddr \<Rightarrow> vaddr \<Rightarrow> bool" where
  "has_leaf_table k rt va \<longleftrightarrow> tbl (mem k) rt [addr_get_ppn2 va, addr_get_ppn1 va] \<noteq> None"

lemma has_leaf_table_frame: "pt_frame s d rt k k' \<Longrightarrow> has_leaf_table k rt va \<Longrightarrow> has_leaf_table k' rt va"
  unfolding pt_frame_def has_leaf_table_def using idx_path(1)[of va] by blast

lemma walk_alloc_exists:
  assumes inv: "pt_inv s n pt k" and t: "tbl (mem k) (pt_root pt) [addr_get_ppn2 va, addr_get_ppn1 va] = Some t"
  shows "walk_alloc pt k va = Some (\<lparr>level = 2, pte_addr = t + addr_get_ppn0 va * 8\<rparr>, pt, k)"
proof -
  obtain t1 where t1: "next_tbl (mem k) (pt_root pt) (addr_get_ppn2 va) = Some t1"
    "next_tbl (mem k) t1 (addr_get_ppn1 va) = Some t"
    using t by (auto split: bind_splits)
  have "tbl (mem k) (pt_root pt) [addr_get_ppn2 va] = Some t1" using t1(1) by simp
  note w = walk_down[OF inv idx_path(3) _ _ ppn_less(3) t1(1)]
    walk_down[OF inv idx_path(2) _ this ppn_less(2) t1(2)] walk_last[OF inv idx_path(1) t ppn_less(1)]
  then show ?thesis
    by (simp add: walk_alloc_def walk_common_def root_run[OF inv] ppn_arr_def del: walk_loop.simps)
qed

lemma is_not_mapped_ok:
  assumes inv: "pt_inv s n pt k" and big: "\<not> big_page (mem k) (pt_root pt) va"
    and fr: "2 \<le> card (free_set (buddy_allocator k))"
  shows "\<exists>pt' k'. is_not_mapped pt k va = Some (mapping (mem k) (pt_root pt) va = None, pt', k') \<and>
    pt_inv s n pt' k' \<and> pt_root pt' = pt_root pt \<and> pt_ext s 2 (pt_root pt) k k' \<and>
    has_leaf_table k' (pt_root pt) va"
proof -
  obtain t pt1 k1 where w: "walk_alloc pt k va = Some (\<lparr>level = 2, pte_addr = t + addr_get_ppn0 va * 8\<rparr>, pt1, k1)"
    "pt_inv s n pt1 k1" "pt_root pt1 = pt_root pt"
    "tbl (mem k1) (pt_root pt) [addr_get_ppn2 va, addr_get_ppn1 va] = Some t" "pt_ext s 2 (pt_root pt) k k1"
    using walk_alloc_ok[OF inv big fr] by blast
  have "mapping (mem k) (pt_root pt) va = entry_maps (entry (mem k1) t (addr_get_ppn0 va))"
    using mapping_entry[OF w(4)] w(5) by (simp add: pt_ext_def)
  then have "is_not_mapped pt k va = Some (mapping (mem k) (pt_root pt) va = None, pt1, k1)"
    using w(1) by (simp add: is_not_mapped_def WalkRetLevelLeaf_def get_usize_by_addr_def entry_def
        entry_maps_def Let_def)
  moreover have "has_leaf_table k1 (pt_root pt) va" using w(4) by (simp add: has_leaf_table_def)
  ultimately show ?thesis using w(2,3,5) by blast
qed

lemma not_mapped_loop_ok:
  assumes "pt_inv s n pt k" "\<And>va. va \<in> set as \<Longrightarrow> \<not> big_page (mem k) (pt_root pt) va"
    "2 * length as \<le> card (free_set (buddy_allocator k))"
  shows "\<exists>pt' k'. not_mapped_loop as pt k =
      Some (\<forall>va \<in> set as. mapping (mem k) (pt_root pt) va = None, pt', k') \<and>
    pt_inv s n pt' k' \<and> pt_root pt' = pt_root pt \<and> pt_ext s (2 * length as) (pt_root pt) k k' \<and>
    ((\<forall>va \<in> set as. mapping (mem k) (pt_root pt) va = None) \<longrightarrow>
       (\<forall>va \<in> set as. has_leaf_table k' (pt_root pt) va))"
  using assms
proof (induction "as" arbitrary: pt k)
  case Nil
  then show ?case using pt_ext_refl by auto
next
  case (Cons a "as")
  have "2 \<le> card (free_set (buddy_allocator k))" using Cons.prems(3) by simp
  then obtain pt1 k1 where a: "is_not_mapped pt k a = Some (mapping (mem k) (pt_root pt) a = None, pt1, k1)"
    "pt_inv s n pt1 k1" "pt_root pt1 = pt_root pt" "pt_ext s 2 (pt_root pt) k k1"
    "has_leaf_table k1 (pt_root pt) a"
    using is_not_mapped_ok[OF Cons.prems(1)] Cons.prems(2) by (metis list.set_intros(1))
  have m: "mapping (mem k1) (pt_root pt) = mapping (mem k) (pt_root pt)" using a(4) by (simp add: pt_ext_def)
  show ?case
  proof (cases "mapping (mem k) (pt_root pt) a = None")
    case False
    moreover have "pt_ext s (2 * length (a # as)) (pt_root pt) k k1"
      using pt_ext_trans[OF a(4) pt_ext_refl[of s "2 * length as"]] by simp
    ultimately show ?thesis using a(1-3) by (intro exI[of _ pt1] exI[of _ k1]) auto
  next
    case True
    have "\<not> big_page (mem k1) (pt_root pt1) va" if "va \<in> set as" for va
      using that Cons.prems(2) a(3,4) by (auto simp: pt_ext_defs)
    moreover have "2 * length as \<le> card (free_set (buddy_allocator k1))"
      using Cons.prems(3) a(4) by (auto simp: pt_ext_defs)
    ultimately obtain pt2 k2 where b: "not_mapped_loop as pt1 k1 =
        Some (\<forall>va \<in> set as. mapping (mem k) (pt_root pt) va = None, pt2, k2)"
      "pt_inv s n pt2 k2" "pt_root pt2 = pt_root pt" "pt_ext s (2 * length as) (pt_root pt) k1 k2"
      "(\<forall>va \<in> set as. mapping (mem k) (pt_root pt) va = None) \<longrightarrow>
         (\<forall>va \<in> set as. has_leaf_table k2 (pt_root pt) va)"
      using Cons.IH[OF a(2)] unfolding a(3) m by blast
    have "pt_ext s (2 * length (a # as)) (pt_root pt) k k2" using pt_ext_trans[OF a(4) b(4)] by simp
    moreover have "has_leaf_table k2 (pt_root pt) a"
      using has_leaf_table_frame a(5) b(4) by (auto simp: pt_ext_def)
    ultimately show ?thesis
      using a(1) b(1-3,5) True by (intro exI[of _ pt2] exI[of _ k2]) auto
  qed
qed

lemma map_one_exists:
  assumes inv: "pt_inv s n pt k" and t: "has_leaf_table k (pt_root pt) va"
    and m: "mapping (mem k) (pt_root pt) va = None" and pa: "pa < 2 ^ 39" "flags AND PTE_V \<noteq> 0"
  shows "\<exists>k'. map_one_page pt k va pa flags = Some (Inr (), pt, k') \<and> pt_inv s n pt k' \<and>
    pt_frame s 0 (pt_root pt) k k' \<and>
    mapping (mem k') (pt_root pt) = (\<lambda>va'. if vpn va' = vpn va
      then Some (pa div PAGE_SIZE * PAGE_SIZE, flags) else mapping (mem k) (pt_root pt) va')"
proof -
  obtain t where t: "tbl (mem k) (pt_root pt) [addr_get_ppn2 va, addr_get_ppn1 va] = Some t"
    using t by (auto simp: has_leaf_table_def simp del: tbl.simps(2))
  let ?e = "set_flags (set_ppn_by_paddr PTE_default pa) flags"
  define k' where "k' = set_usize_by_addr k (t + addr_get_ppn0 va * 8) (pte_into ?e)"
  note e = new_leaf_entry[OF pa] and L = leaf_store[OF inv t new_leaf_entry(1)[OF pa] k'_def]
  have "\<not> vaild (entry (mem k) t (addr_get_ppn0 va))"
    using m mapping_entry[OF t] by (auto simp: entry_maps_def split: if_splits)
  then have "map_one_page pt k va pa flags = Some (Inr (), pt, k')"
    using walk_alloc_exists[OF inv t]
    by (simp add: map_one_page_def WalkRetLevelLeaf_def get_usize_by_addr_def entry_def k'_def Let_def)
  with L e(2) show ?thesis by auto
qed

lemma map_pages_loop_ok:
  assumes "pt_inv s n pt k" "distinct is"
    "\<And>i. i \<in> set is \<Longrightarrow> i < 2 ^ 27 \<and> va + i * PAGE_SIZE < 2 ^ 64 \<and> pa + i * PAGE_SIZE < 2 ^ 39 \<and>
       has_leaf_table k (pt_root pt) (va + i * PAGE_SIZE) \<and>
       mapping (mem k) (pt_root pt) (va + i * PAGE_SIZE) = None"
    and pa: "PAGE_SIZE dvd pa" "flags AND PTE_V \<noteq> 0"
  shows "\<exists>k'. map_pages_loop is pt k va pa flags = Some (Inr (), pt, k') \<and> pt_inv s n pt k' \<and>
    pt_frame s 0 (pt_root pt) k k' \<and>
    (\<forall>i \<in> set is. mapping (mem k') (pt_root pt) (va + i * PAGE_SIZE) = Some (pa + i * PAGE_SIZE, flags)) \<and>
    (\<forall>va'. (\<forall>i \<in> set is. vpn va' \<noteq> vpn (va + i * PAGE_SIZE)) \<longrightarrow>
       mapping (mem k') (pt_root pt) va' = mapping (mem k) (pt_root pt) va')"
  using assms(1-3)
proof (induction "is" arbitrary: k)
  case Nil
  then show ?case using pt_frame_refl by auto
next
  case (Cons i "is")
  let ?rt = "pt_root pt" and ?v = "\<lambda>i. va + i * PAGE_SIZE"
  have i: "i < 2 ^ 27" "?v i < 2 ^ 64" "pa + i * PAGE_SIZE < 2 ^ 39" "has_leaf_table k ?rt (?v i)"
    "mapping (mem k) ?rt (?v i) = None" using Cons.prems(3) by auto
  have al: "(pa + i * PAGE_SIZE) div PAGE_SIZE * PAGE_SIZE = pa + i * PAGE_SIZE"
    using pa(1) by (intro dvd_div_mult_self) simp
  obtain k1 where k1: "map_one_page pt k (?v i) (pa + i * PAGE_SIZE) flags = Some (Inr (), pt, k1)"
    "pt_inv s n pt k1" "pt_frame s 0 ?rt k k1"
    "mapping (mem k1) ?rt = (\<lambda>va'. if vpn va' = vpn (?v i)
      then Some (pa + i * PAGE_SIZE, flags) else mapping (mem k) ?rt va')"
    using map_one_exists[OF Cons.prems(1) i(4,5,3) pa(2)] unfolding al by blast
  have j: "j < 2 ^ 27" "j \<noteq> i" if "j \<in> set is" for j using that Cons.prems(2,3) by auto
  have ne: "vpn (?v j) \<noteq> vpn (?v i)" if "j \<in> set is" for j using vpn_add[of j i] j[OF that] i(1) by auto
  have "j < 2 ^ 27 \<and> ?v j < 2 ^ 64 \<and> pa + j * PAGE_SIZE < 2 ^ 39 \<and> has_leaf_table k1 ?rt (?v j) \<and>
      mapping (mem k1) ?rt (?v j) = None" if "j \<in> set is" for j
    using Cons.prems(3)[of j] that ne[OF that] k1(4) has_leaf_table_frame[OF k1(3)] by auto
  then obtain k2 where k2: "map_pages_loop is pt k1 va pa flags = Some (Inr (), pt, k2)"
    "pt_inv s n pt k2" "pt_frame s 0 ?rt k1 k2"
    "\<forall>i \<in> set is. mapping (mem k2) ?rt (?v i) = Some (pa + i * PAGE_SIZE, flags)"
    "\<And>va'. (\<forall>i \<in> set is. vpn va' \<noteq> vpn (?v i)) \<Longrightarrow> mapping (mem k2) ?rt va' = mapping (mem k1) ?rt va'"
    using Cons.IH[OF k1(2)] Cons.prems(2) by auto
  have le: "i * PAGE_SIZE < 2 ^ 64" "pa + i * PAGE_SIZE < 2 ^ 64" using i(2,3) by simp_all
  have "map_pages_loop (i # is) pt k va pa flags = Some (Inr (), pt, k2)"
    using k1(1) k2(1) by (simp add: umul_ok[OF le(1)] uadd_ok[OF i(2)] uadd_ok[OF le(2)])
  moreover have "mapping (mem k2) ?rt (?v i) = Some (pa + i * PAGE_SIZE, flags)"
    using k2(5)[of "?v i"] ne k1(4) by (metis (mono_tags, lifting))
  moreover have "pt_frame s 0 ?rt k k2" using pt_frame_trans[OF k1(3) k2(3)] by simp
  ultimately show ?case using k2(2,4,5) k1(4) by auto
qed

lemma page_list_eq:
  assumes "va + pgs * PAGE_SIZE < 2 ^ 64"
  shows "page_list va pgs = Some (map (\<lambda>i. va + i * PAGE_SIZE) [0..<pgs])"
proof -
  have "pgs * PAGE_SIZE < 2 ^ 64" using assms by linarith
  moreover have "pgs = 0 \<or> va + (pgs - 1) * PAGE_SIZE < va + pgs * PAGE_SIZE"
    by (auto simp: PAGE_SIZE_def)
  ultimately show ?thesis
    using collect_eq[of "va + pgs * PAGE_SIZE" va pgs PAGE_SIZE] assms
    by (simp add: page_list_def page_addr_iter_def addr_iter_def umul_ok uadd_ok)
qed

text \<open>The pages of a range, as page numbers.\<close>

definition in_range :: "vaddr \<Rightarrow> nat \<Rightarrow> vaddr \<Rightarrow> bool" where
  "in_range va pgs va' \<longleftrightarrow> (\<exists>i < pgs. vpn va' = vpn (va + i * PAGE_SIZE))"

definition range_ok :: "Kern \<Rightarrow> vaddr \<Rightarrow> vaddr \<Rightarrow> nat \<Rightarrow> bool" where
  "range_ok k rt va pgs \<longleftrightarrow> va + pgs * PAGE_SIZE < 2 ^ 64 \<and> pgs \<le> 1024 \<and>
     (\<forall>i < pgs. \<not> big_page (mem k) rt (va + i * PAGE_SIZE))"

lemma page_in_range_less: "i < pgs \<Longrightarrow> va + pgs * PAGE_SIZE < 2 ^ 64 \<Longrightarrow> va + i * PAGE_SIZE < 2 ^ 64"
  by (rule le_less_trans[of _ "va + pgs * PAGE_SIZE"]) simp_all

lemma map_pages_ok:
  assumes inv: "pt_inv s n pt k" and rng: "range_ok k (pt_root pt) va (2 ^ order)" and ord: "order < MAX_ORDER"
    and fr: "2 * 2 ^ order \<le> card (free_set (buddy_allocator k))"
    and pa: "PAGE_SIZE dvd pa" "pa + 2 ^ order * PAGE_SIZE < 2 ^ 39" "flags AND PTE_V \<noteq> 0"
  defines "free \<equiv> \<forall>i < 2 ^ order. mapping (mem k) (pt_root pt) (va + i * PAGE_SIZE) = None"
  shows "\<exists>pt' k'. map_pages pt k va pa order flags = Some (if free then Inr () else Inl (-1), pt', k') \<and>
    pt_inv s n pt' k' \<and> pt_root pt' = pt_root pt \<and> pt_frame s (2 * 2 ^ order) (pt_root pt) k k' \<and>
    (free \<longrightarrow> (\<forall>i < 2 ^ order. mapping (mem k') (pt_root pt) (va + i * PAGE_SIZE) = Some (pa + i * PAGE_SIZE, flags) \<and>
       has_leaf_table k' (pt_root pt) (va + i * PAGE_SIZE))) \<and>
    (\<forall>va'. \<not> free \<or> \<not> in_range va (2 ^ order) va' \<longrightarrow>
       mapping (mem k') (pt_root pt) va' = mapping (mem k) (pt_root pt) va')"
proof -
  let ?rt = "pt_root pt" and ?c = "2 ^ order :: nat" and ?as = "map (\<lambda>i. va + i * PAGE_SIZE) [0..<2 ^ order]"
  have va: "va + ?c * PAGE_SIZE < 2 ^ 64" "?c \<le> 1024" using rng by (auto simp: range_ok_def)
  obtain pt1 k1 where a: "not_mapped_loop ?as pt k = Some (free, pt1, k1)"
    "pt_inv s n pt1 k1" "pt_root pt1 = ?rt" "pt_ext s (2 * ?c) ?rt k k1"
    "free \<longrightarrow> (\<forall>va \<in> set ?as. has_leaf_table k1 ?rt va)"
  proof -
    have free: "(\<forall>va \<in> set ?as. mapping (mem k) ?rt va = None) = free" by (auto simp: free_def)
    have "\<not> big_page (mem k) ?rt a" if "a \<in> set ?as" for a using that rng by (auto simp: range_ok_def)
    moreover have "length ?as = ?c" by simp
    ultimately show ?thesis
      using not_mapped_loop_ok[OF inv, of ?as] fr that unfolding free by metis
  qed
  have run: "map_pages pt k va pa order flags =
      (if \<not> free then Some (Inl (-1), pt1, k1) else map_pages_loop [0..<?c] pt1 k1 va pa flags)"
    using ord by (simp add: map_pages_def order2pages_pos page_list_eq[OF va(1)] a(1))
  have m1: "mapping (mem k1) ?rt = mapping (mem k) ?rt" "pt_frame s (2 * ?c) ?rt k k1"
    using a(4) by (auto simp: pt_ext_def)
  show ?thesis
  proof (cases free)
    case False
    then show ?thesis using run a(2,3) m1 by auto
  next
    case True
    have "i < 2 ^ 27 \<and> va + i * PAGE_SIZE < 2 ^ 64 \<and> pa + i * PAGE_SIZE < 2 ^ 39 \<and>
        has_leaf_table k1 (pt_root pt1) (va + i * PAGE_SIZE) \<and>
        mapping (mem k1) (pt_root pt1) (va + i * PAGE_SIZE) = None" if i: "i \<in> set [0..<?c]" for i
    proof -
      have "pa + i * PAGE_SIZE \<le> pa + ?c * PAGE_SIZE" using i by simp
      then have "pa + i * PAGE_SIZE < 2 ^ 39" using pa(2) by (rule le_less_trans)
      moreover have "i < 2 ^ 27" using i va(2) by simp
      ultimately show ?thesis
        using i page_in_range_less[OF _ va(1)] a(3,5) True m1(1) by (auto simp: free_def)
    qed
    from map_pages_loop_ok[OF a(2) distinct_upt[of 0 ?c] this pa(1,3)] obtain k2 where
      k2: "map_pages_loop [0..<?c] pt1 k1 va pa flags = Some (Inr (), pt1, k2)" "pt_inv s n pt1 k2"
        "pt_frame s 0 ?rt k1 k2"
        "\<And>i. i < ?c \<Longrightarrow> mapping (mem k2) ?rt (va + i * PAGE_SIZE) = Some (pa + i * PAGE_SIZE, flags)"
        "\<And>va'. \<not> in_range va ?c va' \<Longrightarrow> mapping (mem k2) ?rt va' = mapping (mem k1) ?rt va'"
      unfolding a(3) by (auto simp: in_range_def)
    have "has_leaf_table k2 ?rt (va + i * PAGE_SIZE)" if "i < ?c" for i
      using a(5) True that has_leaf_table_frame[OF k2(3)] by auto
    moreover have "pt_frame s (2 * ?c) ?rt k k2" using pt_frame_trans[OF m1(2) k2(3)] by simp
    ultimately show ?thesis
      using run True k2(1,2,4,5) a(3) m1(1) by (intro exI[of _ pt1] exI[of _ k2]) auto
  qed
qed

lemma unmap_one_exists:
  assumes inv: "pt_inv s n pt k" and t: "has_leaf_table k (pt_root pt) va"
    and m: "mapping (mem k) (pt_root pt) va = Some (p, f)"
  shows "\<exists>k'. unmap_one_page pt k va = Some (Inr p, pt, k') \<and> pt_inv s n pt k' \<and>
    pt_frame s 0 (pt_root pt) k k' \<and>
    mapping (mem k') (pt_root pt) =
      (\<lambda>va'. if vpn va' = vpn va then None else mapping (mem k) (pt_root pt) va')"
proof -
  obtain t where t: "tbl (mem k) (pt_root pt) [addr_get_ppn2 va, addr_get_ppn1 va] = Some t"
    using t by (auto simp: has_leaf_table_def simp del: tbl.simps(2))
  let ?o = "entry (mem k) t (addr_get_ppn0 va)"
  let ?e = "clear_flags (set_ppn_by_paddr ?o 0) PTE_V"
  define k' where "k' = set_usize_by_addr k (t + addr_get_ppn0 va * 8) (pte_into ?e)"
  have ok: "pte_ok ?e" by simp
  note L = leaf_store[OF inv t ok k'_def]
  have "get_point_paddr ?o = p"
    using m mapping_entry[OF t] by (auto simp: entry_maps_def split: if_splits)
  then have "unmap_one_page pt k va = Some (Inr p, pt, k')"
    using walk_alloc_exists[OF inv t]
    by (simp add: unmap_one_page_def WalkRetLevelLeaf_def get_usize_by_addr_def entry_def k'_def Let_def)
  with L cleared_entry[of ?o] show ?thesis by auto
qed

lemma unmap_loop_ok:
  assumes "pt_inv s n pt k" "va + c * PAGE_SIZE < 2 ^ 64" "c \<le> 1024"
    "\<And>i. i < c \<Longrightarrow> has_leaf_table k (pt_root pt) (va + i * PAGE_SIZE) \<and>
       mapping (mem k) (pt_root pt) (va + i * PAGE_SIZE) = Some (p + i * PAGE_SIZE, f)"
    "r = None \<longrightarrow> 0 < c"
  shows "\<exists>k'. unmap_pages_loop c r va pt k = Some (Inr (case r of None \<Rightarrow> p | Some q \<Rightarrow> q), pt, k') \<and>
    pt_inv s n pt k' \<and> pt_frame s 0 (pt_root pt) k k' \<and>
    mapping (mem k') (pt_root pt) =
      (\<lambda>va'. if in_range va c va' then None else mapping (mem k) (pt_root pt) va')"
  using assms
proof (induction c arbitrary: va p r k)
  case 0
  then show ?case using pt_frame_refl by (auto simp: in_range_def)
next
  case (Suc c)
  let ?rt = "pt_root pt" and ?v = "va + PAGE_SIZE"
  obtain k1 where k1: "unmap_one_page pt k va = Some (Inr p, pt, k1)" "pt_inv s n pt k1" "pt_frame s 0 ?rt k k1"
    "mapping (mem k1) ?rt = (\<lambda>va'. if vpn va' = vpn va then None else mapping (mem k) ?rt va')"
    using unmap_one_exists[OF Suc.prems(1), of va p f] Suc.prems(4)[of 0] by auto
  have "has_leaf_table k1 ?rt (?v + i * PAGE_SIZE) \<and>
      mapping (mem k1) ?rt (?v + i * PAGE_SIZE) = Some ((p + PAGE_SIZE) + i * PAGE_SIZE, f)" if "i < c" for i
    using Suc.prems(3) Suc.prems(4)[of "Suc i"] that has_leaf_table_frame[OF k1(3)] k1(4)
      vpn_add[of "Suc i" 0 va] by (auto simp: algebra_simps)
  moreover have "?v + c * PAGE_SIZE < 2 ^ 64" using Suc.prems(2) by simp
  ultimately obtain k2 where k2: "unmap_pages_loop c (Some (case r of None \<Rightarrow> p | Some q \<Rightarrow> q)) ?v pt k1 =
      Some (Inr (case r of None \<Rightarrow> p | Some q \<Rightarrow> q), pt, k2)" "pt_inv s n pt k2" "pt_frame s 0 ?rt k1 k2"
    "mapping (mem k2) ?rt = (\<lambda>va'. if in_range ?v c va' then None else mapping (mem k1) ?rt va')"
    using Suc.IH[OF k1(2), of ?v "p + PAGE_SIZE" "Some (case r of None \<Rightarrow> p | Some q \<Rightarrow> q)"] Suc.prems(3) by auto
  have "uadd va PAGE_SIZE = Some ?v" using Suc.prems(2) by (intro uadd_ok) simp
  then have "unmap_pages_loop (Suc c) r va pt k = Some (Inr (case r of None \<Rightarrow> p | Some q \<Rightarrow> q), pt, k2)"
    using k1(1) k2(1) by (cases r) simp_all
  moreover have "in_range va (Suc c) va' \<longleftrightarrow> vpn va' = vpn va \<or> in_range ?v c va'" for va'
    unfolding in_range_def by (simp add: Ex_less_Suc2 add.assoc)
  moreover have "pt_frame s 0 ?rt k k2" using pt_frame_trans[OF k1(3) k2(3)] by simp
  ultimately show ?case using k2(2,4) k1(4) by (auto simp: fun_eq_iff)
qed

section \<open>New tables\<close>

lemma zero_table:
  assumes "\<And>i. i < 512 \<Longrightarrow> m (N + i * 8) = 0"
  shows "idx (i # p) \<Longrightarrow> tbl m N (i # p) = None" "\<not> big_page m N va" "mapping m N va = None"
proof -
  have z: "entry m N i = PTE_default" if "i < 512" for i using assms that by (simp add: entry_def pte_zero)
  have nx: "next_tbl m N i = None" if "i < 512" for i
    using z[OF that] by (simp add: next_tbl_def vaild_def get_bits_def)
  show "tbl m N (i # p) = None" if "idx (i # p)" for i p using that nx[of i] by (simp add: idx_def)
  show "\<not> big_page m N va" "mapping m N va = None"
    using z[OF ppn_less(3)] nx[OF ppn_less(3)]
    by (simp_all add: big_page_def mapping_def is_leaf_def get_bits_def)
qed

lemma PageTable_default_ok:
  assumes inv: "kern_inv s n k" and fr: "free_set (buddy_allocator k) \<noteq> {}"
    and s: "PAGE_SIZE dvd s" "PHY_MEM_OFFSET \<le> s"
  shows "\<exists>i pt k'. i \<in> free_set (buddy_allocator k) \<and> PageTable_default k = Some (pt, k') \<and>
    pt_root pt = s + PAGE_SIZE * i \<and> pt_inv s n pt k' \<and>
    free_set (buddy_allocator k') = free_set (buddy_allocator k) - {i} \<and>
    mem k' = (\<lambda>a. if a \<in> block_words (s + PAGE_SIZE * i) 0 then 0 else mem k a)"
proof -
  obtain i k' where i: "i \<in> free_set (buddy_allocator k)" "alloc_table k = Some (s + PAGE_SIZE * i, k')"
    and k': "kern_inv s n k'" "free_set (buddy_allocator k') = free_set (buddy_allocator k) - {i}"
      "mem k' = (\<lambda>a. if a \<in> block_words (s + PAGE_SIZE * i) 0 then 0 else mem k a)"
    using alloc_table_ok[OF inv fr] by blast
  let ?N = "s + PAGE_SIZE * i"
  have "8 dvd ?N" using s(1) dvd_trans[of 8 PAGE_SIZE ?N] by (simp add: PAGE_SIZE_def)
  then have z: "mem k' (?N + j * 8) = 0" if "j < 512" for j
    using that by (auto simp: k'(3) block_words_def PAGE_SIZE_def)
  have "i < n" using i(1) kern_inv_free[OF inv] by auto
  then have "PAGE_SIZE * Suc i \<le> PAGE_SIZE * n" by (intro mult_le_mono2) simp
  then have N: "?N + PAGE_SIZE \<le> 2 ^ 64" using kern_inv_mem_ok[OF inv] by simp
  have out: "?N \<notin> free_at s k'"
    unfolding free_at_def k'(2) image_set_diff[OF inj_page] by simp
  have nil: "p = []" if "idx p" "tbl (mem k') ?N p = Some t" for p t
    using that zero_table(1)[where m = "mem k'" and N = ?N, OF z] by (cases p) auto
  have "tree_inv (free_at s k') (mem k') ?N"
  proof (rule tree_invI)
    show "tbl_ok (free_at s k') (mem k') t" if "idx p" "tbl (mem k') ?N p = Some t" for p t
      using that nil[OF that] N out s(1) z dvd_add[OF s(1) dvd_triv_left[of PAGE_SIZE i]]
      by (simp add: tbl_ok_def)
  qed (metis nil)
  then show ?thesis
    using i k' s by (intro exI[of _ i] exI[of _ "\<lparr>private_pgs = [?N]\<rparr>"] exI[of _ k'])
      (simp add: PageTable_default_def pt_inv_def pt_root_def)
qed

lemma copy_words_eq:
  assumes "\<And>i j. i \<in> set is \<Longrightarrow> j \<in> set is \<Longrightarrow> src + i \<noteq> dest + j"
  shows "copy_words is src dest m a = (if a \<in> (\<lambda>i. dest + i) ` set is then m (src + (a - dest)) else m a)"
  using assms
proof (induction "is" arbitrary: m)
  case (Cons i "is")
  have "copy_words (i # is) src dest m a = copy_words is src dest (m(dest + i := m (src + i))) a"
    by (simp add: copy_words_def)
  also have "\<dots> = (if a \<in> (\<lambda>i. dest + i) ` set is then (m(dest + i := m (src + i))) (src + (a - dest))
      else (m(dest + i := m (src + i))) a)"
    using Cons.prems by (intro Cons.IH) auto
  also have "\<dots> = (if a \<in> (\<lambda>i. dest + i) ` set (i # is) then m (src + (a - dest)) else m a)"
    using Cons.prems by auto
  finally show ?case .
qed (simp add: copy_words_def)

lemma copy_page_eq:
  assumes "PAGE_SIZE dvd src" "PAGE_SIZE dvd dest" "src \<noteq> dest" "i < 512"
    and m'_def: "m' = copy_words (filter (\<lambda>x. x mod 8 = 0) [0..<PAGE_SIZE]) src dest m"
  shows "m' (dest + i * 8) = m (src + i * 8)" "a \<notin> block_words dest 0 \<Longrightarrow> m' a = m a"
proof -
  let ?is = "filter (\<lambda>x. x mod 8 = 0) [0..<PAGE_SIZE]"
  have ne: "src + i \<noteq> dest + j" if "i \<in> set ?is" "j \<in> set ?is" for i j
  proof
    assume eq: "src + i = dest + j"
    have "i < PAGE_SIZE" "j < PAGE_SIZE" using that by auto
    moreover obtain x y where xy: "src = PAGE_SIZE * x" "dest = PAGE_SIZE * y"
      using assms(1,2) by (auto simp: dvd_def)
    ultimately have "(src + i) div PAGE_SIZE = x" "(dest + j) div PAGE_SIZE = y" by auto
    then show False using eq xy assms(3) by simp
  qed
  have C: "m' a = (if a \<in> (\<lambda>i. dest + i) ` set ?is then m (src + (a - dest)) else m a)" for a
    unfolding m'_def by (rule copy_words_eq) (rule ne)
  have "i * 8 \<in> set ?is" using assms(4) by (simp add: PAGE_SIZE_def)
  then show "m' (dest + i * 8) = m (src + i * 8)" by (simp add: C)
  have "8 dvd dest" using assms(2) dvd_trans[of 8 PAGE_SIZE dest] by (simp add: PAGE_SIZE_def)
  then have "(\<lambda>i. dest + i) ` set ?is \<subseteq> block_words dest 0" by (auto simp: block_words_def)
  then show "m' a = m a" if a: "a \<notin> block_words dest 0"
    using subsetD[of "(\<lambda>i. dest + i) ` set ?is" "block_words dest 0" a] a unfolding C by meson
qed

lemma new_user_tree:
  assumes inv: "tree_inv U m rt" and N: "N \<in> U" "PAGE_SIZE dvd N" "N + PAGE_SIZE \<le> 2 ^ 64"
    and low: "\<And>i. i < 2 \<Longrightarrow> m' (N + i * 8) = 0"
    and high: "\<And>i. 2 \<le> i \<Longrightarrow> i < 512 \<Longrightarrow> m' (N + i * 8) = m (rt + i * 8)"
    and out: "\<And>a. a \<notin> block_words N 0 \<Longrightarrow> m' a = m a"
  shows "tree_inv (U - {N}) m' N" "tree_inv (U - {N}) m' rt"
    "mapping m' rt va = mapping m rt va"
    "mapping m' N va = (if addr_get_ppn2 va < 2 then None else mapping m rt va)"
    "idx (i # p) \<Longrightarrow> tbl m' N (i # p) = (if i < 2 then None else tbl m rt (i # p))"
proof -
  note ok = tree_invD(2)[OF inv]
  have same: "m' (t + i * 8) = m (t + i * 8)" if "idx q" "tbl m rt q = Some t" "i < 512" for q t i
  proof -
    have t: "PAGE_SIZE dvd t" "t \<noteq> N" using ok[OF that(1,2)] N(1) by (auto simp: tbl_ok_def)
    then have "t + i * 8 \<notin> block_words N 0" using entry_not_in_page[OF t N(2) that(3)] by simp
    then show ?thesis by (rule out)
  qed
  have tb: "tbl m' rt q = tbl m rt q" if "idx q" for q
    by (rule tbl_frame[where m = m and pz = "[0, 0, 0]" and iz = 0]) (use same that in \<open>auto simp: idx_def\<close>)
  have nx: "next_tbl m' N i = (if i < 2 then None else next_tbl m' rt i)" if "i < 512" for i
    using low[of i] high[of i] same[OF idx_path(3), of rt i] that
    by (auto simp: next_tbl_def entry_def pte_zero vaild_def get_bits_def)
  show tbN: "tbl m' N (i # p) = (if i < 2 then None else tbl m rt (i # p))" if "idx (i # p)" for i p
    using nx[of i] that tb[OF that] by (simp add: idx_def)
  show "tree_inv (U - {N}) m' rt"
  proof (rule tree_invI)
    show "tbl_ok (U - {N}) m' t" if "idx p" "tbl m' rt p = Some t" for p t
      using ok[OF that(1)] that same[OF that(1)] by (auto simp: tb tbl_ok_def)
  qed (use tree_invD(1)[OF inv] tb in auto)
  show "tree_inv (U - {N}) m' N"
  proof (rule tree_invI)
    have tN: "t \<noteq> N" if "idx p" "tbl m rt p = Some t" for p t
      using ok[OF that] N(1) by (auto simp: tbl_ok_def)
    show "p = q" if "idx p" "idx q" "tbl m' N p = Some t" "tbl m' N q = Some t" for p q t
      using that tbN tN tree_invD(1)[OF inv that(1,2)]
      by (cases p; cases q) (auto simp del: tbl.simps(2) split: if_splits)
    have rt0: "canonical (m (rt + i * 8))" if "i < 512" for i
      using ok[OF idx_path(3), of rt] that by (simp add: tbl_ok_def)
    have "canonical (m' (N + i * 8))" if "i < 512" for i
      using low[of i] high[of i] rt0[OF that] that by (cases "i < 2") auto
    then show "tbl_ok (U - {N}) m' t" if "idx p" "tbl m' N p = Some t" for p t
      using that N tbN ok[OF that(1)] same[OF that(1)]
      by (cases p) (auto simp: tbl_ok_def simp del: tbl.simps(2) split: if_splits)
  qed
  show "mapping m' rt va = mapping m rt va"
    using same[OF idx_path(1), of va _ "addr_get_ppn0 va"]
    by (auto simp: mapping_def tb[OF idx_path(1)] entry_def ppn_less simp del: tbl.simps(2) split: option.splits)
  then show "mapping m' N va = (if addr_get_ppn2 va < 2 then None else mapping m rt va)"
    using tb[OF idx_path(1), of va]
    by (simp add: mapping_def tbN[OF idx_path(1)] del: tbl.simps(2))
qed

lemma new_user_run:
  assumes inv: "pt_inv s n kpt k" and fr: "free_set (buddy_allocator k) \<noteq> {}"
  shows "\<exists>pt k'. new_user kpt k = Some (pt, k') \<and> pt_inv s n pt k' \<and> pt_inv s n kpt k' \<and>
    pt_root pt \<in> free_at s k \<and> free_at s k' = free_at s k - {pt_root pt} \<and>
    card (free_set (buddy_allocator k)) \<le> card (free_set (buddy_allocator k')) + 1 \<and>
    (\<forall>j < 2. mem k' (pt_root pt + j * 8) = 0) \<and>
    (\<forall>i p. idx (i # p) \<longrightarrow> tbl (mem k') (pt_root pt) (i # p) =
      (if i < 2 then None else tbl (mem k) (pt_root kpt) (i # p))) \<and>
    (\<forall>a. a \<notin> block_words (pt_root pt) 0 \<longrightarrow> mem k' a = mem k a) \<and>
    (\<forall>j < 512. mem k' (pt_root pt + j * 8) = (if j < 2 then 0 else mem k (pt_root kpt + j * 8))) \<and>
    (\<forall>va. mapping (mem k') (pt_root kpt) va = mapping (mem k) (pt_root kpt) va \<and>
      mapping (mem k') (pt_root pt) va =
        (if addr_get_ppn2 va < 2 then None else mapping (mem k) (pt_root kpt) va))"
proof -
  note D = pt_invD[OF inv]
  obtain i pt k1 where i: "i \<in> free_set (buddy_allocator k)" "PageTable_default k = Some (pt, k1)"
    "pt_root pt = s + PAGE_SIZE * i" "pt_inv s n pt k1"
    "free_set (buddy_allocator k1) = free_set (buddy_allocator k) - {i}"
    "mem k1 = (\<lambda>a. if a \<in> block_words (s + PAGE_SIZE * i) 0 then 0 else mem k a)"
    using PageTable_default_ok[OF D(1) fr D(2,3)] by blast
  define N where "N = s + PAGE_SIZE * i"
  note D1 = pt_invD[OF i(4)]
  have N: "N \<in> free_at s k" "PAGE_SIZE dvd N" "N + PAGE_SIZE \<le> 2 ^ 64"
    using i(1) tree_invD(2)[OF D1(5) idx_path(3)] by (auto simp: N_def i(3) free_at_def tbl_ok_def)
  have rt: "tbl_ok (free_at s k) (mem k) (pt_root kpt)" using tree_invD(2)[OF D(5) idx_path(3)] by simp
  have R: "PAGE_SIZE dvd pt_root kpt" "pt_root kpt + PAGE_SIZE \<le> 2 ^ 64" "pt_root kpt \<noteq> N"
    using rt N(1) by (auto simp: tbl_ok_def)
  define c where "c = copy_words (filter (\<lambda>x. x mod 8 = 0) [0..<PAGE_SIZE]) (pt_root kpt) N (mem k1)"
  define k' where "k' = k1\<lparr>mem := c(N := 0, N + 8 := 0)\<rparr>"
  have "8 dvd N" using N(2) dvd_trans[of 8 PAGE_SIZE N] by (simp add: PAGE_SIZE_def)
  then have a8: "N mod 8 = 0" "(N + 8) mod 8 = 0" by auto
  have b: "x + (PAGE_SIZE - 8) < 2 ^ 64" "x + 8 < 2 ^ 64" if "x + PAGE_SIZE \<le> 2 ^ 64" for x
    using that by (simp_all add: PAGE_SIZE_def)
  have run: "new_user kpt k = Some (pt, k')"
    using i(2) root_run[OF inv] root_run[OF i(4)] a8
    by (simp add: new_user_def i(3) N_def[symmetric] rassert_ok c_def k'_def uadd_ok[OF b(1)[OF R(2)]]
        uadd_ok[OF b(1)[OF N(3)]] uadd_ok[OF b(2)[OF N(3)]])
  note C = copy_page_eq[OF R(1) N(2) R(3) _ c_def]
  have low: "mem k' (N + j * 8) = 0" if "j < 2" for j
    using that by (cases j) (auto simp: k'_def less_2_cases_iff)
  have hi: "mem k' (N + j * 8) = mem k (pt_root kpt + j * 8)" if "2 \<le> j" "j < 512" for j
    using that C(1)[of j] entry_not_in_page[OF R(1,3) N(2) that(2)]
    by (simp add: k'_def i(6) N_def[symmetric])
  have out: "mem k' a = mem k a" if "a \<notin> block_words N 0" for a
  proof -
    have "a \<noteq> N" "a \<noteq> N + 8" using that a8 by (auto simp: block_words_def PAGE_SIZE_def)
    then show ?thesis using that C(2)[of 0 a] by (simp add: k'_def i(6) N_def[symmetric])
  qed
  note T = new_user_tree[OF D(5) N low hi out]
  have U: "free_at s k' = free_at s k - {N}"
    using i(5) by (simp add: free_at_def k'_def N_def image_set_diff[OF inj_page])
  have "kern_inv s n k'" using D1(1) by (simp add: k'_def)
  then have "pt_inv s n pt k'" "pt_inv s n kpt k'"
    using T(1,2) D D1(4) U i(3) by (auto simp: pt_inv_def N_def)
  moreover have "card (free_set (buddy_allocator k)) \<le> card (free_set (buddy_allocator k')) + 1"
    using i(1,5) finite_free[OF D(1)] by (simp add: k'_def card_Diff_singleton)
  moreover have "pt_root pt = N" by (simp add: i(3) N_def)
  ultimately show ?thesis using run T(3-5) N(1) low hi out U
    by (intro exI[of _ pt] exI[of _ k']) (simp del: tbl.simps(2))
qed

text \<open>
  The leaf entry that the processor's walk finds for an address, with the number of bits of the address that the
  entry leaves as they are: 30 for a page of 1 GB at the first level, 21 for one of 2 MB, 12 for one of 4 KB.
\<close>

definition leaf_entry :: "(usize \<Rightarrow> u64) \<Rightarrow> vaddr \<Rightarrow> vaddr \<Rightarrow> (nat \<times> PTE) option" where
  "leaf_entry m rt va =
     (let e2 = entry m rt (addr_get_ppn2 va) in
      if \<not> vaild e2 then None else if is_leaf e2 then Some (30, e2)
      else let e1 = entry m (get_point_paddr e2 + PHY_MEM_OFFSET) (addr_get_ppn1 va) in
      if \<not> vaild e1 then None else if is_leaf e1 then Some (21, e1)
      else let e0 = entry m (get_point_paddr e1 + PHY_MEM_OFFSET) (addr_get_ppn0 va) in
      if vaild e0 \<and> is_leaf e0 then Some (12, e0) else None)"

lemma leaf_entry_cong:
  assumes root_same: "entry m' rt' (addr_get_ppn2 va) = entry m rt (addr_get_ppn2 va)"
    and same: "\<And>q t i. idx q \<Longrightarrow> q \<noteq> [] \<Longrightarrow> tbl m rt q = Some t \<Longrightarrow> i < 512 \<Longrightarrow> entry m' t i = entry m t i"
  shows "leaf_entry m' rt' va = leaf_entry m rt va"
proof -
  let ?e2 = "entry m rt (addr_get_ppn2 va)"
  let ?t1 = "get_point_paddr ?e2 + PHY_MEM_OFFSET"
  let ?e1 = "entry m ?t1 (addr_get_ppn1 va)"
  let ?t0 = "get_point_paddr ?e1 + PHY_MEM_OFFSET"
  have 1: "entry m' ?t1 (addr_get_ppn1 va) = ?e1" if "vaild ?e2" "\<not> is_leaf ?e2"
    using same[OF idx_path(2), of va ?t1 "addr_get_ppn1 va"] that by (simp add: next_tbl_def ppn_less)
  have 0: "entry m' ?t0 (addr_get_ppn0 va) = entry m ?t0 (addr_get_ppn0 va)"
    if "vaild ?e2" "\<not> is_leaf ?e2" "vaild ?e1" "\<not> is_leaf ?e1"
    using same[OF idx_path(1), of va ?t0 "addr_get_ppn0 va"] that by (simp add: next_tbl_def ppn_less)
  show ?thesis unfolding leaf_entry_def Let_def root_same using 0 1 by simp
qed

lemma new_user_ok:
  assumes inv: "pt_inv s n kpt k" and fr: "free_set (buddy_allocator k) \<noteq> {}"
  shows "\<exists>pt k'. new_user kpt k = Some (pt, k') \<and> pt_inv s n pt k' \<and> pt_inv s n kpt k' \<and>
    pt_root pt \<in> free_at s k \<and>
    (\<forall>a. a \<notin> block_words (pt_root pt) 0 \<longrightarrow> mem k' a = mem k a) \<and>
    (\<forall>va. mapping (mem k') (pt_root kpt) va = mapping (mem k) (pt_root kpt) va \<and>
      mapping (mem k') (pt_root pt) va =
        (if addr_get_ppn2 va < 2 then None else mapping (mem k) (pt_root kpt) va)) \<and>
    (\<forall>va. leaf_entry (mem k') (pt_root kpt) va = leaf_entry (mem k) (pt_root kpt) va \<and>
      leaf_entry (mem k') (pt_root pt) va =
        (if addr_get_ppn2 va < 2 then None else leaf_entry (mem k) (pt_root kpt) va))"
proof -
  obtain pt k' where r: "new_user kpt k = Some (pt, k')" "pt_inv s n pt k'" "pt_inv s n kpt k'" "pt_root pt \<in> free_at s k"
    and out: "\<forall>a. a \<notin> block_words (pt_root pt) 0 \<longrightarrow> mem k' a = mem k a"
    and ent: "\<forall>j < 512. mem k' (pt_root pt + j * 8) = (if j < 2 then 0 else mem k (pt_root kpt + j * 8))"
    and map: "\<forall>va. mapping (mem k') (pt_root kpt) va = mapping (mem k) (pt_root kpt) va \<and>
      mapping (mem k') (pt_root pt) va = (if addr_get_ppn2 va < 2 then None else mapping (mem k) (pt_root kpt) va)"
    using new_user_run[OF assms] by blast
  have N: "PAGE_SIZE dvd pt_root pt" using tree_invD(2)[OF pt_invD(5)[OF r(2)] idx_path(3)] by (simp add: tbl_ok_def)
  have same: "entry (mem k') t i = entry (mem k) t i" if "idx q" "tbl (mem k) (pt_root kpt) q = Some t" "i < 512" for q t i
  proof -
    have t: "PAGE_SIZE dvd t" "t \<noteq> pt_root pt"
      using tree_invD(2)[OF pt_invD(5)[OF inv] that(1,2)] r(4) by (auto simp: tbl_ok_def)
    then have "t + i * 8 \<notin> block_words (pt_root pt) 0" using entry_not_in_page[OF t N that(3)] by simp
    then show ?thesis using out by (simp add: entry_def)
  qed
  have "leaf_entry (mem k') (pt_root kpt) va = leaf_entry (mem k) (pt_root kpt) va" for va
    by (rule leaf_entry_cong) (use same[OF idx_path(3)] same in \<open>simp_all add: ppn_less\<close>)
  moreover have "leaf_entry (mem k') (pt_root pt) va = leaf_entry (mem k) (pt_root kpt) va" if "\<not> addr_get_ppn2 va < 2" for va
    by (rule leaf_entry_cong) (use ent[rule_format, OF ppn_less(3)[of va]] that same in \<open>simp_all add: entry_def\<close>)
  moreover have "leaf_entry (mem k') (pt_root pt) va = None" if "addr_get_ppn2 va < 2" for va
    using ent[rule_format, OF ppn_less(3)[of va]] that
    by (simp add: leaf_entry_def entry_def pte_zero vaild_def get_bits_def)
  ultimately show ?thesis using r out map by (intro exI[of _ pt] exI[of _ k']) simp
qed

section \<open>Translating an address\<close>

lemma vpn_floor: "vpn (va div PAGE_SIZE * PAGE_SIZE) = vpn va"
  by (simp add: vpn_def PAGE_SIZE_def)

lemma kvaddr_eq:
  assumes inv: "pt_inv s n pt k" and va: "va + PAGE_SIZE < 2 ^ 64"
    and t: "tbl (mem k) (pt_root pt) [addr_get_ppn2 va, addr_get_ppn1 va] = Some t"
    and e: "get_point_paddr (entry (mem k) t (addr_get_ppn0 va)) = p" "p + va mod PAGE_SIZE + PHY_MEM_OFFSET < 2 ^ 64"
  shows "get_kvaddr_by_uvaddr pt k va = Some (Some (p + va mod PAGE_SIZE + PHY_MEM_OFFSET), pt, k)"
proof -
  let ?b = "va div PAGE_SIZE * PAGE_SIZE"
  have ix: "[addr_get_ppn2 ?b, addr_get_ppn1 ?b] = [addr_get_ppn2 va, addr_get_ppn1 va]"
    "addr_get_ppn0 ?b = addr_get_ppn0 va"
    using vpn_floor[of va] unfolding vpn_eq_iff by blast+
  have tb: "tbl (mem k) (pt_root pt) [addr_get_ppn2 ?b, addr_get_ppn1 ?b] = Some t" unfolding ix by (rule t)
  have "\<not> big_page (mem k) (pt_root pt) ?b"
    using tb by (auto simp: big_page_def next_tbl_def split: if_splits bind_splits)
  from walk_read[OF inv this] tb ix(2)
  have "walk pt k ?b = Some (Some \<lparr>level = 2, pte_addr = t + addr_get_ppn0 va * 8\<rparr>, pt, k)" by simp
  moreover have "p + va mod PAGE_SIZE < 2 ^ 64" using e(2) by linarith
  ultimately show ?thesis
    using e floor_eq[OF va]
    by (simp add: get_kvaddr_by_uvaddr_def umod_def WalkRetLevelLeaf_def get_pte_def get_usize_by_addr_def
        entry_def uadd_ok paddr_into_vaddr_def PAGE_SIZE_def)
qed

lemma unmapped_entry:
  assumes inv: "pt_inv s n pt k" and t: "has_leaf_table k (pt_root pt) va"
  shows "\<exists>p k' t. unmap_one_page pt k va = Some (Inr p, pt, k') \<and> pt_inv s n pt k' \<and>
    mapping (mem k') (pt_root pt) va = None \<and>
    tbl (mem k') (pt_root pt) [addr_get_ppn2 va, addr_get_ppn1 va] = Some t \<and>
    get_point_paddr (entry (mem k') t (addr_get_ppn0 va)) = 0"
proof -
  obtain t where t: "tbl (mem k) (pt_root pt) [addr_get_ppn2 va, addr_get_ppn1 va] = Some t"
    using t by (auto simp: has_leaf_table_def simp del: tbl.simps(2))
  let ?e = "clear_flags (set_ppn_by_paddr (entry (mem k) t (addr_get_ppn0 va)) 0) PTE_V"
  define k' where "k' = set_usize_by_addr k (t + addr_get_ppn0 va * 8) (pte_into ?e)"
  have ok: "pte_ok ?e" by simp
  note L = leaf_store[OF inv t ok k'_def]
  have "tbl (mem k') (pt_root pt) [addr_get_ppn2 va, addr_get_ppn1 va] = Some t"
    using L(2) t idx_path(1)[of va] unfolding pt_frame_def by blast
  moreover have "entry (mem k') t (addr_get_ppn0 va) = ?e"
    by (simp add: entry_def k'_def set_usize_by_addr_def pte_from_into)
  moreover have "unmap_one_page pt k va = Some (Inr (get_point_paddr (entry (mem k) t (addr_get_ppn0 va))), pt, k')"
    using walk_alloc_exists[OF inv t]
    by (simp add: unmap_one_page_def WalkRetLevelLeaf_def get_usize_by_addr_def entry_def k'_def Let_def)
  moreover have "mapping (mem k') (pt_root pt) va = None"
    using L(3) cleared_entry[of "entry (mem k) t (addr_get_ppn0 va)"] by simp
  ultimately show ?thesis using L(1) by (auto simp: point_set_ppn simp del: tbl.simps(2))
qed

end
