(* ===== verification/K_PageTable_Props.thy ===== *)
theory K_PageTable_Props
  imports K_PageTable_Ops
begin

text \<open>
  The properties of \<^verbatim>\<open>kernel/src/mm/pagetable.rs\<close>, each applied to a page table on a small memory.
\<close>

unbundle bit_operations_syntax

section \<open>Properties\<close>

text \<open>A page table on a memory of 2048 pages, to apply the properties to.\<close>

lemma sample_kernel_memory:
  "addr_ceil 0xFFFFFFD880200000 = Some 0xFFFFFFD880200000"
  "addr_floor 0xFFFFFFD880A00000 = Some 0xFFFFFFD880A00000"
  by (simp_all add: ceil_eq floor_eq is_align_def PAGE_SIZE_def)

lemma sample_page_table:
  obtains k0 pt k where "mm_init_pages (\<lambda>_. 7) 0xFFFFFFD880200000 0xFFFFFFD880A00000 = Some k0"
    "PageTable_default k0 = Some (pt, k)" "pt_inv 0xFFFFFFD880200000 2048 pt k"
    "card (free_set (buddy_allocator k)) = 2047" "\<forall>va. \<not> big_page (mem k) (pt_root pt) va"
    "\<forall>va. mapping (mem k) (pt_root pt) va = None"
proof -
  let ?s = "0xFFFFFFD880200000 :: nat"
  obtain k0 where k0: "mm_init_pages (\<lambda>_. 7) ?s 0xFFFFFFD880A00000 = Some k0" "kern_inv ?s 2048 k0"
    "blocks k0 = {}"
    using mm_init_pages_ok[OF sample_kernel_memory] by (auto simp: PAGE_SIZE_def)
  have fr: "free_set (buddy_allocator k0) = {..<2048}"
    using buddy.ownedD(5)[OF kern_invD(1)[OF k0(2)]] k0(3) by simp
  have dv: "PAGE_SIZE dvd ?s" "PHY_MEM_OFFSET \<le> ?s" by (simp_all add: PAGE_SIZE_def PHY_MEM_OFFSET_def)
  have ne: "free_set (buddy_allocator k0) \<noteq> {}" by (simp add: fr lessThan_empty_iff)
  obtain i pt k where k: "i \<in> {..<2048}" "PageTable_default k0 = Some (pt, k)"
    "pt_root pt = ?s + PAGE_SIZE * i" "pt_inv ?s 2048 pt k" "free_set (buddy_allocator k) = {..<2048} - {i}"
    "mem k = (\<lambda>a. if a \<in> block_words (?s + PAGE_SIZE * i) 0 then 0 else mem k0 a)"
    using PageTable_default_ok[OF k0(2) ne dv] unfolding fr by blast
  have z: "mem k (?s + PAGE_SIZE * i + j * 8) = 0" if "j < 512" for j
    using that by (auto simp: k(6) block_words_def PAGE_SIZE_def mod_add_eq[symmetric])
  show ?thesis
    using that[OF k0(1) k(2,4)] k(1,5) zero_table(2,3)[where m = "mem k", OF z] k(3) by (simp add: card_Diff_singleton)
qed

text \<open>
  Entries.  An entry that is made for a physical address and stored as a word is read back as it
  was; it points to the page of the address, of which only the low 39 bits are kept, and it keeps the
  flags.
\<close>

theorem pte_roundtrip:
  "pte_from (pte_into (set_ppn_by_paddr p a)) = set_ppn_by_paddr p a \<and>
   get_point_paddr (set_ppn_by_paddr p a) = a mod 2 ^ 39 div PAGE_SIZE * PAGE_SIZE \<and>
   pte_flags (set_ppn_by_paddr p a) = pte_flags p"
  by (simp add: pte_from_into point_set_ppn_mod)

text \<open>
  C8: mapping a page.  Unless a large page covers the address, where it panics, \<^verbatim>\<open>map_one_page\<close>
  refuses an address whose page is mapped and leaves all mappings as they are, and otherwise maps
  exactly that page to the page of the physical address with the flags; the tables it adds are
  free pages, and no other memory is written.
\<close>

theorem map_one_page_correct:
  assumes "pt_inv s n pt k" "2 \<le> card (free_set (buddy_allocator k))" "pa < 2 ^ 39" "flags AND PTE_V \<noteq> 0"
  shows "if big_page (mem k) (pt_root pt) va then map_one_page pt k va pa flags = None
    else \<exists>pt' k'. map_one_page pt k va pa flags =
        Some (if mapping (mem k) (pt_root pt) va = None then Inr () else Inl (-1), pt', k') \<and>
      pt_inv s n pt' k' \<and> pt_root pt' = pt_root pt \<and> pt_frame s 2 (pt_root pt) k k' \<and>
      mapping (mem k') (pt_root pt) = (\<lambda>va'. if mapping (mem k) (pt_root pt) va = None \<and> vpn va' = vpn va
        then Some (pa div PAGE_SIZE * PAGE_SIZE, flags) else mapping (mem k) (pt_root pt) va')"
proof (cases "big_page (mem k) (pt_root pt) va")
  case True
  then obtain r where "walk_alloc pt k va = Some (r, pt, k)" "level r < 2"
    using walk_alloc_big[OF assms(1)] by blast
  then show ?thesis using True by (simp add: map_one_page_def WalkRetLevelLeaf_def)
next
  case False
  from map_one_ok[OF assms(1) this assms(2-4)] False show ?thesis by simp
qed

theorem map_one_page_correct_witness:
  "\<exists>k0 pt k pt' k'. mm_init_pages (\<lambda>_. 7) 0xFFFFFFD880200000 0xFFFFFFD880A00000 = Some k0 \<and>
     PageTable_default k0 = Some (pt, k) \<and> map_one_page pt k 0x10000 0x80201000 0xCF = Some (Inr (), pt', k') \<and>
     mapping (mem k') (pt_root pt) 0x10000 = Some (0x80201000, 0xCF)"
proof -
  obtain k0 pt k where k: "mm_init_pages (\<lambda>_. 7) 0xFFFFFFD880200000 0xFFFFFFD880A00000 = Some k0"
    "PageTable_default k0 = Some (pt, k)" "pt_inv 0xFFFFFFD880200000 2048 pt k"
    "card (free_set (buddy_allocator k)) = 2047" "\<forall>va. \<not> big_page (mem k) (pt_root pt) va"
    "\<forall>va. mapping (mem k) (pt_root pt) va = None" by (rule sample_page_table)
  have "(0x80201000 :: nat) < 2 ^ 39" "(0xCF :: u8) AND PTE_V \<noteq> 0" by (simp_all add: PTE_V_def)
  from map_one_page_correct[OF k(3) _ this, where va = "0x10000"] k(4-6) show ?thesis
    using k(1,2) by (auto simp: PAGE_SIZE_def)
qed

text \<open>
  C10: unmapping a page.  Unless a large page covers the address, where it panics, after \<^verbatim>\<open>_unmap_one_page\<close> the page is not mapped and every other mapping is as
  before; the result is the physical page it was mapped to.  The call never returns its error value:
  a page that was not mapped is reported as unmapped as well.  The tables that it adds are free pages, and no other memory is written.
\<close>

theorem unmap_one_page_correct:
  assumes "pt_inv s n pt k" "2 \<le> card (free_set (buddy_allocator k))"
  shows "if big_page (mem k) (pt_root pt) va then unmap_one_page pt k va = None
    else \<exists>p pt' k'. unmap_one_page pt k va = Some (Inr p, pt', k') \<and>
      (mapping (mem k) (pt_root pt) va = None \<or> p = fst (the (mapping (mem k) (pt_root pt) va))) \<and>
      pt_inv s n pt' k' \<and> pt_root pt' = pt_root pt \<and> pt_frame s 2 (pt_root pt) k k' \<and>
      mapping (mem k') (pt_root pt) =
        (\<lambda>va'. if vpn va' = vpn va then None else mapping (mem k) (pt_root pt) va')"
proof (cases "big_page (mem k) (pt_root pt) va")
  case True
  then obtain r where "walk_alloc pt k va = Some (r, pt, k)" "level r < 2"
    using walk_alloc_big[OF assms(1)] by blast
  then show ?thesis using True by (simp add: unmap_one_page_def WalkRetLevelLeaf_def)
next
  case False
  obtain p pt' k' where u: "unmap_one_page pt k va = Some (Inr p, pt', k')"
    "\<forall>f p'. mapping (mem k) (pt_root pt) va = Some (p', f) \<longrightarrow> p = p'"
    "pt_inv s n pt' k'" "pt_root pt' = pt_root pt" "pt_frame s 2 (pt_root pt) k k'"
    "mapping (mem k') (pt_root pt) =
        (\<lambda>va'. if vpn va' = vpn va then None else mapping (mem k) (pt_root pt) va')"
    using unmap_one_ok[OF assms(1) False assms(2)] by blast
  have "mapping (mem k) (pt_root pt) va = None \<or> p = fst (the (mapping (mem k) (pt_root pt) va))"
    using u(2) by (cases "mapping (mem k) (pt_root pt) va") auto
  with u False show ?thesis by auto
qed

theorem unmap_one_page_correct_witness:
  "\<exists>k0 pt k p pt' k'. mm_init_pages (\<lambda>_. 7) 0xFFFFFFD880200000 0xFFFFFFD880A00000 = Some k0 \<and>
     PageTable_default k0 = Some (pt, k) \<and> mapping (mem k) (pt_root pt) 0x10000 = None \<and>
     unmap_one_page pt k 0x10000 = Some (Inr p, pt', k')"
proof -
  obtain k0 pt k where k: "mm_init_pages (\<lambda>_. 7) 0xFFFFFFD880200000 0xFFFFFFD880A00000 = Some k0"
    "PageTable_default k0 = Some (pt, k)" "pt_inv 0xFFFFFFD880200000 2048 pt k"
    "card (free_set (buddy_allocator k)) = 2047" "\<forall>va. \<not> big_page (mem k) (pt_root pt) va"
    "\<forall>va. mapping (mem k) (pt_root pt) va = None" by (rule sample_page_table)
  from unmap_one_page_correct[OF k(3), where va = "0x10000"] k show ?thesis by auto
qed

text \<open>
  Changing the flags of a page.  \<^verbatim>\<open>change_map_flags\<close> returns an error and changes nothing exactly
  when the page is not mapped (a page inside a large page counts as not mapped); otherwise the page
  keeps its physical page and gets exactly the new flags, and is unmapped when these lack the valid
  flag.  It allocates nothing.
\<close>

theorem change_map_flags_correct:
  assumes "pt_inv s n pt k"
  shows "\<exists>k'. change_map_flags pt k va flags =
      Some (if mapping (mem k) (pt_root pt) va = None then Inl () else Inr (), pt, k') \<and>
    pt_inv s n pt k' \<and> pt_frame s 0 (pt_root pt) k k' \<and>
    mapping (mem k') (pt_root pt) = (\<lambda>va'. if vpn va' = vpn va
      then case mapping (mem k) (pt_root pt) va of None \<Rightarrow> None
        | Some (p, f) \<Rightarrow> if flags AND PTE_V \<noteq> 0 then Some (p, flags) else None
      else mapping (mem k) (pt_root pt) va')"
  by (rule change_flags_ok[OF assms])

theorem change_map_flags_correct_witness:
  "\<exists>k0 pt k k'. mm_init_pages (\<lambda>_. 7) 0xFFFFFFD880200000 0xFFFFFFD880A00000 = Some k0 \<and>
     PageTable_default k0 = Some (pt, k) \<and> change_map_flags pt k 0x10000 0xCF = Some (Inl (), pt, k')"
proof -
  obtain k0 pt k where k: "mm_init_pages (\<lambda>_. 7) 0xFFFFFFD880200000 0xFFFFFFD880A00000 = Some k0"
    "PageTable_default k0 = Some (pt, k)" "pt_inv 0xFFFFFFD880200000 2048 pt k"
    "card (free_set (buddy_allocator k)) = 2047" "\<forall>va. \<not> big_page (mem k) (pt_root pt) va"
    "\<forall>va. mapping (mem k) (pt_root pt) va = None" by (rule sample_page_table)
  from change_map_flags_correct[OF k(3), where va = "0x10000" and flags = "0xCF"] k(1,2,6) show ?thesis by auto
qed

text \<open>
  C9: mapping a block and unmapping it.  If the pages of a block are all unmapped and not inside a
  large page, \<^verbatim>\<open>map_pages\<close> maps each of them to the corresponding physical page and no other page;
  unmapping the block then returns its physical address and restores every mapping.
\<close>

theorem map_unmap_pages:
  assumes "pt_inv s n pt k" "range_ok k (pt_root pt) va (2 ^ order)" "order < MAX_ORDER"
    "2 * 2 ^ order \<le> card (free_set (buddy_allocator k))"
    "PAGE_SIZE dvd pa" "pa + 2 ^ order * PAGE_SIZE < 2 ^ 39" "flags AND PTE_V \<noteq> 0"
    and free: "\<forall>i < 2 ^ order. mapping (mem k) (pt_root pt) (va + i * PAGE_SIZE) = None"
  shows "\<exists>pt' k' k''. map_pages pt k va pa order flags = Some (Inr (), pt', k') \<and>
    (\<forall>i < 2 ^ order. mapping (mem k') (pt_root pt) (va + i * PAGE_SIZE) = Some (pa + i * PAGE_SIZE, flags)) \<and>
    (\<forall>va'. in_range va (2 ^ order) va' \<or> mapping (mem k') (pt_root pt) va' = mapping (mem k) (pt_root pt) va') \<and>
    unmap_pages pt' k' va order = Some (Inr pa, pt', k'') \<and> pt_inv s n pt' k'' \<and>
    pt_frame s (2 * 2 ^ order) (pt_root pt) k k'' \<and>
    mapping (mem k'') (pt_root pt) = mapping (mem k) (pt_root pt)"
proof -
  let ?rt = "pt_root pt" and ?c = "2 ^ order :: nat"
  obtain pt' k' where m: "map_pages pt k va pa order flags = Some (Inr (), pt', k')" "pt_inv s n pt' k'"
    "pt_root pt' = ?rt" "pt_frame s (2 * ?c) ?rt k k'"
    "\<And>i. i < ?c \<Longrightarrow> mapping (mem k') ?rt (va + i * PAGE_SIZE) = Some (pa + i * PAGE_SIZE, flags) \<and>
       has_leaf_table k' ?rt (va + i * PAGE_SIZE)"
    "\<And>va'. \<not> in_range va ?c va' \<Longrightarrow> mapping (mem k') ?rt va' = mapping (mem k) ?rt va'"
    using map_pages_ok[OF assms(1-7)] free by auto
  have va: "va + ?c * PAGE_SIZE < 2 ^ 64" "?c \<le> 1024" using assms(2) by (auto simp: range_ok_def)
  obtain k'' where u: "unmap_pages_loop ?c None va pt' k' = Some (Inr pa, pt', k'')" "pt_inv s n pt' k''"
    "pt_frame s 0 ?rt k' k''"
    "mapping (mem k'') ?rt = (\<lambda>va'. if in_range va ?c va' then None else mapping (mem k') ?rt va')"
    using unmap_loop_ok[OF m(2) va, of pa flags None, unfolded m(3)] m(5) by auto
  have "mapping (mem k) ?rt va' = None" if r: "in_range va ?c va'" for va'
  proof -
    obtain i where "i < ?c" "vpn va' = vpn (va + i * PAGE_SIZE)" using r by (auto simp: in_range_def)
    with free mapping_vpn[OF this(2), of "mem k" ?rt] show ?thesis by simp
  qed
  then have "mapping (mem k'') ?rt = mapping (mem k) ?rt" using u(4) m(6) by auto
  moreover have "unmap_pages pt' k' va order = Some (Inr pa, pt', k'')"
    using u(1) assms(3) by (simp add: unmap_pages_def order2pages_pos)
  moreover have "pt_frame s (2 * ?c) ?rt k k''" using pt_frame_trans[OF m(4) u(3)] by simp
  ultimately show ?thesis using m(1,5,6) u(2) by blast
qed

theorem map_unmap_pages_witness:
  "\<exists>k0 pt k pt' k' k''. mm_init_pages (\<lambda>_. 7) 0xFFFFFFD880200000 0xFFFFFFD880A00000 = Some k0 \<and>
     PageTable_default k0 = Some (pt, k) \<and> map_pages pt k 0x10000 0x80200000 3 0xCF = Some (Inr (), pt', k') \<and>
     unmap_pages pt' k' 0x10000 3 = Some (Inr 0x80200000, pt', k'')"
proof -
  obtain k0 pt k where k: "mm_init_pages (\<lambda>_. 7) 0xFFFFFFD880200000 0xFFFFFFD880A00000 = Some k0"
    "PageTable_default k0 = Some (pt, k)" "pt_inv 0xFFFFFFD880200000 2048 pt k"
    "card (free_set (buddy_allocator k)) = 2047" "\<forall>va. \<not> big_page (mem k) (pt_root pt) va"
    "\<forall>va. mapping (mem k) (pt_root pt) va = None" by (rule sample_page_table)
  have r: "range_ok k (pt_root pt) 0x10000 (2 ^ 3)" using k(5) by (simp add: range_ok_def PAGE_SIZE_def)
  have o: "(3 :: nat) < MAX_ORDER" "2 * 2 ^ 3 \<le> card (free_set (buddy_allocator k))"
    "PAGE_SIZE dvd 0x80200000" "0x80200000 + 2 ^ 3 * PAGE_SIZE < 2 ^ 39" "(0xCF :: u8) AND PTE_V \<noteq> 0"
    "\<forall>i < 2 ^ 3. mapping (mem k) (pt_root pt) (0x10000 + i * PAGE_SIZE) = None"
    using k(4,6) by (simp_all add: MAX_ORDER_def PAGE_SIZE_def PTE_V_def)
  from map_unmap_pages[OF k(3) r o] k(1,2) show ?thesis by metis
qed

text \<open>
  Mapping over pages that are mapped.  If some page of the block is already mapped, \<^verbatim>\<open>map_pages\<close>
  returns the error and no mapping changes, also not those of the pages before it.
\<close>

theorem map_pages_refuses:
  assumes "pt_inv s n pt k" "range_ok k (pt_root pt) va (2 ^ order)" "order < MAX_ORDER"
    "2 * 2 ^ order \<le> card (free_set (buddy_allocator k))"
    "PAGE_SIZE dvd pa" "pa + 2 ^ order * PAGE_SIZE < 2 ^ 39" "flags AND PTE_V \<noteq> 0"
    "i < 2 ^ order" "mapping (mem k) (pt_root pt) (va + i * PAGE_SIZE) \<noteq> None"
  shows "\<exists>pt' k'. map_pages pt k va pa order flags = Some (Inl (-1), pt', k') \<and> pt_inv s n pt' k' \<and>
    pt_frame s (2 * 2 ^ order) (pt_root pt) k k' \<and>
    mapping (mem k') (pt_root pt) = mapping (mem k) (pt_root pt)"
proof -
  have "(\<forall>i < 2 ^ order. mapping (mem k) (pt_root pt) (va + i * PAGE_SIZE) = None) = False"
    using assms(8,9) by auto
  note M = map_pages_ok[OF assms(1-7), unfolded this if_False not_False_eq_True simp_thms]
  show ?thesis unfolding fun_eq_iff using M by blast
qed

theorem map_pages_refuses_witness:
  "\<exists>k0 pt k pt1 k1 pt2 k2. mm_init_pages (\<lambda>_. 7) 0xFFFFFFD880200000 0xFFFFFFD880A00000 = Some k0 \<and>
     PageTable_default k0 = Some (pt, k) \<and> map_one_page pt k 0x11000 0x80300000 0xCF = Some (Inr (), pt1, k1) \<and>
     map_pages pt1 k1 0x10000 0x80200000 1 0xCF = Some (Inl (-1), pt2, k2)"
proof -
  obtain k0 pt k where k: "mm_init_pages (\<lambda>_. 7) 0xFFFFFFD880200000 0xFFFFFFD880A00000 = Some k0"
    "PageTable_default k0 = Some (pt, k)" "pt_inv 0xFFFFFFD880200000 2048 pt k"
    "card (free_set (buddy_allocator k)) = 2047" "\<forall>va. \<not> big_page (mem k) (pt_root pt) va"
    "\<forall>va. mapping (mem k) (pt_root pt) va = None" by (rule sample_page_table)
  have "(0x80300000 :: nat) < 2 ^ 39" and V: "(0xCF :: u8) AND PTE_V \<noteq> 0" by (simp_all add: PTE_V_def)
  then obtain pt1 k1 where k1: "map_one_page pt k 0x11000 0x80300000 0xCF = Some (Inr (), pt1, k1)"
    "pt_inv 0xFFFFFFD880200000 2048 pt1 k1" "pt_root pt1 = pt_root pt" "pt_frame 0xFFFFFFD880200000 2 (pt_root pt) k k1"
    "mapping (mem k1) (pt_root pt) 0x11000 \<noteq> None"
    using map_one_ok[OF k(3), of "0x11000" "0x80300000" "0xCF"] k(4-6) by auto
  have "range_ok k1 (pt_root pt1) 0x10000 (2 ^ 1)" "2 * 2 ^ 1 \<le> card (free_set (buddy_allocator k1))"
    using k(4,5) k1(3,4) by (simp_all add: range_ok_def PAGE_SIZE_def pt_frame_def)
  moreover have "1 < MAX_ORDER" "PAGE_SIZE dvd 0x80200000" "0x80200000 + 2 ^ 1 * PAGE_SIZE < 2 ^ 39"
    "mapping (mem k1) (pt_root pt1) (0x10000 + 1 * PAGE_SIZE) \<noteq> None"
    using k1(3,5) by (simp_all add: MAX_ORDER_def PAGE_SIZE_def)
  ultimately show ?thesis
    using map_pages_refuses[OF k1(2) _ _ _ _ _ V, where va = "0x10000" and order = 1 and pa = "0x80200000" and i = 1]
      k(1,2) k1(1) by auto
qed

text \<open>
  Translating a user address.  For an address whose page is mapped, \<^verbatim>\<open>get_kvaddr_by_uvaddr\<close> gives
  the address at which the kernel sees the mapped byte, and changes nothing.
\<close>

theorem kvaddr_correct:
  assumes "pt_inv s n pt k" "va + PAGE_SIZE < 2 ^ 64" "mapping (mem k) (pt_root pt) va = Some (p, f)"
    "p + PAGE_SIZE + PHY_MEM_OFFSET \<le> 2 ^ 64"
  shows "get_kvaddr_by_uvaddr pt k va = Some (Some (p + va mod PAGE_SIZE + PHY_MEM_OFFSET), pt, k)"
proof -
  obtain t where t: "tbl (mem k) (pt_root pt) [addr_get_ppn2 va, addr_get_ppn1 va] = Some t"
    using assms(3) by (auto simp: mapping_def simp del: tbl.simps(2) split: option.splits)
  have "get_point_paddr (entry (mem k) t (addr_get_ppn0 va)) = p"
    using assms(3) mapping_entry[OF t] by (auto simp: entry_maps_def split: if_splits)
  moreover have "va mod PAGE_SIZE < PAGE_SIZE" by (simp add: PAGE_SIZE_def)
  then have "p + va mod PAGE_SIZE + PHY_MEM_OFFSET < 2 ^ 64" using assms(4) by linarith
  ultimately show ?thesis by (rule kvaddr_eq[OF assms(1,2) t])
qed

theorem kvaddr_correct_witness:
  "\<exists>k0 pt k pt1 k1. mm_init_pages (\<lambda>_. 7) 0xFFFFFFD880200000 0xFFFFFFD880A00000 = Some k0 \<and>
     PageTable_default k0 = Some (pt, k) \<and> map_one_page pt k 0x11000 0x80300000 0xCF = Some (Inr (), pt1, k1) \<and>
     get_kvaddr_by_uvaddr pt1 k1 0x11000 = Some (Some 0xFFFFFFD880300000, pt1, k1)"
proof -
  obtain k0 pt k where k: "mm_init_pages (\<lambda>_. 7) 0xFFFFFFD880200000 0xFFFFFFD880A00000 = Some k0"
    "PageTable_default k0 = Some (pt, k)" "pt_inv 0xFFFFFFD880200000 2048 pt k"
    "card (free_set (buddy_allocator k)) = 2047" "\<forall>va. \<not> big_page (mem k) (pt_root pt) va"
    "\<forall>va. mapping (mem k) (pt_root pt) va = None" by (rule sample_page_table)
  have "(0xCF :: u8) AND PTE_V \<noteq> 0" by (simp add: PTE_V_def)
  then obtain pt1 k1 where k1: "map_one_page pt k 0x11000 0x80300000 0xCF = Some (Inr (), pt1, k1)"
    "pt_inv 0xFFFFFFD880200000 2048 pt1 k1" "pt_root pt1 = pt_root pt"
    "mapping (mem k1) (pt_root pt) 0x11000 = Some (0x80300000, 0xCF)"
    using map_one_ok[OF k(3), of "0x11000" "0x80300000" "0xCF"] k(4-6) by (auto simp: PAGE_SIZE_def)
  from kvaddr_correct[OF k1(2), of "0x11000" "0x80300000" "0xCF"] k1(3,4) k(1,2) k1(1) show ?thesis
    by (auto simp: PAGE_SIZE_def PHY_MEM_OFFSET_def)
qed

text \<open>
  Translating an address after its page has been unmapped.  \<^verbatim>\<open>get_kvaddr_by_uvaddr\<close> does not look
  at the valid flag: once \<^verbatim>\<open>_unmap_one_page\<close> has cleared the entry, the translation still succeeds and
  gives the address of the physical page 0.
\<close>

theorem kvaddr_after_unmap:
  assumes "pt_inv s n pt k" "va + PAGE_SIZE < 2 ^ 64" "has_leaf_table k (pt_root pt) va"
  shows "\<exists>p k'. unmap_one_page pt k va = Some (Inr p, pt, k') \<and>
    mapping (mem k') (pt_root pt) va = None \<and>
    get_kvaddr_by_uvaddr pt k' va = Some (Some (va mod PAGE_SIZE + PHY_MEM_OFFSET), pt, k')"
proof -
  obtain p k' t where u: "unmap_one_page pt k va = Some (Inr p, pt, k')" "pt_inv s n pt k'"
    "mapping (mem k') (pt_root pt) va = None"
    "tbl (mem k') (pt_root pt) [addr_get_ppn2 va, addr_get_ppn1 va] = Some t"
    "get_point_paddr (entry (mem k') t (addr_get_ppn0 va)) = 0"
    using unmapped_entry[OF assms(1,3)] by blast
  have "va mod PAGE_SIZE < PAGE_SIZE" by (simp add: PAGE_SIZE_def)
  then have "0 + va mod PAGE_SIZE + PHY_MEM_OFFSET < 2 ^ 64" by (simp add: PAGE_SIZE_def PHY_MEM_OFFSET_def)
  from kvaddr_eq[OF u(2) assms(2) u(4,5) this] u(1,3) show ?thesis by auto
qed

theorem kvaddr_after_unmap_witness:
  "\<exists>k0 pt k pt1 k1 p k2. mm_init_pages (\<lambda>_. 7) 0xFFFFFFD880200000 0xFFFFFFD880A00000 = Some k0 \<and>
     PageTable_default k0 = Some (pt, k) \<and> map_pages pt k 0x11000 0x80300000 0 0xCF = Some (Inr (), pt1, k1) \<and>
     unmap_one_page pt1 k1 0x11000 = Some (Inr p, pt1, k2) \<and>
     get_kvaddr_by_uvaddr pt1 k2 0x11000 = Some (Some PHY_MEM_OFFSET, pt1, k2)"
proof -
  obtain k0 pt k where k: "mm_init_pages (\<lambda>_. 7) 0xFFFFFFD880200000 0xFFFFFFD880A00000 = Some k0"
    "PageTable_default k0 = Some (pt, k)" "pt_inv 0xFFFFFFD880200000 2048 pt k"
    "card (free_set (buddy_allocator k)) = 2047" "\<forall>va. \<not> big_page (mem k) (pt_root pt) va"
    "\<forall>va. mapping (mem k) (pt_root pt) va = None" by (rule sample_page_table)
  have r: "range_ok k (pt_root pt) 0x11000 (2 ^ 0)" using k(5) by (simp add: range_ok_def PAGE_SIZE_def)
  have o: "(0 :: nat) < MAX_ORDER" "2 * 2 ^ 0 \<le> card (free_set (buddy_allocator k))"
    "PAGE_SIZE dvd 0x80300000" "0x80300000 + 2 ^ 0 * PAGE_SIZE < 2 ^ 39" "(0xCF :: u8) AND PTE_V \<noteq> 0"
    using k(4) by (simp_all add: MAX_ORDER_def PAGE_SIZE_def PTE_V_def)
  obtain pt1 k1 where k1: "map_pages pt k 0x11000 0x80300000 0 0xCF = Some (Inr (), pt1, k1)"
    "pt_inv 0xFFFFFFD880200000 2048 pt1 k1" "has_leaf_table k1 (pt_root pt1) 0x11000"
    using map_pages_ok[OF k(3) r o] k(6) by auto
  from kvaddr_after_unmap[OF k1(2) _ k1(3)] k(1,2) k1(1) show ?thesis by (auto simp: PAGE_SIZE_def)
qed

text \<open>
  C11: the page table of a new process.  \<^verbatim>\<open>new_user\<close> makes a page table in a free page in which every address from 2
  to the 31 on is translated as in the kernel's page table, by the same leaf entry at the same level, so that the
  pages of 1 GB of which the kernel's page table is made are there, and no address below is translated, by a large
  page or a small one.  The translations of the kernel's own table stay, only the page of the new root is
  written, and both page tables satisfy the invariant.
\<close>

theorem new_user_correct:
  assumes "pt_inv s n kpt k" "free_set (buddy_allocator k) \<noteq> {}"
  shows "\<exists>pt k'. new_user kpt k = Some (pt, k') \<and> pt_inv s n pt k' \<and> pt_inv s n kpt k' \<and>
    pt_root pt \<in> free_at s k \<and> (\<forall>a. a \<notin> block_words (pt_root pt) 0 \<longrightarrow> mem k' a = mem k a) \<and>
    mapping (mem k') (pt_root kpt) = mapping (mem k) (pt_root kpt) \<and>
    mapping (mem k') (pt_root pt) = (\<lambda>va. if va mod 2 ^ 39 < 2 ^ 31 then None else mapping (mem k) (pt_root kpt) va) \<and>
    leaf_entry (mem k') (pt_root kpt) = leaf_entry (mem k) (pt_root kpt) \<and>
    leaf_entry (mem k') (pt_root pt) = (\<lambda>va. if va mod 2 ^ 39 < 2 ^ 31 then None else leaf_entry (mem k) (pt_root kpt) va)"
proof -
  have low: "addr_get_ppn2 va < 2 \<longleftrightarrow> va mod 2 ^ 39 < 2 ^ 31" for va
  proof -
    have "va mod (2 ^ 30 * 512) = 2 ^ 30 * (va div 2 ^ 30 mod 512) + va mod 2 ^ 30" by (rule mod_mult2_eq)
    moreover have "addr_get_ppn2 va = va div 2 ^ 30 mod 512" by (simp add: ppn_eq PAGE_SIZE_def div_mult2_eq[symmetric])
    moreover have "1073741824 * q + r < 2147483648 \<longleftrightarrow> q < 2" if "r < 1073741824" for q r :: nat
      using that by (cases "q < 2") linarith+
    from this[of "va mod 2 ^ 30" "va div 2 ^ 30 mod 512"] have
      "1073741824 * (va div 2 ^ 30 mod 512) + va mod 2 ^ 30 < 2147483648 \<longleftrightarrow> va div 2 ^ 30 mod 512 < 2" by simp
    ultimately show ?thesis by simp
  qed
  obtain pt k' where r: "new_user kpt k = Some (pt, k')" "pt_inv s n pt k'" "pt_inv s n kpt k'" "pt_root pt \<in> free_at s k"
    "\<forall>a. a \<notin> block_words (pt_root pt) 0 \<longrightarrow> mem k' a = mem k a"
    "\<forall>va. mapping (mem k') (pt_root kpt) va = mapping (mem k) (pt_root kpt) va \<and> mapping (mem k') (pt_root pt) va =
        (if addr_get_ppn2 va < 2 then None else mapping (mem k) (pt_root kpt) va)"
    "\<forall>va. leaf_entry (mem k') (pt_root kpt) va = leaf_entry (mem k) (pt_root kpt) va \<and> leaf_entry (mem k') (pt_root pt) va =
        (if addr_get_ppn2 va < 2 then None else leaf_entry (mem k) (pt_root kpt) va)"
    using new_user_ok[OF assms] by blast
  show ?thesis by (intro exI[of _ pt] exI[of _ k'] conjI ext) (use r in \<open>simp_all only: low\<close>)
qed

text \<open>
  The page table that the processor starts with: its words are those of \<^verbatim>\<open>boot_pagetable\<close>, all pages of 1 GB, and
  they are in the kernel's image, here at \<open>boot_root\<close>, and not in the memory that is managed.
\<close>

definition boot_root :: vaddr where "boot_root = 0xFFFFFFD880100000"

definition boot_memory :: "usize \<Rightarrow> u64" where
  "boot_memory a = (if boot_root \<le> a \<and> (a - boot_root) div 8 < 512 then boot_pagetable ((a - boot_root) div 8) else 7)"

lemma boot_leaf:
  assumes "i < 512"
  shows "canonical (boot_memory (boot_root + i * 8))" "next_tbl boot_memory boot_root i = None"
    "entry boot_memory boot_root i = pte_from (boot_pagetable i)"
proof -
  have e: "boot_memory (boot_root + i * 8) = boot_pagetable i" using assms by (simp add: boot_memory_def)
  have c: "canonical 0x100000cf" "canonical 0x200000cf" by (simp_all add: canonical_def) code_simp+
  have l: "is_leaf (pte_from 0x100000cf)" "is_leaf (pte_from 0x200000cf)" "\<not> vaild (pte_from 0)" by code_simp+
  show "canonical (boot_memory (boot_root + i * 8))" unfolding e using c by (simp add: boot_pagetable_def)
  show "entry boot_memory boot_root i = pte_from (boot_pagetable i)" by (simp add: entry_def e)
  then show "next_tbl boot_memory boot_root i = None" using l by (simp add: next_tbl_def boot_pagetable_def)
qed

lemma boot_page_table:
  obtains k where "mm_init_pages boot_memory 0xFFFFFFD880200000 0xFFFFFFD880A00000 = Some k"
    "pt_inv 0xFFFFFFD880200000 2048 (create_kernel_pagetable boot_root) k" "free_set (buddy_allocator k) = {..<2048}"
    "mem k = boot_memory"
proof -
  let ?s = "0xFFFFFFD880200000 :: nat"
  obtain k where k: "mm_init_pages boot_memory ?s 0xFFFFFFD880A00000 = Some k" "kern_inv ?s 2048 k"
    "blocks k = {}" "mem k = boot_memory"
    using mm_init_pages_ok[OF sample_kernel_memory] by (auto simp: PAGE_SIZE_def)
  have fr: "free_set (buddy_allocator k) = {..<2048}"
    using buddy.ownedD(5)[OF kern_invD(1)[OF k(2)]] k(3) by simp
  have tb: "p = [] \<and> t = boot_root" if "idx p" "tbl boot_memory boot_root p = Some t" for p t
    using that boot_leaf(2) by (cases p) (auto simp: idx_def)
  have "boot_root \<notin> free_at ?s k" by (auto simp: free_at_def boot_root_def)
  then have "tbl_ok (free_at ?s k) boot_memory boot_root"
    using boot_leaf(1) by (simp add: tbl_ok_def) (simp add: boot_root_def PAGE_SIZE_def)
  then have "tree_inv (free_at ?s k) boot_memory boot_root"
    by (intro tree_invI) (use tb in auto)
  then have "pt_inv ?s 2048 (create_kernel_pagetable boot_root) k"
    using k(2,4) by (simp add: pt_inv_def pt_root_def create_kernel_pagetable_def PAGE_SIZE_def PHY_MEM_OFFSET_def)
  then show ?thesis using that k(1,4) fr by simp
qed

theorem new_user_correct_witness:
  "\<exists>k pt k'. mm_init_pages boot_memory 0xFFFFFFD880200000 0xFFFFFFD880A00000 = Some k \<and>
     new_user (create_kernel_pagetable boot_root) k = Some (pt, k') \<and>
     leaf_entry (mem k) boot_root 0x40001000 = Some (30, pte_from 0x100000cf) \<and>
     leaf_entry (mem k') (pt_root pt) 0x40001000 = None \<and>
     leaf_entry (mem k') (pt_root pt) 0x80200000 = Some (30, pte_from 0x200000cf) \<and>
     leaf_entry (mem k') (pt_root pt) 0xFFFFFFD880200000 = Some (30, pte_from 0x200000cf) \<and>
     get_point_paddr (pte_from 0x200000cf) = 0x80000000"
proof -
  obtain k where k: "mm_init_pages boot_memory 0xFFFFFFD880200000 0xFFFFFFD880A00000 = Some k"
    "pt_inv 0xFFFFFFD880200000 2048 (create_kernel_pagetable boot_root) k" "free_set (buddy_allocator k) = {..<2048}"
    "mem k = boot_memory" by (rule boot_page_table)
  have ne: "free_set (buddy_allocator k) \<noteq> {}" by (simp add: k(3) lessThan_empty_iff)
  have rt: "pt_root (create_kernel_pagetable boot_root) = boot_root" by (simp add: pt_root_def create_kernel_pagetable_def)
  have l: "is_leaf (pte_from 0x100000cf)" "is_leaf (pte_from 0x200000cf)" "vaild (pte_from 0x100000cf)" "vaild (pte_from 0x200000cf)"
    by code_simp+
  have g: "get_point_paddr (pte_from 0x200000cf) = 0x80000000" by (simp add: get_point_paddr_def pte_from_def)
  have p: "addr_get_ppn2 0x40001000 = 1" "addr_get_ppn2 0x80200000 = 2" "addr_get_ppn2 0xFFFFFFD880200000 = 354"
    by (simp_all add: ppn_eq PAGE_SIZE_def)
  have "leaf_entry boot_memory boot_root 0x40001000 = Some (30, pte_from 0x100000cf)"
    "leaf_entry boot_memory boot_root 0x80200000 = Some (30, pte_from 0x200000cf)"
    "leaf_entry boot_memory boot_root 0xFFFFFFD880200000 = Some (30, pte_from 0x200000cf)"
    using l by (simp_all add: leaf_entry_def p boot_leaf(3) boot_pagetable_def)
  note b = this
  obtain pt k' where n: "new_user (create_kernel_pagetable boot_root) k = Some (pt, k')"
    "leaf_entry (mem k') (pt_root pt) = (\<lambda>va. if va mod 2 ^ 39 < 2 ^ 31 then None else leaf_entry boot_memory boot_root va)"
    using new_user_correct[OF k(2) ne] unfolding rt k(4) by blast
  show ?thesis by (intro exI[of _ k] exI[of _ pt] exI[of _ k'] conjI) (use k(1) n(1) b g in \<open>simp_all add: n(2) k(4)\<close>)
qed

end
