(* ===== verification/K_Vma_Correct.thy ===== *)
theory K_Vma_Correct
  imports K_Vma K_PageTable_Props
begin

text \<open>
  How a region gets its pages: the new page is neither in use nor a page of the page tables, it is
  mapped at its address and nowhere else, and it holds zeros or the bytes of the file.
\<close>

unbundle bit_operations_syntax

section \<open>Memory outside the page tables\<close>

text \<open>A page table only depends on the words of its tables.\<close>

lemma tree_agree:
  assumes A: "\<forall>a \<in> table_words m rt. m' a = m a"
  shows "idx q \<Longrightarrow> tbl m' rt q = tbl m rt q"
    "mapping m' rt = mapping m rt" "big_page m' rt va = big_page m rt va"
    "tree_inv U m rt \<Longrightarrow> U' \<subseteq> U \<Longrightarrow> tree_inv U' m' rt" "table_words m' rt = table_words m rt"
proof -
  have E: "m' (t + i * 8) = m (t + i * 8)" if "idx q" "tbl m rt q = Some t" "i < 512" for q t i
    using that A by (auto simp: table_words_def)
  show T: "tbl m' rt q = tbl m rt q" if "idx q" for q
    by (rule tbl_frame[where m = m and pz = q and iz = 0]) (use E that in auto)
  have e: "entry m' t i = entry m t i" if "idx q" "tbl m rt q = Some t" "i < 512" for q t i
    using E[OF that] by (simp add: entry_def)
  show "mapping m' rt = mapping m rt"
    using e[OF idx_path(1) _ ppn_less(1)] T[OF idx_path(1)]
    by (auto simp: mapping_def fun_eq_iff simp del: tbl.simps(2) split: option.splits)
  show "big_page m' rt va = big_page m rt va"
    using e[OF idx_path(3), of rt] e[OF idx_path(2)] ppn_less T[OF idx_path(2)]
    by (auto simp: big_page_def simp del: tbl.simps(2))
  show "tree_inv U' m' rt" if "tree_inv U m rt" "U' \<subseteq> U"
  proof (rule tree_invI)
    show "p = q" if "idx p" "idx q" "tbl m' rt p = Some t" "tbl m' rt q = Some t" for p q t
      using that tree_invD(1)[OF \<open>tree_inv U m rt\<close>] by (simp add: T)
    show "tbl_ok U' m' t" if "idx p" "tbl m' rt p = Some t" for p t
      using that tree_invD(2)[OF \<open>tree_inv U m rt\<close>, of p t] E \<open>U' \<subseteq> U\<close> by (auto simp: T tbl_ok_def)
  qed
  show "table_words m' rt = table_words m rt"
    using T by (auto simp: table_words_def) (metis T)+
qed

lemma block_words_disjoint:
  assumes "PAGE_SIZE dvd v" "PAGE_SIZE dvd w" "v \<noteq> w"
  shows "block_words v 0 \<inter> block_words w 0 = {}"
proof -
  have "v = PAGE_SIZE * (a div PAGE_SIZE)" if "a \<in> block_words v 0" "PAGE_SIZE dvd v" for a v
    using that by (auto simp: block_words_def dvd_def PAGE_SIZE_def)
  then show ?thesis using assms by (metis disjoint_iff)
qed

lemma tables_avoid_free:
  assumes "tree_inv U m rt" "N \<in> U" "PAGE_SIZE dvd N"
  shows "block_words N 0 \<inter> table_words m rt = {}"
proof -
  have "t + i * 8 \<notin> block_words N 0" if "idx p" "tbl m rt p = Some t" "i < 512" for p t i
    using tree_invD(2)[OF assms(1) that(1,2)] assms(2,3) that(3)
    by (intro entry_not_in_page) (auto simp: tbl_ok_def)
  then show ?thesis by (auto simp: table_words_def)
qed

lemma free_at_page:
  assumes "kern_inv s n k" "PAGE_SIZE dvd s" "PHY_MEM_OFFSET \<le> s" "N \<in> free_at s k"
  shows "PAGE_SIZE dvd N" "PHY_MEM_OFFSET \<le> N" "N + PAGE_SIZE \<le> 2 ^ 64" "N - PHY_MEM_OFFSET < 2 ^ 39"
proof -
  obtain i where i: "N = s + PAGE_SIZE * i" "i < n" using assms(4) kern_inv_free[OF assms(1)] by (auto simp: free_at_def)
  then have "PAGE_SIZE * Suc i \<le> PAGE_SIZE * n" by (intro mult_le_mono2) simp
  then show "N + PAGE_SIZE \<le> 2 ^ 64" using kern_inv_mem_ok[OF assms(1)] i(1) by simp
  then show "N - PHY_MEM_OFFSET < 2 ^ 39" by (simp add: PHY_MEM_OFFSET_def PAGE_SIZE_def)
  show "PAGE_SIZE dvd N" "PHY_MEM_OFFSET \<le> N" using i(1) assms(2,3) by auto
qed

section \<open>Taking a page\<close>

lemma page_alloc_ok:
  assumes inv: "pt_inv s n pt k" and fr: "free_set (buddy_allocator k) \<noteq> {}"
  shows "\<exists>N k'. alloc_pages k 0 = Some (Some N, k') \<and> N \<in> free_at s k \<and> pt_inv s n pt k' \<and>
    pt_ext s 1 (pt_root pt) k k' \<and> free_at s k' = free_at s k - {N} \<and>
    mem k' = (\<lambda>a. if a \<in> block_words N 0 then 0 else mem k a) \<and> page_paddr k' N = Some (N - PHY_MEM_OFFSET) \<and>
    blocks k' = insert (N, 0) (blocks k)"
proof -
  let ?rt = "pt_root pt"
  note D = pt_invD[OF inv]
  obtain i k' where i: "i \<in> free_set (buddy_allocator k)" "alloc_table k = Some (s + PAGE_SIZE * i, k')"
    and k': "kern_inv s n k'" "free_set (buddy_allocator k') = free_set (buddy_allocator k) - {i}"
      "mem k' = (\<lambda>a. if a \<in> block_words (s + PAGE_SIZE * i) 0 then 0 else mem k a)"
      "blocks k' = insert (s + PAGE_SIZE * i, 0) (blocks k)"
    using alloc_table_ok[OF D(1) fr] by blast
  let ?N = "s + PAGE_SIZE * i"
  have N: "?N \<in> free_at s k" using i(1) by (auto simp: free_at_def)
  note P = free_at_page[OF D(1-3) N]
  have fa: "free_at s k' = free_at s k - {?N}"
    unfolding free_at_def k'(2) image_set_diff[OF inj_page] by simp
  have "\<forall>a \<in> table_words (mem k) ?rt. mem k' a = mem k a"
    using tables_avoid_free[OF D(5) N P(1)] by (auto simp: k'(3))
  note T = tree_agree[OF this]
  have al: "alloc_pages k 0 = Some (Some ?N, k')"
    using i(2) by (auto simp: alloc_table_def bind_eq_Some_conv)
  have "(?N, 0) \<in> blocks k'" using k'(4) by simp
  then obtain p where p: "heap k' ?N = Some p" "pg_order p = 0" by (auto simp: blocks_def)
  then have "pg_vaddr p = ?N" using kern_invD(5)[OF k'(1) p(1)] by (simp add: page_ok_def)
  then have pp: "page_paddr k' ?N = Some (?N - PHY_MEM_OFFSET)"
    using p(1) P(2) by (simp add: page_paddr_def vaddr_into_paddr_def rust_ops)
  have "pt_inv s n pt k'" using D k'(1) T(4)[OF D(5)] fa by (auto simp: pt_inv_def)
  moreover have "footprint s k' ?rt \<subseteq> footprint s k ?rt" using T(5) fa by (auto simp: footprint_def)
  moreover have "mem k' a = mem k a" if "a \<notin> footprint s k ?rt" for a
    using that N by (auto simp: k'(3) footprint_def)
  moreover have "card (free_set (buddy_allocator k)) \<le> card (free_set (buddy_allocator k')) + 1"
    using i(1) finite_free[OF D(1)] by (simp add: k'(2) card_Diff_singleton)
  ultimately have "pt_ext s 1 ?rt k k'" using T(1-3) by (simp add: pt_ext_defs)
  with al N \<open>pt_inv s n pt k'\<close> fa k'(3,4) pp show ?thesis by blast
qed

lemma page_off_footprint:
  assumes inv: "pt_inv s n pt k" and N: "N \<in> free_at s k" and k': "free_at s k' = free_at s k - {N}"
    "table_words (mem k') (pt_root pt) = table_words (mem k) (pt_root pt)"
  shows "block_words N 0 \<inter> footprint s k' (pt_root pt) = {}"
proof -
  note D = pt_invD[OF inv]
  have "block_words N 0 \<inter> block_words v 0 = {}" if "v \<in> free_at s k'" for v
    using that k' free_at_page(1)[OF D(1-3)] N by (intro block_words_disjoint) auto
  then show ?thesis
    using tables_avoid_free[OF D(5) N free_at_page(1)[OF D(1-3) N]] k'(2) by (auto simp: footprint_def)
qed

text \<open>
  What taking a page for the address \<open>a\<close> does: a free page is mapped at \<open>a\<close> and nowhere else, and is kept apart
  from the page tables and the free pages; no other memory is written.
\<close>

definition new_page :: "vaddr \<Rightarrow> nat \<Rightarrow> PageTable \<Rightarrow> Kern \<Rightarrow> vaddr \<Rightarrow> u8 \<Rightarrow> vaddr \<Rightarrow> PageTable \<Rightarrow> Kern \<Rightarrow> bool" where
  "new_page s n pt k a flags N pt' k' \<longleftrightarrow>
     N \<in> free_at s k \<and> pt_inv s n pt' k' \<and> pt_root pt' = pt_root pt \<and> pt_frame s 3 (pt_root pt) k k' \<and>
     block_words N 0 \<inter> footprint s k' (pt_root pt) = {} \<and>
     mapping (mem k') (pt_root pt) = (\<lambda>x. if vpn x = vpn a then Some (N - PHY_MEM_OFFSET, flags)
       else mapping (mem k) (pt_root pt) x)"

lemma page_flags_valid: "vma_flags_2_pte_flags f AND PTE_V \<noteq> 0"
proof -
  have "bit (vma_flags_2_pte_flags f AND PTE_V) 0" by (simp add: vma_flags_2_pte_flags_def PTE_V_def bit_simps)
  then show ?thesis by (metis bit_0_eq bot_apply bot_bool_def)
qed

lemma fast_alloc_ok:
  assumes inv: "pt_inv s n pt k" and v: "in_vma v a" "is_align a" "bt_get a (pages_tree v) = None" "has_pagetable v"
    and a: "\<not> big_page (mem k) (pt_root pt) a" "mapping (mem k) (pt_root pt) a = None"
    and fr: "3 \<le> card (free_set (buddy_allocator k))"
  shows "\<exists>N pt' k'. fast_alloc_one_page_and_get v pt k a =
      Some (N, v\<lparr>pages_tree := snd (bt_insert a N (pages_tree v))\<rparr>, pt', k') \<and>
    new_page s n pt k a (vma_flags_2_pte_flags (vm_flags v)) N pt' k' \<and> (\<forall>w \<in> block_words N 0. mem k' w = 0)"
proof -
  let ?rt = "pt_root pt" and ?f = "vma_flags_2_pte_flags (vm_flags v)"
  note D = pt_invD[OF inv]
  have "free_set (buddy_allocator k) \<noteq> {}" using fr by auto
  then obtain N k1 where k1: "alloc_pages k 0 = Some (Some N, k1)" "N \<in> free_at s k" "pt_inv s n pt k1"
    "pt_ext s 1 ?rt k k1" "free_at s k1 = free_at s k - {N}"
    "mem k1 = (\<lambda>a. if a \<in> block_words N 0 then 0 else mem k a)" "page_paddr k1 N = Some (N - PHY_MEM_OFFSET)"
    using page_alloc_ok[OF inv] by blast
  note P = free_at_page[OF D(1-3) k1(2)]
  have "table_words (mem k1) ?rt = table_words (mem k) ?rt"
    using tables_avoid_free[OF D(5) k1(2) P(1)] by (intro tree_agree(5)) (auto simp: k1(6))
  note off = page_off_footprint[OF inv k1(2,5) this]
  have c: "2 \<le> card (free_set (buddy_allocator k1))" using fr k1(4) by (simp add: pt_ext_defs)
  have a1: "\<not> big_page (mem k1) ?rt a" "mapping (mem k1) ?rt = mapping (mem k) ?rt" using k1(4) a(1) by (auto simp: pt_ext_defs)
  obtain pt' k' where k': "map_one_page pt k1 a (N - PHY_MEM_OFFSET) ?f = Some (Inr (), pt', k')" "pt_inv s n pt' k'"
    "pt_root pt' = ?rt" "pt_frame s 2 ?rt k1 k'"
    "mapping (mem k') ?rt = (\<lambda>x. if vpn x = vpn a
      then Some ((N - PHY_MEM_OFFSET) div PAGE_SIZE * PAGE_SIZE, ?f) else mapping (mem k) ?rt x)"
    using map_one_ok[OF k1(3) a1(1) c P(4) page_flags_valid[of "vm_flags v"], unfolded a1(2)] a(2) by auto
  have "PAGE_SIZE dvd N - PHY_MEM_OFFSET" using P(1) by (intro dvd_diff_nat) (simp_all add: PHY_MEM_OFFSET_def PAGE_SIZE_def)
  then have "(N - PHY_MEM_OFFSET) div PAGE_SIZE * PAGE_SIZE = N - PHY_MEM_OFFSET" by simp
  moreover have "pt_frame s 3 ?rt k k'" using pt_frame_trans[of s 1 ?rt k k1 2 k'] k1(4) k'(4) by (simp add: pt_ext_def numeral_3_eq_3)
  moreover have "block_words N 0 \<inter> footprint s k' ?rt = {}" using off k'(4) by (auto simp: pt_frame_def)
  ultimately have "new_page s n pt k a ?f N pt' k'" using k1(2) k'(2,3,5) by (simp add: new_page_def cong: if_cong)
  moreover have "mem k' w = 0" if "w \<in> block_words N 0" for w
    using that off k'(4) k1(6) by (auto simp: pt_frame_def)
  moreover have "fast_alloc_one_page_and_get v pt k a = Some (N, v\<lparr>pages_tree := snd (bt_insert a N (pages_tree v))\<rparr>, pt', k')"
    using v k1(1,7) k'(1)
    by (simp add: fast_alloc_one_page_and_get_def vaddr_have_map_def bt_contains_key_def rust_ops)
  ultimately show ?thesis by blast
qed

section \<open>Bytes\<close>

lemma byte_in_word:
  fixes W :: u64 and b :: u8
  assumes "i < 8" "j < 8"
  shows "(ucast (drop_bit (8 * j) ((W AND NOT (push_bit (8 * i) 0xFF)) OR push_bit (8 * i) (ucast b))) :: u8) =
    (if i = j then b else ucast (drop_bit (8 * j) W))"
proof -
  have FF: "(0xFF :: u64) = mask 8" by (simp add: mask_eq_exp_minus_1)
  have sep: "8 * i \<le> 8 * j + q \<and> 8 * j + q < 8 * i + 8 \<longleftrightarrow> i = j" if "q < 8" for q using that by auto
  show ?thesis
  proof (rule bit_word_eqI)
    fix q assume "q < LENGTH(8)"
    then have q: "q < 8" by simp
    then show "bit (ucast (drop_bit (8 * j) ((W AND NOT (push_bit (8 * i) 0xFF)) OR push_bit (8 * i) (ucast b))) :: u8) q =
        bit (if i = j then b else ucast (drop_bit (8 * j) W)) q"
      using assms sep[OF q] by (auto simp: FF bit_simps dest: bit_imp_le_length)
  qed
qed

lemma mem_get_set_byte: "mem_get_byte (mem_set_byte m a b) x = (if x = a then b else mem_get_byte m x)"
proof (cases "x - x mod 8 = a - a mod 8")
  case True
  then have "x = a \<longleftrightarrow> a mod 8 = x mod 8" by (metis mod_less_eq_dividend le_add_diff_inverse)
  then show ?thesis
    using True byte_in_word[of "a mod 8" "x mod 8" "m (a - a mod 8)" b] by (simp add: mem_get_byte_def mem_set_byte_def)
qed (auto simp: mem_get_byte_def mem_set_byte_def)

lemma mem_get_write:
  "mem_get_byte (mem_write m a bs) x = (if a \<le> x \<and> x < a + length bs then bs ! (x - a) else mem_get_byte m x)"
  by (induction m a bs rule: mem_write.induct) (auto simp: mem_get_set_byte nth_Cons')

lemma mem_write_outside:
  "\<forall>x. a \<le> x \<and> x < a + length bs \<longrightarrow> x - x mod 8 \<noteq> w \<Longrightarrow> mem_write m a bs w = m w"
  by (induction m a bs rule: mem_write.induct) (auto simp: mem_set_byte_def)

lemma page_word:
  assumes "PAGE_SIZE dvd N" "N \<le> x" "x < N + PAGE_SIZE"
  shows "x - x mod 8 \<in> block_words N 0"
proof -
  obtain c where c: "N = 4096 * c" using assms(1) by (auto simp: dvd_def PAGE_SIZE_def)
  have y: "x - x mod 8 = 8 * (x div 8)" by (simp add: minus_mod_eq_mult_div)
  have "512 * c \<le> x div 8" "x div 8 < 512 * c + 512" using assms(2,3) unfolding c PAGE_SIZE_def by linarith+
  then show ?thesis unfolding y by (simp add: block_words_def c PAGE_SIZE_def)
qed

lemma zero_page_byte:
  assumes "PAGE_SIZE dvd N" "\<forall>w \<in> block_words N 0. m w = 0" "i < PAGE_SIZE"
  shows "mem_get_byte m (N + i) = 0"
  using page_word[OF assms(1), of "N + i"] assms(2,3) by (simp add: mem_get_byte_def)

section \<open>Reading a file\<close>

text \<open>
  What the file system promises of a read: it returns a part of what is asked for, from that place of the
  file on, and something unless nothing is asked for or the place is at the end of the file.
\<close>

definition reads_file :: "'f fread \<Rightarrow> 'f \<Rightarrow> u8 list \<Rightarrow> bool" where
  "reads_file fread f data \<longleftrightarrow> (\<forall>off n. \<exists>c. fread f off n = Inr (take c (drop off data)) \<and> c \<le> n \<and>
     (0 < n \<and> off < length data \<longrightarrow> 0 < c))"

lemma read_off_exact_part:
  assumes r: "reads_file fread f data" and off: "off + need \<le> length data" "length data < 2 ^ 64"
  shows "j \<le> need \<Longrightarrow>
    read_off_exact fread f need off (take j (drop off data)) = Some (Inr need, take need (drop off data))"
proof (induction "need - j" arbitrary: j rule: less_induct)
  case less
  have len: "length (take j (drop off data)) = j" using less.prems off by simp
  show ?case
  proof (cases "j = need")
    case True
    then show ?thesis using off by (subst read_off_exact.simps) simp
  next
    case False
    then have j: "j < need" using less.prems by simp
    obtain c where c: "fread f (off + j) (need - j) = Inr (take c (drop (off + j) data))" "c \<le> need - j" "0 < c"
      using r j off unfolding reads_file_def by (metis add_less_cancel_left order_less_le_trans zero_less_diff)
    have bs: "length (take c (drop (off + j) data)) = c" using c(2) off j by simp
    have "take j (drop off data) @ take c (drop (off + j) data) = take (j + c) (drop off data)"
      by (simp only: take_add drop_drop add.commute[of off j])
    then have "read_off_exact fread f need off (take j (drop off data)) =
        read_off_exact fread f need off (take (j + c) (drop off data))"
      using c(1,3) bs len j off by (subst read_off_exact.simps) (simp add: rust_ops)
    with less.hyps[of "j + c"] c(2,3) j show ?thesis by simp
  qed
qed

lemma read_off_exact_ok:
  assumes "reads_file fread f data" "off + need \<le> length data" "length data < 2 ^ 64"
  shows "read_off_exact fread f need off [] = Some (Inr need, take need (drop off data))"
  using read_off_exact_part[OF assms, of 0] by simp

text \<open>Where the file ends before the bytes asked for, the read stops there.\<close>

lemma read_off_exact_short:
  assumes r: "reads_file fread f data" and off: "length data < off + need" "off \<le> length data" "off + need < 2 ^ 64"
  shows "j \<le> length data - off \<Longrightarrow>
    read_off_exact fread f need off (take j (drop off data)) = Some (Inr (length data - off), drop off data)"
proof (induction "length data - off - j" arbitrary: j rule: less_induct)
  case less
  have len: "length (take j (drop off data)) = j" "j < need" using less.prems off by auto
  obtain c where c: "fread f (off + j) (need - j) = Inr (take c (drop (off + j) data))"
    "0 < need - j \<and> off + j < length data \<longrightarrow> 0 < c"
    using r unfolding reads_file_def by blast
  show ?case
  proof (cases "j = length data - off")
    case True
    then show ?thesis using len off c(1) by (subst read_off_exact.simps) (simp add: rust_ops)
  next
    case False
    then have j: "off + j < length data" using less.prems by simp
    let ?c = "min c (length data - (off + j))"
    have bs: "take c (drop (off + j) data) = take ?c (drop (off + j) data)" "length (take ?c (drop (off + j) data)) = ?c"
      by (simp_all add: take_all min_def)
    have c0: "0 < ?c" using c(2) len(2) j by simp
    have "take j (drop off data) @ take ?c (drop (off + j) data) = take (j + ?c) (drop off data)"
      by (simp only: take_add drop_drop add.commute[of off j])
    then have "read_off_exact fread f need off (take j (drop off data)) =
        read_off_exact fread f need off (take (j + ?c) (drop off data))"
      using c(1) c0 bs len j off(3) by (subst read_off_exact.simps) (auto simp: rust_ops min_def)
    with less.hyps[of "j + ?c"] c0 j show ?thesis by simp
  qed
qed

end
