(* ===== verification/K_Vma_Fill.thy ===== *)
theory K_Vma_Fill
  imports K_Vma_Correct
begin

text \<open>
  Filling a page on its first use: what each byte of the new page holds, for anonymous regions and for
  regions that show a file.
\<close>

unbundle bit_operations_syntax

text \<open>The byte that a region shows at an address of which the file's contents are \<open>data\<close>.\<close>

definition page_byte :: "'f VMA \<Rightarrow> u8 list \<Rightarrow> vaddr \<Rightarrow> u8" where
  "page_byte v data x =
     (if \<not> is_anon v \<and> vma_start v + file_in_vma_off v \<le> x \<and> x < vma_start v + file_in_vma_off v + file_len v
      then data ! (x - (vma_start v + file_in_vma_off v) + file_off v) else 0)"

definition backing_ok :: "'f fread \<Rightarrow> 'f VMA \<Rightarrow> u8 list \<Rightarrow> bool" where
  "backing_ok fread v data \<longleftrightarrow> is_anon v \<or>
     (\<exists>f. vma_file v = Some f \<and> reads_file fread f data) \<and> file_off v + file_len v \<le> length data \<and>
     length data < 2 ^ 64 \<and> vma_start v + file_in_vma_off v + file_len v < 2 ^ 64"

lemma new_page_mem:
  assumes N: "new_page s n pt k a flags N pt' k'" and inv: "pt_inv s n pt k"
    and m: "\<forall>w. w \<notin> block_words N 0 \<longrightarrow> m' w = mem k' w"
  shows "new_page s n pt k a flags N pt' (k'\<lparr>mem := m'\<rparr>)"
proof -
  let ?rt = "pt_root pt"
  have d: "block_words N 0 \<inter> footprint s k' ?rt = {}" using N by (simp add: new_page_def)
  have "\<forall>w \<in> table_words (mem k') ?rt. m' w = mem k' w" using d m by (auto simp: footprint_def)
  note T = tree_agree[OF this]
  have fa: "free_at s (k'\<lparr>mem := m'\<rparr>) = free_at s k'" by (simp add: free_at_def)
  have fp: "footprint s (k'\<lparr>mem := m'\<rparr>) ?rt = footprint s k' ?rt" using T(5) by (simp add: footprint_def fa)
  have "block_words N 0 \<subseteq> footprint s k ?rt" using N by (auto simp: new_page_def footprint_def)
  then have "m' w = mem k w" if "w \<notin> footprint s k ?rt" for w
    using that N m by (auto simp: new_page_def pt_frame_def)
  then have "pt_frame s 3 ?rt k (k'\<lparr>mem := m'\<rparr>)"
    using N T(1,3) fp by (auto simp: new_page_def pt_frame_def)
  moreover have "pt_inv s n pt' (k'\<lparr>mem := m'\<rparr>)"
    using N T(4)[of "free_at s k'"] by (auto simp: new_page_def pt_inv_def fa)
  ultimately show ?thesis using N T(2) d fp by (simp add: new_page_def)
qed

lemma fill_page_ok:
  assumes f: "vma_file v = Some f" "reads_file fread f data" and b: "left \<le> right" "right \<le> PAGE_SIZE"
    and data: "off + (right - left) \<le> length data" "length data < 2 ^ 64"
    and N: "PAGE_SIZE dvd N" "\<forall>w \<in> block_words N 0. mem k w = 0"
  shows "\<exists>m'. fill_page fread v k N left right off = Some (k\<lparr>mem := m'\<rparr>) \<and>
    (\<forall>w. w \<notin> block_words N 0 \<longrightarrow> m' w = mem k w) \<and>
    (\<forall>i < PAGE_SIZE. mem_get_byte m' (N + i) = (if left \<le> i \<and> i < right then data ! (off + (i - left)) else 0))"
proof -
  let ?bs = "take (right - left) (drop off data)"
  let ?m = "mem_write (mem k) (N + left) ?bs"
  have len: "length ?bs = right - left" using data by simp
  have "fill_page fread v k N left right off = Some (k\<lparr>mem := ?m\<rparr>)"
    using read_off_exact_ok[OF f(2) data] f(1) b by (simp add: fill_page_def rust_ops)
  moreover have "?m w = mem k w" if "w \<notin> block_words N 0" for w
  proof (rule mem_write_outside, intro allI impI)
    fix x assume "N + left \<le> x \<and> x < N + left + length ?bs"
    then have "x - x mod 8 \<in> block_words N 0" using len b by (intro page_word[OF N(1)]) auto
    then show "x - x mod 8 \<noteq> w" using that by auto
  qed
  moreover have "mem_get_byte ?m (N + i) = (if left \<le> i \<and> i < right then data ! (off + (i - left)) else 0)"
    if "i < PAGE_SIZE" for i
    using zero_page_byte[OF N that] len b data(1) by (auto simp: mem_get_write)
  ultimately show ?thesis by blast
qed

lemma do_alloc_ok:
  assumes inv: "pt_inv s n pt k" and v: "in_vma v a" "is_align a" "bt_get a (pages_tree v) = None" "has_pagetable v"
    and a: "\<not> big_page (mem k) (pt_root pt) a" "mapping (mem k) (pt_root pt) a = None" "a + PAGE_SIZE < 2 ^ 64"
    and fr: "3 \<le> card (free_set (buddy_allocator k))" and bk: "backing_ok fread v data"
  shows "\<exists>N pt' k'. do_alloc_one_page fread v pt k a =
      Some (Inr N, v\<lparr>pages_tree := snd (bt_insert a N (pages_tree v)),
        vm_flags := (if vma_writeable v then vm_flags v OR VM_DIRTY else vm_flags v)\<rparr>, pt', k') \<and>
    new_page s n pt k a (vma_flags_2_pte_flags (vm_flags v)) N pt' k' \<and>
    (\<forall>i < PAGE_SIZE. mem_get_byte (mem k') (N + i) = page_byte v data (a + i))"
proof -
  obtain N pt' k' where N: "fast_alloc_one_page_and_get v pt k a =
      Some (N, v\<lparr>pages_tree := snd (bt_insert a N (pages_tree v))\<rparr>, pt', k')"
    "new_page s n pt k a (vma_flags_2_pte_flags (vm_flags v)) N pt' k'" "\<forall>w \<in> block_words N 0. mem k' w = 0"
    using fast_alloc_ok[OF inv v a(1,2) fr] by blast
  define v1 where "v1 = v\<lparr>pages_tree := snd (bt_insert a N (pages_tree v))\<rparr>"
  let ?w = "v\<lparr>pages_tree := snd (bt_insert a N (pages_tree v)),
        vm_flags := (if vma_writeable v then vm_flags v OR VM_DIRTY else vm_flags v)\<rparr>"
  let ?s = "vma_start v + file_in_vma_off v" and ?e = "vma_start v + file_in_vma_off v + file_len v"
  have N8: "PAGE_SIZE dvd N" using N(2) free_at_page(1)[OF pt_invD(1-3)[OF inv]] by (simp add: new_page_def)
  have dirty: "(if vma_writeable v1 then set_dirty v1 else v1) = ?w"
    by (simp add: v1_def set_dirty_def vma_writeable_def)
  have zero: "mem_get_byte (mem k') (N + i) = 0" if "i < PAGE_SIZE" for i by (rule zero_page_byte[OF N8 N(3) that])
  have plain: "?thesis" if "do_alloc_one_page fread v pt k a =
      Option.bind (fast_alloc_one_page_and_get v pt k a) (\<lambda>(pg, v, pt, k).
        Some (Inr pg, if vma_writeable v then set_dirty v else v, pt, k))"
    "\<And>i. i < PAGE_SIZE \<Longrightarrow> page_byte v data (a + i) = 0"
    using that N(1,2) zero dirty by (auto simp: v1_def[symmetric])
  have filled: "?thesis" if run: "do_alloc_one_page fread v pt k a =
      Option.bind (fill_page fread v1 k' N left right off) (\<lambda>k.
        Some (Inr N, if vma_writeable v1 then set_dirty v1 else v1, pt', k))"
    and lr: "left \<le> right" "right \<le> PAGE_SIZE" "off + (right - left) \<le> length data"
    and an: "\<not> is_anon v" and bytes: "\<And>i. i < PAGE_SIZE \<Longrightarrow>
      page_byte v data (a + i) = (if left \<le> i \<and> i < right then data ! (off + (i - left)) else 0)" for left right off
  proof -
    obtain f where f: "vma_file v1 = Some f" "reads_file fread f data" "length data < 2 ^ 64"
      using bk an by (auto simp: backing_ok_def v1_def)
    obtain m' where m: "fill_page fread v1 k' N left right off = Some (k'\<lparr>mem := m'\<rparr>)"
      "\<forall>w. w \<notin> block_words N 0 \<longrightarrow> m' w = mem k' w"
      "\<forall>i < PAGE_SIZE. mem_get_byte m' (N + i) = (if left \<le> i \<and> i < right then data ! (off + (i - left)) else 0)"
      using fill_page_ok[OF f(1,2) lr f(3) N8 N(3)] by blast
    show ?thesis using run m(1,3) bytes new_page_mem[OF N(2) inv m(2)] dirty by fastforce
  qed
  note start = v(1,2) do_alloc_one_page_def
  show ?thesis
  proof (cases "is_anon v")
    case True
    then show ?thesis by (intro plain) (simp_all add: start page_byte_def Let_def)
  next
    case False
    have ov: "?s < 2 ^ 64" "?e < 2 ^ 64" "file_off v + file_len v \<le> length data" "length data < 2 ^ 64"
      using bk False by (auto simp: backing_ok_def)
    have u: "uadd (vma_start v) (file_in_vma_off v) = Some ?s" "uadd ?s (file_len v) = Some ?e"
      "uadd a PAGE_SIZE = Some (a + PAGE_SIZE)" using ov(1,2) a(3) by (simp_all add: uadd_def)
    note run = start False u N(1) usub_def v1_def Let_def
    show ?thesis
    proof (cases "a < ?s")
      case lo: True
      show ?thesis
      proof (cases "a + PAGE_SIZE \<le> ?s")
        case True
        then show ?thesis using lo by (intro plain) (simp_all add: run page_byte_def)
      next
        case hi: False
        show ?thesis
          by (rule filled[of "?s - a" "if a + PAGE_SIZE \<le> ?e then PAGE_SIZE else ?e - a" "file_off v"])
            (use lo hi False ov in \<open>auto simp: run page_byte_def intro!: arg_cong[of _ _ "(!) data"]\<close>)
      qed
    next
      case lo: False
      show ?thesis
      proof (cases "?e \<le> a")
        case True
        then show ?thesis using lo by (intro plain) (simp_all add: run page_byte_def)
      next
        case hi: False
        have o: "uadd (a - ?s) (file_off v) = Some (a - ?s + file_off v)" using lo hi ov(3,4) by (simp add: uadd_def)
        show ?thesis
          by (rule filled[of 0 "if a + PAGE_SIZE \<le> ?e then PAGE_SIZE else ?e - a" "a - ?s + file_off v"])
            (use lo hi False ov in \<open>auto simp: run o page_byte_def intro!: arg_cong[of _ _ "(!) data"]\<close>)
      qed
    qed
  qed
qed

end
