(* ===== verification/K_Mm_Fault.thy ===== *)
theory K_Mm_Fault
  imports K_Mm_Calls K_Vma_Fill
begin

text \<open>
  Page faults: the page that appears at the faulting address, and a fault that stops the kernel.
\<close>

unbundle bit_operations_syntax

lemma find_vma_region:
  assumes "mm_inv mm" "bt_get key (vmas mm) = Some v" "in_vma v a"
  shows "find_vma mm a = Some (key, v)"
  using assms find_vma_loop_eq[OF mm_invD(1)[OF assms(1)]] bt.in_entries[OF mm_invD(4)[OF assms(1)]]
  by (simp add: find_vma_def)

lemma region_bound:
  assumes "mm_inv mm" "bt_get key (vmas mm) = Some v" "in_vma v a"
  shows "a < 2 ^ 39"
  using assms regions_member[OF mm_invD(1)[OF assms(1)], of key v] bt.in_entries[OF mm_invD(4)[OF assms(1)]]
  by (auto simp: in_vma_def)

text \<open>
  C13: a page fault in a region.  If the region has no page at the address yet, the handler returns
  normally: a free page is now mapped at the address with the rights of the region and recorded in
  it, every byte of the page is the byte of the file that the region shows there, or zero, all other
  mappings are as before, and no memory other than the page tables and the free pages has been
  written.
\<close>

theorem page_fault_correct:
  assumes inv: "mm_inv mm" "pt_inv s n (mm_pagetable mm) k"
    and v: "bt_get key (vmas mm) = Some v" "has_pagetable v" "bt_inv (pages_tree v)" "backing_ok fread v data"
    and a: "a = va div PAGE_SIZE * PAGE_SIZE" "in_vma v a" "bt_get a (pages_tree v) = None"
      "\<not> big_page (mem k) (pt_root (mm_pagetable mm)) a" "mapping (mem k) (pt_root (mm_pagetable mm)) a = None"
    and fr: "3 \<le> card (free_set (buddy_allocator k))"
  shows "\<exists>N w pt' k'. trap_page_fault_handler fread mm k va =
      Some (True, (put_vma mm key w)\<lparr>mm_pagetable := pt'\<rparr>, k') \<and>
    new_page s n (mm_pagetable mm) k a (vma_flags_2_pte_flags (vm_flags v)) N pt' k' \<and>
    find_page w a = Some N \<and>
    (\<forall>i < PAGE_SIZE. mem_get_byte (mem k') (N + i) = page_byte v data (a + i))"
proof -
  have al: "is_align a" by (simp add: a(1) is_align_def)
  have b: "a + PAGE_SIZE < 2 ^ 64" using region_bound[OF inv(1) v(1) a(2)] by (simp add: PAGE_SIZE_def)
  obtain N pt' k' where N: "do_alloc_one_page fread v (mm_pagetable mm) k a =
      Some (Inr N, v\<lparr>pages_tree := snd (bt_insert a N (pages_tree v)),
        vm_flags := (if vma_writeable v then vm_flags v OR VM_DIRTY else vm_flags v)\<rparr>, pt', k')"
    "new_page s n (mm_pagetable mm) k a (vma_flags_2_pte_flags (vm_flags v)) N pt' k'"
    "\<forall>i < PAGE_SIZE. mem_get_byte (mem k') (N + i) = page_byte v data (a + i)"
    using do_alloc_ok[OF inv(2) a(2) al a(3) v(2) a(4,5) b fr v(4)] by blast
  have "va = a + va mod PAGE_SIZE" "va mod PAGE_SIZE < PAGE_SIZE" by (simp_all add: a(1) PAGE_SIZE_def)
  then have "va + PAGE_SIZE < 2 ^ 64" using region_bound[OF inv(1) v(1) a(2)] by (simp add: PAGE_SIZE_def)
  then have "addr_floor va = Some a" by (simp add: floor_eq a(1))
  moreover define w where "w = v\<lparr>pages_tree := snd (bt_insert a N (pages_tree v)),
        vm_flags := (if vma_writeable v then vm_flags v OR VM_DIRTY else vm_flags v)\<rparr>"
  ultimately have "trap_page_fault_handler fread mm k va = Some (True, (put_vma mm key w)\<lparr>mm_pagetable := pt'\<rparr>, k')"
    using N(1) find_vma_region[OF inv(1) v(1) a(2)] a(3) by (simp add: trap_page_fault_handler_def find_page_def)
  moreover have "find_page w a = Some N" using bt.ins_get[OF v(3)] by (simp add: find_page_def w_def)
  ultimately show ?thesis using N(2,3) by blast
qed

lemma is_anon_mmap: "flag_in (from_mmap flags prot) VM_ANON = flag_in flags MAP_ANONYMOUS"
proof -
  have "flag_in (from_mmap flags prot) VM_ANON = (if flag_in flags MAP_ANONYMOUS then True else False)"
    unfolding from_mmap_def Let_def
    by (cases "flag_in prot PROT_READ"; cases "flag_in prot PROT_WRITE"; cases "flag_in prot PROT_EXEC";
        cases "flag_in flags MAP_ANONYMOUS")
      (simp_all add: flag_in_def[of _ 32] VM_NONE_def VM_READ_def VM_WRITE_def VM_EXEC_def VM_USER_def VM_ANON_def)
  then show ?thesis by simp
qed

text \<open>A file of two bytes, and an address space that shows it.\<close>

definition sample_file :: "unit fread" where
  "sample_file f off c = Inr (take c (drop off [65, 66]))"

definition sample_file_mm :: "PageTable \<Rightarrow> unit MmStruct" where
  "sample_file_mm pt = sample_mm\<lparr>mm_pagetable := pt,
     vmas := [(0x12000, (VMA_empty 0x12000 0x13000)\<lparr>has_pagetable := True, vma_file := Some (), file_len := 2\<rparr>)]\<rparr>"

lemma sample_reads: "reads_file sample_file () [65, 66]"
  by (auto simp: reads_file_def sample_file_def)

theorem page_fault_correct_witness:
  "\<exists>k0 pt k mm' k' N. mm_init_pages (\<lambda>_. 7) 0xFFFFFFD880200000 0xFFFFFFD880A00000 = Some k0 \<and>
     PageTable_default k0 = Some (pt, k) \<and>
     trap_page_fault_handler sample_file (sample_file_mm pt) k 0x12345 = Some (True, mm', k') \<and>
     mem_get_byte (mem k') N = 65 \<and> mem_get_byte (mem k') (N + 2) = 0 \<and>
     mapping (mem k') (pt_root pt) 0x12000 = Some (N - PHY_MEM_OFFSET, 1)"
proof -
  obtain k0 pt k where k: "mm_init_pages (\<lambda>_. 7) 0xFFFFFFD880200000 0xFFFFFFD880A00000 = Some k0"
    "PageTable_default k0 = Some (pt, k)" "pt_inv 0xFFFFFFD880200000 2048 pt k"
    "card (free_set (buddy_allocator k)) = 2047" "\<forall>va. \<not> big_page (mem k) (pt_root pt) va"
    "\<forall>va. mapping (mem k) (pt_root pt) va = None" by (rule sample_page_table)
  let ?v = "(VMA_empty 0x12000 0x13000)\<lparr>has_pagetable := True, vma_file := Some (), file_len := 2\<rparr> :: unit VMA"
  let ?mm = "sample_file_mm pt"
  have f: "vma_start ?v = 0x12000" "vma_end ?v = 0x13000" "pages_tree ?v = []" "vm_flags ?v = 0" "file_len ?v = 2"
    "file_off ?v = 0" "file_in_vma_off ?v = 0" "vma_file ?v = Some ()" "has_pagetable ?v"
    by (simp_all add: VMA_empty_def VM_NONE_def)
  have na: "\<not> is_anon ?v" by (simp add: is_anon_def f(4) flag_in_def VM_ANON_def)
  have "mm_inv ?mm"
    by (simp add: sample_file_mm_def mm_inv_def range_closed_def MMAP_TOP_def sample_mm_def bt_get_def VMA_empty_def
        is_align_def PAGE_SIZE_def)
  moreover have "mm_pagetable ?mm = pt" "bt_get 0x12000 (vmas ?mm) = Some ?v"
    by (simp_all add: sample_file_mm_def bt_get_def)
  moreover have "backing_ok sample_file ?v [65, 66]" using sample_reads f by (simp add: backing_ok_def)
  moreover have "(0x12000 :: nat) = 0x12345 div PAGE_SIZE * PAGE_SIZE" "in_vma ?v 0x12000" "bt_inv (pages_tree ?v)"
    "bt_get 0x12000 (pages_tree ?v) = None"
    by (simp_all add: PAGE_SIZE_def in_vma_def f bt_inv_def bt_get_def)
  ultimately obtain N w pt' k' where N: "trap_page_fault_handler sample_file ?mm k 0x12345 =
      Some (True, (put_vma ?mm 0x12000 w)\<lparr>mm_pagetable := pt'\<rparr>, k')"
    "new_page 0xFFFFFFD880200000 2048 pt k 0x12000 (vma_flags_2_pte_flags (vm_flags ?v)) N pt' k'"
    "\<forall>i < PAGE_SIZE. mem_get_byte (mem k') (N + i) = page_byte ?v [65, 66] (0x12000 + i)"
    using page_fault_correct[where mm = ?mm and k = k and v = ?v and key = "0x12000" and va = "0x12345" and
        fread = sample_file and data = "[65, 66]" and s = "0xFFFFFFD880200000" and n = 2048, OF _ _ _ f(9)] k(3-6)
    by auto
  have "mem_get_byte (mem k') N = 65" "mem_get_byte (mem k') (N + 2) = 0"
    using N(3)[rule_format, of 0] N(3)[rule_format, of 2] na f by (simp_all add: page_byte_def PAGE_SIZE_def)
  moreover have "mapping (mem k') (pt_root pt) 0x12000 = Some (N - PHY_MEM_OFFSET, 1)"
    using N(2) by (simp add: new_page_def f(4) vma_flags_2_pte_flags_def PTE_V_def)
  ultimately show ?thesis using k(1,2) N(1) by blast
qed

text \<open>
  A fault that stops the kernel.  \<^verbatim>\<open>mmap\<close> of a file takes the length of the whole file for the part
  from the offset on.  If less than a page of the file is left after the offset, the call succeeds,
  and the first use of the memory stops the kernel, whatever its state.
\<close>

theorem mmap_offset_panics:
  assumes inv: "mm_inv mm" and len: "is_align len" "0 < len" "len < MMAP_TOP" and room: "fits (vmas mm) 0 MMAP_TOP len x"
    and fl: "\<not> flag_in flags MAP_ANONYMOUS" "reads_file fread f data" "length data < 2 ^ 63"
    and offset: "offset \<le> length data" "length data < offset + PAGE_SIZE" "PAGE_SIZE \<le> length data"
  shows "\<exists>a mm'. sys_mmap mm k 0 len prot flags (Some (f, False, length data)) offset = Some (int a, mm', k) \<and>
    (\<forall>k. trap_page_fault_handler fread mm' k a = None)"
proof -
  obtain r mm' where r: "sys_mmap mm k 0 len prot flags (Some (f, False, length data)) offset = Some (r, mm', k)"
    "mm_inv mm'" "mmap_result mm len prot flags (Some (f, False, length data)) offset r mm'"
    using sys_mmap_ok[OF inv len(1,2)] by blast
  obtain a v where a: "r = int a" "mmap_region v a len prot flags (Some (f, False, length data)) offset"
    "bt_get a (vmas mm') = Some v" "a + len \<le> MMAP_TOP" "is_align a"
    using r(3) highest_fit_align[OF inv _ _ len(1)] len(3) room fl(1) unfolding mmap_result_def by (auto simp: fits_def split: if_splits)
  have v: "vma_start v = a" "vma_end v = a + len" "vma_file v = Some f" "file_off v = offset" "file_in_vma_off v = 0"
    "file_len v = min len (length data)" "\<not> is_anon v"
    using a(2) fl(1) is_anon_mmap[of flags prot] by (auto simp: mmap_region_def is_anon_def)
  have "PAGE_SIZE dvd len" using len(1) by (simp add: is_align_def dvd_eq_mod_eq_0)
  then have p: "PAGE_SIZE \<le> len" using len(2) by (rule dvd_imp_le)
  have b: "a + PAGE_SIZE < 2 ^ 64" "a + min len (length data) < 2 ^ 64" "offset < 2 ^ 64"
    "0 < min len (length data)"
    using a(4) p fl(3) offset(1,3) len(2) by (auto simp: MMAP_TOP_def PAGE_SIZE_def)
  have short: "fill_page fread w k pg 0 PAGE_SIZE offset = None" if "vma_file w = Some f" for w :: "'a VMA" and k pg
    using read_off_exact_short[OF fl(2) offset(2,1), of 0] that b offset fl(3)
    by (simp add: fill_page_def rust_ops rassert_def)
  have none: "do_alloc_one_page fread v pt k a = None" for pt k
  proof (cases "fast_alloc_one_page_and_get v pt k a")
    case None
    then show ?thesis
      using v b p offset(3) a(5) by (simp add: do_alloc_one_page_def in_vma_def uadd_def usub_def)
  next
    case (Some q)
    obtain pg w pt' k' where q: "q = (pg, w, pt', k')" by (cases q)
    have "vma_file w = Some f" using fast_alloc_shape[of v pt k a pg w pt' k'] Some q v(3) by simp
    from short[OF this] show ?thesis
      using v b p offset(3) a(5) Some q by (simp add: do_alloc_one_page_def in_vma_def uadd_def usub_def)
  qed
  have "addr_floor a = Some a" using b(1) a(5) by (simp add: floor_eq is_align_def dvd_eq_mod_eq_0[symmetric])
  moreover have "find_vma mm' a = Some (a, v)"
    using find_vma_region[OF r(2) a(3)] v(1,2) len(2) by (simp add: in_vma_def)
  ultimately have "trap_page_fault_handler fread mm' k a = None" for k
    using none by (simp add: trap_page_fault_handler_def)
  then show ?thesis using r(1) a(1) by blast
qed

theorem mmap_offset_panics_witness:
  "\<forall>k. \<exists>a mm'. sys_mmap sample_mm k 0 0x2000 PROT_READ 0 (Some ((), False, 4097)) 4096 = Some (int a, mm', k) \<and>
     (\<forall>k. trap_page_fault_handler (\<lambda>f off c. Inr (take c (drop off (replicate 4097 1)))) mm' k a = None)"
proof
  fix k
  have len: "is_align 0x2000" "0 < (0x2000 :: nat)" "0x2000 < MMAP_TOP"
    by (simp_all add: is_align_def PAGE_SIZE_def MMAP_TOP_def)
  have "fits (vmas sample_mm) 0 MMAP_TOP 0x2000 0" by (simp add: sample_mm_fits)
  moreover have "reads_file (\<lambda>f off c. Inr (take c (drop off (replicate 4097 1)))) () (replicate 4097 1)"
    by (auto simp: reads_file_def)
  moreover have "\<not> flag_in 0 MAP_ANONYMOUS" by (simp add: flag_in_def MAP_ANONYMOUS_def)
  ultimately show "\<exists>a mm'. sys_mmap sample_mm k 0 0x2000 PROT_READ 0 (Some ((), False, 4097)) 4096 = Some (int a, mm', k) \<and>
     (\<forall>k. trap_page_fault_handler (\<lambda>f off c. Inr (take c (drop off (replicate 4097 1)))) mm' k a = None)"
    using mmap_offset_panics[OF sample_mm_inv len, where x = 0 and offset = 4096 and f = "()" and
        data = "replicate 4097 1" and flags = 0 and k = k and prot = PROT_READ] by (simp add: PAGE_SIZE_def)
qed

end
