(* ===== verification/K_Mm_Fork.thy ===== *)
theory K_Mm_Fork
  imports K_Mm_Fault
begin

text \<open>
  \<^verbatim>\<open>fork\<close>: the new address space has the regions of the old one and a copy of each of its pages.
\<close>

section \<open>Copying a page\<close>

lemma pages_apart:
  assumes "PAGE_SIZE dvd src" "PAGE_SIZE dvd dest" "src \<noteq> dest" "i < PAGE_SIZE" "j < PAGE_SIZE"
  shows "src + i \<noteq> dest + j"
proof
  assume eq: "src + i = dest + j"
  obtain x y where xy: "src = PAGE_SIZE * x" "dest = PAGE_SIZE * y" using assms(1,2) by (auto simp: dvd_def)
  then have "(src + i) div PAGE_SIZE = x" "(dest + j) div PAGE_SIZE = y" using assms(4,5) by auto
  then show False using eq xy assms(3) by simp
qed

lemma page_mod_8:
  assumes "PAGE_SIZE dvd p"
  shows "(p + i) mod 8 = i mod 8"
proof -
  have "8 dvd p" using dvd_trans[of 8 PAGE_SIZE p] assms by (simp add: PAGE_SIZE_def)
  then have "(p mod 8 + i) mod 8 = i mod 8" by simp
  then show ?thesis by (simp only: mod_add_left_eq)
qed

lemma copy_loop_eq:
  assumes pg: "PAGE_SIZE dvd src" "PAGE_SIZE dvd dest" "src \<noteq> dest" "src + PAGE_SIZE \<le> 2 ^ 64" "dest + PAGE_SIZE \<le> 2 ^ 64"
  shows "i mod 8 = 0 \<Longrightarrow> i \<le> PAGE_SIZE \<Longrightarrow> copy_page_loop i src dest m =
    Some (\<lambda>a. if dest + i \<le> a \<and> a < dest + PAGE_SIZE \<and> a mod 8 = 0 then m (src + (a - dest)) else m a)"
proof (induction "PAGE_SIZE - i" arbitrary: i m rule: less_induct)
  case less
  show ?case
  proof (cases "i < PAGE_SIZE")
    case False
    then have "i = PAGE_SIZE" using less.prems(2) by simp
    then show ?thesis by (subst copy_page_loop.simps) (auto simp: fun_eq_iff)
  next
    case True
    then have i8: "i + 8 \<le> PAGE_SIZE" "(i + 8) mod 8 = 0" using less.prems(1) by (auto simp: PAGE_SIZE_def)
    let ?m = "m(dest + i := m (src + i))"
    have "copy_page_loop i src dest m = copy_page_loop (i + 8) src dest ?m"
      using True pg(4,5) less.prems(1) page_mod_8[OF pg(1), of i] page_mod_8[OF pg(2), of i]
      by (subst copy_page_loop.simps) (simp add: rust_ops)
    also have "\<dots> = Some (\<lambda>a. if dest + (i + 8) \<le> a \<and> a < dest + PAGE_SIZE \<and> a mod 8 = 0
        then ?m (src + (a - dest)) else ?m a)"
      using less.hyps[of "i + 8" ?m] i8 True by simp
    also have "\<dots> = Some (\<lambda>a. if dest + i \<le> a \<and> a < dest + PAGE_SIZE \<and> a mod 8 = 0
        then m (src + (a - dest)) else m a)"
    proof -
      have "?m (src + (a - dest)) = m (src + (a - dest))" if "dest + (i + 8) \<le> a" "a < dest + PAGE_SIZE" for a
      proof -
        have "src + (a - dest) \<noteq> dest + i" using pages_apart[OF pg(1-3), of "a - dest" i] that True by simp
        then show ?thesis by simp
      qed
      moreover have "dest + (i + 8) \<le> a" if "dest + i \<le> a" "a mod 8 = 0" "a \<noteq> dest + i" for a
      proof -
        have "(dest + i) mod 8 = 0" using page_mod_8[OF pg(2), of i] less.prems(1) by simp
        with that show ?thesis by presburger
      qed
      moreover have "(dest + i) mod 8 = 0" using page_mod_8[OF pg(2), of i] less.prems(1) by simp
      ultimately show ?thesis using True by (auto simp: fun_eq_iff)
    qed
    finally show ?thesis .
  qed
qed

lemma copy_page_ok:
  assumes "PAGE_SIZE dvd src" "PAGE_SIZE dvd dest" "src \<noteq> dest" "src + PAGE_SIZE \<le> 2 ^ 64" "dest + PAGE_SIZE \<le> 2 ^ 64"
  shows "copy_one_page_data_from k dest src =
    Some (k\<lparr>mem := \<lambda>a. if a \<in> block_words dest 0 then mem k (src + (a - dest)) else mem k a\<rparr>)"
  using copy_loop_eq[OF assms, of 0 "mem k"] by (simp add: copy_one_page_data_from_def block_words_def)

section \<open>Copying the pages of a region\<close>

text \<open>What is assumed of a page of the old address space that is to be copied to the page table at \<open>rt\<close>.\<close>

definition source_ok :: "vaddr \<Rightarrow> Kern \<Rightarrow> vaddr \<Rightarrow> vaddr \<Rightarrow> vaddr \<Rightarrow> bool" where
  "source_ok s k rt a pg \<longleftrightarrow> is_align a \<and> \<not> big_page (mem k) rt a \<and> mapping (mem k) rt a = None \<and>
     PAGE_SIZE dvd pg \<and> pg + PAGE_SIZE \<le> 2 ^ 64 \<and> block_words pg 0 \<inter> footprint s k rt = {}"

text \<open>The page at \<open>N\<close> is mapped at \<open>a\<close>, is kept apart from tables and free pages, and holds what \<open>pg\<close> held before.\<close>

definition page_copied :: "vaddr \<Rightarrow> Kern \<Rightarrow> vaddr \<Rightarrow> u8 \<Rightarrow> vaddr \<Rightarrow> vaddr \<Rightarrow> vaddr \<Rightarrow> Kern \<Rightarrow> bool" where
  "page_copied s k rt flags a pg N k' \<longleftrightarrow> N \<in> free_at s k \<and> block_words N 0 \<inter> footprint s k' rt = {} \<and>
     mapping (mem k') rt a = Some (N - PHY_MEM_OFFSET, flags) \<and>
     (\<forall>w \<in> block_words N 0. mem k' w = mem k (pg + (w - N)))"

lemma source_ok_step:
  assumes "source_ok s k rt b pg" "pt_frame s d rt k k'" "mapping (mem k') rt b = mapping (mem k) rt b"
  shows "source_ok s k' rt b pg"
  using assms by (auto simp: source_ok_def pt_frame_def)

lemma source_unchanged:
  assumes "source_ok s k rt b pg" "pt_frame s d rt k k'"
  shows "PAGE_SIZE dvd pg" "\<forall>w \<in> block_words pg 0. mem k' w = mem k w"
  using assms by (auto simp: source_ok_def pt_frame_def)

lemma word_shift:
  assumes "PAGE_SIZE dvd N" "PAGE_SIZE dvd pg" "w \<in> block_words N 0"
  shows "pg + (w - N) \<in> block_words pg 0"
proof -
  have w: "N \<le> w" "w < N + PAGE_SIZE" "w mod 8 = 0" using assms(3) by (auto simp: block_words_def)
  obtain i where i: "w = N + i" using w(1) le_iff_add by auto
  then have "i mod 8 = 0" "i < PAGE_SIZE" using w page_mod_8[OF assms(1), of i] by auto
  then show ?thesis using page_mod_8[OF assms(2), of i] by (simp add: block_words_def i)
qed

lemma page_copied_later:
  assumes "page_copied s k rt flags a pg N k'" "pt_frame s d rt k' k''" "mapping (mem k'') rt a = mapping (mem k') rt a"
  shows "page_copied s k rt flags a pg N k''"
  using assms by (auto simp: page_copied_def pt_frame_def)

lemma page_copied_earlier:
  assumes "page_copied s k1 rt flags b pg N k'" "PAGE_SIZE dvd pg" "\<forall>w \<in> block_words pg 0. mem k1 w = mem k w"
    "free_at s k1 \<subseteq> free_at s k" "PAGE_SIZE dvd N"
  shows "page_copied s k rt flags b pg N k'"
  using assms word_shift[OF assms(5,2)] by (auto simp: page_copied_def)

text \<open>Pages that are free after a step were free before: tables stay tables.\<close>

lemma free_at_frame:
  assumes k: "pt_inv s n pt k" and k': "pt_inv s n pt' k'" "pt_root pt' = pt_root pt" and f: "pt_frame s d (pt_root pt) k k'"
  shows "free_at s k' \<subseteq> free_at s k"
proof
  fix N assume N: "N \<in> free_at s k'"
  note P = free_at_page(1)[OF pt_invD(1-3)[OF k'(1)] N]
  have w: "N \<in> block_words N 0" using page_mod_8[OF P, of 0] by (simp add: block_words_def PAGE_SIZE_def)
  then have "N \<in> footprint s k' (pt_root pt)" using N by (auto simp: footprint_def)
  then have "N \<in> footprint s k (pt_root pt)" using f by (auto simp: pt_frame_def)
  moreover have "table_words (mem k) (pt_root pt) \<subseteq> table_words (mem k') (pt_root pt)"
    using f unfolding pt_frame_def table_words_def by blast
  then have "N \<notin> table_words (mem k) (pt_root pt)"
    using tables_avoid_free[OF pt_invD(5)[OF k'(1)] N P] w k'(2) by auto
  ultimately obtain M where M: "M \<in> free_at s k" "N \<in> block_words M 0" by (auto simp: footprint_def)
  then have "M = N"
    using block_words_disjoint[OF free_at_page(1)[OF pt_invD(1-3)[OF k] M(1)] P] w by auto
  with M(1) show "N \<in> free_at s k" by simp
qed

lemma fork_one_page:
  assumes inv: "pt_inv s n pt k" and v: "in_vma v a" "bt_get a (pages_tree v) = None" "has_pagetable v"
    and src: "source_ok s k (pt_root pt) a pg" and fr: "3 \<le> card (free_set (buddy_allocator k))"
  shows "\<exists>N pt' k'. fork_pages ((a, pg) # t) v pt k =
      fork_pages t (v\<lparr>pages_tree := snd (bt_insert a N (pages_tree v))\<rparr>) pt' k' \<and>
    new_page s n pt k a (vma_flags_2_pte_flags (vm_flags v)) N pt' k' \<and>
    page_copied s k (pt_root pt) (vma_flags_2_pte_flags (vm_flags v)) a pg N k'"
proof -
  have S: "is_align a" "\<not> big_page (mem k) (pt_root pt) a" "mapping (mem k) (pt_root pt) a = None" "PAGE_SIZE dvd pg"
    "pg + PAGE_SIZE \<le> 2 ^ 64" "block_words pg 0 \<inter> footprint s k (pt_root pt) = {}"
    using src by (auto simp: source_ok_def)
  obtain N pt' k1 where N: "fast_alloc_one_page_and_get v pt k a =
      Some (N, v\<lparr>pages_tree := snd (bt_insert a N (pages_tree v))\<rparr>, pt', k1)"
    "new_page s n pt k a (vma_flags_2_pte_flags (vm_flags v)) N pt' k1"
    using fast_alloc_ok[OF inv v(1) S(1) v(2,3) S(2,3) fr] by blast
  have fN: "N \<in> free_at s k" and fr1: "pt_frame s 3 (pt_root pt) k k1" using N(2) by (auto simp: new_page_def)
  note P = free_at_page[OF pt_invD(1-3)[OF inv] fN]
  have "block_words N 0 \<subseteq> footprint s k (pt_root pt)" using fN by (auto simp: footprint_def)
  moreover have "pg \<in> block_words pg 0" using page_mod_8[OF S(4), of 0] by (simp add: block_words_def PAGE_SIZE_def)
  ultimately have ne: "pg \<noteq> N" using S(6) by auto
  define m' where "m' = (\<lambda>w. if w \<in> block_words N 0 then mem k1 (pg + (w - N)) else mem k1 w)"
  have cp: "copy_one_page_data_from k1 N pg = Some (k1\<lparr>mem := m'\<rparr>)"
    using copy_page_ok[OF S(4) P(1) ne S(5) P(3), of k1] by (simp add: m'_def)
  have np: "new_page s n pt k a (vma_flags_2_pte_flags (vm_flags v)) N pt' (k1\<lparr>mem := m'\<rparr>)"
    by (rule new_page_mem[OF N(2) inv]) (simp add: m'_def)
  have "page_copied s k (pt_root pt) (vma_flags_2_pte_flags (vm_flags v)) a pg N (k1\<lparr>mem := m'\<rparr>)"
    using np source_unchanged[OF src fr1] word_shift[OF P(1) S(4)] by (auto simp: page_copied_def new_page_def m'_def)
  then show ?thesis using N(1) cp np by (intro exI[of _ N] exI[of _ pt'] exI[of _ "k1\<lparr>mem := m'\<rparr>"]) simp
qed

text \<open>The pages of a list have been copied into the tree \<open>t'\<close>, each to a page of its own.\<close>

definition pages_copied ::
    "vaddr \<Rightarrow> Kern \<Rightarrow> vaddr \<Rightarrow> u8 \<Rightarrow> (vaddr \<times> vaddr) list \<Rightarrow> (vaddr, vaddr) btree \<Rightarrow> Kern \<Rightarrow> bool" where
  "pages_copied s k rt flags pgs t' k' \<longleftrightarrow>
     (\<forall>(a, pg) \<in> set pgs. \<exists>N. bt_get a t' = Some N \<and> page_copied s k rt flags a pg N k') \<and>
     inj_on (\<lambda>a. bt_get a t') (fst ` set pgs)"

lemma fork_pages_ok:
  assumes "pt_inv s n pt k" "has_pagetable v" "bt_inv (pages_tree v)"
    "\<forall>(a, pg) \<in> set pgs. in_vma v a \<and> bt_get a (pages_tree v) = None \<and> source_ok s k (pt_root pt) a pg"
    "distinct (map (\<lambda>x. vpn (fst x)) pgs)" "3 * length pgs \<le> card (free_set (buddy_allocator k))"
  shows "\<exists>t' pt' k'. fork_pages pgs v pt k = Some (v\<lparr>pages_tree := t'\<rparr>, pt', k') \<and> bt_inv t' \<and>
    pt_inv s n pt' k' \<and> pt_root pt' = pt_root pt \<and> pt_frame s (3 * length pgs) (pt_root pt) k k' \<and>
    (\<forall>x. x \<notin> fst ` set pgs \<longrightarrow> bt_get x t' = bt_get x (pages_tree v)) \<and>
    (\<forall>x. vpn x \<notin> (\<lambda>x. vpn (fst x)) ` set pgs \<longrightarrow> mapping (mem k') (pt_root pt) x = mapping (mem k) (pt_root pt) x) \<and>
    pages_copied s k (pt_root pt) (vma_flags_2_pte_flags (vm_flags v)) pgs t' k'"
  using assms
proof (induction pgs arbitrary: v pt k)
  case Nil
  then show ?case
    by (intro exI[of _ "pages_tree v"] exI[of _ pt] exI[of _ k]) (simp add: pages_copied_def pt_frame_refl)
next
  case (Cons x pgs)
  obtain a pg where x: "x = (a, pg)" by (cases x)
  let ?rt = "pt_root pt" and ?f = "vma_flags_2_pte_flags (vm_flags v)"
  have h: "in_vma v a" "bt_get a (pages_tree v) = None" "source_ok s k ?rt a pg" using Cons.prems(4) x by auto
  have c3: "3 \<le> card (free_set (buddy_allocator k))" using Cons.prems(6) by simp
  obtain N pt1 k1 where N: "fork_pages ((a, pg) # pgs) v pt k =
      fork_pages pgs (v\<lparr>pages_tree := snd (bt_insert a N (pages_tree v))\<rparr>) pt1 k1"
    "new_page s n pt k a ?f N pt1 k1" "page_copied s k ?rt ?f a pg N k1"
    using fork_one_page[OF Cons.prems(1) h(1,2) Cons.prems(2) h(3) c3, of pgs] by blast
  let ?v = "v\<lparr>pages_tree := snd (bt_insert a N (pages_tree v))\<rparr>"
  have k1: "pt_inv s n pt1 k1" "pt_root pt1 = ?rt" "pt_frame s 3 ?rt k k1"
    "mapping (mem k1) ?rt = (\<lambda>x. if vpn x = vpn a then Some (N - PHY_MEM_OFFSET, ?f) else mapping (mem k) ?rt x)"
    using N(2) by (auto simp: new_page_def)
  note G = bt.ins_get[OF Cons.prems(3), of _ a N]
  have dis: "vpn b \<noteq> vpn a" if "(b, q) \<in> set pgs" for b q using Cons.prems(5) that x by (force simp: image_iff)
  have src: "source_ok s k ?rt b q" if "(b, q) \<in> set pgs" for b q using Cons.prems(4) that by auto
  have "\<forall>(b, q) \<in> set pgs. in_vma ?v b \<and> bt_get b (pages_tree ?v) = None \<and> source_ok s k1 (pt_root pt1) b q"
  proof (clarify, intro conjI)
    fix b q assume b: "(b, q) \<in> set pgs"
    show "in_vma ?v b" using Cons.prems(4) b by (auto simp: in_vma_def)
    show "bt_get b (pages_tree ?v) = None" using Cons.prems(4) b dis[OF b] by (auto simp: G)
    show "source_ok s k1 (pt_root pt1) b q"
      using source_ok_step[OF src[OF b] k1(3)] dis[OF b] by (simp add: k1(2,4))
  qed
  moreover have "3 * length pgs \<le> card (free_set (buddy_allocator k1))"
    using Cons.prems(6) k1(3) by (simp add: pt_frame_def)
  ultimately obtain t' pt' k' where r: "fork_pages pgs ?v pt1 k1 = Some (?v\<lparr>pages_tree := t'\<rparr>, pt', k')" "bt_inv t'"
    "pt_inv s n pt' k'" "pt_root pt' = ?rt" "pt_frame s (3 * length pgs) ?rt k1 k'"
    "\<forall>x. x \<notin> fst ` set pgs \<longrightarrow> bt_get x t' = bt_get x (pages_tree ?v)"
    "\<forall>x. vpn x \<notin> (\<lambda>x. vpn (fst x)) ` set pgs \<longrightarrow> mapping (mem k') ?rt x = mapping (mem k1) ?rt x"
    "pages_copied s k1 ?rt ?f pgs t' k'"
    using Cons.IH[OF k1(1), of ?v] Cons.prems(2,5) bt.ins_inv[OF Cons.prems(3), of a N] by (auto simp: k1(2))
  have va: "vpn a \<notin> (\<lambda>x. vpn (fst x)) ` set pgs" "a \<notin> fst ` set pgs" using Cons.prems(5) x by auto
  have fra: "free_at s k1 \<subseteq> free_at s k" using free_at_frame[OF Cons.prems(1) k1(1-3)] .
  have ga: "bt_get a t' = Some N" using r(6) va(2) by (simp add: G)
  have ca: "page_copied s k ?rt ?f a pg N k'" using page_copied_later[OF N(3) r(5)] r(7) va(1) by simp
  have cb: "\<exists>M. bt_get b t' = Some M \<and> M \<in> free_at s k1 \<and> page_copied s k ?rt ?f b q M k'" if bq: "(b, q) \<in> set pgs" for b q
  proof -
    obtain M where M: "bt_get b t' = Some M" "page_copied s k1 ?rt ?f b q M k'"
      using r(8) bq unfolding pages_copied_def by fast
    then have m: "M \<in> free_at s k1" by (simp add: page_copied_def)
    then have "PAGE_SIZE dvd M" using free_at_page(1)[OF pt_invD(1-3)[OF k1(1)]] by simp
    from page_copied_earlier[OF M(2) source_unchanged[OF src[OF bq] k1(3)] fra this] M(1) m show ?thesis by blast
  qed
  have N1: "N \<notin> free_at s k1"
  proof
    assume "N \<in> free_at s k1"
    then have "block_words N 0 \<subseteq> footprint s k1 ?rt" by (auto simp: footprint_def)
    moreover have "N \<in> block_words N 0"
      using page_mod_8[OF free_at_page(1)[OF pt_invD(1-3)[OF k1(1)] \<open>N \<in> free_at s k1\<close>], of 0]
      by (simp add: block_words_def PAGE_SIZE_def)
    ultimately show False using N(3) by (auto simp: page_copied_def)
  qed
  have "inj_on (\<lambda>a. bt_get a t') (fst ` set (x # pgs))"
    using r(8) ga cb N1 va(2) x by (fastforce simp: pages_copied_def inj_on_def)
  then have "pages_copied s k ?rt ?f (x # pgs) t' k'" using ga ca cb x by (fastforce simp: pages_copied_def)
  moreover have "pt_frame s (3 * length (x # pgs)) ?rt k k'" using pt_frame_trans[OF k1(3) r(5)] by simp
  moreover have "mapping (mem k') ?rt y = mapping (mem k) ?rt y" if "vpn y \<notin> (\<lambda>x. vpn (fst x)) ` set (x # pgs)" for y
    using r(7) k1(4) that x by auto
  moreover have "bt_get y t' = bt_get y (pages_tree v)" if "y \<notin> fst ` set (x # pgs)" for y
    using r(6) that x by (simp add: G)
  ultimately show ?case using r(1-4) N(1) x by (intro exI[of _ t'] exI[of _ pt'] exI[of _ k']) simp
qed

section \<open>Copying the regions\<close>

definition region_copied :: "vaddr \<Rightarrow> Kern \<Rightarrow> vaddr \<Rightarrow> 'f VMA \<Rightarrow> 'f VMA \<Rightarrow> Kern \<Rightarrow> bool" where
  "region_copied s k rt v w k' \<longleftrightarrow> w = v\<lparr>pages_tree := pages_tree w, has_pagetable := True\<rparr> \<and>
     bt_inv (pages_tree w) \<and> (\<forall>x. bt_get x (pages_tree w) = None \<longleftrightarrow> bt_get x (pages_tree v) = None) \<and>
     pages_copied s k rt (vma_flags_2_pte_flags (vm_flags v)) (pages_tree v) (pages_tree w) k'"

definition all_pages :: "(vaddr \<times> 'f VMA) list \<Rightarrow> (vaddr \<times> vaddr) list" where
  "all_pages vs = concat (map (\<lambda>x. pages_tree (snd x)) vs)"

lemma all_pages_simps [simp]: "all_pages [] = []" "all_pages ((a, v) # vs) = pages_tree v @ all_pages vs"
  by (simp_all add: all_pages_def)

lemma all_pages_member: "(a, v) \<in> set vs \<Longrightarrow> x \<in> set (pages_tree v) \<Longrightarrow> x \<in> set (all_pages vs)"
  by (force simp: all_pages_def)

lemma region_copied_later:
  assumes "region_copied s k rt v w k'" "pt_frame s d rt k' k''"
    "\<forall>(a, pg) \<in> set (pages_tree v). mapping (mem k'') rt a = mapping (mem k') rt a"
  shows "region_copied s k rt v w k''"
  using assms page_copied_later[OF _ assms(2)] unfolding region_copied_def pages_copied_def by fast

lemma region_copied_earlier:
  assumes r: "region_copied s k1 rt v w k'" 
    and src: "\<forall>(a, pg) \<in> set (pages_tree v). PAGE_SIZE dvd pg \<and> (\<forall>w \<in> block_words pg 0. mem k1 w = mem k w)"
    and f: "free_at s k1 \<subseteq> free_at s k" and d: "\<forall>N \<in> free_at s k1. PAGE_SIZE dvd N"
  shows "region_copied s k rt v w k'"
proof -
  have "\<exists>N. bt_get a (pages_tree w) = Some N \<and> page_copied s k rt (vma_flags_2_pte_flags (vm_flags v)) a pg N k'"
    if m: "(a, pg) \<in> set (pages_tree v)" for a pg
  proof -
    obtain N where N: "bt_get a (pages_tree w) = Some N"
      "page_copied s k1 rt (vma_flags_2_pte_flags (vm_flags v)) a pg N k'"
      using r m unfolding region_copied_def pages_copied_def by fast
    moreover have "PAGE_SIZE dvd N" using d N(2) by (simp add: page_copied_def)
    moreover have "PAGE_SIZE dvd pg" "\<forall>w \<in> block_words pg 0. mem k1 w = mem k w" using src m by fast+
    ultimately show ?thesis using page_copied_earlier[OF N(2) _ _ f] by blast
  qed
  then show ?thesis using r unfolding region_copied_def pages_copied_def by fast
qed

definition regions_source_ok :: "vaddr \<Rightarrow> Kern \<Rightarrow> vaddr \<Rightarrow> (vaddr \<times> 'f VMA) list \<Rightarrow> bool" where
  "regions_source_ok s k rt vs \<longleftrightarrow>
     (\<forall>(a, v) \<in> set vs. has_pagetable v \<and> bt_inv (pages_tree v) \<and>
       (\<forall>(x, pg) \<in> set (pages_tree v). in_vma v x \<and> source_ok s k rt x pg))"

lemma fork_vmas_ok:
  assumes "pt_inv s n (mm_pagetable new) k" "bt_inv (vmas new)" "\<forall>x \<in> set vs. bt_get (fst x) (vmas new) = None"
    "regions_source_ok s k (pt_root (mm_pagetable new)) vs" "distinct (map fst vs)"
    "distinct (map (\<lambda>x. vpn (fst x)) (all_pages vs))"
    "3 * length (all_pages vs) \<le> card (free_set (buddy_allocator k))"
  shows "\<exists>new' k'. fork_vmas vs new k = Some (new', k') \<and>
    new' = new\<lparr>mm_pagetable := mm_pagetable new', vmas := vmas new'\<rparr> \<and> bt_inv (vmas new') \<and>
    pt_inv s n (mm_pagetable new') k' \<and> pt_root (mm_pagetable new') = pt_root (mm_pagetable new) \<and>
    pt_frame s (3 * length (all_pages vs)) (pt_root (mm_pagetable new)) k k' \<and>
    (\<forall>x. x \<notin> fst ` set vs \<longrightarrow> bt_get x (vmas new') = bt_get x (vmas new)) \<and>
    (\<forall>x. vpn x \<notin> (\<lambda>x. vpn (fst x)) ` set (all_pages vs) \<longrightarrow>
       mapping (mem k') (pt_root (mm_pagetable new)) x = mapping (mem k) (pt_root (mm_pagetable new)) x) \<and>
    (\<forall>(a, v) \<in> set vs. \<exists>w. bt_get a (vmas new') = Some w \<and> region_copied s k (pt_root (mm_pagetable new)) v w k')"
  using assms
proof (induction vs arbitrary: new k)
  case Nil
  then show ?case by (intro exI[of _ new] exI[of _ k]) (simp add: pt_frame_refl)
next
  case (Cons x vs)
  obtain a v where x: "x = (a, v)" by (cases x)
  let ?rt = "pt_root (mm_pagetable new)" and ?f = "vma_flags_2_pte_flags (vm_flags v)"
  let ?v = "v\<lparr>pages_tree := [], has_pagetable := True\<rparr>"
  have hv: "has_pagetable v" "bt_inv (pages_tree v)" "\<forall>(b, pg) \<in> set (pages_tree v). in_vma v b \<and> source_ok s k ?rt b pg"
    using Cons.prems(4) x by (auto simp: regions_source_ok_def)
  have e: "\<forall>(b, pg) \<in> set (pages_tree v). in_vma ?v b \<and> bt_get b (pages_tree ?v) = None \<and> source_ok s k ?rt b pg"
    using hv(3) by (auto simp: in_vma_def bt_get_def)
  have d: "distinct (map (\<lambda>x. vpn (fst x)) (pages_tree v))" "distinct (map (\<lambda>x. vpn (fst x)) (all_pages vs))"
    "(\<lambda>x. vpn (fst x)) ` set (pages_tree v) \<inter> (\<lambda>x. vpn (fst x)) ` set (all_pages vs) = {}"
    "3 * length (pages_tree v) \<le> card (free_set (buddy_allocator k))"
    using Cons.prems(6,7) x by auto
  have e0: "has_pagetable ?v" "bt_inv (pages_tree ?v)" by (simp_all add: bt_inv_def)
  obtain t' pt1 k1 where F: "fork_pages (pages_tree v) ?v (mm_pagetable new) k = Some (?v\<lparr>pages_tree := t'\<rparr>, pt1, k1)"
    "bt_inv t'" "pt_inv s n pt1 k1" "pt_root pt1 = ?rt" "pt_frame s (3 * length (pages_tree v)) ?rt k k1"
    "\<forall>x. x \<notin> fst ` set (pages_tree v) \<longrightarrow> bt_get x t' = bt_get x (pages_tree ?v)"
    "\<forall>x. vpn x \<notin> (\<lambda>x. vpn (fst x)) ` set (pages_tree v) \<longrightarrow> mapping (mem k1) ?rt x = mapping (mem k) ?rt x"
    "pages_copied s k ?rt (vma_flags_2_pte_flags (vm_flags ?v)) (pages_tree v) t' k1"
    using fork_pages_ok[OF Cons.prems(1) e0 e d(1,4)] by blast
  define w where "w = ?v\<lparr>pages_tree := t'\<rparr>"
  have dom: "bt_get y t' = None \<longleftrightarrow> bt_get y (pages_tree v) = None" for y
  proof (cases "y \<in> fst ` set (pages_tree v)")
    case True
    then obtain pg where m: "(y, pg) \<in> set (pages_tree v)" by auto
    then have "bt_get y (pages_tree v) = Some pg" using bt.in_entries[OF hv(2)] by simp
    moreover have "bt_get y t' \<noteq> None" using F(8) m unfolding pages_copied_def by fast
    ultimately show ?thesis by simp
  next
    case False
    then have "bt_get y (pages_tree v) = None" by (simp add: bt_get_def map_of_eq_None_iff)
    with False F(6) show ?thesis by (simp add: bt_get_def)
  qed
  have rc: "region_copied s k ?rt v w k1" using F(2,8) dom by (simp add: region_copied_def w_def)
  let ?new = "new\<lparr>mm_pagetable := pt1, vmas := snd (bt_insert a w (vmas new))\<rparr>"
  have none: "fst (bt_insert a w (vmas new)) = None" using bt.ins_old[OF Cons.prems(2)] Cons.prems(3) x by simp
  have run: "fork_vmas (x # vs) new k = fork_vmas vs ?new k1"
    using F(1)[folded w_def] hv(1) none x by (cases "bt_insert a w (vmas new)") (simp add: rust_ops Let_def)
  note G = bt.ins_get[OF Cons.prems(2), of _ a w]
  have src: "\<forall>(b, u) \<in> set vs. \<forall>(y, pg) \<in> set (pages_tree u). source_ok s k ?rt y pg"
    using Cons.prems(4) x by (fastforce simp: regions_source_ok_def)
  have map1: "mapping (mem k1) ?rt y = mapping (mem k) ?rt y" if "(b, u) \<in> set vs" "(y, pg) \<in> set (pages_tree u)" for b u y pg
  proof -
    have "(y, pg) \<in> set (all_pages vs)" using all_pages_member that by blast
    then have "vpn y \<notin> (\<lambda>x. vpn (fst x)) ` set (pages_tree v)" using d(3) by force
    then show ?thesis using F(7) by blast
  qed
  have "regions_source_ok s k1 ?rt vs"
    unfolding regions_source_ok_def
  proof (clarify, intro conjI)
    fix b u assume b: "(b, u) \<in> set vs"
    then show "has_pagetable u" "bt_inv (pages_tree u)" using Cons.prems(4) by (auto simp: regions_source_ok_def)
    show "\<forall>(y, pg) \<in> set (pages_tree u). in_vma u y \<and> source_ok s k1 ?rt y pg"
    proof (clarify, intro conjI)
      fix y pg assume y: "(y, pg) \<in> set (pages_tree u)"
      show "in_vma u y" using Cons.prems(4) b y by (fastforce simp: regions_source_ok_def)
      have "source_ok s k ?rt y pg" using src b y by fast
      from source_ok_step[OF this F(5) map1[OF b y]] show "source_ok s k1 ?rt y pg" .
    qed
  qed
  moreover have "\<forall>y \<in> set vs. bt_get (fst y) (vmas ?new) = None"
    using Cons.prems(3,5) x by (auto simp: G)
  moreover have "3 * length (all_pages vs) \<le> card (free_set (buddy_allocator k1))"
    using Cons.prems(7) F(5) x by (simp add: pt_frame_def)
  ultimately obtain new' k' where R: "fork_vmas vs ?new k1 = Some (new', k')"
    "new' = ?new\<lparr>mm_pagetable := mm_pagetable new', vmas := vmas new'\<rparr>" "bt_inv (vmas new')"
    "pt_inv s n (mm_pagetable new') k'" "pt_root (mm_pagetable new') = ?rt"
    "pt_frame s (3 * length (all_pages vs)) ?rt k1 k'"
    "\<forall>x. x \<notin> fst ` set vs \<longrightarrow> bt_get x (vmas new') = bt_get x (vmas ?new)"
    "\<forall>x. vpn x \<notin> (\<lambda>x. vpn (fst x)) ` set (all_pages vs) \<longrightarrow> mapping (mem k') ?rt x = mapping (mem k1) ?rt x"
    "\<forall>(a, v) \<in> set vs. \<exists>w. bt_get a (vmas new') = Some w \<and> region_copied s k1 ?rt v w k'"
    using Cons.IH[of ?new k1] F(3,4) bt.ins_inv[OF Cons.prems(2), of a w] Cons.prems(5) d(2) by auto
  have fra: "free_at s k1 \<subseteq> free_at s k" using free_at_frame[OF Cons.prems(1) F(3-5)] .
  have dv: "\<forall>N \<in> free_at s k1. PAGE_SIZE dvd N" using free_at_page(1)[OF pt_invD(1-3)[OF F(3)]] by blast
  have "\<exists>w. bt_get b (vmas new') = Some w \<and> region_copied s k ?rt u w k'" if bu: "(b, u) \<in> set (x # vs)" for b u
  proof (cases "(b, u) \<in> set vs")
    case True
    then obtain w' where "bt_get b (vmas new') = Some w'" "region_copied s k1 ?rt u w' k'" using R(9) by fast
    moreover have "\<forall>(y, pg) \<in> set (pages_tree u). PAGE_SIZE dvd pg \<and> (\<forall>w \<in> block_words pg 0. mem k1 w = mem k w)"
      using src True source_unchanged[OF _ F(5)] by fast
    ultimately show ?thesis using region_copied_earlier[OF _ _ fra dv] by blast
  next
    case False
    then have b: "b = a" "u = v" using bu x by auto
    have "a \<notin> fst ` set vs" using Cons.prems(5) x by simp
    then have "bt_get b (vmas new') = Some w" using R(7) b by (simp add: G)
    moreover have "\<forall>(y, pg) \<in> set (pages_tree v). mapping (mem k') ?rt y = mapping (mem k1) ?rt y"
    proof clarify
      fix y pg assume "(y, pg) \<in> set (pages_tree v)"
      then have "vpn y \<notin> (\<lambda>x. vpn (fst x)) ` set (all_pages vs)" using d(3) by force
      then show "mapping (mem k') ?rt y = mapping (mem k1) ?rt y" using R(8) by blast
    qed
    ultimately show ?thesis using region_copied_later[OF rc R(6)] b by blast
  qed
  then have "\<forall>(b, u) \<in> set (x # vs). \<exists>w. bt_get b (vmas new') = Some w \<and> region_copied s k ?rt u w k'" by blast
  moreover have "pt_frame s (3 * length (all_pages (x # vs))) ?rt k k'"
    using pt_frame_trans[OF F(5) R(6)] x by (simp add: distrib_left)
  moreover have "mapping (mem k') ?rt y = mapping (mem k) ?rt y"
    if "vpn y \<notin> (\<lambda>x. vpn (fst x)) ` set (all_pages (x # vs))" for y
    using R(8) F(7) that x by (simp add: image_Un)
  moreover have "bt_get y (vmas new') = bt_get y (vmas new)" if "y \<notin> fst ` set (x # vs)" for y
    using R(7) that x by (simp add: G)
  moreover have "new' = new\<lparr>mm_pagetable := mm_pagetable new', vmas := vmas new'\<rparr>" using R(2) by simp
  moreover have "fork_vmas (x # vs) new k = Some (new', k')" using run R(1) by simp
  ultimately show ?case using R(3-5) by (intro exI[of _ new'] exI[of _ k'] conjI allI impI) (assumption | blast)+
qed

end
