(* ===== verification/K_Mm_Fork_Props.thy ===== *)
theory K_Mm_Fork_Props
  imports K_Mm_Fork
begin

text \<open>
  \<^verbatim>\<open>new_mm_by_old\<close> as a whole: from the page table of a new process to the copies of all pages.
\<close>

section \<open>The new page table\<close>

lemma user_ppn2: "a < USER_SPACE_END \<Longrightarrow> addr_get_ppn2 a < 2"
  by (simp add: ppn_eq PAGE_SIZE_def USER_SPACE_END_def div_mult2_eq[symmetric])

lemma zero_not_leaf: "m (t + i * 8) = 0 \<Longrightarrow> \<not> is_leaf (entry m t i)"
  by (simp add: entry_def pte_zero is_leaf_def PTE_default_def get_bits_def)

lemma new_user_sources:
  assumes inv: "pt_inv s n kpt k" and fr: "free_set (buddy_allocator k) \<noteq> {}"
  shows "\<exists>pt k1. new_user kpt k = Some (pt, k1) \<and> pt_inv s n pt k1 \<and> pt_root pt \<in> free_at s k \<and>
    card (free_set (buddy_allocator k)) \<le> card (free_set (buddy_allocator k1)) + 1 \<and>
    free_at s k1 \<subseteq> free_at s k \<and> footprint s k1 (pt_root pt) \<subseteq> footprint s k (pt_root kpt) \<and>
    (\<forall>a. a \<notin> footprint s k (pt_root kpt) \<longrightarrow> mem k1 a = mem k a) \<and>
    (\<forall>a. a < USER_SPACE_END \<longrightarrow> \<not> big_page (mem k1) (pt_root pt) a \<and> mapping (mem k1) (pt_root pt) a = None)"
proof -
  obtain pt k1 where N: "new_user kpt k = Some (pt, k1)" "pt_inv s n pt k1" "pt_root pt \<in> free_at s k"
    "free_at s k1 = free_at s k - {pt_root pt}" "card (free_set (buddy_allocator k)) \<le> card (free_set (buddy_allocator k1)) + 1"
    "\<forall>j < 2. mem k1 (pt_root pt + j * 8) = 0"
    "\<forall>i p. idx (i # p) \<longrightarrow> tbl (mem k1) (pt_root pt) (i # p) = (if i < 2 then None else tbl (mem k) (pt_root kpt) (i # p))"
    "\<forall>a. a \<notin> block_words (pt_root pt) 0 \<longrightarrow> mem k1 a = mem k a"
    "\<forall>va. mapping (mem k1) (pt_root pt) va = (if addr_get_ppn2 va < 2 then None else mapping (mem k) (pt_root kpt) va)"
    using new_user_run[OF inv fr] by blast
  let ?N = "pt_root pt"
  note P = free_at_page(1)[OF pt_invD(1-3)[OF inv] N(3)]
  have "table_words (mem k1) ?N \<subseteq> block_words ?N 0 \<union> table_words (mem k) (pt_root kpt)"
  proof
    fix w assume "w \<in> table_words (mem k1) ?N"
    then obtain p t i where w: "w = t + i * 8" "idx p" "tbl (mem k1) ?N p = Some t" "i < 512" by (auto simp: table_words_def)
    show "w \<in> block_words ?N 0 \<union> table_words (mem k) (pt_root kpt)"
    proof (cases p)
      case Nil
      then show ?thesis using w page_mod_8[OF P, of "i * 8"] by (simp add: block_words_def PAGE_SIZE_def)
    next
      case (Cons j q)
      then have "tbl (mem k) (pt_root kpt) p = Some t" using w(2,3) N(7) by (simp del: tbl.simps(2) split: if_splits)
      then show ?thesis using w by (auto simp: table_words_def)
    qed
  qed
  then have fp: "footprint s k1 ?N \<subseteq> footprint s k (pt_root kpt)" using N(3,4) by (auto simp: footprint_def)
  have "block_words ?N 0 \<subseteq> footprint s k (pt_root kpt)" using N(3) by (auto simp: footprint_def)
  then have out: "mem k1 a = mem k a" if "a \<notin> footprint s k (pt_root kpt)" for a using N(8) that by blast
  have "\<not> big_page (mem k1) ?N a \<and> mapping (mem k1) ?N a = None" if "a < USER_SPACE_END" for a
    using N(6,9) N(7)[rule_format, OF idx_path(2)[of a]] user_ppn2[OF that] zero_not_leaf[of "mem k1" ?N "addr_get_ppn2 a"]
    by (simp add: big_page_def del: tbl.simps(2))
  then show ?thesis using N(1-3,5) N(4) fp out by (intro exI[of _ pt] exI[of _ k1]) simp
qed

section \<open>The addresses of the pages\<close>

lemma all_pages_sorted:
  assumes "regions lo vs hi"
    and "\<forall>(a, v) \<in> set vs. bt_inv (pages_tree v) \<and> (\<forall>(x, pg) \<in> set (pages_tree v). in_vma v x)"
  shows "sorted_wrt (<) (map fst (all_pages vs)) \<and> (\<forall>x \<in> set (all_pages vs). lo \<le> fst x)"
  using assms
proof (induction lo vs hi rule: regions.induct)
  case (2 lo key v t hi)
  have IH: "sorted_wrt (<) (map fst (all_pages t))" "\<forall>x \<in> set (all_pages t). vma_end v \<le> fst x" using 2 by auto
  have v: "sorted_wrt (<) (map fst (pages_tree v))" "\<forall>x \<in> set (pages_tree v). lo \<le> fst x \<and> fst x < vma_end v"
    using 2(2,3) by (auto simp: bt_inv_def in_vma_def)
  have "lo \<le> vma_end v" using 2(2) by auto
  then show ?case using IH v by (fastforce simp: sorted_wrt_append)
qed simp

lemma vpn_inj: "is_align a \<Longrightarrow> is_align b \<Longrightarrow> a < 2 ^ 39 \<Longrightarrow> b < 2 ^ 39 \<Longrightarrow> vpn a = vpn b \<Longrightarrow> a = b"
  by (auto simp: vpn_def is_align_def PAGE_SIZE_def)

section \<open>Fork\<close>

text \<open>
  The pages of the old address space: each lies in its region, and is not a page of the kernel's page
  tables or a free page.
\<close>

definition user_pages_ok :: "vaddr \<Rightarrow> Kern \<Rightarrow> vaddr \<Rightarrow> 'f MmStruct \<Rightarrow> bool" where
  "user_pages_ok s k rt mm \<longleftrightarrow>
     (\<forall>(a, v) \<in> set (vmas mm). has_pagetable v \<and> bt_inv (pages_tree v) \<and>
       (\<forall>(x, pg) \<in> set (pages_tree v). in_vma v x \<and> is_align x \<and> PAGE_SIZE dvd pg \<and> pg + PAGE_SIZE \<le> 2 ^ 64 \<and>
         block_words pg 0 \<inter> footprint s k rt = {}))"

definition user_regions :: "'f MmStruct \<Rightarrow> (vaddr \<times> 'f VMA) list" where
  "user_regions mm = filter (\<lambda>(a, v). USER_SPACE_START \<le> a \<and> a < USER_SPACE_END) (vmas mm)"

lemma user_pages_bound:
  assumes "regions 0 (user_regions mm) USER_SPACE_END" "user_pages_ok s k rt mm"
    "(a, v) \<in> set (user_regions mm)" "(x, pg) \<in> set (pages_tree v)"
  shows "x < USER_SPACE_END"
proof -
  have "(a, v) \<in> set (vmas mm)" using assms(3) by (simp add: user_regions_def)
  then have "in_vma v x" using assms(2,4) unfolding user_pages_ok_def by fast
  then show ?thesis using regions_member[OF assms(1,3)] by (simp add: in_vma_def)
qed

lemma user_pages_distinct:
  assumes R: "regions 0 (user_regions mm) USER_SPACE_END" and ok: "user_pages_ok s k rt mm"
  shows "distinct (map (\<lambda>x. vpn (fst x)) (all_pages (user_regions mm)))"
proof -
  have sub: "\<forall>x \<in> set (user_regions mm). x \<in> set (vmas mm)" by (auto simp: user_regions_def)
  have "\<forall>(a, v) \<in> set (user_regions mm). bt_inv (pages_tree v) \<and> (\<forall>(x, pg) \<in> set (pages_tree v). in_vma v x)"
    using ok sub unfolding user_pages_ok_def by fast
  from all_pages_sorted[OF R this] have d: "distinct (map fst (all_pages (user_regions mm)))"
    using strict_sorted_iff by blast
  have al: "is_align x \<and> x < 2 ^ 39" if x: "(x, pg) \<in> set (all_pages (user_regions mm))" for x pg
  proof -
    obtain a v where v: "(a, v) \<in> set (user_regions mm)" "(x, pg) \<in> set (pages_tree v)"
      using x by (auto simp: all_pages_def)
    then have "is_align x" using ok sub unfolding user_pages_ok_def by fast
    with user_pages_bound[OF R ok v] show ?thesis by (simp add: USER_SPACE_END_def)
  qed
  have "inj_on vpn (fst ` set (all_pages (user_regions mm)))"
    by (rule inj_onI) (use al vpn_inj in force)
  then have "distinct (map vpn (map fst (all_pages (user_regions mm))))"
    using d by (subst distinct_map) simp
  then show ?thesis by (simp add: comp_def)
qed

lemma fork_ok:
  assumes kpt: "pt_inv s n kpt k" and R: "regions 0 (user_regions old) USER_SPACE_END"
    and ok: "user_pages_ok s k (pt_root kpt) old"
    and fr: "1 + 3 * length (all_pages (user_regions old)) \<le> card (free_set (buddy_allocator k))"
  shows "\<exists>new k'. new_mm_by_old kpt old k = Some (new, k') \<and> brk new = brk old \<and> start_brk new = start_brk old \<and>
    pt_inv s n (mm_pagetable new) k' \<and>
    (\<forall>a. a \<notin> fst ` set (user_regions old) \<longrightarrow> bt_get a (vmas new) = None) \<and>
    (\<forall>(a, v) \<in> set (user_regions old). \<exists>w. bt_get a (vmas new) = Some w \<and>
       region_copied s k (pt_root (mm_pagetable new)) v w k') \<and>
    (\<forall>a. a \<notin> footprint s k (pt_root kpt) \<longrightarrow> mem k' a = mem k a) \<and>
    footprint s k' (pt_root (mm_pagetable new)) \<subseteq> footprint s k (pt_root kpt) \<and> pt_root (mm_pagetable new) \<in> free_at s k"
proof -
  have "free_set (buddy_allocator k) \<noteq> {}" using fr by auto
  then obtain pt k1 where N: "new_user kpt k = Some (pt, k1)" "pt_inv s n pt k1"
    "card (free_set (buddy_allocator k)) \<le> card (free_set (buddy_allocator k1)) + 1" "free_at s k1 \<subseteq> free_at s k"
    "footprint s k1 (pt_root pt) \<subseteq> footprint s k (pt_root kpt)"
    "\<forall>a. a \<notin> footprint s k (pt_root kpt) \<longrightarrow> mem k1 a = mem k a"
    "\<forall>a. a < USER_SPACE_END \<longrightarrow> \<not> big_page (mem k1) (pt_root pt) a \<and> mapping (mem k1) (pt_root pt) a = None"
    "pt_root pt \<in> free_at s k"
    using new_user_sources[OF kpt] by blast
  let ?vs = "user_regions old"
  let ?new = "(new_empty_user_mm_by_pagetable pt :: 'a MmStruct)\<lparr>brk := brk old, start_brk := start_brk old\<rparr>"
  have e: "mm_pagetable ?new = pt" "vmas ?new = []" by (simp_all add: new_empty_user_mm_by_pagetable_def)
  have O: "has_pagetable v" "bt_inv (pages_tree v)"
    "\<forall>(x, pg) \<in> set (pages_tree v). in_vma v x \<and> is_align x \<and> PAGE_SIZE dvd pg \<and> pg + PAGE_SIZE \<le> 2 ^ 64 \<and>
         block_words pg 0 \<inter> footprint s k (pt_root kpt) = {}" if "(a, v) \<in> set ?vs" for a v
    using ok that unfolding user_pages_ok_def user_regions_def by fastforce+
  have "regions_source_ok s k1 (pt_root pt) ?vs"
    unfolding regions_source_ok_def
  proof (clarify, intro conjI)
    fix a v assume v: "(a, v) \<in> set ?vs"
    show "has_pagetable v" "bt_inv (pages_tree v)" using O(1,2)[OF v] by auto
    show "\<forall>(x, pg) \<in> set (pages_tree v). in_vma v x \<and> source_ok s k1 (pt_root pt) x pg"
      using O(3)[OF v] user_pages_bound[OF R ok v] N(5,7) unfolding source_ok_def by fast
  qed
  moreover have "distinct (map fst ?vs)" using regions_bt_inv[OF R] strict_sorted_iff bt_inv_def by blast
  moreover have "3 * length (all_pages ?vs) \<le> card (free_set (buddy_allocator k1))" using fr N(3) by simp
  ultimately obtain new k' where F: "fork_vmas ?vs ?new k1 = Some (new, k')"
    "new = ?new\<lparr>mm_pagetable := mm_pagetable new, vmas := vmas new\<rparr>"
    "pt_inv s n (mm_pagetable new) k'" "pt_root (mm_pagetable new) = pt_root pt"
    "pt_frame s (3 * length (all_pages ?vs)) (pt_root pt) k1 k'"
    "\<forall>x. x \<notin> fst ` set ?vs \<longrightarrow> bt_get x (vmas new) = None"
    "\<forall>(a, v) \<in> set ?vs. \<exists>w. bt_get a (vmas new) = Some w \<and> region_copied s k1 (pt_root pt) v w k'"
    using fork_vmas_ok[of s n ?new k1 ?vs] N(2) user_pages_distinct[OF R ok]
    unfolding e by (auto simp: bt_inv_def bt_get_def)
  have dv: "\<forall>N \<in> free_at s k1. PAGE_SIZE dvd N" using free_at_page(1)[OF pt_invD(1-3)[OF N(2)]] by blast
  have "\<exists>w. bt_get a (vmas new) = Some w \<and> region_copied s k (pt_root pt) v w k'" if v: "(a, v) \<in> set ?vs" for a v
  proof -
    obtain w where w: "bt_get a (vmas new) = Some w" "region_copied s k1 (pt_root pt) v w k'" using F(7) v by fast
    have "\<forall>(x, pg) \<in> set (pages_tree v). PAGE_SIZE dvd pg \<and> (\<forall>u \<in> block_words pg 0. mem k1 u = mem k u)"
      using O(3)[OF v] N(6) by fast
    from region_copied_earlier[OF w(2) this N(4) dv] w(1) show ?thesis by blast
  qed
  moreover have "mem k' a = mem k a" if "a \<notin> footprint s k (pt_root kpt)" for a
    using that N(5,6) F(5) by (auto simp: pt_frame_def)
  moreover have "brk new = brk old" "start_brk new = start_brk old" by (subst F(2), simp)+
  moreover have "new_mm_by_old kpt old k = Some (new, k')"
    using N(1) F(1) by (simp add: new_mm_by_old_def bt_range_def user_regions_def USER_SPACE_START_def USER_SPACE_END_def Let_def)
  moreover have "footprint s k' (pt_root (mm_pagetable new)) \<subseteq> footprint s k (pt_root kpt)"
    using N(5) F(4,5) by (auto simp: pt_frame_def)
  ultimately show ?thesis using F(3,4,6) N(8) by (intro exI[of _ new] exI[of _ k']) auto
qed

lemma sample_user_space:
  obtains k0 pt k v N pt' k' old where "mm_init_pages (\<lambda>_. 7) 0xFFFFFFD880200000 0xFFFFFFD880A00000 = Some k0"
    "PageTable_default k0 = Some (pt, k)" "fast_alloc_one_page_and_get v pt k 0x12000 = Some (N, v\<lparr>pages_tree := [(0x12000, N)]\<rparr>, pt', k')"
    "old = (sample_mm\<lparr>vmas := [(0x12000, v\<lparr>pages_tree := [(0x12000, N)]\<rparr>)]\<rparr> :: unit MmStruct)"
    "user_regions old = [(0x12000, v\<lparr>pages_tree := [(0x12000, N)]\<rparr>)]" "pt_inv 0xFFFFFFD880200000 2048 pt' k'"
    "mm_inv old" "range_closed (vmas old) 0 USER_SPACE_END" "user_pages_ok 0xFFFFFFD880200000 k' (pt_root pt') old"
    "2044 \<le> card (free_set (buddy_allocator k'))" "PAGE_SIZE dvd N"
    "block_words N 0 \<inter> footprint 0xFFFFFFD880200000 k' (pt_root pt') = {}"
proof -
  obtain k0 pt k where k: "mm_init_pages (\<lambda>_. 7) 0xFFFFFFD880200000 0xFFFFFFD880A00000 = Some k0"
    "PageTable_default k0 = Some (pt, k)" "pt_inv 0xFFFFFFD880200000 2048 pt k"
    "card (free_set (buddy_allocator k)) = 2047" "\<forall>va. \<not> big_page (mem k) (pt_root pt) va"
    "\<forall>va. mapping (mem k) (pt_root pt) va = None" by (rule sample_page_table)
  let ?s = "0xFFFFFFD880200000 :: nat"
  let ?v = "(VMA_empty 0x12000 0x13000)\<lparr>has_pagetable := True\<rparr> :: unit VMA"
  have v: "in_vma ?v 0x12000" "is_align 0x12000" "bt_get 0x12000 (pages_tree ?v) = None" "has_pagetable ?v"
    by (simp_all add: in_vma_def VMA_empty_def bt_get_def is_align_def PAGE_SIZE_def)
  have c: "3 \<le> card (free_set (buddy_allocator k))" using k(4) by simp
  obtain N pt' k' where N: "fast_alloc_one_page_and_get ?v pt k 0x12000 =
      Some (N, ?v\<lparr>pages_tree := snd (bt_insert 0x12000 N (pages_tree ?v))\<rparr>, pt', k')"
    "new_page ?s 2048 pt k 0x12000 (vma_flags_2_pte_flags (vm_flags ?v)) N pt' k'"
    using fast_alloc_ok[OF k(3) v k(5)[rule_format] k(6)[rule_format] c] by blast
  let ?v' = "?v\<lparr>pages_tree := [(0x12000, N)]\<rparr>"
  let ?old = "sample_mm\<lparr>vmas := [(0x12000, ?v')]\<rparr>"
  have v': "?v\<lparr>pages_tree := snd (bt_insert 0x12000 N (pages_tree ?v))\<rparr> = ?v'" by (simp add: VMA_empty_def)
  have p: "pt_inv ?s 2048 pt' k'" "pt_root pt' = pt_root pt" "block_words N 0 \<inter> footprint ?s k' (pt_root pt) = {}"
    "pt_frame ?s 3 (pt_root pt) k k'" "N \<in> free_at ?s k" using N(2) by (auto simp: new_page_def)
  note P = free_at_page[OF pt_invD(1-3)[OF k(3)] p(5)]
  have ur: "user_regions ?old = [(0x12000, ?v')]" by (simp add: user_regions_def USER_SPACE_START_def USER_SPACE_END_def)
  have "mm_inv ?old" "range_closed (vmas ?old) 0 USER_SPACE_END"
    by (simp_all add: mm_inv_def range_closed_def sample_mm_def VMA_empty_def MMAP_TOP_def USER_SPACE_END_def bt_get_def
        is_align_def PAGE_SIZE_def)
  moreover have "user_pages_ok ?s k' (pt_root pt') ?old"
    using p(2,3) P(1,3) by (simp add: user_pages_ok_def bt_inv_def in_vma_def VMA_empty_def is_align_def) (simp add: PAGE_SIZE_def)
  moreover have "2044 \<le> card (free_set (buddy_allocator k'))"
    using p(4) k(4) by (simp add: pt_frame_def)
  moreover note P(1) and p(3)[folded p(2)]
  ultimately show thesis by (rule that[OF k(1,2) N(1)[unfolded v'] refl ur p(1)])
qed

text \<open>
  C12: \<^verbatim>\<open>fork\<close>.  With enough free pages \<^verbatim>\<open>new_mm_by_old\<close> returns a new address space with the same break
  and exactly the regions of user space; each region has the same bounds, rights and file, and a
  page at exactly the same addresses.  Every page of the new address space was free before, no two
  of a region are the same, it is mapped at its address with the rights of the region and holds what
  the old page holds, and apart from the kernel's page tables and the free pages no memory is
  written, so that the old process keeps its pages as they were.
\<close>

theorem fork_copies_pages:
  assumes "pt_inv s n kpt k" "mm_inv old" "range_closed (vmas old) 0 USER_SPACE_END"
    "user_pages_ok s k (pt_root kpt) old"
    "1 + 3 * length (all_pages (user_regions old)) \<le> card (free_set (buddy_allocator k))"
  shows "\<exists>new k'. new_mm_by_old kpt old k = Some (new, k') \<and> brk new = brk old \<and> start_brk new = start_brk old \<and>
    pt_inv s n (mm_pagetable new) k' \<and>
    (\<forall>a. a \<notin> fst ` set (user_regions old) \<longrightarrow> bt_get a (vmas new) = None) \<and>
    (\<forall>(a, v) \<in> set (user_regions old). \<exists>w. bt_get a (vmas new) = Some w \<and>
       region_copied s k (pt_root (mm_pagetable new)) v w k') \<and>
    (\<forall>a. a \<notin> footprint s k (pt_root kpt) \<longrightarrow> mem k' a = mem k a)"
proof -
  have "regions 0 (user_regions old) USER_SPACE_END"
    using regions_filter[OF mm_invD(1)[OF assms(2)] assms(3)] by (simp add: user_regions_def USER_SPACE_START_def)
  from fork_ok[OF assms(1) this assms(4,5)] show ?thesis by blast
qed

theorem fork_copies_pages_witness:
  "\<exists>k0 pt k v N v' pt' k' new k'' w M. mm_init_pages (\<lambda>_. 7) 0xFFFFFFD880200000 0xFFFFFFD880A00000 = Some k0 \<and>
     PageTable_default k0 = Some (pt, k) \<and> fast_alloc_one_page_and_get v pt k 0x12000 = Some (N, v', pt', k') \<and>
     new_mm_by_old pt' (sample_mm\<lparr>vmas := [(0x12000, v')]\<rparr>) k' = Some (new, k'') \<and>
     bt_get 0x12000 (vmas new) = Some w \<and> bt_get 0x12000 (pages_tree w) = Some M \<and> M \<noteq> N \<and> mem k'' M = mem k' N"
proof -
  let ?s = "0xFFFFFFD880200000 :: nat"
  obtain k0 pt k v N pt' k' old where k: "mm_init_pages (\<lambda>_. 7) 0xFFFFFFD880200000 0xFFFFFFD880A00000 = Some k0"
    "PageTable_default k0 = Some (pt, k)" "fast_alloc_one_page_and_get v pt k 0x12000 = Some (N, v\<lparr>pages_tree := [(0x12000, N)]\<rparr>, pt', k')"
    and old: "old = (sample_mm\<lparr>vmas := [(0x12000, v\<lparr>pages_tree := [(0x12000, N)]\<rparr>)]\<rparr> :: unit MmStruct)"
    and ur: "user_regions old = [(0x12000, v\<lparr>pages_tree := [(0x12000, N)]\<rparr>)]"
    and ok: "pt_inv ?s 2048 pt' k'" "mm_inv old" "range_closed (vmas old) 0 USER_SPACE_END" "user_pages_ok ?s k' (pt_root pt') old"
    and c: "2044 \<le> card (free_set (buddy_allocator k'))" and N: "PAGE_SIZE dvd N" "block_words N 0 \<inter> footprint ?s k' (pt_root pt') = {}"
    by (rule sample_user_space)
  have "1 + 3 * length (all_pages (user_regions old)) \<le> card (free_set (buddy_allocator k'))" unfolding ur using c by simp
  then obtain new k'' where f: "new_mm_by_old pt' old k' = Some (new, k'')"
    "\<forall>(a, v) \<in> set (user_regions old). \<exists>w. bt_get a (vmas new) = Some w \<and>
       region_copied ?s k' (pt_root (mm_pagetable new)) v w k''"
    using fork_copies_pages[OF ok] by blast
  then obtain w where w: "bt_get 0x12000 (vmas new) = Some w"
    "region_copied ?s k' (pt_root (mm_pagetable new)) (v\<lparr>pages_tree := [(0x12000, N)]\<rparr>) w k''" unfolding ur by auto
  then obtain M where M: "bt_get 0x12000 (pages_tree w) = Some M" "M \<in> free_at ?s k'"
    "\<forall>u \<in> block_words M 0. mem k'' u = mem k' (N + (u - M))"
    by (auto simp: region_copied_def pages_copied_def page_copied_def)
  have self: "x \<in> block_words x 0" if "PAGE_SIZE dvd x" for x
    using page_mod_8[OF that, of 0] by (simp add: block_words_def PAGE_SIZE_def)
  have "M \<in> block_words M 0" using self free_at_page(1)[OF pt_invD(1-3)[OF ok(1)] M(2)] by blast
  moreover have "M \<noteq> N" using N(2) self[OF N(1)] M(2) by (auto simp: footprint_def)
  ultimately show ?thesis using k f(1) w(1) M unfolding old by fastforce
qed

end
