(* ===== verification/K_Stack.thy ===== *)
theory K_Stack
  imports K_Mm_Fork_Props
begin

text \<open>
  \<^verbatim>\<open>kernel/src/task/stack.rs\<close>, the trap frame of \<^verbatim>\<open>kernel/src/trap/mod.rs\<close> and the saved registers of
  \<^verbatim>\<open>kernel/src/task/task.rs\<close>.  A kernel stack is a block of eight pages with a magic number in its lowest
  word; a trap frame is written to its top when a task is made.
\<close>

unbundle bit_operations_syntax

section \<open>Registers\<close>

text \<open>The registers that \<^verbatim>\<open>switch_context.s\<close> saves and loads, in the order of the structure.\<close>

record TaskContext =
  ctx_ra :: u64
  ctx_sp :: u64
  ctx_s0 :: u64
  ctx_s1 :: u64
  ctx_s2 :: u64
  ctx_s3 :: u64
  ctx_s4 :: u64
  ctx_s5 :: u64
  ctx_s6 :: u64
  ctx_s7 :: u64
  ctx_s8 :: u64
  ctx_s9 :: u64
  ctx_s10 :: u64
  ctx_s11 :: u64
  ctx_sscratch :: u64
  ctx_sstatus :: u64

definition TaskContext_new :: TaskContext where
  "TaskContext_new =
     \<lparr>ctx_ra = 0, ctx_sp = 0, ctx_s0 = 0, ctx_s1 = 0, ctx_s2 = 0, ctx_s3 = 0, ctx_s4 = 0,
      ctx_s5 = 0, ctx_s6 = 0, ctx_s7 = 0, ctx_s8 = 0, ctx_s9 = 0, ctx_s10 = 0, ctx_s11 = 0,
      ctx_sscratch = 0, ctx_sstatus = 0\<rparr>"

text \<open>The registers of a task at a trap.\<close>

record TrapFrame =
  tf_sepc :: u64
  tf_x1 :: u64
  tf_x2 :: u64
  tf_x3 :: u64
  tf_x4 :: u64
  tf_x5 :: u64
  tf_x6 :: u64
  tf_x7 :: u64
  tf_x8 :: u64
  tf_x9 :: u64
  tf_x10 :: u64
  tf_x11 :: u64
  tf_x12 :: u64
  tf_x13 :: u64
  tf_x14 :: u64
  tf_x15 :: u64
  tf_x16 :: u64
  tf_x17 :: u64
  tf_x18 :: u64
  tf_x19 :: u64
  tf_x20 :: u64
  tf_x21 :: u64
  tf_x22 :: u64
  tf_x23 :: u64
  tf_x24 :: u64
  tf_x25 :: u64
  tf_x26 :: u64
  tf_x27 :: u64
  tf_x28 :: u64
  tf_x29 :: u64
  tf_x30 :: u64
  tf_x31 :: u64
  tf_scause :: u64
  tf_sscratch :: u64
  tf_sstatus :: u64

definition TrapFrame_new_empty :: TrapFrame where
  "TrapFrame_new_empty =
     \<lparr>tf_sepc = 0, tf_x1 = 0, tf_x2 = 0, tf_x3 = 0, tf_x4 = 0, tf_x5 = 0, tf_x6 = 0, tf_x7 = 0,
      tf_x8 = 0, tf_x9 = 0, tf_x10 = 0, tf_x11 = 0, tf_x12 = 0, tf_x13 = 0, tf_x14 = 0,
      tf_x15 = 0, tf_x16 = 0, tf_x17 = 0, tf_x18 = 0, tf_x19 = 0, tf_x20 = 0, tf_x21 = 0,
      tf_x22 = 0, tf_x23 = 0, tf_x24 = 0, tf_x25 = 0, tf_x26 = 0, tf_x27 = 0, tf_x28 = 0,
      tf_x29 = 0, tf_x30 = 0, tf_x31 = 0, tf_scause = 0, tf_sscratch = 0, tf_sstatus = 0\<rparr>"

text \<open>The structure as it is in memory: 35 words of 8 bytes, the lowest byte first.\<close>

definition tf_words :: "TrapFrame \<Rightarrow> u64 list" where
  "tf_words f =
     [tf_sepc f, tf_x1 f, tf_x2 f, tf_x3 f, tf_x4 f, tf_x5 f, tf_x6 f, tf_x7 f, tf_x8 f,
      tf_x9 f, tf_x10 f, tf_x11 f, tf_x12 f, tf_x13 f, tf_x14 f, tf_x15 f, tf_x16 f, tf_x17 f,
      tf_x18 f, tf_x19 f, tf_x20 f, tf_x21 f, tf_x22 f, tf_x23 f, tf_x24 f, tf_x25 f, tf_x26 f,
      tf_x27 f, tf_x28 f, tf_x29 f, tf_x30 f, tf_x31 f, tf_scause f, tf_sscratch f, tf_sstatus f]"

definition TRAPFRAME_SIZE :: usize where "TRAPFRAME_SIZE = 35 * 8"

definition word_bytes :: "u64 \<Rightarrow> u8 list" where
  "word_bytes w = map (\<lambda>j. ucast (drop_bit (8 * j) w)) [0..<8]"

text \<open>\<^verbatim>\<open>memcpy\<close> of a structure with these bytes to an address.\<close>

definition tf_write_to :: "TrapFrame \<Rightarrow> usize \<Rightarrow> Kern \<Rightarrow> Kern" where
  "tf_write_to f a k = k\<lparr>mem := mem_write (mem k) a (concat (map word_bytes (tf_words f)))\<rparr>"

text \<open>The structure that is at an address.\<close>

definition tf_at :: "(usize \<Rightarrow> u64) \<Rightarrow> usize \<Rightarrow> TrapFrame" where
  "tf_at m a =
     \<lparr>tf_sepc = m a, tf_x1 = m (a + 8), tf_x2 = m (a + 16), tf_x3 = m (a + 24),
      tf_x4 = m (a + 32), tf_x5 = m (a + 40), tf_x6 = m (a + 48), tf_x7 = m (a + 56),
      tf_x8 = m (a + 64), tf_x9 = m (a + 72), tf_x10 = m (a + 80), tf_x11 = m (a + 88),
      tf_x12 = m (a + 96), tf_x13 = m (a + 104), tf_x14 = m (a + 112), tf_x15 = m (a + 120),
      tf_x16 = m (a + 128), tf_x17 = m (a + 136), tf_x18 = m (a + 144), tf_x19 = m (a + 152),
      tf_x20 = m (a + 160), tf_x21 = m (a + 168), tf_x22 = m (a + 176), tf_x23 = m (a + 184),
      tf_x24 = m (a + 192), tf_x25 = m (a + 200), tf_x26 = m (a + 208), tf_x27 = m (a + 216),
      tf_x28 = m (a + 224), tf_x29 = m (a + 232), tf_x30 = m (a + 240), tf_x31 = m (a + 248),
      tf_scause = m (a + 256), tf_sscratch = m (a + 264), tf_sstatus = m (a + 272)\<rparr>"

section \<open>The first and the last page of a block\<close>

definition page_front :: "Kern \<Rightarrow> vaddr \<Rightarrow> vaddr run" where
  "page_front k v = do {
     p \<leftarrow> heap k v;
     _ \<leftarrow> rassert (is_leader_flag p);
     get_leader (heap k) p
   }"

text \<open>
  \<^verbatim>\<open>back\<close> holds the lock of the page while it looks at the friends; for a block of one page it then asks
  for the leader, which takes the same lock again and never gets it.
\<close>

definition page_back :: "Kern \<Rightarrow> vaddr \<Rightarrow> vaddr run" where
  "page_back k v = do {
     p \<leftarrow> heap k v;
     _ \<leftarrow> rassert (is_leader_flag p);
     (if friends p = [] then None
      else do { i \<leftarrow> usub (length (friends p)) 1; vec_get (friends p) i })
   }"

definition get_max_pos :: "Page \<Rightarrow> usize run" where
  "get_max_pos p = do { c \<leftarrow> get_block_page_cnt p; umul c PAGE_SIZE }"

definition write_single_off :: "Kern \<Rightarrow> vaddr \<Rightarrow> u64 \<Rightarrow> usize \<Rightarrow> (unit option \<times> Kern) run" where
  "write_single_off k v val off = do {
     p \<leftarrow> heap k v;
     m \<leftarrow> get_max_pos p;
     (if off < m
      then do {
        a \<leftarrow> uadd (pg_vaddr p) off;
        _ \<leftarrow> rassert (a mod 8 = 0);
        Some (Some (), k\<lparr>mem := (mem k)(a := val)\<rparr>)
      }
      else Some (None, k))
   }"

definition read_single_off :: "Kern \<Rightarrow> vaddr \<Rightarrow> usize \<Rightarrow> u64 option run" where
  "read_single_off k v off = do {
     p \<leftarrow> heap k v;
     m \<leftarrow> get_max_pos p;
     (if off < m
      then do {
        a \<leftarrow> uadd (pg_vaddr p) off;
        _ \<leftarrow> rassert (a mod 8 = 0);
        Some (Some (mem k a))
      }
      else Some None)
   }"

section \<open>Kernel stacks\<close>

definition KERNEL_STACK_SIZE_ORDER :: usize where "KERNEL_STACK_SIZE_ORDER = 3"
definition STACK_MAGIC :: u64 where "STACK_MAGIC = 0xABCD1122ABCD1122"

record Stack =
  st_start :: usize
  st_end :: usize
  st_pages :: "vaddr option"

definition Stack_new :: "bool \<Rightarrow> usize \<Rightarrow> usize \<Rightarrow> Kern \<Rightarrow> (Stack \<times> Kern) run" where
  "Stack_new is_boot_task s e k =
     (if is_boot_task then Some (\<lparr>st_start = s, st_end = e, st_pages = None\<rparr>, k)
      else do {
        (r, k) \<leftarrow> alloc_pages k KERNEL_STACK_SIZE_ORDER;
        p \<leftarrow> r;
        f \<leftarrow> page_front k p;
        (_, k) \<leftarrow> write_single_off k f STACK_MAGIC 0;
        Some (\<lparr>st_start = s, st_end = e, st_pages = Some p\<rparr>, k)
      })"

definition check_magic :: "Kern \<Rightarrow> Stack \<Rightarrow> bool run" where
  "check_magic k st =
     (case st_pages st of
        None \<Rightarrow> do { _ \<leftarrow> rassert (st_start st mod 8 = 0); Some (mem k (st_start st) = STACK_MAGIC) }
      | Some p \<Rightarrow> do {
          f \<leftarrow> page_front k p;
          r \<leftarrow> read_single_off k f 0;
          magic \<leftarrow> r;
          Some (magic = STACK_MAGIC)
        })"

definition get_start :: "Kern \<Rightarrow> Stack \<Rightarrow> usize run" where
  "get_start k st =
     (case st_pages st of
        None \<Rightarrow> Some (st_start st)
      | Some p \<Rightarrow> do { f \<leftarrow> page_front k p; q \<leftarrow> heap k f; Some (pg_vaddr q) })"

definition get_end :: "Kern \<Rightarrow> Stack \<Rightarrow> usize run" where
  "get_end k st =
     (case st_pages st of
        None \<Rightarrow> Some (st_end st)
      | Some p \<Rightarrow> do { b \<leftarrow> page_back k p; q \<leftarrow> heap k b; uadd (pg_vaddr q) PAGE_SIZE })"

text \<open>The address of the trap frame at the top of the stack.\<close>

definition kstack_top :: "Kern \<Rightarrow> Stack \<Rightarrow> usize run" where
  "kstack_top k st = do { e \<leftarrow> get_end k st; usub e TRAPFRAME_SIZE }"

section \<open>Structures in memory\<close>

lemma length_word_bytes [simp]: "length (word_bytes w) = 8"
  by (simp add: word_bytes_def)

lemma word_eq_bytes:
  fixes v w :: u64
  assumes "\<forall>j < 8. (ucast (drop_bit (8 * j) v) :: u8) = ucast (drop_bit (8 * j) w)"
  shows "v = w"
proof (rule bit_word_eqI)
  fix n assume "n < LENGTH(64)"
  then have "n div 8 < 8" by simp
  with assms have "bit (ucast (drop_bit (8 * (n div 8)) v) :: u8) (n mod 8) =
      bit (ucast (drop_bit (8 * (n div 8)) w) :: u8) (n mod 8)" by metis
  then show "bit v n = bit w n" by (simp add: bit_simps)
qed

lemma mem_write_append: "mem_write m a (xs @ ys) = mem_write (mem_write m a xs) (a + length xs) ys"
  by (induction m a xs rule: mem_write.induct) (simp_all add: add.assoc)

lemma mem_write_word:
  assumes a: "a mod 8 = 0"
  shows "mem_write m a (word_bytes w) = m(a := w)"
proof
  fix x
  obtain c where c: "a = 8 * c" using a by auto
  have cell: "y - y mod 8 = a" if "a \<le> y" "y < a + 8" for y
  proof -
    have "y div 8 = c" using that unfolding c by linarith
    then show ?thesis by (simp add: minus_mod_eq_mult_div c)
  qed
  show "mem_write m a (word_bytes w) x = (m(a := w)) x"
  proof (cases "x = a")
    case True
    have "(ucast (drop_bit (8 * j) (mem_write m a (word_bytes w) a)) :: u8) = ucast (drop_bit (8 * j) w)" if "j < 8" for j
    proof -
      have "(a + j) mod 8 = j" using that by (simp add: c)
      moreover have "mem_get_byte (mem_write m a (word_bytes w)) (a + j) = word_bytes w ! j"
        using that by (simp add: mem_get_write)
      ultimately show ?thesis using that cell[of "a + j"] by (simp add: mem_get_byte_def word_bytes_def)
    qed
    then show ?thesis using True word_eq_bytes by fastforce
  next
    case False
    then show ?thesis using cell by (subst mem_write_outside) auto
  qed
qed

lemma mem_write_words:
  "a mod 8 = 0 \<Longrightarrow> mem_write m a (concat (map word_bytes ws)) =
     (\<lambda>x. if a \<le> x \<and> x < a + 8 * length ws \<and> x mod 8 = 0 then ws ! ((x - a) div 8) else m x)"
proof (induction ws arbitrary: a m)
  case (Cons w ws)
  have IH: "mem_write (m(a := w)) (a + 8) (concat (map word_bytes ws)) =
     (\<lambda>x. if a + 8 \<le> x \<and> x < a + 8 + 8 * length ws \<and> x mod 8 = 0 then ws ! ((x - (a + 8)) div 8) else (m(a := w)) x)"
    using Cons by simp
  have sub: "(x - a) div 8 = Suc ((x - (a + 8)) div 8)" "a + 8 \<le> x" if le: "a \<le> x" "x \<noteq> a" and x8: "x mod 8 = 0" for x
  proof -
    obtain c d where "a = 8 * c" "x = 8 * d" using x8 Cons.prems by (auto elim!: dvdE)
    then show "a + 8 \<le> x" using le by simp
    then show "(x - a) div 8 = Suc ((x - (a + 8)) div 8)" by (simp add: div_if)
  qed
  have "mem_write m a (concat (map word_bytes (w # ws))) = mem_write (m(a := w)) (a + 8) (concat (map word_bytes ws))"
    by (simp add: mem_write_append mem_write_word[OF Cons.prems])
  then show ?case using IH sub Cons.prems by (auto simp: fun_eq_iff)
qed (auto simp: fun_eq_iff)

lemma length_tf_words [simp]: "length (tf_words f) = 35"
  by (simp add: tf_words_def)

text \<open>A trap frame that is written is what is then found at its address; nothing else is written.\<close>

lemma tf_write_to_frame:
  assumes "a mod 8 = 0" "x < a \<or> a + TRAPFRAME_SIZE \<le> x"
  shows "mem (tf_write_to f a k) x = mem k x"
  using assms by (auto simp: tf_write_to_def mem_write_words TRAPFRAME_SIZE_def)

lemma tf_at_write_to: "a mod 8 = 0 \<Longrightarrow> tf_at (mem (tf_write_to f a k)) a = f"
proof -
  assume a: "a mod 8 = 0"
  have "mem (tf_write_to f a k) (a + 8 * i) = tf_words f ! i" if "i < 35" for i
    using a that by (simp add: tf_write_to_def mem_write_words)
  note w = this[of 0] this[of 1] this[of 2] this[of 3] this[of 4] this[of 5] this[of 6] this[of 7]
    this[of 8] this[of 9] this[of 10] this[of 11] this[of 12] this[of 13] this[of 14] this[of 15]
    this[of 16] this[of 17] this[of 18] this[of 19] this[of 20] this[of 21] this[of 22] this[of 23]
    this[of 24] this[of 25] this[of 26] this[of 27] this[of 28] this[of 29] this[of 30] this[of 31]
    this[of 32] this[of 33] this[of 34]
  show ?thesis using w unfolding tf_at_def tf_words_def by simp
qed

section \<open>A new stack\<close>

lemma alloc_pages_new:
  assumes inv: "kern_inv s n k" and al: "alloc_area (buddy_allocator k) ord = Some (Inr v, b)" and ord: "ord < MAX_ORDER"
  shows "\<exists>k'. alloc_pages k ord = Some (Some v, k') \<and> kern_inv s n k' \<and> buddy_allocator k' = b \<and>
    blocks k' = insert (v, ord) (blocks k) \<and>
    mem k' = (\<lambda>a. if a \<in> block_words v ord then 0 else mem k a) \<and>
    heap k' v = Some (Page_new v True\<lparr>pg_order := ord, friends := friend_addrs v (2 ^ ord)\<rparr>)"
proof -
  obtain k' where k': "alloc_pages k ord = Some (Some v, k')" "kern_inv s n k'" "buddy_allocator k' = b"
    "blocks k' = insert (v, ord) (blocks k)" "mem k' = (\<lambda>a. if a \<in> block_words v ord then 0 else mem k a)"
    using alloc_pages_some[OF inv al ord] by blast
  from buddy.take_ok[OF buddy.ownedD(1)[OF kern_invD(1)[OF inv]], of ord] al
  have v: "blk_valid s n v ord" "pages_of s v ord \<subseteq> free_set (buddy_allocator k)" by auto
  have "heap k' = heap_upd (heap k) v ord (2 ^ ord)"
    using k'(1) al ord new_pages_block_ok[OF inv v, of b]
    by (auto simp: alloc_pages_def clear_pages_block_def bind_eq_Some_conv)
  then show ?thesis using k' by (simp add: heap_upd_def)
qed

text \<open>
  A new kernel stack: eight pages the allocator had free, all zero but the magic number in the lowest
  word.
\<close>

lemma Stack_new_ok:
  assumes inv: "kern_inv s n k" and s: "PAGE_SIZE dvd s"
    and al: "alloc_area (buddy_allocator k) KERNEL_STACK_SIZE_ORDER = Some (Inr v, b)"
  shows "\<exists>k'. Stack_new False st_a st_b k = Some (\<lparr>st_start = st_a, st_end = st_b, st_pages = Some v\<rparr>, k') \<and>
    kern_inv s n k' \<and> buddy_allocator k' = b \<and> blocks k' = insert (v, KERNEL_STACK_SIZE_ORDER) (blocks k) \<and>
    mem k' = (\<lambda>a. if a = v then STACK_MAGIC else if a \<in> block_words v KERNEL_STACK_SIZE_ORDER then 0 else mem k a) \<and>
    heap k' v = Some (Page_new v True\<lparr>pg_order := KERNEL_STACK_SIZE_ORDER, friends := friend_addrs v 8\<rparr>) \<and>
    PAGE_SIZE dvd v \<and> v + 8 * PAGE_SIZE < 2 ^ 64"
proof -
  let ?o = "KERNEL_STACK_SIZE_ORDER"
  have o8: "2 ^ ?o = (8 :: nat)" by (simp add: KERNEL_STACK_SIZE_ORDER_def)
  obtain k1 where k1: "alloc_pages k ?o = Some (Some v, k1)" "kern_inv s n k1" "buddy_allocator k1 = b"
    "blocks k1 = insert (v, ?o) (blocks k)" "mem k1 = (\<lambda>a. if a \<in> block_words v ?o then 0 else mem k a)"
    "heap k1 v = Some (Page_new v True\<lparr>pg_order := ?o, friends := friend_addrs v 8\<rparr>)"
    using alloc_pages_new[OF inv al] by (auto simp: KERNEL_STACK_SIZE_ORDER_def MAX_ORDER_def)
  have "blk_valid s n v ?o" using buddy.ownedD(2)[OF kern_invD(1)[OF k1(2)]] k1(4) by auto
  note V = blk_valid_page(2)[OF this, of 0] and le = this[unfolded blk_valid_def]
  have "PAGE_SIZE * (blk_of s v ?o * 8 + 8) \<le> PAGE_SIZE * n"
    using le by (intro mult_le_mono2) (simp add: o8 algebra_simps)
  then have v64: "v + 8 * PAGE_SIZE < 2 ^ 64"
    using V kern_inv_mem_ok[OF inv] by (simp add: o8 algebra_simps)
  have V': "v = s + PAGE_SIZE * (blk_of s v ?o * 2 ^ ?o)" using V by simp
  have dvd: "PAGE_SIZE dvd v" by (subst V') (simp add: s)
  then have v8: "v mod 8 = 0" using page_mod_8[of v 0] by simp
  have front: "page_front k1 v = Some v" by (simp add: page_front_def k1(6) Page_new_def get_leader_def rust_ops)
  have cnt: "get_max_pos (Page_new v True\<lparr>pg_order := ?o, friends := friend_addrs v 8\<rparr>) = Some (8 * PAGE_SIZE)"
    by (simp add: get_max_pos_def get_block_page_cnt_def Page_new_def friend_addrs_def rust_ops uadd_def umul_def PAGE_SIZE_def)
  have "Stack_new False st_a st_b k = Some (\<lparr>st_start = st_a, st_end = st_b, st_pages = Some v\<rparr>, k1\<lparr>mem := (mem k1)(v := STACK_MAGIC)\<rparr>)"
    using k1(1) front v8 v64 cnt
    by (simp add: Stack_new_def write_single_off_def k1(6) Page_new_def rust_ops uadd_def PAGE_SIZE_def)
  then show ?thesis
    using k1(2-6) v64 dvd by (auto simp: fun_eq_iff blocks_def)
qed

text \<open>Where such a stack begins and ends, and that its magic number is found.\<close>

lemma stack_bounds:
  assumes "heap k v = Some (Page_new v True\<lparr>pg_order := 3, friends := friend_addrs v 8\<rparr>)" "kern_inv s n k"
    "st_pages st = Some v" "v + 8 * PAGE_SIZE < 2 ^ 64"
  shows "get_start k st = Some v" "get_end k st = Some (v + 8 * PAGE_SIZE)"
    "kstack_top k st = Some (v + 8 * PAGE_SIZE - TRAPFRAME_SIZE)"
    "PAGE_SIZE dvd v \<Longrightarrow> check_magic k st = Some (mem k v = STACK_MAGIC)"
proof -
  let ?p = "Page_new v True\<lparr>pg_order := 3, friends := friend_addrs v 8\<rparr>"
  have front: "page_front k v = Some v" by (simp add: page_front_def assms(1) Page_new_def get_leader_def rust_ops)
  then show "get_start k st = Some v" by (simp add: get_start_def assms(1,3) Page_new_def)
  have bk: "page_back k v = Some (v + PAGE_SIZE * 7)"
    by (simp add: page_back_def assms(1) Page_new_def friend_addrs_def rust_ops vec_get_def usub_def)
  have "(v, 3) \<in> blocks k" using assms(1) by (auto simp: blocks_def Page_new_def)
  then have "heap k (v + PAGE_SIZE * 7) \<noteq> None"
    using kern_invD(6)[OF assms(2), of v 3 "v + PAGE_SIZE * 7"] by (fastforce simp: friend_addrs_set)
  then obtain q where q: "heap k (v + PAGE_SIZE * 7) = Some q" by auto
  then have "pg_vaddr q = v + PAGE_SIZE * 7" using kern_invD(5)[OF assms(2) q] by (simp add: page_ok_def)
  then show e: "get_end k st = Some (v + 8 * PAGE_SIZE)"
    using assms(3,4) bk q by (simp add: get_end_def uadd_def PAGE_SIZE_def)
  show "kstack_top k st = Some (v + 8 * PAGE_SIZE - TRAPFRAME_SIZE)"
    using e by (simp add: kstack_top_def usub_def TRAPFRAME_SIZE_def PAGE_SIZE_def)
  assume "PAGE_SIZE dvd v"
  then have v8: "v mod 8 = 0" using page_mod_8[of v 0] by simp
  have cnt: "get_max_pos ?p = Some (8 * PAGE_SIZE)"
    by (simp add: get_max_pos_def get_block_page_cnt_def Page_new_def friend_addrs_def rust_ops uadd_def umul_def PAGE_SIZE_def)
  show "check_magic k st = Some (mem k v = STACK_MAGIC)"
    using front v8 cnt assms(4)
    by (simp add: check_magic_def assms(1,3) read_single_off_def Page_new_def rust_ops uadd_def PAGE_SIZE_def)
qed

end
