(* ===== verification/K_Pipe.thy ===== *)
theory K_Pipe
  imports K_Rust
begin

text \<open>
  \<^verbatim>\<open>kernel/src/fs/pipe.rs\<close>: the ring buffer of a pipe and the reading and writing of pipes.  The
  ring buffer is shown to be a bounded queue of bytes.  The loops of \<^verbatim>\<open>read_exact\<close> and
  \<^verbatim>\<open>write_exact\<close> give up the lock between rounds, so what the other tasks do to the pipe before
  each round is a parameter of their model.
\<close>

section \<open>Ring buffer\<close>

definition RING_BUFFER_SIZE :: usize where "RING_BUFFER_SIZE = 1024"

datatype RingBufferStatus = FULL | EMPTY | NORMAL

record PipeRingBuffer =
  rb_arr :: "u8 list"
  rb_head :: usize
  rb_tail :: usize
  rb_status :: RingBufferStatus
  rb_count :: usize

definition rb_new :: PipeRingBuffer where
  "rb_new = \<lparr>rb_arr = replicate RING_BUFFER_SIZE 0, rb_head = 0, rb_tail = 0, rb_status = EMPTY,
     rb_count = 0\<rparr>"

definition write_byte :: "PipeRingBuffer \<Rightarrow> u8 \<Rightarrow> PipeRingBuffer run" where
  "write_byte rb byte = do {
     let rb = rb\<lparr>rb_status := NORMAL\<rparr>;
     arr \<leftarrow> vec_set (rb_arr rb) (rb_tail rb) byte;
     let rb = rb\<lparr>rb_arr := arr\<rparr>;
     t \<leftarrow> uadd (rb_tail rb) 1;
     let rb = rb\<lparr>rb_tail := t mod RING_BUFFER_SIZE\<rparr>;
     Some (if rb_tail rb = rb_head rb then rb\<lparr>rb_status := FULL\<rparr> else rb)
   }"

definition read_byte :: "PipeRingBuffer \<Rightarrow> (u8 \<times> PipeRingBuffer) run" where
  "read_byte rb = do {
     let rb = rb\<lparr>rb_status := NORMAL\<rparr>;
     c \<leftarrow> vec_get (rb_arr rb) (rb_head rb);
     h \<leftarrow> uadd (rb_head rb) 1;
     let rb = rb\<lparr>rb_head := h mod RING_BUFFER_SIZE\<rparr>;
     Some (c, if rb_head rb = rb_tail rb then rb\<lparr>rb_status := EMPTY\<rparr> else rb)
   }"

definition available_read :: "PipeRingBuffer \<Rightarrow> usize run" where
  "available_read rb =
     (if rb_status rb = EMPTY then Some 0
      else if rb_tail rb > rb_head rb then usub (rb_tail rb) (rb_head rb)
      else do { t \<leftarrow> uadd (rb_tail rb) RING_BUFFER_SIZE; usub t (rb_head rb) })"

definition available_write :: "PipeRingBuffer \<Rightarrow> usize run" where
  "available_write rb =
     (if rb_status rb = FULL then Some 0
      else do { r \<leftarrow> available_read rb; usub RING_BUFFER_SIZE r })"

fun read_loop :: "usize list \<Rightarrow> PipeRingBuffer \<Rightarrow> u8 list \<Rightarrow> (PipeRingBuffer \<times> u8 list) run" where
  "read_loop [] rb buf = Some (rb, buf)"
| "read_loop (i # is) rb buf = do {
     (c, rb) \<leftarrow> read_byte rb;
     buf \<leftarrow> vec_set buf i c;
     read_loop is rb buf
   }"

definition rb_read :: "PipeRingBuffer \<Rightarrow> u8 list \<Rightarrow> (usize \<times> PipeRingBuffer \<times> u8 list) run" where
  "rb_read rb buf = do {
     can_read \<leftarrow> available_read rb;
     (if can_read = 0 then Some (0, rb, buf)
      else do {
        let can_read = min can_read (length buf);
        (rb, buf) \<leftarrow> read_loop [0..<can_read] rb buf;
        Some (can_read, rb, buf)
      })
   }"

fun write_loop :: "usize list \<Rightarrow> PipeRingBuffer \<Rightarrow> u8 list \<Rightarrow> PipeRingBuffer run" where
  "write_loop [] rb buf = Some rb"
| "write_loop (i # is) rb buf = do {
     c \<leftarrow> vec_get buf i;
     rb \<leftarrow> write_byte rb c;
     write_loop is rb buf
   }"

definition rb_write :: "PipeRingBuffer \<Rightarrow> u8 list \<Rightarrow> (usize \<times> PipeRingBuffer) run" where
  "rb_write rb buf = do {
     can_write \<leftarrow> available_write rb;
     (if can_write = 0 then Some (0, rb)
      else do {
        let can_write = min can_write (length buf);
        rb \<leftarrow> write_loop [0..<can_write] rb buf;
        Some (can_write, rb)
      })
   }"

section \<open>Pipe\<close>

text \<open>
  The counter of writers is an atomic byte, whose increments and decrements wrap.  Sleeping puts
  the running task \<open>me\<close> on a wait list; waking up moves all of a wait list to the run queue.
\<close>

type_synonym task = nat

record Pipe =
  p_buffer :: PipeRingBuffer
  p_write_cnt :: u8
  p_wait_write :: "task list"
  p_wait_read :: "task list"
  p_runq :: "task list"

definition pipe_new :: "task list \<Rightarrow> Pipe" where
  "pipe_new runq = \<lparr>p_buffer = rb_new, p_write_cnt = 0, p_wait_write = [], p_wait_read = [], p_runq = runq\<rparr>"

definition have_writer :: "Pipe \<Rightarrow> bool" where
  "have_writer p \<longleftrightarrow> p_write_cnt p \<noteq> 0"

definition inc_write :: "Pipe \<Rightarrow> Pipe" where
  "inc_write p = p\<lparr>p_write_cnt := p_write_cnt p + 1\<rparr>"

definition wake_up_write :: "Pipe \<Rightarrow> Pipe" where
  "wake_up_write p = p\<lparr>p_runq := p_runq p @ p_wait_write p, p_wait_write := []\<rparr>"

definition wake_up_read :: "Pipe \<Rightarrow> Pipe" where
  "wake_up_read p = p\<lparr>p_runq := p_runq p @ p_wait_read p, p_wait_read := []\<rparr>"

definition dec_write :: "Pipe \<Rightarrow> Pipe" where
  "dec_write p = (let p' = p\<lparr>p_write_cnt := p_write_cnt p - 1\<rparr>
     in if p_write_cnt p = 1 then wake_up_read p' else p')"

text \<open>
  What \<^verbatim>\<open>sleep_wait_write\<close> and \<^verbatim>\<open>sleep_wait_read\<close> do to the pipe: the scheduler, called with the wait list, puts the task
  that goes to sleep at its end.  The whole calls, with the status of the task, the run queue and the switch
  to another task, are \<open>sleep_wait\<close> of \<open>K_Task\<close>.
\<close>

definition push_wait_write :: "task \<Rightarrow> Pipe \<Rightarrow> Pipe" where
  "push_wait_write me p = p\<lparr>p_wait_write := p_wait_write p @ [me]\<rparr>"

definition push_wait_read :: "task \<Rightarrow> Pipe \<Rightarrow> Pipe" where
  "push_wait_read me p = p\<lparr>p_wait_read := p_wait_read p @ [me]\<rparr>"

text \<open>
  A call is still running when the schedule \<open>envs\<close> ends, with the pipe as it is then; each element
  of the schedule is what the other tasks do to the pipe before the caller takes the lock again.
\<close>

datatype 'a outcome = Running Pipe | Panicked | Returned 'a

definition read_end :: "Pipe \<Rightarrow> u8 list \<Rightarrow> usize \<Rightarrow> (usize \<times> u8 list \<times> Pipe) outcome" where
  "read_end p buf buf_pos =
     (if buf_pos = length buf then Returned (buf_pos, buf, wake_up_write p) else Panicked)"

primrec read_rounds ::
    "(Pipe \<Rightarrow> Pipe) list \<Rightarrow> task \<Rightarrow> Pipe \<Rightarrow> u8 list \<Rightarrow> usize \<Rightarrow> (usize \<times> u8 list \<times> Pipe) outcome" where
  "read_rounds [] me p buf buf_pos = (if buf_pos < length buf then Running p else read_end p buf buf_pos)"
| "read_rounds (env # envs) me p buf buf_pos =
     (if buf_pos < length buf
      then (let p = env p
            in case rb_read (p_buffer p) buf of
                 None \<Rightarrow> Panicked
               | Some (read_once, rb, buf) \<Rightarrow>
                   (let p = p\<lparr>p_buffer := rb\<rparr>
                    in if read_once = 0
                       then (if have_writer p
                             then read_rounds envs me (push_wait_read me p) buf buf_pos
                             else Returned (buf_pos, buf, p))
                       else read_rounds envs me p buf (buf_pos + read_once)))
      else read_end p buf buf_pos)"

definition read_exact ::
    "(Pipe \<Rightarrow> Pipe) list \<Rightarrow> task \<Rightarrow> Pipe \<Rightarrow> u8 list \<Rightarrow> (usize \<times> u8 list \<times> Pipe) outcome" where
  "read_exact envs me p buf = read_rounds envs me p buf 0"

definition write_end :: "Pipe \<Rightarrow> u8 list \<Rightarrow> usize \<Rightarrow> (usize \<times> Pipe) outcome" where
  "write_end p buf buf_pos =
     (if buf_pos = length buf then Returned (buf_pos, wake_up_read p) else Panicked)"

primrec write_rounds ::
    "(Pipe \<Rightarrow> Pipe) list \<Rightarrow> task \<Rightarrow> Pipe \<Rightarrow> u8 list \<Rightarrow> usize \<Rightarrow> (usize \<times> Pipe) outcome" where
  "write_rounds [] me p buf buf_pos = (if buf_pos < length buf then Running p else write_end p buf buf_pos)"
| "write_rounds (env # envs) me p buf buf_pos =
     (if buf_pos < length buf
      then (let p = env p
            in case rb_write (p_buffer p) buf of
                 None \<Rightarrow> Panicked
               | Some (write_once, rb) \<Rightarrow>
                   (let p = p\<lparr>p_buffer := rb\<rparr>
                    in if write_once = 0
                       then write_rounds envs me (push_wait_write me p) buf buf_pos
                       else write_rounds envs me p buf (buf_pos + write_once)))
      else write_end p buf buf_pos)"

definition write_exact ::
    "(Pipe \<Rightarrow> Pipe) list \<Rightarrow> task \<Rightarrow> Pipe \<Rightarrow> u8 list \<Rightarrow> (usize \<times> Pipe) outcome" where
  "write_exact envs me p buf = write_rounds envs me p buf 0"

section \<open>The ring buffer is a bounded queue\<close>

text \<open>The contract: reading and writing move as many bytes as the queue and its room allow.\<close>

locale byte_queue =
  fixes ok :: "'q \<Rightarrow> bool" and content :: "'q \<Rightarrow> u8 list" and cap :: nat
    and rd :: "'q \<Rightarrow> u8 list \<Rightarrow> (usize \<times> 'q \<times> u8 list) run" and wr :: "'q \<Rightarrow> u8 list \<Rightarrow> (usize \<times> 'q) run"
  assumes bounded: "ok q \<Longrightarrow> length (content q) \<le> cap"
    and rd_ok: "ok q \<Longrightarrow> let n = min (length (content q)) (length buf) in
      \<exists>q'. rd q buf = Some (n, q', take n (content q) @ drop n buf) \<and> ok q' \<and> content q' = drop n (content q)"
    and wr_ok: "ok q \<Longrightarrow> let n = min (cap - length (content q)) (length buf) in
      \<exists>q'. wr q buf = Some (n, q') \<and> ok q' \<and> content q' = content q @ take n buf"
begin

text \<open>What is written into an empty queue with room for it is what is read back.\<close>

lemma round_trip:
  assumes "ok q" "content q = []" "length data \<le> cap"
  shows "\<exists>q1 q2. wr q data = Some (length data, q1) \<and>
    rd q1 (replicate (length data) 0) = Some (length data, q2, data) \<and> ok q2 \<and> content q2 = []"
proof -
  obtain q1 where q1: "wr q data = Some (length data, q1)" "ok q1" "content q1 = data"
    using wr_ok[OF assms(1), of data] assms(2,3) by (auto simp: Let_def)
  then show ?thesis using rd_ok[OF q1(2), of "replicate (length data) 0"] by (auto simp: Let_def)
qed

end

definition rb_content :: "PipeRingBuffer \<Rightarrow> nat \<Rightarrow> u8 list" where
  "rb_content rb c = map (\<lambda>i. rb_arr rb ! ((rb_head rb + i) mod RING_BUFFER_SIZE)) [0..<c]"

definition rb_inv :: "PipeRingBuffer \<Rightarrow> nat \<Rightarrow> bool" where
  "rb_inv rb c \<longleftrightarrow> length (rb_arr rb) = RING_BUFFER_SIZE \<and> rb_head rb < RING_BUFFER_SIZE \<and>
     c \<le> RING_BUFFER_SIZE \<and> rb_tail rb = (rb_head rb + c) mod RING_BUFFER_SIZE \<and>
     rb_status rb = (if c = 0 then EMPTY else if c = RING_BUFFER_SIZE then FULL else NORMAL)"

lemma mod_add_cases:
  "h < N \<Longrightarrow> c \<le> N \<Longrightarrow> (h + c) mod N = (if h + c < N then h + c else h + c - N)" for h c N :: nat
  by (auto simp: mod_if)

lemma available_read_eq: "rb_inv rb c \<Longrightarrow> available_read rb = Some c"
  by (auto simp: available_read_def rb_inv_def mod_add_cases usub_def uadd_def RING_BUFFER_SIZE_def
      split: if_splits)

lemma available_write_eq: "rb_inv rb c \<Longrightarrow> available_write rb = Some (RING_BUFFER_SIZE - c)"
  using available_read_eq[of rb c]
  by (auto simp: available_write_def rb_inv_def usub_def split: if_splits)

lemma slot_inj:
  "h < N \<Longrightarrow> i < N \<Longrightarrow> j < N \<Longrightarrow> (h + i) mod N = (h + j) mod N \<longleftrightarrow> i = j" for h i j N :: nat
  by (auto simp: mod_add_cases split: if_splits)

lemma wraps_to_head:
  "h < N \<Longrightarrow> 0 < c \<Longrightarrow> c \<le> N \<Longrightarrow> (h + c) mod N = h \<longleftrightarrow> c = N" for h c N :: nat
  by (auto simp: mod_add_cases)

lemma write_byte_ok:
  assumes "rb_inv rb c" "c < RING_BUFFER_SIZE"
  shows "\<exists>rb'. write_byte rb b = Some rb' \<and> rb_inv rb' (c + 1) \<and>
    rb_content rb' (c + 1) = rb_content rb c @ [b]"
proof -
  note inv = assms(1)[unfolded rb_inv_def]
  let ?t = "rb_tail rb" and ?t' = "(rb_tail rb + 1) mod RING_BUFFER_SIZE"
  define rb1 where "rb1 = rb\<lparr>rb_status := NORMAL, rb_arr := (rb_arr rb)[?t := b], rb_tail := ?t'\<rparr>"
  define rb' where "rb' = (if c + 1 = RING_BUFFER_SIZE then rb1\<lparr>rb_status := FULL\<rparr> else rb1)"
  have t': "?t' = (rb_head rb + (c + 1)) mod RING_BUFFER_SIZE" using inv by (simp add: mod_Suc_eq)
  have "?t < RING_BUFFER_SIZE" using inv by (simp add: RING_BUFFER_SIZE_def)
  moreover have "?t' = rb_head rb \<longleftrightarrow> c + 1 = RING_BUFFER_SIZE"
    unfolding t' using inv assms(2) by (intro wraps_to_head) auto
  ultimately have "write_byte rb b = Some rb'"
    using inv by (simp add: write_byte_def vec_set_def uadd_def rb'_def rb1_def Let_def)
      (simp add: RING_BUFFER_SIZE_def)
  moreover have "rb_inv rb' (c + 1)" using inv assms(2) t' by (simp add: rb_inv_def rb'_def rb1_def)
  moreover have "rb_content rb' (c + 1) = rb_content rb c @ [b]"
  proof (rule nth_equalityI)
    fix i assume "i < length (rb_content rb' (c + 1))"
    then have "i < c + 1" by (simp add: rb_content_def)
    then show "rb_content rb' (c + 1) ! i = (rb_content rb c @ [b]) ! i"
      using inv assms(2) \<open>?t < RING_BUFFER_SIZE\<close>
      by (auto simp: rb_content_def rb'_def rb1_def nth_append nth_list_update slot_inj less_Suc_eq
          simp del: upt_Suc)
  qed (simp add: rb_content_def)
  ultimately show ?thesis by blast
qed

lemma read_byte_ok:
  assumes "rb_inv rb c" "0 < c"
  shows "\<exists>rb'. read_byte rb = Some (hd (rb_content rb c), rb') \<and> rb_inv rb' (c - 1) \<and>
    rb_content rb' (c - 1) = tl (rb_content rb c)"
proof -
  note inv = assms(1)[unfolded rb_inv_def]
  let ?h' = "(rb_head rb + 1) mod RING_BUFFER_SIZE"
  define rb1 where "rb1 = rb\<lparr>rb_status := NORMAL, rb_head := ?h'\<rparr>"
  define rb' where "rb' = (if c - 1 = 0 then rb1\<lparr>rb_status := EMPTY\<rparr> else rb1)"
  have shift: "(?h' + i) mod RING_BUFFER_SIZE = (rb_head rb + (i + 1)) mod RING_BUFFER_SIZE" for i
    using mod_add_left_eq[of "rb_head rb + 1" RING_BUFFER_SIZE i] by (simp add: add.assoc add.commute[of 1])
  have h': "?h' < RING_BUFFER_SIZE" by (simp add: RING_BUFFER_SIZE_def)
  have "c - 1 + 1 = c" using assms(2) by simp
  then have tail: "rb_tail rb = (?h' + (c - 1)) mod RING_BUFFER_SIZE"
    using shift[of "c - 1"] inv by metis
  then have "?h' = rb_tail rb \<longleftrightarrow> c - 1 = 0"
    using slot_inj[OF h', of 0 "c - 1"] inv assms(2) h' by (auto simp: RING_BUFFER_SIZE_def)
  then have "read_byte rb = Some (rb_arr rb ! rb_head rb, rb')"
    using inv by (simp add: read_byte_def vec_get_def uadd_def rb'_def rb1_def Let_def)
      (simp add: RING_BUFFER_SIZE_def)
  moreover have "hd (rb_content rb c) = rb_arr rb ! rb_head rb"
    using inv assms(2) by (simp add: rb_content_def hd_map)
  moreover have "rb_inv rb' (c - 1)" using inv assms(2) tail h' by (auto simp: rb_inv_def rb'_def rb1_def)
  moreover have "rb_content rb' (c - 1) = tl (rb_content rb c)"
    using shift by (intro nth_equalityI) (auto simp: rb_content_def rb'_def rb1_def nth_tl)
  ultimately show ?thesis by auto
qed

text \<open>The loops, which move a block of bytes.\<close>

lemma read_loop_ok:
  "rb_inv rb c \<Longrightarrow> n \<le> c \<Longrightarrow> i + n \<le> length buf \<Longrightarrow>
   \<exists>rb'. read_loop [i..<i + n] rb buf =
       Some (rb', take i buf @ take n (rb_content rb c) @ drop (i + n) buf) \<and>
     rb_inv rb' (c - n) \<and> rb_content rb' (c - n) = drop n (rb_content rb c)"
proof (induction n arbitrary: rb c i buf)
  case (Suc n)
  let ?q = "rb_content rb c"
  have len: "length ?q = c" by (simp add: rb_content_def)
  obtain rb1 where rb1: "read_byte rb = Some (hd ?q, rb1)" "rb_inv rb1 (c - 1)"
    "rb_content rb1 (c - 1) = tl ?q"
    using read_byte_ok[OF Suc.prems(1)] Suc.prems(2) by auto
  have "n \<le> c - 1" "i + 1 + n \<le> length (buf[i := hd ?q])" using Suc.prems by auto
  from Suc.IH[OF rb1(2) this, unfolded rb1(3)] obtain rb2 where
    rb2: "read_loop [i + 1..<i + 1 + n] rb1 (buf[i := hd ?q]) =
        Some (rb2, take (i + 1) (buf[i := hd ?q]) @ take n (tl ?q) @ drop (i + 1 + n) (buf[i := hd ?q]))"
      "rb_inv rb2 (c - 1 - n)" "rb_content rb2 (c - 1 - n) = drop n (tl ?q)"
    by blast
  have "take (i + 1) (buf[i := hd ?q]) = take i buf @ [hd ?q]"
    using Suc.prems(3) by (simp add: take_Suc_conv_app_nth)
  moreover have "hd ?q # take n (tl ?q) = take (Suc n) ?q" "drop n (tl ?q) = drop (Suc n) ?q"
    using len Suc.prems(2) by (cases ?q; simp)+
  moreover have "[i..<i + Suc n] = i # [i + 1..<i + 1 + n]" by (simp add: upt_conv_Cons)
  ultimately show ?case
    using rb1(1) rb2 Suc.prems(3) by (auto simp: vec_set_def)
qed auto

lemma write_loop_ok:
  "rb_inv rb c \<Longrightarrow> c + n \<le> RING_BUFFER_SIZE \<Longrightarrow> i + n \<le> length buf \<Longrightarrow>
   \<exists>rb'. write_loop [i..<i + n] rb buf = Some rb' \<and> rb_inv rb' (c + n) \<and>
     rb_content rb' (c + n) = rb_content rb c @ take n (drop i buf)"
proof (induction n arbitrary: rb c i)
  case (Suc n)
  obtain rb1 where rb1: "write_byte rb (buf ! i) = Some rb1" "rb_inv rb1 (c + 1)"
    "rb_content rb1 (c + 1) = rb_content rb c @ [buf ! i]"
    using write_byte_ok[OF Suc.prems(1)] Suc.prems(2) by auto
  have "c + 1 + n \<le> RING_BUFFER_SIZE" "i + 1 + n \<le> length buf" using Suc.prems by auto
  from Suc.IH[OF rb1(2) this] obtain rb2 where
    rb2: "write_loop [i + 1..<i + 1 + n] rb1 buf = Some rb2" "rb_inv rb2 (c + 1 + n)"
      "rb_content rb2 (c + 1 + n) = rb_content rb1 (c + 1) @ take n (drop (i + 1) buf)" by blast
  have "buf ! i # take n (drop (i + 1) buf) = take (Suc n) (drop i buf)"
    using Suc.prems(3) by (simp add: Cons_nth_drop_Suc[symmetric])
  moreover have "[i..<i + Suc n] = i # [i + 1..<i + 1 + n]" by (simp add: upt_conv_Cons)
  ultimately show ?case
    using rb1(1,3) rb2 Suc.prems(3) by (auto simp: vec_get_def)
qed auto

text \<open>The number of bytes held is determined by the fields.\<close>

definition rb_len :: "PipeRingBuffer \<Rightarrow> nat" where
  "rb_len rb = (case available_read rb of Some c \<Rightarrow> c | None \<Rightarrow> 0)"

definition rb_ok :: "PipeRingBuffer \<Rightarrow> bool" where
  "rb_ok rb \<longleftrightarrow> rb_inv rb (rb_len rb)"

definition rb_bytes :: "PipeRingBuffer \<Rightarrow> u8 list" where
  "rb_bytes rb = rb_content rb (rb_len rb)"

lemma rb_inv_ok: "rb_inv rb c \<Longrightarrow> rb_ok rb \<and> rb_len rb = c \<and> rb_bytes rb = rb_content rb c"
  using available_read_eq[of rb c] by (simp add: rb_ok_def rb_len_def rb_bytes_def)

lemma length_rb_bytes [simp]: "length (rb_bytes rb) = rb_len rb"
  by (simp add: rb_bytes_def rb_content_def)

lemma rb_read_ok:
  assumes "rb_ok rb"
  shows "let n = min (length (rb_bytes rb)) (length buf) in
    \<exists>rb'. rb_read rb buf = Some (n, rb', take n (rb_bytes rb) @ drop n buf) \<and> rb_ok rb' \<and>
      rb_bytes rb' = drop n (rb_bytes rb)"
proof -
  have inv: "rb_inv rb (rb_len rb)" using assms by (simp add: rb_ok_def)
  let ?n = "min (rb_len rb) (length buf)"
  obtain rb' where rb': "read_loop [0..<?n] rb buf = Some (rb', take ?n (rb_bytes rb) @ drop ?n buf)"
    "rb_inv rb' (rb_len rb - ?n)" "rb_content rb' (rb_len rb - ?n) = drop ?n (rb_bytes rb)"
    using read_loop_ok[OF inv, of ?n 0 buf] by (auto simp: rb_bytes_def)
  show ?thesis
  proof (cases "rb_len rb = 0")
    case True
    then show ?thesis using assms available_read_eq[OF inv] by (simp add: rb_read_def rb_bytes_def rb_content_def)
  next
    case False
    then show ?thesis using rb' rb_inv_ok[OF rb'(2)] available_read_eq[OF inv]
      by (auto simp: rb_read_def)
  qed
qed

lemma rb_write_ok:
  assumes "rb_ok rb"
  shows "let n = min (RING_BUFFER_SIZE - length (rb_bytes rb)) (length buf) in
    \<exists>rb'. rb_write rb buf = Some (n, rb') \<and> rb_ok rb' \<and> rb_bytes rb' = rb_bytes rb @ take n buf"
proof -
  have inv: "rb_inv rb (rb_len rb)" using assms by (simp add: rb_ok_def)
  then have le: "rb_len rb \<le> RING_BUFFER_SIZE" by (simp add: rb_inv_def)
  let ?n = "min (RING_BUFFER_SIZE - rb_len rb) (length buf)"
  have "rb_len rb + ?n \<le> RING_BUFFER_SIZE" using le by simp
  then obtain rb' where rb': "write_loop [0..<?n] rb buf = Some rb'" "rb_inv rb' (rb_len rb + ?n)"
    "rb_content rb' (rb_len rb + ?n) = rb_bytes rb @ take ?n buf"
    using write_loop_ok[OF inv, of ?n 0 buf] by (auto simp: rb_bytes_def)
  show ?thesis
  proof (cases "rb_len rb = RING_BUFFER_SIZE")
    case True
    then show ?thesis using assms available_write_eq[OF inv] by (simp add: rb_write_def)
  next
    case False
    then show ?thesis using le rb' rb_inv_ok[OF rb'(2)] available_write_eq[OF inv]
      by (auto simp: rb_write_def)
  qed
qed

interpretation ring: byte_queue rb_ok rb_bytes RING_BUFFER_SIZE rb_read rb_write
proof unfold_locales
  show "length (rb_bytes rb) \<le> RING_BUFFER_SIZE" if "rb_ok rb" for rb
    using that by (simp add: rb_ok_def rb_inv_def)
qed (use rb_read_ok rb_write_ok in blast)+

section \<open>Properties\<close>

text \<open>Sequences of reads into buffers of given lengths and of writes, on the code and on a queue.\<close>

datatype rb_op = Op_read "u8 list" | Op_write "u8 list"

fun rb_run :: "rb_op list \<Rightarrow> PipeRingBuffer \<Rightarrow> ((usize \<times> u8 list) list \<times> PipeRingBuffer) run" where
  "rb_run [] rb = Some ([], rb)"
| "rb_run (Op_read buf # ops) rb = do {
     (n, rb, buf) \<leftarrow> rb_read rb buf;
     (rs, rb) \<leftarrow> rb_run ops rb;
     Some ((n, buf) # rs, rb)
   }"
| "rb_run (Op_write buf # ops) rb = do {
     (n, rb) \<leftarrow> rb_write rb buf;
     (rs, rb) \<leftarrow> rb_run ops rb;
     Some ((n, buf) # rs, rb)
   }"

fun queue_run :: "rb_op list \<Rightarrow> u8 list \<Rightarrow> (usize \<times> u8 list) list \<times> u8 list" where
  "queue_run [] q = ([], q)"
| "queue_run (Op_read buf # ops) q =
     (let n = min (length q) (length buf); (rs, q') = queue_run ops (drop n q)
      in ((n, take n q @ drop n buf) # rs, q'))"
| "queue_run (Op_write buf # ops) q =
     (let n = min (RING_BUFFER_SIZE - length q) (length buf); (rs, q') = queue_run ops (q @ take n buf)
      in ((n, buf) # rs, q'))"

lemma rb_run_refines:
  "rb_ok rb \<Longrightarrow> \<exists>rb'. rb_run ops rb = Some (fst (queue_run ops (rb_bytes rb)), rb') \<and> rb_ok rb' \<and>
     rb_bytes rb' = snd (queue_run ops (rb_bytes rb))"
proof (induction ops arbitrary: rb)
  case (Cons op ops)
  show ?case
  proof (cases op)
    case (Op_read buf)
    let ?n = "min (length (rb_bytes rb)) (length buf)"
    obtain rb' where rb': "rb_read rb buf = Some (?n, rb', take ?n (rb_bytes rb) @ drop ?n buf)"
      "rb_ok rb'" "rb_bytes rb' = drop ?n (rb_bytes rb)"
      using ring.rd_ok[OF Cons.prems, of buf] by (auto simp: Let_def)
    from Cons.IH[OF rb'(2)] rb' Op_read show ?thesis
      by (auto simp del: length_rb_bytes simp: Let_def split: prod.split)
  next
    case (Op_write buf)
    let ?n = "min (RING_BUFFER_SIZE - length (rb_bytes rb)) (length buf)"
    obtain rb' where rb': "rb_write rb buf = Some (?n, rb')" "rb_ok rb'"
      "rb_bytes rb' = rb_bytes rb @ take ?n buf"
      using ring.wr_ok[OF Cons.prems, of buf] by (auto simp: Let_def)
    from Cons.IH[OF rb'(2)] rb' Op_write show ?thesis
      by (auto simp del: length_rb_bytes simp: Let_def split: prod.split)
  qed
qed simp

lemma rb_new_ok: "rb_ok rb_new" "rb_bytes rb_new = []"
proof -
  have "rb_inv rb_new 0" by (simp add: rb_inv_def rb_new_def RING_BUFFER_SIZE_def)
  from rb_inv_ok[OF this] show "rb_ok rb_new" "rb_bytes rb_new = []" by (simp_all add: rb_content_def)
qed

text \<open>
  C29: the ring buffer of a pipe is a first-in first-out queue of at most 1024 bytes.  From a new
  buffer, every sequence of reads and writes gives the results and the final contents of that queue:
  no access is out of range, nothing is lost, reordered or invented when the indices wrap, and a full
  buffer is not taken for an empty one.
\<close>

theorem ring_buffer_queue:
  "\<exists>rb. rb_run ops rb_new = Some (fst (queue_run ops []), rb) \<and> rb_bytes rb = snd (queue_run ops [])"
  using rb_run_refines[OF rb_new_ok(1)] rb_new_ok(2) by auto

text \<open>One round of a call that leaves the loop.\<close>

lemma read_round_step:
  "pos < length buf \<Longrightarrow> rb_read (p_buffer (env p)) buf = Some (n, rb, buf') \<Longrightarrow> 0 < n \<Longrightarrow>
   read_rounds (env # envs) me p buf pos =
     read_rounds envs me (env p\<lparr>p_buffer := rb\<rparr>) buf' (pos + n)"
  by simp

lemma read_round_all:
  assumes "0 < length buf" "rb_ok (p_buffer (env p))" "length buf \<le> length (rb_bytes (p_buffer (env p)))"
  shows "\<exists>rb. read_exact (env # envs) me p buf =
      Returned (length buf, take (length buf) (rb_bytes (p_buffer (env p))),
        wake_up_write (env p\<lparr>p_buffer := rb\<rparr>)) \<and>
    rb_ok rb \<and> rb_bytes rb = drop (length buf) (rb_bytes (p_buffer (env p)))"
proof -
  let ?rb = "p_buffer (env p)"
  have n: "min (length (rb_bytes ?rb)) (length buf) = length buf" using assms(3) by simp
  obtain rb where rb: "rb_read ?rb buf = Some (length buf, rb, take (length buf) (rb_bytes ?rb))"
    "rb_ok rb" "rb_bytes rb = drop (length buf) (rb_bytes ?rb)"
    using ring.rd_ok[OF assms(2), of buf] unfolding Let_def n by auto
  have len: "length (take (length buf) (rb_bytes ?rb)) = length buf" using assms(3) by simp
  have "read_rounds envs me q b (length b) = Returned (length b, b, wake_up_write q)" for q b
    by (cases envs) (simp_all add: read_end_def)
  from this[of _ "take (length buf) (rb_bytes ?rb)", unfolded len] rb assms(1) show ?thesis
    by (intro exI[of _ rb]) (simp add: read_exact_def Let_def)
qed

lemma write_round_all:
  assumes "0 < length buf" "rb_ok (p_buffer (env p))"
    "length (rb_bytes (p_buffer (env p))) + length buf \<le> RING_BUFFER_SIZE"
  shows "\<exists>rb. write_exact (env # envs) me p buf =
      Returned (length buf, wake_up_read (env p\<lparr>p_buffer := rb\<rparr>)) \<and>
    rb_ok rb \<and> rb_bytes rb = rb_bytes (p_buffer (env p)) @ buf"
proof -
  let ?rb = "p_buffer (env p)"
  have n: "min (RING_BUFFER_SIZE - length (rb_bytes ?rb)) (length buf) = length buf" using assms(3) by simp
  obtain rb where rb: "rb_write ?rb buf = Some (length buf, rb)" "rb_ok rb" "rb_bytes rb = rb_bytes ?rb @ buf"
    using ring.wr_ok[OF assms(2), of buf] unfolding Let_def n by auto
  have "write_rounds envs me q b (length b) = Returned (length b, wake_up_read q)" for q b
    by (cases envs) (simp_all add: write_end_def)
  with rb assms(1) show ?thesis by (intro exI[of _ rb]) (simp add: write_exact_def Let_def)
qed

text \<open>
  C30: a transfer that fits.  When the pipe has room for the data, \<^verbatim>\<open>write_exact\<close> appends it in
  one round and wakes every waiting reader; a \<^verbatim>\<open>read_exact\<close> for as many bytes as were in the pipe
  and the data together then returns them in order and wakes every waiting writer.
\<close>

theorem pipe_transfer:
  assumes "rb_ok (p_buffer p)" "data \<noteq> []" "length (rb_bytes (p_buffer p)) + length data \<le> RING_BUFFER_SIZE"
    and "length buf = length (rb_bytes (p_buffer p)) + length data"
  shows "\<exists>p1 p2. write_exact (id # envs) w p data = Returned (length data, p1) \<and>
    p_wait_read p1 = [] \<and> p_runq p1 = p_runq p @ p_wait_read p \<and>
    read_exact (id # envs') r p1 buf = Returned (length buf, rb_bytes (p_buffer p) @ data, p2) \<and>
    p_wait_write p2 = [] \<and> rb_bytes (p_buffer p2) = []"
proof -
  obtain rb where rb: "write_exact (id # envs) w p data =
      Returned (length data, wake_up_read (p\<lparr>p_buffer := rb\<rparr>))"
    "rb_ok rb" "rb_bytes rb = rb_bytes (p_buffer p) @ data"
    using write_round_all[of data id p envs w] assms(1-3) by auto
  let ?p1 = "wake_up_read (p\<lparr>p_buffer := rb\<rparr>)"
  have p1: "p_buffer (id ?p1) = rb" by (simp add: wake_up_read_def)
  have len: "length buf = length (rb_bytes rb)" "0 < length buf" using assms(2,4) rb(3) by auto
  obtain rb2 where rb2: "read_exact (id # envs') r ?p1 buf =
      Returned (length buf, rb_bytes rb, wake_up_write (?p1\<lparr>p_buffer := rb2\<rparr>))" "rb_bytes rb2 = []"
    using read_round_all[of buf id ?p1 envs' r] rb(2) len unfolding p1 by auto
  show ?thesis
    by (rule exI[of _ ?p1], rule exI[of _ "wake_up_write (?p1\<lparr>p_buffer := rb2\<rparr>)"])
      (use rb rb2 in \<open>simp add: wake_up_read_def wake_up_write_def\<close>)
qed

theorem pipe_transfer_witness:
  "\<exists>p1 p2. write_exact [id] 1 (pipe_new []) [72, 105] = Returned (2, p1) \<and>
     read_exact [id] 2 p1 [0, 0] = Returned (2, [72, 105], p2)"
  using pipe_transfer[of "pipe_new []" "[72, 105]" "[0, 0]" "[]" 1 "[]" 2] rb_new_ok
  by (auto simp: pipe_new_def RING_BUFFER_SIZE_def)

text \<open>
  C31: a read that takes more than one round goes wrong.  The second round starts again at the
  beginning of the buffer and asks for the whole length: if the second portion is exactly what is
  missing, it is stored over the first one, and if more is available the count passes the length and
  the final assertion stops the kernel.
\<close>

theorem read_exact_second_round:
  assumes ok1: "rb_ok (p_buffer (e1 p))" "rb_bytes (p_buffer (e1 p)) = q1"
    and part: "q1 \<noteq> []" "length q1 < length buf"
    and ok2: "\<forall>rb. rb_ok rb \<and> rb_bytes rb = [] \<longrightarrow> rb_ok (p_buffer (e2 (e1 p\<lparr>p_buffer := rb\<rparr>))) \<and>
      rb_bytes (p_buffer (e2 (e1 p\<lparr>p_buffer := rb\<rparr>))) = q2"
    and more: "length buf \<le> length q1 + length q2"
  shows "if length buf = length q1 + length q2
    then \<exists>p2. read_exact (e1 # e2 # envs) me p buf =
      Returned (length buf, q2 @ drop (length q2) (q1 @ drop (length q1) buf), p2)
    else read_exact (e1 # e2 # envs) me p buf = Panicked"
proof -
  let ?k = "length q1" and ?buf1 = "q1 @ drop (length q1) buf"
  have n1: "min (length q1) (length buf) = ?k" using part by simp
  obtain rb1 where rb1: "rb_read (p_buffer (e1 p)) buf = Some (?k, rb1, ?buf1)" "rb_ok rb1" "rb_bytes rb1 = []"
    using ring.rd_ok[OF ok1(1), of buf] unfolding ok1(2) Let_def n1 by auto
  have len: "length ?buf1 = length buf" using part by simp
  let ?p2 = "e2 (e1 p\<lparr>p_buffer := rb1\<rparr>)" and ?n = "min (length q2) (length buf)"
  have "rb_ok (p_buffer ?p2)" and q2: "rb_bytes (p_buffer ?p2) = q2" using ok2 rb1 by blast+
  then obtain rb2 where rb2: "rb_read (p_buffer ?p2) ?buf1 = Some (?n, rb2, take ?n q2 @ drop ?n ?buf1)"
    using ring.rd_ok[of "p_buffer ?p2" ?buf1] unfolding q2 len Let_def by blast
  have n0: "0 < ?n" "0 < ?k" using part more by auto
  have "0 < length buf" "?k < length ?buf1" using part by auto
  note r1 = read_round_step[where env = e1 and p = p and envs = "e2 # envs", OF this(1) rb1(1) n0(2)]
    and r2 = read_round_step[where env = e2 and p = "e1 p\<lparr>p_buffer := rb1\<rparr>", OF this(2) rb2 n0(1)]
  have run: "read_exact (e1 # e2 # envs) me p buf =
      read_rounds envs me (?p2\<lparr>p_buffer := rb2\<rparr>) (take ?n q2 @ drop ?n ?buf1) (?k + ?n)"
    unfolding read_exact_def r1 add_0 r2 ..
  have len2: "length (take ?n q2 @ drop ?n ?buf1) = length buf" using len by simp
  show ?thesis
  proof (cases "length buf = length q1 + length q2")
    case True
    then have "?n = length q2" "?k + ?n = length buf" by auto
    then show ?thesis using run len2 True by (cases envs) (auto simp: read_end_def)
  next
    case False
    then have "length buf < ?k + ?n" using more n0(2) by (auto simp: min_def)
    then show ?thesis using run len2 False by (cases envs) (auto simp: read_end_def)
  qed
qed

text \<open>A ring buffer that holds given bytes.\<close>

definition rb_holding :: "u8 list \<Rightarrow> PipeRingBuffer" where
  "rb_holding data = (case rb_write rb_new data of Some (n, rb) \<Rightarrow> rb | None \<Rightarrow> rb_new)"

lemma rb_holding_ok:
  "length data \<le> RING_BUFFER_SIZE \<Longrightarrow> rb_ok (rb_holding data) \<and> rb_bytes (rb_holding data) = data"
  using ring.wr_ok[OF rb_new_ok(1), of data] unfolding rb_new_ok(2)
  by (auto simp: rb_holding_def Let_def)

theorem read_exact_second_round_witness:
  "read_exact [\<lambda>p. p\<lparr>p_buffer := rb_holding [7]\<rparr>, \<lambda>p. p\<lparr>p_buffer := rb_holding [8, 9]\<rparr>] 1
     (pipe_new []) [0, 0] = Panicked"
proof -
  have "rb_ok (rb_holding [7])" "rb_bytes (rb_holding [7]) = [7]"
    "rb_ok (rb_holding [8, 9])" "rb_bytes (rb_holding [8, 9]) = [8, 9]"
    using rb_holding_ok[of "[7]"] rb_holding_ok[of "[8, 9]"] by (auto simp: RING_BUFFER_SIZE_def)
  then show ?thesis
    using read_exact_second_round[of "\<lambda>p. p\<lparr>p_buffer := rb_holding [7]\<rparr>" "pipe_new []" "[7]" "[0, 0]"
        "\<lambda>p. p\<lparr>p_buffer := rb_holding [8, 9]\<rparr>" "[8, 9]" "[]" 1] by simp
qed

text \<open>
  The counter of writers is one byte and wraps: after 256 writers have been counted, the pipe
  reports that it has none, and a reader of the empty pipe returns as at the end of the data.
\<close>

theorem writer_count_wraps:
  "\<not> have_writer ((inc_write ^^ 256) (pipe_new q)) \<and> have_writer ((inc_write ^^ 255) (pipe_new q)) \<and>
   (\<exists>p. read_exact (id # envs) r ((inc_write ^^ 256) (pipe_new q)) [b] = Returned (0, [b], p))"
proof -
  have inc: "(inc_write ^^ n) p = p\<lparr>p_write_cnt := p_write_cnt p + of_nat n\<rparr>" for n p
    by (induction n) (simp_all add: inc_write_def add_ac)
  have "(of_nat 256 :: u8) = 0" "(of_nat 255 :: u8) \<noteq> 0" by simp_all
  then have cnt: "\<not> have_writer ((inc_write ^^ 256) (pipe_new q))"
    "have_writer ((inc_write ^^ 255) (pipe_new q))"
    unfolding inc by (simp_all add: have_writer_def pipe_new_def)
  have "p_buffer ((inc_write ^^ 256) (pipe_new q)) = rb_new" unfolding inc by (simp add: pipe_new_def)
  moreover have "rb_read rb_new [b] = Some (0, rb_new, [b])"
    by (simp add: rb_read_def available_read_def rb_new_def)
  ultimately have "read_exact (id # envs) r ((inc_write ^^ 256) (pipe_new q)) [b] =
      Returned (0, [b], (inc_write ^^ 256) (pipe_new q)\<lparr>p_buffer := rb_new\<rparr>)"
    using cnt(1) by (simp add: read_exact_def have_writer_def del: funpow.simps)
  with cnt show ?thesis by blast
qed

end
