(* ===== verification/K_File.thy ===== *)
theory K_File
  imports K_Pipe K_Page
begin

text \<open>
  \<^verbatim>\<open>kernel/src/fs/dfile.rs\<close> and \<^verbatim>\<open>kernel/src/fs/fcntl.rs\<close>: open files.  What is behind an open file is an
  index node (of type \<open>'f\<close>), the terminal or a pipe, named by its place in the table of all pipes.
\<close>

unbundle bit_operations_syntax

section \<open>Open flags\<close>

text \<open>
  The last three are written with a leading 0 in the source, which does not make a number octal in Rust.
\<close>

definition O_RDONLY :: u32 where "O_RDONLY = 0"
definition O_WRONLY :: u32 where "O_WRONLY = push_bit 0 1"
definition O_RDWR :: u32 where "O_RDWR = push_bit 1 1"
definition O_CREATE :: u32 where "O_CREATE = push_bit 6 1"
definition O_TRUNC :: u32 where "O_TRUNC = push_bit 10 1"
definition O_DIRECTROY :: u32 where "O_DIRECTROY = 200000"
definition O_LARGEFILE :: u32 where "O_LARGEFILE = 100000"
definition O_CLOEXEC :: u32 where "O_CLOEXEC = 2000000"

definition of_contains :: "u32 \<Rightarrow> u32 \<Rightarrow> bool" where
  "of_contains fl x \<longleftrightarrow> fl AND x = x"

definition OpenFlags_from_bits :: "u32 \<Rightarrow> u32 option" where
  "OpenFlags_from_bits b =
     (let all = O_RDONLY OR O_WRONLY OR O_RDWR OR O_CREATE OR O_TRUNC OR O_DIRECTROY OR O_LARGEFILE OR O_CLOEXEC
      in if b AND NOT all = 0 then Some b else None)"

definition of_readwriteable :: "u32 \<Rightarrow> bool" where
  "of_readwriteable fl \<longleftrightarrow> of_contains fl O_RDWR"

definition of_readable :: "u32 \<Rightarrow> bool" where
  "of_readable fl \<longleftrightarrow> (if of_readwriteable fl then True else \<not> of_contains fl O_WRONLY)"

definition of_writeable :: "u32 \<Rightarrow> bool" where
  "of_writeable fl \<longleftrightarrow> (if of_readwriteable fl then True else of_contains fl O_WRONLY)"

section \<open>The terminal\<close>

datatype TerminalType = STDIN | STDOUT | STDERR

definition TERMINAL_INTER_BUF_LEN :: usize where "TERMINAL_INTER_BUF_LEN = 10"

text \<open>The console is the list of the pieces that are handed to the printer, which decodes each alone.\<close>

type_synonym console = "u8 list list"

definition terminal_read :: "TerminalType \<Rightarrow> u8 list \<Rightarrow> usize" where
  "terminal_read ty buf = 0"

function terminal_write_loop :: "usize \<Rightarrow> u8 list \<Rightarrow> console \<Rightarrow> console" where
  "terminal_write_loop i buf out =
     (if i < length buf
      then (let real_write = min TERMINAL_INTER_BUF_LEN (length buf - i)
            in terminal_write_loop (i + real_write) buf (out @ [take real_write (drop i buf)]))
      else out)"
  by pat_completeness auto
termination
  by (relation "measure (\<lambda>(i, buf, out). length buf - i)") (auto simp: TERMINAL_INTER_BUF_LEN_def)

declare terminal_write_loop.simps [simp del]

definition terminal_write :: "TerminalType \<Rightarrow> u8 list \<Rightarrow> console \<Rightarrow> usize \<times> console" where
  "terminal_write ty buf out =
     (case ty of STDIN \<Rightarrow> (0, out) | _ \<Rightarrow> (length buf, terminal_write_loop 0 buf out))"

section \<open>Open files\<close>

datatype 'f DFileClass = ClassInode 'f | ClassTerminal TerminalType | ClassPipe nat

record 'f DFile =
  df_class :: "'f DFileClass"
  df_pos :: usize
  df_open_flags :: u32
  df_cloexec :: bool

definition df_new :: "'f DFileClass \<Rightarrow> u32 \<Rightarrow> 'f DFile" where
  "df_new c fl = \<lparr>df_class = c, df_pos = 0, df_open_flags = fl, df_cloexec = False\<rparr>"

definition new_stdin :: "'f DFile" where "new_stdin = df_new (ClassTerminal STDIN) O_RDONLY"
definition new_stdout :: "'f DFile" where "new_stdout = df_new (ClassTerminal STDOUT) O_WRONLY"
definition new_stderr :: "'f DFile" where "new_stderr = df_new (ClassTerminal STDERR) O_WRONLY"

definition from_inode :: "'f \<Rightarrow> u32 \<Rightarrow> 'f DFile" where
  "from_inode inode open_flags = df_new (ClassInode inode) open_flags"

definition df_readable :: "'f DFile \<Rightarrow> bool" where
  "df_readable d \<longleftrightarrow> of_readable (df_open_flags d)"

definition df_writeable :: "'f DFile \<Rightarrow> bool" where
  "df_writeable d \<longleftrightarrow> of_writeable (df_open_flags d)"

definition clone_inode :: "'f DFile \<Rightarrow> 'f option" where
  "clone_inode d = (case df_class d of ClassInode i \<Rightarrow> Some i | _ \<Rightarrow> None)"

text \<open>\<^verbatim>\<open>seek\<close>; \<open>is_file\<close> and \<open>len\<close> ask the index node.  A directory and a pipe cannot be sought.\<close>

definition df_seek :: "('f \<Rightarrow> bool) \<Rightarrow> ('f \<Rightarrow> usize) \<Rightarrow> 'f DFile \<Rightarrow> SeekFrom \<Rightarrow> ((unit + usize) \<times> 'f DFile) run" where
  "df_seek is_file len d pos =
     (case df_class d of
        ClassInode inode \<Rightarrow>
          if is_file inode
          then (let max_pos = len inode
                in case pos of
                     Start v \<Rightarrow>
                       if unat v \<le> max_pos then Some (Inr (unat v), d\<lparr>df_pos := unat v\<rparr>) else Some (Inl (), d)
                   | End v \<Rightarrow>
                       (case checked_add_signed max_pos v of
                          None \<Rightarrow> Some (Inl (), d)
                        | Some x \<Rightarrow> if x > max_pos then Some (Inl (), d) else Some (Inr x, d\<lparr>df_pos := x\<rparr>))
                   | Current v \<Rightarrow>
                       (case checked_add_signed (df_pos d) v of
                          None \<Rightarrow> Some (Inl (), d)
                        | Some x \<Rightarrow> if x > max_pos \<or> x < 0 then Some (Inl (), d) else Some (Inr x, d\<lparr>df_pos := x\<rparr>)))
          else None
      | ClassTerminal _ \<Rightarrow> Some (Inr 0, d)
      | ClassPipe _ \<Rightarrow> None)"

end
