(* ===== verification/K_Task.thy ===== *)
theory K_Task
  imports K_Stack K_File
begin

text \<open>
  \<^verbatim>\<open>kernel/src/task/mod.rs\<close>, \<^verbatim>\<open>kernel/src/task/task.rs\<close>, \<^verbatim>\<open>kernel/src/trap/timer.rs\<close> and the calls of
  \<^verbatim>\<open>kernel/src/syscall/sys_proc.rs\<close> on tasks: the lists of tasks, the scheduler, sleeping, exit, waiting for
  children and fork.

  A task is shared by reference counts, so a reference to one is its place in the table of all tasks
  (exited tasks stay in \<^verbatim>\<open>exit_list\<close> and are never freed).  The lock of a task is taken for one statement
  almost everywhere; where the source keeps the guard over further calls, the task is in \<open>locked\<close>, and
  taking the lock of such a task again is the \<^verbatim>\<open>Dead Lock!\<close> panic of \<^verbatim>\<open>sync/mod.rs\<close>.
\<close>

unbundle bit_operations_syntax

section \<open>Tasks\<close>

datatype TaskStatus = TaskRunning | TaskSleeping | TaskZombie

type_synonym arc = nat

definition MAX_OPENED :: usize where "MAX_OPENED = 64"

record 'f Task =
  t_tid :: usize
  t_tgid :: usize
  kernel_stack :: Stack
  task_context :: TaskContext
  t_parent :: "arc option"
  t_status :: TaskStatus
  t_mm :: "'f MmStruct option"
  opened :: "arc option list"
  pwd :: string
  pwd_dfile :: arc
  set_child_tid :: usize
  clear_child_tid :: usize
  exit_code :: int

text \<open>
  The state of the kernel.  \<open>cpu\<close> has the registers that a context switch saves, \<open>satp\<close> the register of
  the page table; what the kernel writes to user addresses is a log of the page table it was written
  through, the address and the bytes.
\<close>

record 'f Sys =
  g_tid :: usize
  tasks :: "'f Task list"
  running_list :: "arc list"
  sleep_list :: "arc list"
  exit_list :: "arc list"
  RUNNING :: "arc option"
  locked :: "arc set"
  dfiles :: "'f DFile list"
  pipes :: "Pipe list"
  tic_counter :: usize
  kern :: Kern
  kernel_pt :: PageTable
  cpu :: TaskContext
  satp :: u64
  user_writes :: "(u64 \<times> usize \<times> u8 list) list"
  out :: console

definition lock_task :: "'f Sys \<Rightarrow> arc \<Rightarrow> 'f Task run" where
  "lock_task s t = (if t \<in> locked s then None else vec_get (tasks s) t)"

definition put_task :: "'f Sys \<Rightarrow> arc \<Rightarrow> ('f Task \<Rightarrow> 'f Task) \<Rightarrow> 'f Sys" where
  "put_task s t f = s\<lparr>tasks := (tasks s)[t := f (tasks s ! t)]\<rparr>"

text \<open>A change under a lock that is released at the end of the statement, and a guard that is kept.\<close>

definition upd_task :: "'f Sys \<Rightarrow> arc \<Rightarrow> ('f Task \<Rightarrow> 'f Task) \<Rightarrow> 'f Sys run" where
  "upd_task s t f = do { _ \<leftarrow> lock_task s t; Some (put_task s t f) }"

definition keep_guard :: "'f Sys \<Rightarrow> arc \<Rightarrow> 'f Sys run" where
  "keep_guard s t = do { _ \<leftarrow> lock_task s t; Some (s\<lparr>locked := insert t (locked s)\<rparr>) }"

definition drop_guard :: "'f Sys \<Rightarrow> arc \<Rightarrow> 'f Sys" where
  "drop_guard s t = s\<lparr>locked := locked s - {t}\<rparr>"

definition set_status :: "TaskStatus \<Rightarrow> 'f Task \<Rightarrow> 'f Task" where
  "set_status st x = x\<lparr>t_status := st\<rparr>"

definition is_user :: "'f Task \<Rightarrow> bool" where
  "is_user x \<longleftrightarrow> t_mm x \<noteq> None"

text \<open>\<^verbatim>\<open>Weak::upgrade\<close> of the parent; tasks are never freed.\<close>

definition get_parent :: "'f Sys \<Rightarrow> 'f Task \<Rightarrow> arc option" where
  "get_parent s x = (case t_parent x of None \<Rightarrow> None | Some p \<Rightarrow> if p < length (tasks s) then Some p else None)"

definition get_running :: "'f Sys \<Rightarrow> arc run" where
  "get_running s = RUNNING s"

definition set_running :: "'f Sys \<Rightarrow> arc \<Rightarrow> 'f Sys" where
  "set_running s t = s\<lparr>RUNNING := Some t\<rparr>"

section \<open>The lists of tasks\<close>

definition generate_tid :: "'f Sys \<Rightarrow> usize \<times> 'f Sys" where
  "generate_tid s = (g_tid s, s\<lparr>g_tid := (g_tid s + 1) mod 2 ^ 64\<rparr>)"

definition add_task :: "'f Sys \<Rightarrow> arc \<Rightarrow> 'f Sys" where
  "add_task s t = s\<lparr>running_list := running_list s @ [t]\<rparr>"

definition arc_new :: "'f Sys \<Rightarrow> 'f Task \<Rightarrow> arc \<times> 'f Sys" where
  "arc_new s x = (length (tasks s), s\<lparr>tasks := tasks s @ [x]\<rparr>)"

fun wake_loop :: "nat \<Rightarrow> 'f Sys \<Rightarrow> 'f Sys run" where
  "wake_loop 0 s = Some s"
| "wake_loop (Suc n) s =
     (if sleep_list s = [] then None
      else do {
        let t = last (sleep_list s);
        let s = s\<lparr>sleep_list := butlast (sleep_list s)\<rparr>;
        s \<leftarrow> upd_task s t (set_status TaskRunning);
        wake_loop n (add_task s t)
      })"

definition wake_up_all_sleeping :: "'f Sys \<Rightarrow> 'f Sys run" where
  "wake_up_all_sleeping s = wake_loop (length (sleep_list s)) s"

section \<open>The scheduler\<close>

definition install_pagetable :: "'f Sys \<Rightarrow> 'f Task \<Rightarrow> 'f Sys run" where
  "install_pagetable s x = do {
     mm \<leftarrow> t_mm x;
     p \<leftarrow> vaddr_into_paddr (pt_root (mm_pagetable mm));
     Some (s\<lparr>satp := push_bit 60 8 OR drop_bit 12 (of_nat p)\<rparr>)
   }"

definition switch_context :: "'f Sys \<Rightarrow> arc \<Rightarrow> arc \<Rightarrow> 'f Sys" where
  "switch_context s cur nxt =
     (let s = put_task s cur (\<lambda>x. x\<lparr>task_context := cpu s\<rparr>)
      in s\<lparr>cpu := task_context (tasks s ! nxt)\<rparr>)"

text \<open>
  The wait lists of a pipe, which a sleeping task can be put on instead of \<^verbatim>\<open>sleep_list\<close>.  The operations
  on a pipe see the run queue as part of it.
\<close>

datatype wait_list = Wait_write nat | Wait_read nat

definition with_pipe :: "nat \<Rightarrow> (Pipe \<Rightarrow> Pipe) \<Rightarrow> 'f Sys \<Rightarrow> 'f Sys run" where
  "with_pipe i f s = do {
     p \<leftarrow> vec_get (pipes s) i;
     let p = f (p\<lparr>p_runq := running_list s\<rparr>);
     Some (s\<lparr>pipes := (pipes s)[i := p\<lparr>p_runq := []\<rparr>], running_list := p_runq p\<rparr>)
   }"

fun push_wait :: "wait_list \<Rightarrow> arc \<Rightarrow> 'f Sys \<Rightarrow> 'f Sys run" where
  "push_wait (Wait_write i) t s = with_pipe i (push_wait_write t) s"
| "push_wait (Wait_read i) t s = with_pipe i (push_wait_read t) s"

definition requeue :: "wait_list option \<Rightarrow> TaskStatus \<Rightarrow> arc \<Rightarrow> 'f Sys \<Rightarrow> 'f Sys run" where
  "requeue sleep_list_assign st cur s =
     (case st of
        TaskRunning \<Rightarrow> Some (s\<lparr>running_list := running_list s @ [cur]\<rparr>)
      | TaskSleeping \<Rightarrow>
          (case sleep_list_assign of
             Some q \<Rightarrow> push_wait q cur s
           | None \<Rightarrow> Some (s\<lparr>sleep_list := sleep_list s @ [cur]\<rparr>))
      | TaskZombie \<Rightarrow> Some (s\<lparr>exit_list := exit_list s @ [cur]\<rparr>))"

definition scheduler :: "wait_list option \<Rightarrow> 'f Sys \<Rightarrow> 'f Sys run" where
  "scheduler sleep_list_assign s = do {
     _ \<leftarrow> rassert (length (running_list s) \<noteq> 0);
     cur \<leftarrow> get_running s;
     x \<leftarrow> lock_task s cur;
     (if length (running_list s) = 1
      then (case t_status x of TaskRunning \<Rightarrow> Some s | _ \<Rightarrow> None)
      else do {
        let s = s\<lparr>running_list := tl (running_list s)\<rparr>;
        s \<leftarrow> requeue sleep_list_assign (t_status x) cur s;
        nxt \<leftarrow> (case running_list s of [] \<Rightarrow> None | t # _ \<Rightarrow> Some t);
        y \<leftarrow> lock_task s nxt;
        let s = set_running s nxt;
        s \<leftarrow> (if is_user y then install_pagetable s y else Some s);
        Some (switch_context s cur nxt)
      })
   }"

definition exit_self :: "int \<Rightarrow> 'f Sys \<Rightarrow> 'f Sys run" where
  "exit_self code s = do {
     cur \<leftarrow> get_running s;
     s \<leftarrow> keep_guard s cur;
     let s = put_task s cur (\<lambda>x. set_status TaskZombie (x\<lparr>exit_code := code\<rparr>));
     s \<leftarrow> wake_up_all_sleeping s;
     scheduler None (drop_guard s cur)
   }"

definition sleep_self_in_sleeping_list :: "'f Sys \<Rightarrow> 'f Sys run" where
  "sleep_self_in_sleeping_list s = do {
     cur \<leftarrow> get_running s;
     s \<leftarrow> upd_task s cur (set_status TaskSleeping);
     scheduler None s
   }"

text \<open>\<^verbatim>\<open>sleep_wait_read\<close> and \<^verbatim>\<open>sleep_wait_write\<close> of a pipe, and waking the tasks on one of its lists.\<close>

definition sleep_wait :: "wait_list \<Rightarrow> 'f Sys \<Rightarrow> 'f Sys run" where
  "sleep_wait q s = do {
     cur \<leftarrow> get_running s;
     s \<leftarrow> upd_task s cur (set_status TaskSleeping);
     scheduler (Some q) s
   }"

fun wake_up_pipe :: "wait_list \<Rightarrow> 'f Sys \<Rightarrow> 'f Sys run" where
  "wake_up_pipe (Wait_write i) s = with_pipe i wake_up_write s"
| "wake_up_pipe (Wait_read i) s = with_pipe i wake_up_read s"

section \<open>The timer\<close>

definition TIC_MAX :: usize where "TIC_MAX = 10"

definition tic :: "'f Sys \<Rightarrow> bool \<times> 'f Sys" where
  "tic s =
     (let cnt = tic_counter s; s = s\<lparr>tic_counter := (cnt + 1) mod 2 ^ 64\<rparr>
      in if cnt = TIC_MAX then (True, s\<lparr>tic_counter := 0\<rparr>) else (False, s))"

text \<open>Setting the time of the next interrupt is a call of the firmware.\<close>

definition timer_entry :: "'f Sys \<Rightarrow> 'f Sys run" where
  "timer_entry s = (let (b, s) = tic s in if b then scheduler None s else Some s)"

text \<open>The handler of the timer interrupt; the machine is shut down when the magic number is gone.\<close>

definition irq_handler :: "'f Sys \<Rightarrow> 'f Sys run" where
  "irq_handler s = do {
     cur \<leftarrow> get_running s;
     x \<leftarrow> lock_task s cur;
     ok \<leftarrow> check_magic (kern s) (kernel_stack x);
     _ \<leftarrow> rassert ok;
     timer_entry s
   }"

end
