(* ===== verification/K_Proc.thy ===== *)
theory K_Proc
  imports K_Task
begin

text \<open>
  Processes: the calls of \<^verbatim>\<open>kernel/src/syscall/sys_proc.rs\<close> that make tasks, wait for them and end them, with
  \<^verbatim>\<open>do_fork\<close> of \<^verbatim>\<open>kernel/src/task/task.rs\<close> and the waiting loops of \<^verbatim>\<open>kernel/src/task/mod.rs\<close>.
\<close>

unbundle bit_operations_syntax

section \<open>The first task and kernel tasks\<close>

definition BOOT_STACK_NR_PAGES :: usize where "BOOT_STACK_NR_PAGES = 8"

text \<open>
  \<^verbatim>\<open>__core_init\<close> looks for the boot stack of this processor, the one \<open>sp\<close> points into; \<open>boot_stack_top\<close> and
  the first \<open>addr\<close> are addresses of the linker script.
\<close>

function find_boot_stack :: "usize \<Rightarrow> usize \<Rightarrow> usize \<Rightarrow> Kern \<Rightarrow> (usize \<times> Kern) run" where
  "find_boot_stack boot_stack_top sp addr k =
     (if addr < boot_stack_top
      then do {
        e \<leftarrow> uadd addr (PAGE_SIZE * BOOT_STACK_NR_PAGES);
        (if sp > addr \<and> sp \<le> e
         then (if sp - addr \<le> 8 then None
               else do { _ \<leftarrow> rassert (addr mod 8 = 0); Some (addr, k\<lparr>mem := (mem k)(addr := STACK_MAGIC)\<rparr>) })
         else find_boot_stack boot_stack_top sp e k)
      }
      else Some (addr, k))"
  by pat_completeness auto
termination
  by (relation "measure (\<lambda>(boot_stack_top, sp, addr, k). boot_stack_top - addr)")
    (auto simp: uadd_def PAGE_SIZE_def BOOT_STACK_NR_PAGES_def split: if_splits)

declare find_boot_stack.simps [simp del]

definition new_task :: "usize \<Rightarrow> Stack \<Rightarrow> 'f MmStruct option \<Rightarrow> arc \<Rightarrow> 'f Task" where
  "new_task tid st mm root_df =
     \<lparr>t_tid = tid, t_tgid = 0, kernel_stack = st, task_context = TaskContext_new, t_parent = None,
      t_status = TaskRunning, t_mm = mm, opened = replicate MAX_OPENED None, pwd = ''/'', pwd_dfile = root_df,
      set_child_tid = 0, clear_child_tid = 0, exit_code = 0\<rparr>"

definition core_init :: "usize \<Rightarrow> usize \<Rightarrow> usize \<Rightarrow> arc \<Rightarrow> 'f Sys \<Rightarrow> 'f Sys run" where
  "core_init boot_stack boot_stack_top sp root_df s = do {
     (addr, k) \<leftarrow> find_boot_stack boot_stack_top sp boot_stack (kern s);
     let s = s\<lparr>kern := k\<rparr>;
     let (tid, s) = generate_tid s;
     e \<leftarrow> uadd addr (PAGE_SIZE * BOOT_STACK_NR_PAGES);
     (st, k) \<leftarrow> Stack_new True addr e (kern s);
     let (t, s) = arc_new (s\<lparr>kern := k\<rparr>) (new_task tid st None root_df);
     let s = s\<lparr>cpu := (cpu s)\<lparr>ctx_sscratch := 0, ctx_sstatus := ctx_sstatus (cpu s) OR push_bit 18 1\<rparr>\<rparr>;
     Some (add_task (set_running s t) t)
   }"

definition SSTATUS_SPP :: u64 where "SSTATUS_SPP = push_bit 8 1"
definition SSTATUS_SPIE :: u64 where "SSTATUS_SPIE = push_bit 5 1"
definition SSTATUS_SIE :: u64 where "SSTATUS_SIE = push_bit 1 1"

text \<open>A kernel task that starts in the function at \<open>p_fn\<close>; \<open>sst\<close> is the current value of \<^verbatim>\<open>sstatus\<close>.\<close>

definition create_kern_task :: "u64 \<Rightarrow> u64 \<Rightarrow> u64 \<Rightarrow> arc \<Rightarrow> 'f Sys \<Rightarrow> ('f Task \<times> 'f Sys) run" where
  "create_kern_task kern_trap_ret sst p_fn root_df s = do {
     let (tid, s) = generate_tid s;
     (st, k) \<leftarrow> Stack_new False 0 0 (kern s);
     let tsk = new_task tid st None root_df;
     sp \<leftarrow> kstack_top k st;
     let tsk = tsk\<lparr>task_context := (task_context tsk)\<lparr>ctx_ra := kern_trap_ret, ctx_sp := of_nat sp,
        ctx_sstatus := sst OR SSTATUS_SPP OR SSTATUS_SPIE OR SSTATUS_SIE\<rparr>\<rparr>;
     x2 \<leftarrow> usub sp TRAPFRAME_SIZE;
     let tf = TrapFrame_new_empty\<lparr>tf_sstatus := sst OR SSTATUS_SPP OR SSTATUS_SPIE, tf_sepc := p_fn, tf_x2 := of_nat x2\<rparr>;
     Some (tsk, s\<lparr>kern := tf_write_to tf sp k\<rparr>)
   }"

text \<open>The end of \<^verbatim>\<open>create_kern_task_and_run\<close> and \<^verbatim>\<open>create_user_task_and_run\<close>.\<close>

definition run_task :: "'f Task \<Rightarrow> 'f Sys \<Rightarrow> 'f Sys" where
  "run_task x s = (let (t, s) = arc_new s x in add_task s t)"

section \<open>Waiting\<close>

fun wait_for_scan :: "'f Sys \<Rightarrow> arc list \<Rightarrow> usize \<Rightarrow> (int \<times> usize) option run" where
  "wait_for_scan s [] tid = Some None"
| "wait_for_scan s (i # is) tid = do {
     x \<leftarrow> lock_task s i;
     (if t_tid x = tid then Some (Some (exit_code x, tid)) else wait_for_scan s is tid)
   }"

text \<open>The guard of the task is kept while its parent is looked at.\<close>

fun wait_children_scan :: "'f Sys \<Rightarrow> arc list \<Rightarrow> usize \<Rightarrow> (int \<times> usize) option run" where
  "wait_children_scan s [] ptid = Some None"
| "wait_children_scan s (i # is) ptid = do {
     x \<leftarrow> lock_task s i;
     (case get_parent s x of
        None \<Rightarrow> wait_children_scan s is ptid
      | Some p \<Rightarrow> do {
          g \<leftarrow> keep_guard s i;
          y \<leftarrow> lock_task g p;
          (if t_tid y = ptid then Some (Some (exit_code x, t_tid x)) else wait_children_scan s is ptid)
        })
   }"

text \<open>
  One round of the two waiting loops: the result, or the state in which the caller has gone to sleep and
  another task runs; the next round begins when the caller is scheduled again.
\<close>

datatype wait_kind = Wait_for usize | Wait_children usize
datatype 'f waited = Found int usize | Slept "'f Sys"

definition wait_scan :: "wait_kind \<Rightarrow> 'f Sys \<Rightarrow> (int \<times> usize) option run" where
  "wait_scan k s =
     (case k of
        Wait_for tid \<Rightarrow> wait_for_scan s (sleep_list s) tid
      | Wait_children ptid \<Rightarrow> wait_children_scan s (sleep_list s) ptid)"

definition wait_round :: "wait_kind \<Rightarrow> 'f Sys \<Rightarrow> 'f waited run" where
  "wait_round k s = do {
     r \<leftarrow> wait_scan k s;
     (case r of
        Some (code, tid) \<Rightarrow> Some (Found code tid)
      | None \<Rightarrow> do { s \<leftarrow> sleep_self_in_sleeping_list s; Some (Slept s) })
   }"

text \<open>\<^verbatim>\<open>sys_wait4\<close> up to its loop, and after it; \<^verbatim>\<open>pid as usize\<close> of -1 is the largest number.\<close>

definition wait4_kind :: "int \<Rightarrow> int \<Rightarrow> 'f Sys \<Rightarrow> wait_kind run" where
  "wait4_kind pid opt s = do {
     _ \<leftarrow> rassert (opt = 0);
     cur \<leftarrow> get_running s;
     x \<leftarrow> lock_task s cur;
     Some (if pid \<noteq> - 1 then Wait_children (t_tid x) else Wait_for (nat (pid mod 2 ^ 64)))
   }"

text \<open>
  A store of the kernel to a user address, which must be aligned.  It goes through the page table in use and may
  fault, so it is not applied to \<open>mem\<close>: the state records it, with the page table, as the last of the stores to user
  addresses.  Statements that no other memory changes speak of \<open>mem\<close>, the kernel's own writes; the stores
  to user addresses are exactly those of this record.
\<close>

definition user_write :: "usize \<Rightarrow> usize \<Rightarrow> u8 list \<Rightarrow> 'f Sys \<Rightarrow> 'f Sys run" where
  "user_write a align bs s = do {
     _ \<leftarrow> rassert (a mod align = 0);
     Some (s\<lparr>user_writes := user_writes s @ [(satp s, a, bs)]\<rparr>)
   }"

definition i32_bytes :: "int \<Rightarrow> u8 list" where
  "i32_bytes i = map (\<lambda>j. ucast (drop_bit (8 * j) (word_of_int i :: u32))) [0..<4]"

definition wait4_done :: "usize \<Rightarrow> int \<Rightarrow> usize \<Rightarrow> 'f Sys \<Rightarrow> (int \<times> 'f Sys) run" where
  "wait4_done wstatus code tid s = do {
     s \<leftarrow> user_write wstatus 4 (i32_bytes code) s;
     Some (as_isize tid, s)
   }"

section \<open>Fork\<close>

definition get_opened :: "'f Task \<Rightarrow> usize \<Rightarrow> arc option" where
  "get_opened x fd = (if fd < length (opened x) then opened x ! fd else None)"

text \<open>
  \<^verbatim>\<open>__vfork_step_one\<close> on the task \<open>x\<close>; \<open>user_trap_ret\<close> is the address of the assembly code with that name.
\<close>

definition vfork_step_one :: "u64 \<Rightarrow> 'f Sys \<Rightarrow> 'f Task \<Rightarrow> TrapFrame \<Rightarrow> ('f Task \<times> 'f Sys) run" where
  "vfork_step_one user_trap_ret s x tf = do {
     let (new_tid, s) = generate_tid s;
     (st, k) \<leftarrow> Stack_new False 0 0 (kern s);
     old_mm \<leftarrow> t_mm x;
     (mm, k) \<leftarrow> new_mm_by_old (kernel_pt s) old_mm k;
     let tsk = \<lparr>t_tid = new_tid, t_tgid = new_tid, kernel_stack = st, task_context = task_context x,
        t_parent = None, t_status = TaskRunning, t_mm = Some mm,
        opened = map (get_opened x) [0..<length (opened x)],
        pwd = pwd x, pwd_dfile = pwd_dfile x, set_child_tid = 0, clear_child_tid = 0, exit_code = 0\<rparr>;
     sp \<leftarrow> kstack_top k st;
     let k = tf_write_to (tf\<lparr>tf_x2 := of_nat sp\<rparr>) sp k;
     let tsk = tsk\<lparr>task_context := (task_context tsk)\<lparr>ctx_ra := user_trap_ret, ctx_sp := of_nat sp\<rparr>\<rparr>;
     Some (tsk, s\<lparr>kern := k\<rparr>)
   }"

definition do_fork :: "u64 \<Rightarrow> 'f Sys \<Rightarrow> arc \<Rightarrow> TrapFrame \<Rightarrow> ('f Task \<times> 'f Sys) run" where
  "do_fork user_trap_ret s t tf = do {
     x \<leftarrow> lock_task s t;
     (new, s) \<leftarrow> vfork_step_one user_trap_ret s x tf;
     Some (new\<lparr>t_parent := Some t\<rparr>, s)
   }"

definition SIGCHLD :: u64 where "SIGCHLD = 17"
definition CLONE_VM :: u64 where "CLONE_VM = 0x00000100"
definition CLONE_THREAD :: u64 where "CLONE_THREAD = 0x00010000"
definition CLONE_CHILD_CLEARTID :: u64 where "CLONE_CHILD_CLEARTID = 0x00200000"
definition CLONE_CHILD_SETTID :: u64 where "CLONE_CHILD_SETTID = 0x01000000"

text \<open>The part of \<^verbatim>\<open>sys_clone\<close> that handles \<open>ctid\<close>; the page table in use is still the parent's.\<close>

definition clone_tids :: "u64 \<Rightarrow> usize \<Rightarrow> 'f Task \<Rightarrow> 'f Sys \<Rightarrow> ('f Task \<times> 'f Sys) run" where
  "clone_tids flags ctid new s = do {
     (new, s) \<leftarrow>
       (if flag_in flags CLONE_CHILD_SETTID \<and> ctid \<noteq> 0
        then do {
          s \<leftarrow> user_write ctid 4 (i32_bytes (int (t_tid new))) s;
          Some (new\<lparr>set_child_tid := ctid\<rparr>, s)
        }
        else Some (new, s));
     Some (if flag_in flags CLONE_CHILD_CLEARTID \<and> ctid \<noteq> 0 then new\<lparr>clear_child_tid := ctid\<rparr> else new, s)
   }"

definition sys_clone :: "u64 \<Rightarrow> u64 \<Rightarrow> usize \<Rightarrow> usize \<Rightarrow> usize \<Rightarrow> usize \<Rightarrow> TrapFrame \<Rightarrow> 'f Sys \<Rightarrow> (int \<times> 'f Sys) run" where
  "sys_clone user_trap_ret flags stack_ptr ptid ctid newtls tf s =
     (if flag_in flags CLONE_VM \<or> flag_in flags CLONE_THREAD then None
      else do {
        let new_tf = tf\<lparr>tf_x10 := 0\<rparr>;
        sepc \<leftarrow> uadd (unat (tf_sepc new_tf)) 4;
        let new_tf = new_tf\<lparr>tf_sepc := of_nat sepc\<rparr>;
        cur \<leftarrow> get_running s;
        (new, s) \<leftarrow> do_fork user_trap_ret s cur new_tf;
        (new, s) \<leftarrow> clone_tids flags ctid new s;
        _ \<leftarrow> rassert (flag_in flags SIGCHLD);
        _ \<leftarrow> rassert (stack_ptr = 0);
        let (t, s) = arc_new s new;
        Some (as_isize (t_tid new), add_task s t)
      })"

section \<open>The other calls\<close>

definition sys_exit :: "int \<Rightarrow> 'f Sys \<Rightarrow> 'f Sys run" where
  "sys_exit code s = exit_self code s"

definition sys_gettid :: "'f Sys \<Rightarrow> int run" where
  "sys_gettid s = do { cur \<leftarrow> get_running s; x \<leftarrow> lock_task s cur; Some (as_isize (t_tid x)) }"

definition sys_getpid :: "'f Sys \<Rightarrow> int run" where
  "sys_getpid s = do { cur \<leftarrow> get_running s; x \<leftarrow> lock_task s cur; Some (as_isize (t_tgid x)) }"

definition sys_getppid :: "'f Sys \<Rightarrow> int run" where
  "sys_getppid s = do {
     cur \<leftarrow> get_running s;
     x \<leftarrow> lock_task s cur;
     (case get_parent s x of
        None \<Rightarrow> Some (- 1)
      | Some p \<Rightarrow> do { y \<leftarrow> lock_task s p; Some (as_isize (t_tgid y)) })
   }"

definition sys_set_tid_address :: "usize \<Rightarrow> 'f Sys \<Rightarrow> (int \<times> 'f Sys) run" where
  "sys_set_tid_address tidptr s = do {
     cur \<leftarrow> get_running s;
     x \<leftarrow> lock_task s cur;
     Some (as_isize (t_tid x), put_task s cur (\<lambda>x. x\<lparr>clear_child_tid := tidptr\<rparr>))
   }"

definition sys_getcwd :: "usize \<Rightarrow> usize \<Rightarrow> 'f Sys \<Rightarrow> (int \<times> 'f Sys) run" where
  "sys_getcwd buf len s =
     (if buf = 0 then Some (- 1, s)
      else do {
        cur \<leftarrow> get_running s;
        x \<leftarrow> lock_task s cur;
        let bytes = map of_char (pwd x) @ [0];
        (if length bytes > len then Some (- 1, s)
         else do { s \<leftarrow> user_write buf 1 bytes s; Some (0, s) })
      })"

end
