(* ===== verification/K_Task_Inv.thy ===== *)
theory K_Task_Inv
  imports K_Proc
begin

text \<open>
  The scheduler as a whole: the steps of the system of tasks, what holds of the lists of tasks after every
  step, and that no step of the scheduler panics.
\<close>

section \<open>Invariant\<close>

definition pipe_waiting :: "Pipe \<Rightarrow> arc list" where
  "pipe_waiting p = p_wait_write p @ p_wait_read p"

definition waiting :: "'f Sys \<Rightarrow> arc list" where
  "waiting s = concat (map pipe_waiting (pipes s))"

definition queued :: "'f Sys \<Rightarrow> arc list" where
  "queued s = running_list s @ sleep_list s @ exit_list s @ waiting s"

definition stat :: "'f Sys \<Rightarrow> arc \<Rightarrow> TaskStatus" where
  "stat s t = t_status (tasks s ! t)"

definition root_ok :: "'f Task \<Rightarrow> bool" where
  "root_ok x \<longleftrightarrow> (\<forall>mm. t_mm x = Some mm \<longrightarrow> PHY_MEM_OFFSET \<le> pt_root (mm_pagetable mm))"

text \<open>
  A task is on one list at most; the running task is the first of the run queue and no lock is held; the
  status agrees with the list, but a task that was woken from a pipe can be on the run queue with the status
  of a sleeping one; the first task, which never sleeps, is on the run queue.  A task that calls the scheduler
  has already changed its own status: \<open>sched_pre\<close> leaves the status of the running task out.
\<close>

definition sched_pre :: "'f Sys \<Rightarrow> bool" where
  "sched_pre s \<longleftrightarrow>
     locked s = {} \<and> distinct (queued s) \<and> set (queued s) \<subseteq> {..<length (tasks s)} \<and>
     running_list s \<noteq> [] \<and> RUNNING s = Some (hd (running_list s)) \<and>
     0 \<in> set (running_list s) \<and> stat s 0 = TaskRunning \<and>
     (\<forall>t \<in> set (tl (running_list s)). stat s t \<noteq> TaskZombie) \<and>
     (\<forall>t \<in> set (sleep_list s) \<union> set (waiting s). stat s t = TaskSleeping) \<and>
     (\<forall>t \<in> set (exit_list s). stat s t = TaskZombie) \<and>
     (\<forall>x \<in> set (tasks s). root_ok x)"

definition sched_inv :: "'f Sys \<Rightarrow> bool" where
  "sched_inv s \<longleftrightarrow> sched_pre s \<and> stat s (hd (running_list s)) \<noteq> TaskZombie"

lemma sched_preD:
  assumes "sched_pre s"
  shows "locked s = {}" "distinct (queued s)" "set (queued s) \<subseteq> {..<length (tasks s)}" "running_list s \<noteq> []"
    "RUNNING s = Some (hd (running_list s))" "0 \<in> set (running_list s)" "stat s 0 = TaskRunning"
    "t \<in> set (tl (running_list s)) \<Longrightarrow> stat s t \<noteq> TaskZombie"
    "t \<in> set (sleep_list s) \<Longrightarrow> stat s t = TaskSleeping" "t \<in> set (waiting s) \<Longrightarrow> stat s t = TaskSleeping"
    "t \<in> set (exit_list s) \<Longrightarrow> stat s t = TaskZombie" "x \<in> set (tasks s) \<Longrightarrow> root_ok x"
  using assms unfolding sched_pre_def by auto

lemma sched_inv_pre: "sched_inv s \<Longrightarrow> sched_pre s"
  by (simp add: sched_inv_def)

lemma queued_valid: "sched_pre s \<Longrightarrow> t \<in> set (queued s) \<Longrightarrow> t < length (tasks s)"
  using sched_preD(3) by blast

text \<open>The value of \<^verbatim>\<open>satp\<close> for the page table of a task.\<close>

definition satp_of :: "'f Task \<Rightarrow> u64" where
  "satp_of x = push_bit 60 8 OR drop_bit 12 (of_nat (pt_root (mm_pagetable (the (t_mm x))) - PHY_MEM_OFFSET))"

lemma install_pagetable_ok:
  "root_ok x \<Longrightarrow> is_user x \<Longrightarrow> install_pagetable s x = Some (s\<lparr>satp := satp_of x\<rparr>)"
  by (auto simp: install_pagetable_def root_ok_def is_user_def satp_of_def vaddr_into_paddr_def usub_def)

section \<open>Lists\<close>

lemma mset_concat_update:
  "i < length xs \<Longrightarrow> mset (concat (map f (xs[i := y]))) + mset (f (xs ! i)) = mset (concat (map f xs)) + mset (f y)"
proof (induction xs arbitrary: i)
  case (Cons x xs)
  then show ?case by (cases i) (auto simp: ac_simps)
qed simp

text \<open>What does not change when tasks move between lists.\<close>

definition same_tasks :: "'f Sys \<Rightarrow> 'f Sys \<Rightarrow> bool" where
  "same_tasks s s' \<longleftrightarrow> tasks s' = tasks s \<and> locked s' = locked s \<and> cpu s' = cpu s \<and> satp s' = satp s \<and>
     kern s' = kern s \<and> g_tid s' = g_tid s \<and> tic_counter s' = tic_counter s \<and> RUNNING s' = RUNNING s \<and>
     length (pipes s') = length (pipes s)"

lemma requeue_ok:
  assumes "\<And>q. assign = Some q \<Longrightarrow> (case q of Wait_write i \<Rightarrow> i | Wait_read i \<Rightarrow> i) < length (pipes s)"
  shows "\<exists>s1. requeue assign st cur s = Some s1 \<and> mset (queued s1) = mset (queued s) + {#cur#} \<and>
    running_list s1 = running_list s @ (if st = TaskRunning then [cur] else []) \<and>
    set (sleep_list s1) \<union> set (waiting s1) = set (sleep_list s) \<union> set (waiting s) \<union> (if st = TaskSleeping then {cur} else {}) \<and>
    sleep_list s1 = sleep_list s @ (if st = TaskSleeping \<and> assign = None then [cur] else []) \<and>
    exit_list s1 = exit_list s @ (if st = TaskZombie then [cur] else []) \<and>
    same_tasks s s1"
proof -
  have pipe: "\<exists>s1. with_pipe i f s = Some s1 \<and> mset (waiting s1) = mset (waiting s) + {#cur#} \<and>
      running_list s1 = running_list s \<and> sleep_list s1 = sleep_list s \<and> exit_list s1 = exit_list s \<and> same_tasks s s1"
    if i: "i < length (pipes s)" and f: "\<And>p. p_runq (f p) = p_runq p" "\<And>p. mset (pipe_waiting (f p)) = mset (pipe_waiting p) + {#cur#}"
    for i f
  proof -
    let ?p = "pipes s ! i" and ?s1 = "s\<lparr>pipes := (pipes s)[i := (f ((pipes s ! i)\<lparr>p_runq := running_list s\<rparr>))\<lparr>p_runq := []\<rparr>]\<rparr>"
    have run: "with_pipe i f s = Some ?s1" using i f(1) by (simp add: with_pipe_def vec_get_def)
    have w: "pipe_waiting (p\<lparr>p_runq := q\<rparr>) = pipe_waiting p" for p q by (simp add: pipe_waiting_def)
    have "mset (waiting ?s1) + mset (pipe_waiting ?p) = mset (waiting s) + mset (pipe_waiting ?p) + {#cur#}"
      using mset_concat_update[OF i, of pipe_waiting "(f (?p\<lparr>p_runq := running_list s\<rparr>))\<lparr>p_runq := []\<rparr>"] f(2)
      by (simp add: waiting_def w)
    then show ?thesis using run by (auto simp: same_tasks_def)
  qed
  have "\<exists>s1. push_wait q cur s = Some s1 \<and> mset (waiting s1) = mset (waiting s) + {#cur#} \<and>
      running_list s1 = running_list s \<and> sleep_list s1 = sleep_list s \<and> exit_list s1 = exit_list s \<and> same_tasks s s1"
    if "assign = Some q" for q
  proof (cases q)
    case (Wait_write i)
    then show ?thesis using assms[OF that] pipe[of i "push_wait_write cur"] by (simp add: pipe_waiting_def push_wait_write_def)
  next
    case (Wait_read i)
    then show ?thesis using assms[OF that] pipe[of i "push_wait_read cur"] by (simp add: pipe_waiting_def push_wait_read_def)
  qed
  note push = this
  show ?thesis
  proof (cases "st = TaskSleeping \<and> assign \<noteq> None")
    case True
    then obtain q where q: "assign = Some q" by auto
    obtain s1 where s1: "push_wait q cur s = Some s1" "mset (waiting s1) = mset (waiting s) + {#cur#}"
      "running_list s1 = running_list s" "sleep_list s1 = sleep_list s" "exit_list s1 = exit_list s" "same_tasks s s1"
      using push[OF q] by blast
    have "set (waiting s1) = set (waiting s) \<union> {cur}" using s1(2) by (metis Un_insert_right set_mset_add_mset_insert set_mset_mset add_mset_add_single sup_bot.right_neutral)
    then show ?thesis using True q s1 by (auto simp: requeue_def queued_def)
  next
    case False
    then show ?thesis by (cases st) (auto simp: requeue_def queued_def waiting_def same_tasks_def)
  qed
qed

section \<open>The scheduler\<close>

definition wl_ok :: "wait_list option \<Rightarrow> 'f Sys \<Rightarrow> bool" where
  "wl_ok assign s \<longleftrightarrow>
     (case assign of None \<Rightarrow> True | Some (Wait_write i) \<Rightarrow> i < length (pipes s) | Some (Wait_read i) \<Rightarrow> i < length (pipes s))"

text \<open>
  What a call of the scheduler does: the running task goes to the list for its status, its registers are
  saved, and the next task of the run queue runs with its own registers and page table.
\<close>

definition scheduled :: "wait_list option \<Rightarrow> 'f Sys \<Rightarrow> 'f Sys \<Rightarrow> bool" where
  "scheduled assign s s' \<longleftrightarrow>
     (let cur = hd (running_list s); st = stat s cur; nxt = hd (tl (running_list s))
      in running_list s' = tl (running_list s) @ (if st = TaskRunning then [cur] else []) \<and>
         sleep_list s' = sleep_list s @ (if st = TaskSleeping \<and> assign = None then [cur] else []) \<and>
         exit_list s' = exit_list s @ (if st = TaskZombie then [cur] else []) \<and>
         mset (queued s') = mset (queued s) \<and> RUNNING s' = Some nxt \<and>
         tasks s' = (tasks s)[cur := (tasks s ! cur)\<lparr>task_context := cpu s\<rparr>] \<and>
         cpu s' = task_context (tasks s ! nxt) \<and>
         satp s' = (if is_user (tasks s ! nxt) then satp_of (tasks s ! nxt) else satp s) \<and>
         locked s' = {} \<and> kern s' = kern s \<and> g_tid s' = g_tid s \<and> tic_counter s' = tic_counter s \<and>
         length (pipes s') = length (pipes s))"

lemma scheduler_run:
  assumes pre: "sched_pre s" and wl: "wl_ok assign s" and two: "tl (running_list s) \<noteq> []"
  shows "\<exists>s'. scheduler assign s = Some s' \<and> scheduled assign s s' \<and>
    set (sleep_list s') \<union> set (waiting s') = set (sleep_list s) \<union> set (waiting s) \<union>
      (if stat s (hd (running_list s)) = TaskSleeping then {hd (running_list s)} else {})"
proof -
  note D = sched_preD[OF pre]
  obtain cur nxt r where rl: "running_list s = cur # nxt # r" using D(4) two by (metis list.exhaust list.sel(3))
  let ?st = "stat s cur" and ?s0 = "s\<lparr>running_list := nxt # r\<rparr>"
  have w0: "waiting ?s0 = waiting s" by (simp add: waiting_def)
  have "(case q of Wait_write i \<Rightarrow> i | Wait_read i \<Rightarrow> i) < length (pipes ?s0)" if "assign = Some q" for q
    using wl that by (cases q) (simp_all add: wl_ok_def)
  from requeue_ok[of assign ?s0 ?st cur, OF this] obtain s1 where s1: "requeue assign ?st cur ?s0 = Some s1"
    "mset (queued s1) = mset (queued ?s0) + {#cur#}"
    "running_list s1 = nxt # r @ (if ?st = TaskRunning then [cur] else [])"
    "set (sleep_list s1) \<union> set (waiting s1) = set (sleep_list s) \<union> set (waiting s) \<union> (if ?st = TaskSleeping then {cur} else {})"
    "sleep_list s1 = sleep_list s @ (if ?st = TaskSleeping \<and> assign = None then [cur] else [])"
    "exit_list s1 = exit_list s @ (if ?st = TaskZombie then [cur] else [])" "same_tasks ?s0 s1"
    by (auto simp: w0)
  have s1t: "tasks s1 = tasks s" "locked s1 = {}" "cpu s1 = cpu s" "satp s1 = satp s" "kern s1 = kern s"
    "g_tid s1 = g_tid s" "tic_counter s1 = tic_counter s" "length (pipes s1) = length (pipes s)"
    using s1(7) D(1) by (simp_all add: same_tasks_def)
  have lt: "cur < length (tasks s)" "nxt < length (tasks s)" "cur \<noteq> nxt"
    using D(2,3) rl by (auto simp: queued_def)
  have inst: "(if is_user (tasks s ! nxt) then install_pagetable (set_running s1 nxt) (tasks s ! nxt) else Some (set_running s1 nxt)) =
      Some ((set_running s1 nxt)\<lparr>satp := if is_user (tasks s ! nxt) then satp_of (tasks s ! nxt) else satp s\<rparr>)"
    using install_pagetable_ok[OF D(12)[OF nth_mem[OF lt(2)]]] s1t(4) by (simp add: set_running_def)
  let ?s' = "switch_context ((set_running s1 nxt)\<lparr>satp := if is_user (tasks s ! nxt) then satp_of (tasks s ! nxt) else satp s\<rparr>) cur nxt"
  have "scheduler assign s = Some ?s'"
    using D(1,5) rl lt s1(1,3) s1t(1,2) inst
    by (simp add: scheduler_def rassert_def get_running_def lock_task_def vec_get_def stat_def)
  moreover have "waiting ?s' = waiting s1" by (simp add: waiting_def switch_context_def put_task_def set_running_def Let_def)
  moreover have "mset (queued ?s') = mset (queued s)"
    using s1(2) rl by (simp add: queued_def w0 waiting_def switch_context_def put_task_def set_running_def Let_def)
  then have "scheduled assign s ?s'"
    using rl s1 s1t lt by (simp add: scheduled_def switch_context_def put_task_def set_running_def Let_def)
  moreover have "sleep_list ?s' = sleep_list s1" by (simp add: switch_context_def put_task_def set_running_def Let_def)
  ultimately show ?thesis using s1(4) rl by auto
qed

lemma scheduled_stat:
  assumes "scheduled assign s s'"
  shows "stat s' t = stat s t"
proof -
  have "t_status (xs[i := (xs ! i)\<lparr>task_context := c\<rparr>] ! t) = t_status (xs ! t)" for xs :: "'a Task list" and i c
    by (cases "t = i"; cases "i < length xs") (simp_all add: list_update_beyond not_less)
  then show ?thesis using assms by (simp add: scheduled_def Let_def stat_def)
qed

lemma root_ok_context [simp]: "root_ok (x\<lparr>task_context := c\<rparr>) = root_ok x"
  by (simp add: root_ok_def)

lemma scheduled_inv:
  assumes pre: "sched_pre s" and sch: "scheduled assign s s'" and two: "tl (running_list s) \<noteq> []"
    and slp: "set (sleep_list s') \<union> set (waiting s') = set (sleep_list s) \<union> set (waiting s) \<union>
      (if stat s (hd (running_list s)) = TaskSleeping then {hd (running_list s)} else {})"
  shows "sched_inv s'"
proof -
  note D = sched_preD[OF pre] and S = sch[unfolded scheduled_def Let_def] and st = scheduled_stat[OF sch]
  obtain cur nxt r where rl: "running_list s = cur # nxt # r" using D(4) two by (metis list.exhaust list.sel(3))
  have len: "length (tasks s') = length (tasks s)" using S by simp
  have q: "set (queued s') = set (queued s)" "distinct (queued s') = distinct (queued s)"
    using S by (auto dest: mset_eq_setD mset_eq_imp_distinct_iff)
  have zero: "0 \<in> set (running_list s')"
    using D(6,7) S by (cases "cur = 0") (auto simp: rl)
  have "\<forall>t \<in> set (running_list s'). stat s t \<noteq> TaskZombie"
    using D(8) S by (auto simp: rl split: if_splits)
  then have run: "\<forall>t \<in> set (tl (running_list s')). stat s' t \<noteq> TaskZombie" "stat s' (hd (running_list s')) \<noteq> TaskZombie"
    using S by (auto simp: rl st)
  have ex: "\<forall>t \<in> set (exit_list s'). stat s' t = TaskZombie" using D(11) S by (auto simp: rl st)
  have sl: "\<forall>t \<in> set (sleep_list s') \<union> set (waiting s'). stat s' t = TaskSleeping"
    unfolding slp using D(9,10) by (auto simp: rl st)
  have cur: "cur < length (tasks s)" using queued_valid[OF pre] rl by (simp add: queued_def)
  have rt: "\<forall>x \<in> set (tasks s'). root_ok x"
    using S D(12) cur by (auto simp: rl dest!: set_update_subset_insert[THEN subsetD])
  have hd: "locked s' = {}" "running_list s' \<noteq> []" "RUNNING s' = Some (hd (running_list s'))"
    using S by (simp_all add: rl)
  have "stat s' 0 = TaskRunning" using D(7) by (simp add: st)
  moreover have "set (queued s') \<subseteq> {..<length (tasks s')}" using D(3) by (simp only: q len)
  moreover have "distinct (queued s')" using D(2) by (simp only: q)
  ultimately show ?thesis unfolding sched_inv_def sched_pre_def using zero run ex sl rt hd by blast
qed

lemma scheduler_ok:
  assumes pre: "sched_pre s" and wl: "wl_ok assign s"
  shows "\<exists>s'. scheduler assign s = Some s' \<and> sched_inv s' \<and>
    (if tl (running_list s) = [] then s' = s else scheduled assign s s')"
proof (cases "tl (running_list s) = []")
  case True
  note D = sched_preD[OF pre]
  have rl: "running_list s = [0]" using True D(4,6) by (cases "running_list s") auto
  then have "scheduler assign s = Some s"
    using D(1,5,7) queued_valid[OF pre, of 0]
    by (simp add: scheduler_def rassert_def get_running_def lock_task_def vec_get_def stat_def queued_def)
  then show ?thesis using True pre D(7) rl by (simp add: sched_inv_def)
next
  case False
  then show ?thesis using scheduler_run[OF pre wl False] scheduled_inv[OF pre _ False] by auto
qed

section \<open>Sleeping and waking\<close>

lemma stat_put_task: "c < length (tasks s) \<Longrightarrow> stat (put_task s c f) t = (if t = c then t_status (f (tasks s ! c)) else stat s t)"
  by (simp add: stat_def put_task_def)

lemma queued_put_task [simp]: "queued (put_task s c f) = queued s" "waiting (put_task s c f) = waiting s"
  by (simp_all add: queued_def waiting_def put_task_def)

lemma put_task_fields [simp]:
  "running_list (put_task s c f) = running_list s" "sleep_list (put_task s c f) = sleep_list s"
  "exit_list (put_task s c f) = exit_list s" "locked (put_task s c f) = locked s" "RUNNING (put_task s c f) = RUNNING s"
  "length (tasks (put_task s c f)) = length (tasks s)" "pipes (put_task s c f) = pipes s"
  "g_tid (put_task s c f) = g_tid s" "kern (put_task s c f) = kern s" "cpu (put_task s c f) = cpu s"
  "satp (put_task s c f) = satp s"
  by (simp_all add: put_task_def)

text \<open>The running task, if it is not the first, may change its own status.\<close>

lemma put_task_pre:
  assumes pre: "sched_pre s" and c: "c = hd (running_list s)" "c \<noteq> 0" and mm: "\<And>x. root_ok (f x) = root_ok x"
  shows "sched_pre (put_task s c f)"
proof -
  note D = sched_preD[OF pre]
  have cq: "c < length (tasks s)" using queued_valid[OF pre, of c] D(4) c(1) by (simp add: queued_def)
  obtain r where rl: "running_list s = c # r" using D(4) c(1) by (cases "running_list s") auto
  have out: "c \<notin> set r \<union> set (sleep_list s) \<union> set (waiting s) \<union> set (exit_list s)"
    using D(2) rl by (auto simp: queued_def)
  have rt: "root_ok x" if x: "x \<in> set (tasks (put_task s c f))" for x
  proof -
    have "x = f (tasks s ! c) \<or> x \<in> set (tasks s)"
      using x set_update_subset_insert[of "tasks s" c "f (tasks s ! c)"] by (auto simp: put_task_def)
    then show ?thesis using D(12)[OF nth_mem[OF cq]] D(12)[of x] mm by auto
  qed
  have st: "stat (put_task s c f) t = stat s t"
    if "t = 0 \<or> t \<in> set r \<or> t \<in> set (sleep_list s) \<or> t \<in> set (waiting s) \<or> t \<in> set (exit_list s)" for t
    using cq that out c(2) by (auto simp: stat_put_task)
  show ?thesis
    unfolding sched_pre_def using D c(2) rt rl by (auto simp: st)
qed

lemma running_task:
  assumes "sched_pre s"
  shows "get_running s = Some (hd (running_list s))" "lock_task s (hd (running_list s)) = Some (tasks s ! hd (running_list s))"
  using sched_preD[OF assms] queued_valid[OF assms, of "hd (running_list s)"]
  by (auto simp: get_running_def lock_task_def vec_get_def queued_def)

lemma fall_asleep:
  assumes inv: "sched_inv s" and c: "RUNNING s \<noteq> Some 0" and wl: "wl_ok assign s"
  shows "\<exists>s'. do { cur \<leftarrow> get_running s; s \<leftarrow> upd_task s cur (set_status TaskSleeping); scheduler assign s } = Some s' \<and>
    sched_inv s' \<and> scheduled assign (put_task s (hd (running_list s)) (set_status TaskSleeping)) s'"
proof -
  note pre = sched_inv_pre[OF inv]
  note D = sched_preD[OF pre] and R = running_task[OF pre]
  let ?c = "hd (running_list s)" let ?s = "put_task s ?c (set_status TaskSleeping)"
  have c0: "?c \<noteq> 0" using c D(5) by simp
  have p: "sched_pre ?s" by (rule put_task_pre[OF pre refl c0]) (simp add: set_status_def root_ok_def)
  have "wl_ok assign ?s" using wl by (simp add: wl_ok_def split: option.splits wait_list.splits)
  from scheduler_ok[OF p this] obtain s' where s': "scheduler assign ?s = Some s'" "sched_inv s'"
    "if tl (running_list ?s) = [] then s' = ?s else scheduled assign ?s s'" by blast
  have "tl (running_list s) \<noteq> []" using c0 D(4,6) by (cases "running_list s") auto
  then show ?thesis using s' R by (simp add: upd_task_def)
qed

lemma sleep_self_ok:
  assumes "sched_inv s" "RUNNING s \<noteq> Some 0"
  shows "\<exists>s'. sleep_self_in_sleeping_list s = Some s' \<and> sched_inv s' \<and>
    scheduled None (put_task s (hd (running_list s)) (set_status TaskSleeping)) s'"
  using fall_asleep[OF assms, of None] by (simp add: sleep_self_in_sleeping_list_def wl_ok_def)

lemma sleep_wait_ok:
  assumes "sched_inv s" "RUNNING s \<noteq> Some 0" "wl_ok (Some q) s"
  shows "\<exists>s'. sleep_wait q s = Some s' \<and> sched_inv s' \<and>
    scheduled (Some q) (put_task s (hd (running_list s)) (set_status TaskSleeping)) s'"
  using fall_asleep[OF assms(1,2), of "Some q"] assms(3) by (simp add: sleep_wait_def)

text \<open>Waking takes the tasks from the end of the list and gives each the status of a running one.\<close>

definition awake :: "arc list \<Rightarrow> 'f Task list \<Rightarrow> 'f Task list" where
  "awake = fold (\<lambda>t ts. ts[t := set_status TaskRunning (ts ! t)])"

lemma nth_update_if: "i < length xs \<Longrightarrow> xs[a := v] ! i = (if i = a then v else xs ! i)"
  by (cases "i = a") simp_all

lemma awake_nth:
  "length (awake xs ts) = length ts"
  "i < length ts \<Longrightarrow> awake xs ts ! i = (if i \<in> set xs then set_status TaskRunning (ts ! i) else ts ! i)"
proof -
  have *: "length (awake xs ts) = length ts \<and>
     (i < length ts \<longrightarrow> awake xs ts ! i = (if i \<in> set xs then set_status TaskRunning (ts ! i) else ts ! i))" for xs ts i
    by (induction xs arbitrary: ts) (auto simp: awake_def nth_update_if set_status_def)
  show "length (awake xs ts) = length ts"
    "i < length ts \<Longrightarrow> awake xs ts ! i = (if i \<in> set xs then set_status TaskRunning (ts ! i) else ts ! i)"
    using *[of xs ts i] by simp_all
qed

lemma wake_loop_eq:
  "sleep_list s = xs \<Longrightarrow> \<forall>t \<in> set xs. t \<notin> locked s \<and> t < length (tasks s) \<Longrightarrow>
   wake_loop (length xs) s =
     Some (s\<lparr>sleep_list := [], running_list := running_list s @ rev xs, tasks := awake (rev xs) (tasks s)\<rparr>)"
proof (induction xs arbitrary: s rule: rev_induct)
  case (snoc t xs)
  let ?s = "add_task (put_task (s\<lparr>sleep_list := xs\<rparr>) t (set_status TaskRunning)) t"
  have "wake_loop (length (xs @ [t])) s = wake_loop (length xs) ?s"
    using snoc.prems by (simp add: upd_task_def lock_task_def vec_get_def)
  also have "\<dots> = Some (?s\<lparr>sleep_list := [], running_list := running_list ?s @ rev xs, tasks := awake (rev xs) (tasks ?s)\<rparr>)"
    using snoc.prems by (intro snoc.IH) (simp_all add: add_task_def)
  finally show ?case by (simp add: add_task_def put_task_def awake_def)
qed (simp add: awake_def)

lemma waiting_upd [simp]:
  "waiting (s\<lparr>locked := l\<rparr>) = waiting s" "waiting (s\<lparr>running_list := r\<rparr>) = waiting s"
  "waiting (s\<lparr>sleep_list := r\<rparr>) = waiting s" "waiting (s\<lparr>tasks := ts\<rparr>) = waiting s"
  "waiting (s\<lparr>tic_counter := n\<rparr>) = waiting s" "waiting (s\<lparr>cpu := c\<rparr>) = waiting s"
  by (simp_all add: waiting_def)

lemma sched_pre_wake:
  assumes pre: "sched_pre s"
  shows "sched_pre (s\<lparr>sleep_list := [], running_list := running_list s @ rev (sleep_list s),
     tasks := awake (rev (sleep_list s)) (tasks s)\<rparr>)" (is "sched_pre ?s'")
proof -
  note D = sched_preD[OF pre]
  have val: "t < length (tasks s)" if "t \<in> set (queued s)" for t using queued_valid[OF pre that] .
  have st: "stat ?s' t = (if t \<in> set (sleep_list s) then TaskRunning else stat s t)" if "t \<in> set (queued s)" for t
    using val[OF that] by (simp add: stat_def awake_nth set_status_def)
  have disj: "set (sleep_list s) \<inter> (set (running_list s) \<union> set (exit_list s) \<union> set (waiting s)) = {}"
    using D(2) by (auto simp: queued_def)
  have rt: "root_ok x" if x: "x \<in> set (tasks ?s')" for x
  proof -
    obtain i where i: "i < length (tasks s)" "x = awake (rev (sleep_list s)) (tasks s) ! i"
      using x by (auto simp: in_set_conv_nth awake_nth(1))
    then have "root_ok x = root_ok (tasks s ! i)" by (auto simp: awake_nth set_status_def root_ok_def)
    then show ?thesis using D(12)[OF nth_mem[OF i(1)]] by simp
  qed
  obtain c r where rl: "running_list s = c # r" using D(4) by (cases "running_list s") auto
  have q: "mset (queued ?s') = mset (queued s)" by (simp add: queued_def)
  then have dis: "distinct (queued ?s')" "set (queued ?s') = set (queued s)"
    using D(2) mset_eq_imp_distinct_iff[OF q] mset_eq_setD[OF q] by auto
  have len: "length (tasks ?s') = length (tasks s)" by (simp add: awake_nth)
  have sub: "set (queued ?s') \<subseteq> {..<length (tasks ?s')}" using D(3) by (simp only: dis(2) len)
  have in_q: "t \<in> set (queued s)" if "t \<in> set (running_list s) \<or> t \<in> set (sleep_list s) \<or> t \<in> set (exit_list s) \<or> t \<in> set (waiting s)" for t
    using that by (auto simp: queued_def)
  have z: "stat ?s' 0 = TaskRunning" using D(6,7) by (simp add: st in_q)
  have tl: "stat ?s' t \<noteq> TaskZombie" if "t \<in> set (tl (running_list ?s'))" for t
  proof -
    have r: "t \<in> set r \<or> t \<in> set (sleep_list s)" using that by (auto simp: rl)
    then have "t \<in> set (queued s)" by (auto simp: queued_def rl)
    from st[OF this] show ?thesis using r D(8)[of t] by (auto simp: rl)
  qed
  have ex: "stat ?s' t = TaskZombie" if "t \<in> set (exit_list ?s')" for t
    using that D(11)[of t] disj by (auto simp: st in_q)
  have wt: "stat ?s' t = TaskSleeping" if "t \<in> set (waiting s)" for t
    using that D(10)[of t] disj by (auto simp: st in_q)
  show ?thesis
    unfolding sched_pre_def using dis(1) sub z tl ex wt rt D(1,4,5,6) by simp
qed

lemma exit_self_ok:
  assumes inv: "sched_inv s" and c: "RUNNING s \<noteq> Some 0"
  shows "\<exists>s'. exit_self code s = Some s' \<and> sched_inv s' \<and>
    exit_list s' = exit_list s @ [hd (running_list s)] \<and> sleep_list s' = [] \<and>
    running_list s' = tl (running_list s) @ rev (sleep_list s) \<and>
    (\<exists>s2. scheduled None s2 s' \<and> cpu s2 = cpu s \<and> g_tid s2 = g_tid s \<and> hd (running_list s2) = hd (running_list s) \<and>
      set (queued s2) = set (queued s) \<and>
      tasks s2 = awake (rev (sleep_list s)) ((tasks s)[hd (running_list s) :=
        set_status TaskZombie ((tasks s ! hd (running_list s))\<lparr>exit_code := code\<rparr>)]))"
proof -
  note pre = sched_inv_pre[OF inv]
  note D = sched_preD[OF pre] and R = running_task[OF pre]
  let ?c = "hd (running_list s)" let ?f = "\<lambda>x. set_status TaskZombie (x\<lparr>exit_code := code\<rparr>)"
  let ?s1 = "put_task s ?c ?f"
  let ?s2 = "?s1\<lparr>sleep_list := [], running_list := running_list s @ rev (sleep_list s),
     tasks := awake (rev (sleep_list s)) (tasks ?s1)\<rparr>"
  have c0: "?c \<noteq> 0" using c D(5) by simp
  have cq: "?c < length (tasks s)" using queued_valid[OF pre, of ?c] D(4) by (simp add: queued_def)
  have p1: "sched_pre ?s1" by (rule put_task_pre[OF pre refl c0]) (simp add: set_status_def root_ok_def)
  have p2: "sched_pre ?s2" using sched_pre_wake[OF p1] by simp
  have slp: "\<forall>t \<in> set (sleep_list s). t \<notin> {?c} \<and> t < length (tasks s)"
    using D(2,3,4) by (cases "running_list s") (auto simp: queued_def)
  have "wake_up_all_sleeping (put_task (s\<lparr>locked := {?c}\<rparr>) ?c ?f) = Some (?s2\<lparr>locked := {?c}\<rparr>)"
    using slp wake_loop_eq[of "put_task (s\<lparr>locked := {?c}\<rparr>) ?c ?f" "sleep_list s"]
    by (simp add: wake_up_all_sleeping_def put_task_def)
  moreover have "keep_guard s ?c = Some (s\<lparr>locked := {?c}\<rparr>)" using R(2) D(1) by (simp add: keep_guard_def)
  moreover have "drop_guard (?s2\<lparr>locked := {?c}\<rparr>) ?c = ?s2" using D(1) by (simp add: drop_guard_def put_task_def)
  ultimately have run: "exit_self code s = scheduler None ?s2" using R(1) by (simp add: exit_self_def Let_def)
  have rl: "hd (running_list ?s2) = ?c" "tl (running_list ?s2) \<noteq> []"
    using D(4,6) c0 by (cases "running_list s"; auto)+
  have "?c \<notin> set (sleep_list s)" using slp by auto
  then have st: "stat ?s2 ?c = TaskZombie" using cq by (simp add: stat_def awake_nth put_task_def set_status_def)
  obtain s' where s': "scheduler None ?s2 = Some s'" "sched_inv s'" "scheduled None ?s2 s'"
    using scheduler_ok[OF p2, of None] rl(2) by (auto simp: wl_ok_def)
  have "tasks ?s2 = awake (rev (sleep_list s)) ((tasks s)[?c := ?f (tasks s ! ?c)])" "cpu ?s2 = cpu s" "g_tid ?s2 = g_tid s"
    "set (queued ?s2) = set (queued s)" by (auto simp: put_task_def queued_def waiting_def)
  then have "\<exists>s2. scheduled None s2 s' \<and> cpu s2 = cpu s \<and> g_tid s2 = g_tid s \<and> hd (running_list s2) = ?c \<and>
      set (queued s2) = set (queued s) \<and>
      tasks s2 = awake (rev (sleep_list s)) ((tasks s)[?c := ?f (tasks s ! ?c)])"
    using s'(3) rl(1) by blast
  then show ?thesis using s' run rl st D(4) by (simp add: scheduled_def Let_def)
qed

end
