(* ===== verification/K_Task_Steps.thy ===== *)
theory K_Task_Steps
  imports K_Task_Inv
begin

text \<open>
  The system of tasks as a step relation.  A step is what the running task does until it is interrupted,
  sleeps or returns to user mode.  Where a task is inside the kernel is its \<open>cont\<close>: in user mode, in the
  loop of \<^verbatim>\<open>sys_wait4\<close>, or in that of \<^verbatim>\<open>ppoll\<close>.
\<close>

section \<open>Steps\<close>

datatype cont = In_user | In_wait wait_kind usize | In_poll

type_synonym 'f state = "'f Sys \<times> (arc \<Rightarrow> cont)"

definition root_of :: "'f MmStruct option \<Rightarrow> vaddr option" where
  "root_of = map_option (\<lambda>mm. pt_root (mm_pagetable mm))"

text \<open>
  What stays of a task: its identifier, parent, page table and saved registers; once it has exited, its
  status.  In user mode and in the calls that do not concern other tasks the running task changes only the rest
  of its own record, registers and memory, and open files.
\<close>

definition kept :: "'f Task \<Rightarrow> 'f Task \<Rightarrow> bool" where
  "kept x y \<longleftrightarrow> t_tid y = t_tid x \<and> t_parent y = t_parent x \<and> root_of (t_mm y) = root_of (t_mm x) \<and>
     task_context y = task_context x \<and> (exit_code y = exit_code x \<or> t_status y = TaskZombie) \<and>
     (t_status x = TaskZombie \<longrightarrow> t_status y = TaskZombie)"

inductive sys_step :: "'f state \<Rightarrow> 'f state \<Rightarrow> bool" where
  tick: "irq_handler s = Some s' \<Longrightarrow> RUNNING s = Some t \<Longrightarrow> c t = In_user \<Longrightarrow> sys_step (s, c) (s', c)"
| run: "RUNNING s = Some t \<Longrightarrow> c t = In_user \<Longrightarrow> kept (tasks s ! t) y \<Longrightarrow> t_status y = stat s t \<Longrightarrow>
    exit_code y = exit_code (tasks s ! t) \<Longrightarrow>
    sys_step (s, c) ((put_task s t (\<lambda>_. y))\<lparr>cpu := r, kern := k, dfiles := d, user_writes := u, out := w\<rparr>, c)"
| pipe: "RUNNING s = Some t \<Longrightarrow> c t = In_user \<Longrightarrow> sys_step (s, c) (s\<lparr>pipes := pipes s @ [pipe_new []]\<rparr>, c)"
| spawn: "RUNNING s = Some 0 \<Longrightarrow> t_tid x = g_tid s \<Longrightarrow> t_status x = TaskRunning \<Longrightarrow> exit_code x = 0 \<Longrightarrow>
    t_parent x = None \<Longrightarrow> root_ok x \<Longrightarrow> c (length (tasks s)) = In_user \<Longrightarrow>
    sys_step (s, c) (run_task x (snd (generate_tid s)), c)"
| clone: "RUNNING s = Some t \<Longrightarrow> t \<noteq> 0 \<Longrightarrow> c t = In_user \<Longrightarrow> c (length (tasks s)) = In_user \<Longrightarrow>
    sys_clone utr flags sp ptid ctid tls tf s = Some (r, s') \<Longrightarrow> root_ok (last (tasks s')) \<Longrightarrow> sys_step (s, c) (s', c)"
| leave: "RUNNING s = Some t \<Longrightarrow> t \<noteq> 0 \<Longrightarrow> c t = In_user \<Longrightarrow> sys_exit code s = Some s' \<Longrightarrow> sys_step (s, c) (s', c)"
| wait: "RUNNING s = Some t \<Longrightarrow> t \<noteq> 0 \<Longrightarrow> c t = In_user \<Longrightarrow> wait4_kind pid opt s = Some k \<Longrightarrow>
    sys_step (s, c) (s, c(t := In_wait k w))"
| found: "RUNNING s = Some t \<Longrightarrow> t \<noteq> 0 \<Longrightarrow> c t = In_wait k w \<Longrightarrow> wait_round k s = Some (Found code tid) \<Longrightarrow>
    wait4_done w code tid s = Some (r, s') \<Longrightarrow> sys_step (s, c) (s', c(t := In_user))"
| wait_sleep: "RUNNING s = Some t \<Longrightarrow> t \<noteq> 0 \<Longrightarrow> c t = In_wait k w \<Longrightarrow> wait_round k s = Some (Slept s') \<Longrightarrow>
    sys_step (s, c) (s', c)"
| poll: "RUNNING s = Some t \<Longrightarrow> t \<noteq> 0 \<Longrightarrow> c t \<in> {In_user, In_poll} \<Longrightarrow> sleep_self_in_sleeping_list s = Some s' \<Longrightarrow>
    sys_step (s, c) (s', c(t := In_poll))"
| pipe_sleep: "RUNNING s = Some t \<Longrightarrow> t \<noteq> 0 \<Longrightarrow> c t = In_user \<Longrightarrow> wl_ok (Some q) s \<Longrightarrow> sleep_wait q s = Some s' \<Longrightarrow>
    sys_step (s, c) (s', c)"
| pipe_wake: "RUNNING s = Some t \<Longrightarrow> t \<noteq> 0 \<Longrightarrow> c t = In_user \<Longrightarrow> wl_ok (Some q) s \<Longrightarrow> wake_up_pipe q s = Some s' \<Longrightarrow>
    sys_step (s, c) (s', c)"

section \<open>Each step keeps the invariant\<close>

lemma same_lists_inv:
  assumes "sched_inv s" "queued s' = queued s" "running_list s' = running_list s" "sleep_list s' = sleep_list s"
    "exit_list s' = exit_list s" "waiting s' = waiting s" "RUNNING s' = RUNNING s" "locked s' = locked s"
    "length (tasks s') = length (tasks s)" "\<And>t. t < length (tasks s) \<Longrightarrow> stat s' t = stat s t"
    "\<forall>x \<in> set (tasks s'). root_ok x"
  shows "sched_inv s'"
proof -
  note pre = sched_inv_pre[OF assms(1)]
  have "stat s' t = stat s t" if "t \<in> set (queued s)" for t using assms(10) queued_valid[OF pre that] by simp
  then have st: "stat s' t = stat s t"
    if "t \<in> set (running_list s) \<or> t \<in> set (tl (running_list s)) \<or> t \<in> set (sleep_list s) \<or> t \<in> set (exit_list s) \<or> t \<in> set (waiting s)" for t
    using that list.set_sel(2)[of "running_list s" t] sched_preD(4)[OF pre] by (auto simp: queued_def)
  have hd: "hd (running_list s) \<in> set (running_list s)" using sched_preD(4)[OF pre] by simp
  show ?thesis
    using assms(1) assms(11) hd unfolding sched_inv_def sched_pre_def by (auto simp: assms(2-9) st)
qed

lemma new_task_inv:
  assumes inv: "sched_inv s" and x: "t_status x = TaskRunning" "root_ok x"
    and s': "tasks s' = tasks s @ [x]" "running_list s' = running_list s @ [length (tasks s)]" "sleep_list s' = sleep_list s"
      "exit_list s' = exit_list s" "pipes s' = pipes s" "RUNNING s' = RUNNING s" "locked s' = locked s"
  shows "sched_inv s'"
proof -
  note pre = sched_inv_pre[OF inv]
  note D = sched_preD[OF pre]
  have val: "t < length (tasks s)" if "t \<in> set (queued s)" for t using queued_valid[OF pre that] .
  have w: "waiting s' = waiting s" using s'(5) by (simp add: waiting_def)
  have st: "stat s' t = (if t = length (tasks s) then TaskRunning else stat s t)" if "t \<le> length (tasks s)" for t
    using that x(1) by (auto simp: stat_def s'(1) nth_append)
  have le: "t \<le> length (tasks s)" "t \<noteq> length (tasks s)"
    if "t \<in> set (running_list s) \<or> t \<in> set (sleep_list s) \<or> t \<in> set (exit_list s) \<or> t \<in> set (waiting s)" for t
    using val[of t] that by (auto simp: queued_def)
  have stq: "stat s' t = stat s t"
    if "t \<in> set (running_list s) \<or> t \<in> set (sleep_list s) \<or> t \<in> set (exit_list s) \<or> t \<in> set (waiting s)" for t
    using st[OF le(1)[OF that]] le(2)[OF that] by simp
  have q: "mset (queued s') = add_mset (length (tasks s)) (mset (queued s))" by (simp add: queued_def s' w)
  have "length (tasks s) \<notin> set (queued s)" using val by blast
  then have "distinct (length (tasks s) # queued s)" using D(2) by simp
  then have dis: "distinct (queued s')" using q mset_eq_imp_distinct_iff[of "queued s'" "length (tasks s) # queued s"] by simp
  have "set (queued s') = insert (length (tasks s)) (set (queued s))" using q by (metis set_mset_add_mset_insert set_mset_mset)
  then have sub: "set (queued s') \<subseteq> {..<length (tasks s')}" using D(3) by (auto simp: s'(1))
  obtain h r where rl: "running_list s = h # r" using D(4) by (cases "running_list s") auto
  have hz: "stat s h \<noteq> TaskZombie" using inv rl by (simp add: sched_inv_def)
  have run: "stat s' t \<noteq> TaskZombie" if t: "t \<in> set (running_list s')" for t
  proof (cases "t = length (tasks s)")
    case True
    then show ?thesis using st[of t] by simp
  next
    case False
    then have "t \<in> set (running_list s)" using t by (auto simp: s'(2))
    then show ?thesis using stq[of t] hz D(8)[of t] rl by auto
  qed
  have h': "hd (running_list s') = hd (running_list s)" "running_list s' \<noteq> []" "hd (running_list s') \<in> set (running_list s')"
    using s'(2) rl by auto
  have tl': "t \<in> set (running_list s')" if "t \<in> set (tl (running_list s'))" for t using that by (rule list.set_sel(2)[rotated]) (use h' in simp)
  show ?thesis
    unfolding sched_inv_def sched_pre_def
    using D(1,5,6,7,9-12) dis sub run[OF tl'] run[OF h'(3)] h' x(2) by (auto simp: s' w stq)
qed

lemma pipe_to_run_queue:
  assumes inv: "sched_inv s" and i: "i < length (pipes s)"
    and p': "mset (pipe_waiting p') + mset ws = mset (pipe_waiting (pipes s ! i))"
    and s': "s' = s\<lparr>pipes := (pipes s)[i := p'], running_list := running_list s @ ws\<rparr>"
  shows "sched_inv s' \<and> set (queued s') = set (queued s)"
proof -
  note pre = sched_inv_pre[OF inv]
  note D = sched_preD[OF pre]
  have m: "mset (waiting s') + mset ws = mset (waiting s)"
  proof -
    have "mset (waiting s') + (mset (pipe_waiting p') + mset ws) = mset (waiting s) + mset (pipe_waiting p')"
      unfolding p' using mset_concat_update[OF i, of pipe_waiting p'] by (simp add: s' waiting_def)
    then have "mset (waiting s') + mset ws + mset (pipe_waiting p') = mset (waiting s) + mset (pipe_waiting p')"
      by (simp add: ac_simps)
    then show ?thesis by (simp only: add_right_cancel)
  qed
  have "set (waiting s') \<union> set ws = set (waiting s)" using arg_cong[OF m, of set_mset] by simp
  then have w: "set (waiting s') \<subseteq> set (waiting s)" "set ws \<subseteq> set (waiting s)" by auto
  have q: "mset (queued s') = mset (queued s)" using m by (simp add: s' queued_def ac_simps)
  then have dis: "distinct (queued s')" "set (queued s') = set (queued s)"
    using D(2) mset_eq_imp_distinct_iff[OF q] mset_eq_setD[OF q] by auto
  obtain h r where rl: "running_list s = h # r" using D(4) by (cases "running_list s") auto
  have f: "tasks s' = tasks s" "locked s' = locked s" "RUNNING s' = RUNNING s" "sleep_list s' = sleep_list s"
    "exit_list s' = exit_list s" "running_list s' = h # r @ ws" "stat s' t = stat s t" for t
    by (simp_all add: s' stat_def rl)
  have ws: "stat s t \<noteq> TaskZombie" if "t \<in> set ws" for t using D(10)[of t] w that by auto
  show ?thesis
    using inv ws w dis D(6) unfolding sched_inv_def sched_pre_def by (auto simp: f rl)
qed

lemma wake_up_pipe_inv:
  assumes inv: "sched_inv s" and q: "wl_ok (Some q) s"
  shows "\<exists>s' ws. wake_up_pipe q s = Some s' \<and> sched_inv s' \<and> tasks s' = tasks s \<and> RUNNING s' = RUNNING s \<and>
    cpu s' = cpu s \<and> satp s' = satp s \<and> g_tid s' = g_tid s \<and> running_list s' = running_list s @ ws \<and>
    sleep_list s' = sleep_list s \<and> exit_list s' = exit_list s \<and> set (queued s') = set (queued s) \<and>
    ws = (case q of Wait_write i \<Rightarrow> p_wait_write (pipes s ! i) | Wait_read i \<Rightarrow> p_wait_read (pipes s ! i))"
proof (cases q)
  case (Wait_write i)
  let ?p = "(pipes s ! i)\<lparr>p_wait_write := [], p_runq := []\<rparr>" and ?ws = "p_wait_write (pipes s ! i)"
  let ?s = "s\<lparr>pipes := (pipes s)[i := ?p], running_list := running_list s @ ?ws\<rparr>"
  have i: "i < length (pipes s)" using q Wait_write by (simp add: wl_ok_def)
  have "sched_inv ?s \<and> set (queued ?s) = set (queued s)"
    by (rule pipe_to_run_queue[OF inv i _ refl]) (simp add: pipe_waiting_def)
  then show ?thesis using i Wait_write by (simp add: with_pipe_def vec_get_def wake_up_write_def)
next
  case (Wait_read i)
  let ?p = "(pipes s ! i)\<lparr>p_wait_read := [], p_runq := []\<rparr>" and ?ws = "p_wait_read (pipes s ! i)"
  let ?s = "s\<lparr>pipes := (pipes s)[i := ?p], running_list := running_list s @ ?ws\<rparr>"
  have i: "i < length (pipes s)" using q Wait_read by (simp add: wl_ok_def)
  have "sched_inv ?s \<and> set (queued ?s) = set (queued s)"
    by (rule pipe_to_run_queue[OF inv i _ refl]) (simp add: pipe_waiting_def)
  then show ?thesis using i Wait_read by (simp add: with_pipe_def vec_get_def wake_up_read_def)
qed

lemma queued_upd [simp]:
  "queued (s\<lparr>tic_counter := n\<rparr>) = queued s" "queued (s\<lparr>cpu := r\<rparr>) = queued s" "queued (s\<lparr>kern := k\<rparr>) = queued s"
  "queued (s\<lparr>dfiles := d\<rparr>) = queued s" "waiting (s\<lparr>dfiles := d\<rparr>) = waiting s"
  "queued (s\<lparr>out := w\<rparr>) = queued s" "waiting (s\<lparr>out := w\<rparr>) = waiting s"
  "waiting (s\<lparr>kern := k\<rparr>) = waiting s" "queued (s\<lparr>user_writes := u\<rparr>) = queued s" "waiting (s\<lparr>user_writes := u\<rparr>) = waiting s"
  by (simp_all add: queued_def waiting_def)

lemma sched_inv_upd [simp]:
  "sched_inv (s\<lparr>tic_counter := n\<rparr>) = sched_inv s" "sched_inv (s\<lparr>user_writes := u\<rparr>) = sched_inv s"
  "sched_inv (s\<lparr>dfiles := d\<rparr>) = sched_inv s" "sched_inv (s\<lparr>out := w\<rparr>) = sched_inv s"
  "sched_inv (s\<lparr>cpu := r\<rparr>) = sched_inv s" "sched_inv (s\<lparr>kern := k\<rparr>) = sched_inv s"
  by (simp_all add: sched_inv_def sched_pre_def stat_def)

lemma timer_entry_ok:
  assumes "sched_inv s"
  shows "\<exists>s'. timer_entry s = Some s' \<and> sched_inv s' \<and>
    (if tic_counter s \<noteq> TIC_MAX \<or> tl (running_list s) = []
     then s' = s\<lparr>tic_counter := if tic_counter s = TIC_MAX then 0 else (tic_counter s + 1) mod 2 ^ 64\<rparr>
     else scheduled None (s\<lparr>tic_counter := 0\<rparr>) s')"
proof (cases "tic_counter s = TIC_MAX")
  case True
  have "sched_inv (s\<lparr>tic_counter := 0\<rparr>)" using assms by simp
  from scheduler_ok[OF sched_inv_pre[OF this], of None] show ?thesis
    using True by (auto simp: timer_entry_def tic_def Let_def wl_ok_def)
qed (use assms in \<open>simp add: timer_entry_def tic_def Let_def\<close>)

lemma irq_handler_timer: "irq_handler s = Some s' \<Longrightarrow> timer_entry s = Some s'"
  by (auto simp: irq_handler_def bind_eq_Some_conv)

text \<open>What fork does to the lists.\<close>

lemma do_fork_shape:
  assumes "do_fork utr s t tf = Some (new, s1)"
  shows "\<exists>k. s1 = s\<lparr>g_tid := (g_tid s + 1) mod 2 ^ 64, kern := k\<rparr> \<and> t_tid new = g_tid s \<and> t_tgid new = g_tid s \<and>
    t_status new = TaskRunning \<and> t_parent new = Some t \<and> exit_code new = 0 \<and>
    opened new = opened (tasks s ! t) \<and> pwd new = pwd (tasks s ! t)"
proof -
  have op: "map (get_opened x) [0..<length (opened x)] = opened x" for x :: "'a Task"
    by (rule nth_equalityI) (simp_all add: get_opened_def)
  obtain x new0 where x: "lock_task s t = Some x" and v: "vfork_step_one utr s x tf = Some (new0, s1)"
    and new: "new = new0\<lparr>t_parent := Some t\<rparr>" using assms by (auto simp: do_fork_def bind_eq_Some_conv)
  have "x = tasks s ! t" using x by (auto simp: lock_task_def vec_get_def split: if_splits)
  moreover obtain st k0 old mm k1 sp where "Stack_new False 0 0 (kern s) = Some (st, k0)" "t_mm x = Some old"
    "new_mm_by_old (kernel_pt s) old k0 = Some (mm, k1)" "kstack_top k1 st = Some sp"
    using v by (auto simp: vfork_step_one_def generate_tid_def bind_eq_Some_conv)
  ultimately show ?thesis using v new by (auto simp: vfork_step_one_def generate_tid_def op)
qed

lemma sys_clone_shape:
  assumes "sys_clone utr flags sp ptid ctid tls tf s = Some (r, s')"
  shows "\<exists>new k u t. RUNNING s = Some t \<and> r = as_isize (g_tid s) \<and>
    s' = s\<lparr>g_tid := (g_tid s + 1) mod 2 ^ 64, kern := k, user_writes := u, tasks := tasks s @ [new],
      running_list := running_list s @ [length (tasks s)]\<rparr> \<and>
    t_tid new = g_tid s \<and> t_tgid new = g_tid s \<and> t_status new = TaskRunning \<and> t_parent new = Some t \<and> exit_code new = 0 \<and>
    opened new = opened (tasks s ! t) \<and> pwd new = pwd (tasks s ! t)"
proof -
  obtain t new s1 tf' new' s2 where f: "RUNNING s = Some t" "do_fork utr s t tf' = Some (new, s1)"
      "clone_tids flags ctid new s1 = Some (new', s2)" "r = as_isize (t_tid new')"
      "s' = s2\<lparr>tasks := tasks s2 @ [new'], running_list := running_list s2 @ [length (tasks s2)]\<rparr>"
    using assms by (auto simp: sys_clone_def get_running_def bind_eq_Some_conv Let_def arc_new_def add_task_def split: if_splits)
  obtain k where k: "s1 = s\<lparr>g_tid := (g_tid s + 1) mod 2 ^ 64, kern := k\<rparr>" "t_tid new = g_tid s" "t_tgid new = g_tid s"
    "t_status new = TaskRunning" "t_parent new = Some t" "exit_code new = 0" "opened new = opened (tasks s ! t)"
    "pwd new = pwd (tasks s ! t)" using do_fork_shape[OF f(2)] by blast
  have "\<exists>u. s2 = s1\<lparr>user_writes := u\<rparr>"
    using f(3) by (auto simp: clone_tids_def user_write_def bind_eq_Some_conv split: if_splits intro: exI[of _ "user_writes s1"])
  then obtain u where "s2 = s1\<lparr>user_writes := u\<rparr>" by blast
  moreover have "t_tid new' = t_tid new" "t_tgid new' = t_tgid new" "t_status new' = t_status new" "t_parent new' = t_parent new"
    "exit_code new' = exit_code new" "opened new' = opened new" "pwd new' = pwd new"
    using f(3) by (auto simp: clone_tids_def user_write_def bind_eq_Some_conv split: if_splits)
  ultimately show ?thesis using f(1,4,5) k by auto
qed

section \<open>What a step does\<close>

text \<open>
  A step either leaves the processor to the running task, and then at most adds one task to the table, or it
  ends in the scheduler.  Identifiers, parents and page tables stay, and a task that has exited stays so.
\<close>

definition kept_tasks :: "'f Task list \<Rightarrow> 'f Task list \<Rightarrow> bool" where
  "kept_tasks xs ys \<longleftrightarrow> list_all2 kept xs ys"

definition quiet :: "'f Sys \<Rightarrow> 'f Sys \<Rightarrow> bool" where
  "quiet s s' \<longleftrightarrow> RUNNING s' = RUNNING s \<and> satp s' = satp s \<and>
     (kept_tasks (tasks s) (tasks s') \<and> g_tid s' = g_tid s \<and> set (queued s') = set (queued s) \<or>
      (\<exists>x. tasks s' = tasks s @ [x] \<and> set (queued s') = insert (length (tasks s)) (set (queued s)) \<and> g_tid s' = (g_tid s + 1) mod 2 ^ 64 \<and> t_tid x = g_tid s \<and> exit_code x = 0 \<and>
         (t_parent x = None \<or> t_parent x = RUNNING s)))"

definition switched :: "'f Sys \<Rightarrow> 'f Sys \<Rightarrow> bool" where
  "switched s s' \<longleftrightarrow> (\<exists>s0 assign. scheduled assign s0 s' \<and> kept_tasks (tasks s) (tasks s0) \<and> cpu s0 = cpu s \<and>
     g_tid s0 = g_tid s \<and> RUNNING s = Some (hd (running_list s0)) \<and> set (queued s0) = set (queued s))"

lemma kept_refl [simp]: "kept x x" "kept_tasks xs xs"
  by (simp_all add: kept_def kept_tasks_def list_all2_refl)

lemma kept_tasks_update:
  "i < length xs \<Longrightarrow> kept (xs ! i) y \<Longrightarrow> kept_tasks xs (xs[i := y])"
  by (auto simp: kept_tasks_def list_all2_conv_all_nth nth_list_update)

lemma kept_tasks_awake:
  assumes "kept_tasks xs ys" "\<forall>i \<in> set ss. i < length ys \<longrightarrow> t_status (xs ! i) \<noteq> TaskZombie \<and> exit_code (ys ! i) = exit_code (xs ! i)"
  shows "kept_tasks xs (awake ss ys)"
  using assms by (auto simp: kept_tasks_def list_all2_conv_all_nth awake_nth kept_def set_status_def)

lemma root_ok_root_of: "root_of (t_mm y) = root_of (t_mm x) \<Longrightarrow> root_ok y = root_ok x"
  by (cases "t_mm x"; cases "t_mm y") (simp_all add: root_of_def root_ok_def)

lemma tick_step:
  assumes inv: "sched_inv s" and st: "irq_handler s = Some s'"
  shows "sched_inv s' \<and> (quiet s s' \<or> switched s s')"
proof -
  have "timer_entry s = Some s'" by (rule irq_handler_timer[OF st])
  then have T: "sched_inv s'" "if tic_counter s \<noteq> TIC_MAX \<or> tl (running_list s) = []
     then s' = s\<lparr>tic_counter := if tic_counter s = TIC_MAX then 0 else (tic_counter s + 1) mod 2 ^ 64\<rparr>
     else scheduled None (s\<lparr>tic_counter := 0\<rparr>) s'" using timer_entry_ok[OF inv] by auto
  show ?thesis
  proof (cases "tic_counter s \<noteq> TIC_MAX \<or> tl (running_list s) = []")
    case True
    then show ?thesis using T by (simp add: quiet_def)
  next
    case False
    then have sc: "scheduled None (s\<lparr>tic_counter := 0\<rparr>) s'" using T(2) by simp
    have "switched s s'"
      unfolding switched_def
      by (rule exI[of _ "s\<lparr>tic_counter := 0\<rparr>"], rule exI[of _ None])
        (use sc sched_preD(5)[OF sched_inv_pre[OF inv]] in simp)
    then show ?thesis using T(1) by simp
  qed
qed

lemma run_step:
  assumes inv: "sched_inv s" and t: "RUNNING s = Some t" and y: "kept (tasks s ! t) y" "t_status y = stat s t"
  shows "sched_inv ((put_task s t (\<lambda>_. y))\<lparr>cpu := r, kern := k, dfiles := d, user_writes := u, out := w\<rparr>) \<and>
    quiet s ((put_task s t (\<lambda>_. y))\<lparr>cpu := r, kern := k, dfiles := d, user_writes := u, out := w\<rparr>)"
proof -
  note pre = sched_inv_pre[OF inv]
  note D = sched_preD[OF pre]
  have t': "t < length (tasks s)" using t D(4,5) queued_valid[OF pre, of t] by (auto simp: queued_def)
  let ?s = "put_task s t (\<lambda>_. y)"
  have rt: "root_ok x" if x: "x \<in> set (tasks ?s)" for x
  proof -
    have "x = y \<or> x \<in> set (tasks s)"
      using x set_update_subset_insert[of "tasks s" t y] by (auto simp: put_task_def)
    moreover have "root_ok y = root_ok (tasks s ! t)" by (rule root_ok_root_of) (use y(1) in \<open>simp add: kept_def\<close>)
    ultimately show ?thesis using D(12)[OF nth_mem[OF t']] D(12)[of x] by auto
  qed
  have "stat ?s i = stat s i" for i using y(2) by (simp add: stat_put_task[OF t'])
  then have "sched_inv ?s" by (intro same_lists_inv[OF inv]) (simp_all add: rt)
  moreover have "quiet s ?s" using kept_tasks_update[OF t' y(1)] queued_put_task(1)[of s t "\<lambda>_. y"] by (simp add: quiet_def put_task_def)
  ultimately show ?thesis by (simp add: quiet_def)
qed

lemma pipe_step:
  assumes inv: "sched_inv s"
  shows "sched_inv (s\<lparr>pipes := pipes s @ [pipe_new []]\<rparr>) \<and> quiet s (s\<lparr>pipes := pipes s @ [pipe_new []]\<rparr>)"
proof -
  have w: "waiting (s\<lparr>pipes := pipes s @ [pipe_new []]\<rparr>) = waiting s"
    by (simp add: waiting_def pipe_waiting_def pipe_new_def)
  have "sched_inv (s\<lparr>pipes := pipes s @ [pipe_new []]\<rparr>)"
    by (intro same_lists_inv[OF inv])
      (use sched_preD(12)[OF sched_inv_pre[OF inv]] in \<open>simp_all add: w queued_def stat_def\<close>)
  then show ?thesis by (simp add: quiet_def queued_def w)
qed

lemma spawn_step:
  assumes inv: "sched_inv s" and x: "t_tid x = g_tid s" "t_status x = TaskRunning" "exit_code x = 0" "t_parent x = None" "root_ok x"
  shows "sched_inv (run_task x (snd (generate_tid s))) \<and> quiet s (run_task x (snd (generate_tid s)))"
proof
  show "sched_inv (run_task x (snd (generate_tid s)))"
    by (rule new_task_inv[OF inv x(2,5)]) (simp_all add: run_task_def arc_new_def add_task_def generate_tid_def)
qed (use x in \<open>auto simp: quiet_def run_task_def arc_new_def add_task_def generate_tid_def queued_def waiting_def\<close>)

lemma clone_step:
  assumes inv: "sched_inv s" and cl: "sys_clone utr flags sp ptid ctid tls tf s = Some (r, s')" and rt: "root_ok (last (tasks s'))"
  shows "sched_inv s' \<and> quiet s s'"
proof -
  obtain new k u t where n: "RUNNING s = Some t"
    "s' = s\<lparr>g_tid := (g_tid s + 1) mod 2 ^ 64, kern := k, user_writes := u, tasks := tasks s @ [new],
      running_list := running_list s @ [length (tasks s)]\<rparr>"
    "t_tid new = g_tid s" "t_status new = TaskRunning" "t_parent new = Some t" "exit_code new = 0"
    using sys_clone_shape[OF cl] by auto
  have "sched_inv s'" by (rule new_task_inv[OF inv n(4)]) (use rt in \<open>simp_all add: n(2)\<close>)
  moreover have "quiet s s'" using n by (auto simp: quiet_def queued_def waiting_def)
  ultimately show ?thesis by simp
qed

lemma asleep_switched:
  assumes inv: "sched_inv s" and sc: "scheduled assign (put_task s (hd (running_list s)) (set_status TaskSleeping)) s'"
  shows "switched s s'"
proof -
  note pre = sched_inv_pre[OF inv]
  note D = sched_preD[OF pre]
  let ?c = "hd (running_list s)"
  have c: "?c < length (tasks s)" using D(4) queued_valid[OF pre, of ?c] by (auto simp: queued_def)
  have "kept (tasks s ! ?c) (set_status TaskSleeping (tasks s ! ?c))"
    using inv by (simp add: kept_def set_status_def sched_inv_def stat_def)
  from kept_tasks_update[OF c this] show ?thesis
    unfolding switched_def
    by (intro exI[of _ "put_task s ?c (set_status TaskSleeping)"] exI[of _ assign] conjI)
      (use sc D(5) queued_put_task(1)[of s ?c "set_status TaskSleeping"] in \<open>simp_all add: put_task_def\<close>)
qed

lemma leave_switched:
  assumes inv: "sched_inv s" and r: "RUNNING s \<noteq> Some 0" and ex: "exit_self code s = Some s'"
  shows "sched_inv s' \<and> switched s s'"
proof -
  note pre = sched_inv_pre[OF inv]
  note D = sched_preD[OF pre]
  let ?c = "hd (running_list s)"
  let ?y = "set_status TaskZombie ((tasks s ! ?c)\<lparr>exit_code := code\<rparr>)"
  obtain s2 where s2: "sched_inv s'" "scheduled None s2 s'" "cpu s2 = cpu s" "g_tid s2 = g_tid s" "hd (running_list s2) = ?c"
    "set (queued s2) = set (queued s)" "tasks s2 = awake (rev (sleep_list s)) ((tasks s)[?c := ?y])" using exit_self_ok[OF inv r, of code] ex by auto
  have c: "?c < length (tasks s)" using D(4) queued_valid[OF pre, of ?c] by (auto simp: queued_def)
  have k1: "kept_tasks (tasks s) ((tasks s)[?c := ?y])"
    by (rule kept_tasks_update[OF c]) (simp add: kept_def set_status_def)
  have "?c \<notin> set (sleep_list s)" using D(2,4) by (cases "running_list s") (auto simp: queued_def)
  then have "\<forall>i \<in> set (rev (sleep_list s)). i < length ((tasks s)[?c := ?y]) \<longrightarrow>
      t_status (tasks s ! i) \<noteq> TaskZombie \<and> exit_code ((tasks s)[?c := ?y] ! i) = exit_code (tasks s ! i)"
    using D(9) by (auto simp: stat_def nth_update_if)
  from kept_tasks_awake[OF k1 this] have "kept_tasks (tasks s) (tasks s2)" using s2(7) by simp
  then have "switched s s'" unfolding switched_def using s2 D(5) by (intro exI[of _ s2] exI[of _ None]) simp
  then show ?thesis using s2(1) by simp
qed

lemma sys_step_cases:
  assumes "sys_step (s, c) (s', c')" "sched_inv s"
  shows "sched_inv s' \<and> (quiet s s' \<or> switched s s')"
  using assms
proof (induction "(s, c)" "(s', c')" rule: sys_step.induct)
  case (tick t)
  then show ?case using tick_step by blast
next
  case (run t y r k d u w)
  then show ?case using run_step by blast
next
  case (pipe t)
  then show ?case using pipe_step by blast
next
  case (spawn x)
  then show ?case using spawn_step by blast
next
  case (clone t utr flags sp ptid ctid tls tf r)
  then show ?case using clone_step by blast
next
  case (leave t code)
  then show ?case using leave_switched[OF leave.prems] by (auto simp: sys_exit_def)
next
  case (wait t pid opt k w)
  then show ?case by (simp add: quiet_def)
next
  case (found t k w code tid r)
  then have "\<exists>u. s' = s\<lparr>user_writes := u\<rparr>" by (auto simp: wait4_done_def user_write_def bind_eq_Some_conv)
  then show ?case using found.prems by (auto simp: quiet_def)
next
  case (wait_sleep t k w)
  then have "sleep_self_in_sleeping_list s = Some s'" by (auto simp: wait_round_def bind_eq_Some_conv split: option.splits)
  then show ?case using sleep_self_ok[OF wait_sleep.prems] wait_sleep.hyps asleep_switched[OF wait_sleep.prems] by fastforce
next
  case (poll t)
  then show ?case using sleep_self_ok[OF poll.prems] asleep_switched[OF poll.prems] by fastforce
next
  case (pipe_sleep t q)
  then show ?case using sleep_wait_ok[OF pipe_sleep.prems, of q] asleep_switched[OF pipe_sleep.prems] by fastforce
next
  case (pipe_wake t q)
  then show ?case using wake_up_pipe_inv[OF pipe_wake.prems, of q] by (auto simp: quiet_def)
qed

end
