(* ===== verification/K_Task_Props.thy ===== *)
theory K_Task_Props
  imports K_Task_Steps
begin

text \<open>
  Properties of the system of tasks in every state it can reach from its start: the lists, the registers and
  page tables of the tasks, turns of the run queue, and what \<^verbatim>\<open>wait4\<close> and pipes do to it.
\<close>

section \<open>Reachable states\<close>

definition empty_sys :: "Kern \<Rightarrow> PageTable \<Rightarrow> TaskContext \<Rightarrow> u64 \<Rightarrow> 'f Sys" where
  "empty_sys k pt r v =
     \<lparr>g_tid = 1, tasks = [], running_list = [], sleep_list = [], exit_list = [], RUNNING = None, locked = {},
      dfiles = [], pipes = [], tic_counter = 0, kern = k, kernel_pt = pt, cpu = r, satp = v, user_writes = [], out = []\<rparr>"

definition booted :: "'f Sys \<Rightarrow> bool" where
  "booted s \<longleftrightarrow> (\<exists>k pt r v b bt sp. core_init b bt sp 0 (empty_sys k pt r v) = Some s)"

definition reach :: "'f Sys \<Rightarrow> (arc \<Rightarrow> cont) \<Rightarrow> bool" where
  "reach s c \<longleftrightarrow> (\<exists>s0. booted s0 \<and> sys_step\<^sup>*\<^sup>* (s0, \<lambda>_. In_user) (s, c))"

definition satp_ok :: "'f Sys \<Rightarrow> bool" where
  "satp_ok s \<longleftrightarrow> (\<forall>t. RUNNING s = Some t \<and> is_user (tasks s ! t) \<longrightarrow> satp s = satp_of (tasks s ! t))"

text \<open>The identifiers are given out in the order of the table, from 1 on.\<close>

definition nth_tid :: "nat \<Rightarrow> usize" where
  "nth_tid i = (i + 1) mod 2 ^ 64"

definition task_inv :: "'f Sys \<Rightarrow> bool" where
  "task_inv s \<longleftrightarrow> sched_inv s \<and> satp_ok s \<and> set (queued s) = {..<length (tasks s)} \<and> g_tid s = nth_tid (length (tasks s)) \<and>
     (\<forall>i < length (tasks s). t_tid (tasks s ! i) = nth_tid i \<and>
        (stat s i \<noteq> TaskZombie \<longrightarrow> exit_code (tasks s ! i) = 0) \<and>
        (\<forall>p. t_parent (tasks s ! i) = Some p \<longrightarrow> p < i))"

lemma task_invD:
  assumes "task_inv s"
  shows "sched_inv s" "sched_pre s" "satp_ok s" "g_tid s = nth_tid (length (tasks s))"
    "i < length (tasks s) \<Longrightarrow> t_tid (tasks s ! i) = nth_tid i"
    "i < length (tasks s) \<Longrightarrow> stat s i \<noteq> TaskZombie \<Longrightarrow> exit_code (tasks s ! i) = 0"
    "i < length (tasks s) \<Longrightarrow> t_parent (tasks s ! i) = Some p \<Longrightarrow> p < i"
    "set (queued s) = {..<length (tasks s)}"
  using assms sched_inv_pre unfolding task_inv_def by auto

lemma satp_of_root: "root_of (t_mm y) = root_of (t_mm x) \<Longrightarrow> is_user y = is_user x \<and> (is_user x \<longrightarrow> satp_of y = satp_of x)"
  by (cases "t_mm x"; cases "t_mm y") (simp_all add: root_of_def is_user_def satp_of_def)

lemma kept_nth: "kept_tasks xs ys \<Longrightarrow> length ys = length xs \<and> (\<forall>i < length xs. kept (xs ! i) (ys ! i))"
  by (simp add: kept_tasks_def list_all2_conv_all_nth)

lemma ids_kept:
  assumes inv: "task_inv s" and k: "kept_tasks (tasks s) ts"
  shows "\<forall>i < length ts. t_tid (ts ! i) = nth_tid i \<and>
    (t_status (ts ! i) \<noteq> TaskZombie \<longrightarrow> exit_code (ts ! i) = 0) \<and> (\<forall>p. t_parent (ts ! i) = Some p \<longrightarrow> p < i)"
  using kept_nth[OF k] task_invD(5-7)[OF inv] by (auto simp: kept_def stat_def)

lemma quiet_task_inv:
  assumes inv: "task_inv s" and q: "quiet s s'" and s': "sched_inv s'"
  shows "task_inv s'"
proof -
  note pre = task_invD(2)[OF inv]
  obtain t where t: "RUNNING s = Some t" "t < length (tasks s)"
    using sched_preD(4,5)[OF pre] queued_valid[OF pre, of "hd (running_list s)"] by (auto simp: queued_def)
  have same: "RUNNING s' = Some t" "satp s' = satp s" using q t(1) by (auto simp: quiet_def)
  have sat: "is_user (tasks s ! t) \<longrightarrow> satp s = satp_of (tasks s ! t)" using task_invD(3)[OF inv] t(1) by (simp add: satp_ok_def)
  from q consider (kept) "kept_tasks (tasks s) (tasks s')" "g_tid s' = g_tid s" "set (queued s') = set (queued s)"
    | (new) x where "tasks s' = tasks s @ [x]" "g_tid s' = (g_tid s + 1) mod 2 ^ 64" "t_tid x = g_tid s" "exit_code x = 0"
        "t_parent x = None \<or> t_parent x = Some t" "set (queued s') = insert (length (tasks s)) (set (queued s))"
    unfolding quiet_def t(1) by metis
  then show ?thesis
  proof cases
    case kept
    have "satp_ok s'"
      using kept_nth[OF kept(1)] t(2) sat satp_of_root[of "tasks s' ! t" "tasks s ! t"] same by (simp add: satp_ok_def kept_def)
    then show ?thesis
      using ids_kept[OF inv kept(1)] kept_nth[OF kept(1)] kept(2,3) task_invD(4,8)[OF inv] s' by (simp add: task_inv_def stat_def)
  next
    case new
    have "satp_ok s'" using sat same t(2) new(1) by (simp add: satp_ok_def nth_append)
    moreover have "i < length (tasks s') \<Longrightarrow> t_tid (tasks s' ! i) = nth_tid i \<and>
        (stat s' i \<noteq> TaskZombie \<longrightarrow> exit_code (tasks s' ! i) = 0) \<and> (\<forall>p. t_parent (tasks s' ! i) = Some p \<longrightarrow> p < i)" for i
    proof (cases "i = length (tasks s)")
      case True
      then show ?thesis using new(1,3-5) t(2) task_invD(4)[OF inv] by (auto simp only: nth_append_length option.simps)
    next
      case False
      assume "i < length (tasks s')"
      then have i: "i < length (tasks s)" using False new(1) by simp
      then have "tasks s' ! i = tasks s ! i" using new(1) by (simp add: nth_append)
      then show ?thesis using task_invD(5-7)[OF inv i] by (simp only: stat_def) blast
    qed
    moreover have "g_tid s' = nth_tid (length (tasks s'))"
      using new(1,2) task_invD(4)[OF inv] by (simp add: mod_Suc_eq nth_tid_def)
    moreover have "set (queued s') = {..<length (tasks s')}" using new(1,6) task_invD(8)[OF inv] by (simp add: lessThan_Suc)
    ultimately show ?thesis using s' by (simp add: task_inv_def)
  qed
qed

lemma switched_task_inv:
  assumes inv: "task_inv s" and q: "switched s s'" and s': "sched_inv s'"
  shows "task_inv s'"
proof -
  obtain s0 assign where s0: "scheduled assign s0 s'" "kept_tasks (tasks s) (tasks s0)" "g_tid s0 = g_tid s" "set (queued s0) = set (queued s)"
    using q unfolding switched_def by blast
  note S = s0(1)[unfolded scheduled_def Let_def] and K = kept_nth[OF s0(2)]
  let ?c = "hd (running_list s0)" and ?n = "hd (tl (running_list s0))"
  have ts: "tasks s' = (tasks s0)[?c := (tasks s0 ! ?c)\<lparr>task_context := cpu s0\<rparr>]" using S by blast
  have nth: "tasks s' ! i = (if i = ?c then (tasks s0 ! ?c)\<lparr>task_context := cpu s0\<rparr> else tasks s0 ! i)"
    if "i < length (tasks s0)" for i using that by (simp add: ts nth_update_if)
  have len: "length (tasks s') = length (tasks s0)" by (simp add: ts)
  note pre' = sched_inv_pre[OF s']
  have n1: "RUNNING s' = Some ?n" using S by blast
  then have "?n \<in> set (queued s')" using sched_preD(4,5)[OF pre'] hd_in_set[of "running_list s'"] by (simp add: queued_def)
  then have n: "RUNNING s' = Some ?n" "?n < length (tasks s0)" using n1 queued_valid[OF pre'] len by auto
  have "satp s' = (if is_user (tasks s0 ! ?n) then satp_of (tasks s0 ! ?n) else satp s0)" using S by blast
  then have sat: "satp_ok s'" using n nth[OF n(2)] by (simp add: satp_ok_def is_user_def satp_of_def)
  have g: "g_tid s' = g_tid s" using S s0(3) by simp
  have ids: "\<forall>i < length (tasks s'). t_tid (tasks s' ! i) = nth_tid i \<and>
        (stat s' i \<noteq> TaskZombie \<longrightarrow> exit_code (tasks s' ! i) = 0) \<and> (\<forall>p. t_parent (tasks s' ! i) = Some p \<longrightarrow> p < i)"
    using ids_kept[OF inv s0(2)] by (simp add: len nth stat_def)
  have "set (queued s') = set (queued s)" using S s0(4) by (auto dest: mset_eq_setD)
  then show ?thesis unfolding task_inv_def using s' sat g ids K len task_invD(4,8)[OF inv] by simp
qed

lemma task_step: "sys_step (s, c) (s', c') \<Longrightarrow> task_inv s \<Longrightarrow> task_inv s'"
  using sys_step_cases task_invD(1) quiet_task_inv switched_task_inv by metis

lemma booted_inv:
  assumes "booted s"
  shows "task_inv s"
proof -
  obtain x where x: "tasks s = [x]" "running_list s = [0]" "sleep_list s = []" "exit_list s = []" "locked s = {}" "pipes s = []"
      "RUNNING s = Some 0" "g_tid s = 2" "t_tid x = 1" "t_mm x = None" "t_status x = TaskRunning" "exit_code x = 0" "t_parent x = None"
  proof -
    obtain k pt r v b bt sp where "core_init b bt sp 0 (empty_sys k pt r v :: 'a Sys) = Some s"
      using assms unfolding booted_def by blast
    then obtain addr k' e where "find_boot_stack bt sp b k = Some (addr, k')" "uadd addr (PAGE_SIZE * BOOT_STACK_NR_PAGES) = Some e"
      "s = add_task (set_running ((snd (arc_new (snd (generate_tid ((empty_sys k pt r v)\<lparr>kern := k'\<rparr>)))
         (new_task 1 \<lparr>st_start = addr, st_end = e, st_pages = None\<rparr> None 0)))
         \<lparr>cpu := r\<lparr>ctx_sscratch := 0, ctx_sstatus := ctx_sstatus r OR push_bit 18 1\<rparr>\<rparr>) 0) 0"
      by (auto simp: core_init_def Stack_new_def generate_tid_def arc_new_def empty_sys_def Let_def bind_eq_Some_conv)
    then show ?thesis
      by (intro that[of "new_task 1 \<lparr>st_start = addr, st_end = e, st_pages = None\<rparr> None 0"])
        (simp_all add: empty_sys_def generate_tid_def arc_new_def add_task_def set_running_def, simp_all add: new_task_def)
  qed
  then show ?thesis
    by (simp add: task_inv_def sched_inv_def sched_pre_def queued_def waiting_def stat_def root_ok_def satp_ok_def is_user_def
        lessThan_Suc nth_tid_def)
qed

lemma reach_inv: "reach s c \<Longrightarrow> task_inv s"
proof -
  assume "reach s c"
  then obtain s0 where "booted s0" "sys_step\<^sup>*\<^sup>* (s0, \<lambda>_. In_user) (s, c)" by (auto simp: reach_def)
  from this(2) booted_inv[OF this(1)] show ?thesis
    by (induction "(s, c)" arbitrary: s c rule: rtranclp_induct) (auto intro: task_step)
qed

section \<open>The scans of the waiting loops\<close>

lemma wait_for_scan_ok:
  assumes "\<forall>t \<in> set ts. t \<notin> locked s \<and> t < length (tasks s)"
  shows "wait_for_scan s ts tid \<noteq> None \<and> (\<forall>code i. wait_for_scan s ts tid = Some (Some (code, i)) \<longrightarrow>
    (\<exists>t \<in> set ts. t_tid (tasks s ! t) = i \<and> i = tid \<and> code = exit_code (tasks s ! t)))"
  using assms by (induction ts) (auto simp: lock_task_def vec_get_def)

lemma wait_children_scan_ok:
  assumes "\<forall>t \<in> set ts. t \<notin> locked s \<and> t < length (tasks s) \<and>
      (\<forall>p. t_parent (tasks s ! t) = Some p \<longrightarrow> p < t \<and> p \<notin> locked s)"
  shows "wait_children_scan s ts ptid \<noteq> None \<and> (\<forall>code i. wait_children_scan s ts ptid = Some (Some (code, i)) \<longrightarrow>
    (\<exists>t \<in> set ts. t_tid (tasks s ! t) = i \<and> code = exit_code (tasks s ! t)))"
  using assms
proof (induction ts)
  case (Cons t ts)
  have IH: "wait_children_scan s ts ptid \<noteq> None \<and> (\<forall>code i. wait_children_scan s ts ptid = Some (Some (code, i)) \<longrightarrow>
    (\<exists>t \<in> set ts. t_tid (tasks s ! t) = i \<and> code = exit_code (tasks s ! t)))" using Cons by auto
  have t: "lock_task s t = Some (tasks s ! t)" using Cons.prems by (auto simp: lock_task_def vec_get_def)
  show ?case
  proof (cases "get_parent s (tasks s ! t)")
    case None
    then show ?thesis using IH t by auto
  next
    case (Some p)
    then have p: "p < t" "p \<notin> locked s" "p < length (tasks s)"
      using Cons.prems by (auto simp: get_parent_def split: option.splits if_splits)
    then have "do { g \<leftarrow> keep_guard s t; lock_task g p } = Some (tasks s ! p)"
      using t by (simp add: keep_guard_def lock_task_def vec_get_def)
    then show ?thesis using IH t Some p by (auto simp: keep_guard_def lock_task_def vec_get_def)
  qed
qed simp

lemma wait_scan_ok:
  assumes inv: "task_inv s"
  shows "wait_scan k s \<noteq> None" "wait_scan k s = Some (Some (code, i)) \<Longrightarrow>
    \<exists>t \<in> set (sleep_list s). t_tid (tasks s ! t) = i \<and> code = exit_code (tasks s ! t) \<and> (\<forall>tid. k = Wait_for tid \<longrightarrow> i = tid)"
proof -
  note pre = task_invD(2)[OF inv]
  have sl: "\<forall>t \<in> set (sleep_list s). t \<notin> locked s \<and> t < length (tasks s)"
    using queued_valid[OF pre] sched_preD(1)[OF pre] by (auto simp: queued_def)
  then have sl': "\<forall>t \<in> set (sleep_list s). t \<notin> locked s \<and> t < length (tasks s) \<and>
      (\<forall>p. t_parent (tasks s ! t) = Some p \<longrightarrow> p < t \<and> p \<notin> locked s)"
    using task_invD(7)[OF inv] sched_preD(1)[OF pre] by auto
  note wf = wait_for_scan_ok[OF sl] and wc = wait_children_scan_ok[OF sl']
  show "wait_scan k s \<noteq> None"
    using conjunct1[OF wf] conjunct1[OF wc] by (cases k) (simp_all add: wait_scan_def)
  assume "wait_scan k s = Some (Some (code, i))"
  then show "\<exists>t \<in> set (sleep_list s). t_tid (tasks s ! t) = i \<and> code = exit_code (tasks s ! t) \<and> (\<forall>tid. k = Wait_for tid \<longrightarrow> i = tid)"
    using conjunct2[OF wf] conjunct2[OF wc] by (cases k) (force simp: wait_scan_def)+
qed

section \<open>A sample system\<close>

definition sample_kern :: Kern where
  "sample_kern = \<lparr>mem = (\<lambda>_. 0)(0x1000 := STACK_MAGIC), buddy_allocator = BuddyAllocator_default,
     pages_manager = PagesManager_default, heap = (\<lambda>_. None)\<rparr>"

definition sample_stack :: Stack where
  "sample_stack = \<lparr>st_start = 0x1000, st_end = 0x9000, st_pages = None\<rparr>"

definition sample_boot :: "unit Sys" where
  "sample_boot = (empty_sys sample_kern \<lparr>private_pgs = []\<rparr> TaskContext_new 0)\<lparr>g_tid := 2,
     tasks := [new_task 1 sample_stack None 0], running_list := [0], RUNNING := Some 0,
     cpu := TaskContext_new\<lparr>ctx_sstatus := push_bit 18 1\<rparr>\<rparr>"

text \<open>The first task has started a kernel task.\<close>

definition sample_two :: "unit Sys" where
  "sample_two = run_task (new_task 2 sample_stack None 0) (snd (generate_tid sample_boot))"

lemma sample_booted: "booted sample_boot"
  unfolding booted_def
  by (rule exI[of _ "sample_kern\<lparr>mem := \<lambda>_. 0\<rparr>"], rule exI[of _ "\<lparr>private_pgs = []\<rparr>"], rule exI[of _ TaskContext_new], rule exI[of _ 0],
      rule exI[of _ "0x1000"], rule exI[of _ "0x9000"], rule exI[of _ "0x9000"])
    (simp add: core_init_def find_boot_stack.simps uadd_def PAGE_SIZE_def BOOT_STACK_NR_PAGES_def rassert_def empty_sys_def
      sample_kern_def Stack_new_def generate_tid_def arc_new_def add_task_def set_running_def sample_boot_def sample_stack_def
      new_task_def TaskContext_new_def)

lemma sample_reach: "reach sample_two (\<lambda>_. In_user)"
proof -
  have "sys_step (sample_boot, \<lambda>_. In_user) (sample_two, \<lambda>_. In_user)"
    unfolding sample_two_def by (rule spawn) (simp_all add: sample_boot_def new_task_def empty_sys_def root_ok_def)
  then show ?thesis unfolding reach_def using sample_booted by blast
qed

lemma sample_two_simps [simp]:
  "running_list sample_two = [0, 1]" "sleep_list sample_two = []" "exit_list sample_two = []" "RUNNING sample_two = Some 0"
  "tic_counter sample_two = 0" "pipes sample_two = []" "kern sample_two = sample_kern" "locked sample_two = {}"
  "tasks sample_two = [new_task 1 sample_stack None 0, new_task 2 sample_stack None 0]"
  "cpu sample_two = TaskContext_new\<lparr>ctx_sstatus := push_bit 18 1\<rparr>"
  by (simp_all add: sample_two_def run_task_def arc_new_def add_task_def generate_tid_def sample_boot_def empty_sys_def)

section \<open>No task is lost and the scheduler never panics\<close>

text \<open>
  C2: In every state the system can reach, every task is on exactly one of the lists (run queue, sleeping,
  exited, waiting for a pipe), the running task is the first of the run queue, the exited list has only
  exited tasks, and the operations that call the scheduler do not panic: the timer in any task, and exit,
  sleeping and every round of waiting in any task but the first.
\<close>

theorem task_lists_safe:
  assumes "reach s c"
  shows "set (running_list s @ sleep_list s @ exit_list s @ waiting s) = {..<length (tasks s)} \<and>
    distinct (running_list s @ sleep_list s @ exit_list s @ waiting s) \<and>
    running_list s \<noteq> [] \<and> RUNNING s = Some (hd (running_list s)) \<and>
    (\<forall>t < length (tasks s). t \<in> set (exit_list s) \<longleftrightarrow> t_status (tasks s ! t) = TaskZombie) \<and>
    timer_entry s \<noteq> None \<and>
    (RUNNING s \<noteq> Some 0 \<longrightarrow> exit_self code s \<noteq> None \<and> sleep_self_in_sleeping_list s \<noteq> None \<and> wait_round k s \<noteq> None)"
proof (intro conjI)
  note inv = reach_inv[OF assms]
  note sinv = task_invD(1)[OF inv] and pre = task_invD(2)[OF inv]
  note D = sched_preD[OF pre]
  show "set (running_list s @ sleep_list s @ exit_list s @ waiting s) = {..<length (tasks s)}"
    "distinct (running_list s @ sleep_list s @ exit_list s @ waiting s)"
    "running_list s \<noteq> []" "RUNNING s = Some (hd (running_list s))"
    using task_invD(8)[OF inv] D(2,4,5) by (auto simp: queued_def)
  show "timer_entry s \<noteq> None" using timer_entry_ok[OF sinv] by auto
  have run: "stat s t \<noteq> TaskZombie" if "t \<in> set (running_list s)" for t
    using that sinv D(4) D(8)[of t] by (cases "running_list s") (auto simp: sched_inv_def)
  show "\<forall>t < length (tasks s). t \<in> set (exit_list s) \<longleftrightarrow> t_status (tasks s ! t) = TaskZombie"
  proof (intro allI impI)
    fix t assume "t < length (tasks s)"
    then have "t \<in> set (queued s)" using task_invD(8)[OF inv] by simp
    then consider "t \<in> set (running_list s)" | "t \<in> set (sleep_list s)" | "t \<in> set (exit_list s)" | "t \<in> set (waiting s)"
      by (auto simp: queued_def)
    then show "t \<in> set (exit_list s) \<longleftrightarrow> t_status (tasks s ! t) = TaskZombie"
      using run[of t] D(9-11)[of t] by cases (auto simp: stat_def)
  qed
  show "RUNNING s \<noteq> Some 0 \<longrightarrow> exit_self code s \<noteq> None \<and> sleep_self_in_sleeping_list s \<noteq> None \<and> wait_round k s \<noteq> None"
    using exit_self_ok[OF sinv, of code] sleep_self_ok[OF sinv] wait_scan_ok(1)[OF inv, of k]
    by (auto simp: wait_round_def split: option.splits)
qed

theorem task_lists_safe_witness:
  "reach sample_two (\<lambda>_. In_user) \<and> length (tasks sample_two) = 2 \<and> distinct (running_list sample_two) \<and>
    timer_entry (sample_two) \<noteq> None"
  using task_lists_safe[OF sample_reach] sample_reach by simp

end
