(* ===== verification/K_Task_Trace.thy ===== *)
theory K_Task_Trace
  imports K_Task_Props
begin

text \<open>
  The system of tasks over many steps: the turns of the run queue, the registers and page table of a task
  that runs again, waiting for children, and tasks that are woken from a pipe.
\<close>

section \<open>Turns of the run queue\<close>

text \<open>The registers of a task, whether it runs or not.\<close>

definition regs :: "'f Sys \<Rightarrow> arc \<Rightarrow> TaskContext" where
  "regs s t = (if RUNNING s = Some t then cpu s else task_context (tasks s ! t))"

primrec ticks :: "nat \<Rightarrow> 'f Sys \<Rightarrow> 'f Sys run" where
  "ticks 0 s = Some s"
| "ticks (Suc n) s = do { s \<leftarrow> irq_handler s; ticks n s }"

definition queue_ready :: "'f Sys \<Rightarrow> bool" where
  "queue_ready s \<longleftrightarrow> (\<forall>t \<in> set (running_list s). stat s t = TaskRunning \<and>
     check_magic (kern s) (kernel_stack (tasks s ! t)) = Some True)"

lemma ticks_add: "ticks (m + n) s = do { s \<leftarrow> ticks m s; ticks n s }"
  by (induction m arbitrary: s) (simp_all split: Option.bind_split)

lemma irq_handler_ready:
  assumes "sched_pre s" "queue_ready s"
  shows "irq_handler s = timer_entry s"
proof -
  have "check_magic (kern s) (kernel_stack (tasks s ! hd (running_list s))) = Some True"
    using assms(2) sched_preD(4)[OF assms(1)] by (simp add: queue_ready_def)
  then show ?thesis using running_task[OF assms(1)] by (simp add: irq_handler_def rassert_def)
qed

lemma ticks_count:
  assumes "sched_inv s" "queue_ready s" "tic_counter s + n \<le> TIC_MAX"
  shows "ticks n s = Some (s\<lparr>tic_counter := tic_counter s + n\<rparr>)"
  using assms
proof (induction n arbitrary: s)
  case (Suc n)
  let ?s = "s\<lparr>tic_counter := tic_counter s + 1\<rparr>"
  have "(tic_counter s + 1) mod 2 ^ 64 = tic_counter s + 1" using Suc.prems(3) by (simp add: TIC_MAX_def)
  then have "irq_handler s = Some ?s"
    using Suc.prems irq_handler_ready[OF sched_inv_pre[OF Suc.prems(1)] Suc.prems(2)]
    by (simp add: timer_entry_def tic_def Let_def)
  moreover have "ticks n ?s = Some (?s\<lparr>tic_counter := tic_counter ?s + n\<rparr>)"
    using Suc.prems by (intro Suc.IH) (simp_all add: queue_ready_def stat_def)
  ultimately show ?case by simp
qed simp

text \<open>One turn: the running task goes to the end of the queue and no register is lost.\<close>

definition turned :: "nat \<Rightarrow> 'f Sys \<Rightarrow> 'f Sys \<Rightarrow> bool" where
  "turned k s s' \<longleftrightarrow> sched_inv s' \<and> queue_ready s' \<and> tic_counter s' = 0 \<and> running_list s' = rotate k (running_list s) \<and>
     sleep_list s' = sleep_list s \<and> exit_list s' = exit_list s \<and> length (tasks s') = length (tasks s) \<and>
     (\<forall>t < length (tasks s). regs s' t = regs s t)"

lemma scheduled_turned:
  assumes inv: "sched_inv s" and rd: "queue_ready s" and z: "tic_counter s = 0" and two: "tl (running_list s) \<noteq> []"
    and sc: "scheduled None s s'" and inv': "sched_inv s'"
  shows "turned 1 s s'"
proof -
  note pre = sched_inv_pre[OF inv]
  note D = sched_preD[OF pre] and S = sc[unfolded scheduled_def Let_def]
  obtain cur nxt r where rl: "running_list s = cur # nxt # r" using D(4) two by (metis list.exhaust list.sel(3))
  have st: "stat s cur = TaskRunning" using rd rl by (simp add: queue_ready_def)
  have lt: "cur < length (tasks s)" "nxt \<noteq> cur" using D(2) queued_valid[OF pre, of cur] rl by (auto simp: queued_def)
  have rl': "running_list s' = nxt # r @ [cur]" "sleep_list s' = sleep_list s" "exit_list s' = exit_list s"
    using S st rl by auto
  have ts: "tasks s' = (tasks s)[cur := (tasks s ! cur)\<lparr>task_context := cpu s\<rparr>]" using S rl by simp
  then have nth: "t < length (tasks s) \<Longrightarrow> tasks s' ! t = (if t = cur then (tasks s ! cur)\<lparr>task_context := cpu s\<rparr> else tasks s ! t)" for t
    by (simp add: nth_update_if)
  have "kernel_stack (tasks s' ! t) = kernel_stack (tasks s ! t)" if "t < length (tasks s)" for t using nth[OF that] by simp
  moreover have "t < length (tasks s)" if "t \<in> set (running_list s)" for t using that queued_valid[OF pre] by (simp add: queued_def)
  ultimately have "queue_ready s'" using rd S scheduled_stat[OF sc] by (auto simp: queue_ready_def rl rl')
  moreover have "regs s' t = regs s t" if t: "t < length (tasks s)" for t
  proof -
    have "RUNNING s' = Some nxt" "cpu s' = task_context (tasks s ! nxt)" "RUNNING s = Some cur" using S rl D(5) by auto
    then show ?thesis using nth[OF t] lt(2) by (simp add: regs_def)
  qed
  ultimately show ?thesis using rl rl' inv' z S ts by (simp add: turned_def)
qed

lemma one_turn:
  assumes inv: "sched_inv s" and rd: "queue_ready s" and z: "tic_counter s = 0"
  shows "\<exists>s'. ticks (TIC_MAX + 1) s = Some s' \<and> turned 1 s s'"
proof -
  let ?s = "s\<lparr>tic_counter := TIC_MAX\<rparr>"
  have inv0: "sched_inv ?s" "queue_ready ?s" using inv rd by (simp_all add: queue_ready_def stat_def)
  have run: "ticks (TIC_MAX + 1) s = timer_entry ?s"
    unfolding ticks_add using ticks_count[OF inv rd, of TIC_MAX] z irq_handler_ready[OF sched_inv_pre[OF inv0(1)] inv0(2)]
    by (cases "timer_entry ?s") simp_all
  have s0: "?s\<lparr>tic_counter := 0\<rparr> = s" using z by simp
  obtain s' where s': "timer_entry ?s = Some s'" "sched_inv s'"
    "if tl (running_list s) = [] then s' = s else scheduled None s s'"
  proof -
    from timer_entry_ok[OF inv0(1)] obtain s' where "timer_entry ?s = Some s'" "sched_inv s'"
      "if tl (running_list s) = [] then s' = ?s\<lparr>tic_counter := 0\<rparr> else scheduled None (?s\<lparr>tic_counter := 0\<rparr>) s'"
      by (auto split: if_splits)
    then show thesis using that unfolding s0 by blast
  qed
  have "turned 1 s s'"
  proof (cases "tl (running_list s) = []")
    case True
    then obtain c where c: "running_list s = [c]" using sched_preD(4)[OF sched_inv_pre[OF inv]] by (cases "running_list s") auto
    have "s' = s" using True s'(3) by simp
    then show ?thesis using inv rd z by (simp add: turned_def c)
  qed (use s' scheduled_turned[OF inv rd z] in simp)
  then show ?thesis using run s'(1) by simp
qed

lemma turns:
  assumes "sched_inv s" "queue_ready s" "tic_counter s = 0"
  shows "\<exists>s'. ticks ((TIC_MAX + 1) * k) s = Some s' \<and> turned k s s'"
proof (induction k)
  case 0
  then show ?case using assms by (simp add: turned_def)
next
  case (Suc k)
  then obtain s1 where s1: "ticks ((TIC_MAX + 1) * k) s = Some s1" "turned k s s1" by blast
  obtain s2 where s2: "ticks (TIC_MAX + 1) s1 = Some s2" "turned 1 s1 s2"
    using one_turn[of s1] s1(2) by (auto simp: turned_def)
  have "ticks ((TIC_MAX + 1) * Suc k) s = Some s2"
    using ticks_add[of "(TIC_MAX + 1) * k" "TIC_MAX + 1" s] s1(1) s2(1) by (simp add: algebra_simps)
  moreover have "turned (Suc k) s s2" using s1(2) s2(2) by (simp add: turned_def)
  ultimately show ?case by blast
qed

section \<open>What a step leaves of the other tasks\<close>

definition same_task :: "arc \<Rightarrow> 'f Sys \<Rightarrow> 'f Sys \<Rightarrow> bool" where
  "same_task t s s' \<longleftrightarrow> t < length (tasks s') \<and> regs s' t = regs s t \<and>
     root_of (t_mm (tasks s' ! t)) = root_of (t_mm (tasks s ! t)) \<and> t_tid (tasks s' ! t) = t_tid (tasks s ! t)"

lemma quiet_same:
  assumes "quiet s s'" "RUNNING s \<noteq> Some t" "t < length (tasks s)"
  shows "same_task t s s'"
proof -
  from assms(1) consider "kept_tasks (tasks s) (tasks s')" | x where "tasks s' = tasks s @ [x]"
    unfolding quiet_def by blast
  then have "t < length (tasks s') \<and> task_context (tasks s' ! t) = task_context (tasks s ! t) \<and>
      root_of (t_mm (tasks s' ! t)) = root_of (t_mm (tasks s ! t)) \<and> t_tid (tasks s' ! t) = t_tid (tasks s ! t)"
    by cases (use assms(3) in \<open>auto dest: kept_nth simp: kept_def nth_append\<close>)
  then show ?thesis using assms(1,2) by (simp add: same_task_def regs_def quiet_def)
qed

lemma switched_same:
  assumes sw: "switched s s'" and t: "RUNNING s \<noteq> Some t \<or> RUNNING s' \<noteq> Some t" "t < length (tasks s)"
  shows "same_task t s s'"
proof -
  obtain s0 assign where s0: "scheduled assign s0 s'" "kept_tasks (tasks s) (tasks s0)" "cpu s0 = cpu s"
    "RUNNING s = Some (hd (running_list s0))" using sw unfolding switched_def by blast
  note S = s0(1)[unfolded scheduled_def Let_def]
  let ?c = "hd (running_list s0)" and ?n = "hd (tl (running_list s0))"
  have K: "length (tasks s0) = length (tasks s)" "i < length (tasks s) \<Longrightarrow> kept (tasks s ! i) (tasks s0 ! i)" for i
    using kept_nth[OF s0(2)] by auto
  have ts: "tasks s' ! t = (if t = ?c then (tasks s0 ! t)\<lparr>task_context := cpu s\<rparr> else tasks s0 ! t)" "t < length (tasks s')"
    using S t(2) K(1) s0(3) by (auto simp: nth_update_if)
  have R: "RUNNING s' = Some ?n" "cpu s' = task_context (tasks s0 ! ?n)" using S by auto
  have "regs s' t = regs s t"
  proof (cases "t = ?c")
    case True
    then show ?thesis using t(1) s0(4) ts(1) R(1) by (simp add: regs_def)
  next
    case False
    then show ?thesis using K(2)[OF t(2)] s0(4) ts(1) R by (auto simp: regs_def kept_def)
  qed
  moreover have "root_of (t_mm (tasks s' ! t)) = root_of (t_mm (tasks s0 ! t))" "t_tid (tasks s' ! t) = t_tid (tasks s0 ! t)"
    unfolding ts(1) by simp_all
  ultimately show ?thesis using K(2)[OF t(2)] ts(2) by (simp add: same_task_def kept_def)
qed

lemma step_same:
  assumes "sys_step (s, c) (s', c')" "sched_inv s" "RUNNING s \<noteq> Some t \<or> RUNNING s' \<noteq> Some t" "t < length (tasks s)"
  shows "same_task t s s'"
  using sys_step_cases[OF assms(1,2)]
proof (elim conjE disjE)
  assume q: "quiet s s'"
  then show ?thesis using assms(3,4) by (intro quiet_same) (auto simp: quiet_def)
qed (rule switched_same[OF _ assms(3,4)])

lemma step_length:
  assumes "sys_step (s, c) (s', c')" "sched_inv s"
  shows "length (tasks s) \<le> length (tasks s')"
proof -
  from sys_step_cases[OF assms] consider "kept_tasks (tasks s) (tasks s')" | x where "tasks s' = tasks s @ [x]" | "switched s s'"
    unfolding quiet_def by blast
  then show ?thesis by cases (auto dest!: kept_nth simp: switched_def scheduled_def Let_def)
qed

lemma steps_inv:
  "sys_step\<^sup>*\<^sup>* (s, c) (s', c') \<Longrightarrow> task_inv s \<Longrightarrow> task_inv s' \<and> length (tasks s) \<le> length (tasks s')"
  by (induction "(s', c')" arbitrary: s' c' rule: rtranclp_induct)
    (auto intro: task_step dest: task_invD(1) step_length order_trans)

section \<open>A task continues where it was\<close>

text \<open>Steps in which the task \<open>t\<close> does nothing but lose the processor or get it.\<close>

definition off_cpu :: "arc \<Rightarrow> 'f state \<Rightarrow> 'f state \<Rightarrow> bool" where
  "off_cpu t a b \<longleftrightarrow> sys_step a b \<and> (RUNNING (fst a) \<noteq> Some t \<or> RUNNING (fst b) \<noteq> Some t)"

lemma off_cpu_same:
  assumes "(off_cpu t)\<^sup>*\<^sup>* (s, c) (s', c')" "task_inv s" "t < length (tasks s)"
  shows "task_inv s' \<and> same_task t s s'"
  using assms(1)
proof (induction "(s', c')" arbitrary: s' c' rule: rtranclp_induct)
  case base
  then show ?case using assms(2,3) by (simp add: same_task_def)
next
  case (step b)
  obtain s1 c1 where b: "b = (s1, c1)" by (cases b)
  have IH: "task_inv s1" "same_task t s s1" using step.hyps(3)[OF b] by auto
  have "sys_step (s1, c1) (s', c')" "RUNNING s1 \<noteq> Some t \<or> RUNNING s' \<noteq> Some t" using step.hyps(2) b by (auto simp: off_cpu_def)
  then have "task_inv s'" "same_task t s1 s'"
    using task_step IH(1) step_same[OF _ task_invD(1)[OF IH(1)]] IH(2) by (auto simp: same_task_def)
  then show ?case using IH(2) by (simp add: same_task_def)
qed

text \<open>
  C17: A task that loses the processor, however it does (the timer, sleeping, waiting for a child or a pipe)
  and whatever the other tasks do until it runs again, continues with the registers it had, with the page
  table it had, and with \<^verbatim>\<open>satp\<close> set to that page table.
\<close>

theorem task_resumes:
  assumes "reach s c" "t < length (tasks s)" "(off_cpu t)\<^sup>*\<^sup>* (s, c) (s', c')"
  shows "regs s' t = regs s t \<and>
    map_option (\<lambda>mm. pt_root (mm_pagetable mm)) (t_mm (tasks s' ! t)) = map_option (\<lambda>mm. pt_root (mm_pagetable mm)) (t_mm (tasks s ! t)) \<and>
    (\<forall>mm. RUNNING s' = Some t \<and> t_mm (tasks s' ! t) = Some mm \<longrightarrow>
      satp s' = push_bit 60 8 OR drop_bit 12 (of_nat (pt_root (mm_pagetable mm) - PHY_MEM_OFFSET)))"
proof -
  note inv = reach_inv[OF assms(1)]
  have "task_inv s'" "same_task t s s'" using off_cpu_same[OF assms(3) inv assms(2)] by auto
  then show ?thesis
    using task_invD(3)[of s'] by (auto simp: same_task_def root_of_def satp_ok_def is_user_def satp_of_def)
qed

section \<open>Waiting for children\<close>

lemma found_asleep:
  assumes inv: "task_inv s" and f: "wait_round k s = Some (Found code tid)"
  shows "code = 0 \<and> (\<exists>t \<in> set (sleep_list s). t_tid (tasks s ! t) = tid \<and> t_status (tasks s ! t) = TaskSleeping) \<and>
    (\<forall>i. k = Wait_for i \<longrightarrow> tid = i)"
proof -
  have "wait_scan k s = Some (Some (code, tid))"
    using f by (auto simp: wait_round_def bind_eq_Some_conv split: option.splits)
  from wait_scan_ok(2)[OF inv this] obtain t where t: "t \<in> set (sleep_list s)" "t_tid (tasks s ! t) = tid" "code = exit_code (tasks s ! t)"
    "\<forall>i. k = Wait_for i \<longrightarrow> tid = i" by blast
  note pre = task_invD(2)[OF inv]
  have "stat s t = TaskSleeping" "t < length (tasks s)"
    using sched_preD(9)[OF pre t(1)] queued_valid[OF pre, of t] t(1) by (auto simp: queued_def)
  then show ?thesis using t task_invD(6)[OF inv, of t] by (auto simp: stat_def)
qed

lemma tid_small:
  assumes "task_inv s" "length (tasks s) < 2 ^ 64 - 1" "t < length (tasks s)"
  shows "t_tid (tasks s ! t) \<noteq> 2 ^ 64 - 1"
proof -
  have "t + 1 < 2 ^ 64 - 1" using assms(2,3) by linarith
  then have "nth_tid t < 2 ^ 64 - 1" by (simp add: nth_tid_def)
  then show ?thesis using task_invD(5)[OF assms(1,3)] by simp
qed

lemma wait_any_never_finds:
  assumes inv: "task_inv s" and n: "length (tasks s) < 2 ^ 64 - 1"
  shows "wait_round (Wait_for (2 ^ 64 - 1)) s \<noteq> Some (Found code tid)"
proof
  assume f: "wait_round (Wait_for (2 ^ 64 - 1)) s = Some (Found code tid)"
  from found_asleep[OF inv f] obtain t where t: "t \<in> set (sleep_list s)" "t_tid (tasks s ! t) = 2 ^ 64 - 1" by blast
  have "t < length (tasks s)" using queued_valid[OF task_invD(2)[OF inv], of t] t(1) by (simp add: queued_def)
  then show False using tid_small[OF inv n] t(2) by blast
qed

text \<open>A step of the system leaves a task in the loop of \<^verbatim>\<open>wait4(-1)\<close> there.\<close>

lemma step_waits:
  assumes "sys_step (s, c) (s', c')" "task_inv s" "length (tasks s) < 2 ^ 64 - 1" "c t = In_wait (Wait_for (2 ^ 64 - 1)) w"
  shows "c' t = In_wait (Wait_for (2 ^ 64 - 1)) w"
  using assms
proof (induction "(s, c)" "(s', c')" rule: sys_step.induct)
  case (found t0 k w0 code tid r)
  then show ?case using wait_any_never_finds[OF found.prems(1,2), of code tid] by auto
qed auto

text \<open>
  C19: \<^verbatim>\<open>wait4\<close> returns only tasks that are asleep, never one that has exited, and always with the exit code 0;
  and a task that calls \<^verbatim>\<open>wait4(-1)\<close>, to wait for any child, never leaves the call, whatever the other tasks
  do, as long as there are fewer than \<open>2 ^ 64 - 1\<close> tasks.
\<close>

theorem wait4_never_reaps:
  assumes "reach s c"
  shows "(\<forall>k code tid. wait_round k s = Some (Found code tid) \<longrightarrow>
      code = 0 \<and> (\<exists>t \<in> set (sleep_list s). t_tid (tasks s ! t) = tid \<and> t_status (tasks s ! t) = TaskSleeping)) \<and>
    (\<forall>t w s' c'. c t = In_wait (Wait_for (2 ^ 64 - 1)) w \<and> sys_step\<^sup>*\<^sup>* (s, c) (s', c') \<and> length (tasks s') < 2 ^ 64 - 1 \<longrightarrow>
      c' t = In_wait (Wait_for (2 ^ 64 - 1)) w) \<and>
    wait4_kind (- 1) 0 s = Some (Wait_for (2 ^ 64 - 1))"
proof (intro conjI allI impI)
  note inv = reach_inv[OF assms]
  show "wait4_kind (- 1) 0 s = Some (Wait_for (2 ^ 64 - 1))"
    using running_task[OF task_invD(2)[OF inv]] by (simp add: wait4_kind_def rassert_def)
  show "code = 0" "\<exists>t \<in> set (sleep_list s). t_tid (tasks s ! t) = tid \<and> t_status (tasks s ! t) = TaskSleeping"
    if "wait_round k s = Some (Found code tid)" for k code tid using found_asleep[OF inv that] by auto
  fix t w s' c'
  assume "c t = In_wait (Wait_for (2 ^ 64 - 1)) w \<and> sys_step\<^sup>*\<^sup>* (s, c) (s', c') \<and> length (tasks s') < 2 ^ 64 - 1"
  then have c: "c t = In_wait (Wait_for (2 ^ 64 - 1)) w" and st: "sys_step\<^sup>*\<^sup>* (s, c) (s', c')" and n: "length (tasks s') < 2 ^ 64 - 1"
    by auto
  from st n show "c' t = In_wait (Wait_for (2 ^ 64 - 1)) w"
  proof (induction "(s', c')" arbitrary: s' c' rule: rtranclp_induct)
    case base
    then show ?case using c by simp
  next
    case (step b)
    obtain s1 c1 where b: "b = (s1, c1)" by (cases b)
    have inv1: "task_inv s1" using steps_inv[of s c s1 c1] step.hyps(1) b inv by simp
    have n1: "length (tasks s1) < 2 ^ 64 - 1"
      using step_length[of s1 c1 s' c'] step.hyps(2) b task_invD(1)[OF inv1] step.prems by simp
    then have "c1 t = In_wait (Wait_for (2 ^ 64 - 1)) w" using step.hyps(3)[OF b] by simp
    then show ?case using step_waits[OF _ inv1 n1] step.hyps(2) b by blast
  qed
qed

section \<open>Tasks woken from a pipe\<close>

definition wait_list_of :: "wait_list \<Rightarrow> 'f Sys \<Rightarrow> arc list" where
  "wait_list_of q s = (case q of Wait_write i \<Rightarrow> p_wait_write (pipes s ! i) | Wait_read i \<Rightarrow> p_wait_read (pipes s ! i))"

lemma wait_list_waiting:
  assumes "wl_ok (Some q) s"
  shows "set (wait_list_of q s) \<subseteq> set (waiting s)"
  using assms by (cases q) (force simp: wl_ok_def wait_list_of_def waiting_def pipe_waiting_def)+

text \<open>
  C20: Waking the tasks that wait for a pipe puts them on the run queue and leaves their status as it is, that
  of a sleeping task; so the end of the next time slice of such a task moves it to the list of sleeping tasks
  although it did not go to sleep.
\<close>

theorem pipe_wake_sleeps_again:
  assumes "reach s c"
  shows "(\<forall>q t. wl_ok (Some q) s \<and> t \<in> set (wait_list_of q s) \<longrightarrow>
      (\<exists>s'. wake_up_pipe q s = Some s' \<and> t \<in> set (running_list s') \<and> t_status (tasks s' ! t) = TaskSleeping)) \<and>
    (\<forall>t. RUNNING s = Some t \<and> t_status (tasks s ! t) = TaskSleeping \<and> tic_counter s = TIC_MAX \<longrightarrow>
      (\<exists>s'. timer_entry s = Some s' \<and> sleep_list s' = sleep_list s @ [t] \<and> running_list s' = tl (running_list s)))"
proof (intro conjI allI impI)
  note inv = reach_inv[OF assms]
  note sinv = task_invD(1)[OF inv] and pre = task_invD(2)[OF inv]
  note D = sched_preD[OF pre]
  show "\<exists>s'. wake_up_pipe q s = Some s' \<and> t \<in> set (running_list s') \<and> t_status (tasks s' ! t) = TaskSleeping"
    if "wl_ok (Some q) s \<and> t \<in> set (wait_list_of q s)" for q t
  proof -
    have q: "wl_ok (Some q) s" "t \<in> set (wait_list_of q s)" using that by auto
    then have "stat s t = TaskSleeping" using wait_list_waiting D(10) by blast
    then show ?thesis using wake_up_pipe_inv[OF sinv q(1)] q(2) by (auto simp: wait_list_of_def stat_def)
  qed
  fix t
  assume t: "RUNNING s = Some t \<and> t_status (tasks s ! t) = TaskSleeping \<and> tic_counter s = TIC_MAX"
  let ?s = "s\<lparr>tic_counter := 0\<rparr>"
  have h: "hd (running_list s) = t" "stat s t = TaskSleeping" using t D(5) by (simp_all add: stat_def)
  then have two: "tl (running_list s) \<noteq> []" using D(4,6,7) by (cases "running_list s") auto
  obtain s' where s': "timer_entry s = Some s'" "scheduled None ?s s'" using timer_entry_ok[OF sinv] t two by auto
  have "stat ?s t = TaskSleeping" using h(2) by (simp add: stat_def)
  then show "\<exists>s'. timer_entry s = Some s' \<and> sleep_list s' = sleep_list s @ [t] \<and> running_list s' = tl (running_list s)"
    using s' h(1) by (simp add: scheduled_def Let_def)
qed

section \<open>The timer turns the run queue\<close>

text \<open>
  C18: As long as the tasks of the run queue only compute, the timer gives each of them the processor in turn:
  after \<open>k\<close> times \<open>TIC_MAX + 1\<close> ticks the queue has turned \<open>k\<close> times (it is the list rotated \<open>k\<close> places), the
  task at position \<open>k\<close> runs, the other lists are the same, and each task has the registers it had.
\<close>

theorem round_robin:
  assumes "reach s c" "queue_ready s" "tic_counter s = 0"
  shows "\<exists>s'. ticks ((TIC_MAX + 1) * k) s = Some s' \<and> running_list s' = rotate k (running_list s) \<and>
    RUNNING s' = Some (running_list s ! (k mod length (running_list s))) \<and>
    sleep_list s' = sleep_list s \<and> exit_list s' = exit_list s \<and> (\<forall>t < length (tasks s). regs s' t = regs s t)"
proof -
  note sinv = task_invD(1)[OF reach_inv[OF assms(1)]]
  obtain s' where s': "ticks ((TIC_MAX + 1) * k) s = Some s'" "turned k s s'" using turns[OF sinv assms(2,3)] by blast
  then have "RUNNING s' = Some (hd (rotate k (running_list s)))" using sched_preD(5)[OF sched_inv_pre, of s'] by (simp add: turned_def)
  then show ?thesis using s' sched_preD(4)[OF sched_inv_pre[OF sinv]] by (simp add: turned_def hd_rotate_conv_nth)
qed

section \<open>The sample system over time\<close>

lemma ticks_reach:
  assumes "reach s (\<lambda>_. In_user)" "ticks n s = Some s'"
  shows "reach s' (\<lambda>_. In_user)"
  using assms
proof (induction n arbitrary: s)
  case (Suc n)
  obtain s1 where s1: "irq_handler s = Some s1" "ticks n s1 = Some s'" using Suc.prems(2) by (auto simp: bind_eq_Some_conv)
  have "sys_step (s, \<lambda>_. In_user) (s1, \<lambda>_. In_user)"
    using tick[OF s1(1)] running_task(1)[OF task_invD(2)[OF reach_inv[OF Suc.prems(1)]]] by (simp add: get_running_def)
  then have "reach s1 (\<lambda>_. In_user)" using Suc.prems(1) unfolding reach_def by (metis rtranclp.rtrancl_into_rtrancl)
  then show ?case using Suc.IH s1(2) by blast
qed simp

lemma sample_ready: "queue_ready sample_two"
  by (simp add: queue_ready_def stat_def check_magic_def rassert_def sample_kern_def sample_stack_def new_task_def)

lemma sample_turn:
  obtains s where "ticks (TIC_MAX + 1) sample_two = Some s" "turned 1 sample_two s" "reach s (\<lambda>_. In_user)"
    "running_list s = [1, 0]" "RUNNING s = Some 1" "sleep_list s = []" "length (tasks s) = 2" "locked s = {}"
proof -
  obtain s where s: "ticks (TIC_MAX + 1) sample_two = Some s" "turned 1 sample_two s"
    using one_turn[OF task_invD(1)[OF reach_inv[OF sample_reach]] sample_ready] by auto
  note inv = task_invD(2)[OF reach_inv[OF ticks_reach[OF sample_reach s(1)]]]
  have "running_list s = [1, 0]" "sleep_list s = []" "length (tasks s) = 2" using s(2) by (simp_all add: turned_def)
  then show ?thesis using that[OF s ticks_reach[OF sample_reach s(1)]] sched_preD(1,5)[OF inv] by simp
qed

theorem round_robin_witness:
  "\<exists>s. reach sample_two (\<lambda>_. In_user) \<and> queue_ready sample_two \<and> ticks 33 sample_two = Some s \<and>
     running_list s = [1, 0] \<and> RUNNING s = Some 1 \<and> regs s 0 = regs sample_two 0"
proof -
  have "ticks ((TIC_MAX + 1) * 3) sample_two = ticks 33 sample_two" by (simp add: TIC_MAX_def)
  moreover have "rotate 3 [0, 1] = [1, 0 :: nat]" by (simp add: rotate_def numeral_3_eq_3)
  moreover have "(running_list sample_two) ! (3 mod length (running_list sample_two)) = 1" by (simp add: eval_nat_numeral mod_Suc)
  moreover obtain s where "ticks ((TIC_MAX + 1) * 3) sample_two = Some s" "running_list s = rotate 3 (running_list sample_two)"
    "RUNNING s = Some (running_list sample_two ! (3 mod length (running_list sample_two)))" "regs s 0 = regs sample_two 0"
    using round_robin[OF sample_reach sample_ready, of 3] by auto
  ultimately show ?thesis using sample_reach sample_ready by simp
qed

text \<open>Ticks in which another task has the processor until the last.\<close>

lemma off_ticks:
  assumes "reach s (\<lambda>_. In_user)" "queue_ready s" "tic_counter s = 0" "RUNNING s \<noteq> Some t" "ticks (TIC_MAX + 1) s = Some s'"
  shows "(off_cpu t)\<^sup>*\<^sup>* (s, \<lambda>_. In_user) (s', \<lambda>_. In_user)"
proof -
  note inv = reach_inv[OF assms(1)]
  obtain r where r: "RUNNING s = Some r" "r \<noteq> t"
    using running_task(1)[OF task_invD(2)[OF inv]] assms(4) by (auto simp: get_running_def)
  let ?c = "\<lambda>_ :: arc. In_user"
  have cnt: "ticks n s = Some (s\<lparr>tic_counter := n\<rparr>)" if "n \<le> TIC_MAX" for n
    using ticks_count[OF task_invD(1)[OF inv] assms(2), of n] assms(3) that by simp
  have step: "off_cpu t (s\<lparr>tic_counter := n\<rparr>, ?c) (s1, ?c)"
    if "n \<le> TIC_MAX" "ticks (n + 1) s = Some s1" for n s1
  proof -
    have "ticks 1 (s\<lparr>tic_counter := n\<rparr>) = Some s1" using that(2) cnt[OF that(1)] by (simp only: ticks_add) simp
    then have "irq_handler (s\<lparr>tic_counter := n\<rparr>) = Some s1" by (auto simp: bind_eq_Some_conv)
    then show ?thesis using tick[of _ s1 r ?c] r by (simp add: off_cpu_def)
  qed
  have "(off_cpu t)\<^sup>*\<^sup>* (s, ?c) (s\<lparr>tic_counter := n\<rparr>, ?c)" if "n \<le> TIC_MAX" for n
    using that
  proof (induction n)
    case 0
    have "s\<lparr>tic_counter := 0\<rparr> = s" using assms(3) by simp
    then show ?case by simp
  next
    case (Suc n)
    then show ?case using step[of n "s\<lparr>tic_counter := Suc n\<rparr>"] cnt[of "Suc n"] by (auto intro: rtranclp.rtrancl_into_rtrancl)
  qed
  from this[of TIC_MAX] step[of TIC_MAX s'] assms(5) show ?thesis by (auto intro: rtranclp.rtrancl_into_rtrancl)
qed

text \<open>The first task of the sample system loses the processor and gets it back.\<close>

theorem task_resumes_witness:
  "\<exists>s s1 s2 :: unit Sys. reach s (\<lambda>_. In_user) \<and> RUNNING s = Some 0 \<and> off_cpu 0 (s, \<lambda>_. In_user) (s1, \<lambda>_. In_user) \<and>
     RUNNING s1 = Some 1 \<and> (off_cpu 0)\<^sup>*\<^sup>* (s1, \<lambda>_. In_user) (s2, \<lambda>_. In_user) \<and> RUNNING s2 = Some 0 \<and> cpu s2 = cpu s"
proof -
  let ?c = "\<lambda>_ :: arc. In_user" and ?s = "sample_two\<lparr>tic_counter := TIC_MAX\<rparr>"
  have s: "ticks TIC_MAX sample_two = Some ?s"
    using ticks_count[OF task_invD(1)[OF reach_inv[OF sample_reach]] sample_ready, of TIC_MAX] by simp
  then have rs: "reach ?s ?c" by (rule ticks_reach[OF sample_reach])
  obtain s1 where s1: "ticks (TIC_MAX + 1) sample_two = Some s1" "turned 1 sample_two s1" "reach s1 ?c"
    "running_list s1 = [1, 0]" "RUNNING s1 = Some 1" by (rule sample_turn)
  have "ticks 1 ?s = Some s1" using s1(1) s by (simp only: ticks_add) simp
  then have "irq_handler ?s = Some s1" by (auto simp: bind_eq_Some_conv)
  then have o1: "off_cpu 0 (?s, ?c) (s1, ?c)" using tick[of ?s s1 0 ?c] s1(5) by (simp add: off_cpu_def)
  have t1: "sched_inv s1" "queue_ready s1" "tic_counter s1 = 0" using s1(2) by (simp_all add: turned_def)
  obtain s2 where s2: "ticks (TIC_MAX + 1) s1 = Some s2" "turned 1 s1 s2" using one_turn[OF t1] by blast
  have "running_list s2 = [0, 1]" using s2(2) s1(4) by (simp add: turned_def)
  then have r2: "RUNNING s2 = Some 0" using sched_preD(5)[OF sched_inv_pre, of s2] s2(2) by (simp add: turned_def)
  have o2: "(off_cpu 0)\<^sup>*\<^sup>* (s1, ?c) (s2, ?c)" by (rule off_ticks[OF s1(3) t1(2,3) _ s2(1)]) (simp add: s1(5))
  have "(off_cpu 0)\<^sup>*\<^sup>* (?s, ?c) (s2, ?c)" using o1 o2 by (rule converse_rtranclp_into_rtranclp)
  from task_resumes[OF rs _ this] have "regs s2 0 = regs ?s 0" by simp
  then have "cpu s2 = cpu ?s" using r2 by (simp add: regs_def)
  moreover have "RUNNING ?s = Some 0" by simp
  ultimately show ?thesis using rs s1(5) o1 o2 r2 by blast
qed

text \<open>The second task waits for any child and goes to sleep; the first one finds it in its own wait.\<close>

theorem wait4_never_reaps_witness:
  "\<exists>(s :: unit Sys) c s' t. reach s c \<and> RUNNING s = Some 1 \<and> c 1 = In_wait (Wait_for (2 ^ 64 - 1)) 0 \<and>
     wait_round (Wait_for (2 ^ 64 - 1)) s = Some (Slept s') \<and> sys_step (s, c) (s', c) \<and> c 1 = In_wait (Wait_for (2 ^ 64 - 1)) 0 \<and>
     wait_round (Wait_for 2) s' = Some (Found 0 2) \<and> t_tid (tasks s' ! t) = 2 \<and> t_status (tasks s' ! t) = TaskSleeping"
proof -
  obtain s :: "unit Sys" where s: "reach s (\<lambda>_. In_user)" "RUNNING s = Some 1" "sleep_list s = []" "length (tasks s) = 2"
    by (rule sample_turn) blast
  note inv = reach_inv[OF s(1)]
  let ?k = "Wait_for (2 ^ 64 - 1)" let ?c = "(\<lambda>_. In_user)(1 := In_wait ?k 0)"
  have "wait4_kind (- 1) 0 s = Some ?k"
    using running_task[OF task_invD(2)[OF inv]] by (simp add: wait4_kind_def rassert_def)
  then have "sys_step (s, \<lambda>_. In_user) (s, ?c)" using wait[of s 1 "\<lambda>_. In_user" "- 1" 0 ?k 0] s(2) by simp
  then have rc: "reach s ?c" using s(1) unfolding reach_def by (metis rtranclp.rtrancl_into_rtrancl)
  obtain s' where s': "sleep_self_in_sleeping_list s = Some s'"
    "scheduled None (put_task s (hd (running_list s)) (set_status TaskSleeping)) s'"
    using sleep_self_ok[OF task_invD(1)[OF inv]] s(2) by auto
  have h: "hd (running_list s) = 1" using sched_preD(5)[OF task_invD(2)[OF inv]] s(2) by simp
  have w: "wait_round ?k s = Some (Slept s')" using s(3) s'(1) by (simp add: wait_round_def wait_scan_def)
  then have st: "sys_step (s, ?c) (s', ?c)" using wait_sleep[of s 1 ?c ?k 0 s'] s(2) by simp
  then have r': "reach s' ?c" using rc unfolding reach_def by (metis rtranclp.rtrancl_into_rtrancl)
  have "sleep_list s' = [1]" "length (tasks s') = 2" "locked s' = {}"
    using s'(2) s(3,4) h by (simp_all add: scheduled_def Let_def stat_put_task set_status_def)
  moreover have "t_tid (tasks s' ! 1) = 2" "exit_code (tasks s' ! 1) = 0"
    using task_invD(5,6)[OF reach_inv[OF r'], of 1] sched_preD(9)[OF task_invD(2)[OF reach_inv[OF r']], of 1] calculation
    by (simp_all add: nth_tid_def)
  ultimately have f: "wait_round (Wait_for 2) s' = Some (Found 0 2)"
    by (simp add: wait_round_def wait_scan_def lock_task_def vec_get_def)
  from wait4_never_reaps[OF r'] f obtain t where t: "t_tid (tasks s' ! t) = 2" "t_status (tasks s' ! t) = TaskSleeping" by blast
  have "?c 1 = In_wait ?k 0" by simp
  then show ?thesis using rc s(2) w st f t by blast
qed

text \<open>A task that sleeps for a pipe is on its list.\<close>

lemma sleep_wait_on_list:
  assumes q: "wl_ok (Some q) s" and c: "RUNNING s = Some t" and two: "length (running_list s) \<noteq> 1" and st: "sleep_wait q s = Some s'"
  shows "t \<in> set (wait_list_of q s')" "wl_ok (Some q) s'"
proof -
  let ?s = "put_task s t (set_status TaskSleeping)" let ?r = "?s\<lparr>running_list := tl (running_list ?s)\<rparr>"
  have t: "t < length (tasks s)" "scheduler (Some q) ?s = Some s'"
    using st c by (auto simp: sleep_wait_def get_running_def upd_task_def lock_task_def vec_get_def bind_eq_Some_conv split: if_splits)
  have x: "t_status (tasks ?s ! t) = TaskSleeping" using t(1) by (simp add: put_task_def set_status_def)
  obtain s1 n where s1: "push_wait q t ?r = Some s1" "pipes s' = pipes s1"
    using t(2) two x c
    by (auto simp: scheduler_def get_running_def lock_task_def vec_get_def bind_eq_Some_conv requeue_def install_pagetable_def
        switch_context_def set_running_def Let_def split: if_splits list.splits)
  show "t \<in> set (wait_list_of q s')" "wl_ok (Some q) s'"
    using s1 q by (cases q; auto simp: with_pipe_def vec_get_def wait_list_of_def wl_ok_def push_wait_read_def push_wait_write_def
        bind_eq_Some_conv split: if_splits)+
qed

theorem pipe_wake_sleeps_again_witness:
  "\<exists>(s :: unit Sys) q s'. reach s (\<lambda>_. In_user) \<and> 1 \<in> set (wait_list_of q s) \<and> wake_up_pipe q s = Some s' \<and>
     1 \<in> set (running_list s') \<and> t_status (tasks s' ! 1) = TaskSleeping"
proof -
  obtain s :: "unit Sys" where s: "reach s (\<lambda>_. In_user)" "running_list s = [1, 0]" "RUNNING s = Some 1"
    by (rule sample_turn) blast
  let ?c = "\<lambda>_ :: arc. In_user" and ?s = "s\<lparr>pipes := pipes s @ [pipe_new []]\<rparr>" and ?q = "Wait_read (length (pipes s))"
  have "sys_step (s, ?c) (?s, ?c)" using pipe[of s 1 ?c] s(3) by simp
  then have r: "reach ?s ?c" using s(1) unfolding reach_def by (metis rtranclp.rtrancl_into_rtrancl)
  have q: "wl_ok (Some ?q) ?s" by (simp add: wl_ok_def)
  obtain s1 where s1: "sleep_wait ?q ?s = Some s1" using sleep_wait_ok[OF task_invD(1)[OF reach_inv[OF r]] _ q] s(3) by auto
  then have "sys_step (?s, ?c) (s1, ?c)" using pipe_sleep[of ?s 1 ?c ?q s1] q s(3) by simp
  then have r1: "reach s1 ?c" using r unfolding reach_def by (metis rtranclp.rtrancl_into_rtrancl)
  have w: "1 \<in> set (wait_list_of ?q s1)" "wl_ok (Some ?q) s1" using sleep_wait_on_list[OF q _ _ s1, of 1] s(2,3) by auto
  with pipe_wake_sleeps_again[OF r1] show ?thesis using r1 by blast
qed

end
