(* ===== verification/K_Clone.thy ===== *)
theory K_Clone
  imports K_Task_Steps
begin

text \<open>
  \<^verbatim>\<open>sys_clone\<close> as a whole: the kernel stack, the address space, the trap frame and the lists of tasks.
\<close>

section \<open>Allocation keeps the pages in use\<close>

definition grows :: "vaddr \<Rightarrow> nat \<Rightarrow> Kern \<Rightarrow> Kern \<Rightarrow> bool" where
  "grows s n k k' \<longleftrightarrow> (kern_inv s n k \<longrightarrow> kern_inv s n k' \<and> (\<forall>v p. heap k v = Some p \<longrightarrow> heap k' v = Some p))"

lemma grows_refl [simp]: "grows s n k k"
  by (simp add: grows_def)

lemma grows_trans: "grows s n k k' \<Longrightarrow> grows s n k' k'' \<Longrightarrow> grows s n k k''"
  by (auto simp: grows_def)

lemma grows_mem [simp]: "grows s n k (k'\<lparr>mem := m\<rparr>) = grows s n k k'"
  by (simp add: grows_def)

lemma grows_set_usize [simp]: "grows s n k (set_usize_by_addr k' a v) = grows s n k k'"
  by (simp add: set_usize_by_addr_def)

lemma grows_alloc_pages:
  assumes "alloc_pages k ord = Some (r, k')"
  shows "grows s n k k'"
  unfolding grows_def
proof
  assume inv: "kern_inv s n k"
  show "kern_inv s n k' \<and> (\<forall>v p. heap k v = Some p \<longrightarrow> heap k' v = Some p)"
  proof (cases rule: alloc_pages_cases[OF inv, of ord])
    case 1
    then show ?thesis using assms inv by simp
  next
    case (2 v k1)
    then have k1: "k1 = k'" using assms by simp
    from buddy.take_ok[OF buddy.ownedD(1)[OF kern_invD(1)[OF inv]], of ord] 2(7)
    have v: "blk_valid s n v ord" "pages_of s v ord \<subseteq> free_set (buddy_allocator k)" by auto
    obtain b where b: "alloc_area (buddy_allocator k) ord = Some (Inr v, b)" using 2(7) by blast
    have h: "heap k' = heap_upd (heap k) v ord (2 ^ ord)"
      using 2(1,2) b new_pages_block_ok[OF inv v, of b] unfolding k1
      by (auto simp: alloc_pages_def clear_pages_block_def bind_eq_Some_conv)
    have "heap k (v + PAGE_SIZE * m) = None" if "m < 2 ^ ord" for m
      using free_not_live[OF inv] blk_valid_page[OF v(1) that] v(2) by (metis subsetD)
    then have "heap k a = None" if "a = v \<or> a \<in> set (friend_addrs v (2 ^ ord))" for a
      using that by (auto simp: friend_addrs_set) (metis add.right_neutral mult_0_right zero_less_numeral zero_less_power)
    then have "heap k' a = Some p" if "heap k a = Some p" for a p using that unfolding h heap_upd_def by force
    then show ?thesis using 2(3) k1 by simp
  qed
qed

lemma grows_alloc_table: "alloc_table k = Some (v, k') \<Longrightarrow> grows s n k k'"
  by (auto simp: alloc_table_def bind_eq_Some_conv intro: grows_alloc_pages)

lemma grows_walk_loop: "walk_loop alloc is pgv pt k = Some (r, pt', k') \<Longrightarrow> grows s n k k'"
proof (induction "is" arbitrary: pgv pt k)
  case (Cons x xs)
  obtain i index where x: "x = (i, index)" by (cases x)
  from Cons.prems consider (stop) "k' = k"
    | (down) v a w where "walk_loop alloc xs v pt (set_usize_by_addr k a w) = Some (r, pt', k')"
    | (new) v k1 a w where "alloc_table k = Some (v, k1)" "walk_loop alloc xs v (push_page pt v) (set_usize_by_addr k1 a w) = Some (r, pt', k')"
    unfolding x by (auto simp: bind_eq_Some_conv Let_def split: if_splits)
  then show ?case
  proof cases
    case down
    have "grows s n k (set_usize_by_addr k a w)" by simp
    then show ?thesis using Cons.IH[OF down] by (rule grows_trans)
  next
    case new
    have "grows s n k (set_usize_by_addr k1 a w)" using grows_alloc_table[OF new(1)] by simp
    then show ?thesis using Cons.IH[OF new(2)] by (rule grows_trans)
  qed simp
qed simp

lemma grows_map_one_page: "map_one_page pt k va pa fl = Some (r, pt', k') \<Longrightarrow> grows s n k k'"
  by (auto simp: map_one_page_def walk_alloc_def walk_common_def bind_eq_Some_conv Let_def
      split: if_splits option.splits dest!: grows_walk_loop[of _ _ _ _ _ _ _ _ s n])

lemma grows_fast_alloc: "fast_alloc_one_page_and_get v pt k a = Some (pg, v', pt', k') \<Longrightarrow> grows s n k k'"
  by (auto simp: fast_alloc_one_page_and_get_def bind_eq_Some_conv case_sum_if split: if_splits
      dest!: grows_map_one_page[of _ _ _ _ _ _ _ _ s n] grows_alloc_pages[of _ _ _ _ s n] intro: grows_trans)

lemma grows_fork_pages: "fork_pages ps v pt k = Some (v', pt', k') \<Longrightarrow> grows s n k k'"
proof (induction ps arbitrary: v pt k)
  case (Cons x ps)
  obtain np v1 pt1 k1 m where f: "fast_alloc_one_page_and_get v pt k (fst x) = Some (np, v1, pt1, k1)"
    "fork_pages ps v1 pt1 (k1\<lparr>mem := m\<rparr>) = Some (v', pt', k')"
    using Cons.prems by (cases x) (auto simp: bind_eq_Some_conv copy_one_page_data_from_def)
  have "grows s n k (k1\<lparr>mem := m\<rparr>)" using grows_fast_alloc[OF f(1)] by simp
  then show ?case using Cons.IH[OF f(2)] by (rule grows_trans)
qed simp

lemma grows_fork_vmas: "fork_vmas vs new k = Some (new', k') \<Longrightarrow> grows s n k k'"
proof (induction vs arbitrary: new k)
  case (Cons x vs)
  obtain v1 pt1 k1 new1 where f: "fork_pages (pages_tree (snd x)) ((snd x)\<lparr>pages_tree := [], has_pagetable := True\<rparr>) (mm_pagetable new) k = Some (v1, pt1, k1)"
    "fork_vmas vs new1 k1 = Some (new', k')"
    using Cons.prems by (cases x) (auto simp: bind_eq_Some_conv Let_def case_prod_beta)
  then show ?case using Cons.IH[OF f(2)] grows_fork_pages[OF f(1)] by (blast intro: grows_trans)
qed simp

lemma grows_new_mm:
  assumes "new_mm_by_old kpt old k = Some (new, k')"
  shows "grows s n k k'"
proof -
  obtain pt k1 new1 vs where f: "new_user kpt k = Some (pt, k1)" "fork_vmas vs new1 k1 = Some (new, k')"
    using assms by (auto simp: new_mm_by_old_def bind_eq_Some_conv Let_def)
  obtain v k0 m where "alloc_table k = Some (v, k0)" "k1 = k0\<lparr>mem := m\<rparr>"
    using f(1) by (auto simp: new_user_def PageTable_default_def bind_eq_Some_conv Let_def)
  then have "grows s n k k1" using grows_alloc_table by simp
  then show ?thesis using grows_fork_vmas[OF f(2)] by (rule grows_trans)
qed

section \<open>The stack of the child\<close>

lemma block_words_pages: "block_words v ord = (\<Union>m < 2 ^ ord. block_words (v + PAGE_SIZE * m) 0)"
proof (rule set_eqI)
  fix a
  have m: "(v \<le> a \<and> a < v + PAGE_SIZE * 2 ^ ord) \<longleftrightarrow> (\<exists>m < 2 ^ ord. v + PAGE_SIZE * m \<le> a \<and> a < v + PAGE_SIZE * m + PAGE_SIZE)"
  proof -
    have "(\<exists>m < 2 ^ ord. P m) \<longleftrightarrow> P 0 \<or> (\<exists>m. 1 \<le> m \<and> m < 2 ^ ord \<and> P m)" for P :: "nat \<Rightarrow> bool"
      by (metis One_nat_def Suc_leI gr0I zero_less_numeral zero_less_power)
    then show ?thesis using block_addrs[of "2 ^ ord" v a] by (auto simp: friend_addrs_set)
  qed
  show "a \<in> block_words v ord \<longleftrightarrow> a \<in> (\<Union>m < 2 ^ ord. block_words (v + PAGE_SIZE * m) 0)"
    unfolding block_words_def using m by auto
qed

text \<open>Taking a block and writing to it leaves a page table as it is.\<close>

lemma pt_inv_stack:
  assumes inv: "pt_inv s n pt k" and al: "alloc_area (buddy_allocator k) KERNEL_STACK_SIZE_ORDER = Some (Inr v, b)"
    and k': "kern_inv s n k'" "buddy_allocator k' = b"
      "\<forall>a. a \<notin> block_words v KERNEL_STACK_SIZE_ORDER \<longrightarrow> mem k' a = mem k a"
  shows "pt_inv s n pt k'" "footprint s k' (pt_root pt) \<subseteq> footprint s k (pt_root pt)"
    "block_words v KERNEL_STACK_SIZE_ORDER \<subseteq> footprint s k (pt_root pt)"
    "block_words v KERNEL_STACK_SIZE_ORDER \<inter> footprint s k' (pt_root pt) = {}"
    "card (free_set (buddy_allocator k)) = card (free_set b) + 8" "free_at s k' \<subseteq> free_at s k"
proof -
  let ?o = KERNEL_STACK_SIZE_ORDER
  note D = pt_invD[OF inv]
  have o8: "2 ^ ?o = (8 :: nat)" by (simp add: KERNEL_STACK_SIZE_ORDER_def)
  from buddy.take_ok[OF buddy.ownedD(1)[OF kern_invD(1)[OF D(1)]], of ?o] al
  have v: "blk_valid s n v ?o" "pages_of s v ?o \<subseteq> free_set (buddy_allocator k)"
    "free_set b = free_set (buddy_allocator k) - pages_of s v ?o" by auto
  have W: "v + PAGE_SIZE * m \<in> free_at s k" "v + PAGE_SIZE * m \<notin> free_at s k'" if "m < 8" for m
  proof -
    have "m < 2 ^ ?o" using that o8 by simp
    note m = blk_valid_page[OF v(1) this]
    then show "v + PAGE_SIZE * m \<in> free_at s k" using v(2) unfolding free_at_def by blast
    show "v + PAGE_SIZE * m \<notin> free_at s k'"
      unfolding free_at_def m(2) k'(2) v(3) unfolding inj_image_mem_iff[OF inj_page] using m(1) by blast
  qed
  note P = free_at_page(1)[OF D(1-3)]
  have bw: "block_words v ?o = (\<Union>m < 8. block_words (v + PAGE_SIZE * m) 0)" using block_words_pages[of v ?o] by (simp add: o8)
  show sub: "free_at s k' \<subseteq> free_at s k" unfolding free_at_def k'(2) v(3) by blast
  have tw: "block_words v ?o \<inter> table_words (mem k) (pt_root pt) = {}"
    using tables_avoid_free[OF D(5) W(1) P[OF W(1)]] unfolding bw by blast
  then have "\<forall>a \<in> table_words (mem k) (pt_root pt). mem k' a = mem k a" using k'(3) by blast
  note T = tree_agree[OF this]
  show "pt_inv s n pt k'" using D k'(1) T(4)[OF D(5) sub] by (auto simp: pt_inv_def)
  show "footprint s k' (pt_root pt) \<subseteq> footprint s k (pt_root pt)" using T(5) sub by (auto simp: footprint_def)
  show "block_words v ?o \<subseteq> footprint s k (pt_root pt)" using W(1) unfolding bw footprint_def by blast
  have "block_words (v + PAGE_SIZE * m) 0 \<inter> block_words w 0 = {}" if "m < 8" "w \<in> free_at s k'" for m w
    using that W[OF that(1)] sub P by (intro block_words_disjoint) auto
  then show "block_words v ?o \<inter> footprint s k' (pt_root pt) = {}"
    using tw unfolding footprint_def T(5) bw by blast
  have "card (pages_of s v ?o) = 8" by (simp add: pages_of_def blk_pages_def o8)
  then show "card (free_set (buddy_allocator k)) = card (free_set b) + 8"
    using v(2,3) finite_free[OF D(1)] card_mono[OF finite_free[OF D(1)] v(2)]
    by (simp add: card_Diff_subset finite_subset[OF v(2)])
qed

section \<open>Writing to the stack leaves the new address space alone\<close>

lemma region_copied_write:
  assumes r: "region_copied s k1 rt v w k2" and fp: "footprint s k2 rt \<subseteq> F" "\<forall>N \<in> free_at s k1. block_words N 0 \<subseteq> F"
    and m: "\<forall>a \<in> F. m a = mem k2 a"
  shows "region_copied s k1 rt v w (k2\<lparr>mem := m\<rparr>)"
proof -
  have "\<forall>a \<in> table_words (mem k2) rt. m a = mem k2 a" using fp(1) m by (auto simp: footprint_def)
  note T = tree_agree[OF this]
  have ft: "footprint s (k2\<lparr>mem := m\<rparr>) rt = footprint s k2 rt" using T(5) by (simp add: footprint_def free_at_def)
  let ?f = "vma_flags_2_pte_flags (vm_flags v)"
  have "\<exists>N. bt_get a (pages_tree w) = Some N \<and> page_copied s k1 rt ?f a pg N (k2\<lparr>mem := m\<rparr>)"
    if x: "(a, pg) \<in> set (pages_tree v)" for a pg
  proof -
    obtain N where b: "bt_get a (pages_tree w) = Some N" and p: "page_copied s k1 rt ?f a pg N k2"
      using r x unfolding region_copied_def pages_copied_def by fast
    have N: "N \<in> free_at s k1" using p by (simp add: page_copied_def)
    have "m u = mem k2 u" if "u \<in> block_words N 0" for u using fp(2) m N that by blast
    then have "page_copied s k1 rt ?f a pg N (k2\<lparr>mem := m\<rparr>)" using p unfolding page_copied_def ft by (simp add: T(2))
    with b show ?thesis by blast
  qed
  then have c: "\<forall>(a, pg) \<in> set (pages_tree v). \<exists>N. bt_get a (pages_tree w) = Some N \<and> page_copied s k1 rt ?f a pg N (k2\<lparr>mem := m\<rparr>)"
    by blast
  show ?thesis
    using r c unfolding region_copied_def pages_copied_def by (elim conjE, intro conjI) assumption+
qed

text \<open>The trap frame is in the block of the stack and does not touch its first word.\<close>

lemma frame_words:
  assumes v: "PAGE_SIZE dvd v" and a: "mem (tf_write_to f (v + 8 * PAGE_SIZE - TRAPFRAME_SIZE) k) a \<noteq> mem k a"
  shows "a \<in> block_words v KERNEL_STACK_SIZE_ORDER" "a \<noteq> v" "(v + 8 * PAGE_SIZE - TRAPFRAME_SIZE) mod 8 = 0"
proof -
  let ?sp = "v + 8 * PAGE_SIZE - TRAPFRAME_SIZE"
  obtain c where c: "v = PAGE_SIZE * c" using v by blast
  have sp: "?sp = 8 * (512 * c + 4061)" by (simp add: c PAGE_SIZE_def TRAPFRAME_SIZE_def)
  show sp8: "?sp mod 8 = 0" unfolding sp by (rule mod_mult_self1_is_0)
  have "\<not> (a < ?sp \<or> ?sp + TRAPFRAME_SIZE \<le> a)" using tf_write_to_frame[OF sp8, of a f k] a by blast
  then have a': "?sp \<le> a" "a < v + 8 * PAGE_SIZE" by (simp_all add: TRAPFRAME_SIZE_def PAGE_SIZE_def)
  have "a mod 8 = 0" using a sp8 by (auto simp: tf_write_to_def mem_write_words split: if_splits)
  then show "a \<in> block_words v KERNEL_STACK_SIZE_ORDER" "a \<noteq> v"
    using a' by (auto simp: block_words_def KERNEL_STACK_SIZE_ORDER_def PAGE_SIZE_def TRAPFRAME_SIZE_def)
qed

lemma frame_aligned: "PAGE_SIZE dvd v \<Longrightarrow> (v + 8 * PAGE_SIZE - TRAPFRAME_SIZE) mod 8 = 0"
proof -
  assume "PAGE_SIZE dvd v"
  then obtain c where c: "v = PAGE_SIZE * c" by blast
  have "v + 8 * PAGE_SIZE - TRAPFRAME_SIZE = 8 * (512 * c + 4061)" by (simp add: c PAGE_SIZE_def TRAPFRAME_SIZE_def)
  then show ?thesis by (simp only: mod_mult_self1_is_0)
qed

text \<open>
  The address space and the stack of a child: \<open>rt\<close> is the root of the kernel's page table, \<open>old\<close> the parent's
  address space; \<open>k0\<close> is the state before and \<open>k\<close> the state after.
\<close>

definition child_memory :: "vaddr \<Rightarrow> vaddr \<Rightarrow> 'f MmStruct \<Rightarrow> Kern \<Rightarrow> 'f MmStruct \<Rightarrow> Kern \<Rightarrow> bool" where
  "child_memory s rt old k0 mm k \<longleftrightarrow> PHY_MEM_OFFSET \<le> pt_root (mm_pagetable mm) \<and> brk mm = brk old \<and>
     (\<forall>a. a \<notin> fst ` set (user_regions old) \<longrightarrow> bt_get a (vmas mm) = None) \<and>
     (\<forall>(a, u) \<in> set (user_regions old). \<exists>w. bt_get a (vmas mm) = Some w \<and>
        region_copied s k0 (pt_root (mm_pagetable mm)) u w k) \<and>
     (\<forall>a. a \<notin> footprint s k0 rt \<longrightarrow> mem k a = mem k0 a)"

definition child_stack :: "Stack \<Rightarrow> TrapFrame \<Rightarrow> usize \<Rightarrow> Kern \<Rightarrow> bool" where
  "child_stack st tf sp k \<longleftrightarrow> kstack_top k st = Some sp \<and> sp + TRAPFRAME_SIZE < 2 ^ 64 \<and> check_magic k st = Some True \<and>
     tf_at (mem k) sp = tf\<lparr>tf_x2 := of_nat sp\<rparr>"

lemma child_memory_write:
  assumes P: "pt_inv s n pt k1" and old: "user_pages_ok s k0 (pt_root pt) old"
    and k1: "free_at s k1 \<subseteq> free_at s k0" "footprint s k1 (pt_root pt) \<subseteq> footprint s k0 (pt_root pt)"
      "\<forall>a. a \<notin> footprint s k0 (pt_root pt) \<longrightarrow> mem k1 a = mem k0 a"
    and F: "\<forall>(a, u) \<in> set (user_regions old). \<exists>w. bt_get a (vmas mm) = Some w \<and> region_copied s k1 (pt_root (mm_pagetable mm)) u w k2"
      "\<forall>a. a \<notin> footprint s k1 (pt_root pt) \<longrightarrow> mem k2 a = mem k1 a"
      "footprint s k2 (pt_root (mm_pagetable mm)) \<subseteq> footprint s k1 (pt_root pt)"
      "pt_root (mm_pagetable mm) \<in> free_at s k1" "brk mm = brk old" "\<forall>a. a \<notin> fst ` set (user_regions old) \<longrightarrow> bt_get a (vmas mm) = None"
    and m: "\<forall>a. m a \<noteq> mem k2 a \<longrightarrow> a \<notin> footprint s k1 (pt_root pt) \<and> a \<in> footprint s k0 (pt_root pt)"
  shows "child_memory s (pt_root pt) old k0 mm (k2\<lparr>mem := m\<rparr>)"
proof -
  let ?rt = "pt_root pt" and ?r = "pt_root (mm_pagetable mm)"
  note fa = free_at_page[OF pt_invD(1-3)[OF P]]
  have blk: "\<forall>N \<in> free_at s k1. block_words N 0 \<subseteq> footprint s k1 ?rt" by (auto simp: footprint_def)
  have reg: "\<exists>w. bt_get a (vmas mm) = Some w \<and> region_copied s k0 ?r u w (k2\<lparr>mem := m\<rparr>)"
    if u: "(a, u) \<in> set (user_regions old)" for a u
  proof -
    obtain w where w: "bt_get a (vmas mm) = Some w" "region_copied s k1 ?r u w k2" using F(1) u by fast
    have m1: "\<forall>b \<in> footprint s k1 ?rt. m b = mem k2 b" using m by blast
    note R1 = region_copied_write[OF w(2) F(3) blk m1]
    have "(a, u) \<in> set (vmas old)" using u by (simp add: user_regions_def)
    then have "\<forall>(x, pg) \<in> set (pages_tree u). PAGE_SIZE dvd pg \<and> block_words pg 0 \<inter> footprint s k0 ?rt = {}"
      using old unfolding user_pages_ok_def by fast
    then have "\<forall>(x, pg) \<in> set (pages_tree u). PAGE_SIZE dvd pg \<and> (\<forall>w \<in> block_words pg 0. mem k1 w = mem k0 w)"
      using k1(3) by fast
    from region_copied_earlier[OF R1 this k1(1)] fa(1) w(1) show ?thesis by blast
  qed
  have "mem (k2\<lparr>mem := m\<rparr>) a = mem k0 a" if "a \<notin> footprint s k0 ?rt" for a
    using that m F(2) k1(2,3) by (metis Kern.select_convs(1) Kern.update_convs(1) Kern.surjective subsetD)
  then show ?thesis using reg fa(2)[OF F(4)] F(5,6) unfolding child_memory_def by blast
qed

end
