(* ===== verification/K_Clone_Props.thy ===== *)
theory K_Clone_Props
  imports K_Clone K_Task_Props
begin

text \<open>The result of \<^verbatim>\<open>__vfork_step_one\<close>.\<close>

lemma vfork_ok:
  assumes pt: "pt_inv m n (kernel_pt s) (kern s)" and x: "t_mm x = Some old"
    and old: "mm_inv old" "range_closed (vmas old) 0 USER_SPACE_END" "user_pages_ok m (kern s) (pt_root (kernel_pt s)) old"
    and al: "alloc_area (buddy_allocator (kern s)) KERNEL_STACK_SIZE_ORDER = Some (Inr v, b)"
    and room: "9 + 3 * length (all_pages (user_regions old)) \<le> card (free_set (buddy_allocator (kern s)))"
  shows "\<exists>new mm k sp. vfork_step_one utr s x tf = Some (new, s\<lparr>g_tid := (g_tid s + 1) mod 2 ^ 64, kern := k\<rparr>) \<and>
    set_child_tid new = 0 \<and> clear_child_tid new = 0 \<and> t_tid new = g_tid s \<and> 
    t_mm new = Some mm \<and> opened new = opened x \<and> task_context new = (task_context x)\<lparr>ctx_ra := utr, ctx_sp := of_nat sp\<rparr> \<and>
    child_stack (kernel_stack new) tf sp k \<and> child_memory m (pt_root (kernel_pt s)) old (kern s) mm k"
proof -
  let ?o = KERNEL_STACK_SIZE_ORDER and ?k = "kern s" and ?rt = "pt_root (kernel_pt s)"
  note D = pt_invD[OF pt]
  let ?st = "\<lparr>st_start = 0, st_end = 0, st_pages = Some v\<rparr>"
  obtain k1 where k1: "Stack_new False 0 0 ?k = Some (?st, k1)" "kern_inv m n k1" "buddy_allocator k1 = b"
    "mem k1 = (\<lambda>a. if a = v then STACK_MAGIC else if a \<in> block_words v ?o then 0 else mem ?k a)"
    "heap k1 v = Some (Page_new v True\<lparr>pg_order := 3, friends := friend_addrs v 8\<rparr>)" "PAGE_SIZE dvd v" "v + 8 * PAGE_SIZE < 2 ^ 64"
    using Stack_new_ok[OF D(1,2) al, of 0 0] by (auto simp: KERNEL_STACK_SIZE_ORDER_def)
  have vb: "v \<in> block_words v ?o" using page_mod_8[OF k1(6), of 0] by (simp add: block_words_def PAGE_SIZE_def)
  have out: "\<forall>a. a \<notin> block_words v ?o \<longrightarrow> mem k1 a = mem ?k a" using vb by (auto simp: k1(4))
  note P = pt_inv_stack[OF pt al k1(2,3) out]
  have up: "user_pages_ok m k1 ?rt old" using old(3) P(2) unfolding user_pages_ok_def by fast
  have R: "regions 0 (user_regions old) USER_SPACE_END"
    using regions_filter[OF mm_invD(1)[OF old(1)] old(2)] by (simp add: user_regions_def USER_SPACE_START_def)
  have room1: "1 + 3 * length (all_pages (user_regions old)) \<le> card (free_set (buddy_allocator k1))"
    using room P(5) k1(3) by simp
  obtain mm k2 where F: "new_mm_by_old (kernel_pt s) old k1 = Some (mm, k2)" "brk mm = brk old"
    "\<forall>a. a \<notin> fst ` set (user_regions old) \<longrightarrow> bt_get a (vmas mm) = None"
    "\<forall>(a, u) \<in> set (user_regions old). \<exists>w. bt_get a (vmas mm) = Some w \<and> region_copied m k1 (pt_root (mm_pagetable mm)) u w k2"
    "\<forall>a. a \<notin> footprint m k1 ?rt \<longrightarrow> mem k2 a = mem k1 a"
    "footprint m k2 (pt_root (mm_pagetable mm)) \<subseteq> footprint m k1 ?rt" "pt_root (mm_pagetable mm) \<in> free_at m k1"
    using fork_ok[OF P(1) R up room1] by blast
  have h2: "heap k2 v = Some (Page_new v True\<lparr>pg_order := 3, friends := friend_addrs v 8\<rparr>)" "kern_inv m n k2"
    using grows_new_mm[OF F(1), of m n] k1(2,5) by (auto simp: grows_def)
  let ?sp = "v + 8 * PAGE_SIZE - TRAPFRAME_SIZE" let ?tf = "tf\<lparr>tf_x2 := of_nat ?sp\<rparr>"
  define w where "w = mem (tf_write_to ?tf ?sp k2)"
  have k3: "tf_write_to ?tf ?sp k2 = k2\<lparr>mem := w\<rparr>" by (simp add: w_def tf_write_to_def)
  have h3: "heap (k2\<lparr>mem := w\<rparr>) v = Some (Page_new v True\<lparr>pg_order := 3, friends := friend_addrs v 8\<rparr>)" "kern_inv m n (k2\<lparr>mem := w\<rparr>)"
    using h2 by simp_all
  have W: "a \<in> block_words v ?o \<and> a \<noteq> v" if "w a \<noteq> mem k2 a" for a
    using frame_words[OF k1(6), of ?tf k2 a] that by (simp add: w_def)
  have cm: "child_memory m ?rt old ?k mm (k2\<lparr>mem := w\<rparr>)"
  proof (rule child_memory_write[OF P(1) old(3) P(6,2) _ F(4-7,2,3)])
    show "\<forall>a. a \<notin> footprint m ?k ?rt \<longrightarrow> mem k1 a = mem ?k a" using out P(3) by blast
    show "\<forall>a. w a \<noteq> mem k2 a \<longrightarrow> a \<notin> footprint m k1 ?rt \<and> a \<in> footprint m ?k ?rt" using W P(3,4) by blast
  qed
  have "mem k2 v = STACK_MAGIC" using F(5)[rule_format, of v] P(4) vb by (auto simp: k1(4))
  then have "w v = STACK_MAGIC" using W[of v] by auto
  then have cs: "child_stack ?st tf ?sp (k2\<lparr>mem := w\<rparr>)"
    unfolding child_stack_def
    using stack_bounds(3,4)[OF h3, of ?st] k1(6,7) tf_at_write_to[OF frame_aligned[OF k1(6)], of ?tf k2]
    by (simp add: w_def PAGE_SIZE_def TRAPFRAME_SIZE_def)
  have op: "map (get_opened x) [0..<length (opened x)] = opened x"
    by (rule nth_equalityI) (simp_all add: get_opened_def)
  have top: "kstack_top k2 ?st = Some ?sp" using stack_bounds(3)[OF h2, of ?st] k1(7) by simp
  show ?thesis
    by (intro exI[of _ mm] exI[of _ "k2\<lparr>mem := w\<rparr>"] exI[of _ ?sp] exI[of _
        "\<lparr>t_tid = g_tid s, t_tgid = g_tid s, kernel_stack = ?st,
          task_context = (task_context x)\<lparr>ctx_ra := utr, ctx_sp := of_nat ?sp\<rparr>, t_parent = None, t_status = TaskRunning,
          t_mm = Some mm, opened = opened x, pwd = pwd x, pwd_dfile = pwd_dfile x, set_child_tid = 0, clear_child_tid = 0,
          exit_code = 0\<rparr>"])
      (use k1(1) F(1) x cm cs top op k3 in \<open>simp add: vfork_step_one_def generate_tid_def Let_def\<close>)
qed

section \<open>Clone\<close>

text \<open>A block is found when an aligned one of its size is free.\<close>

lemma alloc_free_block:
  assumes "kern_inv s n k" "ord < MAX_ORDER" "blk_pages ord j \<subseteq> free_set (buddy_allocator k)"
  shows "\<exists>v b. alloc_area (buddy_allocator k) ord = Some (Inr v, b)"
proof -
  note O = buddy.ownedD(1)[OF kern_invD(1)[OF assms(1)]]
  obtain i where "ord \<le> i" "i < MAX_ORDER" "fa_ks (free_areas (buddy_allocator k) ! i) \<noteq> {}"
    using free_block_covered[of s n _ ord j] O assms(2,3) by blast
  then show ?thesis using alloc_area_some[of s n] O by blast
qed

lemma do_fork_ok:
  assumes pt: "pt_inv m n (kernel_pt s) (kern s)" and t: "lock_task s t = Some x" and x: "t_mm x = Some old"
    and old: "mm_inv old" "range_closed (vmas old) 0 USER_SPACE_END" "user_pages_ok m (kern s) (pt_root (kernel_pt s)) old"
    and bl: "blk_pages KERNEL_STACK_SIZE_ORDER j \<subseteq> free_set (buddy_allocator (kern s))"
    and room: "9 + 3 * length (all_pages (user_regions old)) \<le> card (free_set (buddy_allocator (kern s)))"
  shows "\<exists>new mm k sp. do_fork utr s t tf = Some (new, s\<lparr>g_tid := (g_tid s + 1) mod 2 ^ 64, kern := k\<rparr>) \<and>
    set_child_tid new = 0 \<and> clear_child_tid new = 0 \<and> t_tid new = g_tid s \<and> 
    t_mm new = Some mm \<and> task_context new = (task_context x)\<lparr>ctx_ra := utr, ctx_sp := of_nat sp\<rparr> \<and>
    child_stack (kernel_stack new) tf sp k \<and> child_memory m (pt_root (kernel_pt s)) old (kern s) mm k"
proof -
  obtain v b where "alloc_area (buddy_allocator (kern s)) KERNEL_STACK_SIZE_ORDER = Some (Inr v, b)"
    using alloc_free_block[OF pt_invD(1)[OF pt] _ bl] by (auto simp: KERNEL_STACK_SIZE_ORDER_def MAX_ORDER_def)
  from vfork_ok[OF pt x old this room, of utr tf] obtain new mm k sp
    where "vfork_step_one utr s x tf = Some (new, s\<lparr>g_tid := (g_tid s + 1) mod 2 ^ 64, kern := k\<rparr>)"
      "t_mm new = Some mm" "task_context new = (task_context x)\<lparr>ctx_ra := utr, ctx_sp := of_nat sp\<rparr>"
      "child_stack (kernel_stack new) tf sp k" "child_memory m (pt_root (kernel_pt s)) old (kern s) mm k"
      "set_child_tid new = 0" "clear_child_tid new = 0" "t_tid new = g_tid s" by blast
  then show ?thesis using t
    by (intro exI[of _ "new\<lparr>t_parent := Some t\<rparr>"] exI[of _ mm] exI[of _ k] exI[of _ sp]) (simp add: do_fork_def)
qed

text \<open>
  The stores of \<^verbatim>\<open>clone_tids\<close>: with \<^verbatim>\<open>CLONE_CHILD_SETTID\<close> and an address, one store of the new identifier there,
  through the page table in use.
\<close>

definition tid_stores :: "u64 \<Rightarrow> usize \<Rightarrow> usize \<Rightarrow> u64 \<Rightarrow> (u64 \<times> usize \<times> u8 list) list" where
  "tid_stores flags ctid i root_used =
     (if flag_in flags CLONE_CHILD_SETTID \<and> ctid \<noteq> 0 then [(root_used, ctid, i32_bytes (int i))] else [])"

lemma clone_tids_ok:
  assumes "ctid mod 4 = 0"
  shows "\<exists>new'. clone_tids flags ctid new s =
      Some (new', s\<lparr>user_writes := user_writes s @ tid_stores flags ctid (t_tid new) (satp s)\<rparr>) \<and> t_tid new' = t_tid new \<and>
    t_mm new' = t_mm new \<and> task_context new' = task_context new \<and> kernel_stack new' = kernel_stack new \<and>
    set_child_tid new' = (if flag_in flags CLONE_CHILD_SETTID \<and> ctid \<noteq> 0 then ctid else set_child_tid new) \<and>
    clear_child_tid new' = (if flag_in flags CLONE_CHILD_CLEARTID \<and> ctid \<noteq> 0 then ctid else clear_child_tid new)"
  using assms by (cases "flag_in flags CLONE_CHILD_SETTID \<and> ctid \<noteq> 0")
    (auto simp: clone_tids_def user_write_def rassert_def tid_stores_def)

text \<open>
  C3: \<^verbatim>\<open>sys_clone\<close> with \<^verbatim>\<open>SIGCHLD\<close> (fork), when there is room: the call returns the child's identifier and puts the
  child at the end of the run queue with the caller as its parent and the same open files and directory.
  The child's kernel stack has its magic number and a trap frame like the caller's, with 0 as the
  result, the next instruction, and its own stack pointer; it is started by the return path of traps.
  Its address space has the same regions, each page a copy in a page that was free, and the kernel's own
  writes change no other memory.  The call makes exactly one store to a user address, and only with
  \<^verbatim>\<open>CLONE_CHILD_SETTID\<close> and an address \<open>ctid\<close>: the four bytes of the child's identifier, at \<open>ctid\<close> and through the
  page table that is in use, the caller's (so it is the caller's memory that gets the identifier and not the
  child's copy, which is made before).  \<^verbatim>\<open>CLONE_CHILD_SETTID\<close> and \<^verbatim>\<open>CLONE_CHILD_CLEARTID\<close> record \<open>ctid\<close> in the child.
\<close>

theorem clone_correct:
  assumes pt: "pt_inv m n (kernel_pt s) (kern s)" and t: "RUNNING s = Some t" "lock_task s t = Some x" "t_mm x = Some old"
    and old: "mm_inv old" "range_closed (vmas old) 0 USER_SPACE_END" "user_pages_ok m (kern s) (pt_root (kernel_pt s)) old"
    and bl: "blk_pages KERNEL_STACK_SIZE_ORDER j \<subseteq> free_set (buddy_allocator (kern s))"
    and room: "9 + 3 * length (all_pages (user_regions old)) \<le> card (free_set (buddy_allocator (kern s)))"
    and fl: "\<not> flag_in flags CLONE_VM" "\<not> flag_in flags CLONE_THREAD" "flag_in flags SIGCHLD"
    and ar: "ctid mod 4 = 0" "unat (tf_sepc tf) + 4 < 2 ^ 64"
  shows "\<exists>new mm k sp. sys_clone utr flags 0 ptid ctid tls tf s = Some (as_isize (g_tid s),
      s\<lparr>g_tid := (g_tid s + 1) mod 2 ^ 64, kern := k,
        user_writes := (if flag_in flags CLONE_CHILD_SETTID \<and> ctid \<noteq> 0
          then user_writes s @ [(satp s, ctid, i32_bytes (int (g_tid s)))] else user_writes s),
        tasks := tasks s @ [new], running_list := running_list s @ [length (tasks s)]\<rparr>) \<and>
    set_child_tid new = (if flag_in flags CLONE_CHILD_SETTID \<and> ctid \<noteq> 0 then ctid else 0) \<and>
    clear_child_tid new = (if flag_in flags CLONE_CHILD_CLEARTID \<and> ctid \<noteq> 0 then ctid else 0) \<and>
    t_tid new = g_tid s \<and> t_status new = TaskRunning \<and> t_parent new = Some t \<and> opened new = opened x \<and> pwd new = pwd x \<and>
    t_mm new = Some mm \<and> ctx_ra (task_context new) = utr \<and> ctx_sp (task_context new) = of_nat sp \<and>
    child_stack (kernel_stack new) (tf\<lparr>tf_x10 := 0, tf_sepc := tf_sepc tf + 4\<rparr>) sp k \<and>
    child_memory m (pt_root (kernel_pt s)) old (kern s) mm k"
proof -
  let ?tf = "tf\<lparr>tf_x10 := 0, tf_sepc := tf_sepc tf + 4\<rparr>"
  obtain new mm k sp where f: "do_fork utr s t ?tf = Some (new, s\<lparr>g_tid := (g_tid s + 1) mod 2 ^ 64, kern := k\<rparr>)"
    "t_mm new = Some mm" "task_context new = (task_context x)\<lparr>ctx_ra := utr, ctx_sp := of_nat sp\<rparr>"
    "child_stack (kernel_stack new) ?tf sp k" "child_memory m (pt_root (kernel_pt s)) old (kern s) mm k"
    "set_child_tid new = 0" "clear_child_tid new = 0" "t_tid new = g_tid s"
    using do_fork_ok[OF pt t(2,3) old bl room, of utr ?tf] by blast
  let ?s1 = "s\<lparr>g_tid := (g_tid s + 1) mod 2 ^ 64, kern := k\<rparr>"
  let ?u = "user_writes s @ tid_stores flags ctid (g_tid s) (satp s)"
  obtain new' where c: "clone_tids flags ctid new ?s1 = Some (new', ?s1\<lparr>user_writes := ?u\<rparr>)"
    "t_mm new' = t_mm new" "task_context new' = task_context new" "kernel_stack new' = kernel_stack new"
    "set_child_tid new' = (if flag_in flags CLONE_CHILD_SETTID \<and> ctid \<noteq> 0 then ctid else 0)"
    "clear_child_tid new' = (if flag_in flags CLONE_CHILD_CLEARTID \<and> ctid \<noteq> 0 then ctid else 0)"
    using clone_tids_ok[OF ar(1), of flags new ?s1] f(6-8) by auto
  have x: "x = tasks s ! t" using t(2) by (auto simp: lock_task_def vec_get_def split: if_splits)
  have run: "sys_clone utr flags 0 ptid ctid tls tf s = Some (as_isize (t_tid new'),
      s\<lparr>g_tid := (g_tid s + 1) mod 2 ^ 64, kern := k, user_writes := ?u, tasks := tasks s @ [new'],
        running_list := running_list s @ [length (tasks s)]\<rparr>)" (is "_ = Some (_, ?s')")
    using fl ar(2) t(1) f(1) c(1)
    by (simp add: sys_clone_def uadd_def get_running_def rassert_def arc_new_def add_task_def)
  obtain n0 k0 u0 where e: "?s' = s\<lparr>g_tid := (g_tid s + 1) mod 2 ^ 64, kern := k0, user_writes := u0, tasks := tasks s @ [n0],
        running_list := running_list s @ [length (tasks s)]\<rparr>" and n0: "t_tid n0 = g_tid s" "t_status n0 = TaskRunning"
    "t_parent n0 = Some t" "opened n0 = opened x" "pwd n0 = pwd x"
    using sys_clone_shape[OF run] unfolding t(1) x by blast
  have "tasks s @ [new'] = tasks s @ [n0]" using arg_cong[OF e, of tasks] by simp
  then have sh: "t_tid new' = g_tid s" "t_status new' = TaskRunning" "t_parent new' = Some t"
    "opened new' = opened x" "pwd new' = pwd x" using n0 by simp_all
  have "?u = (if flag_in flags CLONE_CHILD_SETTID \<and> ctid \<noteq> 0
      then user_writes s @ [(satp s, ctid, i32_bytes (int (g_tid s)))] else user_writes s)" by (simp add: tid_stores_def)
  then show ?thesis
    by (intro exI[of _ new'] exI[of _ mm] exI[of _ k] exI[of _ sp]) (use run sh f(2-5) c(2-6) in simp)
qed

lemma free_block_exists:
  assumes F: "F \<subseteq> {..<n}" and c: "n < card F + m" "2 ^ ord * m \<le> n"
  shows "\<exists>j. blk_pages ord j \<subseteq> F"
proof (rule ccontr)
  assume "\<nexists>j. blk_pages ord j \<subseteq> F"
  then have "\<forall>j. \<exists>x. x \<in> blk_pages ord j \<and> x \<notin> F" by blast
  then obtain f where f: "f j \<in> blk_pages ord j" "f j \<notin> F" for j by metis
  have d: "f j div 2 ^ ord = j" for j using f(1)[of j] by (simp add: blk_pages_iff)
  have "f j < n" if "j < m" for j
  proof -
    have "f j < 2 ^ ord * (j + 1)" using f(1)[of j] by (simp add: blk_pages_def mult.commute)
    also have "\<dots> \<le> 2 ^ ord * m" using that by (intro mult_le_mono2) simp
    finally show ?thesis using c(2) by simp
  qed
  then have "f ` {..<m} \<subseteq> {..<n} - F" using f(2) by auto
  then have "card (f ` {..<m}) \<le> card ({..<n} - F)" by (intro card_mono) auto
  moreover have "inj_on f {..<m}" by (rule inj_onI) (metis d)
  moreover have "card ({..<n} - F) = n - card F" using card_Diff_subset[OF finite_subset[OF F] F] by simp
  moreover have "card F \<le> n" using card_mono[OF _ F] by simp
  ultimately show False using c(1) by (simp add: card_image)
qed

definition sample_fork :: "Kern \<Rightarrow> PageTable \<Rightarrow> unit MmStruct \<Rightarrow> unit Sys" where
  "sample_fork k pt mm = (empty_sys k pt TaskContext_new 0)\<lparr>g_tid := 2, tasks := [new_task 1 sample_stack (Some mm) 0],
     running_list := [0], RUNNING := Some 0\<rparr>"

lemma sample_fork_simps [simp]:
  "g_tid (sample_fork k pt mm) = 2" "kernel_pt (sample_fork k pt mm) = pt" "kern (sample_fork k pt mm) = k"
  "RUNNING (sample_fork k pt mm) = Some 0" "running_list (sample_fork k pt mm) = [0]"
  "tasks (sample_fork k pt mm) = [new_task 1 sample_stack (Some mm) 0]"
  "lock_task (sample_fork k pt mm) 0 = Some (new_task 1 sample_stack (Some mm) 0)" "t_mm (new_task i st (Some mm) d) = Some mm"
  "user_writes (sample_fork k pt mm) = []" "satp (sample_fork k pt mm) = 0"
  by (simp_all add: sample_fork_def empty_sys_def lock_task_def vec_get_def new_task_def)

theorem clone_correct_witness:
  "\<exists>k' pt' old s' sp. sys_clone 0x80200100 0x01000011 0 0 0x12000 0 (TrapFrame_new_empty\<lparr>tf_sepc := 0x10000, tf_x10 := 5\<rparr>) (sample_fork k' pt' old) =
      Some (2, s') \<and> length (tasks s') = 2 \<and> user_writes s' = [(0, 0x12000, [2, 0, 0, 0])] \<and>
     set_child_tid (tasks s' ! 1) = 0x12000 \<and> running_list s' = [0, 1] \<and> t_tid (tasks s' ! 1) = 2 \<and> t_parent (tasks s' ! 1) = Some 0 \<and>
     check_magic (kern s') (kernel_stack (tasks s' ! 1)) = Some True \<and> kstack_top (kern s') (kernel_stack (tasks s' ! 1)) = Some sp \<and>
     tf_sepc (tf_at (mem (kern s')) sp) = 0x10004 \<and> tf_x10 (tf_at (mem (kern s')) sp) = 0"
proof -
  let ?m = "0xFFFFFFD880200000 :: nat" and ?tf = "TrapFrame_new_empty\<lparr>tf_sepc := 0x10000, tf_x10 := 5\<rparr>"
  obtain k0 pt k v N pt' k' old where "mm_init_pages (\<lambda>_. 7) 0xFFFFFFD880200000 0xFFFFFFD880A00000 = Some k0"
    "PageTable_default k0 = Some (pt, k)" "fast_alloc_one_page_and_get v pt k 0x12000 = Some (N, v\<lparr>pages_tree := [(0x12000, N)]\<rparr>, pt', k')"
    "old = (sample_mm\<lparr>vmas := [(0x12000, v\<lparr>pages_tree := [(0x12000, N)]\<rparr>)]\<rparr> :: unit MmStruct)"
    and ur: "user_regions old = [(0x12000, v\<lparr>pages_tree := [(0x12000, N)]\<rparr>)]"
    and ok: "pt_inv ?m 2048 pt' k'" "mm_inv old" "range_closed (vmas old) 0 USER_SPACE_END" "user_pages_ok ?m k' (pt_root pt') old"
    and c: "2044 \<le> card (free_set (buddy_allocator k'))" by (rule sample_user_space)
  let ?s = "sample_fork k' pt' old"
  obtain j where j: "blk_pages KERNEL_STACK_SIZE_ORDER j \<subseteq> free_set (buddy_allocator k')"
    using free_block_exists[of "free_set (buddy_allocator k')" 2048 5 KERNEL_STACK_SIZE_ORDER] kern_inv_free[OF pt_invD(1)[OF ok(1)]] c
    by (auto simp: KERNEL_STACK_SIZE_ORDER_def)
  have room: "9 + 3 * length (all_pages (user_regions old)) \<le> card (free_set (buddy_allocator k'))" unfolding ur using c by simp
  have fl: "\<not> flag_in 0x01000011 CLONE_VM" "\<not> flag_in 0x01000011 CLONE_THREAD" "flag_in 0x01000011 SIGCHLD"
    by (simp_all add: flag_in_def CLONE_VM_def CLONE_THREAD_def SIGCHLD_def)
  have sys: "pt_inv ?m 2048 (kernel_pt ?s) (kern ?s)" "RUNNING ?s = Some 0" "lock_task ?s 0 = Some (new_task 1 sample_stack (Some old) 0)"
    "t_mm (new_task 1 sample_stack (Some old) 0) = Some old" "user_pages_ok ?m (kern ?s) (pt_root (kernel_pt ?s)) old"
    "blk_pages KERNEL_STACK_SIZE_ORDER j \<subseteq> free_set (buddy_allocator (kern ?s))"
    "9 + 3 * length (all_pages (user_regions old)) \<le> card (free_set (buddy_allocator (kern ?s)))"
    using ok(1,4) j room by simp_all
  have ar: "(0x12000 :: usize) mod 4 = 0" "unat (tf_sepc ?tf) + 4 < 2 ^ 64" by simp_all
  have set: "flag_in 0x01000011 CLONE_CHILD_SETTID" "i32_bytes (int 2) = [2, 0, 0, 0]"
    by (simp add: flag_in_def CLONE_CHILD_SETTID_def) code_simp
  obtain new mm k sp where f: "sys_clone 0x80200100 0x01000011 0 0 0x12000 0 ?tf ?s = Some (as_isize 2,
      ?s\<lparr>g_tid := 3, kern := k, user_writes := [(0, 0x12000, [2, 0, 0, 0])], tasks := tasks ?s @ [new], running_list := running_list ?s @ [length (tasks ?s)]\<rparr>)"
    "t_tid new = 2" "t_parent new = Some 0" "set_child_tid new = 0x12000" "child_stack (kernel_stack new) (?tf\<lparr>tf_x10 := 0, tf_sepc := tf_sepc ?tf + 4\<rparr>) sp k"
    using clone_correct[OF sys(1-4) ok(2,3) sys(5-7) fl ar, of "0x80200100" 0 0] set by auto
  have "as_isize 2 = 2" by (simp add: as_isize_def)
  then show ?thesis using f unfolding child_stack_def
    by (intro exI[of _ k'] exI[of _ pt'] exI[of _ old] exI[of _ "?s\<lparr>g_tid := 3, kern := k, user_writes := [(0, 0x12000, [2, 0, 0, 0])],
        tasks := tasks ?s @ [new], running_list := running_list ?s @ [length (tasks ?s)]\<rparr>"] exI[of _ sp]) simp
qed

end
