(* ===== verification/K_Blk.thy ===== *)
theory K_Blk
  imports K_Page
begin

text \<open>
  \<^verbatim>\<open>kernel/src/fs/fat.rs\<close>: the storage that the FAT library sees, a sequence of bytes with a position, on top
  of a block device, which only reads and writes whole blocks of 512 bytes.  The driver of the device is
  library code: its two operations are parameters, with the contract \<open>block_dev\<close>.
\<close>

section \<open>Slices\<close>

definition sub_slice :: "'a list \<Rightarrow> usize \<Rightarrow> usize \<Rightarrow> 'a list run" where
  "sub_slice xs a n = (if a + n \<le> length xs then Some (take n (drop a xs)) else None)"

definition copy_from_slice :: "'a list \<Rightarrow> usize \<Rightarrow> 'a list \<Rightarrow> 'a list run" where
  "copy_from_slice dst a src =
     (if a + length src \<le> length dst then Some (take a dst @ src @ drop (a + length src) dst) else None)"

lemma sub_slice_ok [rust_ops]: "a + n \<le> length xs \<Longrightarrow> sub_slice xs a n = Some (take n (drop a xs))"
  by (simp add: sub_slice_def)

lemma copy_from_slice_ok [rust_ops]:
  "a + length src \<le> length dst \<Longrightarrow> copy_from_slice dst a src = Some (take a dst @ src @ drop (a + length src) dst)"
  by (simp add: copy_from_slice_def)

lemma nth_splice:
  assumes "a + length src \<le> length dst" "i < length dst"
  shows "(take a dst @ src @ drop (a + length src) dst) ! i = (if a \<le> i \<and> i < a + length src then src ! (i - a) else dst ! i)"
  using assms by (auto simp: nth_append)

section \<open>The storage\<close>

definition BLOCK_SIZE :: usize where "BLOCK_SIZE = 512"

type_synonym 'd read_block = "'d \<Rightarrow> usize \<Rightarrow> u8 list"
type_synonym 'd write_block = "'d \<Rightarrow> usize \<Rightarrow> u8 list \<Rightarrow> 'd"

record 'd BlkStorage =
  blk_dev :: 'd
  blk_pos :: usize

function blk_read_loop :: "'d read_block \<Rightarrow> 'd \<Rightarrow> usize \<Rightarrow> usize \<Rightarrow> usize \<Rightarrow> u8 list \<Rightarrow> u8 list run" where
  "blk_read_loop rd dev pos read_max read_pos buf =
     (if pos < read_max
      then (let b_no = pos div 512; b_off = pos mod 512; blk = rd dev b_no;
                read_res = read_max - pos; real_read_len = min read_res (512 - b_off)
            in do {
              piece \<leftarrow> sub_slice blk b_off real_read_len;
              buf \<leftarrow> copy_from_slice buf read_pos piece;
              blk_read_loop rd dev (pos + real_read_len) read_max (read_pos + real_read_len) buf
            })
      else Some buf)"
  by pat_completeness auto
termination
  by (relation "measure (\<lambda>(rd, dev, pos, read_max, read_pos, buf). read_max - pos)") auto

declare blk_read_loop.simps [simp del]

definition blk_read :: "'d read_block \<Rightarrow> 'd BlkStorage \<Rightarrow> u8 list \<Rightarrow> (usize \<times> u8 list \<times> 'd BlkStorage) run" where
  "blk_read rd b buf = do {
     read_max \<leftarrow> uadd (blk_pos b) (length buf);
     buf \<leftarrow> blk_read_loop rd (blk_dev b) (blk_pos b) read_max 0 buf;
     p \<leftarrow> uadd (blk_pos b) (length buf);
     Some (length buf, buf, b\<lparr>blk_pos := p\<rparr>)
   }"

function blk_write_loop ::
    "'d read_block \<Rightarrow> 'd write_block \<Rightarrow> 'd \<Rightarrow> usize \<Rightarrow> usize \<Rightarrow> usize \<Rightarrow> u8 list \<Rightarrow> 'd run" where
  "blk_write_loop rd wr dev pos write_max write_pos buf =
     (if pos < write_max
      then (let b_no = pos div 512; b_off = pos mod 512; blk = rd dev b_no;
                write_res = write_max - pos; real_write_len = min write_res (512 - b_off)
            in do {
              piece \<leftarrow> sub_slice buf write_pos real_write_len;
              blk \<leftarrow> copy_from_slice blk b_off piece;
              blk_write_loop rd wr (wr dev b_no blk) (pos + real_write_len) write_max (write_pos + real_write_len) buf
            })
      else Some dev)"
  by pat_completeness auto
termination
  by (relation "measure (\<lambda>(rd, wr, dev, pos, write_max, write_pos, buf). write_max - pos)") auto

declare blk_write_loop.simps [simp del]

definition blk_write ::
    "'d read_block \<Rightarrow> 'd write_block \<Rightarrow> 'd BlkStorage \<Rightarrow> u8 list \<Rightarrow> (usize \<times> 'd BlkStorage) run" where
  "blk_write rd wr b buf = do {
     write_max \<leftarrow> uadd (blk_pos b) (length buf);
     dev \<leftarrow> blk_write_loop rd wr (blk_dev b) (blk_pos b) write_max 0 buf;
     p \<leftarrow> uadd (blk_pos b) (length buf);
     Some (length buf, b\<lparr>blk_dev := dev, blk_pos := p\<rparr>)
   }"

text \<open>\<^verbatim>\<open>wrapping_add_signed\<close> on the position; seeking from the end panics.\<close>

definition blk_seek :: "'d BlkStorage \<Rightarrow> SeekFrom \<Rightarrow> (usize \<times> 'd BlkStorage) run" where
  "blk_seek b pos =
     (case pos of
        Start off \<Rightarrow> Some (unat off, b\<lparr>blk_pos := unat off\<rparr>)
      | End off \<Rightarrow> None
      | Current off \<Rightarrow> (let p = nat ((int (blk_pos b) + off) mod 2 ^ 64) in Some (p, b\<lparr>blk_pos := p\<rparr>)))"

section \<open>The storage is a sequence of bytes\<close>

text \<open>The contract of a device: blocks have 512 bytes, and reading gives what was last written.\<close>

definition block_dev :: "'d read_block \<Rightarrow> 'd write_block \<Rightarrow> bool" where
  "block_dev rd wr \<longleftrightarrow> (\<forall>d b. length (rd d b) = 512) \<and>
     (\<forall>d b v. length v = 512 \<longrightarrow> rd (wr d b v) b = v) \<and> (\<forall>d b b' v. b' \<noteq> b \<longrightarrow> rd (wr d b v) b' = rd d b')"

lemma block_devD:
  assumes "block_dev rd wr"
  shows "length (rd d b) = 512" "length v = 512 \<Longrightarrow> rd (wr d b v) b = v" "b' \<noteq> b \<Longrightarrow> rd (wr d b v) b' = rd d b'"
  using assms by (auto simp: block_dev_def)

definition byte_at :: "'d read_block \<Rightarrow> 'd \<Rightarrow> usize \<Rightarrow> u8" where
  "byte_at rd d i = rd d (i div 512) ! (i mod 512)"

text \<open>The bytes of one round are in one block.\<close>

lemma in_block:
  fixes pos :: nat
  assumes "i < min m (512 - pos mod 512)"
  shows "(pos + i) div 512 = pos div 512" "(pos + i) mod 512 = pos mod 512 + i"
proof -
  have s: "pos mod 512 + i < 512" using assms by linarith
  have "pos + i = pos div 512 * 512 + (pos mod 512 + i)" by simp
  then show "(pos + i) div 512 = pos div 512" "(pos + i) mod 512 = pos mod 512 + i"
    using s by (metis div_mult_self3 div_less add.right_neutral zero_neq_numeral,
        metis mod_mult_self3 mod_less)
qed

lemma blk_read_loop_ok:
  assumes dev: "block_dev rd wr"
  shows "pos \<le> m \<Longrightarrow> rp + (m - pos) \<le> length buf \<Longrightarrow> blk_read_loop rd d pos m rp buf =
      Some (take rp buf @ map (byte_at rd d) [pos..<m] @ drop (rp + (m - pos)) buf)"
proof (induction "m - pos" arbitrary: pos rp buf rule: less_induct)
  case less
  show ?case
  proof (cases "pos < m")
    case False
    then show ?thesis using less.prems by (simp add: blk_read_loop.simps)
  next
    case True
    define n where "n = min (m - pos) (512 - pos mod 512)"
    let ?piece = "take n (drop (pos mod 512) (rd d (pos div 512)))"
    let ?buf = "take rp buf @ ?piece @ drop (rp + n) buf"
    have n: "0 < n" "pos + n \<le> m" "pos mod 512 + n \<le> 512" using True by (auto simp: n_def)
    have lp: "length ?piece = n" using n(3) block_devD(1)[OF dev, of d] by simp
    have piece: "?piece = map (byte_at rd d) [pos..<pos + n]"
    proof (rule nth_equalityI)
      fix i assume "i < length ?piece"
      then have i: "i < n" using lp by simp
      then show "?piece ! i = map (byte_at rd d) [pos..<pos + n] ! i"
        using n(3) in_block[of i "m - pos" pos] block_devD(1)[OF dev, of d] by (simp add: n_def byte_at_def)
    qed (simp only: lp length_map length_upt diff_add_inverse)
    have "blk_read_loop rd d pos m rp buf = blk_read_loop rd d (pos + n) m (rp + n) ?buf"
    proof -
      have "sub_slice (rd d (pos div 512)) (pos mod 512) n = Some ?piece"
        unfolding sub_slice_def block_devD(1)[OF dev] using n(3) by (simp only: if_True)
      moreover have "copy_from_slice buf rp ?piece = Some ?buf"
        unfolding copy_from_slice_def lp using n(2) less.prems by simp
      ultimately show ?thesis
        by (subst blk_read_loop.simps) (simp only: True if_True Let_def n_def[symmetric] bind.bind_lunit)
    qed
    also have "\<dots> = Some (take (rp + n) ?buf @ map (byte_at rd d) [pos + n..<m] @ drop (rp + n + (m - (pos + n))) ?buf)"
    proof (rule less.hyps)
      show "m - (pos + n) < m - pos" "pos + n \<le> m" using n by linarith+
      show "rp + n + (m - (pos + n)) \<le> length ?buf" using n(2) less.prems lp by simp
    qed
    also have "take (rp + n) ?buf = take rp buf @ ?piece" using less.prems lp n(2) by simp
    also have "drop (rp + n + (m - (pos + n))) ?buf = drop (rp + (m - pos)) buf" using less.prems lp n(2) by (simp add: add.commute)
    also have "map (byte_at rd d) [pos + n..<m] = drop n (map (byte_at rd d) [pos..<m])" by (simp add: drop_map)
    finally show ?thesis using upt_add_eq_append[of pos "pos + n" "m - (pos + n)"] n(2) unfolding piece by (simp add: drop_map)
  qed
qed

lemma blk_write_loop_ok:
  assumes dev: "block_dev rd wr"
  shows "pos \<le> m \<Longrightarrow> wp + (m - pos) \<le> length buf \<Longrightarrow> \<exists>d'. blk_write_loop rd wr d pos m wp buf = Some d' \<and>
    (\<forall>i. byte_at rd d' i = (if pos \<le> i \<and> i < m then buf ! (wp + (i - pos)) else byte_at rd d i))"
proof (induction "m - pos" arbitrary: pos wp d rule: less_induct)
  case less
  show ?case
  proof (cases "pos < m")
    case False
    then show ?thesis using less.prems by (auto simp: blk_write_loop.simps)
  next
    case True
    define n where "n = min (m - pos) (512 - pos mod 512)"
    let ?piece = "take n (drop wp buf)" and ?b = "rd d (pos div 512)"
    let ?blk = "take (pos mod 512) ?b @ ?piece @ drop (pos mod 512 + n) ?b"
    let ?d = "wr d (pos div 512) ?blk"
    have n: "0 < n" "pos + n \<le> m" "pos mod 512 + n \<le> 512" using True by (auto simp: n_def)
    have lp: "length ?piece = n" "length ?b = 512" using n(2) less.prems block_devD(1)[OF dev] by auto
    have lb: "length ?blk = 512" using n(3) lp by simp
    have run: "blk_write_loop rd wr d pos m wp buf = blk_write_loop rd wr ?d (pos + n) m (wp + n) buf"
    proof -
      have "sub_slice buf wp n = Some ?piece" using less.prems n(2) by (simp add: sub_slice_def)
      moreover have "copy_from_slice ?b (pos mod 512) ?piece = Some ?blk"
        unfolding copy_from_slice_def lp using n(3) by (simp only: if_True)
      ultimately show ?thesis
        by (subst blk_write_loop.simps) (simp only: True if_True Let_def n_def[symmetric] bind.bind_lunit)
    qed
    obtain d' where d': "blk_write_loop rd wr ?d (pos + n) m (wp + n) buf = Some d'"
      "\<forall>i. byte_at rd d' i = (if pos + n \<le> i \<and> i < m then buf ! (wp + n + (i - (pos + n))) else byte_at rd ?d i)"
    proof -
      have "m - (pos + n) < m - pos" "pos + n \<le> m" "wp + n + (m - (pos + n)) \<le> length buf" using n less.prems by linarith+
      from less.hyps[OF this] show thesis using that by blast
    qed
    have one: "byte_at rd ?d i = (if pos \<le> i \<and> i < pos + n then buf ! (wp + (i - pos)) else byte_at rd d i)" for i
    proof (cases "i div 512 = pos div 512")
      case False
      have "\<not> (pos \<le> i \<and> i < pos + n)"
      proof
        assume i: "pos \<le> i \<and> i < pos + n"
        then have "i - pos < min (m - pos) (512 - pos mod 512)" unfolding n_def[symmetric] by linarith
        from in_block(1)[OF this] show False using False i by simp
      qed
      then show ?thesis using False block_devD(3)[OF dev, of "i div 512" "pos div 512" d ?blk] by (auto simp: byte_at_def)
    next
      case True
      then have q: "pos mod 512 \<le> i mod 512 \<and> i mod 512 < pos mod 512 + n \<longleftrightarrow> pos \<le> i \<and> i < pos + n"
        "i mod 512 - pos mod 512 = i - pos"
        using div_mult_mod_eq[of i 512] div_mult_mod_eq[of pos 512] by linarith+
      have "byte_at rd ?d i = ?blk ! (i mod 512)" using True block_devD(2)[OF dev lb] by (simp add: byte_at_def)
      also have "\<dots> = (if pos \<le> i \<and> i < pos + n then ?piece ! (i - pos) else ?b ! (i mod 512))"
        using nth_splice[of "pos mod 512" ?piece ?b "i mod 512"] lp n(3) q by simp
      finally show ?thesis using True n(2) less.prems by (auto simp: byte_at_def)
    qed
    show ?thesis
      unfolding run d'(1) using d'(2) n(2) by (intro exI[of _ d']) (auto simp: one)
  qed
qed

lemma blk_read_ok:
  assumes "block_dev rd wr" "blk_pos b + length buf < 2 ^ 64"
  shows "blk_read rd b buf = Some (length buf, map (byte_at rd (blk_dev b)) [blk_pos b..<blk_pos b + length buf],
      b\<lparr>blk_pos := blk_pos b + length buf\<rparr>)"
  using assms(2) blk_read_loop_ok[OF assms(1), of "blk_pos b" "blk_pos b + length buf" 0 buf]
  by (simp add: blk_read_def uadd_def)

lemma blk_write_ok:
  assumes "block_dev rd wr" "blk_pos b + length buf < 2 ^ 64"
  shows "\<exists>d. blk_write rd wr b buf = Some (length buf, b\<lparr>blk_dev := d, blk_pos := blk_pos b + length buf\<rparr>) \<and>
      (\<forall>i. byte_at rd d i = (if blk_pos b \<le> i \<and> i < blk_pos b + length buf then buf ! (i - blk_pos b) else byte_at rd (blk_dev b) i))"
proof -
  obtain d where d: "blk_write_loop rd wr (blk_dev b) (blk_pos b) (blk_pos b + length buf) 0 buf = Some d"
    "\<forall>i. byte_at rd d i = (if blk_pos b \<le> i \<and> i < blk_pos b + length buf then buf ! (0 + (i - blk_pos b)) else byte_at rd (blk_dev b) i)"
    using blk_write_loop_ok[OF assms(1), of "blk_pos b" "blk_pos b + length buf" 0 buf "blk_dev b"] by auto
  then show ?thesis using assms(2) by (intro exI[of _ d]) (auto simp: blk_write_def uadd_def)
qed

lemma blk_seek_current:
  assumes "0 \<le> int (blk_pos b) + off" "int (blk_pos b) + off < 2 ^ 64"
  shows "blk_seek b (Current off) = Some (nat (int (blk_pos b) + off), b\<lparr>blk_pos := nat (int (blk_pos b) + off)\<rparr>)"
  using assms by (simp add: blk_seek_def Let_def)

lemma blk_write_read_back:
  assumes dev: "block_dev rd wr" and len: "unat off + length buf < 2 ^ 64" "length buf0 = length buf"
  shows "\<exists>d. blk_write rd wr (b\<lparr>blk_pos := unat off\<rparr>) buf = Some (length buf, b\<lparr>blk_dev := d, blk_pos := unat off + length buf\<rparr>) \<and>
    blk_seek (b\<lparr>blk_dev := d, blk_pos := unat off + length buf\<rparr>) (Current (- int (length buf))) =
      Some (unat off, b\<lparr>blk_dev := d, blk_pos := unat off\<rparr>) \<and>
    blk_read rd (b\<lparr>blk_dev := d, blk_pos := unat off\<rparr>) buf0 =
      Some (length buf, buf, b\<lparr>blk_dev := d, blk_pos := unat off + length buf\<rparr>)"
proof -
  let ?b = "b\<lparr>blk_pos := unat off\<rparr>"
  have l: "blk_pos ?b + length buf < 2 ^ 64" using len(1) by simp
  obtain d where d: "blk_write rd wr ?b buf = Some (length buf, ?b\<lparr>blk_dev := d, blk_pos := unat off + length buf\<rparr>)"
    "\<forall>i. byte_at rd d i = (if unat off \<le> i \<and> i < unat off + length buf then buf ! (i - unat off) else byte_at rd (blk_dev b) i)"
    using blk_write_ok[OF dev l] by auto
  have m: "map (byte_at rd d) [unat off..<unat off + length buf] = buf"
    by (rule nth_equalityI) (simp_all add: d(2))
  have l': "blk_pos (b\<lparr>blk_dev := d, blk_pos := unat off\<rparr>) + length buf0 < 2 ^ 64" using len by simp
  have "blk_seek (b\<lparr>blk_dev := d, blk_pos := unat off + length buf\<rparr>) (Current (- int (length buf))) =
      Some (unat off, b\<lparr>blk_dev := d, blk_pos := unat off\<rparr>)"
    using blk_seek_current[of "b\<lparr>blk_dev := d, blk_pos := unat off + length buf\<rparr>" "- int (length buf)"] len(1)
      of_nat_less_iff[of "unat off" "2 ^ 64", where ?'a = int] by simp
  then show ?thesis using d(1) blk_read_ok[OF dev l'] m len(2) by (intro exI[of _ d]) simp
qed

text \<open>
  C22: The block storage behaves as a sequence of bytes.  Reading at a position gives the bytes there,
  and writing replaces exactly the bytes from the position on, although the device only handles whole
  blocks; both move the position by the length of the buffer.  Seeking from the start sets the position, seeking
  from the current one adds the signed offset to it where the sum is a position, both return the new position
  and leave the device; seeking from the end panics.  So what is written after a seek is what is read after
  seeking back.
\<close>

theorem blk_storage_refines:
  assumes "block_dev rd wr" "blk_pos b + length buf < 2 ^ 64"
  shows "blk_read rd b buf = Some (length buf, map (byte_at rd (blk_dev b)) [blk_pos b..<blk_pos b + length buf],
      b\<lparr>blk_pos := blk_pos b + length buf\<rparr>) \<and>
    (\<exists>d. blk_write rd wr b buf = Some (length buf, b\<lparr>blk_dev := d, blk_pos := blk_pos b + length buf\<rparr>) \<and>
      (\<forall>i. byte_at rd d i = (if blk_pos b \<le> i \<and> i < blk_pos b + length buf then buf ! (i - blk_pos b) else byte_at rd (blk_dev b) i))) \<and>
    (\<forall>off. blk_seek b (Start off) = Some (unat off, b\<lparr>blk_pos := unat off\<rparr>)) \<and>
    (\<forall>off. 0 \<le> int (blk_pos b) + off \<longrightarrow> int (blk_pos b) + off < 2 ^ 64 \<longrightarrow>
      blk_seek b (Current off) = Some (nat (int (blk_pos b) + off), b\<lparr>blk_pos := nat (int (blk_pos b) + off)\<rparr>)) \<and>
    (\<forall>off. blk_seek b (End off) = None) \<and>
    (\<forall>off buf0. unat off + length buf < 2 ^ 64 \<longrightarrow> length buf0 = length buf \<longrightarrow>
      (\<exists>p b1 b2 b3. blk_seek b (Start off) = Some (p, b1) \<and> blk_write rd wr b1 buf = Some (length buf, b2) \<and>
        blk_seek b2 (Current (- int (length buf))) = Some (p, b3) \<and> blk_read rd b3 buf0 = Some (length buf, buf, b2)))"
proof (intro conjI allI impI)
  fix off :: u64 and buf0 :: "u8 list"
  assume "unat off + length buf < 2 ^ 64" "length buf0 = length buf"
  from blk_write_read_back[OF assms(1) this, of b]
  show "\<exists>p b1 b2 b3. blk_seek b (Start off) = Some (p, b1) \<and> blk_write rd wr b1 buf = Some (length buf, b2) \<and>
      blk_seek b2 (Current (- int (length buf))) = Some (p, b3) \<and> blk_read rd b3 buf0 = Some (length buf, buf, b2)"
    by (auto simp: blk_seek_def)
qed (use blk_read_ok[OF assms] blk_write_ok[OF assms] blk_seek_current[of b] in \<open>simp_all add: blk_seek_def\<close>)

text \<open>A device in memory, and a write over the border of two blocks of it.\<close>

definition ram_read :: "(usize \<Rightarrow> u8 list) read_block" where
  "ram_read d b = take 512 (d b @ replicate 512 0)"

definition ram_write :: "(usize \<Rightarrow> u8 list) write_block" where
  "ram_write d b v = d(b := v)"

lemma ram_block_dev: "block_dev ram_read ram_write"
  by (auto simp: block_dev_def ram_read_def ram_write_def)

theorem blk_storage_refines_witness:
  "\<exists>d. blk_write ram_read ram_write \<lparr>blk_dev = (\<lambda>_. []), blk_pos = 511\<rparr> [7, 8] = Some (2, \<lparr>blk_dev = d, blk_pos = 513\<rparr>) \<and>
     byte_at ram_read d 510 = 0 \<and> byte_at ram_read d 511 = 7 \<and> byte_at ram_read d 512 = 8 \<and> byte_at ram_read d 513 = 0 \<and>
     (\<exists>b1 b2 b3. blk_seek \<lparr>blk_dev = (\<lambda>_. []), blk_pos = 511\<rparr> (Start 1023) = Some (1023, b1) \<and>
       blk_write ram_read ram_write b1 [7, 8] = Some (2, b2) \<and> blk_seek b2 (Current (- 2)) = Some (1023, b3) \<and>
       blk_read ram_read b3 [0, 0] = Some (2, [7, 8], b2))"
proof -
  let ?b = "\<lparr>blk_dev = (\<lambda>_. []), blk_pos = 511\<rparr> :: (usize \<Rightarrow> u8 list) BlkStorage"
  have "blk_pos ?b + length [7, 8 :: u8] < 2 ^ 64" by simp
  note st = blk_storage_refines[OF ram_block_dev this]
  from st obtain d
    where "blk_write ram_read ram_write ?b [7, 8] = Some (length [7, 8 :: u8], ?b\<lparr>blk_dev := d, blk_pos := 513\<rparr>)"
      "\<forall>i. byte_at ram_read d i = (if 511 \<le> i \<and> i < 513 then [7, 8] ! (i - 511) else byte_at ram_read (\<lambda>_. []) i)" by auto
  moreover have "byte_at ram_read (\<lambda>_. []) i = 0" for i by (simp add: byte_at_def ram_read_def)
  moreover have "\<exists>p b1 b2 b3. blk_seek ?b (Start 1023) = Some (p, b1) \<and> blk_write ram_read ram_write b1 [7, 8] = Some (length [7, 8 :: u8], b2) \<and>
      blk_seek b2 (Current (- int (length [7, 8 :: u8]))) = Some (p, b3) \<and> blk_read ram_read b3 [0, 0] = Some (length [7, 8 :: u8], [7, 8], b2)"
    by (rule st[THEN conjunct2, THEN conjunct2, THEN conjunct2, THEN conjunct2, THEN conjunct2, rule_format]) simp_all
  moreover have "blk_seek ?b (Start 1023) = Some (unat (1023 :: u64), ?b\<lparr>blk_pos := unat (1023 :: u64)\<rparr>)"
    by (rule st[THEN conjunct2, THEN conjunct2, THEN conjunct1, rule_format])
  moreover have two: "length [7, 8 :: u8] = 2" by simp
  ultimately show ?thesis unfolding two by simp
qed

end
