(* ===== verification/K_Inode.thy ===== *)
theory K_Inode
  imports K_Rust
begin

text \<open>
  \<^verbatim>\<open>kernel/src/fs/inode.rs\<close> and \<^verbatim>\<open>get_sub_dentry\<close> of \<^verbatim>\<open>kernel/src/fs/mod.rs\<close>: index nodes, which are made when a
  name is looked up and found again through the list of children of their directory as long as someone uses
  them, and the lookup of a path.

  The directories themselves are those of the FAT library, which is a parameter: \<open>'d\<close> is a directory, \<open>'e\<close> one
  entry of it and \<open>'h\<close> an open file of the library.  A reference to an index node is its place in the table of
  all nodes ever made; \<open>live\<close> has those that are still referenced, so upgrading a weak reference fails
  exactly for the nodes that are not in \<open>live\<close>.
\<close>

section \<open>The FAT library\<close>

text \<open>An entry that cannot be read is \<open>None\<close> in the list of entries.\<close>

record ('d, 'e, 'h) FatLib =
  ff_iter :: "'d \<Rightarrow> 'e option list"
  ff_name :: "'e \<Rightarrow> string"
  ff_is_dir :: "'e \<Rightarrow> bool"
  ff_is_file :: "'e \<Rightarrow> bool"
  ff_to_dir :: "'e \<Rightarrow> 'd"
  ff_to_file :: "'e \<Rightarrow> 'h"

fun find_dentry :: "('d, 'e, 'h) FatLib \<Rightarrow> 'e option list \<Rightarrow> string \<Rightarrow> 'e option run" where
  "find_dentry fs [] name = Some None"
| "find_dentry fs (item # items) name = do {
     dentry \<leftarrow> item;
     (if ff_name fs dentry = name then Some (Some dentry) else find_dentry fs items name)
   }"

definition get_sub_dentry :: "('d, 'e, 'h) FatLib \<Rightarrow> 'd \<Rightarrow> string \<Rightarrow> 'e option run" where
  "get_sub_dentry fs in_dir name = find_dentry fs (ff_iter fs in_dir) name"

section \<open>Index nodes\<close>

type_synonym ino = nat

datatype ('d, 'h) InodeClass = Dir 'd | File 'h

record ('d, 'h) Inode =
  i_parent :: "ino option"
  i_name :: string
  i_children :: "ino list"
  i_class :: "('d, 'h) InodeClass"

record ('d, 'h) Icache =
  nodes :: "('d, 'h) Inode list"
  live :: "ino set"

definition create_root :: "'d \<Rightarrow> ('d, 'h) Icache" where
  "create_root d = \<lparr>nodes = [\<lparr>i_parent = None, i_name = '''', i_children = [], i_class = Dir d\<rparr>], live = {0}\<rparr>"

definition new_inode :: "('d, 'h) Icache \<Rightarrow> ino \<Rightarrow> ('d, 'h) InodeClass \<Rightarrow> string \<Rightarrow> (ino \<times> ('d, 'h) Icache) run" where
  "new_inode st self cl name = do {
     _ \<leftarrow> rassert (self \<in> live st);
     let n = length (nodes st);
     Some (n, st\<lparr>nodes := nodes st @ [\<lparr>i_parent = Some self, i_name = name, i_children = [], i_class = cl\<rparr>], live := insert n (live st)\<rparr>)
   }"

text \<open>
  The scan of the children with a cursor, which is an index or, past the last child, the place between the
  last and the first.  Removing a child leaves the cursor at the next one, and \<^verbatim>\<open>move_next\<close> from the place past
  the last child goes to the first.
\<close>

definition cursor_next :: "'a list \<Rightarrow> usize \<Rightarrow> usize" where
  "cursor_next xs i = (if i < length xs then i + 1 else 0)"

function scan_children :: "('d, 'h) Icache \<Rightarrow> string \<Rightarrow> ino list \<Rightarrow> usize \<Rightarrow> ino option \<times> ino list" where
  "scan_children st name cs i =
     (if i < length cs
      then (let c = cs ! i
            in if c \<notin> live st
               then (let cs' = take i cs @ drop (i + 1) cs in scan_children st name cs' (cursor_next cs' i))
               else if i_name (nodes st ! c) = name then (Some c, cs)
               else scan_children st name cs (cursor_next cs i))
      else (None, cs))"
  by pat_completeness auto
termination
  by (relation "measures [\<lambda>(st, name, cs, i). length cs, \<lambda>(st, name, cs, i). length cs - i]")
    (auto simp: cursor_next_def)

declare scan_children.simps [simp del]

definition set_children :: "('d, 'h) Icache \<Rightarrow> ino \<Rightarrow> ino list \<Rightarrow> ('d, 'h) Icache" where
  "set_children st n cs = st\<lparr>nodes := (nodes st)[n := (nodes st ! n)\<lparr>i_children := cs\<rparr>]\<rparr>"

definition get_sub_node :: "('d, 'e, 'h) FatLib \<Rightarrow> ('d, 'h) Icache \<Rightarrow> ino \<Rightarrow> string \<Rightarrow> (ino option \<times> ('d, 'h) Icache) run" where
  "get_sub_node fs st self name = do {
     x \<leftarrow> vec_get (nodes st) self;
     (case i_class x of
        File _ \<Rightarrow> Some (None, st)
      | Dir d \<Rightarrow>
          (let (found, cs) = scan_children st name (i_children x) 0; st = set_children st self cs
           in case found of
                Some v \<Rightarrow> Some (Some v, st)
              | None \<Rightarrow> do {
                  r \<leftarrow> get_sub_dentry fs d name;
                  (case r of
                     None \<Rightarrow> Some (None, st)
                   | Some e \<Rightarrow>
                       if ff_is_dir fs e
                       then do {
                         (n, st) \<leftarrow> new_inode st self (Dir (ff_to_dir fs e)) name;
                         Some (Some n, set_children st self (cs @ [n]))
                       }
                       else if ff_is_file fs e
                       then do {
                         (n, st) \<leftarrow> new_inode st self (File (ff_to_file fs e)) name;
                         Some (Some n, set_children st self (cs @ [n]))
                       }
                       else Some (None, st))
                }))
   }"

text \<open>\<^verbatim>\<open>str::split\<close> at every slash.\<close>

fun split_slash :: "string \<Rightarrow> string list" where
  "split_slash [] = [[]]"
| "split_slash (c # cs) =
     (if c = CHR ''/'' then [] # split_slash cs
      else (case split_slash cs of [] \<Rightarrow> [[c]] | w # ws \<Rightarrow> (c # w) # ws))"

definition name_array :: "string \<Rightarrow> string list" where
  "name_array path = filter (\<lambda>x. \<not> (x = [] \<or> x = ''.'')) (split_slash path)"

fun walk_nodes :: "('d, 'e, 'h) FatLib \<Rightarrow> ('d, 'h) Icache \<Rightarrow> ino \<Rightarrow> string list \<Rightarrow> (ino option \<times> ('d, 'h) Icache) run" where
  "walk_nodes fs st node_probe [] = Some (Some node_probe, st)"
| "walk_nodes fs st node_probe (name # names) = do {
     (r, st) \<leftarrow> get_sub_node fs st node_probe name;
     (case r of
        Some n \<Rightarrow> walk_nodes fs st n names
      | None \<Rightarrow> Some (None, st))
   }"

definition get_node_by_path :: "('d, 'e, 'h) FatLib \<Rightarrow> ('d, 'h) Icache \<Rightarrow> ino \<Rightarrow> string \<Rightarrow> (ino option \<times> ('d, 'h) Icache) run" where
  "get_node_by_path fs st self path = do {
     _ \<leftarrow> rassert (self \<in> live st);
     (if name_array path = [] then Some (Some self, st) else walk_nodes fs st self (name_array path))
   }"

text \<open>A node that nobody uses goes away; a node keeps its parent.\<close>

definition reclaim :: "ino \<Rightarrow> ('d, 'h) Icache \<Rightarrow> ('d, 'h) Icache" where
  "reclaim n st =
     (if n \<noteq> 0 \<and> (\<forall>c \<in> live st. i_parent (nodes st ! c) \<noteq> Some n) then st\<lparr>live := live st - {n}\<rparr> else st)"

section \<open>Reading and writing\<close>

text \<open>
  The operations of an open file of the library: seeking from the start, reading into a buffer and writing;
  the handle keeps the position.
\<close>

record 'h FatFile =
  h_seek :: "'h \<Rightarrow> usize \<Rightarrow> (unit + usize) \<times> 'h"
  h_read :: "'h \<Rightarrow> u8 list \<Rightarrow> (unit + usize) \<times> u8 list \<times> 'h"
  h_write :: "'h \<Rightarrow> u8 list \<Rightarrow> (unit + usize) \<times> 'h"

definition read_off :: "'h FatFile \<Rightarrow> ('d, 'h) InodeClass \<Rightarrow> u8 list \<Rightarrow> usize \<Rightarrow> ((unit + usize) \<times> u8 list \<times> ('d, 'h) InodeClass) run" where
  "read_off ops cl buf off =
     (case cl of
        File f \<Rightarrow>
          (case h_seek ops f off of
             (Inl _, f) \<Rightarrow> Some (Inl (), buf, File f)
           | (Inr _, f) \<Rightarrow>
               (case h_read ops f buf of
                  (Inl _, buf, f) \<Rightarrow> Some (Inl (), buf, File f)
                | (Inr l, buf, f) \<Rightarrow> Some (Inr l, buf, File f)))
      | Dir _ \<Rightarrow> None)"

definition write_off :: "'h FatFile \<Rightarrow> ('d, 'h) InodeClass \<Rightarrow> u8 list \<Rightarrow> usize \<Rightarrow> ((unit + usize) \<times> ('d, 'h) InodeClass) run" where
  "write_off ops cl buf off =
     (case cl of
        File f \<Rightarrow>
          (case h_seek ops f off of
             (Inl _, f) \<Rightarrow> Some (Inl (), File f)
           | (Inr _, f) \<Rightarrow>
               (case h_write ops f buf of
                  (Inl _, f) \<Rightarrow> Some (Inl (), File f)
                | (Inr l, f) \<Rightarrow> Some (Inr l, File f)))
      | Dir _ \<Rightarrow> None)"

text \<open>The loop ends with the result \<open>None\<close> when a slice or a sum is out of range.\<close>

partial_function (option) read_off_loop ::
    "'h FatFile \<Rightarrow> ('d, 'h) InodeClass \<Rightarrow> u8 list \<Rightarrow> usize \<Rightarrow> usize \<Rightarrow> ((unit + usize) \<times> u8 list \<times> ('d, 'h) InodeClass) run" where
  "read_off_loop ops cl buf off buf_pos =
     (if buf_pos < length buf
      then do {
        o' \<leftarrow> uadd off buf_pos;
        r \<leftarrow> read_off ops cl (drop buf_pos buf) o';
        (case r of
           (Inl _, piece, cl) \<Rightarrow> Some (Inl (), take buf_pos buf @ piece, cl)
         | (Inr len, piece, cl) \<Rightarrow>
             (if len = 0 then Some (Inr buf_pos, take buf_pos buf @ piece, cl)
              else do {
                p \<leftarrow> uadd buf_pos len;
                read_off_loop ops cl (take buf_pos buf @ piece) off p
              }))
      }
      else Some (Inr (length buf), buf, cl))"

definition read_off_exact :: "'h FatFile \<Rightarrow> ('d, 'h) InodeClass \<Rightarrow> u8 list \<Rightarrow> usize \<Rightarrow> ((unit + usize) \<times> u8 list \<times> ('d, 'h) InodeClass) run" where
  "read_off_exact ops cl buf off = read_off_loop ops cl buf off 0"

text \<open>A node with the class, and so the handle, that an operation on its file leaves.\<close>

definition put_class :: "ino \<Rightarrow> ('d, 'h) InodeClass \<Rightarrow> ('d, 'h) Icache \<Rightarrow> ('d, 'h) Icache" where
  "put_class n cl ic = ic\<lparr>nodes := (nodes ic)[n := (nodes ic ! n)\<lparr>i_class := cl\<rparr>]\<rparr>"

definition write_off_exact :: "u8 list \<Rightarrow> usize \<Rightarrow> unit + usize" where
  "write_off_exact buf off = Inl ()"

end
