(* ===== verification/K_Fs_Calls.thy ===== *)
theory K_Fs_Calls
  imports K_Proc K_Inode
begin

text \<open>
  \<^verbatim>\<open>kernel/src/syscall/sys_fs.rs\<close> with the descriptor table of \<^verbatim>\<open>kernel/src/task/task.rs\<close> and the operations of
  \<^verbatim>\<open>kernel/src/fs/dfile.rs\<close> that it calls.  An open file is shared by reference counts: it is dropped when no
  descriptor of any task has it any more (exited tasks keep theirs).  Index nodes are those of \<^verbatim>\<open>fs/inode.rs\<close>.

  A call that reaches the scheduler inside a pipe ends there with \<open>Asleep\<close>: the next task runs.  User memory is
  a parameter where it is read (the bytes of a buffer) and the log of writes where it is written.
\<close>

section \<open>The descriptor table\<close>

definition fd_index :: "int \<Rightarrow> usize" where
  "fd_index fd = nat (fd mod 2 ^ 64)"

definition set_opened :: "'f Task \<Rightarrow> usize \<Rightarrow> arc option \<Rightarrow> (unit + arc option) \<times> 'f Task" where
  "set_opened x fd file =
     (if fd < length (opened x) then (Inr (opened x ! fd), x\<lparr>opened := (opened x)[fd := file]\<rparr>) else (Inl (), x))"

definition clear_opened :: "'f Task \<Rightarrow> usize \<Rightarrow> (unit + arc option) \<times> 'f Task" where
  "clear_opened x fd = set_opened x fd None"

fun alloc_loop :: "usize list \<Rightarrow> 'f Task \<Rightarrow> arc \<Rightarrow> usize option \<times> 'f Task" where
  "alloc_loop [] x file = (None, x)"
| "alloc_loop (i # is) x file =
     (case opened x ! i of
        None \<Rightarrow> (Some i, x\<lparr>opened := (opened x)[i := Some file]\<rparr>)
      | Some _ \<Rightarrow> alloc_loop is x file)"

definition alloc_opened :: "'f Task \<Rightarrow> arc \<Rightarrow> usize option \<times> 'f Task" where
  "alloc_opened x file = alloc_loop [0..<length (opened x)] x file"

definition alloc_opened_bigger_than :: "'f Task \<Rightarrow> arc \<Rightarrow> usize \<Rightarrow> usize option \<times> 'f Task" where
  "alloc_opened_bigger_than x file fd_start =
     (if fd_start \<ge> length (opened x) then (None, x) else alloc_loop [fd_start..<length (opened x)] x file)"

section \<open>References to open files\<close>

definition has_file :: "arc \<Rightarrow> 'f Task \<Rightarrow> bool" where
  "has_file f x \<longleftrightarrow> Some f \<in> set (opened x) \<or> pwd_dfile x = f"

definition referenced :: "'f Sys \<Rightarrow> arc \<Rightarrow> bool" where
  "referenced s f \<longleftrightarrow> list_ex (has_file f) (tasks s)"

text \<open>A reference goes away; the last one drops the file, and with it one writer of a pipe.\<close>

definition df_drop :: "arc \<Rightarrow> 'f Sys \<Rightarrow> 'f Sys run" where
  "df_drop f s =
     (if referenced s f then Some s
      else do {
        d \<leftarrow> vec_get (dfiles s) f;
        (case df_class d of
           ClassPipe p \<Rightarrow> if df_writeable d then with_pipe p dec_write s else Some s
         | _ \<Rightarrow> Some s)
      })"

section \<open>Descriptor calls\<close>

definition df_new_pipe :: "'f Sys \<Rightarrow> arc \<times> arc \<times> 'f Sys" where
  "df_new_pipe s =
     (let p = length (pipes s); n = length (dfiles s)
      in (n, n + 1, s\<lparr>pipes := pipes s @ [inc_write (pipe_new [])],
            dfiles := dfiles s @ [df_new (ClassPipe p) O_RDONLY, df_new (ClassPipe p) O_WRONLY]\<rparr>))"

definition sys_pipe :: "usize \<Rightarrow> usize \<Rightarrow> 'f Sys \<Rightarrow> (int \<times> 'f Sys) run" where
  "sys_pipe pipe flags s = do {
     let (rd, wr, s) = df_new_pipe s;
     cur \<leftarrow> get_running s;
     x \<leftarrow> lock_task s cur;
     let (ret, readfd, x) =
       (case alloc_opened x rd of
          (None, x) \<Rightarrow> (- 1, 0, x)
        | (Some fdr, x) \<Rightarrow>
            (case alloc_opened x wr of
               (None, x) \<Rightarrow> (- 1, fdr, snd (clear_opened x fdr))
             | (Some fdw, x) \<Rightarrow> (0, fdr, x)));
     let s = put_task s cur (\<lambda>_. x);
     s \<leftarrow> user_write pipe 4 (i32_bytes (int readfd)) s;
     a \<leftarrow> uadd pipe 4;
     s \<leftarrow> user_write a 4 (i32_bytes (int readfd)) s;
     s \<leftarrow> (if ret = 0 then Some s else do { s \<leftarrow> df_drop rd s; df_drop wr s });
     Some (ret, s)
   }"

definition sys_close :: "int \<Rightarrow> 'f Sys \<Rightarrow> (int \<times> 'f Sys) run" where
  "sys_close fd s = do {
     cur \<leftarrow> get_running s;
     x \<leftarrow> lock_task s cur;
     (case clear_opened x (fd_index fd) of
        (Inl _, x) \<Rightarrow> Some (- 1, s)
      | (Inr None, x) \<Rightarrow> Some (- 1, put_task s cur (\<lambda>_. x))
      | (Inr (Some f), x) \<Rightarrow> do { s \<leftarrow> df_drop f (put_task s cur (\<lambda>_. x)); Some (0, s) })
   }"

definition do_dup :: "int \<Rightarrow> int option \<Rightarrow> usize option \<Rightarrow> 'f Sys \<Rightarrow> (int \<times> 'f Sys) run" where
  "do_dup old_fd new_fd open_flags_bits s = do {
     cur \<leftarrow> get_running s;
     x \<leftarrow> lock_task s cur;
     (case get_opened x (fd_index old_fd) of
        None \<Rightarrow> Some (- 1, s)
      | Some f \<Rightarrow>
          (case new_fd of
             None \<Rightarrow>
               (case alloc_opened x f of
                  (None, x) \<Rightarrow> Some (- 1, s)
                | (Some fd, x) \<Rightarrow> Some (as_isize fd, put_task s cur (\<lambda>_. x)))
           | Some newfd \<Rightarrow>
               (case set_opened x (fd_index newfd) (Some f) of
                  (Inl _, x) \<Rightarrow> Some (- 1, s)
                | (Inr None, x) \<Rightarrow> Some (newfd, put_task s cur (\<lambda>_. x))
                | (Inr (Some g), x) \<Rightarrow> do { s \<leftarrow> df_drop g (put_task s cur (\<lambda>_. x)); Some (newfd, s) })))
   }"

definition F_DUPFD :: u32 where "F_DUPFD = 0"
definition F_GETFD :: u32 where "F_GETFD = 1"
definition F_SETFD :: u32 where "F_SETFD = 2"
definition F_DUPFD_CLOEXEC :: u32 where "F_DUPFD_CLOEXEC = 1030"

definition set_cloexec_to :: "arc \<Rightarrow> bool \<Rightarrow> 'f Sys \<Rightarrow> 'f Sys" where
  "set_cloexec_to f flag s = s\<lparr>dfiles := (dfiles s)[f := (dfiles s ! f)\<lparr>df_cloexec := flag\<rparr>]\<rparr>"

definition sys_fcntl :: "usize \<Rightarrow> u32 \<Rightarrow> usize \<Rightarrow> 'f Sys \<Rightarrow> (int \<times> 'f Sys) run" where
  "sys_fcntl fd cmd arg s = do {
     cur \<leftarrow> get_running s;
     x \<leftarrow> lock_task s cur;
     (case get_opened x fd of
        None \<Rightarrow> Some (- 1, s)
      | Some f \<Rightarrow>
          if cmd = F_DUPFD \<or> cmd = F_DUPFD_CLOEXEC
          then (case alloc_opened_bigger_than x f arg of
                  (None, x) \<Rightarrow> Some (- 1, s)
                | (Some newfd, x) \<Rightarrow>
                    (let s = put_task s cur (\<lambda>_. x)
                     in Some (as_isize newfd, if cmd = F_DUPFD_CLOEXEC then set_cloexec_to f True s else s)))
          else if cmd = F_GETFD
          then do { d \<leftarrow> vec_get (dfiles s) f; Some (if df_cloexec d then 1 else 0, s) }
          else if cmd = F_SETFD then Some (0, set_cloexec_to f (arg mod 2 = 1) s)
          else None)
   }"

definition AT_FDCWD :: int where "AT_FDCWD = - 100"

definition open_path ::
    "('d, 'e, 'h) FatLib \<Rightarrow> ('d, 'h) Icache \<Rightarrow> ino DFile \<Rightarrow> string \<Rightarrow> u32 \<Rightarrow> (ino DFile option \<times> ('d, 'h) Icache) run" where
  "open_path fs ic d path open_flags =
     (case df_class d of
        ClassInode inode \<Rightarrow> do {
          (r, ic) \<leftarrow> get_node_by_path fs ic inode path;
          Some (map_option (\<lambda>n. from_inode n open_flags) r, ic)
        }
      | _ \<Rightarrow> Some (None, ic))"

definition sys_openat ::
    "('d, 'e, 'h) FatLib \<Rightarrow> int \<Rightarrow> string \<Rightarrow> u32 \<Rightarrow> ('d, 'h) Icache \<Rightarrow> ino Sys \<Rightarrow> (int \<times> ('d, 'h) Icache \<times> ino Sys) run" where
  "sys_openat fs dirfd filename flags ic s = do {
     cur \<leftarrow> get_running s;
     x \<leftarrow> lock_task s cur;
     (case (if dirfd = AT_FDCWD then Some (pwd_dfile x) else get_opened x (fd_index dirfd)) of
        None \<Rightarrow> Some (- 1, ic, s)
      | Some f \<Rightarrow> do {
          d \<leftarrow> vec_get (dfiles s) f;
          (r, ic) \<leftarrow> open_path fs ic d filename flags;
          (case r of
             None \<Rightarrow> Some (- 1, ic, s)
           | Some new_file \<Rightarrow>
               (case alloc_opened x (length (dfiles s)) of
                  (None, x) \<Rightarrow> Some (- 1, ic, s)
                | (Some fd, x) \<Rightarrow>
                    Some (as_isize fd, ic, put_task (s\<lparr>dfiles := dfiles s @ [new_file]\<rparr>) cur (\<lambda>_. x))))
        })
   }"

definition sys_sendfile :: "int \<Rightarrow> int \<Rightarrow> usize \<Rightarrow> usize \<Rightarrow> 'f Sys \<Rightarrow> (int \<times> 'f Sys) run" where
  "sys_sendfile out_fd in_fd off cnt s = do {
     cur \<leftarrow> get_running s;
     x \<leftarrow> lock_task s cur;
     Some (- 1, s)
   }"

section \<open>Reading and writing open files\<close>

datatype 'f pipe_io = P_done usize "u8 list" "'f Sys" | P_asleep "'f Sys"

lemma read_loop_length: "read_loop is rb buf = Some (rb', buf') \<Longrightarrow> length buf' = length buf"
  by (induction "is" arbitrary: rb buf) (auto simp: bind_eq_Some_conv vec_set_def split: if_splits)

lemma rb_read_length: "rb_read rb buf = Some (n, rb', buf') \<Longrightarrow> length buf' = length buf"
  by (auto simp: rb_read_def bind_eq_Some_conv Let_def split: if_splits dest: read_loop_length)

text \<open>\<^verbatim>\<open>read_exact\<close> and \<^verbatim>\<open>write_exact\<close> of pipe \<open>i\<close> by the running task.\<close>

function pipe_read :: "usize \<Rightarrow> 'f Sys \<Rightarrow> u8 list \<Rightarrow> usize \<Rightarrow> 'f pipe_io run" where
  "pipe_read i s buf buf_pos =
     (if buf_pos < length buf
      then do {
        p \<leftarrow> vec_get (pipes s) i;
        (read_once, rb, buf') \<leftarrow> rb_read (p_buffer p) buf;
        let s = s\<lparr>pipes := (pipes s)[i := p\<lparr>p_buffer := rb\<rparr>]\<rparr>;
        (if read_once = 0
         then (if have_writer p then do { s \<leftarrow> sleep_wait (Wait_read i) s; Some (P_asleep s) } else Some (P_done buf_pos buf' s))
         else pipe_read i s buf' (buf_pos + read_once))
      }
      else do {
        _ \<leftarrow> rassert (buf_pos = length buf);
        s \<leftarrow> wake_up_pipe (Wait_write i) s;
        Some (P_done buf_pos buf s)
      })"
  by pat_completeness auto
termination
  by (relation "measure (\<lambda>(i, s, buf, buf_pos). length buf - buf_pos)") (auto dest: rb_read_length)

declare pipe_read.simps [simp del]

function pipe_write :: "usize \<Rightarrow> 'f Sys \<Rightarrow> u8 list \<Rightarrow> usize \<Rightarrow> 'f pipe_io run" where
  "pipe_write i s buf buf_pos =
     (if buf_pos < length buf
      then do {
        p \<leftarrow> vec_get (pipes s) i;
        (write_once, rb) \<leftarrow> rb_write (p_buffer p) buf;
        let s = s\<lparr>pipes := (pipes s)[i := p\<lparr>p_buffer := rb\<rparr>]\<rparr>;
        (if write_once = 0
         then do { s \<leftarrow> sleep_wait (Wait_write i) s; Some (P_asleep s) }
         else pipe_write i s buf (buf_pos + write_once))
      }
      else do {
        _ \<leftarrow> rassert (buf_pos = length buf);
        s \<leftarrow> wake_up_pipe (Wait_read i) s;
        Some (P_done buf_pos buf s)
      })"
  by pat_completeness auto
termination
  by (relation "measure (\<lambda>(i, s, buf, buf_pos). length buf - buf_pos)") auto

declare pipe_write.simps [simp del]

datatype ('d, 'h) file_io = Io "unit + usize" "u8 list" "('d, 'h) Icache" "ino Sys" | Asleep "ino Sys"

definition set_pos :: "arc \<Rightarrow> usize \<Rightarrow> 'f Sys \<Rightarrow> 'f Sys" where
  "set_pos f p s = s\<lparr>dfiles := (dfiles s)[f := (dfiles s ! f)\<lparr>df_pos := p\<rparr>]\<rparr>"

definition df_read :: "'h FatFile \<Rightarrow> arc \<Rightarrow> u8 list \<Rightarrow> ('d, 'h) Icache \<Rightarrow> ino Sys \<Rightarrow> ('d, 'h) file_io run" where
  "df_read ops f buf ic s = do {
     d \<leftarrow> vec_get (dfiles s) f;
     (if \<not> df_readable d then Some (Io (Inl ()) buf ic s)
      else
        (case df_class d of
           ClassInode n \<Rightarrow> do {
             x \<leftarrow> vec_get (nodes ic) n;
             (r, buf, cl) \<leftarrow> read_off ops (i_class x) buf (df_pos d);
             (case r of
                Inl _ \<Rightarrow> Some (Io (Inl ()) buf (put_class n cl ic) s)
              | Inr l \<Rightarrow> do { p \<leftarrow> uadd (df_pos d) l; Some (Io (Inr l) buf (put_class n cl ic) (set_pos f p s)) })
           }
         | ClassTerminal t \<Rightarrow> Some (Io (Inr (terminal_read t buf)) buf ic s)
         | ClassPipe i \<Rightarrow> do {
             r \<leftarrow> pipe_read i s buf 0;
             Some (case r of P_done l buf s \<Rightarrow> Io (Inr l) buf ic s | P_asleep s \<Rightarrow> Asleep s)
           }))
   }"

definition df_write :: "'h FatFile \<Rightarrow> arc \<Rightarrow> u8 list \<Rightarrow> ('d, 'h) Icache \<Rightarrow> ino Sys \<Rightarrow> ('d, 'h) file_io run" where
  "df_write ops f buf ic s = do {
     d \<leftarrow> vec_get (dfiles s) f;
     (if \<not> df_writeable d then Some (Io (Inl ()) buf ic s)
      else
        (case df_class d of
           ClassInode n \<Rightarrow> do {
             x \<leftarrow> vec_get (nodes ic) n;
             (r, cl) \<leftarrow> write_off ops (i_class x) buf (df_pos d);
             (case r of
                Inl _ \<Rightarrow> Some (Io (Inl ()) buf (put_class n cl ic) s)
              | Inr l \<Rightarrow> do { p \<leftarrow> uadd (df_pos d) l; Some (Io (Inr l) buf (put_class n cl ic) (set_pos f p s)) })
           }
         | ClassTerminal t \<Rightarrow>
             (let (l, con) = terminal_write t buf (out s) in Some (Io (Inr l) buf ic (s\<lparr>out := con\<rparr>)))
         | ClassPipe i \<Rightarrow> do {
             r \<leftarrow> pipe_write i s buf 0;
             Some (case r of P_done l buf s \<Rightarrow> Io (Inr l) buf ic s | P_asleep s \<Rightarrow> Asleep s)
           }))
   }"

text \<open>The two calls keep the guard of the task until they return.\<close>

datatype ('d, 'h) call = Ret int "('d, 'h) Icache" "ino Sys" | Switched "ino Sys"

definition io_ret :: "unit + usize \<Rightarrow> int" where
  "io_ret r = (case r of Inl _ \<Rightarrow> - 1 | Inr l \<Rightarrow> as_isize l)"

definition sys_read :: "'h FatFile \<Rightarrow> int \<Rightarrow> usize \<Rightarrow> u8 list \<Rightarrow> ('d, 'h) Icache \<Rightarrow> ino Sys \<Rightarrow> ('d, 'h) call run" where
  "sys_read ops fd ptr buf ic s = do {
     cur \<leftarrow> get_running s;
     x \<leftarrow> lock_task s cur;
     s \<leftarrow> keep_guard s cur;
     (case get_opened x (fd_index fd) of
        None \<Rightarrow> Some (Ret (- 1) ic (drop_guard s cur))
      | Some f \<Rightarrow> do {
          r \<leftarrow> df_read ops f buf ic s;
          (case r of
             Asleep s \<Rightarrow> Some (Switched s)
           | Io l buf ic s \<Rightarrow> do {
               s \<leftarrow> user_write ptr 1 buf (drop_guard s cur);
               Some (Ret (io_ret l) ic s)
             })
        })
   }"

definition sys_write :: "'h FatFile \<Rightarrow> int \<Rightarrow> usize \<Rightarrow> u8 list \<Rightarrow> ('d, 'h) Icache \<Rightarrow> ino Sys \<Rightarrow> ('d, 'h) call run" where
  "sys_write ops fd ptr buf ic s = do {
     cur \<leftarrow> get_running s;
     x \<leftarrow> lock_task s cur;
     s \<leftarrow> keep_guard s cur;
     (case get_opened x (fd_index fd) of
        None \<Rightarrow> Some (Ret (- 1) ic (drop_guard s cur))
      | Some f \<Rightarrow> do {
          r \<leftarrow> df_write ops f buf ic s;
          Some (case r of
             Asleep s \<Rightarrow> Switched s
           | Io l buf ic s \<Rightarrow> Ret (io_ret l) ic (drop_guard s cur))
        })
   }"

text \<open>
  \<^verbatim>\<open>sys_writev\<close>; \<open>iov i\<close> is the buffer that element \<open>i\<close> of the array in user memory describes.  The lock of the
  task is released before the loop.
\<close>

function writev_loop ::
    "'h FatFile \<Rightarrow> arc \<Rightarrow> (usize \<Rightarrow> u8 list) \<Rightarrow> usize \<Rightarrow> usize \<Rightarrow> usize \<Rightarrow> ('d, 'h) Icache \<Rightarrow> ino Sys \<Rightarrow> ('d, 'h) call run" where
  "writev_loop ops f iov i len_res len_need_read ic s =
     (if i < 2 ^ 64 - 1 \<and> len_res > 0
      then (let real_write_len = min (length (iov i)) len_res
            in do {
              r \<leftarrow> df_write ops f (take real_write_len (iov i)) ic s;
              (case r of
                 Asleep s \<Rightarrow> Some (Switched s)
               | Io (Inl _) _ ic s \<Rightarrow> Some (Ret (- 1) ic s)
               | Io (Inr l) _ ic s \<Rightarrow> do {
                   _ \<leftarrow> rassert (l = real_write_len);
                   writev_loop ops f iov (i + 1) (len_res - real_write_len) len_need_read ic s
                 })
            })
      else Some (Ret (as_isize len_need_read) ic s))"
  by pat_completeness auto
termination
  by (relation "measure (\<lambda>(ops, f, iov, i, len_res, len_need_read, ic, s). 2 ^ 64 - 1 - i)") auto

declare writev_loop.simps [simp del]

definition sys_writev :: "'h FatFile \<Rightarrow> int \<Rightarrow> (usize \<Rightarrow> u8 list) \<Rightarrow> usize \<Rightarrow> ('d, 'h) Icache \<Rightarrow> ino Sys \<Rightarrow> ('d, 'h) call run" where
  "sys_writev ops fd iov len ic s = do {
     cur \<leftarrow> get_running s;
     x \<leftarrow> lock_task s cur;
     (case get_opened x (fd_index fd) of
        None \<Rightarrow> Some (Ret (- 1) ic s)
      | Some f \<Rightarrow> writev_loop ops f iov 0 len len ic s)
   }"

end
