(* ===== verification/K_Fs_Inv.thy ===== *)
theory K_Fs_Inv
  imports K_Fs_Calls
begin

text \<open>
  The writers of pipes.  A pipe has one open file that writes to it; its counter of writers is 1 as long as
  some descriptor of some task has that file, and 0 after the last one is gone.  The calls on descriptors
  keep this.
\<close>

section \<open>The first free entry\<close>

lemma alloc_loop_ok:
  assumes "a \<le> length (opened x)"
  shows "(\<exists>i. a \<le> i \<and> i < length (opened x) \<and> opened x ! i = None \<and> (\<forall>j. a \<le> j \<and> j < i \<longrightarrow> opened x ! j \<noteq> None) \<and>
      alloc_loop [a..<length (opened x)] x f = (Some i, x\<lparr>opened := (opened x)[i := Some f]\<rparr>)) \<or>
    (\<forall>j. a \<le> j \<and> j < length (opened x) \<longrightarrow> opened x ! j \<noteq> None) \<and> alloc_loop [a..<length (opened x)] x f = (None, x)"
  using assms
proof (induction "length (opened x) - a" arbitrary: a)
  case (Suc k)
  then have l: "[a..<length (opened x)] = a # [a + 1..<length (opened x)]" by (simp add: upt_conv_Cons)
  show ?case
  proof (cases "opened x ! a")
    case None
    then show ?thesis using Suc(2) l by (intro disjI1 exI[of _ a]) auto
  next
    case (Some g)
    have le: "(a \<le> j) = (j = a \<or> a + 1 \<le> j)" for j by auto
    have "k = length (opened x) - (a + 1)" "a + 1 \<le> length (opened x)" using Suc by auto
    from Suc.hyps(1)[OF this] show ?thesis
    proof (elim disjE exE conjE)
      fix i assume i: "a + 1 \<le> i" "i < length (opened x)" "opened x ! i = None" "\<forall>j. a + 1 \<le> j \<and> j < i \<longrightarrow> opened x ! j \<noteq> None"
        "alloc_loop [a + 1..<length (opened x)] x f = (Some i, x\<lparr>opened := (opened x)[i := Some f]\<rparr>)"
      have "\<forall>j. a \<le> j \<and> j < i \<longrightarrow> opened x ! j \<noteq> None" using i(4) Some le by auto
      then show ?thesis using i(1-3,5) Some unfolding l by (intro disjI1 exI[of _ i]) simp
    next
      assume n: "\<forall>j. a + 1 \<le> j \<and> j < length (opened x) \<longrightarrow> opened x ! j \<noteq> None" "alloc_loop [a + 1..<length (opened x)] x f = (None, x)"
      have "\<forall>j. a \<le> j \<and> j < length (opened x) \<longrightarrow> opened x ! j \<noteq> None" using n(1) Some le by auto
      then show ?thesis using n(2) Some unfolding l by simp
    qed
  qed
qed auto

lemma alloc_opened_ok:
  "(\<exists>i < length (opened x). opened x ! i = None \<and> (\<forall>j < i. opened x ! j \<noteq> None) \<and>
      alloc_opened x f = (Some i, x\<lparr>opened := (opened x)[i := Some f]\<rparr>)) \<or>
    (\<forall>j < length (opened x). opened x ! j \<noteq> None) \<and> alloc_opened x f = (None, x)"
  using alloc_loop_ok[of 0 x f] by (auto simp: alloc_opened_def)

section \<open>References after a change of one task\<close>

lemma has_file_put:
  assumes "i < length (opened x)"
  shows "has_file f (x\<lparr>opened := (opened x)[i := v]\<rparr>) \<longleftrightarrow>
    v = Some f \<or> (\<exists>j < length (opened x). j \<noteq> i \<and> opened x ! j = Some f) \<or> pwd_dfile x = f"
  using assms by (auto simp: has_file_def in_set_conv_nth nth_list_update)

lemma referenced_nth: "referenced s f \<longleftrightarrow> (\<exists>u < length (tasks s). has_file f (tasks s ! u))"
  by (simp add: referenced_def list_ex_length)

lemma referenced_put:
  assumes "t < length (tasks s)"
  shows "referenced (put_task s t (\<lambda>_. y)) f \<longleftrightarrow> has_file f y \<or> (\<exists>u < length (tasks s). u \<noteq> t \<and> has_file f (tasks s ! u))"
  using assms by (auto simp: referenced_nth put_task_def nth_list_update)

lemma put_task_simps [simp]:
  "dfiles (put_task s t h) = dfiles s" "pipes (put_task s t h) = pipes s" "RUNNING (put_task s t h) = RUNNING s"
  "satp (put_task s t h) = satp s" "user_writes (put_task s t h) = user_writes s" "locked (put_task s t h) = locked s"
  "running_list (put_task s t h) = running_list s" "length (tasks (put_task s t h)) = length (tasks s)"
  by (simp_all add: put_task_def)

lemma lock_task_ok:
  assumes "lock_task s t = Some x"
  shows "t < length (tasks s)" "tasks s ! t = x" "t \<notin> locked s"
  using assms by (auto simp: lock_task_def vec_get_def split: if_splits)

section \<open>The invariant\<close>

definition pipe_writer :: "'f Sys \<Rightarrow> nat \<Rightarrow> arc \<Rightarrow> bool" where
  "pipe_writer s i f \<longleftrightarrow> f < length (dfiles s) \<and> df_class (dfiles s ! f) = ClassPipe i \<and> df_writeable (dfiles s ! f)"

definition counted :: "'f Sys \<Rightarrow> nat \<Rightarrow> bool" where
  "counted s i \<longleftrightarrow> (\<exists>f. (\<forall>g. pipe_writer s i g \<longleftrightarrow> g = f) \<and> p_write_cnt (pipes s ! i) = (if referenced s f then 1 else 0))"

definition files_ok :: "'f Sys \<Rightarrow> bool" where
  "files_ok s \<longleftrightarrow>
     (\<forall>f. referenced s f \<longrightarrow> f < length (dfiles s)) \<and>
     (\<forall>f i. f < length (dfiles s) \<and> df_class (dfiles s ! f) = ClassPipe i \<longrightarrow> i < length (pipes s))"

definition pipes_ok :: "'f Sys \<Rightarrow> bool" where
  "pipes_ok s \<longleftrightarrow> files_ok s \<and> (\<forall>i < length (pipes s). counted s i)"

lemma have_writer_iff:
  assumes "counted s i"
  shows "have_writer (pipes s ! i) \<longleftrightarrow> (\<exists>f. pipe_writer s i f \<and> referenced s f)"
proof -
  obtain f where f: "\<forall>g. pipe_writer s i g \<longleftrightarrow> g = f" "p_write_cnt (pipes s ! i) = (if referenced s f then 1 else 0)"
    using assms by (auto simp: counted_def)
  then show ?thesis by (simp add: have_writer_def)
qed

lemma pipes_ok_same:
  assumes "pipes_ok s" "dfiles s' = dfiles s" "pipes s' = pipes s" "\<And>f. referenced s' f = referenced s f"
  shows "pipes_ok s'"
  using assms by (simp add: pipes_ok_def files_ok_def counted_def pipe_writer_def)

section \<open>A file loses a reference\<close>

lemma df_drop_ok:
  fixes s :: "'f Sys"
  assumes ok: "pipes_ok s" and g: "referenced s g"
    and sd: "dfiles s' = dfiles s" "pipes s' = pipes s" and ref: "\<And>f. f \<noteq> g \<Longrightarrow> referenced s' f = referenced s f"
  shows "\<exists>s''. df_drop g s' = Some s'' \<and> pipes_ok s'' \<and> tasks s'' = tasks s'"
proof (cases "referenced s' g")
  case True
  then have "referenced s' f = referenced s f" for f using g ref by (cases "f = g") auto
  then show ?thesis using pipes_ok_same[OF ok sd] True by (auto simp: df_drop_def)
next
  case False
  then have r: "referenced s' f \<longleftrightarrow> referenced s f \<and> f \<noteq> g" for f using ref by (cases "f = g") auto
  have lg: "g < length (dfiles s)" and ix: "\<And>i. df_class (dfiles s ! g) = ClassPipe i \<Longrightarrow> i < length (pipes s)"
    using ok g by (auto simp: pipes_ok_def files_ok_def)
  have cn: "counted s i" if "i < length (pipes s)" for i using ok that by (simp add: pipes_ok_def)
  have fo: "files_ok s'" using ok r sd by (auto simp: pipes_ok_def files_ok_def)
  show ?thesis
  proof (cases "\<exists>i. df_class (dfiles s ! g) = ClassPipe i \<and> df_writeable (dfiles s ! g)")
    case True
    then obtain i where i: "df_class (dfiles s ! g) = ClassPipe i" "df_writeable (dfiles s ! g)" by blast
    have wg: "pipe_writer s i g" using i lg by (simp add: pipe_writer_def)
    define q where "q = (dec_write ((pipes s ! i)\<lparr>p_runq := running_list s'\<rparr>))"
    define s2 where "s2 = s'\<lparr>pipes := (pipes s)[i := q\<lparr>p_runq := []\<rparr>], running_list := p_runq q\<rparr>"
    have e: "df_drop g s' = Some s2"
      using False lg sd i ix[OF i(1)] by (simp add: df_drop_def vec_get_def with_pipe_def s2_def q_def Let_def)
    have rf: "referenced s2 f = referenced s' f" for f by (simp add: referenced_def s2_def)
    have pw: "pipe_writer s2 j f = pipe_writer s j f" for j f by (simp add: pipe_writer_def s2_def sd)
    have "counted s2 j" if lj: "j < length (pipes s)" for j
    proof -
      obtain f where f: "\<forall>h. pipe_writer s j h \<longleftrightarrow> h = f" "p_write_cnt (pipes s ! j) = (if referenced s f then 1 else 0)"
        using cn[OF lj] by (auto simp: counted_def)
      show ?thesis
      proof (cases "j = i")
        case True
        then have fg: "f = g" using f(1)[rule_format, of g] wg by simp
        then have "p_write_cnt q = 0" using f(2) g True by (simp add: q_def dec_write_def wake_up_read_def Let_def)
        then have "p_write_cnt (pipes s2 ! j) = (if referenced s2 g then 1 else 0)"
          using lj True by (simp add: s2_def rf[unfolded s2_def] False)
        then show ?thesis unfolding counted_def pw using f(1) fg by (intro exI[of _ f]) simp
      next
        case F: False
        have "\<not> pipe_writer s j g" using i(1) F by (simp add: pipe_writer_def)
        then have "f \<noteq> g" using f(1)[rule_format, of g] by simp
        then have "p_write_cnt (pipes s2 ! j) = (if referenced s2 f then 1 else 0)"
          using f(2) F rf r by (simp add: s2_def)
        then show ?thesis unfolding counted_def pw using f(1) by (intro exI[of _ f]) simp
      qed
    qed
    moreover have "files_ok s2" using fo rf by (simp add: files_ok_def s2_def sd)
    ultimately show ?thesis using e by (auto simp: pipes_ok_def s2_def)
  next
    case N: False
    have e: "df_drop g s' = Some s'"
      using False lg sd N by (auto simp: df_drop_def vec_get_def split: DFileClass.split)
    have "counted s' i" if li: "i < length (pipes s)" for i
    proof -
      obtain f where f: "\<forall>h. pipe_writer s i h \<longleftrightarrow> h = f" "p_write_cnt (pipes s ! i) = (if referenced s f then 1 else 0)"
        using cn[OF li] by (auto simp: counted_def)
      have "\<not> pipe_writer s i g" using N by (auto simp: pipe_writer_def)
      then have "f \<noteq> g" using f(1)[rule_format, of g] by simp
      then have "p_write_cnt (pipes s' ! i) = (if referenced s' f then 1 else 0)" using f(2) r sd by simp
      moreover have "pipe_writer s' i h = pipe_writer s i h" for h by (simp add: pipe_writer_def sd)
      ultimately show ?thesis unfolding counted_def using f(1) by (intro exI[of _ f]) simp
    qed
    then show ?thesis using e fo sd by (simp add: pipes_ok_def)
  qed
qed

section \<open>The calls\<close>

lemma put_entry_referenced:
  assumes "lock_task s t = Some x" "i < length (opened x)" "opened x ! i = old" "Some f \<noteq> old"
  shows "referenced (put_task s t (\<lambda>_. x\<lparr>opened := (opened x)[i := v]\<rparr>)) f \<longleftrightarrow> v = Some f \<or> referenced s f"
proof -
  note t = lock_task_ok[OF assms(1)]
  have "has_file f x \<longleftrightarrow> (\<exists>j < length (opened x). j \<noteq> i \<and> opened x ! j = Some f) \<or> pwd_dfile x = f"
    using assms(2-4) by (auto simp: has_file_def in_set_conv_nth)
  moreover have "referenced s f \<longleftrightarrow> has_file f x \<or> (\<exists>u < length (tasks s). u \<noteq> t \<and> has_file f (tasks s ! u))"
    using t by (auto simp: referenced_nth)
  ultimately show ?thesis using t(1) by (auto simp: referenced_put has_file_put[OF assms(2)])
qed

lemma entry_referenced:
  assumes "lock_task s t = Some x" "i < length (opened x)" "opened x ! i = Some f"
  shows "referenced s f"
  using lock_task_ok[OF assms(1)] assms(2,3) by (force simp: referenced_nth has_file_def in_set_conv_nth)

lemma put_entry_ok:
  assumes "pipes_ok s" "lock_task s t = Some x" "i < length (opened x)" "\<And>f. v = Some f \<Longrightarrow> referenced s f"
  shows "case opened x ! i of
      None \<Rightarrow> pipes_ok (put_task s t (\<lambda>_. x\<lparr>opened := (opened x)[i := v]\<rparr>))
    | Some g \<Rightarrow> \<exists>s'. df_drop g (put_task s t (\<lambda>_. x\<lparr>opened := (opened x)[i := v]\<rparr>)) = Some s' \<and> pipes_ok s'"
proof (cases "opened x ! i")
  case None
  then have "referenced (put_task s t (\<lambda>_. x\<lparr>opened := (opened x)[i := v]\<rparr>)) f = referenced s f" for f
    using put_entry_referenced[OF assms(2,3) None, of f v] assms(4) by auto
  then show ?thesis using None pipes_ok_same[OF assms(1)] by simp
next
  case (Some g)
  have "referenced (put_task s t (\<lambda>_. x\<lparr>opened := (opened x)[i := v]\<rparr>)) f = referenced s f" if "f \<noteq> g" for f
    using put_entry_referenced[OF assms(2,3) Some, of f v] assms(4) that by auto
  then show ?thesis using df_drop_ok[OF assms(1) entry_referenced[OF assms(2,3) Some], of "put_task s t (\<lambda>_. x\<lparr>opened := (opened x)[i := v]\<rparr>)"]
    Some by auto
qed

lemma sys_close_ok:
  assumes "pipes_ok s" "RUNNING s = Some t" "lock_task s t = Some x"
  shows "\<exists>r s'. sys_close fd s = Some (r, s') \<and> pipes_ok s'"
proof (cases "fd_index fd < length (opened x)")
  case True
  then show ?thesis using put_entry_ok[OF assms(1,3) True, of None] assms(2,3)
    by (cases "opened x ! fd_index fd") (auto simp: sys_close_def get_running_def clear_opened_def set_opened_def)
next
  case False
  then show ?thesis using assms by (simp add: sys_close_def get_running_def clear_opened_def set_opened_def)
qed

lemma do_dup_ok:
  assumes "pipes_ok s" "RUNNING s = Some t" "lock_task s t = Some x"
  shows "\<exists>r s'. do_dup fd nfd fl s = Some (r, s') \<and> pipes_ok s'"
proof (cases "get_opened x (fd_index fd)")
  case (Some f)
  then have rf: "referenced s f" using entry_referenced[OF assms(3)] by (auto simp: get_opened_def split: if_splits)
  show ?thesis
  proof (cases nfd)
    case None
    show ?thesis using alloc_opened_ok[of x f]
    proof (elim disjE exE conjE)
      fix i assume i: "i < length (opened x)" "opened x ! i = None" "alloc_opened x f = (Some i, x\<lparr>opened := (opened x)[i := Some f]\<rparr>)"
      then show ?thesis using put_entry_ok[OF assms(1,3) i(1), of "Some f"] rf None Some assms(2,3)
        by (simp add: do_dup_def get_running_def)
    qed (use assms None Some in \<open>simp add: do_dup_def get_running_def\<close>)
  next
    case N: (Some n)
    show ?thesis
    proof (cases "fd_index n < length (opened x)")
      case True
      then show ?thesis using put_entry_ok[OF assms(1,3) True, of "Some f"] rf N Some assms(2,3)
        by (cases "opened x ! fd_index n") (auto simp: do_dup_def get_running_def set_opened_def)
    next
      case False
      then show ?thesis using N Some assms by (simp add: do_dup_def get_running_def set_opened_def)
    qed
  qed
qed (use assms in \<open>simp add: do_dup_def get_running_def\<close>)

lemma set_cloexec_ok: "pipes_ok s \<Longrightarrow> referenced s f \<Longrightarrow> pipes_ok (set_cloexec_to f b s)"
proof -
  assume a: "pipes_ok s" "referenced s f"
  have n: "df_class (dfiles (set_cloexec_to f b s) ! g) = df_class (dfiles s ! g)"
    "df_writeable (dfiles (set_cloexec_to f b s) ! g) = df_writeable (dfiles s ! g)" if "g < length (dfiles s)" for g
    using that by (cases "f = g"; simp add: set_cloexec_to_def df_writeable_def)+
  have l: "length (dfiles (set_cloexec_to f b s)) = length (dfiles s)" "pipes (set_cloexec_to f b s) = pipes s"
    by (simp_all add: set_cloexec_to_def)
  have r: "referenced (set_cloexec_to f b s) g = referenced s g" for g by (simp add: set_cloexec_to_def referenced_def)
  have w: "pipe_writer (set_cloexec_to f b s) i g = pipe_writer s i g" for i g using n l by (auto simp: pipe_writer_def)
  have "files_ok (set_cloexec_to f b s)" using a(1) n unfolding pipes_ok_def files_ok_def l r by auto
  then show ?thesis using a(1) by (simp add: pipes_ok_def counted_def w l r)
qed

lemma sys_fcntl_ok:
  assumes "pipes_ok s" "RUNNING s = Some t" "lock_task s t = Some x" "cmd \<in> {F_DUPFD, F_GETFD, F_SETFD, F_DUPFD_CLOEXEC}"
  shows "\<exists>r s'. sys_fcntl fd cmd a s = Some (r, s') \<and> pipes_ok s'"
proof (cases "get_opened x fd")
  case (Some f)
  then have rf: "referenced s f" using entry_referenced[OF assms(3)] by (auto simp: get_opened_def split: if_splits)
  then have lf: "f < length (dfiles s)" using assms(1) by (simp add: pipes_ok_def files_ok_def)
  have "(\<exists>i < length (opened x). opened x ! i = None \<and> alloc_opened_bigger_than x f a = (Some i, x\<lparr>opened := (opened x)[i := Some f]\<rparr>)) \<or>
    alloc_opened_bigger_than x f a = (None, x)"
    using alloc_loop_ok[of a x f] by (auto simp: alloc_opened_bigger_than_def)
  then show ?thesis
  proof (elim disjE exE conjE)
    fix i assume i: "i < length (opened x)" "opened x ! i = None"
      "alloc_opened_bigger_than x f a = (Some i, x\<lparr>opened := (opened x)[i := Some f]\<rparr>)"
    let ?s = "put_task s t (\<lambda>_. x\<lparr>opened := (opened x)[i := Some f]\<rparr>)"
    have "pipes_ok ?s" using put_entry_ok[OF assms(1,3) i(1), of "Some f"] rf i(2) by simp
    moreover have "referenced ?s f" using put_entry_referenced[OF assms(3) i(1,2), of f "Some f"] by simp
    ultimately show ?thesis using assms lf Some i rf set_cloexec_ok
      by (auto simp: sys_fcntl_def get_running_def Let_def vec_get_def)
  next
    assume "alloc_opened_bigger_than x f a = (None, x)"
    then show ?thesis using assms lf Some rf set_cloexec_ok
      by (auto simp: sys_fcntl_def get_running_def Let_def vec_get_def)
  qed
qed (use assms in \<open>simp add: sys_fcntl_def get_running_def\<close>)

section \<open>Making a pipe\<close>

text \<open>The state after \<^verbatim>\<open>new_pipe\<close>, before any descriptor has one of the two files.\<close>

lemma new_pipe_simps:
  fixes s :: "'f Sys"
  defines "n \<equiv> length (dfiles s)"
  assumes "df_new_pipe s = (rd, wr, s1)"
  shows "rd = n" "wr = n + 1" "tasks s1 = tasks s" "RUNNING s1 = RUNNING s" "lock_task s1 = lock_task s"
    "length (dfiles s1) = n + 2" "length (pipes s1) = length (pipes s) + 1"
    "f < n \<Longrightarrow> dfiles s1 ! f = dfiles s ! f" "i < length (pipes s) \<Longrightarrow> pipes s1 ! i = pipes s ! i"
    "dfiles s1 ! n = df_new (ClassPipe (length (pipes s))) O_RDONLY"
    "dfiles s1 ! (n + 1) = df_new (ClassPipe (length (pipes s))) O_WRONLY"
    "p_write_cnt (pipes s1 ! length (pipes s)) = 1" "p_wait_read (pipes s1 ! length (pipes s)) = []"
  using assms(2) by (auto simp: df_new_pipe_def Let_def n_def nth_append lock_task_def fun_eq_iff inc_write_def pipe_new_def)

lemma flags_write: "\<not> of_writeable O_RDONLY" "of_writeable O_WRONLY"
  by (simp_all add: of_writeable_def of_readwriteable_def of_contains_def O_RDONLY_def O_WRONLY_def O_RDWR_def)

text \<open>With its counter \<open>c\<close> right for the new pipe, the state is sound again.\<close>

lemma new_pipe_ok:
  fixes s :: "'f Sys"
  assumes ok: "pipes_ok s" and np: "df_new_pipe s = (rd, wr, s1)"
    and s2: "dfiles s2 = dfiles s1" "length (pipes s2) = length (pipes s1)" "\<And>i. i < length (pipes s) \<Longrightarrow> pipes s2 ! i = pipes s1 ! i"
    and r: "\<And>f. referenced s2 f \<longleftrightarrow> referenced s f \<or> (b \<and> (f = rd \<or> f = wr))"
    and c: "p_write_cnt (pipes s2 ! length (pipes s)) = (if b then 1 else 0)"
  shows "pipes_ok s2"
proof -
  note d = new_pipe_simps[OF np]
  have old: "referenced s f \<Longrightarrow> f < length (dfiles s)" for f using ok by (simp add: pipes_ok_def files_ok_def)
  have lim: "f < length (dfiles s2) \<longleftrightarrow> f < length (dfiles s) \<or> f = rd \<or> f = wr" for f unfolding s2 d by auto
  have old_p: "i < length (pipes s)" if "f < length (dfiles s)" "df_class (dfiles s ! f) = ClassPipe i" for f i
    using ok that by (simp add: pipes_ok_def files_ok_def)
  have cl: "df_class (dfiles s2 ! rd) = ClassPipe (length (pipes s))" "\<not> df_writeable (dfiles s2 ! rd)"
    "df_class (dfiles s2 ! wr) = ClassPipe (length (pipes s))" "df_writeable (dfiles s2 ! wr)"
    unfolding s2 d by (simp_all add: df_new_def df_writeable_def flags_write)
  have fo: "files_ok s2"
    unfolding files_ok_def
  proof (intro conjI allI impI)
    show "f < length (dfiles s2)" if "referenced s2 f" for f using that old r lim by blast
    show "i < length (pipes s2)" if "f < length (dfiles s2) \<and> df_class (dfiles s2 ! f) = ClassPipe i" for f i
    proof (cases "f < length (dfiles s)")
      case True
      then show ?thesis using that old_p[OF True] d(8)[OF True] s2 d(7) by force
    next
      case False
      then have "f = rd \<or> f = wr" using that lim by blast
      then have "i = length (pipes s)" using that cl(1,3) by (metis DFileClass.inject(3))
      then show ?thesis using s2 d(7) by simp
    qed
  qed
  have pw_old: "pipe_writer s2 i f \<longleftrightarrow> pipe_writer s i f" if "i < length (pipes s)" for i f
  proof (cases "f < length (dfiles s)")
    case True
    then show ?thesis using d(8)[OF True] lim by (simp add: pipe_writer_def s2)
  next
    case False
    then have "f = rd \<or> f = wr" if "f < length (dfiles s2)" using lim that by blast
    then show ?thesis using cl that False by (auto simp: pipe_writer_def)
  qed
  have pw_new: "pipe_writer s2 (length (pipes s)) f \<longleftrightarrow> f = wr" for f
  proof (cases "f < length (dfiles s)")
    case True
    then show ?thesis using d(8)[OF True] old_p[OF True] d(2) by (auto simp: pipe_writer_def s2)
  next
    case False
    then show ?thesis using cl lim[of f] by (auto simp: pipe_writer_def)
  qed
  have "counted s2 i" if "i < length (pipes s2)" for i
  proof (cases "i < length (pipes s)")
    case True
    then obtain f where f: "\<forall>g. pipe_writer s i g \<longleftrightarrow> g = f" "p_write_cnt (pipes s ! i) = (if referenced s f then 1 else 0)"
      using ok by (auto simp: pipes_ok_def counted_def)
    have "pipe_writer s i f" using f(1) by simp
    then have "f < length (dfiles s)" by (simp add: pipe_writer_def)
    then have "referenced s2 f = referenced s f" using r d(1,2) by auto
    then show ?thesis unfolding counted_def pw_old[OF True] using f s2(3)[OF True] d(9)[OF True]
      by (intro exI[of _ f]) simp
  next
    case False
    then have i: "i = length (pipes s)" using that s2 d(7) by simp
    have "referenced s2 wr = b" using r[of wr] old[of wr] d(2) by auto
    then show ?thesis unfolding counted_def i pw_new using c by (intro exI[of _ wr]) simp
  qed
  then show ?thesis using fo by (simp add: pipes_ok_def)
qed

lemma sys_pipe_ok:
  fixes s :: "'f Sys"
  assumes ok: "pipes_ok s" and run: "RUNNING s = Some t" and lt: "lock_task s t = Some x"
    and al: "a mod 4 = 0" "a + 4 < 2 ^ 64"
  shows "\<exists>r s'. sys_pipe a fl s = Some (r, s') \<and> pipes_ok s'"
proof -
  obtain rd wr s1 where np: "df_new_pipe s = (rd, wr, s1)" by (cases "df_new_pipe s") auto
  note d = new_pipe_simps[OF np]
  define uw where "uw n = [(satp s1, a, i32_bytes n), (satp s1, a + 4, i32_bytes n)]" for n
  define w where "w z n = z\<lparr>user_writes := user_writes s1 @ uw n\<rparr>" for z :: "'f Sys" and n
  have a4: "(a + 4) mod 4 = 0" using al(1) by presburger
  have lt1: "lock_task s1 t = Some x" using lt d(5) by simp
  have go: "sys_pipe a fl s = (case (case alloc_opened x rd of
          (None, x) \<Rightarrow> (- 1, 0, x)
        | (Some fdr, x) \<Rightarrow>
            (case alloc_opened x wr of
               (None, x) \<Rightarrow> (- 1, fdr, snd (clear_opened x fdr))
             | (Some fdw, x) \<Rightarrow> (0, fdr, x))) of (ret, readfd, x) \<Rightarrow>
       do { s \<leftarrow> (if ret = 0 then Some (w (put_task s1 t (\<lambda>_. x)) (int readfd))
           else do { s \<leftarrow> df_drop rd (w (put_task s1 t (\<lambda>_. x)) (int readfd)); df_drop wr s }); Some (ret, s) })"
    using run d(4) lt1 al a4 by (simp add: sys_pipe_def np get_running_def user_write_def uadd_def rassert_def w_def uw_def split: prod.split)
  have ref_s1: "referenced s1 f = referenced s f" for f using d(3) by (simp add: referenced_def)
  have unref: "\<not> referenced s rd" "\<not> referenced s wr" using ok d(1,2) by (auto simp: pipes_ok_def files_ok_def)
  have w: "referenced (w z n) f = referenced z f" "dfiles (w z n) = dfiles z" "pipes (w z n) = pipes z" "running_list (w z n) = running_list z" for z n f
    by (simp_all add: w_def referenced_def)
  text \<open>Both files are dropped again when a descriptor is missing.\<close>
  have failed: "\<exists>s'. do { s \<leftarrow> df_drop rd (w (put_task s1 t (\<lambda>_. x)) n); df_drop wr s } = Some s' \<and> pipes_ok s'" for n
  proof -
    have px: "put_task s1 t (\<lambda>_. x) = s1" using lock_task_ok[OF lt1] list_update_id[of "tasks s1" t] by (simp add: put_task_def)
    define z where "z = w s1 n"
    define q where "q = dec_write ((pipes s1 ! length (pipes s))\<lparr>p_runq := running_list s1\<rparr>)"
    define s2 where "s2 = z\<lparr>pipes := (pipes s1)[length (pipes s) := q\<lparr>p_runq := []\<rparr>], running_list := p_runq q\<rparr>"
    have z: "\<not> referenced z rd" "\<not> referenced z wr" using unref ref_s1 w by (simp_all add: z_def)
    have "df_drop rd z = Some z" using z d(1,6,10) by (simp add: df_drop_def vec_get_def z_def w df_new_def df_writeable_def flags_write)
    moreover have "df_drop wr z = Some s2"
      using z(2) d(2,6,7,11)
      by (simp add: df_drop_def vec_get_def z_def w df_new_def df_writeable_def flags_write with_pipe_def s2_def q_def Let_def)
    moreover have "pipes_ok s2"
    proof (rule new_pipe_ok[OF ok np, where b = False])
      show "dfiles s2 = dfiles s1" "length (pipes s2) = length (pipes s1)" by (simp_all add: s2_def z_def w)
      show "pipes s2 ! i = pipes s1 ! i" if "i < length (pipes s)" for i using that by (simp add: s2_def)
      show "referenced s2 f = (referenced s f \<or> False \<and> (f = rd \<or> f = wr))" for f
        using w(1)[of s1 n f] ref_s1[of f] by (simp add: s2_def z_def referenced_def)
      show "p_write_cnt (pipes s2 ! length (pipes s)) = (if False then 1 else 0)"
        using d(7,12) by (simp add: s2_def q_def dec_write_def wake_up_read_def Let_def)
    qed
    ultimately show ?thesis by (simp add: px z_def)
  qed
  show ?thesis using alloc_opened_ok[of x rd]
  proof (elim disjE exE conjE)
    assume "alloc_opened x rd = (None, x)"
    then show ?thesis using failed[of 0] unfolding go by (auto simp: bind_eq_Some_conv)
  next
    fix i assume i: "i < length (opened x)" "opened x ! i = None" "alloc_opened x rd = (Some i, x\<lparr>opened := (opened x)[i := Some rd]\<rparr>)"
    define y where "y = x\<lparr>opened := (opened x)[i := Some rd]\<rparr>"
    show ?thesis using alloc_opened_ok[of y wr]
    proof (elim disjE exE conjE)
      assume f: "alloc_opened y wr = (None, y)"
      have "snd (clear_opened y i) = x" using i(1,2) list_update_id[of "opened x" i]
        by (simp add: y_def clear_opened_def set_opened_def)
      then show ?thesis using failed[of "int i"] i(3) f unfolding go y_def by (auto simp: bind_eq_Some_conv)
    next
      fix j assume j: "j < length (opened y)" "opened y ! j = None" "alloc_opened y wr = (Some j, y\<lparr>opened := (opened y)[j := Some wr]\<rparr>)"
      define s2 where "s2 = put_task s1 t (\<lambda>_. y\<lparr>opened := (opened y)[j := Some wr]\<rparr>)"
      have "sys_pipe a fl s = Some (0, w s2 (int i))" using i(3) j(3) unfolding go y_def s2_def by simp
      moreover have "pipes_ok (w s2 (int i))"
      proof (rule new_pipe_ok[OF ok np, where b = True])
        show "dfiles (w s2 (int i)) = dfiles s1" "length (pipes (w s2 (int i))) = length (pipes s1)" by (simp_all add: w s2_def)
        show "pipes (w s2 (int i)) ! k = pipes s1 ! k" if "k < length (pipes s)" for k by (simp add: w s2_def)
        show "p_write_cnt (pipes (w s2 (int i)) ! length (pipes s)) = (if True then 1 else 0)" using d(12) by (simp add: w s2_def)
        fix f
        define sy where "sy = put_task s1 t (\<lambda>_. y)"
        have ly: "lock_task sy t = Some y" using lock_task_ok[OF lt1] by (simp add: sy_def lock_task_def vec_get_def put_task_def)
        have "referenced sy f \<longleftrightarrow> Some rd = Some f \<or> referenced s1 f"
          using put_entry_referenced[OF lt1 i(1,2), of f "Some rd"] by (simp add: sy_def y_def)
        moreover have "referenced s2 f \<longleftrightarrow> Some wr = Some f \<or> referenced sy f"
          using put_entry_referenced[OF ly j(1,2), of f "Some wr"] by (simp add: sy_def s2_def put_task_def)
        ultimately show "referenced (w s2 (int i)) f = (referenced s f \<or> True \<and> (f = rd \<or> f = wr))" using ref_s1 w by auto
      qed
      ultimately show ?thesis by blast
    qed
  qed
qed

section \<open>Fork, and the steps of all tasks\<close>

lemma clone_files:
  assumes "sys_clone ret flags sp ptid ctid tls tf s = Some (r, s')" "RUNNING s = Some t" "lock_task s t = Some x"
  shows "dfiles s' = dfiles s" "pipes s' = pipes s"
    "\<exists>y. tasks s' = tasks s @ [y] \<and> opened y = opened x \<and> pwd_dfile y = pwd_dfile x"
proof -
  obtain tf2 new s1 new2 s2 where st: "do_fork ret s t tf2 = Some (new, s1)" "clone_tids flags ctid new s1 = Some (new2, s2)"
    "s' = add_task (s2\<lparr>tasks := tasks s2 @ [new2]\<rparr>) (length (tasks s2))"
    using assms(1,2) by (auto simp: sys_clone_def get_running_def bind_eq_Some_conv Let_def arc_new_def split: if_splits)
  have l: "map (get_opened x) [0..<length (opened x)] = opened x"
    by (rule nth_equalityI) (simp_all add: get_opened_def)
  have s1: "dfiles s1 = dfiles s" "pipes s1 = pipes s" "tasks s1 = tasks s" "opened new = opened x" "pwd_dfile new = pwd_dfile x"
    using st(1) assms(3) l
    by (auto simp: do_fork_def vfork_step_one_def generate_tid_def bind_eq_Some_conv Let_def split: prod.splits)
  have "dfiles s2 = dfiles s1" "pipes s2 = pipes s1" "tasks s2 = tasks s1" "opened new2 = opened new" "pwd_dfile new2 = pwd_dfile new"
    using st(2) by (auto simp: clone_tids_def user_write_def bind_eq_Some_conv split: if_splits)
  then show "dfiles s' = dfiles s" "pipes s' = pipes s"
    "\<exists>y. tasks s' = tasks s @ [y] \<and> opened y = opened x \<and> pwd_dfile y = pwd_dfile x"
    using s1 st(3) by (simp_all add: add_task_def)
qed

lemma clone_ok:
  assumes "pipes_ok s" "sys_clone ret flags sp ptid ctid tls tf s = Some (r, s')" "RUNNING s = Some t" "lock_task s t = Some x"
  shows "pipes_ok s'"
proof -
  obtain y where y: "tasks s' = tasks s @ [y]" "opened y = opened x" "pwd_dfile y = pwd_dfile x"
    using clone_files(3)[OF assms(2-4)] by blast
  have "has_file f y = has_file f (tasks s ! t)" for f using y lock_task_ok[OF assms(4)] by (simp add: has_file_def)
  then have "referenced s' f = referenced s f" for f
    using y(1) lock_task_ok(1)[OF assms(4)] by (auto simp: referenced_def list_ex_iff)
  then show ?thesis using pipes_ok_same[OF assms(1)] clone_files[OF assms(2-4)] by blast
qed

text \<open>
  What the tasks do to descriptors and pipes, in any order; \<open>turn\<close> is the choice of another running task, which
  leaves the tables alone.
\<close>

inductive fd_step :: "'f Sys \<Rightarrow> 'f Sys \<Rightarrow> bool" where
  pipe: "sys_pipe a fl s = Some (r, s') \<Longrightarrow> fd_step s s'"
| close: "sys_close fd s = Some (r, s') \<Longrightarrow> fd_step s s'"
| dup: "do_dup fd nfd bits s = Some (r, s') \<Longrightarrow> fd_step s s'"
| fcntl: "sys_fcntl n cmd a s = Some (r, s') \<Longrightarrow> fd_step s s'"
| clone: "sys_clone ret flags sp ptid ctid tls tf s = Some (r, s') \<Longrightarrow> fd_step s s'"
| turn: "fd_step s (s\<lparr>RUNNING := Some t\<rparr>)"

definition fd_reach :: "'f Sys \<Rightarrow> bool" where
  "fd_reach s \<longleftrightarrow> (\<exists>s0. pipes s0 = [] \<and> (\<forall>f. referenced s0 f \<longrightarrow> f < length (dfiles s0)) \<and>
     (\<forall>f < length (dfiles s0). \<forall>i. df_class (dfiles s0 ! f) \<noteq> ClassPipe i) \<and> fd_step\<^sup>*\<^sup>* s0 s)"

lemma call_task:
  "do { cur \<leftarrow> get_running s; x \<leftarrow> lock_task s cur; h cur x } = Some v \<Longrightarrow> \<exists>t x. RUNNING s = Some t \<and> lock_task s t = Some x"
  by (auto simp: get_running_def bind_eq_Some_conv)

lemma fd_step_ok:
  assumes "fd_step s s'" "pipes_ok s"
  shows "pipes_ok s'"
  using assms
proof (induction rule: fd_step.induct)
  case (pipe a fl s r s')
  obtain rd wr s1 where np: "df_new_pipe s = (rd, wr, s1)" by (cases "df_new_pipe s") auto
  obtain t x where tx: "RUNNING s1 = Some t" "lock_task s1 t = Some x"
    using pipe(1) by (cases "RUNNING s1"; cases "lock_task s1 (the (RUNNING s1))") (simp_all add: sys_pipe_def np get_running_def)
  have w: "user_write b 4 bs z = None" if "b mod 4 \<noteq> 0" for b bs and z :: "'a Sys" using that by (simp add: user_write_def rassert_def)
  have "a mod 4 = 0"
    using pipe(1) tx w[of a] by (cases "a mod 4 = 0") (simp_all add: sys_pipe_def np get_running_def Let_def split: prod.splits)
  moreover have "a + 4 < 2 ^ 64"
    using pipe(1) tx calculation
    by (cases "a + 4 < 2 ^ 64") (simp_all add: sys_pipe_def np get_running_def Let_def uadd_def user_write_def rassert_def split: prod.splits)
  ultimately show ?case using sys_pipe_ok[OF pipe(2), of t x a fl] tx pipe(1) new_pipe_simps(4,5)[OF np] by auto
next
  case (close fd s r s')
  obtain t x where "RUNNING s = Some t" "lock_task s t = Some x"
    using call_task[OF close(1)[unfolded sys_close_def]] by blast
  then show ?case using sys_close_ok[OF close(2), of t x fd] close(1) by auto
next
  case (dup fd nfd bits s r s')
  obtain t x where "RUNNING s = Some t" "lock_task s t = Some x"
    using call_task[OF dup(1)[unfolded do_dup_def]] by blast
  then show ?case using do_dup_ok[OF dup(2), of t x fd nfd bits] dup(1) by auto
next
  case (fcntl n cmd a s r s')
  obtain t x where tx: "RUNNING s = Some t" "lock_task s t = Some x"
    using call_task[OF fcntl(1)[unfolded sys_fcntl_def]] by blast
  show ?case
  proof (cases "cmd \<in> {F_DUPFD, F_GETFD, F_SETFD, F_DUPFD_CLOEXEC}")
    case True
    then show ?thesis using sys_fcntl_ok[OF fcntl(2) tx True, of n a] fcntl(1) by auto
  next
    case False
    then show ?thesis using fcntl tx by (auto simp: sys_fcntl_def get_running_def split: option.splits)
  qed
next
  case (clone ret flags sp ptid ctid tls tf s r s')
  obtain t x where "RUNNING s = Some t" "lock_task s t = Some x"
    using clone(1) by (auto simp: sys_clone_def get_running_def do_fork_def bind_eq_Some_conv Let_def split: if_splits)
  then show ?case using clone_ok[OF clone(2,1)] by blast
next
  case (turn s t)
  then show ?case by (rule pipes_ok_same) (simp_all add: referenced_def)
qed

lemma fd_reach_ok:
  assumes "fd_reach s"
  shows "pipes_ok s"
proof -
  obtain s0 where s0: "pipes s0 = []" "\<forall>f. referenced s0 f \<longrightarrow> f < length (dfiles s0)"
    "\<forall>f < length (dfiles s0). \<forall>i. df_class (dfiles s0 ! f) \<noteq> ClassPipe i" and st: "fd_step\<^sup>*\<^sup>* s0 s"
    using assms by (auto simp: fd_reach_def)
  have "pipes_ok s0" using s0 by (simp add: pipes_ok_def files_ok_def)
  with st show ?thesis by (induction rule: rtranclp_induct) (auto dest: fd_step_ok)
qed

end
