(* ===== verification/K_Inode_Props.thy ===== *)
theory K_Inode_Props
  imports K_Inode
begin

text \<open>
  The lookup of a path through the index nodes is the lookup in the directories of the file system, and
  where the list of children loses a node.
\<close>

section \<open>The directories as a reference\<close>

text \<open>
  What a path leads to: a directory, or a file, which is told from other files by \<open>ident\<close> of its open
  handle.  The handle of a node changes when the file is read or written, for example its position, and
  \<open>ident\<close> stands for what the library keeps of it, such as the place of the file's entry on the disk.
\<close>

datatype ('d, 'i) target = T_dir 'd | T_file 'i

fun target_of :: "('h \<Rightarrow> 'i) \<Rightarrow> ('d, 'h) InodeClass \<Rightarrow> ('d, 'i) target" where
  "target_of ident (Dir d) = T_dir d"
| "target_of ident (File f) = T_file (ident f)"

definition entry_target :: "('h \<Rightarrow> 'i) \<Rightarrow> ('d, 'e, 'h) FatLib \<Rightarrow> 'e \<Rightarrow> ('d, 'i) target option" where
  "entry_target ident fs e =
     (if ff_is_dir fs e then Some (T_dir (ff_to_dir fs e)) else if ff_is_file fs e then Some (T_file (ident (ff_to_file fs e))) else None)"

fun sub_target :: "('h \<Rightarrow> 'i) \<Rightarrow> ('d, 'e, 'h) FatLib \<Rightarrow> ('d, 'i) target \<Rightarrow> string \<Rightarrow> ('d, 'i) target option run" where
  "sub_target ident fs (T_file _) name = Some None"
| "sub_target ident fs (T_dir d) name = do { r \<leftarrow> get_sub_dentry fs d name; Some (Option.bind r (entry_target ident fs)) }"

fun walk_dirs :: "('h \<Rightarrow> 'i) \<Rightarrow> ('d, 'e, 'h) FatLib \<Rightarrow> ('d, 'i) target \<Rightarrow> string list \<Rightarrow> ('d, 'i) target option run" where
  "walk_dirs ident fs t [] = Some (Some t)"
| "walk_dirs ident fs t (name # names) = do {
     r \<leftarrow> sub_target ident fs t name;
     (case r of None \<Rightarrow> Some None | Some t \<Rightarrow> walk_dirs ident fs t names)
   }"

text \<open>The names on the way from the root to a node.\<close>

function node_path :: "('d, 'h) Icache \<Rightarrow> ino \<Rightarrow> string list" where
  "node_path st n =
     (case i_parent (nodes st ! n) of
        Some p \<Rightarrow> if p < n then node_path st p @ [i_name (nodes st ! n)] else []
      | None \<Rightarrow> [])"
  by pat_completeness auto
termination
  by (relation "measure snd") auto

declare node_path.simps [simp del]

section \<open>Invariant\<close>

definition node_ok :: "('h \<Rightarrow> 'i) \<Rightarrow> ('d, 'e, 'h) FatLib \<Rightarrow> ('d, 'h) Icache \<Rightarrow> ino \<Rightarrow> bool" where
  "node_ok ident fs st i \<longleftrightarrow>
     (case i_parent (nodes st ! i) of
        None \<Rightarrow> i = 0
      | Some p \<Rightarrow> p < i \<and> (i \<in> live st \<longrightarrow> p \<in> live st) \<and>
          sub_target ident fs (target_of ident (i_class (nodes st ! p))) (i_name (nodes st ! i)) = Some (Some (target_of ident (i_class (nodes st ! i))))) \<and>
     (\<forall>c \<in> set (i_children (nodes st ! i)). c < length (nodes st) \<and> i_parent (nodes st ! c) = Some i)"

definition inode_inv :: "('h \<Rightarrow> 'i) \<Rightarrow> ('d, 'e, 'h) FatLib \<Rightarrow> ('d, 'h) Icache \<Rightarrow> bool" where
  "inode_inv ident fs st \<longleftrightarrow> 0 < length (nodes st) \<and> 0 \<in> live st \<and> live st \<subseteq> {..<length (nodes st)} \<and> (\<forall>i < length (nodes st). node_ok ident fs st i)"

lemma inode_invD:
  assumes "inode_inv ident fs st"
  shows "0 < length (nodes st)" "0 \<in> live st" "n \<in> live st \<Longrightarrow> n < length (nodes st)" "i < length (nodes st) \<Longrightarrow> node_ok ident fs st i"
  using assms by (auto simp: inode_inv_def)

lemma create_root_inv: "inode_inv ident fs (create_root d)"
  by (auto simp: inode_inv_def node_ok_def create_root_def)

lemma reclaim_inv:
  assumes "inode_inv ident fs st"
  shows "inode_inv ident fs (reclaim n st)"
proof (cases "n \<noteq> 0 \<and> (\<forall>c \<in> live st. i_parent (nodes st ! c) \<noteq> Some n)")
  case True
  then have r: "reclaim n st = st\<lparr>live := live st - {n}\<rparr>" by (simp add: reclaim_def)
  have "node_ok ident fs (reclaim n st) i" if i: "i < length (nodes st)" for i
    using inode_invD(4)[OF assms i] True unfolding node_ok_def r by (auto split: option.split_asm option.split)
  then show ?thesis using inode_invD(1-3)[OF assms] True by (auto simp: inode_inv_def r)
qed (use assms in \<open>auto simp: reclaim_def\<close>)

section \<open>One step of a lookup\<close>

text \<open>What later steps keep of a node.\<close>

definition extends :: "('d, 'h) Icache \<Rightarrow> ('d, 'h) Icache \<Rightarrow> bool" where
  "extends st st' \<longleftrightarrow> live st \<subseteq> live st' \<and> length (nodes st) \<le> length (nodes st') \<and>
     (\<forall>i < length (nodes st). i_parent (nodes st' ! i) = i_parent (nodes st ! i) \<and> i_name (nodes st' ! i) = i_name (nodes st ! i) \<and>
        i_class (nodes st' ! i) = i_class (nodes st ! i))"

lemma extends_refl [simp]: "extends st st"
  by (simp add: extends_def)

lemma extends_trans: "extends st st' \<Longrightarrow> extends st' st'' \<Longrightarrow> extends st st''"
  by (auto simp: extends_def)

lemma extends_path:
  assumes e: "extends st st'"
  shows "n < length (nodes st) \<Longrightarrow> node_path st' n = node_path st n"
proof (induction n rule: less_induct)
  case (less n)
  have f: "i_parent (nodes st' ! n) = i_parent (nodes st ! n)" "i_name (nodes st' ! n) = i_name (nodes st ! n)"
    using e less.prems by (auto simp: extends_def)
  show ?case
    using less.IH less.prems by (subst (1 2) node_path.simps) (auto simp: f split: option.splits)
qed

lemma scan_children_ok:
  assumes "scan_children st name cs i = (r, cs')"
  shows "set cs' \<subseteq> set cs \<and> (\<forall>c. r = Some c \<longrightarrow> c \<in> set cs \<and> c \<in> live st \<and> i_name (nodes st ! c) = name)"
  using assms
proof (induction st name cs i rule: scan_children.induct)
  case (1 st name cs i)
  show ?case
  proof (cases "i < length cs \<and> cs ! i \<notin> live st")
    case True
    let ?cs = "take i cs @ drop (i + 1) cs"
    have "scan_children st name ?cs (cursor_next ?cs i) = (r, cs')"
      using 1(3) True by (subst (asm) scan_children.simps) (simp add: Let_def)
    moreover have "set ?cs \<subseteq> set cs" using set_take_subset set_drop_subset by fastforce
    ultimately show ?thesis using 1(1)[OF conjunct1[OF True] refl conjunct2[OF True] refl] by blast
  next
    case False
    show ?thesis
    proof (cases "i < length cs \<and> i_name (nodes st ! (cs ! i)) \<noteq> name")
      case True
      then have "scan_children st name cs (cursor_next cs i) = (r, cs')"
        using 1(3) False by (subst (asm) scan_children.simps) (simp add: Let_def)
      then show ?thesis using 1(2) True False by auto
    next
      case False2: False
      then show ?thesis using 1(3) False by (subst (asm) scan_children.simps) (auto simp: Let_def split: if_splits)
    qed
  qed
qed

lemma set_children_ok:
  assumes inv: "inode_inv ident fs st" and n: "n < length (nodes st)" "\<forall>c \<in> set cs. c < length (nodes st) \<and> i_parent (nodes st ! c) = Some n"
  shows "inode_inv ident fs (set_children st n cs) \<and> extends st (set_children st n cs)"
proof -
  let ?st = "set_children st n cs"
  have nth: "nodes ?st ! i = (if i = n then (nodes st ! n)\<lparr>i_children := cs\<rparr> else nodes st ! i)" if "i < length (nodes st)" for i
    using that by (simp add: set_children_def nth_list_update)
  have f: "i_parent (nodes ?st ! i) = i_parent (nodes st ! i)" "i_name (nodes ?st ! i) = i_name (nodes st ! i)"
    "i_class (nodes ?st ! i) = i_class (nodes st ! i)" if "i < length (nodes st)" for i using nth[OF that] by simp_all
  have l: "live ?st = live st" "length (nodes ?st) = length (nodes st)" by (simp_all add: set_children_def)
  have "node_ok ident fs ?st i" if i: "i < length (nodes st)" for i
  proof -
    note ok = inode_invD(4)[OF inv i]
    have ch: "\<forall>c \<in> set (i_children (nodes ?st ! i)). c < length (nodes st) \<and> i_parent (nodes st ! c) = Some i"
      using ok n nth[OF i] by (auto simp: node_ok_def)
    have p: "p < length (nodes st)" if "i_parent (nodes st ! i) = Some p" for p
      using ok that i by (auto simp: node_ok_def)
    show ?thesis
      using ok ch unfolding node_ok_def l by (auto simp: f[OF i] f p split: option.splits)
  qed
  then show ?thesis using inv f l by (auto simp: inode_inv_def extends_def)
qed

lemma new_inode_ok:
  assumes inv: "inode_inv ident fs st" and s: "self \<in> live st" "sub_target ident fs (target_of ident (i_class (nodes st ! self))) name = Some (Some (target_of ident cl))"
  shows "\<exists>st'. new_inode st self cl name = Some (length (nodes st), st') \<and> inode_inv ident fs st' \<and> extends st st' \<and>
    length (nodes st') = length (nodes st) + 1 \<and> length (nodes st) \<in> live st' \<and>
    nodes st' ! length (nodes st) = \<lparr>i_parent = Some self, i_name = name, i_children = [], i_class = cl\<rparr> \<and>
    (\<forall>i < length (nodes st). nodes st' ! i = nodes st ! i)"
proof -
  let ?n = "length (nodes st)" and ?x = "\<lparr>i_parent = Some self, i_name = name, i_children = [], i_class = cl\<rparr>"
  let ?st = "st\<lparr>nodes := nodes st @ [?x], live := insert ?n (live st)\<rparr>"
  have sl: "self < ?n" using inode_invD(3)[OF inv s(1)] .
  have old: "nodes ?st ! i = nodes st ! i" if "i < ?n" for i using that by (simp add: nth_append)
  have "node_ok ident fs ?st i" if i: "i < ?n + 1" for i
  proof (cases "i = ?n")
    case True
    then show ?thesis using s sl old[OF sl] by (simp add: node_ok_def)
  next
    case False
    then have i: "i < ?n" using that by simp
    have c: "c < ?n" if "c \<in> set (i_children (nodes st ! i))" for c using inode_invD(4)[OF inv i] that by (auto simp: node_ok_def)
    have c1: "c < Suc ?n" if "c \<in> set (i_children (nodes st ! i))" for c using c[OF that] by simp
    have p: "p < ?n" if "i_parent (nodes st ! i) = Some p" for p using inode_invD(4)[OF inv i] that i by (auto simp: node_ok_def)
    show ?thesis using inode_invD(4)[OF inv i] i c c1 p unfolding node_ok_def by (auto simp: old[OF i] nth_append split: option.splits)
  qed
  then have "inode_inv ident fs ?st" using inode_invD(2,3)[OF inv] by (auto simp: inode_inv_def less_Suc_eq)
  moreover have "extends st ?st" by (auto simp: extends_def nth_append)
  ultimately show ?thesis using s(1) old by (intro exI[of _ ?st]) (simp add: new_inode_def rassert_def Let_def)
qed

text \<open>The result of a lookup and what the reference says it should be.\<close>

definition found :: "('h \<Rightarrow> 'i) \<Rightarrow> ('d, 'e, 'h) FatLib \<Rightarrow> ('d, 'h) Icache \<Rightarrow> ino \<Rightarrow> string list \<Rightarrow> (ino option \<times> ('d, 'h) Icache) run \<Rightarrow> ('d, 'i) target option run \<Rightarrow> bool" where
  "found ident fs st self names r t \<longleftrightarrow>
     (case t of
        None \<Rightarrow> r = None
      | Some None \<Rightarrow> \<exists>st'. r = Some (None, st') \<and> inode_inv ident fs st' \<and> extends st st'
      | Some (Some x) \<Rightarrow> \<exists>n st'. r = Some (Some n, st') \<and> inode_inv ident fs st' \<and> extends st st' \<and> n \<in> live st' \<and>
          target_of ident (i_class (nodes st' ! n)) = x \<and> node_path st' n = node_path st self @ names)"

lemma path_child:
  assumes "inode_inv ident fs st" "n < length (nodes st)" "i_parent (nodes st ! n) = Some p"
  shows "node_path st n = node_path st p @ [i_name (nodes st ! n)]"
  using inode_invD(4)[OF assms(1,2)] assms(3) by (subst node_path.simps) (simp add: node_ok_def)

lemma get_sub_node_ok:
  assumes inv: "inode_inv ident fs st" and self: "self \<in> live st"
  shows "found ident fs st self [name] (get_sub_node fs st self name) (sub_target ident fs (target_of ident (i_class (nodes st ! self))) name)"
proof -
  have sl: "self < length (nodes st)" using inode_invD(3)[OF inv self] .
  have get: "vec_get (nodes st) self = Some (nodes st ! self)" using sl by (simp add: vec_get_def)
  show ?thesis
  proof (cases "i_class (nodes st ! self)")
    case (File h)
    then show ?thesis using get inv by (simp add: found_def get_sub_node_def)
  next
    case (Dir d)
    obtain f cs where sc: "scan_children st name (i_children (nodes st ! self)) 0 = (f, cs)" by fastforce
    note S = scan_children_ok[OF sc]
    let ?st = "set_children st self cs"
    have ch: "\<forall>c \<in> set cs. c < length (nodes st) \<and> i_parent (nodes st ! c) = Some self"
      using S inode_invD(4)[OF inv sl] by (auto simp: node_ok_def)
    note E = set_children_ok[OF inv sl ch]
    have inv1: "inode_inv ident fs ?st" and ext1: "extends st ?st" using E by auto
    have sl1: "live ?st = live st" "length (nodes ?st) = length (nodes st)" by (simp_all add: set_children_def)
    have cl1: "i_class (nodes ?st ! self) = Dir d" using ext1 sl Dir by (simp add: extends_def)
    show ?thesis
    proof (cases f)
      case (Some c)
      then have c: "c \<in> live st" "i_name (nodes st ! c) = name" "i_parent (nodes st ! c) = Some self" "c < length (nodes st)"
        using S ch inode_invD(4)[OF inv sl] inode_invD(3)[OF inv] by (auto simp: node_ok_def)
      have "sub_target ident fs (T_dir d) name = Some (Some (target_of ident (i_class (nodes st ! c))))"
        using inode_invD(4)[OF inv c(4)] c(2,3) Dir by (simp add: node_ok_def)
      moreover have "node_path ?st c = node_path st self @ [name]"
        using extends_path[OF ext1 c(4)] path_child[OF inv c(4,3)] c(2) by simp
      moreover have "i_class (nodes ?st ! c) = i_class (nodes st ! c)" using ext1 c(4) by (simp add: extends_def)
      moreover have "get_sub_node fs st self name = Some (Some c, ?st)" using get Dir sc Some by (simp add: get_sub_node_def)
      ultimately show ?thesis using inv1 ext1 c(1) sl1 Dir by (simp add: found_def)
    next
      case None
      have run: "get_sub_node fs st self name = do {
          r \<leftarrow> get_sub_dentry fs d name;
          (case r of
             None \<Rightarrow> Some (None, ?st)
           | Some e \<Rightarrow>
               if ff_is_dir fs e then do { (n, s') \<leftarrow> new_inode ?st self (Dir (ff_to_dir fs e)) name; Some (Some n, set_children s' self (cs @ [n])) }
               else if ff_is_file fs e then do { (n, s') \<leftarrow> new_inode ?st self (File (ff_to_file fs e)) name; Some (Some n, set_children s' self (cs @ [n])) }
               else Some (None, ?st)) }"
        using get Dir sc None by (simp add: get_sub_node_def Let_def)
      have new: "\<exists>n s'. do { (n, s') \<leftarrow> new_inode ?st self cl name; Some (Some n, set_children s' self (cs @ [n])) } = Some (Some n, s') \<and>
          inode_inv ident fs s' \<and> extends st s' \<and> n \<in> live s' \<and> target_of ident (i_class (nodes s' ! n)) = target_of ident cl \<and>
          node_path s' n = node_path st self @ [name]"
        if cl: "sub_target ident fs (T_dir d) name = Some (Some (target_of ident cl))" for cl
      proof -
        let ?n = "length (nodes st)"
        obtain s1 where s1: "new_inode ?st self cl name = Some (?n, s1)" "inode_inv ident fs s1" "extends ?st s1" "length (nodes s1) = ?n + 1"
          "?n \<in> live s1" "nodes s1 ! ?n = \<lparr>i_parent = Some self, i_name = name, i_children = [], i_class = cl\<rparr>"
          using new_inode_ok[OF inv1, of self name cl] self cl cl1 sl1 by auto
        have par: "\<forall>c \<in> set (cs @ [?n]). c < length (nodes s1) \<and> i_parent (nodes s1 ! c) = Some self"
          using ch s1(3,4,6) ext1 sl1(2) by (auto simp: extends_def)
        let ?s2 = "set_children s1 self (cs @ [?n])"
        have s2: "inode_inv ident fs ?s2" "extends s1 ?s2" using set_children_ok[OF s1(2) _ par] sl s1(4) by auto
        have ext: "extends st ?s2" using ext1 s1(3) s2(2) by (blast intro: extends_trans)
        have nn: "?n < length (nodes ?s2)" using s1(4) by (simp add: set_children_def)
        have x: "i_parent (nodes ?s2 ! ?n) = Some self" "i_name (nodes ?s2 ! ?n) = name" "i_class (nodes ?s2 ! ?n) = cl"
          using s2(2) s1(4,6) by (auto simp: extends_def)
        have "node_path ?s2 ?n = node_path st self @ [name]"
          using path_child[OF s2(1) nn x(1)] x(2) extends_path[OF ext sl] by simp
        then show ?thesis using s1(1,5) s2 ext x(3) by (simp add: set_children_def)
      qed
      show ?thesis
      proof (cases "get_sub_dentry fs d name")
        case None
        then show ?thesis using run Dir by (simp add: found_def)
      next
        case (Some r)
        show ?thesis
        proof (cases r)
          case None
          then show ?thesis using run Some Dir inv1 ext1 by (auto simp: found_def)
        next
          case (Some e)
          note r = \<open>get_sub_dentry fs d name = Some r\<close>
          show ?thesis
            using run r Some Dir inv1 ext1 new[of "Dir (ff_to_dir fs e)"] new[of "File (ff_to_file fs e)"]
            by (cases "ff_is_dir fs e"; cases "ff_is_file fs e") (auto simp: found_def entry_target_def)
        qed
      qed
    qed
  qed
qed

lemma walk_nodes_ok:
  "inode_inv ident fs st \<Longrightarrow> self \<in> live st \<Longrightarrow>
   found ident fs st self names (walk_nodes fs st self names) (walk_dirs ident fs (target_of ident (i_class (nodes st ! self))) names)"
proof (induction names arbitrary: st self)
  case Nil
  then show ?case by (simp add: found_def)
next
  case (Cons name names)
  let ?t = "sub_target ident fs (target_of ident (i_class (nodes st ! self))) name"
  note F = get_sub_node_ok[OF Cons.prems, of name, unfolded found_def]
  show ?case
  proof (cases ?t)
    case None
    then show ?thesis using F by (simp add: found_def)
  next
    case (Some x)
    show ?thesis
    proof (cases x)
      case None
      then show ?thesis using F Some by (auto simp: found_def)
    next
      case (Some t)
      then obtain n st' where n: "get_sub_node fs st self name = Some (Some n, st')" "inode_inv ident fs st'" "extends st st'" "n \<in> live st'"
        "target_of ident (i_class (nodes st' ! n)) = t" "node_path st' n = node_path st self @ [name]" using F \<open>?t = Some x\<close> by auto
      have "found ident fs st' n names (walk_nodes fs st' n names) (walk_dirs ident fs t names)" using Cons.IH[OF n(2,4)] n(5) by simp
      then have "found ident fs st self (name # names) (walk_nodes fs st' n names) (walk_dirs ident fs t names)"
        using n(3,6) by (auto simp: found_def split: option.splits intro: extends_trans)
      then show ?thesis using n(1) \<open>?t = Some x\<close> Some by simp
    qed
  qed
qed

section \<open>Paths\<close>

text \<open>
  Reading and writing keep the invariant, as they keep which file the handle is for.
\<close>

definition keeps_ident :: "'h FatFile \<Rightarrow> ('h \<Rightarrow> 'i) \<Rightarrow> bool" where
  "keeps_ident ops ident \<longleftrightarrow> (\<forall>f off. ident (snd (h_seek ops f off)) = ident f) \<and>
     (\<forall>f buf. ident (snd (snd (h_read ops f buf))) = ident f) \<and> (\<forall>f buf. ident (snd (h_write ops f buf)) = ident f)"

lemma keeps_identD:
  assumes "keeps_ident ops ident"
  shows "h_seek ops f off = (r, f') \<Longrightarrow> ident f' = ident f" "h_read ops f buf = (r, buf', f') \<Longrightarrow> ident f' = ident f"
    "h_write ops f buf = (r, f') \<Longrightarrow> ident f' = ident f"
  using assms unfolding keeps_ident_def by (metis snd_conv)+

lemma io_target:
  assumes "keeps_ident ops ident"
  shows "read_off ops cl buf off = Some (r, buf', cl') \<Longrightarrow> target_of ident cl' = target_of ident cl"
    "write_off ops cl buf off = Some (r', cl') \<Longrightarrow> target_of ident cl' = target_of ident cl"
  by (auto simp: read_off_def write_off_def dest!: keeps_identD[OF assms] split: InodeClass.splits prod.splits sum.splits)

lemma put_class_inv:
  assumes inv: "inode_inv ident fs st" and n: "n < length (nodes st)" and cl: "target_of ident cl = target_of ident (i_class (nodes st ! n))"
  shows "inode_inv ident fs (put_class n cl st)"
proof -
  let ?st = "put_class n cl st"
  have f: "i_parent (nodes ?st ! i) = i_parent (nodes st ! i)" "i_name (nodes ?st ! i) = i_name (nodes st ! i)"
    "i_children (nodes ?st ! i) = i_children (nodes st ! i)"
    "target_of ident (i_class (nodes ?st ! i)) = target_of ident (i_class (nodes st ! i))" if "i < length (nodes st)" for i
    using that cl n by (auto simp: put_class_def nth_list_update)
  have l: "live ?st = live st" "length (nodes ?st) = length (nodes st)" by (simp_all add: put_class_def)
  have "node_ok ident fs ?st i" if i: "i < length (nodes st)" for i
  proof -
    note ok = inode_invD(4)[OF inv i]
    have p: "p < length (nodes st)" if "i_parent (nodes st ! i) = Some p" for p
      using ok that i by (auto simp: node_ok_def)
    show ?thesis using ok unfolding node_ok_def l by (auto simp: f[OF i] f p split: option.splits)
  qed
  then show ?thesis using inv l by (simp add: inode_inv_def)
qed

text \<open>
  C23: Looking up a path through the index nodes gives what the directories of the file system say: it panics,
  finds nothing, or finds a node exactly if the walk through the directories does.  The node it finds is in
  use; it is the directory that the walk ends in, or its handle is for the file of the entry that the walk ends
  in; and the names from the root to it are those of the start and of the path (without empty names and dots).
  The nodes made before stay as they are, and reading or writing any file in between does not matter.
\<close>

theorem path_lookup_refines:
  assumes "inode_inv ident fs st" "self \<in> live st" "keeps_ident ops ident"
  shows "(case walk_dirs ident fs (target_of ident (i_class (nodes st ! self))) (name_array path) of
      None \<Rightarrow> get_node_by_path fs st self path = None
    | Some None \<Rightarrow> (\<exists>st'. get_node_by_path fs st self path = Some (None, st') \<and> inode_inv ident fs st' \<and> extends st st')
    | Some (Some t) \<Rightarrow> (\<exists>n st'. get_node_by_path fs st self path = Some (Some n, st') \<and> inode_inv ident fs st' \<and> extends st st' \<and>
        n \<in> live st' \<and> target_of ident (i_class (nodes st' ! n)) = t \<and> node_path st' n = node_path st self @ name_array path)) \<and>
    (\<forall>n buf off r buf' cl. n < length (nodes st) \<longrightarrow> read_off ops (i_class (nodes st ! n)) buf off = Some (r, buf', cl) \<longrightarrow>
      inode_inv ident fs (put_class n cl st)) \<and>
    (\<forall>n buf off r cl. n < length (nodes st) \<longrightarrow> write_off ops (i_class (nodes st ! n)) buf off = Some (r, cl) \<longrightarrow>
      inode_inv ident fs (put_class n cl st))"
proof (intro conjI allI impI)
  have "get_node_by_path fs st self path = walk_nodes fs st self (name_array path)"
    using assms(2) by (simp add: get_node_by_path_def rassert_def)
  then show "case walk_dirs ident fs (target_of ident (i_class (nodes st ! self))) (name_array path) of
      None \<Rightarrow> get_node_by_path fs st self path = None
    | Some None \<Rightarrow> (\<exists>st'. get_node_by_path fs st self path = Some (None, st') \<and> inode_inv ident fs st' \<and> extends st st')
    | Some (Some t) \<Rightarrow> (\<exists>n st'. get_node_by_path fs st self path = Some (Some n, st') \<and> inode_inv ident fs st' \<and> extends st st' \<and>
        n \<in> live st' \<and> target_of ident (i_class (nodes st' ! n)) = t \<and> node_path st' n = node_path st self @ name_array path)"
    using walk_nodes_ok[OF assms(1,2), of "name_array path"] unfolding found_def by (simp only:)
qed (blast intro: put_class_inv[OF assms(1)] io_target[OF assms(3)])+

section \<open>A child that the scan misses\<close>

lemma scan_children_none:
  "\<forall>j. i \<le> j \<and> j < length cs \<longrightarrow> cs ! j \<in> live st \<and> i_name (nodes st ! (cs ! j)) \<noteq> name \<Longrightarrow> i \<le> length cs \<Longrightarrow>
   scan_children st name cs i = (None, cs)"
proof (induction "length cs - i" arbitrary: i)
  case 0
  then show ?case by (simp add: scan_children.simps)
next
  case (Suc k)
  then have "scan_children st name cs i = scan_children st name cs (i + 1)"
    by (subst scan_children.simps) (auto simp: Let_def cursor_next_def)
  also have "\<dots> = (None, cs)" using Suc by (intro Suc.hyps) auto
  finally show ?case .
qed

text \<open>
  C27: When the first child of a directory has gone, the scan removes it and then skips the child that
  follows.  If that is the one looked for, a second index node is made for the same path while the first
  is still in use.
\<close>

theorem inode_cache_duplicates:
  assumes "inode_inv ident fs st" "self \<in> live st" "i_children (nodes st ! self) = a # c # cs" "a \<notin> live st" "c \<in> live st"
    "\<forall>x \<in> set cs. x \<in> live st \<and> i_name (nodes st ! x) \<noteq> i_name (nodes st ! c)"
  shows "\<exists>n st'. get_sub_node fs st self (i_name (nodes st ! c)) = Some (Some n, st') \<and> n \<noteq> c \<and> c \<in> live st' \<and> n \<in> live st' \<and>
    node_path st' n = node_path st' c"
proof -
  let ?name = "i_name (nodes st ! c)"
  have sl: "self < length (nodes st)" "c < length (nodes st)" using inode_invD(3)[OF assms(1)] assms(2,5) by auto
  have pc: "i_parent (nodes st ! c) = Some self" using inode_invD(4)[OF assms(1) sl(1)] assms(3) by (simp add: node_ok_def)
  have t: "sub_target ident fs (target_of ident (i_class (nodes st ! self))) ?name = Some (Some (target_of ident (i_class (nodes st ! c))))"
    using inode_invD(4)[OF assms(1) sl(2)] pc by (simp add: node_ok_def)
  from get_sub_node_ok[OF assms(1,2), of ?name] obtain n st' where n: "get_sub_node fs st self ?name = Some (Some n, st')"
    "inode_inv ident fs st'" "extends st st'" "n \<in> live st'" "node_path st' n = node_path st self @ [?name]" unfolding found_def t by auto
  obtain d where d: "i_class (nodes st ! self) = Dir d" using t by (cases "i_class (nodes st ! self)") auto
  have "scan_children st ?name (a # c # cs) 0 = scan_children st ?name (c # cs) 1"
    using assms(4) by (subst scan_children.simps) (simp add: Let_def cursor_next_def)
  also have "\<dots> = (None, c # cs)"
    using assms(6) by (intro scan_children_none) (auto simp: nth_Cons split: nat.splits)
  finally have "scan_children st ?name (i_children (nodes st ! self)) 0 = (None, c # cs)" using assms(3) by simp
  then have "n = length (nodes st)"
    using n(1) d sl(1) by (auto simp: get_sub_node_def vec_get_def new_inode_def set_children_def Let_def bind_eq_Some_conv split: option.splits if_splits)
  moreover have "node_path st' c = node_path st self @ [?name]"
    using extends_path[OF n(3) sl(2)] path_child[OF assms(1) sl(2) pc] by simp
  moreover have "c \<in> live st'" using n(3) assms(5) by (auto simp: extends_def)
  ultimately show ?thesis using n sl(2) by auto
qed

section \<open>A sample file system\<close>

text \<open>Directory 0 has the directory \<open>bin\<close>, which is directory 1, and the file \<open>b\<close>; directory 1 has the file \<open>sh\<close>.\<close>

definition sample_fat :: "(nat, string, string \<times> nat) FatLib" where
  "sample_fat = \<lparr>ff_iter = (\<lambda>d. if d = 0 then [Some ''bin'', Some ''b''] else [Some ''sh'']), ff_name = (\<lambda>e. e),
     ff_is_dir = (\<lambda>e. e = ''bin''), ff_is_file = (\<lambda>e. e \<noteq> ''bin''), ff_to_dir = (\<lambda>e. 1), ff_to_file = (\<lambda>e. (e, 0))\<rparr>"

text \<open>An open file is its name, whose letters are its content, and a position.\<close>

definition named_file :: "(string \<times> nat) FatFile" where
  "named_file = \<lparr>h_seek = (\<lambda>(e, p) off. (Inr (min off (length e)), e, min off (length e))),
     h_read = (\<lambda>(e, p) buf. let n = min (length buf) (length e - p) in (Inr n, map of_char (take n (drop p e)) @ drop n buf, e, p + n)),
     h_write = (\<lambda>f buf. (Inl (), f))\<rparr>"

lemma named_file_ident: "keeps_ident named_file fst"
  by (auto simp: keeps_ident_def named_file_def Let_def)

theorem path_lookup_refines_witness:
  "\<exists>n st. get_node_by_path sample_fat (create_root 0) 0 ''/bin/./sh'' = Some (Some n, st) \<and> n \<in> live st \<and>
     (\<exists>p. i_class (nodes st ! n) = File (''sh'', p)) \<and> node_path st n = [''bin'', ''sh'']"
proof -
  have "name_array ''/bin/./sh'' = [''bin'', ''sh'']" by (simp add: name_array_def)
  moreover have "target_of fst (i_class (nodes (create_root 0 :: (nat, string \<times> nat) Icache) ! 0)) = T_dir 0" by (simp add: create_root_def)
  moreover have "walk_dirs fst sample_fat (T_dir 0) [''bin'', ''sh''] = Some (Some (T_file ''sh''))"
    by (simp add: get_sub_dentry_def sample_fat_def entry_target_def)
  moreover have "node_path (create_root 0 :: (nat, string \<times> nat) Icache) 0 = []" by (subst node_path.simps) (simp add: create_root_def)
  moreover have "0 \<in> live (create_root 0 :: (nat, string \<times> nat) Icache)" by (simp add: create_root_def)
  moreover have "\<exists>p. i_class (nodes st ! n) = File (''sh'', p)" if "target_of fst (i_class (nodes st ! n)) = T_file ''sh''" for n and st :: "(nat, string \<times> nat) Icache"
    using that by (cases "i_class (nodes st ! n)") auto
  ultimately show ?thesis
    using path_lookup_refines[OF create_root_inv[of fst sample_fat 0] _ named_file_ident, of 0 "''/bin/./sh''", THEN conjunct1] by auto
qed

text \<open>The directory and the file are looked up, the directory is given up, and the file is looked up again.\<close>

theorem inode_cache_duplicates_witness:
  "\<exists>st1 st2 n st'. get_sub_node sample_fat (create_root 0) 0 ''bin'' = Some (Some 1, st1) \<and>
     get_sub_node sample_fat st1 0 ''b'' = Some (Some 2, st2) \<and>
     get_sub_node sample_fat (reclaim 1 st2) 0 ''b'' = Some (Some n, st') \<and> n \<noteq> 2 \<and> {n, 2} \<subseteq> live st' \<and> node_path st' n = node_path st' 2"
proof -
  let ?r = "\<lambda>cs. \<lparr>i_parent = None, i_name = '''', i_children = cs, i_class = Dir 0\<rparr> :: (nat, string \<times> nat) Inode"
  let ?a = "\<lparr>i_parent = Some 0, i_name = ''bin'', i_children = [], i_class = Dir 1\<rparr> :: (nat, string \<times> nat) Inode"
  let ?b = "\<lparr>i_parent = Some 0, i_name = ''b'', i_children = [], i_class = File (''b'', 0)\<rparr> :: (nat, string \<times> nat) Inode"
  let ?st1 = "\<lparr>nodes = [?r [1], ?a], live = {0, 1}\<rparr>"
  let ?st2 = "\<lparr>nodes = [?r [1, 2], ?a, ?b], live = {0, 1, 2}\<rparr>"
  let ?st = "\<lparr>nodes = [?r [1, 2], ?a, ?b], live = {0, 2}\<rparr>"
  note ev = get_sub_node_def vec_get_def scan_children.simps cursor_next_def set_children_def get_sub_dentry_def
    sample_fat_def new_inode_def rassert_def create_root_def
  have r1: "get_sub_node sample_fat (create_root 0) 0 ''bin'' = Some (Some 1, ?st1)" by (auto simp: ev Let_def)
  have r2: "get_sub_node sample_fat ?st1 0 ''b'' = Some (Some 2, ?st2)" by (auto simp: ev Let_def eval_nat_numeral)
  have st: "reclaim 1 ?st2 = ?st" by (auto simp: reclaim_def)
  have inv: "inode_inv fst sample_fat ?st"
    by (simp add: inode_inv_def node_ok_def get_sub_dentry_def sample_fat_def entry_target_def less_Suc_eq all_conj_distrib eval_nat_numeral)
  obtain n st' where n: "get_sub_node sample_fat ?st 0 (i_name (nodes ?st ! 2)) = Some (Some n, st')" "n \<noteq> 2" "2 \<in> live st'" "n \<in> live st'"
    "node_path st' n = node_path st' 2"
    using inode_cache_duplicates[OF inv, of 0 1 2 "[]"] by auto
  have "get_sub_node sample_fat (reclaim 1 ?st2) 0 ''b'' = Some (Some n, st')" unfolding st using n(1) by simp
  with r1 r2 n(2-5) show ?thesis by blast
qed

section \<open>Reading a part of a file\<close>

text \<open>
  The contract of an open file of the library: seeking goes to the offset or, past the end, to the end;
  reading stores some of the bytes from the position on, and none only if there is nothing to read or no
  room (it stops at the end of a cluster).
\<close>

definition fat_file :: "'h FatFile \<Rightarrow> ('h \<Rightarrow> u8 list) \<Rightarrow> ('h \<Rightarrow> nat) \<Rightarrow> bool" where
  "fat_file ops content pos \<longleftrightarrow>
     (\<forall>f off. off < 2 ^ 32 \<longrightarrow> (\<exists>f'. h_seek ops f off = (Inr (min off (length (content f))), f') \<and> content f' = content f \<and>
        pos f' = min off (length (content f)))) \<and>
     (\<forall>f buf. \<exists>n f'. h_read ops f buf = (Inr n, take n (drop (pos f) (content f)) @ drop n buf, f') \<and> content f' = content f \<and>
        n \<le> min (length buf) (length (content f) - pos f) \<and> (n = 0 \<longrightarrow> min (length buf) (length (content f) - pos f) = 0))"

lemma read_off_ok:
  assumes "fat_file ops content pos" "off < 2 ^ 32"
  shows "\<exists>n f'. read_off ops (File f) buf off = Some (Inr n, take n (drop off (content f)) @ drop n buf, File f') \<and>
    content f' = content f \<and> n \<le> min (length buf) (length (content f) - off) \<and>
    (n = 0 \<longrightarrow> min (length buf) (length (content f) - off) = 0)"
proof -
  obtain f1 where f1: "h_seek ops f off = (Inr (min off (length (content f))), f1)" "content f1 = content f"
    "pos f1 = min off (length (content f))" using assms unfolding fat_file_def by metis
  obtain n f2 where f2: "h_read ops f1 buf = (Inr n, take n (drop (pos f1) (content f1)) @ drop n buf, f2)" "content f2 = content f1"
    "n \<le> min (length buf) (length (content f1) - pos f1)" "n = 0 \<longrightarrow> min (length buf) (length (content f1) - pos f1) = 0"
    using assms(1) unfolding fat_file_def by metis
  have "drop (min off (length (content f))) (content f) = drop off (content f)" by (simp add: min_def)
  then show ?thesis using f1 f2 by (simp add: read_off_def min_def split: if_splits)
qed

text \<open>Two pieces that follow each other are one piece.\<close>

lemma take_pieces:
  assumes "n \<le> length buf - bp" "bp \<le> length buf" "length (take n xs) = n"
  shows "take (bp + n) (take bp buf @ take n xs @ drop n (drop bp buf)) @ take j (drop n xs) @
     drop (bp + n + j) (take bp buf @ take n xs @ drop n (drop bp buf)) = take bp buf @ take (n + j) xs @ drop (bp + (n + j)) buf"
proof -
  have "length (take bp buf @ take n xs) = bp + n" using assms by simp
  then have "take (bp + n) ((take bp buf @ take n xs) @ drop n (drop bp buf)) = take bp buf @ take n xs"
    "drop (bp + n + j) ((take bp buf @ take n xs) @ drop n (drop bp buf)) = drop j (drop n (drop bp buf))" by simp_all
  moreover have "drop (bp + (n + j)) buf = drop j (drop n (drop bp buf))" by (simp add: ac_simps)
  ultimately show ?thesis by (simp only: append_assoc take_add)
qed

lemma read_off_loop_ok:
  assumes ff: "fat_file ops content pos"
  shows "bp \<le> length buf \<Longrightarrow> off + length buf < 2 ^ 32 \<Longrightarrow>
    (\<exists>f'. read_off_loop ops (File f :: ('d, 'h) InodeClass) buf off bp =
       (let k = min (length buf - bp) (length (content f) - (off + bp))
        in Some (Inr (bp + k), take bp buf @ take k (drop (off + bp) (content f)) @ drop (bp + k) buf, File f')) \<and> content f' = content f)"
proof (induction "length buf - bp" arbitrary: bp buf f rule: less_induct)
  case less
  show ?case
  proof (cases "bp < length buf")
    case False
    then show ?thesis using less.prems(1) by (subst read_off_loop.simps) (auto simp: Let_def)
  next
    case True
    let ?c = "content f"
    obtain n f1 where n: "read_off ops (File f :: ('d, 'h) InodeClass) (drop bp buf) (off + bp) = Some (Inr n, take n (drop (off + bp) ?c) @ drop n (drop bp buf), File f1)"
      "content f1 = ?c" "n \<le> min (length (drop bp buf)) (length ?c - (off + bp))"
      "n = 0 \<longrightarrow> min (length (drop bp buf)) (length ?c - (off + bp)) = 0"
      using read_off_ok[OF ff, of "off + bp" f "drop bp buf"] less.prems by auto
    have nn: "n \<le> length buf - bp" "n \<le> length ?c - (off + bp)" using n(3) by simp_all
    have "off + bp < 2 ^ 64" "bp + n < 2 ^ 64" using less.prems nn(1) by simp_all
    then have u: "uadd off bp = Some (off + bp)" "uadd bp n = Some (bp + n)" by (simp_all only: uadd_ok)
    let ?buf = "take bp buf @ take n (drop (off + bp) ?c) @ drop n (drop bp buf)"
    have run: "read_off_loop ops (File f :: ('d, 'h) InodeClass) buf off bp = (if n = 0 then Some (Inr bp, ?buf, File f1) else read_off_loop ops (File f1) ?buf off (bp + n))"
      using True n(1) u by (subst read_off_loop.simps) simp
    show ?thesis
    proof (cases "n = 0")
      case True
      have "min (length buf - bp) (length ?c - (off + bp)) = 0" using n(4) True by simp
      then show ?thesis using run True n(2) by (auto simp: Let_def)
    next
      case False
      have len: "length (take n (drop (off + bp) ?c)) = n" "length ?buf = length buf" using nn less.prems(1) by simp_all
      let ?j = "min (length buf - (bp + n)) (length ?c - (off + (bp + n)))"
      have "length ?buf - (bp + n) < length buf - bp" "bp + n \<le> length ?buf" "off + length ?buf < 2 ^ 32"
        unfolding len(2) using False \<open>bp < length buf\<close> nn(1) less.prems by linarith+
      from less.hyps[OF this, of f1] obtain f2 where f2: "read_off_loop ops (File f1 :: ('d, 'h) InodeClass) ?buf off (bp + n) =
          Some (Inr (bp + n + ?j), take (bp + n) ?buf @ take ?j (drop (off + (bp + n)) ?c) @ drop (bp + n + ?j) ?buf, File f2)"
        "content f2 = ?c" unfolding len(2) n(2) Let_def by blast
      have k: "min (length buf - bp) (length ?c - (off + bp)) = n + ?j" using nn by (simp add: min_def) linarith
      have "drop (off + (bp + n)) ?c = drop n (drop (off + bp) ?c)" by (simp add: add.commute add.left_commute)
      then have p: "take (bp + n) ?buf @ take ?j (drop (off + (bp + n)) ?c) @ drop (bp + n + ?j) ?buf =
          take bp buf @ take (n + ?j) (drop (off + bp) ?c) @ drop (bp + (n + ?j)) buf"
        using take_pieces[OF nn(1) less.prems(1) len(1), of ?j] by (simp only:)
      show ?thesis
        unfolding k Let_def by (rule exI[of _ f2]) (simp only: run False if_False f2 p[unfolded add.assoc] add.assoc simp_thms)
    qed
  qed
qed

text \<open>
  C26: \<^verbatim>\<open>read_off_exact\<close> returns, and it has then stored as many bytes of the file from the offset on as there are
  and as the buffer takes, also when the library reads in smaller pieces; the rest of the buffer is as it was.
\<close>

theorem read_off_exact_correct:
  assumes "fat_file ops content pos" "off + length buf < 2 ^ 32"
  shows "\<exists>f'. read_off_exact ops (File f) buf off =
      (let k = min (length buf) (length (content f) - off)
       in Some (Inr k, take k (drop off (content f)) @ drop k buf, File f')) \<and> content f' = content f"
  using read_off_loop_ok[OF assms(1), of 0 buf off f] assms(2) by (simp add: read_off_exact_def)

text \<open>A file in memory that is read in pieces of two bytes.\<close>

definition ram_file :: "(u8 list \<times> nat) FatFile" where
  "ram_file = \<lparr>h_seek = (\<lambda>(c, p) off. (Inr (min off (length c)), c, min off (length c))),
     h_read = (\<lambda>(c, p) buf. let n = min 2 (min (length buf) (length c - p)) in (Inr n, take n (drop p c) @ drop n buf, c, p + n)),
     h_write = (\<lambda>f buf. (Inl (), f))\<rparr>"

lemma ram_fat_file: "fat_file ram_file fst snd"
  by (auto simp: fat_file_def ram_file_def Let_def)

theorem read_off_exact_correct_witness:
  "\<exists>f. read_off_exact ram_file (File ([1, 2, 3, 4, 5, 6], 0)) (replicate 7 0) 1 = Some (Inr 5, [2, 3, 4, 5, 6, 0, 0], File f)"
proof -
  have "1 + length (replicate 7 (0 :: u8)) < 2 ^ 32" by simp
  from read_off_exact_correct[OF ram_fat_file this, of "([1, 2, 3, 4, 5, 6], 0)"]
  show ?thesis by (auto simp: Let_def eval_nat_numeral)
qed

end
