(* ===== verification/K_Fs_Props.thy ===== *)
theory K_Fs_Props
  imports K_Fs_Inv K_Task_Props K_Inode_Props
begin

text \<open>
  Properties of the descriptor calls: which descriptor is given out, how the writers of a pipe are counted,
  and what reading, writing and \<^verbatim>\<open>writev\<close> do on pipes and the terminal.
\<close>

section \<open>The lowest free descriptor\<close>

text \<open>
  C25: \<^verbatim>\<open>dup\<close> and \<^verbatim>\<open>fcntl(F_DUPFD)\<close> give out the lowest free descriptor, from 0 or from the argument on, and enter the
  file there and nowhere else; they return -1 and change nothing exactly if the descriptor is not open
  or no descriptor is free.
\<close>

theorem dup_lowest_free:
  assumes "RUNNING s = Some t" "lock_task s t = Some x" "length (opened x) < 2 ^ 63"
  shows "case get_opened x (fd_index fd) of
      None \<Rightarrow> do_dup fd None None s = Some (- 1, s) \<and> sys_fcntl (fd_index fd) F_DUPFD a s = Some (- 1, s)
    | Some f \<Rightarrow>
        (if \<exists>i < length (opened x). opened x ! i = None
         then \<exists>i < length (opened x). opened x ! i = None \<and> (\<forall>j < i. opened x ! j \<noteq> None) \<and>
           do_dup fd None None s = Some (int i, put_task s t (\<lambda>_. x\<lparr>opened := (opened x)[i := Some f]\<rparr>))
         else do_dup fd None None s = Some (- 1, s)) \<and>
        (if \<exists>i < length (opened x). a \<le> i \<and> opened x ! i = None
         then \<exists>i < length (opened x). a \<le> i \<and> opened x ! i = None \<and> (\<forall>j < i. a \<le> j \<longrightarrow> opened x ! j \<noteq> None) \<and>
           sys_fcntl (fd_index fd) F_DUPFD a s = Some (int i, put_task s t (\<lambda>_. x\<lparr>opened := (opened x)[i := Some f]\<rparr>))
         else sys_fcntl (fd_index fd) F_DUPFD a s = Some (- 1, s))"
proof (cases "get_opened x (fd_index fd)")
  case None
  then show ?thesis using assms by (simp add: do_dup_def sys_fcntl_def get_running_def)
next
  case (Some f)
  have isz: "as_isize i = int i" if "i < length (opened x)" for i using that assms(3) by (simp add: as_isize_def)
  have fc: "F_DUPFD \<noteq> F_DUPFD_CLOEXEC" by (simp add: F_DUPFD_def F_DUPFD_CLOEXEC_def)
  have d: "do_dup fd None None s = (case alloc_opened x f of (None, x) \<Rightarrow> Some (- 1, s) | (Some i, x) \<Rightarrow> Some (as_isize i, put_task s t (\<lambda>_. x)))"
    using assms(1,2) Some by (simp add: do_dup_def get_running_def)
  have e: "sys_fcntl (fd_index fd) F_DUPFD a s =
      (case alloc_opened_bigger_than x f a of (None, x) \<Rightarrow> Some (- 1, s) | (Some i, x) \<Rightarrow> Some (as_isize i, put_task s t (\<lambda>_. x)))"
    using assms(1,2) Some fc by (simp add: sys_fcntl_def get_running_def Let_def split: prod.split option.split)
  have "if \<exists>i < length (opened x). opened x ! i = None
         then \<exists>i < length (opened x). opened x ! i = None \<and> (\<forall>j < i. opened x ! j \<noteq> None) \<and>
           do_dup fd None None s = Some (int i, put_task s t (\<lambda>_. x\<lparr>opened := (opened x)[i := Some f]\<rparr>))
         else do_dup fd None None s = Some (- 1, s)"
    using alloc_opened_ok[of x f] isz unfolding d by auto
  moreover have "if \<exists>i < length (opened x). a \<le> i \<and> opened x ! i = None
         then \<exists>i < length (opened x). a \<le> i \<and> opened x ! i = None \<and> (\<forall>j < i. a \<le> j \<longrightarrow> opened x ! j \<noteq> None) \<and>
           sys_fcntl (fd_index fd) F_DUPFD a s = Some (int i, put_task s t (\<lambda>_. x\<lparr>opened := (opened x)[i := Some f]\<rparr>))
         else sys_fcntl (fd_index fd) F_DUPFD a s = Some (- 1, s)"
  proof (cases "a < length (opened x)")
    case True
    then show ?thesis using alloc_loop_ok[of a x f] isz unfolding e by (auto simp: alloc_opened_bigger_than_def)
  next
    case False
    then show ?thesis unfolding e by (auto simp: alloc_opened_bigger_than_def)
  qed
  ultimately show ?thesis using Some by simp
qed

text \<open>Two tasks with a root directory, the standard files and a pipe to try the calls on.\<close>

definition sample_fs :: "ino Sys" where
  "sample_fs = (empty_sys sample_kern \<lparr>private_pgs = []\<rparr> TaskContext_new 0)\<lparr>g_tid := 3,
     tasks := [(new_task 1 sample_stack None 0)\<lparr>opened := [Some 1, Some 2, None, None]\<rparr>, new_task 2 sample_stack None 0],
     dfiles := [from_inode 0 O_RDONLY, new_stdin, new_stdout], running_list := [0, 1], RUNNING := Some 0\<rparr>"

lemma sample_fs_simps [simp]:
  "RUNNING sample_fs = Some 0" "pipes sample_fs = []" "running_list sample_fs = [0, 1]" "locked sample_fs = {}"
  "dfiles sample_fs = [from_inode 0 O_RDONLY, new_stdin, new_stdout]"
  "tasks sample_fs = [(new_task 1 sample_stack None 0)\<lparr>opened := [Some 1, Some 2, None, None]\<rparr>, new_task 2 sample_stack None 0]"
  "lock_task sample_fs 0 = Some ((new_task 1 sample_stack None 0)\<lparr>opened := [Some 1, Some 2, None, None]\<rparr>)"
  by (simp_all add: sample_fs_def empty_sys_def lock_task_def vec_get_def)

theorem dup_lowest_free_witness:
  "RUNNING sample_fs = Some 0 \<and> do_dup 1 None None sample_fs =
     Some (2, put_task sample_fs 0 (\<lambda>_. (new_task 1 sample_stack None 0)\<lparr>opened := [Some 1, Some 2, Some 2, None]\<rparr>))"
proof -
  let ?x = "(new_task 1 sample_stack None 0)\<lparr>opened := [Some 1, Some 2, None, None]\<rparr> :: ino Task"
  have ex: "\<exists>i < length (opened ?x). opened ?x ! i = None" by (rule exI[of _ 2]) simp
  have g: "get_opened ?x (fd_index 1) = Some 2" by (simp add: fd_index_def get_opened_def)
  have h: "RUNNING sample_fs = Some 0" "lock_task sample_fs 0 = Some ?x" "length (opened ?x) < 2 ^ 63" by simp_all
  obtain i where i: "i < length (opened ?x)" "opened ?x ! i = None" "\<forall>j < i. opened ?x ! j \<noteq> None"
    "do_dup 1 None None sample_fs = Some (int i, put_task sample_fs 0 (\<lambda>_. ?x\<lparr>opened := (opened ?x)[i := Some 2]\<rparr>))"
    using dup_lowest_free[OF h, of 1 0, unfolded g option.case if_P[OF ex]] by blast
  have "i = 0 \<or> i = 1 \<or> i = 2 \<or> i = 3" using i(1) by auto
  then have "i = 2" using i(2) i(3)[rule_format, of 2] by auto
  then show ?thesis using i(4) by simp
qed

section \<open>The writers of a pipe\<close>





definition sample_pipe :: "ino Sys" where
  "sample_pipe = snd (the (sys_pipe 0x10000 0 sample_fs))"




lemma sample_pipe_simps:
  "length (pipes sample_pipe) = 1" "RUNNING sample_pipe = Some 0"
  "lock_task sample_pipe 0 = Some ((new_task 1 sample_stack None 0)\<lparr>opened := [Some 1, Some 2, Some 3, Some 4]\<rparr>)"
  by (simp_all add: sample_pipe_def sys_pipe_def df_new_pipe_def get_running_def Let_def lock_task_def vec_get_def alloc_opened_def
      user_write_def rassert_def uadd_def put_task_def)


section \<open>Waiting for a pipe\<close>

lemma sleep_wait_locked: "RUNNING s = Some t \<Longrightarrow> t \<in> locked s \<Longrightarrow> sleep_wait q s = None"
  by (simp add: sleep_wait_def get_running_def upd_task_def lock_task_def)

lemma rb_inv_edges:
  "rb_inv rb 0 \<Longrightarrow> rb_read rb buf = Some (0, rb, buf)"
  "rb_inv rb RING_BUFFER_SIZE \<Longrightarrow> rb_write rb buf = Some (0, rb)"
  by (simp_all add: rb_read_def rb_write_def available_read_eq available_write_eq)

text \<open>
  C28: \<^verbatim>\<open>read\<close> and \<^verbatim>\<open>write\<close> keep the lock of the running task during the transfer.  When the transfer has to wait, because
  the pipe is empty and has a writer, or is full, putting the task to sleep takes the same lock again:
  the kernel panics with \<^verbatim>\<open>Dead Lock!\<close>.
\<close>

theorem pipe_calls_panic:
  fixes s :: "ino Sys" and ops :: "'h FatFile" and ic :: "('d, 'h) Icache"
  assumes "RUNNING s = Some t" "lock_task s t = Some x" "get_opened x (fd_index fd) = Some f" "f < length (dfiles s)"
    "df_class (dfiles s ! f) = ClassPipe i" "i < length (pipes s)" "buf \<noteq> []"
  shows "(df_readable (dfiles s ! f) \<and> rb_inv (p_buffer (pipes s ! i)) 0 \<and> have_writer (pipes s ! i) \<longrightarrow>
      sys_read ops fd ptr buf ic s = None) \<and>
    (df_writeable (dfiles s ! f) \<and> rb_inv (p_buffer (pipes s ! i)) RING_BUFFER_SIZE \<longrightarrow>
      sys_write ops fd ptr buf ic s = None)"
proof -
  let ?s = "s\<lparr>locked := insert t (locked s)\<rparr>"
  have k: "keep_guard s t = Some ?s" using assms(2) by (simp add: keep_guard_def)
  have sl: "sleep_wait q (?s\<lparr>pipes := ps\<rparr>) = None" for q ps using assms(1) by (intro sleep_wait_locked[of _ t]) simp_all
  have "pipe_read i ?s buf 0 = None" if "rb_inv (p_buffer (pipes s ! i)) 0" "have_writer (pipes s ! i)"
    using that assms(6,7) sl by (subst pipe_read.simps) (simp add: vec_get_def rb_inv_edges Let_def)
  moreover have "pipe_write i ?s buf 0 = None" if "rb_inv (p_buffer (pipes s ! i)) RING_BUFFER_SIZE"
    using that assms(6,7) sl by (subst pipe_write.simps) (simp add: vec_get_def rb_inv_edges Let_def)
  ultimately show ?thesis
    using assms k by (auto simp: sys_read_def sys_write_def get_running_def df_read_def df_write_def vec_get_def)
qed

lemma sample_pipe_files:
  "length (dfiles sample_pipe) = 5" "dfiles sample_pipe ! 3 = df_new (ClassPipe 0) O_RDONLY"
  "p_buffer (pipes sample_pipe ! 0) = rb_new" "have_writer (pipes sample_pipe ! 0)"
  by (simp_all add: sample_pipe_def sys_pipe_def df_new_pipe_def get_running_def Let_def lock_task_def vec_get_def alloc_opened_def
      user_write_def rassert_def uadd_def put_task_def inc_write_def pipe_new_def have_writer_def)

theorem pipe_calls_panic_witness:
  "have_writer (pipes sample_pipe ! 0) \<and> sys_read ram_file 2 0x20000 [0, 0] (create_root (0 :: nat)) sample_pipe = None"
proof -
  let ?x = "(new_task 1 sample_stack None 0)\<lparr>opened := [Some 1, Some 2, Some 3, Some 4]\<rparr> :: ino Task"
  have "get_opened ?x (fd_index 2) = Some 3" by (simp add: fd_index_def get_opened_def)
  moreover have "rb_inv (p_buffer (pipes sample_pipe ! 0)) 0"
    by (simp add: sample_pipe_files rb_inv_def rb_new_def RING_BUFFER_SIZE_def)
  moreover have "df_class (dfiles sample_pipe ! 3) = ClassPipe 0" "df_readable (dfiles sample_pipe ! 3)"
    by (simp_all add: sample_pipe_files df_new_def df_readable_def of_readable_def of_contains_def O_RDONLY_def O_WRONLY_def)
  ultimately show ?thesis
    using pipe_calls_panic[OF sample_pipe_simps(2,3), of 2 3 0 "[0, 0]" ram_file "0x20000" "create_root (0 :: nat)"]
      sample_pipe_files sample_pipe_simps(1) by simp
qed

section \<open>Writing several buffers\<close>

lemma terminal_write_loop_concat: "concat (terminal_write_loop i buf con) = concat con @ drop i buf"
proof (induction i buf con rule: terminal_write_loop.induct)
  case (1 i buf con)
  let ?n = "min TERMINAL_INTER_BUF_LEN (length buf - i)"
  show ?case
  proof (cases "i < length buf")
    case True
    have "concat (terminal_write_loop i buf con) = concat (terminal_write_loop (i + ?n) buf (con @ [take ?n (drop i buf)]))"
      using True by (subst terminal_write_loop.simps) (simp add: Let_def)
    also have "\<dots> = concat con @ take ?n (drop i buf) @ drop ?n (drop i buf)"
      using 1[OF True refl] by (simp add: drop_drop add.commute)
    finally show ?thesis by (simp only: append_take_drop_id)
  qed (subst terminal_write_loop.simps, simp)
qed

text \<open>
  \<^verbatim>\<open>writev\<close> takes the number of buffers, its third argument, for the number of bytes: with a first buffer of at
  least that many bytes it prints only so many of them, nothing of the other buffers, and returns their
  number.
\<close>

theorem writev_counts_buffers:
  fixes s :: "ino Sys" and ops :: "'h FatFile" and ic :: "('d, 'h) Icache"
  assumes "RUNNING s = Some t" "lock_task s t = Some x" "get_opened x (fd_index fd) = Some f"
    "f < length (dfiles s)" "dfiles s ! f = new_stdout" "0 < iovcnt" "iovcnt \<le> length (iov 0)" "iovcnt < 2 ^ 63"
  shows "\<exists>con. sys_writev ops fd iov iovcnt ic s = Some (Ret (int iovcnt) ic (s\<lparr>out := con\<rparr>)) \<and>
    concat con = concat (out s) @ take iovcnt (iov 0)"
proof -
  let ?con = "terminal_write_loop 0 (take iovcnt (iov 0)) (out s)"
  have w: "df_write ops f (take iovcnt (iov 0)) ic s = Some (Io (Inr iovcnt) (take iovcnt (iov 0)) ic (s\<lparr>out := ?con\<rparr>))"
    using assms(4,5,7) by (simp add: df_write_def vec_get_def new_stdout_def df_new_def df_writeable_def flags_write terminal_write_def Let_def)
  have e: "writev_loop ops f iov 1 0 iovcnt ic z = Some (Ret (as_isize iovcnt) ic z)" for z
    by (subst writev_loop.simps) simp
  have "writev_loop ops f iov 0 iovcnt iovcnt ic s = Some (Ret (as_isize iovcnt) ic (s\<lparr>out := ?con\<rparr>))"
    using assms(6,7) w e by (subst writev_loop.simps) (simp add: Let_def rassert_def)
  moreover have "as_isize iovcnt = int iovcnt" using assms(8) by (simp add: as_isize_def)
  ultimately show ?thesis
    using assms(1-3) terminal_write_loop_concat[of 0 "take iovcnt (iov 0)" "out s"]
    by (intro exI[of _ ?con]) (simp add: sys_writev_def get_running_def)
qed

theorem writev_counts_buffers_witness:
  "\<exists>con. sys_writev ram_file 1 (\<lambda>_. [104, 105, 33]) 2 (create_root (0 :: nat)) sample_fs = Some (Ret 2 (create_root 0) (sample_fs\<lparr>out := con\<rparr>)) \<and>
     concat con = [104, 105]"
proof -
  let ?x = "(new_task 1 sample_stack None 0)\<lparr>opened := [Some 1, Some 2, None, None]\<rparr> :: ino Task"
  have "get_opened ?x (fd_index 1) = Some 2" by (simp add: fd_index_def get_opened_def)
  moreover have "out sample_fs = []" by (simp add: sample_fs_def empty_sys_def)
  ultimately show ?thesis
    using writev_counts_buffers[of sample_fs 0 ?x 1 2 2 "\<lambda>_. [104, 105, 33]" ram_file "create_root (0 :: nat)"] by simp
qed

end
