(* ===== verification/K_Stat.thy ===== *)
theory K_Stat
  imports K_Fs_Calls
begin

text \<open>
  \<^verbatim>\<open>sys_newfstatat\<close> of \<^verbatim>\<open>kernel/src/syscall/sys_fs.rs\<close> with \<^verbatim>\<open>fill_stat\<close> of \<^verbatim>\<open>kernel/src/fs/dfile.rs\<close>, \<^verbatim>\<open>NewStat\<close> of
  \<^verbatim>\<open>kernel/src/task/info.rs\<close> and the dates of \<^verbatim>\<open>kernel/src/utils.rs\<close>.
\<close>

unbundle bit_operations_syntax

section \<open>Dates\<close>

text \<open>The dates of the FAT library: 16-bit numbers, as they are stored in the directory.\<close>

record Date =
  d_year :: nat
  d_month :: nat
  d_day :: nat

record DateTime =
  dt_date :: Date
  dt_hour :: nat
  dt_min :: nat
  dt_sec :: nat

definition Date_decode :: "u16 \<Rightarrow> Date" where
  "Date_decode dos_date =
     \<lparr>d_year = unat (drop_bit 9 dos_date) + 1980, d_month = unat (drop_bit 5 dos_date AND 0xF), d_day = unat (dos_date AND 0x1F)\<rparr>"

definition D_SECOND :: nat where "D_SECOND = 3600 * 24"
definition M_SECOND :: nat where "M_SECOND = D_SECOND * 30"
definition Y_SECOND :: nat where "Y_SECOND = D_SECOND * 365"

definition date2second :: "Date \<Rightarrow> nat run" where
  "date2second x = do {
     y \<leftarrow> usub (d_year x) 1970;
     m \<leftarrow> usub (d_month x) 1;
     d \<leftarrow> usub (d_day x) 1;
     Some (y * Y_SECOND + m * M_SECOND + d * D_SECOND)
   }"

definition datetime2second :: "DateTime \<Rightarrow> nat run" where
  "datetime2second x = do {
     datesecond \<leftarrow> date2second (dt_date x);
     Some (datesecond + (dt_hour x * 3600 + dt_min x * 60 + dt_sec x))
   }"

section \<open>The structure\<close>

record NewStat =
  st_dev :: u64
  st_ino :: u64
  st_mode :: u32
  st_nlink :: u32
  st_uid :: u32
  st_gid :: u32
  st_blksize :: u64
  st_blocks :: u64
  st_size :: u64
  st_atime_sec :: u64
  st_atime_nsec :: u64
  st_mtime_sec :: u64
  st_mtime_nsec :: u64
  st_ctime_sec :: u64
  st_ctime_nsec :: u64

definition NewStat_empty :: NewStat where
  "NewStat_empty = \<lparr>st_dev = 0, st_ino = 0, st_mode = 0, st_nlink = 0, st_uid = 0, st_gid = 0, st_blksize = 512, st_blocks = 0,
     st_size = 0, st_atime_sec = 0, st_atime_nsec = 0, st_mtime_sec = 0, st_mtime_nsec = 0, st_ctime_sec = 0, st_ctime_nsec = 0\<rparr>"

definition fill_info :: "u64 \<Rightarrow> u64 \<Rightarrow> u32 \<Rightarrow> u64 \<Rightarrow> u64 \<Rightarrow> u64 \<Rightarrow> u64 \<Rightarrow> u64 \<Rightarrow> NewStat \<Rightarrow> NewStat run" where
  "fill_info dev ino mode nlink sz atime mtime ctime st = do {
     a \<leftarrow> uadd (unat sz) (unat (st_blksize st));
     b \<leftarrow> usub a 1;
     blocks \<leftarrow> udiv b (unat (st_blksize st));
     Some \<lparr>st_dev = dev, st_ino = ino, st_mode = mode, st_nlink = ucast nlink, st_uid = 0, st_gid = 0, st_blksize = st_blksize st,
       st_blocks = of_nat blocks, st_size = sz, st_atime_sec = atime, st_atime_nsec = 0, st_mtime_sec = mtime, st_mtime_nsec = 0,
       st_ctime_sec = ctime, st_ctime_nsec = 0\<rparr>
   }"

definition le_bytes :: "nat \<Rightarrow> nat \<Rightarrow> u8 list" where
  "le_bytes n v = map (\<lambda>j. of_nat (v div 256 ^ j)) [0..<n]"

text \<open>The structure has the layout of C, without gaps.\<close>

definition stat_as_bytes :: "NewStat \<Rightarrow> u8 list" where
  "stat_as_bytes st = concat (
     map (le_bytes 8) [unat (st_dev st), unat (st_ino st)] @
     map (le_bytes 4) [unat (st_mode st), unat (st_nlink st), unat (st_uid st), unat (st_gid st)] @
     map (le_bytes 8) [unat (st_blksize st), unat (st_blocks st), unat (st_size st), unat (st_atime_sec st), unat (st_atime_nsec st),
       unat (st_mtime_sec st), unat (st_mtime_nsec st), unat (st_ctime_sec st), unat (st_ctime_nsec st)])"

section \<open>The call\<close>

definition S_IFREG :: u32 where "S_IFREG = 0x8000"
definition S_IFDIR :: u32 where "S_IFDIR = 0x4000"
definition S_IRWX :: u32 where "S_IRWX = 0x1FF"

text \<open>What the FAT library says of an entry, and \<^verbatim>\<open>get_dentry\<close>, which looks the node up again in its parent.\<close>

record 'e FatAttr =
  at_len :: "'e \<Rightarrow> u64"
  at_accessed :: "'e \<Rightarrow> Date"
  at_modified :: "'e \<Rightarrow> DateTime"
  at_created :: "'e \<Rightarrow> DateTime"

definition get_dentry :: "('d, 'e, 'h) FatLib \<Rightarrow> ('d, 'h) Icache \<Rightarrow> ino \<Rightarrow> 'e run" where
  "get_dentry fs ic n = do {
     x \<leftarrow> vec_get (nodes ic) n;
     p \<leftarrow> i_parent x;
     y \<leftarrow> vec_get (nodes ic) p;
     (case i_class y of
        Dir dir \<Rightarrow> do { r \<leftarrow> get_sub_dentry fs dir (i_name x); r }
      | File _ \<Rightarrow> None)
   }"

text \<open>\<open>addr\<close> is where an index node is in memory.\<close>

definition fill_stat ::
    "('d, 'e, 'h) FatLib \<Rightarrow> 'e FatAttr \<Rightarrow> (ino \<Rightarrow> usize) \<Rightarrow> ('d, 'h) Icache \<Rightarrow> ino DFile \<Rightarrow> NewStat \<Rightarrow> (unit + NewStat) run" where
  "fill_stat fs fa addr ic d st =
     (case df_class d of
        ClassInode n \<Rightarrow> do {
          x \<leftarrow> vec_get (nodes ic) n;
          (if i_parent x \<noteq> None
           then do {
             e \<leftarrow> get_dentry fs ic n;
             let mode = (if ff_is_dir fs e then S_IFDIR OR S_IRWX else S_IFREG OR S_IRWX);
             no \<leftarrow> usub (addr n) DIRECT_MAP_START;
             a \<leftarrow> date2second (at_accessed fa e);
             m \<leftarrow> datetime2second (at_modified fa e);
             c \<leftarrow> datetime2second (at_created fa e);
             st \<leftarrow> fill_info 0 (of_nat no) mode 1 (at_len fa e) (of_nat a) (of_nat m) (of_nat c) st;
             Some (Inr st)
           }
           else do {
             st \<leftarrow> fill_info 0 1 (S_IFDIR OR S_IRWX) 1 0 1000 1000 1000 st;
             Some (Inr st)
           })
        }
      | _ \<Rightarrow> Some (Inl ()))"

definition sys_newfstatat ::
    "('d, 'e, 'h) FatLib \<Rightarrow> 'e FatAttr \<Rightarrow> (ino \<Rightarrow> usize) \<Rightarrow> int \<Rightarrow> string \<Rightarrow> usize \<Rightarrow> ('d, 'h) Icache \<Rightarrow> ino Sys \<Rightarrow>
     (int \<times> ('d, 'h) Icache \<times> ino Sys) run" where
  "sys_newfstatat fs fa addr fd path buf ic s = do {
     cur \<leftarrow> get_running s;
     x \<leftarrow> lock_task s cur;
     (case (if fd = AT_FDCWD then Some (pwd_dfile x) else get_opened x (fd_index fd)) of
        None \<Rightarrow> Some (- 2, ic, s)
      | Some f \<Rightarrow> do {
          dirfile \<leftarrow> vec_get (dfiles s) f;
          (r, ic) \<leftarrow> open_path fs ic dirfile path O_RDONLY;
          (case r of
             None \<Rightarrow> Some (- 2, ic, s)
           | Some file \<Rightarrow> do {
               r \<leftarrow> fill_stat fs fa addr ic file NewStat_empty;
               (case r of
                  Inl _ \<Rightarrow> Some (- 1, ic, s)
                | Inr stat \<Rightarrow> do {
                    _ \<leftarrow> uadd buf (length (stat_as_bytes stat));
                    s \<leftarrow> user_write buf 1 (stat_as_bytes stat) s;
                    Some (0, ic, s)
                  })
             })
        })
   }"

section \<open>What it reports\<close>

lemma stat_as_bytes_length: "length (stat_as_bytes st) = 104"
  by (simp add: stat_as_bytes_def le_bytes_def)

text \<open>The blocks of 512 bytes that hold the size are counted, unless it is close to the largest number.\<close>

lemma fill_info_blocks:
  assumes "unat sz + 512 < 2 ^ 64"
  shows "\<exists>st. fill_info dev no mode 1 sz a m c NewStat_empty = Some st \<and> st_size st = sz \<and> st_mode st = mode \<and> st_nlink st = 1 \<and>
    unat (st_blocks st) = (511 + unat sz) div 512 \<and> 512 * unat (st_blocks st) \<ge> unat sz \<and> 512 * unat (st_blocks st) < unat sz + 512"
proof -
  have b: "(511 + unat sz) div 512 < 2 ^ 64" using assms by (intro order_le_less_trans[OF div_le_dividend]) simp
  then have u: "unat (of_nat ((511 + unat sz) div 512) :: u64) = (511 + unat sz) div 512" by (simp add: unat_of_nat)
  have "(unat sz + 512 - 1) = 511 + unat sz" by simp
  then have "fill_info dev no mode 1 sz a m c NewStat_empty = Some \<lparr>st_dev = dev, st_ino = no, st_mode = mode, st_nlink = ucast (1 :: u64),
      st_uid = 0, st_gid = 0, st_blksize = 512, st_blocks = of_nat ((511 + unat sz) div 512), st_size = sz, st_atime_sec = a,
      st_atime_nsec = 0, st_mtime_sec = m, st_mtime_nsec = 0, st_ctime_sec = c, st_ctime_nsec = 0\<rparr>"
    using assms by (simp add: fill_info_def NewStat_empty_def uadd_def usub_def udiv_def)
  moreover have "unat sz \<le> 512 * ((511 + unat sz) div 512)" "512 * ((511 + unat sz) div 512) < unat sz + 512"
    using mult_div_mod_eq[of 512 "511 + unat sz"] mod_less_divisor[of 512 "511 + unat sz"] by linarith+
  ultimately show ?thesis using u by (intro exI conjI) (assumption, simp_all)
qed

text \<open>
  Every month is counted as 30 days, so that the last day of a month of 31 days and the first of the next one are the same;
  and a date that the directory does not have, stored as 0, stops the kernel.
\<close>

lemma date_collides:
  "d_day x = 31 \<Longrightarrow> 1 \<le> d_month x \<Longrightarrow> 1970 \<le> d_year x \<Longrightarrow> date2second x = date2second (x\<lparr>d_month := d_month x + 1, d_day := 1\<rparr>)"
  by (cases "d_month x") (simp_all add: date2second_def usub_def M_SECOND_def D_SECOND_def)

lemma unset_date_panics:
  assumes "df_class d = ClassInode n" "n < length (nodes ic)" "i_parent (nodes ic ! n) \<noteq> None" "get_dentry fs ic n = Some e"
    "at_accessed fa e = Date_decode 0"
  shows "fill_stat fs fa addr ic d st = None"
proof -
  have "date2second (Date_decode 0) = None" by (simp add: date2second_def Date_decode_def usub_def)
  then show ?thesis using assms by (cases "usub (addr n) DIRECT_MAP_START") (simp_all add: fill_stat_def vec_get_def)
qed

end
