(* ===== verification/K_Lock.thy ===== *)
theory K_Lock
  imports K_Rust
begin

text \<open>
  \<^verbatim>\<open>kernel/src/sync/mod.rs\<close>: spin locks on one processor, with \<^verbatim>\<open>intr_disable\<close> and \<^verbatim>\<open>intr_enable\<close> of
  \<^verbatim>\<open>kernel/src/asm/riscv.asm\<close>, and the interrupts that can come in between.  A lock is named by a value of \<open>'l\<close>;
  \<open>held\<close> has the locks whose flag is set.
\<close>

unbundle bit_operations_syntax

section \<open>Locks and guards\<close>

record 'l Cpu =
  sstatus :: u64
  held :: "'l set"

record 'l SpinLockGuard =
  g_spinlock :: 'l
  g_irq_lock :: bool
  g_irq_state :: u64

definition SIE :: u64 where "SIE = 2"

definition disable_irq :: "'l Cpu \<Rightarrow> u64 \<times> 'l Cpu" where
  "disable_irq c = (sstatus c, c\<lparr>sstatus := sstatus c AND NOT SIE\<rparr>)"

definition enable_irq :: "u64 \<Rightarrow> 'l Cpu \<Rightarrow> 'l Cpu" where
  "enable_irq v c = c\<lparr>sstatus := v\<rparr>"

text \<open>
  The loop that waits for a lock.  Nothing else runs on the processor that could release it, so each load sees the
  same; \<^verbatim>\<open>try_count\<close> is an \<^verbatim>\<open>i32\<close>.
\<close>

partial_function (option) spin :: "nat \<Rightarrow> bool \<Rightarrow> unit option" where
  "spin try_count inner =
     (if inner then if try_count + 1 = 0x100000 then None else spin (try_count + 1) inner else Some ())"

definition try_lock :: "'l \<Rightarrow> 'l Cpu \<Rightarrow> 'l Cpu run" where
  "try_lock l c = do {
     _ \<leftarrow> spin 0 (l \<in> held c);
     Some (c\<lparr>held := insert l (held c)\<rparr>)
   }"

definition lock :: "'l \<Rightarrow> 'l Cpu \<Rightarrow> ('l SpinLockGuard \<times> 'l Cpu) run" where
  "lock l c = do {
     c \<leftarrow> try_lock l c;
     Some (\<lparr>g_spinlock = l, g_irq_lock = False, g_irq_state = 0\<rparr>, c)
   }"

definition lock_irq :: "'l \<Rightarrow> 'l Cpu \<Rightarrow> ('l SpinLockGuard \<times> 'l Cpu) run" where
  "lock_irq l c = do {
     let (irq_state, c) = disable_irq c;
     c \<leftarrow> try_lock l c;
     Some (\<lparr>g_spinlock = l, g_irq_lock = True, g_irq_state = irq_state\<rparr>, c)
   }"

definition drop_lock :: "'l SpinLockGuard \<Rightarrow> 'l Cpu \<Rightarrow> 'l Cpu" where
  "drop_lock g c =
     (let c = c\<lparr>held := held c - {g_spinlock g}\<rparr>
      in if g_irq_lock g then enable_irq (g_irq_state g) c else c)"

text \<open>The loop never gives a held lock: it panics.\<close>

lemma spin_held: "n < 0x100000 \<Longrightarrow> spin n True = None"
proof (induction "0x100000 - n" arbitrary: n)
  case (Suc d)
  show ?case
  proof (cases "n + 1 = 0x100000")
    case False
    then have "spin (n + 1) True = None" using Suc by (intro Suc.hyps(1)) simp_all
    then show ?thesis using False by (subst spin.simps) simp
  qed (subst spin.simps, simp)
qed simp

lemma try_lock_eq: "try_lock l c = (if l \<in> held c then None else Some (c\<lparr>held := insert l (held c)\<rparr>))"
proof (cases "l \<in> held c")
  case True
  then show ?thesis using spin_held[of 0] by (simp add: try_lock_def)
next
  case False
  then show ?thesis by (simp add: try_lock_def spin.simps[of 0 False])
qed

section \<open>Kernel code and interrupts\<close>

text \<open>
  What kernel code does with locks: take one either way, or drop the guard at a position, the newest first.  An interrupt
  comes only while \<open>SIE\<close> is set; its handler takes the locks \<open>hs\<close> one after the other, each for one statement, and leaves
  the processor as it found it.
\<close>

datatype 'l lock_op = Take 'l | Take_irq 'l | Drop nat

fun lock_step :: "'l lock_op \<Rightarrow> 'l SpinLockGuard list \<times> 'l Cpu \<Rightarrow> ('l SpinLockGuard list \<times> 'l Cpu) run" where
  "lock_step (Take l) (gs, c) = do { (g, c) \<leftarrow> lock l c; Some (g # gs, c) }"
| "lock_step (Take_irq l) (gs, c) = do { (g, c) \<leftarrow> lock_irq l c; Some (g # gs, c) }"
| "lock_step (Drop i) (gs, c) = do { g \<leftarrow> vec_get gs i; Some (take i gs @ drop (i + 1) gs, drop_lock g c) }"

text \<open>
  The locks of a handler, in the order in which it takes them.  This abstracts from the handler: each lock is taken with
  \<^verbatim>\<open>lock_irq\<close> and given back at once, while the scheduler that the timer calls takes the run queue with \<^verbatim>\<open>lock\<close> and
  holds it while it takes others.  For the question here, whether a lock is free when the handler asks for it, only
  the locks held by the code that was interrupted matter.
\<close>

fun handler_locks :: "'l list \<Rightarrow> 'l Cpu \<Rightarrow> 'l Cpu run" where
  "handler_locks [] c = Some c"
| "handler_locks (l # ls) c = do { (g, c) \<leftarrow> lock_irq l c; handler_locks ls (drop_lock g c) }"

definition interrupt :: "'l list \<Rightarrow> 'l Cpu \<Rightarrow> 'l Cpu run" where
  "interrupt hs c =
     (if sstatus c AND SIE = 0 then Some c
      else do {
        let saved = sstatus c;
        c \<leftarrow> handler_locks hs (c\<lparr>sstatus := sstatus c AND NOT SIE\<rparr>);
        Some (c\<lparr>sstatus := saved\<rparr>)
      })"

fun run_ops :: "'l lock_op list \<Rightarrow> 'l SpinLockGuard list \<times> 'l Cpu \<Rightarrow> ('l SpinLockGuard list \<times> 'l Cpu) run" where
  "run_ops [] st = Some st"
| "run_ops (x # xs) st = do { st \<leftarrow> lock_step x st; run_ops xs st }"

lemma handler_ok: "set hs \<inter> held c = {} \<Longrightarrow> handler_locks hs c = Some c"
proof (induction hs arbitrary: c)
  case (Cons l ls)
  have "lock_irq l c = Some (\<lparr>g_spinlock = l, g_irq_lock = True, g_irq_state = sstatus c\<rparr>,
      c\<lparr>sstatus := sstatus c AND NOT SIE, held := insert l (held c)\<rparr>)"
    using Cons.prems by (simp add: lock_irq_def disable_irq_def try_lock_eq)
  moreover have "drop_lock \<lparr>g_spinlock = l, g_irq_lock = True, g_irq_state = sstatus c\<rparr>
      (c\<lparr>sstatus := sstatus c AND NOT SIE, held := insert l (held c)\<rparr>) = c"
    using Cons.prems by (cases c) (simp add: drop_lock_def enable_irq_def)
  ultimately show ?case using Cons by simp
qed simp

lemma handler_panics: "l \<in> set hs \<Longrightarrow> l \<in> held c \<Longrightarrow> handler_locks hs c = None"
proof (induction hs arbitrary: c)
  case (Cons k ks)
  show ?case
  proof (cases "k \<in> held c")
    case True
    then show ?thesis by (simp add: lock_irq_def disable_irq_def try_lock_eq)
  next
    case False
    have "lock_irq k c = Some (\<lparr>g_spinlock = k, g_irq_lock = True, g_irq_state = sstatus c\<rparr>,
        c\<lparr>sstatus := sstatus c AND NOT SIE, held := insert k (held c)\<rparr>)"
      using False by (simp add: lock_irq_def disable_irq_def try_lock_eq)
    moreover have "l \<in> held (drop_lock \<lparr>g_spinlock = k, g_irq_lock = True, g_irq_state = sstatus c\<rparr>
        (c\<lparr>sstatus := sstatus c AND NOT SIE, held := insert k (held c)\<rparr>))"
      using Cons.prems False by (auto simp: drop_lock_def enable_irq_def Let_def)
    moreover have "l \<in> set ks" using Cons.prems False by auto
    ultimately show ?thesis using Cons.IH by simp
  qed
qed simp

lemma interrupt_iff:
  "interrupt hs c = (if sstatus c AND SIE \<noteq> 0 \<and> set hs \<inter> held c \<noteq> {} then None else Some c)"
proof (cases "sstatus c AND SIE = 0")
  case False
  let ?c = "c\<lparr>sstatus := sstatus c AND NOT SIE\<rparr>"
  show ?thesis
  proof (cases "set hs \<inter> held c = {}")
    case True
    then show ?thesis using False handler_ok[of hs ?c] by (simp add: interrupt_def)
  next
    case N: False
    then obtain l where "l \<in> set hs" "l \<in> held ?c" by auto
    then show ?thesis using False N handler_panics[of l hs ?c] by (simp add: interrupt_def)
  qed
qed (simp add: interrupt_def)

section \<open>The discipline\<close>

definition level :: "u64 \<Rightarrow> 'l SpinLockGuard list \<Rightarrow> u64" where
  "level s0 gs = (if list_ex g_irq_lock gs then s0 AND NOT SIE else s0)"

fun saved_ok :: "u64 \<Rightarrow> 'l SpinLockGuard list \<Rightarrow> bool" where
  "saved_ok s0 [] = True"
| "saved_ok s0 (g # gs) \<longleftrightarrow> (g_irq_lock g \<longrightarrow> g_irq_state g = level s0 gs) \<and> saved_ok s0 gs"

definition lock_inv :: "'l set \<Rightarrow> u64 \<Rightarrow> 'l SpinLockGuard list \<times> 'l Cpu \<Rightarrow> bool" where
  "lock_inv H s0 st \<longleftrightarrow>
     (case st of (gs, c) \<Rightarrow> sstatus c = level s0 gs \<and> saved_ok s0 gs \<and> held c = g_spinlock ` set gs \<and>
        distinct (map g_spinlock gs) \<and> (\<forall>g \<in> set gs. \<not> g_irq_lock g \<longrightarrow> g_spinlock g \<notin> H))"

definition disciplined :: "'l set \<Rightarrow> 'l lock_op \<Rightarrow> bool" where
  "disciplined H x \<longleftrightarrow> (case x of Take l \<Rightarrow> l \<notin> H | Take_irq l \<Rightarrow> True | Drop i \<Rightarrow> i = 0)"

lemma lock_inv_step:
  assumes "lock_inv H s0 (gs, c)" "disciplined H x" "lock_step x (gs, c) = Some (gs', c')"
  shows "lock_inv H s0 (gs', c')"
proof (cases x)
  case (Take l)
  then have "l \<notin> held c" "gs' = \<lparr>g_spinlock = l, g_irq_lock = False, g_irq_state = 0\<rparr> # gs" "c' = c\<lparr>held := insert l (held c)\<rparr>"
    using assms(3) by (auto simp: lock_def try_lock_eq split: if_splits)
  then show ?thesis using assms(1,2) Take by (auto simp: lock_inv_def level_def disciplined_def)
next
  case (Take_irq l)
  then have e: "l \<notin> held c" "gs' = \<lparr>g_spinlock = l, g_irq_lock = True, g_irq_state = sstatus c\<rparr> # gs"
    "c' = c\<lparr>sstatus := sstatus c AND NOT SIE, held := insert l (held c)\<rparr>"
    using assms(3) by (auto simp: lock_irq_def disable_irq_def try_lock_eq split: if_splits)
  have "level s0 gs AND NOT SIE = s0 AND NOT SIE" by (simp add: level_def and.assoc)
  then show ?thesis using assms(1) e by (auto simp: lock_inv_def level_def)
next
  case (Drop i)
  then obtain g where g: "gs = g # gs'" "c' = drop_lock g c"
    using assms(2,3) by (cases gs) (auto simp: disciplined_def vec_get_def split: if_splits)
  have "sstatus c' = level s0 gs'" using assms(1) g by (auto simp: lock_inv_def drop_lock_def enable_irq_def level_def Let_def)
  moreover have "held c' = held c - {g_spinlock g}" using g(2) by (simp add: drop_lock_def enable_irq_def Let_def)
  ultimately show ?thesis using assms(1) g(1) by (auto simp: lock_inv_def)
qed

lemma lock_inv_run:
  assumes "\<forall>x \<in> set xs. disciplined H x" "lock_inv H s0 st" "run_ops xs st = Some st'"
  shows "lock_inv H s0 st'"
  using assms
proof (induction xs arbitrary: st)
  case (Cons x xs)
  obtain st1 where st1: "lock_step x st = Some st1" "run_ops xs st1 = Some st'" using Cons.prems(3) by (auto simp: bind_eq_Some_conv)
  then have "lock_inv H s0 st1" using lock_inv_step[of H s0 "fst st" "snd st" x "fst st1" "snd st1"] Cons.prems by simp
  then show ?case using Cons st1(2) by simp
qed simp

lemma lock_inv_interrupt:
  assumes "lock_inv (set hs) s0 (gs, c)"
  shows "interrupt hs c = Some c"
proof (cases "list_ex g_irq_lock gs")
  case True
  have "(s0 AND NOT SIE) AND SIE = 0" by (simp add: and.assoc)
  then show ?thesis using assms True by (simp add: lock_inv_def level_def interrupt_iff)
next
  case False
  then have "set hs \<inter> held c = {}" using assms by (auto simp: lock_inv_def list_ex_iff)
  then show ?thesis by (simp add: interrupt_iff)
qed

text \<open>
  C21: When kernel code takes the locks of the interrupt handler only with \<^verbatim>\<open>lock_irq\<close> and drops guards in the opposite order,
  an interrupt at any point of it finds its locks free, and at the end the interrupt flag is as before.  Either condition
  is needed: a lock of the handler that is taken with \<^verbatim>\<open>lock\<close> while interrupts are on, and a guard that is dropped before a
  newer one, let an interrupt run into \<^verbatim>\<open>Dead Lock!\<close>.
\<close>

theorem irq_lock_discipline:
  assumes "held c0 = {}" "sstatus c0 AND SIE \<noteq> 0" "a \<noteq> b" "b \<in> set hs"
  shows "(\<forall>ops gs c. (\<forall>x \<in> set ops. disciplined (set hs) x) \<and> run_ops ops ([], c0) = Some (gs, c) \<longrightarrow>
      interrupt hs c = Some c \<and> (gs = [] \<longrightarrow> c = c0)) \<and>
    (\<exists>gs c. run_ops [Take b] ([], c0) = Some (gs, c) \<and> interrupt hs c = None) \<and>
    (\<exists>gs c. run_ops [Take_irq a, Take_irq b, Drop 1] ([], c0) = Some (gs, c) \<and> interrupt hs c = None)"
proof (intro conjI allI impI)
  fix ops gs c assume r: "(\<forall>x \<in> set ops. disciplined (set hs) x) \<and> run_ops ops ([], c0) = Some (gs, c)"
  have "lock_inv (set hs) (sstatus c0) ([], c0)" using assms(1) by (simp add: lock_inv_def level_def)
  then have inv: "lock_inv (set hs) (sstatus c0) (gs, c)" using lock_inv_run r by blast
  then show "interrupt hs c = Some c" by (rule lock_inv_interrupt)
  show "c = c0" if "gs = []" using inv that assms(1) by (cases c, cases c0) (simp add: lock_inv_def level_def)
next
  show "\<exists>gs c. run_ops [Take b] ([], c0) = Some (gs, c) \<and> interrupt hs c = None"
    using assms by (auto simp: lock_def try_lock_eq interrupt_iff)
  show "\<exists>gs c. run_ops [Take_irq a, Take_irq b, Drop 1] ([], c0) = Some (gs, c) \<and> interrupt hs c = None"
    using assms by (auto simp: lock_irq_def disable_irq_def try_lock_eq vec_get_def drop_lock_def enable_irq_def interrupt_iff Let_def)
qed

theorem irq_lock_discipline_witness:
  "interrupt [1 :: nat] \<lparr>sstatus = 2, held = {}\<rparr> = Some \<lparr>sstatus = 2, held = {}\<rparr> \<and>
   (\<exists>gs c. run_ops [Take 1] ([], \<lparr>sstatus = 2, held = {}\<rparr>) = Some (gs, c) \<and> interrupt [1 :: nat] c = None)"
proof -
  let ?c = "\<lparr>sstatus = 2, held = {}\<rparr> :: nat Cpu"
  have h: "held ?c = {}" "sstatus ?c AND SIE \<noteq> 0" "(0 :: nat) \<noteq> 1" "(1 :: nat) \<in> set [1]" by (simp_all add: SIE_def)
  note d = irq_lock_discipline[OF h]
  have "interrupt [1] ?c = Some ?c" using d[THEN conjunct1, rule_format, of "[]" "[]" ?c] by simp
  moreover have "\<exists>gs c. run_ops [Take 1] ([], ?c) = Some (gs, c) \<and> interrupt [1 :: nat] c = None" using d[THEN conjunct2, THEN conjunct1] .
  ultimately show ?thesis by blast
qed

end
