(* ===== verification/C_Rand.thy ===== *)
theory C_Rand
  imports K_Rust
begin

text \<open>
  \<^verbatim>\<open>libc-test/src/common/rand.c\<close>, the random data of the tests, and the part of
  \<^verbatim>\<open>libc-test/src/functional/qsort.c\<close> that sorts random numbers.  The generator's state is passed along.  An array
  is a list, and a result is \<open>None\<close> when the code divides by 0, leaves an array or never returns: the loops
  that need not end are partial functions.  \<^verbatim>\<open>size_t\<close> is a natural number where it indexes an array.
\<close>

unbundle bit_operations_syntax

section \<open>The generator\<close>

definition rand32 :: "u64 \<Rightarrow> u32 \<times> u64" where
  "rand32 seed = (let seed = 6364136223846793005 * seed + 1 in (ucast (drop_bit 32 seed), seed))"

definition rand64 :: "u64 \<Rightarrow> u64 \<times> u64" where
  "rand64 seed =
     (let (u, seed) = rand32 seed; (v, seed) = rand32 seed
      in (push_bit 32 (ucast u) OR ucast v, seed))"

definition t_randseed :: "u64 \<Rightarrow> u64" where
  "t_randseed s = s"

partial_function (option) t_randn_loop :: "u64 \<Rightarrow> u64 \<Rightarrow> (u64 \<times> u64) option" where
  "t_randn_loop m seed = (let (r, seed) = rand64 seed in if r \<ge> m then t_randn_loop m seed else Some (r, seed))"

definition t_randn :: "u64 \<Rightarrow> u64 \<Rightarrow> (u64 \<times> u64) option" where
  "t_randn n seed =
     (if n = 0 then None
      else do {
        let m = - 1;
        let m = m - m mod n;
        (r, seed) \<leftarrow> t_randn_loop m seed;
        Some (r mod n, seed)
      })"

definition t_randint :: "u64 \<Rightarrow> u64 \<Rightarrow> u64 \<Rightarrow> (u64 \<times> u64) option" where
  "t_randint a b seed =
     (let n = b - a + 1
      in if n \<noteq> 0 then do { (r, seed) \<leftarrow> t_randn n seed; Some (a + r, seed) } else Some (rand64 seed))"

section \<open>Shuffling\<close>

text \<open>The two arrays are different ones.\<close>

fun shuffle2 :: "u64 list \<Rightarrow> u64 list \<Rightarrow> nat \<Rightarrow> nat \<Rightarrow> u64 \<Rightarrow> (u64 list \<times> u64 list \<times> u64) option" where
  "shuffle2 p q 0 nq seed = Some (p, q, seed)"
| "shuffle2 p q (Suc np) nq seed = do {
     (r, seed) \<leftarrow> t_randn (of_nat (nq + Suc np)) seed;
     t \<leftarrow> vec_get p np;
     (if unat r < nq
      then do {
        x \<leftarrow> vec_get q (unat r);
        p \<leftarrow> vec_set p np x;
        q \<leftarrow> vec_set q (unat r) t;
        shuffle2 p q np nq seed
      }
      else do {
        x \<leftarrow> vec_get p (unat r - nq);
        p \<leftarrow> vec_set p np x;
        p \<leftarrow> vec_set p (unat r - nq) t;
        shuffle2 p q np nq seed
      })
   }"

definition t_shuffle :: "u64 list \<Rightarrow> nat \<Rightarrow> u64 \<Rightarrow> (u64 list \<times> u64) option" where
  "t_shuffle p n seed = do { (p, _, seed) \<leftarrow> shuffle2 p [] n 0 seed; Some (p, seed) }"

text \<open>Stores \<open>i\<close> in element \<open>i - k\<close>, for each of the numbers in turn.\<close>

fun fill_from :: "nat \<Rightarrow> nat list \<Rightarrow> u64 list \<Rightarrow> u64 list option" where
  "fill_from k [] p = Some p"
| "fill_from k (i # is) p = do { p \<leftarrow> vec_set p (i - k) (of_nat i); fill_from k is p }"

definition t_randrange :: "u64 list \<Rightarrow> nat \<Rightarrow> u64 \<Rightarrow> (u64 list \<times> u64) option" where
  "t_randrange p n seed = do { p \<leftarrow> fill_from 0 [0..<n] p; t_shuffle p n seed }"

section \<open>Choosing\<close>

partial_function (option) tab_insert_loop :: "u64 list \<Rightarrow> u64 \<Rightarrow> u64 \<Rightarrow> u64 \<Rightarrow> u64 \<Rightarrow> (int \<times> u64 list) option" where
  "tab_insert_loop tab len v i j =
     Option.bind (vec_get tab (unat i)) (\<lambda>x.
       if x \<noteq> 0
       then if x = v then Some (- 1, tab) else tab_insert_loop tab len v ((i + j) AND (len - 1)) (j + 1)
       else map_option (\<lambda>tab. (0, tab)) (vec_set tab (unat i) v))"

definition tab_insert :: "u64 list \<Rightarrow> u64 \<Rightarrow> u64 \<Rightarrow> (int \<times> u64 list) option" where
  "tab_insert tab len v = tab_insert_loop tab len v (v AND (len - 1)) 1"

text \<open>The branches of \<^verbatim>\<open>t_choose\<close>: numbers below a small bound,\<close>

fun choose_small :: "nat \<Rightarrow> nat \<Rightarrow> u64 list \<Rightarrow> u64 \<Rightarrow> (u64 list \<times> u64) option" where
  "choose_small 0 k p seed = (if k = 0 then Some (p, seed) else None)"
| "choose_small (Suc n) k p seed =
     (if k = 0 then Some (p, seed)
      else do {
        (r, seed) \<leftarrow> t_randn (of_nat (Suc n)) seed;
        (if r < of_nat k
         then do { p \<leftarrow> vec_set p (k - 1) (of_nat n); choose_small n (k - 1) p seed }
         else choose_small n k p seed)
      })"

text \<open>few numbers,\<close>

function same_loop :: "u64 list \<Rightarrow> nat \<Rightarrow> nat \<Rightarrow> nat option" where
  "same_loop p i j = do {
     x \<leftarrow> vec_get p j;
     y \<leftarrow> vec_get p i;
     (if x \<noteq> y then same_loop p i (j + 1) else Some j)
   }"
  by pat_completeness auto
termination
  by (relation "measure (\<lambda>(p, i, j). length p - j)") (auto simp: vec_get_def split: if_splits)

declare same_loop.simps [simp del]

partial_function (option) choose_few :: "u64 \<Rightarrow> nat \<Rightarrow> u64 list \<Rightarrow> nat \<Rightarrow> u64 \<Rightarrow> (u64 list \<times> u64) option" where
  "choose_few n k p i seed =
     (if i < k
      then Option.bind (t_randn n seed) (\<lambda>(r, seed).
        Option.bind (vec_set p i r) (\<lambda>p.
          Option.bind (same_loop p i 0) (\<lambda>j. choose_few n k p (if j = i then i + 1 else i) seed)))
      else Some (p, seed))"

text \<open>a large part of the numbers, by shuffling them,\<close>

definition choose_shuffle :: "nat \<Rightarrow> nat \<Rightarrow> u64 list \<Rightarrow> u64 list \<Rightarrow> u64 \<Rightarrow> (u64 list \<times> u64) option" where
  "choose_shuffle n k p tab seed = do {
     p \<leftarrow> fill_from 0 [0..<k] p;
     tab \<leftarrow> fill_from k [k..<n] tab;
     (if k < n - k
      then do { (p, tab, seed) \<leftarrow> shuffle2 p tab k (n - k) seed; Some (p, seed) }
      else do { (tab, p, seed) \<leftarrow> shuffle2 tab p (n - k) k seed; Some (p, seed) })
   }"

text \<open>and otherwise by putting them into a hash table.\<close>

partial_function (option) table_len :: "u64 \<Rightarrow> u64 \<Rightarrow> u64 option" where
  "table_len k len = (if len < 2 * k then table_len k (len * 2) else Some len)"

partial_function (option) insert_new :: "u64 list \<Rightarrow> u64 \<Rightarrow> u64 \<Rightarrow> u64 \<Rightarrow> (u64 list \<times> u64) option" where
  "insert_new tab len n seed =
     Option.bind (t_randn n seed) (\<lambda>(r, seed).
       Option.bind (tab_insert tab len (r + 1)) (\<lambda>(c, tab).
         if c \<noteq> 0 then insert_new tab len n seed else Some (tab, seed)))"

fun insert_all :: "nat \<Rightarrow> u64 list \<Rightarrow> u64 \<Rightarrow> u64 \<Rightarrow> u64 \<Rightarrow> (u64 list \<times> u64) option" where
  "insert_all 0 tab len n seed = Some (tab, seed)"
| "insert_all (Suc k) tab len n seed = do {
     (tab, seed) \<leftarrow> insert_new tab len n seed;
     insert_all k tab len n seed
   }"

fun collect_tab :: "nat list \<Rightarrow> u64 list \<Rightarrow> nat \<Rightarrow> u64 list \<Rightarrow> u64 list option" where
  "collect_tab [] tab pos p = Some p"
| "collect_tab (i # is) tab pos p = do {
     x \<leftarrow> vec_get tab i;
     (if x \<noteq> 0 then do { p \<leftarrow> vec_set p pos (x - 1); collect_tab is tab (pos + 1) p } else collect_tab is tab pos p)
   }"

definition choose_hash :: "u64 \<Rightarrow> nat \<Rightarrow> u64 list \<Rightarrow> u64 list \<Rightarrow> u64 \<Rightarrow> u64 \<Rightarrow> (u64 list \<times> u64) option" where
  "choose_hash n k p tab len seed = do {
     (tab, seed) \<leftarrow> insert_all k tab len n seed;
     p \<leftarrow> collect_tab [0..<unat len] tab 0 p;
     Some (p, seed)
   }"

text \<open>
  \<open>malloc\<close> and \<open>calloc\<close> are those of the library: the words of a new array, or \<open>None\<close> for a null pointer.
\<close>

definition t_choose ::
    "(u64 \<Rightarrow> u64 list option) \<Rightarrow> (u64 \<Rightarrow> u64 \<Rightarrow> u64 list option) \<Rightarrow> u64 \<Rightarrow> u64 \<Rightarrow> u64 list \<Rightarrow> u64 \<Rightarrow> (int \<times> u64 list \<times> u64) option" where
  "t_choose malloc calloc n k p seed =
     (if n < k then Some (- 1, p, seed)
      else if n < 16 then do { (p, seed) \<leftarrow> choose_small (unat n) (unat k) p seed; Some (0, p, seed) }
      else if k < 8 then do { (p, seed) \<leftarrow> choose_few n (unat k) p 0 seed; Some (0, p, seed) }
      else if n < 5 * k \<and> (n - k) * 8 < - 1
      then (case malloc ((n - k) * 8) of
              None \<Rightarrow> Some (- 1, p, seed)
            | Some tab \<Rightarrow> do { (p, seed) \<leftarrow> choose_shuffle (unat n) (unat k) p tab seed; Some (0, p, seed) })
      else do {
        len \<leftarrow> table_len k 16;
        (case calloc len 8 of
           None \<Rightarrow> Some (- 1, p, seed)
         | Some tab \<Rightarrow> do { (p, seed) \<leftarrow> choose_hash n (unat k) p tab len seed; Some (0, p, seed) })
      })"

section \<open>The test of sorting random numbers\<close>

fun gen_loop :: "nat \<Rightarrow> nat \<Rightarrow> u64 \<Rightarrow> u64 list \<Rightarrow> u64 \<Rightarrow> (u64 list \<times> u64) option" where
  "gen_loop 0 i r p seed = Some (p, seed)"
| "gen_loop (Suc n) i r p seed = do {
     (x, seed) \<leftarrow> t_randn 20 seed;
     p \<leftarrow> vec_set p i (r + x);
     gen_loop n (i + 1) (r + x) p seed
   }"

definition uint64_gen :: "u64 list \<Rightarrow> u64 list \<Rightarrow> nat \<Rightarrow> (u64 list \<times> u64 list \<times> u64) option" where
  "uint64_gen p p_sorted n = do {
     let seed = t_randseed (of_nat n);
     (p, seed) \<leftarrow> gen_loop n 0 0 p seed;
     _ \<leftarrow> rassert (n \<le> length p_sorted);
     let p_sorted = take n p @ drop n p_sorted;
     (p, seed) \<leftarrow> t_shuffle p n seed;
     Some (p, p_sorted, seed)
   }"

definition cmp64 :: "u64 \<Rightarrow> u64 \<Rightarrow> int" where
  "cmp64 a b = (if a < b then - 1 else if a \<noteq> b then 1 else 0)"

text \<open>\<^verbatim>\<open>uint64_test\<close>: whether an error is reported; \<open>qsort\<close> is the function under test, with its comparison.\<close>

fun first_diff :: "nat list \<Rightarrow> u64 list \<Rightarrow> u64 list \<Rightarrow> bool option" where
  "first_diff [] a b = Some False"
| "first_diff (i # is) a b = do {
     x \<leftarrow> vec_get a i;
     y \<leftarrow> vec_get b i;
     (if x \<noteq> y then Some True else first_diff is a b)
   }"

definition uint64_test :: "((u64 \<Rightarrow> u64 \<Rightarrow> int) \<Rightarrow> u64 list \<Rightarrow> u64 list) \<Rightarrow> u64 list \<Rightarrow> u64 list \<Rightarrow> nat \<Rightarrow> bool option" where
  "uint64_test qsort a a_sorted len =
     (let a = qsort cmp64 (take len a) @ drop len a in first_diff [0..<len] a a_sorted)"

end
