(* ===== verification/C_Rand_Period.thy ===== *)
theory C_Rand_Period
  imports C_Rand
begin

text \<open>
  The period of the generator of \<^verbatim>\<open>rand.c\<close>: the seeds run through all 64-bit words before one comes back.  So
  \<^verbatim>\<open>t_randn\<close> always finds a number that it accepts.
\<close>

section \<open>Geometric sums modulo powers of two\<close>

definition geo :: "nat \<Rightarrow> nat \<Rightarrow> nat" where
  "geo a n = (\<Sum>i < n. a ^ i)"

lemma geo_0 [simp]: "geo a 0 = 0"
  and geo_Suc: "geo a (Suc n) = geo a n + a ^ n"
  by (simp_all add: geo_def)

lemma geo_power: "(a - 1) * geo a n + 1 = a ^ n" if "0 < a" for a n :: nat
proof (induction n)
  case (Suc n)
  have "(a - 1) * geo a (Suc n) + 1 = a ^ n + (a - 1) * a ^ n" using Suc by (simp add: geo_Suc algebra_simps)
  also have "\<dots> = a ^ Suc n" using that by (cases a) simp_all
  finally show ?case .
qed simp

lemma geo_double: "geo a (2 * n) = geo a n * (1 + a ^ n)"
proof -
  have "geo a (n + m) = geo a n + a ^ n * geo a m" for m
    by (induction m) (simp_all add: geo_Suc algebra_simps power_add)
  from this[of n] show ?thesis by (simp only: mult_2) (simp add: algebra_simps)
qed

lemma geo_parity: "odd a \<Longrightarrow> even (geo a n) = even n"
  by (induction n) (simp_all add: geo_Suc)

lemma power_mod_4: "a mod 4 = 1 \<Longrightarrow> a ^ n mod 4 = 1" for a :: nat
  by (metis mod_less one_less_numeral_iff power_mod power_one semiring_norm(76))

lemma geo_dvd:
  assumes "a mod 4 = 1" "2 ^ k dvd geo a n"
  shows "2 ^ k dvd n"
  using assms(2)
proof (induction k arbitrary: n)
  case (Suc k)
  have odd: "odd a" using assms(1) by presburger
  have "even (geo a n)" using Suc.prems by (metis dvd_trans dvd_triv_left power_Suc)
  then have "even n" using geo_parity[OF odd] by simp
  then obtain m where m: "n = 2 * m" by blast
  obtain c where c: "1 + a ^ m = 2 * c" "odd c"
  proof -
    have "a ^ m mod 4 = 1" by (rule power_mod_4[OF assms(1)])
    then have "1 + a ^ m = 2 * ((1 + a ^ m) div 2)" "odd ((1 + a ^ m) div 2)" by presburger+
    then show ?thesis by (rule that)
  qed
  have "2 * 2 ^ k dvd 2 * (geo a m * c)" using Suc.prems unfolding m geo_double c(1) by (simp only: power_Suc mult.left_commute)
  then have "2 ^ k dvd geo a m * c" by simp
  moreover have "coprime (2 ^ k) c" using c(2) by simp
  ultimately have "2 ^ k dvd geo a m" by (simp add: coprime_dvd_mult_left_iff)
  then show ?case using Suc.IH m by simp
qed simp

section \<open>The orbit of a seed\<close>

definition lcg :: "u64 \<Rightarrow> u64" where
  "lcg x = 6364136223846793005 * x + 1"

lemma lcg_inj: "inj lcg"
proof (rule injI)
  fix x y assume "lcg x = lcg y"
  then have "13877824140714322085 * (6364136223846793005 * x) = 13877824140714322085 * (6364136223846793005 * y)" by (simp add: lcg_def)
  moreover have "(13877824140714322085 :: u64) * 6364136223846793005 = 1" by code_simp
  ultimately show "x = y" by (simp only: mult.assoc[symmetric] mult_1_left)
qed

lemma lcg_power: "(lcg ^^ n) (of_nat x) = of_nat (6364136223846793005 ^ n * x + geo 6364136223846793005 n)"
  by (induction n) (simp_all add: lcg_def geo_Suc algebra_simps geo_power[of 6364136223846793005, symmetric])

lemma lcg_period:
  assumes "(lcg ^^ n) x = x"
  shows "2 ^ 64 dvd n"
proof -
  let ?a = "6364136223846793005 :: nat" and ?x = "unat x"
  have p: "(?a - 1) * geo ?a n + 1 = ?a ^ n" by (rule geo_power) simp
  have "(of_nat (?a ^ n * ?x + geo ?a n) :: u64) = of_nat ?x" using lcg_power[of n ?x] assms by simp
  moreover have "?a ^ n * ?x + geo ?a n = ?x + geo ?a n * ((?a - 1) * ?x + 1)"
    unfolding p[symmetric] by (simp add: algebra_simps)
  ultimately have "(of_nat (geo ?a n * ((?a - 1) * ?x + 1)) :: u64) = 0" by simp
  then have "2 ^ 64 dvd geo ?a n * ((?a - 1) * ?x + 1)" by (simp only: word_of_nat_eq_0_iff) simp
  moreover have "coprime (2 ^ 64) ((?a - 1) * ?x + 1)"
    by (simp only: coprime_power_left_iff coprime_left_2_iff_odd) simp
  ultimately have "2 ^ 64 dvd geo ?a n" by (simp only: coprime_dvd_mult_left_iff)
  then show ?thesis by (rule geo_dvd[rotated]) simp
qed

lemma lcg_orbit: "\<exists>n. (lcg ^^ n) x = y"
proof -
  have "inj_on (\<lambda>n. (lcg ^^ n) x) {..< 2 ^ 64}"
  proof (rule linorder_inj_onI)
    fix i j :: nat assume ij: "i < j" "i \<in> {..< 2 ^ 64}" "j \<in> {..< 2 ^ 64}"
    show "(lcg ^^ i) x \<noteq> (lcg ^^ j) x"
    proof
      assume e: "(lcg ^^ i) x = (lcg ^^ j) x"
      have "(lcg ^^ i) ((lcg ^^ (j - i)) x) = (lcg ^^ i) x" using ij(1) e by (simp add: funpow_add[symmetric, THEN fun_cong, simplified])
      then have "(lcg ^^ (j - i)) x = x" using inj_fn[OF lcg_inj, of i] by (simp add: inj_eq)
      then have "2 ^ 64 dvd j - i" by (rule lcg_period)
      then have "2 ^ 64 \<le> j - i" using ij(1) by (intro dvd_imp_le) simp_all
      then show False using ij by simp
    qed
  qed auto
  then have "card ((\<lambda>n. (lcg ^^ n) x) ` {..< 2 ^ 64}) = 2 ^ 64" by (simp only: card_image card_lessThan)
  also have "\<dots> = card (UNIV :: u64 set)" by (simp add: card_word)
  finally have "(\<lambda>n. (lcg ^^ n) x) ` {..< 2 ^ 64} = UNIV" by (rule card_subset_eq[OF finite subset_UNIV])
  then have "y \<in> (\<lambda>n. (lcg ^^ n) x) ` {..< 2 ^ 64}" by (simp only: UNIV_I)
  then show ?thesis by (elim imageE) (intro exI, erule sym)
qed

lemma lcg_parity: "even (unat ((lcg ^^ n) x)) \<longleftrightarrow> even (n + unat x)"
proof -
  have "even (unat (lcg y)) \<longleftrightarrow> odd (unat y)" for y
  proof -
    have "bit (lcg y) 0 \<longleftrightarrow> \<not> bit y 0" by (simp add: lcg_def bit_0)
    moreover have "odd (unat z) \<longleftrightarrow> bit z 0" for z :: u64
      using bit_unsigned_iff[of z 0] by (metis bit_0 possible_bit_0)
    ultimately show ?thesis by blast
  qed
  then show ?thesis by (induction n) auto
qed

section \<open>The accepted numbers\<close>

text \<open>The number that \<^verbatim>\<open>rand64\<close> makes of the seed after its first step.\<close>

definition out64 :: "u64 \<Rightarrow> u64" where
  "out64 s = push_bit 32 (drop_bit 32 s) OR drop_bit 32 (lcg s)"

lemma rand64_eq: "rand64 x = (out64 (lcg x), lcg (lcg x))"
proof -
  have "ucast (ucast (drop_bit 32 y) :: u32) = drop_bit 32 y" for y :: u64
    by (rule bit_word_eqI) (auto simp: bit_simps dest: bit_imp_le_length)
  then show ?thesis by (simp add: rand64_def rand32_def Let_def out64_def lcg_def)
qed

text \<open>\<open>drawn x j\<close> is the number that the round \<open>j\<close> of the loop looks at.\<close>

definition drawn :: "u64 \<Rightarrow> nat \<Rightarrow> u64" where
  "drawn x j = out64 ((lcg ^^ (2 * j + 1)) x)"

lemma drawn_0: "drawn x 0 = out64 (lcg x)"
  and drawn_Suc: "drawn x (Suc j) = drawn (lcg (lcg x)) j"
  and drawn_add: "drawn ((lcg ^^ (2 * i)) x) j = drawn x (i + j)"
proof -
  have "(lcg ^^ (2 * Suc j + 1)) x = (lcg ^^ (2 * j + 1)) (lcg (lcg x))" by (simp add: funpow_swap1)
  then show "drawn x (Suc j) = drawn (lcg (lcg x)) j" unfolding drawn_def by (rule arg_cong)
  have "(lcg ^^ (2 * j + 1)) ((lcg ^^ (2 * i)) x) = (lcg ^^ (2 * (i + j) + 1)) x"
    by (simp add: funpow_add[symmetric, THEN fun_cong, simplified comp_apply] add.commute add.left_commute distrib_left)
  then show "drawn ((lcg ^^ (2 * i)) x) j = drawn x (i + j)" unfolding drawn_def by (rule arg_cong)
qed (simp add: drawn_def)

text \<open>Every seed of the right parity comes up.\<close>

lemma drawn_all:
  assumes "even (unat s) \<longleftrightarrow> odd (unat x)"
  shows "\<exists>j. drawn x j = out64 s"
proof -
  obtain n where n: "(lcg ^^ n) x = s" using lcg_orbit by blast
  then have "odd n" using assms lcg_parity[of n x] by auto
  then obtain j where "n = 2 * j + 1" by (rule oddE)
  then show ?thesis using n by (auto simp: drawn_def)
qed

lemma randn_loop_drawn:
  assumes "drawn x j < m"
  shows "\<exists>i \<le> j. t_randn_loop m x = Some (drawn x i, (lcg ^^ (2 * (i + 1))) x) \<and> drawn x i < m"
  using assms
proof (induction j arbitrary: x)
  case 0
  then show ?case by (subst t_randn_loop.simps) (simp add: rand64_eq drawn_0 Let_def not_le[symmetric])
next
  case (Suc j)
  show ?case
  proof (cases "drawn x 0 < m")
    case True
    then show ?thesis by (subst t_randn_loop.simps) (auto simp: rand64_eq drawn_0 Let_def intro!: exI[of _ 0])
  next
    case False
    obtain i where i: "i \<le> j" "t_randn_loop m (lcg (lcg x)) = Some (drawn x (Suc i), (lcg ^^ (2 * (i + 1))) (lcg (lcg x)))" "drawn x (Suc i) < m"
      using Suc.IH[of "lcg (lcg x)"] Suc.prems by (auto simp: drawn_Suc)
    have "(lcg ^^ (2 * (i + 1))) (lcg (lcg x)) = (lcg ^^ (2 * (Suc i + 1))) x" by (simp add: funpow_swap1)
    moreover have "t_randn_loop m x = t_randn_loop m (lcg (lcg x))"
      using False by (subst t_randn_loop.simps) (simp add: rand64_eq drawn_0 Let_def not_less)
    ultimately show ?thesis using i by (intro exI[of _ "Suc i"]) simp
  qed
qed

end
