(* ===== verification/C_Rand_Props.thy ===== *)
theory C_Rand_Props
  imports C_Rand_Period
begin

text \<open>
  What the random data of \<^verbatim>\<open>rand.c\<close> is: numbers below the bound, each equally often accepted, permutations,
  and distinct numbers; and that the test of \<^verbatim>\<open>qsort.c\<close> on random numbers passes exactly for a function that sorts
  them.
\<close>

section \<open>The bound of the accepted numbers\<close>

definition limit :: "u64 \<Rightarrow> u64" where
  "limit n = - 1 - (- 1) mod n"

lemma unat64: "unat (x :: u64) < 2 ^ 64"
  by (rule order_less_le_trans[OF unsigned_less]) simp

lemma unat_limit: "unat (limit n) = unat n * ((2 ^ 64 - 1) div unat n)"
proof -
  have m: "unat (- 1 :: u64) = 2 ^ 64 - 1" by (simp add: unsigned_minus_1_eq_mask mask_eq_exp_minus_1)
  have "unat (limit n) = unat (- 1 :: u64) - unat ((- 1 :: u64) mod n)"
    unfolding limit_def by (rule unat_sub) simp
  also have "\<dots> = (2 ^ 64 - 1) - (2 ^ 64 - 1) mod unat n" unfolding unat_mod_distrib m ..
  also have "\<dots> = unat n * ((2 ^ 64 - 1) div unat n)" by (simp only: minus_mod_eq_mult_div)
  finally show ?thesis .
qed

lemma limit_large:
  assumes "n \<noteq> 0"
  shows "2 ^ 63 \<le> limit n"
proof -
  have N: "0 < unat n" "unat n < 2 ^ 64" using assms unat64[of n] by (simp_all add: unat_gt_0)
  have "2 ^ 63 \<le> unat n * ((2 ^ 64 - 1) div unat n)"
  proof (cases "unat n \<le> 2 ^ 63")
    case True
    have "(2 ^ 64 - 1) mod unat n < unat n" using N by simp
    moreover have "unat n * ((2 ^ 64 - 1) div unat n) + (2 ^ 64 - 1) mod unat n = 2 ^ 64 - 1" by (rule mult_div_mod_eq)
    moreover have "2 ^ 63 \<le> A" if "B < N" "A + B = 2 ^ 64 - 1" "N \<le> 2 ^ 63" for A B N :: nat using that by simp
    ultimately show ?thesis using True by blast
  next
    case False
    have "0 < (2 ^ 64 - 1) div unat n" using N by (simp add: div_greater_zero_iff)
    then have "unat n * 1 \<le> unat n * ((2 ^ 64 - 1) div unat n)" by (intro mult_le_mono2) simp
    then show ?thesis using False by linarith
  qed
  then show ?thesis unfolding word_le_nat_alt unat_limit by simp
qed

lemma out64_small: "out64 0 < 2 ^ 63" "out64 1 < 2 ^ 63"
  by (simp_all add: out64_def lcg_def)

lemma accepts: "n \<noteq> 0 \<Longrightarrow> \<exists>j. drawn x j < limit n"
proof -
  assume n: "n \<noteq> 0"
  define s where "s = (if odd (unat x) then 0 else 1 :: u64)"
  have "even (unat s) \<longleftrightarrow> odd (unat x)" by (simp add: s_def)
  then obtain j where "drawn x j = out64 s" using drawn_all by blast
  then have "drawn x j < 2 ^ 63" using out64_small by (simp add: s_def)
  then show ?thesis using limit_large[OF n] less_le_trans by blast
qed

lemma randn_drawn:
  assumes "n \<noteq> 0" "drawn x j < limit n"
  shows "\<exists>i \<le> j. t_randn n x = Some (drawn x i mod n, (lcg ^^ (2 * (i + 1))) x) \<and> drawn x i < limit n"
  using randn_loop_drawn[OF assms(2)] assms(1) by (auto simp: t_randn_def limit_def Let_def)

lemma randn_ok:
  assumes "n \<noteq> 0"
  obtains r x' where "t_randn n x = Some (r, x')" "unat r < unat n"
proof -
  obtain i where i: "t_randn n x = Some (drawn x i mod n, (lcg ^^ (2 * (i + 1))) x)"
    using accepts[OF assms] randn_drawn[OF assms] by blast
  moreover have "unat (drawn x i mod n) < unat n" using assms by (simp add: unat_mod_distrib unat_gt_0)
  ultimately show ?thesis using that by blast
qed

lemma card_residue:
  fixes N q v :: nat
  assumes "v < N"
  shows "card {r. r < N * q \<and> r mod N = v} = q"
proof -
  have "{r. r < N * q \<and> r mod N = v} = (\<lambda>k. N * k + v) ` {..<q}"
  proof (intro set_eqI iffI)
    fix r assume r: "r \<in> {r. r < N * q \<and> r mod N = v}"
    then have "r div N < q" by (simp add: less_mult_imp_div_less mult.commute)
    moreover have "r = N * (r div N) + v" using r mult_div_mod_eq[of N r] by simp
    ultimately show "r \<in> (\<lambda>k. N * k + v) ` {..<q}" by blast
  next
    fix r assume "r \<in> (\<lambda>k. N * k + v) ` {..<q}"
    then obtain k where k: "k < q" "r = N * k + v" by blast
    have "N * (k + 1) \<le> N * q" using k(1) by (intro mult_le_mono2) simp
    then show "r \<in> {r. r < N * q \<and> r mod N = v}" using k assms by (simp add: distrib_left)
  qed
  moreover have "inj_on (\<lambda>k. N * k + v) {..<q}" using assms by (intro inj_onI) simp
  ultimately show ?thesis by (simp add: card_image)
qed

text \<open>
  C33: \<^verbatim>\<open>t_randn(n)\<close> always returns, for every seed, a number below \<open>n\<close>: the remainder of a number that it has accepted,
  one below a bound under which every remainder occurs equally often.
\<close>

theorem t_randn_uniform:
  assumes "n \<noteq> 0"
  shows "(\<exists>r seed'. t_randn_loop (- 1 - (- 1) mod n) seed = Some (r, seed') \<and> r < - 1 - (- 1) mod n \<and>
      t_randn n seed = Some (r mod n, seed') \<and> r mod n < n) \<and>
    (\<exists>q > 0. \<forall>v < n. card {r. r < - 1 - (- 1) mod n \<and> r mod n = v} = q)"
proof
  obtain j where j: "drawn seed j < limit n" using accepts[OF assms] by blast
  have "r mod n < n" for r using assms by (simp add: word_less_nat_alt unat_mod_distrib unat_gt_0)
  then show "\<exists>r seed'. t_randn_loop (- 1 - (- 1) mod n) seed = Some (r, seed') \<and> r < - 1 - (- 1) mod n \<and>
      t_randn n seed = Some (r mod n, seed') \<and> r mod n < n"
    using randn_loop_drawn[OF j] assms by (auto simp: t_randn_def limit_def Let_def)
  let ?q = "(2 ^ 64 - 1) div unat n"
  have "0 < unat n" "unat n \<le> 2 ^ 64 - 1" using assms unat64[of n] by (simp_all add: unat_gt_0)
  then have q: "0 < ?q" by (simp add: div_greater_zero_iff)
  have "card {r. r < limit n \<and> r mod n = v} = ?q" if v: "v < n" for v
  proof -
    have "unat ` {r. r < limit n \<and> r mod n = v} = {r. r < unat n * ?q \<and> r mod unat n = unat v}"
    proof (intro set_eqI iffI)
      fix r assume "r \<in> unat ` {r. r < limit n \<and> r mod n = v}"
      then show "r \<in> {r. r < unat n * ?q \<and> r mod unat n = unat v}"
        by (auto simp only: word_less_nat_alt unat_limit mem_Collect_eq unat_mod_distrib[symmetric])
    next
      fix r assume r: "r \<in> {r. r < unat n * ?q \<and> r mod unat n = unat v}"
      have "r < 2 ^ 64" using r unat64[of "limit n"] unat_limit[of n] by simp
      then have u: "unat (of_nat r :: u64) = r" by (simp add: unat_of_nat)
      then have "of_nat r < limit n" "of_nat r mod n = v"
        using r by (simp_all only: word_less_nat_alt unat_limit mem_Collect_eq word_unat_eq_iff unat_mod_distrib)
      then show "r \<in> unat ` {r. r < limit n \<and> r mod n = v}" using u by (intro image_eqI[of _ _ "of_nat r"]) simp_all
    qed
    moreover have "inj_on unat A" for A :: "u64 set" by (rule inj_onI) (simp add: word_unat_eq_iff)
    ultimately have "card {r. r < limit n \<and> r mod n = v} = card {r. r < unat n * ?q \<and> r mod unat n = unat v}"
      by (metis (no_types) card_image)
    also have "\<dots> = ?q" using v by (intro card_residue) (simp only: word_less_nat_alt)
    finally show ?thesis .
  qed
  then show "\<exists>q > 0. \<forall>v < n. card {r. r < - 1 - (- 1) mod n \<and> r mod n = v} = q"
    using q unfolding limit_def by blast
qed

theorem t_randn_uniform_witness:
  "(\<exists>r seed'. t_randn 6 0 = Some (r mod 6, seed') \<and> r mod 6 < 6) \<and>
   (\<exists>q > 0. \<forall>v < 6. card {r :: u64. r < - 1 - (- 1) mod 6 \<and> r mod 6 = v} = q)"
proof -
  have n: "(6 :: u64) \<noteq> 0" by simp
  show ?thesis using t_randn_uniform[OF n, of 0] by blast
qed

section \<open>Permutations\<close>

lemma mset_exchange:
  assumes "i < length p" "j < length q"
  shows "mset (p[i := q ! j]) + mset (q[j := p ! i]) = mset p + mset q"
proof -
  define A B where "A = mset p - {#p ! i#}" and "B = mset q - {#q ! j#}"
  have "mset (p[i := q ! j]) + mset (q[j := p ! i]) = add_mset (q ! j) A + add_mset (p ! i) B"
    using assms by (simp only: mset_update A_def B_def)
  also have "\<dots> = add_mset (p ! i) A + add_mset (q ! j) B" by simp
  also have "add_mset (p ! i) A = mset p" using assms by (simp add: A_def)
  also have "add_mset (q ! j) B = mset q" using assms by (simp add: B_def)
  finally show ?thesis .
qed

lemma shuffle2_ok:
  assumes "np \<le> length p" "nq \<le> length q" "nq + np < 2 ^ 64"
  shows "\<exists>p' q' x'. shuffle2 p q np nq x = Some (p', q', x') \<and> length p' = length p \<and> length q' = length q \<and>
    mset p' + mset q' = mset p + mset q"
  using assms
proof (induction np arbitrary: p q x)
  case (Suc np)
  have n0: "(of_nat (nq + Suc np) :: u64) \<noteq> 0" using Suc.prems by (subst of_nat_word_eq_0) simp_all
  obtain r x1 where r: "t_randn (of_nat (nq + Suc np)) x = Some (r, x1)" "unat r < unat (of_nat (nq + Suc np) :: u64)"
    using randn_ok[OF n0] by blast
  then have rb: "unat r < nq + Suc np" using Suc.prems by (simp add: unat_of_nat del: of_nat_Suc of_nat_add)
  show ?case
  proof (cases "unat r < nq")
    case True
    let ?p = "p[np := q ! unat r]" and ?q = "q[unat r := p ! np]"
    have "shuffle2 p q (Suc np) nq x = shuffle2 ?p ?q np nq x1"
      using r True Suc.prems by (simp add: vec_get_ok vec_set_ok del: of_nat_Suc of_nat_add)
    moreover have "mset ?p + mset ?q = mset p + mset q"
      using True Suc.prems by (intro mset_exchange) simp_all
    moreover obtain p' q' x' where "shuffle2 ?p ?q np nq x1 = Some (p', q', x')" "length p' = length ?p" "length q' = length ?q"
      "mset p' + mset q' = mset ?p + mset ?q"
      using Suc.IH[of ?p ?q x1] Suc.prems by auto
    ultimately show ?thesis by simp
  next
    case False
    let ?i = "unat r - nq"
    let ?p = "p[np := p ! ?i, ?i := p ! np]"
    have i: "?i < length p" using rb Suc.prems by simp
    have "shuffle2 p q (Suc np) nq x = shuffle2 ?p q np nq x1"
      using r False Suc.prems i by (simp add: vec_get_ok vec_set_ok del: of_nat_Suc of_nat_add)
    moreover have "mset ?p = mset p" using i Suc.prems by (intro mset_swap) simp_all
    moreover obtain p' q' x' where "shuffle2 ?p q np nq x1 = Some (p', q', x')" "length p' = length ?p" "length q' = length q"
      "mset p' + mset q' = mset ?p + mset q"
      using Suc.IH[of ?p q x1] Suc.prems by auto
    ultimately show ?thesis by simp
  qed
qed simp

lemma t_shuffle_ok:
  assumes "length p = n" "n < 2 ^ 64"
  shows "\<exists>p' x'. t_shuffle p n x = Some (p', x') \<and> mset p' = mset p \<and> length p' = n"
  using shuffle2_ok[of n p 0 "[]" x] assms by (auto simp: t_shuffle_def)

lemma fill_from_ok:
  assumes "k \<le> a" "b - k \<le> length p" "a \<le> b"
  shows "\<exists>p'. fill_from k [a..<b] p = Some p' \<and> length p' = length p \<and>
    (\<forall>j < length p. p' ! j = (if a - k \<le> j \<and> j < b - k then of_nat (j + k) else p ! j))"
  using assms
proof (induction "b - a" arbitrary: a p)
  case (Suc m)
  let ?p = "p[a - k := of_nat a]"
  have "[a..<b] = a # [Suc a..<b]" using Suc(2) by (simp add: upt_conv_Cons)
  then have e: "fill_from k [a..<b] p = fill_from k [Suc a..<b] ?p" using Suc by (simp add: vec_set_ok)
  have "m = b - Suc a" "k \<le> Suc a" "b - k \<le> length ?p" "Suc a \<le> b" using Suc by simp_all
  from Suc.hyps(1)[OF this] obtain p' where p': "fill_from k [Suc a..<b] ?p = Some p'" "length p' = length p"
    "\<forall>j < length p. p' ! j = (if Suc a - k \<le> j \<and> j < b - k then of_nat (j + k) else ?p ! j)" by auto
  have "p' ! j = (if a - k \<le> j \<and> j < b - k then of_nat (j + k) else p ! j)" if j: "j < length p" for j
  proof (cases "j = a - k")
    case True
    then show ?thesis using p'(3) j Suc by auto
  next
    case False
    then have "Suc a - k \<le> j \<longleftrightarrow> a - k \<le> j" using Suc.prems by auto
    then show ?thesis using p'(3) j False by simp
  qed
  then show ?case using p' e by auto
qed auto

lemma fill_all:
  assumes "length p = b - k" "k \<le> b"
  shows "fill_from k [k..<b] p = Some (map of_nat [k..<b])"
proof -
  obtain p' where p': "fill_from k [k..<b] p = Some p'" "length p' = length p"
    "\<forall>j < length p. p' ! j = of_nat (j + k)"
    using fill_from_ok[of k k b p] assms by auto
  have "p' = map of_nat [k..<b]" using p' assms by (intro nth_equalityI) (simp_all add: add.commute)
  then show ?thesis using p' by simp
qed

text \<open>
  \<^verbatim>\<open>t_shuffle\<close> returns a permutation of the array, and \<^verbatim>\<open>t_randrange\<close> one of the numbers below \<open>n\<close>, whatever the
  array held before.
\<close>

theorem t_shuffle_permutes:
  assumes "length p = n" "n < 2 ^ 64"
  shows "(\<exists>p' seed'. t_shuffle p n seed = Some (p', seed') \<and> mset p' = mset p) \<and>
    (\<exists>p' seed'. t_randrange p n seed = Some (p', seed') \<and> mset p' = mset (map of_nat [0..<n]))"
proof
  show "\<exists>p' seed'. t_shuffle p n seed = Some (p', seed') \<and> mset p' = mset p" using t_shuffle_ok[OF assms] by blast
  obtain p' x' where "t_shuffle (map of_nat [0..<n]) n seed = Some (p', x')" "mset p' = mset (map of_nat [0..<n] :: u64 list)"
    using t_shuffle_ok[of "map of_nat [0..<n]" n seed] assms(2) by auto
  then show "\<exists>p' seed'. t_randrange p n seed = Some (p', seed') \<and> mset p' = mset (map of_nat [0..<n])"
    using fill_all[of p n 0] assms(1) by (simp add: t_randrange_def)
qed

theorem t_shuffle_permutes_witness:
  "(\<exists>p' seed'. t_shuffle [7, 8, 9] 3 1 = Some (p', seed') \<and> mset p' = {#7, 8, 9#}) \<and>
   (\<exists>p' seed'. t_randrange [7, 8, 9] 3 1 = Some (p', seed') \<and> mset p' = {#0, 1, 2#})"
proof -
  have "length [7, 8, 9 :: u64] = 3" "(3 :: nat) < 2 ^ 64" by simp_all
  from t_shuffle_permutes[OF this, of 1] show ?thesis by (simp add: numeral_3_eq_3)
qed

section \<open>Choosing few or from few\<close>

lemma choose_small_ok:
  assumes "k \<le> n" "k \<le> length p" "n < 2 ^ 64"
  shows "\<exists>p' x'. choose_small n k p x = Some (p', x') \<and> length p' = length p \<and> (\<forall>i. k \<le> i \<and> i < length p \<longrightarrow> p' ! i = p ! i) \<and>
    (\<forall>i < k. unat (p' ! i) < n) \<and> distinct (take k p')"
  using assms
proof (induction n arbitrary: k p x)
  case (Suc n)
  show ?case
  proof (cases "k = 0")
    case False
    have n0: "(of_nat (Suc n) :: u64) \<noteq> 0" using Suc.prems by (subst of_nat_word_eq_0) simp_all
    have un: "unat (of_nat (Suc n) :: u64) = Suc n" "unat (of_nat k :: u64) = k" "unat (of_nat n :: u64) = n"
      using Suc.prems by (simp_all add: unat_of_nat del: of_nat_Suc)
    obtain r x1 where r: "t_randn (of_nat (Suc n)) x = Some (r, x1)" "unat r < Suc n" using randn_ok[OF n0] un by metis
    show ?thesis
    proof (cases "r < of_nat k")
      case True
      let ?p = "p[k - 1 := of_nat n]"
      have "k - 1 \<le> n" "k - 1 \<le> length ?p" "n < 2 ^ 64" using Suc.prems by simp_all
      from Suc.IH[OF this, of x1] obtain p' x' where p': "choose_small n (k - 1) ?p x1 = Some (p', x')" "length p' = length p"
        "\<forall>i. k - 1 \<le> i \<and> i < length p \<longrightarrow> p' ! i = ?p ! i" "\<forall>i < k - 1. unat (p' ! i) < n" "distinct (take (k - 1) p')" by auto
      have last: "p' ! (k - 1) = of_nat n" using p'(3)[rule_format, of "k - 1"] False Suc.prems by simp
      have tk: "take k p' = take (k - 1) p' @ [of_nat n]"
        using last False Suc.prems p'(2) take_Suc_conv_app_nth[of "k - 1" p'] by simp
      have "of_nat n \<notin> set (take (k - 1) p')" using p'(4) un(3) by (auto simp: in_set_conv_nth)
      then have "distinct (take k p')" using p'(5) unfolding tk by simp
      moreover have "unat (p' ! i) < Suc n" if "i < k" for i
        using that p'(4) last un(3) by (cases "i = k - 1") (auto simp: less_Suc_eq)
      moreover have "p' ! i = p ! i" if "k \<le> i" "i < length p" for i using that False p'(3) by simp
      moreover have "choose_small (Suc n) k p x = Some (p', x')"
        using False r(1) True p'(1) Suc.prems by (simp add: vec_set_ok del: of_nat_Suc)
      ultimately show ?thesis using p'(2) by blast
    next
      case F: False
      then have "k \<le> n" using r(2) un(2) by (simp add: word_less_nat_alt)
      from Suc.IH[OF this, of p x1] show ?thesis using False F r(1) Suc.prems by (auto simp: less_Suc_eq simp del: of_nat_Suc)
    qed
  qed (use Suc in auto)
qed auto

lemma same_loop_ok:
  assumes "j \<le> i" "i < length p"
  shows "\<exists>m. j \<le> m \<and> m \<le> i \<and> same_loop p i j = Some m \<and> p ! m = p ! i \<and> (\<forall>l. j \<le> l \<and> l < m \<longrightarrow> p ! l \<noteq> p ! i)"
  using assms
proof (induction "i - j" arbitrary: j)
  case 0
  then show ?case by (subst same_loop.simps) (auto simp: vec_get_ok)
next
  case (Suc d)
  show ?case
  proof (cases "p ! j = p ! i")
    case True
    then show ?thesis using Suc by (subst same_loop.simps) (auto simp: vec_get_ok)
  next
    case False
    have "d = i - (j + 1)" "j + 1 \<le> i" using Suc by simp_all
    from Suc.hyps(1)[OF this Suc.prems(2)] obtain m where m: "j + 1 \<le> m" "m \<le> i" "same_loop p i (j + 1) = Some m" "p ! m = p ! i"
      "\<forall>l. j + 1 \<le> l \<and> l < m \<longrightarrow> p ! l \<noteq> p ! i" by blast
    have "\<forall>l. j \<le> l \<and> l < m \<longrightarrow> p ! l \<noteq> p ! i" using m(5) False by (metis Suc_eq_plus1 Suc_leI le_neq_implies_less)
    moreover have "same_loop p i j = Some m" using False m(3) Suc.prems by (subst same_loop.simps) (simp add: vec_get_ok)
    ultimately show ?thesis using m by (intro exI[of _ m]) simp
  qed
qed

text \<open>Seven seeds of either parity whose numbers lie within sixteen of each other.\<close>

definition near_seeds :: "bool \<Rightarrow> u64 list" where
  "near_seeds b =
     (if b then [12513991930, 9886870494, 11892376680, 11270761430, 10649146180, 12654652366, 10027530930]
      else [7570556683, 4943435247, 6948941433, 6327326183, 8332832369, 7711217119, 5084095683])"

definition near_base :: "bool \<Rightarrow> nat" where
  "near_base b = (if b then 2 ^ 33 else 2 ^ 32)"

lemma near_out:
  "map (\<lambda>s. unat (out64 s)) (near_seeds b) = map (\<lambda>i. near_base b + i) (if b then [1, 2, 5, 8, 11, 14, 15] else [0, 1, 4, 7, 10, 13, 14])"
  by (cases b) (simp_all add: near_seeds_def near_base_def out64_def lcg_def)

lemma near_parity: "s \<in> set (near_seeds b) \<Longrightarrow> even (unat s) \<longleftrightarrow> b"
  by (cases b) (auto simp: near_seeds_def)

lemma near_mod:
  fixes c i j n :: nat
  assumes "(c + i) mod n = (c + j) mod n" "i < 16" "j < 16" "16 \<le> n"
  shows "i = j"
proof (rule ccontr)
  assume "i \<noteq> j"
  then consider "i < j" | "j < i" by linarith
  then show False
  proof cases
    case 1
    then have "n dvd j - i" using mod_eq_dvd_iff_nat[of "c + i" "c + j" n] assms(1) by simp
    then show False using 1 assms by (auto dest: dvd_imp_le)
  next
    case 2
    then have "n dvd i - j" using mod_eq_dvd_iff_nat[of "c + j" "c + i" n] assms(1) by simp
    then show False using 2 assms by (auto dest: dvd_imp_le)
  qed
qed

text \<open>So seven different numbers below any bound of at least sixteen come up again and again.\<close>

lemma new_number:
  assumes n: "16 \<le> unat n" and B: "finite B" "card B \<le> 6"
  shows "\<exists>j. drawn x j < limit n \<and> drawn x j mod n \<notin> B"
proof -
  define b where "b = odd (unat x)"
  let ?vs = "if b then [1, 2, 5, 8, 11, 14, 15] else [0, 1, 4, 7, 10, 13, 14] :: nat list"
  have vs: "\<forall>v \<in> set ?vs. v < 16" "distinct ?vs" "length ?vs = 7" by (simp_all split: if_splits)
  have outs: "map (\<lambda>s. unat (out64 s)) (near_seeds b) = map (\<lambda>i. near_base b + i) ?vs" by (rule near_out)
  let ?R = "map (\<lambda>s. out64 s mod n) (near_seeds b)"
  have "map unat ?R = map (\<lambda>u. u mod unat n) (map (\<lambda>s. unat (out64 s)) (near_seeds b))" by (simp add: unat_mod_distrib)
  also have "\<dots> = map (\<lambda>v. (near_base b + v) mod unat n) ?vs" unfolding outs by simp
  finally have mR: "map unat ?R = map (\<lambda>v. (near_base b + v) mod unat n) ?vs" .
  have "inj_on (\<lambda>v. (near_base b + v) mod unat n) (set ?vs)" using near_mod[OF _ _ _ n] vs(1) by (intro inj_onI) blast
  then have "distinct (map unat ?R)" unfolding mR distinct_map using vs(2) by blast
  then have "card (set ?R) = length ?R" using distinct_card distinct_map by metis
  also have "\<dots> = 7" using mR vs(3) by (metis length_map)
  finally have "\<not> set ?R \<subseteq> B" using B card_mono[of B "set ?R"] by linarith
  then obtain s where s: "s \<in> set (near_seeds b)" "out64 s mod n \<notin> B" by auto
  obtain j where j: "drawn x j = out64 s" using drawn_all[of s x] near_parity[OF s(1)] by (auto simp: b_def)
  have "unat (out64 s) \<in> set (map (\<lambda>s. unat (out64 s)) (near_seeds b))" using s(1) by simp
  then obtain v where "v \<in> set ?vs" "unat (out64 s) = near_base b + v" unfolding outs by auto
  then have "unat (out64 s) < 2 ^ 63" using vs(1) by (auto simp: near_base_def split: if_splits)
  then have "out64 s < 2 ^ 63" by (simp add: word_less_nat_alt)
  moreover have "2 ^ 63 \<le> limit n" using n by (intro limit_large) auto
  ultimately show ?thesis using j s(2) by (metis less_le_trans)
qed

lemma choose_few_step:
  assumes n: "16 \<le> unat n" and i: "i < k" "k \<le> length p" and j: "drawn x j < limit n" "drawn x j mod n \<notin> set (take i p)"
  shows "\<exists>r x'. choose_few n k p i x = choose_few n k (p[i := r]) (i + 1) x' \<and> unat r < unat n \<and> r \<notin> set (take i p)"
  using j i(2)
proof (induction j arbitrary: x p rule: less_induct)
  case (less j)
  have n0: "n \<noteq> 0" using n by auto
  obtain d where d: "d \<le> j" "t_randn n x = Some (drawn x d mod n, (lcg ^^ (2 * (d + 1))) x)" "drawn x d < limit n"
    using randn_drawn[OF n0 less.prems(1)] by blast
  let ?r = "drawn x d mod n" and ?x = "(lcg ^^ (2 * (d + 1))) x"
  let ?p = "p[i := ?r]"
  have rb: "unat ?r < unat n" using n0 by (simp add: unat_mod_distrib unat_gt_0)
  have il: "i < length p" using i less.prems by simp
  obtain m where m: "m \<le> i" "same_loop ?p i 0 = Some m" "?p ! m = ?p ! i" "\<forall>l < m. ?p ! l \<noteq> ?p ! i"
    using same_loop_ok[of 0 i ?p] il by auto
  have step: "choose_few n k p i x = choose_few n k ?p (if m = i then i + 1 else i) ?x"
    using i(1) il d(2) m(2) by (subst choose_few.simps) (simp add: vec_set_ok)
  have mem: "m = i \<longleftrightarrow> ?r \<notin> set (take i p)"
  proof
    assume "m = i"
    then show "?r \<notin> set (take i p)" using m(4) il by (auto simp: in_set_conv_nth)
  next
    assume "?r \<notin> set (take i p)"
    then show "m = i" using m(1,3) il by (cases "m = i") (auto simp: in_set_conv_nth)
  qed
  show ?case
  proof (cases "m = i")
    case True
    then show ?thesis using step rb mem by auto
  next
    case False
    have "d \<noteq> j" using False mem less.prems by auto
    then have jd: "j - (d + 1) < j" "d + 1 + (j - (d + 1)) = j" using d(1) by simp_all
    have "drawn ?x (j - (d + 1)) = drawn x j" using drawn_add[of "d + 1" x "j - (d + 1)"] jd(2) by simp
    then have "\<exists>r x'. choose_few n k ?p i ?x = choose_few n k (?p[i := r]) (i + 1) x' \<and> unat r < unat n \<and> r \<notin> set (take i ?p)"
      using less.IH[OF jd(1), of ?x ?p] less.prems by simp
    then show ?thesis using step False by simp
  qed
qed

lemma choose_few_ok:
  assumes "16 \<le> unat n" "k < 8" "k \<le> length p" "i \<le> k" "distinct (take i p)" "\<forall>r \<in> set (take i p). unat r < unat n"
  shows "\<exists>p' x'. choose_few n k p i x = Some (p', x') \<and> length p' = length p \<and> distinct (take k p') \<and> (\<forall>r \<in> set (take k p'). unat r < unat n)"
  using assms(3-6)
proof (induction "k - i" arbitrary: i p x)
  case 0
  then show ?case by (subst choose_few.simps) auto
next
  case (Suc d)
  have ik: "i < k" using Suc(2) by simp
  have "card (set (take i p)) \<le> 6" using card_length[of "take i p"] ik assms(2) by simp
  then obtain j where "drawn x j < limit n" "drawn x j mod n \<notin> set (take i p)" using new_number[OF assms(1)] by blast
  from choose_few_step[OF assms(1) ik Suc.prems(1) this] obtain r x' where r: "choose_few n k p i x = choose_few n k (p[i := r]) (i + 1) x'"
    "unat r < unat n" "r \<notin> set (take i p)" by blast
  have tk: "take (i + 1) (p[i := r]) = take i p @ [r]" using ik Suc.prems(1) by (simp add: take_Suc_conv_app_nth)
  have "d = k - (i + 1)" "k \<le> length (p[i := r])" "i + 1 \<le> k" "distinct (take (i + 1) (p[i := r]))"
    "\<forall>u \<in> set (take (i + 1) (p[i := r])). unat u < unat n"
    using Suc.hyps(2) Suc.prems ik r(2,3) unfolding tk by auto
  from Suc.hyps(1)[OF this, of x'] show ?case using r(1) by simp
qed

end
