(* ===== verification/C_Rand_Table.thy ===== *)
theory C_Rand_Table
  imports C_Rand_Props
begin

text \<open>
  The hash table of \<^verbatim>\<open>rand.c\<close>.  Its probes are at the triangular numbers after the first place; modulo a power of two
  they reach every place, so that an insertion ends as long as one is empty.
\<close>

section \<open>The places that are probed\<close>

definition tri :: "nat \<Rightarrow> nat" where
  "tri d = d * (d + 1) div 2"

lemma tri_double: "2 * tri d = d * (d + 1)"
  unfolding tri_def by (rule dvd_mult_div_cancel) simp

lemma tri_Suc: "tri (Suc d) = tri d + Suc d"
proof -
  have "2 * tri (Suc d) = 2 * (tri d + Suc d)" unfolding tri_double distrib_left by simp
  then show ?thesis by simp
qed

definition place :: "nat \<Rightarrow> nat \<Rightarrow> nat \<Rightarrow> nat" where
  "place e v d = (v + tri d) mod 2 ^ e"

lemma place_less [simp]: "place e v d < 2 ^ e"
  by (simp add: place_def)

lemma tri_apart:
  assumes "i < j" "j < 2 ^ e" "(v + tri i) mod 2 ^ e = (v + tri j) mod 2 ^ e"
  shows False
proof -
  obtain k where k: "j = i + Suc k" using assms(1) less_imp_Suc_add by auto
  have "2 * tri j = 2 * tri i + Suc k * (i + j + 1)" unfolding tri_double k by (simp add: algebra_simps)
  then have le: "2 * (tri j - tri i) = Suc k * (i + j + 1)" "tri i \<le> tri j" by simp_all
  have "2 ^ e dvd tri j - tri i" using mod_eq_dvd_iff_nat[of "v + tri i" "v + tri j" "2 ^ e"] assms(3) le(2) by simp
  then have dvd: "2 ^ Suc e dvd Suc k * (i + j + 1)" unfolding le(1)[symmetric] power_Suc by (rule mult_dvd_mono[OF dvd_refl])
  show False
  proof (cases "odd (Suc k)")
    case True
    then have "coprime (2 ^ Suc e) (Suc k)" by (simp only: coprime_power_left_iff coprime_left_2_iff_odd) simp
    then have "2 ^ Suc e dvd i + j + 1" using dvd by (simp only: coprime_dvd_mult_right_iff)
    then have "2 ^ Suc e \<le> i + j + 1" by (rule dvd_imp_le) simp
    then show False using assms(1,2) by simp
  next
    case False
    then have "odd (i + j + 1)" unfolding k by simp
    then have "coprime (2 ^ Suc e) (i + j + 1)" by (simp only: coprime_power_left_iff coprime_left_2_iff_odd) simp
    then have "2 ^ Suc e dvd Suc k" using dvd by (simp only: coprime_dvd_mult_left_iff)
    then have "2 ^ Suc e \<le> Suc k" by (rule dvd_imp_le) simp
    moreover have "(2 :: nat) ^ e \<le> 2 ^ Suc e" by simp
    ultimately show False using assms(1,2) k by linarith
  qed
qed

lemma places_all: "place e v ` {..< 2 ^ e} = {..< 2 ^ e}"
proof (rule card_subset_eq)
  have "inj_on (place e v) {..< 2 ^ e}"
    using tri_apart by (intro linorder_inj_onI) (auto simp: place_def)
  then show "card (place e v ` {..< 2 ^ e}) = card {..< 2 ^ e :: nat}" by (simp add: card_image)
qed auto

lemma unat_of_nat64: "a < 2 ^ 64 \<Longrightarrow> unat (of_nat a :: u64) = a"
  by (simp add: unat_of_nat)

lemma and_len: "(of_nat a :: u64) AND (2 ^ e - 1) = of_nat (a mod 2 ^ e)" if "e \<le> 64"
proof -
  have d: "(2 :: nat) ^ e dvd 2 ^ 64" using that by (rule le_imp_power_dvd)
  have "(of_nat a :: u64) AND (2 ^ e - 1) = take_bit e (of_nat a)" by (simp only: take_bit_eq_mask mask_eq_exp_minus_1)
  moreover have "unat (take_bit e (of_nat a :: u64)) = a mod 2 ^ 64 mod 2 ^ e"
    unfolding unsigned_take_bit_eq by (simp add: unat_of_nat take_bit_eq_mod)
  moreover have "unat (of_nat (a mod 2 ^ e) :: u64) = a mod 2 ^ e"
  proof (rule unat_of_nat64)
    have "(2 :: nat) ^ e \<le> 2 ^ 64" using that by (rule power_increasing) simp
    moreover have "a mod 2 ^ e < 2 ^ e" by (rule mod_less_divisor) simp
    ultimately show "a mod 2 ^ e < 2 ^ 64" by (rule order_less_le_trans[rotated])
  qed
  ultimately show ?thesis by (simp only: word_unat_eq_iff mod_mod_cancel[OF d])
qed

section \<open>Insertion\<close>

text \<open>Every value is found at its place: no empty one comes before on its way.\<close>

definition tab_ok :: "nat \<Rightarrow> u64 list \<Rightarrow> bool" where
  "tab_ok e tab \<longleftrightarrow> length tab = 2 ^ e \<and>
     (\<forall>u \<in> set tab. u \<noteq> 0 \<longrightarrow> (\<exists>d. tab ! place e (unat u) d = u \<and> (\<forall>d' < d. tab ! place e (unat u) d' \<noteq> 0)))"

lemma insert_loop_ok:
  fixes v :: u64
  assumes e: "e < 64" and len: "length tab = 2 ^ e" and v: "v \<noteq> 0" and d: "d \<le> D" "D < 2 ^ e"
    and full: "\<forall>d' < D. tab ! place e (unat v) d' \<noteq> 0 \<and> tab ! place e (unat v) d' \<noteq> v"
    and stop: "tab ! place e (unat v) D = 0 \<or> tab ! place e (unat v) D = v"
  shows "tab_insert_loop tab (2 ^ e) v (of_nat (place e (unat v) d)) (of_nat (d + 1)) =
    (if tab ! place e (unat v) D = v then Some (- 1, tab) else Some (0, tab[place e (unat v) D := v]))"
  using d
proof (induction "D - d" arbitrary: d)
  let ?p = "place e (unat v)"
  have e64: "(2 :: nat) ^ e < 2 ^ 64" using e by (intro power_strict_increasing) simp_all
  have un: "unat (of_nat (?p d) :: u64) = ?p d" for d
    by (rule unat_of_nat64[OF less_trans[OF place_less e64]])
  {
    case 0
    then have "d = D" by simp
    then show ?case using stop v len by (subst tab_insert_loop.simps) (auto simp: un vec_get_def vec_set_def)
  next
    case (Suc m)
    have "d < D" using Suc(2) by simp
    then have nz: "tab ! ?p d \<noteq> 0" "tab ! ?p d \<noteq> v" using full by blast+
    have "(of_nat (?p d) + of_nat (d + 1) :: u64) AND (2 ^ e - 1) = of_nat (?p d + (d + 1)) AND (2 ^ e - 1)" by (simp only: of_nat_add)
    also have "\<dots> = of_nat ((?p d + (d + 1)) mod 2 ^ e)" using e by (intro and_len) simp
    also have "(?p d + (d + 1)) mod 2 ^ e = ?p (d + 1)"
      unfolding place_def mod_add_left_eq by (simp add: tri_Suc add.assoc)
    finally have nxt: "(of_nat (?p d) + of_nat (d + 1) :: u64) AND (2 ^ e - 1) = of_nat (?p (d + 1))" .
    have "vec_get tab (unat (of_nat (?p d) :: u64)) = Some (tab ! ?p d)" using len by (simp add: un vec_get_def)
    then have "tab_insert_loop tab (2 ^ e) v (of_nat (?p d)) (of_nat (d + 1)) =
        tab_insert_loop tab (2 ^ e) v (of_nat (?p (d + 1))) (of_nat (d + 1) + 1)"
      using nz nxt by (subst tab_insert_loop.simps) (simp del: of_nat_add of_nat_Suc)
    also have "(of_nat (d + 1) + 1 :: u64) = of_nat (d + 1 + 1)" by simp
    finally have "tab_insert_loop tab (2 ^ e) v (of_nat (?p d)) (of_nat (d + 1)) =
        tab_insert_loop tab (2 ^ e) v (of_nat (?p (d + 1))) (of_nat (d + 1 + 1))" .
    then show ?case using Suc.hyps(1)[of "d + 1"] Suc.hyps(2) Suc.prems \<open>d < D\<close> by simp
  }
qed

lemma tab_insert_ok:
  fixes v :: u64
  assumes e: "e < 64" and ok: "tab_ok e tab" and free: "0 \<in> set tab" and v: "v \<noteq> 0"
  shows "if v \<in> set tab then tab_insert tab (2 ^ e) v = Some (- 1, tab)
    else \<exists>i < 2 ^ e. tab ! i = 0 \<and> tab_insert tab (2 ^ e) v = Some (0, tab[i := v]) \<and> tab_ok e (tab[i := v])"
proof -
  let ?p = "place e (unat v)"
  have len: "length tab = 2 ^ e" using ok by (simp add: tab_ok_def)
  define P where "P d \<longleftrightarrow> tab ! ?p d = 0 \<or> tab ! ?p d = v" for d
  obtain i where "i < 2 ^ e" "tab ! i = 0" using free len by (auto simp: in_set_conv_nth)
  then obtain d0 where d0: "d0 < 2 ^ e" "P d0" using places_all[of e "unat v"]
    by (metis P_def imageE lessThan_iff)
  define D where "D = (LEAST d. P d)"
  have "P D" unfolding D_def using d0(2) by (rule LeastI)
  moreover have "D \<le> d0" unfolding D_def using d0(2) by (rule Least_le)
  moreover have "\<forall>d < D. \<not> P d" unfolding D_def by (blast dest: not_less_Least)
  ultimately have D: "P D" "D < 2 ^ e" "\<forall>d < D. \<not> P d" using d0(1) by (blast intro: le_less_trans)+
  have "v AND (2 ^ e - 1) = of_nat (?p 0)" using and_len[of e "unat v"] e by (simp add: place_def tri_def)
  then have run: "tab_insert tab (2 ^ e) v = (if tab ! ?p D = v then Some (- 1, tab) else Some (0, tab[?p D := v]))"
    using insert_loop_ok[OF e len v, of 0 D] D by (simp add: tab_insert_def P_def)
  show ?thesis
  proof (cases "tab ! ?p D = v")
    case True
    then have "v \<in> set tab" using len by (metis nth_mem place_less)
    then show ?thesis using run True by simp
  next
    case False
    then have z: "tab ! ?p D = 0" using D(1) by (simp add: P_def)
    have new: "v \<notin> set tab"
    proof
      assume "v \<in> set tab"
      then obtain d where d: "tab ! ?p d = v" "\<forall>d' < d. tab ! ?p d' \<noteq> 0" using ok v by (auto simp: tab_ok_def)
      have "\<not> d < D" using d(1) D(3) by (auto simp: P_def)
      moreover have "\<not> D < d" using d(2) z by blast
      ultimately show False using d(1) False by (metis linorder_neqE_nat)
    qed
    have "tab_ok e (tab[?p D := v])"
      unfolding tab_ok_def
    proof (intro conjI ballI impI)
      fix u assume u: "u \<in> set (tab[?p D := v])" "u \<noteq> 0"
      have up: "tab[?p D := v] ! i = (if i = ?p D then v else tab ! i)" for i using len by (cases "i = ?p D") simp_all
      show "\<exists>d. tab[?p D := v] ! place e (unat u) d = u \<and> (\<forall>d' < d. tab[?p D := v] ! place e (unat u) d' \<noteq> 0)"
      proof (cases "u = v")
        case True
        then show ?thesis using D(3) v by (intro exI[of _ D]) (auto simp: up P_def)
      next
        case False
        then have "u \<in> set tab" using u(1) by (metis insert_iff set_update_subset_insert subsetD)
        then obtain d where d: "tab ! place e (unat u) d = u" "\<forall>d' < d. tab ! place e (unat u) d' \<noteq> 0" using ok u(2) by (auto simp: tab_ok_def)
        then show ?thesis using z u(2) v by (intro exI[of _ d]) (auto simp: up)
      qed
    qed (simp add: len)
    then show ?thesis using run False new z by (auto intro!: exI[of _ "?p D"])
  qed
qed

text \<open>
  C35: Insertion into the hash table.  In a table of a power of two places with an empty one, where every value is on the
  way of its probes, it ends: with -1 if the value is there already, and otherwise with the value in an
  empty place, the rest unchanged and every value again on the way of its probes.  The empty table is
  such a table.
\<close>

theorem insert_correct:
  assumes "e < 64" "v \<noteq> 0"
  shows "tab_ok e (replicate (2 ^ e) 0) \<and>
    (tab_ok e tab \<and> 0 \<in> set tab \<longrightarrow>
      (if v \<in> set tab then tab_insert tab (2 ^ e) v = Some (- 1, tab)
       else \<exists>i < 2 ^ e. tab ! i = 0 \<and> tab_insert tab (2 ^ e) v = Some (0, tab[i := v]) \<and> tab_ok e (tab[i := v])))"
  using tab_insert_ok[OF assms(1) _ _ assms(2), of tab] by (auto simp: tab_ok_def)

theorem insert_correct_witness:
  "\<exists>i < 4. tab_insert [0, 0, 0, 0] 4 6 = Some (0, [0, 0, 0, 0][i := 6]) \<and> tab_ok 2 ([0, 0, 0, 0][i := 6])"
proof -
  have r: "replicate (2 ^ 2) 0 = [0, 0, 0, 0 :: u64]" by (simp add: numeral_eq_Suc)
  have "(2 :: nat) < 64" "(6 :: u64) \<noteq> 0" by simp_all
  from insert_correct[OF this, of "[0, 0, 0, 0]"] show ?thesis unfolding r by auto
qed

end
