(* ===== verification/C_Rand_Choose.thy ===== *)
theory C_Rand_Choose
  imports C_Rand_Table
begin

text \<open>
  \<^verbatim>\<open>t_choose\<close> of \<^verbatim>\<open>rand.c\<close> in all its branches, and the test of \<^verbatim>\<open>qsort.c\<close> on random numbers.
\<close>

definition chosen :: "nat \<Rightarrow> u64 list \<Rightarrow> bool" where
  "chosen n p \<longleftrightarrow> distinct p \<and> (\<forall>r \<in> set p. unat r < n)"

section \<open>Shuffling all numbers\<close>

lemma distinct_numbers: "n \<le> 2 ^ 64 \<Longrightarrow> distinct (map (of_nat :: nat \<Rightarrow> u64) [0..<n])"
  by (intro distinct_map[THEN iffD2] conjI inj_on_inverseI[of _ unat]) (auto intro!: unat_of_nat64 elim: order_less_le_trans)

lemma choose_shuffle_ok:
  assumes "length p = k" "length tab = n - k" "k \<le> n" "n < 2 ^ 64"
  shows "\<exists>p' x'. choose_shuffle n k p tab x = Some (p', x') \<and> length p' = k \<and> chosen n p'"
proof -
  let ?p = "map of_nat [0..<k] :: u64 list" and ?t = "map of_nat [k..<n] :: u64 list"
  have split: "[0..<n] = [0..<k] @ [k..<n]" using assms(3) by (metis le_add_diff_inverse upt_add_eq_append zero_le)
  have fin: "chosen n p'" if "mset p' + mset t' = mset ?p + mset ?t" for p' t'
  proof -
    have m: "mset (p' @ t') = mset (map of_nat [0..<n])" using that unfolding split by simp
    have "distinct (p' @ t')" using mset_eq_imp_distinct_iff[OF m] distinct_numbers[of n] assms(4) by simp
    moreover have "set p' \<subseteq> of_nat ` {0..<n}" using mset_eq_setD[OF m] by auto
    then have "\<forall>r \<in> set p'. unat r < n" using assms(4) by (auto simp: unat_of_nat64)
    ultimately show ?thesis by (simp add: chosen_def)
  qed
  have f: "fill_from 0 [0..<k] p = Some ?p" "fill_from k [k..<n] tab = Some ?t"
    using fill_all[of p k 0] fill_all[of tab n k] assms by simp_all
  show ?thesis
  proof (cases "k < n - k")
    case True
    obtain p' t' x' where s: "shuffle2 ?p ?t k (n - k) x = Some (p', t', x')" "length p' = length ?p" "mset p' + mset t' = mset ?p + mset ?t"
      using shuffle2_ok[of k ?p "n - k" ?t x] assms by auto
    then show ?thesis using f True fin[of p' t'] by (simp add: choose_shuffle_def)
  next
    case False
    obtain p' t' x' where s: "shuffle2 ?t ?p (n - k) k x = Some (t', p', x')" "length p' = length ?p" "mset t' + mset p' = mset ?t + mset ?p"
      using shuffle2_ok[of "n - k" ?t k ?p x] assms by auto
    then show ?thesis using f False fin[of p' t'] by (simp add: choose_shuffle_def add.commute)
  qed
qed

section \<open>The hash table\<close>

definition nonzero :: "u64 list \<Rightarrow> u64 list" where
  "nonzero tab = filter (\<lambda>x. x \<noteq> 0) tab"

definition tab_inv :: "nat \<Rightarrow> nat \<Rightarrow> u64 \<Rightarrow> u64 list \<Rightarrow> bool" where
  "tab_inv e m n tab \<longleftrightarrow> tab_ok e tab \<and> distinct (nonzero tab) \<and> length (nonzero tab) = m \<and>
     (\<forall>x \<in> set (nonzero tab). x - 1 < n)"

lemma nonzero_insert:
  assumes "i < length tab" "tab ! i = 0" "v \<noteq> 0"
  shows "mset (nonzero (tab[i := v])) = add_mset v (mset (nonzero tab))"
  using assms by (simp add: nonzero_def mset_filter mset_update)

lemma tab_inv_insert:
  assumes e: "e < 64" and inv: "tab_inv e m n tab" and m: "m < 2 ^ e" and r: "r < n"
    and run: "tab_insert tab (2 ^ e) (r + 1) = Some (c, tab')"
  shows "if c = 0 then tab_inv e (m + 1) n tab' else tab' = tab"
proof -
  have ok: "tab_ok e tab" using inv by (simp add: tab_inv_def)
  have v: "r + 1 \<noteq> 0" using r by (metis add_diff_cancel_right' diff_0 not_less word_n1_ge)
  have free: "0 \<in> set tab"
  proof (rule ccontr)
    assume "0 \<notin> set tab"
    then have "nonzero tab = tab" by (auto simp: nonzero_def filter_id_conv)
    then show False using inv m by (simp add: tab_inv_def tab_ok_def)
  qed
  show ?thesis
  proof (cases "r + 1 \<in> set tab")
    case True
    then show ?thesis using tab_insert_ok[OF e ok free v] run by simp
  next
    case False
    then obtain i where i: "i < 2 ^ e" "tab ! i = 0" "c = 0" "tab' = tab[i := r + 1]" "tab_ok e tab'"
      using tab_insert_ok[OF e ok free v] run by auto
    then have ms: "mset (nonzero tab') = mset ((r + 1) # nonzero tab)"
      using nonzero_insert[of i tab "r + 1"] ok v by (simp add: tab_ok_def)
    have "distinct (nonzero tab')" using mset_eq_imp_distinct_iff[OF ms] inv False by (simp add: tab_inv_def nonzero_def)
    moreover have "length (nonzero tab') = m + 1" using mset_eq_length[OF ms] inv by (simp add: tab_inv_def)
    moreover have "\<forall>x \<in> set (nonzero tab'). x - 1 < n" using mset_eq_setD[OF ms] inv r by (auto simp: tab_inv_def)
    ultimately show ?thesis using i by (simp add: tab_inv_def)
  qed
qed

lemma insert_new_inv:
  assumes "insert_new tab (2 ^ e) n x = Some y" "e < 64" "n \<noteq> 0" "tab_inv e m n tab" "m < 2 ^ e"
  shows "tab_inv e (m + 1) n (fst y)"
proof -
  let ?P = "\<lambda>tab (len :: u64) n (x :: u64) (y :: u64 list \<times> u64). len = 2 ^ e \<longrightarrow> n \<noteq> 0 \<longrightarrow> tab_inv e m n tab \<longrightarrow> tab_inv e (m + 1) n (fst y)"
  have "?P tab (2 ^ e) n x y"
  proof (rule insert_new.raw_induct[of ?P, OF _ assms(1)], intro impI)
    fix ins :: "u64 list \<Rightarrow> u64 \<Rightarrow> u64 \<Rightarrow> u64 \<Rightarrow> (u64 list \<times> u64) option" and tab len n x y
    assume IH: "\<And>tab len n x y. ins tab len n x = Some y \<Longrightarrow> ?P tab len n x y"
      and body: "Option.bind (t_randn n x) (\<lambda>(r, x). Option.bind (tab_insert tab len (r + 1))
        (\<lambda>(c, tab). if c \<noteq> 0 then ins tab len n x else Some (tab, x))) = Some y"
      and a: "len = 2 ^ e" "n \<noteq> 0" "tab_inv e m n tab"
    obtain r x1 where r: "t_randn n x = Some (r, x1)" "r < n" using randn_ok[OF a(2)] by (metis word_less_nat_alt)
    obtain c tab' where t: "tab_insert tab (2 ^ e) (r + 1) = Some (c, tab')" using body a(1) r by (auto simp: bind_eq_Some_conv)
    have "if c = 0 then tab_inv e (m + 1) n tab' else tab' = tab" using tab_inv_insert[OF assms(2) a(3) assms(5) r(2) t] .
    then show "tab_inv e (m + 1) n (fst y)" using body a r t IH by (cases "c = 0") auto
  qed
  then show ?thesis using assms by simp
qed

lemma insert_all_inv:
  assumes "insert_all k tab (2 ^ e) n x = Some (tab', x')" "e < 64" "n \<noteq> 0" "tab_inv e m n tab" "m + k \<le> 2 ^ e"
  shows "tab_inv e (m + k) n tab'"
  using assms
proof (induction k arbitrary: m tab x)
  case (Suc k)
  obtain t1 x1 where t1: "insert_new tab (2 ^ e) n x = Some (t1, x1)" "insert_all k t1 (2 ^ e) n x1 = Some (tab', x')"
    using Suc.prems(1) by (auto simp: bind_eq_Some_conv)
  have "tab_inv e (m + 1) n t1" using insert_new_inv[OF t1(1) Suc.prems(2-4)] Suc.prems(5) by simp
  then show ?case using Suc.IH[OF t1(2) Suc.prems(2,3), of "m + 1"] Suc.prems(5) by simp
qed simp

lemma collect_tab_ok:
  assumes "b \<le> length tab" "a \<le> b" "pos + length (nonzero (drop a (take b tab))) \<le> length p"
  shows "\<exists>p'. collect_tab [a..<b] tab pos p = Some p' \<and> length p' = length p \<and>
    take (pos + length (nonzero (drop a (take b tab)))) p' = take pos p @ map (\<lambda>x. x - 1) (nonzero (drop a (take b tab)))"
  using assms
proof (induction "b - a" arbitrary: a pos p)
  case (Suc d)
  have ab: "a < b" using Suc(2) by simp
  have l: "[a..<b] = a # [a + 1..<b]" using ab by (simp add: upt_conv_Cons)
  have dr: "drop a (take b tab) = tab ! a # drop (a + 1) (take b tab)"
    using ab Suc.prems(1) by (simp add: Cons_nth_drop_Suc[symmetric])
  have g: "vec_get tab a = Some (tab ! a)" using ab Suc.prems(1) by (simp add: vec_get_def)
  have d: "d = b - (a + 1)" "a + 1 \<le> b" using Suc(2) ab by simp_all
  show ?case
  proof (cases "tab ! a = 0")
    case True
    then have "nonzero (drop a (take b tab)) = nonzero (drop (a + 1) (take b tab))" unfolding dr by (simp add: nonzero_def)
    then show ?thesis using Suc.hyps(1)[OF d(1) Suc.prems(1) d(2), of pos p] Suc.prems(3) True g unfolding l by simp
  next
    case False
    let ?p = "p[pos := tab ! a - 1]"
    have nz: "nonzero (drop a (take b tab)) = tab ! a # nonzero (drop (a + 1) (take b tab))" unfolding dr using False by (simp add: nonzero_def)
    have pl: "pos < length p" using Suc.prems(3) unfolding nz by simp
    then have "collect_tab [a..<b] tab pos p = collect_tab [a + 1..<b] tab (pos + 1) ?p" using False g unfolding l by (simp add: vec_set_def)
    moreover have "take (pos + 1) ?p = take pos p @ [tab ! a - 1]" using pl by (simp add: take_Suc_conv_app_nth)
    ultimately show ?thesis using Suc.hyps(1)[OF d(1) Suc.prems(1) d(2), of "pos + 1" ?p] Suc.prems(3) unfolding nz by simp
  qed
qed (simp add: nonzero_def)

lemma table_len_ok:
  assumes "2 * unat k \<le> 2 ^ 60" "e \<le> 60"
  shows "\<exists>e'. e \<le> e' \<and> e' \<le> 60 \<and> table_len k (2 ^ e) = Some (2 ^ e') \<and> 2 * unat k \<le> 2 ^ e'"
  using assms(2)
proof (induction "60 - e" arbitrary: e)
  have uk: "unat (2 * k) = 2 * unat k" using assms(1) by (simp add: unat_mult_lem[THEN iffD1])
  have ue: "unat (2 ^ e :: u64) = 2 ^ e" if "e \<le> 60" for e
  proof -
    have "(2 :: nat) ^ e \<le> 2 ^ 60" using that by (rule power_increasing) simp
    then have "unat (of_nat (2 ^ e) :: u64) = 2 ^ e" by (intro unat_of_nat64) (erule order_le_less_trans, simp)
    then show ?thesis by simp
  qed
  {
    case 0
    then have "e = 60" by simp
    then have "\<not> (2 ^ e :: u64) < 2 * k" using ue[of e] uk assms(1) by (simp only: word_less_nat_alt)
    then show ?case using \<open>e = 60\<close> assms(1) by (intro exI[of _ e]) (subst table_len.simps, simp)
  next
    case (Suc d)
    show ?case
    proof (cases "(2 ^ e :: u64) < 2 * k")
      case True
      then have "table_len k (2 ^ e) = table_len k (2 ^ (e + 1))" by (subst table_len.simps) (simp add: mult.commute)
      moreover obtain e' where "e + 1 \<le> e'" "e' \<le> 60" "table_len k (2 ^ (e + 1)) = Some (2 ^ e')" "2 * unat k \<le> 2 ^ e'"
      proof -
        have "d = 60 - (e + 1)" "e + 1 \<le> 60" using Suc.hyps(2) by simp_all
        from Suc.hyps(1)[OF this] show ?thesis using that by blast
      qed
      ultimately show ?thesis by (intro exI[of _ e']) simp
    next
      case False
      then have "2 * unat k \<le> 2 ^ e" using ue[OF Suc.prems] uk by (simp add: word_less_nat_alt)
      then show ?thesis using False Suc.prems by (subst table_len.simps) auto
    qed
  }
qed

lemma choose_hash_ok:
  assumes run: "choose_hash n k p (replicate (2 ^ e) 0) (2 ^ e) x = Some (p', x')" and "e < 64" "n \<noteq> 0" "k \<le> 2 ^ e" "length p = k"
  shows "length p' = k \<and> chosen (unat n) p'"
proof -
  have nz0: "nonzero (replicate (2 ^ e) 0) = []" by (simp add: nonzero_def)
  have "tab_inv e 0 n (replicate (2 ^ e) 0)" by (simp add: tab_inv_def tab_ok_def nz0)
  moreover obtain tab' x1 where t: "insert_all k (replicate (2 ^ e) 0) (2 ^ e) n x = Some (tab', x1)"
    "collect_tab [0..<unat (2 ^ e :: u64)] tab' 0 p = Some p'"
    using run by (auto simp: choose_hash_def bind_eq_Some_conv)
  ultimately have inv: "tab_inv e k n tab'" using insert_all_inv[OF t(1) assms(2,3), of 0] assms(4) by simp
  have "(2 :: nat) ^ e < 2 ^ 64" using assms(2) by (intro power_strict_increasing) simp_all
  then have ue: "unat (2 ^ e :: u64) = 2 ^ e" using unat_of_nat64[of "2 ^ e"] by simp
  have len: "length tab' = 2 ^ e" "length (nonzero tab') = k" using inv by (simp_all add: tab_inv_def tab_ok_def)
  have pe: "p' = map (\<lambda>x. x - 1) (nonzero tab')" "length p' = k"
    using collect_tab_ok[of "2 ^ e" tab' 0 0 p] t(2) len assms(5) unfolding ue by auto
  have "inj_on (\<lambda>x :: u64. x - 1) A" for A by (rule inj_onI) simp
  then have "distinct p'" unfolding pe(1) distinct_map using inv by (simp add: tab_inv_def)
  moreover have "\<forall>r \<in> set p'. unat r < unat n" unfolding pe(1) using inv by (auto simp: tab_inv_def word_less_nat_alt)
  ultimately show ?thesis using pe(2) by (simp add: chosen_def)
qed

section \<open>Choosing numbers\<close>

lemma fits_words:
  fixes k n :: u64
  assumes "unat k * 40 < 2 ^ 64"
  shows "unat (5 * k) = 5 * unat k" "2 * unat k \<le> 2 ^ 60" "n < 5 * k \<Longrightarrow> k \<le> n \<Longrightarrow> unat ((n - k) * 8) = (unat n - unat k) * 8"
proof -
  show 5: "unat (5 * k) = 5 * unat k" using assms by (simp add: unat_mult_lem[THEN iffD1])
  show "2 * unat k \<le> 2 ^ 60" using assms by simp
  assume nk: "n < 5 * k" "k \<le> n"
  have d: "unat (n - k) = unat n - unat k" using nk(2) by (rule unat_sub)
  have "unat n < 5 * unat k" using nk(1) 5 by (simp only: word_less_nat_alt)
  then have "unat (n - k) * 8 < 2 ^ 64" using assms d by simp
  then have "unat ((n - k) * 8) = unat (n - k) * unat (8 :: u64)" by (intro unat_mult_lem[THEN iffD1]) simp
  then show "unat ((n - k) * 8) = (unat n - unat k) * 8" unfolding d by simp
qed

text \<open>
  C34: \<^verbatim>\<open>t_choose(n, k, p)\<close> with an array of \<open>k\<close> numbers.  It returns -1 if \<open>k > n\<close>.  Otherwise, when it returns 0, the array
  holds \<open>k\<close> different numbers below \<open>n\<close>; and it does return, whatever the seed, when \<open>n < 16\<close> or \<open>k < 8\<close>, with 0, and when
  \<open>n < 5 k\<close>, with 0 or, if \<^verbatim>\<open>malloc\<close> fails, -1.
\<close>

theorem t_choose_correct:
  assumes p: "length p = unat k" "unat k * 40 < 2 ^ 64"
    and malloc: "\<forall>sz tab. malloc sz = Some tab \<longrightarrow> length tab = unat sz div 8"
    and calloc: "\<forall>c tab. calloc c 8 = Some tab \<longrightarrow> tab = replicate (unat c) 0"
  shows "(if n < k then t_choose malloc calloc n k p seed = Some (- 1, p, seed)
    else (n < 16 \<or> k < 8 \<longrightarrow> (\<exists>p' seed'. t_choose malloc calloc n k p seed = Some (0, p', seed'))) \<and>
      (n < 5 * k \<longrightarrow> (\<exists>p' seed'. t_choose malloc calloc n k p seed = Some (0, p', seed')) \<or>
        malloc ((n - k) * 8) = None \<and> t_choose malloc calloc n k p seed = Some (- 1, p, seed)) \<and>
      (\<forall>p' seed'. t_choose malloc calloc n k p seed = Some (0, p', seed') \<longrightarrow> length p' = unat k \<and> distinct p' \<and> (\<forall>r \<in> set p'. r < n)))"
proof (cases "n < k")
  case True
  then show ?thesis by (simp add: t_choose_def)
next
  case False
  then have kn: "k \<le> n" "unat k \<le> unat n" by (simp_all add: word_le_nat_alt not_less)
  let ?c = "t_choose malloc calloc n k p seed"
  let ?good = "\<lambda>p'. length p' = unat k \<and> chosen (unat n) p'"
  have small: "\<exists>p' x'. ?c = Some (0, p', x') \<and> ?good p'" if "n < 16"
    using choose_small_ok[of "unat k" "unat n" p seed] kn p(1) unat64[of n] that
    by (auto simp: t_choose_def chosen_def in_set_conv_nth)
  have few: "\<exists>p' x'. ?c = Some (0, p', x') \<and> ?good p'" if "\<not> n < 16" "k < 8"
  proof -
    have "16 \<le> unat n" "unat k < 8" using that by (simp_all add: word_less_nat_alt)
    then show ?thesis using choose_few_ok[of n "unat k" p 0 seed] p(1) that kn
      by (auto simp: t_choose_def chosen_def)
  qed
  have shuffled: "(\<exists>p' x'. ?c = Some (0, p', x') \<and> ?good p') \<or> malloc ((n - k) * 8) = None \<and> ?c = Some (- 1, p, seed)"
    if h: "\<not> n < 16" "\<not> k < 8" "n < 5 * k"
  proof -
    note u = fits_words(3)[OF p(2) h(3) kn(1)]
    have lt: "(n - k) * 8 < - 1"
    proof -
      have "unat ((n - k) * 8) \<noteq> 2 ^ 64 - 1" unfolding u
      proof -
        have "a * 8 \<noteq> 18446744073709551615" for a :: nat by presburger
        then show "(unat n - unat k) * 8 \<noteq> 2 ^ 64 - 1" by simp
      qed
      moreover have "unat (- 1 :: u64) = 2 ^ 64 - 1" by (simp add: unsigned_minus_1_eq_mask mask_eq_exp_minus_1)
      ultimately show ?thesis using unat64[of "(n - k) * 8"] unfolding word_less_nat_alt by linarith
    qed
    show ?thesis
    proof (cases "malloc ((n - k) * 8)")
      case (Some tab)
      then have "length tab = unat n - unat k" using malloc u by auto
      then show ?thesis using choose_shuffle_ok[of p "unat k" tab "unat n" seed] p(1) kn unat64[of n] Some h lt False
        by (auto simp: t_choose_def)
    qed (use h lt False in \<open>simp add: t_choose_def\<close>)
  qed
  have hashed: "?good p'" if h: "\<not> n < 16" "\<not> k < 8" "\<not> n < 5 * k" and r: "?c = Some (0, p', x')" for p' x'
  proof -
    obtain e where e: "e \<le> 60" "table_len k (2 ^ 4) = Some (2 ^ e)" "2 * unat k \<le> 2 ^ e"
      using table_len_ok[OF fits_words(2)[OF p(2)], of 4] by auto
    have ue: "unat (2 ^ e :: u64) = 2 ^ e"
    proof -
      have "(2 :: nat) ^ e \<le> 2 ^ 60" using e(1) by (rule power_increasing) simp
      then have "unat (of_nat (2 ^ e) :: u64) = 2 ^ e" by (intro unat_of_nat64) (erule order_le_less_trans, simp)
      then show ?thesis by simp
    qed
    obtain tab where t: "calloc (2 ^ e) 8 = Some tab" "choose_hash n (unat k) p tab (2 ^ e) seed = Some (p', x')"
      using r h e(2) False by (auto simp: t_choose_def bind_eq_Some_conv split: option.splits)
    have "tab = replicate (2 ^ e) 0" using calloc[rule_format, OF t(1)] unfolding ue .
    moreover have "n \<noteq> 0" using h(1) by auto
    ultimately show ?thesis using choose_hash_ok[of n "unat k" p e seed p' x'] t(2) e h p(1) by auto
  qed
  have lt: "\<forall>r \<in> set p'. r < n" "distinct p'" if "chosen (unat n) p'" for p' using that by (auto simp: chosen_def word_less_nat_alt)
  show ?thesis
  proof (cases "n < 16 \<or> k < 8")
    case True
    then obtain p' x' where "?c = Some (0, p', x')" "?good p'" using small few by blast
    then show ?thesis using False lt[of p'] by simp
  next
    case N: False
    show ?thesis
    proof (cases "n < 5 * k")
      case True
      have "\<not> n < 16" "\<not> k < 8" using N by simp_all
      from shuffled[OF this True] show ?thesis
      proof (elim disjE exE conjE)
        fix p' x' assume "?c = Some (0, p', x')" "length p' = unat k" "chosen (unat n) p'"
        then show ?thesis using N False lt[of p'] by simp
      qed (use N False in simp_all)
    next
      case F: False
      then show ?thesis using hashed N False lt by auto
    qed
  qed
qed

text \<open>An allocator that always has room.\<close>

theorem t_choose_correct_witness:
  "\<exists>p' seed'. t_choose (\<lambda>sz. Some (replicate (unat sz div 8) 7)) (\<lambda>c _. Some (replicate (unat c) 0)) 30 10 (replicate 10 0) 5 = Some (0, p', seed') \<and>
     length p' = 10 \<and> distinct p' \<and> (\<forall>r \<in> set p'. r < 30)"
proof -
  let ?m = "\<lambda>sz :: u64. Some (replicate (unat sz div 8) (7 :: u64))" and ?c = "\<lambda>(c :: u64) (_ :: u64). Some (replicate (unat c) (0 :: u64))"
  have h: "length (replicate 10 (0 :: u64)) = unat (10 :: u64)" "unat (10 :: u64) * 40 < 2 ^ 64"
    "\<forall>sz tab. ?m sz = Some tab \<longrightarrow> length tab = unat sz div 8" "\<forall>c tab. ?c c 8 = Some tab \<longrightarrow> tab = replicate (unat c) 0" by auto
  have "\<not> (30 :: u64) < 10" "(30 :: u64) < 5 * 10" by simp_all
  then show ?thesis using t_choose_correct[of "replicate 10 0" 10 ?m ?c 30 5, OF h] by (simp split: if_splits) blast
qed

section \<open>The test of sorting\<close>

lemma gen_loop_ok:
  assumes "i + n \<le> length p" "unat r + 19 * n < 2 ^ 64"
  shows "\<exists>xs x'. gen_loop n i r p x = Some (take i p @ xs @ drop (i + n) p, x') \<and> length xs = n \<and> sorted (r # xs)"
  using assms
proof (induction n arbitrary: i r p x)
  case 0
  then show ?case by simp
next
  case (Suc n)
  obtain d x1 where d: "t_randn 20 x = Some (d, x1)" "unat d < 20" using randn_ok[of 20 x] by auto
  have s: "unat (r + d) = unat r + unat d" using Suc.prems(2) d(2) by (intro unat_add_lem[THEN iffD1]) simp
  let ?p = "p[i := r + d]"
  have "i + 1 + n \<le> length ?p" "unat (r + d) + 19 * n < 2 ^ 64" using Suc.prems d(2) s by simp_all
  from Suc.IH[OF this, of x1] obtain xs x' where xs: "gen_loop n (i + 1) (r + d) ?p x1 = Some (take (i + 1) ?p @ xs @ drop (i + 1 + n) ?p, x')"
    "length xs = n" "sorted ((r + d) # xs)" by blast
  have "take (i + 1) ?p = take i p @ [r + d]" using Suc.prems(1) by (simp add: take_Suc_conv_app_nth)
  moreover have "gen_loop (Suc n) i r p x = gen_loop n (i + 1) (r + d) ?p x1" using d(1) Suc.prems(1) by (simp add: vec_set_def)
  moreover have "sorted (r # (r + d) # xs)" using xs(3) s by (auto simp: word_le_nat_alt)
  ultimately show ?case using xs(1,2) by (intro exI[of _ "(r + d) # xs"]) simp
qed

lemma first_diff_ok:
  assumes "\<forall>i \<in> set is. i < length a \<and> i < length b"
  shows "first_diff is a b = Some (\<exists>i \<in> set is. a ! i \<noteq> b ! i)"
  using assms by (induction "is") (auto simp: vec_get_def)

text \<open>
  C36: The test of \<^verbatim>\<open>qsort\<close> with random numbers, for \<open>n\<close> of them.  \<^verbatim>\<open>uint64_gen\<close> returns an array and its sorted
  version; and \<^verbatim>\<open>uint64_test\<close> on them, for a function that permutes its array, reports no error exactly if the
  function sorts this array.
\<close>

theorem qsort_test_sound:
  assumes "length p = n" "length p_sorted = n" "n < 2 ^ 59"
  shows "\<exists>a a_sorted seed. uint64_gen p p_sorted n = Some (a, a_sorted, seed) \<and> sorted a_sorted \<and> mset a = mset a_sorted \<and>
    (\<forall>qsort. mset (qsort cmp64 a) = mset a \<longrightarrow> uint64_test qsort a a_sorted n = Some (\<not> sorted (qsort cmp64 a)))"
proof -
  obtain xs x1 where xs: "gen_loop n 0 0 p (of_nat n) = Some (xs, x1)" "length xs = n" "sorted xs"
    using gen_loop_ok[of 0 n p 0 "of_nat n"] assms by auto
  obtain a x2 where a: "t_shuffle xs n x1 = Some (a, x2)" "mset a = mset xs" "length a = n"
    using t_shuffle_ok[OF xs(2), of x1] assms(3) by auto
  have "uint64_gen p p_sorted n = Some (a, xs, x2)"
    using xs a assms(2) by (simp add: uint64_gen_def t_randseed_def rassert_def)
  moreover have "uint64_test qsort a xs n = Some (\<not> sorted (qsort cmp64 a))" if q: "mset (qsort cmp64 a) = mset a" for qsort
  proof -
    have l: "length (qsort cmp64 a) = n" using mset_eq_length[OF q] a(3) by simp
    have "uint64_test qsort a xs n = Some (\<exists>i < n. qsort cmp64 a ! i \<noteq> xs ! i)"
      using first_diff_ok[of "[0..<n]" "qsort cmp64 a" xs] l xs(2) a(3) by (auto simp: uint64_test_def)
    also have "(\<exists>i < n. qsort cmp64 a ! i \<noteq> xs ! i) \<longleftrightarrow> qsort cmp64 a \<noteq> xs" using l xs(2) by (auto simp: list_eq_iff_nth_eq)
    also have "\<dots> \<longleftrightarrow> \<not> sorted (qsort cmp64 a)"
    proof -
      have "mset (qsort cmp64 a) = mset xs" using q a(2) by simp
      then show ?thesis using xs(3) by (metis properties_for_sort)
    qed
    finally show ?thesis .
  qed
  ultimately show ?thesis using xs(3) a(2) by blast
qed

theorem qsort_test_sound_witness:
  "\<exists>a a_sorted seed. uint64_gen (replicate 3 0) (replicate 3 0) 3 = Some (a, a_sorted, seed) \<and>
     uint64_test (\<lambda>_. sort) a a_sorted 3 = Some False"
proof -
  have "length (replicate 3 (0 :: u64)) = 3" "(3 :: nat) < 2 ^ 59" by simp_all
  then obtain a b x where "uint64_gen (replicate 3 0) (replicate 3 0) 3 = Some (a, b, x)"
    "\<forall>qsort. mset (qsort cmp64 a) = mset a \<longrightarrow> uint64_test qsort a b 3 = Some (\<not> sorted (qsort cmp64 a))"
    using qsort_test_sound[of "replicate 3 0" 3 "replicate 3 0"] by blast
  from this(1) this(2)[rule_format, of "\<lambda>_. sort"] show ?thesis by simp
qed

end
