(* ===== verification/C_Vmfill.thy ===== *)
theory C_Vmfill
  imports K_Rust
begin

text \<open>
  \<^verbatim>\<open>libc-test/src/common\<close>: \<^verbatim>\<open>vmfill.c\<close>, which finds the largest size that can be mapped by bisection and fills the address
  space with mappings of decreasing size, and \<^verbatim>\<open>setrlim.c\<close>, \<^verbatim>\<open>memfill.c\<close>, \<^verbatim>\<open>fdfill.c\<close> and \<^verbatim>\<open>print.c\<close>.  The system calls
  and \<^verbatim>\<open>malloc\<close> are parameters that change the state \<open>'s\<close> of the system.
\<close>

unbundle bit_operations_syntax

section \<open>Filling the address space\<close>

type_synonym 's mmap_call = "u64 \<Rightarrow> 's \<Rightarrow> u64 option \<times> 's"
type_synonym 's munmap_call = "u64 \<Rightarrow> u64 \<Rightarrow> 's \<Rightarrow> 's"

partial_function (option) mmax_loop ::
    "'s mmap_call \<Rightarrow> 's munmap_call \<Rightarrow> u64 \<Rightarrow> u64 \<Rightarrow> u64 \<Rightarrow> u64 \<Rightarrow> 's \<Rightarrow> (u64 \<times> u64 \<times> 's) option" where
  "mmax_loop mmap munmap page_size i n start s =
     (if i \<ge> page_size
      then (case mmap n s of
              (None, s) \<Rightarrow> mmax_loop mmap munmap page_size (i div 2) (n - i div 2) start s
            | (Some p, s) \<Rightarrow>
                mmax_loop mmap munmap page_size (i div 2) (n + i div 2) (if n = i then n else start) (munmap p n s))
      else Some (n AND - page_size, start, s))"

definition mmax :: "'s mmap_call \<Rightarrow> 's munmap_call \<Rightarrow> u64 \<Rightarrow> u64 \<Rightarrow> 's \<Rightarrow> (u64 \<times> u64 \<times> 's) option" where
  "mmax mmap munmap page_size start s = mmax_loop mmap munmap page_size start start start s"

text \<open>The mappings are the list of the addresses and sizes that are stored, at most \<open>len\<close>; \<^verbatim>\<open>i\<close> is an \<^verbatim>\<open>int\<close>.\<close>

partial_function (option) vmfill_loop ::
    "'s mmap_call \<Rightarrow> 's munmap_call \<Rightarrow> u64 \<Rightarrow> nat \<Rightarrow> nat \<Rightarrow> u64 \<Rightarrow> (u64 \<times> u64) list \<Rightarrow> 's \<Rightarrow> (int \<times> (u64 \<times> u64) list \<times> 's) option" where
  "vmfill_loop mmap munmap page_size len i start stored s =
     Option.bind (mmax mmap munmap page_size start s) (\<lambda>(m, start, s).
       if m = 0 then Some (int i, stored, s)
       else (case mmap m s of
               (None, s) \<Rightarrow> Some (- 1, stored, s)
             | (Some q, s) \<Rightarrow>
                 if i + 1 < 2 ^ 31
                 then vmfill_loop mmap munmap page_size len (i + 1) start (if i < len then stored @ [(q, m)] else stored) s
                 else None))"

definition t_vmfill ::
    "'s mmap_call \<Rightarrow> 's munmap_call \<Rightarrow> u64 \<Rightarrow> nat \<Rightarrow> 's \<Rightarrow> (int \<times> (u64 \<times> u64) list \<times> 's) option" where
  "t_vmfill mmap munmap page_size len s = vmfill_loop mmap munmap page_size len 0 ((- 1) div 2 + 1) [] s"

section \<open>Limits\<close>

record rlimit =
  rlim_cur :: u64
  rlim_max :: u64

text \<open>\<open>lim > rl.rlim_max\<close> compares a \<^verbatim>\<open>long\<close> with an unsigned number, so that \<open>lim\<close> is converted.\<close>

definition t_setrlim :: "(int \<Rightarrow> 's \<Rightarrow> rlimit option) \<Rightarrow> (int \<Rightarrow> rlimit \<Rightarrow> 's \<Rightarrow> bool \<times> 's) \<Rightarrow> int \<Rightarrow> u64 \<Rightarrow> 's \<Rightarrow> int \<times> 's" where
  "t_setrlim getrlimit setrlimit r l s =
     (case getrlimit r s of
        None \<Rightarrow> (- 1, s)
      | Some rl \<Rightarrow>
          if l > rlim_max rl then (- 1, s)
          else if l = rlim_max rl \<and> l = rlim_cur rl then (0, s)
          else (case setrlimit r (rl\<lparr>rlim_max := l, rlim_cur := l\<rparr>) s of (ok, s) \<Rightarrow> (if ok then 0 else - 1, s)))"

partial_function (option) malloc_all :: "(u64 \<Rightarrow> 's \<Rightarrow> u64 option \<times> 's) \<Rightarrow> 's \<Rightarrow> 's option" where
  "malloc_all malloc s = (case malloc 1 s of (None, s) \<Rightarrow> Some s | (Some _, s) \<Rightarrow> malloc_all malloc s)"

definition t_memfill ::
    "'s mmap_call \<Rightarrow> 's munmap_call \<Rightarrow> u64 \<Rightarrow> (int \<Rightarrow> 's \<Rightarrow> rlimit option) \<Rightarrow> (int \<Rightarrow> rlimit \<Rightarrow> 's \<Rightarrow> bool \<times> 's) \<Rightarrow>
     (u64 \<Rightarrow> 's \<Rightarrow> u64 option \<times> 's) \<Rightarrow> int \<Rightarrow> 's \<Rightarrow> (int \<times> 's) option" where
  "t_memfill mmap munmap page_size getrlimit setrlimit malloc RLIMIT_DATA s = do {
     (c, _, s) \<leftarrow> t_vmfill mmap munmap page_size 0 s;
     let (d, s) = t_setrlim getrlimit setrlimit RLIMIT_DATA 0 s;
     (if c < 0 \<or> d < 0 then Some (- 1, s) else do { s \<leftarrow> malloc_all malloc s; Some (0, s) })
   }"

section \<open>Filling the descriptor table\<close>

text \<open>\<open>dup\<close> gives the new descriptor or the error number; \<open>open_null\<close> opens \<^verbatim>\<open>/dev/null\<close>, with -1 when it cannot.\<close>

partial_function (option) dup_all :: "(int \<Rightarrow> 's \<Rightarrow> (int + int) \<times> 's) \<Rightarrow> int \<Rightarrow> 's \<Rightarrow> 's option" where
  "dup_all dup fd s = (case dup fd s of (Inl _, s) \<Rightarrow> Some s | (Inr _, s) \<Rightarrow> dup_all dup fd s)"

definition t_fdfill :: "(int \<Rightarrow> 's \<Rightarrow> (int + int) \<times> 's) \<Rightarrow> ('s \<Rightarrow> int \<times> 's) \<Rightarrow> int \<Rightarrow> 's \<Rightarrow> 's option" where
  "t_fdfill dup open_null EMFILE s =
     (case dup 1 s of
        (Inl e, s) \<Rightarrow> if e = EMFILE then Some s else (let (fd, s) = open_null s in dup_all dup fd s)
      | (Inr _, s) \<Rightarrow> dup_all dup 1 s)"

section \<open>Messages\<close>

text \<open>
  \<^verbatim>\<open>t_printf\<close>: what is written to the standard output for the text that the format gives, \<open>None\<close> when formatting
  fails.  \<^verbatim>\<open>vsnprintf\<close> keeps one byte of the buffer of 512 for the terminating 0.
\<close>

definition t_printf_bytes :: "u8 list option \<Rightarrow> u8 list" where
  "t_printf_bytes text =
     (case text of
        None \<Rightarrow> []
      | Some bs \<Rightarrow>
          if length bs \<ge> 512
          then (let buf = take 511 bs @ [0]; n = 512
                in buf[n - 1 := 10, n - 2 := 46, n - 3 := 46, n - 4 := 46])
          else bs)"

text \<open>A message is never longer than the buffer, and one that is cut ends with three dots and a new line.\<close>

lemma t_printf_bytes_bound:
  "length (t_printf_bytes text) \<le> 512"
  "text = Some bs \<Longrightarrow> 512 \<le> length bs \<Longrightarrow> t_printf_bytes text = take 508 bs @ [46, 46, 46, 10]"
proof -
  have cut: "t_printf_bytes (Some bs) = take 508 bs @ [46, 46, 46, 10]" if "512 \<le> length bs" for bs
  proof (rule nth_equalityI)
    show "length (t_printf_bytes (Some bs)) = length (take 508 bs @ [46, 46, 46, 10])"
      using that by (simp add: t_printf_bytes_def Let_def)
    fix i assume "i < length (t_printf_bytes (Some bs))"
    then have "i < 508 \<or> i = 508 \<or> i = 509 \<or> i = 510 \<or> i = 511" using that by (auto simp: t_printf_bytes_def Let_def)
    then show "t_printf_bytes (Some bs) ! i = (take 508 bs @ [46, 46, 46, 10]) ! i"
      using that by (auto simp: t_printf_bytes_def Let_def nth_append nth_list_update)
  qed
  show "text = Some bs \<Longrightarrow> 512 \<le> length bs \<Longrightarrow> t_printf_bytes text = take 508 bs @ [46, 46, 46, 10]" using cut by simp
  show "length (t_printf_bytes text) \<le> 512"
    by (cases "text") (auto simp: t_printf_bytes_def Let_def)
qed

end
