(* ===== verification/C_Vmfill_Props.thy ===== *)
theory C_Vmfill_Props
  imports C_Vmfill C_Rand_Table
begin

text \<open>
  The bisection of \<^verbatim>\<open>vmfill.c\<close> finds the largest size that can be mapped, and \<^verbatim>\<open>t_vmfill\<close> maps until nothing is left,
  in mappings of decreasing size.
\<close>

section \<open>What the system calls do\<close>

text \<open>
  \<open>room\<close> is the size of the largest mapping that the system grants, \<open>avail\<close> what can be mapped in all, and \<open>maps\<close> has the
  mappings that there are, address and size, in the order in which they were made.  A request for whole pages succeeds
  exactly if it is not larger than the room, and there is then one more mapping, at the address that is
  returned; undoing it restores the state.
\<close>

definition vm_calls :: "nat \<Rightarrow> 's mmap_call \<Rightarrow> 's munmap_call \<Rightarrow> ('s \<Rightarrow> nat) \<Rightarrow> ('s \<Rightarrow> nat) \<Rightarrow> ('s \<Rightarrow> (u64 \<times> u64) list) \<Rightarrow> bool" where
  "vm_calls ps mmap munmap room avail maps \<longleftrightarrow>
     (\<forall>s. ps dvd room s \<and> room s < 2 ^ 64 \<and> room s \<le> avail s) \<and>
     (\<forall>n s. n \<noteq> 0 \<and> ps dvd unat n \<longrightarrow>
       (case mmap n s of
          (None, s') \<Rightarrow> unat n > room s \<and> room s' = room s \<and> avail s' = avail s \<and> maps s' = maps s
        | (Some p, s') \<Rightarrow> unat n \<le> room s \<and> room s' \<le> room s \<and> avail s' = avail s - unat n \<and> maps s' = maps s @ [(p, n)] \<and>
            room (munmap p n s') = room s \<and> avail (munmap p n s') = avail s \<and> maps (munmap p n s') = maps s))"

lemma vm_callsD:
  assumes "vm_calls ps mmap munmap room avail maps" "n \<noteq> 0" "ps dvd unat n"
  shows "mmap n s = (None, s') \<Longrightarrow> unat n > room s \<and> room s' = room s \<and> avail s' = avail s \<and> maps s' = maps s"
    "mmap n s = (Some p, s') \<Longrightarrow> unat n \<le> room s \<and> room s' \<le> room s \<and> avail s' = avail s - unat n \<and> maps s' = maps s @ [(p, n)] \<and>
      room (munmap p n s') = room s \<and> avail (munmap p n s') = avail s \<and> maps (munmap p n s') = maps s"
  using assms by (auto simp: vm_calls_def dest!: spec[of _ n] spec[of _ s])

section \<open>Bisection\<close>

lemma and_pages: "(of_nat N :: u64) AND - (2 ^ b) = of_nat (N - N mod 2 ^ b)" if "b \<le> 64"
proof -
  let ?x = "of_nat N :: u64"
  have "(?x AND mask b) OR (?x AND NOT (mask b)) = ?x" by (rule bit_word_eqI) (auto simp: bit_simps)
  moreover have "(?x AND mask b) AND (?x AND NOT (mask b)) = 0" by (rule bit_word_eqI) (auto simp: bit_simps)
  ultimately have "(?x AND mask b) + (?x AND NOT (mask b)) = ?x" using disjunctive_add_eq_or by metis
  moreover have "?x AND mask b = of_nat (N mod 2 ^ b)" using and_len[OF that, of N] by (simp add: mask_eq_exp_minus_1)
  ultimately have "?x AND NOT (mask b) = of_nat N - of_nat (N mod 2 ^ b)" by (metis add_diff_cancel_left')
  also have "\<dots> = of_nat (N - N mod 2 ^ b)" by (rule of_nat_diff[symmetric]) simp
  finally show ?thesis by (simp only: minus_exp_eq_not_mask)
qed

text \<open>The size that is tried when the step is \<open>2 ^ t\<close>.\<close>

definition guess :: "nat \<Rightarrow> nat \<Rightarrow> nat" where
  "guess L t = 2 ^ t * (2 * (L div 2 ^ (t + 1)) + 1)"

lemma guess_bound:
  assumes "L < 2 ^ 64" "t < 64"
  shows "guess L t < 2 ^ 64" "0 < guess L t"
proof -
  have "(2 :: nat) ^ 64 = 2 ^ (t + 1) * 2 ^ (63 - t)" unfolding power_add[symmetric] using assms(2) by simp
  then have "L div 2 ^ (t + 1) < 2 ^ (63 - t)" using assms(1) by (intro less_mult_imp_div_less) (simp only: mult.commute)
  then have "2 ^ t * (2 * (L div 2 ^ (t + 1)) + 1) < 2 ^ t * (2 * 2 ^ (63 - t))" by (intro mult_strict_left_mono) simp_all
  also have "\<dots> = 2 ^ 64" using assms(2) by (simp add: power_add[symmetric] flip: power_Suc)
  finally show "guess L t < 2 ^ 64" by (simp add: guess_def)
qed (simp add: guess_def)

lemma guess_step:
  "guess L (Suc t) \<le> L \<Longrightarrow> guess L (Suc t) + 2 ^ t = guess L t"
  "L < guess L (Suc t) \<Longrightarrow> guess L (Suc t) - 2 ^ t = guess L t"
proof -
  define c where "c = L div 2 ^ (t + 2)"
  have c: "c = L div 2 ^ (t + 1) div 2" by (simp add: c_def div_mult2_eq[symmetric] mult.commute)
  have g: "guess L (Suc t) = 2 ^ (t + 1) * (2 * c + 1)" by (simp add: guess_def c_def)
  have d: "guess L (Suc t) \<le> L \<longleftrightarrow> 2 * c + 1 \<le> L div 2 ^ (t + 1)"
    unfolding g by (simp add: less_eq_div_iff_mult_less_eq mult.commute)
  show "guess L (Suc t) \<le> L \<Longrightarrow> guess L (Suc t) + 2 ^ t = guess L t"
  proof -
    assume "guess L (Suc t) \<le> L"
    then have "L div 2 ^ (t + 1) = 2 * c + 1" using d c by linarith
    then show ?thesis unfolding g by (simp add: guess_def algebra_simps)
  qed
  show "L < guess L (Suc t) \<Longrightarrow> guess L (Suc t) - 2 ^ t = guess L t"
  proof -
    assume "L < guess L (Suc t)"
    then have "L div 2 ^ (t + 1) = 2 * c" using d c by linarith
    then show ?thesis unfolding g by (simp add: guess_def algebra_simps)
  qed
qed

lemma unat_pow2: "unat (2 ^ t :: u64) = 2 ^ t" if "t < 64"
proof -
  have "(2 :: nat) ^ t < 2 ^ 64" using that by (intro power_strict_increasing) simp_all
  then show ?thesis using unat_of_nat64[of "2 ^ t"] by simp
qed

lemma half_pow2: "(2 ^ Suc t :: u64) div 2 = 2 ^ t" if "Suc t < 64"
  using that unat_pow2[OF that] unat_pow2[of t] by (simp add: word_unat_eq_iff unat_div_distrib)

definition start_ok :: "nat \<Rightarrow> nat \<Rightarrow> nat \<Rightarrow> bool" where
  "start_ok b L q \<longleftrightarrow> b \<le> q \<and> q < 64 \<and> L < 2 ^ (q + 1)"

lemma mmax_loop_ok:
  fixes mmap :: "'s mmap_call"
  assumes vm: "vm_calls (2 ^ b) mmap munmap room avail maps" and b: "1 \<le> b" "b < 64"
  shows "t < 64 \<Longrightarrow> b \<le> t + 1 \<Longrightarrow> start_ok b (room s) q \<Longrightarrow>
    \<exists>q' s'. mmax_loop mmap munmap (2 ^ b) (2 ^ t) (of_nat (guess (room s) t)) (2 ^ q) s = Some (of_nat (room s), 2 ^ q', s') \<and>
      start_ok b (room s) q' \<and> room s' = room s \<and> avail s' = avail s \<and> maps s' = maps s"
proof (induction t arbitrary: q s)
  let ?g = "\<lambda>s t. of_nat (guess (room s) t) :: u64"
  have stop: "mmax_loop mmap munmap (2 ^ b) (2 ^ t) (?g s t) start s = Some (of_nat (room s), start, s)" if "t + 1 = b" for t start s
  proof -
    have "\<not> (2 ^ b :: u64) \<le> 2 ^ t" using that b by (simp add: word_le_nat_alt unat_pow2)
    moreover have "guess (room s) t - guess (room s) t mod 2 ^ b = room s"
    proof -
      have "guess (room s) t = 2 ^ b * (room s div 2 ^ b) + 2 ^ t" unfolding guess_def that by (simp add: algebra_simps flip: that)
      moreover have "2 ^ b * (room s div 2 ^ b) = room s" using vm by (simp add: vm_calls_def)
      moreover have "(2 ^ t :: nat) < 2 ^ b" using that by (simp flip: that)
      ultimately show ?thesis using vm by (simp add: vm_calls_def mod_add_left_eq[symmetric] flip: mod_add_left_eq)
    qed
    ultimately show ?thesis using and_pages[of b "guess (room s) t"] b by (subst mmax_loop.simps) simp
  qed
  {
    case (0 q s)
    then show ?case using stop[of 0 s "2 ^ q"] b by auto
  next
    case (Suc t q s)
    show ?case
    proof (cases "Suc t + 1 = b")
      case True
      then show ?thesis using stop[OF True, of s "2 ^ q"] Suc.prems by auto
    next
      case False
      then have bt: "b \<le> Suc t" using Suc.prems(2) by simp
      then have ge: "(2 ^ b :: u64) \<le> 2 ^ Suc t" using b Suc.prems(1) by (simp only: word_le_nat_alt unat_pow2 power_increasing)
      have L: "room s < 2 ^ 64" using vm by (simp add: vm_calls_def)
      note gb = guess_bound[OF L Suc.prems(1)]
      have un: "unat (?g s (Suc t)) = guess (room s) (Suc t)" by (rule unat_of_nat64[OF gb(1)])
      have n0: "?g s (Suc t) \<noteq> 0" using un gb(2) by auto
      have dv: "2 ^ b dvd unat (?g s (Suc t))" unfolding un by (simp only: guess_def dvd_mult2[OF le_imp_power_dvd[OF bt]])
      note half = half_pow2[OF Suc.prems(1)]
      show ?thesis
      proof (cases "mmap (?g s (Suc t)) s")
        case (Pair r s1)
        show ?thesis
        proof (cases r)
          case None
          then have m: "room s < guess (room s) (Suc t)" "room s1 = room s" "avail s1 = avail s" "maps s1 = maps s"
            using vm_callsD(1)[OF vm n0 dv] Pair un by auto
          have "2 ^ t \<le> guess (room s) (Suc t)" by (simp add: guess_def)
          then have "?g s (Suc t) - 2 ^ t = ?g s1 t" using guess_step(2)[OF m(1)] m(2) by (simp add: of_nat_diff flip: guess_step(2)[OF m(1)])
          then have "mmax_loop mmap munmap (2 ^ b) (2 ^ Suc t) (?g s (Suc t)) (2 ^ q) s = mmax_loop mmap munmap (2 ^ b) (2 ^ t) (?g s1 t) (2 ^ q) s1"
            using Pair None ge half by (subst mmax_loop.simps) (simp del: power_Suc)
          then show ?thesis using Suc.IH[of s1 q] Suc.prems bt m by simp
        next
          case (Some p)
          let ?s = "munmap p (?g s (Suc t)) s1" and ?q = "if ?g s (Suc t) = 2 ^ Suc t then Suc t else q"
          have m: "guess (room s) (Suc t) \<le> room s" "room ?s = room s" "avail ?s = avail s" "maps ?s = maps s"
            using vm_callsD(2)[OF vm n0 dv] Pair Some un by auto
          have "?g s (Suc t) + 2 ^ t = ?g ?s t" using guess_step(1)[OF m(1)] m(2) by (simp flip: guess_step(1)[OF m(1)])
          then have "mmax_loop mmap munmap (2 ^ b) (2 ^ Suc t) (?g s (Suc t)) (2 ^ q) s = mmax_loop mmap munmap (2 ^ b) (2 ^ t) (?g ?s t) (2 ^ ?q) ?s"
            using Pair Some ge half by (subst mmax_loop.simps) (simp del: power_Suc)
          moreover have "start_ok b (room ?s) ?q"
          proof (cases "?g s (Suc t) = 2 ^ Suc t")
            case True
            then have "guess (room s) (Suc t) = 2 ^ Suc t" using un unat_pow2[OF Suc.prems(1)] by (simp del: power_Suc)
            then have "room s div 2 ^ (Suc t + 1) = 0" unfolding guess_def by (simp del: power_Suc)
            then have "room s < 2 ^ (Suc t + 1)" by (simp add: div_eq_0_iff)
            then show ?thesis using True bt Suc.prems(1) m(2) by (simp add: start_ok_def)
          qed (use Suc.prems m in simp)
          ultimately show ?thesis using Suc.IH[of ?s ?q] Suc.prems bt m by simp
        qed
      qed
    qed
  }
qed

lemma mmax_ok:
  fixes mmap :: "'s mmap_call"
  assumes "vm_calls (2 ^ b) mmap munmap room avail maps" "1 \<le> b" "start_ok b (room s) q"
  shows "\<exists>q' s'. mmax mmap munmap (2 ^ b) (2 ^ q) s = Some (of_nat (room s), 2 ^ q', s') \<and>
    start_ok b (room s) q' \<and> room s' = room s \<and> avail s' = avail s \<and> maps s' = maps s"
proof -
  have q: "q < 64" "b \<le> q" "room s < 2 ^ (q + 1)" using assms(3) by (simp_all add: start_ok_def)
  then have "guess (room s) q = 2 ^ q" by (simp add: guess_def)
  then show ?thesis using mmax_loop_ok[OF assms(1,2), of q s q] q assms(3) by (simp add: mmax_def)
qed

section \<open>Filling\<close>

lemma vmfill_loop_ok:
  fixes mmap :: "'s mmap_call"
  assumes vm: "vm_calls (2 ^ b) mmap munmap room avail maps" and b: "1 \<le> b" "b < 64"
  shows "start_ok b (room s) q \<Longrightarrow> avail s + 2 ^ b * i < 2 ^ b * (2 ^ 31 - 1) \<Longrightarrow>
    \<exists>ms s'. vmfill_loop mmap munmap (2 ^ b) len i (2 ^ q) stored s = Some (int (i + length ms), stored @ take (len - i) ms, s') \<and>
      room s' = 0 \<and> maps s' = maps s @ ms \<and> sorted_wrt (\<ge>) (map snd ms) \<and> (\<forall>m \<in> set (map snd ms). unat m \<le> room s)"
proof (induction "avail s" arbitrary: s q i stored rule: less_induct)
  case less
  obtain q' s1 where m: "mmax mmap munmap (2 ^ b) (2 ^ q) s = Some (of_nat (room s), 2 ^ q', s1)" "start_ok b (room s) q'"
    "room s1 = room s" "avail s1 = avail s" "maps s1 = maps s"
    using mmax_ok[OF vm b(1) less.prems(1)] by blast
  have L: "room s < 2 ^ 64" "2 ^ b dvd room s" "room s \<le> avail s" using vm by (simp_all add: vm_calls_def)
  have un: "unat (of_nat (room s) :: u64) = room s" by (rule unat_of_nat64[OF L(1)])
  show ?case
  proof (cases "room s = 0")
    case True
    then show ?thesis using m by (subst vmfill_loop.simps) (auto intro!: exI[of _ "[]"])
  next
    case False
    then have n0: "(of_nat (room s) :: u64) \<noteq> 0" using un by auto
    have dv: "2 ^ b dvd unat (of_nat (room s) :: u64)" using un L(2) by simp
    obtain r s2 where mm: "mmap (of_nat (room s)) s1 = (r, s2)" by (cases "mmap (of_nat (room s)) s1") auto
    have "r \<noteq> None" using vm_callsD(1)[OF vm n0 dv, of s1 s2] mm m(3) un by auto
    then obtain p where p: "r = Some p" by blast
    have s2: "room s2 \<le> room s" "avail s2 = avail s - room s" "maps s2 = maps s @ [(p, of_nat (room s))]"
      using vm_callsD(2)[OF vm n0 dv, of s1 p s2] mm m(3-5) p un by auto
    have big: "2 ^ b \<le> room s" using L(2) False by (intro dvd_imp_le) simp_all
    then have dec: "avail s2 < avail s" "avail s2 + 2 ^ b \<le> avail s" using s2(2) L(3) False by simp_all
    have step: "avail s2 + 2 ^ b * (i + 1) < 2 ^ b * (2 ^ 31 - 1)" using less.prems(2) dec(2) by (simp add: algebra_simps)
    then have "2 ^ b * (i + 1) < 2 ^ b * (2 ^ 31 - 1)" by linarith
    then have "i + 1 < 2 ^ 31 - 1" by (simp only: mult_less_cancel1)
    then have i: "i + 1 < 2 ^ 31" by simp
    let ?st = "if i < len then stored @ [(p, of_nat (room s))] else stored"
    have "start_ok b (room s2) q'" using m(2) s2(1) by (simp add: start_ok_def)
    from less.hyps[OF dec(1) this step, of ?st] obtain ms s' where ms:
      "vmfill_loop mmap munmap (2 ^ b) len (i + 1) (2 ^ q') ?st s2 = Some (int (i + 1 + length ms), ?st @ take (len - (i + 1)) ms, s')"
      "room s' = 0" "sorted_wrt (\<ge>) (map snd ms)" "\<forall>m \<in> set (map snd ms). unat m \<le> room s2" "maps s' = maps s2 @ ms" by blast
    have "vmfill_loop mmap munmap (2 ^ b) len i (2 ^ q) stored s = vmfill_loop mmap munmap (2 ^ b) len (i + 1) (2 ^ q') ?st s2"
      using m(1) mm p n0 i by (subst vmfill_loop.simps) simp
    moreover have "?st @ take (len - (i + 1)) ms = stored @ take (len - i) ((p, of_nat (room s)) # ms)"
      by (cases "i < len") (simp_all add: take_Cons')
    moreover have "\<forall>m \<in> set (map snd ms). m \<le> of_nat (room s)" using ms(4) s2(1) un by (auto simp: word_le_nat_alt)
    ultimately show ?thesis using ms s2(1,3) un
      by (intro exI[of _ "(p, of_nat (room s)) # ms"] exI[of _ s']) auto
  qed
qed

text \<open>
  C37: With system calls that grant a mapping exactly if there is room for it, \<^verbatim>\<open>mmax\<close> returns the largest size that can be
  mapped, and leaves the mappings as they were; and \<^verbatim>\<open>t_vmfill\<close> returns when there is no room left, with the number of
  mappings that it has made.  These are in decreasing order of size, and the addresses and sizes of the first \<open>len\<close>
  of them are what is stored.
\<close>

theorem vmfill_correct:
  fixes mmap :: "'s mmap_call"
  assumes "vm_calls (2 ^ b) mmap munmap room avail maps" "1 \<le> b" "b < 64" "avail s < 2 ^ b * (2 ^ 31 - 1)"
  shows "(\<exists>start s'. mmax mmap munmap (2 ^ b) (2 ^ 63) s = Some (of_nat (room s), start, s') \<and> room s' = room s \<and> avail s' = avail s \<and>
      maps s' = maps s) \<and>
    (\<exists>ms s'. t_vmfill mmap munmap (2 ^ b) len s = Some (int (length ms), take len ms, s') \<and> room s' = 0 \<and>
      maps s' = maps s @ ms \<and> sorted_wrt (\<ge>) (map snd ms))"
proof
  have st: "start_ok b (room s) 63" using assms by (simp add: start_ok_def vm_calls_def)
  show "\<exists>start s'. mmax mmap munmap (2 ^ b) (2 ^ 63) s = Some (of_nat (room s), start, s') \<and> room s' = room s \<and> avail s' = avail s \<and>
      maps s' = maps s"
    using mmax_ok[OF assms(1,2) st] by blast
  have "((- 1) div 2 + 1 :: u64) = 2 ^ 63" by code_simp
  then show "\<exists>ms s'. t_vmfill mmap munmap (2 ^ b) len s = Some (int (length ms), take len ms, s') \<and> room s' = 0 \<and>
      maps s' = maps s @ ms \<and> sorted_wrt (\<ge>) (map snd ms)"
    using vmfill_loop_ok[OF assms(1-3) st, of 0 len "[]"] assms(4) unfolding t_vmfill_def by auto
qed

text \<open>An address space that is one gap of at most five pages, with the list of the mappings made.\<close>

type_synonym gap = "nat \<times> (u64 \<times> u64) list"

definition gap_pages :: "gap \<Rightarrow> nat" where
  "gap_pages s = min (fst s) 5"

definition gap_mmap :: "gap mmap_call" where
  "gap_mmap n s = (let p = of_nat (4096 * (6 - gap_pages s))
     in if unat n \<le> 4096 * gap_pages s then (Some p, gap_pages s - unat n div 4096, snd s @ [(p, n)]) else (None, s))"

definition gap_munmap :: "gap munmap_call" where
  "gap_munmap p n s = (gap_pages s + unat n div 4096, butlast (snd s))"

definition gap_room :: "gap \<Rightarrow> nat" where
  "gap_room s = 4096 * gap_pages s"

lemma gap_calls: "vm_calls (2 ^ 12) gap_mmap gap_munmap gap_room gap_room snd"
  unfolding vm_calls_def
proof (intro conjI allI impI)
  fix n :: u64 and s :: gap assume n: "n \<noteq> 0 \<and> 2 ^ 12 dvd unat n"
  then obtain k where k: "unat n = 4096 * k" by (auto elim: dvdE)
  show "case gap_mmap n s of
      (None, s') \<Rightarrow> unat n > gap_room s \<and> gap_room s' = gap_room s \<and> gap_room s' = gap_room s \<and> snd s' = snd s
    | (Some p, s') \<Rightarrow> unat n \<le> gap_room s \<and> gap_room s' \<le> gap_room s \<and> gap_room s' = gap_room s - unat n \<and> snd s' = snd s @ [(p, n)] \<and>
        gap_room (gap_munmap p n s') = gap_room s \<and> gap_room (gap_munmap p n s') = gap_room s \<and> snd (gap_munmap p n s') = snd s"
    by (auto simp: gap_mmap_def gap_munmap_def gap_room_def gap_pages_def k min_def diff_mult_distrib2 Let_def)
qed (simp_all add: gap_room_def gap_pages_def)

theorem vmfill_correct_witness:
  "(\<exists>start s'. mmax gap_mmap gap_munmap 4096 (2 ^ 63) (3, []) = Some (12288, start, s') \<and> snd s' = []) \<and>
   (\<exists>ms s'. t_vmfill gap_mmap gap_munmap 4096 1 (3, []) = Some (int (length ms), take 1 ms, s') \<and> gap_room s' = 0 \<and> snd s' = ms)"
proof -
  have h: "(1 :: nat) \<le> 12" "(12 :: nat) < 64" "gap_room (3, []) < 2 ^ 12 * (2 ^ 31 - 1)" by (simp_all add: gap_room_def gap_pages_def)
  have p: "(2 ^ 12 :: u64) = 4096" and r: "(of_nat (gap_room (3, [])) :: u64) = 12288" by (simp_all add: gap_room_def gap_pages_def)
  show ?thesis using vmfill_correct[OF gap_calls h, of 1] unfolding p r by auto
qed

end
