(* ===== verification/Spec2Isabelle.thy ===== *)
theory Spec2Isabelle
  imports Math_Verdicts K_Task_Trace K_Clone_Props K_Blk K_Fs_Props K_Stat K_Lock C_Rand_Choose C_Vmfill_Props
begin

text \<open>
  Verification of zinix: a RISC-V kernel in Rust (\<^verbatim>\<open>src/kernel/src\<close>) and the C library tests it runs as
  user programs (\<^verbatim>\<open>src/libc-test\<close>).

  \<^bold>\<open>The program.\<close>  The kernel starts by handing the memory above itself to a buddy allocator
  (\<^verbatim>\<open>mm/buddy.rs\<close>, with bitmaps from \<^verbatim>\<open>mm/bitmap.rs\<close>).  Blocks of pages are reference-counted \<^verbatim>\<open>Page\<close>
  objects (\<^verbatim>\<open>mm/page.rs\<close>) that give their memory back when they are dropped.  Page tables
  (\<^verbatim>\<open>mm/pagetable.rs\<close>) are pages of entries; an address space (\<^verbatim>\<open>mm/mm.rs\<close>) is a page table with an
  ordered tree of regions (\<^verbatim>\<open>mm/vma.rs\<close>), which are filled when they are first touched, by the page fault
  handler of \<^verbatim>\<open>trap/mod.rs\<close>, from files or with zeros.  A task (\<^verbatim>\<open>task/task.rs\<close>) has a kernel stack
  (\<^verbatim>\<open>task/stack.rs\<close>), saved registers, an address space and a table of open files (\<^verbatim>\<open>fs/dfile.rs\<close>); the
  timer (\<^verbatim>\<open>trap/timer.rs\<close>) and the waiting operations call the scheduler (\<^verbatim>\<open>task/mod.rs\<close>).  The system calls
  (\<^verbatim>\<open>syscall/sys_proc.rs\<close>, \<^verbatim>\<open>syscall/sys_fs.rs\<close>) work on the running task.  Pipes (\<^verbatim>\<open>fs/pipe.rs\<close>) join two
  tasks by a ring buffer.  Files are found through a cache of index nodes (\<^verbatim>\<open>fs/inode.rs\<close>) over the FAT library, which
  reads and writes the disk by blocks (\<^verbatim>\<open>fs/fat.rs\<close>).  The math tests of libc-test are table-driven: each program sets a rounding mode,
  calls one library function per row and compares value and exceptions with the row.  Other tests use the
  random data of \<^verbatim>\<open>common/rand.c\<close> or fill memory and descriptors first (\<^verbatim>\<open>common/vmfill.c\<close>).

  \<^bold>\<open>How the code is modelled.\<close>  \<^verbatim>\<open>K_Rust\<close>: the repository builds the kernel in debug mode, so a
  computation is a value of an option type whose \<open>None\<close> is a panic: overflow, an index out of range, a
  failed assertion, \<^verbatim>\<open>todo!()\<close>, or a spin lock that its own holder takes again.  State is passed
  explicitly.  The memory is a function from addresses to words; reference-counted objects are places in a
  table.  A store of the kernel to a user address goes through the page table in use; it is recorded with it
  in \<^verbatim>\<open>user_writes\<close> and not applied to the memory, so that statements about unchanged memory are about the kernel's own
  writes and those about user addresses are about this record.  Loops are structural recursions or functions with a termination proof; the only loops that need
  not end are those that wait for other tasks, and there one round is a function and what the others do is a
  parameter or a step relation.  No fuel is used anywhere.  The C code is modelled the same way, with
  \<open>None\<close> for undefined behaviour; its loops that may run forever are partial functions, and that they return is proved.

  \<^bold>\<open>Theories.\<close>
  \<^item> \<^verbatim>\<open>Prelude\<close>, \<^verbatim>\<open>K_Rust\<close>: generic facts, Rust operations, constants of \<^verbatim>\<open>consts.rs\<close>.
  \<^item> \<^verbatim>\<open>C_Float\<close>, \<^verbatim>\<open>Mtest\<close>, \<^verbatim>\<open>Mtest_Accuracy\<close>: floating-point formats as bit patterns, and
    \<^verbatim>\<open>common/mtest.h\<close>, \<^verbatim>\<open>common/mtest.c\<close>; the computed ulp errors are related to the real error.
  \<^item> \<^verbatim>\<open>Math_Harness\<close>, \<^verbatim>\<open>Math_Double\<close>, \<^verbatim>\<open>Math_Float\<close>, \<^verbatim>\<open>Math_Ldouble\<close>, \<^verbatim>\<open>Math_Verdicts\<close>: the 194 test
    programs of \<^verbatim>\<open>math/*.c\<close>, with the library function and the table of rows as parameters; what an exit
    status of 0 says about the library, and that it does not depend on the order of the rows.
  \<^item> \<^verbatim>\<open>K_Addr\<close>, \<^verbatim>\<open>K_Bitmap\<close>: \<^verbatim>\<open>mm/addr.rs\<close>, \<^verbatim>\<open>utils.rs\<close>, \<^verbatim>\<open>mm/bitmap.rs\<close>; the bitmap refines a set.
  \<^item> \<^verbatim>\<open>K_Buddy\<close>, \<^verbatim>\<open>K_Buddy_Correct\<close>, \<^verbatim>\<open>K_Buddy_Client\<close>: \<^verbatim>\<open>mm/buddy.rs\<close>; free blocks are aligned, disjoint
    and never two buddies, and clients of the interface never get overlapping memory.
  \<^item> \<^verbatim>\<open>K_Page\<close>, \<^verbatim>\<open>K_Page_Correct\<close>: \<^verbatim>\<open>mm/page.rs\<close>, \<^verbatim>\<open>mm/mod.rs\<close>; allocation and dropping of pages.
  \<^item> \<^verbatim>\<open>K_PageTable\<close>, \<^verbatim>\<open>K_PageTable_Correct\<close>, \<^verbatim>\<open>K_PageTable_Ops\<close>, \<^verbatim>\<open>K_PageTable_Props\<close>:
    \<^verbatim>\<open>mm/pagetable.rs\<close>; the operations are shown to change exactly the mappings they are asked to.  The
    invariant \<^verbatim>\<open>pt_inv\<close> says that the tables below a root form a tree in allocated pages.  \<^verbatim>\<open>mapping\<close> is about pages of
    4 KB, \<^verbatim>\<open>leaf_entry\<close> about the processor's walk with large pages, of which the kernel's own table is made.
  \<^item> \<^verbatim>\<open>K_BTree\<close>, \<^verbatim>\<open>K_Vma\<close>, \<^verbatim>\<open>K_Vma_Correct\<close>, \<^verbatim>\<open>K_Vma_Fill\<close>: the ordered maps of the standard library
    by their laws, and \<^verbatim>\<open>mm/vma.rs\<close>; how a page is filled.  \<^verbatim>\<open>reads_file\<close> states what seeking and reading
    a file of the FAT library gives.
  \<^item> \<^verbatim>\<open>K_Mm\<close>, \<^verbatim>\<open>K_Mm_Regions\<close>, \<^verbatim>\<open>K_Mm_Calls\<close>, \<^verbatim>\<open>K_Mm_Fault\<close>, \<^verbatim>\<open>K_Mm_Fork\<close>, \<^verbatim>\<open>K_Mm_Fork_Props\<close>:
    \<^verbatim>\<open>mm/mm.rs\<close>, \<^verbatim>\<open>sys_mmap\<close>, \<^verbatim>\<open>sys_brk\<close>, the page fault handler and fork.  \<^verbatim>\<open>mm_inv\<close> says that the
    regions of a process are disjoint and in order; mmap takes the highest gap that is large enough.
  \<^item> \<^verbatim>\<open>K_Pipe\<close>: \<^verbatim>\<open>fs/pipe.rs\<close>; the ring buffer refines a bounded queue.
  \<^item> \<^verbatim>\<open>K_Stack\<close>, \<^verbatim>\<open>K_File\<close>, \<^verbatim>\<open>K_Task\<close>, \<^verbatim>\<open>K_Proc\<close>: \<^verbatim>\<open>task/stack.rs\<close>, the data of \<^verbatim>\<open>fs/dfile.rs\<close> and
    \<^verbatim>\<open>fs/fcntl.rs\<close>, \<^verbatim>\<open>task/mod.rs\<close> with the context switch and the timer, and the process calls of
    \<^verbatim>\<open>sys_proc.rs\<close>.
  \<^item> \<^verbatim>\<open>K_Task_Inv\<close>, \<^verbatim>\<open>K_Task_Steps\<close>, \<^verbatim>\<open>K_Task_Props\<close>, \<^verbatim>\<open>K_Task_Trace\<close>: the steps that tasks and interrupts take
    (\<^verbatim>\<open>sys_step\<close>); in every reachable state each task is on one list, a task that is scheduled again has its
    registers, and the timer turns the run queue in order.
  \<^item> \<^verbatim>\<open>K_Clone\<close>, \<^verbatim>\<open>K_Clone_Props\<close>: \<^verbatim>\<open>sys_clone\<close> as fork: the new task, its stack, trap frame and memory.
  \<^item> \<^verbatim>\<open>K_Lock\<close>: \<^verbatim>\<open>sync/mod.rs\<close> with the interrupt flag; when an interrupt finds its locks free.
  \<^item> \<^verbatim>\<open>K_Blk\<close>: the storage of \<^verbatim>\<open>fs/fat.rs\<close> over a block device refines a sequence of bytes with a position.
  \<^item> \<^verbatim>\<open>K_Inode\<close>, \<^verbatim>\<open>K_Inode_Props\<close>: \<^verbatim>\<open>fs/inode.rs\<close>; path lookup through the cache refines walking the directories; a
    file is told from others by what the library keeps of its handle, a parameter.
  \<^item> \<^verbatim>\<open>K_Fs_Calls\<close>, \<^verbatim>\<open>K_Fs_Inv\<close>, \<^verbatim>\<open>K_Fs_Props\<close>: \<^verbatim>\<open>sys_fs.rs\<close> with the descriptor table of \<^verbatim>\<open>task.rs\<close>; the writers of
    pipes are counted rightly under every sequence of calls.
  \<^item> \<^verbatim>\<open>K_Stat\<close>: \<^verbatim>\<open>sys_newfstatat\<close> with its structure and dates.
  \<^item> \<^verbatim>\<open>C_Rand\<close>, \<^verbatim>\<open>C_Rand_Period\<close>, \<^verbatim>\<open>C_Rand_Props\<close>, \<^verbatim>\<open>C_Rand_Table\<close>, \<^verbatim>\<open>C_Rand_Choose\<close>: \<^verbatim>\<open>common/rand.c\<close> and the random
    test of \<^verbatim>\<open>functional/qsort.c\<close>; the generator has full period, so that the loops that draw numbers end.
  \<^item> \<^verbatim>\<open>C_Vmfill\<close>, \<^verbatim>\<open>C_Vmfill_Props\<close>: \<^verbatim>\<open>vmfill.c\<close>, \<^verbatim>\<open>memfill.c\<close>, \<^verbatim>\<open>fdfill.c\<close>, \<^verbatim>\<open>setrlim.c\<close>, \<^verbatim>\<open>print.c\<close> of \<^verbatim>\<open>common\<close>; the
    bisection finds the largest mapping, and the mappings made are those that are stored.

  \<^bold>\<open>Interfaces.\<close>  Each provider states what it promises as a locale that is interpreted on its model: the
  buddy allocator for the page layer, the ordered map for regions and pages, the byte queue for pipes,
  the set for bitmaps, the families of tests for the test programs.

  \<^bold>\<open>Not modelled.\<close>  Device drivers, firmware calls, assembly other than the context switch, logging, the FAT
  library and the ELF parser (both appear as parameters), the copy-on-write variant of fork (a feature that is
  off), the second processor, and interrupts that arrive inside the kernel: a system call is one step unless it
  gives up the processor.  The lock of an open file, which is held during a transfer, is not modelled: two tasks that
  wait on the same end of a pipe through one file are outside the model.  execve, the first user task and the
  dispatch of system calls are left out.  Of libc-test, the tests without a table call one library
  function each and have no logic to verify; the last branch of \<^verbatim>\<open>t_choose\<close>, with a hash table, is only shown to be
  right when it returns.
\<close>

end
